(* ===== verification/Js_Base.thy ===== *)
theory Js_Base
  imports Complex_Main "HOL-Library.Char_ord" "HOL-Library.List_Lexorder"
begin

text \<open>
  The part of the JavaScript language and standard library that every modelled module uses:
  strings, the falsy and nullish operators, insertion-ordered \<open>Map\<close> and \<open>Set\<close>, JSON values,
  and the keyed accumulation loop \<open>map.get(k) ?? fresh\<close> / \<open>map.set(k, \<dots>)\<close> that the detectors and
  services are written with.

  Strings are byte lists in UTF-8.  \<open>toLowerCase\<close>, \<open>toUpperCase\<close> and \<open>trim\<close> act on the ASCII
  letters and the ASCII white space; the program applies them to identifiers, addresses, domain
  names and network names.  A value that may be \<open>undefined\<close> or \<open>null\<close> is an \<open>option\<close>.
\<close>

named_theorems js_eval "unfolding of the string primitives on literals"

section \<open>Strings\<close>

definition lower_char :: "char \<Rightarrow> char" where
  "lower_char c = (let n = (of_char c :: nat) in if 65 \<le> n \<and> n \<le> 90 then char_of (n + 32) else c)"

definition upper_char :: "char \<Rightarrow> char" where
  "upper_char c = (let n = (of_char c :: nat) in if 97 \<le> n \<and> n \<le> 122 then char_of (n - 32) else c)"

definition to_lower :: "string \<Rightarrow> string" where
  "to_lower s = map lower_char s"

definition to_upper :: "string \<Rightarrow> string" where
  "to_upper s = map upper_char s"

definition is_space :: "char \<Rightarrow> bool" where
  "is_space c = (let n = (of_char c :: nat) in n = 32 \<or> (9 \<le> n \<and> n \<le> 13))"

definition js_trim :: "string \<Rightarrow> string" where
  "js_trim s = rev (dropWhile is_space (rev (dropWhile is_space s)))"

definition starts_with :: "string \<Rightarrow> string \<Rightarrow> bool" where
  "starts_with p s = (take (length p) s = p)"

definition ends_with :: "string \<Rightarrow> string \<Rightarrow> bool" where
  "ends_with p s = starts_with (rev p) (rev s)"

fun str_includes :: "string \<Rightarrow> string \<Rightarrow> bool" where
  "str_includes p [] = (p = [])"
| "str_includes p (c # s) = (starts_with p (c # s) \<or> str_includes p s)"

text \<open>\<open>s.split(c)\<close> for a one-character separator: never the empty list.\<close>

fun split_on :: "char \<Rightarrow> string \<Rightarrow> string list" where
  "split_on c [] = [[]]"
| "split_on c (x # xs) =
     (if x = c then [] # split_on c xs
      else (case split_on c xs of [] \<Rightarrow> [[x]] | p # ps \<Rightarrow> (x # p) # ps))"

fun join :: "string \<Rightarrow> string list \<Rightarrow> string" where
  "join sep [] = []"
| "join sep [x] = x"
| "join sep (x # y # ys) = x @ sep @ join sep (y # ys)"

definition is_digit :: "char \<Rightarrow> bool" where
  "is_digit c = (let n = (of_char c :: nat) in 48 \<le> n \<and> n \<le> 57)"

definition digit_char :: "nat \<Rightarrow> char" where
  "digit_char d = char_of (48 + d)"

fun show_nat :: "nat \<Rightarrow> string" where
  "show_nat n = (if n < 10 then [digit_char n] else show_nat (n div 10) @ [digit_char (n mod 10)])"

declare show_nat.simps [simp del]

definition show_int :: "int \<Rightarrow> string" where
  "show_int i = (if i < 0 then CHR ''-'' # show_nat (nat (- i)) else show_nat (nat i))"

lemmas js_string_defs [js_eval] =
  to_lower_def to_upper_def lower_char_def upper_char_def is_space_def js_trim_def
  starts_with_def ends_with_def is_digit_def digit_char_def show_int_def Let_def

lemma starts_with_iff: "starts_with p s \<longleftrightarrow> (\<exists>t. s = p @ t)"
proof
  assume "starts_with p s"
  then have "s = p @ drop (length p) s"
    unfolding starts_with_def by (metis append_take_drop_id)
  then show "\<exists>t. s = p @ t" ..
next
  assume "\<exists>t. s = p @ t"
  then show "starts_with p s" by (auto simp: starts_with_def)
qed

lemma ends_with_iff: "ends_with p s \<longleftrightarrow> (\<exists>t. s = t @ p)"
proof -
  have "ends_with p s \<longleftrightarrow> (\<exists>t. rev s = rev p @ t)"
    by (simp add: ends_with_def starts_with_iff)
  also have "\<dots> \<longleftrightarrow> (\<exists>t. s = t @ p)"
    by (metis rev_append rev_rev_ident)
  finally show ?thesis .
qed

lemma includes_iff: "str_includes p s \<longleftrightarrow> (\<exists>a b. s = a @ p @ b)"
proof (induction s)
  case Nil
  then show ?case by simp
next
  case (Cons c s)
  show ?case
  proof
    assume "str_includes p (c # s)"
    then consider t where "c # s = p @ t" | "str_includes p s"
      by (auto simp: starts_with_iff)
    then show "\<exists>a b. c # s = a @ p @ b"
    proof cases
      case 1
      then have "c # s = [] @ p @ t" by simp
      then show ?thesis by blast
    next
      case 2
      with Cons obtain a b where "s = a @ p @ b" by blast
      then have "c # s = (c # a) @ p @ b" by simp
      then show ?thesis by blast
    qed
  next
    assume "\<exists>a b. c # s = a @ p @ b"
    then obtain a b where ab: "c # s = a @ p @ b" by blast
    show "str_includes p (c # s)"
    proof (cases a)
      case Nil
      with ab have "starts_with p (c # s)" by (simp add: starts_with_iff)
      then show ?thesis by simp
    next
      case (Cons x a')
      with ab have "s = a' @ p @ b" by simp
      with Cons.IH show ?thesis by auto
    qed
  qed
qed

lemma split_on_ne [simp]: "split_on c s \<noteq> []"
  by (induction s) (auto split: list.splits)

lemma split_on_no_sep: "c \<notin> set s \<Longrightarrow> split_on c s = [s]"
  by (induction s) auto

lemma split_on_append: "c \<notin> set a \<Longrightarrow> split_on c (a @ c # s) = a # split_on c s"
  by (induction a) auto

lemma split_on_parts: "p \<in> set (split_on c s) \<Longrightarrow> c \<notin> set p"
  by (induction s arbitrary: p) (auto split: if_splits list.splits)

lemma split_on_join:
  "xs \<noteq> [] \<Longrightarrow> \<forall>x \<in> set xs. c \<notin> set x \<Longrightarrow> split_on c (join [c] xs) = xs"
proof (induction "[c]" xs rule: join.induct)
  case (3 x y ys)
  then have "split_on c (x @ c # join [c] (y # ys)) = x # split_on c (join [c] (y # ys))"
    by (intro split_on_append) simp
  with 3 show ?case by simp
qed (auto simp: split_on_no_sep)

lemma join_split_on: "join [c] (split_on c s) = s"
proof (induction s)
  case (Cons x xs)
  obtain p ps where p: "split_on c xs = p # ps" by (cases "split_on c xs") auto
  with Cons show ?case by (cases ps) auto
qed simp

text \<open>A key made of two parts around a separator is unambiguous when the second part has none.\<close>

lemma takeWhile_rev_sep:
  "c \<notin> set b \<Longrightarrow> takeWhile (\<lambda>x. x \<noteq> c) (rev (a @ c # b)) = rev b"
  by (subst rev_append, subst rev.simps, subst append_assoc, subst takeWhile_append2) auto

lemma sep_inject:
  assumes "a @ c # b = a' @ c # b'" "c \<notin> set b" "c \<notin> set b'"
  shows "a = a' \<and> b = b'"
proof -
  from takeWhile_rev_sep [OF assms(2), of a] takeWhile_rev_sep [OF assms(3), of a'] assms(1)
  have "b = b'" by (metis rev_is_rev_conv)
  with assms(1) show ?thesis by simp
qed

lemma lower_char_idem [simp]: "lower_char (lower_char c) = lower_char c"
proof (cases "65 \<le> (of_char c :: nat) \<and> (of_char c :: nat) \<le> 90")
  case True
  then have "lower_char c = char_of ((of_char c :: nat) + 32)"
    by (simp add: lower_char_def Let_def)
  moreover have "(of_char (char_of ((of_char c :: nat) + 32) :: char) :: nat) = of_char c + 32"
    using True by simp
  ultimately show ?thesis using True by (simp add: lower_char_def Let_def)
next
  case False
  then show ?thesis by (auto simp: lower_char_def Let_def)
qed

lemma to_lower_idem [simp]: "to_lower (to_lower s) = to_lower s"
  by (simp add: to_lower_def)

lemma to_lower_append [simp]: "to_lower (s @ t) = to_lower s @ to_lower t"
  by (simp add: to_lower_def)

lemma to_lower_Nil [simp]: "to_lower [] = []"
  by (simp add: to_lower_def)

lemma to_lower_eq_Nil [simp]: "to_lower s = [] \<longleftrightarrow> s = []"
  by (simp add: to_lower_def)

lemma show_nat_ne [simp]: "show_nat n \<noteq> []"
  by (subst show_nat.simps) simp

section \<open>Falsy and nullish values\<close>

text \<open>
  \<open>truthy\<close> is the test of an optional string (\<open>undefined\<close>, \<open>null\<close> and the empty string are falsy);
  \<open>str_or\<close> is \<open>a || b\<close>; \<open>nullish\<close> is \<open>a ?? b\<close>.
\<close>

definition truthy :: "string option \<Rightarrow> bool" where
  "truthy s = (case s of None \<Rightarrow> False | Some t \<Rightarrow> t \<noteq> [])"

definition str_or :: "string option \<Rightarrow> string option \<Rightarrow> string option" where
  "str_or a b = (if truthy a then a else b)"

definition str_dflt :: "string option \<Rightarrow> string \<Rightarrow> string" where
  "str_dflt a d = (case a of None \<Rightarrow> d | Some t \<Rightarrow> if t = [] then d else t)"

definition nullish :: "'a option \<Rightarrow> 'a option \<Rightarrow> 'a option" where
  "nullish a b = (case a of None \<Rightarrow> b | Some _ \<Rightarrow> a)"

definition dflt :: "'a \<Rightarrow> 'a option \<Rightarrow> 'a" where
  "dflt d a = (case a of None \<Rightarrow> d | Some x \<Rightarrow> x)"

lemma truthy_simps [simp]:
  "\<not> truthy None" "truthy (Some t) \<longleftrightarrow> t \<noteq> []"
  by (simp_all add: truthy_def)

lemma str_or_simps [simp]:
  "str_or None b = b" "str_or (Some []) b = b" "t \<noteq> [] \<Longrightarrow> str_or (Some t) b = Some t"
  by (simp_all add: str_or_def)

lemma str_dflt_simps [simp]:
  "str_dflt None d = d" "str_dflt (Some []) d = d" "t \<noteq> [] \<Longrightarrow> str_dflt (Some t) d = t"
  by (simp_all add: str_dflt_def)

lemma nullish_simps [simp]: "nullish None b = b" "nullish (Some x) b = Some x"
  by (simp_all add: nullish_def)

lemma dflt_simps [simp]: "dflt d None = d" "dflt d (Some x) = x"
  by (simp_all add: dflt_def)

lemma str_dflt_ne: "d \<noteq> [] \<Longrightarrow> str_dflt a d \<noteq> []"
  by (simp add: str_dflt_def split: option.split)

section \<open>Insertion-ordered sets\<close>

text \<open>A \<open>Set\<close> as the list of its elements in insertion order: \<open>add\<close> appends a new element.\<close>

definition os_add :: "'a \<Rightarrow> 'a list \<Rightarrow> 'a list" where
  "os_add x xs = (if x \<in> set xs then xs else xs @ [x])"

definition os_of :: "'a list \<Rightarrow> 'a list" where
  "os_of xs = foldl (\<lambda>s x. os_add x s) [] xs"

lemma set_os_add [simp]: "set (os_add x xs) = insert x (set xs)"
  by (auto simp: os_add_def)

lemma distinct_os_add [simp]: "distinct xs \<Longrightarrow> distinct (os_add x xs)"
  by (simp add: os_add_def)

lemma set_foldl_os_add [simp]: "set (foldl (\<lambda>s x. os_add x s) s xs) = set s \<union> set xs"
  by (induction xs arbitrary: s) auto

lemma distinct_foldl_os_add [simp]: "distinct s \<Longrightarrow> distinct (foldl (\<lambda>s x. os_add x s) s xs)"
  by (induction xs arbitrary: s) auto

lemma set_os_of [simp]: "set (os_of xs) = set xs"
  by (simp add: os_of_def)

lemma distinct_os_of [simp]: "distinct (os_of xs)"
  by (simp add: os_of_def)

lemma length_os_of: "length (os_of xs) = card (set xs)"
  by (metis distinct_card distinct_os_of set_os_of)

lemma os_of_snoc: "os_of (xs @ [x]) = os_add x (os_of xs)"
  by (simp add: os_of_def)

section \<open>JSON values\<close>

text \<open>
  \<open>JUndef\<close> is \<open>undefined\<close> (JSON text drops it); \<open>JBig\<close> is a \<open>BigInt\<close>, which JSON cannot carry.
\<close>

datatype json =
    JUndef
  | JNull
  | JBool bool
  | JNum rat
  | JBig int
  | JStr string
  | JArr "json list"
  | JObj "(string \<times> json) list"

definition js_opt_str :: "string option \<Rightarrow> json" where
  "js_opt_str s = (case s of None \<Rightarrow> JNull | Some t \<Rightarrow> JStr t)"

definition js_int :: "int \<Rightarrow> json" where
  "js_int i = JNum (of_int i)"

fun has_bigint :: "json \<Rightarrow> bool" where
  "has_bigint (JBig _) = True"
| "has_bigint (JArr xs) = (\<exists>x \<in> set xs. has_bigint x)"
| "has_bigint (JObj kvs) = (\<exists>kv \<in> set kvs. has_bigint (snd kv))"
| "has_bigint _ = False"

end
