(* ===== verification/Js_Map.thy ===== *)
theory Js_Map
  imports Js_Base
begin

text \<open>
  JavaScript's \<open>Map\<close>: an association list in insertion order, where \<open>set\<close> overwrites an existing
  key in place and appends a new one.  The locale \<open>js_map\<close> is the contract the program relies
  on (what \<open>get\<close> returns after a \<open>set\<close>, the order of the keys); the client lemmas about the
  accumulation loop are proved once inside it and interpreted on the list implementation.
\<close>

fun om_set :: "'k \<Rightarrow> 'v \<Rightarrow> ('k \<times> 'v) list \<Rightarrow> ('k \<times> 'v) list" where
  "om_set k v [] = [(k, v)]"
| "om_set k v ((k', v') # m) = (if k' = k then (k, v) # m else (k', v') # om_set k v m)"

definition om_get :: "('k \<times> 'v) list \<Rightarrow> 'k \<Rightarrow> 'v option" where
  "om_get m k = map_of m k"

definition om_keys :: "('k \<times> 'v) list \<Rightarrow> 'k list" where
  "om_keys m = map fst m"

definition om_values :: "('k \<times> 'v) list \<Rightarrow> 'v list" where
  "om_values m = map snd m"

text \<open>\<open>new Map(entries)\<close>: every entry is \<open>set\<close> in turn, so a later duplicate key wins.\<close>

definition om_of :: "('k \<times> 'v) list \<Rightarrow> ('k \<times> 'v) list" where
  "om_of kvs = foldl (\<lambda>m kv. om_set (fst kv) (snd kv) m) [] kvs"

lemma om_get_Nil [simp]: "om_get [] k = None"
  by (simp add: om_get_def)

lemma om_get_set: "om_get (om_set k v m) k' = (if k' = k then Some v else om_get m k')"
  by (induction m) (auto simp: om_get_def)

lemma om_keys_Nil [simp]: "om_keys [] = []"
  by (simp add: om_keys_def)

lemma om_keys_Cons [simp]: "om_keys ((k, v) # m) = k # om_keys m"
  by (simp add: om_keys_def)

lemma om_keys_set: "om_keys (om_set k v m) = os_add k (om_keys m)"
  by (induction k v m rule: om_set.induct) (auto simp: os_add_def)

lemma set_om_keys_set [simp]: "set (om_keys (om_set k v m)) = insert k (set (om_keys m))"
  by (simp add: om_keys_set)

lemma distinct_om_set [simp]: "distinct (om_keys m) \<Longrightarrow> distinct (om_keys (om_set k v m))"
  by (simp add: om_keys_set)

lemma om_get_Some_key: "om_get m k = Some v \<Longrightarrow> k \<in> set (om_keys m)"
  by (auto simp: om_get_def om_keys_def dest: map_of_SomeD intro: rev_image_eqI)

lemma om_get_None_iff: "om_get m k = None \<longleftrightarrow> k \<notin> set (om_keys m)"
  by (simp add: om_get_def om_keys_def map_of_eq_None_iff)

lemma om_values_eq:
  "distinct (om_keys m) \<Longrightarrow> om_values m = map (\<lambda>k. the (om_get m k)) (om_keys m)"
proof (induction m)
  case Nil
  then show ?case by (simp add: om_values_def)
next
  case (Cons kv m)
  obtain k v where kv: "kv = (k, v)" by (cases kv)
  have "map (\<lambda>k'. the (om_get ((k, v) # m) k')) (om_keys m) = map (\<lambda>k'. the (om_get m k')) (om_keys m)"
    using Cons.prems kv by (auto simp: om_get_def)
  then show ?case using Cons kv by (simp add: om_values_def om_get_def)
qed

lemma set_om_values:
  "distinct (om_keys m) \<Longrightarrow> v \<in> set (om_values m) \<longleftrightarrow> (\<exists>k. om_get m k = Some v)"
  by (force simp: om_values_def om_keys_def om_get_def)

lemma om_get_of: "om_get (om_of kvs) k = map_of (rev kvs) k"
proof -
  have "om_get (foldl (\<lambda>m kv. om_set (fst kv) (snd kv) m) m0 kvs) k
      = (case map_of (rev kvs) k of None \<Rightarrow> om_get m0 k | Some v \<Rightarrow> Some v)" for m0
    by (induction kvs arbitrary: m0)
      (auto simp: om_get_set map_add_def split: option.splits)
  then show ?thesis by (simp add: om_of_def split: option.splits)
qed

lemma distinct_om_of: "distinct (om_keys (om_of kvs))"
proof -
  have "distinct (om_keys m0) \<Longrightarrow>
      distinct (om_keys (foldl (\<lambda>m kv. om_set (fst kv) (snd kv) m) m0 kvs))"
    for m0 :: "('a \<times> 'b) list"
    by (induction kvs arbitrary: m0) auto
  from this [of "[]"] show ?thesis by (simp add: om_of_def om_keys_def)
qed

lemma om_get_of_map:
  assumes "x \<in> set xs" "\<And>y. y \<in> set xs \<Longrightarrow> key y = key x \<Longrightarrow> val y = val x"
  shows "om_get (om_of (map (\<lambda>x. (key x, val x)) xs)) (key x) = Some (val x)"
proof -
  let ?l = "rev (map (\<lambda>x. (key x, val x)) xs)"
  have "(key x, val x) \<in> set ?l" unfolding set_rev set_map by (rule rev_image_eqI [OF assms(1)]) simp
  then have "map_of ?l (key x) \<noteq> None" unfolding map_of_eq_None_iff by (metis fst_conv imageI)
  then obtain v where v: "map_of ?l (key x) = Some v" by blast
  from map_of_SomeD [OF v] obtain y where "y \<in> set xs" "key y = key x" "v = val y"
    unfolding set_rev set_map by auto
  with assms(2) v show ?thesis unfolding om_get_of by simp
qed

lemma om_get_of_map_None: "k \<notin> key ` set xs \<Longrightarrow> om_get (om_of (map (\<lambda>x. (key x, val x)) xs)) k = None"
  unfolding om_get_of map_of_eq_None_iff by auto

lemma om_keys_of: "om_keys (om_of kvs) = os_of (map fst kvs)"
proof -
  have "om_keys (foldl (\<lambda>m kv. om_set (fst kv) (snd kv) m) m0 kvs) = foldl (\<lambda>s x. os_add x s) (om_keys m0) (map fst kvs)"
    for m0 :: "('a \<times> 'b) list"
    by (induction kvs arbitrary: m0) (simp_all add: om_keys_set)
  then show ?thesis by (simp add: om_of_def os_of_def)
qed

section \<open>The contract of a map and the accumulation loop\<close>

text \<open>
  The loop every detector runs over its rows:
  \<^verbatim>\<open>
    for (const row of rows) {
      if (!accept(row)) continue;
      const k = key(row);
      const bucket = map.get(k) ?? fresh(row);   // or: if (existing) { ...; continue; }
      map.set(k, add(row, bucket));
    }
  \<close>
  \<open>fresh\<close> is the value stored for the first row of a key, \<open>add\<close> the update of the value that is
  already there.
\<close>

definition accum_step ::
  "('r \<Rightarrow> bool) \<Rightarrow> ('r \<Rightarrow> 'k) \<Rightarrow> ('r \<Rightarrow> 'v) \<Rightarrow> ('r \<Rightarrow> 'v \<Rightarrow> 'v) \<Rightarrow>
   ('k \<times> 'v) list \<Rightarrow> 'r \<Rightarrow> ('k \<times> 'v) list" where
  "accum_step accept key fresh add m r =
     (if accept r then
        (case om_get m (key r) of
           None \<Rightarrow> om_set (key r) (fresh r) m
         | Some v \<Rightarrow> om_set (key r) (add r v) m)
      else m)"

definition accum ::
  "('r \<Rightarrow> bool) \<Rightarrow> ('r \<Rightarrow> 'k) \<Rightarrow> ('r \<Rightarrow> 'v) \<Rightarrow> ('r \<Rightarrow> 'v \<Rightarrow> 'v) \<Rightarrow> 'r list \<Rightarrow> ('k \<times> 'v) list"
where
  "accum accept key fresh add rows = foldl (accum_step accept key fresh add) [] rows"

text \<open>The rows that land in one bucket, in order.\<close>

definition rows_of :: "('r \<Rightarrow> bool) \<Rightarrow> ('r \<Rightarrow> 'k) \<Rightarrow> 'k \<Rightarrow> 'r list \<Rightarrow> 'r list" where
  "rows_of accept key k rows = filter (\<lambda>r. accept r \<and> key r = k) rows"

definition bucket_of :: "('r \<Rightarrow> 'v) \<Rightarrow> ('r \<Rightarrow> 'v \<Rightarrow> 'v) \<Rightarrow> 'r list \<Rightarrow> 'v option" where
  "bucket_of fresh add rs =
     (case rs of [] \<Rightarrow> None | r # rs' \<Rightarrow> Some (foldl (\<lambda>v r. add r v) (fresh r) rs'))"

lemma bucket_of_snoc:
  "bucket_of fresh add (rs @ [r]) =
     Some (case bucket_of fresh add rs of None \<Rightarrow> fresh r | Some v \<Rightarrow> add r v)"
  by (cases rs) (auto simp: bucket_of_def)

locale js_map =
  fixes get :: "'m \<Rightarrow> 'k \<Rightarrow> 'v option"
    and put :: "'k \<Rightarrow> 'v \<Rightarrow> 'm \<Rightarrow> 'm"
    and keys :: "'m \<Rightarrow> 'k list"
    and vals :: "'m \<Rightarrow> 'v list"
    and empty :: 'm
  assumes get_put: "get (put k v m) k' = (if k' = k then Some v else get m k')"
    and get_empty: "get empty k = None"
    and keys_empty: "keys empty = []"
    and keys_put: "keys (put k v m) = os_add k (keys m)"
    and get_None: "get m k = None \<longleftrightarrow> k \<notin> set (keys m)"
    and vals_eq: "distinct (keys m) \<Longrightarrow> vals m = map (\<lambda>k. the (get m k)) (keys m)"
begin

fun loop where
  "loop accept key fresh add m [] = m"
| "loop accept key fresh add m (r # rs) =
     loop accept key fresh add
       (if accept r then put (key r) (case get m (key r) of None \<Rightarrow> fresh r | Some v \<Rightarrow> add r v) m
        else m) rs"

lemma loop_append:
  "loop accept key fresh add m (rs @ rs') =
     loop accept key fresh add (loop accept key fresh add m rs) rs'"
  by (induction rs arbitrary: m) auto

lemma get_loop:
  "get (loop accept key fresh add empty rows) k
     = bucket_of fresh add (rows_of accept key k rows)"
proof (induction rows rule: rev_induct)
  case Nil
  then show ?case by (simp add: get_empty rows_of_def bucket_of_def)
next
  case (snoc r rows)
  show ?case
  proof (cases "accept r \<and> key r = k")
    case True
    then have "rows_of accept key k (rows @ [r]) = rows_of accept key k rows @ [r]"
      by (simp add: rows_of_def)
    with True snoc show ?thesis
      by (simp add: loop_append bucket_of_snoc get_put)
  next
    case False
    then have "rows_of accept key k (rows @ [r]) = rows_of accept key k rows"
      by (auto simp: rows_of_def)
    with False snoc show ?thesis
      by (auto simp: loop_append get_put)
  qed
qed

lemma keys_loop:
  "keys (loop accept key fresh add empty rows) = os_of (map key (filter accept rows))"
proof (induction rows rule: rev_induct)
  case Nil
  then show ?case by (simp add: keys_empty os_of_def)
next
  case (snoc r rows)
  then show ?case by (simp add: loop_append keys_put os_of_snoc)
qed

lemma distinct_keys_loop: "distinct (keys (loop accept key fresh add empty rows))"
  by (simp add: keys_loop)

lemma vals_loop:
  "vals (loop accept key fresh add empty rows) =
     map (\<lambda>k. the (bucket_of fresh add (rows_of accept key k rows)))
       (os_of (map key (filter accept rows)))"
  by (subst vals_eq [OF distinct_keys_loop]) (simp add: keys_loop get_loop)

end

interpretation om: js_map om_get om_set om_keys om_values "[]"
  by unfold_locales
    (simp_all add: om_get_set om_keys_set om_get_None_iff om_values_eq)

lemma accum_step_put:
  "accum_step accept key fresh add m r =
     (if accept r
      then om_set (key r) (case om_get m (key r) of None \<Rightarrow> fresh r | Some v \<Rightarrow> add r v) m
      else m)"
  by (simp add: accum_step_def split: option.split)

lemma accum_loop: "accum accept key fresh add rows = om.loop accept key fresh add [] rows"
proof -
  have "foldl (accum_step accept key fresh add) m rows = om.loop accept key fresh add m rows" for m
    by (induction rows arbitrary: m) (simp_all add: accum_step_put)
  then show ?thesis by (simp add: accum_def)
qed

lemma om_get_accum:
  "om_get (accum accept key fresh add rows) k = bucket_of fresh add (rows_of accept key k rows)"
  by (simp add: accum_loop om.get_loop)

lemma om_keys_accum:
  "om_keys (accum accept key fresh add rows) = os_of (map key (filter accept rows))"
  by (simp add: accum_loop om.keys_loop)

lemma distinct_om_keys_accum [simp]: "distinct (om_keys (accum accept key fresh add rows))"
  by (simp add: om_keys_accum)

lemma accum_mem:
  "(k, v) \<in> set (accum accept key fresh add rows) \<longleftrightarrow>
     bucket_of fresh add (rows_of accept key k rows) = Some v"
proof -
  have "(k, v) \<in> set (accum accept key fresh add rows) \<longleftrightarrow>
      om_get (accum accept key fresh add rows) k = Some v"
    using distinct_om_keys_accum [of accept key fresh add rows]
    by (simp add: om_get_def om_keys_def)
  then show ?thesis by (simp add: om_get_accum)
qed

lemma bucket_ofE:
  assumes "bucket_of fresh add rs = Some v"
  obtains r rs' where "rs = r # rs'" "v = foldl (\<lambda>v r. add r v) (fresh r) rs'"
  using assms by (auto simp: bucket_of_def split: list.splits)

text \<open>Induction over the rows of one bucket: what holds of the fresh value and is kept by every
  addition holds of the bucket, for the list of rows seen so far.\<close>

lemma bucket_of_induct:
  assumes b: "bucket_of fresh add rs = Some v"
    and fresh: "\<And>r. r \<in> set rs \<Longrightarrow> P [r] (fresh r)"
    and add: "\<And>seen r w. seen \<noteq> [] \<Longrightarrow> r \<in> set rs \<Longrightarrow> set seen \<subseteq> set rs \<Longrightarrow> P seen w \<Longrightarrow>
        P (seen @ [r]) (add r w)"
  shows "P rs v"
  using b fresh add
proof (induction rs arbitrary: v rule: rev_induct)
  case Nil
  then show ?case by (simp add: bucket_of_def)
next
  case (snoc r rs)
  show ?case
  proof (cases "bucket_of fresh add rs")
    case None
    then have "rs = []" by (simp add: bucket_of_def split: list.splits)
    with snoc.prems show ?thesis by (auto simp: bucket_of_def)
  next
    case (Some w)
    have ne: "rs \<noteq> []" using Some by (auto simp: bucket_of_def)
    have "P rs w"
    proof (rule snoc.IH [OF Some])
      show "\<And>r. r \<in> set rs \<Longrightarrow> P [r] (fresh r)" using snoc.prems(2) by simp
      show "\<And>seen r w. seen \<noteq> [] \<Longrightarrow> r \<in> set rs \<Longrightarrow> set seen \<subseteq> set rs \<Longrightarrow> P seen w \<Longrightarrow>
          P (seen @ [r]) (add r w)" using snoc.prems(3) by (simp add: subset_insertI2)
    qed
    moreover have "v = add r w" using snoc.prems(1) Some by (simp add: bucket_of_snoc)
    ultimately show ?thesis using snoc.prems(3) [OF ne, of r w] by (simp add: subset_insertI)
  qed
qed

lemma bucket_of_Some_iff: "(\<exists>v. bucket_of fresh add rs = Some v) \<longleftrightarrow> rs \<noteq> []"
  by (cases rs) (auto simp: bucket_of_def)

lemma rows_of_ne: "rows_of accept key k rows \<noteq> [] \<longleftrightarrow> (\<exists>r \<in> set rows. accept r \<and> key r = k)"
  by (auto simp: rows_of_def filter_empty_conv)

lemma rows_of_append: "rows_of accept key k (xs @ ys) = rows_of accept key k xs @ rows_of accept key k ys"
  by (simp add: rows_of_def)

end
