(* ===== verification/Keyed_Table.thy ===== *)
theory Keyed_Table
  imports Js_Map
begin

text \<open>
  The interface of a database table with a unique key, as the services use it: \<open>upsert\<close> either
  updates the row that has the key or appends a new row.  The locale states the contract of one
  upsert (which rows it keeps, what it stores at its key); the client lemmas follow a sequence of
  upserts.  The services that provide an upsert interpret it on their own definitions.
\<close>

definition row_at :: "('r \<Rightarrow> 'k) \<Rightarrow> 'k \<Rightarrow> 'r list \<Rightarrow> 'r option" where
  "row_at key k t = find (\<lambda>r. key r = k) t"

lemma row_at_None: "row_at key k t = None \<longleftrightarrow> k \<notin> key ` set t"
  by (auto simp: row_at_def find_None_iff)

lemma row_at_Some: "row_at key k t = Some r \<Longrightarrow> r \<in> set t \<and> key r = k"
  by (auto simp: row_at_def find_Some_iff)

lemma row_at_iff:
  "distinct (map key t) \<Longrightarrow> row_at key k t = Some r \<longleftrightarrow> r \<in> set t \<and> key r = k"
proof (induction t)
  case Nil
  then show ?case by (simp add: row_at_def)
next
  case (Cons r' t)
  then show ?case by (force simp: row_at_def)
qed

lemma row_at_append:
  "row_at key k (t @ t') = (case row_at key k t of None \<Rightarrow> row_at key k t' | Some r \<Rightarrow> Some r)"
  by (induction t) (auto simp: row_at_def)

lemma row_at_map:
  "(\<And>r. r \<in> set t \<Longrightarrow> key (f r) = key r) \<Longrightarrow> row_at key k (map f t) = map_option f (row_at key k t)"
  by (induction t) (auto simp: row_at_def)

lemma row_at_single [simp]:
  "row_at key k [] = None" "row_at key k [r] = (if key r = k then Some r else None)"
  by (simp_all add: row_at_def)

locale keyed_table =
  fixes key :: "'r \<Rightarrow> 'k"
    and inkey :: "'x \<Rightarrow> 'k"
    and fresh :: "'x \<Rightarrow> 'r"
    and upd :: "'x \<Rightarrow> 'r \<Rightarrow> 'r"
    and upsert :: "'r list \<Rightarrow> 'x \<Rightarrow> 'r list"
  assumes key_fresh: "key (fresh x) = inkey x"
    and key_upd: "key (upd x r) = key r"
    and upsert_new: "row_at key (inkey x) t = None \<Longrightarrow> upsert t x = t @ [fresh x]"
    and upsert_old: "row_at key (inkey x) t = Some r \<Longrightarrow>
      upsert t x = map (\<lambda>r. if key r = inkey x then upd x r else r) t"
begin

lemma keys_upsert: "map key (upsert t x) = os_add (inkey x) (map key t)"
proof (cases "row_at key (inkey x) t")
  case None
  then show ?thesis by (simp add: upsert_new row_at_None os_add_def key_fresh)
next
  case (Some r)
  then have "inkey x \<in> key ` set t" by (force dest: row_at_Some)
  then show ?thesis using Some by (simp add: upsert_old os_add_def key_upd o_def if_distrib cong: if_cong)
qed

lemma row_at_upsert:
  "row_at key k (upsert t x) =
     (if k = inkey x then Some (case row_at key k t of None \<Rightarrow> fresh x | Some r \<Rightarrow> upd x r)
      else row_at key k t)"
proof (cases "row_at key (inkey x) t")
  case None
  then show ?thesis
    by (auto simp: upsert_new row_at_append key_fresh split: option.splits)
next
  case (Some r)
  have "row_at key k (map (\<lambda>r. if key r = inkey x then upd x r else r) t)
      = map_option (\<lambda>r. if key r = inkey x then upd x r else r) (row_at key k t)"
    by (rule row_at_map) (simp add: key_upd)
  with Some show ?thesis
    by (cases "row_at key k t") (auto simp: upsert_old dest: row_at_Some)
qed

lemma keys_upserts: "map key (foldl upsert t xs) = foldl (\<lambda>s x. os_add x s) (map key t) (map inkey xs)"
  by (induction xs arbitrary: t) (simp_all add: keys_upsert)

lemma distinct_upserts: "distinct (map key t) \<Longrightarrow> distinct (map key (foldl upsert t xs))"
  by (simp add: keys_upserts)

lemma set_keys_upserts: "key ` set (foldl upsert t xs) = key ` set t \<union> inkey ` set xs"
proof -
  have "set (map key (foldl upsert t xs)) = set (map key t) \<union> set (map inkey xs)"
    unfolding keys_upserts by simp
  then show ?thesis by simp
qed

lemma length_upserts:
  assumes "distinct (map key t)"
  shows "length (foldl upsert t xs) = card (key ` set t \<union> inkey ` set xs)"
  using distinct_card [OF distinct_upserts [OF assms, of xs]]
  by (simp add: set_keys_upserts)

lemma row_at_upserts:
  "row_at key k (foldl upsert t xs) =
     foldl (\<lambda>o' x. Some (case o' of None \<Rightarrow> fresh x | Some r \<Rightarrow> upd x r)) (row_at key k t)
       (filter (\<lambda>x. inkey x = k) xs)"
  by (induction xs arbitrary: t) (auto simp: row_at_upsert)

lemma row_at_upserts_old:
  assumes "row_at key k t = Some r"
  shows "row_at key k (foldl upsert t xs) = Some (foldl (\<lambda>r x. upd x r) r (filter (\<lambda>x. inkey x = k) xs))"
proof -
  have "foldl (\<lambda>o' x. Some (case o' of None \<Rightarrow> fresh x | Some r \<Rightarrow> upd x r)) (Some r) ys
      = Some (foldl (\<lambda>r x. upd x r) r ys)" for ys
    by (induction ys arbitrary: r) auto
  then show ?thesis by (simp add: row_at_upserts assms)
qed

lemma row_at_upserts_new:
  assumes "row_at key k t = None" "filter (\<lambda>x. inkey x = k) xs = x # ys"
  shows "row_at key k (foldl upsert t xs) = Some (foldl (\<lambda>r x. upd x r) (fresh x) ys)"
proof -
  have "foldl (\<lambda>o' x. Some (case o' of None \<Rightarrow> fresh x | Some r \<Rightarrow> upd x r)) (Some r) ys
      = Some (foldl (\<lambda>r x. upd x r) r ys)" for r
    by (induction ys arbitrary: r) auto
  then show ?thesis by (simp add: row_at_upserts assms)
qed

lemma row_at_upserts_other:
  "k \<notin> inkey ` set xs \<Longrightarrow> row_at key k (foldl upsert t xs) = row_at key k t"
  by (subst row_at_upserts, subst filter_False) auto

end

end
