(* ===== verification/Js_Number.thy ===== *)
theory Js_Number
  imports Js_Base
begin

text \<open>
  JavaScript's conversions from text to numbers: \<open>Number(s)\<close>, \<open>BigInt(s)\<close>, \<open>parseInt(s, 10)\<close>, and the
  detectors' helper that reads a positive threshold from the environment.  A finite number is the
  rational that its decimal text denotes (overflow to \<open>Infinity\<close> is modelled here; the rounding of
  a long decimal to the nearest double is in \<open>Js_Double\<close>, and is applied where sums of such numbers
  decide whether a loop ends).
\<close>

datatype js_num = NaN | Inf bool | Fin rat

definition digit_val :: "char \<Rightarrow> nat option" where
  "digit_val c = (let n = (of_char c :: nat) in
     if 48 \<le> n \<and> n \<le> 57 then Some (n - 48)
     else if 97 \<le> n \<and> n \<le> 122 then Some (n - 87)
     else if 65 \<le> n \<and> n \<le> 90 then Some (n - 55)
     else None)"

fun digits_val :: "nat \<Rightarrow> nat \<Rightarrow> string \<Rightarrow> nat option" where
  "digits_val base acc [] = Some acc"
| "digits_val base acc (c # cs) =
     (case digit_val c of
        Some d \<Rightarrow> if d < base then digits_val base (acc * base + d) cs else None
      | None \<Rightarrow> None)"

definition dec_val :: "string \<Rightarrow> nat" where
  "dec_val s = (case digits_val 10 0 s of Some n \<Rightarrow> n | None \<Rightarrow> 0)"

text \<open>\<open>0x\<dots>\<close>, \<open>0o\<dots>\<close>, \<open>0b\<dots>\<close> literals: no sign, at least one digit.\<close>

definition prefixed_val :: "string \<Rightarrow> nat option option" where
  "prefixed_val s =
     (case s of
        z # x # ds \<Rightarrow>
          if z = CHR ''0'' \<and> lower_char x = CHR ''x'' then Some (if ds = [] then None else digits_val 16 0 ds)
          else if z = CHR ''0'' \<and> lower_char x = CHR ''o'' then Some (if ds = [] then None else digits_val 8 0 ds)
          else if z = CHR ''0'' \<and> lower_char x = CHR ''b'' then Some (if ds = [] then None else digits_val 2 0 ds)
          else None
      | _ \<Rightarrow> None)"

definition split_sign :: "string \<Rightarrow> bool \<times> string" where
  "split_sign s =
     (case s of
        c # cs \<Rightarrow> if c = CHR ''-'' then (True, cs) else if c = CHR ''+'' then (False, cs) else (False, s)
      | [] \<Rightarrow> (False, []))"

text \<open>The exponent part: nothing, or \<open>e\<close> with an optional sign and at least one digit.\<close>

definition exponent_val :: "string \<Rightarrow> int option" where
  "exponent_val s =
     (case s of
        [] \<Rightarrow> Some 0
      | e # r \<Rightarrow>
          if lower_char e = CHR ''e'' then
            (case split_sign r of (neg, ds) \<Rightarrow>
               if ds \<noteq> [] \<and> list_all is_digit ds
               then Some (if neg then - int (dec_val ds) else int (dec_val ds)) else None)
          else None)"

definition pow10 :: "int \<Rightarrow> rat" where
  "pow10 e = (if 0 \<le> e then 10 ^ nat e else 1 / 10 ^ nat (- e))"

definition unsigned_decimal :: "string \<Rightarrow> rat option" where
  "unsigned_decimal s =
     (let ip = takeWhile is_digit s; r = dropWhile is_digit s;
          fp = (case r of c # r' \<Rightarrow> if c = CHR ''.'' then takeWhile is_digit r' else [] | [] \<Rightarrow> []);
          r2 = (case r of c # r' \<Rightarrow> if c = CHR ''.'' then dropWhile is_digit r' else r | [] \<Rightarrow> [])
      in if ip = [] \<and> fp = [] then None
         else (case exponent_val r2 of
                 None \<Rightarrow> None
               | Some e \<Rightarrow> Some (of_nat (dec_val (ip @ fp)) * pow10 (e - int (length fp)))))"

text \<open>Rounding to nearest sends everything from \<open>2 ^ 1024 - 2 ^ 970\<close> on to \<open>Infinity\<close>.\<close>

definition overflows :: "rat \<Rightarrow> bool" where
  "overflows r = (if r < 1000000000000000 then False else 2 ^ 1024 - 2 ^ 970 \<le> r)"

definition js_number :: "string \<Rightarrow> js_num" where
  "js_number s =
     (let t = js_trim s in
      if t = [] then Fin 0
      else (case prefixed_val t of
              Some (Some n) \<Rightarrow> Fin (of_nat n)
            | Some None \<Rightarrow> NaN
            | None \<Rightarrow>
               (case split_sign t of (neg, u) \<Rightarrow>
                  if u = ''Infinity'' then Inf neg
                  else (case unsigned_decimal u of
                          None \<Rightarrow> NaN
                        | Some r \<Rightarrow>
                            if overflows r then Inf neg
                            else Fin (if neg then - r else r)))))"

definition js_bigint :: "string \<Rightarrow> int option" where
  "js_bigint s =
     (let t = js_trim s in
      if t = [] then Some 0
      else (case prefixed_val t of
              Some (Some n) \<Rightarrow> Some (int n)
            | Some None \<Rightarrow> None
            | None \<Rightarrow>
               (case split_sign t of (neg, ds) \<Rightarrow>
                  if ds \<noteq> [] \<and> list_all is_digit ds
                  then Some (if neg then - int (dec_val ds) else int (dec_val ds)) else None)))"

definition js_parse_int :: "string \<Rightarrow> int option" where
  "js_parse_int s =
     (case split_sign (dropWhile is_space s) of (neg, t) \<Rightarrow>
        (let ds = takeWhile is_digit t in
         if ds = [] then None
         else Some (if neg then - int (dec_val ds) else int (dec_val ds))))"

text \<open>Comparison with a number that may be \<open>NaN\<close> is false in both directions.\<close>

fun js_lt :: "js_num \<Rightarrow> js_num \<Rightarrow> bool" where
  "js_lt NaN _ = False"
| "js_lt _ NaN = False"
| "js_lt (Inf neg) (Inf neg') = (neg \<and> \<not> neg')"
| "js_lt (Inf neg) (Fin _) = neg"
| "js_lt (Fin _) (Inf neg) = (\<not> neg)"
| "js_lt (Fin a) (Fin b) = (a < b)"

fun js_le :: "js_num \<Rightarrow> js_num \<Rightarrow> bool" where
  "js_le NaN _ = False"
| "js_le _ NaN = False"
| "js_le (Inf neg) (Inf neg') = (neg \<or> \<not> neg')"
| "js_le (Inf neg) (Fin _) = neg"
| "js_le (Fin _) (Inf neg) = (\<not> neg)"
| "js_le (Fin a) (Fin b) = (a \<le> b)"

type_synonym env = "string \<Rightarrow> string option"

text \<open>\<open>threshold\<close> / \<open>envNumber\<close> of the detectors: a finite positive number, or the fallback.\<close>

definition env_number :: "env \<Rightarrow> string \<Rightarrow> rat \<Rightarrow> rat" where
  "env_number env name fallback =
     (if \<not> truthy (env name) then fallback
      else (case js_number (the (env name)) of
              Fin n \<Rightarrow> if 0 < n then n else fallback
            | _ \<Rightarrow> fallback))"

lemma env_number_pos: "0 < fallback \<Longrightarrow> 0 < env_number env name fallback"
  by (simp add: env_number_def split: js_num.split)

lemma env_number_unset: "env name = None \<Longrightarrow> env_number env name fallback = fallback"
  by (simp add: env_number_def)

lemma js_le_not_lt: "js_le a b \<Longrightarrow> \<not> js_lt b a"
  by (induction a b rule: js_le.induct) auto

lemma digits_val_show_digit: "d < 10 \<Longrightarrow> digit_val (digit_char d) = Some d"
  by (simp add: digit_val_def digit_char_def Let_def)

lemma digits_val_append:
  "digits_val base acc (xs @ ys) =
     (case digits_val base acc xs of None \<Rightarrow> None | Some a \<Rightarrow> digits_val base a ys)"
  by (induction xs arbitrary: acc) (auto split: option.splits)

text \<open>Reading back the decimal text of a number gives the number.\<close>

lemma digits_val_show_nat: "digits_val 10 0 (show_nat n) = Some n"
proof (induction n rule: show_nat.induct)
  case (1 n)
  show ?case
  proof (cases "n < 10")
    case True
    then show ?thesis by (simp add: show_nat.simps digits_val_show_digit)
  next
    case False
    with 1 show ?thesis
      by (simp add: show_nat.simps [of n] digits_val_append digits_val_show_digit)
  qed
qed

lemma show_nat_digits: "c \<in> set (show_nat n) \<Longrightarrow> is_digit c"
proof (induction n rule: show_nat.induct)
  case (1 n)
  have d: "is_digit (digit_char (n mod 10))" for n :: nat
    by (simp add: is_digit_def digit_char_def Let_def)
  show ?case
  proof (cases "n < 10")
    case True
    with 1 d [of n] show ?thesis by (simp add: show_nat.simps)
  next
    case False
    with 1 d [of n] show ?thesis by (auto simp: show_nat.simps [of n])
  qed
qed

lemma dec_val_show_nat [simp]: "dec_val (show_nat n) = n"
  by (simp add: dec_val_def digits_val_show_nat)

lemma show_nat_inject [simp]: "show_nat m = show_nat n \<longleftrightarrow> m = n"
  by (metis dec_val_show_nat)

lemma is_digit_not:
  "is_digit c \<Longrightarrow> \<not> is_space c" "is_digit c \<Longrightarrow> c \<noteq> CHR ''-''" "is_digit c \<Longrightarrow> c \<noteq> CHR ''+''"
  "is_digit c \<Longrightarrow> c \<noteq> CHR ''.''" "is_digit c \<Longrightarrow> c \<noteq> CHR ''/''" "is_digit c \<Longrightarrow> c \<noteq> CHR ''I''"
  by (auto simp: is_digit_def is_space_def Let_def)

lemma is_digit_lower: "is_digit c \<Longrightarrow> lower_char c = c"
  by (auto simp: is_digit_def lower_char_def Let_def)

lemma js_trim_id: "(\<And>c. c \<in> set s \<Longrightarrow> \<not> is_space c) \<Longrightarrow> js_trim s = s"
proof -
  assume a: "\<And>c. c \<in> set s \<Longrightarrow> \<not> is_space c"
  have id: "dropWhile is_space t = t" if "\<And>c. c \<in> set t \<Longrightarrow> \<not> is_space c" for t
    using that by (cases t) auto
  have "dropWhile is_space (rev s) = rev s" by (rule id) (use a in auto)
  then show ?thesis by (simp add: js_trim_def id [OF a])
qed

lemma prefixed_val_digits: "(\<And>c. c \<in> set s \<Longrightarrow> is_digit c) \<Longrightarrow> prefixed_val s = None"
proof -
  assume a: "\<And>c. c \<in> set s \<Longrightarrow> is_digit c"
  show ?thesis
  proof (cases s)
    case (Cons z r)
    show ?thesis
    proof (cases r)
      case (Cons x ds)
      have "is_digit x" using a \<open>s = z # r\<close> Cons by simp
      then have "lower_char x \<noteq> CHR ''x''" "lower_char x \<noteq> CHR ''o''" "lower_char x \<noteq> CHR ''b''"
        by (auto simp: is_digit_lower) (auto simp: is_digit_def Let_def)
      then show ?thesis using \<open>s = z # r\<close> Cons by (simp add: prefixed_val_def)
    qed (simp add: prefixed_val_def \<open>s = z # r\<close>)
  qed (simp add: prefixed_val_def)
qed

text \<open>\<open>Number\<close> and \<open>parseInt\<close> read a decimal text back.\<close>

lemma js_number_show_nat:
  assumes "n < 1000000000000000"
  shows "js_number (show_nat n) = Fin (of_nat n)"
proof -
  let ?s = "show_nat n"
  have digs: "c \<in> set ?s \<Longrightarrow> is_digit c" for c by (rule show_nat_digits)
  have trim: "js_trim ?s = ?s" by (rule js_trim_id) (use digs is_digit_not(1) in blast)
  have pre: "prefixed_val ?s = None" by (rule prefixed_val_digits) (rule digs)
  obtain c cs where s: "?s = c # cs" by (meson neq_Nil_conv show_nat_ne)
  have c: "is_digit c" using digs s by simp
  have sign: "split_sign ?s = (False, ?s)" using is_digit_not(2,3) [OF c] by (simp add: split_sign_def s)
  have "?s \<noteq> ''Infinity''" using is_digit_not(6) [OF c] by (simp add: s)
  moreover have tw: "takeWhile is_digit ?s = ?s" "dropWhile is_digit ?s = []"
    using digs by (auto simp: takeWhile_eq_all_conv dropWhile_eq_Nil_conv)
  then have "unsigned_decimal ?s = Some (of_nat n)"
    unfolding unsigned_decimal_def tw Let_def by (simp add: exponent_val_def pow10_def)
  moreover have "\<not> overflows (of_nat n)"
  proof -
    have "(of_nat n :: rat) < of_nat 1000000000000000" using assms by (simp only: of_nat_less_iff)
    then show ?thesis by (simp add: overflows_def)
  qed
  ultimately show ?thesis by (simp add: js_number_def trim pre sign Let_def)
qed

lemma js_parse_int_show_nat: "js_parse_int (show_nat n) = Some (int n)"
proof -
  let ?s = "show_nat n"
  have digs: "c \<in> set ?s \<Longrightarrow> is_digit c" for c by (rule show_nat_digits)
  obtain c cs where s: "?s = c # cs" by (meson neq_Nil_conv show_nat_ne)
  have c: "is_digit c" using digs s by simp
  have "dropWhile is_space ?s = ?s" using is_digit_not(1) [OF c] by (simp add: s)
  moreover have "split_sign ?s = (False, ?s)" using is_digit_not(2,3) [OF c] by (simp add: split_sign_def s)
  moreover have tw: "takeWhile is_digit ?s = ?s" using digs by (simp only: takeWhile_eq_all_conv) blast
  ultimately show ?thesis unfolding js_parse_int_def Let_def by (simp only: prod.case tw) simp
qed

section \<open>Numbers as text\<close>

text \<open>
  \<open>String(n)\<close> for a terminating decimal between \<open>1e-6\<close> and \<open>1e21\<close> (the exponent notation outside
  that range is not modelled), and \<open>n.toFixed(2)\<close>: the nearest hundredth, the larger on a tie.
\<close>

fun frac_digits :: "nat \<Rightarrow> rat \<Rightarrow> string" where
  "frac_digits 0 r = []"
| "frac_digits (Suc n) r =
     (if r = 0 then []
      else digit_char (nat \<lfloor>10 * r\<rfloor>) # frac_digits n (10 * r - of_int \<lfloor>10 * r\<rfloor>))"

definition show_number :: "rat \<Rightarrow> string" where
  "show_number r =
     (let a = \<bar>r\<bar>; f = a - of_int \<lfloor>a\<rfloor> in
      (if r < 0 then ''-'' else []) @ show_nat (nat \<lfloor>a\<rfloor>) @
      (if f = 0 then [] else CHR ''.'' # frac_digits 17 f))"

definition round2 :: "rat \<Rightarrow> rat" where
  "round2 r = of_int \<lfloor>100 * r + 1 / 2\<rfloor> / 100"

definition to_fixed2 :: "rat \<Rightarrow> string" where
  "to_fixed2 r =
     (let n = nat \<lfloor>100 * r + 1 / 2\<rfloor> in
      show_nat (n div 100) @ CHR ''.'' # [digit_char (n div 10 mod 10), digit_char (n mod 10)])"

lemma show_number_of_nat: "show_number (of_nat n) = show_nat n"
  by (simp add: show_number_def Let_def)

lemma round2_hundredths: "round2 (of_int k / 100) = of_int k / 100"
proof -
  have "\<lfloor>1 / 2 :: rat\<rfloor> = 0" by (simp add: floor_eq_iff)
  then show ?thesis by (simp add: round2_def)
qed

end
