(* ===== verification/Js_Json.thy ===== *)
theory Js_Json
  imports Js_Map Js_Number
begin

text \<open>
  Reading JSON configuration: the fields of an object at the types the source's interfaces declare,
  \<open>JSON.stringify\<close>, and the regular expressions of the source as lists of items with their
  matcher.

  A source interface types a value without checking it.  The readers below give a field that is
  absent, null, or not of its declared type as \<open>None\<close>, which every reader of the source treats as
  falsy or nullish.
\<close>

section \<open>Fields\<close>

definition field :: "(string \<times> json) list \<Rightarrow> string \<Rightarrow> json" where
  "field kvs k = dflt JUndef (om_get kvs k)"

definition obj_fields :: "json \<Rightarrow> (string \<times> json) list" where
  "obj_fields j = (case j of JObj kvs \<Rightarrow> kvs | _ \<Rightarrow> [])"

definition parse_str :: "json \<Rightarrow> string option" where
  "parse_str j = (case j of JStr s \<Rightarrow> Some s | _ \<Rightarrow> None)"

definition get_str :: "(string \<times> json) list \<Rightarrow> string \<Rightarrow> string option" where
  "get_str kvs k = parse_str (field kvs k)"

definition get_bool :: "(string \<times> json) list \<Rightarrow> string \<Rightarrow> bool option" where
  "get_bool kvs k = (case field kvs k of JBool b \<Rightarrow> Some b | _ \<Rightarrow> None)"

definition get_num :: "(string \<times> json) list \<Rightarrow> string \<Rightarrow> rat option" where
  "get_num kvs k = (case field kvs k of JNum q \<Rightarrow> Some q | _ \<Rightarrow> None)"

definition get_arr :: "(string \<times> json) list \<Rightarrow> string \<Rightarrow> json list option" where
  "get_arr kvs k = (case field kvs k of JArr xs \<Rightarrow> Some xs | _ \<Rightarrow> None)"

definition get_strs :: "(string \<times> json) list \<Rightarrow> string \<Rightarrow> string list option" where
  "get_strs kvs k = map_option (\<lambda>xs. concat (map (\<lambda>x. case x of JStr s \<Rightarrow> [s] | _ \<Rightarrow> []) xs)) (get_arr kvs k)"

definition get_obj :: "(string \<times> json) list \<Rightarrow> string \<Rightarrow> (string \<times> json) list" where
  "get_obj kvs k = obj_fields (field kvs k)"

section \<open>Text of a JSON value\<close>

definition hex_digit :: "nat \<Rightarrow> char" where
  "hex_digit d = (if d < 10 then char_of (48 + d) else char_of (87 + d))"

definition escape_char :: "char \<Rightarrow> string" where
  "escape_char c = (let n = (of_char c :: nat) in
     if n = 34 then [CHR 0x5C, CHR 0x22]
     else if n = 92 then [CHR 0x5C, CHR 0x5C]
     else if n = 8 then [CHR 0x5C, CHR ''b'']
     else if n = 9 then [CHR 0x5C, CHR ''t'']
     else if n = 10 then [CHR 0x5C, CHR ''n'']
     else if n = 12 then [CHR 0x5C, CHR ''f'']
     else if n = 13 then [CHR 0x5C, CHR ''r'']
     else if n < 32 then CHR 0x5C # ''u00'' @ [hex_digit (n div 16), hex_digit (n mod 16)]
     else [c])"

definition quote_str :: "string \<Rightarrow> string" where
  "quote_str s = [CHR 0x22] @ concat (map escape_char s) @ [CHR 0x22]"

fun js_stringify :: "json \<Rightarrow> string" where
  "js_stringify JUndef = ''null''"
| "js_stringify JNull = ''null''"
| "js_stringify (JBool b) = (if b then ''true'' else ''false'')"
| "js_stringify (JNum q) = show_number q"
| "js_stringify (JBig i) = show_int i"
| "js_stringify (JStr s) = quote_str s"
| "js_stringify (JArr xs) = ''['' @ join '','' (map js_stringify xs) @ '']''"
| "js_stringify (JObj kvs) =
     ''{'' @ join '','' (concat (map (\<lambda>kv. if snd kv = JUndef then []
                                        else [quote_str (fst kv) @ '':'' @ js_stringify (snd kv)]) kvs)) @ ''}''"

section \<open>Coercions\<close>

text \<open>\<open>Boolean(v)\<close>, \<open>a || b\<close>, \<open>String(v)\<close> and \<open>Number(v)\<close> of a JSON value.\<close>

fun json_truthy :: "json \<Rightarrow> bool" where
  "json_truthy JUndef = False"
| "json_truthy JNull = False"
| "json_truthy (JBool b) = b"
| "json_truthy (JNum q) = (q \<noteq> 0)"
| "json_truthy (JBig i) = (i \<noteq> 0)"
| "json_truthy (JStr s) = (s \<noteq> [])"
| "json_truthy (JArr xs) = True"
| "json_truthy (JObj kvs) = True"

definition json_or :: "json \<Rightarrow> json \<Rightarrow> json" where
  "json_or a b = (if json_truthy a then a else b)"

fun js_to_string :: "json \<Rightarrow> string" where
  "js_to_string JUndef = ''undefined''"
| "js_to_string JNull = ''null''"
| "js_to_string (JBool b) = (if b then ''true'' else ''false'')"
| "js_to_string (JNum q) = show_number q"
| "js_to_string (JBig i) = show_int i"
| "js_to_string (JStr s) = s"
| "js_to_string (JArr xs) = join '','' (map (\<lambda>x. if x = JUndef \<or> x = JNull then [] else js_to_string x) xs)"
| "js_to_string (JObj kvs) = ''[object Object]''"

definition js_to_number :: "json \<Rightarrow> js_num" where
  "js_to_number j = (case j of
     JUndef \<Rightarrow> NaN
   | JNull \<Rightarrow> Fin 0
   | JBool b \<Rightarrow> Fin (if b then 1 else 0)
   | JNum q \<Rightarrow> Fin q
   | JBig i \<Rightarrow> Fin (of_int i)
   | JStr s \<Rightarrow> js_number s
   | JArr xs \<Rightarrow> js_number (js_to_string j)
   | JObj kvs \<Rightarrow> NaN)"

fun show_js_num :: "js_num \<Rightarrow> string" where
  "show_js_num NaN = ''NaN''"
| "show_js_num (Inf neg) = (if neg then ''-Infinity'' else ''Infinity'')"
| "show_js_num (Fin q) = show_number q"

section \<open>Regular expressions\<close>

text \<open>
  The expressions of the source are sequences of these items under the \<open>i\<close> flag, tried at every
  position unless they start with \<open>^\<close>.  A dot takes one character of the UTF-8 text, not a line end.
\<close>

datatype re_item =
    RChar char
  | ROptChar char
  | RDigit
  | RLetter
  | RClass "char list"
  | ROptDot
  | REnd

definition lit :: "string \<Rightarrow> re_item list" where
  "lit s = map RChar s"

definition drop_char :: "string \<Rightarrow> string option" where
  "drop_char s = (case s of
     [] \<Rightarrow> None
   | c # r \<Rightarrow> (let n = (of_char c :: nat) in
       if n = 10 \<or> n = 13 \<or> 240 \<le> n \<or> take 3 s \<in> {[CHR 0xE2, CHR 0x80, CHR 0xA8], [CHR 0xE2, CHR 0x80, CHR 0xA9]}
       then None
       else Some (if n < 128 then r else dropWhile (\<lambda>d. 128 \<le> (of_char d :: nat) \<and> (of_char d :: nat) < 192) r)))"

fun re_here :: "re_item list \<Rightarrow> string \<Rightarrow> bool" where
  "re_here [] s = True"
| "re_here (RChar p # ps) s = (case s of c # r \<Rightarrow> lower_char c = lower_char p \<and> re_here ps r | [] \<Rightarrow> False)"
| "re_here (ROptChar p # ps) s =
     ((case s of c # r \<Rightarrow> lower_char c = lower_char p \<and> re_here ps r | [] \<Rightarrow> False) \<or> re_here ps s)"
| "re_here (RDigit # ps) s = (case s of c # r \<Rightarrow> is_digit c \<and> re_here ps r | [] \<Rightarrow> False)"
| "re_here (RLetter # ps) s =
     (case s of c # r \<Rightarrow> (let n = (of_char (lower_char c) :: nat) in 97 \<le> n \<and> n \<le> 122) \<and> re_here ps r
      | [] \<Rightarrow> False)"
| "re_here (RClass cs # ps) s = (case s of c # r \<Rightarrow> c \<in> set cs \<and> re_here ps r | [] \<Rightarrow> False)"
| "re_here (ROptDot # ps) s = ((case drop_char s of Some r \<Rightarrow> re_here ps r | None \<Rightarrow> False) \<or> re_here ps s)"
| "re_here (REnd # ps) s = (s = [] \<and> re_here ps s)"

fun re_test :: "re_item list \<Rightarrow> string \<Rightarrow> bool" where
  "re_test ps [] = re_here ps []"
| "re_test ps (c # s) = (re_here ps (c # s) \<or> re_test ps s)"

lemma re_here_lit: "re_here (lit p) s \<longleftrightarrow> starts_with (to_lower p) (to_lower s)"
proof (induction p arbitrary: s)
  case Nil
  then show ?case by (simp add: lit_def starts_with_def)
next
  case (Cons c p)
  then show ?case
    by (cases s) (auto simp: lit_def starts_with_def to_lower_def)
qed

lemma re_test_lit: "re_test (lit p) s \<longleftrightarrow> str_includes (to_lower p) (to_lower s)"
proof (induction s)
  case Nil
  then show ?case by (simp add: re_here_lit) (auto simp: starts_with_def to_lower_def)
next
  case (Cons c s)
  then show ?case by (simp add: re_here_lit to_lower_def)
qed

end
