(* ===== verification/Detection_Types.thy ===== *)
theory Detection_Types
  imports Js_Map Js_Number
begin

text \<open>
  The contract of a detector (\<open>detectors/framework.ts\<close>): severities, evidence, findings, the
  evaluation window, and the rows of the telemetry tables that detectors read.  A table is the list
  of its rows; a \<open>findMany\<close> query without an order is a filter of it.
\<close>

section \<open>Severity\<close>

datatype severity = INFO | LOW | MEDIUM | HIGH | CRITICAL

fun severity_order :: "severity \<Rightarrow> nat" where
  "severity_order INFO = 0"
| "severity_order LOW = 1"
| "severity_order MEDIUM = 2"
| "severity_order HIGH = 3"
| "severity_order CRITICAL = 4"

lemma severity_order_inject: "severity_order a = severity_order b \<Longrightarrow> a = b"
  by (cases a; cases b) simp_all

instantiation severity :: linorder
begin

definition less_eq_severity :: "severity \<Rightarrow> severity \<Rightarrow> bool" where
  "less_eq_severity a b \<longleftrightarrow> severity_order a \<le> severity_order b"

definition less_severity :: "severity \<Rightarrow> severity \<Rightarrow> bool" where
  "less_severity a b \<longleftrightarrow> severity_order a < severity_order b"

instance
  by standard (auto simp: less_eq_severity_def less_severity_def dest: severity_order_inject)

end

text \<open>\<open>maxSeverity\<close> of \<open>detectionService.ts\<close>.\<close>

definition max_severity :: "severity \<Rightarrow> severity \<Rightarrow> severity" where
  "max_severity a b = (if severity_order a \<ge> severity_order b then a else b)"

lemma max_severity_max: "max_severity a b = max a b"
  by (cases a; cases b) (simp_all add: max_severity_def max_def less_eq_severity_def)

section \<open>Findings\<close>

datatype evidence =
    EvFlow string
  | EvThreat string
  | EvDnsQuery string
  | EvDnsSignal string
  | EvIoc string string
  | EvConfig string

record detection_result =
  dr_fingerprint :: string
  dr_severity :: severity
  dr_title :: string
  dr_description :: string
  dr_remediation :: "string option"
  dr_affectedResource :: "string option"
  dr_srcMac :: "string option"
  dr_confidence :: "rat option"
  dr_evidence :: "evidence list"
  dr_metadata :: "(string \<times> json) list option"

record detector_context =
  cx_beginTime :: int
  cx_endTime :: int

definition in_window :: "detector_context \<Rightarrow> int \<Rightarrow> bool" where
  "in_window ctx t \<longleftrightarrow> cx_beginTime ctx \<le> t \<and> t \<le> cx_endTime ctx"

section \<open>Telemetry rows\<close>

record flow_row =
  fl_id :: string
  fl_occurredAt :: int
  fl_action :: "string option"
  fl_srcMac :: "string option"
  fl_srcIp :: "string option"
  fl_srcClientName :: "string option"
  fl_dstIp :: "string option"
  fl_dstMac :: "string option"
  fl_dstPort :: "int option"
  fl_dstRegion :: "string option"
  fl_bytesTotal :: "int option"

record threat_row =
  th_id :: string
  th_occurredAt :: int
  th_srcIp :: "string option"
  th_category :: "string option"
  th_severity :: "string option"

record dns_row =
  dq_id :: string
  dq_queriedAt :: int
  dq_domain :: string
  dq_clientIp :: "string option"
  dq_clientName :: "string option"

text \<open>\<open>flow.srcMac ?? flow.srcIp ?? 'unknown'\<close> and the display name of the source.\<close>

definition src_key :: "flow_row \<Rightarrow> string" where
  "src_key f = dflt ''unknown'' (nullish (fl_srcMac f) (fl_srcIp f))"

definition src_actor :: "flow_row \<Rightarrow> string" where
  "src_actor f = dflt ''unknown device'' (nullish (fl_srcClientName f) (nullish (fl_srcMac f) (fl_srcIp f)))"

text \<open>Typographic characters of the messages, in UTF-8.\<close>

definition em_dash :: string where "em_dash = [CHR 0xE2, CHR 0x80, CHR 0x94]"
definition right_arrow :: string where "right_arrow = [CHR 0xE2, CHR 0x86, CHR 0x92]"
definition both_arrow :: string where "both_arrow = [CHR 0xE2, CHR 0x86, CHR 0x94]"
definition ge_sign :: string where "ge_sign = [CHR 0xE2, CHR 0x89, CHR 0xA5]"

section \<open>Private addresses\<close>

text \<open>\<open>/^172\.(1[6-9]|2\d|3[0-1])\./\<close>\<close>

definition is_172_private :: "string \<Rightarrow> bool" where
  "is_172_private ip =
     (starts_with ''172.'' ip \<and>
      (case drop 4 ip of
         a # b # c # _ \<Rightarrow>
           c = CHR ''.'' \<and>
           (a = CHR ''1'' \<and> b \<in> {CHR ''6'', CHR ''7'', CHR ''8'', CHR ''9''}
            \<or> a = CHR ''2'' \<and> is_digit b
            \<or> a = CHR ''3'' \<and> b \<in> {CHR ''0'', CHR ''1''})
       | _ \<Rightarrow> False))"

definition is_private_ip :: "string \<Rightarrow> bool" where
  "is_private_ip ip =
     (if starts_with ''10.'' ip \<or> starts_with ''192.168.'' ip \<or> starts_with ''127.'' ip then True
      else if is_172_private ip then True
      else False)"

text \<open>The variant of \<open>internalScanning.ts\<close> and \<open>highEgressVolume.ts\<close> takes a nullable address.\<close>

definition is_private_ip_opt :: "string option \<Rightarrow> bool" where
  "is_private_ip_opt ip = (if \<not> truthy ip then False else is_private_ip (the ip))"

end
