(* ===== verification/Detection_Service.thy ===== *)
theory Detection_Service
  imports Keyed_Table Js_Json Detection_Types
begin

text \<open>
  Where findings go: the detector registry (\<open>detectors/registry.ts\<close>), the rule metadata
  (\<open>detectors/ruleLoader.ts\<close>), the dedupe and retention of \<open>services/detection/detectionService.ts\<close>
  and the runner (\<open>detectors/runner.ts\<close>).

  The database and the clock are explicit: the world holds the rows of the \<open>Detection\<close> table and
  the number of outside calls made so far; \<open>clock n\<close> is what the \<open>n\<close>-th call sees as the time and
  \<open>fault n\<close> the error it raises, if any.  A raised error leaves the rows written before it.
\<close>

section \<open>The Detection table\<close>

datatype status = OPEN | ACKNOWLEDGED | RESOLVED | DISMISSED

record detection_row =
  dt_detectorId :: string
  dt_fingerprint :: string
  dt_severity :: severity
  dt_status :: status
  dt_title :: string
  dt_description :: string
  dt_remediation :: "string option"
  dt_references :: "string list option"
  dt_affectedResource :: "string option"
  dt_srcMac :: "string option"
  dt_confidence :: rat
  dt_evidence :: "evidence list"
  dt_metadata :: "(string \<times> json) list option"
  dt_firstSeen :: int
  dt_lastSeen :: int
  dt_expiresAt :: int
  dt_occurrences :: nat

record persist_ctx =
  pc_detectorId :: string
  pc_remediation :: "string option"
  pc_references :: "string list option"
  pc_retentionDays :: "int option"

record persist_outcome =
  po_inserted :: nat
  po_refreshed :: nat

definition DEFAULT_RETENTION_DAYS :: int where
  "DEFAULT_RETENTION_DAYS = 14"

definition day_ms :: int where
  "day_ms = 24 * 60 * 60 * 1000"

definition expires_at :: "persist_ctx \<Rightarrow> int \<Rightarrow> int" where
  "expires_at ctx now = now + dflt DEFAULT_RETENTION_DAYS (pc_retentionDays ctx) * day_ms"

text \<open>A finding with the two readings of the clock taken for it: before the look-up and at the write.\<close>

type_synonym stamped = "int \<times> int \<times> detection_result"

definition st_result :: "stamped \<Rightarrow> detection_result" where
  "st_result x = snd (snd x)"

definition st_fingerprint :: "stamped \<Rightarrow> string" where
  "st_fingerprint x = dr_fingerprint (st_result x)"

text \<open>The \<open>create\<close> and the \<open>update\<close>: an \<open>undefined\<close> column is left as it is by the update and is
  null in a new row; \<open>status\<close>, \<open>firstSeen\<close>, \<open>detectorId\<close> are not among the updated columns.\<close>

definition create_row :: "persist_ctx \<Rightarrow> stamped \<Rightarrow> detection_row" where
  "create_row ctx x = (case x of (t, now, r) \<Rightarrow>
     \<lparr>dt_detectorId = pc_detectorId ctx,
      dt_fingerprint = dr_fingerprint r,
      dt_severity = dr_severity r,
      dt_status = OPEN,
      dt_title = dr_title r,
      dt_description = dr_description r,
      dt_remediation = nullish (dr_remediation r) (pc_remediation ctx),
      dt_references = pc_references ctx,
      dt_affectedResource = dr_affectedResource r,
      dt_srcMac = dr_srcMac r,
      dt_confidence = dflt 1 (dr_confidence r),
      dt_evidence = dr_evidence r,
      dt_metadata = dr_metadata r,
      dt_firstSeen = now,
      dt_lastSeen = now,
      dt_expiresAt = expires_at ctx t,
      dt_occurrences = 1\<rparr>)"

definition update_row :: "persist_ctx \<Rightarrow> stamped \<Rightarrow> detection_row \<Rightarrow> detection_row" where
  "update_row ctx x row = (case x of (t, now, r) \<Rightarrow>
     row\<lparr>dt_severity := max_severity (dt_severity row) (dr_severity r),
         dt_title := dr_title r,
         dt_description := dr_description r,
         dt_remediation := nullish (dr_remediation r) (pc_remediation ctx),
         dt_references := nullish (pc_references ctx) (dt_references row),
         dt_affectedResource := dr_affectedResource r,
         dt_srcMac := dr_srcMac r,
         dt_confidence := dflt 1 (dr_confidence r),
         dt_evidence := dr_evidence r,
         dt_metadata := nullish (dr_metadata r) (dt_metadata row),
         dt_lastSeen := now,
         dt_expiresAt := expires_at ctx t,
         dt_occurrences := dt_occurrences row + 1\<rparr>)"

definition upsert_finding :: "persist_ctx \<Rightarrow> detection_row list \<Rightarrow> stamped \<Rightarrow> detection_row list" where
  "upsert_finding ctx t x =
     (case row_at dt_fingerprint (st_fingerprint x) t of
        Some _ \<Rightarrow> map (\<lambda>row. if dt_fingerprint row = st_fingerprint x then update_row ctx x row else row) t
      | None \<Rightarrow> t @ [create_row ctx x])"

record world =
  wd_rows :: "detection_row list"
  wd_tick :: nat

text \<open>The loop of \<open>persistDetectionResults\<close>: two outside calls per finding.\<close>

fun persist_loop ::
  "(nat \<Rightarrow> int) \<Rightarrow> (nat \<Rightarrow> string option) \<Rightarrow> persist_ctx \<Rightarrow> detection_result list \<Rightarrow> persist_outcome \<Rightarrow>
   world \<Rightarrow> (string + persist_outcome) \<times> world" where
  "persist_loop clock fault ctx [] oc w = (Inr oc, w)"
| "persist_loop clock fault ctx (r # rs) oc w =
     (let n = wd_tick w; x = (clock n, clock (n + 1), r) in
      case fault n of
        Some e \<Rightarrow> (Inl e, w\<lparr>wd_tick := n + 1\<rparr>)
      | None \<Rightarrow>
          (case fault (n + 1) of
             Some e \<Rightarrow> (Inl e, w\<lparr>wd_tick := n + 2\<rparr>)
           | None \<Rightarrow>
               (let known = row_at dt_fingerprint (dr_fingerprint r) (wd_rows w) \<noteq> None;
                    oc' = (if known then oc\<lparr>po_refreshed := po_refreshed oc + 1\<rparr>
                           else oc\<lparr>po_inserted := po_inserted oc + 1\<rparr>)
                in persist_loop clock fault ctx rs oc'
                     \<lparr>wd_rows = upsert_finding ctx (wd_rows w) x, wd_tick = n + 2\<rparr>)))"

definition persistDetectionResults ::
  "(nat \<Rightarrow> int) \<Rightarrow> (nat \<Rightarrow> string option) \<Rightarrow> persist_ctx \<Rightarrow> detection_result list \<Rightarrow> world \<Rightarrow>
   (string + persist_outcome) \<times> world" where
  "persistDetectionResults clock fault ctx results w =
     persist_loop clock fault ctx results \<lparr>po_inserted = 0, po_refreshed = 0\<rparr> w"

definition expired_row :: "int \<Rightarrow> detection_row \<Rightarrow> bool" where
  "expired_row now row \<longleftrightarrow>
     dt_expiresAt row < now \<or>
     dt_status row \<in> {RESOLVED, DISMISSED} \<and> dt_lastSeen row < now - 7 * day_ms"

definition cleanupExpiredDetections :: "int \<Rightarrow> detection_row list \<Rightarrow> nat \<times> detection_row list" where
  "cleanupExpiredDetections now t =
     (length (filter (expired_row now) t), filter (\<lambda>row. \<not> expired_row now row) t)"

section \<open>Rule metadata\<close>

record detector_rule =
  ru_id :: string
  ru_description :: string
  ru_severityBase :: severity
  ru_escalateTo :: "severity option"
  ru_escalateWhen :: "string list option"
  ru_remediation :: "string option"
  ru_references :: "string list option"
  ru_retentionDays :: "int option"

definition parse_severity :: "json \<Rightarrow> severity option" where
  "parse_severity j = (case j of
     JStr s \<Rightarrow>
       if s = ''CRITICAL'' then Some CRITICAL else if s = ''HIGH'' then Some HIGH
       else if s = ''MEDIUM'' then Some MEDIUM else if s = ''LOW'' then Some LOW
       else if s = ''INFO'' then Some INFO else None
   | _ \<Rightarrow> None)"

text \<open>An optional field: absent is accepted and reads as \<open>undefined\<close>; otherwise the value must parse.\<close>

definition optional_field :: "(json \<Rightarrow> 'a option) \<Rightarrow> json \<Rightarrow> 'a option option" where
  "optional_field p j = (if j = JUndef then Some None else map_option Some (p j))"

definition parse_strs :: "json \<Rightarrow> string list option" where
  "parse_strs j = (case j of JArr xs \<Rightarrow> those (map parse_str xs) | _ \<Rightarrow> None)"

definition parse_retention :: "json \<Rightarrow> int option" where
  "parse_retention j = (case j of
     JNum q \<Rightarrow> if q = of_int \<lfloor>q\<rfloor> \<and> 1 \<le> q \<and> q \<le> 365 then Some \<lfloor>q\<rfloor> else None
   | _ \<Rightarrow> None)"

text \<open>The severity of a rule: an object with a base, or the bare severity.\<close>

definition parse_rule_severity :: "json \<Rightarrow> (severity \<times> severity option \<times> string list option) option" where
  "parse_rule_severity j = (case j of
     JObj kvs \<Rightarrow>
       (case (parse_severity (field kvs ''base''), optional_field parse_severity (field kvs ''escalate_to''),
              optional_field parse_strs (field kvs ''when'')) of
          (Some b, Some e, Some w) \<Rightarrow> Some (b, e, w)
        | _ \<Rightarrow> None)
   | _ \<Rightarrow> map_option (\<lambda>s. (s, None, None)) (parse_severity j))"

definition parse_rule_file :: "json \<Rightarrow> detector_rule option" where
  "parse_rule_file j = (case j of
     JObj kvs \<Rightarrow>
       (case (parse_str (field kvs ''id''), optional_field parse_str (field kvs ''description''),
              parse_rule_severity (field kvs ''severity''),
              optional_field parse_str (field kvs ''remediation''),
              optional_field parse_strs (field kvs ''references''),
              optional_field parse_retention (field kvs ''retention_days'')) of
          (Some i, Some d, Some (b, e, w), Some rm, Some rf, Some rt) \<Rightarrow>
            (if i = [] then None
             else Some \<lparr>ru_id = i, ru_description = dflt [] d, ru_severityBase = b, ru_escalateTo = e,
                        ru_escalateWhen = w, ru_remediation = rm, ru_references = rf,
                        ru_retentionDays = rt\<rparr>)
        | _ \<Rightarrow> None)
   | _ \<Rightarrow> None)"

type_synonym rules = "(string \<times> detector_rule) list"

definition getDetectorRule :: "rules \<Rightarrow> string \<Rightarrow> detector_rule option" where
  "getDetectorRule rs i = om_get rs i"

definition registerDetectorRule :: "detector_rule \<Rightarrow> rules \<Rightarrow> rules" where
  "registerDetectorRule f rs = om_set (ru_id f) f rs"

text \<open>A directory of the rules tree.  \<open>load\<close> is the YAML parser on the file's text: a message or the
  parsed value; \<open>invalid\<close> is the message of the schema check.\<close>

datatype dir_node =
    FileN string string
  | DirN string "dir_node list"

fun node_name :: "dir_node \<Rightarrow> string" where
  "node_name (FileN n _) = n"
| "node_name (DirN n _) = n"

definition is_rule_file :: "string \<Rightarrow> bool" where
  "is_rule_file entry \<longleftrightarrow>
     (ends_with ''.yaml'' entry \<or> ends_with ''.yml'' entry) \<and> entry \<noteq> ''dns_allowlist.yaml''"

definition load_file :: "(string \<Rightarrow> string + json) \<Rightarrow> (json \<Rightarrow> string) \<Rightarrow> string \<Rightarrow> string + detector_rule" where
  "load_file load invalid raw =
     (case load raw of
        Inl msg \<Rightarrow> Inl msg
      | Inr j \<Rightarrow> (case parse_rule_file j of None \<Rightarrow> Inl (invalid j) | Some f \<Rightarrow> Inr f))"

fun load_node :: "(string \<Rightarrow> string + json) \<Rightarrow> (json \<Rightarrow> string) \<Rightarrow> string \<Rightarrow>
    dir_node \<Rightarrow> nat \<times> string list \<times> rules \<Rightarrow> nat \<times> string list \<times> rules"
and load_nodes :: "(string \<Rightarrow> string + json) \<Rightarrow> (json \<Rightarrow> string) \<Rightarrow> string \<Rightarrow>
    dir_node list \<Rightarrow> nat \<times> string list \<times> rules \<Rightarrow> nat \<times> string list \<times> rules" where
  "load_node load invalid dir (DirN n es) acc = load_nodes load invalid (dir @ ''/'' @ n) es acc"
| "load_node load invalid dir (FileN n raw) (k, errs, rs) =
     (if \<not> is_rule_file n then (k, errs, rs)
      else (case load_file load invalid raw of
              Inl msg \<Rightarrow> (k, errs @ [dir @ ''/'' @ n @ '': '' @ msg], rs)
            | Inr f \<Rightarrow> (k + 1, errs, registerDetectorRule f rs)))"
| "load_nodes load invalid dir [] acc = acc"
| "load_nodes load invalid dir (e # es) acc =
     load_nodes load invalid dir es (load_node load invalid dir e acc)"

text \<open>\<open>None\<close> is a directory that does not exist.\<close>

definition loadDetectorRulesFromDirectory ::
  "(string \<Rightarrow> string + json) \<Rightarrow> (json \<Rightarrow> string) \<Rightarrow> string \<Rightarrow> dir_node list option \<Rightarrow> rules \<Rightarrow>
   (nat \<times> string list) \<times> rules" where
  "loadDetectorRulesFromDirectory load invalid dir content rs =
     (case content of
        None \<Rightarrow> ((0, []), rs)
      | Some es \<Rightarrow> (case load_nodes load invalid dir es (0, [], rs) of (k, errs, rs') \<Rightarrow> ((k, errs), rs')))"

section \<open>The registry\<close>

text \<open>A detector object: \<open>de_ref\<close> is its identity (the \<open>===\<close> of the unregister function).\<close>

record detector =
  de_ref :: nat
  de_id :: string
  de_windowMinutes :: int
  de_evaluate :: "detector_context \<Rightarrow> detection_row list \<Rightarrow> string + detection_result list"

type_synonym registry = "(string \<times> detector) list"

definition registerDetector :: "detector \<Rightarrow> registry \<Rightarrow> registry" where
  "registerDetector d g = om_set (de_id d) d g"

definition unregisterDetector :: "detector \<Rightarrow> registry \<Rightarrow> registry" where
  "unregisterDetector d g =
     (case om_get g (de_id d) of
        None \<Rightarrow> g
      | Some d' \<Rightarrow> if de_ref d' = de_ref d then filter (\<lambda>kv. fst kv \<noteq> de_id d) g else g)"

definition getDetector :: "registry \<Rightarrow> string \<Rightarrow> detector option" where
  "getDetector g i = om_get g i"

definition listDetectors :: "registry \<Rightarrow> detector list" where
  "listDetectors g = om_values g"

section \<open>The runner\<close>

definition rule_ctx :: "rules \<Rightarrow> string \<Rightarrow> persist_ctx" where
  "rule_ctx rs i = (let rule = getDetectorRule rs i in
     \<lparr>pc_detectorId = i,
      pc_remediation = Option.bind rule ru_remediation,
      pc_references = Option.bind rule ru_references,
      pc_retentionDays = Option.bind rule ru_retentionDays\<rparr>)"

definition runDetector ::
  "(nat \<Rightarrow> int) \<Rightarrow> (nat \<Rightarrow> string option) \<Rightarrow> rules \<Rightarrow> detector \<Rightarrow> world \<Rightarrow> (string + persist_outcome) \<times> world"
where
  "runDetector clock fault rs d w =
     (let endTime = clock (wd_tick w);
          ctx = \<lparr>cx_beginTime = endTime - de_windowMinutes d * 60 * 1000, cx_endTime = endTime\<rparr>;
          w1 = w\<lparr>wd_tick := wd_tick w + 1\<rparr>
      in case de_evaluate d ctx (wd_rows w) of
           Inl e \<Rightarrow> (Inl e, w1)
         | Inr results \<Rightarrow>
             (if results = [] then (Inr \<lparr>po_inserted = 0, po_refreshed = 0\<rparr>, w1)
              else persistDetectionResults clock fault (rule_ctx rs (de_id d)) results w1))"

record run_summary =
  rs_evaluated :: nat
  rs_inserted :: nat
  rs_refreshed :: nat
  rs_failed :: nat

definition run_step ::
  "(nat \<Rightarrow> int) \<Rightarrow> (nat \<Rightarrow> string option) \<Rightarrow> rules \<Rightarrow> run_summary \<times> world \<Rightarrow> detector \<Rightarrow> run_summary \<times> world"
where
  "run_step clock fault rs st d =
     (case st of (s, w) \<Rightarrow>
       (case runDetector clock fault rs d w of
          (Inr oc, w') \<Rightarrow>
            (s\<lparr>rs_inserted := rs_inserted s + po_inserted oc,
               rs_refreshed := rs_refreshed s + po_refreshed oc,
               rs_evaluated := rs_evaluated s + 1\<rparr>, w')
        | (Inl e, w') \<Rightarrow> (s\<lparr>rs_failed := rs_failed s + 1\<rparr>, w')))"

definition runAllDetectors ::
  "(nat \<Rightarrow> int) \<Rightarrow> (nat \<Rightarrow> string option) \<Rightarrow> rules \<Rightarrow> registry \<Rightarrow> world \<Rightarrow> run_summary \<times> world" where
  "runAllDetectors clock fault rs g w =
     foldl (run_step clock fault rs)
       (\<lparr>rs_evaluated = 0, rs_inserted = 0, rs_refreshed = 0, rs_failed = 0\<rparr>, w) (listDetectors g)"

section \<open>The Detection table implements a keyed table\<close>

lemma row_sel [simp]:
  "dt_fingerprint (create_row ctx x) = st_fingerprint x"
  "dt_fingerprint (update_row ctx x row) = dt_fingerprint row"
  "dt_severity (create_row ctx x) = dr_severity (st_result x)"
  "dt_severity (update_row ctx x row) = max (dt_severity row) (dr_severity (st_result x))"
  "dt_status (create_row ctx x) = OPEN"
  "dt_status (update_row ctx x row) = dt_status row"
  "dt_detectorId (create_row ctx x) = pc_detectorId ctx"
  "dt_detectorId (update_row ctx x row) = dt_detectorId row"
  "dt_firstSeen (create_row ctx x) = fst (snd x)"
  "dt_firstSeen (update_row ctx x row) = dt_firstSeen row"
  "dt_lastSeen (create_row ctx x) = fst (snd x)"
  "dt_lastSeen (update_row ctx x row) = fst (snd x)"
  "dt_expiresAt (create_row ctx x) = expires_at ctx (fst x)"
  "dt_expiresAt (update_row ctx x row) = expires_at ctx (fst x)"
  "dt_title (create_row ctx x) = dr_title (st_result x)"
  "dt_title (update_row ctx x row) = dr_title (st_result x)"
  "dt_occurrences (create_row ctx x) = 1"
  "dt_occurrences (update_row ctx x row) = dt_occurrences row + 1"
  by (cases x; simp add: create_row_def update_row_def st_fingerprint_def st_result_def max_severity_max)+

interpretation det: keyed_table dt_fingerprint st_fingerprint "create_row ctx" "update_row ctx" "upsert_finding ctx"
  for ctx
  by unfold_locales (simp_all add: upsert_finding_def)

fun stamp :: "(nat \<Rightarrow> int) \<Rightarrow> nat \<Rightarrow> detection_result list \<Rightarrow> stamped list" where
  "stamp clock n [] = []"
| "stamp clock n (r # rs) = (clock n, clock (n + 1), r) # stamp clock (n + 2) rs"

lemma stamp_results [simp]: "map st_result (stamp clock n rs) = rs"
  by (induction rs arbitrary: n) (simp_all add: st_result_def)

lemma stamp_fingerprints: "map st_fingerprint (stamp clock n rs) = map dr_fingerprint rs"
  by (induction rs arbitrary: n) (simp_all add: st_fingerprint_def st_result_def)

lemma stamp_filter: "map st_result (filter (\<lambda>x. st_fingerprint x = k) (stamp clock n rs)) = filter (\<lambda>r. dr_fingerprint r = k) rs"
  by (induction rs arbitrary: n) (simp_all add: st_fingerprint_def st_result_def)

lemma stamp_times: "x \<in> set (stamp clock n rs) \<Longrightarrow> \<exists>i. fst x = clock i \<and> fst (snd x) = clock (i + 1)"
  by (induction rs arbitrary: n) auto

text \<open>What a run of the loop did: a prefix of the findings was written, all of them when it returns.\<close>

lemma persist_loop_prefix:
  assumes "persist_loop clock fault ctx rs oc w = (res, w')"
  shows "\<exists>k \<le> length rs.
      wd_rows w' = foldl (upsert_finding ctx) (wd_rows w) (take k (stamp clock (wd_tick w) rs)) \<and>
      (\<forall>oc'. res = Inr oc' \<longrightarrow> k = length rs \<and>
         po_inserted oc' + po_refreshed oc' = po_inserted oc + po_refreshed oc + length rs \<and>
         length (wd_rows w') + po_inserted oc = length (wd_rows w) + po_inserted oc')"
  using assms
proof (induction clock fault ctx rs oc w rule: persist_loop.induct)
  case (1 clock fault ctx oc w)
  then show ?case by auto
next
  case (2 clock fault ctx r rs oc w)
  let ?n = "wd_tick w"
  let ?x = "(clock ?n, clock (?n + 1), r)"
  show ?case
  proof (cases "fault ?n \<noteq> None \<or> fault (?n + 1) \<noteq> None")
    case True
    with "2.prems" show ?thesis by (auto simp: Let_def split: option.splits)
  next
    case False
    then have f: "fault ?n = None" "fault (?n + 1) = None" by simp_all
    let ?known = "row_at dt_fingerprint (dr_fingerprint r) (wd_rows w) \<noteq> None"
    let ?oc = "if ?known then oc\<lparr>po_refreshed := po_refreshed oc + 1\<rparr> else oc\<lparr>po_inserted := po_inserted oc + 1\<rparr>"
    let ?w = "\<lparr>wd_rows = upsert_finding ctx (wd_rows w) ?x, wd_tick = ?n + 2\<rparr>"
    have "persist_loop clock fault ctx rs ?oc ?w = (res, w')"
      using "2.prems" f by (simp add: Let_def)
    from "2.IH" [OF refl refl f(1) f(2) refl refl this]
    obtain k where k: "k \<le> length rs"
      "wd_rows w' = foldl (upsert_finding ctx) (wd_rows ?w) (take k (stamp clock (?n + 2) rs))"
      "\<forall>oc'. res = Inr oc' \<longrightarrow> k = length rs \<and>
         po_inserted oc' + po_refreshed oc' = po_inserted ?oc + po_refreshed ?oc + length rs \<and>
         length (wd_rows w') + po_inserted ?oc = length (wd_rows ?w) + po_inserted oc'"
      by (auto simp only: world.select_convs)
    have len: "length (wd_rows ?w) = length (wd_rows w) + (if ?known then 0 else 1)"
      by (auto simp: upsert_finding_def st_fingerprint_def st_result_def split: option.split)
    show ?thesis
      by (intro exI [of _ "Suc k"]) (use k(1,2) k(3) len in auto)
  qed
qed

lemma persist_loop_total:
  "(\<And>n. fault n = None) \<Longrightarrow> \<exists>oc'. fst (persist_loop clock fault ctx rs oc w) = Inr oc'"
  by (induction clock fault ctx rs oc w rule: persist_loop.induct) (simp_all add: Let_def)

section \<open>What an upsert keeps of a row\<close>

definition row_keeps :: "detection_row \<Rightarrow> detection_row \<Rightarrow> bool" where
  "row_keeps r r' \<longleftrightarrow>
     dt_fingerprint r' = dt_fingerprint r \<and> dt_detectorId r' = dt_detectorId r \<and>
     dt_status r' = dt_status r \<and> dt_firstSeen r' = dt_firstSeen r \<and>
     dt_severity r \<le> dt_severity r' \<and> dt_occurrences r \<le> dt_occurrences r'"

lemma row_keeps_refl [simp]: "row_keeps r r"
  by (simp add: row_keeps_def)

lemma row_keeps_trans: "row_keeps a b \<Longrightarrow> row_keeps b c \<Longrightarrow> row_keeps a c"
  by (auto simp: row_keeps_def)

lemma row_keeps_update: "row_keeps r (update_row ctx x r)"
  by (simp add: row_keeps_def)

text \<open>A table grows by upserts when each row has a successor that keeps it.\<close>

definition table_keeps :: "detection_row list \<Rightarrow> detection_row list \<Rightarrow> bool" where
  "table_keeps t t' \<longleftrightarrow>
     (distinct (map dt_fingerprint t) \<longrightarrow> distinct (map dt_fingerprint t')) \<and>
     (\<forall>r \<in> set t. \<exists>r' \<in> set t'. row_keeps r r')"

lemma table_keeps_refl [simp]: "table_keeps t t"
  by (auto simp: table_keeps_def intro: row_keeps_refl)

lemma table_keeps_trans: "table_keeps a b \<Longrightarrow> table_keeps b c \<Longrightarrow> table_keeps a c"
  unfolding table_keeps_def by (meson row_keeps_trans)

lemma table_keeps_upsert: "table_keeps t (upsert_finding ctx t x)"
proof -
  have "\<exists>r' \<in> set (upsert_finding ctx t x). row_keeps r r'" if "r \<in> set t" for r
  proof
    show "(if dt_fingerprint r = st_fingerprint x then update_row ctx x r else r) \<in> set (upsert_finding ctx t x)"
      using that by (auto simp: upsert_finding_def row_at_None rev_image_eqI [of r] split: option.split)
    show "row_keeps r (if dt_fingerprint r = st_fingerprint x then update_row ctx x r else r)"
      by (simp add: row_keeps_update)
  qed
  then show ?thesis
    using det.distinct_upserts [of t ctx "[x]"] by (auto simp: table_keeps_def)
qed

lemma table_keeps_upserts: "table_keeps t (foldl (upsert_finding ctx) t xs)"
  by (induction xs arbitrary: t) (auto intro: table_keeps_trans table_keeps_upsert)

lemma table_keeps_persist:
  "persistDetectionResults clock fault ctx rs w = (res, w') \<Longrightarrow> table_keeps (wd_rows w) (wd_rows w')"
  unfolding persistDetectionResults_def
  by (drule persist_loop_prefix) (auto simp: table_keeps_upserts)

text \<open>The row after a number of updates.\<close>

lemma updates_sel:
  "dt_severity (foldl (\<lambda>r x. update_row ctx x r) r xs) = foldl max (dt_severity r) (map (dr_severity \<circ> st_result) xs)"
  "dt_occurrences (foldl (\<lambda>r x. update_row ctx x r) r xs) = dt_occurrences r + length xs"
  "dt_status (foldl (\<lambda>r x. update_row ctx x r) r xs) = dt_status r"
  "dt_firstSeen (foldl (\<lambda>r x. update_row ctx x r) r xs) = dt_firstSeen r"
  by (induction xs arbitrary: r) simp_all

lemma updates_last:
  "xs \<noteq> [] \<Longrightarrow> dt_title (foldl (\<lambda>r x. update_row ctx x r) r xs) = dr_title (st_result (last xs)) \<and>
     dt_lastSeen (foldl (\<lambda>r x. update_row ctx x r) r xs) = fst (snd (last xs)) \<and>
     dt_expiresAt (foldl (\<lambda>r x. update_row ctx x r) r xs) = expires_at ctx (fst (last xs))"
  by (induction xs rule: rev_induct) simp_all

lemma foldl_max: "foldl max (a :: severity) xs = Max (insert a (set xs))"
proof (induction xs arbitrary: a)
  case (Cons x xs)
  have "foldl max a (x # xs) = Max (insert (max a x) (set xs))" using Cons by simp
  also have "\<dots> = Max (insert a (insert x (set xs)))"
    by (cases "xs = []") (simp_all add: max.assoc)
  finally show ?case by (simp add: insert_commute)
qed simp

text \<open>The row stored for a fingerprint, as a function of the old row and the findings with it.\<close>

lemma upserts_row:
  assumes ne: "filter (\<lambda>x. st_fingerprint x = k) xs \<noteq> []"
  defines "fs \<equiv> filter (\<lambda>x. st_fingerprint x = k) xs"
  shows "\<exists>row. row_at dt_fingerprint k (foldl (upsert_finding ctx) t xs) = Some row \<and>
     dt_occurrences row = (case row_at dt_fingerprint k t of None \<Rightarrow> 0 | Some r \<Rightarrow> dt_occurrences r) + length fs \<and>
     dt_severity row = Max (dt_severity ` set_option (row_at dt_fingerprint k t) \<union> (dr_severity \<circ> st_result) ` set fs) \<and>
     dt_status row = (case row_at dt_fingerprint k t of None \<Rightarrow> OPEN | Some r \<Rightarrow> dt_status r) \<and>
     dt_firstSeen row = (case row_at dt_fingerprint k t of None \<Rightarrow> fst (snd (hd fs)) | Some r \<Rightarrow> dt_firstSeen r) \<and>
     dt_title row = dr_title (st_result (last fs)) \<and>
     dt_lastSeen row = fst (snd (last fs)) \<and>
     dt_expiresAt row = expires_at ctx (fst (last fs))"
proof (cases "row_at dt_fingerprint k t")
  case (Some r)
  show ?thesis
    using Some ne updates_last [of fs ctx r]
    by (simp add: det.row_at_upserts_old [OF Some] updates_sel foldl_max fs_def)
next
  case None
  obtain y ys where fs: "fs = y # ys" using ne unfolding fs_def by (metis list.exhaust)
  have "row_at dt_fingerprint k (foldl (upsert_finding ctx) t xs)
      = Some (foldl (\<lambda>r x. update_row ctx x r) (create_row ctx y) ys)"
    by (rule det.row_at_upserts_new [OF None]) (use fs fs_def in simp)
  with None fs updates_last [of ys ctx "create_row ctx y"] show ?thesis
    by (cases "ys = []") (simp_all add: updates_sel foldl_max)
qed

section \<open>Properties\<close>

text \<open>The sample detector and table of the witnesses.\<close>

definition sample_result :: "severity \<Rightarrow> detection_result" where
  "sample_result s = \<lparr>dr_fingerprint = ''f'', dr_severity = s, dr_title = ''t'', dr_description = [],
     dr_remediation = None, dr_affectedResource = None, dr_srcMac = None, dr_confidence = None,
     dr_evidence = [], dr_metadata = None\<rparr>"

definition sample_pctx :: persist_ctx where
  "sample_pctx = \<lparr>pc_detectorId = ''d'', pc_remediation = None, pc_references = None, pc_retentionDays = None\<rparr>"

definition empty_world :: world where
  "empty_world = \<lparr>wd_rows = [], wd_tick = 0\<rparr>"

lemma sample_sel [simp]:
  "dr_fingerprint (sample_result s) = ''f''" "dr_severity (sample_result s) = s"
  "pc_retentionDays sample_pctx = None" "wd_rows empty_world = []" "wd_tick empty_world = 0"
  by (simp_all add: sample_result_def sample_pctx_def empty_world_def)

lemma sample_persist:
  "\<exists>oc w'. persistDetectionResults clock (\<lambda>_. None) ctx rs w = (Inr oc, w')"
  using persist_loop_total [of "\<lambda>_. None" clock ctx rs]
  unfolding persistDetectionResults_def by (metis prod.collapse)

text \<open>C3: persisting a list of findings keeps one row per fingerprint; it counts as inserted exactly the
  fingerprints that had no row and as refreshed all other findings.  Each fingerprint found ends with
  the severity that is the greatest of its old row and its findings, as many occurrences as the old
  row and the findings together, the first-seen time and the status of the old row (OPEN for a new
  one), and the title of its last finding; the rows of every other fingerprint are untouched.\<close>

theorem persist_findings:
  assumes "distinct (map dt_fingerprint (wd_rows w))"
    and "persistDetectionResults clock fault ctx results w = (Inr oc, w')"
  shows "distinct (map dt_fingerprint (wd_rows w')) \<and>
    po_inserted oc = card (dr_fingerprint ` set results - dt_fingerprint ` set (wd_rows w)) \<and>
    po_inserted oc + po_refreshed oc = length results \<and>
    (\<forall>k. let old = row_at dt_fingerprint k (wd_rows w); new = row_at dt_fingerprint k (wd_rows w');
            fs = filter (\<lambda>r. dr_fingerprint r = k) results in
       if fs = [] then new = old
       else \<exists>row. new = Some row \<and>
         dt_severity row = Max (dt_severity ` set_option old \<union> dr_severity ` set fs) \<and>
         dt_occurrences row = (case old of None \<Rightarrow> 0 | Some r \<Rightarrow> dt_occurrences r) + length fs \<and>
         dt_status row = (case old of None \<Rightarrow> OPEN | Some r \<Rightarrow> dt_status r) \<and>
         (\<forall>r \<in> set_option old. dt_firstSeen row = dt_firstSeen r) \<and>
         dt_title row = dr_title (last fs))"
proof -
  let ?t = "wd_rows w" and ?t' = "wd_rows w'"
  let ?xs = "stamp clock (wd_tick w) results"
  have len: "length ?xs = length results" using stamp_results [of clock "wd_tick w" results] by (metis length_map)
  from persist_loop_prefix [OF assms(2) [unfolded persistDetectionResults_def]] len
  have t': "?t' = foldl (upsert_finding ctx) ?t ?xs"
    and sum: "po_inserted oc + po_refreshed oc = length results"
    and ins: "length ?t' = length ?t + po_inserted oc"
    by auto
  have fps: "st_fingerprint ` set ?xs = dr_fingerprint ` set results"
    using stamp_fingerprints [of clock "wd_tick w" results] by (metis list.set_map)
  have "length ?t = card (dt_fingerprint ` set ?t)"
    using distinct_card [OF assms(1)] by simp
  moreover have "length ?t' = card (dt_fingerprint ` set ?t \<union> dr_fingerprint ` set results)"
    using det.length_upserts [OF assms(1), of ctx ?xs] fps t' by simp
  moreover have "card (A \<union> B) = card A + card (B - A)" if "finite A" "finite B" for A B :: "string set"
    using that by (metis Diff_disjoint Un_Diff_cancel card_Un_disjoint finite_Diff)
  ultimately have inserted: "po_inserted oc = card (dr_fingerprint ` set results - dt_fingerprint ` set ?t)"
    using ins by simp
  have rows: "let old = row_at dt_fingerprint k ?t; new = row_at dt_fingerprint k ?t';
            fs = filter (\<lambda>r. dr_fingerprint r = k) results in
       if fs = [] then new = old
       else \<exists>row. new = Some row \<and>
         dt_severity row = Max (dt_severity ` set_option old \<union> dr_severity ` set fs) \<and>
         dt_occurrences row = (case old of None \<Rightarrow> 0 | Some r \<Rightarrow> dt_occurrences r) + length fs \<and>
         dt_status row = (case old of None \<Rightarrow> OPEN | Some r \<Rightarrow> dt_status r) \<and>
         (\<forall>r \<in> set_option old. dt_firstSeen row = dt_firstSeen r) \<and>
         dt_title row = dr_title (last fs)" for k
  proof -
    let ?ys = "filter (\<lambda>x. st_fingerprint x = k) ?xs"
    have fs: "filter (\<lambda>r. dr_fingerprint r = k) results = map st_result ?ys"
      by (simp add: stamp_filter)
    show ?thesis
    proof (cases "?ys = []")
      case True
      then have "row_at dt_fingerprint k ?t' = row_at dt_fingerprint k ?t"
        by (simp add: t' det.row_at_upserts)
      with True show ?thesis by (simp add: fs)
    next
      case False
      obtain row where "row_at dt_fingerprint k ?t' = Some row \<and>
         dt_occurrences row = (case row_at dt_fingerprint k ?t of None \<Rightarrow> 0 | Some r \<Rightarrow> dt_occurrences r) + length ?ys \<and>
         dt_severity row = Max (dt_severity ` set_option (row_at dt_fingerprint k ?t) \<union> (dr_severity \<circ> st_result) ` set ?ys) \<and>
         dt_status row = (case row_at dt_fingerprint k ?t of None \<Rightarrow> OPEN | Some r \<Rightarrow> dt_status r) \<and>
         dt_firstSeen row = (case row_at dt_fingerprint k ?t of None \<Rightarrow> fst (snd (hd ?ys)) | Some r \<Rightarrow> dt_firstSeen r) \<and>
         dt_title row = dr_title (st_result (last ?ys))"
        using upserts_row [OF False, of ctx ?t] unfolding t' by blast
      with False show ?thesis
        by (auto simp: fs Let_def last_map image_comp)
    qed
  qed
  show ?thesis
    using det.distinct_upserts [OF assms(1), of ctx ?xs] t' inserted sum rows by simp
qed

theorem persist_findings_witness:
  "\<exists>oc w'. persistDetectionResults (\<lambda>_. 5) (\<lambda>_. None) sample_pctx [sample_result HIGH, sample_result LOW] empty_world
      = (Inr oc, w') \<and> po_inserted oc = 1 \<and>
      (\<exists>row. row_at dt_fingerprint ''f'' (wd_rows w') = Some row \<and> dt_severity row = HIGH \<and> dt_occurrences row = 2)"
proof -
  obtain oc w' where p: "persistDetectionResults (\<lambda>_. 5) (\<lambda>_. None) sample_pctx
      [sample_result HIGH, sample_result LOW] empty_world = (Inr oc, w')"
    using sample_persist by blast
  have "max LOW HIGH = HIGH" "max HIGH LOW = HIGH" by (simp_all add: max_def less_eq_severity_def)
  with persist_findings [OF _ p] p show ?thesis
    by (auto simp: Let_def elim!: allE [where x = "''f''"])
qed

lemma run_step_sel:
  "snd (run_step clock fault rs (s, w) d) = snd (runDetector clock fault rs d w)"
  "rs_evaluated (fst (run_step clock fault rs (s, w) d)) =
     rs_evaluated s + (if isl (fst (runDetector clock fault rs d w)) then 0 else 1)"
  "rs_failed (fst (run_step clock fault rs (s, w) d)) =
     rs_failed s + (if isl (fst (runDetector clock fault rs d w)) then 1 else 0)"
  by (simp_all add: run_step_def split: prod.split sum.split)

lemma table_keeps_runDetector: "table_keeps (wd_rows w) (wd_rows (snd (runDetector clock fault rs d w)))"
proof -
  have "table_keeps (wd_rows w) (wd_rows (snd (persistDetectionResults clock fault ctx results (w\<lparr>wd_tick := n\<rparr>))))"
    for ctx results n
    using table_keeps_persist [of clock fault ctx results "w\<lparr>wd_tick := n\<rparr>"] by (simp add: prod_eq_iff)
  then show ?thesis by (simp add: runDetector_def Let_def split: sum.split)
qed

lemma card_index_snoc:
  "card {i. i < length (xs @ [x]) \<and> P ((xs @ [x]) ! i) (f (take i (xs @ [x])))} =
     card {i. i < length xs \<and> P (xs ! i) (f (take i xs))} + (if P x (f xs) then 1 else 0)"
proof -
  have "{i. i < length (xs @ [x]) \<and> P ((xs @ [x]) ! i) (f (take i (xs @ [x])))} =
     {i. i < length xs \<and> P (xs ! i) (f (take i xs))} \<union> (if P x (f xs) then {length xs} else {})"
    by (auto simp: nth_append less_Suc_eq)
  then show ?thesis by simp
qed

text \<open>C4: a run over the registered detectors gives every detector its turn, whatever the others did: the
  evaluated and the failed ones add up to the registered ones.  No run loses a finding: each row has
  a successor with its fingerprint, detector, status and first-seen time, no lower severity and no
  fewer occurrences, and the fingerprints stay unique.\<close>

theorem runAllDetectors_isolates:
  "let (s, w') = runAllDetectors clock fault rs g w;
       worlds = (\<lambda>i. foldl (\<lambda>w d. snd (runDetector clock fault rs d w)) w (take i (listDetectors g))) in
   w' = worlds (length (listDetectors g)) \<and>
   rs_evaluated s = card {i. i < length (listDetectors g) \<and> \<not> isl (fst (runDetector clock fault rs (listDetectors g ! i) (worlds i)))} \<and>
   rs_evaluated s + rs_failed s = length (listDetectors g) \<and>
   (distinct (map dt_fingerprint (wd_rows w)) \<longrightarrow> distinct (map dt_fingerprint (wd_rows w'))) \<and>
   (\<forall>r \<in> set (wd_rows w). \<exists>r' \<in> set (wd_rows w'). row_keeps r r')"
proof -
  let ?run = "\<lambda>ds. foldl (run_step clock fault rs)
      (\<lparr>rs_evaluated = 0, rs_inserted = 0, rs_refreshed = 0, rs_failed = 0\<rparr>, w) ds"
  let ?worlds = "\<lambda>ds. foldl (\<lambda>w d. snd (runDetector clock fault rs d w)) w ds"
  have "snd (?run ds) = ?worlds ds \<and>
     rs_evaluated (fst (?run ds)) = card {i. i < length ds \<and> \<not> isl (fst (runDetector clock fault rs (ds ! i) (?worlds (take i ds))))} \<and>
     rs_evaluated (fst (?run ds)) + rs_failed (fst (?run ds)) = length ds \<and>
     table_keeps (wd_rows w) (wd_rows (snd (?run ds)))" for ds
  proof (induction ds rule: rev_induct)
    case Nil
    then show ?case by simp
  next
    case (snoc d ds)
    obtain s w1 where st: "?run ds = (s, w1)" by fastforce
    with snoc have w1: "w1 = ?worlds ds" by simp
    let ?P = "\<lambda>d w. \<not> isl (fst (runDetector clock fault rs d w))"
    have run: "?run (ds @ [d]) = run_step clock fault rs (s, ?worlds ds) d" using st w1 by simp
    have count: "card {i. i < length (ds @ [d]) \<and> ?P ((ds @ [d]) ! i) (?worlds (take i (ds @ [d])))} =
        card {i. i < length ds \<and> ?P (ds ! i) (?worlds (take i ds))} + (if ?P d (?worlds ds) then 1 else 0)"
      by (rule card_index_snoc)
    have keep: "table_keeps (wd_rows w) (wd_rows (snd (runDetector clock fault rs d (?worlds ds))))"
      using snoc st w1 table_keeps_runDetector table_keeps_trans by fastforce
    show ?case
      using snoc.IH keep unfolding run count run_step_sel st w1 by simp
  qed
  from this [of "listDetectors g"] show ?thesis
    unfolding runAllDetectors_def table_keeps_def Let_def split_beta take_all [OF order_refl] by blast
qed

theorem runAllDetectors_isolates_witness:
  "rs_failed (fst (runAllDetectors (\<lambda>_. 5) (\<lambda>_. None) []
      [(''a'', \<lparr>de_ref = 0, de_id = ''a'', de_windowMinutes = 60, de_evaluate = (\<lambda>_ _. Inl ''boom'')\<rparr>)] empty_world))
   + rs_evaluated (fst (runAllDetectors (\<lambda>_. 5) (\<lambda>_. None) []
      [(''a'', \<lparr>de_ref = 0, de_id = ''a'', de_windowMinutes = 60, de_evaluate = (\<lambda>_ _. Inl ''boom'')\<rparr>)] empty_world)) = 1"
  using runAllDetectors_isolates [of "\<lambda>_. 5" "\<lambda>_. None" "[]"
      "[(''a'', \<lparr>de_ref = 0, de_id = ''a'', de_windowMinutes = 60, de_evaluate = (\<lambda>_ _. Inl ''boom'')\<rparr>)]" empty_world]
  by (simp add: Let_def listDetectors_def om_values_def split: prod.splits)

text \<open>A finding that fired again outlives the sweep: after a run at or later than \<open>t0\<close>, no sweep up to
  the retention (and up to seven days, for a closed finding) after \<open>t0\<close> removes its row.\<close>

lemma refired_survives_cleanup:
  assumes "persistDetectionResults clock fault ctx results w = (Inr oc, w')"
    and "\<forall>i. t0 \<le> clock i"
    and "r \<in> set results"
    and "now \<le> t0 + min 7 (dflt DEFAULT_RETENTION_DAYS (pc_retentionDays ctx)) * day_ms"
  shows "\<exists>row. row_at dt_fingerprint (dr_fingerprint r) (snd (cleanupExpiredDetections now (wd_rows w'))) = Some row"
proof -
  let ?xs = "stamp clock (wd_tick w) results" and ?k = "dr_fingerprint r"
  let ?ys = "filter (\<lambda>x. st_fingerprint x = ?k) ?xs"
  have len: "length ?xs = length results" using stamp_results [of clock "wd_tick w" results] by (metis length_map)
  from persist_loop_prefix [OF assms(1) [unfolded persistDetectionResults_def]] len
  have t': "wd_rows w' = foldl (upsert_finding ctx) (wd_rows w) ?xs" by auto
  have "r \<in> set (map st_result ?ys)" using assms(3) unfolding stamp_filter by simp
  then have ne: "?ys \<noteq> []" by (metis empty_iff list.map(1) list.set(1))
  from upserts_row [OF ne, of ctx "wd_rows w"] t' obtain row where
    row: "row_at dt_fingerprint ?k (wd_rows w') = Some row"
    "dt_lastSeen row = fst (snd (last ?ys))" "dt_expiresAt row = expires_at ctx (fst (last ?ys))"
    by auto
  have "last ?ys \<in> set ?xs" using last_in_set [OF ne] by simp
  then have "t0 \<le> fst (last ?ys)" "t0 \<le> fst (snd (last ?ys))"
    using stamp_times [of "last ?ys"] assms(2) by force+
  moreover have "now \<le> t0 + 7 * day_ms" "now \<le> t0 + dflt DEFAULT_RETENTION_DAYS (pc_retentionDays ctx) * day_ms"
    using assms(4) by (auto simp: day_ms_def min_def split: if_splits)
  ultimately have "\<not> expired_row now row"
    using row by (auto simp: expired_row_def expires_at_def)
  moreover have "row \<in> set (wd_rows w')" "dt_fingerprint row = ?k"
    using row_at_Some [OF row(1)] by auto
  ultimately have "?k \<in> dt_fingerprint ` set (snd (cleanupExpiredDetections now (wd_rows w')))"
    unfolding cleanupExpiredDetections_def by (intro rev_image_eqI [of row]) simp_all
  then show ?thesis by (metis not_None_eq row_at_None)
qed

lemma refired_survives_cleanup_witness:
  "\<exists>oc w'. persistDetectionResults (\<lambda>_. 0) (\<lambda>_. None) sample_pctx [sample_result LOW] empty_world = (Inr oc, w') \<and>
     snd (cleanupExpiredDetections 1000 (wd_rows w')) \<noteq> []"
proof -
  obtain oc w' where p: "persistDetectionResults (\<lambda>_. 0) (\<lambda>_. None) sample_pctx [sample_result LOW] empty_world = (Inr oc, w')"
    using sample_persist by blast
  have "\<exists>row. row_at dt_fingerprint (dr_fingerprint (sample_result LOW))
      (snd (cleanupExpiredDetections 1000 (wd_rows w'))) = Some row"
    by (rule refired_survives_cleanup [OF p, of 0])
      (simp_all add: DEFAULT_RETENTION_DAYS_def day_ms_def)
  with p show ?thesis by (metis row_at_single(1) option.distinct(1))
qed

section \<open>Loading the rules\<close>

text \<open>The texts of the rule files of a tree in the order they are read, and the rules that load.\<close>

fun node_files :: "dir_node \<Rightarrow> string list"
and nodes_files :: "dir_node list \<Rightarrow> string list" where
  "node_files (DirN n es) = nodes_files es"
| "node_files (FileN n raw) = (if is_rule_file n then [raw] else [])"
| "nodes_files [] = []"
| "nodes_files (e # es) = node_files e @ nodes_files es"

definition good_rules :: "(string \<Rightarrow> string + json) \<Rightarrow> (json \<Rightarrow> string) \<Rightarrow> string list \<Rightarrow> detector_rule list" where
  "good_rules load invalid raws =
     concat (map (\<lambda>raw. case load_file load invalid raw of Inl _ \<Rightarrow> [] | Inr f \<Rightarrow> [f]) raws)"

lemma good_rules_append:
  "good_rules load invalid (a @ b) = good_rules load invalid a @ good_rules load invalid b"
  by (simp add: good_rules_def)

definition loads_files ::
  "(string \<Rightarrow> string + json) \<Rightarrow> (json \<Rightarrow> string) \<Rightarrow> string list \<Rightarrow> nat \<times> string list \<times> rules \<Rightarrow>
   nat \<times> string list \<times> rules \<Rightarrow> bool" where
  "loads_files load invalid raws a b \<longleftrightarrow>
     fst b = fst a + length (good_rules load invalid raws) \<and>
     fst b + length (fst (snd b)) = fst a + length (fst (snd a)) + length raws \<and>
     snd (snd b) = foldl (\<lambda>rs f. registerDetectorRule f rs) (snd (snd a)) (good_rules load invalid raws)"

lemma load_nodes_files:
  "loads_files load invalid (node_files e) acc (load_node load invalid dir e acc)"
  "loads_files load invalid (nodes_files es) acc (load_nodes load invalid dir es acc)"
proof (induction load invalid dir e acc and load invalid dir es acc rule: load_node_load_nodes.induct)
  case (2 load invalid dir n raw k errs rs)
  then show ?case
    by (cases "load_file load invalid raw") (simp_all add: loads_files_def good_rules_def)
next
  case (4 load invalid dir e es acc)
  then show ?case by (simp add: loads_files_def good_rules_append)
qed (simp_all add: loads_files_def good_rules_def)

lemma get_registered:
  "getDetectorRule (foldl (\<lambda>rs f. registerDetectorRule f rs) rs fs) i =
     (if filter (\<lambda>f. ru_id f = i) fs = [] then getDetectorRule rs i
      else Some (last (filter (\<lambda>f. ru_id f = i) fs)))"
  by (induction fs rule: rev_induct) (auto simp: getDetectorRule_def registerDetectorRule_def om_get_set)

text \<open>Loading a rules directory accounts for every rule file, as loaded or as one error, and one bad
  file does not keep another from loading: the rule found for an id is the one of the last file of
  that id that parses, or the one registered before.\<close>

lemma rule_directory_loads:
  "case loadDetectorRulesFromDirectory load invalid dir (Some es) rs of ((loaded, errors), rs') \<Rightarrow>
     loaded + length errors = length (nodes_files es) \<and>
     loaded = length (filter (\<lambda>raw. \<not> isl (load_file load invalid raw)) (nodes_files es)) \<and>
     getDetectorRule rs' i =
       (let fs = filter (\<lambda>f. ru_id f = i) (good_rules load invalid (nodes_files es)) in
        if fs = [] then getDetectorRule rs i else Some (last fs))"
proof -
  have "length (good_rules load invalid raws) = length (filter (\<lambda>raw. \<not> isl (load_file load invalid raw)) raws)" for raws
    by (induction raws) (auto simp: good_rules_def split: sum.splits)
  with load_nodes_files(2) [of load invalid es "(0, [], rs)" dir] show ?thesis
    by (auto simp: loadDetectorRulesFromDirectory_def loads_files_def get_registered Let_def split: prod.split)
qed

end
