(* ===== verification/Dns_Allowlist.thy ===== *)
theory Dns_Allowlist
  imports Detection_Types
begin

text \<open>
  \<open>services/dnsAllowlist.ts\<close>: the built-in categories (a YAML file, validated and cached), the list
  of disabled built-ins (a settings row), the user-managed entries (a table with a unique key), the
  snapshot the detectors load, and the suffix test \<open>isAllowlisted\<close>.
\<close>

section \<open>Built-in categories\<close>

record builtin_category =
  bc_id :: string
  bc_label :: string
  bc_domains :: "string list"

text \<open>\<open>BuiltInCategorySchema\<close> and \<open>BuiltInFileSchema\<close>: what \<open>parse\<close> accepts of the loaded YAML.\<close>

definition nonempty_str :: "json option \<Rightarrow> string option" where
  "nonempty_str j = (case j of Some (JStr s) \<Rightarrow> if s = [] then None else Some s | _ \<Rightarrow> None)"

fun all_some :: "'a option list \<Rightarrow> 'a list option" where
  "all_some [] = Some []"
| "all_some (None # _) = None"
| "all_some (Some x # xs) = map_option (Cons x) (all_some xs)"

fun parse_category :: "json \<Rightarrow> builtin_category option" where
  "parse_category (JObj o') =
     (case (nonempty_str (om_get o' ''id''), nonempty_str (om_get o' ''label''), om_get o' ''domains'') of
        (Some i, Some l, Some (JArr ds)) \<Rightarrow>
          (case all_some (map (\<lambda>d. nonempty_str (Some d)) ds) of
             Some ds' \<Rightarrow> if ds' = [] then None else Some \<lparr>bc_id = i, bc_label = l, bc_domains = ds'\<rparr>
           | None \<Rightarrow> None)
      | _ \<Rightarrow> None)"
| "parse_category _ = None"

fun parse_builtin_file :: "json \<Rightarrow> builtin_category list option" where
  "parse_builtin_file (JObj o') =
     (if om_get o' ''id'' = Some (JStr ''dns_allowlist'') \<and>
         (case om_get o' ''description'' of
            None \<Rightarrow> True | Some JUndef \<Rightarrow> True | Some (JStr _) \<Rightarrow> True | Some _ \<Rightarrow> False)
      then (case om_get o' ''categories'' of
              Some (JArr cs) \<Rightarrow>
                (case all_some (map parse_category cs) of
                   Some cs' \<Rightarrow> if cs' = [] then None else Some cs'
                 | None \<Rightarrow> None)
            | _ \<Rightarrow> None)
      else None)"
| "parse_builtin_file _ = None"

text \<open>The YAML file as the code sees it: absent, unreadable (reading or parsing throws), or a value.\<close>

datatype yaml_file = Missing | Unreadable | Yaml json

definition getBuiltInAllowlist ::
  "yaml_file \<Rightarrow> builtin_category list option \<Rightarrow> builtin_category list \<times> builtin_category list option" where
  "getBuiltInAllowlist file cached =
     (case cached of
        Some b \<Rightarrow> (b, cached)
      | None \<Rightarrow>
         (let b = (case file of
                     Missing \<Rightarrow> []
                   | Unreadable \<Rightarrow> []
                   | Yaml j \<Rightarrow> (case parse_builtin_file j of Some cs \<Rightarrow> cs | None \<Rightarrow> []))
          in (b, Some b)))"

definition resetBuiltInAllowlistCache :: "builtin_category list option \<Rightarrow> builtin_category list option" where
  "resetBuiltInAllowlistCache _ = None"

section \<open>Disabled built-ins (one row of the settings table)\<close>

type_synonym settings = "(string \<times> json) list"

definition DISABLED_BUILTINS_KEY :: string where
  "DISABLED_BUILTINS_KEY = ''dns_allowlist.disabled_builtins''"

definition getDisabledBuiltins :: "settings \<Rightarrow> string list" where
  "getDisabledBuiltins st =
     (case om_get st DISABLED_BUILTINS_KEY of
        Some (JArr vs) \<Rightarrow> concat (map (\<lambda>v. case v of JStr s \<Rightarrow> [s] | _ \<Rightarrow> []) vs)
      | _ \<Rightarrow> [])"

definition setDisabledBuiltins :: "string list \<Rightarrow> settings \<Rightarrow> settings" where
  "setDisabledBuiltins keys st = om_set DISABLED_BUILTINS_KEY (JArr (map JStr (os_of keys))) st"

definition builtinKey :: "string \<Rightarrow> string \<Rightarrow> string" where
  "builtinKey categoryId domain = categoryId @ '':'' @ domain"

definition builtinCategoryKey :: "string \<Rightarrow> string" where
  "builtinCategoryKey categoryId = categoryId @ '':*''"

definition activeBuiltInDomains :: "builtin_category list \<Rightarrow> string list \<Rightarrow> string list" where
  "activeBuiltInDomains builtIn disabledKeys =
     foldl (\<lambda>domains cat.
       if builtinCategoryKey (bc_id cat) \<in> set disabledKeys then domains
       else foldl (\<lambda>domains d.
              if builtinKey (bc_id cat) d \<in> set disabledKeys then domains
              else os_add (to_lower d) domains) domains (bc_domains cat)) [] builtIn"

lemma set_activeBuiltInDomains:
  "set (activeBuiltInDomains builtIn disabled) =
     {to_lower d | d c. c \<in> set builtIn \<and> d \<in> set (bc_domains c) \<and>
        builtinCategoryKey (bc_id c) \<notin> set disabled \<and> builtinKey (bc_id c) d \<notin> set disabled}"
proof -
  have inner: "set (foldl (\<lambda>domains d. if builtinKey i d \<in> set disabled then domains
        else os_add (to_lower d) domains) acc ds) =
      set acc \<union> {to_lower d | d. d \<in> set ds \<and> builtinKey i d \<notin> set disabled}" for i ds acc
    by (induction ds arbitrary: acc) auto
  have outer: "set (foldl (\<lambda>domains cat.
       if builtinCategoryKey (bc_id cat) \<in> set disabled then domains
       else foldl (\<lambda>domains d. if builtinKey (bc_id cat) d \<in> set disabled then domains
              else os_add (to_lower d) domains) domains (bc_domains cat)) acc cats) =
      set acc \<union> {to_lower d | d c. c \<in> set cats \<and> d \<in> set (bc_domains c) \<and>
        builtinCategoryKey (bc_id c) \<notin> set disabled \<and> builtinKey (bc_id c) d \<notin> set disabled}" for acc cats
    by (induction cats arbitrary: acc) (auto simp: inner)
  show ?thesis by (simp add: activeBuiltInDomains_def outer)
qed

section \<open>User entries\<close>

datatype entry_scope = GLOBAL | DEVICE

record allow_entry =
  ae_id :: string
  ae_parentDomain :: string
  ae_scope :: entry_scope
  ae_deviceKey :: string
  ae_deviceLabel :: "string option"
  ae_sourceDetectionId :: "string option"
  ae_note :: "string option"
  ae_createdBy :: "string option"

record entry_input =
  in_parentDomain :: string
  in_scope :: entry_scope
  in_deviceKey :: "string option"
  in_deviceLabel :: "string option"
  in_sourceDetectionId :: "string option"
  in_note :: "string option"
  in_createdBy :: "string option"

definition strip_dot :: "string \<Rightarrow> string" where
  "strip_dot s = (if s \<noteq> [] \<and> last s = CHR ''.'' then butlast s else s)"

definition entry_key :: "allow_entry \<Rightarrow> string \<times> entry_scope \<times> string" where
  "entry_key e = (ae_parentDomain e, ae_scope e, ae_deviceKey e)"

text \<open>\<open>listUserEntries\<close>: the sentinel of a GLOBAL entry is shown as no device; the newest entry first
  (the table keeps the order of creation).\<close>

definition listUserEntries :: "allow_entry list \<Rightarrow> (allow_entry \<times> string option) list" where
  "listUserEntries t =
     map (\<lambda>e. (e, if ae_scope e = DEVICE then Some (ae_deviceKey e) else None)) (rev t)"

text \<open>\<open>createUserEntry\<close>: an upsert on the unique key; \<open>new_id\<close> is the identifier the database draws for
  a new row.  \<open>Inl\<close> is the thrown error.\<close>

definition createUserEntry ::
  "string \<Rightarrow> entry_input \<Rightarrow> allow_entry list \<Rightarrow> string + (allow_entry \<times> allow_entry list)" where
  "createUserEntry new_id i t =
     (let parentDomain = strip_dot (to_lower (in_parentDomain i)); scope = in_scope i in
      if scope = DEVICE \<and> \<not> truthy (in_deviceKey i) then Inl ''DEVICE scope requires deviceKey''
      else
        (let deviceKey = (if scope = DEVICE then the (in_deviceKey i) else []);
             key = (parentDomain, scope, deviceKey);
             upd = (\<lambda>e. e\<lparr>ae_deviceLabel := in_deviceLabel i,
                          ae_sourceDetectionId := in_sourceDetectionId i, ae_note := in_note i\<rparr>);
             row = \<lparr>ae_id = new_id, ae_parentDomain = parentDomain, ae_scope = scope,
                    ae_deviceKey = deviceKey, ae_deviceLabel = in_deviceLabel i,
                    ae_sourceDetectionId = in_sourceDetectionId i, ae_note = in_note i,
                    ae_createdBy = in_createdBy i\<rparr>
         in (case find (\<lambda>e. entry_key e = key) t of
               Some e \<Rightarrow> Inr (upd e, map (\<lambda>e'. if entry_key e' = key then upd e' else e') t)
             | None \<Rightarrow> Inr (row, t @ [row]))))"

definition deleteUserEntry :: "string \<Rightarrow> allow_entry list \<Rightarrow> bool \<times> allow_entry list" where
  "deleteUserEntry i t =
     (if \<exists>e \<in> set t. ae_id e = i then (True, filter (\<lambda>e. ae_id e \<noteq> i) t) else (False, t))"

section \<open>The snapshot and the test\<close>

record allowlist_snapshot =
  sn_globalDomains :: "string list"
  sn_deviceDomains :: "(string \<times> string list) list"

definition snapshot_step :: "allowlist_snapshot \<Rightarrow> allow_entry \<Rightarrow> allowlist_snapshot" where
  "snapshot_step s e =
     (let dom = to_lower (ae_parentDomain e) in
      if ae_scope e = DEVICE \<and> ae_deviceKey e \<noteq> [] then
        (let k = to_lower (ae_deviceKey e); bucket = dflt [] (om_get (sn_deviceDomains s) k)
         in s\<lparr>sn_deviceDomains := om_set k (os_add dom bucket) (sn_deviceDomains s)\<rparr>)
      else s\<lparr>sn_globalDomains := os_add dom (sn_globalDomains s)\<rparr>)"

definition loadAllowlistSnapshot ::
  "builtin_category list \<Rightarrow> settings \<Rightarrow> allow_entry list \<Rightarrow> allowlist_snapshot" where
  "loadAllowlistSnapshot builtIn st entries =
     foldl snapshot_step
       \<lparr>sn_globalDomains = activeBuiltInDomains builtIn (getDisabledBuiltins st), sn_deviceDomains = []\<rparr>
       entries"

definition matchesSuffix :: "string \<Rightarrow> string list \<Rightarrow> bool" where
  "matchesSuffix parent domains =
     (if parent \<in> set domains then True else (\<exists>d \<in> set domains. ends_with (CHR ''.'' # d) parent))"

definition isAllowlisted :: "string \<Rightarrow> string option \<Rightarrow> allowlist_snapshot \<Rightarrow> bool" where
  "isAllowlisted parent deviceKey s =
     (let p = strip_dot (to_lower parent) in
      if matchesSuffix p (sn_globalDomains s) then True
      else if truthy deviceKey then
        (case om_get (sn_deviceDomains s) (to_lower (the deviceKey)) of
           Some deviceSet \<Rightarrow> matchesSuffix p deviceSet
         | None \<Rightarrow> False)
      else False)"

section \<open>Lemmas\<close>

text \<open>A domain is covered by an entry when it is the entry or a subdomain of it.\<close>

definition covered_by :: "string \<Rightarrow> string \<Rightarrow> bool" where
  "covered_by p d \<longleftrightarrow> p = d \<or> (\<exists>x. p = x @ CHR ''.'' # d)"

lemma matchesSuffix_iff: "matchesSuffix p ds \<longleftrightarrow> (\<exists>d \<in> set ds. covered_by p d)"
  by (auto simp: matchesSuffix_def covered_by_def ends_with_iff)

text \<open>The global part of a snapshot, and the part of one device.\<close>

lemma snapshot_global:
  "set (sn_globalDomains (foldl snapshot_step s es)) = set (sn_globalDomains s) \<union>
     {to_lower (ae_parentDomain e) | e. e \<in> set es \<and> \<not> (ae_scope e = DEVICE \<and> ae_deviceKey e \<noteq> [])}"
  by (induction es arbitrary: s) (auto simp: snapshot_step_def Let_def)

lemma snapshot_device:
  "set (dflt [] (om_get (sn_deviceDomains (foldl snapshot_step s es)) k)) =
     set (dflt [] (om_get (sn_deviceDomains s) k)) \<union>
     {to_lower (ae_parentDomain e) | e. e \<in> set es \<and> ae_scope e = DEVICE \<and> ae_deviceKey e \<noteq> [] \<and>
        to_lower (ae_deviceKey e) = k}"
  by (induction es arbitrary: s) (auto simp: snapshot_step_def Let_def om_get_set)

lemma isAllowlisted_iff:
  "isAllowlisted parent dev s \<longleftrightarrow>
     (\<exists>d. (d \<in> set (sn_globalDomains s) \<or>
           truthy dev \<and> d \<in> set (dflt [] (om_get (sn_deviceDomains s) (to_lower (the dev))))) \<and>
          covered_by (strip_dot (to_lower parent)) d)"
  by (auto simp: isAllowlisted_def matchesSuffix_iff Let_def split: option.splits)

text \<open>What the table keeps: one row per key, and a device key exactly on the DEVICE rows.\<close>

definition entries_ok :: "allow_entry list \<Rightarrow> bool" where
  "entries_ok t \<longleftrightarrow> distinct (map entry_key t) \<and>
     (\<forall>e \<in> set t. (ae_scope e = DEVICE) = (ae_deviceKey e \<noteq> []) \<and>
        to_lower (ae_parentDomain e) = ae_parentDomain e)"

lemma entry_key_upd [simp]:
  "entry_key (e\<lparr>ae_deviceLabel := a, ae_sourceDetectionId := b, ae_note := c\<rparr>) = entry_key e"
  by (simp add: entry_key_def)

lemma to_lower_strip_dot: "to_lower (strip_dot (to_lower s)) = strip_dot (to_lower s)"
  by (auto simp: strip_dot_def to_lower_def map_butlast o_def)

lemma entries_ok_create:
  assumes ok: "entries_ok t" and c: "createUserEntry new_id i t = Inr (row, t')"
  shows "entries_ok t'"
proof -
  let ?p = "strip_dot (to_lower (in_parentDomain i))"
  let ?k = "(?p, in_scope i, if in_scope i = DEVICE then the (in_deviceKey i) else [])"
  let ?u = "\<lambda>e. e\<lparr>ae_deviceLabel := in_deviceLabel i, ae_sourceDetectionId := in_sourceDetectionId i,
      ae_note := in_note i\<rparr>"
  have dev: "in_scope i = DEVICE \<Longrightarrow> the (in_deviceKey i) \<noteq> []"
    using c by (auto simp: createUserEntry_def Let_def truthy_def split: if_splits option.splits)
  show ?thesis
  proof (cases "find (\<lambda>e. entry_key e = ?k) t")
    case None
    then have "?k \<notin> set (map entry_key t)" by (auto simp: find_None_iff)
    moreover have "t' = t @ [row]" "entry_key row = ?k" "ae_parentDomain row = ?p"
        "ae_scope row = in_scope i" "ae_deviceKey row = snd (snd ?k)"
      using c None by (auto simp: createUserEntry_def Let_def entry_key_def split: if_splits)
    ultimately show ?thesis using ok dev by (auto simp: entries_ok_def to_lower_strip_dot)
  next
    case (Some e)
    then have t': "t' = map (\<lambda>e'. if entry_key e' = ?k then ?u e' else e') t"
      using c by (auto simp: createUserEntry_def Let_def split: if_splits)
    have "map entry_key t' = map entry_key t" unfolding t' by simp
    moreover have "\<forall>e \<in> set t'. \<exists>e0 \<in> set t. ae_scope e = ae_scope e0 \<and>
        ae_deviceKey e = ae_deviceKey e0 \<and> ae_parentDomain e = ae_parentDomain e0"
      unfolding t' by auto
    ultimately show ?thesis using ok unfolding entries_ok_def by metis
  qed
qed

lemma entries_ok_delete: "entries_ok t \<Longrightarrow> entries_ok (snd (deleteUserEntry i t))"
  by (auto simp: entries_ok_def deleteUserEntry_def distinct_map_filter)

section \<open>The table the operations can reach\<close>

inductive allow_reach :: "allow_entry list \<Rightarrow> bool" where
  allow_start: "allow_reach []"
| allow_create: "allow_reach t \<Longrightarrow> createUserEntry new_id i t = Inr (row, t') \<Longrightarrow> allow_reach t'"
| allow_delete: "allow_reach t \<Longrightarrow> allow_reach (snd (deleteUserEntry i t))"

lemma allow_reach_ok: "allow_reach t \<Longrightarrow> entries_ok t"
proof (induction rule: allow_reach.induct)
  case allow_start
  show ?case by (simp add: entries_ok_def)
qed (auto intro: entries_ok_create entries_ok_delete)

lemma create_row:
  assumes "createUserEntry new_id i t = Inr (row, t')"
  shows "row \<in> set t' \<and> ae_parentDomain row = strip_dot (to_lower (in_parentDomain i)) \<and>
    ae_scope row = in_scope i \<and> (in_scope i = DEVICE \<longrightarrow> ae_deviceKey row = the (in_deviceKey i))"
proof -
  let ?k = "(strip_dot (to_lower (in_parentDomain i)), in_scope i,
             if in_scope i = DEVICE then the (in_deviceKey i) else [])"
  show ?thesis
  proof (cases "find (\<lambda>e. entry_key e = ?k) t")
    case None
    then show ?thesis
      using assms by (auto simp: createUserEntry_def Let_def split: if_splits)
  next
    case (Some e)
    then have e: "e \<in> set t" "entry_key e = ?k" by (auto simp: find_Some_iff)
    then show ?thesis
      using assms Some
      by (auto simp: createUserEntry_def Let_def entry_key_def split: if_splits intro!: image_eqI [of _ _ e])
  qed
qed

text \<open>C12: with the table any sequence of creations and deletions has produced, a domain is allowlisted
  for a device exactly when it is, or is a subdomain of, an active built-in domain, the domain of a
  GLOBAL entry, or the domain of a DEVICE entry whose key is that device: a DEVICE entry never
  applies to another device.\<close>

theorem allowlist_effect:
  assumes "allow_reach es"
  shows "isAllowlisted p dev (loadAllowlistSnapshot builtIn st es) \<longleftrightarrow>
    (\<exists>d. covered_by (strip_dot (to_lower p)) d \<and>
       (d \<in> set (activeBuiltInDomains builtIn (getDisabledBuiltins st)) \<or>
        (\<exists>e \<in> set es. ae_parentDomain e = d \<and>
           (ae_scope e = GLOBAL \<or>
            ae_scope e = DEVICE \<and> truthy dev \<and> to_lower (ae_deviceKey e) = to_lower (the dev)))))"
proof -
  let ?s0 = "\<lparr>sn_globalDomains = activeBuiltInDomains builtIn (getDisabledBuiltins st), sn_deviceDomains = []\<rparr>"
  have ok: "e \<in> set es \<Longrightarrow> (ae_scope e = DEVICE \<longleftrightarrow> ae_deviceKey e \<noteq> []) \<and>
      to_lower (ae_parentDomain e) = ae_parentDomain e" for e
    using allow_reach_ok [OF assms] by (auto simp: entries_ok_def)
  have scope: "ae_scope e = GLOBAL \<longleftrightarrow> ae_scope e \<noteq> DEVICE" for e by (cases "ae_scope e") auto
  have glob: "d \<in> set (sn_globalDomains (foldl snapshot_step ?s0 es)) \<longleftrightarrow>
      d \<in> set (activeBuiltInDomains builtIn (getDisabledBuiltins st)) \<or>
      (\<exists>e \<in> set es. ae_parentDomain e = d \<and> ae_scope e = GLOBAL)" for d
    unfolding snapshot_global scope using ok by auto
  have devs: "d \<in> set (dflt [] (om_get (sn_deviceDomains (foldl snapshot_step ?s0 es)) k)) \<longleftrightarrow>
      (\<exists>e \<in> set es. ae_parentDomain e = d \<and> ae_scope e = DEVICE \<and> to_lower (ae_deviceKey e) = k)" for d k
  proof -
    have "{to_lower (ae_parentDomain e) | e. e \<in> set es \<and> ae_scope e = DEVICE \<and> ae_deviceKey e \<noteq> [] \<and>
        to_lower (ae_deviceKey e) = k}
      = {ae_parentDomain e | e. e \<in> set es \<and> ae_scope e = DEVICE \<and> to_lower (ae_deviceKey e) = k}"
      by (rule Collect_cong) (metis ok)
    then show ?thesis unfolding snapshot_device by auto
  qed
  show ?thesis
    unfolding isAllowlisted_iff loadAllowlistSnapshot_def glob devs by blast
qed

text \<open>A sample entry for the witnesses.\<close>

definition sample_input :: entry_input where
  "sample_input = \<lparr>in_parentDomain = ''Ads.Example.'', in_scope = DEVICE, in_deviceKey = Some ''10.0.0.5'',
     in_deviceLabel = None, in_sourceDetectionId = None, in_note = None, in_createdBy = None\<rparr>"

definition sample_entry :: allow_entry where
  "sample_entry = \<lparr>ae_id = ''e1'', ae_parentDomain = ''ads.example'', ae_scope = DEVICE,
     ae_deviceKey = ''10.0.0.5'', ae_deviceLabel = None, ae_sourceDetectionId = None, ae_note = None,
     ae_createdBy = None\<rparr>"

lemma sample_create: "createUserEntry ''e1'' sample_input [] = Inr (sample_entry, [sample_entry])"
  by code_simp

lemma sample_reach: "allow_reach [sample_entry]"
  by (rule allow_create [OF allow_start sample_create])

theorem allowlist_effect_witness:
  "isAllowlisted ''x.ads.example'' (Some ''10.0.0.5'') (loadAllowlistSnapshot [] [] [sample_entry]) \<and>
   \<not> isAllowlisted ''x.ads.example'' (Some ''10.0.0.6'') (loadAllowlistSnapshot [] [] [sample_entry])"
proof -
  have cov: "covered_by (strip_dot (to_lower ''x.ads.example'')) ''ads.example''"
  proof -
    have "strip_dot (to_lower ''x.ads.example'') = ''x'' @ CHR ''.'' # ''ads.example''" by code_simp
    then show ?thesis unfolding covered_by_def by blast
  qed
  have keys: "to_lower ''10.0.0.5'' \<noteq> to_lower ''10.0.0.6''" by code_simp
  have none: "activeBuiltInDomains [] d = []" for d by (simp add: activeBuiltInDomains_def)
  have "isAllowlisted ''x.ads.example'' (Some ''10.0.0.5'') (loadAllowlistSnapshot [] [] [sample_entry])"
    unfolding allowlist_effect [OF sample_reach] using cov by (auto simp: sample_entry_def)
  moreover have "\<not> isAllowlisted ''x.ads.example'' (Some ''10.0.0.6'') (loadAllowlistSnapshot [] [] [sample_entry])"
    unfolding allowlist_effect [OF sample_reach] using keys none by (auto simp: sample_entry_def)
  ultimately show ?thesis by blast
qed

text \<open>\<open>createUserEntry\<close> fails exactly for a DEVICE entry without a device key; otherwise the table it
  returns keeps one row per (domain, scope, device key), a device key exactly on the DEVICE rows,
  and every row of another key as it was.\<close>

lemma createUserEntry_upsert:
  assumes "allow_reach t"
  shows "case createUserEntry new_id i t of
      Inl e \<Rightarrow> in_scope i = DEVICE \<and> \<not> truthy (in_deviceKey i)
    | Inr (row, t') \<Rightarrow>
        \<not> (in_scope i = DEVICE \<and> \<not> truthy (in_deviceKey i)) \<and>
        row \<in> set t' \<and> entries_ok t' \<and>
        filter (\<lambda>e. entry_key e \<noteq> entry_key row) t' = filter (\<lambda>e. entry_key e \<noteq> entry_key row) t \<and>
        length t' = length t + (if entry_key row \<in> set (map entry_key t) then 0 else 1)"
proof (cases "createUserEntry new_id i t")
  case (Inl e)
  then show ?thesis by (auto simp: createUserEntry_def Let_def split: if_splits option.splits)
next
  case (Inr rt)
  obtain row t' where rt: "rt = (row, t')" by (cases rt)
  let ?k = "(strip_dot (to_lower (in_parentDomain i)), in_scope i,
             if in_scope i = DEVICE then the (in_deviceKey i) else [])"
  have c: "createUserEntry new_id i t = Inr (row, t')" using Inr rt by simp
  have row: "row \<in> set t'" "entries_ok t'"
    using create_row [OF c] entries_ok_create [OF allow_reach_ok [OF assms] c] by auto
  have guard: "\<not> (in_scope i = DEVICE \<and> \<not> truthy (in_deviceKey i))"
    using c by (auto simp: createUserEntry_def Let_def split: if_splits)
  have "entry_key row = ?k \<and> filter (\<lambda>e. entry_key e \<noteq> ?k) t' = filter (\<lambda>e. entry_key e \<noteq> ?k) t \<and>
      length t' = length t + (if ?k \<in> set (map entry_key t) then 0 else 1)"
  proof (cases "find (\<lambda>e. entry_key e = ?k) t")
    case None
    then have "?k \<notin> set (map entry_key t)" by (auto simp: find_None_iff)
    moreover have "entry_key row = ?k" "t' = t @ [row]"
      using c None guard by (auto simp: createUserEntry_def Let_def entry_key_def)
    ultimately show ?thesis by simp
  next
    case (Some e)
    then have e: "e \<in> set t" "entry_key e = ?k" by (auto simp: find_Some_iff)
    let ?u = "\<lambda>e. e\<lparr>ae_deviceLabel := in_deviceLabel i,
                     ae_sourceDetectionId := in_sourceDetectionId i, ae_note := in_note i\<rparr>"
    have r: "row = ?u e" "t' = map (\<lambda>e'. if entry_key e' = ?k then ?u e' else e') t"
      using c Some guard by (auto simp: createUserEntry_def Let_def)
    have "filter (\<lambda>x. entry_key x \<noteq> ?k) (map (\<lambda>e'. if entry_key e' = ?k then ?u e' else e') xs)
        = filter (\<lambda>x. entry_key x \<noteq> ?k) xs" for xs
      using e(2) by (induction xs) auto
    note this [of t]
    moreover have "?k \<in> set (map entry_key t)" using e by (metis image_eqI image_set)
    moreover have "entry_key row = ?k" using r(1) e(2) by simp
    ultimately show ?thesis unfolding r(2) by simp
  qed
  with c row guard show ?thesis by simp
qed

lemma createUserEntry_upsert_witness:
  "entries_ok [sample_entry] \<and> length [sample_entry] = (1 :: nat)"
  using createUserEntry_upsert [OF allow_start, where new_id = "''e1''" and i = sample_input] by (simp add: sample_create)

text \<open>The disabled built-ins read back are exactly the keys that were stored, each once, and a whole
  category is switched off by its \<open>category:*\<close> key.\<close>

lemma disabled_builtins_roundtrip:
  "getDisabledBuiltins (setDisabledBuiltins keys st) = os_of keys \<and>
   (c \<in> set builtIn \<and> builtinCategoryKey (bc_id c) \<in> set keys \<and>
      d \<in> set (activeBuiltInDomains builtIn (getDisabledBuiltins (setDisabledBuiltins keys st))) \<longrightarrow>
      (\<exists>c' \<in> set builtIn. bc_id c' \<noteq> bc_id c \<and> d \<in> to_lower ` set (bc_domains c')))"
proof -
  have "concat (map (\<lambda>v. case v of JStr s \<Rightarrow> [s] | _ \<Rightarrow> []) (map JStr xs)) = xs" for xs
    by (induction xs) auto
  then have get: "getDisabledBuiltins (setDisabledBuiltins keys st) = os_of keys"
    by (simp add: getDisabledBuiltins_def setDisabledBuiltins_def om_get_set o_def)
  have "\<exists>c' \<in> set builtIn. bc_id c' \<noteq> bc_id c \<and> d \<in> to_lower ` set (bc_domains c')"
    if "builtinCategoryKey (bc_id c) \<in> set keys" "d \<in> set (activeBuiltInDomains builtIn (os_of keys))"
  proof -
    from that(2) obtain d' c' where "d = to_lower d'" "c' \<in> set builtIn" "d' \<in> set (bc_domains c')"
      "builtinCategoryKey (bc_id c') \<notin> set keys"
      by (auto simp: set_activeBuiltInDomains)
    with that(1) show ?thesis by (metis imageI)
  qed
  with get show ?thesis by simp
qed

lemma disabled_builtins_roundtrip_witness:
  "getDisabledBuiltins (setDisabledBuiltins [''ads:*'', ''ads:*''] []) = [''ads:*'']"
  using disabled_builtins_roundtrip [of "[''ads:*'', ''ads:*'']" "[]"] by (simp add: os_of_def os_add_def)

end
