(* ===== verification/Dedupe_Detectors.thy ===== *)
theory Dedupe_Detectors
  imports Detection_Types
begin

text \<open>
  The four detectors that emit one finding per fingerprint and append evidence to it as further
  flows arrive: \<open>dns_bypass\<close>, \<open>admin_port_egress\<close>, \<open>high_risk_country_egress\<close> and \<open>honeypot_hit\<close>.
  Each has its own acceptance test, fingerprint, first finding (\<open>fresh\<close>) and update (\<open>add\<close>); the
  locale \<open>finding_loop\<close> states what the four have in common, and its lemmas give the
  fingerprints, the evidence and the severity of every finding.
\<close>

section \<open>The shared contract\<close>

locale finding_loop =
  fixes accept :: "flow_row \<Rightarrow> bool"
    and key :: "flow_row \<Rightarrow> string"
    and fresh :: "flow_row \<Rightarrow> detection_result"
    and add :: "flow_row \<Rightarrow> detection_result \<Rightarrow> detection_result"
    and hot :: "flow_row \<Rightarrow> bool"
    and hi lo :: severity
  assumes fresh_fp: "dr_fingerprint (fresh r) = key r"
    and add_fp: "dr_fingerprint (add r d) = dr_fingerprint d"
    and fresh_ev: "dr_evidence (fresh r) = [EvFlow (fl_id r)]"
    and add_ev: "dr_evidence (add r d) = dr_evidence d @ [EvFlow (fl_id r)]"
    and fresh_sev: "dr_severity (fresh r) = (if hot r then hi else lo)"
    and add_sev: "dr_severity (add r d) = (if hot r then hi else dr_severity d)"
begin

lemma bucket:
  assumes "bucket_of fresh add (rows_of accept key k rows) = Some d"
  shows "dr_fingerprint d = k \<and>
    dr_evidence d = map (\<lambda>r. EvFlow (fl_id r)) (rows_of accept key k rows) \<and>
    dr_severity d = (if \<exists>r \<in> set (rows_of accept key k rows). hot r then hi else lo)"
  using assms
proof (rule bucket_of_induct
    [where P = "\<lambda>seen d. dr_fingerprint d = k \<and> dr_evidence d = map (\<lambda>r. EvFlow (fl_id r)) seen \<and>
       dr_severity d = (if \<exists>r \<in> set seen. hot r then hi else lo)"])
  fix r assume "r \<in> set (rows_of accept key k rows)"
  then show "dr_fingerprint (fresh r) = k \<and> dr_evidence (fresh r) = map (\<lambda>r. EvFlow (fl_id r)) [r] \<and>
      dr_severity (fresh r) = (if \<exists>r \<in> set [r]. hot r then hi else lo)"
    by (simp add: rows_of_def fresh_fp fresh_ev fresh_sev)
qed (auto simp: add_fp add_ev add_sev)

lemma fingerprints:
  "map dr_fingerprint (om_values (accum accept key fresh add rows))
     = os_of (map key (filter accept rows))"
proof -
  have "k \<in> set (os_of (map key (filter accept rows))) \<Longrightarrow>
      dr_fingerprint (the (bucket_of fresh add (rows_of accept key k rows))) = k" for k
  proof -
    assume "k \<in> set (os_of (map key (filter accept rows)))"
    then have "rows_of accept key k rows \<noteq> []" by (auto simp: rows_of_ne)
    then obtain d where "bucket_of fresh add (rows_of accept key k rows) = Some d"
      by (metis bucket_of_Some_iff)
    then show ?thesis by (simp add: bucket)
  qed
  then have "map (\<lambda>k. dr_fingerprint (the (bucket_of fresh add (rows_of accept key k rows))))
      (os_of (map key (filter accept rows))) = os_of (map key (filter accept rows))"
    by (intro map_idI)
  then show ?thesis
    by (simp add: accum_loop om.vals_loop o_def)
qed

lemma distinct_fingerprints:
  "distinct (map dr_fingerprint (om_values (accum accept key fresh add rows)))"
  by (simp add: fingerprints)

lemma finding:
  assumes "d \<in> set (om_values (accum accept key fresh add rows))"
  shows "dr_evidence d = map (\<lambda>r. EvFlow (fl_id r)) (rows_of accept key (dr_fingerprint d) rows)"
    and "dr_severity d = (if \<exists>r \<in> set (rows_of accept key (dr_fingerprint d) rows). hot r then hi else lo)"
    and "rows_of accept key (dr_fingerprint d) rows \<noteq> []"
    and "bucket_of fresh add (rows_of accept key (dr_fingerprint d) rows) = Some d"
proof -
  from assms obtain k where k: "om_get (accum accept key fresh add rows) k = Some d"
    by (auto simp: set_om_values)
  then have b: "bucket_of fresh add (rows_of accept key k rows) = Some d"
    by (simp add: om_get_accum)
  from bucket [OF b] have fp: "dr_fingerprint d = k" by simp
  with b bucket [OF b] show
    "dr_evidence d = map (\<lambda>r. EvFlow (fl_id r)) (rows_of accept key (dr_fingerprint d) rows)"
    "dr_severity d = (if \<exists>r \<in> set (rows_of accept key (dr_fingerprint d) rows). hot r then hi else lo)"
    "bucket_of fresh add (rows_of accept key (dr_fingerprint d) rows) = Some d"
    by auto
  from b fp show "rows_of accept key (dr_fingerprint d) rows \<noteq> []"
    using bucket_of_Some_iff [of fresh add "rows_of accept key k rows"] by auto
qed

lemma complete:
  assumes "r \<in> set rows" "accept r"
  shows "\<exists>d \<in> set (om_values (accum accept key fresh add rows)).
           dr_fingerprint d = key r \<and> EvFlow (fl_id r) \<in> set (dr_evidence d)"
proof -
  have "key r \<in> dr_fingerprint ` set (om_values (accum accept key fresh add rows))"
    using arg_cong [OF fingerprints, of set rows] assms by auto
  then obtain d where d: "d \<in> set (om_values (accum accept key fresh add rows))" "dr_fingerprint d = key r"
    by auto
  from finding(1) [OF d(1)] d(2) assms have "EvFlow (fl_id r) \<in> set (dr_evidence d)"
    by (auto simp: rows_of_def)
  with d show ?thesis by auto
qed

end

section \<open>\<open>dns_bypass\<close> (\<open>detectors/dnsBypass.ts\<close>)\<close>

definition DEFAULT_KNOWN_RESOLVERS :: "string list" where
  "DEFAULT_KNOWN_RESOLVERS =
     [''1.1.1.1'', ''1.0.0.1'', ''8.8.8.8'', ''8.8.4.4'', ''9.9.9.9'', ''149.112.112.112'']"

definition csv_list :: "string \<Rightarrow> string list" where
  "csv_list raw = filter (\<lambda>s. s \<noteq> []) (map js_trim (split_on CHR '','' raw))"

definition knownResolvers :: "env \<Rightarrow> string list" where
  "knownResolvers env =
     (if \<not> truthy (env ''KNOWN_DNS_RESOLVERS'') then os_of DEFAULT_KNOWN_RESOLVERS
      else os_of (csv_list (the (env ''KNOWN_DNS_RESOLVERS''))))"

definition dns_isPrivateIp :: "string \<Rightarrow> bool" where
  "dns_isPrivateIp ip =
     (if starts_with ''10.'' ip then True
      else if starts_with ''192.168.'' ip then True
      else if starts_with ''127.'' ip then True
      else if is_172_private ip then True
      else if ip = ''::1'' \<or> starts_with ''fe80:'' ip \<or> starts_with ''fc'' ip \<or> starts_with ''fd'' ip
      then True
      else False)"

definition dns_severityFor :: "string option \<Rightarrow> severity" where
  "dns_severityFor action =
     (if \<not> truthy action then MEDIUM
      else if to_lower (the action) = ''blocked'' then INFO else MEDIUM)"

definition dns_bypass_rows :: "detector_context \<Rightarrow> flow_row list \<Rightarrow> flow_row list" where
  "dns_bypass_rows ctx flows =
     filter (\<lambda>f. in_window ctx (fl_occurredAt f) \<and> fl_dstPort f = Some 53 \<and> fl_dstIp f \<noteq> None) flows"

definition dns_bypass_accept :: "string list \<Rightarrow> flow_row \<Rightarrow> bool" where
  "dns_bypass_accept allowed f =
     (if \<not> truthy (fl_dstIp f) then False
      else if the (fl_dstIp f) \<in> set allowed then False
      else if dns_isPrivateIp (the (fl_dstIp f)) then False
      else True)"

definition dns_bypass_fingerprint :: "flow_row \<Rightarrow> string" where
  "dns_bypass_fingerprint f = ''dns_bypass:'' @ src_key f @ '':'' @ the (fl_dstIp f)"

definition dns_bypass_fresh :: "flow_row \<Rightarrow> detection_result" where
  "dns_bypass_fresh f =
     \<lparr>dr_fingerprint = dns_bypass_fingerprint f,
      dr_severity = dns_severityFor (fl_action f),
      dr_title = src_actor f @ '' used external DNS server '' @ the (fl_dstIp f),
      dr_description = ''Device queried an external DNS resolver that is not on the allowlist. This bypasses the monitored DNS proxy.'',
      dr_remediation = None,
      dr_affectedResource = Some (src_actor f),
      dr_srcMac = fl_srcMac f,
      dr_confidence = None,
      dr_evidence = [EvFlow (fl_id f)],
      dr_metadata = Some [(''resolver'', JStr (the (fl_dstIp f))), (''action'', js_opt_str (fl_action f))]\<rparr>"

definition dns_bypass_add :: "flow_row \<Rightarrow> detection_result \<Rightarrow> detection_result" where
  "dns_bypass_add f d =
     d\<lparr>dr_evidence := dr_evidence d @ [EvFlow (fl_id f)],
       dr_severity := (if dns_severityFor (fl_action f) = MEDIUM then MEDIUM else dr_severity d)\<rparr>"

definition dns_bypass_evaluate :: "env \<Rightarrow> detector_context \<Rightarrow> flow_row list \<Rightarrow> detection_result list" where
  "dns_bypass_evaluate env ctx flows =
     om_values (accum (dns_bypass_accept (knownResolvers env)) dns_bypass_fingerprint
       dns_bypass_fresh dns_bypass_add (dns_bypass_rows ctx flows))"

lemma dns_severityFor_cases: "dns_severityFor a = MEDIUM \<or> dns_severityFor a = INFO"
  by (simp add: dns_severityFor_def)

interpretation dnsb: finding_loop "dns_bypass_accept allowed" dns_bypass_fingerprint dns_bypass_fresh
  dns_bypass_add "\<lambda>f. dns_severityFor (fl_action f) = MEDIUM" MEDIUM INFO for allowed
  by unfold_locales
    (use dns_severityFor_cases in \<open>auto simp: dns_bypass_fresh_def dns_bypass_add_def\<close>)

section \<open>\<open>admin_port_egress\<close> (\<open>detectors/adminPortEgress.ts\<close>)\<close>

definition DEFAULT_ADMIN_PORTS :: "rat list" where
  "DEFAULT_ADMIN_PORTS = [22, 23, 3389, 5900, 5901, 5902, 5985, 5986]"

definition adminPorts :: "env \<Rightarrow> rat list" where
  "adminPorts env =
     (if \<not> truthy (env ''ADMIN_EGRESS_PORTS'') then DEFAULT_ADMIN_PORTS
      else concat (map (\<lambda>s. case js_number (js_trim s) of
                               Fin n \<Rightarrow> if 0 < n \<and> n < 65536 then [n] else []
                             | _ \<Rightarrow> [])
             (split_on CHR '','' (the (env ''ADMIN_EGRESS_PORTS'')))))"

definition admin_severityFor :: "string option \<Rightarrow> severity" where
  "admin_severityFor action =
     (if \<not> truthy action then HIGH
      else if to_lower (the action) = ''blocked'' then LOW else HIGH)"

definition admin_rows :: "rat list \<Rightarrow> detector_context \<Rightarrow> flow_row list \<Rightarrow> flow_row list" where
  "admin_rows ports ctx flows =
     filter (\<lambda>f. in_window ctx (fl_occurredAt f) \<and>
       (case fl_dstPort f of None \<Rightarrow> False | Some p \<Rightarrow> of_int p \<in> set ports) \<and> fl_dstIp f \<noteq> None) flows"

definition admin_accept :: "flow_row \<Rightarrow> bool" where
  "admin_accept f =
     (if \<not> truthy (fl_dstIp f) \<or> fl_dstPort f = None then False
      else if is_private_ip (the (fl_dstIp f)) then False
      else True)"

definition admin_fingerprint :: "flow_row \<Rightarrow> string" where
  "admin_fingerprint f = ''admin_port_egress:'' @ src_key f @ '':'' @ show_int (the (fl_dstPort f))"

definition admin_fresh :: "flow_row \<Rightarrow> detection_result" where
  "admin_fresh f =
     \<lparr>dr_fingerprint = admin_fingerprint f,
      dr_severity = admin_severityFor (fl_action f),
      dr_title = src_actor f @ '' attempted egress to admin port '' @ show_int (the (fl_dstPort f)),
      dr_description = ''Outbound traffic to an admin / remote-management port on the public internet. Rarely legitimate; investigate the source device.'',
      dr_remediation = None,
      dr_affectedResource = Some (src_actor f),
      dr_srcMac = fl_srcMac f,
      dr_confidence = None,
      dr_evidence = [EvFlow (fl_id f)],
      dr_metadata = Some [(''dstPort'', js_int (the (fl_dstPort f))), (''action'', js_opt_str (fl_action f))]\<rparr>"

definition admin_add :: "flow_row \<Rightarrow> detection_result \<Rightarrow> detection_result" where
  "admin_add f d =
     d\<lparr>dr_evidence := dr_evidence d @ [EvFlow (fl_id f)],
       dr_severity := (if admin_severityFor (fl_action f) = HIGH then HIGH else dr_severity d)\<rparr>"

definition admin_evaluate :: "env \<Rightarrow> detector_context \<Rightarrow> flow_row list \<Rightarrow> detection_result list" where
  "admin_evaluate env ctx flows =
     (let ports = adminPorts env in
      if ports = [] then []
      else om_values (accum admin_accept admin_fingerprint admin_fresh admin_add (admin_rows ports ctx flows)))"

lemma admin_severityFor_cases: "admin_severityFor a = HIGH \<or> admin_severityFor a = LOW"
  by (simp add: admin_severityFor_def)

interpretation admin: finding_loop admin_accept admin_fingerprint admin_fresh admin_add
  "\<lambda>f. admin_severityFor (fl_action f) = HIGH" HIGH LOW
  by unfold_locales
    (use admin_severityFor_cases in \<open>auto simp: admin_fresh_def admin_add_def\<close>)

section \<open>\<open>high_risk_country_egress\<close> (\<open>detectors/highRiskCountryEgress.ts\<close>)\<close>

definition DEFAULT_HIGH_RISK :: "string list" where
  "DEFAULT_HIGH_RISK = [''CN'', ''RU'', ''KP'', ''IR'']"

definition highRiskCountries :: "env \<Rightarrow> string list" where
  "highRiskCountries env =
     (if \<not> truthy (env ''HIGH_RISK_COUNTRIES'') then DEFAULT_HIGH_RISK
      else filter (\<lambda>c. c \<noteq> [])
        (map (\<lambda>c. to_upper (js_trim c)) (split_on CHR '','' (the (env ''HIGH_RISK_COUNTRIES'')))))"

definition country_severityFor :: "string option \<Rightarrow> severity" where
  "country_severityFor action =
     (if \<not> truthy action then MEDIUM
      else if to_lower (the action) = ''blocked'' then INFO else MEDIUM)"

definition country_rows :: "string list \<Rightarrow> detector_context \<Rightarrow> flow_row list \<Rightarrow> flow_row list" where
  "country_rows watch ctx flows =
     filter (\<lambda>f. in_window ctx (fl_occurredAt f) \<and>
       (case fl_dstRegion f of None \<Rightarrow> False | Some r \<Rightarrow> r \<in> set watch)) flows"

definition country_accept :: "flow_row \<Rightarrow> bool" where
  "country_accept f = truthy (fl_dstRegion f)"

definition country_fingerprint :: "flow_row \<Rightarrow> string" where
  "country_fingerprint f =
     ''high_risk_country_egress:'' @ src_key f @ '':'' @ the (fl_dstRegion f)"

definition total_key :: string where
  "total_key = ''totalBytes''"

definition country_fresh :: "flow_row \<Rightarrow> detection_result" where
  "country_fresh f =
     \<lparr>dr_fingerprint = country_fingerprint f,
      dr_severity = country_severityFor (fl_action f),
      dr_title = src_actor f @ '' egressed to '' @ the (fl_dstRegion f),
      dr_description = ''Flow destination resolved to '' @ the (fl_dstRegion f) @ '', which is on the high-risk country watch list.'',
      dr_remediation = None,
      dr_affectedResource = Some (src_actor f),
      dr_srcMac = fl_srcMac f,
      dr_confidence = None,
      dr_evidence = [EvFlow (fl_id f)],
      dr_metadata = Some [(''dstRegion'', JStr (the (fl_dstRegion f))),
                          (total_key, JBig (dflt 0 (fl_bytesTotal f))),
                          (''action'', js_opt_str (fl_action f))]\<rparr>"

text \<open>\<open>(meta.totalBytes as bigint | undefined) ?? BigInt(0)\<close>\<close>

definition meta_total :: "(string \<times> json) list \<Rightarrow> int" where
  "meta_total meta = (case om_get meta total_key of Some (JBig b) \<Rightarrow> b | _ \<Rightarrow> 0)"

definition country_add :: "flow_row \<Rightarrow> detection_result \<Rightarrow> detection_result" where
  "country_add f d =
     (let meta = dflt [] (dr_metadata d) in
      d\<lparr>dr_evidence := dr_evidence d @ [EvFlow (fl_id f)],
        dr_severity := (if country_severityFor (fl_action f) = MEDIUM then MEDIUM else dr_severity d),
        dr_metadata := Some (om_set total_key
           (JBig (meta_total meta + dflt 0 (fl_bytesTotal f))) meta)\<rparr>)"

text \<open>The last pass turns the \<open>BigInt\<close> total into its decimal text.\<close>

definition bigint_to_text :: "detection_result \<Rightarrow> detection_result" where
  "bigint_to_text d =
     (case dr_metadata d of
        None \<Rightarrow> d
      | Some meta \<Rightarrow>
          (case om_get meta total_key of
             Some (JBig b) \<Rightarrow> d\<lparr>dr_metadata := Some (om_set total_key (JStr (show_int b)) meta)\<rparr>
           | _ \<Rightarrow> d))"

definition country_evaluate :: "env \<Rightarrow> detector_context \<Rightarrow> flow_row list \<Rightarrow> detection_result list" where
  "country_evaluate env ctx flows =
     (let watch = highRiskCountries env in
      if watch = [] then []
      else map bigint_to_text
        (om_values (accum country_accept country_fingerprint country_fresh country_add
           (country_rows watch ctx flows))))"

lemma country_severityFor_cases: "country_severityFor a = MEDIUM \<or> country_severityFor a = INFO"
  by (simp add: country_severityFor_def)

interpretation country: finding_loop country_accept country_fingerprint country_fresh country_add
  "\<lambda>f. country_severityFor (fl_action f) = MEDIUM" MEDIUM INFO
  by unfold_locales
    (use country_severityFor_cases in \<open>auto simp: country_fresh_def country_add_def Let_def\<close>)

text \<open>The running total of a bucket is the sum over its rows, and it is the only \<open>BigInt\<close>.\<close>

definition country_meta_ok :: "flow_row list \<Rightarrow> detection_result \<Rightarrow> bool" where
  "country_meta_ok seen d \<longleftrightarrow>
     (\<exists>meta. dr_metadata d = Some meta \<and>
        om_get meta total_key = Some (JBig (\<Sum>f \<leftarrow> seen. dflt 0 (fl_bytesTotal f))) \<and>
        (\<forall>k v. k \<noteq> total_key \<longrightarrow> om_get meta k = Some v \<longrightarrow> \<not> has_bigint v))"

lemma country_meta_fresh: "country_meta_ok [r] (country_fresh r)"
proof -
  have "total_key \<noteq> ''dstRegion''" "total_key \<noteq> ''action''"
    by (simp_all add: total_key_def)
  then show ?thesis
    by (auto simp: country_meta_ok_def country_fresh_def om_get_def js_opt_str_def
        split: if_splits option.split)
qed

lemma country_meta_add: "country_meta_ok seen w \<Longrightarrow> country_meta_ok (seen @ [r]) (country_add r w)"
  by (auto simp: country_meta_ok_def country_add_def Let_def meta_total_def om_get_set)

lemma country_bucket_meta:
  "bucket_of country_fresh country_add rs = Some d \<Longrightarrow> country_meta_ok rs d"
  by (erule bucket_of_induct) (simp_all add: country_meta_fresh country_meta_add)

lemma bigint_to_text_simps [simp]:
  "dr_fingerprint (bigint_to_text d) = dr_fingerprint d"
  "dr_severity (bigint_to_text d) = dr_severity d"
  "dr_evidence (bigint_to_text d) = dr_evidence d"
  by (simp_all add: bigint_to_text_def split: option.split json.split)

section \<open>\<open>honeypot_hit\<close> (\<open>detectors/honeypotHit.ts\<close>)\<close>

definition csvFromEnv :: "env \<Rightarrow> string \<Rightarrow> string list" where
  "csvFromEnv env name =
     (if \<not> truthy (env name) then []
      else filter (\<lambda>s. s \<noteq> []) (map (\<lambda>s. to_lower (js_trim s)) (split_on CHR '','' (the (env name)))))"

definition honeypot_rows ::
  "string list \<Rightarrow> string list \<Rightarrow> detector_context \<Rightarrow> flow_row list \<Rightarrow> flow_row list" where
  "honeypot_rows ips macs ctx flows =
     filter (\<lambda>f. in_window ctx (fl_occurredAt f) \<and>
       ((ips \<noteq> [] \<and> (case fl_dstIp f of None \<Rightarrow> False | Some i \<Rightarrow> i \<in> set ips)) \<or>
        (macs \<noteq> [] \<and> (case fl_dstMac f of None \<Rightarrow> False | Some m \<Rightarrow> m \<in> set macs)))) flows"

definition honeypot_target :: "flow_row \<Rightarrow> string" where
  "honeypot_target f = dflt ''unknown-target'' (nullish (fl_dstIp f) (fl_dstMac f))"

definition honeypot_fingerprint :: "flow_row \<Rightarrow> string" where
  "honeypot_fingerprint f = ''honeypot_hit:'' @ src_key f @ '':'' @ honeypot_target f"

definition honeypot_fresh :: "flow_row \<Rightarrow> detection_result" where
  "honeypot_fresh f =
     \<lparr>dr_fingerprint = honeypot_fingerprint f,
      dr_severity = CRITICAL,
      dr_title = src_actor f @ '' touched honeypot '' @ honeypot_target f,
      dr_description = ''A honeypot resource has no legitimate clients. This source contacted it during the window ''
        @ em_dash @ '' investigate immediately.'',
      dr_remediation = None,
      dr_affectedResource = Some (src_actor f),
      dr_srcMac = fl_srcMac f,
      dr_confidence = None,
      dr_evidence = [EvFlow (fl_id f)],
      dr_metadata = Some [(''target'', JStr (honeypot_target f)),
                          (''port'', (case fl_dstPort f of None \<Rightarrow> JUndef | Some p \<Rightarrow> js_int p))]\<rparr>"

definition honeypot_add :: "flow_row \<Rightarrow> detection_result \<Rightarrow> detection_result" where
  "honeypot_add f d = d\<lparr>dr_evidence := dr_evidence d @ [EvFlow (fl_id f)]\<rparr>"

definition honeypot_evaluate :: "env \<Rightarrow> detector_context \<Rightarrow> flow_row list \<Rightarrow> detection_result list" where
  "honeypot_evaluate env ctx flows =
     (let ips = csvFromEnv env ''HONEYPOT_IPS''; macs = csvFromEnv env ''HONEYPOT_MACS'' in
      if ips = [] \<and> macs = [] then []
      else om_values (accum (\<lambda>_. True) honeypot_fingerprint honeypot_fresh honeypot_add
        (honeypot_rows ips macs ctx flows)))"

interpretation honeypot: finding_loop "\<lambda>_. True" honeypot_fingerprint honeypot_fresh honeypot_add
  "\<lambda>_. False" CRITICAL CRITICAL
  by unfold_locales (simp_all add: honeypot_fresh_def honeypot_add_def)

section \<open>What the detectors report\<close>

text \<open>Sample rows for the witnesses.\<close>

definition sample_flow :: "string \<Rightarrow> string \<Rightarrow> flow_row" where
  "sample_flow i dst =
     \<lparr>fl_id = i, fl_occurredAt = 5, fl_action = Some ''allowed'', fl_srcMac = Some ''m1'',
      fl_srcIp = Some ''10.0.0.7'', fl_srcClientName = None, fl_dstIp = Some dst, fl_dstMac = None,
      fl_dstPort = Some 53, fl_dstRegion = Some ''CN'', fl_bytesTotal = Some 70\<rparr>"

definition sample_ctx :: detector_context where
  "sample_ctx = \<lparr>cx_beginTime = 0, cx_endTime = 10\<rparr>"

definition sample_env :: env where
  "sample_env = (\<lambda>n. if n = ''HONEYPOT_IPS'' then Some ''10.9.9.9 , 10.9.9.8'' else None)"

text \<open>The flows that \<open>dns_bypass\<close> is meant to find, in one predicate.\<close>

definition dns_bypass_hit :: "env \<Rightarrow> detector_context \<Rightarrow> flow_row \<Rightarrow> bool" where
  "dns_bypass_hit env ctx f \<longleftrightarrow>
     in_window ctx (fl_occurredAt f) \<and> fl_dstPort f = Some 53 \<and>
     (case fl_dstIp f of
        None \<Rightarrow> False
      | Some ip \<Rightarrow> ip \<noteq> [] \<and> ip \<notin> set (knownResolvers env) \<and> \<not> dns_isPrivateIp ip)"

text \<open>C21: \<open>dns_bypass\<close> emits exactly one finding per (source, resolver) fingerprint of the flows in the
  window that go to port 53 of a public address outside the known-resolver list, in order of first
  occurrence; the evidence of a finding is the list of all of its flows, and its severity is MEDIUM
  as soon as one of them was not blocked, INFO otherwise.\<close>

theorem dns_bypass_findings:
  "map dr_fingerprint (dns_bypass_evaluate env ctx flows)
      = os_of (map dns_bypass_fingerprint (filter (dns_bypass_hit env ctx) flows)) \<and>
    (\<forall>d \<in> set (dns_bypass_evaluate env ctx flows).
       dr_evidence d = map (\<lambda>f. EvFlow (fl_id f))
         (filter (\<lambda>f. dns_bypass_hit env ctx f \<and> dns_bypass_fingerprint f = dr_fingerprint d) flows) \<and>
       dr_severity d =
         (if \<exists>f \<in> set flows. dns_bypass_hit env ctx f \<and> dns_bypass_fingerprint f = dr_fingerprint d \<and>
             to_lower (dflt [] (fl_action f)) \<noteq> ''blocked'' then MEDIUM else INFO))"
proof -
  let ?acc = "dns_bypass_accept (knownResolvers env)"
  have hit: "(in_window ctx (fl_occurredAt f) \<and> fl_dstPort f = Some 53 \<and> fl_dstIp f \<noteq> None) \<and> ?acc f
      \<longleftrightarrow> dns_bypass_hit env ctx f" for f
    by (auto simp: dns_bypass_hit_def dns_bypass_accept_def split: if_splits option.splits)
  have rows: "filter ?acc (dns_bypass_rows ctx flows) = filter (dns_bypass_hit env ctx) flows"
    unfolding dns_bypass_rows_def filter_filter by (intro filter_cong refl) (rule hit)
  have own: "rows_of ?acc dns_bypass_fingerprint k (dns_bypass_rows ctx flows)
      = filter (\<lambda>f. dns_bypass_hit env ctx f \<and> dns_bypass_fingerprint f = k) flows" for k
    unfolding rows_of_def dns_bypass_rows_def filter_filter
    by (intro filter_cong refl) (simp add: hit [symmetric])
  have hot: "dns_severityFor a = MEDIUM \<longleftrightarrow> to_lower (dflt [] a) \<noteq> ''blocked''" for a
    by (cases a) (auto simp: dns_severityFor_def)
  show ?thesis
    unfolding dns_bypass_evaluate_def dnsb.fingerprints rows
    by (auto simp: dnsb.finding(1,2) own hot)
qed

theorem dns_bypass_findings_witness:
  "map dr_fingerprint (dns_bypass_evaluate sample_env sample_ctx
       [sample_flow ''f1'' ''8.8.8.8'', sample_flow ''f2'' ''4.4.4.4''])
     = [''dns_bypass:m1:4.4.4.4''] \<and>
   map dr_severity (dns_bypass_evaluate sample_env sample_ctx
       [sample_flow ''f1'' ''8.8.8.8'', sample_flow ''f2'' ''4.4.4.4'']) = [MEDIUM]"
proof -
  let ?fs = "[sample_flow ''f1'' ''8.8.8.8'', sample_flow ''f2'' ''4.4.4.4'']"
  let ?r = "dns_bypass_evaluate sample_env sample_ctx ?fs"
  have "os_of (map dns_bypass_fingerprint (filter (dns_bypass_hit sample_env sample_ctx) ?fs))
      = [''dns_bypass:m1:4.4.4.4'']" by code_simp
  then have fp: "map dr_fingerprint ?r = [''dns_bypass:m1:4.4.4.4'']"
    using dns_bypass_findings [of sample_env sample_ctx ?fs] by simp
  then obtain d where d: "?r = [d]" "dr_fingerprint d = ''dns_bypass:m1:4.4.4.4''" by auto
  have "\<exists>f \<in> set ?fs. dns_bypass_hit sample_env sample_ctx f \<and>
      dns_bypass_fingerprint f = ''dns_bypass:m1:4.4.4.4'' \<and> to_lower (dflt [] (fl_action f)) \<noteq> ''blocked''"
    by code_simp
  then have "dr_severity d = MEDIUM"
    using dns_bypass_findings [of sample_env sample_ctx ?fs] d by auto
  with fp d(1) show ?thesis by simp
qed

text \<open>Every flow that reaches a public address on a configured admin port without being blocked
  is reported by \<open>admin_port_egress\<close> at severity HIGH, with that flow in the evidence.\<close>

lemma admin_port_egress_reports:
  assumes "f \<in> set flows" "in_window ctx (fl_occurredAt f)"
    and "fl_dstPort f = Some p" "of_int p \<in> set (adminPorts env)"
    and "fl_dstIp f = Some ip" "ip \<noteq> []" "\<not> is_private_ip ip"
    and "to_lower (dflt [] (fl_action f)) \<noteq> ''blocked''"
  shows "\<exists>d \<in> set (admin_evaluate env ctx flows).
           dr_fingerprint d = admin_fingerprint f \<and> dr_severity d = HIGH \<and>
           EvFlow (fl_id f) \<in> set (dr_evidence d)"
proof -
  let ?rows = "admin_rows (adminPorts env) ctx flows"
  have r: "f \<in> set ?rows" "admin_accept f" using assms by (auto simp: admin_rows_def admin_accept_def)
  have ev: "admin_evaluate env ctx flows =
      om_values (accum admin_accept admin_fingerprint admin_fresh admin_add ?rows)"
    using assms(4) by (auto simp: admin_evaluate_def Let_def)
  obtain d where d: "d \<in> set (admin_evaluate env ctx flows)"
    "dr_fingerprint d = admin_fingerprint f" "EvFlow (fl_id f) \<in> set (dr_evidence d)"
    using admin.complete [OF r] unfolding ev by blast
  have "admin_severityFor (fl_action f) = HIGH"
    using assms(8) by (cases "fl_action f") (auto simp: admin_severityFor_def)
  with r d have "dr_severity d = HIGH"
    using admin.finding(2) [OF d(1) [unfolded ev]] by (auto simp: rows_of_def)
  with d show ?thesis by blast
qed

lemma admin_port_egress_reports_witness:
  "\<exists>d \<in> set (admin_evaluate (\<lambda>_. None) sample_ctx [sample_flow ''f1'' ''8.8.8.8''\<lparr>fl_dstPort := Some 22\<rparr>]).
      dr_severity d = HIGH \<and> EvFlow ''f1'' \<in> set (dr_evidence d)"
proof -
  let ?f = "sample_flow ''f1'' ''8.8.8.8''\<lparr>fl_dstPort := Some 22\<rparr>"
  have "\<exists>d \<in> set (admin_evaluate (\<lambda>_. None) sample_ctx [?f]).
      dr_fingerprint d = admin_fingerprint ?f \<and> dr_severity d = HIGH \<and> EvFlow (fl_id ?f) \<in> set (dr_evidence d)"
  proof (rule admin_port_egress_reports [where p = 22 and ip = "''8.8.8.8''"])
    show "\<not> is_private_ip ''8.8.8.8''" by code_simp
    show "to_lower (dflt [] (fl_action ?f)) \<noteq> ''blocked''" by code_simp
    show "in_window sample_ctx (fl_occurredAt ?f)" by code_simp
  qed (simp_all add: sample_flow_def adminPorts_def DEFAULT_ADMIN_PORTS_def)
  then show ?thesis by (auto simp: sample_flow_def)
qed

text \<open>Each finding of \<open>high_risk_country_egress\<close> carries, as decimal text, the total number of bytes
  of exactly the flows in its evidence, and no \<open>BigInt\<close> is left in its metadata, so the row can be
  stored as JSON.\<close>

lemma high_risk_country_total:
  assumes "d \<in> set (country_evaluate env ctx flows)"
  shows "\<exists>own meta. own \<noteq> [] \<and> set own \<subseteq> set flows \<and> dr_metadata d = Some meta \<and>
    dr_evidence d = map (\<lambda>f. EvFlow (fl_id f)) own \<and>
    (\<forall>f \<in> set own. the (fl_dstRegion f) \<in> set (highRiskCountries env)) \<and>
    om_get meta total_key = Some (JStr (show_int (\<Sum>f \<leftarrow> own. dflt 0 (fl_bytesTotal f)))) \<and>
    (\<forall>k v. om_get meta k = Some v \<longrightarrow> \<not> has_bigint v)"
proof -
  let ?rows = "country_rows (highRiskCountries env) ctx flows"
  let ?own = "\<lambda>k. rows_of country_accept country_fingerprint k ?rows"
  obtain d0 where d0: "d = bigint_to_text d0"
    "d0 \<in> set (om_values (accum country_accept country_fingerprint country_fresh country_add ?rows))"
    using assms by (auto simp: country_evaluate_def Let_def split: if_splits)
  note f = country.finding [OF d0(2)]
  let ?o = "?own (dr_fingerprint d0)"
  obtain meta where m: "dr_metadata d0 = Some meta"
    "om_get meta total_key = Some (JBig (\<Sum>f \<leftarrow> ?o. dflt 0 (fl_bytesTotal f)))"
    "\<forall>k v. k \<noteq> total_key \<longrightarrow> om_get meta k = Some v \<longrightarrow> \<not> has_bigint v"
    using country_bucket_meta [OF f(4)] by (auto simp: country_meta_ok_def)
  have own: "set ?o \<subseteq> set flows" "\<forall>f \<in> set ?o. the (fl_dstRegion f) \<in> set (highRiskCountries env)"
    by (auto simp: rows_of_def country_rows_def split: option.splits)
  let ?meta = "om_set total_key (JStr (show_int (\<Sum>f \<leftarrow> ?o. dflt 0 (fl_bytesTotal f)))) meta"
  have "dr_metadata d = Some ?meta" using m d0(1) by (simp add: bigint_to_text_def)
  moreover have "dr_evidence d = map (\<lambda>f. EvFlow (fl_id f)) ?o" using f(1) d0(1) by simp
  moreover have "\<forall>k v. om_get ?meta k = Some v \<longrightarrow> \<not> has_bigint v"
    using m(3) by (auto simp: om_get_set)
  moreover have "om_get ?meta total_key = Some (JStr (show_int (\<Sum>f \<leftarrow> ?o. dflt 0 (fl_bytesTotal f))))"
    by (simp add: om_get_set)
  ultimately show ?thesis using f(3) own by blast
qed

lemma high_risk_country_total_witness:
  "\<exists>d. country_evaluate (\<lambda>_. None) sample_ctx [sample_flow ''f1'' ''1.2.3.4'', sample_flow ''f2'' ''1.2.3.4''] = [d]
     \<and> (\<exists>meta. dr_metadata d = Some meta \<and> (\<forall>k v. om_get meta k = Some v \<longrightarrow> \<not> has_bigint v))"
proof -
  let ?fs = "[sample_flow ''f1'' ''1.2.3.4'', sample_flow ''f2'' ''1.2.3.4'']"
  have "length (country_evaluate (\<lambda>_. None) sample_ctx ?fs) = 1" by code_simp
  then obtain d where d: "country_evaluate (\<lambda>_. None) sample_ctx ?fs = [d]"
    by (auto simp: length_Suc_conv)
  with high_risk_country_total [of d "\<lambda>_. None" sample_ctx ?fs] show ?thesis by auto
qed

text \<open>Every flow in the window that touches a configured honeypot address or MAC is part of the
  evidence of a finding, all findings are CRITICAL, they have pairwise distinct fingerprints, and
  without configured honeypots there are none.\<close>

lemma honeypot_hit_findings:
  "(\<forall>f \<in> set (honeypot_rows (csvFromEnv env ''HONEYPOT_IPS'') (csvFromEnv env ''HONEYPOT_MACS'') ctx flows).
      \<exists>d \<in> set (honeypot_evaluate env ctx flows).
        dr_fingerprint d = honeypot_fingerprint f \<and> EvFlow (fl_id f) \<in> set (dr_evidence d)) \<and>
   (\<forall>d \<in> set (honeypot_evaluate env ctx flows). dr_severity d = CRITICAL \<and> dr_evidence d \<noteq> []) \<and>
   distinct (map dr_fingerprint (honeypot_evaluate env ctx flows)) \<and>
   (csvFromEnv env ''HONEYPOT_IPS'' = [] \<and> csvFromEnv env ''HONEYPOT_MACS'' = [] \<longrightarrow>
      honeypot_evaluate env ctx flows = [])"
proof -
  let ?ips = "csvFromEnv env ''HONEYPOT_IPS''" and ?macs = "csvFromEnv env ''HONEYPOT_MACS''"
  let ?rows = "honeypot_rows ?ips ?macs ctx flows"
  let ?all = "om_values (accum (\<lambda>_. True) honeypot_fingerprint honeypot_fresh honeypot_add ?rows)"
  have none: "?ips = [] \<and> ?macs = [] \<Longrightarrow> ?rows = []" by (simp add: honeypot_rows_def)
  have ev: "honeypot_evaluate env ctx flows = (if ?ips = [] \<and> ?macs = [] then [] else ?all)"
    by (simp add: honeypot_evaluate_def Let_def)
  have "\<forall>f \<in> set ?rows. \<exists>d \<in> set (honeypot_evaluate env ctx flows).
      dr_fingerprint d = honeypot_fingerprint f \<and> EvFlow (fl_id f) \<in> set (dr_evidence d)"
    using honeypot.complete [of _ ?rows] none by (auto simp: ev)
  moreover have "\<forall>d \<in> set ?all. dr_severity d = CRITICAL \<and> dr_evidence d \<noteq> []"
    using honeypot.finding by fastforce
  ultimately show ?thesis using honeypot.distinct_fingerprints by (auto simp: ev)
qed

lemma honeypot_hit_findings_witness:
  "\<exists>d \<in> set (honeypot_evaluate sample_env sample_ctx [sample_flow ''f1'' ''10.9.9.8'']).
      dr_severity d = CRITICAL \<and> EvFlow ''f1'' \<in> set (dr_evidence d)"
proof -
  let ?f = "sample_flow ''f1'' ''10.9.9.8''"
  have "honeypot_rows (csvFromEnv sample_env ''HONEYPOT_IPS'') (csvFromEnv sample_env ''HONEYPOT_MACS'')
      sample_ctx [?f] = [?f]" by code_simp
  with honeypot_hit_findings [of sample_env sample_ctx "[?f]"]
  obtain d where "d \<in> set (honeypot_evaluate sample_env sample_ctx [?f])"
    "EvFlow (fl_id ?f) \<in> set (dr_evidence d)" "dr_severity d = CRITICAL" by auto
  then show ?thesis by (auto simp: sample_flow_def)
qed

end
