(* ===== verification/Bucket_Detectors.thy ===== *)
theory Bucket_Detectors
  imports Dedupe_Detectors Dns_Allowlist
begin

text \<open>
  The four detectors that first group the rows of the window into buckets and then emit a finding
  for every bucket over a threshold: \<open>internal_scanning\<close>, \<open>high_egress_volume\<close>, \<open>repeating_threat\<close> and
  \<open>dns_tunneling\<close>.  Three of them cap the evidence a bucket keeps; the locale \<open>capped_bucket\<close> states
  that contract and gives the evidence of a bucket as a prefix of its rows.
\<close>

section \<open>The shared contract\<close>

locale capped_bucket =
  fixes init :: "'r \<Rightarrow> 'b"
    and upd :: "'r \<Rightarrow> 'b \<Rightarrow> 'b"
    and ev :: "'b \<Rightarrow> evidence list"
    and item :: "'r \<Rightarrow> evidence"
    and cap :: nat
  assumes init_ev: "ev (init r) = []"
    and upd_ev: "ev (upd r b) = (if length (ev b) < cap then ev b @ [item r] else ev b)"
begin

lemma bucket_ev:
  assumes "bucket_of (\<lambda>r. upd r (init r)) upd rs = Some b"
  shows "ev b = take cap (map item rs)"
  using assms
  by (rule bucket_of_induct [where P = "\<lambda>seen b. ev b = take cap (map item seen)"])
    (auto simp: init_ev upd_ev take_Cons' split: if_splits)

lemma bucket_ev_length:
  "bucket_of (\<lambda>r. upd r (init r)) upd rs = Some b \<Longrightarrow> length (ev b) = min cap (length rs)"
  by (simp add: bucket_ev)

end

text \<open>A threshold pass over the buckets: \<open>if (below) continue; findings.push(\<dots>)\<close>.\<close>

definition emit_over :: "('b \<Rightarrow> bool) \<Rightarrow> ('k \<Rightarrow> 'b \<Rightarrow> 'd) \<Rightarrow> ('k \<times> 'b) list \<Rightarrow> 'd list" where
  "emit_over below mk groups = concat (map (\<lambda>(k, b). if below b then [] else [mk k b]) groups)"

lemma emit_over_mem:
  "d \<in> set (emit_over below mk groups) \<longleftrightarrow> (\<exists>k b. (k, b) \<in> set groups \<and> \<not> below b \<and> d = mk k b)"
  by (auto simp: emit_over_def split: if_splits)

lemma emit_over_key:
  assumes "\<And>k b. fp (mk k b) = p @ k"
  shows "d \<in> set (emit_over below mk groups) \<and> fp d = p @ (k :: string) \<longleftrightarrow>
    (\<exists>b. (k, b) \<in> set groups \<and> \<not> below b \<and> d = mk k b)"
  using assms by (auto simp: emit_over_mem)

section \<open>\<open>internal_scanning\<close> (\<open>detectors/internalScanning.ts\<close>)\<close>

record scan_bucket =
  sb_targets :: "string list"
  sb_evidence :: "evidence list"
  sb_actor :: string
  sb_srcMac :: "string option"

definition scan_threshold :: "env \<Rightarrow> rat" where
  "scan_threshold env = env_number env ''INTERNAL_SCAN_THRESHOLD'' 25"

definition scan_rows :: "detector_context \<Rightarrow> flow_row list \<Rightarrow> flow_row list" where
  "scan_rows ctx flows =
     filter (\<lambda>f. in_window ctx (fl_occurredAt f) \<and> fl_srcIp f \<noteq> None \<and> fl_dstIp f \<noteq> None) flows"

definition scan_accept :: "flow_row \<Rightarrow> bool" where
  "scan_accept f =
     (if \<not> is_private_ip_opt (fl_srcIp f) \<or> \<not> is_private_ip_opt (fl_dstIp f) then False
      else if fl_srcIp f = fl_dstIp f then False else True)"

definition scan_init :: "flow_row \<Rightarrow> scan_bucket" where
  "scan_init f = \<lparr>sb_targets = [], sb_evidence = [], sb_actor = src_actor f, sb_srcMac = fl_srcMac f\<rparr>"

definition scan_upd :: "flow_row \<Rightarrow> scan_bucket \<Rightarrow> scan_bucket" where
  "scan_upd f b =
     b\<lparr>sb_targets := os_add (the (fl_dstIp f)) (sb_targets b),
       sb_evidence := (if length (sb_evidence b) < 20 then sb_evidence b @ [EvFlow (fl_id f)]
                       else sb_evidence b)\<rparr>"

definition scan_groups :: "detector_context \<Rightarrow> flow_row list \<Rightarrow> (string \<times> scan_bucket) list" where
  "scan_groups ctx flows =
     accum scan_accept src_key (\<lambda>f. scan_upd f (scan_init f)) scan_upd (scan_rows ctx flows)"

definition scan_finding :: "rat \<Rightarrow> string \<Rightarrow> scan_bucket \<Rightarrow> detection_result" where
  "scan_finding limit srcKey b =
     (let distinct' = length (sb_targets b) in
      \<lparr>dr_fingerprint = ''internal_scanning:'' @ srcKey,
       dr_severity = (if limit * 2 \<le> of_nat distinct' then HIGH else MEDIUM),
       dr_title = sb_actor b @ '' contacted '' @ show_nat distinct' @ '' distinct internal IPs'',
       dr_description = ''Source talked to '' @ show_nat distinct'
         @ '' unique LAN addresses during the window '' @ em_dash
         @ '' characteristic of reconnaissance / scanning behavior.'',
       dr_remediation = None,
       dr_affectedResource = Some (sb_actor b),
       dr_srcMac = sb_srcMac b,
       dr_confidence = None,
       dr_evidence = sb_evidence b,
       dr_metadata = Some [(''distinctTargets'', JNum (of_nat distinct')), (''threshold'', JNum limit),
                           (''sampleTargets'', JArr (map JStr (take 10 (sb_targets b))))]\<rparr>)"

definition scan_evaluate :: "env \<Rightarrow> detector_context \<Rightarrow> flow_row list \<Rightarrow> detection_result list" where
  "scan_evaluate env ctx flows =
     (let limit = scan_threshold env in
      emit_over (\<lambda>b. of_nat (length (sb_targets b)) < limit) (scan_finding limit) (scan_groups ctx flows))"

interpretation scan: capped_bucket scan_init scan_upd sb_evidence "\<lambda>f. EvFlow (fl_id f)" 20
  by unfold_locales (simp_all add: scan_init_def scan_upd_def)

section \<open>\<open>high_egress_volume\<close> (\<open>detectors/highEgressVolume.ts\<close>)\<close>

record egress_bucket =
  eb_bytes :: int
  eb_evidence :: "evidence list"
  eb_actor :: string
  eb_srcMac :: "string option"

definition EGRESS_DEFAULT_THRESHOLD :: int where
  "EGRESS_DEFAULT_THRESHOLD = 1024 * 1024 * 1024"

definition egress_threshold :: "env \<Rightarrow> int" where
  "egress_threshold env =
     (if \<not> truthy (env ''HIGH_EGRESS_BYTES_THRESHOLD'') then EGRESS_DEFAULT_THRESHOLD
      else (case js_bigint (the (env ''HIGH_EGRESS_BYTES_THRESHOLD'')) of
              Some n \<Rightarrow> if 0 < n then n else EGRESS_DEFAULT_THRESHOLD
            | None \<Rightarrow> EGRESS_DEFAULT_THRESHOLD))"

definition formatBytes :: "int \<Rightarrow> string" where
  "formatBytes n =
     (let gb = of_int n / (1024 * 1024 * 1024) in
      if 1 \<le> gb then to_fixed2 gb @ '' GiB''
      else to_fixed2 (of_int n / (1024 * 1024)) @ '' MiB'')"

definition egress_rows :: "detector_context \<Rightarrow> flow_row list \<Rightarrow> flow_row list" where
  "egress_rows ctx flows =
     filter (\<lambda>f. in_window ctx (fl_occurredAt f) \<and> fl_bytesTotal f \<noteq> None) flows"

definition egress_accept :: "flow_row \<Rightarrow> bool" where
  "egress_accept f = (if \<not> is_private_ip_opt (fl_srcIp f) \<or> is_private_ip_opt (fl_dstIp f) then False else True)"

definition egress_init :: "flow_row \<Rightarrow> egress_bucket" where
  "egress_init f = \<lparr>eb_bytes = 0, eb_evidence = [], eb_actor = src_actor f, eb_srcMac = fl_srcMac f\<rparr>"

definition egress_upd :: "flow_row \<Rightarrow> egress_bucket \<Rightarrow> egress_bucket" where
  "egress_upd f b =
     b\<lparr>eb_bytes := eb_bytes b + dflt 0 (fl_bytesTotal f),
       eb_evidence := (if length (eb_evidence b) < 10 then eb_evidence b @ [EvFlow (fl_id f)]
                       else eb_evidence b)\<rparr>"

definition egress_groups :: "detector_context \<Rightarrow> flow_row list \<Rightarrow> (string \<times> egress_bucket) list" where
  "egress_groups ctx flows =
     accum egress_accept src_key (\<lambda>f. egress_upd f (egress_init f)) egress_upd (egress_rows ctx flows)"

definition egress_finding :: "int \<Rightarrow> string \<Rightarrow> egress_bucket \<Rightarrow> detection_result" where
  "egress_finding limit srcKey b =
     \<lparr>dr_fingerprint = ''high_egress_volume:'' @ srcKey,
      dr_severity = (if limit * 5 \<le> eb_bytes b then HIGH else MEDIUM),
      dr_title = eb_actor b @ '' egressed '' @ formatBytes (eb_bytes b),
      dr_description = ''Total outbound traffic from this device exceeded the configured threshold (''
        @ formatBytes limit @ ''). Confirm this matches expected device behavior.'',
      dr_remediation = None,
      dr_affectedResource = Some (eb_actor b),
      dr_srcMac = eb_srcMac b,
      dr_confidence = None,
      dr_evidence = eb_evidence b,
      dr_metadata = Some [(''totalBytes'', JStr (show_int (eb_bytes b))), (''threshold'', JStr (show_int limit))]\<rparr>"

definition egress_evaluate :: "env \<Rightarrow> detector_context \<Rightarrow> flow_row list \<Rightarrow> detection_result list" where
  "egress_evaluate env ctx flows =
     (let limit = egress_threshold env in
      emit_over (\<lambda>b. eb_bytes b < limit) (egress_finding limit) (egress_groups ctx flows))"

interpretation egress: capped_bucket egress_init egress_upd eb_evidence "\<lambda>f. EvFlow (fl_id f)" 10
  by unfold_locales (simp_all add: egress_init_def egress_upd_def)

section \<open>\<open>repeating_threat\<close> (\<open>detectors/repeatingThreat.ts\<close>)\<close>

record threat_bucket =
  tb_ids :: "string list"
  tb_categories :: "string list"
  tb_upstreamSeverities :: "string list"

definition threat_rows :: "detector_context \<Rightarrow> threat_row list \<Rightarrow> threat_row list" where
  "threat_rows ctx events =
     filter (\<lambda>e. in_window ctx (th_occurredAt e) \<and> th_srcIp e \<noteq> None) events"

definition threat_accept :: "threat_row \<Rightarrow> bool" where
  "threat_accept e = truthy (th_srcIp e)"

definition threat_upd :: "threat_row \<Rightarrow> threat_bucket \<Rightarrow> threat_bucket" where
  "threat_upd e b =
     b\<lparr>tb_ids := tb_ids b @ [th_id e],
       tb_categories := (if truthy (th_category e) then os_add (the (th_category e)) (tb_categories b)
                         else tb_categories b),
       tb_upstreamSeverities := (if truthy (th_severity e)
                         then os_add (the (th_severity e)) (tb_upstreamSeverities b)
                         else tb_upstreamSeverities b)\<rparr>"

definition threat_init :: threat_bucket where
  "threat_init = \<lparr>tb_ids = [], tb_categories = [], tb_upstreamSeverities = []\<rparr>"

definition threat_groups :: "detector_context \<Rightarrow> threat_row list \<Rightarrow> (string \<times> threat_bucket) list" where
  "threat_groups ctx events =
     accum threat_accept (\<lambda>e. the (th_srcIp e)) (\<lambda>e. threat_upd e threat_init) threat_upd
       (threat_rows ctx events)"

definition threat_finding :: "rat \<Rightarrow> string \<Rightarrow> threat_bucket \<Rightarrow> detection_result" where
  "threat_finding high srcIp b =
     (let count = length (tb_ids b) in
      \<lparr>dr_fingerprint = ''repeating_threat:'' @ srcIp,
       dr_severity = (if high \<le> of_nat count then HIGH else MEDIUM),
       dr_title = show_nat count @ '' IDS hits from '' @ srcIp,
       dr_description = ''UniFi IDS reported '' @ show_nat count
         @ '' threat events from this source during the window. Categories: ''
         @ str_dflt (Some (join '', '' (tb_categories b))) ''unspecified'' @ ''.'',
       dr_remediation = None,
       dr_affectedResource = Some srcIp,
       dr_srcMac = None,
       dr_confidence = None,
       dr_evidence = map EvThreat (tb_ids b),
       dr_metadata = Some [(''srcIp'', JStr srcIp), (''count'', JNum (of_nat count)),
                           (''categories'', JArr (map JStr (tb_categories b))),
                           (''upstreamSeverities'', JArr (map JStr (tb_upstreamSeverities b)))]\<rparr>)"

definition threat_evaluate :: "env \<Rightarrow> detector_context \<Rightarrow> threat_row list \<Rightarrow> detection_result list" where
  "threat_evaluate env ctx events =
     (let medium = env_number env ''REPEATING_THRESHOLD_MED'' 5;
          high = env_number env ''REPEATING_THRESHOLD_HIGH'' 20
      in emit_over (\<lambda>b. of_nat (length (tb_ids b)) < medium) (threat_finding high) (threat_groups ctx events))"

section \<open>\<open>dns_tunneling\<close> (\<open>detectors/dnsTunneling.ts\<close>)\<close>

text \<open>
  \<open>shannonEntropy\<close> over the reals: the loop counts the characters in a \<open>Map\<close> and folds
  \<open>h - p * log2 p\<close> over the counts.
\<close>

definition char_freq :: "string \<Rightarrow> (char \<times> nat) list" where
  "char_freq s = foldl (\<lambda>freq ch. om_set ch (dflt 0 (om_get freq ch) + 1) freq) [] s"

definition shannonEntropy :: "string \<Rightarrow> real" where
  "shannonEntropy s =
     (if s = [] then 0
      else foldl (\<lambda>h count. let p = real count / real (length s) in h - p * log 2 p) 0
             (om_values (char_freq s)))"

definition parentDomain :: "string \<Rightarrow> string" where
  "parentDomain domain =
     (let parts = split_on CHR ''.'' (strip_dot (to_lower domain)) in
      if length parts \<le> 2 then join ''.'' parts
      else join ''.'' (drop (length parts - 2) parts))"

record tunnel_bucket =
  ub_evidence :: "evidence list"
  ub_actor :: string
  ub_clientIp :: string
  ub_parent :: string

definition tunnel_rows :: "detector_context \<Rightarrow> dns_row list \<Rightarrow> dns_row list" where
  "tunnel_rows ctx queries = filter (\<lambda>q. in_window ctx (dq_queriedAt q)) queries"

definition tunnel_accept :: "rat \<Rightarrow> rat \<Rightarrow> allowlist_snapshot \<Rightarrow> dns_row \<Rightarrow> bool" where
  "tunnel_accept minLength minEntropy allowlist q =
     (if dq_domain q = [] \<or> \<not> truthy (dq_clientIp q) then False
      else if of_nat (length (dq_domain q)) < minLength then False
      else if shannonEntropy (dq_domain q) < of_rat minEntropy then False
      else if isAllowlisted (parentDomain (dq_domain q)) (dq_clientIp q) allowlist then False
      else True)"

definition tunnel_key :: "dns_row \<Rightarrow> string" where
  "tunnel_key q = the (dq_clientIp q) @ '':'' @ parentDomain (dq_domain q)"

definition tunnel_init :: "dns_row \<Rightarrow> tunnel_bucket" where
  "tunnel_init q =
     \<lparr>ub_evidence = [], ub_actor = dflt (the (dq_clientIp q)) (dq_clientName q),
      ub_clientIp = the (dq_clientIp q), ub_parent = parentDomain (dq_domain q)\<rparr>"

definition tunnel_upd :: "dns_row \<Rightarrow> tunnel_bucket \<Rightarrow> tunnel_bucket" where
  "tunnel_upd q b =
     b\<lparr>ub_evidence := (if length (ub_evidence b) < 25 then ub_evidence b @ [EvDnsQuery (dq_id q)]
                       else ub_evidence b)\<rparr>"

definition tunnel_groups ::
  "rat \<Rightarrow> rat \<Rightarrow> allowlist_snapshot \<Rightarrow> detector_context \<Rightarrow> dns_row list \<Rightarrow> (string \<times> tunnel_bucket) list" where
  "tunnel_groups minLength minEntropy allowlist ctx queries =
     accum (tunnel_accept minLength minEntropy allowlist) tunnel_key
       (\<lambda>q. tunnel_upd q (tunnel_init q)) tunnel_upd (tunnel_rows ctx queries)"

definition tunnel_finding :: "rat \<Rightarrow> rat \<Rightarrow> rat \<Rightarrow> string \<Rightarrow> tunnel_bucket \<Rightarrow> detection_result" where
  "tunnel_finding minLength minEntropy minHits key b =
     (let count = length (ub_evidence b) in
      \<lparr>dr_fingerprint = ''dns_tunneling:'' @ key,
       dr_severity = (if minHits * 2 \<le> of_nat count then HIGH else MEDIUM),
       dr_title = ub_actor b @ '' sent '' @ show_nat count @ '' long high-entropy DNS queries to *.'' @ ub_parent b,
       dr_description = ''Repeated suspiciously-shaped DNS queries (length '' @ ge_sign @ '' ''
         @ show_number minLength @ '', entropy '' @ ge_sign @ '' '' @ show_number minEntropy
         @ '' bits/char) '' @ em_dash @ '' characteristic of DNS-tunneling exfiltration.'',
       dr_remediation = None,
       dr_affectedResource = Some (ub_actor b),
       dr_srcMac = None,
       dr_confidence = None,
       dr_evidence = ub_evidence b,
       dr_metadata = Some [(''parentDomain'', JStr (ub_parent b)), (''clientIp'', JStr (ub_clientIp b)),
                           (''queryCount'', JNum (of_nat count))]\<rparr>)"

definition tunnel_evaluate ::
  "env \<Rightarrow> allowlist_snapshot \<Rightarrow> detector_context \<Rightarrow> dns_row list \<Rightarrow> detection_result list" where
  "tunnel_evaluate env allowlist ctx queries =
     (let minLength = env_number env ''DNS_TUNNEL_MIN_LENGTH'' 50;
          minEntropy = env_number env ''DNS_TUNNEL_MIN_ENTROPY'' (7 / 2);
          minHits = env_number env ''DNS_TUNNEL_MIN_HITS'' 5
      in emit_over (\<lambda>b. of_nat (length (ub_evidence b)) < minHits)
           (tunnel_finding minLength minEntropy minHits)
           (tunnel_groups minLength minEntropy allowlist ctx queries))"

interpretation tunnel: capped_bucket tunnel_init tunnel_upd ub_evidence "\<lambda>q. EvDnsQuery (dq_id q)" 25
  by unfold_locales (simp_all add: tunnel_init_def tunnel_upd_def)

section \<open>The measures of the buckets\<close>

lemma scan_finding_sel:
  "dr_fingerprint (scan_finding limit k b) = ''internal_scanning:'' @ k"
  "dr_severity (scan_finding limit k b) = (if limit * 2 \<le> of_nat (length (sb_targets b)) then HIGH else MEDIUM)"
  "dr_evidence (scan_finding limit k b) = sb_evidence b"
  by (simp_all add: scan_finding_def Let_def)

lemma egress_finding_sel:
  "dr_fingerprint (egress_finding limit' k b') = ''high_egress_volume:'' @ k"
  "dr_severity (egress_finding limit' k b') = (if limit' * 5 \<le> eb_bytes b' then HIGH else MEDIUM)"
  "dr_evidence (egress_finding limit' k b') = eb_evidence b'"
  by (simp_all add: egress_finding_def)

lemma tunnel_finding_sel:
  "dr_fingerprint (tunnel_finding l e h k b) = ''dns_tunneling:'' @ k"
  "dr_severity (tunnel_finding l e h k b) = (if h * 2 \<le> of_nat (length (ub_evidence b)) then HIGH else MEDIUM)"
  "dr_evidence (tunnel_finding l e h k b) = ub_evidence b"
  by (simp_all add: tunnel_finding_def Let_def)

lemmas finding_sel = scan_finding_sel egress_finding_sel tunnel_finding_sel

lemma scan_bucket_targets:
  assumes "bucket_of (\<lambda>f. scan_upd f (scan_init f)) scan_upd rs = Some b"
  shows "sb_targets b = os_of (map (\<lambda>f. the (fl_dstIp f)) rs)"
  using assms
  by (rule bucket_of_induct [where P = "\<lambda>seen b. sb_targets b = os_of (map (\<lambda>f. the (fl_dstIp f)) seen)"])
    (simp_all add: scan_upd_def scan_init_def os_of_snoc os_of_def)

lemma egress_bucket_bytes:
  assumes "bucket_of (\<lambda>f. egress_upd f (egress_init f)) egress_upd rs = Some b"
  shows "eb_bytes b = (\<Sum>f \<leftarrow> rs. dflt 0 (fl_bytesTotal f))"
  using assms
  by (rule bucket_of_induct [where P = "\<lambda>seen b. eb_bytes b = (\<Sum>f \<leftarrow> seen. dflt 0 (fl_bytesTotal f))"])
    (simp_all add: egress_upd_def egress_init_def)

lemma threat_bucket_ids:
  assumes "bucket_of (\<lambda>e. threat_upd e threat_init) threat_upd rs = Some b"
  shows "tb_ids b = map th_id rs"
  using assms
  by (rule bucket_of_induct [where P = "\<lambda>seen b. tb_ids b = map th_id seen"])
    (simp_all add: threat_upd_def threat_init_def)

lemma scan_threshold_pos: "0 < scan_threshold env"
  by (simp add: scan_threshold_def env_number_pos)

lemma egress_threshold_pos: "0 < egress_threshold env"
  by (simp add: egress_threshold_def EGRESS_DEFAULT_THRESHOLD_def split: option.split)

text \<open>The number of characters in the frequency table, and the table as counts.\<close>

lemma char_freq_accum: "char_freq s = accum (\<lambda>_. True) id (\<lambda>_. 1) (\<lambda>_ n. n + 1) s"
proof -
  have "foldl (\<lambda>freq ch. om_set ch (dflt 0 (om_get freq ch) + 1) freq) m s
      = foldl (accum_step (\<lambda>_. True) id (\<lambda>_. 1) (\<lambda>_ n. n + 1)) m s" for m :: "(char \<times> nat) list"
    by (rule foldl_cong) (auto simp: accum_step_def split: option.split)
  then show ?thesis by (simp add: char_freq_def accum_def)
qed

lemma bucket_count:
  "bucket_of (\<lambda>_. Suc 0) (\<lambda>_. Suc) rs = (if rs = [] then None else Some (length rs))"
  by (induction rs rule: rev_induct) (auto simp: bucket_of_snoc, simp add: bucket_of_def)

lemma om_values_char_freq: "om_values (char_freq s) = map (count_list s) (os_of s)"
proof -
  have "the (bucket_of (\<lambda>_. Suc 0) (\<lambda>_. Suc) (rows_of (\<lambda>_. True) id k s)) = count_list s k"
    if "k \<in> set s" for k
  proof -
    have "length (rows_of (\<lambda>_. True) id k s) = count_list s k"
      unfolding rows_of_def count_list_eq_length_filter
      by (intro arg_cong [where f = length] filter_cong) auto
    moreover have "rows_of (\<lambda>_. True) id k s \<noteq> []" using that by (auto simp: rows_of_ne)
    ultimately show ?thesis by (simp add: bucket_count)
  qed
  then show ?thesis
    by (simp add: char_freq_accum accum_loop om.vals_loop)
qed

lemma sum_count_os_of: "(\<Sum>c \<in> set s. count_list s c) = length s"
  by (simp add: sum_count_set)

lemma shannonEntropy_sum:
  assumes "s \<noteq> []"
  shows "shannonEntropy s = (\<Sum>c \<in> set s. - (real (count_list s c) / real (length s)) *
            log 2 (real (count_list s c) / real (length s)))"
proof -
  let ?p = "\<lambda>c. real (count_list s c) / real (length s)"
  have "foldl (\<lambda>h count. let p = real count / real (length s) in h - p * log 2 p) h xs
      = h + (\<Sum>n \<leftarrow> xs. - (real n / real (length s)) * log 2 (real n / real (length s)))" for h xs
    by (induction xs arbitrary: h) (simp_all add: Let_def)
  then have "shannonEntropy s = (\<Sum>c \<leftarrow> os_of s. - ?p c * log 2 (?p c))"
    using assms by (simp add: shannonEntropy_def om_values_char_freq o_def)
  also have "\<dots> = (\<Sum>c \<in> set (os_of s). - ?p c * log 2 (?p c))"
    by (rule sum_list_distinct_conv_sum_set) simp
  finally show ?thesis by simp
qed

lemma gibbs_term:
  fixes p k :: real
  assumes p: "0 < p" and k: "0 < k"
  shows "- p * log 2 p \<le> p * log 2 k + (1 / k - p) / ln 2"
proof -
  have "ln (1 / (p * k)) \<le> 1 / (p * k) - 1" using p k by (intro ln_le_minus_one) simp
  then have "p * ln (1 / (p * k)) \<le> p * (1 / (p * k) - 1)" using p by (intro mult_left_mono) simp_all
  also have "\<dots> = 1 / k - p" using p k by (simp add: field_simps)
  finally have "p * (- ln p - ln k) \<le> 1 / k - p" using p k by (simp add: ln_div ln_mult)
  then have "p * (- ln p - ln k) / ln 2 \<le> (1 / k - p) / ln 2" by (simp add: divide_right_mono)
  moreover have "p * (- ln p - ln k) / ln 2 = - p * log 2 p - p * log 2 k"
    by (simp add: log_def field_simps)
  ultimately show ?thesis by linarith
qed

lemma tunnel_not_below:
  assumes "bucket_of (\<lambda>q. tunnel_upd q (tunnel_init q)) tunnel_upd rs = Some b"
    and "h \<le> 25" "h \<le> of_nat (length rs)"
  shows "\<not> (of_nat (length (ub_evidence b)) :: rat) < h"
  using assms(2,3) unfolding tunnel.bucket_ev_length [OF assms(1)] by (simp add: min_def)

section \<open>What the detectors report\<close>

text \<open>The Shannon entropy of a non-empty string of \<open>k\<close> distinct characters lies between \<open>0\<close> and
  \<open>log2 k\<close>; the empty string has entropy \<open>0\<close>.\<close>

lemma shannonEntropy_bounds:
  "shannonEntropy [] = 0 \<and>
   (s \<noteq> [] \<longrightarrow> 0 \<le> shannonEntropy s \<and> shannonEntropy s \<le> log 2 (real (card (set s))))"
proof -
  have "0 \<le> shannonEntropy s \<and> shannonEntropy s \<le> log 2 (real (card (set s)))" if ne: "s \<noteq> []"
  proof -
    let ?n = "real (length s)" and ?k = "real (card (set s))"
    let ?p = "\<lambda>c. real (count_list s c) / ?n"
    have n: "0 < ?n" and k: "0 < ?k" using ne by (auto simp: card_gt_0_iff)
    have p0: "0 < ?p c" and p1: "?p c \<le> 1" if "c \<in> set s" for c
    proof -
      have "0 < count_list s c" using that by (metis count_list_0_iff neq0_conv)
      then show "0 < ?p c" using n by simp
      show "?p c \<le> 1" using n count_le_length [of s c] by simp
    qed
    have sum1: "(\<Sum>c \<in> set s. ?p c) = 1"
      using sum_count_os_of [of s] n
      by (simp flip: sum_divide_distrib of_nat_sum)
    have low: "0 \<le> shannonEntropy s"
      unfolding shannonEntropy_sum [OF ne]
    proof (rule sum_nonneg)
      fix c assume c: "c \<in> set s"
      have "log 2 (?p c) \<le> 0" using p0 [OF c] p1 [OF c] by simp
      then have "?p c * log 2 (?p c) \<le> 0"
        using p0 [OF c] by (intro mult_nonneg_nonpos) (rule less_imp_le)
      then show "0 \<le> - ?p c * log 2 (?p c)" by (simp only: mult_minus_left neg_0_le_iff_le)
    qed
    have bound: "- ?p c * log 2 (?p c) \<le> ?p c * log 2 ?k + (1 / ?k - ?p c) / ln 2" if "c \<in> set s" for c
      using gibbs_term [OF p0 [OF that] k] .
    have "shannonEntropy s \<le> (\<Sum>c \<in> set s. ?p c * log 2 ?k + (1 / ?k - ?p c) / ln 2)"
      unfolding shannonEntropy_sum [OF ne] by (rule sum_mono) (rule bound)
    also have "\<dots> = log 2 ?k * (\<Sum>c \<in> set s. ?p c) + ((\<Sum>c \<in> set s. 1 / ?k) - (\<Sum>c \<in> set s. ?p c)) / ln 2"
      by (simp only: sum.distrib sum_subtractf sum_divide_distrib [symmetric] sum_distrib_right [symmetric] mult.commute)
    also have "\<dots> = log 2 ?k" using k ne by (simp only: sum1) simp
    finally show ?thesis using low by blast
  qed
  then show ?thesis by (simp add: shannonEntropy_def)
qed

lemma shannonEntropy_bounds_witness:
  "0 \<le> shannonEntropy ''abab'' \<and> shannonEntropy ''abab'' \<le> log 2 (real (card (set ''abab'')))"
  using shannonEntropy_bounds [of "''abab''"] by blast

text \<open>The private addresses a source contacted in the window.\<close>

definition scan_targets :: "detector_context \<Rightarrow> flow_row list \<Rightarrow> string \<Rightarrow> string set" where
  "scan_targets ctx flows k =
     {ip. \<exists>f \<in> set flows. in_window ctx (fl_occurredAt f) \<and> src_key f = k \<and>
        scan_accept f \<and> fl_dstIp f = Some ip}"

text \<open>\<open>internal_scanning\<close> reports a source exactly when the number of distinct private addresses it
  contacted in the window reaches the threshold; the finding is HIGH from twice the threshold on
  and MEDIUM below.\<close>

lemma internal_scanning_exact:
  "((\<exists>d \<in> set (scan_evaluate env ctx flows). dr_fingerprint d = ''internal_scanning:'' @ k)
      \<longleftrightarrow> scan_threshold env \<le> of_nat (card (scan_targets ctx flows k))) \<and>
   (\<forall>d \<in> set (scan_evaluate env ctx flows). dr_fingerprint d = ''internal_scanning:'' @ k \<longrightarrow>
      dr_severity d =
        (if 2 * scan_threshold env \<le> of_nat (card (scan_targets ctx flows k)) then HIGH else MEDIUM))"
proof -
  let ?rs = "rows_of scan_accept src_key k (scan_rows ctx flows)"
  let ?bucket = "bucket_of (\<lambda>f. scan_upd f (scan_init f)) scan_upd ?rs"
  let ?n = "card (scan_targets ctx flows k)"
  have acc: "scan_accept f \<Longrightarrow> fl_srcIp f \<noteq> None \<and> fl_dstIp f \<noteq> None" for f
    by (auto simp: scan_accept_def is_private_ip_opt_def truthy_def split: if_splits option.splits)
  then have "f \<in> set ?rs \<longleftrightarrow> f \<in> set flows \<and> in_window ctx (fl_occurredAt f) \<and> src_key f = k \<and> scan_accept f" for f
    by (auto simp: rows_of_def scan_rows_def)
  then have targets: "scan_targets ctx flows k = (\<lambda>f. the (fl_dstIp f)) ` set ?rs"
    using acc unfolding scan_targets_def by force
  have size: "length (sb_targets b) = ?n" if "?bucket = Some b" for b
    using scan_bucket_targets [OF that] by (simp add: length_os_of targets)
  have mem: "(k, b) \<in> set (scan_groups ctx flows) \<longleftrightarrow> ?bucket = Some b" for b
    by (simp add: scan_groups_def accum_mem)
  have found: "d \<in> set (scan_evaluate env ctx flows) \<and> dr_fingerprint d = ''internal_scanning:'' @ k
     \<longleftrightarrow> (\<exists>b. (k, b) \<in> set (scan_groups ctx flows) \<and> scan_threshold env \<le> of_nat ?n \<and>
           d = scan_finding (scan_threshold env) k b)" for d
    unfolding scan_evaluate_def Let_def emit_over_key [where fp = dr_fingerprint, OF scan_finding_sel(1)]
    using size mem by (auto simp: not_less)
  have some: "\<exists>b. (k, b) \<in> set (scan_groups ctx flows)" if "scan_threshold env \<le> of_nat ?n"
  proof -
    have "scan_targets ctx flows k \<noteq> {}" using that scan_threshold_pos [of env] by auto
    then have "?rs \<noteq> []" using targets by auto
    then show ?thesis by (metis bucket_of_Some_iff mem)
  qed
  have "dr_severity d = (if 2 * scan_threshold env \<le> of_nat ?n then HIGH else MEDIUM)"
    if "d \<in> set (scan_evaluate env ctx flows)" "dr_fingerprint d = ''internal_scanning:'' @ k" for d
    using found [of d] that size mem by (auto simp: finding_sel mult.commute)
  then show ?thesis using found some by blast
qed

lemma internal_scanning_exact_witness:
  "scan_threshold (\<lambda>_. Some ''2'') = 2 \<and>
   (\<exists>d \<in> set (scan_evaluate (\<lambda>_. Some ''2'') sample_ctx
        [sample_flow ''f1'' ''10.0.0.8'', sample_flow ''f2'' ''10.0.0.9'']).
      dr_fingerprint d = ''internal_scanning:m1'' \<and> dr_severity d = MEDIUM)"
proof -
  let ?fs = "[sample_flow ''f1'' ''10.0.0.8'', sample_flow ''f2'' ''10.0.0.9'']"
  have two: "scan_threshold (\<lambda>_. Some ''2'') = 2" by code_simp
  have acc: "scan_accept (sample_flow ''f1'' ''10.0.0.8'')" "scan_accept (sample_flow ''f2'' ''10.0.0.9'')"
    by code_simp+
  have "scan_targets sample_ctx ?fs ''m1'' = {''10.0.0.8'', ''10.0.0.9''}"
    using acc by (auto simp: scan_targets_def sample_flow_def sample_ctx_def in_window_def src_key_def)
  then have "card (scan_targets sample_ctx ?fs ''m1'') = 2" by simp
  with internal_scanning_exact [of "\<lambda>_. Some ''2''" sample_ctx ?fs "''m1''"] two
  show ?thesis by auto
qed

text \<open>\<open>high_egress_volume\<close> reports a source exactly when the bytes of its outbound flows in the window
  (private source, public destination) add up to the threshold or more; the finding is HIGH from
  five times the threshold on, states that total, and keeps the first ten flows as evidence.\<close>

lemma high_egress_volume_exact:
  "(let own = filter (\<lambda>f. (in_window ctx (fl_occurredAt f) \<and> fl_bytesTotal f \<noteq> None) \<and>
                          egress_accept f \<and> src_key f = k) flows;
        total = (\<Sum>f \<leftarrow> own. dflt 0 (fl_bytesTotal f))
    in ((\<exists>d \<in> set (egress_evaluate env ctx flows). dr_fingerprint d = ''high_egress_volume:'' @ k)
          \<longleftrightarrow> egress_threshold env \<le> total) \<and>
       (\<forall>d \<in> set (egress_evaluate env ctx flows). dr_fingerprint d = ''high_egress_volume:'' @ k \<longrightarrow>
          dr_severity d = (if 5 * egress_threshold env \<le> total then HIGH else MEDIUM) \<and>
          dr_evidence d = take 10 (map (\<lambda>f. EvFlow (fl_id f)) own)))"
proof -
  define own where "own = filter (\<lambda>f. (in_window ctx (fl_occurredAt f) \<and> fl_bytesTotal f \<noteq> None) \<and>
                          egress_accept f \<and> src_key f = k) flows"
  define total where "total = (\<Sum>f \<leftarrow> own. dflt 0 (fl_bytesTotal f))"
  let ?bucket = "bucket_of (\<lambda>f. egress_upd f (egress_init f)) egress_upd own"
  have rs: "rows_of egress_accept src_key k (egress_rows ctx flows) = own"
    unfolding rows_of_def egress_rows_def filter_filter own_def by (rule refl)
  have mem: "(k, b) \<in> set (egress_groups ctx flows) \<longleftrightarrow> ?bucket = Some b" for b
    by (simp add: egress_groups_def accum_mem rs)
  have bytes: "?bucket = Some b \<Longrightarrow> eb_bytes b = total" for b
    by (simp add: egress_bucket_bytes total_def)
  have found: "d \<in> set (egress_evaluate env ctx flows) \<and> dr_fingerprint d = ''high_egress_volume:'' @ k
     \<longleftrightarrow> (\<exists>b. ?bucket = Some b \<and> egress_threshold env \<le> total \<and>
           d = egress_finding (egress_threshold env) k b)" for d
    unfolding egress_evaluate_def Let_def emit_over_key [where fp = dr_fingerprint, OF egress_finding_sel(1)]
    using bytes mem by (auto simp: not_less)
  have "\<exists>b. ?bucket = Some b" if "egress_threshold env \<le> total"
    using that egress_threshold_pos [of env] by (auto simp: total_def bucket_of_Some_iff)
  moreover have "dr_severity d = (if 5 * egress_threshold env \<le> total then HIGH else MEDIUM) \<and>
      dr_evidence d = take 10 (map (\<lambda>f. EvFlow (fl_id f)) own)"
    if "d \<in> set (egress_evaluate env ctx flows)" "dr_fingerprint d = ''high_egress_volume:'' @ k" for d
  proof -
    note given = that
    obtain b where b: "?bucket = Some b" "d = egress_finding (egress_threshold env) k b"
      using found [of d] given by blast
    then show ?thesis
      using bytes egress.bucket_ev [OF b(1)] by (simp add: finding_sel mult.commute)
  qed
  ultimately show ?thesis
    unfolding Let_def own_def [symmetric] total_def [symmetric] using found by blast
qed

lemma high_egress_volume_exact_witness:
  "\<exists>d \<in> set (egress_evaluate (\<lambda>_. Some ''100'') sample_ctx
        [sample_flow ''f1'' ''8.8.8.8'', sample_flow ''f2'' ''9.9.9.9'']).
      dr_fingerprint d = ''high_egress_volume:m1'' \<and> dr_severity d = MEDIUM"
proof -
  let ?fs = "[sample_flow ''f1'' ''8.8.8.8'', sample_flow ''f2'' ''9.9.9.9'']"
  have t: "egress_threshold (\<lambda>_. Some ''100'') = 100" by code_simp
  have "filter (\<lambda>f. (in_window sample_ctx (fl_occurredAt f) \<and> fl_bytesTotal f \<noteq> None) \<and>
      egress_accept f \<and> src_key f = ''m1'') ?fs = ?fs" by code_simp
  moreover have "(\<Sum>f \<leftarrow> ?fs. dflt 0 (fl_bytesTotal f)) = 140" by (simp add: sample_flow_def)
  ultimately show ?thesis
    using high_egress_volume_exact [of sample_ctx "''m1''" ?fs "\<lambda>_. Some ''100''"] t
    by (auto simp: Let_def)
qed

text \<open>The hit counter of \<open>dns_tunneling\<close> is the length of the evidence list, which stops at 25: no
  finding is ever HIGH when twice the configured minimum of hits exceeds 25, and none is emitted at
  all when the minimum itself exceeds 25, whatever the queries are.\<close>

lemma dns_tunneling_counter_capped:
  "(25 < 2 * env_number env ''DNS_TUNNEL_MIN_HITS'' 5 \<longrightarrow>
      (\<forall>d \<in> set (tunnel_evaluate env allowlist ctx queries). dr_severity d \<noteq> HIGH)) \<and>
   (25 < env_number env ''DNS_TUNNEL_MIN_HITS'' 5 \<longrightarrow> tunnel_evaluate env allowlist ctx queries = [])"
proof -
  let ?L = "env_number env ''DNS_TUNNEL_MIN_LENGTH'' 50" and ?E = "env_number env ''DNS_TUNNEL_MIN_ENTROPY'' (7 / 2)"
  let ?H = "env_number env ''DNS_TUNNEL_MIN_HITS'' 5"
  have cap: "(of_nat (length (ub_evidence b)) :: rat) \<le> 25" if "(k, b) \<in> set (tunnel_groups ?L ?E allowlist ctx queries)" for k b
  proof -
    have "length (ub_evidence b) \<le> 25"
      using tunnel.bucket_ev_length that by (fastforce simp: tunnel_groups_def accum_mem)
    then show ?thesis by (metis of_nat_le_iff of_nat_numeral)
  qed
  have mem: "d \<in> set (tunnel_evaluate env allowlist ctx queries) \<longleftrightarrow>
      (\<exists>k b. (k, b) \<in> set (tunnel_groups ?L ?E allowlist ctx queries) \<and>
         \<not> of_nat (length (ub_evidence b)) < ?H \<and> d = tunnel_finding ?L ?E ?H k b)" for d
    by (simp add: tunnel_evaluate_def emit_over_mem Let_def)
  have "dr_severity d \<noteq> HIGH" if "25 < 2 * ?H" "d \<in> set (tunnel_evaluate env allowlist ctx queries)" for d
    using that mem cap by (fastforce simp: finding_sel)
  moreover have "tunnel_evaluate env allowlist ctx queries = []" if "25 < ?H"
  proof -
    have "d \<notin> set (tunnel_evaluate env allowlist ctx queries)" for d
      using that mem cap by fastforce
    then show ?thesis by (metis list.set_intros(1) neq_Nil_conv)
  qed
  ultimately show ?thesis by blast
qed

lemma dns_tunneling_counter_capped_witness:
  "tunnel_evaluate (\<lambda>n. if n = ''DNS_TUNNEL_MIN_HITS'' then Some ''30'' else None)
     \<lparr>sn_globalDomains = [], sn_deviceDomains = []\<rparr> sample_ctx
     (replicate 100 \<lparr>dq_id = ''q1'', dq_queriedAt = 5, dq_domain = ''ab'', dq_clientIp = Some ''c'', dq_clientName = None\<rparr>) = []"
proof -
  let ?env = "\<lambda>n. if n = ''DNS_TUNNEL_MIN_HITS'' then Some ''30'' else None"
  have "env_number ?env ''DNS_TUNNEL_MIN_HITS'' 5 = 30" by code_simp
  then show ?thesis using dns_tunneling_counter_capped [of ?env] by simp
qed

text \<open>With a minimum of hits of at most 25, a client that sends at least that many accepted queries
  below one parent domain in the window is reported by \<open>dns_tunneling\<close>, and the domain of a finding
  is never one that the allowlist covers for that client.\<close>

lemma dns_tunneling_reports:
  assumes "env_number env ''DNS_TUNNEL_MIN_HITS'' 5 \<le> 25"
    and "env_number env ''DNS_TUNNEL_MIN_HITS'' 5 \<le>
      of_nat (length (rows_of (tunnel_accept (env_number env ''DNS_TUNNEL_MIN_LENGTH'' 50)
        (env_number env ''DNS_TUNNEL_MIN_ENTROPY'' (7 / 2)) allowlist) tunnel_key k (tunnel_rows ctx queries)))"
  shows "(\<exists>d \<in> set (tunnel_evaluate env allowlist ctx queries). dr_fingerprint d = ''dns_tunneling:'' @ k) \<and>
    (\<forall>q \<in> set queries. isAllowlisted (parentDomain (dq_domain q)) (dq_clientIp q) allowlist \<longrightarrow>
       q \<notin> set (rows_of (tunnel_accept (env_number env ''DNS_TUNNEL_MIN_LENGTH'' 50)
        (env_number env ''DNS_TUNNEL_MIN_ENTROPY'' (7 / 2)) allowlist) tunnel_key k (tunnel_rows ctx queries)))"
proof -
  let ?L = "env_number env ''DNS_TUNNEL_MIN_LENGTH'' 50" and ?E = "env_number env ''DNS_TUNNEL_MIN_ENTROPY'' (7 / 2)"
  let ?H = "env_number env ''DNS_TUNNEL_MIN_HITS'' 5"
  let ?rs = "rows_of (tunnel_accept ?L ?E allowlist) tunnel_key k (tunnel_rows ctx queries)"
  have "0 < ?H" by (rule env_number_pos) simp
  with assms(2) have "?rs \<noteq> []" by auto
  with bucket_of_Some_iff [of "\<lambda>q. tunnel_upd q (tunnel_init q)" tunnel_upd ?rs]
  obtain b where b: "bucket_of (\<lambda>q. tunnel_upd q (tunnel_init q)) tunnel_upd ?rs = Some b" by blast
  have "\<not> of_nat (length (ub_evidence b)) < ?H"
    by (rule tunnel_not_below [OF b assms])
  with b have "tunnel_finding ?L ?E ?H k b \<in> set (tunnel_evaluate env allowlist ctx queries)"
    unfolding tunnel_evaluate_def Let_def emit_over_mem tunnel_groups_def accum_mem by blast
  moreover have "dr_fingerprint (tunnel_finding ?L ?E ?H k b) = ''dns_tunneling:'' @ k"
    by (rule finding_sel)
  moreover have "q \<notin> set ?rs" if "isAllowlisted (parentDomain (dq_domain q)) (dq_clientIp q) allowlist" for q
  proof -
    have "\<not> tunnel_accept ?L ?E allowlist q" using that by (simp add: tunnel_accept_def)
    then show ?thesis unfolding rows_of_def by simp
  qed
  ultimately show ?thesis by blast
qed

lemma dns_tunneling_reports_witness:
  "\<exists>d \<in> set (tunnel_evaluate (\<lambda>n. Some ''1'') \<lparr>sn_globalDomains = [], sn_deviceDomains = []\<rparr> sample_ctx
       [\<lparr>dq_id = ''q1'', dq_queriedAt = 5, dq_domain = ''ab'', dq_clientIp = Some ''c'', dq_clientName = None\<rparr>]).
      dr_fingerprint d = ''dns_tunneling:c:ab''"
proof -
  let ?q = "\<lparr>dq_id = ''q1'', dq_queriedAt = 5, dq_domain = ''ab'', dq_clientIp = Some ''c'', dq_clientName = None\<rparr>"
  let ?al = "\<lparr>sn_globalDomains = [], sn_deviceDomains = []\<rparr> :: allowlist_snapshot"
  have one: "env_number (\<lambda>n. Some ''1'') name f = 1" for name f
  proof -
    have "js_number ''1'' = Fin 1" by code_simp
    then show ?thesis by (simp add: env_number_def)
  qed
  have "shannonEntropy ''ab'' = 1"
    by (simp add: shannonEntropy_sum log_divide)
  moreover have "\<not> isAllowlisted (parentDomain ''ab'') (Some ''c'') ?al" by code_simp
  ultimately have acc: "tunnel_accept 1 1 ?al ?q" by (simp add: tunnel_accept_def)
  have key: "tunnel_key ?q = ''c:ab''" by code_simp
  have rows: "rows_of (tunnel_accept 1 1 ?al) tunnel_key ''c:ab'' (tunnel_rows sample_ctx [?q]) = [?q]"
    using acc key by (simp add: rows_of_def tunnel_rows_def in_window_def sample_ctx_def)
  show ?thesis
    using dns_tunneling_reports [of "\<lambda>n. Some ''1''" ?al "''c:ab''" sample_ctx "[?q]"]
    unfolding one rows by simp
qed

text \<open>The domain by which \<open>dns_tunneling\<close> groups queries is the last two labels of the name (all of it
  when it has fewer), so for a name below a public suffix of two labels the group is that suffix.\<close>

lemma parentDomain_last_two_labels:
  "(\<exists>pre. split_on CHR ''.'' (strip_dot (to_lower d)) = pre @ split_on CHR ''.'' (parentDomain d)) \<and>
   length (split_on CHR ''.'' (parentDomain d)) = min 2 (length (split_on CHR ''.'' (strip_dot (to_lower d)))) \<and>
   parentDomain ''www.shop.co.uk'' = ''co.uk''"
proof -
  let ?parts = "split_on CHR ''.'' (strip_dot (to_lower d))"
  let ?last = "if length ?parts \<le> 2 then ?parts else drop (length ?parts - 2) ?parts"
  have "parentDomain d = join [CHR ''.''] ?last" by (simp add: parentDomain_def Let_def)
  moreover have "?last \<noteq> []" by auto
  moreover have "\<forall>x \<in> set ?last. CHR ''.'' \<notin> set x"
    using split_on_parts [of _ "CHR ''.''" "strip_dot (to_lower d)"] by (auto dest: in_set_dropD)
  ultimately have s: "split_on CHR ''.'' (parentDomain d) = ?last" by (simp add: split_on_join)
  have "\<exists>pre. ?parts = pre @ ?last"
    by (cases "length ?parts \<le> 2") (auto intro: exI [of _ "take (length ?parts - 2) ?parts"])
  moreover have "length ?last = min 2 (length ?parts)" by auto
  moreover have "parentDomain ''www.shop.co.uk'' = ''co.uk''" by code_simp
  ultimately show ?thesis unfolding s by blast
qed

definition dots :: "string \<Rightarrow> nat" where
  "dots s = length (filter (\<lambda>c. c = CHR ''.'') s)"

lemma dots_append [simp]: "dots (a @ b) = dots a + dots b"
  by (simp add: dots_def)

lemma length_split_dots: "length (split_on CHR ''.'' s) = Suc (dots s)"
  by (induction s) (auto simp: dots_def split: list.splits)

lemma dots_covered: "covered_by p d \<Longrightarrow> dots d \<le> dots p"
  by (auto simp: covered_by_def) (simp add: dots_def)

lemma lower_char_dot: "lower_char c = CHR ''.'' \<longleftrightarrow> c = CHR ''.''"
proof
  assume a: "lower_char c = CHR ''.''"
  show "c = CHR ''.''"
  proof (cases "65 \<le> (of_char c :: nat) \<and> (of_char c :: nat) \<le> 90")
    case True
    then have "(of_char (lower_char c) :: nat) = of_char c + 32" by (simp add: lower_char_def Let_def)
    with a True show ?thesis by simp
  next
    case False
    with a show ?thesis by (auto simp: lower_char_def Let_def split: if_splits)
  qed
qed (simp add: lower_char_def)

lemma dots_strip_lower: "dots (strip_dot (to_lower s)) \<le> dots s"
proof -
  have "dots (to_lower s) = dots s"
    by (induction s) (simp_all add: dots_def to_lower_def lower_char_dot)
  moreover have "dots (strip_dot t) \<le> dots t" for t
    by (cases t rule: rev_cases) (auto simp: strip_dot_def dots_def)
  ultimately show ?thesis by metis
qed

lemma dots_parentDomain: "dots (parentDomain x) \<le> 1"
proof -
  let ?parts = "split_on CHR ''.'' (strip_dot (to_lower x))"
  let ?last = "if length ?parts \<le> 2 then ?parts else drop (length ?parts - 2) ?parts"
  have "parentDomain x = join [CHR ''.''] ?last" by (simp add: parentDomain_def Let_def)
  moreover have "\<forall>x \<in> set ?last. CHR ''.'' \<notin> set x"
    using split_on_parts [of _ "CHR ''.''" "strip_dot (to_lower x)"] by (auto dest: in_set_dropD)
  ultimately have "split_on CHR ''.'' (parentDomain x) = ?last" by (simp add: split_on_join)
  then have "length (split_on CHR ''.'' (parentDomain x)) \<le> 2" by auto
  then show ?thesis by (simp add: length_split_dots)
qed

text \<open>An allowlist entry of three or more labels never silences \<open>dns_tunneling\<close>: the detector looks up
  only the last two labels of a query, which no longer entry covers.\<close>

lemma long_entries_never_apply:
  assumes "\<forall>d \<in> set (sn_globalDomains s) \<union> (\<Union>kv \<in> set (sn_deviceDomains s). set (snd kv)). 2 \<le> dots d"
  shows "\<not> isAllowlisted (parentDomain x) dev s"
proof
  assume "isAllowlisted (parentDomain x) dev s"
  then obtain d where d: "covered_by (strip_dot (to_lower (parentDomain x))) d"
    "d \<in> set (sn_globalDomains s) \<or> d \<in> set (dflt [] (om_get (sn_deviceDomains s) (to_lower (the dev))))"
    unfolding isAllowlisted_iff by blast
  have "d \<in> set (sn_globalDomains s) \<union> (\<Union>kv \<in> set (sn_deviceDomains s). set (snd kv))"
  proof (cases "map_of (sn_deviceDomains s) (to_lower (the dev))")
    case None
    then show ?thesis using d(2) by (simp add: om_get_def)
  next
    case (Some ds)
    then show ?thesis using d(2) map_of_SomeD [OF Some] by (fastforce simp: om_get_def)
  qed
  with assms have "2 \<le> dots d" by blast
  moreover have "dots d \<le> 1"
    using dots_covered [OF d(1)] dots_strip_lower [of "parentDomain x"] dots_parentDomain [of x] by linarith
  ultimately show False by simp
qed

lemma long_entries_never_apply_witness:
  "\<not> isAllowlisted (parentDomain ''x1.itunes.apple.com'') None
     \<lparr>sn_globalDomains = [''itunes.apple.com''], sn_deviceDomains = []\<rparr>"
  by (rule long_entries_never_apply) (simp add: dots_def)

end
