(* ===== verification/Topology_Types.thy ===== *)
theory Topology_Types
  imports Js_Json
begin

text \<open>
  The data of \<open>services/topologyAnalyzer.ts\<close>: the raw configuration objects of the controller with
  the fields the source's interfaces declare, the intent profile of \<open>types/index.ts\<close> as far as the
  analyzer reads it, and the nodes, connections and routes it produces.  \<open>read_*\<close> is the cast of a
  configuration object to its interface.
\<close>

section \<open>Raw configuration\<close>

record raw_network =
  rn_id0 :: "string option"
  rn_id :: "string option"
  rn_name :: "string option"
  rn_vlan :: "rat option"
  rn_vlan_id :: "rat option"
  rn_ip_subnet :: "string option"
  rn_purpose :: "string option"
  rn_networkgroup :: "string option"
  rn_network_group :: "string option"
  rn_network_isolation :: "bool option"
  rn_network_isolation_enabled :: "bool option"

definition read_network :: "json \<Rightarrow> raw_network" where
  "read_network j = (let o' = obj_fields j in
     \<lparr>rn_id0 = get_str o' ''_id'', rn_id = get_str o' ''id'', rn_name = get_str o' ''name'',
      rn_vlan = get_num o' ''vlan'', rn_vlan_id = get_num o' ''vlan_id'',
      rn_ip_subnet = get_str o' ''ip_subnet'', rn_purpose = get_str o' ''purpose'',
      rn_networkgroup = get_str o' ''networkgroup'', rn_network_group = get_str o' ''network_group'',
      rn_network_isolation = get_bool o' ''network_isolation'',
      rn_network_isolation_enabled = get_bool o' ''network_isolation_enabled''\<rparr>)"

text \<open>\<open>fr_raw\<close> is the rule object itself, whose text the analyzer searches.\<close>

record raw_rule =
  fr_id0 :: "string option"
  fr_id :: "string option"
  fr_name :: "string option"
  fr_enabled :: "bool option"
  fr_ruleset :: "string option"
  fr_rule_index :: "rat option"
  fr_action :: "string option"
  fr_protocol :: "string option"
  fr_src_network :: "string option"
  fr_dst_network :: "string option"
  fr_src_group_ids :: "string list option"
  fr_dst_group_ids :: "string list option"
  fr_src_address :: "string option"
  fr_dst_address :: "string option"
  fr_dst_port :: "string option"
  fr_raw :: json

definition read_rule :: "json \<Rightarrow> raw_rule" where
  "read_rule j = (let o' = obj_fields j in
     \<lparr>fr_id0 = get_str o' ''_id'', fr_id = get_str o' ''id'', fr_name = get_str o' ''name'',
      fr_enabled = get_bool o' ''enabled'', fr_ruleset = get_str o' ''ruleset'',
      fr_rule_index = get_num o' ''rule_index'', fr_action = get_str o' ''action'',
      fr_protocol = get_str o' ''protocol'', fr_src_network = get_str o' ''src_network'',
      fr_dst_network = get_str o' ''dst_network'',
      fr_src_group_ids = get_strs o' ''src_firewallgroup_ids'',
      fr_dst_group_ids = get_strs o' ''dst_firewallgroup_ids'',
      fr_src_address = get_str o' ''src_address'', fr_dst_address = get_str o' ''dst_address'',
      fr_dst_port = get_str o' ''dst_port'', fr_raw = j\<rparr>)"

record raw_group =
  fg_id0 :: "string option"
  fg_id :: "string option"
  fg_name :: "string option"
  fg_group_members :: "string list option"

definition read_group :: "json \<Rightarrow> raw_group" where
  "read_group j = (let o' = obj_fields j in
     \<lparr>fg_id0 = get_str o' ''_id'', fg_id = get_str o' ''id'', fg_name = get_str o' ''name'',
      fg_group_members = get_strs o' ''group_members''\<rparr>)"

text \<open>One side of a zone-based policy.\<close>

record policy_side =
  ps_zone_id :: "string option"
  ps_matching_target :: "string option"
  ps_network_ids :: "string list option"
  ps_ips :: "string list option"
  ps_client_macs :: "string list option"
  ps_port_ranges :: "string list option"

record raw_policy =
  fp_id :: string
  fp_name :: "string option"
  fp_action :: string
  fp_enabled :: bool
  fp_predefined :: bool
  fp_index :: rat
  fp_protocol :: "string option"
  fp_source :: policy_side
  fp_destination :: policy_side

definition read_side :: "(string \<times> json) list \<Rightarrow> policy_side" where
  "read_side o' =
     \<lparr>ps_zone_id = get_str o' ''zone_id'', ps_matching_target = get_str o' ''matching_target'',
      ps_network_ids = get_strs o' ''network_ids'', ps_ips = get_strs o' ''ips'',
      ps_client_macs = get_strs o' ''client_macs'', ps_port_ranges = get_strs o' ''port_ranges''\<rparr>"

definition read_policy :: "json \<Rightarrow> raw_policy" where
  "read_policy j = (let o' = obj_fields j in
     \<lparr>fp_id = dflt [] (get_str o' ''_id''), fp_name = get_str o' ''name'',
      fp_action = dflt [] (get_str o' ''action''), fp_enabled = dflt False (get_bool o' ''enabled''),
      fp_predefined = dflt False (get_bool o' ''predefined''), fp_index = dflt 0 (get_num o' ''index''),
      fp_protocol = get_str o' ''protocol'', fp_source = read_side (get_obj o' ''source''),
      fp_destination = read_side (get_obj o' ''destination'')\<rparr>)"

record raw_port_forward =
  pf_id0 :: "string option"
  pf_id :: "string option"
  pf_name :: "string option"
  pf_enabled :: "bool option"
  pf_dst_port :: "string option"
  pf_fwd :: "string option"
  pf_fwd_port :: "string option"
  pf_proto :: "string option"

definition read_port_forward :: "json \<Rightarrow> raw_port_forward" where
  "read_port_forward j = (let o' = obj_fields j in
     \<lparr>pf_id0 = get_str o' ''_id'', pf_id = get_str o' ''id'', pf_name = get_str o' ''name'',
      pf_enabled = get_bool o' ''enabled'', pf_dst_port = get_str o' ''dst_port'',
      pf_fwd = get_str o' ''fwd'', pf_fwd_port = get_str o' ''fwd_port'', pf_proto = get_str o' ''proto''\<rparr>)"

record raw_traffic_rule =
  tr_id0 :: "string option"
  tr_name :: "string option"
  tr_description :: "string option"
  tr_enabled :: "bool option"
  tr_action :: "string option"
  tr_target_macs :: "string option list option"
  tr_network_ids :: "string list option"

text \<open>Of a target device the analyzer reads only \<open>client_mac\<close>.\<close>

definition read_traffic_rule :: "json \<Rightarrow> raw_traffic_rule" where
  "read_traffic_rule j = (let o' = obj_fields j in
     \<lparr>tr_id0 = get_str o' ''_id'', tr_name = get_str o' ''name'', tr_description = get_str o' ''description'',
      tr_enabled = get_bool o' ''enabled'', tr_action = get_str o' ''action'',
      tr_target_macs = map_option (map (\<lambda>d. get_str (obj_fields d) ''client_mac'')) (get_arr o' ''target_devices''),
      tr_network_ids = get_strs o' ''network_ids''\<rparr>)"

record raw_client =
  cl_mac :: "string option"
  cl_ip :: "string option"
  cl_name :: "string option"
  cl_hostname :: "string option"
  cl_network_id :: "string option"
  cl_fixed_ip :: "string option"

definition read_client :: "json \<Rightarrow> raw_client" where
  "read_client j = (let o' = obj_fields j in
     \<lparr>cl_mac = get_str o' ''mac'', cl_ip = get_str o' ''ip'', cl_name = get_str o' ''name'',
      cl_hostname = get_str o' ''hostname'', cl_network_id = get_str o' ''network_id'',
      cl_fixed_ip = get_str o' ''fixed_ip''\<rparr>)"

record raw_device =
  de_mac :: "string option"
  de_ip :: "string option"
  de_name :: "string option"
  de_hostname :: "string option"
  de_model :: "string option"

definition read_device :: "json \<Rightarrow> raw_device" where
  "read_device j = (let o' = obj_fields j in
     \<lparr>de_mac = get_str o' ''mac'', de_ip = get_str o' ''ip'', de_name = get_str o' ''name'',
      de_hostname = get_str o' ''hostname'', de_model = get_str o' ''model''\<rparr>)"

record l3_acl =
  la_source_network :: string
  la_destination_networks :: "string list"

definition read_l3_acl :: "json \<Rightarrow> l3_acl" where
  "read_l3_acl j = (let o' = obj_fields j in
     \<lparr>la_source_network = dflt [] (get_str o' ''source_network''),
      la_destination_networks = dflt [] (get_strs o' ''destination_networks'')\<rparr>)"

section \<open>Results\<close>

record network_node =
  nn_id :: string
  nn_name :: string
  nn_vlanId :: "rat option"
  nn_subnet :: "string option"
  nn_purpose :: string
  nn_networkGroup :: string
  nn_isolation :: bool

record rule_info =
  ri_name :: string
  ri_action :: string
  ri_enabled :: bool
  ri_ruleset :: "string option"
  ri_ruleIndex :: "rat option"
  ri_protocol :: string
  ri_srcNetwork :: "string option"
  ri_dstNetwork :: "string option"
  ri_dstPort :: "string option"
  ri_unifiId :: "string option"

datatype block_reason = Firewall | Isolation | Both

record connection =
  co_srcId :: string
  co_dstId :: string
  co_srcName :: string
  co_dstName :: string
  co_allowed :: bool
  co_bidirectional :: bool
  co_rules :: "rule_info list"
  co_allowedByDefault :: bool
  co_violatesIntent :: bool
  co_intentReason :: "string option"
  co_blockedByIsolation :: bool
  co_blockReason :: "block_reason option"
  co_isolationSource :: "string option"

record device_ref =
  dv_name :: string
  dv_ip :: string
  dv_mac :: string

datatype route_type = PortForward | AllowRule | DeviceException | TrafficRule

record explicit_route =
  er_id :: string
  er_type :: route_type
  er_name :: string
  er_source :: string
  er_destination :: string
  er_destinationDevice :: "device_ref option"
  er_ports :: "string option"
  er_protocol :: "string option"
  er_enabled :: bool

datatype warning_type = IsolationMismatch | NetworkIsolationEffective

record connectivity_warning =
  cw_type :: warning_type
  cw_message :: string
  cw_details :: string

section \<open>The intent profile\<close>

datatype work_mode = Phased | Strict

datatype default_action = AllowAll | DenyAll

datatype nas_access = NasAll | NasTrusted | NasSpecific

record network_mappings =
  nm_work :: "string option"
  nm_iot :: "string option"
  nm_guest :: "string option"
  nm_trusted :: "string option"
  nm_nas :: "string option"
  nm_server :: "string option"

text \<open>The network categories of an intent and the user's overrides between them.\<close>

datatype category = CDefault | CHome | CWork | CIot | CGuest | CTrusted | CNas | CServer

record reachability_override =
  ro_source :: category
  ro_target :: category
  ro_allow :: bool
  ro_reason :: "string option"

record intent_profile =
  ip_workFromHome :: bool
  ip_workDeviceIsolation :: bool
  ip_workIsolationMode :: "work_mode option"
  ip_hasIoT :: bool
  ip_iotIsolation :: bool
  ip_hasNAS :: bool
  ip_nasAccessibleFrom :: nas_access
  ip_homeServer :: bool
  ip_guestNetwork :: bool
  ip_guestIsolation :: bool
  ip_interVlanDefault :: default_action
  ip_reachabilityOverrides :: "reachability_override list option"
  ip_networkMappings :: "network_mappings option"

definition no_mappings :: network_mappings where
  "no_mappings = \<lparr>nm_work = None, nm_iot = None, nm_guest = None, nm_trusted = None, nm_nas = None,
     nm_server = None\<rparr>"

end
