(* ===== verification/Topology_Connections.thy ===== *)
theory Topology_Connections
  imports Topology_Types
begin

text \<open>
  The nodes and the connections of \<open>services/topologyAnalyzer.ts\<close>: \<open>extractArray\<close>,
  \<open>buildNetworkNodes\<close>, \<open>buildGroupMap\<close>, \<open>buildConnections\<close> (isolation, legacy rules, zone policies,
  intent) and \<open>buildWanConnections\<close>.
\<close>

section \<open>Extraction\<close>

definition keyMappings :: "(string \<times> string list) list" where
  "keyMappings =
     [(''networkconf'', [''networkconf'', ''networkConf'', ''networks'']),
      (''firewallrule'', [''firewallrule'', ''firewallRules'']),
      (''firewallgroup'', [''firewallgroup'', ''firewallGroups'']),
      (''firewallpolicy'', [''firewallpolicy'', ''firewallPolicies'']),
      (''portforward'', [''portforward'', ''portForward'', ''portForwards'']),
      (''trafficrule'', [''trafficrule'', ''trafficRules'']),
      (''wlanconf'', [''wlanconf'', ''wlanConf'', ''wlans'']),
      (''user'', [''user'', ''clients'']),
      (''device'', [''device'', ''devices''])]"

fun try_keys :: "(string \<times> json) list \<Rightarrow> string list \<Rightarrow> json list" where
  "try_keys config [] = []"
| "try_keys config (k # ks) =
     (case get_arr config k of
        Some xs \<Rightarrow> xs
      | None \<Rightarrow> (case get_arr (get_obj config ''data'') k of
                  Some xs \<Rightarrow> xs
                | None \<Rightarrow> try_keys config ks))"

definition extractArray :: "(string \<times> json) list \<Rightarrow> string \<Rightarrow> json list" where
  "extractArray config key = try_keys config (dflt [key] (om_get keyMappings key))"

section \<open>Nodes and groups\<close>

definition network_of_raw :: "raw_network \<Rightarrow> network_node" where
  "network_of_raw n =
     \<lparr>nn_id = str_dflt (str_or (rn_id0 n) (rn_id n)) [],
      nn_name = str_dflt (rn_name n) ''Unnamed'',
      nn_vlanId = nullish (rn_vlan n) (rn_vlan_id n),
      nn_subnet = (if truthy (rn_ip_subnet n) then rn_ip_subnet n else None),
      nn_purpose = str_dflt (rn_purpose n) ''default'',
      nn_networkGroup = str_dflt (str_or (rn_networkgroup n) (rn_network_group n)) ''LAN'',
      nn_isolation = dflt False (nullish (rn_network_isolation_enabled n) (rn_network_isolation n))\<rparr>"

definition buildNetworkNodes :: "raw_network list \<Rightarrow> network_node list" where
  "buildNetworkNodes networkconf =
     map network_of_raw
       (filter (\<lambda>n. to_lower (str_dflt (rn_purpose n) []) \<noteq> ''wan'') networkconf)"

definition buildGroupMap :: "raw_group list \<Rightarrow> (string \<times> raw_group) list" where
  "buildGroupMap groups =
     om_of (concat (map (\<lambda>g. let i = str_or (fg_id0 g) (fg_id g) in if truthy i then [(the i, g)] else []) groups))"

definition network_map :: "network_node list \<Rightarrow> (string \<times> network_node) list" where
  "network_map networks = om_of (map (\<lambda>n. (nn_id n, n)) networks)"

section \<open>Pairs of networks\<close>

record pair_state =
  pr_forward :: "bool option"
  pr_rules :: "rule_info list"
  pr_blocked :: bool
  pr_source :: "string option"

type_synonym pairs = "(string \<times> pair_state) list"

definition pair_key :: "string \<Rightarrow> string \<Rightarrow> string" where
  "pair_key src dst = src @ CHR '':'' # dst"

definition l3_step :: "(string \<times> string list) list \<Rightarrow> l3_acl \<Rightarrow> (string \<times> string list) list" where
  "l3_step m a = om_set (la_source_network a)
     (foldl (\<lambda>s d. os_add d s) (dflt [] (om_get m (la_source_network a))) (la_destination_networks a)) m"

definition l3AclBlocked :: "l3_acl list \<Rightarrow> (string \<times> string list) list" where
  "l3AclBlocked acls = foldl l3_step [] acls"

definition l3_blocked :: "(string \<times> string list) list \<Rightarrow> string \<Rightarrow> string \<Rightarrow> bool" where
  "l3_blocked m src dst = (case om_get m src of None \<Rightarrow> False | Some s \<Rightarrow> dst \<in> set s)"

definition isolation_source :: "bool \<Rightarrow> network_node \<Rightarrow> network_node \<Rightarrow> string option" where
  "isolation_source byL3 src dst =
     (let byNet = nn_isolation src \<or> nn_isolation dst in
      if byL3 \<and> byNet then
        Some (''L3 ACL + '' @ (if nn_isolation src then nn_name src else nn_name dst))
      else if byL3 then
        Some (''L3 ACL ('' @ nn_name src @ '' '' @ [CHR 0xE2, CHR 0x86, CHR 0x92] @ '' '' @ nn_name dst @ '')'')
      else if nn_isolation src \<and> nn_isolation dst then Some (nn_name src @ '' & '' @ nn_name dst)
      else if nn_isolation src then Some (nn_name src)
      else if nn_isolation dst then Some (nn_name dst)
      else None)"

definition init_pair :: "(string \<times> string list) list \<Rightarrow> network_node \<Rightarrow> network_node \<Rightarrow> pair_state" where
  "init_pair l3 src dst =
     (let byNet = nn_isolation src \<or> nn_isolation dst; byL3 = l3_blocked l3 (nn_id src) (nn_id dst) in
      \<lparr>pr_forward = None, pr_rules = [], pr_blocked = byNet \<or> byL3,
       pr_source = isolation_source byL3 src dst\<rparr>)"

definition network_pairs :: "network_node list \<Rightarrow> (network_node \<times> network_node) list" where
  "network_pairs networks =
     concat (map (\<lambda>src. map (\<lambda>dst. (src, dst)) (filter (\<lambda>dst. nn_id src \<noteq> nn_id dst) networks)) networks)"

definition init_pairs :: "l3_acl list \<Rightarrow> network_node list \<Rightarrow> pairs" where
  "init_pairs acls networks =
     om_of (map (\<lambda>(src, dst). (pair_key (nn_id src) (nn_id dst), init_pair (l3AclBlocked acls) src dst))
              (network_pairs networks))"

section \<open>Legacy rules\<close>

definition resolveNetworkFromGroup ::
  "(string \<times> raw_group) list \<Rightarrow> (string \<times> network_node) list \<Rightarrow> string \<Rightarrow> string list" where
  "resolveNetworkFromGroup groups nets groupId =
     (case om_get groups groupId of
        None \<Rightarrow> []
      | Some g \<Rightarrow>
          concat (map (\<lambda>member.
              (if om_get nets member \<noteq> None then [member] else []) @
              map fst (filter (\<lambda>(i, net). nn_subnet net = Some member \<or> nn_name net = member) nets))
            (dflt [] (fg_group_members g))))"

definition direct_network :: "(string \<times> network_node) list \<Rightarrow> string option \<Rightarrow> string list" where
  "direct_network nets ref =
     (if \<not> truthy ref then []
      else (case find (\<lambda>n. nn_name n = the ref \<or> nn_id n = the ref) (om_values nets) of
              Some n \<Rightarrow> [nn_id n] | None \<Rightarrow> []))"

definition is_rfc1918 :: "raw_rule \<Rightarrow> bool" where
  "is_rfc1918 r = (let ruleStr = to_lower (js_stringify (fr_raw r)) in
     str_includes ''rfc1918'' ruleStr \<or> str_includes ''10.0.0.0'' ruleStr \<or>
     str_includes ''192.168.'' ruleStr \<or> str_includes ''172.16.'' ruleStr)"

definition rule_side ::
  "(string \<times> raw_group) list \<Rightarrow> network_node list \<Rightarrow> raw_rule \<Rightarrow> string option \<Rightarrow> string list option \<Rightarrow> string list"
where
  "rule_side groups networks r ref groupIds =
     (let nets = network_map networks;
          named = direct_network nets ref @
                  concat (map (resolveNetworkFromGroup groups nets) (dflt [] groupIds))
      in if is_rfc1918 r \<and> named = [] then map nn_id networks else named)"

definition sorted_rules :: "raw_rule list \<Rightarrow> raw_rule list" where
  "sorted_rules rules = sort_key (\<lambda>r. dflt 0 (fr_rule_index r)) rules"

definition lan_rule :: "raw_rule \<Rightarrow> bool" where
  "lan_rule r \<longleftrightarrow> fr_enabled r = Some True \<and> str_includes ''lan'' (to_lower (dflt [] (fr_ruleset r)))"

definition rule_allows :: "raw_rule \<Rightarrow> bool" where
  "rule_allows r = (str_dflt (fr_action r) ''drop'' = ''accept'')"

definition rule_display :: "network_node list \<Rightarrow> raw_rule \<Rightarrow> string \<Rightarrow> string \<Rightarrow> rule_info" where
  "rule_display networks r src dst =
     (let name_of = (\<lambda>i. map_option nn_name (om_get (network_map networks) i)) in
      \<lparr>ri_name = str_dflt (fr_name r) ''Unnamed Rule'',
       ri_action = str_dflt (fr_action r) ''drop'',
       ri_enabled = dflt True (fr_enabled r),
       ri_ruleset = fr_ruleset r,
       ri_ruleIndex = fr_rule_index r,
       ri_protocol = str_dflt (fr_protocol r) ''all'',
       ri_srcNetwork = str_or (fr_src_network r) (name_of src),
       ri_dstNetwork = str_or (fr_dst_network r) (name_of dst),
       ri_dstPort = fr_dst_port r,
       ri_unifiId = str_or (fr_id0 r) (fr_id r)\<rparr>)"

text \<open>\<open>if (pair) \<dots>\<close>: the first rule decides, every rule is listed.\<close>

definition apply_to_pair :: "bool \<Rightarrow> rule_info \<Rightarrow> string \<Rightarrow> pairs \<Rightarrow> pairs" where
  "apply_to_pair allow info key ps =
     (case om_get ps key of
        None \<Rightarrow> ps
      | Some p \<Rightarrow> om_set key
          (p\<lparr>pr_forward := (case pr_forward p of None \<Rightarrow> Some allow | Some a \<Rightarrow> Some a),
             pr_rules := pr_rules p @ [info]\<rparr>) ps)"

definition cross :: "string list \<Rightarrow> string list \<Rightarrow> (string \<times> string) list" where
  "cross srcs dsts = concat (map (\<lambda>s. map (\<lambda>d. (s, d)) (filter (\<lambda>d. s \<noteq> d) dsts)) srcs)"

definition rule_pairs :: "(string \<times> raw_group) list \<Rightarrow> network_node list \<Rightarrow> raw_rule \<Rightarrow> (string \<times> string) list" where
  "rule_pairs groups networks r =
     cross (rule_side groups networks r (fr_src_network r) (fr_src_group_ids r))
           (rule_side groups networks r (fr_dst_network r) (fr_dst_group_ids r))"

definition apply_rule ::
  "(string \<times> raw_group) list \<Rightarrow> network_node list \<Rightarrow> pairs \<Rightarrow> raw_rule \<Rightarrow> pairs" where
  "apply_rule groups networks ps r =
     (if \<not> lan_rule r then ps
      else foldl (\<lambda>ps (src, dst). apply_to_pair (rule_allows r) (rule_display networks r src dst) (pair_key src dst) ps)
             ps (rule_pairs groups networks r))"

section \<open>Zone policies\<close>

definition sorted_policies :: "raw_policy list \<Rightarrow> raw_policy list" where
  "sorted_policies policies = sort_key fp_index (filter (\<lambda>p. fp_enabled p \<and> \<not> fp_predefined p) policies)"

definition side_has_networks :: "policy_side \<Rightarrow> bool" where
  "side_has_networks s \<longleftrightarrow> ps_matching_target s = Some ''NETWORK'' \<and> dflt [] (ps_network_ids s) \<noteq> []"

definition policy_side_ids :: "network_node list \<Rightarrow> policy_side \<Rightarrow> string list" where
  "policy_side_ids networks s =
     (if side_has_networks s then dflt [] (ps_network_ids s)
      else if ps_matching_target s = Some ''ANY'' then map nn_id networks
      else [])"

definition policy_allows :: "raw_policy \<Rightarrow> bool" where
  "policy_allows p = (to_lower (fp_action p) = ''allow'')"

definition policy_pairs :: "network_node list \<Rightarrow> raw_policy \<Rightarrow> (string \<times> string) list" where
  "policy_pairs networks p =
     (if \<not> side_has_networks (fp_source p) \<and> \<not> side_has_networks (fp_destination p) then []
      else filter (\<lambda>(s, d). om_get (network_map networks) s \<noteq> None \<and> om_get (network_map networks) d \<noteq> None)
             (cross (policy_side_ids networks (fp_source p)) (policy_side_ids networks (fp_destination p))))"

definition policy_display :: "network_node list \<Rightarrow> raw_policy \<Rightarrow> string \<Rightarrow> string \<Rightarrow> rule_info" where
  "policy_display networks p src dst =
     (let name_of = (\<lambda>i. map_option nn_name (om_get (network_map networks) i)) in
      \<lparr>ri_name = str_dflt (fp_name p) ''Unnamed Policy'',
       ri_action = fp_action p,
       ri_enabled = fp_enabled p,
       ri_ruleset = Some ''Policy Engine'',
       ri_ruleIndex = Some (fp_index p),
       ri_protocol = str_dflt (fp_protocol p) ''all'',
       ri_srcNetwork = name_of src,
       ri_dstNetwork = name_of dst,
       ri_dstPort = map_option (join '', '') (ps_port_ranges (fp_destination p)),
       ri_unifiId = Some (fp_id p)\<rparr>)"

definition apply_policy :: "network_node list \<Rightarrow> pairs \<Rightarrow> raw_policy \<Rightarrow> pairs" where
  "apply_policy networks ps p =
     foldl (\<lambda>ps (src, dst). apply_to_pair (policy_allows p) (policy_display networks p src dst) (pair_key src dst) ps)
       ps (policy_pairs networks p)"

definition final_pairs ::
  "network_node list \<Rightarrow> raw_rule list \<Rightarrow> raw_policy list \<Rightarrow> (string \<times> raw_group) list \<Rightarrow> l3_acl list \<Rightarrow> pairs" where
  "final_pairs networks rules policies groups acls =
     foldl (apply_policy networks)
       (foldl (apply_rule groups networks) (init_pairs acls networks) (sorted_rules rules))
       (sorted_policies policies)"

section \<open>Intent\<close>

definition shouldBeIsolated :: "intent_profile option \<Rightarrow> string \<Rightarrow> string \<Rightarrow> string option" where
  "shouldBeIsolated profile src dst =
     (case profile of
        None \<Rightarrow> None
      | Some p \<Rightarrow>
          (let m = dflt no_mappings (ip_networkMappings p);
               s = Some src; d = Some dst; iot = nm_iot m; guest = nm_guest m; work = nm_work m;
               strict = dflt Phased (ip_workIsolationMode p) = Strict
           in
           if ip_hasIoT p \<and> ip_iotIsolation p \<and> s = iot \<and> d \<noteq> iot
             then Some ''IoT devices should be isolated''
           else if ip_hasIoT p \<and> ip_iotIsolation p \<and> d = iot \<and> s \<noteq> iot
             then Some ''IoT network should not be accessible''
           else if ip_guestNetwork p \<and> ip_guestIsolation p \<and> s = guest \<and> d \<noteq> guest
             then Some ''Guest network should be isolated''
           else if ip_guestNetwork p \<and> ip_guestIsolation p \<and> d = guest \<and> s \<noteq> guest
             then Some ''Guest network should not be accessible''
           else if ip_workFromHome p \<and> ip_workDeviceIsolation p \<and> strict \<and> s = work \<and> d \<noteq> work
             then Some ''Work strict mode blocks traffic from Work to non-Work networks''
           else if ip_workFromHome p \<and> ip_workDeviceIsolation p \<and> strict \<and> d = work \<and> s \<noteq> work
             then Some ''Work strict mode blocks traffic from non-Work networks to Work''
           else if ip_workFromHome p \<and> ip_workDeviceIsolation p \<and> \<not> strict \<and> s = work \<and> (d = iot \<or> d = guest)
             then Some ''Work devices should be isolated from IoT/Guest''
           else if ip_workFromHome p \<and> ip_workDeviceIsolation p \<and> \<not> strict \<and> d = work \<and> (s = iot \<or> s = guest)
             then Some ''Work network should not be accessible from IoT/Guest''
           else if ip_interVlanDefault p = DenyAll
             then Some ''Inter-VLAN traffic should be denied by default''
           else None))"

section \<open>Connections\<close>

definition block_reason_of :: "bool \<Rightarrow> bool \<Rightarrow> block_reason option" where
  "block_reason_of byFirewall byIsolation =
     (if byFirewall \<and> byIsolation then Some Both
      else if byIsolation then Some Isolation
      else if byFirewall then Some Firewall
      else None)"

definition connection_of ::
  "intent_profile option \<Rightarrow> pairs \<Rightarrow> network_node \<Rightarrow> network_node \<Rightarrow> connection" where
  "connection_of profile ps src dst =
     (let fwd = om_get ps (pair_key (nn_id src) (nn_id dst));
          rev' = om_get ps (pair_key (nn_id dst) (nn_id src));
          blocked = (case fwd of None \<Rightarrow> False | Some p \<Rightarrow> pr_blocked p) \<or>
                    (case rev' of None \<Rightarrow> False | Some p \<Rightarrow> pr_blocked p);
          fwdByRule = dflt True (Option.bind fwd pr_forward);
          revByRule = dflt True (Option.bind rev' pr_forward);
          explicit = (case fwd of None \<Rightarrow> True | Some p \<Rightarrow> pr_forward p \<noteq> None);
          fwdAllowed = fwdByRule \<and> \<not> blocked;
          revAllowed = revByRule \<and> \<not> blocked;
          intent = shouldBeIsolated profile (nn_id src) (nn_id dst);
          violates = intent \<noteq> None \<and> fwdAllowed
      in \<lparr>co_srcId = nn_id src, co_dstId = nn_id dst, co_srcName = nn_name src, co_dstName = nn_name dst,
          co_allowed = fwdAllowed,
          co_bidirectional = (fwdAllowed = revAllowed),
          co_rules = (case fwd of None \<Rightarrow> [] | Some p \<Rightarrow> pr_rules p),
          co_allowedByDefault = (\<not> explicit \<and> \<not> blocked \<and> fwdAllowed),
          co_violatesIntent = violates,
          co_intentReason = (if violates then intent else None),
          co_blockedByIsolation = blocked,
          co_blockReason = (if fwdAllowed then None else block_reason_of (\<not> fwdByRule) blocked),
          co_isolationSource = str_or (Option.bind fwd pr_source) (Option.bind rev' pr_source)\<rparr>)"

definition buildConnections ::
  "network_node list \<Rightarrow> raw_rule list \<Rightarrow> raw_policy list \<Rightarrow> (string \<times> raw_group) list \<Rightarrow>
   intent_profile option \<Rightarrow> l3_acl list \<Rightarrow> connection list" where
  "buildConnections networks rules policies groups profile acls =
     (let ps = final_pairs networks rules policies groups acls in
      map (\<lambda>(src, dst). connection_of profile ps src dst) (network_pairs networks))"

definition wan_block :: "network_node \<Rightarrow> raw_rule \<Rightarrow> bool" where
  "wan_block net r \<longleftrightarrow>
     fr_enabled r = Some True \<and> (fr_action r = Some ''drop'' \<or> fr_action r = Some ''reject'') \<and>
     (case fr_ruleset r of None \<Rightarrow> False | Some rs \<Rightarrow> str_includes ''wan'' (to_lower rs)) \<and>
     (fr_src_network r = Some (nn_name net) \<or> fr_src_network r = Some (nn_id net))"

definition wan_connection :: "raw_rule list \<Rightarrow> network_node \<Rightarrow> connection" where
  "wan_connection rules net =
     (let hasWanBlock = (\<exists>r \<in> set rules. wan_block net r) in
      \<lparr>co_srcId = nn_id net, co_dstId = ''WAN'', co_srcName = nn_name net, co_dstName = ''Internet'',
       co_allowed = \<not> hasWanBlock, co_bidirectional = False, co_rules = [],
       co_allowedByDefault = \<not> hasWanBlock, co_violatesIntent = False, co_intentReason = None,
       co_blockedByIsolation = False, co_blockReason = None, co_isolationSource = None\<rparr>)"

definition buildWanConnections :: "network_node list \<Rightarrow> raw_rule list \<Rightarrow> connection list" where
  "buildWanConnections networks rules = map (wan_connection rules) networks"

section \<open>The pair table as a fold of effects\<close>

text \<open>One effect: the pair it is about, its decision and the text it lists.\<close>

type_synonym effect = "string \<times> string \<times> bool \<times> rule_info"

definition rule_effects :: "(string \<times> raw_group) list \<Rightarrow> network_node list \<Rightarrow> raw_rule list \<Rightarrow> effect list" where
  "rule_effects groups networks rules =
     concat (map (\<lambda>r. map (\<lambda>(s, d). (s, d, rule_allows r, rule_display networks r s d)) (rule_pairs groups networks r))
       (filter lan_rule (sorted_rules rules)))"

definition policy_effects :: "network_node list \<Rightarrow> raw_policy list \<Rightarrow> effect list" where
  "policy_effects networks policies =
     concat (map (\<lambda>p. map (\<lambda>(s, d). (s, d, policy_allows p, policy_display networks p s d)) (policy_pairs networks p))
       (sorted_policies policies))"

definition effects_on :: "string \<Rightarrow> string \<Rightarrow> effect list \<Rightarrow> effect list" where
  "effects_on s d es = filter (\<lambda>(s', d', _, _). s' = s \<and> d' = d) es"

text \<open>The decision of the first effect on a pair, if any.\<close>

definition first_decision :: "effect list \<Rightarrow> string \<Rightarrow> string \<Rightarrow> bool option" where
  "first_decision es s d = (case effects_on s d es of [] \<Rightarrow> None | (_, _, a, _) # _ \<Rightarrow> Some a)"

definition apply_effect :: "pairs \<Rightarrow> effect \<Rightarrow> pairs" where
  "apply_effect ps e = (case e of (s, d, a, i) \<Rightarrow> apply_to_pair a i (pair_key s d) ps)"

lemma foldl_concat_map: "foldl f a (concat (map g xs)) = foldl (\<lambda>a x. foldl f a (g x)) a xs"
  by (induction xs arbitrary: a) simp_all

lemma apply_rule_effects:
  "foldl (apply_rule groups networks) ps rs =
     foldl apply_effect ps (concat (map (\<lambda>r. map (\<lambda>(s, d). (s, d, rule_allows r, rule_display networks r s d))
       (rule_pairs groups networks r)) (filter lan_rule rs)))"
  by (induction rs arbitrary: ps)
    (simp_all add: apply_rule_def apply_effect_def foldl_map split_def)

lemma final_pairs_effects:
  "final_pairs networks rules policies groups acls =
     foldl apply_effect (init_pairs acls networks)
       (rule_effects groups networks rules @ policy_effects networks policies)"
proof -
  have "foldl (apply_policy networks) ps qs = foldl apply_effect ps
      (concat (map (\<lambda>p. map (\<lambda>(s, d). (s, d, policy_allows p, policy_display networks p s d)) (policy_pairs networks p)) qs))"
    for ps qs
    by (induction qs arbitrary: ps)
      (simp_all add: apply_policy_def apply_effect_def foldl_map split_def)
  then show ?thesis
    by (simp add: final_pairs_def rule_effects_def policy_effects_def apply_rule_effects)
qed

definition effect_key :: "effect \<Rightarrow> string" where
  "effect_key e = pair_key (fst e) (fst (snd e))"

definition effect_allow :: "effect \<Rightarrow> bool" where
  "effect_allow e = fst (snd (snd e))"

definition effect_info :: "effect \<Rightarrow> rule_info" where
  "effect_info e = snd (snd (snd e))"

definition merge_effects :: "pair_state \<Rightarrow> effect list \<Rightarrow> pair_state" where
  "merge_effects p es =
     p\<lparr>pr_forward := nullish (pr_forward p) (case es of [] \<Rightarrow> None | e # _ \<Rightarrow> Some (effect_allow e)),
       pr_rules := pr_rules p @ map effect_info es\<rparr>"

lemma merge_sel [simp]:
  "pr_forward (merge_effects p es) = nullish (pr_forward p) (case es of [] \<Rightarrow> None | e # _ \<Rightarrow> Some (effect_allow e))"
  "pr_rules (merge_effects p es) = pr_rules p @ map effect_info es"
  "pr_blocked (merge_effects p es) = pr_blocked p"
  "pr_source (merge_effects p es) = pr_source p"
  by (simp_all add: merge_effects_def)

lemma merge_Nil [simp]: "merge_effects p [] = p"
  by (cases p) (simp add: merge_effects_def nullish_def split: option.split)

lemma get_apply_effect:
  "om_get (apply_effect ps e) k = map_option (\<lambda>p. merge_effects p (if effect_key e = k then [e] else [])) (om_get ps k)"
  by (cases e)
    (auto simp: apply_effect_def apply_to_pair_def om_get_set merge_effects_def nullish_def effect_key_def
       effect_allow_def effect_info_def split: option.split)

lemma get_apply_effects:
  "om_get (foldl apply_effect ps es) k =
     map_option (\<lambda>p. merge_effects p (filter (\<lambda>e. effect_key e = k) es)) (om_get ps k)"
proof (induction es arbitrary: ps)
  case Nil
  then show ?case by (simp add: option.map_ident)
next
  case (Cons e es)
  have "merge_effects (merge_effects p (if effect_key e = k then [e] else [])) (filter (\<lambda>e. effect_key e = k) es)
      = merge_effects p (filter (\<lambda>e. effect_key e = k) (e # es))" for p
    by (auto simp: merge_effects_def nullish_def split: option.split list.split)
  with Cons show ?case by (simp add: get_apply_effect option.map_comp o_def)
qed

section \<open>Identifiers of effects\<close>

lemma keys_network_map [simp]: "set (om_keys (network_map networks)) = nn_id ` set networks"
proof -
  have "set (om_keys (foldl (\<lambda>m kv. om_set (fst kv) (snd kv) m) m0 kvs)) = set (om_keys m0) \<union> fst ` set kvs"
    for m0 :: "(string \<times> network_node) list" and kvs
    by (induction kvs arbitrary: m0) auto
  then show ?thesis by (simp add: network_map_def om_of_def image_image)
qed

lemma network_map_mem: "(i, n) \<in> set (network_map networks) \<Longrightarrow> n \<in> set networks \<and> nn_id n = i"
proof -
  assume a: "(i, n) \<in> set (network_map networks)"
  then have "om_get (network_map networks) i = Some n"
    using distinct_om_of [of "map (\<lambda>n. (nn_id n, n)) networks"]
    by (simp add: network_map_def om_get_def om_keys_def)
  then have "map_of (rev (map (\<lambda>n. (nn_id n, n)) networks)) i = Some n"
    by (simp add: network_map_def om_get_of)
  then show ?thesis by (auto dest!: map_of_SomeD)
qed

lemma network_map_get: "om_get (network_map networks) i \<noteq> None \<longleftrightarrow> i \<in> nn_id ` set networks"
  using om_get_None_iff [of "network_map networks" i] by simp

lemma rule_side_ids: "set (rule_side groups networks r ref gs) \<subseteq> nn_id ` set networks"
proof -
  have res: "set (resolveNetworkFromGroup groups (network_map networks) g) \<subseteq> nn_id ` set networks" for g
    using network_map_get [of networks]
    by (auto simp: resolveNetworkFromGroup_def split: option.splits if_splits dest: network_map_mem)
  have "n \<in> set (om_values (network_map networks)) \<Longrightarrow> n \<in> set networks" for n
    by (auto simp: om_values_def dest: network_map_mem)
  then have "find P (om_values (network_map networks)) = Some n \<Longrightarrow> nn_id n \<in> nn_id ` set networks" for P n
    by (metis find_Some_iff nth_mem imageI)
  then have dir: "set (direct_network (network_map networks) ref) \<subseteq> nn_id ` set networks"
    by (cases "find (\<lambda>n. nn_name n = the ref \<or> nn_id n = the ref) (om_values (network_map networks))")
      (auto simp: direct_network_def)
  have "set (concat (map (resolveNetworkFromGroup groups (network_map networks)) gs')) \<subseteq> nn_id ` set networks" for gs'
    using res by (simp add: UN_subset_iff)
  with dir show ?thesis unfolding rule_side_def Let_def by (simp only: set_append set_map split: if_split) simp
qed

lemma set_cross: "set (cross ss ds) = {(s, d). s \<in> set ss \<and> d \<in> set ds \<and> s \<noteq> d}"
  by (auto simp: cross_def)

lemma rule_pairs_ids:
  "(s, d) \<in> set (rule_pairs groups networks r) \<Longrightarrow> s \<in> nn_id ` set networks \<and> d \<in> nn_id ` set networks"
  unfolding rule_pairs_def set_cross using rule_side_ids by blast

lemma policy_pairs_ids:
  "(s, d) \<in> set (policy_pairs networks p) \<Longrightarrow> s \<in> nn_id ` set networks \<and> d \<in> nn_id ` set networks"
  using network_map_get [of networks] by (auto simp: policy_pairs_def split: if_splits)

lemma effect_ids:
  assumes "e \<in> set (rule_effects groups networks rules @ policy_effects networks policies)"
  shows "fst e \<in> nn_id ` set networks \<and> fst (snd e) \<in> nn_id ` set networks"
proof -
  from assms consider
      r s d where "e = (s, d, rule_allows r, rule_display networks r s d)" "(s, d) \<in> set (rule_pairs groups networks r)"
    | p s d where "e = (s, d, policy_allows p, policy_display networks p s d)" "(s, d) \<in> set (policy_pairs networks p)"
    unfolding rule_effects_def policy_effects_def by auto
  then show ?thesis
    by cases (use rule_pairs_ids policy_pairs_ids in fastforce)+
qed

definition plain_ids :: "network_node list \<Rightarrow> bool" where
  "plain_ids networks \<longleftrightarrow> distinct (map nn_id networks) \<and> (\<forall>n \<in> set networks. CHR '':'' \<notin> set (nn_id n))"

lemma pair_key_inject:
  "CHR '':'' \<notin> set d \<Longrightarrow> CHR '':'' \<notin> set d' \<Longrightarrow> pair_key s d = pair_key s' d' \<longleftrightarrow> s = s' \<and> d = d'"
  using sep_inject [of s "CHR '':''" d s' d'] by (auto simp: pair_key_def)

lemma effects_by_key:
  assumes "plain_ids networks" "dst \<in> nn_id ` set networks"
    and "\<And>e. e \<in> set es \<Longrightarrow> fst (snd e) \<in> nn_id ` set networks"
  shows "filter (\<lambda>e. effect_key e = pair_key src dst) es = effects_on src dst es"
  unfolding effects_on_def
proof (rule filter_cong [OF refl])
  fix e assume "e \<in> set es"
  obtain s d a i where e: "e = (s, d, a, i)" by (cases e)
  have "CHR '':'' \<notin> set d" "CHR '':'' \<notin> set dst"
    using assms(1,2) assms(3) [OF \<open>e \<in> set es\<close>] e by (auto simp: plain_ids_def)
  then show "(effect_key e = pair_key src dst) = (case e of (s', d', _, _) \<Rightarrow> s' = src \<and> d' = dst)"
    by (simp add: e effect_key_def pair_key_inject)
qed

section \<open>The initial table\<close>

lemma set_network_pairs:
  "(a, b) \<in> set (network_pairs networks) \<longleftrightarrow> a \<in> set networks \<and> b \<in> set networks \<and> nn_id a \<noteq> nn_id b"
  by (auto simp: network_pairs_def)

lemma network_pairs_mem:
  "p \<in> set (network_pairs networks) \<longleftrightarrow> fst p \<in> set networks \<and> snd p \<in> set networks \<and> nn_id (fst p) \<noteq> nn_id (snd p)"
  using set_network_pairs [of "fst p" "snd p"] by simp

lemma node_of_id: "plain_ids networks \<Longrightarrow> a \<in> set networks \<Longrightarrow> b \<in> set networks \<Longrightarrow> nn_id a = nn_id b \<Longrightarrow> a = b"
  by (auto simp: plain_ids_def distinct_map inj_on_def)

lemma pair_key_nodes:
  assumes "plain_ids networks" "b \<in> set networks" "b' \<in> set networks"
  shows "pair_key s (nn_id b) = pair_key s' (nn_id b') \<longleftrightarrow> s = s' \<and> b = b'"
  using assms pair_key_inject [of "nn_id b" "nn_id b'" s s'] node_of_id [OF assms]
  by (auto simp: plain_ids_def)

lemma get_init_pairs:
  assumes "plain_ids networks" "a \<in> set networks" "b \<in> set networks" "nn_id a \<noteq> nn_id b"
  shows "om_get (init_pairs acls networks) (pair_key (nn_id a) (nn_id b)) = Some (init_pair (l3AclBlocked acls) a b)"
proof -
  have "om_get (om_of (map (\<lambda>p. (pair_key (nn_id (fst p)) (nn_id (snd p)), init_pair (l3AclBlocked acls) (fst p) (snd p)))
      (network_pairs networks))) (pair_key (nn_id (fst (a, b))) (nn_id (snd (a, b))))
    = Some (init_pair (l3AclBlocked acls) (fst (a, b)) (snd (a, b)))"
  proof (rule om_get_of_map)
    show "(a, b) \<in> set (network_pairs networks)" using assms by (simp add: set_network_pairs)
    fix p assume "p \<in> set (network_pairs networks)"
      and "pair_key (nn_id (fst p)) (nn_id (snd p)) = pair_key (nn_id (fst (a, b))) (nn_id (snd (a, b)))"
    then have "p = (a, b)"
      using assms pair_key_nodes [OF assms(1), of "snd p" b] node_of_id [OF assms(1), of "fst p" a]
      by (auto simp: network_pairs_mem prod_eq_iff)
    then show "init_pair (l3AclBlocked acls) (fst p) (snd p) = init_pair (l3AclBlocked acls) (fst (a, b)) (snd (a, b))"
      by simp
  qed
  then show ?thesis by (simp add: init_pairs_def split_def)
qed

definition l3_lists :: "l3_acl list \<Rightarrow> string \<Rightarrow> string \<Rightarrow> bool" where
  "l3_lists acls s d \<longleftrightarrow> (\<exists>a \<in> set acls. la_source_network a = s \<and> d \<in> set (la_destination_networks a))"

lemma l3_blocked_lists: "l3_blocked (l3AclBlocked acls) s d \<longleftrightarrow> l3_lists acls s d"
proof -
  have "l3_blocked (foldl l3_step m acls) s d \<longleftrightarrow> l3_blocked m s d \<or> l3_lists acls s d" for m
    by (induction acls arbitrary: m)
      (auto simp: l3_step_def l3_blocked_def l3_lists_def om_get_set dflt_def split: option.splits if_splits)
  then show ?thesis by (simp add: l3AclBlocked_def l3_blocked_def)
qed

text \<open>The isolation between two networks: a flag on either, or an access list in either direction.\<close>

definition isolated_between :: "l3_acl list \<Rightarrow> network_node \<Rightarrow> network_node \<Rightarrow> bool" where
  "isolated_between acls a b \<longleftrightarrow>
     nn_isolation a \<or> nn_isolation b \<or> l3_lists acls (nn_id a) (nn_id b) \<or> l3_lists acls (nn_id b) (nn_id a)"

lemma final_pair:
  assumes "plain_ids networks" "a \<in> set networks" "b \<in> set networks" "nn_id a \<noteq> nn_id b"
  shows "om_get (final_pairs networks rules policies groups acls) (pair_key (nn_id a) (nn_id b)) =
    Some (merge_effects (init_pair (l3AclBlocked acls) a b)
      (effects_on (nn_id a) (nn_id b) (rule_effects groups networks rules @ policy_effects networks policies)))"
proof -
  let ?es = "rule_effects groups networks rules @ policy_effects networks policies"
  have "filter (\<lambda>e. effect_key e = pair_key (nn_id a) (nn_id b)) ?es = effects_on (nn_id a) (nn_id b) ?es"
    by (rule effects_by_key [OF assms(1) imageI [OF assms(3)]]) (metis effect_ids)
  then show ?thesis
    unfolding final_pairs_effects get_apply_effects get_init_pairs [OF assms] by (simp only: option.map)
qed

lemma merge_first:
  "pr_forward p = None \<Longrightarrow> pr_forward (merge_effects p (effects_on s d es)) = first_decision es s d"
  by (auto simp: first_decision_def effect_allow_def split: list.split)

lemma init_sel [simp]:
  "pr_forward (init_pair l3 a b) = None" "pr_rules (init_pair l3 a b) = []"
  "pr_blocked (init_pair l3 a b) \<longleftrightarrow> nn_isolation a \<or> nn_isolation b \<or> l3_blocked l3 (nn_id a) (nn_id b)"
  by (simp_all add: init_pair_def Let_def disj_assoc)

section \<open>What one connection says\<close>

lemma connection_sel:
  fixes rules policies groups acls profile
  assumes "plain_ids networks" "a \<in> set networks" "b \<in> set networks" "nn_id a \<noteq> nn_id b"
  defines "es \<equiv> rule_effects groups networks rules @ policy_effects networks policies"
  defines "c \<equiv> connection_of profile (final_pairs networks rules policies groups acls) a b"
  shows "co_srcId c = nn_id a" "co_dstId c = nn_id b" "co_srcName c = nn_name a" "co_dstName c = nn_name b"
    and "co_blockedByIsolation c = isolated_between acls a b"
    and "co_allowed c \<longleftrightarrow> \<not> isolated_between acls a b \<and> dflt True (first_decision es (nn_id a) (nn_id b))"
    and "co_allowedByDefault c \<longleftrightarrow> \<not> isolated_between acls a b \<and> first_decision es (nn_id a) (nn_id b) = None"
    and "co_bidirectional c \<longleftrightarrow> isolated_between acls a b \<or>
      dflt True (first_decision es (nn_id a) (nn_id b)) = dflt True (first_decision es (nn_id b) (nn_id a))"
    and "co_rules c = map effect_info (effects_on (nn_id a) (nn_id b) es)"
    and "co_violatesIntent c \<longleftrightarrow> co_allowed c \<and> shouldBeIsolated profile (nn_id a) (nn_id b) \<noteq> None"
    and "co_intentReason c = (if co_violatesIntent c then shouldBeIsolated profile (nn_id a) (nn_id b) else None)"
    and "co_blockReason c = (if co_allowed c then None
      else block_reason_of (first_decision es (nn_id a) (nn_id b) = Some False) (isolated_between acls a b))"
proof -
  note fwd = final_pair [OF assms(1-4), where rules = rules and policies = policies and groups = groups and acls = acls]
  note bwd = final_pair [OF assms(1,3,2) assms(4) [symmetric], where rules = rules and policies = policies and groups = groups and acls = acls]
  have iso: "nn_isolation a \<or> nn_isolation b \<or> l3_lists acls (nn_id a) (nn_id b) \<or>
      nn_isolation b \<or> nn_isolation a \<or> l3_lists acls (nn_id b) (nn_id a) \<longleftrightarrow> isolated_between acls a b"
    by (auto simp: isolated_between_def)
  note sel = c_def es_def connection_of_def fwd bwd Let_def merge_first l3_blocked_lists iso
  show "co_srcId c = nn_id a" "co_dstId c = nn_id b" "co_srcName c = nn_name a" "co_dstName c = nn_name b"
    by (simp_all add: c_def connection_of_def Let_def)
  show iso': "co_blockedByIsolation c = isolated_between acls a b"
    by (auto simp: sel isolated_between_def simp del: merge_sel(1))
  show allowed: "co_allowed c \<longleftrightarrow> \<not> isolated_between acls a b \<and> dflt True (first_decision es (nn_id a) (nn_id b))"
    by (auto simp: sel isolated_between_def simp del: merge_sel(1))
  show "co_allowedByDefault c \<longleftrightarrow> \<not> isolated_between acls a b \<and> first_decision es (nn_id a) (nn_id b) = None"
    by (auto simp: sel isolated_between_def simp del: merge_sel(1))
  show "co_bidirectional c \<longleftrightarrow> isolated_between acls a b \<or>
      dflt True (first_decision es (nn_id a) (nn_id b)) = dflt True (first_decision es (nn_id b) (nn_id a))"
    by (auto simp: sel isolated_between_def simp del: merge_sel(1))
  show "co_rules c = map effect_info (effects_on (nn_id a) (nn_id b) es)"
    by (simp add: sel del: merge_sel(1))
  show "co_violatesIntent c \<longleftrightarrow> co_allowed c \<and> shouldBeIsolated profile (nn_id a) (nn_id b) \<noteq> None"
    and "co_intentReason c = (if co_violatesIntent c then shouldBeIsolated profile (nn_id a) (nn_id b) else None)"
    by (auto simp: c_def connection_of_def Let_def)
  have "first_decision es (nn_id a) (nn_id b) = Some False \<longleftrightarrow> \<not> dflt True (first_decision es (nn_id a) (nn_id b))"
    by (auto simp: dflt_def split: option.split)
  then show "co_blockReason c = (if co_allowed c then None
      else block_reason_of (first_decision es (nn_id a) (nn_id b) = Some False) (isolated_between acls a b))"
    using allowed iso' by (simp add: sel del: merge_sel(1))
qed

lemma connectionE:
  assumes "c \<in> set (buildConnections networks rules policies groups profile acls)"
  obtains a b where "a \<in> set networks" "b \<in> set networks" "nn_id a \<noteq> nn_id b"
    "c = connection_of profile (final_pairs networks rules policies groups acls) a b"
  using assms by (force simp: buildConnections_def Let_def set_network_pairs)

lemma connection_mem:
  assumes "a \<in> set networks" "b \<in> set networks" "nn_id a \<noteq> nn_id b"
  shows "connection_of profile (final_pairs networks rules policies groups acls) a b
    \<in> set (buildConnections networks rules policies groups profile acls)"
  using assms by (force simp: buildConnections_def Let_def set_network_pairs)

lemma distinct_network_pairs:
  assumes "plain_ids networks"
  shows "distinct (map (\<lambda>(a, b). (nn_id a, nn_id b)) (network_pairs networks))"
proof -
  have "distinct (map nn_id ns) \<Longrightarrow> distinct (map nn_id ms) \<Longrightarrow>
      distinct (map (\<lambda>(a, b). (nn_id a, nn_id b)) (concat (map (\<lambda>src. map (\<lambda>dst. (src, dst)) (filter (\<lambda>dst. nn_id src \<noteq> nn_id dst) ms)) ns)))"
    for ns ms
    by (induction ns) (auto simp: o_def distinct_map inj_on_def)
  then show ?thesis
    using assms unfolding network_pairs_def plain_ids_def by blast
qed

section \<open>Properties\<close>

text \<open>A sample site for the witnesses: two networks, the second isolated.\<close>

definition sample_node :: "string \<Rightarrow> bool \<Rightarrow> network_node" where
  "sample_node i flag = \<lparr>nn_id = i, nn_name = i, nn_vlanId = None, nn_subnet = None, nn_purpose = ''corporate'',
     nn_networkGroup = ''LAN'', nn_isolation = flag\<rparr>"

definition sample_rule :: "string \<Rightarrow> string \<Rightarrow> string \<Rightarrow> raw_rule" where
  "sample_rule action src dst =
     \<lparr>fr_id0 = None, fr_id = None, fr_name = None, fr_enabled = Some True, fr_ruleset = Some ''LAN_IN'',
      fr_rule_index = Some 1, fr_action = Some action, fr_protocol = None, fr_src_network = Some src,
      fr_dst_network = Some dst, fr_src_group_ids = None, fr_dst_group_ids = None, fr_src_address = None,
      fr_dst_address = None, fr_dst_port = None, fr_raw = JNull\<rparr>"

lemma sample_node_sel [simp]:
  "nn_id (sample_node i flag) = i" "nn_name (sample_node i flag) = i" "nn_isolation (sample_node i flag) = flag"
  by (simp_all add: sample_node_def)

lemma sample_plain: "plain_ids [sample_node ''a'' x, sample_node ''b'' y]"
  by (simp add: plain_ids_def)

text \<open>C1: the verdict of every connection: it is allowed exactly when neither network is isolated from the
  other and the first rule or policy that applies to the pair, in order of priority and legacy rules
  first, allows it, or none applies; the reported block reason, the default flag, the symmetry flag
  and the listed rules are the ones of that decision.\<close>

theorem connection_decision:
  assumes "plain_ids networks"
    and "c \<in> set (buildConnections networks rules policies groups profile acls)"
  shows "\<exists>a \<in> set networks. \<exists>b \<in> set networks.
    co_srcId c = nn_id a \<and> co_dstId c = nn_id b \<and> nn_id a \<noteq> nn_id b \<and>
    (let es = rule_effects groups networks rules @ policy_effects networks policies;
         isolated = isolated_between acls a b;
         d = first_decision es (nn_id a) (nn_id b);
         d' = first_decision es (nn_id b) (nn_id a)
     in co_allowed c = (\<not> isolated \<and> d \<noteq> Some False) \<and>
        co_blockedByIsolation c = isolated \<and>
        co_allowedByDefault c = (\<not> isolated \<and> d = None) \<and>
        co_bidirectional c = (isolated \<or> (d = Some False \<longleftrightarrow> d' = Some False)) \<and>
        co_blockReason c = (if isolated \<and> d = Some False then Some Both else if isolated then Some Isolation
                            else if d = Some False then Some Firewall else None) \<and>
        co_rules c = map effect_info (effects_on (nn_id a) (nn_id b) es))"
proof -
  from assms(2) obtain a b where ab: "a \<in> set networks" "b \<in> set networks" "nn_id a \<noteq> nn_id b"
    and c: "c = connection_of profile (final_pairs networks rules policies groups acls) a b"
    by (rule connectionE)
  have dflt_True: "dflt True x \<longleftrightarrow> x \<noteq> Some False" for x
    by (auto simp: dflt_def split: option.split)
  note sel = connection_sel [OF assms(1) ab, of profile rules policies groups acls, folded c]
  show ?thesis
    by (intro bexI [OF _ ab(1)] bexI [OF _ ab(2)]) (auto simp: Let_def sel ab(3) dflt_True block_reason_of_def)
qed

theorem connection_decision_witness:
  "\<exists>c \<in> set (buildConnections [sample_node ''a'' False, sample_node ''b'' True] [] [] [] None []).
     co_blockReason c = Some Isolation"
proof -
  let ?ns = "[sample_node ''a'' False, sample_node ''b'' True]"
  have pairs: "network_pairs ?ns = [(sample_node ''a'' False, sample_node ''b'' True), (sample_node ''b'' True, sample_node ''a'' False)]"
    by (simp add: network_pairs_def)
  have c: "connection_of None (final_pairs ?ns [] [] [] []) (sample_node ''a'' False) (sample_node ''b'' True)
      \<in> set (buildConnections ?ns [] [] [] None [])"
    by (simp add: buildConnections_def Let_def pairs)
  have none: "first_decision (rule_effects [] ?ns [] @ policy_effects ?ns []) s d = None" for s d
    by (simp add: rule_effects_def policy_effects_def sorted_rules_def sorted_policies_def first_decision_def effects_on_def)
  from connection_decision [OF sample_plain c] none c show ?thesis
    by (auto simp: Let_def isolated_between_def)
qed

text \<open>There is exactly one connection for every ordered pair of different networks.\<close>

lemma connections_complete:
  assumes "plain_ids networks"
  shows "distinct (map (\<lambda>c. (co_srcId c, co_dstId c)) (buildConnections networks rules policies groups profile acls)) \<and>
    (\<lambda>c. (co_srcId c, co_dstId c)) ` set (buildConnections networks rules policies groups profile acls) =
      {(s, d). s \<in> nn_id ` set networks \<and> d \<in> nn_id ` set networks \<and> s \<noteq> d}"
proof -
  have ids: "map (\<lambda>c. (co_srcId c, co_dstId c)) (buildConnections networks rules policies groups profile acls)
      = map (\<lambda>(a, b). (nn_id a, nn_id b)) (network_pairs networks)"
    by (simp add: buildConnections_def Let_def connection_of_def split_def)
  have "distinct (map (\<lambda>(a, b). (nn_id a, nn_id b)) (network_pairs networks))"
    using assms by (rule distinct_network_pairs)
  moreover have "(\<lambda>(a, b). (nn_id a, nn_id b)) ` set (network_pairs networks)
      = {(s, d). s \<in> nn_id ` set networks \<and> d \<in> nn_id ` set networks \<and> s \<noteq> d}"
    by (force simp: set_network_pairs)
  ultimately show ?thesis
    using ids by (metis (no_types, lifting) list.set_map)
qed

lemma connections_complete_witness:
  "distinct (map (\<lambda>c. (co_srcId c, co_dstId c))
     (buildConnections [sample_node ''a'' False, sample_node ''b'' True] [sample_rule ''drop'' ''a'' ''b''] [] [] None []))"
  using connections_complete [OF sample_plain] by blast

text \<open>A pair that a legacy rule decides keeps that verdict whatever zone policies the site has.\<close>

lemma legacy_rules_win:
  assumes "plain_ids networks"
    and "c \<in> set (buildConnections networks rules policies groups profile acls)"
    and "c' \<in> set (buildConnections networks rules policies' groups profile acls)"
    and "co_srcId c' = co_srcId c" "co_dstId c' = co_dstId c"
    and "r \<in> set rules" "lan_rule r" "(co_srcId c, co_dstId c) \<in> set (rule_pairs groups networks r)"
  shows "co_allowed c' = co_allowed c"
proof -
  from assms(2) obtain a b where ab: "a \<in> set networks" "b \<in> set networks" "nn_id a \<noteq> nn_id b"
    and c: "c = connection_of profile (final_pairs networks rules policies groups acls) a b"
    by (rule connectionE)
  note sel = connection_sel [OF assms(1) ab, of profile rules policies groups acls, folded c]
  from assms(3) obtain a' b' where ab': "a' \<in> set networks" "b' \<in> set networks" "nn_id a' \<noteq> nn_id b'"
    and c': "c' = connection_of profile (final_pairs networks rules policies' groups acls) a' b'"
    by (rule connectionE)
  note sel' = connection_sel [OF assms(1) ab', of profile rules policies' groups acls, folded c']
  have same: "a' = a" "b' = b"
    using assms(1,4,5) ab ab' sel(1,2) sel'(1,2) by (auto dest: node_of_id)
  have "r \<in> set (filter lan_rule (sorted_rules rules))"
    using assms(6,7) by (simp add: sorted_rules_def)
  with assms(8) have "(nn_id a, nn_id b, rule_allows r, rule_display networks r (nn_id a) (nn_id b)) \<in> set (rule_effects groups networks rules)"
    unfolding rule_effects_def set_concat set_map using sel(1,2) by (force intro!: bexI [of _ r])
  then have "effects_on (nn_id a) (nn_id b) (rule_effects groups networks rules) \<noteq> []"
    by (auto simp: effects_on_def filter_empty_conv)
  then obtain e es where "effects_on (nn_id a) (nn_id b) (rule_effects groups networks rules) = e # es"
    by (meson neq_Nil_conv)
  then have "first_decision (rule_effects groups networks rules @ policy_effects networks ps) (nn_id a) (nn_id b)
      = first_decision (rule_effects groups networks rules) (nn_id a) (nn_id b)" for ps
    by (auto simp: first_decision_def effects_on_def)
  with sel(6) sel'(6) same show ?thesis by simp
qed

definition sample_policy :: "string \<Rightarrow> string \<Rightarrow> string \<Rightarrow> raw_policy" where
  "sample_policy action src dst =
     (let side = (\<lambda>i. \<lparr>ps_zone_id = None, ps_matching_target = Some ''NETWORK'', ps_network_ids = Some [i],
                         ps_ips = None, ps_client_macs = None, ps_port_ranges = None\<rparr>)
      in \<lparr>fp_id = ''p'', fp_name = None, fp_action = action, fp_enabled = True, fp_predefined = False,
          fp_index = 1, fp_protocol = None, fp_source = side src, fp_destination = side dst\<rparr>)"

lemma legacy_rules_win_witness:
  "let ns = [sample_node ''a'' False, sample_node ''b'' False]; r = sample_rule ''accept'' ''a'' ''b'' in
   co_allowed (connection_of None (final_pairs ns [r] [sample_policy ''BLOCK'' ''a'' ''b''] [] []) (ns ! 0) (ns ! 1))
   = co_allowed (connection_of None (final_pairs ns [r] [] [] []) (ns ! 0) (ns ! 1))"
proof -
  let ?ns = "[sample_node ''a'' False, sample_node ''b'' False]" and ?r = "sample_rule ''accept'' ''a'' ''b''"
  have mem: "connection_of None (final_pairs ?ns [?r] ps [] []) (sample_node ''a'' False) (sample_node ''b'' False)
      \<in> set (buildConnections ?ns [?r] ps [] None [])" for ps
    by (rule connection_mem) simp_all
  have ids: "co_srcId (connection_of None ps (sample_node ''a'' False) (sample_node ''b'' False)) = ''a''"
    "co_dstId (connection_of None ps (sample_node ''a'' False) (sample_node ''b'' False)) = ''b''" for ps
    by (simp_all add: connection_of_def Let_def)
  have "lan_rule ?r" by code_simp
  moreover have "(''a'', ''b'') \<in> set (rule_pairs [] ?ns ?r)" by code_simp
  ultimately have "co_allowed (connection_of None (final_pairs ?ns [?r] [sample_policy ''BLOCK'' ''a'' ''b''] [] [])
        (sample_node ''a'' False) (sample_node ''b'' False))
      = co_allowed (connection_of None (final_pairs ?ns [?r] [] [] []) (sample_node ''a'' False) (sample_node ''b'' False))"
    by (intro legacy_rules_win [OF sample_plain mem mem]) (simp_all add: ids)
  then show ?thesis by (simp add: Let_def)
qed

text \<open>Two different networks of which exactly one is \<open>x\<close>.\<close>

definition touches :: "string option \<Rightarrow> string \<Rightarrow> string \<Rightarrow> bool" where
  "touches x s d \<longleftrightarrow> (Some s = x) \<noteq> (Some d = x)"

definition intent_forbids :: "intent_profile \<Rightarrow> string \<Rightarrow> string \<Rightarrow> bool" where
  "intent_forbids p s d \<longleftrightarrow>
     (let m = dflt no_mappings (ip_networkMappings p);
          work = ip_workFromHome p \<and> ip_workDeviceIsolation p in
      ip_hasIoT p \<and> ip_iotIsolation p \<and> touches (nm_iot m) s d \<or>
      ip_guestNetwork p \<and> ip_guestIsolation p \<and> touches (nm_guest m) s d \<or>
      work \<and> ip_workIsolationMode p = Some Strict \<and> touches (nm_work m) s d \<or>
      work \<and> ip_workIsolationMode p \<noteq> Some Strict \<and>
        (\<exists>x \<in> {nm_iot m, nm_guest m}. Some s = nm_work m \<and> Some d = x \<or> Some d = nm_work m \<and> Some s = x) \<or>
      ip_interVlanDefault p = DenyAll)"

lemma cascade:
  "(if c1 then Some x1 else if c2 then Some x2 else if c3 then Some x3 else if c4 then Some x4 else
    if c5 then Some x5 else if c6 then Some x6 else if c7 then Some x7 else if c8 then Some x8 else
    if c9 then Some x9 else None) \<noteq> None \<longleftrightarrow>
   (c1 \<or> c2) \<or> (c3 \<or> c4) \<or> (c5 \<or> c6) \<or> (c7 \<or> c8) \<or> c9"
  by simp

lemma shouldBeIsolated_forbids:
  "shouldBeIsolated profile s d \<noteq> None \<longleftrightarrow> (\<exists>p. profile = Some p \<and> intent_forbids p s d)"
proof (cases profile)
  case None
  then show ?thesis by (simp add: shouldBeIsolated_def)
next
  case (Some p)
  have strict: "(dflt Phased (ip_workIsolationMode p) = Strict) \<longleftrightarrow> ip_workIsolationMode p = Some Strict"
    by (auto simp: dflt_def split: option.split)
  have "shouldBeIsolated (Some p) s d \<noteq> None \<longleftrightarrow> intent_forbids p s d"
    unfolding shouldBeIsolated_def intent_forbids_def touches_def Let_def option.case cascade strict
    by (intro arg_cong2 [where f = "(\<or>)"]) auto
  with Some show ?thesis by simp
qed

text \<open>C13: a connection violates the intent exactly when it is allowed and the profile forbids it: it joins the
  isolated IoT or guest network (or, in strict mode, the work network) with another one, joins work
  with IoT or guest, or the default between networks is deny; a reason is given exactly then.\<close>

theorem intent_violations_exact:
  assumes "plain_ids networks"
    and "c \<in> set (buildConnections networks rules policies groups profile acls)"
  shows "(co_violatesIntent c \<longleftrightarrow>
      co_allowed c \<and> (\<exists>p. profile = Some p \<and> intent_forbids p (co_srcId c) (co_dstId c))) \<and>
    (co_intentReason c \<noteq> None \<longleftrightarrow> co_violatesIntent c)"
proof -
  from assms(2) obtain a b where ab: "a \<in> set networks" "b \<in> set networks" "nn_id a \<noteq> nn_id b"
    and c: "c = connection_of profile (final_pairs networks rules policies groups acls) a b"
    by (rule connectionE)
  show ?thesis
    using connection_sel(1,2,10,11) [OF assms(1) ab, of profile rules policies groups acls, folded c]
    unfolding shouldBeIsolated_forbids [symmetric] by auto
qed

definition deny_profile :: intent_profile where
  "deny_profile = \<lparr>ip_workFromHome = False, ip_workDeviceIsolation = False, ip_workIsolationMode = None,
     ip_hasIoT = False, ip_iotIsolation = False, ip_hasNAS = False, ip_nasAccessibleFrom = NasAll,
     ip_homeServer = False, ip_guestNetwork = False, ip_guestIsolation = False, ip_interVlanDefault = DenyAll,
     ip_reachabilityOverrides = None, ip_networkMappings = None\<rparr>"

theorem intent_violations_exact_witness:
  "let ns = [sample_node ''a'' False, sample_node ''b'' False];
       c = connection_of (Some deny_profile) (final_pairs ns [] [] [] []) (ns ! 0) (ns ! 1)
   in co_violatesIntent c \<longleftrightarrow> co_allowed c"
proof -
  let ?ns = "[sample_node ''a'' False, sample_node ''b'' False]"
  have mem: "connection_of (Some deny_profile) (final_pairs ?ns [] [] [] []) (sample_node ''a'' False) (sample_node ''b'' False)
      \<in> set (buildConnections ?ns [] [] [] (Some deny_profile) [])"
    by (rule connection_mem) simp_all
  have "intent_forbids deny_profile s d" for s d by (simp add: intent_forbids_def deny_profile_def Let_def)
  then show ?thesis
    using intent_violations_exact [OF sample_plain mem] by (simp add: Let_def)
qed

text \<open>Isolation is symmetric: a switch access list that names only one direction blocks the pair in both,
  whatever the rules and policies say.\<close>

lemma acl_isolation_both_ways:
  assumes "plain_ids networks"
    and "c \<in> set (buildConnections networks rules policies groups profile acls)"
    and "l3_lists acls (co_srcId c) (co_dstId c) \<or> l3_lists acls (co_dstId c) (co_srcId c)"
  shows "\<not> co_allowed c \<and> co_blockedByIsolation c \<and> co_bidirectional c \<and> \<not> co_violatesIntent c"
proof -
  from assms(2) obtain a b where ab: "a \<in> set networks" "b \<in> set networks" "nn_id a \<noteq> nn_id b"
    and c: "c = connection_of profile (final_pairs networks rules policies groups acls) a b"
    by (rule connectionE)
  note sel = connection_sel [OF assms(1) ab, of profile rules policies groups acls, folded c]
  have "isolated_between acls a b" using assms(3) by (auto simp: isolated_between_def sel(1,2))
  with sel show ?thesis by simp
qed

lemma acl_isolation_both_ways_witness:
  "let ns = [sample_node ''a'' False, sample_node ''b'' False];
       acls = [\<lparr>la_source_network = ''a'', la_destination_networks = [''b'']\<rparr>];
       c = connection_of None (final_pairs ns [sample_rule ''accept'' ''b'' ''a''] [] [] acls) (ns ! 1) (ns ! 0)
   in \<not> co_allowed c"
proof -
  let ?ns = "[sample_node ''a'' False, sample_node ''b'' False]" and ?rs = "[sample_rule ''accept'' ''b'' ''a'']"
  let ?acls = "[\<lparr>la_source_network = ''a'', la_destination_networks = [''b'']\<rparr>]"
  let ?c = "connection_of None (final_pairs ?ns ?rs [] [] ?acls) (sample_node ''b'' False) (sample_node ''a'' False)"
  have mem: "?c \<in> set (buildConnections ?ns ?rs [] [] None ?acls)"
    by (rule connection_mem) simp_all
  have ids: "co_srcId ?c = ''b''" "co_dstId ?c = ''a''" by (simp_all add: connection_of_def Let_def)
  have "l3_lists ?acls ''a'' ''b''" by (simp add: l3_lists_def)
  then show ?thesis
    using acl_isolation_both_ways [OF sample_plain mem] unfolding ids by (simp add: Let_def)
qed

end
