(* ===== verification/Topology_Devices.thy ===== *)
theory Topology_Devices
  imports Topology_Connections "HOL-Library.Multiset"
begin

text \<open>
  The rest of \<open>services/topologyAnalyzer.ts\<close>: the client look-up, the explicit routes, the warnings,
  the device categories and groups, and \<open>analyzeTopology\<close> itself.  \<open>localeCompare\<close> is the
  parameter \<open>cmp\<close>.
\<close>

section \<open>Sorting with a comparator\<close>

fun insert_by :: "('a \<Rightarrow> 'a \<Rightarrow> int) \<Rightarrow> 'a \<Rightarrow> 'a list \<Rightarrow> 'a list" where
  "insert_by cmp x [] = [x]"
| "insert_by cmp x (y # ys) = (if cmp x y \<le> 0 then x # y # ys else y # insert_by cmp x ys)"

text \<open>\<open>xs.sort(cmp)\<close>: stable.\<close>

definition js_sort :: "('a \<Rightarrow> 'a \<Rightarrow> int) \<Rightarrow> 'a list \<Rightarrow> 'a list" where
  "js_sort cmp xs = foldr (insert_by cmp) xs []"

lemma mset_insert_by [simp]: "mset (insert_by cmp x xs) = add_mset x (mset xs)"
  by (induction xs) auto

lemma mset_js_sort [simp]: "mset (js_sort cmp xs) = mset xs"
  by (induction xs) (simp_all add: js_sort_def)

lemma set_js_sort [simp]: "set (js_sort cmp xs) = set xs"
  by (metis mset_js_sort set_mset_mset)

lemma length_js_sort [simp]: "length (js_sort cmp xs) = length xs"
  by (metis mset_js_sort size_mset)

lemma sorted_wrt_insert_by:
  assumes "\<And>a b. 0 < cmp a b \<Longrightarrow> cmp b a \<le> 0"
    and "\<And>a b c. cmp a b \<le> 0 \<Longrightarrow> cmp b c \<le> 0 \<Longrightarrow> cmp a c \<le> 0"
    and "sorted_wrt (\<lambda>a b. cmp a b \<le> 0) xs"
  shows "sorted_wrt (\<lambda>a b. cmp a b \<le> 0) (insert_by cmp x xs)"
  using assms(3)
proof (induction xs)
  case (Cons y ys)
  have "set (insert_by cmp x ys) = insert x (set ys)"
    by (metis mset_insert_by set_mset_add_mset_insert set_mset_mset)
  then show ?case using Cons assms(1,2) by (auto simp: not_le)
qed simp

lemma sorted_wrt_js_sort:
  assumes "\<And>a b. 0 < cmp a b \<Longrightarrow> cmp b a \<le> 0"
    and "\<And>a b c. cmp a b \<le> 0 \<Longrightarrow> cmp b c \<le> 0 \<Longrightarrow> cmp a c \<le> 0"
  shows "sorted_wrt (\<lambda>a b. cmp a b \<le> 0) (js_sort cmp xs)"
  by (induction xs) (simp_all add: js_sort_def sorted_wrt_insert_by [OF assms])

section \<open>Clients\<close>

definition unknown_device :: string where "unknown_device = ''Unknown Device''"

definition client_entries :: "raw_client \<Rightarrow> (string \<times> device_ref) list" where
  "client_entries c =
     (let ip = str_or (cl_fixed_ip c) (cl_ip c);
          name = str_dflt (str_or (cl_name c) (cl_hostname c)) unknown_device in
      (if truthy ip then [(the ip, \<lparr>dv_name = name, dv_ip = the ip, dv_mac = str_dflt (cl_mac c) []\<rparr>)] else []) @
      (if truthy (cl_mac c) then [(the (cl_mac c), \<lparr>dv_name = name, dv_ip = str_dflt ip [], dv_mac = the (cl_mac c)\<rparr>)]
       else []))"

definition device_entries :: "raw_device \<Rightarrow> (string \<times> device_ref) list" where
  "device_entries d =
     (let name = str_dflt (str_or (str_or (de_name d) (de_hostname d)) (de_model d)) ''Network Device'' in
      (if truthy (de_ip d) then [(the (de_ip d), \<lparr>dv_name = name, dv_ip = the (de_ip d), dv_mac = str_dflt (de_mac d) []\<rparr>)]
       else []) @
      (if truthy (de_mac d) then [(the (de_mac d), \<lparr>dv_name = name, dv_ip = str_dflt (de_ip d) [], dv_mac = the (de_mac d)\<rparr>)]
       else []))"

definition buildClientMap :: "raw_client list \<Rightarrow> raw_device list \<Rightarrow> (string \<times> device_ref) list" where
  "buildClientMap clients devices =
     om_of (concat (map client_entries clients) @ concat (map device_entries devices))"

definition macToClient :: "raw_client list \<Rightarrow> (string \<times> raw_client) list" where
  "macToClient clients =
     om_of (concat (map (\<lambda>c. if truthy (cl_mac c) then [(to_lower (the (cl_mac c)), c)] else []) clients))"

definition ipToClient :: "raw_client list \<Rightarrow> (string \<times> raw_client) list" where
  "ipToClient clients =
     om_of (concat (map (\<lambda>c. (if truthy (cl_ip c) then [(the (cl_ip c), c)] else []) @
                             (if truthy (cl_fixed_ip c) then [(the (cl_fixed_ip c), c)] else [])) clients))"

section \<open>Explicit routes\<close>

definition route_id :: "string option \<Rightarrow> string \<Rightarrow> explicit_route list \<Rightarrow> string" where
  "route_id i prefix routes = str_dflt i (prefix @ show_nat (length routes))"

definition add_port_forward ::
  "(string \<times> device_ref) list \<Rightarrow> explicit_route list \<Rightarrow> raw_port_forward \<Rightarrow> explicit_route list" where
  "add_port_forward clientMap routes pf =
     (let fwdIp = str_dflt (pf_fwd pf) [];
          device = om_get clientMap fwdIp;
          deviceName = str_dflt (str_or (map_option dv_name device) (pf_name pf)) fwdIp
      in routes @ [\<lparr>er_id = route_id (str_or (pf_id0 pf) (pf_id pf)) ''pf-'' routes,
          er_type = PortForward,
          er_name = str_dflt (pf_name pf) ''Unnamed Port Forward'',
          er_source = ''WAN'',
          er_destination = deviceName,
          er_destinationDevice =
            (if fwdIp = [] then None
             else Some \<lparr>dv_name = deviceName, dv_ip = fwdIp, dv_mac = str_dflt (map_option dv_mac device) []\<rparr>),
          er_ports = Some (str_dflt (pf_dst_port pf) [] @ '' '' @ [CHR 0xE2, CHR 0x86, CHR 0x92] @ '' '' @
                           str_dflt (str_or (pf_fwd_port pf) (pf_dst_port pf)) []),
          er_protocol = Some (to_upper (str_dflt (pf_proto pf) ''tcp'')),
          er_enabled = dflt True (pf_enabled pf)\<rparr>])"

definition network_name :: "network_node list \<Rightarrow> string \<Rightarrow> string" where
  "network_name networks i =
     str_dflt (map_option nn_name (find (\<lambda>n. nn_id n = i) networks)) i"

definition traffic_route ::
  "raw_traffic_rule \<Rightarrow> string \<Rightarrow> string \<Rightarrow> device_ref option \<Rightarrow> explicit_route list \<Rightarrow> explicit_route" where
  "traffic_route tr source destination device routes =
     \<lparr>er_id = route_id (tr_id0 tr) ''tr-'' routes, er_type = TrafficRule,
      er_name = str_dflt (str_or (tr_name tr) (tr_description tr)) ''Traffic Allow Rule'',
      er_source = source, er_destination = destination, er_destinationDevice = device, er_ports = None,
      er_protocol = None, er_enabled = dflt True (tr_enabled tr)\<rparr>"

definition add_traffic_rule ::
  "network_node list \<Rightarrow> (string \<times> device_ref) list \<Rightarrow> explicit_route list \<Rightarrow> raw_traffic_rule \<Rightarrow> explicit_route list"
where
  "add_traffic_rule networks clientMap routes tr =
     (if tr_action tr \<noteq> Some ''ALLOW'' then routes
      else
        (let targets = dflt [] (tr_target_macs tr);
             networkIds = dflt [] (tr_network_ids tr);
             names = join '', '' (map (network_name networks) networkIds);
             perDevice = foldl (\<lambda>rs mac.
               if truthy mac then
                 (let device = om_get clientMap (the mac) in
                  rs @ [traffic_route tr (str_dflt (Some names) ''Any'')
                          (str_dflt (map_option dv_name device) (the mac)) device rs])
               else rs) routes targets
         in if networkIds \<noteq> [] \<and> targets = []
            then perDevice @ [traffic_route tr ''Multiple Networks'' names None perDevice]
            else perDevice))"

definition add_allow_rule ::
  "network_node list \<Rightarrow> (string \<times> device_ref) list \<Rightarrow> explicit_route list \<Rightarrow> raw_rule \<Rightarrow> explicit_route list" where
  "add_allow_rule networks clientMap routes r =
     (if fr_enabled r \<noteq> Some True \<or> fr_action r \<noteq> Some ''accept'' then routes
      else if truthy (fr_dst_address r) then
        (let addr = the (fr_dst_address r);
             device = om_get clientMap addr;
             src = find (\<lambda>n. Some (nn_name n) = fr_src_network r \<or> Some (nn_id n) = fr_src_network r) networks
         in routes @ [\<lparr>er_id = route_id (str_or (fr_id0 r) (fr_id r)) ''fw-'' routes,
             er_type = AllowRule,
             er_name = str_dflt (fr_name r) ''Firewall Allow Rule'',
             er_source = str_dflt (str_or (map_option nn_name src) (fr_src_network r)) ''Any'',
             er_destination = str_dflt (map_option dv_name device) addr,
             er_destinationDevice = device,
             er_ports = (if truthy (fr_dst_port r) then fr_dst_port r else None),
             er_protocol = (if truthy (fr_protocol r) then map_option to_upper (fr_protocol r) else None),
             er_enabled = True\<rparr>])
      else routes)"

definition getZoneName :: "network_node list \<Rightarrow> string option \<Rightarrow> string" where
  "getZoneName networks zoneId =
     (if \<not> truthy zoneId then ''Any''
      else str_dflt (map_option nn_name (find (\<lambda>n. nn_id n = the zoneId) networks)) ''Zone'')"

text \<open>The devices already added and the routes: the state of the policy loop.\<close>

type_synonym exceptions = "string list \<times> explicit_route list"

definition exception_route ::
  "raw_policy \<Rightarrow> string \<Rightarrow> string \<Rightarrow> string \<Rightarrow> string \<Rightarrow> device_ref \<Rightarrow> explicit_route" where
  "exception_route p kind key source destination device =
     \<lparr>er_id = ''policy-'' @ kind @ ''-'' @ fp_id p @ ''-'' @ key, er_type = DeviceException,
      er_name = str_dflt (fp_name p) ''Policy Device'', er_source = source, er_destination = destination,
      er_destinationDevice = Some device, er_ports = None,
      er_protocol = Some (str_dflt (map_option to_upper (fp_protocol p)) ''ALL''), er_enabled = True\<rparr>"

definition mac_device :: "raw_client \<Rightarrow> string \<Rightarrow> device_ref" where
  "mac_device c mac =
     \<lparr>dv_name = str_dflt (str_or (cl_name c) (cl_hostname c)) mac,
      dv_ip = str_dflt (str_or (cl_fixed_ip c) (cl_ip c)) [],
      dv_mac = str_dflt (cl_mac c) mac\<rparr>"

definition ip_device :: "raw_client \<Rightarrow> string \<Rightarrow> device_ref" where
  "ip_device c ip =
     \<lparr>dv_name = str_dflt (str_or (cl_name c) (cl_hostname c)) ip,
      dv_ip = str_dflt (str_or (cl_fixed_ip c) (cl_ip c)) ip,
      dv_mac = str_dflt (cl_mac c) []\<rparr>"

definition add_exception ::
  "(string \<times> raw_client) list \<Rightarrow> string \<Rightarrow> (raw_client \<Rightarrow> explicit_route) \<Rightarrow> exceptions \<Rightarrow> exceptions" where
  "add_exception lookup key route st =
     (case om_get lookup key of
        Some c \<Rightarrow> if key \<notin> set (fst st) then (os_add key (fst st), snd st @ [route c]) else st
      | None \<Rightarrow> st)"

definition add_policy_devices ::
  "network_node list \<Rightarrow> raw_client list \<Rightarrow> exceptions \<Rightarrow> raw_policy \<Rightarrow> exceptions" where
  "add_policy_devices networks clients st p =
     (if \<not> fp_enabled p then st
      else
        (let src = fp_source p; dst = fp_destination p;
             macs = macToClient clients; ips = ipToClient clients;
             srcMac = (\<lambda>mac c. let d = mac_device c mac in
                exception_route p ''src'' mac (dv_name d) (getZoneName networks (ps_zone_id dst)) d);
             dstMac = (\<lambda>mac c. let d = mac_device c mac in
                exception_route p ''dst'' mac (getZoneName networks (ps_zone_id src)) (dv_name d) d);
             srcIp = (\<lambda>ip c. let d = ip_device c ip in
                exception_route p ''srcip'' ip (dv_name d) (getZoneName networks (ps_zone_id dst)) d);
             dstIp = (\<lambda>ip c. let d = ip_device c ip in
                exception_route p ''dstip'' ip (getZoneName networks (ps_zone_id src)) (dv_name d) d);
             st1 = foldl (\<lambda>st mac. add_exception macs (to_lower mac) (srcMac mac) st) st (dflt [] (ps_client_macs src));
             st2 = foldl (\<lambda>st mac. add_exception macs (to_lower mac) (dstMac mac) st) st1 (dflt [] (ps_client_macs dst));
             st3 = foldl (\<lambda>st ip. add_exception ips ip (srcIp ip) st) st2 (dflt [] (ps_ips src))
         in foldl (\<lambda>st ip. add_exception ips ip (dstIp ip) st) st3 (dflt [] (ps_ips dst))))"

definition buildExplicitRoutes ::
  "raw_port_forward list \<Rightarrow> raw_traffic_rule list \<Rightarrow> raw_rule list \<Rightarrow> raw_policy list \<Rightarrow> network_node list \<Rightarrow>
   (string \<times> device_ref) list \<Rightarrow> raw_client list \<Rightarrow> explicit_route list" where
  "buildExplicitRoutes portforward trafficrule rules policies networks clientMap clients =
     (let r1 = foldl (add_port_forward clientMap) [] portforward;
          r2 = foldl (add_traffic_rule networks clientMap) r1 trafficrule;
          r3 = foldl (add_allow_rule networks clientMap) r2 rules
      in snd (foldl (add_policy_devices networks clients) ([], r3) policies))"

section \<open>Warnings\<close>

definition generateWarnings :: "network_node list \<Rightarrow> connection list \<Rightarrow> connectivity_warning list" where
  "generateWarnings networks connections =
     (let isolated = filter nn_isolation networks;
          violations = filter co_violatesIntent connections in
      (if isolated = [] then []
       else [\<lparr>cw_type = NetworkIsolationEffective,
              cw_message = show_nat (length isolated) @ '' network(s) have isolation enabled'',
              cw_details = ''Networks with network_isolation: '' @ join '', '' (map nn_name isolated) @
                ''. These networks are automatically blocked from inter-VLAN communication.''\<rparr>]) @
      (if violations = [] then []
       else [\<lparr>cw_type = IsolationMismatch,
              cw_message = show_nat (length violations) @ '' connection(s) violate intended isolation'',
              cw_details = join ''; '' (map (\<lambda>c. co_srcName c @ '' '' @ [CHR 0xE2, CHR 0x86, CHR 0x94] @ '' '' @
                co_dstName c @ '': '' @ dflt ''undefined'' (co_intentReason c)) violations)\<rparr>]))"

section \<open>Device categories\<close>

record device_category =
  dc_category :: string
  dc_label :: string
  dc_icon :: string
  dc_patterns :: "re_item list list"
  dc_modelPatterns :: "re_item list list"

definition deviceCategories :: "device_category list" where
  "deviceCategories =
    [\<lparr>dc_category = ''cameras'', dc_label = ''Cameras'', dc_icon = ''Camera'',
      dc_patterns = [lit ''camera'', lit ''cam'' @ [RDigit], lit ''nvr'', lit ''surveillance'', lit ''protect'',
        lit ''doorbell'', [RChar CHR ''g'', RClass ''345'', RChar CHR ''-''], lit ''uvc-''],
      dc_modelPatterns = [lit ''UVC'', [RChar CHR ''G'', RClass ''345''], lit ''AI'']\<rparr>,
     \<lparr>dc_category = ''nas'', dc_label = ''NAS & Storage'', dc_icon = ''HardDrive'',
      dc_patterns = map lit [''nas'', ''storage'', ''synology'', ''qnap'', ''truenas'', ''unraid'', ''freenas'', ''backup'',
        ''plex''] @ [lit ''media'' @ [ROptDot] @ lit ''server''],
      dc_modelPatterns = []\<rparr>,
     \<lparr>dc_category = ''smart_home'', dc_label = ''Smart Home'', dc_icon = ''Home'',
      dc_patterns = [lit ''home'' @ [ROptDot] @ lit ''assistant''] @
        map lit [''hass'', ''homekit'', ''smart'', ''hub'', ''alexa'', ''echo''] @
        [lit ''google'' @ [ROptDot] @ lit ''home''] @
        map lit [''nest'', ''hue'', ''zigbee'', ''z-wave'', ''mqtt'', ''thermostat'', ''sensor''],
      dc_modelPatterns = []\<rparr>,
     \<lparr>dc_category = ''printers'', dc_label = ''Printers'', dc_icon = ''Printer'',
      dc_patterns = map lit [''printer'', ''print'', ''epson'', ''canon''] @ [lit ''hp'' @ [ROptDot] @ lit ''laser''] @
        map lit [''brother'', ''xerox'', ''scanner''],
      dc_modelPatterns = []\<rparr>,
     \<lparr>dc_category = ''networking'', dc_label = ''Network Devices'', dc_icon = ''Wifi'',
      dc_patterns = [lit ''router'', lit ''switch'', lit ''access'' @ [ROptDot] @ lit ''point'', lit ''ap'', lit ''gateway'',
        lit ''firewall'', lit ''dream'' @ [ROptDot] @ lit ''machine'', lit ''udm'', lit ''usg'', lit ''usw'', lit ''unifi''],
      dc_modelPatterns = [[RChar CHR ''U'', RLetter, RLetter], lit ''UDM'', lit ''USG'', lit ''USW'', lit ''UAP'']\<rparr>,
     \<lparr>dc_category = ''servers'', dc_label = ''Servers'', dc_icon = ''Server'',
      dc_patterns = map lit [''server'', ''docker'', ''proxmox'', ''esxi'', ''vm'', ''kubernetes'', ''k8s''] @
        [lit ''pi'' @ [ROptChar CHR ''-''] @ lit ''hole''] @ map lit [''dns'', ''web'', ''api''],
      dc_modelPatterns = []\<rparr>,
     \<lparr>dc_category = ''entertainment'', dc_label = ''Entertainment'', dc_icon = ''Tv'',
      dc_patterns = [lit ''tv'', lit ''television'', lit ''apple'' @ [ROptDot] @ lit ''tv''] @
        map lit [''roku'', ''firestick'', ''chromecast'', ''xbox'', ''playstation''] @
        [lit ''ps'' @ [RClass ''45'']] @
        map lit [''nintendo'', ''gaming'', ''sonos'', ''speaker'', ''receiver'', ''shield''],
      dc_modelPatterns = []\<rparr>,
     \<lparr>dc_category = ''computers'', dc_label = ''Computers'', dc_icon = ''Monitor'',
      dc_patterns = map lit [''laptop'', ''desktop'', ''macbook'', ''imac'', ''workstation'', ''pc''] @
        [lit ''-pc'' @ [REnd]] @ [lit ''computer''],
      dc_modelPatterns = []\<rparr>,
     \<lparr>dc_category = ''mobile'', dc_label = ''Mobile Devices'', dc_icon = ''Smartphone'',
      dc_patterns = map lit [''iphone'', ''ipad'', ''android'', ''phone'', ''tablet'', ''mobile''],
      dc_modelPatterns = []\<rparr>]"

text \<open>The model patterns are anchored at the start of the model.\<close>

definition category_matches :: "string \<Rightarrow> string option \<Rightarrow> device_category \<Rightarrow> bool" where
  "category_matches name model cat \<longleftrightarrow>
     (\<exists>p \<in> set (dc_patterns cat). re_test p name) \<or>
     truthy model \<and> (\<exists>p \<in> set (dc_modelPatterns cat). re_here p (the model))"

definition categorizeDevice :: "string \<Rightarrow> string option \<Rightarrow> string \<times> string \<times> string" where
  "categorizeDevice name model =
     (case find (category_matches name model) deviceCategories of
        Some cat \<Rightarrow> (dc_category cat, dc_label cat, dc_icon cat)
      | None \<Rightarrow> (''other'', ''Other Devices'', ''Box''))"

section \<open>Device groups\<close>

record topology_device =
  td_id :: string
  td_name :: string
  td_ip :: string
  td_mac :: string
  td_networkId :: string
  td_networkName :: string
  td_category :: string
  td_categoryLabel :: string
  td_routes :: "explicit_route list"
  td_isProminent :: bool
  td_policyCount :: nat

record device_group =
  dg_id :: string
  dg_category :: string
  dg_label :: string
  dg_networkId :: string
  dg_networkName :: string
  dg_devices :: "topology_device list"
  dg_icon :: string

type_synonym policy_counts = "(string \<times> nat) list \<times> (string \<times> string list) list"

definition count_mac :: "network_node list \<Rightarrow> raw_policy \<Rightarrow> policy_counts \<Rightarrow> string \<Rightarrow> policy_counts" where
  "count_mac networks p st mac =
     (case st of (counts, sources) \<Rightarrow>
       (let k = to_lower mac;
            counts' = om_set k (dflt 0 (om_get counts k) + 1) counts;
            known = dflt [] (om_get sources k);
            names = (if mac \<in> set (dflt [] (ps_client_macs (fp_destination p)))
                     then concat (map (\<lambda>i. case om_get (network_map networks) i of
                                              None \<Rightarrow> [] | Some net \<Rightarrow> [nn_name net])
                                    (dflt [] (ps_network_ids (fp_source p))))
                     else [])
        in (counts', om_set k (foldl (\<lambda>s x. os_add x s) known names) sources)))"

definition policy_counts :: "network_node list \<Rightarrow> raw_policy list \<Rightarrow> policy_counts" where
  "policy_counts networks policies =
     foldl (\<lambda>st p. if \<not> fp_enabled p then st
                   else foldl (count_mac networks p) st
                     (dflt [] (ps_client_macs (fp_source p)) @ dflt [] (ps_client_macs (fp_destination p))))
       ([], []) policies"

definition route_matches :: "string \<Rightarrow> string \<Rightarrow> explicit_route \<Rightarrow> bool" where
  "route_matches macLower ip r =
     (case er_destinationDevice r of
        None \<Rightarrow> False
      | Some d \<Rightarrow> to_lower (dv_mac d) = macLower \<or> dv_ip d = ip)"

definition client_device ::
  "explicit_route list \<Rightarrow> network_node list \<Rightarrow> policy_counts \<Rightarrow> raw_client \<Rightarrow> topology_device" where
  "client_device routes networks pc c =
     (let mac = the (cl_mac c);
          macLower = to_lower mac;
          name = str_dflt (str_or (cl_name c) (cl_hostname c)) mac;
          ip = str_dflt (str_or (cl_fixed_ip c) (cl_ip c)) [];
          networkId = str_dflt (cl_network_id c) [];
          cat = categorizeDevice name None;
          policyCount = dflt 0 (om_get (fst pc) macLower);
          sources = dflt [] (om_get (snd pc) macLower)
      in \<lparr>td_id = macLower, td_name = name, td_ip = ip, td_mac = mac, td_networkId = networkId,
          td_networkName = str_dflt (map_option nn_name (om_get (network_map networks) networkId)) ''Unknown'',
          td_category = fst cat, td_categoryLabel = fst (snd cat),
          td_routes = filter (route_matches macLower ip) routes,
          td_isProminent = (0 < policyCount \<and> sources \<noteq> []),
          td_policyCount = policyCount\<rparr>)"

definition devices_by_mac ::
  "explicit_route list \<Rightarrow> raw_client list \<Rightarrow> network_node list \<Rightarrow> raw_policy list \<Rightarrow> (string \<times> topology_device) list"
where
  "devices_by_mac routes clients networks policies =
     om_of (map (\<lambda>c. (to_lower (the (cl_mac c)), client_device routes networks (policy_counts networks policies) c))
              (filter (\<lambda>c. truthy (cl_mac c)) clients))"

definition group_key :: "topology_device \<Rightarrow> string" where
  "group_key d = td_networkId d @ CHR '':'' # td_category d"

definition fresh_group :: "topology_device \<Rightarrow> device_group" where
  "fresh_group d =
     \<lparr>dg_id = group_key d, dg_category = td_category d, dg_label = td_categoryLabel d,
      dg_networkId = td_networkId d, dg_networkName = td_networkName d, dg_devices = [d],
      dg_icon = snd (snd (categorizeDevice (td_name d) None))\<rparr>"

definition add_to_group :: "topology_device \<Rightarrow> device_group \<Rightarrow> device_group" where
  "add_to_group d g = g\<lparr>dg_devices := dg_devices g @ [d]\<rparr>"

definition device_order :: "(string \<Rightarrow> string \<Rightarrow> int) \<Rightarrow> topology_device \<Rightarrow> topology_device \<Rightarrow> int" where
  "device_order cmp a b =
     (if td_isProminent a \<noteq> td_isProminent b then (if td_isProminent a then -1 else 1)
      else cmp (td_name a) (td_name b))"

definition sort_group :: "(string \<Rightarrow> string \<Rightarrow> int) \<Rightarrow> device_group \<Rightarrow> device_group" where
  "sort_group cmp g = g\<lparr>dg_devices := js_sort (device_order cmp) (dg_devices g)\<rparr>"

definition buildDeviceGroups ::
  "(string \<Rightarrow> string \<Rightarrow> int) \<Rightarrow> explicit_route list \<Rightarrow> raw_client list \<Rightarrow> network_node list \<Rightarrow> raw_policy list \<Rightarrow>
   device_group list" where
  "buildDeviceGroups cmp routes clients networks policies =
     (let devices = om_values (devices_by_mac routes clients networks policies);
          groups = accum (\<lambda>_. True) group_key fresh_group add_to_group devices
      in js_sort (\<lambda>a b. int (length (dg_devices b)) - int (length (dg_devices a)))
           (map (sort_group cmp) (om_values groups)))"

section \<open>The analysis\<close>

record topology_analysis =
  ta_networks :: "network_node list"
  ta_connections :: "connection list"
  ta_explicitRoutes :: "explicit_route list"
  ta_warnings :: "connectivity_warning list"
  ta_deviceGroups :: "device_group list"

text \<open>The last setting that carries an \<open>acl_l3_isolation\<close> array.\<close>

definition l3_settings :: "json list \<Rightarrow> l3_acl list" where
  "l3_settings settings =
     foldl (\<lambda>acc s. case get_arr (obj_fields s) ''acl_l3_isolation'' of
                      Some xs \<Rightarrow> map read_l3_acl xs | None \<Rightarrow> acc) [] settings"

definition wan_node :: network_node where
  "wan_node = \<lparr>nn_id = ''WAN'', nn_name = ''Internet'', nn_vlanId = None, nn_subnet = None, nn_purpose = ''wan'',
     nn_networkGroup = ''WAN'', nn_isolation = False\<rparr>"

definition analyzeTopology ::
  "(string \<Rightarrow> string \<Rightarrow> int) \<Rightarrow> (string \<times> json) list \<Rightarrow> intent_profile option \<Rightarrow> topology_analysis" where
  "analyzeTopology cmp config profile =
     (let rules = map read_rule (extractArray config ''firewallrule'');
          policies = map read_policy (extractArray config ''firewallpolicy'');
          groups = buildGroupMap (map read_group (extractArray config ''firewallgroup''));
          clients = map read_client (extractArray config ''user'');
          devices = map read_device (extractArray config ''device'');
          acls = l3_settings (extractArray config ''setting'');
          networks = buildNetworkNodes (map read_network (extractArray config ''networkconf''));
          connections = buildConnections networks rules policies groups profile acls;
          routes = buildExplicitRoutes (map read_port_forward (extractArray config ''portforward''))
            (map read_traffic_rule (extractArray config ''trafficrule'')) rules policies networks
            (buildClientMap clients devices) clients
      in \<lparr>ta_networks = networks @ [wan_node],
          ta_connections = connections @ buildWanConnections networks rules,
          ta_explicitRoutes = routes,
          ta_warnings = generateWarnings networks connections,
          ta_deviceGroups = buildDeviceGroups cmp routes clients networks policies\<rparr>)"

section \<open>Grouping\<close>

lemma find_append_Some: "find P xs = Some x \<Longrightarrow> find P (xs @ ys) = Some x"
  by (induction xs) auto

lemma mset_filter_disj:
  "(\<And>x. \<not> (P x \<and> Q x)) \<Longrightarrow> mset (filter P xs) + mset (filter Q xs) = mset (filter (\<lambda>x. P x \<or> Q x) xs)"
  by (induction xs) auto

lemma mset_partition:
  "distinct ks \<Longrightarrow>
     mset (concat (map (\<lambda>k. filter (\<lambda>x. key x = k) xs) ks)) = mset (filter (\<lambda>x. key x \<in> set ks) xs)"
proof (induction ks)
  case (Cons k ks)
  then have "mset (concat (map (\<lambda>k. filter (\<lambda>x. key x = k) xs) (k # ks)))
      = mset (filter (\<lambda>x. key x = k) xs) + mset (filter (\<lambda>x. key x \<in> set ks) xs)" by simp
  also have "\<dots> = mset (filter (\<lambda>x. key x = k \<or> key x \<in> set ks) xs)"
    by (rule mset_filter_disj) (use Cons.prems in auto)
  finally show ?case by simp
qed simp

lemma group_bucket:
  assumes "bucket_of fresh_group add_to_group ds = Some g"
  shows "dg_devices g = ds \<and> ds \<noteq> [] \<and> dg_id g = group_key (hd ds) \<and>
    dg_networkId g = td_networkId (hd ds) \<and> dg_category g = td_category (hd ds)"
proof -
  have "dg_devices (foldl (\<lambda>g d. add_to_group d g) g0 ds') = dg_devices g0 @ ds' \<and>
      dg_id (foldl (\<lambda>g d. add_to_group d g) g0 ds') = dg_id g0 \<and>
      dg_networkId (foldl (\<lambda>g d. add_to_group d g) g0 ds') = dg_networkId g0 \<and>
      dg_category (foldl (\<lambda>g d. add_to_group d g) g0 ds') = dg_category g0" for g0 ds'
    by (induction ds' arbitrary: g0) (simp_all add: add_to_group_def)
  with assms show ?thesis
    by (cases ds) (auto simp: bucket_of_def fresh_group_def)
qed

definition category_names :: "string list" where
  "category_names = ''other'' # map dc_category deviceCategories"

lemma category_names_eval:
  "category_names = [''other'', ''cameras'', ''nas'', ''smart_home'', ''printers'', ''networking'', ''servers'',
     ''entertainment'', ''computers'', ''mobile'']"
  by (simp add: category_names_def deviceCategories_def)

lemma categorize_mem: "fst (categorizeDevice name model) \<in> set category_names"
  by (auto simp: categorizeDevice_def category_names_def find_Some_iff split: option.split)

lemma category_plain: "c \<in> set category_names \<Longrightarrow> CHR '':'' \<notin> set c"
  unfolding category_names_eval by auto

lemma device_values:
  assumes "d \<in> set (om_values (devices_by_mac routes clients networks policies))"
  shows "\<exists>c \<in> set clients. truthy (cl_mac c) \<and> d = client_device routes networks (policy_counts networks policies) c"
proof -
  let ?f = "\<lambda>c. (to_lower (the (cl_mac c)), client_device routes networks (policy_counts networks policies) c)"
  let ?cs = "filter (\<lambda>c. truthy (cl_mac c)) clients"
  from assms obtain k where "om_get (devices_by_mac routes clients networks policies) k = Some d"
    by (auto simp: devices_by_mac_def set_om_values [OF distinct_om_of])
  then have "map_of (rev (map ?f ?cs)) k = Some d"
    unfolding devices_by_mac_def om_get_of .
  from map_of_SomeD [OF this] show ?thesis by auto
qed

lemma device_category:
  "d \<in> set (om_values (devices_by_mac routes clients networks policies)) \<Longrightarrow> td_category d \<in> set category_names"
  by (drule device_values) (auto simp: client_device_def Let_def categorize_mem)

lemma group_values:
  fixes devices :: "topology_device list"
  defines "gs \<equiv> om_values (accum (\<lambda>_. True) group_key fresh_group add_to_group devices)"
  assumes plain: "\<And>d. d \<in> set devices \<Longrightarrow> CHR '':'' \<notin> set (td_category d)"
  shows "mset (concat (map dg_devices gs)) = mset devices"
    and "distinct (map dg_id gs)"
    and "g \<in> set gs \<Longrightarrow> dg_devices g \<noteq> [] \<and> (\<forall>d \<in> set (dg_devices g).
           td_networkId d = dg_networkId g \<and> td_category d = dg_category g)"
proof -
  let ?keys = "os_of (map group_key devices)"
  let ?rows = "\<lambda>k. filter (\<lambda>d. group_key d = k) devices"
  let ?g = "\<lambda>k. the (bucket_of fresh_group add_to_group (?rows k))"
  have gs: "gs = map ?g ?keys"
    unfolding gs_def accum_loop om.vals_loop rows_of_def by simp
  have bucket: "\<exists>g. bucket_of fresh_group add_to_group (?rows k) = Some g" if "k \<in> set ?keys" for k
    using that by (subst bucket_of_Some_iff [of fresh_group add_to_group]) (auto simp: filter_empty_conv)
  have grp: "dg_devices (?g k) = ?rows k \<and> ?rows k \<noteq> [] \<and> dg_id (?g k) = k \<and>
      dg_networkId (?g k) = td_networkId (hd (?rows k)) \<and> dg_category (?g k) = td_category (hd (?rows k))"
    if given: "k \<in> set ?keys" for k
  proof -
    obtain g where g: "bucket_of fresh_group add_to_group (?rows k) = Some g" using bucket [OF given] by blast
    from group_bucket [OF g] have ne: "?rows k \<noteq> []" by blast
    then have "hd (?rows k) \<in> set (?rows k)" by (rule hd_in_set)
    then have "group_key (hd (?rows k)) = k" by simp
    with group_bucket [OF g] g show ?thesis by simp
  qed
  have "map dg_devices gs = map ?rows ?keys" unfolding gs using grp by simp
  then have "mset (concat (map dg_devices gs)) = mset (filter (\<lambda>d. group_key d \<in> set ?keys) devices)"
    by (simp add: mset_partition)
  also have "filter (\<lambda>d. group_key d \<in> set ?keys) devices = devices" by (rule filter_True) simp
  finally show "mset (concat (map dg_devices gs)) = mset devices" .
  have "map dg_id gs = ?keys" unfolding gs map_map by (rule map_idI) (simp add: grp)
  then show "distinct (map dg_id gs)" by simp
  show "dg_devices g \<noteq> [] \<and> (\<forall>d \<in> set (dg_devices g). td_networkId d = dg_networkId g \<and> td_category d = dg_category g)"
    if mem: "g \<in> set gs"
  proof -
    from mem obtain k where k: "k \<in> set ?keys" "g = ?g k" unfolding gs by auto
    note gk = grp [OF k(1)]
    then have hd: "hd (?rows k) \<in> set (?rows k)" by (intro hd_in_set) blast
    have "td_networkId d = td_networkId (hd (?rows k)) \<and> td_category d = td_category (hd (?rows k))"
      if "d \<in> set (?rows k)" for d
      using that hd plain sep_inject [of "td_networkId d" "CHR '':''" "td_category d" "td_networkId (hd (?rows k))"
        "td_category (hd (?rows k))"] by (auto simp: group_key_def)
    with gk k(2) show ?thesis by simp
  qed
qed

section \<open>Properties\<close>

text \<open>The device groups partition the devices: every client with a MAC address (one per MAC, case
  ignored) is in exactly one group, no group is empty, the devices of a group share its network and
  category, no two groups have the same key, and larger groups come first.\<close>

lemma device_groups_partition:
  "mset (concat (map dg_devices (buildDeviceGroups cmp routes clients networks policies)))
     = mset (om_values (devices_by_mac routes clients networks policies)) \<and>
   set (om_keys (devices_by_mac routes clients networks policies))
     = {to_lower m | m. \<exists>c \<in> set clients. cl_mac c = Some m \<and> m \<noteq> []} \<and>
   distinct (om_keys (devices_by_mac routes clients networks policies)) \<and>
   distinct (map dg_id (buildDeviceGroups cmp routes clients networks policies)) \<and>
   (\<forall>g \<in> set (buildDeviceGroups cmp routes clients networks policies).
      dg_devices g \<noteq> [] \<and>
      (\<forall>d \<in> set (dg_devices g). td_networkId d = dg_networkId g \<and> td_category d = dg_category g)) \<and>
   sorted_wrt (\<lambda>a b. length (dg_devices b) \<le> length (dg_devices a)) (buildDeviceGroups cmp routes clients networks policies)"
proof -
  let ?dm = "devices_by_mac routes clients networks policies"
  let ?gs = "om_values (accum (\<lambda>_. True) group_key fresh_group add_to_group (om_values ?dm))"
  let ?size = "\<lambda>a b. int (length (dg_devices b)) - int (length (dg_devices a))"
  have res: "buildDeviceGroups cmp routes clients networks policies = js_sort ?size (map (sort_group cmp) ?gs)"
    by (simp add: buildDeviceGroups_def Let_def)
  have sg: "dg_id (sort_group cmp g) = dg_id g" "mset (dg_devices (sort_group cmp g)) = mset (dg_devices g)"
    "set (dg_devices (sort_group cmp g)) = set (dg_devices g)"
    "dg_networkId (sort_group cmp g) = dg_networkId g" "dg_category (sort_group cmp g) = dg_category g"
    "dg_devices (sort_group cmp g) = [] \<longleftrightarrow> dg_devices g = []" for g
    by (simp_all add: sort_group_def) (metis length_0_conv length_js_sort)
  have plain: "CHR '':'' \<notin> set (td_category d)" if "d \<in> set (om_values ?dm)" for d
    using device_category [OF that] category_plain by blast
  note groups = group_values [of "om_values ?dm", OF plain]
  have perm: "mset (concat (map dg_devices (js_sort cmp' hs))) = mset (concat (map dg_devices hs))" for cmp' hs
    by (metis mset_concat mset_js_sort mset_map sum_mset_sum_list)
  have "mset (concat (map dg_devices (map (sort_group cmp) hs))) = mset (concat (map dg_devices hs))" for hs
    by (induction hs) (simp_all add: sg)
  then have part: "mset (concat (map dg_devices (buildDeviceGroups cmp routes clients networks policies))) = mset (om_values ?dm)"
    unfolding res perm using groups(1) by simp
  have "mset (map dg_id (js_sort ?size (map (sort_group cmp) ?gs))) = mset (map dg_id ?gs)"
    by (simp add: sg image_mset.compositionality o_def)
  then have ids: "distinct (map dg_id (buildDeviceGroups cmp routes clients networks policies))"
    unfolding res using groups(2) mset_eq_imp_distinct_iff by blast
  have each: "\<forall>g \<in> set (buildDeviceGroups cmp routes clients networks policies). dg_devices g \<noteq> [] \<and>
      (\<forall>d \<in> set (dg_devices g). td_networkId d = dg_networkId g \<and> td_category d = dg_category g)"
    unfolding res using groups(3) by (auto simp: sg)
  have "sorted_wrt (\<lambda>a b. ?size a b \<le> 0) (js_sort ?size (map (sort_group cmp) ?gs))"
    by (rule sorted_wrt_js_sort) auto
  then have sorted: "sorted_wrt (\<lambda>a b. length (dg_devices b) \<le> length (dg_devices a)) (buildDeviceGroups cmp routes clients networks policies)"
    unfolding res by (simp add: sorted_wrt_iff_nth_less)
  have "om_keys ?dm = os_of (map fst (map (\<lambda>c. (to_lower (the (cl_mac c)),
      client_device routes networks (policy_counts networks policies) c)) (filter (\<lambda>c. truthy (cl_mac c)) clients)))"
    unfolding devices_by_mac_def by (rule om_keys_of)
  then have keys: "set (om_keys ?dm) = {to_lower m | m. \<exists>c \<in> set clients. cl_mac c = Some m \<and> m \<noteq> []}"
    by (force simp: truthy_def split: option.splits)
  show ?thesis
    using part keys ids each sorted distinct_om_of by (auto simp: devices_by_mac_def)
qed

definition sample_client :: raw_client where
  "sample_client = \<lparr>cl_mac = Some ''AA'', cl_ip = None, cl_name = Some ''Anna-Laptop'', cl_hostname = None,
     cl_network_id = None, cl_fixed_ip = None\<rparr>"

lemma device_groups_partition_witness:
  "length (concat (map dg_devices (buildDeviceGroups (\<lambda>_ _. 0) [] [sample_client] [] []))) = 1"
proof -
  have "devices_by_mac [] [sample_client] [] [] = [(to_lower ''AA'', client_device [] [] (policy_counts [] []) sample_client)]"
    by (simp add: devices_by_mac_def om_of_def sample_client_def)
  then have "mset (concat (map dg_devices (buildDeviceGroups (\<lambda>_ _. 0) [] [sample_client] [] [])))
      = mset [client_device [] [] (policy_counts [] []) sample_client]"
    using device_groups_partition [of "\<lambda>_ _. 0" "[]" "[sample_client]" "[]" "[]"] by (simp add: om_values_def)
  from mset_eq_length [OF this] show ?thesis by simp
qed

text \<open>A device whose name contains ``laptop'' never lands in the category of computers: the pattern of
  access points is a part of the word and is tried first.\<close>

lemma laptop_not_computer:
  assumes "str_includes ''laptop'' (to_lower name)"
  shows "fst (categorizeDevice name model) \<in> {''cameras'', ''nas'', ''smart_home'', ''printers'', ''networking''}"
proof -
  from assms obtain a b where "to_lower name = a @ ''laptop'' @ b" by (auto simp: includes_iff)
  then have "to_lower name = (a @ ''l'') @ ''ap'' @ (''top'' @ b)" by simp
  then have "str_includes ''ap'' (to_lower name)" unfolding includes_iff by blast
  moreover have "to_lower ''ap'' = ''ap''" by code_simp
  ultimately have ap: "re_test (lit ''ap'') name" by (simp add: re_test_lit)
  define cats where "cats = take 5 deviceCategories"
  have split: "deviceCategories = cats @ drop 5 deviceCategories" by (simp add: cats_def)
  have "\<exists>c \<in> set cats. category_matches name model c"
    using ap by (auto simp: cats_def deviceCategories_def category_matches_def)
  then obtain c where c: "find (category_matches name model) cats = Some c"
    by (metis find_None_iff not_None_eq)
  then have "find (category_matches name model) deviceCategories = Some c"
    by (subst split) (rule find_append_Some)
  moreover have "dc_category c \<in> set (map dc_category cats)" using c by (auto simp: find_Some_iff)
  moreover have "map dc_category cats = [''cameras'', ''nas'', ''smart_home'', ''printers'', ''networking'']"
    by (simp add: cats_def deviceCategories_def)
  ultimately show ?thesis by (simp add: categorizeDevice_def)
qed

lemma laptop_not_computer_witness: "fst (categorizeDevice ''Anna-Laptop'' None) \<noteq> ''computers''"
proof -
  have "str_includes ''laptop'' (to_lower ''Anna-Laptop'')" by code_simp
  from laptop_not_computer [OF this, of None] show ?thesis by auto
qed

section \<open>Device exceptions\<close>

definition side_refs :: "raw_client list \<Rightarrow> policy_side \<Rightarrow> string set" where
  "side_refs clients s =
     {to_lower m | m. m \<in> set (dflt [] (ps_client_macs s)) \<and> om_get (macToClient clients) (to_lower m) \<noteq> None} \<union>
     {ip. ip \<in> set (dflt [] (ps_ips s)) \<and> om_get (ipToClient clients) ip \<noteq> None}"

text \<open>The known devices that the enabled policies refer to, by MAC or by IP.\<close>

definition policy_refs :: "raw_client list \<Rightarrow> raw_policy list \<Rightarrow> string set" where
  "policy_refs clients policies =
     (\<Union>p \<in> {p \<in> set policies. fp_enabled p}. side_refs clients (fp_source p) \<union> side_refs clients (fp_destination p))"

definition exceptions_grow :: "string set \<Rightarrow> exceptions \<Rightarrow> exceptions \<Rightarrow> bool" where
  "exceptions_grow new st st' \<longleftrightarrow>
     (distinct (fst st) \<longrightarrow> distinct (fst st')) \<and> set (fst st') = set (fst st) \<union> new \<and>
     (\<exists>rs. snd st' = snd st @ rs \<and> (\<forall>r \<in> set rs. er_type r = DeviceException) \<and>
        length (fst st') = length (fst st) + length rs)"

lemma exceptions_grow_refl: "exceptions_grow {} st st"
  by (simp add: exceptions_grow_def)

lemma exceptions_grow_trans:
  "exceptions_grow a st st' \<Longrightarrow> exceptions_grow b st' st'' \<Longrightarrow> exceptions_grow (a \<union> b) st st''"
  by (fastforce simp: exceptions_grow_def)

lemma add_exception_grow:
  assumes "\<And>c. er_type (route c) = DeviceException"
  shows "exceptions_grow (if om_get lookup key \<noteq> None then {key} else {}) st (add_exception lookup key route st)"
  using assms by (auto simp: exceptions_grow_def add_exception_def os_add_def split: option.split)

lemma exceptions_grow_foldl:
  assumes "\<And>x c. er_type (route x c) = DeviceException"
  shows "exceptions_grow {f x | x. x \<in> set xs \<and> om_get lookup (f x) \<noteq> None} st
    (foldl (\<lambda>st x. add_exception lookup (f x) (route x) st) st xs)"
proof (induction xs arbitrary: st)
  case Nil
  then show ?case by (simp add: exceptions_grow_refl)
next
  case (Cons x xs)
  have "{f y | y. y \<in> set (x # xs) \<and> om_get lookup (f y) \<noteq> None}
      = (if om_get lookup (f x) \<noteq> None then {f x} else {}) \<union> {f y | y. y \<in> set xs \<and> om_get lookup (f y) \<noteq> None}"
    by auto
  with exceptions_grow_trans [OF add_exception_grow [of "route x" lookup "f x" st, OF assms] Cons]
  show ?case by (simp only: foldl_Cons)
qed

lemma add_policy_devices_grow:
  "exceptions_grow (if fp_enabled p then side_refs clients (fp_source p) \<union> side_refs clients (fp_destination p) else {})
     st (add_policy_devices networks clients st p)"
proof (cases "fp_enabled p")
  case True
  have ty: "er_type (exception_route p kind key src dst d) = DeviceException" for kind key src dst d
    by (simp add: exception_route_def)
  let ?m = "\<lambda>s. {to_lower m | m. m \<in> set (dflt [] (ps_client_macs s)) \<and> om_get (macToClient clients) (to_lower m) \<noteq> None}"
  let ?i = "\<lambda>s. {ip | ip. ip \<in> set (dflt [] (ps_ips s)) \<and> om_get (ipToClient clients) ip \<noteq> None}"
  let ?zs = "getZoneName networks (ps_zone_id (fp_source p))" and ?zd = "getZoneName networks (ps_zone_id (fp_destination p))"
  note g1 = exceptions_grow_foldl [of "\<lambda>mac c. exception_route p ''src'' mac (dv_name (mac_device c mac)) ?zd (mac_device c mac)" to_lower, OF ty]
  note g2 = exceptions_grow_foldl [of "\<lambda>mac c. exception_route p ''dst'' mac ?zs (dv_name (mac_device c mac)) (mac_device c mac)" to_lower, OF ty]
  note g3 = exceptions_grow_foldl [of "\<lambda>ip c. exception_route p ''srcip'' ip (dv_name (ip_device c ip)) ?zd (ip_device c ip)" "\<lambda>ip. ip", OF ty]
  note g4 = exceptions_grow_foldl [of "\<lambda>ip c. exception_route p ''dstip'' ip ?zs (dv_name (ip_device c ip)) (ip_device c ip)" "\<lambda>ip. ip", OF ty]
  have "exceptions_grow (((?m (fp_source p) \<union> ?m (fp_destination p)) \<union> ?i (fp_source p)) \<union> ?i (fp_destination p)) st
      (add_policy_devices networks clients st p)"
    unfolding add_policy_devices_def Let_def eqTrueI [OF True] not_True_eq_False if_False
    by (rule exceptions_grow_trans [OF exceptions_grow_trans [OF exceptions_grow_trans [OF g1 g2] g3] g4])
  moreover have "((?m (fp_source p) \<union> ?m (fp_destination p)) \<union> ?i (fp_source p)) \<union> ?i (fp_destination p)
      = side_refs clients (fp_source p) \<union> side_refs clients (fp_destination p)"
    by (auto simp: side_refs_def)
  ultimately show ?thesis using True by simp
next
  case False
  then show ?thesis by (simp add: add_policy_devices_def exceptions_grow_refl)
qed

lemma policies_grow: "exceptions_grow (policy_refs clients policies) st (foldl (add_policy_devices networks clients) st policies)"
proof (induction policies arbitrary: st)
  case Nil
  then show ?case by (simp add: policy_refs_def exceptions_grow_refl)
next
  case (Cons p policies)
  have "policy_refs clients (p # policies) =
      (if fp_enabled p then side_refs clients (fp_source p) \<union> side_refs clients (fp_destination p) else {})
      \<union> policy_refs clients policies"
    by (auto simp: policy_refs_def)
  then show ?case using exceptions_grow_trans [OF add_policy_devices_grow Cons] by (simp only: foldl_Cons)
qed

lemma foldl_keeps: "(\<And>a x. P a \<Longrightarrow> P (f a x)) \<Longrightarrow> P a \<Longrightarrow> P (foldl f a xs)"
  by (induction xs arbitrary: a) simp_all

definition no_exceptions :: "explicit_route list \<Rightarrow> bool" where
  "no_exceptions rs \<longleftrightarrow> filter (\<lambda>r. er_type r = DeviceException) rs = []"

lemma no_exceptions_steps:
  "no_exceptions rs \<Longrightarrow> no_exceptions (add_port_forward cm rs pf)"
  "no_exceptions rs \<Longrightarrow> no_exceptions (add_traffic_rule networks cm rs tr)"
  "no_exceptions rs \<Longrightarrow> no_exceptions (add_allow_rule networks cm rs r)"
proof -
  show "no_exceptions rs \<Longrightarrow> no_exceptions (add_port_forward cm rs pf)"
    by (simp add: no_exceptions_def add_port_forward_def Let_def)
  show "no_exceptions rs \<Longrightarrow> no_exceptions (add_allow_rule networks cm rs r)"
    by (simp add: no_exceptions_def add_allow_rule_def Let_def)
  assume rs: "no_exceptions rs"
  have tr: "no_exceptions qs \<Longrightarrow> no_exceptions (qs @ [traffic_route tr a b c d])" for qs a b c d
    by (simp add: no_exceptions_def traffic_route_def)
  have "no_exceptions (foldl (\<lambda>rs mac. if truthy mac then
          (let device = om_get cm (the mac) in
           rs @ [traffic_route tr (str_dflt (Some names) ''Any'') (str_dflt (map_option dv_name device) (the mac)) device rs])
        else rs) rs macs)" for names macs
    by (rule foldl_keeps [where P = no_exceptions]) (simp_all add: Let_def tr rs)
  then show "no_exceptions (add_traffic_rule networks cm rs tr)"
    unfolding add_traffic_rule_def Let_def using rs tr by simp
qed

text \<open>Every known device that an enabled policy names, by MAC or by IP, on either side, is listed as
  exactly one device exception, and no other device is.\<close>

lemma device_exceptions_exact:
  "length (filter (\<lambda>r. er_type r = DeviceException)
      (buildExplicitRoutes portforward trafficrule rules policies networks clientMap clients))
    = card (policy_refs clients policies)"
proof -
  let ?r3 = "foldl (add_allow_rule networks clientMap) (foldl (add_traffic_rule networks clientMap)
      (foldl (add_port_forward clientMap) [] portforward) trafficrule) rules"
  let ?st = "foldl (add_policy_devices networks clients) ([], ?r3) policies"
  have "no_exceptions []" by (simp add: no_exceptions_def)
  then have r3: "no_exceptions ?r3"
    by (intro foldl_keeps [where P = no_exceptions] no_exceptions_steps)
  from policies_grow [of clients policies "([], ?r3)" networks]
  obtain new where st: "distinct (fst ?st)" "set (fst ?st) = policy_refs clients policies"
    "snd ?st = ?r3 @ new" "\<forall>r \<in> set new. er_type r = DeviceException" "length (fst ?st) = length new"
    by (auto simp: exceptions_grow_def)
  have "filter (\<lambda>r. er_type r = DeviceException) new = new" using st(4) by (simp add: filter_id_conv)
  then have "length (filter (\<lambda>r. er_type r = DeviceException) (snd ?st)) = length new"
    using st(3) r3 by (simp add: no_exceptions_def)
  then show ?thesis
    unfolding buildExplicitRoutes_def Let_def using st distinct_card [OF st(1)] by simp
qed

section \<open>The whole analysis\<close>

lemma wan_node_id: "nn_id wan_node = ''WAN''"
  by (simp add: wan_node_def)

text \<open>The connections of an analysis: when the network identifiers are distinct, have no colon and are
  not \<open>WAN\<close>, there is exactly one connection for every ordered pair of different networks and one from
  every network to the Internet, none from it, and the last one is allowed exactly when no enabled
  drop or reject rule of a WAN rule set names the network.\<close>

lemma analysis_connections:
  assumes "plain_ids (buildNetworkNodes (map read_network (extractArray config ''networkconf'')))"
    and "''WAN'' \<notin> nn_id ` set (buildNetworkNodes (map read_network (extractArray config ''networkconf'')))"
  shows "let a = analyzeTopology cmp config profile;
             ids = nn_id ` (set (ta_networks a) - {wan_node}) in
    distinct (map (\<lambda>c. (co_srcId c, co_dstId c)) (ta_connections a)) \<and>
    (\<lambda>c. (co_srcId c, co_dstId c)) ` set (ta_connections a) =
      {(s, d). s \<in> ids \<and> (d \<in> ids \<and> s \<noteq> d \<or> d = ''WAN'')} \<and>
    (\<forall>c \<in> set (ta_connections a). co_dstId c = ''WAN'' \<longrightarrow>
      (\<exists>n \<in> set (ta_networks a). nn_id n = co_srcId c \<and>
        (co_allowed c \<longleftrightarrow> (\<forall>r \<in> set (map read_rule (extractArray config ''firewallrule'')). \<not> wan_block n r))))"
proof -
  let ?ns = "buildNetworkNodes (map read_network (extractArray config ''networkconf''))"
  let ?rs = "map read_rule (extractArray config ''firewallrule'')"
  let ?a = "analyzeTopology cmp config profile"
  let ?id = "\<lambda>c. (co_srcId c, co_dstId c)"
  obtain cs where a: "ta_networks ?a = ?ns @ [wan_node]" "ta_connections ?a = cs @ buildWanConnections ?ns ?rs"
    and cs: "\<exists>ps. cs = map (\<lambda>(s, d). connection_of profile ps s d) (network_pairs ?ns)"
    by (auto simp: analyzeTopology_def Let_def buildConnections_def)
  have cs_ids: "map ?id cs = map (\<lambda>(s, d). (nn_id s, nn_id d)) (network_pairs ?ns)"
    using cs by (auto simp: connection_of_def Let_def)
  have wan: "map ?id (buildWanConnections ?ns ?rs) = map (\<lambda>n. (nn_id n, ''WAN'')) ?ns"
    by (simp add: buildWanConnections_def wan_connection_def Let_def)
  have wn: "wan_node \<notin> set ?ns" using assms(2) by (metis imageI wan_node_id)
  have ids: "nn_id ` (set (ta_networks ?a) - {wan_node}) = nn_id ` set ?ns"
    using wn by (simp add: a(1))
  have pairs: "(\<lambda>(s, d). (nn_id s, nn_id d)) ` set (network_pairs ?ns)
      = {(s, d). s \<in> nn_id ` set ?ns \<and> d \<in> nn_id ` set ?ns \<and> s \<noteq> d}"
    by (force simp: set_network_pairs)
  have set_ids: "?id ` set (ta_connections ?a) = set (map ?id cs) \<union> set (map ?id (buildWanConnections ?ns ?rs))"
    by (simp add: a(2) image_Un)
  have "distinct (map ?id (ta_connections ?a))"
    using distinct_network_pairs [OF assms(1)] assms pairs
    unfolding a(2) map_append cs_ids wan by (auto simp: plain_ids_def distinct_map inj_on_def set_network_pairs)
  moreover have "?id ` set (ta_connections ?a) =
      {(s, d). s \<in> nn_id ` set ?ns \<and> (d \<in> nn_id ` set ?ns \<and> s \<noteq> d \<or> d = ''WAN'')}"
    unfolding set_ids cs_ids wan using pairs by auto
  moreover have "\<exists>n \<in> set (ta_networks ?a). nn_id n = co_srcId c \<and> (co_allowed c \<longleftrightarrow> (\<forall>r \<in> set ?rs. \<not> wan_block n r))"
    if c: "c \<in> set (ta_connections ?a)" "co_dstId c = ''WAN''" for c
  proof -
    have "c \<notin> set cs"
    proof
      assume "c \<in> set cs"
      then have "?id c \<in> set (map ?id cs)" by simp
      then have "co_dstId c \<in> nn_id ` set ?ns" unfolding cs_ids set_map pairs by simp
      with c(2) assms(2) show False by simp
    qed
    with c(1) obtain n where "n \<in> set ?ns" "c = wan_connection ?rs n"
      by (auto simp: a(2) buildWanConnections_def)
    then show ?thesis by (intro bexI [of _ n]) (auto simp: wan_connection_def Let_def a(1))
  qed
  ultimately show ?thesis unfolding Let_def ids by blast
qed

lemma analysis_connections_witness:
  "let a = analyzeTopology (\<lambda>_ _. 0) [(''networks'', JArr [JObj [(''_id'', JStr ''n1'')]])] None in
   (\<lambda>c. (co_srcId c, co_dstId c)) ` set (ta_connections a) = {(''n1'', ''WAN'')}"
proof -
  let ?config = "[(''networks'', JArr [JObj [(''_id'', JStr ''n1'')]])]"
  define ns where "ns = buildNetworkNodes (map read_network (extractArray ?config ''networkconf''))"
  have ids: "map nn_id ns = [''n1'']" unfolding ns_def by code_simp
  then obtain n where n: "ns = [n]" "nn_id n = ''n1''" by auto
  have p: "plain_ids ns" "''WAN'' \<notin> nn_id ` set ns" by (simp_all add: n plain_ids_def)
  have net: "ta_networks (analyzeTopology (\<lambda>_ _. 0) ?config None) = ns @ [wan_node]"
    by (simp add: analyzeTopology_def Let_def ns_def)
  have "n \<noteq> wan_node" using n(2) wan_node_id by auto
  then have "{n, wan_node} - {wan_node} = {n}" by blast
  then have "nn_id ` (set (ta_networks (analyzeTopology (\<lambda>_ _. 0) ?config None)) - {wan_node}) = {''n1''}"
    using n by (auto simp: net)
  with analysis_connections [OF p [unfolded ns_def], of "\<lambda>_ _. 0" None] show ?thesis
    by (auto simp: Let_def)
qed

end
