(* ===== verification/Reachability.thy ===== *)
theory Reachability
  imports Topology_Devices
begin

text \<open>
  \<open>services/reachabilityPolicyService.ts\<close>: what the intent profile expects between two networks, what
  the configuration of the controller does, and the decision that joins the two.
\<close>

section \<open>Categories\<close>

definition inferCategoryFromName :: "string \<Rightarrow> category" where
  "inferCategoryFromName name =
     (let lower = to_lower (js_trim name) in
      if str_includes ''iot'' lower then CIot
      else if str_includes ''guest'' lower then CGuest
      else if str_includes ''work'' lower then CWork
      else if str_includes ''trusted'' lower then CTrusted
      else if str_includes ''home'' lower then CHome
      else if str_includes ''nas'' lower then CNas
      else if str_includes ''server'' lower then CServer
      else CDefault)"

record policy_network =
  pn_id :: string
  pn_name :: string

definition network_category :: "network_mappings \<Rightarrow> policy_network \<Rightarrow> category" where
  "network_category m n =
     (let i = Some (pn_id n) in
      if nm_work m = i then CWork
      else if nm_iot m = i then CIot
      else if nm_guest m = i then CGuest
      else if nm_trusted m = i then CTrusted
      else if nm_nas m = i then CNas
      else if nm_server m = i then CServer
      else inferCategoryFromName (pn_name n))"

definition profile_mappings :: "intent_profile option \<Rightarrow> network_mappings" where
  "profile_mappings profile = dflt no_mappings (Option.bind profile ip_networkMappings)"

definition buildCategoryMap :: "policy_network list \<Rightarrow> intent_profile option \<Rightarrow> (string \<times> category) list" where
  "buildCategoryMap networks profile =
     om_of (map (\<lambda>n. (pn_id n, network_category (profile_mappings profile) n))
              (filter (\<lambda>n. pn_id n \<noteq> []) networks))"

section \<open>The expectation of the intent\<close>

datatype expectation = ExAllow | ExBlock | ExUnknown

fun ex_text :: "expectation \<Rightarrow> string" where
  "ex_text ExAllow = ''allow''"
| "ex_text ExBlock = ''block''"
| "ex_text ExUnknown = ''unknown''"

type_synonym intent_step = "expectation \<times> string"

definition default_step :: "intent_profile \<Rightarrow> intent_step" where
  "default_step p =
     (if ip_interVlanDefault p = DenyAll then (ExBlock, ''Inter-VLAN default policy is deny.'')
      else (ExAllow, ''Inter-VLAN default policy is allow.''))"

definition iot_step :: "category \<Rightarrow> category \<Rightarrow> intent_profile \<Rightarrow> intent_step \<Rightarrow> intent_step" where
  "iot_step s t p r =
     (if ip_hasIoT p \<and> ip_iotIsolation p \<and> (s = CIot \<or> t = CIot)
      then (ExBlock, ''IoT isolation requires blocking traffic to/from IoT.'') else r)"

definition guest_step :: "category \<Rightarrow> category \<Rightarrow> intent_profile \<Rightarrow> intent_step \<Rightarrow> intent_step" where
  "guest_step s t p r =
     (if ip_guestNetwork p \<and> ip_guestIsolation p \<and> (s = CGuest \<or> t = CGuest)
      then (ExBlock, ''Guest isolation requires blocking traffic to/from Guest.'') else r)"

definition work_step :: "category \<Rightarrow> category \<Rightarrow> intent_profile \<Rightarrow> intent_step \<Rightarrow> intent_step" where
  "work_step s t p r =
     (if ip_workFromHome p \<and> ip_workDeviceIsolation p \<and> (s = CWork \<or> t = CWork) then
        (if dflt Phased (ip_workIsolationMode p) = Strict
         then (ExBlock, ''WORK strict mode blocks Work to/from all non-Work categories.'')
         else (let other = (if s = CWork then t else s) in
               if other \<in> {CIot, CGuest} then (ExBlock, ''WORK phased mode blocks Work to/from IoT and Guest.'')
               else if other \<in> {CTrusted, CHome, CNas, CServer, CDefault}
               then (ExAllow, ''WORK phased mode allows Work to/from Trusted, NAS, and Server paths.'')
               else r))
      else r)"

definition nas_step :: "category \<Rightarrow> category \<Rightarrow> intent_profile \<Rightarrow> intent_step \<Rightarrow> intent_step" where
  "nas_step s t p r =
     (if t = CNas then
        (case ip_nasAccessibleFrom p of
           NasAll \<Rightarrow> (ExAllow, ''NAS access policy allows all networks.'')
         | NasTrusted \<Rightarrow>
             (if s = CTrusted \<or> s = CHome then (ExAllow, ''NAS policy allows trusted/home network access.'')
              else (ExBlock, ''NAS policy limits access to trusted/home networks.''))
         | NasSpecific \<Rightarrow>
             (ExUnknown, ''NAS policy is specific_vlans and requires explicit override mappings.''))
      else r)"

definition matches_override :: "category \<Rightarrow> category \<Rightarrow> reachability_override \<Rightarrow> bool" where
  "matches_override s t ov \<longleftrightarrow> ro_source ov = s \<and> ro_target ov = t"

definition computeIntentExpectation :: "category \<Rightarrow> category \<Rightarrow> intent_profile option \<Rightarrow> intent_step" where
  "computeIntentExpectation s t profile =
     (case profile of
        None \<Rightarrow> (ExUnknown, ''No intent profile configured.'')
      | Some p \<Rightarrow>
          (case find (matches_override s t) (dflt [] (ip_reachabilityOverrides p)) of
             Some ov \<Rightarrow> (if ro_allow ov then ExAllow else ExBlock,
                          str_dflt (ro_reason ov) ''Matched explicit policy override.'')
           | None \<Rightarrow>
               if s = t then (ExAllow, ''Same network category path.'')
               else nas_step s t p (work_step s t p (guest_step s t p (iot_step s t p (default_step p))))))"

section \<open>The effective behaviour\<close>

record effective_evidence =
  ee_expected :: expectation
  ee_reason :: string
  ee_explicit :: bool

definition describeRule :: "connection \<Rightarrow> string \<times> bool" where
  "describeRule c =
     (case co_rules c of
        [] \<Rightarrow> ([], False)
      | r # _ \<Rightarrow>
          (let name = (if ri_name r = [] then ''Unnamed UniFi rule'' else ri_name r);
               ruleset = (if truthy (ri_ruleset r) then '' ('' @ the (ri_ruleset r) else []);
               ruleIndex = (case ri_ruleIndex r of Some q \<Rightarrow> '' #'' @ show_number q | None \<Rightarrow> []);
               suffix = (if ruleset \<noteq> [] then ruleset @ ruleIndex @ '')''
                         else if ruleIndex \<noteq> [] then '' ('' @ js_trim ruleIndex @ '')'' else [])
           in (js_trim (name @ suffix), True)))"

definition connection_evidence :: "connection \<Rightarrow> effective_evidence" where
  "connection_evidence c =
     (case describeRule c of (description, explicit) \<Rightarrow>
        if co_allowed c then
          (if explicit then
             \<lparr>ee_expected = ExAllow, ee_reason = ''Allowed by UniFi policy/rule '' @ description @ ''.'', ee_explicit = True\<rparr>
           else if co_allowedByDefault c then
             \<lparr>ee_expected = ExAllow,
              ee_reason = ''No matching deny/isolation rule found; path is effectively allowed by default.'',
              ee_explicit = False\<rparr>
           else
             \<lparr>ee_expected = ExAllow,
              ee_reason = ''Path is effectively allowed based on inferred UniFi behavior.'', ee_explicit = False\<rparr>)
        else if co_blockedByIsolation c then
          \<lparr>ee_expected = ExBlock,
           ee_reason = ''Blocked by UniFi network isolation'' @
             (if truthy (co_isolationSource c) then '' on '' @ the (co_isolationSource c) else []) @ ''.'',
           ee_explicit = True\<rparr>
        else if explicit then
          \<lparr>ee_expected = ExBlock, ee_reason = ''Blocked by UniFi policy/rule '' @ description @ ''.'', ee_explicit = True\<rparr>
        else
          \<lparr>ee_expected = ExBlock,
           ee_reason = ''Path is effectively blocked based on inferred UniFi behavior.'', ee_explicit = False\<rparr>)"

definition buildEffectiveReachabilityMap ::
  "(string \<Rightarrow> string \<Rightarrow> int) \<Rightarrow> (string \<times> json) list option \<Rightarrow> intent_profile option \<Rightarrow>
   (string \<times> effective_evidence) list" where
  "buildEffectiveReachabilityMap cmp config profile =
     (case config of
        None \<Rightarrow> []
      | Some cfg \<Rightarrow>
          om_of (map (\<lambda>c. (pair_key (co_srcId c) (co_dstId c), connection_evidence c))
            (filter (\<lambda>c. \<not> (co_dstId c = ''WAN'' \<or> co_srcId c = ''WAN''))
              (ta_connections (analyzeTopology cmp cfg profile)))))"

section \<open>The decision\<close>

datatype policy_source = FromIntent | FromEffective | Hybrid | Conflicting

record decision =
  ds_source :: string
  ds_target :: string
  ds_sourceCategory :: category
  ds_targetCategory :: category
  ds_expected :: expectation
  ds_intentExpected :: expectation
  ds_effectiveExpected :: expectation
  ds_conflict :: bool
  ds_confidence :: rat
  ds_reason :: string
  ds_intentReason :: string
  ds_effectiveReason :: string
  ds_effectiveExplicit :: bool
  ds_policySource :: policy_source

definition toDecision ::
  "string \<Rightarrow> string \<Rightarrow> category \<Rightarrow> category \<Rightarrow> intent_step \<Rightarrow> effective_evidence option \<Rightarrow> decision" where
  "toDecision src dst sc tc intent evidence =
     (let ie = fst intent; ir = snd intent;
          ee = (case evidence of None \<Rightarrow> ExUnknown | Some e \<Rightarrow> ee_expected e);
          er = str_dflt (map_option ee_reason evidence) ''No inferred effective policy evidence.'';
          ex = (case evidence of None \<Rightarrow> False | Some e \<Rightarrow> ee_explicit e);
          mk = (\<lambda>expected conflict confidence reason source.
            \<lparr>ds_source = src, ds_target = dst, ds_sourceCategory = sc, ds_targetCategory = tc,
             ds_expected = expected, ds_intentExpected = ie, ds_effectiveExpected = ee, ds_conflict = conflict,
             ds_confidence = confidence, ds_reason = reason, ds_intentReason = ir, ds_effectiveReason = er,
             ds_effectiveExplicit = ex, ds_policySource = source\<rparr>)
      in if ie \<noteq> ExUnknown \<and> ee \<noteq> ExUnknown \<and> ie \<noteq> ee then
           mk ie True (45 / 100)
             (''Intent expects '' @ ex_text ie @ '' ('' @ ir @ ''), but inferred UniFi behavior is '' @ ex_text ee @
              '' ('' @ er @ '').'') Conflicting
         else if ie \<noteq> ExUnknown \<and> ee \<noteq> ExUnknown then
           mk ie False (95 / 100) (ir @ '' Effective UniFi behavior agrees: '' @ er) Hybrid
         else if ie \<noteq> ExUnknown then mk ie False (72 / 100) ir FromIntent
         else if ee \<noteq> ExUnknown then
           mk ee False (7 / 10) (''Derived from inferred UniFi effective policy: '' @ er) FromEffective
         else mk ExUnknown False (2 / 10) ''No intent or effective policy evidence for this path.'' Hybrid)"

record evaluator =
  ev_profile :: "intent_profile option"
  ev_categories :: "(string \<times> category) list"
  ev_effective :: "(string \<times> effective_evidence) list"

definition createReachabilityPolicyEvaluator ::
  "(string \<Rightarrow> string \<Rightarrow> int) \<Rightarrow> (string \<times> json) list option \<Rightarrow> intent_profile option \<Rightarrow> policy_network list \<Rightarrow>
   evaluator" where
  "createReachabilityPolicyEvaluator cmp config profile networks =
     \<lparr>ev_profile = profile, ev_categories = buildCategoryMap networks profile,
      ev_effective = buildEffectiveReachabilityMap cmp config profile\<rparr>"

definition getCategory :: "evaluator \<Rightarrow> string \<Rightarrow> category" where
  "getCategory e i = dflt CDefault (om_get (ev_categories e) i)"

definition evaluate :: "evaluator \<Rightarrow> string \<Rightarrow> string \<Rightarrow> decision" where
  "evaluate e src dst =
     (let sc = getCategory e src; tc = getCategory e dst in
      toDecision src dst sc tc (computeIntentExpectation sc tc (ev_profile e))
        (om_get (ev_effective e) (pair_key src dst)))"

section \<open>Properties\<close>

text \<open>The verdict of the profile as a list of rules, the first that applies deciding.\<close>

definition intent_spec :: "category \<Rightarrow> category \<Rightarrow> intent_profile \<Rightarrow> expectation" where
  "intent_spec s t p =
     (let work = ip_workFromHome p \<and> ip_workDeviceIsolation p \<and> CWork \<in> {s, t} in
      if \<exists>ov \<in> set (dflt [] (ip_reachabilityOverrides p)). ro_source ov = s \<and> ro_target ov = t then
        (if ro_allow (hd (filter (\<lambda>ov. ro_source ov = s \<and> ro_target ov = t) (dflt [] (ip_reachabilityOverrides p))))
         then ExAllow else ExBlock)
      else if s = t then ExAllow
      else if t = CNas \<and> ip_nasAccessibleFrom p = NasAll then ExAllow
      else if t = CNas \<and> ip_nasAccessibleFrom p = NasTrusted then (if s \<in> {CTrusted, CHome} then ExAllow else ExBlock)
      else if t = CNas then ExUnknown
      else if work \<and> (ip_workIsolationMode p = Some Strict \<or> s \<in> {CIot, CGuest} \<or> t \<in> {CIot, CGuest}) then ExBlock
      else if work then ExAllow
      else if ip_guestNetwork p \<and> ip_guestIsolation p \<and> CGuest \<in> {s, t} then ExBlock
      else if ip_hasIoT p \<and> ip_iotIsolation p \<and> CIot \<in> {s, t} then ExBlock
      else if ip_interVlanDefault p = DenyAll then ExBlock
      else ExAllow)"

lemma find_filter: "find P xs = (case filter P xs of [] \<Rightarrow> None | x # _ \<Rightarrow> Some x)"
  by (induction xs) auto

text \<open>The expectation between two categories, in order of precedence: an override of the user, the same
  category, the NAS policy for a NAS target, work isolation, guest isolation, IoT isolation, and the
  default between networks.  So a NAS open to all is reachable from an isolated guest network.\<close>

lemma intent_precedence:
  "fst (computeIntentExpectation s t profile) =
     (case profile of None \<Rightarrow> ExUnknown | Some p \<Rightarrow> intent_spec s t p)"
proof (cases profile)
  case None
  then show ?thesis by (simp add: computeIntentExpectation_def)
next
  case (Some p)
  let ?ovs = "dflt [] (ip_reachabilityOverrides p)"
  let ?own = "filter (matches_override s t) ?ovs"
  have own: "filter (\<lambda>ov. ro_source ov = s \<and> ro_target ov = t) ?ovs = ?own"
    by (rule filter_cong) (simp_all add: matches_override_def)
  have ex: "(\<exists>ov \<in> set ?ovs. ro_source ov = s \<and> ro_target ov = t) \<longleftrightarrow> ?own \<noteq> []"
    by (auto simp: filter_empty_conv matches_override_def)
  have strict: "dflt Phased (ip_workIsolationMode p) = Strict \<longleftrightarrow> ip_workIsolationMode p = Some Strict"
    by (auto simp: dflt_def split: option.split)
  show ?thesis
  proof (cases ?own)
    case Nil
    have "s \<noteq> t \<Longrightarrow> fst (nas_step s t p (work_step s t p (guest_step s t p (iot_step s t p (default_step p))))) = intent_spec s t p"
      unfolding intent_spec_def ex own using Nil
      by (cases s; cases t)
        (simp_all add: nas_step_def work_step_def guest_step_def iot_step_def default_step_def strict Let_def
          split: nas_access.split)
    moreover have "s = t \<Longrightarrow> intent_spec s t p = ExAllow"
      unfolding intent_spec_def ex own using Nil by (simp add: Let_def)
    ultimately show ?thesis
      using Some Nil by (simp add: computeIntentExpectation_def find_filter)
  next
    case (Cons ov rest)
    then show ?thesis
      unfolding intent_spec_def ex own using Some
      by (simp add: computeIntentExpectation_def find_filter Let_def own ex intent_spec_def)
  qed
qed

text \<open>A decision is a conflict exactly when intent and configuration both say something and disagree; it
  then follows the intent.  Otherwise it follows whichever is known.  The confidence ranks agreement
  above intent alone, above configuration alone, above conflict, above no evidence.\<close>

lemma decision_rules:
  "let d = toDecision src dst sc tc intent ev;
       ie = fst intent; ee = (case ev of None \<Rightarrow> ExUnknown | Some e \<Rightarrow> ee_expected e) in
   ds_conflict d = (ie \<noteq> ExUnknown \<and> ee \<noteq> ExUnknown \<and> ie \<noteq> ee) \<and>
   (ds_policySource d = Conflicting \<longleftrightarrow> ds_conflict d) \<and>
   ds_expected d = (if ie \<noteq> ExUnknown then ie else ee) \<and>
   ds_intentExpected d = ie \<and> ds_effectiveExpected d = ee \<and>
   ds_confidence d =
     (if ds_conflict d then 45 / 100 else if ie \<noteq> ExUnknown \<and> ee \<noteq> ExUnknown then 95 / 100
      else if ie \<noteq> ExUnknown then 72 / 100 else if ee \<noteq> ExUnknown then 7 / 10 else 2 / 10)"
  by (simp add: toDecision_def Let_def)

lemma evidence_expected: "ee_expected (connection_evidence c) = (if co_allowed c then ExAllow else ExBlock)"
  by (simp add: connection_evidence_def split: prod.split)

lemma reported:
  "ds_effectiveExpected (evaluate e s d) =
     (case om_get (ev_effective e) (pair_key s d) of None \<Rightarrow> ExUnknown | Some x \<Rightarrow> ee_expected x)"
  by (simp add: evaluate_def Let_def toDecision_def)

lemma connection_ids [simp]:
  "co_srcId (connection_of profile ps a b) = nn_id a" "co_dstId (connection_of profile ps a b) = nn_id b"
  by (simp_all add: connection_of_def Let_def)

text \<open>The connections of an analysis between networks, and the evidence they become.\<close>

lemma analysis_lan:
  fixes config profile cmp
  defines "nets \<equiv> buildNetworkNodes (map read_network (extractArray config ''networkconf''))"
  defines "cs \<equiv> ta_connections (analyzeTopology cmp config profile)"
  assumes "''WAN'' \<notin> nn_id ` set nets"
  obtains ps where "filter (\<lambda>c. \<not> (co_dstId c = ''WAN'' \<or> co_srcId c = ''WAN'')) cs =
      map (\<lambda>p. connection_of profile ps (fst p) (snd p)) (network_pairs nets)"
    and "\<And>c. c \<in> set cs \<Longrightarrow> co_dstId c \<noteq> ''WAN'' \<Longrightarrow>
      \<exists>p \<in> set (network_pairs nets). c = connection_of profile ps (fst p) (snd p)"
proof -
  let ?wan = "buildWanConnections nets (map read_rule (extractArray config ''firewallrule''))"
  have "\<exists>ps. cs = map (\<lambda>p. connection_of profile ps (fst p) (snd p)) (network_pairs nets) @ ?wan"
    unfolding cs_def nets_def analyzeTopology_def Let_def buildConnections_def split_def topology_analysis.select_convs
    by (rule exI, rule refl)
  then obtain ps where cs: "cs = map (\<lambda>p. connection_of profile ps (fst p) (snd p)) (network_pairs nets) @ ?wan"
    by blast
  have wan: "c \<in> set ?wan \<Longrightarrow> co_dstId c = ''WAN''" for c
    by (auto simp: buildWanConnections_def wan_connection_def Let_def)
  have "nn_id (fst p) \<noteq> ''WAN'' \<and> nn_id (snd p) \<noteq> ''WAN''" if "p \<in> set (network_pairs nets)" for p
    using that assms(3) unfolding network_pairs_mem by (metis imageI)
  then have "filter (\<lambda>c. \<not> (co_dstId c = ''WAN'' \<or> co_srcId c = ''WAN'')) cs =
      map (\<lambda>p. connection_of profile ps (fst p) (snd p)) (network_pairs nets)"
    unfolding cs filter_append using wan by (simp add: filter_True filter_empty_conv)
  moreover have "\<exists>p \<in> set (network_pairs nets). c = connection_of profile ps (fst p) (snd p)"
    if "c \<in> set cs" "co_dstId c \<noteq> ''WAN''" for c
    using that wan unfolding cs by auto
  ultimately show ?thesis by (rule that)
qed

lemma effective_map:
  fixes config profile
  defines "nets \<equiv> buildNetworkNodes (map read_network (extractArray config ''networkconf''))"
  assumes plain: "plain_ids nets" and wan: "''WAN'' \<notin> nn_id ` set nets"
  obtains ps where "\<And>a b. a \<in> set nets \<Longrightarrow> b \<in> set nets \<Longrightarrow> nn_id a \<noteq> nn_id b \<Longrightarrow>
      om_get (buildEffectiveReachabilityMap cmp (Some config) profile) (pair_key (nn_id a) (nn_id b)) =
        Some (connection_evidence (connection_of profile ps a b))"
    and "\<And>src dst. CHR '':'' \<notin> set dst \<Longrightarrow> \<not> (src \<in> nn_id ` set nets \<and> dst \<in> nn_id ` set nets \<and> src \<noteq> dst) \<Longrightarrow>
      om_get (buildEffectiveReachabilityMap cmp (Some config) profile) (pair_key src dst) = None"
    and "\<And>c. c \<in> set (ta_connections (analyzeTopology cmp config profile)) \<Longrightarrow> co_dstId c \<noteq> ''WAN'' \<Longrightarrow>
      \<exists>p \<in> set (network_pairs nets). c = connection_of profile ps (fst p) (snd p)"
proof -
  obtain ps where lan: "filter (\<lambda>c. \<not> (co_dstId c = ''WAN'' \<or> co_srcId c = ''WAN''))
      (ta_connections (analyzeTopology cmp config profile)) =
      map (\<lambda>p. connection_of profile ps (fst p) (snd p)) (network_pairs nets)"
    and cs: "\<And>c. c \<in> set (ta_connections (analyzeTopology cmp config profile)) \<Longrightarrow> co_dstId c \<noteq> ''WAN'' \<Longrightarrow>
      \<exists>p \<in> set (network_pairs nets). c = connection_of profile ps (fst p) (snd p)"
    using analysis_lan [of config cmp profile thesis] wan unfolding nets_def by blast
  let ?key = "\<lambda>p. pair_key (nn_id (fst p)) (nn_id (snd p))"
  let ?val = "\<lambda>p. connection_evidence (connection_of profile ps (fst p) (snd p))"
  have map: "buildEffectiveReachabilityMap cmp (Some config) profile
      = om_of (map (\<lambda>p. (?key p, ?val p)) (network_pairs nets))"
    unfolding buildEffectiveReachabilityMap_def option.case lan by (simp add: o_def)
  have "om_get (buildEffectiveReachabilityMap cmp (Some config) profile) (?key (a, b)) = Some (?val (a, b))"
    if ab: "a \<in> set nets" "b \<in> set nets" "nn_id a \<noteq> nn_id b" for a b
    unfolding map
  proof (rule om_get_of_map [where key = ?key and val = ?val])
    show "(a, b) \<in> set (network_pairs nets)" using ab by (simp add: set_network_pairs)
    show "?val p = ?val (a, b)" if p: "p \<in> set (network_pairs nets)" "?key p = ?key (a, b)" for p
    proof -
      have "p = (a, b)"
        using p ab pair_key_nodes [OF plain, of "snd p" b] node_of_id [OF plain, of "fst p" a]
        by (auto simp: network_pairs_mem prod_eq_iff)
      then show ?thesis by simp
    qed
  qed
  moreover have "om_get (buildEffectiveReachabilityMap cmp (Some config) profile) (pair_key src dst) = None"
    if "CHR '':'' \<notin> set dst" "\<not> (src \<in> nn_id ` set nets \<and> dst \<in> nn_id ` set nets \<and> src \<noteq> dst)" for src dst
    unfolding map
  proof (rule om_get_of_map_None)
    show "pair_key src dst \<notin> ?key ` set (network_pairs nets)"
    proof
      assume "pair_key src dst \<in> ?key ` set (network_pairs nets)"
      then obtain a b where "(a, b) \<in> set (network_pairs nets)" "pair_key src dst = pair_key (nn_id a) (nn_id b)" by auto
      with that pair_key_inject [of dst "nn_id b" src "nn_id a"] plain show False
        by (auto simp: plain_ids_def set_network_pairs)
    qed
  qed
  ultimately show ?thesis using cs by (intro that) simp_all
qed

text \<open>C20: the effective behaviour that the evaluator reports for a pair of networks is the verdict of the
  topology analysis for that pair, and it is unknown exactly when there is no such pair.\<close>

theorem evaluator_agrees_with_topology:
  fixes config profile
  defines "nets \<equiv> buildNetworkNodes (map read_network (extractArray config ''networkconf''))"
  assumes "plain_ids nets" and "''WAN'' \<notin> nn_id ` set nets"
  shows "let e = createReachabilityPolicyEvaluator cmp (Some config) profile ns in
    (\<forall>c \<in> set (ta_connections (analyzeTopology cmp config profile)). co_dstId c \<noteq> ''WAN'' \<longrightarrow>
       ds_effectiveExpected (evaluate e (co_srcId c) (co_dstId c)) = (if co_allowed c then ExAllow else ExBlock)) \<and>
    (CHR '':'' \<notin> set dst \<longrightarrow>
       (ds_effectiveExpected (evaluate e src dst) = ExUnknown \<longleftrightarrow>
          \<not> (src \<in> nn_id ` set nets \<and> dst \<in> nn_id ` set nets \<and> src \<noteq> dst)))"
proof -
  let ?m = "buildEffectiveReachabilityMap cmp (Some config) profile"
  define e where "e = createReachabilityPolicyEvaluator cmp (Some config) profile ns"
  have eff: "ev_effective e = ?m" by (simp add: e_def createReachabilityPolicyEvaluator_def)
  obtain ps where found: "\<And>a b. a \<in> set nets \<Longrightarrow> b \<in> set nets \<Longrightarrow> nn_id a \<noteq> nn_id b \<Longrightarrow>
      om_get ?m (pair_key (nn_id a) (nn_id b)) = Some (connection_evidence (connection_of profile ps a b))"
    and none: "\<And>src dst. CHR '':'' \<notin> set dst \<Longrightarrow>
      \<not> (src \<in> nn_id ` set nets \<and> dst \<in> nn_id ` set nets \<and> src \<noteq> dst) \<Longrightarrow> om_get ?m (pair_key src dst) = None"
    and cs: "\<And>c. c \<in> set (ta_connections (analyzeTopology cmp config profile)) \<Longrightarrow> co_dstId c \<noteq> ''WAN'' \<Longrightarrow>
      \<exists>p \<in> set (network_pairs nets). c = connection_of profile ps (fst p) (snd p)"
    using effective_map [of config cmp profile thesis] assms(2,3) unfolding nets_def by blast
  have "ds_effectiveExpected (evaluate e (co_srcId c) (co_dstId c)) = (if co_allowed c then ExAllow else ExBlock)"
    if c: "c \<in> set (ta_connections (analyzeTopology cmp config profile))" "co_dstId c \<noteq> ''WAN''" for c
  proof -
    from cs [OF c] obtain a b where "(a, b) \<in> set (network_pairs nets)" "c = connection_of profile ps a b" by force
    then show ?thesis by (simp add: reported eff found set_network_pairs evidence_expected)
  qed
  moreover have "ds_effectiveExpected (evaluate e src dst) = ExUnknown \<longleftrightarrow>
      \<not> (src \<in> nn_id ` set nets \<and> dst \<in> nn_id ` set nets \<and> src \<noteq> dst)" if "CHR '':'' \<notin> set dst"
  proof (cases "src \<in> nn_id ` set nets \<and> dst \<in> nn_id ` set nets \<and> src \<noteq> dst")
    case True
    then obtain a b where "a \<in> set nets" "b \<in> set nets" "src = nn_id a" "dst = nn_id b" "nn_id a \<noteq> nn_id b" by auto
    with True show ?thesis by (simp add: reported eff found evidence_expected)
  next
    case False
    then show ?thesis using none [OF that False] by (simp add: reported eff)
  qed
  ultimately show ?thesis unfolding Let_def e_def by blast
qed

theorem evaluator_agrees_with_topology_witness:
  "ds_effectiveExpected (evaluate (createReachabilityPolicyEvaluator (\<lambda>_ _. 0)
     (Some [(''networks'', JArr [JObj [(''_id'', JStr ''n1'')]])]) None []) ''n1'' ''n2'') = ExUnknown"
proof -
  let ?config = "[(''networks'', JArr [JObj [(''_id'', JStr ''n1'')]])]"
  define ns where "ns = buildNetworkNodes (map read_network (extractArray ?config ''networkconf''))"
  have "map nn_id ns = [''n1'']" unfolding ns_def by code_simp
  then obtain n where n: "ns = [n]" "nn_id n = ''n1''" by auto
  have p: "plain_ids ns" "''WAN'' \<notin> nn_id ` set ns" by (simp_all add: n plain_ids_def)
  have "''n2'' \<notin> nn_id ` set ns" by (simp add: n)
  with evaluator_agrees_with_topology [OF p [unfolded ns_def], of "\<lambda>_ _. 0" None "[]" "''n2''" "''n1''"]
  show ?thesis by (simp add: Let_def ns_def)
qed

end
