(* ===== verification/Ip_Subnet.thy ===== *)
theory Ip_Subnet
  imports Js_Number "HOL-Library.Word"
begin

text \<open>
  \<open>ipInSubnet\<close> of \<open>services/vlanCoverageService.ts\<close> on 32-bit words: the bitwise operators of JavaScript
  convert to 32 bits, shift counts are taken modulo 32, and a comparison after \<open>>>> 0\<close> is a
  comparison of the words.
\<close>

unbundle bit_operations_syntax

text \<open>\<open>ToInt32\<close>: truncate toward zero and keep the low 32 bits; not-a-number and infinities give 0.\<close>

definition rat_trunc :: "rat \<Rightarrow> int" where
  "rat_trunc q = (if q < 0 then - \<lfloor>- q\<rfloor> else \<lfloor>q\<rfloor>)"

definition to_word32 :: "js_num \<Rightarrow> 32 word" where
  "to_word32 n = (case n of Fin q \<Rightarrow> word_of_int (rat_trunc q) | _ \<Rightarrow> 0)"

definition shl32 :: "32 word \<Rightarrow> int \<Rightarrow> 32 word" where
  "shl32 w k = push_bit (nat (k mod 32)) w"

definition ipToInt :: "string \<Rightarrow> 32 word" where
  "ipToInt ip =
     (case map js_number (split_on CHR ''.'' ip) of
        [a, b, c, d] \<Rightarrow>
          if a = NaN \<or> b = NaN \<or> c = NaN \<or> d = NaN then 0
          else shl32 (to_word32 a) 24 OR shl32 (to_word32 b) 16 OR shl32 (to_word32 c) 8 OR to_word32 d
      | _ \<Rightarrow> 0)"

definition cidr_mask :: "int \<Rightarrow> 32 word" where
  "cidr_mask cidr = (if cidr = 0 then 0 else shl32 (- 1) (32 - cidr))"

definition ipInSubnet :: "string \<Rightarrow> string \<Rightarrow> bool" where
  "ipInSubnet ip subnet =
     (if subnet = [] \<or> ip = [] then False
      else (case split_on CHR ''/'' subnet of
              subnetIp # cidrStr # _ \<Rightarrow>
                if subnetIp = [] \<or> cidrStr = [] then False
                else (case js_parse_int cidrStr of
                        None \<Rightarrow> False
                      | Some cidr \<Rightarrow>
                          ipToInt ip AND cidr_mask cidr = ipToInt subnetIp AND cidr_mask cidr)
            | _ \<Rightarrow> False))"

section \<open>Dotted quads\<close>

definition quad :: "nat \<Rightarrow> nat \<Rightarrow> nat \<Rightarrow> nat \<Rightarrow> string" where
  "quad a b c d = join [CHR ''.''] (map show_nat [a, b, c, d])"

definition quad_val :: "nat \<Rightarrow> nat \<Rightarrow> nat \<Rightarrow> nat \<Rightarrow> nat" where
  "quad_val a b c d = ((a * 256 + b) * 256 + c) * 256 + d"

lemma show_nat_no_char: "\<not> is_digit x \<Longrightarrow> x \<notin> set (show_nat n)"
  using show_nat_digits by blast

lemma split_quad: "split_on CHR ''.'' (quad a b c d) = map show_nat [a, b, c, d]"
  unfolding quad_def
  by (rule split_on_join) (simp_all add: show_nat_no_char is_digit_def)

lemma quad_ne: "quad a b c d \<noteq> []"
  by (simp add: quad_def)

lemma quad_no_slash: "CHR ''/'' \<notin> set (quad a b c d)"
proof -
  have "CHR ''/'' \<notin> set (show_nat n)" for n by (rule show_nat_no_char) (simp add: is_digit_def)
  then show ?thesis by (simp add: quad_def)
qed

lemma octet_word: "n < 256 \<Longrightarrow> to_word32 (js_number (show_nat n)) = of_nat n"
proof -
  assume "n < 256"
  then have "js_number (show_nat n) = Fin (of_nat n)" by (simp add: js_number_show_nat)
  then show ?thesis by (simp add: to_word32_def rat_trunc_def)
qed

lemma octets_or:
  fixes x y :: "32 word"
  assumes "take_bit n y = y"
  shows "push_bit n x OR y = push_bit n x + y"
proof (rule disjunctive_add [symmetric])
  fix k
  show "\<not> bit (push_bit n x) k \<or> \<not> bit y k"
  proof (cases "k < n")
    case False
    then show ?thesis using assms by (metis bit_take_bit_iff)
  qed (simp add: bit_push_bit_iff)
qed

lemma of_nat_small_take_bit: "n < 2 ^ k \<Longrightarrow> k \<le> 32 \<Longrightarrow> take_bit k (of_nat n :: 32 word) = of_nat n"
  by (simp add: take_bit_of_nat take_bit_nat_eq_self flip: of_nat_take_bit)

lemma push_bit_of_nat_word: "push_bit k (of_nat n :: 32 word) = of_nat (n * 2 ^ k)"
  by (simp add: push_bit_eq_mult)

lemma join_octets:
  assumes "n < 2 ^ k" "k \<le> 32"
  shows "push_bit k (of_nat m) OR of_nat n = (of_nat (m * 2 ^ k + n) :: 32 word)"
  using octets_or [OF of_nat_small_take_bit [OF assms], of "of_nat m"] by (simp add: push_bit_of_nat_word)

lemma ipToInt_quad:
  assumes "a < 256" "b < 256" "c < 256" "d < 256"
  shows "ipToInt (quad a b c d) = of_nat (quad_val a b c d)"
proof -
  have num: "js_number (show_nat n) \<noteq> NaN" if "n < 256" for n
    using that by (simp add: js_number_show_nat)
  have "ipToInt (quad a b c d) =
      push_bit 24 (of_nat a) OR (push_bit 16 (of_nat b) OR (push_bit 8 (of_nat c) OR of_nat d))"
    using assms by (simp add: ipToInt_def split_quad num octet_word shl32_def or.assoc)
  also have "push_bit 8 (of_nat c) OR of_nat d = (of_nat (c * 2 ^ 8 + d) :: 32 word)"
    by (rule join_octets) (use assms in simp_all)
  also have "push_bit 16 (of_nat b) OR of_nat (c * 2 ^ 8 + d) = (of_nat (b * 2 ^ 16 + (c * 2 ^ 8 + d)) :: 32 word)"
    by (rule join_octets) (use assms in simp_all)
  also have "push_bit 24 (of_nat a) OR of_nat (b * 2 ^ 16 + (c * 2 ^ 8 + d))
      = (of_nat (a * 2 ^ 24 + (b * 2 ^ 16 + (c * 2 ^ 8 + d))) :: 32 word)"
    by (rule join_octets) (use assms in simp_all)
  also have "a * 2 ^ 24 + (b * 2 ^ 16 + (c * 2 ^ 8 + d)) = quad_val a b c d"
    by (simp add: quad_val_def algebra_simps)
  finally show ?thesis .
qed

lemma quad_val_less: "a < 256 \<Longrightarrow> b < 256 \<Longrightarrow> c < 256 \<Longrightarrow> d < 256 \<Longrightarrow> quad_val a b c d < 2 ^ 32"
  by (simp add: quad_val_def)

text \<open>Masking with a prefix of \<open>k\<close> bits compares the numbers divided by \<open>2 ^ (32 - k)\<close>.\<close>

lemma cidr_mask_nat: "k \<le> 32 \<Longrightarrow> cidr_mask (int k) = (if k = 0 then 0 else push_bit (32 - k) (- 1))"
proof -
  assume k: "k \<le> 32"
  have *: "nat ((32 - int k) mod 32) = 32 - k" if "k \<noteq> 0"
    using k that by (subst mod_pos_pos_trivial) (auto simp: nat_diff_distrib)
  show ?thesis
  proof (cases "k = 0")
    case False
    then show ?thesis by (simp only: cidr_mask_def shl32_def * [OF False]) simp
  qed (simp add: cidr_mask_def)
qed

lemma mask_eq_iff:
  fixes x y :: "32 word"
  assumes "k \<le> 32"
  shows "x AND cidr_mask (int k) = y AND cidr_mask (int k) \<longleftrightarrow> drop_bit (32 - k) x = drop_bit (32 - k) y"
proof (cases "k = 0")
  case True
  have "drop_bit 32 w = 0" for w :: "32 word"
    by (rule bit_eqI) (auto simp: bit_drop_bit_eq dest: bit_imp_le_length)
  with True assms show ?thesis by (simp add: cidr_mask_def)
next
  case False
  have m: "bit (w AND push_bit (32 - k) (- 1)) i \<longleftrightarrow> 32 - k \<le> i \<and> bit w i" for w :: "32 word" and i
    using bit_imp_le_length [of w i] by (auto simp: bit_and_iff bit_not_iff bit_mask_iff push_bit_minus_one_eq_not_mask)
  have "x AND push_bit (32 - k) (- 1) = y AND push_bit (32 - k) (- 1)
      \<longleftrightarrow> (\<forall>i. 32 - k \<le> i \<longrightarrow> bit x i = bit y i)"
  proof
    show "\<forall>i. 32 - k \<le> i \<longrightarrow> bit x i = bit y i"
      if eq: "x AND push_bit (32 - k) (- 1) = y AND push_bit (32 - k) (- 1)"
    proof (intro allI impI)
      show "bit x i = bit y i" if "32 - k \<le> i" for i
        using m [of x i] m [of y i] that unfolding eq by blast
    qed
    show "x AND push_bit (32 - k) (- 1) = y AND push_bit (32 - k) (- 1)"
      if eq: "\<forall>i. 32 - k \<le> i \<longrightarrow> bit x i = bit y i"
      by (rule bit_eqI) (use eq in \<open>auto simp only: m\<close>)
  qed
  also have "\<dots> \<longleftrightarrow> (\<forall>i. bit x (32 - k + i) = bit y (32 - k + i))"
    by (metis le_iff_add)
  also have "\<dots> \<longleftrightarrow> drop_bit (32 - k) x = drop_bit (32 - k) y"
    by (metis (no_types) bit_eqI bit_drop_bit_eq comp_apply)
  finally show ?thesis using False assms by (simp add: cidr_mask_nat)
qed

lemma drop_bit_of_nat_eq:
  assumes "m < 2 ^ 32" "n < 2 ^ 32"
  shows "drop_bit k (of_nat m :: 32 word) = drop_bit k (of_nat n) \<longleftrightarrow> m div 2 ^ k = n div 2 ^ k"
proof -
  have u: "unat (drop_bit k (of_nat l :: 32 word)) = l div 2 ^ k" if "l < 2 ^ 32" for l
    using that by (simp only: unat_drop_bit_eq unat_of_nat) (simp add: drop_bit_eq_div take_bit_nat_eq_self)
  show ?thesis using u [OF assms(1)] u [OF assms(2)] by (metis word_unat_eq_iff)
qed

section \<open>Properties\<close>

definition octets :: "nat list \<Rightarrow> bool" where
  "octets xs \<longleftrightarrow> (\<forall>x \<in> set xs. x < 256)"

text \<open>C34: for two dotted quads and a prefix length of at most 32, \<open>ipInSubnet\<close> says exactly whether the two
  addresses agree in the first bits, as many as the prefix length.\<close>

theorem ipInSubnet_prefix:
  assumes "octets [a, b, c, d]" "octets [e, f, g, h]" "k \<le> 32"
  shows "ipInSubnet (quad a b c d) (quad e f g h @ CHR ''/'' # show_nat k) \<longleftrightarrow>
    quad_val a b c d div 2 ^ (32 - k) = quad_val e f g h div 2 ^ (32 - k)"
proof -
  have slash: "split_on CHR ''/'' (quad e f g h @ CHR ''/'' # show_nat k) = [quad e f g h, show_nat k]"
    by (simp add: split_on_append quad_no_slash split_on_no_sep show_nat_no_char is_digit_def)
  have "ipInSubnet (quad a b c d) (quad e f g h @ CHR ''/'' # show_nat k) \<longleftrightarrow>
      ipToInt (quad a b c d) AND cidr_mask (int k) = ipToInt (quad e f g h) AND cidr_mask (int k)"
    by (simp add: ipInSubnet_def slash quad_ne js_parse_int_show_nat)
  also have "\<dots> \<longleftrightarrow> drop_bit (32 - k) (of_nat (quad_val a b c d) :: 32 word) = drop_bit (32 - k) (of_nat (quad_val e f g h))"
    using assms by (simp add: mask_eq_iff ipToInt_quad octets_def)
  also have "\<dots> \<longleftrightarrow> quad_val a b c d div 2 ^ (32 - k) = quad_val e f g h div 2 ^ (32 - k)"
    using assms by (intro drop_bit_of_nat_eq quad_val_less) (simp_all add: octets_def)
  finally show ?thesis .
qed

theorem ipInSubnet_prefix_witness:
  "ipInSubnet (quad 192 168 2 77) (quad 192 168 2 1 @ CHR ''/'' # show_nat 24)"
  by (subst ipInSubnet_prefix) (simp_all add: octets_def quad_val_def)

lemma ipInSubnet_cong: "ipToInt ip = ipToInt ip' \<Longrightarrow> ip \<noteq> [] \<Longrightarrow> ip' \<noteq> [] \<Longrightarrow> ipInSubnet ip s = ipInSubnet ip' s"
  unfolding ipInSubnet_def by (cases "split_on CHR ''/'' s") (simp_all split: list.split option.split)

text \<open>Every text that is not four dot-separated numbers counts as the address 0.0.0.0, on either side: an
  IPv6 address is in each subnet that is written in IPv6, and in each with prefix length 0.\<close>

lemma not_a_quad_is_zero:
  assumes "length (split_on CHR ''.'' ip) \<noteq> 4" "ip \<noteq> []"
  shows "ipInSubnet ip subnet = ipInSubnet ''0.0.0.0'' subnet \<and>
    ipInSubnet ''fe80::1'' ''2001:db8::1/64''"
proof
  have "ipToInt ip = 0"
    using assms(1) unfolding ipToInt_def by (auto split: list.split)
  moreover have "ipToInt ''0.0.0.0'' = 0" by code_simp
  ultimately show "ipInSubnet ip subnet = ipInSubnet ''0.0.0.0'' subnet"
    using assms(2) by (intro ipInSubnet_cong) simp_all
  show "ipInSubnet ''fe80::1'' ''2001:db8::1/64''" by code_simp
qed

lemma not_a_quad_is_zero_witness: "ipInSubnet ''::1'' ''10.0.0.0/0'' = ipInSubnet ''0.0.0.0'' ''10.0.0.0/0''"
  by (rule not_a_quad_is_zero [THEN conjunct1]) (code_simp, simp)

end
