(* ===== verification/Vlan_Coverage.thy ===== *)
theory Vlan_Coverage
  imports Reachability Ip_Subnet Keyed_Table
begin

text \<open>
  \<open>services/vlanCoverageService.ts\<close>: which networks have a test device, what the last test runs say
  about each network, and when a network is due for another validation.

  The tables are lists of rows in the order the database returns them; a query sorted by completion
  time puts a missing time first, as PostgreSQL does in descending order.  Times are milliseconds.
  An exception of the code is \<open>None\<close>.
\<close>

section \<open>Data\<close>

record vlan_network =
  vw_id :: string
  vw_name :: string
  vw_vlanId :: "rat option"
  vw_subnet :: "string option"
  vw_purpose :: string

datatype device_status = DevOnline | DevOffline | DevTesting | DevUpdating | DevError

record device_row =
  dw_id :: string
  dw_deviceId :: string
  dw_name :: string
  dw_ipAddress :: "string option"
  dw_status :: device_status

datatype test_status = Queued | Running | Completed | TestFailed | Cancelled

record test_run =
  te_id :: string
  te_deviceId :: string
  te_testType :: string
  te_status :: test_status
  te_completedAt :: "int option"
  te_resultsJson :: json

record config_row =
  cf_isActive :: bool
  cf_configJson :: json

record device_mapping =
  dm_mac :: "string option"
  dm_ip :: "string option"
  dm_name :: "string option"

text \<open>The profile as stored: what the topology analyzer reads, and the device mappings.\<close>

record stored_profile = intent_profile +
  sp_nasDevice :: "device_mapping option"
  sp_serverDevice :: "device_mapping option"

record vlan_db =
  vd_devices :: "device_row list"
  vd_testRuns :: "test_run list"
  vd_profile :: "stored_profile option"
  vd_configs :: "config_row list"

datatype source_type = FromEsp32 | FromServerLocal

datatype verdict = Pass | Fail | UnknownVerdict | ConflictVerdict

record reach_result =
  rr_targetVlan :: string
  rr_targetVlanName :: string
  rr_expected :: expectation
  rr_verdict :: verdict
  rr_confidence :: rat
  rr_reason :: string
  rr_evidenceCount :: nat
  rr_evidenceSource :: source_type
  rr_canReach :: bool
  rr_shouldBeBlocked :: bool

record device_reach =
  dh_deviceName :: string
  dh_deviceIp :: json
  dh_canReach :: bool

record vlan_validation =
  vv_lastTestRunId :: string
  vv_lastTestDate :: "int option"
  vv_sourceDeviceId :: "string option"
  vv_sourceType :: source_type
  vv_partialEvidence :: bool
  vv_internetAccess :: "bool option"
  vv_dnsFiltering :: "bool option"
  vv_vlanReachability :: "reach_result list"
  vv_deviceReachability :: "device_reach list"

section \<open>Networks and devices\<close>

definition SERVER_DEVICE_ID :: string where
  "SERVER_DEVICE_ID = ''server-local''"

definition on_subnet :: "string option \<Rightarrow> string option \<Rightarrow> bool" where
  "on_subnet ip subnet \<longleftrightarrow> truthy ip \<and> truthy subnet \<and> ipInSubnet (the ip) (the subnet)"

definition mapDeviceToNetwork :: "string option \<Rightarrow> vlan_network list \<Rightarrow> vlan_network option" where
  "mapDeviceToNetwork ip networks =
     (if \<not> truthy ip \<or> networks = [] then None
      else find (\<lambda>n. truthy (vw_subnet n) \<and> ipInSubnet (the ip) (the (vw_subnet n))) networks)"

definition getIntentCategory :: "string \<Rightarrow> network_mappings option \<Rightarrow> string option" where
  "getIntentCategory i mappings =
     (case mappings of
        None \<Rightarrow> None
      | Some m \<Rightarrow>
          if nm_work m = Some i then Some ''Work''
          else if nm_iot m = Some i then Some ''IoT''
          else if nm_guest m = Some i then Some ''Guest''
          else if nm_trusted m = Some i then Some ''Trusted''
          else if nm_nas m = Some i then Some ''NAS''
          else if nm_server m = Some i then Some ''Server''
          else None)"

section \<open>Names of devices\<close>

text \<open>What \<open>for ... of\<close> sees of a value: the items of an array, the characters of a text, which have
  none of the fields read, or an exception.\<close>

definition js_items :: "json \<Rightarrow> json list option" where
  "js_items j = (case j of JArr xs \<Rightarrow> Some xs | JStr s \<Rightarrow> Some (map (\<lambda>c. JStr [c]) s) | _ \<Rightarrow> None)"

text \<open>The loop over named items: it ends with an exception at a null item, and keeps what it has.\<close>

fun add_names ::
  "((string \<times> json) list \<Rightarrow> string option \<times> string option) \<Rightarrow> (string \<times> string) list \<Rightarrow> json list \<Rightarrow>
   (string \<times> string) list \<times> bool" where
  "add_names entry m [] = (m, True)"
| "add_names entry m (j # js) =
     (if j = JNull then (m, False)
      else case entry (obj_fields j) of (ip, name) \<Rightarrow>
        add_names entry
          (if truthy ip \<and> truthy name \<and> om_get m (the ip) = None then om_set (the ip) (the name) m else m) js)"

definition client_entry :: "(string \<times> json) list \<Rightarrow> string option \<times> string option" where
  "client_entry o' = (str_or (get_str o' ''fixed_ip'') (get_str o' ''ip''), str_or (get_str o' ''name'') (get_str o' ''hostname''))"

definition device_entry :: "(string \<times> json) list \<Rightarrow> string option \<times> string option" where
  "device_entry o' = (get_str o' ''ip'', str_or (get_str o' ''name'') (get_str o' ''model''))"

definition mapped_name :: "device_mapping option \<Rightarrow> string \<Rightarrow> (string \<times> string) list \<Rightarrow> (string \<times> string) list" where
  "mapped_name d fallback m =
     (case d of
        None \<Rightarrow> m
      | Some d \<Rightarrow> if truthy (dm_ip d) then om_set (the (dm_ip d)) (str_dflt (dm_name d) fallback) m else m)"

definition buildDeviceNameMap :: "vlan_db \<Rightarrow> (string \<times> string) list" where
  "buildDeviceNameMap db =
     (let p = vd_profile db;
          m0 = mapped_name (Option.bind p sp_nasDevice) ''NAS'' [];
          m1 = mapped_name (Option.bind p sp_serverDevice) ''Server'' m0
      in case find cf_isActive (vd_configs db) of
           None \<Rightarrow> m1
         | Some c \<Rightarrow>
             if \<not> json_truthy (cf_configJson c) then m1
             else
               (let config = obj_fields (cf_configJson c) in
                case js_items (json_or (json_or (field config ''user'') (field config ''clients'')) (JArr [])) of
                  None \<Rightarrow> m1
                | Some clients \<Rightarrow>
                    (case add_names client_entry m1 clients of
                       (m2, ok) \<Rightarrow>
                         if \<not> ok then m2
                         else (case js_items (json_or (field config ''devices'') (JArr [])) of
                                 None \<Rightarrow> m2
                               | Some devices \<Rightarrow> fst (add_names device_entry m2 devices)))))"

section \<open>Results of a test run\<close>

text \<open>The items of an array that are objects; an array among them has none of the fields read.\<close>

definition object_items :: "json \<Rightarrow> (string \<times> json) list list" where
  "object_items j =
     (case j of
        JArr xs \<Rightarrow> concat (map (\<lambda>x. case x of JObj kvs \<Rightarrow> [kvs] | JArr _ \<Rightarrow> [[]] | _ \<Rightarrow> []) xs)
      | _ \<Rightarrow> [])"

definition getCommandResults :: "(string \<times> json) list \<Rightarrow> (string \<times> json) list list" where
  "getCommandResults o' = object_items (json_or (field o' ''commandResults'') (field o' ''results''))"

definition getExpectedFromTarget :: "(string \<times> json) list \<Rightarrow> expectation" where
  "getExpectedFromTarget target =
     (let e = field target ''expected'' in
      if e = JStr ''allow'' then ExAllow
      else if e = JStr ''block'' then ExBlock
      else if e = JStr ''unknown'' then ExUnknown
      else if field target ''shouldBeBlocked'' = JBool True then ExBlock
      else if field target ''shouldBeBlocked'' = JBool False then ExAllow
      else ExUnknown)"

definition weak_transport :: "(string \<times> json) list \<Rightarrow> bool" where
  "weak_transport o' = (let t = obj_fields (field o' ''transport'') in
     field t ''truncated'' = JBool True \<or> field t ''incomplete'' = JBool True)"

definition run_json :: "test_run \<Rightarrow> (string \<times> json) list" where
  "run_json t = obj_fields (te_resultsJson t)"

section \<open>Which devices and which test runs\<close>

text \<open>\<open>orderBy: completedAt desc\<close>; rows with the same time keep the order of the table.\<close>

definition newest_first :: "test_run list \<Rightarrow> test_run list" where
  "newest_first ts =
     filter (\<lambda>t. te_completedAt t = None) ts @
     sort_key (\<lambda>t. - the (te_completedAt t)) (filter (\<lambda>t. te_completedAt t \<noteq> None) ts)"

definition source_devices :: "device_row list \<Rightarrow> string option \<Rightarrow> (device_row list \<times> source_type) option" where
  "source_devices devices subnet =
     (let onNetwork = filter (\<lambda>d. dw_status d \<in> {DevOnline, DevOffline} \<and> on_subnet (dw_ipAddress d) subnet) devices;
          esp32 = filter (\<lambda>d. dw_deviceId d \<noteq> SERVER_DEVICE_ID) onNetwork
      in if esp32 \<noteq> [] then Some (esp32, FromEsp32)
         else map_option (\<lambda>d. ([d], FromServerLocal)) (find (\<lambda>d. dw_deviceId d = SERVER_DEVICE_ID) onNetwork))"

text \<open>\<open>stored\<close> is how the database layer reads the condition \<open>{ not: { equals: undefined } }\<close> on the results.\<close>

definition completed_runs ::
  "(json \<Rightarrow> bool) \<Rightarrow> test_run list \<Rightarrow> string list \<Rightarrow> string list \<Rightarrow> test_run list" where
  "completed_runs stored runs ids types =
     newest_first
       (filter (\<lambda>t. te_deviceId t \<in> set ids \<and> te_testType t \<in> set types \<and> te_status t = Completed \<and>
          stored (te_resultsJson t)) runs)"

definition connectivity_run :: "(json \<Rightarrow> bool) \<Rightarrow> test_run list \<Rightarrow> string list \<Rightarrow> test_run option" where
  "connectivity_run stored runs ids =
     (case completed_runs stored runs ids [''topology_validation'', ''connectivity''] of
        [] \<Rightarrow> None | t # _ \<Rightarrow> Some t)"

text \<open>Among the eight latest topology runs the first with results over an intact transport, else the
  first with results, else the latest.\<close>

definition has_results :: "test_run \<Rightarrow> bool" where
  "has_results t \<longleftrightarrow> getCommandResults (run_json t) \<noteq> []"

definition pick_topology_run :: "test_run list \<Rightarrow> test_run option" where
  "pick_topology_run candidates =
     (case find (\<lambda>t. has_results t \<and> \<not> weak_transport (run_json t)) candidates of
        Some t \<Rightarrow> Some t
      | None \<Rightarrow>
          (case find has_results candidates of
             Some t \<Rightarrow> Some t
           | None \<Rightarrow> (case candidates of [] \<Rightarrow> None | t # _ \<Rightarrow> Some t)))"

definition topology_run :: "(json \<Rightarrow> bool) \<Rightarrow> test_run list \<Rightarrow> string list \<Rightarrow> test_run option" where
  "topology_run stored runs ids = pick_topology_run (take 8 (completed_runs stored runs ids [''topology_validation'']))"

section \<open>Internet access and DNS filtering\<close>

definition INTERNET_TEST_IPS :: "string list" where
  "INTERNET_TEST_IPS = [''8.8.8.8'', ''1.1.1.1'', ''8.8.4.4'']"

definition result_data :: "(string \<times> json) list \<Rightarrow> (string \<times> json) list" where
  "result_data r = obj_fields (field r ''data'')"

definition is_ping :: "(string \<times> json) list \<Rightarrow> bool" where
  "is_ping r \<longleftrightarrow> field r ''op'' = JStr ''ping'' \<and> json_truthy (field r ''data'')"

definition internet_ping :: "(string \<times> json) list \<Rightarrow> bool" where
  "internet_ping r \<longleftrightarrow> is_ping r \<and> field (result_data r) ''host'' \<in> set (map JStr INTERNET_TEST_IPS)"

text \<open>The search for a ping of an address that ends in \<open>.1\<close>; a host that is neither text nor missing has no
  \<open>endsWith\<close>.\<close>

fun gateway_ping :: "(string \<times> json) list list \<Rightarrow> (string \<times> json) list option option" where
  "gateway_ping [] = Some None"
| "gateway_ping (r # rs) =
     (if \<not> is_ping r then gateway_ping rs
      else case field (result_data r) ''host'' of
             JStr h \<Rightarrow> if ends_with ''.1'' h then Some (Some r) else gateway_ping rs
           | JUndef \<Rightarrow> gateway_ping rs
           | JNull \<Rightarrow> gateway_ping rs
           | _ \<Rightarrow> None)"

definition ping_reachable :: "(string \<times> json) list \<Rightarrow> bool" where
  "ping_reachable r \<longleftrightarrow> field (result_data r) ''reachable'' = JBool True"

definition internet_access :: "(string \<times> json) list list \<Rightarrow> bool option option" where
  "internet_access results =
     (let pings = filter internet_ping results in
      if pings \<noteq> [] then Some (Some (\<exists>r \<in> set pings. ping_reachable r))
      else map_option (map_option ping_reachable) (gateway_ping results))"

definition dns_filtering :: "(string \<times> json) list list \<Rightarrow> bool option" where
  "dns_filtering results =
     (let dns = filter (\<lambda>r. field r ''op'' \<in> {JStr ''dns_resolve'', JStr ''dns_lookup''}) results in
      if dns \<noteq> [] then Some (\<exists>r \<in> set dns. field r ''success'' = JBool True) else None)"

section \<open>Evidence\<close>

record target_info =
  ti_targetNetworkId :: string
  ti_targetNetworkName :: string
  ti_expected :: expectation

definition topology_targets :: "(string \<times> json) list \<Rightarrow> (string \<times> json) list list" where
  "topology_targets o' =
     (let m = obj_fields (json_or (field (get_obj o' ''metadata'') ''topologyMetadata'') (field o' ''topologyMetadata''))
      in object_items (field m ''testTargets''))"

definition target_key :: "string \<Rightarrow> string \<Rightarrow> string" where
  "target_key host port = host @ CHR '':'' # port"

definition or_text :: "json \<Rightarrow> string" where
  "or_text j = js_to_string (json_or j (JStr []))"

definition or_port :: "json \<Rightarrow> string" where
  "or_port j = show_js_num (js_to_number (json_or j (JNum 0)))"

definition target_entry :: "(string \<times> json) list \<Rightarrow> string \<times> target_info" where
  "target_entry t =
     (target_key (or_text (field t ''ip'')) (or_port (field t ''port'')),
      \<lparr>ti_targetNetworkId = str_dflt (get_str t ''targetNetworkId'') [],
       ti_targetNetworkName = str_dflt (get_str t ''network'') ''Unknown'', ti_expected = getExpectedFromTarget t\<rparr>)"

definition targetLookup :: "(string \<times> json) list list \<Rightarrow> (string \<times> target_info) list" where
  "targetLookup targets =
     om_of (filter (\<lambda>e. ti_targetNetworkId (snd e) \<noteq> [] \<or> ti_targetNetworkName (snd e) \<noteq> []) (map target_entry targets))"

record path_evidence =
  pe_evidenceCount :: nat
  pe_reachableCount :: nat
  pe_blockedCount :: nat

definition no_evidence :: path_evidence where
  "no_evidence = \<lparr>pe_evidenceCount = 0, pe_reachableCount = 0, pe_blockedCount = 0\<rparr>"

definition add_evidence :: "bool \<Rightarrow> path_evidence \<Rightarrow> path_evidence" where
  "add_evidence reachable e =
     e\<lparr>pe_evidenceCount := pe_evidenceCount e + 1,
       pe_reachableCount := pe_reachableCount e + (if reachable then 1 else 0),
       pe_blockedCount := pe_blockedCount e + (if reachable then 0 else 1)\<rparr>"

definition upsertEvidence :: "(string \<times> path_evidence) list \<Rightarrow> string \<Rightarrow> bool \<Rightarrow> (string \<times> path_evidence) list" where
  "upsertEvidence m i reachable =
     (if i = [] then m else om_set i (add_evidence reachable (dflt no_evidence (om_get m i))) m)"

text \<open>The network a result speaks about, empty when there is none: the target the test was generated for, else
  the first network whose subnet holds the address.\<close>

definition is_probe :: "(string \<times> json) list \<Rightarrow> bool" where
  "is_probe r \<longleftrightarrow> field r ''op'' \<in> {JStr ''tcp_connect'', JStr ''ping''} \<and> json_truthy (field r ''data'')"

definition probe_host :: "(string \<times> json) list \<Rightarrow> string" where
  "probe_host r = or_text (json_or (field (result_data r) ''host'') (field (result_data r) ''ip''))"

definition probe_reached :: "(string \<times> json) list \<Rightarrow> bool" where
  "probe_reached r \<longleftrightarrow> field (result_data r) ''open'' = JBool True \<or> field (result_data r) ''reachable'' = JBool True"

definition probe_network ::
  "(string \<times> target_info) list \<Rightarrow> vlan_network list \<Rightarrow> (string \<times> json) list \<Rightarrow> string" where
  "probe_network targets networks r =
     (let host = probe_host r;
          target = (case om_get targets (target_key host (or_port (field (result_data r) ''port''))) of
                      Some t \<Rightarrow> Some t | None \<Rightarrow> om_get targets (target_key host ''0''))
      in case target of
           Some t \<Rightarrow> if ti_targetNetworkId t \<noteq> [] then ti_targetNetworkId t
                     else dflt [] (map_option vw_id (find (\<lambda>n. truthy (vw_subnet n) \<and> ipInSubnet host (the (vw_subnet n))) networks))
         | None \<Rightarrow> dflt [] (map_option vw_id (find (\<lambda>n. truthy (vw_subnet n) \<and> ipInSubnet host (the (vw_subnet n))) networks)))"

definition evidence_step ::
  "(string \<times> target_info) list \<Rightarrow> vlan_network list \<Rightarrow> (string \<times> path_evidence) list \<Rightarrow> (string \<times> json) list \<Rightarrow>
   (string \<times> path_evidence) list" where
  "evidence_step targets networks m r =
     (if is_probe r then upsertEvidence m (probe_network targets networks r) (probe_reached r) else m)"

definition evidenceByTarget ::
  "(string \<times> target_info) list \<Rightarrow> vlan_network list \<Rightarrow> (string \<times> json) list list \<Rightarrow> (string \<times> path_evidence) list" where
  "evidenceByTarget targets networks results = foldl (evidence_step targets networks) [] results"

section \<open>The verdict about a path\<close>

definition path_verdict :: "decision \<Rightarrow> path_evidence \<Rightarrow> bool \<Rightarrow> verdict" where
  "path_verdict d e weak =
     (let canReach = 0 < pe_reachableCount e in
      if ds_conflict d then ConflictVerdict
      else if ds_expected d = ExUnknown then UnknownVerdict
      else if pe_evidenceCount e = 0 then UnknownVerdict
      else if weak then UnknownVerdict
      else if ds_expected d = ExAllow then (if canReach then Pass else Fail)
      else (if canReach then Fail else Pass))"

definition path_reason :: "decision \<Rightarrow> path_evidence \<Rightarrow> bool \<Rightarrow> source_type \<Rightarrow> string" where
  "path_reason d e weak src =
     ds_reason d @
     (if ds_conflict d \<or> ds_expected d = ExUnknown then []
      else if pe_evidenceCount e = 0 then '' No topology evidence available for this directional path.''
      else if weak then '' Test transport was truncated or incomplete, so evidence is weak.''
      else []) @
     (if src = FromServerLocal
      then '' Host-based evidence from server-local on this VLAN (directional, partial coverage).'' else [])"

definition raw_confidence :: "decision \<Rightarrow> path_evidence \<Rightarrow> bool \<Rightarrow> source_type \<Rightarrow> rat" where
  "raw_confidence d e weak src =
     (let v = path_verdict d e weak;
          evidenceConfidence = min (98 / 100) (55 / 100 + of_nat (pe_evidenceCount e) * (8 / 100));
          c0 = (if v = UnknownVerdict then min (ds_confidence d) (35 / 100) else max (ds_confidence d) evidenceConfidence);
          c1 = (if weak then min c0 (45 / 100) else c0)
      in if src = FromServerLocal then (if v = UnknownVerdict then min c1 (3 / 10) else min c1 (72 / 100)) else c1)"

definition path_confidence :: "decision \<Rightarrow> path_evidence \<Rightarrow> bool \<Rightarrow> source_type \<Rightarrow> rat" where
  "path_confidence d e weak src = round2 (raw_confidence d e weak src)"

definition reach_result_of ::
  "evaluator \<Rightarrow> string \<Rightarrow> source_type \<Rightarrow> bool \<Rightarrow> (string \<times> path_evidence) list \<Rightarrow> vlan_network \<Rightarrow> reach_result" where
  "reach_result_of ev src st weak evidence target =
     (let d = evaluate ev src (vw_id target);
          e = dflt no_evidence (om_get evidence (vw_id target))
      in \<lparr>rr_targetVlan = vw_id target, rr_targetVlanName = vw_name target, rr_expected = ds_expected d,
          rr_verdict = path_verdict d e weak, rr_confidence = path_confidence d e weak st,
          rr_reason = path_reason d e weak st, rr_evidenceCount = pe_evidenceCount e, rr_evidenceSource = st,
          rr_canReach = 0 < pe_reachableCount e, rr_shouldBeBlocked = (ds_expected d = ExBlock)\<rparr>)"

definition device_reach_of :: "(string \<times> string) list \<Rightarrow> (string \<times> json) list \<Rightarrow> device_reach" where
  "device_reach_of names r =
     (let data = result_data r; host = field data ''host'';
          known = (case host of JStr h \<Rightarrow> om_get names h | _ \<Rightarrow> None)
      in \<lparr>dh_deviceName = str_dflt known (js_to_string host @ CHR '':'' # js_to_string (field data ''port'')),
          dh_deviceIp = host, dh_canReach = (field data ''open'' = JBool True)\<rparr>)"

definition deviceReachability :: "(string \<times> string) list \<Rightarrow> (string \<times> json) list list \<Rightarrow> device_reach list" where
  "deviceReachability names results =
     map (device_reach_of names)
       (filter (\<lambda>r. field r ''op'' = JStr ''tcp_connect'' \<and> json_truthy (field r ''data'')) results)"

section \<open>The validation of a network\<close>

definition validation_of ::
  "vlan_db \<Rightarrow> evaluator \<Rightarrow> vlan_network list \<Rightarrow> vlan_network \<Rightarrow> device_row list \<Rightarrow> source_type \<Rightarrow>
   test_run \<Rightarrow> (string \<times> json) list \<Rightarrow> bool option \<Rightarrow> bool option \<Rightarrow> vlan_validation" where
  "validation_of db ev networks network sources st latest topologyJson internet dns =
     (let results = getCommandResults topologyJson;
          evidence = evidenceByTarget (targetLookup (topology_targets topologyJson)) networks results
      in \<lparr>vv_lastTestRunId = te_id latest, vv_lastTestDate = te_completedAt latest,
          vv_sourceDeviceId = str_or (Some (dw_deviceId (hd sources))) None, vv_sourceType = st,
          vv_partialEvidence = (st = FromServerLocal), vv_internetAccess = internet, vv_dnsFiltering = dns,
          vv_vlanReachability =
            map (reach_result_of ev (vw_id network) st (weak_transport topologyJson) evidence)
              (filter (\<lambda>n. vw_id n \<noteq> vw_id network) networks),
          vv_deviceReachability = deviceReachability (buildDeviceNameMap db) results\<rparr>)"

definition getLatestVlanValidation ::
  "(json \<Rightarrow> bool) \<Rightarrow> vlan_db \<Rightarrow> string \<Rightarrow> vlan_network list \<Rightarrow> evaluator \<Rightarrow> vlan_validation option" where
  "getLatestVlanValidation stored db networkId networks ev =
     (case find (\<lambda>n. vw_id n = networkId) networks of
        None \<Rightarrow> None
      | Some network \<Rightarrow>
          (case source_devices (vd_devices db) (vw_subnet network) of
             None \<Rightarrow> None
           | Some (sources, st) \<Rightarrow>
               (let ids = map dw_id sources;
                    conn = connectivity_run stored (vd_testRuns db) ids;
                    topo = topology_run stored (vd_testRuns db) ids
                in case nullish topo conn of
                     None \<Rightarrow> None
                   | Some latest \<Rightarrow>
                       if \<not> json_truthy (te_resultsJson latest) then None
                       else
                         (let connectivityJson =
                                (case conn of
                                   Some c \<Rightarrow> if json_truthy (te_resultsJson c) then run_json c else run_json latest
                                 | None \<Rightarrow> run_json latest);
                              results = getCommandResults connectivityJson
                          in case internet_access results of
                               None \<Rightarrow> None
                             | Some internet \<Rightarrow>
                                 Some (validation_of db ev networks network sources st latest
                                   (case topo of None \<Rightarrow> [] | Some t \<Rightarrow> run_json t) internet (dns_filtering results))))))"

section \<open>Coverage\<close>

record test_device =
  td_id :: string
  td_deviceId :: string
  td_name :: string
  td_ipAddress :: "string option"
  td_status :: device_status

record vlan_info =
  vi_networkId :: string
  vi_name :: string
  vi_vlanId :: "rat option"
  vi_subnet :: "string option"
  vi_ssids :: "string list"
  vi_testDevices :: "test_device list"
  vi_hasCoverage :: bool
  vi_hasHostValidation :: bool
  vi_hostValidationDevice :: "test_device option"
  vi_intentCategory :: "string option"
  vi_validation :: "vlan_validation option"
  vi_isCaptivePortal :: bool

record vlan_coverage =
  vc_vlans :: "vlan_info list"
  vc_totalVlans :: nat
  vc_coveredVlans :: nat
  vc_hostValidatedVlans :: nat

text \<open>The fields of the items of an array, or an exception when one is null.\<close>

definition item_fields :: "json list \<Rightarrow> (string \<times> json) list list option" where
  "item_fields js = (if JNull \<in> set js then None else Some (map obj_fields js))"

text \<open>\<open>config.a || config.b || config.c || []\<close>.\<close>

definition first_of :: "(string \<times> json) list \<Rightarrow> string list \<Rightarrow> json" where
  "first_of config ks = foldr (\<lambda>k d. json_or (field config k) d) ks (JArr [])"

definition network_info :: "(string \<times> json) list \<Rightarrow> vlan_network" where
  "network_info n =
     \<lparr>vw_id = str_dflt (str_or (get_str n ''_id'') (get_str n ''id'')) [],
      vw_name = str_dflt (get_str n ''name'') ''Unknown'',
      vw_vlanId = nullish (get_num n ''vlan'') (get_num n ''vlan_id''),
      vw_subnet = str_or (str_or (get_str n ''ip_subnet'') (get_str n ''subnet'')) None,
      vw_purpose = str_dflt (get_str n ''purpose'') ''default''\<rparr>"

definition vlan_networks :: "(string \<times> json) list \<Rightarrow> vlan_network list option" where
  "vlan_networks config =
     (case first_of config [''networks'', ''networkConf'', ''networkconf''] of
        JArr js \<Rightarrow>
          map_option (\<lambda>ns. map network_info (filter (\<lambda>n. to_lower (str_dflt (get_str n ''purpose'') []) \<noteq> ''wan'') ns))
            (item_fields js)
      | _ \<Rightarrow> None)"

definition mapped_ids :: "network_mappings option \<Rightarrow> string list" where
  "mapped_ids mappings =
     (case mappings of
        None \<Rightarrow> []
      | Some m \<Rightarrow> map the (filter truthy [nm_work m, nm_iot m, nm_guest m, nm_trusted m, nm_nas m, nm_server m]))"

text \<open>The network names of the wireless networks, and the networks with a guest portal.\<close>

type_synonym ssid_state = "(string \<times> string list) list \<times> string list"

definition wlan_step :: "ssid_state \<Rightarrow> (string \<times> json) list \<Rightarrow> ssid_state" where
  "wlan_step st wlan =
     (if field wlan ''enabled'' = JBool False then st
      else
        (let networkId = get_str wlan ''networkconf_id'';
             ssid = str_dflt (str_or (get_str wlan ''name'') (get_str wlan ''ssid'')) [];
             isGuest = json_truthy (field wlan ''is_guest'') \<or> field wlan ''guest_policy'' = JStr ''allow''
         in if truthy networkId \<and> ssid \<noteq> []
            then (om_set (the networkId) (dflt [] (om_get (fst st) (the networkId)) @ [ssid]) (fst st),
                  if isGuest then os_add (the networkId) (snd st) else snd st)
            else st))"

definition vlan_ssids :: "(string \<times> json) list \<Rightarrow> ssid_state option" where
  "vlan_ssids config =
     Option.bind (js_items (first_of config [''wlans'', ''wlanConf'', ''wlanconf'']))
       (\<lambda>js. map_option (foldl wlan_step ([], [])) (item_fields js))"

definition test_device_of :: "device_row \<Rightarrow> test_device" where
  "test_device_of d =
     \<lparr>td_id = dw_id d, td_deviceId = dw_deviceId d, td_name = dw_name d, td_ipAddress = dw_ipAddress d,
      td_status = dw_status d\<rparr>"

definition vlan_info_of ::
  "(json \<Rightarrow> bool) \<Rightarrow> vlan_db \<Rightarrow> network_mappings option \<Rightarrow> vlan_network list \<Rightarrow> evaluator \<Rightarrow> ssid_state \<Rightarrow>
   vlan_network \<Rightarrow> vlan_info" where
  "vlan_info_of stored db mappings networks ev ssids network =
     (let on = (\<lambda>d. on_subnet (dw_ipAddress d) (vw_subnet network));
          testDevices = map test_device_of (filter (\<lambda>d. dw_deviceId d \<noteq> SERVER_DEVICE_ID \<and> on d) (vd_devices db));
          host = map_option test_device_of (find (\<lambda>d. dw_deviceId d = SERVER_DEVICE_ID \<and> on d) (vd_devices db))
      in \<lparr>vi_networkId = vw_id network, vi_name = vw_name network, vi_vlanId = vw_vlanId network,
          vi_subnet = vw_subnet network, vi_ssids = dflt [] (om_get (fst ssids) (vw_id network)),
          vi_testDevices = testDevices, vi_hasCoverage = (testDevices \<noteq> []), vi_hasHostValidation = (host \<noteq> None),
          vi_hostValidationDevice = host, vi_intentCategory = getIntentCategory (vw_id network) mappings,
          vi_validation = getLatestVlanValidation stored db (vw_id network) networks ev,
          vi_isCaptivePortal = (vw_id network \<in> set (snd ssids))\<rparr>)"

definition vlan_order :: "(string \<Rightarrow> string \<Rightarrow> int) \<Rightarrow> vlan_info \<Rightarrow> vlan_info \<Rightarrow> int" where
  "vlan_order cmp a b =
     (if vi_isCaptivePortal a \<noteq> vi_isCaptivePortal b then (if vi_isCaptivePortal a then 1 else - 1)
      else if \<not> vi_isCaptivePortal a \<and> \<not> vi_isCaptivePortal b \<and> vi_hasCoverage a \<noteq> vi_hasCoverage b
      then (if vi_hasCoverage a then 1 else - 1)
      else cmp (vi_name a) (vi_name b))"

definition summarize :: "vlan_info list \<Rightarrow> vlan_coverage" where
  "summarize vlans =
     (let testable = filter (\<lambda>v. \<not> vi_isCaptivePortal v) vlans in
      \<lparr>vc_vlans = vlans, vc_totalVlans = length testable,
       vc_coveredVlans = length (filter vi_hasCoverage testable),
       vc_hostValidatedVlans = length (filter (\<lambda>v. \<not> vi_hasCoverage v \<and> vi_hasHostValidation v) testable)\<rparr>)"

definition vlan_evaluator ::
  "(string \<Rightarrow> string \<Rightarrow> int) \<Rightarrow> (string \<times> json) list \<Rightarrow> stored_profile option \<Rightarrow> vlan_network list \<Rightarrow> evaluator" where
  "vlan_evaluator cmp config profile networks =
     createReachabilityPolicyEvaluator cmp (Some config) (map_option intent_profile.truncate profile)
       (map (\<lambda>n. \<lparr>pn_id = vw_id n, pn_name = vw_name n\<rparr>) networks)"

definition getVlanCoverage ::
  "(string \<Rightarrow> string \<Rightarrow> int) \<Rightarrow> (json \<Rightarrow> bool) \<Rightarrow> vlan_db \<Rightarrow> vlan_coverage option" where
  "getVlanCoverage cmp stored db =
     (let mappings = Option.bind (vd_profile db) ip_networkMappings in
      case find cf_isActive (vd_configs db) of
        None \<Rightarrow> Some (summarize [])
      | Some c \<Rightarrow>
          if \<not> json_truthy (cf_configJson c) then Some (summarize [])
          else
            (let config = obj_fields (cf_configJson c) in
             case vlan_networks config of
               None \<Rightarrow> None
             | Some networks \<Rightarrow>
                 (let mapped = filter (\<lambda>n. vw_id n \<in> set (mapped_ids mappings)) networks;
                      ev = vlan_evaluator cmp config (vd_profile db) mapped
                  in case vlan_ssids config of
                       None \<Rightarrow> None
                     | Some ssids \<Rightarrow>
                         Some (summarize (js_sort (vlan_order cmp)
                           (map (vlan_info_of stored db mappings networks ev ssids) mapped))))))"

record remote_device =
  rd_deviceId :: string
  rd_ipAddress :: string
  rd_networkId :: string

definition getDevicesOnOtherVlans ::
  "(string \<Rightarrow> string \<Rightarrow> int) \<Rightarrow> (json \<Rightarrow> bool) \<Rightarrow> vlan_db \<Rightarrow> string \<Rightarrow> remote_device list" where
  "getDevicesOnOtherVlans cmp stored db excludeNetworkId =
     (case getVlanCoverage cmp stored db of
        None \<Rightarrow> []
      | Some coverage \<Rightarrow>
          concat (map (\<lambda>v. map (\<lambda>d. \<lparr>rd_deviceId = td_deviceId d, rd_ipAddress = the (td_ipAddress d),
                                        rd_networkId = vi_networkId v\<rparr>)
                        (filter (\<lambda>d. td_status d = DevOnline \<and> truthy (td_ipAddress d)) (vi_testDevices v)))
                   (filter (\<lambda>v. vi_networkId v \<noteq> excludeNetworkId) (vc_vlans coverage))))"

definition validation_due :: "int \<Rightarrow> vlan_info \<Rightarrow> bool" where
  "validation_due now v =
     (if \<not> vi_hasCoverage v \<and> \<not> vi_hasHostValidation v then False
      else case Option.bind (vi_validation v) vv_lastTestDate of
             None \<Rightarrow> True
           | Some t \<Rightarrow> t < now - 4 * 60 * 60 * 1000)"

definition shouldRunValidation ::
  "(string \<Rightarrow> string \<Rightarrow> int) \<Rightarrow> (json \<Rightarrow> bool) \<Rightarrow> vlan_db \<Rightarrow> int \<Rightarrow> string \<Rightarrow> bool" where
  "shouldRunValidation cmp stored db now vlanNetworkId =
     (case getVlanCoverage cmp stored db of
        None \<Rightarrow> False
      | Some coverage \<Rightarrow>
          (case find (\<lambda>v. vi_networkId v = vlanNetworkId) (vc_vlans coverage) of
             None \<Rightarrow> False
           | Some v \<Rightarrow> validation_due now v))"

section \<open>Evidence and verdicts\<close>

text \<open>The probes among the results that speak about a network.\<close>

definition probes_of ::
  "(string \<times> target_info) list \<Rightarrow> vlan_network list \<Rightarrow> (string \<times> json) list list \<Rightarrow> string \<Rightarrow> (string \<times> json) list list" where
  "probes_of targets networks results t = filter (\<lambda>r. is_probe r \<and> probe_network targets networks r = t) results"

lemma evidence_of_target:
  assumes "t \<noteq> []"
  shows "dflt no_evidence (om_get (evidenceByTarget targets networks results) t) =
    \<lparr>pe_evidenceCount = length (probes_of targets networks results t),
     pe_reachableCount = length (filter probe_reached (probes_of targets networks results t)),
     pe_blockedCount = length (filter (\<lambda>r. \<not> probe_reached r) (probes_of targets networks results t))\<rparr>"
proof (induction results rule: rev_induct)
  case Nil
  then show ?case by (simp add: evidenceByTarget_def probes_of_def no_evidence_def)
next
  case (snoc r results)
  then show ?case using assms
    by (auto simp: evidenceByTarget_def evidence_step_def upsertEvidence_def probes_of_def om_get_set add_evidence_def)
qed

lemma reached_some: "0 < length (filter probe_reached rs) \<longleftrightarrow> (\<exists>r \<in> set rs. probe_reached r)"
  by (auto simp: filter_empty_conv)

text \<open>The topology results that the validation of a network reads.\<close>

definition used_topology :: "(json \<Rightarrow> bool) \<Rightarrow> vlan_db \<Rightarrow> string \<Rightarrow> vlan_network list \<Rightarrow> (string \<times> json) list" where
  "used_topology stored db i networks =
     (case Option.bind (find (\<lambda>n. vw_id n = i) networks) (\<lambda>n. source_devices (vd_devices db) (vw_subnet n)) of
        None \<Rightarrow> []
      | Some (sources, _) \<Rightarrow>
          (case topology_run stored (vd_testRuns db) (map dw_id sources) of None \<Rightarrow> [] | Some t \<Rightarrow> run_json t))"

lemma find_mem: "find P xs = Some x \<Longrightarrow> x \<in> set xs \<and> P x"
  by (induction xs) (auto split: if_splits)

lemma find_ex: "(\<exists>z. find P xs = Some z) \<longleftrightarrow> (\<exists>x \<in> set xs. P x)"
  by (induction xs) auto

lemma pick_topology_run_mem: "pick_topology_run ts = Some t \<Longrightarrow> t \<in> set ts"
  by (auto simp: pick_topology_run_def split: option.splits list.splits dest: find_mem)

lemma validation_cases:
  assumes "getLatestVlanValidation stored db i networks ev = Some v"
  obtains network sources st latest internet dns where
    "find (\<lambda>n. vw_id n = i) networks = Some network" "vw_id network = i"
    "source_devices (vd_devices db) (vw_subnet network) = Some (sources, st)"
    "v = validation_of db ev networks network sources st latest (used_topology stored db i networks) internet dns"
    "latest \<in> set (vd_testRuns db)" "te_deviceId latest \<in> dw_id ` set sources" "te_status latest = Completed"
proof -
  obtain network where network: "find (\<lambda>n. vw_id n = i) networks = Some network"
    using assms by (auto simp: getLatestVlanValidation_def split: option.splits)
  obtain sources st where sources: "source_devices (vd_devices db) (vw_subnet network) = Some (sources, st)"
    using assms by (auto simp: getLatestVlanValidation_def network split: option.splits)
  let ?ids = "map dw_id sources"
  let ?conn = "connectivity_run stored (vd_testRuns db) ?ids"
  let ?topo = "topology_run stored (vd_testRuns db) ?ids"
  obtain latest where latest: "nullish ?topo ?conn = Some latest"
    using assms by (auto simp: getLatestVlanValidation_def network sources Let_def split: option.splits)
  have used: "used_topology stored db i networks = (case ?topo of None \<Rightarrow> [] | Some t \<Rightarrow> run_json t)"
    by (simp add: used_topology_def network sources)
  obtain internet dns where v: "v = validation_of db ev networks network sources st latest
      (used_topology stored db i networks) internet dns"
    using assms unfolding used
    by (auto simp: getLatestVlanValidation_def network sources latest Let_def split: option.splits if_splits)
  have run: "t \<in> set (completed_runs stored runs ids types) \<Longrightarrow>
      t \<in> set runs \<and> te_deviceId t \<in> set ids \<and> te_status t = Completed" for t runs ids types
    by (auto simp: completed_runs_def newest_first_def)
  have "latest \<in> set (vd_testRuns db) \<and> te_deviceId latest \<in> set ?ids \<and> te_status latest = Completed"
  proof (cases ?topo)
    case None
    then show ?thesis using latest
      by (intro run [of _ _ _ "[''topology_validation'', ''connectivity'']"])
        (auto simp: connectivity_run_def split: list.splits)
  next
    case (Some t)
    have "t \<in> set (take 8 (completed_runs stored (vd_testRuns db) ?ids [''topology_validation'']))"
      using Some unfolding topology_run_def by (rule pick_topology_run_mem)
    then show ?thesis using latest Some by (intro run) (auto dest: in_set_takeD)
  qed
  moreover have "vw_id network = i" using find_mem [OF network] by simp
  ultimately show ?thesis using that [OF network _ sources v] by auto
qed

text \<open>C19: the validation of a network has one result for every other network, in their order.  Its evidence is
  exactly the probes of the chosen topology run that speak about that network, and its verdict is a
  conflict when intent and configuration disagree, unknown without an expectation, evidence or intact
  transport, and otherwise passes exactly when some probe got through where that is allowed or none
  did where it is blocked.\<close>

theorem validation_verdicts:
  assumes "getLatestVlanValidation stored db i networks ev = Some v"
  shows "let j = used_topology stored db i networks;
             probes = probes_of (targetLookup (topology_targets j)) networks (getCommandResults j) in
    map rr_targetVlan (vv_vlanReachability v) = filter (\<lambda>t. t \<noteq> i) (map vw_id networks) \<and>
    (\<forall>r \<in> set (vv_vlanReachability v). rr_targetVlan r \<noteq> [] \<longrightarrow>
      (let d = evaluate ev i (rr_targetVlan r); ps = probes (rr_targetVlan r); reached = (\<exists>p \<in> set ps. probe_reached p) in
       rr_evidenceCount r = length ps \<and> rr_canReach r = reached \<and> rr_expected r = ds_expected d \<and>
       rr_verdict r =
         (if ds_conflict d then ConflictVerdict
          else if ds_expected d = ExUnknown \<or> ps = [] \<or> weak_transport j then UnknownVerdict
          else if (ds_expected d = ExAllow) = reached then Pass else Fail)))"
proof -
  define j where "j = used_topology stored db i networks"
  from assms obtain network sources st latest internet dns where
    id: "vw_id network = i" and v: "v = validation_of db ev networks network sources st latest j internet dns"
    unfolding j_def by (rule validation_cases)
  let ?probes = "probes_of (targetLookup (topology_targets j)) networks (getCommandResults j)"
  let ?e = "evidenceByTarget (targetLookup (topology_targets j)) networks (getCommandResults j)"
  have res: "vv_vlanReachability v =
      map (reach_result_of ev i st (weak_transport j) ?e) (filter (\<lambda>n. vw_id n \<noteq> i) networks)"
    by (simp add: v validation_of_def id Let_def)
  have "map rr_targetVlan (vv_vlanReachability v) = filter (\<lambda>t. t \<noteq> i) (map vw_id networks)"
    by (simp add: res reach_result_of_def Let_def filter_map o_def)
  moreover have "let d = evaluate ev i (rr_targetVlan r); ps = ?probes (rr_targetVlan r); reached = (\<exists>p \<in> set ps. probe_reached p) in
       rr_evidenceCount r = length ps \<and> rr_canReach r = reached \<and> rr_expected r = ds_expected d \<and>
       rr_verdict r =
         (if ds_conflict d then ConflictVerdict
          else if ds_expected d = ExUnknown \<or> ps = [] \<or> weak_transport j then UnknownVerdict
          else if (ds_expected d = ExAllow) = reached then Pass else Fail)"
    if r: "r \<in> set (vv_vlanReachability v)" "rr_targetVlan r \<noteq> []" for r
  proof -
    obtain n where n: "r = reach_result_of ev i st (weak_transport j) ?e n" using r(1) unfolding res by auto
    then have t: "rr_targetVlan r = vw_id n" by (simp add: reach_result_of_def Let_def)
    show ?thesis using r(2) unfolding t
      by (simp add: n reach_result_of_def path_verdict_def evidence_of_target reached_some Let_def filter_empty_conv)
  qed
  ultimately show ?thesis unfolding Let_def j_def by blast
qed

lemma round2_mono: "x \<le> y \<Longrightarrow> round2 x \<le> round2 y"
  unfolding round2_def by (simp add: divide_right_mono floor_mono)

lemma round2_values:
  "round2 (98 / 100) = 98 / 100" "round2 (35 / 100) = 35 / 100" "round2 (45 / 100) = 45 / 100"
  "round2 (72 / 100) = 72 / 100" "round2 (3 / 10) = 3 / 10" "round2 (7 / 10) = 7 / 10" "round2 (2 / 10) = 2 / 10"
  by code_simp+

lemma decision_confidence:
  "ds_confidence (toDecision a b sc tc x y) \<in> {45 / 100, 95 / 100, 72 / 100, 7 / 10, 2 / 10}"
  "ds_expected (toDecision a b sc tc x y) \<noteq> ExUnknown \<Longrightarrow> \<not> ds_conflict (toDecision a b sc tc x y) \<Longrightarrow>
     7 / 10 \<le> ds_confidence (toDecision a b sc tc x y)"
  by (simp_all add: toDecision_def Let_def split: if_splits)

lemma evaluate_confidence:
  "ds_confidence (evaluate e s t) \<in> {45 / 100, 95 / 100, 72 / 100, 7 / 10, 2 / 10}"
  "ds_expected (evaluate e s t) \<noteq> ExUnknown \<Longrightarrow> \<not> ds_conflict (evaluate e s t) \<Longrightarrow> 7 / 10 \<le> ds_confidence (evaluate e s t)"
  unfolding evaluate_def Let_def by (fact decision_confidence)+

lemma round2_up: "round2 b = b \<Longrightarrow> x \<le> b \<Longrightarrow> round2 x \<le> b"
  and round2_low: "round2 b = b \<Longrightarrow> b \<le> x \<Longrightarrow> b \<le> round2 x"
  using round2_mono [of x b] round2_mono [of b x] by simp_all

lemma path_confidence_bounds:
  fixes ev s t
  defines "d \<equiv> evaluate ev s t"
  shows "path_confidence d e weak st \<le> 98 / 100" "2 / 10 \<le> path_confidence d e weak st"
    "path_verdict d e weak = UnknownVerdict \<Longrightarrow> path_confidence d e weak st \<le> 35 / 100"
    "weak \<Longrightarrow> path_confidence d e weak st \<le> 45 / 100"
    "st = FromServerLocal \<Longrightarrow> path_confidence d e weak st \<le> 72 / 100"
    "st = FromServerLocal \<Longrightarrow> path_verdict d e weak = UnknownVerdict \<Longrightarrow> path_confidence d e weak st \<le> 3 / 10"
    "path_verdict d e weak \<in> {Pass, Fail} \<Longrightarrow> 7 / 10 \<le> path_confidence d e weak st"
proof -
  have c: "2 / 10 \<le> ds_confidence d" "ds_confidence d \<le> 98 / 100"
    using evaluate_confidence(1) [of ev s t] unfolding d_def [symmetric] by auto
  have k: "ds_expected d \<noteq> ExUnknown \<Longrightarrow> \<not> ds_conflict d \<Longrightarrow> 7 / 10 \<le> ds_confidence d"
    unfolding d_def by (rule evaluate_confidence(2))
  show "path_confidence d e weak st \<le> 98 / 100" unfolding path_confidence_def
    by (rule round2_up [OF round2_values(1)]) (use c in \<open>auto simp: raw_confidence_def Let_def min_def max_def\<close>)
  show "2 / 10 \<le> path_confidence d e weak st" unfolding path_confidence_def
    by (rule round2_low [OF round2_values(7)]) (use c in \<open>auto simp: raw_confidence_def Let_def min_def max_def\<close>)
  show "path_verdict d e weak = UnknownVerdict \<Longrightarrow> path_confidence d e weak st \<le> 35 / 100" unfolding path_confidence_def
    by (rule round2_up [OF round2_values(2)]) (auto simp: raw_confidence_def Let_def)
  show "weak \<Longrightarrow> path_confidence d e weak st \<le> 45 / 100" unfolding path_confidence_def
    by (rule round2_up [OF round2_values(3)]) (auto simp: raw_confidence_def Let_def)
  show "st = FromServerLocal \<Longrightarrow> path_confidence d e weak st \<le> 72 / 100" unfolding path_confidence_def
    by (rule round2_up [OF round2_values(4)]) (auto simp: raw_confidence_def Let_def min_def)
  show "st = FromServerLocal \<Longrightarrow> path_verdict d e weak = UnknownVerdict \<Longrightarrow> path_confidence d e weak st \<le> 3 / 10"
    unfolding path_confidence_def
    by (rule round2_up [OF round2_values(5)]) (auto simp: raw_confidence_def Let_def)
  show "7 / 10 \<le> path_confidence d e weak st" if v: "path_verdict d e weak \<in> {Pass, Fail}"
  proof -
    have "\<not> weak" "ds_expected d \<noteq> ExUnknown" "\<not> ds_conflict d" "path_verdict d e weak \<noteq> UnknownVerdict"
      using v by (auto simp: path_verdict_def Let_def split: if_splits)
    with k have "7 / 10 \<le> raw_confidence d e weak st" by (simp add: raw_confidence_def Let_def min_def max_def)
    then show ?thesis unfolding path_confidence_def by (rule round2_low [OF round2_values(6)])
  qed
qed

text \<open>The confidence of a result lies between 0.2 and 0.98; a pass or fail has at least 0.7, an unknown at
  most 0.35, a result over a weak transport at most 0.45, and one from the server itself at most 0.72, or
  0.3 when unknown.  A weak transport never yields a pass or a fail.\<close>

lemma validation_confidence:
  assumes "getLatestVlanValidation stored db i networks ev = Some v"
    and "r \<in> set (vv_vlanReachability v)"
  shows "2 / 10 \<le> rr_confidence r \<and> rr_confidence r \<le> 98 / 100 \<and>
    (rr_verdict r \<in> {Pass, Fail} \<longrightarrow> 7 / 10 \<le> rr_confidence r \<and> \<not> weak_transport (used_topology stored db i networks)) \<and>
    (rr_verdict r = UnknownVerdict \<longrightarrow> rr_confidence r \<le> 35 / 100) \<and>
    (weak_transport (used_topology stored db i networks) \<longrightarrow> rr_confidence r \<le> 45 / 100) \<and>
    (vv_sourceType v = FromServerLocal \<longrightarrow> rr_confidence r \<le> (if rr_verdict r = UnknownVerdict then 3 / 10 else 72 / 100))"
proof -
  define j where "j = used_topology stored db i networks"
  from assms(1) obtain network sources st latest internet dns where
    v: "v = validation_of db ev networks network sources st latest j internet dns"
    unfolding j_def by (rule validation_cases)
  let ?e = "evidenceByTarget (targetLookup (topology_targets j)) networks (getCommandResults j)"
  have "vv_vlanReachability v = map (reach_result_of ev (vw_id network) st (weak_transport j) ?e)
      (filter (\<lambda>n. vw_id n \<noteq> vw_id network) networks)"
    by (simp add: v validation_of_def Let_def)
  then obtain n where n: "r = reach_result_of ev (vw_id network) st (weak_transport j) ?e n"
    using assms(2) by auto
  define d where "d = evaluate ev (vw_id network) (vw_id n)"
  define e where "e = dflt no_evidence (om_get ?e (vw_id n))"
  have de: "rr_confidence r = path_confidence d e (weak_transport j) st" "rr_verdict r = path_verdict d e (weak_transport j)"
    by (simp_all add: n reach_result_of_def Let_def d_def e_def)
  have st: "vv_sourceType v = st" by (simp add: v validation_of_def Let_def)
  have weak: "path_verdict d e (weak_transport j) \<in> {Pass, Fail} \<Longrightarrow> \<not> weak_transport j"
    by (auto simp: path_verdict_def Let_def split: if_splits)
  show ?thesis
    unfolding j_def [symmetric] de st
    using path_confidence_bounds [where ev = ev and s = "vw_id network" and t = "vw_id n" and e = e
      and weak = "weak_transport j" and st = st] weak
    unfolding d_def [symmetric] by auto
qed

section \<open>Which run is used, and when a network is due\<close>

lemma find_least: "find P xs = Some x \<Longrightarrow> \<exists>ys zs. xs = ys @ x # zs \<and> P x \<and> (\<forall>y \<in> set ys. \<not> P y)"
proof (induction xs)
  case (Cons a xs)
  show ?case
  proof (cases "P a")
    case True
    then show ?thesis using Cons.prems by (intro exI [of _ "[]"] exI [of _ xs]) simp
  next
    case False
    then obtain ys zs where "xs = ys @ x # zs" "P x" "\<forall>y \<in> set ys. \<not> P y" using Cons by auto
    then show ?thesis using False by (intro exI [of _ "a # ys"] exI [of _ zs]) simp
  qed
qed simp

text \<open>How recent a run is: a run without completion time counts as the most recent.\<close>

definition run_age :: "test_run \<Rightarrow> test_run \<Rightarrow> bool" where
  "run_age a b \<longleftrightarrow> (case te_completedAt a of None \<Rightarrow> True | Some x \<Rightarrow> (case te_completedAt b of None \<Rightarrow> False | Some y \<Rightarrow> y \<le> x))"

lemma newest_first_sorted: "sorted_wrt run_age (newest_first ts)"
proof -
  let ?some = "filter (\<lambda>t. te_completedAt t \<noteq> None) ts"
  have "sorted (map (\<lambda>t. - the (te_completedAt t)) (sort_key (\<lambda>t. - the (te_completedAt t)) ?some))"
    by simp
  then have "sorted_wrt (\<lambda>a b. - the (te_completedAt a) \<le> - the (te_completedAt b))
      (sort_key (\<lambda>t. - the (te_completedAt t)) ?some)"
    by (simp only: sorted_map)
  then have "sorted_wrt run_age (sort_key (\<lambda>t. - the (te_completedAt t)) ?some)"
    by (rule sorted_wrt_mono_rel [rotated]) (auto simp: run_age_def split: option.splits)
  moreover have "sorted_wrt run_age (filter (\<lambda>t. te_completedAt t = None) ts)"
    by (rule sorted_wrt_mono_rel [of _ "\<lambda>_ _. True"]) (auto simp: run_age_def sorted_wrt_iff_nth_less)
  ultimately show ?thesis
    by (auto simp: newest_first_def sorted_wrt_append run_age_def split: option.splits)
qed

lemma newest_first_mset [simp]: "mset (newest_first ts) = mset ts"
  by (simp add: newest_first_def multiset_partition [symmetric])

text \<open>Inter-network verdicts rest on the most recent run, among the eight latest completed topology runs of the
  source devices, that has results over an intact transport; only when none has are results over a weak
  transport used.  A run is chosen whenever there is one.\<close>

lemma topology_run_choice:
  defines "usable \<equiv> \<lambda>t. has_results t \<and> \<not> weak_transport (run_json t)"
  shows "let candidates = take 8 (completed_runs stored runs ids [''topology_validation'']) in
    (topology_run stored runs ids = None \<longleftrightarrow> candidates = []) \<and>
    (\<forall>t. topology_run stored runs ids = Some t \<longrightarrow> t \<in> set candidates \<and>
      (\<exists>c \<in> set candidates. usable c) = usable t \<and>
      (\<exists>c \<in> set candidates. has_results c) = has_results t \<and>
      (\<forall>c \<in> set candidates. (usable c \<or> (has_results c \<and> \<not> usable t)) \<longrightarrow> run_age t c \<or> c = t))"
proof -
  define cs where "cs = take 8 (completed_runs stored runs ids [''topology_validation''])"
  have sorted: "sorted_wrt run_age cs"
    unfolding cs_def completed_runs_def by (intro sorted_wrt_take newest_first_sorted)
  have first: "\<forall>c \<in> set cs. P c \<longrightarrow> run_age t c \<or> c = t" if "find P cs = Some t" for P t
    using find_least [OF that] sorted by (auto simp: sorted_wrt_append)
  have none: "find P cs = None \<longleftrightarrow> (\<forall>c \<in> set cs. \<not> P c)" for P
    by (auto simp: find_None_iff)
  have run: "topology_run stored runs ids = pick_topology_run cs"
    by (simp add: topology_run_def cs_def)
  have "pick_topology_run cs = None \<longleftrightarrow> cs = []"
    by (cases cs) (auto simp: pick_topology_run_def split: option.splits)
  moreover have "t \<in> set cs \<and> (\<exists>c \<in> set cs. usable c) = usable t \<and> (\<exists>c \<in> set cs. has_results c) = has_results t \<and>
      (\<forall>c \<in> set cs. (usable c \<or> (has_results c \<and> \<not> usable t)) \<longrightarrow> run_age t c \<or> c = t)"
    if pick: "pick_topology_run cs = Some t" for t
  proof (cases "find usable cs")
    case (Some u)
    then have "u = t" using pick by (simp add: pick_topology_run_def usable_def)
    then show ?thesis using first [OF Some] find_mem [OF Some] by (auto simp: usable_def)
  next
    case no_usable: None
    show ?thesis
    proof (cases "find has_results cs")
      case (Some u)
      then have "u = t" using pick no_usable by (simp add: pick_topology_run_def usable_def)
      then show ?thesis using first [OF Some] find_mem [OF Some] no_usable by (auto simp: none)
    next
      case None
      then show ?thesis using pick_topology_run_mem [OF pick] no_usable by (auto simp: none usable_def)
    qed
  qed
  ultimately show ?thesis unfolding Let_def cs_def [symmetric] run by blast
qed

section \<open>Coverage\<close>

definition active_config :: "vlan_db \<Rightarrow> (string \<times> json) list" where
  "active_config db = (case find cf_isActive (vd_configs db) of None \<Rightarrow> [] | Some c \<Rightarrow> obj_fields (cf_configJson c))"

definition all_networks :: "vlan_db \<Rightarrow> vlan_network list" where
  "all_networks db = dflt [] (vlan_networks (active_config db))"

definition mapped_networks :: "vlan_db \<Rightarrow> vlan_network list" where
  "mapped_networks db =
     filter (\<lambda>n. vw_id n \<in> set (mapped_ids (Option.bind (vd_profile db) ip_networkMappings))) (all_networks db)"

lemma not_truthy_fields: "\<not> json_truthy j \<Longrightarrow> obj_fields j = []"
  by (cases j) (simp_all add: obj_fields_def)

lemma no_networks: "vlan_networks [] = Some []"
  by code_simp

lemma coverage_cases:
  assumes "getVlanCoverage cmp stored db = Some c"
  obtains ev ssids where "c = summarize (js_sort (vlan_order cmp)
      (map (vlan_info_of stored db (Option.bind (vd_profile db) ip_networkMappings) (all_networks db) ev ssids)
        (mapped_networks db)))"
proof (cases "find cf_isActive (vd_configs db)")
  case None
  then have "c = summarize []" using assms by (simp add: getVlanCoverage_def)
  moreover have "mapped_networks db = []"
    by (simp add: mapped_networks_def all_networks_def active_config_def None no_networks)
  ultimately show ?thesis using that by (simp add: js_sort_def)
next
  case (Some row)
  show ?thesis
  proof (cases "json_truthy (cf_configJson row)")
    case False
    then have "c = summarize []" using assms Some by (simp add: getVlanCoverage_def)
    moreover have "mapped_networks db = []"
      using False by (simp add: mapped_networks_def all_networks_def active_config_def Some no_networks not_truthy_fields)
    ultimately show ?thesis using that by (simp add: js_sort_def)
  next
    case True
    have config: "active_config db = obj_fields (cf_configJson row)" by (simp add: active_config_def Some)
    obtain networks where n: "vlan_networks (active_config db) = Some networks"
      using assms True by (auto simp: getVlanCoverage_def Some config Let_def split: option.splits)
    obtain ssids where s: "vlan_ssids (active_config db) = Some ssids"
      using assms True n by (auto simp: getVlanCoverage_def Some config Let_def split: option.splits)
    show ?thesis
      using assms True n s
      by (intro that [of "vlan_evaluator cmp (active_config db) (vd_profile db) (mapped_networks db)" ssids])
        (simp add: getVlanCoverage_def Some config Let_def all_networks_def mapped_networks_def)
  qed
qed

lemma summarize_simps [simp]:
  "vc_vlans (summarize vs) = vs"
  "vc_totalVlans (summarize vs) = length (filter (\<lambda>v. \<not> vi_isCaptivePortal v) vs)"
  by (simp_all add: summarize_def Let_def)

lemma vlan_info_simps [simp]:
  "vi_networkId (vlan_info_of stored db m ns ev ss n) = vw_id n"
  "vi_subnet (vlan_info_of stored db m ns ev ss n) = vw_subnet n"
  "vi_validation (vlan_info_of stored db m ns ev ss n) = getLatestVlanValidation stored db (vw_id n) ns ev"
  "vi_testDevices (vlan_info_of stored db m ns ev ss n) =
     map test_device_of (filter (\<lambda>d. dw_deviceId d \<noteq> SERVER_DEVICE_ID \<and> on_subnet (dw_ipAddress d) (vw_subnet n)) (vd_devices db))"
  by (simp_all add: vlan_info_of_def Let_def)

lemma vlan_info_covered:
  "vi_hasCoverage (vlan_info_of stored db m ns ev ss n) \<longleftrightarrow>
     (\<exists>d \<in> set (vd_devices db). dw_deviceId d \<noteq> SERVER_DEVICE_ID \<and> on_subnet (dw_ipAddress d) (vw_subnet n))"
  "vi_hasHostValidation (vlan_info_of stored db m ns ev ss n) \<longleftrightarrow>
     (\<exists>d \<in> set (vd_devices db). dw_deviceId d = SERVER_DEVICE_ID \<and> on_subnet (dw_ipAddress d) (vw_subnet n))"
  by (simp_all add: vlan_info_of_def Let_def filter_empty_conv find_ex)

text \<open>C35: the coverage lists exactly the networks that the intent maps to a category.  A network is covered exactly
  when some test device other than the server has an address in its subnet, and host-validated when the
  server has.  The summary counts no network twice, and all testable networks are counted as covered
  exactly when each is.\<close>

theorem coverage_exact:
  assumes "getVlanCoverage cmp stored db = Some c"
  shows "mset (map vi_networkId (vc_vlans c)) = mset (map vw_id (mapped_networks db)) \<and>
    (\<forall>v \<in> set (vc_vlans c). \<exists>n \<in> set (mapped_networks db). vi_networkId v = vw_id n \<and>
       vi_hasCoverage v =
         (\<exists>d \<in> set (vd_devices db). dw_deviceId d \<noteq> SERVER_DEVICE_ID \<and> on_subnet (dw_ipAddress d) (vw_subnet n)) \<and>
       vi_hasHostValidation v =
         (\<exists>d \<in> set (vd_devices db). dw_deviceId d = SERVER_DEVICE_ID \<and> on_subnet (dw_ipAddress d) (vw_subnet n))) \<and>
    vc_coveredVlans c + vc_hostValidatedVlans c \<le> vc_totalVlans c \<and>
    (vc_coveredVlans c = vc_totalVlans c \<longleftrightarrow> (\<forall>v \<in> set (vc_vlans c). vi_isCaptivePortal v \<or> vi_hasCoverage v))"
proof -
  obtain ev ssids where c: "c = summarize (js_sort (vlan_order cmp)
      (map (vlan_info_of stored db (Option.bind (vd_profile db) ip_networkMappings) (all_networks db) ev ssids)
        (mapped_networks db)))"
    by (rule coverage_cases [OF assms])
  let ?info = "vlan_info_of stored db (Option.bind (vd_profile db) ip_networkMappings) (all_networks db) ev ssids"
  let ?testable = "filter (\<lambda>v. \<not> vi_isCaptivePortal v) (vc_vlans c)"
  have "mset (map vi_networkId (vc_vlans c)) = mset (map vw_id (mapped_networks db))"
    by (simp add: c mset_map multiset.map_comp o_def)
  moreover have "\<exists>n \<in> set (mapped_networks db). v = ?info n" if "v \<in> set (vc_vlans c)" for v
    using that by (auto simp: c)
  moreover have counts: "vc_coveredVlans c = length (filter vi_hasCoverage ?testable)" "vc_totalVlans c = length ?testable"
    "vc_hostValidatedVlans c = length (filter (\<lambda>v. \<not> vi_hasCoverage v \<and> vi_hasHostValidation v) ?testable)"
    by (simp_all add: c) (simp_all add: summarize_def Let_def)
  moreover have "length (filter P xs) + length (filter (\<lambda>x. \<not> P x \<and> Q x) xs) \<le> length xs" for P Q and xs :: "vlan_info list"
    by (induction xs) auto
  moreover have "length (filter P xs) = length xs \<longleftrightarrow> (\<forall>x \<in> set xs. P x)" for P and xs :: "vlan_info list"
    by (metis filter_True length_filter_less less_irrefl)
  moreover have "\<forall>v \<in> set (vc_vlans c). \<exists>n \<in> set (mapped_networks db). vi_networkId v = vw_id n \<and>
       vi_hasCoverage v =
         (\<exists>d \<in> set (vd_devices db). dw_deviceId d \<noteq> SERVER_DEVICE_ID \<and> on_subnet (dw_ipAddress d) (vw_subnet n)) \<and>
       vi_hasHostValidation v =
         (\<exists>d \<in> set (vd_devices db). dw_deviceId d = SERVER_DEVICE_ID \<and> on_subnet (dw_ipAddress d) (vw_subnet n))"
    by (simp add: c vlan_info_covered) blast
  moreover have "(\<forall>v \<in> set ?testable. vi_hasCoverage v) \<longleftrightarrow>
      (\<forall>v \<in> set (vc_vlans c). vi_isCaptivePortal v \<or> vi_hasCoverage v)"
    by auto
  ultimately show ?thesis by (simp only:)
qed

lemma vlan_order_total:
  assumes "\<And>a b. 0 < cmp a b \<Longrightarrow> cmp b a \<le> 0"
  shows "0 < vlan_order cmp a b \<Longrightarrow> vlan_order cmp b a \<le> 0"
  using assms [of "vi_name a" "vi_name b"] by (auto simp: vlan_order_def split: if_splits)

lemma vlan_order_trans:
  assumes "\<And>x y z. cmp x y \<le> 0 \<Longrightarrow> cmp y z \<le> 0 \<Longrightarrow> cmp x z \<le> 0"
  shows "vlan_order cmp a b \<le> 0 \<Longrightarrow> vlan_order cmp b c \<le> 0 \<Longrightarrow> vlan_order cmp a c \<le> 0"
  using assms [of "vi_name a" "vi_name b" "vi_name c"] by (auto simp: vlan_order_def split: if_splits)

text \<open>Networks with a guest portal come last; the others are ordered with the uncovered ones first.\<close>

lemma coverage_order:
  assumes "getVlanCoverage cmp stored db = Some c"
    and "\<And>a b. 0 < cmp a b \<Longrightarrow> cmp b a \<le> 0"
    and "\<And>x y z. cmp x y \<le> 0 \<Longrightarrow> cmp y z \<le> 0 \<Longrightarrow> cmp x z \<le> 0"
  shows "sorted_wrt (\<lambda>a b. (vi_isCaptivePortal a \<longrightarrow> vi_isCaptivePortal b) \<and>
      (\<not> vi_isCaptivePortal b \<and> vi_hasCoverage a \<longrightarrow> vi_hasCoverage b)) (vc_vlans c)"
proof -
  obtain vs where c: "vc_vlans c = js_sort (vlan_order cmp) vs"
    using coverage_cases [OF assms(1)] by (metis summarize_simps(1))
  have "sorted_wrt (\<lambda>a b. vlan_order cmp a b \<le> 0) (vc_vlans c)"
    unfolding c
    using vlan_order_total [where cmp = cmp, OF assms(2)] vlan_order_trans [where cmp = cmp, OF assms(3)]
    by (intro sorted_wrt_js_sort) blast+
  then show ?thesis
    by (rule sorted_wrt_mono_rel [rotated]) (auto simp: vlan_order_def split: if_splits)
qed

lemma concat_filter_mem: "x \<in> set (concat (map R (filter K vs))) \<longleftrightarrow> (\<exists>v \<in> set vs. K v \<and> x \<in> set (R v))"
  by auto

text \<open>The devices offered as targets on other networks are exactly the online test devices whose address lies in
  the subnet of a mapped network other than the excluded one; the server is never among them.\<close>

lemma other_vlan_devices:
  assumes "getVlanCoverage cmp stored db = Some c"
  shows "set (getDevicesOnOtherVlans cmp stored db i) =
    {\<lparr>rd_deviceId = dw_deviceId d, rd_ipAddress = ip, rd_networkId = vw_id n\<rparr> | d ip n.
       d \<in> set (vd_devices db) \<and> n \<in> set (mapped_networks db) \<and> vw_id n \<noteq> i \<and> dw_ipAddress d = Some ip \<and>
       dw_status d = DevOnline \<and> dw_deviceId d \<noteq> SERVER_DEVICE_ID \<and> on_subnet (Some ip) (vw_subnet n)}"
proof -
  obtain ev ssids where c: "c = summarize (js_sort (vlan_order cmp)
      (map (vlan_info_of stored db (Option.bind (vd_profile db) ip_networkMappings) (all_networks db) ev ssids)
        (mapped_networks db)))"
    by (rule coverage_cases [OF assms])
  let ?on = "\<lambda>d n. dw_deviceId d \<noteq> SERVER_DEVICE_ID \<and> on_subnet (dw_ipAddress d) (vw_subnet n) \<and>
      dw_status d = DevOnline \<and> truthy (dw_ipAddress d)"
  let ?dev = "\<lambda>d n. \<lparr>rd_deviceId = dw_deviceId d, rd_ipAddress = the (dw_ipAddress d), rd_networkId = vw_id n\<rparr>"
  let ?remote = "\<lambda>v. map (\<lambda>d. \<lparr>rd_deviceId = td_deviceId d, rd_ipAddress = the (td_ipAddress d), rd_networkId = vi_networkId v\<rparr>)
      (filter (\<lambda>d. td_status d = DevOnline \<and> truthy (td_ipAddress d)) (vi_testDevices v))"
  let ?info = "vlan_info_of stored db (Option.bind (vd_profile db) ip_networkMappings) (all_networks db) ev ssids"
  have R: "map (\<lambda>d. ?dev d n) (filter (\<lambda>d. ?on d n) (vd_devices db)) = ?remote (?info n)" for n
    by (simp add: filter_map o_def test_device_of_def filter_filter conj_ac cong: filter_cong conj_cong)
  have remote: "x \<in> set (?remote (?info n)) \<longleftrightarrow> (\<exists>d \<in> set (vd_devices db). ?on d n \<and> x = ?dev d n)" for x n
    unfolding R [symmetric] by auto
  have F1: "x \<in> set (getDevicesOnOtherVlans cmp stored db i) \<longleftrightarrow>
      (\<exists>n \<in> set (mapped_networks db). vw_id n \<noteq> i \<and> (\<exists>d \<in> set (vd_devices db). ?on d n \<and> x = ?dev d n))" for x
    unfolding getDevicesOnOtherVlans_def assms option.case concat_filter_mem remote [symmetric]
    unfolding c summarize_simps set_js_sort set_map by (simp only: bex_simps vlan_info_simps)
  have F2: "?on d n \<and> x = ?dev d n \<longleftrightarrow>
      (\<exists>ip. x = \<lparr>rd_deviceId = dw_deviceId d, rd_ipAddress = ip, rd_networkId = vw_id n\<rparr> \<and> dw_ipAddress d = Some ip \<and>
         dw_status d = DevOnline \<and> dw_deviceId d \<noteq> SERVER_DEVICE_ID \<and> on_subnet (Some ip) (vw_subnet n))" for x d n
    by (cases "dw_ipAddress d") (auto simp: on_subnet_def)
  show ?thesis
    by (rule set_eqI) (simp only: F1 F2 mem_Collect_eq, blast)
qed

text \<open>While every device on a network is being tested, updated or in error, its earlier results are not shown
  and it counts as never validated, so it is due again however recent its last run is.\<close>

lemma busy_devices_hide_results:
  assumes "getVlanCoverage cmp stored db = Some c" "v \<in> set (vc_vlans c)" "distinct (map vw_id (all_networks db))"
    and "\<forall>d \<in> set (vd_devices db). on_subnet (dw_ipAddress d) (vi_subnet v) \<longrightarrow> dw_status d \<notin> {DevOnline, DevOffline}"
  shows "vi_validation v = None \<and> (validation_due now v \<longleftrightarrow> vi_hasCoverage v \<or> vi_hasHostValidation v)"
proof -
  obtain ev ssids where c: "c = summarize (js_sort (vlan_order cmp)
      (map (vlan_info_of stored db (Option.bind (vd_profile db) ip_networkMappings) (all_networks db) ev ssids)
        (mapped_networks db)))"
    by (rule coverage_cases [OF assms(1)])
  obtain n where n: "n \<in> set (all_networks db)" "vi_subnet v = vw_subnet n"
    "vi_validation v = getLatestVlanValidation stored db (vw_id n) (all_networks db) ev"
    using assms(2) by (auto simp: c mapped_networks_def)
  have "find (\<lambda>m. vw_id m = vw_id n) (all_networks db) = Some n"
    using row_at_iff [OF assms(3), of "vw_id n" n] n(1) by (simp add: row_at_def)
  moreover have "source_devices (vd_devices db) (vw_subnet n) = None"
    using assms(4) by (auto simp: source_devices_def Let_def n(2) filter_empty_conv find_None_iff)
  ultimately have "vi_validation v = None" by (simp add: n(3) getLatestVlanValidation_def)
  then show ?thesis by (simp add: validation_due_def)
qed

section \<open>The properties at work\<close>

text \<open>A home with a mapped trusted and IoT network, one probe on the trusted network, and one run of it that reached an
  address of the IoT network.\<close>

definition demo_config :: json where
  "demo_config = JObj [(''networks'', JArr
     [JObj [(''_id'', JStr ''n1''), (''name'', JStr ''Home''), (''ip_subnet'', JStr ''10.0.1.1/24'')],
      JObj [(''_id'', JStr ''n2''), (''name'', JStr ''Things''), (''ip_subnet'', JStr ''10.0.2.1/24'')]])]"

definition demo_mappings :: network_mappings where
  "demo_mappings = no_mappings\<lparr>nm_trusted := Some ''n1'', nm_iot := Some ''n2''\<rparr>"

definition demo_profile :: stored_profile where
  "demo_profile =
     \<lparr>ip_workFromHome = False, ip_workDeviceIsolation = False, ip_workIsolationMode = None, ip_hasIoT = True,
      ip_iotIsolation = True, ip_hasNAS = False, ip_nasAccessibleFrom = NasAll, ip_homeServer = False,
      ip_guestNetwork = False, ip_guestIsolation = False, ip_interVlanDefault = AllowAll,
      ip_reachabilityOverrides = None, ip_networkMappings = Some demo_mappings, sp_nasDevice = None,
      sp_serverDevice = None\<rparr>"

definition demo_run :: test_run where
  "demo_run =
     \<lparr>te_id = ''r1'', te_deviceId = ''d1'', te_testType = ''topology_validation'', te_status = Completed,
      te_completedAt = Some 1000,
      te_resultsJson = JObj [(''commandResults'', JArr
        [JObj [(''op'', JStr ''tcp_connect''), (''data'', JObj [(''host'', JStr ''10.0.2.9''), (''open'', JBool True)])]])]\<rparr>"

definition demo_db :: "device_status \<Rightarrow> vlan_db" where
  "demo_db st =
     \<lparr>vd_devices = [\<lparr>dw_id = ''d1'', dw_deviceId = ''probe'', dw_name = ''Probe'', dw_ipAddress = Some ''10.0.1.7'', dw_status = st\<rparr>],
      vd_testRuns = [demo_run], vd_profile = Some demo_profile,
      vd_configs = [\<lparr>cf_isActive = True, cf_configJson = demo_config\<rparr>]\<rparr>"

definition demo_evaluator :: evaluator where
  "demo_evaluator =
     \<lparr>ev_profile = Some (intent_profile.truncate demo_profile), ev_categories = [(''n1'', CTrusted), (''n2'', CIot)],
      ev_effective = []\<rparr>"

lemma demo_validated:
  obtains v where "getLatestVlanValidation (\<lambda>_. True) (demo_db DevOnline) ''n1'' (all_networks (demo_db DevOnline)) demo_evaluator = Some v"
    "vv_vlanReachability v \<noteq> []"
proof -
  have "(case getLatestVlanValidation (\<lambda>_. True) (demo_db DevOnline) ''n1'' (all_networks (demo_db DevOnline)) demo_evaluator
      of None \<Rightarrow> False | Some v \<Rightarrow> \<not> List.null (vv_vlanReachability v))"
    by code_simp
  then show ?thesis using that by (auto simp: List.null_iff split: option.splits)
qed

lemma demo_networks:
  "map vw_id (mapped_networks (demo_db st)) = [''n1'', ''n2'']" "map vw_id (all_networks (demo_db st)) = [''n1'', ''n2'']"
proof -
  have "mapped_networks (demo_db st) = mapped_networks (demo_db DevOnline)" "all_networks (demo_db st) = all_networks (demo_db DevOnline)"
    by (simp_all add: mapped_networks_def all_networks_def active_config_def demo_db_def)
  moreover have "map vw_id (mapped_networks (demo_db DevOnline)) = [''n1'', ''n2'']"
    "map vw_id (all_networks (demo_db DevOnline)) = [''n1'', ''n2'']"
    by code_simp+
  ultimately show "map vw_id (mapped_networks (demo_db st)) = [''n1'', ''n2'']"
    "map vw_id (all_networks (demo_db st)) = [''n1'', ''n2'']" by simp_all
qed

lemma coverage_defined:
  assumes "vlan_networks (active_config db) = Some ns" "vlan_ssids (active_config db) = Some ss"
  shows "\<exists>c. getVlanCoverage cmp stored db = Some c"
  using assms unfolding active_config_def
  by (cases "find cf_isActive (vd_configs db)") (simp_all add: getVlanCoverage_def Let_def)

lemma demo_covered:
  obtains c v where "getVlanCoverage (\<lambda>_ _. 0) (\<lambda>_. True) (demo_db st) = Some c" "v \<in> set (vc_vlans c)" "vi_hasCoverage v"
proof -
  have "active_config (demo_db st) = active_config (demo_db DevOnline)" by (simp add: active_config_def demo_db_def)
  moreover have "(case vlan_networks (active_config (demo_db DevOnline)) of None \<Rightarrow> False | Some _ \<Rightarrow> True)"
    "(case vlan_ssids (active_config (demo_db DevOnline)) of None \<Rightarrow> False | Some _ \<Rightarrow> True)"
    by code_simp+
  ultimately obtain c where c: "getVlanCoverage (\<lambda>_ _. 0) (\<lambda>_. True) (demo_db st) = Some c"
    using coverage_defined [of "demo_db st" _ _ "\<lambda>_ _. 0" "\<lambda>_. True"] by (fastforce split: option.splits)
  have "list_ex (\<lambda>n. on_subnet (Some ''10.0.1.7'') (vw_subnet n)) (mapped_networks (demo_db DevOnline))" by code_simp
  moreover have "mapped_networks (demo_db DevOnline) = mapped_networks (demo_db st)"
    by (simp add: mapped_networks_def all_networks_def active_config_def demo_db_def)
  ultimately obtain n where n: "n \<in> set (mapped_networks (demo_db st))" "on_subnet (Some ''10.0.1.7'') (vw_subnet n)"
    by (auto simp: list_ex_iff)
  obtain ev ssids where "c = summarize (js_sort (vlan_order (\<lambda>_ _. 0))
      (map (vlan_info_of (\<lambda>_. True) (demo_db st) (Option.bind (vd_profile (demo_db st)) ip_networkMappings)
        (all_networks (demo_db st)) ev ssids) (mapped_networks (demo_db st))))"
    by (rule coverage_cases [OF c])
  then have "vlan_info_of (\<lambda>_. True) (demo_db st) (Option.bind (vd_profile (demo_db st)) ip_networkMappings)
      (all_networks (demo_db st)) ev ssids n \<in> set (vc_vlans c)"
    using n(1) by simp
  moreover have "\<exists>d \<in> set (vd_devices (demo_db st)). dw_deviceId d \<noteq> SERVER_DEVICE_ID \<and> on_subnet (dw_ipAddress d) (vw_subnet n)"
    using n(2) by (simp add: demo_db_def SERVER_DEVICE_ID_def)
  ultimately show ?thesis using that c by (metis vlan_info_covered(1))
qed

theorem validation_verdicts_witness:
  "\<exists>v. getLatestVlanValidation (\<lambda>_. True) (demo_db DevOnline) ''n1'' (all_networks (demo_db DevOnline)) demo_evaluator = Some v \<and>
     map rr_targetVlan (vv_vlanReachability v) = [''n2'']"
proof -
  obtain v where v: "getLatestVlanValidation (\<lambda>_. True) (demo_db DevOnline) ''n1'' (all_networks (demo_db DevOnline)) demo_evaluator = Some v"
    by (rule demo_validated)
  have "map rr_targetVlan (vv_vlanReachability v) = [''n2'']"
    using validation_verdicts [OF v] by (simp add: Let_def demo_networks)
  with v show ?thesis by (intro exI [of _ v] conjI)
qed

lemma validation_confidence_witness:
  "\<exists>v r. getLatestVlanValidation (\<lambda>_. True) (demo_db DevOnline) ''n1'' (all_networks (demo_db DevOnline)) demo_evaluator = Some v \<and>
     r \<in> set (vv_vlanReachability v) \<and> 2 / 10 \<le> rr_confidence r \<and> rr_confidence r \<le> 98 / 100"
proof -
  obtain v where v: "getLatestVlanValidation (\<lambda>_. True) (demo_db DevOnline) ''n1'' (all_networks (demo_db DevOnline)) demo_evaluator = Some v"
    "vv_vlanReachability v \<noteq> []"
    by (rule demo_validated)
  then obtain r where r: "r \<in> set (vv_vlanReachability v)" by (cases "vv_vlanReachability v") auto
  show ?thesis
    by (rule exI [of _ v], rule exI [of _ r]) (use v(1) r validation_confidence [OF v(1) r] in simp)
qed

lemma topology_run_choice_witness: "\<exists>t. topology_run (\<lambda>_. True) [demo_run] [''d1''] = Some t"
proof -
  have "take 8 (completed_runs (\<lambda>_. True) [demo_run] [''d1''] [''topology_validation'']) \<noteq> []"
    by (simp add: completed_runs_def newest_first_def demo_run_def)
  then show ?thesis
    using topology_run_choice [of "\<lambda>_. True" "[demo_run]" "[''d1'']"] unfolding Let_def by blast
qed

theorem coverage_exact_witness:
  "\<exists>c. getVlanCoverage (\<lambda>_ _. 0) (\<lambda>_. True) (demo_db DevOnline) = Some c \<and>
     mset (map vi_networkId (vc_vlans c)) = mset [''n1'', ''n2'']"
proof -
  obtain c where c: "getVlanCoverage (\<lambda>_ _. 0) (\<lambda>_. True) (demo_db DevOnline) = Some c" by (rule demo_covered)
  show ?thesis using coverage_exact [OF c] c unfolding demo_networks by blast
qed

lemma coverage_order_witness:
  "\<exists>c. getVlanCoverage (\<lambda>_ _. 0) (\<lambda>_. True) (demo_db DevOnline) = Some c \<and>
     sorted_wrt (\<lambda>a b. \<not> (vi_isCaptivePortal a \<and> \<not> vi_isCaptivePortal b)) (vc_vlans c)"
proof -
  obtain c where c: "getVlanCoverage (\<lambda>_ _. 0) (\<lambda>_. True) (demo_db DevOnline) = Some c" by (rule demo_covered)
  have "sorted_wrt (\<lambda>a b. \<not> (vi_isCaptivePortal a \<and> \<not> vi_isCaptivePortal b)) (vc_vlans c)"
    by (rule sorted_wrt_mono_rel [OF _ coverage_order [OF c]]) auto
  with c show ?thesis by (intro exI [of _ c] conjI)
qed

lemma other_vlan_devices_witness:
  "\<exists>x. x \<in> set (getDevicesOnOtherVlans (\<lambda>_ _. 0) (\<lambda>_. True) (demo_db DevOnline) ''n2'')"
proof -
  obtain c where c: "getVlanCoverage (\<lambda>_ _. 0) (\<lambda>_. True) (demo_db DevOnline) = Some c" by (rule demo_covered)
  have "list_ex (\<lambda>n. vw_id n \<noteq> ''n2'' \<and> on_subnet (Some ''10.0.1.7'') (vw_subnet n)) (mapped_networks (demo_db DevOnline))"
    by code_simp
  then obtain n where n: "n \<in> set (mapped_networks (demo_db DevOnline))" "vw_id n \<noteq> ''n2''"
    "on_subnet (Some ''10.0.1.7'') (vw_subnet n)" by (auto simp: list_ex_iff)
  let ?d = "hd (vd_devices (demo_db DevOnline))"
  have "?d \<in> set (vd_devices (demo_db DevOnline)) \<and> dw_ipAddress ?d = Some ''10.0.1.7'' \<and> dw_status ?d = DevOnline \<and>
      dw_deviceId ?d \<noteq> SERVER_DEVICE_ID"
    by (simp add: demo_db_def SERVER_DEVICE_ID_def)
  with n show ?thesis unfolding other_vlan_devices [OF c] by blast
qed

lemma busy_devices_hide_results_witness:
  "\<exists>c v. getVlanCoverage (\<lambda>_ _. 0) (\<lambda>_. True) (demo_db DevTesting) = Some c \<and> v \<in> set (vc_vlans c) \<and>
     vi_validation v = None \<and> validation_due 0 v"
proof -
  obtain c v where c: "getVlanCoverage (\<lambda>_ _. 0) (\<lambda>_. True) (demo_db DevTesting) = Some c" "v \<in> set (vc_vlans c)" "vi_hasCoverage v"
    by (rule demo_covered)
  have "vi_validation v = None \<and> (validation_due 0 v \<longleftrightarrow> vi_hasCoverage v \<or> vi_hasHostValidation v)"
    by (rule busy_devices_hide_results [OF c(1,2)]) (simp_all add: demo_networks, simp add: demo_db_def)
  with c show ?thesis by blast
qed

end
