(* ===== verification/Js_Parse.thy ===== *)
theory Js_Parse
  imports Js_Json
begin

text \<open>
  \<open>JSON.parse\<close>, and that it reads back what \<open>JSON.stringify\<close> writes.  The parser is a recursive
  descent over the text; its fuel is twice the length of the text and two more, which is always
  enough (\<open>json_value_fuel\<close>): every call works on a shorter text, or on the same text one level down.
  A number is the rational its text denotes.  A lone surrogate escape becomes its three-byte form.
\<close>

section \<open>Strings\<close>

definition utf8_bytes :: "nat \<Rightarrow> string" where
  "utf8_bytes n =
     map char_of
       (if n < 128 then [n]
        else if n < 2048 then [192 + n div 64, 128 + n mod 64]
        else if n < 65536 then [224 + n div 4096, 128 + n div 64 mod 64, 128 + n mod 64]
        else [240 + n div 262144, 128 + n div 4096 mod 64, 128 + n div 64 mod 64, 128 + n mod 64])"

definition hex4 :: "string \<Rightarrow> (nat \<times> string) option" where
  "hex4 s = (if length s < 4 then None
             else map_option (\<lambda>n. (n, drop 4 s)) (digits_val 16 0 (take 4 s)))"

text \<open>The text after \<open>\u\<close>: a code unit, or a high and a low surrogate that form one character.\<close>

definition json_unicode :: "string \<Rightarrow> (string \<times> string) option" where
  "json_unicode s =
     (case hex4 s of
        None \<Rightarrow> None
      | Some (n, r) \<Rightarrow>
          Some (case (if 55296 \<le> n \<and> n < 56320 \<and> take 2 r = [CHR 0x5C, CHR ''u''] then hex4 (drop 2 r) else None) of
                  None \<Rightarrow> (utf8_bytes n, r)
                | Some (m, r') \<Rightarrow>
                    if 56320 \<le> m \<and> m < 57344
                    then (utf8_bytes (65536 + (n - 55296) * 1024 + (m - 56320)), r')
                    else (utf8_bytes n, r)))"

lemma hex4_shorter: "hex4 s = Some (n, r) \<Longrightarrow> length r < length s"
  by (auto simp: hex4_def split: if_splits)

lemma json_unicode_shorter: "json_unicode s = Some (b, r) \<Longrightarrow> length r < length s"
  by (fastforce simp: json_unicode_def dest: hex4_shorter split: option.splits prod.splits if_splits)

definition simple_escape :: "char \<Rightarrow> char option" where
  "simple_escape e =
     (let n = (of_char e :: nat) in
      if n \<in> {34, 92, 47} then Some e
      else if n = 98 then Some (char_of (8 :: nat))
      else if n = 116 then Some (char_of (9 :: nat))
      else if n = 110 then Some (char_of (10 :: nat))
      else if n = 102 then Some (char_of (12 :: nat))
      else if n = 114 then Some (char_of (13 :: nat))
      else None)"

definition prefix_str :: "string \<Rightarrow> (string \<times> string) option \<Rightarrow> (string \<times> string) option" where
  "prefix_str p = map_option (\<lambda>x. (p @ fst x, snd x))"

text \<open>The rest of a string literal after its opening quote.\<close>

function json_string :: "string \<Rightarrow> (string \<times> string) option" where
  "json_string [] = None"
| "json_string (c # r) =
     (if c = CHR 0x22 then Some ([], r)
      else if (of_char c :: nat) < 32 then None
      else if c \<noteq> CHR 0x5C then prefix_str [c] (json_string r)
      else (case r of
              [] \<Rightarrow> None
            | e # r1 \<Rightarrow>
                if e = CHR ''u'' then
                  (case json_unicode r1 of None \<Rightarrow> None | Some (b, r2) \<Rightarrow> prefix_str b (json_string r2))
                else (case simple_escape e of None \<Rightarrow> None | Some d \<Rightarrow> prefix_str [d] (json_string r1))))"
  by pat_completeness auto
termination
  by (relation "measure length") (auto dest: json_unicode_shorter)

lemma json_string_shorter: "json_string s = Some (t, r) \<Longrightarrow> length r < length s"
proof (induction s arbitrary: t r rule: json_string.induct)
  case (2 c r0)
  then show ?case
    by (fastforce simp: prefix_str_def dest: json_unicode_shorter split: if_splits list.splits option.splits prod.splits)
qed simp

section \<open>Numbers\<close>

text \<open>An integer part without leading zeros, an optional fraction and an optional exponent, each with the text
  that follows it.\<close>

definition number_int :: "string \<Rightarrow> string \<times> string" where
  "number_int s =
     (if take 1 s = ''0'' then (''0'', drop 1 s) else (takeWhile is_digit s, dropWhile is_digit s))"

definition number_frac :: "string \<Rightarrow> string \<times> string" where
  "number_frac s =
     (let fp = takeWhile is_digit (drop 1 s) in
      if take 1 s = ''.'' \<and> fp \<noteq> [] then (fp, dropWhile is_digit (drop 1 s)) else ([], s))"

definition number_exp :: "string \<Rightarrow> int \<times> string" where
  "number_exp s =
     (case split_sign (drop 1 s) of (neg, t) \<Rightarrow>
        (let ed = takeWhile is_digit t in
         if take 1 (to_lower s) = ''e'' \<and> ed \<noteq> []
         then (if neg then - int (dec_val ed) else int (dec_val ed), dropWhile is_digit t)
         else (0, s)))"

definition json_number :: "string \<Rightarrow> (json \<times> string) option" where
  "json_number s =
     (let neg = (take 1 s = ''-'') in
      case number_int (if neg then drop 1 s else s) of (ip, s2) \<Rightarrow>
      case number_frac s2 of (fp, s3) \<Rightarrow>
      case number_exp s3 of (e, s4) \<Rightarrow>
        (let q = of_nat (dec_val (ip @ fp)) * pow10 (e - int (length fp)) in
         if ip = [] then None else Some (JNum (if neg then - q else q), s4)))"

lemma number_int_shorter: "number_int s = (ip, r) \<Longrightarrow> ip \<noteq> [] \<Longrightarrow> length r < length s"
proof (cases s)
  case (Cons c t)
  assume a: "number_int s = (ip, r)" "ip \<noteq> []"
  show ?thesis
  proof (cases "take 1 s = ''0''")
    case True
    then show ?thesis using a Cons by (auto simp: number_int_def)
  next
    case False
    then have "is_digit c" "r = dropWhile is_digit t"
      using a Cons by (auto simp: number_int_def split: if_splits)
    then show ?thesis using Cons by (simp add: length_dropWhile_le less_Suc_eq_le)
  qed
qed (auto simp: number_int_def)

lemma number_frac_le: "number_frac s = (fp, r) \<Longrightarrow> length r \<le> length s"
  using length_dropWhile_le [of is_digit "drop 1 s"] by (auto simp: number_frac_def Let_def split: if_splits)

lemma number_exp_le: "number_exp s = (e, r) \<Longrightarrow> length r \<le> length s"
proof -
  have "length (snd (split_sign t)) \<le> length t" for t
    by (auto simp: split_sign_def split: list.split)
  then have "length (dropWhile is_digit (snd (split_sign (drop 1 s)))) \<le> length s"
    by (metis length_dropWhile_le length_drop diff_le_self le_trans)
  then show "number_exp s = (e, r) \<Longrightarrow> length r \<le> length s"
    by (auto simp: number_exp_def Let_def split: if_splits prod.splits)
qed

lemma json_number_shorter: "json_number s = Some (j, r) \<Longrightarrow> length r < length s"
proof -
  assume a: "json_number s = Some (j, r)"
  let ?s1 = "if take 1 s = ''-'' then drop 1 s else s"
  obtain ip s2 where i: "number_int ?s1 = (ip, s2)" by (cases "number_int ?s1")
  obtain fp s3 where f: "number_frac s2 = (fp, s3)" by (cases "number_frac s2")
  obtain e s4 where e: "number_exp s3 = (e, s4)" by (cases "number_exp s3")
  have "ip \<noteq> []" "r = s4" using a unfolding json_number_def Let_def i f e prod.case by (simp_all split: if_splits)
  then have "length r < length ?s1"
    using number_int_shorter [OF i] number_frac_le [OF f] number_exp_le [OF e] by simp
  then show ?thesis by (simp split: if_splits)
qed

section \<open>Values\<close>

definition skip_ws :: "string \<Rightarrow> string" where
  "skip_ws s = dropWhile (\<lambda>c. (of_char c :: nat) \<in> {32, 9, 10, 13}) s"

lemma skip_ws_le: "length (skip_ws s) \<le> length s"
  by (simp add: skip_ws_def length_dropWhile_le)

definition json_word :: "string \<Rightarrow> (json \<times> string) option" where
  "json_word s =
     (if starts_with ''true'' s then Some (JBool True, drop 4 s)
      else if starts_with ''false'' s then Some (JBool False, drop 5 s)
      else if starts_with ''null'' s then Some (JNull, drop 4 s)
      else json_number s)"

text \<open>
  \<open>json_value\<close> reads a value, \<open>json_items\<close> the items of an array up to its bracket, \<open>json_members\<close> the
  members of an object up to its brace; a repeated key takes the last value.
\<close>

fun json_value :: "nat \<Rightarrow> string \<Rightarrow> (json \<times> string) option"
  and json_items :: "nat \<Rightarrow> string \<Rightarrow> (json list \<times> string) option"
  and json_members :: "nat \<Rightarrow> (string \<times> json) list \<Rightarrow> string \<Rightarrow> (json \<times> string) option"
where
  "json_value 0 s = None"
| "json_value (Suc n) s =
     (case skip_ws s of
        [] \<Rightarrow> None
      | c # r \<Rightarrow>
          if c = CHR 0x22 then map_option (\<lambda>x. (JStr (fst x), snd x)) (json_string r)
          else if c = CHR ''['' then
            (if take 1 (skip_ws r) = '']'' then Some (JArr [], drop 1 (skip_ws r))
             else map_option (\<lambda>x. (JArr (fst x), snd x)) (json_items n r))
          else if c = CHR ''{'' then
            (if take 1 (skip_ws r) = ''}'' then Some (JObj [], drop 1 (skip_ws r)) else json_members n [] r)
          else json_word (c # r))"
| "json_items 0 s = None"
| "json_items (Suc n) s =
     (case json_value n s of
        None \<Rightarrow> None
      | Some (x, r) \<Rightarrow>
          (case skip_ws r of
             [] \<Rightarrow> None
           | c # r1 \<Rightarrow>
               if c = CHR '','' then map_option (\<lambda>y. (x # fst y, snd y)) (json_items n r1)
               else if c = CHR '']'' then Some ([x], r1)
               else None))"
| "json_members 0 m s = None"
| "json_members (Suc n) m s =
     (if take 1 (skip_ws s) \<noteq> [CHR 0x22] then None
      else (case json_string (drop 1 (skip_ws s)) of
              None \<Rightarrow> None
            | Some (k, r) \<Rightarrow>
                if take 1 (skip_ws r) \<noteq> '':'' then None
                else (case json_value n (drop 1 (skip_ws r)) of
                        None \<Rightarrow> None
                      | Some (v, r1) \<Rightarrow>
                          (case skip_ws r1 of
                             [] \<Rightarrow> None
                           | c # r2 \<Rightarrow>
                               if c = CHR '','' then json_members n (om_set k v m) r2
                               else if c = CHR ''}'' then Some (JObj (om_set k v m), r2)
                               else None))))"

definition json_parse :: "string \<Rightarrow> json option" where
  "json_parse s =
     (case json_value (2 * length s + 2) s of
        None \<Rightarrow> None
      | Some (j, r) \<Rightarrow> if skip_ws r = [] then Some j else None)"

section \<open>The fuel is enough\<close>

lemma json_word_shorter: "json_word s = Some (j, r) \<Longrightarrow> length r < length s"
  by (auto simp: json_word_def starts_with_iff dest: json_number_shorter split: if_splits)

lemma drop1_skip_ws: "take 1 (skip_ws r) = [c] \<Longrightarrow> length (drop 1 (skip_ws r)) < length r"
  using skip_ws_le [of r] by (cases "skip_ws r") auto

lemma skip_ws_Cons: "skip_ws s = c # r \<Longrightarrow> length r < length s"
  using skip_ws_le [of s] by simp

lemma json_shorter:
  "json_value n s = Some (j, r) \<Longrightarrow> length r < length s"
  "json_items n s = Some (js, r) \<Longrightarrow> length r < length s"
  "json_members n m s = Some (j, r) \<Longrightarrow> length r < length s"
proof (induction n s and n s and n m s arbitrary: j r and js r and j r
    rule: json_value_json_items_json_members.induct)
  case (2 n s)
  show ?case
  proof (cases "skip_ws s")
    case (Cons c t)
    note t = skip_ws_Cons [OF Cons]
    show ?thesis
      using 2 Cons t json_string_shorter [of t] drop1_skip_ws [of t] json_word_shorter [of "c # t"] skip_ws_le [of s]
      by (fastforce split: if_splits)
  qed (use 2 in simp)
next
  case (4 n s)
  obtain x r1 where v: "json_value n s = Some (x, r1)" using 4(3) by (auto split: option.splits)
  obtain c r2 where w: "skip_ws r1 = c # r2" using 4(3) v by (auto split: list.splits)
  have "length r2 < length s" using 4(1) [OF v] skip_ws_Cons [OF w] by simp
  then show ?case using 4(2) [OF v] 4(3) v w by (fastforce split: if_splits)
next
  case (6 n m s)
  have q: "take 1 (skip_ws s) = [CHR 0x22]" using 6(3) by (simp split: if_splits)
  obtain k r1 where k: "json_string (drop 1 (skip_ws s)) = Some (k, r1)" using 6(3) q by (auto split: option.splits)
  have colon: "take 1 (skip_ws r1) = '':''" using 6(3) q k by (simp split: if_splits)
  obtain v r2 where v: "json_value n (drop 1 (skip_ws r1)) = Some (v, r2)" using 6(3) q k colon by (auto split: option.splits)
  obtain c r3 where w: "skip_ws r2 = c # r3" using 6(3) q k colon v by (auto split: list.splits)
  have "length r2 < length (drop 1 (skip_ws r1))" by (rule 6(1)) (use q k colon v in auto)
  then have l: "length r3 < length s"
    using skip_ws_Cons [OF w] drop1_skip_ws [OF colon] json_string_shorter [OF k] drop1_skip_ws [OF q] by simp
  show ?case
  proof (cases "c = CHR '',''")
    case True
    have "length r < length r3" by (rule 6(2) [of _ _ _ _ v r2 c]) (use 6(3) q k colon v w True in auto)
    then show ?thesis using l by simp
  next
    case False
    then show ?thesis using 6(3) q k colon v w l by (auto split: if_splits)
  qed
qed simp_all

lemma json_fuel:
  "2 * length s < n \<Longrightarrow> 2 * length s < n' \<Longrightarrow> json_value n s = json_value n' s"
  "2 * length s + 1 < n \<Longrightarrow> 2 * length s + 1 < n' \<Longrightarrow> json_items n s = json_items n' s"
  "2 * length s + 1 < n \<Longrightarrow> 2 * length s + 1 < n' \<Longrightarrow> json_members n m s = json_members n' m s"
proof (induction n s and n s and n m s arbitrary: n' and n' and n' rule: json_value_json_items_json_members.induct)
  case (2 n s)
  obtain n1 where n': "n' = Suc n1" using 2(4) by (cases n') auto
  show ?case
  proof (cases "skip_ws s")
    case (Cons c r)
    have l: "length r < length s" by (rule skip_ws_Cons [OF Cons])
    have "c = CHR ''['' \<Longrightarrow> take 1 (skip_ws r) \<noteq> '']'' \<Longrightarrow> json_items n r = json_items n1 r"
      by (rule 2(1) [OF Cons]) (use 2(3,4) l n' in auto)
    moreover have "c = CHR ''{'' \<Longrightarrow> take 1 (skip_ws r) \<noteq> ''}'' \<Longrightarrow> json_members n [] r = json_members n1 [] r"
      by (rule 2(2) [OF Cons]) (use 2(3,4) l n' in auto)
    ultimately show ?thesis by (auto simp: n' Cons)
  qed (simp add: n')
next
  case (4 n s)
  obtain n1 where n': "n' = Suc n1" using 4(4) by (cases n') auto
  have v: "json_value n s = json_value n1 s" by (rule 4(1)) (use 4(3,4) n' in auto)
  show ?case
  proof (cases "json_value n s")
    case (Some xr)
    obtain x r where xr: "xr = (x, r)" by (cases xr)
    have v2: "json_value n1 s = Some (x, r)" using v Some xr by simp
    show ?thesis
    proof (cases "skip_ws r")
      case (Cons c r1)
      have l: "length r1 < length s"
        using json_shorter(1) [of n s x r] Some xr skip_ws_Cons [OF Cons] by simp
      have "c = CHR '','' \<Longrightarrow> json_items n r1 = json_items n1 r1"
        by (rule 4(2) [OF Some xr [symmetric] Cons]) (use 4(3,4) l n' in auto)
      then show ?thesis by (auto simp: n' Cons v v2)
    qed (use v v2 n' in simp)
  qed (use v n' in simp)
next
  case (6 n m s)
  obtain n1 where n': "n' = Suc n1" using 6(4) by (cases n') auto
  show ?case
  proof (cases "take 1 (skip_ws s) = [CHR 0x22] \<and> (\<exists>k r. json_string (drop 1 (skip_ws s)) = Some (k, r) \<and>
      take 1 (skip_ws r) = '':'')")
    case True
    then obtain k r where q: "take 1 (skip_ws s) = [CHR 0x22]" "json_string (drop 1 (skip_ws s)) = Some (k, r)"
      "take 1 (skip_ws r) = '':''" by blast
    have l: "length (drop 1 (skip_ws r)) < length s"
      using drop1_skip_ws [OF q(3)] json_string_shorter [OF q(2)] drop1_skip_ws [OF q(1)] by simp
    have v: "json_value n (drop 1 (skip_ws r)) = json_value n1 (drop 1 (skip_ws r))"
      by (rule 6(1)) (use q l 6(3,4) n' in auto)
    show ?thesis
    proof (cases "json_value n (drop 1 (skip_ws r))")
      case (Some xr)
      obtain x r1 where xr: "xr = (x, r1)" by (cases xr)
      show ?thesis
      proof (cases "skip_ws r1")
        case (Cons c r2)
        have l2: "length r2 < length s"
          using json_shorter(1) [of n "drop 1 (skip_ws r)" x r1] Some xr skip_ws_Cons [OF Cons] l by simp
        have "c = CHR '','' \<Longrightarrow> json_members n (om_set k x m) r2 = json_members n1 (om_set k x m) r2"
          by (rule 6(2) [of "(k, r)" k r xr x r1 c]) (use q l2 6(3,4) n' Some xr Cons in auto)
        then show ?thesis using v Some xr Cons q by (auto simp: n')
      qed (use v Some xr n' q in simp)
    qed (use v n' q in simp)
  next
    case False
    then show ?thesis by (auto simp: n' split: option.split)
  qed
qed simp_all

lemma json_parse_fuel: "2 * length s < n \<Longrightarrow> json_parse s =
    (case json_value n s of None \<Rightarrow> None | Some (j, r) \<Rightarrow> if skip_ws r = [] then Some j else None)"
  unfolding json_parse_def by (subst json_fuel(1) [of s _ n]) simp_all

section \<open>Reading back what is written\<close>

text \<open>Values that JSON text can carry: no \<open>undefined\<close> and no \<open>BigInt\<close>, no repeated key, whole numbers.\<close>

fun plain_json :: "json \<Rightarrow> bool" where
  "plain_json JUndef = False"
| "plain_json JNull = True"
| "plain_json (JBool b) = True"
| "plain_json (JNum q) = (q = of_int \<lfloor>q\<rfloor>)"
| "plain_json (JBig i) = False"
| "plain_json (JStr s) = True"
| "plain_json (JArr xs) = list_all plain_json xs"
| "plain_json (JObj kvs) = (distinct (map fst kvs) \<and> list_all (\<lambda>kv. plain_json (snd kv)) kvs)"

lemma control_escape:
  assumes "n < 32"
  shows "digits_val 16 0 [CHR ''0'', CHR ''0'', hex_digit (n div 16), hex_digit (n mod 16)] = Some n"
proof -
  have "d < 16 \<Longrightarrow> digit_val (hex_digit d) = Some d" for d by (auto simp: hex_digit_def digit_val_def Let_def)
  moreover have "digit_val (CHR ''0'') = Some 0" by code_simp
  ultimately show ?thesis using assms by (simp add: less_mult_imp_div_less)
qed

lemma special_chars: "char_of (34 :: nat) = CHR 0x22" "char_of (92 :: nat) = CHR 0x5C"
  by code_simp+

lemma utf8_bytes_ascii: "n < 128 \<Longrightarrow> utf8_bytes n = [char_of n]"
  by (simp add: utf8_bytes_def)

lemma json_string_escape: "json_string (escape_char c @ t) = prefix_str [c] (json_string t)"
proof -
  define n where "n = (of_char c :: nat)"
  have c: "c = char_of n" by (simp add: n_def)
  consider "n \<in> {34, 92, 8, 9, 10, 12, 13}" | "n < 32" "n \<notin> {8, 9, 10, 12, 13}" | "32 \<le> n" "n \<notin> {34, 92}" by force
  then show ?thesis
  proof cases
    case 1
    then show ?thesis by (auto simp: escape_char_def c simple_escape_def special_chars Let_def)
  next
    case 2
    have "json_unicode ([CHR ''0'', CHR ''0'', hex_digit (n div 16), hex_digit (n mod 16)] @ t) = Some ([c], t)"
      unfolding json_unicode_def hex4_def using 2(1) control_escape [OF 2(1)] by (simp add: utf8_bytes_ascii c)
    then show ?thesis using 2 by (simp add: escape_char_def n_def [symmetric] Let_def)
  next
    case 3
    then have "c \<noteq> CHR 0x22" "c \<noteq> CHR 0x5C" by (auto simp: n_def)
    then show ?thesis using 3 by (simp add: escape_char_def n_def [symmetric] Let_def)
  qed
qed

lemma json_string_quote: "json_string (concat (map escape_char s) @ CHR 0x22 # t) = Some (s, t)"
  by (induction s) (simp_all add: json_string_escape prefix_str_def)

lemma show_nat_hd: "0 < n \<Longrightarrow> hd (show_nat n) \<noteq> CHR ''0''"
proof (induction n rule: show_nat.induct)
  case (1 n)
  show ?case
  proof (cases "n < 10")
    case True
    then have "show_nat n = [digit_char n]" by (subst show_nat.simps) simp
    moreover have "digit_char n \<noteq> digit_char 0" using 1(2) True by (simp add: digit_char_def char_of_eq_iff take_bit_nat_eq_self)
    moreover have "digit_char 0 = CHR ''0''" by code_simp
    ultimately show ?thesis by simp
  next
    case False
    then have "show_nat n = show_nat (n div 10) @ [digit_char (n mod 10)]" by (subst show_nat.simps) simp
    then show ?thesis using 1(1) False by simp
  qed
qed

text \<open>What may follow a number inside a text.\<close>

definition value_end :: "string \<Rightarrow> bool" where
  "value_end r \<longleftrightarrow> r = [] \<or> hd r \<in> {CHR '','', CHR '']'', CHR ''}''}"

lemma value_end_simps [simp]:
  "value_end []" "value_end (CHR '','' # r)" "value_end (CHR '']'' # r)" "value_end (CHR ''}'' # r)"
  by (simp_all add: value_end_def)

lemma number_int_show_nat:
  assumes "value_end r"
  shows "number_int (show_nat n @ r) = (show_nat n, r)"
proof -
  obtain c cs where s: "show_nat n = c # cs" by (meson neq_Nil_conv show_nat_ne)
  have end_digit: "takeWhile is_digit r = []" "dropWhile is_digit r = r"
    using assms by (cases r; auto simp: value_end_def is_digit_def Let_def)+
  have "takeWhile is_digit (show_nat n @ r) = show_nat n" "dropWhile is_digit (show_nat n @ r) = r"
    using end_digit by (simp_all add: takeWhile_append2 dropWhile_append2 show_nat_digits)
  moreover have "take 1 (show_nat n @ r) = ''0'' \<Longrightarrow> n = 0" using show_nat_hd [of n] by (auto simp: s)
  moreover have "show_nat 0 = ''0''" by code_simp
  ultimately show ?thesis by (auto simp: number_int_def)
qed

lemma number_rest: "value_end r \<Longrightarrow> number_frac r = ([], r)" "value_end r \<Longrightarrow> number_exp r = (0, r)"
  by (cases r; auto simp: value_end_def number_frac_def number_exp_def to_lower_def lower_char_def Let_def split: prod.split)+

lemma json_number_show_int:
  assumes "value_end r"
  shows "json_number (show_int i @ r) = Some (JNum (of_int i), r)"
proof -
  obtain c cs where s: "show_nat (nat i) = c # cs" by (meson neq_Nil_conv show_nat_ne)
  have "is_digit c" using show_nat_digits [of c "nat i"] by (simp add: s)
  then have c: "c \<noteq> CHR ''-''" by (rule is_digit_not(2))
  have d: "number_int (show_nat n @ r) = (show_nat n, r)" for n by (rule number_int_show_nat [OF assms])
  show ?thesis
  proof (cases "i < 0")
    case True
    then show ?thesis using d by (simp add: json_number_def show_int_def number_rest [OF assms] Let_def pow10_def)
  next
    case False
    then have "take 1 (show_int i @ r) \<noteq> ''-''" using c by (simp add: show_int_def s)
    then show ?thesis using False d
      by (simp add: json_number_def show_int_def number_rest [OF assms] Let_def pow10_def)
  qed
qed

lemma show_number_of_int: "show_number (of_int i) = show_int i"
  by (auto simp: show_number_def show_int_def Let_def)

text \<open>Every text of a value starts with a character that is not white space and that \<open>json_value\<close> recognises.\<close>

lemma show_int_start:
  obtains c t where "show_int i = c # t" "is_digit c \<or> c = CHR ''-''"
proof (cases "i < 0")
  case True
  then show ?thesis using that by (simp add: show_int_def)
next
  case False
  obtain c cs where s: "show_nat (nat i) = c # cs" by (meson neq_Nil_conv show_nat_ne)
  then have "is_digit c" using show_nat_digits [of c "nat i"] by simp
  then show ?thesis using that False s by (simp add: show_int_def)
qed

lemma number_start:
  assumes "is_digit c \<or> c = CHR ''-''"
  shows "skip_ws (c # t) = c # t" "json_word (c # t) = json_number (c # t)"
    "c \<notin> {CHR 0x22, CHR ''['', CHR ''{'', CHR '']'', CHR ''}''}"
  using assms by (auto simp: skip_ws_def json_word_def starts_with_def is_digit_def Let_def)

lemma json_value_number:
  assumes "value_end r" "0 < n"
  shows "json_value n (show_int i @ r) = Some (JNum (of_int i), r)"
proof -
  obtain c t where s: "show_int i = c # t" "is_digit c \<or> c = CHR ''-''" by (rule show_int_start)
  obtain k where n: "n = Suc k" using assms(2) by (cases n) auto
  have "json_word (c # t @ r) = Some (JNum (of_int i), r)"
    using json_number_show_int [OF assms(1), of i] number_start(2) [OF s(2)] by (simp add: s(1))
  then show ?thesis using number_start(1) [OF s(2), of "t @ r"] number_start(3) [OF s(2)] by (simp add: n s(1))
qed

lemma skip_ws_id: "skip_ws (c # t) = c # t" if "c \<in> {CHR 0x22, CHR ''['', CHR ''{'', CHR '','', CHR '']'', CHR ''}'', CHR '':''}"
  using that by (auto simp: skip_ws_def)

lemma stringify_start:
  assumes "plain_json j"
  shows "skip_ws (js_stringify j @ r) = js_stringify j @ r" "take 1 (js_stringify j @ r) \<noteq> '']''"
    "js_stringify j @ r \<noteq> []"
proof -
  have "(skip_ws (js_stringify j @ r) = js_stringify j @ r \<and> take 1 (js_stringify j @ r) \<noteq> '']'') \<and> js_stringify j @ r \<noteq> []"
  proof (cases j)
    case (JNum q)
    then obtain i where "q = of_int i" using assms by auto
    moreover obtain c t where "show_int i = c # t" "is_digit c \<or> c = CHR ''-''" by (rule show_int_start)
    ultimately show ?thesis using number_start(1) [of c "t @ r"] number_start(3) [of c] JNum
      by (auto simp: show_number_of_int)
  qed (use assms in \<open>auto simp: skip_ws_def quote_str_def\<close>)
  then show "skip_ws (js_stringify j @ r) = js_stringify j @ r" "take 1 (js_stringify j @ r) \<noteq> '']''"
    "js_stringify j @ r \<noteq> []" by blast+
qed

definition reads :: "json \<Rightarrow> bool" where
  "reads j \<longleftrightarrow> (\<forall>n r. value_end r \<longrightarrow> 2 * length (js_stringify j @ r) < n \<longrightarrow>
     json_value n (js_stringify j @ r) = Some (j, r))"

lemma readsD: "reads j \<Longrightarrow> value_end r \<Longrightarrow> 2 * length (js_stringify j @ r) < n \<Longrightarrow>
    json_value n (js_stringify j @ r) = Some (j, r)"
  by (simp add: reads_def)

lemma json_items_read:
  assumes "xs \<noteq> []" "\<And>x. x \<in> set xs \<Longrightarrow> reads x"
    and "2 * length (join '','' (map js_stringify xs) @ '']'' @ r) + 1 < n"
  shows "json_items n (join '','' (map js_stringify xs) @ '']'' @ r) = Some (xs, r)"
  using assms
proof (induction xs arbitrary: n)
  case (Cons x xs)
  obtain k where n: "n = Suc k" using Cons.prems(3) by (cases n) auto
  show ?case
  proof (cases xs)
    case Nil
    then have "json_value k (js_stringify x @ '']'' @ r) = Some (x, '']'' @ r)"
      by (intro readsD) (use Cons.prems n in auto)
    then show ?thesis by (simp add: n Nil skip_ws_id)
  next
    case (Cons y ys)
    let ?t = "join '','' (map js_stringify xs) @ '']'' @ r"
    have t: "join '','' (map js_stringify (x # xs)) @ '']'' @ r = js_stringify x @ CHR '','' # ?t"
      using Cons by simp
    have "json_value k (js_stringify x @ CHR '','' # ?t) = Some (x, CHR '','' # ?t)"
      by (rule readsD) (use Cons.prems n t in auto)
    moreover have "json_items k ?t = Some (xs, r)"
      by (rule Cons.IH) (use Cons.prems n t Cons in auto)
    ultimately show ?thesis unfolding t by (simp add: n skip_ws_id)
  qed
qed simp

definition member_text :: "string \<times> json \<Rightarrow> string" where
  "member_text kv = quote_str (fst kv) @ '':'' @ js_stringify (snd kv)"

lemma om_set_new: "k \<notin> fst ` set m \<Longrightarrow> om_set k v m = m @ [(k, v)]"
  by (induction m) auto

lemma json_members_read:
  assumes "kvs \<noteq> []" "\<And>kv. kv \<in> set kvs \<Longrightarrow> reads (snd kv) \<and> plain_json (snd kv)" "distinct (map fst (m @ kvs))"
    and "2 * length (join '','' (map member_text kvs) @ ''}'' @ r) + 1 < n"
  shows "json_members n m (join '','' (map member_text kvs) @ ''}'' @ r) = Some (JObj (m @ kvs), r)"
  using assms
proof (induction kvs arbitrary: n m)
  case (Cons kv kvs)
  obtain k where n: "n = Suc k" using Cons.prems(4) by (cases n) auto
  obtain key v where kv: "kv = (key, v)" by (cases kv)
  have new: "om_set key v m = m @ [(key, v)]" by (rule om_set_new) (use Cons.prems(3) kv in auto)
  have v: "reads v" "plain_json v" using Cons.prems(2) [of kv] kv by simp_all
  have step: "json_members n m (member_text kv @ t) =
      (case json_value k (js_stringify v @ t) of
         None \<Rightarrow> None
       | Some (v, r1) \<Rightarrow>
          (case skip_ws r1 of
             [] \<Rightarrow> None
           | c # r2 \<Rightarrow>
               if c = CHR '','' then json_members k (om_set key v m) r2
               else if c = CHR ''}'' then Some (JObj (om_set key v m), r2)
               else None))" for t
    by (simp add: n kv member_text_def quote_str_def skip_ws_id json_string_quote)
  show ?case
  proof (cases kvs)
    case Nil
    have "json_value k (js_stringify v @ ''}'' @ r) = Some (v, ''}'' @ r)"
      by (rule readsD) (use Cons.prems n v Nil kv in \<open>auto simp: member_text_def\<close>)
    then show ?thesis using step [of "''}'' @ r"] by (simp add: Nil skip_ws_id new kv)
  next
    case (Cons kv' kvs')
    let ?t = "join '','' (map member_text kvs) @ ''}'' @ r"
    have t: "join '','' (map member_text (kv # kvs)) @ ''}'' @ r = member_text kv @ CHR '','' # ?t"
      using Cons by simp
    have "json_value k (js_stringify v @ CHR '','' # ?t) = Some (v, CHR '','' # ?t)"
    proof (rule readsD [OF v(1)])
      have "length (js_stringify v) \<le> length (member_text kv)" by (simp add: member_text_def kv)
      then show "2 * length (js_stringify v @ CHR '','' # ?t) < k"
        using Cons.prems(4) [unfolded t] by (simp only: length_append list.size n) simp
    qed simp
    moreover have "json_members k (m @ [(key, v)]) ?t = Some (JObj ((m @ [(key, v)]) @ kvs), r)"
      by (rule Cons.IH) (use Cons.prems n t Cons kv in auto)
    ultimately show ?thesis unfolding t using step [of "CHR '','' # ?t"] by (simp add: skip_ws_id new kv)
  qed
qed simp

lemma json_value_words:
  assumes "0 < n"
  shows "json_value n (''null'' @ r) = Some (JNull, r)" "json_value n (''true'' @ r) = Some (JBool True, r)"
    "json_value n (''false'' @ r) = Some (JBool False, r)"
  using assms by (cases n; simp add: json_word_def skip_ws_def starts_with_def)+

lemma plain_json_reads: "plain_json j \<Longrightarrow> reads j"
proof (induction j)
  case (JNum q)
  then obtain i where "q = of_int i" by auto
  then show ?case by (simp add: reads_def json_value_number show_number_of_int)
next
  case (JStr s)
  show ?case unfolding reads_def
  proof (intro allI impI)
    fix n r assume "2 * length (js_stringify (JStr s) @ r) < n"
    then obtain k where "n = Suc k" by (cases n) auto
    then show "json_value n (js_stringify (JStr s) @ r) = Some (JStr s, r)"
      by (simp add: quote_str_def skip_ws_id json_string_quote)
  qed
next
  case (JArr xs)
  show ?case unfolding reads_def
  proof (intro allI impI)
    fix n r assume "2 * length (js_stringify (JArr xs) @ r) < n"
    then obtain k where n: "n = Suc k" and k: "2 * length (join '','' (map js_stringify xs) @ '']'' @ r) + 1 < k" by (cases n) auto
    show "json_value n (js_stringify (JArr xs) @ r) = Some (JArr xs, r)"
    proof (cases xs)
      case (Cons x ys)
      let ?t = "join '','' (map js_stringify xs) @ '']'' @ r"
      obtain u where u: "?t = js_stringify x @ u" using Cons by (cases ys) auto
      have px: "plain_json x" using JArr.prems Cons by simp
      have "take 1 (skip_ws ?t) \<noteq> '']''" 
        unfolding u stringify_start(1) [OF px] by (rule stringify_start(2) [OF px])
      moreover have "json_items k ?t = Some (xs, r)"
        by (rule json_items_read) (use JArr Cons k in \<open>auto simp: list_all_iff\<close>)
      ultimately show ?thesis by (simp add: n skip_ws_id)
    qed (simp add: n skip_ws_id)
  qed
next
  case (JObj kvs)
  have tx: "js_stringify (JObj kvs) = ''{'' @ join '','' (map member_text kvs) @ ''}''"
  proof -
    have "map (\<lambda>kv. if snd kv = JUndef then [] else [quote_str (fst kv) @ '':'' @ js_stringify (snd kv)]) kvs
        = map (\<lambda>kv. [member_text kv]) kvs"
      using JObj.prems by (auto simp: list_all_iff member_text_def)
    then show ?thesis by (simp only: js_stringify.simps concat_map_singleton)
  qed
  show ?case unfolding reads_def
  proof (intro allI impI)
    fix n r assume "2 * length (js_stringify (JObj kvs) @ r) < n"
    then obtain k where n: "n = Suc k" and k: "2 * length (join '','' (map member_text kvs) @ ''}'' @ r) + 1 < k"
      unfolding tx by (cases n) auto
    show "json_value n (js_stringify (JObj kvs) @ r) = Some (JObj kvs, r)"
    proof (cases kvs)
      case (Cons kv rest)
      let ?t = "join '','' (map member_text kvs) @ ''}'' @ r"
      obtain u where u: "?t = CHR 0x22 # u" using Cons by (cases rest) (auto simp: member_text_def quote_str_def)
      have "json_members k [] ?t = Some (JObj ([] @ kvs), r)"
      proof (rule json_members_read)
        fix kv assume "kv \<in> set kvs"
        then show "reads (snd kv) \<and> plain_json (snd kv)"
          using JObj.IH [of kv "snd kv"] JObj.prems by (auto simp: list_all_iff snds.simps)
      qed (use JObj.prems k Cons in auto)
      moreover have "take 1 (skip_ws ?t) \<noteq> ''}''" unfolding u by (simp add: skip_ws_id)
      ultimately show ?thesis unfolding tx by (simp add: n skip_ws_id)
    qed (simp add: n tx skip_ws_id)
  qed
next
  case JNull
  show ?case unfolding reads_def js_stringify.simps using json_value_words(1) by simp
next
  case (JBool b)
  show ?case unfolding reads_def js_stringify.simps using json_value_words(2,3) by (cases b) simp_all
qed simp_all

lemma json_parse_stringify: "plain_json j \<Longrightarrow> json_parse (js_stringify j) = Some j"
  using plain_json_reads [of j] unfolding reads_def json_parse_def
  by (auto dest: spec [of _ "2 * length (js_stringify j) + 2"] spec [of _ "[]"] simp: skip_ws_def)

end
