(* ===== verification/Test_Generator.thy ===== *)
theory Test_Generator
  imports Vlan_Coverage Js_Parse
begin

text \<open>
  The generating half of \<open>services/topologyTestGenerator.ts\<close>: which probes a test device is asked to run, and
  the metadata stored with the run that says what each probe is expected to find.

  An identifier the configuration leaves out is \<open>None\<close>; text made of it reads \<open>undefined\<close>.  A command and
  the metadata are JSON objects, as they are sent and stored.  An exception is \<open>None\<close>.
\<close>

section \<open>Networks of the configuration\<close>

record net_info =
  ni_id :: "string option"
  ni_name :: string
  ni_purpose :: string
  ni_vlan :: json
  ni_subnet :: "string option"
  ni_gatewayIp :: "string option"

definition id_text :: "string option \<Rightarrow> string" where
  "id_text i = dflt ''undefined'' i"

text \<open>The expression \<open>^(\d+)\.(\d+)\.(\d+)\.(\d+)\/(\d+)$\<close> and its groups.\<close>

definition digits :: "string \<Rightarrow> bool" where
  "digits s \<longleftrightarrow> s \<noteq> [] \<and> list_all is_digit s"

definition match_cidr :: "string \<Rightarrow> (string list \<times> string) option" where
  "match_cidr s =
     (case split_on CHR ''/'' s of
        [addr, cidr] \<Rightarrow>
          (let ps = split_on CHR ''.'' addr in
           if length ps = 4 \<and> list_all digits ps \<and> digits cidr then Some (ps, cidr) else None)
      | _ \<Rightarrow> None)"

definition getGatewayFromSubnet :: "string option \<Rightarrow> string option" where
  "getGatewayFromSubnet subnet =
     (if \<not> truthy subnet then None
      else map_option (\<lambda>m. join ''.'' (take 3 (fst m)) @ ''.1'') (match_cidr (the subnet)))"

definition parse_network :: "(string \<times> json) list \<Rightarrow> net_info" where
  "parse_network n =
     (let subnet = str_or (get_str n ''subnet'') (get_str n ''ip_subnet'') in
      \<lparr>ni_id = str_or (str_or (get_str n ''_id'') (get_str n ''id'')) (get_str n ''network_id''),
       ni_name = str_dflt (str_or (get_str n ''name'') (get_str n ''network_name'')) ''Unknown'',
       ni_purpose = str_dflt (str_or (get_str n ''purpose'') (get_str n ''network_purpose'')) ''corporate'',
       ni_vlan = json_or (field n ''vlan'') (field n ''vlan_id''),
       ni_subnet = subnet, ni_gatewayIp = getGatewayFromSubnet subnet\<rparr>)"

definition parseNetworks :: "(string \<times> json) list \<Rightarrow> net_info list option" where
  "parseNetworks config =
     (case first_of config [''networks'', ''networkConf'', ''networkconf''] of
        JArr js \<Rightarrow> map_option (map parse_network) (item_fields js)
      | _ \<Rightarrow> None)"

text \<open>
  The mask is computed by \<open>1 << (32 - cidr)\<close>, whose shift count is taken modulo 32; a missing part of the
  address counts as zero.
\<close>

definition ip_part :: "string \<Rightarrow> nat \<Rightarrow> 32 word" where
  "ip_part ip i = (let ps = split_on CHR ''.'' ip in if i < length ps then to_word32 (js_number (ps ! i)) else 0)"

definition ip_bits :: "string \<Rightarrow> 32 word" where
  "ip_bits ip = shl32 (ip_part ip 0) 24 OR shl32 (ip_part ip 1) 16 OR shl32 (ip_part ip 2) 8 OR ip_part ip 3"

definition dec_word :: "string \<Rightarrow> 32 word" where
  "dec_word s = to_word32 (Fin (of_nat (dec_val s)))"

definition network_bits :: "string list \<Rightarrow> 32 word" where
  "network_bits ps = shl32 (dec_word (ps ! 0)) 24 OR shl32 (dec_word (ps ! 1)) 16 OR shl32 (dec_word (ps ! 2)) 8 OR
     dec_word (ps ! 3)"

definition host_mask :: "string \<Rightarrow> 32 word" where
  "host_mask cidr = NOT (shl32 1 (32 - int (dec_val cidr)) - 1)"

definition in_network :: "string \<Rightarrow> net_info \<Rightarrow> bool" where
  "in_network ip network =
     (if \<not> truthy (ni_subnet network) then False
      else (case match_cidr (the (ni_subnet network)) of
              None \<Rightarrow> False
            | Some (ps, cidr) \<Rightarrow> ip_bits ip AND host_mask cidr = network_bits ps AND host_mask cidr))"

definition findDeviceNetwork :: "string \<Rightarrow> net_info list \<Rightarrow> net_info option" where
  "findDeviceNetwork deviceIp networks = (if deviceIp = [] then None else find (in_network deviceIp) networks)"

section \<open>Devices to probe\<close>

record device_target =
  dt_ip :: string
  dt_name :: string
  dt_networkId :: "string option"
  dt_networkName :: "string option"
  dt_isEsp32 :: bool
  dt_isServer :: bool
  dt_isNas :: bool
  dt_port :: nat

definition mapped_mac :: "device_mapping option \<Rightarrow> string option" where
  "mapped_mac m = Option.bind m (\<lambda>d. map_option to_lower (dm_mac d))"

definition client_ip :: "(string \<times> json) list \<Rightarrow> string option" where
  "client_ip c = str_or (str_or (get_str c ''ip'') (get_str c ''last_ip'')) (get_str c ''fixed_ip'')"

definition client_target ::
    "(string \<times> net_info) list \<Rightarrow> stored_profile \<Rightarrow> string \<Rightarrow> (string \<times> json) list \<Rightarrow> device_target" where
  "client_target networkMap profile ip client =
     (let networkId = get_str client ''network_id'';
          networkInfo = (if truthy networkId then om_get networkMap (the networkId) else None);
          mac = map_option to_lower (get_str client ''mac'');
          isNas = (mapped_mac (sp_nasDevice profile) = mac);
          isServer = (mapped_mac (sp_serverDevice profile) = mac)
      in \<lparr>dt_ip = ip,
          dt_name = str_dflt (str_or (str_or (get_str client ''name'') (get_str client ''hostname'')) (get_str client ''display_name'')) ip,
          dt_networkId = networkId, dt_networkName = map_option ni_name networkInfo,
          dt_isEsp32 = False, dt_isServer = isServer, dt_isNas = isNas,
          dt_port = (if isServer then 22 else if isNas then 5000 else 80)\<rparr>)"

definition client_step ::
    "(string \<times> net_info) list \<Rightarrow> stored_profile \<Rightarrow> string list \<times> device_target list \<Rightarrow> (string \<times> json) list \<Rightarrow>
     string list \<times> device_target list" where
  "client_step networkMap profile st client =
     (case client_ip client of
        None \<Rightarrow> st
      | Some ip \<Rightarrow>
          if ip = [] \<or> ip \<in> set (fst st) then st
          else (os_add ip (fst st), snd st @ [client_target networkMap profile ip client]))"

definition networks_by_id :: "net_info list \<Rightarrow> (string \<times> net_info) list" where
  "networks_by_id networks = om_of (map (\<lambda>n. (the (ni_id n), n)) (filter (\<lambda>n. ni_id n \<noteq> None) networks))"

definition getDeviceTargets :: "(string \<times> json) list \<Rightarrow> net_info list \<Rightarrow> stored_profile \<Rightarrow> device_target list option" where
  "getDeviceTargets config networks profile =
     Option.bind (js_items (first_of config [''clients'', ''user'', ''sta'']))
       (\<lambda>clients. map_option (\<lambda>cs. snd (foldl (client_step (networks_by_id networks) profile) ([], []) cs)) (item_fields clients))"

definition getGatewayTarget :: "string option \<Rightarrow> string \<Rightarrow> device_target option" where
  "getGatewayTarget subnet networkName =
     map_option
       (\<lambda>ip. \<lparr>dt_ip = ip, dt_name = networkName @ '' Gateway'', dt_networkId = None, dt_networkName = None,
              dt_isEsp32 = False, dt_isServer = False, dt_isNas = False, dt_port = 80\<rparr>)
       (getGatewayFromSubnet subnet)"

definition test_device_target :: "net_info list \<Rightarrow> device_target list \<Rightarrow> device_row \<Rightarrow> device_target list" where
  "test_device_target networks targets td =
     (if truthy (dw_ipAddress td) \<and> find (\<lambda>d. Some (dt_ip d) = dw_ipAddress td) targets = None then
        (let ip = the (dw_ipAddress td); network = findDeviceNetwork ip networks in
         targets @
         [\<lparr>dt_ip = ip, dt_name = dw_name td, dt_networkId = Option.bind network ni_id,
           dt_networkName = map_option ni_name network, dt_isEsp32 = True, dt_isServer = False, dt_isNas = False,
           dt_port = 80\<rparr>])
      else targets)"

section \<open>What each path is expected to do\<close>

text \<open>The fields of the decision are kept together.\<close>

record directional_expectation =
  de_sourceNetworkId :: "string option"
  de_sourceNetworkName :: string
  de_targetNetworkId :: "string option"
  de_targetNetworkName :: string
  de_decision :: decision

definition is_wan :: "net_info \<Rightarrow> bool" where
  "is_wan n \<longleftrightarrow> to_lower (ni_purpose n) = ''wan''"

definition generator_evaluator ::
    "(string \<Rightarrow> string \<Rightarrow> int) \<Rightarrow> stored_profile \<Rightarrow> (string \<times> json) list \<Rightarrow> net_info list \<Rightarrow> evaluator" where
  "generator_evaluator cmp profile config networks =
     createReachabilityPolicyEvaluator cmp (Some config) (Some (intent_profile.truncate profile))
       (map (\<lambda>n. \<lparr>pn_id = dflt [] (ni_id n), pn_name = ni_name n\<rparr>) networks)"

definition expectation_of :: "evaluator \<Rightarrow> net_info \<Rightarrow> net_info \<Rightarrow> directional_expectation" where
  "expectation_of ev source target =
     \<lparr>de_sourceNetworkId = ni_id source, de_sourceNetworkName = ni_name source,
      de_targetNetworkId = ni_id target, de_targetNetworkName = ni_name target,
      de_decision = evaluate ev (id_text (ni_id source)) (id_text (ni_id target))\<rparr>"

definition buildDirectionalExpectations ::
    "(string \<Rightarrow> string \<Rightarrow> int) \<Rightarrow> stored_profile \<Rightarrow> (string \<times> json) list \<Rightarrow> net_info list \<Rightarrow> string option \<Rightarrow>
     directional_expectation list" where
  "buildDirectionalExpectations cmp profile config networks sourceNetworkFilterId =
     (let ev = generator_evaluator cmp profile config networks in
      concat (map (\<lambda>source. map (expectation_of ev source)
                     (filter (\<lambda>target. \<not> (ni_id target = ni_id source \<or> is_wan target)) networks))
        (filter (\<lambda>source. \<not> is_wan source \<and>
                   \<not> (truthy sourceNetworkFilterId \<and> ni_id source \<noteq> sourceNetworkFilterId)) networks)))"

section \<open>Probes\<close>

type_synonym command = "(string \<times> json) list"

record test_target =
  tg_expectation :: directional_expectation
  tg_deviceName :: string
  tg_ip :: string
  tg_port :: nat

type_synonym probe_state = "string list \<times> test_target list"

text \<open>A probe whose key has been used, for any path, is not repeated.\<close>

definition add_probe :: "string \<Rightarrow> test_target \<Rightarrow> probe_state \<Rightarrow> probe_state" where
  "add_probe key t st = (if key \<in> set (fst st) then st else (fst st @ [key], snd st @ [t]))"

definition tcp_probe :: "directional_expectation \<Rightarrow> device_target \<Rightarrow> probe_state \<Rightarrow> probe_state" where
  "tcp_probe e d =
     add_probe (target_key (dt_ip d) (show_nat (dt_port d)))
       \<lparr>tg_expectation = e, tg_deviceName = dt_name d, tg_ip = dt_ip d, tg_port = dt_port d\<rparr>"

definition target_network :: "net_info list \<Rightarrow> directional_expectation \<Rightarrow> net_info option" where
  "target_network networks e = find (\<lambda>n. ni_id n = de_targetNetworkId e) networks"

definition tcp_step :: "net_info list \<Rightarrow> device_target list \<Rightarrow> probe_state \<Rightarrow> directional_expectation \<Rightarrow> probe_state" where
  "tcp_step networks deviceTargets st e =
     (let targetDevices = filter (\<lambda>d. dt_networkId d = de_targetNetworkId e) deviceTargets in
      if 0 < length targetDevices then foldl (\<lambda>st d. tcp_probe e d st) st (take 5 targetDevices)
      else (case target_network networks e of
              None \<Rightarrow> st
            | Some n \<Rightarrow>
                if \<not> truthy (ni_subnet n) then st
                else (case getGatewayTarget (ni_subnet n) (de_targetNetworkName e) of
                        None \<Rightarrow> st
                      | Some gw \<Rightarrow> tcp_probe e gw st)))"

definition ping_step :: "net_info list \<Rightarrow> probe_state \<Rightarrow> directional_expectation \<Rightarrow> probe_state" where
  "ping_step networks st e =
     (case Option.bind (target_network networks e) ni_gatewayIp of
        None \<Rightarrow> st
      | Some ip \<Rightarrow>
          if ip = [] then st
          else add_probe (''ping:'' @ ip)
                 \<lparr>tg_expectation = e, tg_deviceName = de_targetNetworkName e @ '' Gateway'', tg_ip = ip, tg_port = 0\<rparr> st)"

definition tcp_command :: "test_target \<Rightarrow> command" where
  "tcp_command t =
     [(''op'', JStr ''tcp_connect''), (''host'', JStr (tg_ip t)), (''port'', js_int (int (tg_port t))), (''timeout'', JNum 2000)]"

definition ping_command :: "test_target \<Rightarrow> command" where
  "ping_command t = [(''op'', JStr ''ping''), (''host'', JStr (tg_ip t)), (''timeout'', JNum 2000)]"

definition network_info_command :: command where
  "network_info_command = [(''op'', JStr ''get_network_info'')]"

text \<open>The probes for a list of expectations: the connections first, then the gateways.\<close>

definition tcp_targets :: "net_info list \<Rightarrow> device_target list \<Rightarrow> directional_expectation list \<Rightarrow> probe_state" where
  "tcp_targets networks devices es = foldl (tcp_step networks devices) ([], []) es"

definition ping_targets :: "net_info list \<Rightarrow> string list \<Rightarrow> directional_expectation list \<Rightarrow> test_target list" where
  "ping_targets networks tested es = snd (foldl (ping_step networks) (tested, []) es)"

section \<open>The metadata of a run\<close>

definition opt_json :: "string option \<Rightarrow> json" where
  "opt_json s = (case s of None \<Rightarrow> JUndef | Some t \<Rightarrow> JStr t)"

fun category_text :: "category \<Rightarrow> string" where
  "category_text CDefault = ''default''"
| "category_text CHome = ''home''"
| "category_text CWork = ''work''"
| "category_text CIot = ''iot''"
| "category_text CGuest = ''guest''"
| "category_text CTrusted = ''trusted''"
| "category_text CNas = ''nas''"
| "category_text CServer = ''server''"

fun source_text :: "policy_source \<Rightarrow> string" where
  "source_text FromIntent = ''intent''"
| "source_text FromEffective = ''effective''"
| "source_text Hybrid = ''hybrid''"
| "source_text Conflicting = ''conflict''"

definition expectation_json :: "directional_expectation \<Rightarrow> json" where
  "expectation_json e = (let d = de_decision e in JObj
     [(''sourceNetwork'', JStr (de_sourceNetworkName e)), (''sourceNetworkId'', opt_json (de_sourceNetworkId e)),
      (''sourceCategory'', JStr (category_text (ds_sourceCategory d))),
      (''targetNetwork'', JStr (de_targetNetworkName e)), (''targetNetworkId'', opt_json (de_targetNetworkId e)),
      (''targetCategory'', JStr (category_text (ds_targetCategory d))),
      (''expected'', JStr (ex_text (ds_expected d))), (''intentExpected'', JStr (ex_text (ds_intentExpected d))),
      (''effectiveExpected'', JStr (ex_text (ds_effectiveExpected d))), (''reason'', JStr (ds_reason d)),
      (''intentReason'', JStr (ds_intentReason d)), (''effectiveReason'', JStr (ds_effectiveReason d)),
      (''effectiveExplicit'', JBool (ds_effectiveExplicit d)), (''confidence'', JNum (ds_confidence d)),
      (''conflict'', JBool (ds_conflict d)), (''policySource'', JStr (source_text (ds_policySource d)))])"

definition target_json :: "test_target \<Rightarrow> json" where
  "target_json t = (let e = tg_expectation t; d = de_decision e in JObj
     [(''sourceNetwork'', JStr (de_sourceNetworkName e)), (''sourceNetworkId'', opt_json (de_sourceNetworkId e)),
      (''targetNetworkId'', opt_json (de_targetNetworkId e)), (''network'', JStr (de_targetNetworkName e)),
      (''deviceName'', JStr (tg_deviceName t)), (''ip'', JStr (tg_ip t)), (''port'', js_int (int (tg_port t))),
      (''expected'', JStr (ex_text (ds_expected d))), (''intentExpected'', JStr (ex_text (ds_intentExpected d))),
      (''effectiveExpected'', JStr (ex_text (ds_effectiveExpected d))),
      (''verdict'', JStr (if ds_conflict d then ''conflict'' else ''unknown'')), (''confidence'', JNum (ds_confidence d)),
      (''direction'', JStr ''src_to_dst''), (''policySource'', JStr (source_text (ds_policySource d))),
      (''reason'', JStr (ds_reason d)), (''intentReason'', JStr (ds_intentReason d)),
      (''effectiveReason'', JStr (ds_effectiveReason d)), (''effectiveExplicit'', JBool (ds_effectiveExplicit d)),
      (''sourceCategory'', JStr (category_text (ds_sourceCategory d))),
      (''targetCategory'', JStr (category_text (ds_targetCategory d))),
      (''shouldBeBlocked'', JBool (ds_expected d = ExBlock))])"

definition network_json :: "net_info \<Rightarrow> json" where
  "network_json n = JObj [(''name'', JStr (ni_name n)), (''subnet'', opt_json (ni_subnet n)), (''vlan'', ni_vlan n)]"

definition or_null :: "string option \<Rightarrow> json" where
  "or_null s = (if truthy s then JStr (the s) else JNull)"

definition topology_metadata ::
    "net_info option \<Rightarrow> string option \<Rightarrow> device_row option \<Rightarrow> net_info list \<Rightarrow> directional_expectation list \<Rightarrow>
     test_target list \<Rightarrow> json" where
  "topology_metadata deviceNetwork deviceIp sourceDevice networks es targets = JObj
     [(''deviceNetwork'', opt_json (map_option ni_name deviceNetwork)),
      (''deviceNetworkId'', opt_json (Option.bind deviceNetwork ni_id)),
      (''sourceDeviceIp'', or_null deviceIp),
      (''sourceDeviceId'', or_null (map_option dw_deviceId sourceDevice)),
      (''sourceDeviceName'', or_null (map_option dw_name sourceDevice)),
      (''networks'', JArr (map network_json networks)),
      (''policyExpectations'', JArr (map expectation_json es)),
      (''testTargets'', JArr (map target_json targets))]"

definition topology_plan ::
    "net_info list \<Rightarrow> device_target list \<Rightarrow> directional_expectation list \<Rightarrow> command list \<times> test_target list" where
  "topology_plan networks deviceTargets es =
     (let st = tcp_targets networks deviceTargets es;
          pings = ping_targets networks (fst st) es
      in ([network_info_command] @ map tcp_command (snd st) @ map ping_command pings, snd st @ pings))"

definition no_plan :: "string \<Rightarrow> (command list \<times> json) option" where
  "no_plan e = Some ([network_info_command], JObj [(''error'', JStr e)])"

definition is_probing :: "device_row \<Rightarrow> bool" where
  "is_probing d \<longleftrightarrow> dw_status d = DevOnline \<or> dw_status d = DevTesting"

definition generateTopologyTestCommands ::
    "(string \<Rightarrow> string \<Rightarrow> int) \<Rightarrow> vlan_db \<Rightarrow> string option \<Rightarrow> (command list \<times> json) option" where
  "generateTopologyTestCommands cmp db deviceIp =
     (case vd_profile db of
        None \<Rightarrow> no_plan ''No intent profile configured''
      | Some profile \<Rightarrow>
          (case find cf_isActive (vd_configs db) of
             None \<Rightarrow> no_plan ''No network configuration available''
           | Some c \<Rightarrow>
               if cf_configJson c = JNull then None
               else
                 (let config = obj_fields (cf_configJson c) in
                  case parseNetworks config of
                    None \<Rightarrow> None
                  | Some networks \<Rightarrow>
                      (let known = truthy deviceIp;
                           deviceNetwork = (if known then findDeviceNetwork (the deviceIp) networks else None);
                           sourceDevice = (if known then find (\<lambda>d. dw_ipAddress d = deviceIp) (vd_devices db) else None);
                           es = buildDirectionalExpectations cmp profile config networks (Option.bind deviceNetwork ni_id)
                       in case getDeviceTargets config networks profile of
                            None \<Rightarrow> None
                          | Some clients \<Rightarrow>
                              (let devices = foldl (test_device_target networks) clients (filter is_probing (vd_devices db));
                                   plan = topology_plan networks devices es
                               in Some (fst plan,
                                    topology_metadata deviceNetwork deviceIp sourceDevice networks es (snd plan)))))))"

section \<open>Device to device\<close>

definition extract_network :: "(string \<times> json) list \<Rightarrow> net_info" where
  "extract_network n =
     \<lparr>ni_id = str_or (get_str n ''_id'') (get_str n ''id''), ni_name = str_dflt (get_str n ''name'') ''Unknown'',
      ni_purpose = str_dflt (get_str n ''purpose'') ''corporate'', ni_vlan = json_or (field n ''vlan'') (field n ''vlan_id''),
      ni_subnet = str_or (get_str n ''ip_subnet'') (get_str n ''subnet''), ni_gatewayIp = None\<rparr>"

definition extractNetworks :: "json \<Rightarrow> net_info list option" where
  "extractNetworks configJson =
     (case first_of (obj_fields configJson) [''networks'', ''networkConf'', ''networkconf''] of
        JArr js \<Rightarrow> map_option (map extract_network) (item_fields js)
      | _ \<Rightarrow> None)"

definition config_networks :: "vlan_db \<Rightarrow> net_info list option" where
  "config_networks db =
     (case find cf_isActive (vd_configs db) of
        None \<Rightarrow> Some []
      | Some c \<Rightarrow> if json_truthy (cf_configJson c) then extractNetworks (cf_configJson c) else Some [])"

definition getNetworkName :: "net_info list \<Rightarrow> string \<Rightarrow> string option" where
  "getNetworkName networks ip =
     map_option ni_name (find (\<lambda>n. truthy (ni_subnet n) \<and> ipInSubnet ip (the (ni_subnet n))) networks)"

record peer =
  pr_id :: string
  pr_name :: string
  pr_ip :: string
  pr_network :: "string option"

definition peer_of :: "net_info list \<Rightarrow> device_row \<Rightarrow> peer" where
  "peer_of networks d =
     \<lparr>pr_id = dw_deviceId d, pr_name = dw_name d, pr_ip = dflt [] (dw_ipAddress d),
      pr_network = (if truthy (dw_ipAddress d) then getNetworkName networks (the (dw_ipAddress d)) else None)\<rparr>"

definition probe_command :: "string \<Rightarrow> string \<Rightarrow> (string \<times> json) list \<Rightarrow> rat \<Rightarrow> string \<Rightarrow> command" where
  "probe_command probe host port timeout label =
     [(''op'', JStr probe), (''host'', JStr host)] @ port @ [(''timeout'', JNum timeout), (''label'', JStr label)]"

definition device_commands :: "peer \<Rightarrow> command list" where
  "device_commands t =
     [probe_command ''tcp_connect'' (pr_ip t) [(''port'', JNum 9999)] 3000 (''ZeroProof Test Port - '' @ pr_name t),
      probe_command ''ping'' (pr_ip t) [] 2000 (''Ping - '' @ pr_name t)]"

record device_plan =
  dp_commands :: "command list"
  dp_sourceDevice :: peer
  dp_targetDevices :: "peer list"
  dp_error :: "string option"

definition generateDeviceToDeviceCommands :: "vlan_db \<Rightarrow> string \<Rightarrow> device_plan option" where
  "generateDeviceToDeviceCommands db sourceDeviceId =
     (let commands = [network_info_command];
          devices = filter (\<lambda>d. dw_status d = DevOnline \<and> dw_deviceId d \<noteq> sourceDeviceId \<and> dw_deviceId d \<notin> {''server-local''})
                      (vd_devices db)
      in case find (\<lambda>d. dw_deviceId d = sourceDeviceId) (vd_devices db) of
           None \<Rightarrow> Some \<lparr>dp_commands = commands,
               dp_sourceDevice = \<lparr>pr_id = sourceDeviceId, pr_name = ''Unknown'', pr_ip = [], pr_network = None\<rparr>,
               dp_targetDevices = [], dp_error = Some ''Source device not found''\<rparr>
         | Some sourceDevice \<Rightarrow>
             if length devices = 0 then
               Some \<lparr>dp_commands = commands, dp_sourceDevice = (peer_of [] sourceDevice)\<lparr>pr_network := None\<rparr>,
                 dp_targetDevices = [],
                 dp_error = Some ''No other online ESP32 devices found to test connectivity with''\<rparr>
             else
               (case config_networks db of
                  None \<Rightarrow> None
                | Some networks \<Rightarrow>
                    (let targetDevices = map (peer_of networks) (filter (\<lambda>d. truthy (dw_ipAddress d)) devices) in
                     Some \<lparr>dp_commands = commands @ concat (map device_commands targetDevices),
                       dp_sourceDevice = peer_of networks sourceDevice, dp_targetDevices = targetDevices, dp_error = None\<rparr>)))"

section \<open>The mesh of test devices\<close>

record mesh_device =
  md_dbId :: string
  md_device :: peer
  md_commands :: "command list"
  md_targets :: "peer list"

definition mesh_commands :: "peer \<Rightarrow> command list" where
  "mesh_commands t =
     [probe_command ''ping'' (pr_ip t) [] 2000 (''Ping '' @ pr_name t),
      probe_command ''tcp_connect'' (pr_ip t) [(''port'', JNum 80)] 3000 (''TCP:80 '' @ pr_name t)]"

definition mesh_device_of :: "net_info list \<Rightarrow> device_row list \<Rightarrow> device_row \<Rightarrow> mesh_device" where
  "mesh_device_of networks devices device =
     (let targets = map (peer_of networks)
                      (filter (\<lambda>d. dw_deviceId d \<noteq> dw_deviceId device \<and> truthy (dw_ipAddress d)) devices)
      in \<lparr>md_dbId = dw_id device, md_device = peer_of networks device,
          md_commands = [network_info_command] @ concat (map mesh_commands targets), md_targets = targets\<rparr>)"

definition generateMeshTestData ::
    "vlan_db \<Rightarrow> string list option \<Rightarrow> (mesh_device list \<times> net_info list \<times> string option) option" where
  "generateMeshTestData db deviceIds =
     (case config_networks db of
        None \<Rightarrow> None
      | Some networks \<Rightarrow>
          (let allDevices = filter (\<lambda>d. dw_status d = DevOnline \<and> dw_deviceId d \<noteq> ''server-local'') (vd_devices db);
               devices = (case deviceIds of
                            Some ids \<Rightarrow> if 0 < length ids then filter (\<lambda>d. dw_deviceId d \<in> set ids) allDevices else allDevices
                          | None \<Rightarrow> allDevices)
           in if length devices < 2 then
                Some ([], networks, Some ''Need at least 2 online ESP32 devices for mesh testing'')
              else
                Some (map (mesh_device_of networks devices) (filter (\<lambda>d. truthy (dw_ipAddress d)) devices), networks, None)))"

section \<open>The fixed tests\<close>

text \<open>\<open>services/testDefinitions.ts\<close>.  The commands of a dynamic test are generated when it is started.\<close>

record test_definition =
  df_name :: string
  df_description :: string
  df_commands :: "command list"
  df_isDynamic :: bool
  df_isMeshTest :: bool

definition mk_test :: "string \<Rightarrow> string \<Rightarrow> command list \<Rightarrow> bool \<Rightarrow> bool \<Rightarrow> test_definition" where
  "mk_test name description commands dynamic mesh =
     \<lparr>df_name = name, df_description = description, df_commands = commands, df_isDynamic = dynamic, df_isMeshTest = mesh\<rparr>"

definition testDefinitions :: "(string \<times> test_definition) list" where
  "testDefinitions =
    [(''connectivity'', mk_test ''Connectivity Test''
        ''Quick verification of device communication and network''
        [[(''op'', JStr ''get_network_info'')],
         [(''op'', JStr ''ping''), (''host'', JStr ''8.8.8.8''), (''timeout'', JNum 2000)],
         [(''op'', JStr ''dns_lookup''), (''hostname'', JStr ''google.com'')]] False False),
     (''topology_validation'', mk_test ''Topology Validation''
        ''Validate network isolation matches intent profile - tests if device can reach networks it should be blocked from''
        [] True False),
     (''device_to_device'', mk_test ''Device-to-Device Test''
        ''Test connectivity from one device to other ESP32 devices across VLANs''
        [] True False),
     (''device_mesh'', mk_test ''Device Mesh Test''
        ''Test all ESP32 devices against each other to build a connectivity matrix''
        [] True True),
     (''port_scan'', mk_test ''Port Scan''
        ''Discover hosts and scan common ports''
        [[(''op'', JStr ''get_network_info'')],
         [(''op'', JStr ''arp_scan''), (''timeout'', JNum 100), (''startHost'', JNum 1), (''endHost'', JNum 254)]] False False),
     (''quick_scan'', mk_test ''Quick Scan''
        ''Fast scan of common targets''
        [[(''op'', JStr ''get_network_info'')],
         [(''op'', JStr ''ping''), (''host'', JStr ''8.8.8.8''), (''timeout'', JNum 1000)],
         [(''op'', JStr ''ping''), (''host'', JStr ''1.1.1.1''), (''timeout'', JNum 1000)],
         [(''op'', JStr ''dns_lookup''), (''hostname'', JStr ''google.com'')],
         [(''op'', JStr ''dns_lookup''), (''hostname'', JStr ''cloudflare.com'')]] False False),
     (''vlan_isolation'', mk_test ''VLAN Isolation Test''
        ''Test network segmentation between VLANs''
        [[(''op'', JStr ''get_network_info'')],
         [(''op'', JStr ''tcp_connect''), (''host'', JStr ''192.168.1.1''), (''port'', JNum 80), (''timeout'', JNum 1000)],
         [(''op'', JStr ''tcp_connect''), (''host'', JStr ''192.168.1.1''), (''port'', JNum 443), (''timeout'', JNum 1000)],
         [(''op'', JStr ''tcp_connect''), (''host'', JStr ''192.168.0.1''), (''port'', JNum 80), (''timeout'', JNum 1000)],
         [(''op'', JStr ''tcp_connect''), (''host'', JStr ''192.168.0.1''), (''port'', JNum 443), (''timeout'', JNum 1000)],
         [(''op'', JStr ''tcp_connect''), (''host'', JStr ''10.0.0.1''), (''port'', JNum 80), (''timeout'', JNum 1000)],
         [(''op'', JStr ''tcp_connect''), (''host'', JStr ''10.0.0.1''), (''port'', JNum 443), (''timeout'', JNum 1000)],
         [(''op'', JStr ''tcp_connect''), (''host'', JStr ''172.16.0.1''), (''port'', JNum 80), (''timeout'', JNum 1000)],
         [(''op'', JStr ''tcp_connect''), (''host'', JStr ''172.16.0.1''), (''port'', JNum 443), (''timeout'', JNum 1000)]] False False),
     (''service_discovery'', mk_test ''Service Discovery''
        ''Discover and identify network services''
        [[(''op'', JStr ''get_network_info'')],
         [(''op'', JStr ''arp_scan''), (''timeout'', JNum 100), (''startHost'', JNum 1), (''endHost'', JNum 254)]] False False),
     (''gateway_audit'', mk_test ''Gateway Audit''
        ''Scan common router/gateway IPs for open ports''
        [[(''op'', JStr ''get_network_info'')],
         [(''op'', JStr ''tcp_connect''), (''host'', JStr ''192.168.1.1''), (''port'', JNum 80), (''timeout'', JNum 1000)],
         [(''op'', JStr ''tcp_connect''), (''host'', JStr ''192.168.1.1''), (''port'', JNum 443), (''timeout'', JNum 1000)],
         [(''op'', JStr ''tcp_connect''), (''host'', JStr ''192.168.1.1''), (''port'', JNum 22), (''timeout'', JNum 1000)],
         [(''op'', JStr ''tcp_connect''), (''host'', JStr ''192.168.0.1''), (''port'', JNum 80), (''timeout'', JNum 1000)],
         [(''op'', JStr ''tcp_connect''), (''host'', JStr ''192.168.0.1''), (''port'', JNum 443), (''timeout'', JNum 1000)],
         [(''op'', JStr ''tcp_connect''), (''host'', JStr ''10.0.0.1''), (''port'', JNum 80), (''timeout'', JNum 1000)],
         [(''op'', JStr ''tcp_connect''), (''host'', JStr ''10.0.0.1''), (''port'', JNum 443), (''timeout'', JNum 1000)]] False False),
     (''honeypot_validation'', mk_test ''Honeypot Validation''
        ''Test that honeypots are responding correctly''
        [[(''op'', JStr ''get_network_info'')]] False False)]"

definition getTestDefinition :: "string \<Rightarrow> test_definition option" where
  "getTestDefinition testType = om_get testDefinitions testType"

definition getAvailableTests :: "(string \<times> string \<times> string \<times> bool) list" where
  "getAvailableTests = map (\<lambda>(ty, d). (ty, df_name d, df_description d, df_isMeshTest d)) testDefinitions"

section \<open>The plan\<close>

definition probe_key :: "test_target \<Rightarrow> string" where
  "probe_key t = target_key (tg_ip t) (show_nat (tg_port t))"

definition command_of :: "test_target \<Rightarrow> command" where
  "command_of t = (if tg_port t = 0 then ping_command t else tcp_command t)"

text \<open>The keys one expectation asks for.\<close>

definition wanted_tcp :: "net_info list \<Rightarrow> device_target list \<Rightarrow> directional_expectation \<Rightarrow> device_target list" where
  "wanted_tcp networks devices e =
     (let here = filter (\<lambda>d. dt_networkId d = de_targetNetworkId e) devices in
      if here \<noteq> [] then take 5 here
      else (case target_network networks e of
              None \<Rightarrow> []
            | Some n \<Rightarrow> (case getGatewayTarget (ni_subnet n) (de_targetNetworkName e) of None \<Rightarrow> [] | Some gw \<Rightarrow> [gw])))"

lemma tcp_step_wanted: "tcp_step networks devices st e = foldl (\<lambda>st d. tcp_probe e d st) st (wanted_tcp networks devices e)"
  by (auto simp: tcp_step_def wanted_tcp_def Let_def getGatewayTarget_def getGatewayFromSubnet_def split: option.split)

definition tcp_inv :: "(test_target \<Rightarrow> bool) \<Rightarrow> probe_state \<Rightarrow> bool" where
  "tcp_inv P st \<longleftrightarrow> fst st = map probe_key (snd st) \<and> distinct (fst st) \<and> (\<forall>t \<in> set (snd st). P t)"

definition device_probe :: "directional_expectation \<Rightarrow> device_target \<Rightarrow> test_target" where
  "device_probe e d = \<lparr>tg_expectation = e, tg_deviceName = dt_name d, tg_ip = dt_ip d, tg_port = dt_port d\<rparr>"

definition device_key :: "device_target \<Rightarrow> string" where
  "device_key d = target_key (dt_ip d) (show_nat (dt_port d))"

lemma tcp_probe_add: "tcp_probe e d st = add_probe (device_key d) (device_probe e d) st"
  by (simp add: tcp_probe_def device_key_def device_probe_def)

lemma tcp_inv_probes:
  "tcp_inv P st \<Longrightarrow> (\<And>d. d \<in> set ds \<Longrightarrow> P (device_probe e d)) \<Longrightarrow> tcp_inv P (foldl (\<lambda>st d. tcp_probe e d st) st ds)"
proof (induction ds arbitrary: st)
  case (Cons d ds)
  have "tcp_inv P (tcp_probe e d st)"
    using Cons.prems by (auto simp: tcp_probe_add add_probe_def tcp_inv_def probe_key_def device_probe_def device_key_def)
  then show ?case using Cons by simp
qed simp

lemma keys_of_probes:
  "set (fst (foldl (\<lambda>st d. tcp_probe e d st) st ds)) = set (fst st) \<union> device_key ` set ds"
  by (induction ds arbitrary: st) (auto simp: tcp_probe_add add_probe_def)

lemma probes_known: "device_key ` set ds \<subseteq> set (fst st) \<Longrightarrow> foldl (\<lambda>st d. tcp_probe e d st) st ds = st"
  by (induction ds) (auto simp: tcp_probe_add add_probe_def)

lemma gateway_target_port: "getGatewayTarget subnet name = Some d \<Longrightarrow> dt_port d = 80"
  by (auto simp: getGatewayTarget_def)

lemma wanted_ports: "(\<forall>d \<in> set devices. 0 < dt_port d) \<Longrightarrow> d \<in> set (wanted_tcp networks devices e) \<Longrightarrow> 0 < dt_port d"
  by (auto simp: wanted_tcp_def Let_def gateway_target_port dest!: in_set_takeD split: if_splits option.splits)

lemma tcp_inv_steps:
  assumes "tcp_inv P st" "\<And>e d. e \<in> set es \<Longrightarrow> d \<in> set (wanted_tcp networks devices e) \<Longrightarrow> P (device_probe e d)"
  shows "tcp_inv P (foldl (tcp_step networks devices) st es)"
  using assms
proof (induction es arbitrary: st)
  case (Cons e es)
  have "tcp_inv P (tcp_step networks devices st e)"
    unfolding tcp_step_wanted by (rule tcp_inv_probes) (use Cons.prems in auto)
  then show ?case using Cons by simp
qed simp

definition ping_inv :: "string list \<Rightarrow> (test_target \<Rightarrow> bool) \<Rightarrow> probe_state \<Rightarrow> bool" where
  "ping_inv tested P st \<longleftrightarrow> fst st = tested @ map (\<lambda>t. ''ping:'' @ tg_ip t) (snd st) \<and>
     distinct (map tg_ip (snd st)) \<and> (\<forall>t \<in> set (snd st). tg_port t = 0 \<and> P t)"

definition gateway_probe :: "directional_expectation \<Rightarrow> string \<Rightarrow> test_target" where
  "gateway_probe e ip = \<lparr>tg_expectation = e, tg_deviceName = de_targetNetworkName e @ '' Gateway'', tg_ip = ip, tg_port = 0\<rparr>"

lemma ping_inv_steps:
  assumes "ping_inv tested P st" "\<And>e ip. e \<in> set es \<Longrightarrow> P (gateway_probe e ip)"
  shows "ping_inv tested P (foldl (ping_step networks) st es)"
  using assms
proof (induction es arbitrary: st)
  case (Cons e es)
  have "ping_inv tested P (ping_step networks st e)"
    using Cons.prems by (auto simp: ping_inv_def ping_step_def add_probe_def gateway_probe_def split: option.split)
  then show ?case using Cons by simp
qed simp

lemma target_key_eq: "target_key h (show_nat p) = target_key h' (show_nat p') \<longleftrightarrow> h = h' \<and> p = p'"
  using sep_inject [of h "CHR '':''" "show_nat p" h' "show_nat p'"] show_nat_no_char [of "CHR '':''"]
  by (auto simp: target_key_def is_digit_def)

lemma plan_parts:
  assumes "\<forall>d \<in> set devices. 0 < dt_port d" "topology_plan networks devices es = (commands, targets)"
  obtains tcp pings where "targets = tcp @ pings" "commands = network_info_command # map tcp_command tcp @ map ping_command pings"
    "tcp_inv (\<lambda>t. 0 < tg_port t \<and> tg_expectation t \<in> set es) (map probe_key tcp, tcp)"
    "ping_inv (map probe_key tcp) (\<lambda>t. tg_expectation t \<in> set es) (foldl (ping_step networks) (map probe_key tcp, []) es)"
    "(map probe_key tcp, tcp) = tcp_targets networks devices es"
    "pings = snd (foldl (ping_step networks) (map probe_key tcp, []) es)"
proof -
  let ?st = "tcp_targets networks devices es"
  have "tcp_inv (\<lambda>t. 0 < tg_port t \<and> tg_expectation t \<in> set es) ?st"
    unfolding tcp_targets_def
  proof (rule tcp_inv_steps)
    show "tcp_inv (\<lambda>t. 0 < tg_port t \<and> tg_expectation t \<in> set es) ([], [])" by (simp add: tcp_inv_def)
    show "0 < tg_port (device_probe e d) \<and> tg_expectation (device_probe e d) \<in> set es"
      if "e \<in> set es" "d \<in> set (wanted_tcp networks devices e)" for e d
      using that wanted_ports [OF assms(1)] by (simp add: device_probe_def)
  qed
  moreover from this have st: "?st = (map probe_key (snd ?st), snd ?st)" by (simp add: tcp_inv_def prod_eq_iff)
  moreover have "ping_inv (map probe_key (snd ?st)) (\<lambda>t. tg_expectation t \<in> set es)
      (foldl (ping_step networks) (map probe_key (snd ?st), []) es)"
    by (rule ping_inv_steps) (simp_all add: ping_inv_def gateway_probe_def)
  moreover have "fst ?st = map probe_key (snd ?st)" using st by (metis fst_conv)
  ultimately show ?thesis
    using that [of "snd ?st" "snd (foldl (ping_step networks) (map probe_key (snd ?st), []) es)"] assms(2)
    by (simp add: topology_plan_def ping_targets_def Let_def)
qed

lemma plan_pairs:
  assumes "\<forall>d \<in> set devices. 0 < dt_port d" "topology_plan networks devices es = (commands, targets)"
  shows "commands = network_info_command # map command_of targets \<and>
    distinct (map (\<lambda>t. (tg_ip t, tg_port t)) targets) \<and> tg_expectation ` set targets \<subseteq> set es"
proof -
  from plan_parts [OF assms] obtain tcp pings where t: "targets = tcp @ pings"
    and c: "commands = network_info_command # map tcp_command tcp @ map ping_command pings"
    and a: "tcp_inv (\<lambda>t. 0 < tg_port t \<and> tg_expectation t \<in> set es) (map probe_key tcp, tcp)"
    and b: "ping_inv (map probe_key tcp) (\<lambda>t. tg_expectation t \<in> set es) (foldl (ping_step networks) (map probe_key tcp, []) es)"
    and p: "pings = snd (foldl (ping_step networks) (map probe_key tcp, []) es)" by blast
  have tcp: "distinct (map probe_key tcp)" "\<forall>t \<in> set tcp. 0 < tg_port t \<and> tg_expectation t \<in> set es"
    using a by (simp_all add: tcp_inv_def)
  have ping: "distinct (map tg_ip pings)" "\<forall>t \<in> set pings. tg_port t = 0 \<and> tg_expectation t \<in> set es"
    using b by (simp_all add: ping_inv_def p)
  have "distinct (map (\<lambda>t. (tg_ip t, tg_port t)) tcp)"
    using tcp(1) by (auto simp: distinct_map inj_on_def probe_key_def target_key_eq)
  moreover have "distinct (map (\<lambda>t. (tg_ip t, tg_port t)) pings)"
    using ping(1) by (auto simp: distinct_map inj_on_def)
  ultimately show ?thesis using tcp(2) ping(2) by (fastforce simp: t c command_of_def)
qed

lemmas plan_expectations = plan_pairs [THEN conjunct2, THEN conjunct2]

text \<open>C6: the commands of a topology test are the request for the device's own address followed by exactly one
  command per stored target, in the order of the targets; no host and port is probed twice, and every
  target belongs to one of the expected paths.\<close>
theorem plan_commands:
  assumes "\<forall>d \<in> set devices. 0 < dt_port d" "topology_plan networks devices es = (commands, targets)"
  shows "commands = network_info_command # map command_of targets \<and>
    distinct (map (\<lambda>t. (tg_ip t, tg_port t)) targets) \<and> tg_expectation ` set targets \<subseteq> set es"
  by (rule plan_pairs [OF assms])

section \<open>Which network an address is on\<close>

lemma digits_show_nat [simp]: "digits (show_nat n)"
  using show_nat_digits [of _ n] by (auto simp: digits_def list_all_iff)

lemma match_cidr_quad: "match_cidr (quad a b c d @ CHR ''/'' # show_nat k) = Some (map show_nat [a, b, c, d], show_nat k)"
proof -
  have "split_on CHR ''/'' (quad a b c d @ CHR ''/'' # show_nat k) = [quad a b c d, show_nat k]"
    by (simp add: split_on_append quad_no_slash split_on_no_sep show_nat_no_char is_digit_def)
  then show ?thesis by (simp add: match_cidr_def split_quad)
qed

lemma host_mask_show_nat: "k \<le> 32 \<Longrightarrow> host_mask (show_nat k) = (if k = 0 then - 1 else cidr_mask (int k))"
proof -
  assume k: "k \<le> 32"
  show ?thesis
  proof (cases "k = 0")
    case False
    have "NOT (push_bit (32 - k) 1 - 1 :: 32 word) = push_bit (32 - k) (- 1)"
      by (simp add: not_eq_complement push_bit_eq_mult)
    moreover have "nat ((32 - int k) mod 32) = 32 - k"
      using False k by (subst mod_pos_pos_trivial) (auto simp: nat_diff_distrib)
    ultimately show ?thesis using False k by (simp only: host_mask_def shl32_def cidr_mask_nat dec_val_show_nat) simp
  qed (simp add: host_mask_def shl32_def)
qed

lemma bits_quad:
  assumes "octets [a, b, c, d]"
  shows "ip_bits (quad a b c d) = ipToInt (quad a b c d)" "network_bits (map show_nat [a, b, c, d]) = ipToInt (quad a b c d)"
proof -
  have num: "js_number (show_nat n) = Fin (of_nat n)" if "n < 256" for n using that by (simp add: js_number_show_nat)
  show "ip_bits (quad a b c d) = ipToInt (quad a b c d)"
    using assms num by (simp add: ip_bits_def ip_part_def split_quad ipToInt_def octets_def)
  show "network_bits (map show_nat [a, b, c, d]) = ipToInt (quad a b c d)"
    using assms num by (simp add: network_bits_def dec_word_def split_quad ipToInt_def octets_def)
qed

text \<open>The two ways the program tells which network an address is on agree for every prefix length from 1 to
  32; for the network of all addresses (prefix length 0) the generator, whose shift count is taken
  modulo 32, accepts only the one address that is written in the configuration.\<close>
lemma in_network_matches_subnet:
  assumes "octets [a, b, c, d]" "octets [e, f, g, h]" "k \<le> 32"
    and "ni_subnet n = Some (quad e f g h @ CHR ''/'' # show_nat k)"
  shows "(0 < k \<longrightarrow> in_network (quad a b c d) n = ipInSubnet (quad a b c d) (the (ni_subnet n))) \<and>
    (k = 0 \<longrightarrow> ipInSubnet (quad a b c d) (the (ni_subnet n)) \<and>
       (in_network (quad a b c d) n \<longleftrightarrow> quad_val a b c d = quad_val e f g h))"
proof -
  let ?s = "quad e f g h @ CHR ''/'' # show_nat k"
  have slash: "split_on CHR ''/'' ?s = [quad e f g h, show_nat k]"
    by (simp add: split_on_append quad_no_slash split_on_no_sep show_nat_no_char is_digit_def)
  have subnet: "ipInSubnet (quad a b c d) ?s \<longleftrightarrow>
      ipToInt (quad a b c d) AND cidr_mask (int k) = ipToInt (quad e f g h) AND cidr_mask (int k)"
    by (simp add: ipInSubnet_def slash quad_ne js_parse_int_show_nat)
  have network: "in_network (quad a b c d) n \<longleftrightarrow>
      ipToInt (quad a b c d) AND host_mask (show_nat k) = ipToInt (quad e f g h) AND host_mask (show_nat k)"
    unfolding in_network_def assms(4) option.sel match_cidr_quad option.case prod.case bits_quad [OF assms(1)] bits_quad [OF assms(2)]
    by simp
  have "quad_val a b c d < 2 ^ LENGTH(32)" "quad_val e f g h < 2 ^ LENGTH(32)"
    using assms(1,2) quad_val_less [of a b c d] quad_val_less [of e f g h] by (simp_all add: octets_def)
  then have "(of_nat (quad_val a b c d) :: 32 word) = of_nat (quad_val e f g h) \<longleftrightarrow> quad_val a b c d = quad_val e f g h"
    by (simp add: word_of_nat_eq_iff take_bit_nat_eq_self)
  then show ?thesis using subnet network assms by (auto simp: host_mask_show_nat cidr_mask_def ipToInt_quad octets_def)
qed

lemma in_network_matches_subnet_witness:
  "in_network (quad 192 168 20 7) (parse_network [(''subnet'', JStr (quad 192 168 20 1 @ CHR ''/'' # show_nat 24))]) \<and>
   \<not> in_network (quad 192 168 20 7) (parse_network [(''subnet'', JStr (quad 0 0 0 0 @ CHR ''/'' # show_nat 0))])"
proof
  let ?n = "\<lambda>s. parse_network [(''subnet'', JStr s)]"
  have n: "ni_subnet (?n s) = Some s" if "s \<noteq> []" for s
    using that by (simp add: parse_network_def Let_def get_str_def field_def om_get_def parse_str_def)
  have "ipInSubnet (quad 192 168 20 7) (quad 192 168 20 1 @ CHR ''/'' # show_nat 24)" by code_simp
  then show "in_network (quad 192 168 20 7) (?n (quad 192 168 20 1 @ CHR ''/'' # show_nat 24))"
    using in_network_matches_subnet [of 192 168 20 7 192 168 20 1 24 "?n (quad 192 168 20 1 @ CHR ''/'' # show_nat 24)"]
    by (simp add: n octets_def)
  show "\<not> in_network (quad 192 168 20 7) (?n (quad 0 0 0 0 @ CHR ''/'' # show_nat 0))"
    using in_network_matches_subnet [of 192 168 20 7 0 0 0 0 0 "?n (quad 0 0 0 0 @ CHR ''/'' # show_nat 0)"]
    by (simp add: n octets_def quad_val_def)
qed

section \<open>Where an answer goes\<close>

lemma show_number_int: "show_number (of_int (int n)) = show_nat n"
  using show_number_of_nat [of n] by simp

lemma or_port_nat: "or_port (js_int (int n)) = show_nat n"
  by (simp add: or_port_def json_or_def js_int_def js_to_number_def show_number_int del: of_int_of_nat_eq)
     (use show_number_of_nat [of 0] in simp)

lemma or_text_str [simp]: "or_text (JStr s) = s"
  by (simp add: or_text_def json_or_def)

lemma ex_text_expected:
  "getExpectedFromTarget (obj_fields (target_json t)) = ds_expected (de_decision (tg_expectation t))"
  by (cases "ds_expected (de_decision (tg_expectation t))")
     (simp_all add: getExpectedFromTarget_def target_json_def Let_def obj_fields_def field_def om_get_def)

lemma target_json_fields:
  "field (obj_fields (target_json t)) ''ip'' = JStr (tg_ip t)"
  "field (obj_fields (target_json t)) ''port'' = js_int (int (tg_port t))"
  "get_str (obj_fields (target_json t)) ''targetNetworkId'' = de_targetNetworkId (tg_expectation t)"
  "get_str (obj_fields (target_json t)) ''network'' = Some (de_targetNetworkName (tg_expectation t))"
  by (simp_all add: target_json_def Let_def obj_fields_def field_def om_get_def get_str_def parse_str_def opt_json_def
      split: option.split)

definition info_of :: "test_target \<Rightarrow> target_info" where
  "info_of t =
     \<lparr>ti_targetNetworkId = str_dflt (de_targetNetworkId (tg_expectation t)) [],
      ti_targetNetworkName = str_dflt (Some (de_targetNetworkName (tg_expectation t))) ''Unknown'',
      ti_expected = ds_expected (de_decision (tg_expectation t))\<rparr>"

lemma target_entry_json: "target_entry (obj_fields (target_json t)) = (probe_key t, info_of t)"
  by (simp add: target_entry_def target_json_fields or_port_nat ex_text_expected probe_key_def info_of_def)

lemma info_of_named: "ti_targetNetworkName (info_of t) \<noteq> []"
  by (simp add: info_of_def str_dflt_ne)

lemma plan_commands_keys:
  assumes "\<forall>d \<in> set devices. 0 < dt_port d" "topology_plan networks devices es = (commands, targets)"
  shows "distinct (map probe_key targets)"
proof -
  from plan_pairs [OF assms] have "distinct (map (\<lambda>t. (tg_ip t, tg_port t)) targets)" by blast
  then show ?thesis by (auto simp: distinct_map inj_on_def probe_key_def target_key_eq)
qed

text \<open>C36: attribution.  A device's answer that repeats the host and port of its command is counted by the
  coverage service for the target network of exactly the probe that was sent, for connections and for
  pings.\<close>
theorem answers_reach_their_network:
  assumes "\<forall>d \<in> set devices. 0 < dt_port d" "topology_plan networks devices es = (commands, targets)"
    and "t \<in> set targets" "de_targetNetworkId (tg_expectation t) = Some i" "i \<noteq> []"
    and "field (result_data r) ''host'' = JStr (tg_ip t)" "tg_ip t \<noteq> []"
    and "field (result_data r) ''port'' = (if tg_port t = 0 then JUndef else js_int (int (tg_port t)))"
  shows "probe_network (targetLookup (map (\<lambda>t. obj_fields (target_json t)) targets)) vlans r = i"
proof -
  have key: "inj_on probe_key (set targets)"
    using plan_commands_keys [OF assms(1,2)] by (simp add: distinct_map)
  have "targetLookup (map (\<lambda>t. obj_fields (target_json t)) targets) = om_of (map (\<lambda>t. (probe_key t, info_of t)) targets)"
    by (simp add: targetLookup_def filter_map comp_def target_entry_json info_of_named)
  moreover have "om_get (om_of (map (\<lambda>t. (probe_key t, info_of t)) targets)) (probe_key t) = Some (info_of t)"
    by (rule om_get_of_map [OF assms(3)]) (use key assms(3) in \<open>auto dest: inj_onD\<close>)
  moreover have "target_key (probe_host r) (or_port (field (result_data r) ''port'')) = probe_key t"
    using assms(6,7,8) or_port_nat [of "tg_port t"] or_port_nat [of 0]
    by (auto simp: probe_host_def json_or_def probe_key_def or_port_def js_int_def)
  ultimately show ?thesis using assms(4,5) by (simp add: probe_network_def Let_def info_of_def)
qed

section \<open>Every pair of the mesh\<close>

lemma length_filter_other:
  assumes "distinct (map key xs)" "x \<in> set xs" "P x"
  shows "length (filter (\<lambda>d. key d \<noteq> key x \<and> P d) xs) = length (filter P xs) - 1"
proof -
  have "filter (\<lambda>d. key d \<noteq> key x \<and> P d) xs = filter (\<lambda>d. d \<noteq> x) (filter P xs)"
    unfolding filter_filter using assms(1,2) by (intro filter_cong refl) (auto dest: inj_onD [OF distinct_map [THEN iffD1, THEN conjunct2]])
  also have "\<dots> = remove1 x (filter P xs)"
    by (rule sym, subst distinct_remove1_removeAll) (use assms(1) in \<open>auto simp: distinct_map removeAll_filter_not_eq intro: filter_cong\<close>)
  finally show ?thesis using assms(2,3) by (simp add: length_remove1)
qed

text \<open>A mesh test runs every ordered pair of the selected online devices that have an address: with \<open>n\<close> of
  them each device has the other \<open>n - 1\<close> as targets, two probes for each, and never itself.\<close>
lemma mesh_pairs:
  assumes "distinct (map dw_deviceId (vd_devices db))"
    and "generateMeshTestData db (Some ids) = Some (devices, networks, None)" "ids \<noteq> []"
    and "n = length (filter (\<lambda>d. dw_status d = DevOnline \<and> dw_deviceId d \<noteq> ''server-local'' \<and> dw_deviceId d \<in> set ids \<and>
               truthy (dw_ipAddress d)) (vd_devices db))"
  shows "length devices = n \<and>
    list_all (\<lambda>m. length (md_targets m) = n - 1 \<and> length (md_commands m) = 1 + 2 * (n - 1) \<and>
      pr_id (md_device m) \<notin> pr_id ` set (md_targets m)) devices"
proof -
  define all where "all = filter (\<lambda>d. dw_deviceId d \<in> set ids) (filter (\<lambda>d. dw_status d = DevOnline \<and> dw_deviceId d \<noteq> ''server-local'') (vd_devices db))"
  have d: "distinct (map dw_deviceId all)" using assms(1) by (simp add: all_def distinct_map_filter)
  have n: "n = length (filter (\<lambda>d. truthy (dw_ipAddress d)) all)"
    unfolding assms(4) all_def filter_filter by (rule arg_cong [of _ _ length], rule filter_cong) auto
  have devices: "devices = map (mesh_device_of networks all) (filter (\<lambda>d. truthy (dw_ipAddress d)) all)"
    using assms(2,3) by (simp add: generateMeshTestData_def Let_def all_def split: option.splits if_splits)
  have "length (md_targets (mesh_device_of networks all x)) = n - 1 \<and>
      length (md_commands (mesh_device_of networks all x)) = 1 + 2 * (n - 1) \<and>
      pr_id (md_device (mesh_device_of networks all x)) \<notin> pr_id ` set (md_targets (mesh_device_of networks all x))"
    if "x \<in> set all" "truthy (dw_ipAddress x)" for x
  proof -
    have "length (md_targets (mesh_device_of networks all x)) = n - 1"
      using length_filter_other [OF d that(1), of "\<lambda>d. truthy (dw_ipAddress d)"] that(2) n
      by (simp add: mesh_device_of_def Let_def)
    moreover have "length (concat (map mesh_commands ps)) = 2 * length ps" for ps
      by (induction ps) (simp_all add: mesh_commands_def)
    moreover have "md_commands (mesh_device_of networks all x) =
        network_info_command # concat (map mesh_commands (md_targets (mesh_device_of networks all x)))"
      by (simp add: mesh_device_of_def Let_def)
    moreover have "pr_id (md_device (mesh_device_of networks all x)) \<notin> pr_id ` set (md_targets (mesh_device_of networks all x))"
      by (auto simp: mesh_device_of_def Let_def peer_of_def)
    ultimately show ?thesis by simp
  qed
  then show ?thesis by (simp add: devices n list_all_iff)
qed

definition demo_mesh :: vlan_db where
  "demo_mesh = (demo_db DevOnline)\<lparr>vd_devices := map (\<lambda>i.
     \<lparr>dw_id = i, dw_deviceId = i, dw_name = i, dw_ipAddress = Some (''10.0.1.'' @ i), dw_status = DevOnline\<rparr>) [''1'', ''2'', ''3'']\<rparr>"

lemma mesh_pairs_witness:
  "\<exists>ds ns. generateMeshTestData demo_mesh (Some [''1'', ''2'', ''3'']) = Some (ds, ns, None) \<and> length ds = 3"
proof -
  obtain ds ns e where g: "generateMeshTestData demo_mesh (Some [''1'', ''2'', ''3'']) = Some (ds, ns, e)" "e = None"
  proof -
    have "(case generateMeshTestData demo_mesh (Some [''1'', ''2'', ''3'']) of Some (_, _, None) \<Rightarrow> True | _ \<Rightarrow> False)" by code_simp
    then show ?thesis using that by (auto split: option.splits)
  qed
  have "distinct (map dw_deviceId (vd_devices demo_mesh))" by code_simp
  moreover have "3 = length (filter (\<lambda>d. dw_status d = DevOnline \<and> dw_deviceId d \<noteq> ''server-local'' \<and>
      dw_deviceId d \<in> set [''1'', ''2'', ''3''] \<and> truthy (dw_ipAddress d)) (vd_devices demo_mesh))" by code_simp
  ultimately show ?thesis using mesh_pairs [of demo_mesh "[''1'', ''2'', ''3'']" ds ns 3] g by auto
qed

section \<open>Paths that are never probed\<close>

lemma wanted_keys_same_target:
  assumes "de_targetNetworkId e' = de_targetNetworkId e"
  shows "device_key ` set (wanted_tcp networks devices e') = device_key ` set (wanted_tcp networks devices e)"
  using assms
  by (cases "target_network networks e"; cases "getGatewayFromSubnet (ni_subnet (the (target_network networks e)))")
     (simp_all add: wanted_tcp_def target_network_def Let_def getGatewayTarget_def device_key_def)

lemma add_probe_silent:
  "(\<forall>t \<in> set (snd st). tg_expectation t \<noteq> e') \<Longrightarrow> tg_expectation p \<noteq> e' \<or> key \<in> set (fst st) \<Longrightarrow>
   \<forall>t \<in> set (snd (add_probe key p st)). tg_expectation t \<noteq> e'"
  by (auto simp: add_probe_def)

lemma probes_silent:
  "(\<forall>t \<in> set (snd st). tg_expectation t \<noteq> e') \<Longrightarrow> e \<noteq> e' \<or> device_key ` set ds \<subseteq> set (fst st) \<Longrightarrow>
   \<forall>t \<in> set (snd (foldl (\<lambda>st d. tcp_probe e d st) st ds)). tg_expectation t \<noteq> e'"
proof (induction ds arbitrary: st)
  case (Cons d ds)
  have "\<forall>t \<in> set (snd (tcp_probe e d st)). tg_expectation t \<noteq> e'"
    unfolding tcp_probe_add by (rule add_probe_silent) (use Cons.prems in \<open>auto simp: device_probe_def\<close>)
  moreover have "e \<noteq> e' \<or> device_key ` set ds \<subseteq> set (fst (tcp_probe e d st))"
    using Cons.prems(2) by (auto simp: tcp_probe_add add_probe_def)
  ultimately show ?case using Cons.IH by simp
qed simp

lemma tcp_silent:
  assumes "\<forall>t \<in> set (snd st). tg_expectation t \<noteq> e'"
    and "e' \<notin> set es \<or> device_key ` set (wanted_tcp networks devices e') \<subseteq> set (fst st)"
  shows "\<forall>t \<in> set (snd (foldl (tcp_step networks devices) st es)). tg_expectation t \<noteq> e'"
  using assms
proof (induction es arbitrary: st)
  case (Cons x es)
  have "\<forall>t \<in> set (snd (tcp_step networks devices st x)). tg_expectation t \<noteq> e'"
    unfolding tcp_step_wanted by (rule probes_silent) (use Cons.prems in auto)
  moreover have "e' \<notin> set es \<or> device_key ` set (wanted_tcp networks devices e') \<subseteq> set (fst (tcp_step networks devices st x))"
    using Cons.prems(2) by (auto simp: tcp_step_wanted keys_of_probes)
  ultimately show ?case using Cons.IH by simp
qed simp

definition ping_key :: "net_info list \<Rightarrow> directional_expectation \<Rightarrow> string set" where
  "ping_key networks e =
     (case Option.bind (target_network networks e) ni_gatewayIp of
        None \<Rightarrow> {} | Some ip \<Rightarrow> if ip = [] then {} else {''ping:'' @ ip})"

lemma ping_step_keys: "set (fst (ping_step networks st e)) = set (fst st) \<union> ping_key networks e"
  by (auto simp: ping_step_def ping_key_def add_probe_def split: option.split)

lemma ping_silent:
  assumes "\<forall>t \<in> set (snd st). tg_expectation t \<noteq> e'" "e' \<notin> set es \<or> ping_key networks e' \<subseteq> set (fst st)"
  shows "\<forall>t \<in> set (snd (foldl (ping_step networks) st es)). tg_expectation t \<noteq> e'"
  using assms
proof (induction es arbitrary: st)
  case (Cons x es)
  have "\<forall>t \<in> set (snd (ping_step networks st x)). tg_expectation t \<noteq> e'"
    using Cons.prems
    by (cases "x = e'") (auto simp: ping_step_def ping_key_def add_probe_def split: option.splits if_splits)
  moreover have "e' \<notin> set es \<or> ping_key networks e' \<subseteq> set (fst (ping_step networks st x))"
    using Cons.prems(2) by (auto simp: ping_step_keys)
  ultimately show ?case using Cons.IH by simp
qed simp

text \<open>A target network is probed for one source only.  When a path to a network comes after another path to the
  same network, which happens whenever the network of the device is not known and the paths of every
  source are expected, no stored target carries the later path: nothing is tested for it, and the
  answers count for the earlier source.\<close>
lemma later_sources_not_probed:
  assumes "es = es1 @ e # es2" "e' \<in> set es2" "e' \<notin> set (es1 @ [e])" "de_targetNetworkId e' = de_targetNetworkId e"
    and "topology_plan networks devices es = (commands, targets)"
  shows "\<forall>t \<in> set targets. tg_expectation t \<noteq> e'"
proof -
  define st1 where "st1 = foldl (tcp_step networks devices) ([], []) (es1 @ [e])"
  have "\<forall>t \<in> set (snd st1). tg_expectation t \<noteq> e'"
    unfolding st1_def by (rule tcp_silent) (use assms(3) in simp_all)
  moreover have "device_key ` set (wanted_tcp networks devices e') \<subseteq> set (fst st1)"
    unfolding wanted_keys_same_target [OF assms(4)] by (simp add: st1_def tcp_step_wanted keys_of_probes)
  ultimately have tcp: "\<forall>t \<in> set (snd (tcp_targets networks devices es)). tg_expectation t \<noteq> e'"
    using tcp_silent [of st1 e' es2 networks devices] by (simp add: tcp_targets_def assms(1) st1_def)
  let ?tested = "fst (tcp_targets networks devices es)"
  define st2 where "st2 = foldl (ping_step networks) (?tested, []) (es1 @ [e])"
  have "\<forall>t \<in> set (snd st2). tg_expectation t \<noteq> e'"
    unfolding st2_def by (rule ping_silent) (use assms(3) in simp_all)
  moreover have "ping_key networks e' \<subseteq> set (fst st2)"
    using assms(4) by (simp add: st2_def ping_step_keys) (simp add: ping_key_def target_network_def)
  ultimately have "\<forall>t \<in> set (ping_targets networks ?tested es). tg_expectation t \<noteq> e'"
    using ping_silent [of st2 e' es2 networks] by (simp add: ping_targets_def assms(1) st2_def)
  then show ?thesis using tcp assms(5) by (auto simp: topology_plan_def Let_def)
qed

text \<open>A controller with three networks, and a device on the third.\<close>

definition demo_nets :: "net_info list" where
  "demo_nets = map parse_network
     [[(''_id'', JStr ''n1''), (''name'', JStr ''Home''), (''subnet'', JStr ''10.0.1.1/24'')],
      [(''_id'', JStr ''n2''), (''name'', JStr ''Guest''), (''subnet'', JStr ''10.0.2.1/24'')],
      [(''_id'', JStr ''n3''), (''name'', JStr ''Things''), (''subnet'', JStr ''10.0.3.1/24'')]]"

definition demo_camera :: device_target where
  "demo_camera = \<lparr>dt_ip = ''10.0.3.9'', dt_name = ''Camera'', dt_networkId = Some ''n3'', dt_networkName = Some ''Things'',
     dt_isEsp32 = False, dt_isServer = False, dt_isNas = False, dt_port = 80\<rparr>"

definition demo_path :: "nat \<Rightarrow> nat \<Rightarrow> directional_expectation" where
  "demo_path i j = expectation_of (demo_evaluator) (demo_nets ! i) (demo_nets ! j)"

lemma demo_plan:
  "topology_plan demo_nets [demo_camera] [demo_path 0 2, demo_path 1 2] =
     ([network_info_command, tcp_command (device_probe (demo_path 0 2) demo_camera),
       ping_command (gateway_probe (demo_path 0 2) ''10.0.3.1'')],
      [device_probe (demo_path 0 2) demo_camera, gateway_probe (demo_path 0 2) ''10.0.3.1''])"
  by code_simp

lemma later_sources_not_probed_witness:
  "demo_path 1 2 \<notin> tg_expectation ` set [device_probe (demo_path 0 2) demo_camera, gateway_probe (demo_path 0 2) ''10.0.3.1'']"
proof -
  have "demo_path 1 2 \<noteq> demo_path 0 2" by code_simp
  moreover have "de_targetNetworkId (demo_path 1 2) = de_targetNetworkId (demo_path 0 2)" by code_simp
  ultimately show ?thesis
    using later_sources_not_probed [OF _ _ _ _ demo_plan, of "[]" "demo_path 0 2" "[demo_path 1 2]" "demo_path 1 2"] by auto
qed

theorem plan_commands_witness:
  "distinct (map (\<lambda>t. (tg_ip t, tg_port t)) [device_probe (demo_path 0 2) demo_camera, gateway_probe (demo_path 0 2) ''10.0.3.1''])"
  using plan_commands [OF _ demo_plan] by (simp add: demo_camera_def)

theorem answers_reach_their_network_witness:
  "probe_network (targetLookup (map (\<lambda>t. obj_fields (target_json t))
      [device_probe (demo_path 0 2) demo_camera, gateway_probe (demo_path 0 2) ''10.0.3.1'']))
     [] [(''op'', JStr ''ping''), (''data'', JObj [(''host'', JStr ''10.0.3.1''), (''reachable'', JBool False)])] = ''n3''"
proof (rule answers_reach_their_network [OF _ demo_plan, of "gateway_probe (demo_path 0 2) ''10.0.3.1''"])
  show "de_targetNetworkId (tg_expectation (gateway_probe (demo_path 0 2) ''10.0.3.1'')) = Some ''n3''" by code_simp
qed (simp_all add: demo_camera_def gateway_probe_def result_data_def field_def om_get_def obj_fields_def get_obj_def)

text \<open>A client without a MAC address.  The comparison of two missing values holds, so a client that the
  controller lists without a MAC is taken for the mapped server, and probed on port 22, whenever the
  profile maps no server.\<close>
lemma client_without_mac_is_server:
  assumes "get_str client ''mac'' = None" "mapped_mac (sp_serverDevice profile) = None"
  shows "dt_isServer (client_target networks profile ip client) \<and> dt_port (client_target networks profile ip client) = 22"
  using assms by (simp add: client_target_def Let_def)

lemma client_without_mac_is_server_witness:
  "dt_port (client_target [] demo_profile ''10.0.1.7'' [(''ip'', JStr ''10.0.1.7'')]) = 22"
  using client_without_mac_is_server [of "[(''ip'', JStr ''10.0.1.7'')]" demo_profile "[]" "''10.0.1.7''"]
  by (simp add: get_str_def field_def om_get_def parse_str_def mapped_mac_def demo_profile_def)

end
