(* ===== verification/Test_Results.thy ===== *)
theory Test_Results
  imports Js_Json Keyed_Table
begin

text \<open>
  \<open>services/testRunResultsJson.ts\<close>: the stored results of a test run as one JSON object, into which
  every message of the device and every analysis is merged.  An object is its fields in insertion
  order; a key is an ordinary one (no integer index, no \<open>__proto__\<close>).
\<close>

section \<open>Merging objects\<close>

definition isRecord :: "json \<Rightarrow> bool" where
  "isRecord j = (case j of JObj _ \<Rightarrow> True | _ \<Rightarrow> False)"

definition asJsonObject :: "json \<Rightarrow> (string \<times> json) list" where
  "asJsonObject j = (if isRecord j then obj_fields j else [])"

definition asArray :: "json \<Rightarrow> json list option" where
  "asArray j = (case j of JArr xs \<Rightarrow> Some xs | _ \<Rightarrow> None)"

function mergeJson :: "json \<Rightarrow> json \<Rightarrow> json" and
  merge_entries :: "(string \<times> json) list \<Rightarrow> (string \<times> json) list \<Rightarrow> (string \<times> json) list" where
  "mergeJson base patch =
     (if \<not> isRecord base \<or> \<not> isRecord patch then patch
      else JObj (merge_entries (obj_fields base) (obj_fields patch)))"
| "merge_entries merged [] = merged"
| "merge_entries merged ((key, patchValue) # entries) =
     (let baseValue = field merged key in
      merge_entries
        (om_set key
           (if isRecord baseValue \<and> isRecord patchValue then mergeJson baseValue patchValue else patchValue) merged)
        entries)"
  by pat_completeness auto
termination
proof (relation "measure (\<lambda>x. case x of Inl (b, p) \<Rightarrow> size p | Inr (m, es) \<Rightarrow> size_list (size_prod (\<lambda>_. 0) size) es)")
  fix base patch :: json
  assume "\<not> (\<not> isRecord base \<or> \<not> isRecord patch)"
  then show "(Inr (obj_fields base, obj_fields patch), Inl (base, patch))
      \<in> measure (\<lambda>x. case x of Inl (b, p) \<Rightarrow> size p | Inr (m, es) \<Rightarrow> size_list (size_prod (\<lambda>_. 0) size) es)"
    by (cases patch) (simp_all add: isRecord_def obj_fields_def)
qed (simp_all add: field_def)

section \<open>Structured results\<close>

definition set_defined :: "string \<Rightarrow> json \<Rightarrow> (string \<times> json) list \<Rightarrow> (string \<times> json) list" where
  "set_defined k v m = (if v \<noteq> JUndef then om_set k v m else m)"

definition legacyKeys :: "string list" where
  "legacyKeys = [''topologyMetadata'', ''deviceToDeviceMetadata'', ''honeypotExclusions'', ''meshDevices'']"

definition extractLegacyMetadata :: "(string \<times> json) list \<Rightarrow> (string \<times> json) list" where
  "extractLegacyMetadata payload = foldl (\<lambda>m key. set_defined key (field payload key) m) [] legacyKeys"

text \<open>An empty array is truthy: it hides the array of an older field name.\<close>

definition extractCommandResults :: "(string \<times> json) list \<Rightarrow> json list" where
  "extractCommandResults payload =
     (case asArray (field payload ''commandResults'') of
        Some xs \<Rightarrow> xs
      | None \<Rightarrow>
          (case asArray (field payload ''results'') of
             Some xs \<Rightarrow> xs
           | None \<Rightarrow>
               (case asArray (field payload ''command_results'') of
                  Some xs \<Rightarrow> xs
                | None \<Rightarrow> [])))"

definition extractEvidence :: "(string \<times> json) list \<Rightarrow> json list" where
  "extractEvidence payload = dflt [] (asArray (field payload ''evidence''))"

definition extractVerdicts :: "(string \<times> json) list \<Rightarrow> json list" where
  "extractVerdicts payload = dflt [] (asArray (field payload ''verdicts''))"

definition prefer_new :: "((string \<times> json) list \<Rightarrow> json list) \<Rightarrow> (string \<times> json) list \<Rightarrow> (string \<times> json) list \<Rightarrow> json list" where
  "prefer_new extract incoming current = (if 0 < length (extract incoming) then extract incoming else extract current)"

definition merged_metadata :: "(string \<times> json) list \<Rightarrow> (string \<times> json) list \<Rightarrow> json" where
  "merged_metadata current incoming =
     mergeJson
       (mergeJson (JObj (asJsonObject (field current ''metadata''))) (JObj (extractLegacyMetadata current)))
       (mergeJson (JObj (asJsonObject (field incoming ''metadata''))) (JObj (extractLegacyMetadata incoming)))"

definition merged_transport :: "(string \<times> json) list \<Rightarrow> (string \<times> json) list \<Rightarrow> (string \<times> json) list \<Rightarrow> json" where
  "merged_transport current incoming patch =
     mergeJson (JObj (asJsonObject (field current ''transport'')))
       (mergeJson (JObj (asJsonObject (field incoming ''transport''))) (JObj patch))"

definition schema_version :: "(string \<times> json) list \<Rightarrow> (string \<times> json) list \<Rightarrow> json" where
  "schema_version current incoming =
     (case field incoming ''schemaVersion'' of
        JNum q \<Rightarrow> JNum q
      | _ \<Rightarrow> (case field current ''schemaVersion'' of JNum q \<Rightarrow> JNum q | _ \<Rightarrow> JNum 2))"

definition buildStructuredResultsJson ::
    "json \<Rightarrow> json \<Rightarrow> (string \<times> json) list option \<Rightarrow> (string \<times> json) list" where
  "buildStructuredResultsJson existingResultsJson incomingPayload transportPatch =
     (let current = asJsonObject existingResultsJson;
          incoming = asJsonObject incomingPayload;
          mergedRoot = obj_fields (mergeJson (JObj current) (JObj incoming));
          mergedMetadata = merged_metadata current incoming;
          commandResults = prefer_new extractCommandResults incoming current;
          evidence = prefer_new extractEvidence incoming current;
          verdicts = prefer_new extractVerdicts incoming current;
          mergedTransport = merged_transport current incoming (dflt [] transportPatch);
          r1 = om_set ''metadata'' mergedMetadata mergedRoot;
          r2 = om_set ''commandResults'' (JArr commandResults) r1;
          r3 = om_set ''results'' (JArr commandResults) r2;
          r4 = om_set ''evidence'' (JArr evidence) r3;
          r5 = om_set ''verdicts'' (JArr verdicts) r4;
          r6 = om_set ''transport'' mergedTransport r5;
          r7 = om_set ''schemaVersion'' (schema_version current incoming) r6;
          md = obj_fields mergedMetadata;
          r8 = set_defined ''topologyMetadata'' (field md ''topologyMetadata'') r7;
          r9 = set_defined ''deviceToDeviceMetadata'' (field md ''deviceToDeviceMetadata'') r8
      in set_defined ''honeypotExclusions'' (field md ''honeypotExclusions'') r9)"

text \<open>\<open>findUnique\<close> and \<open>update\<close> on the table of runs; updating an absent run is an exception.\<close>

definition mergeTestRunResultsJson ::
    "(string \<times> json) list \<Rightarrow> string \<Rightarrow> (string \<times> json) list \<Rightarrow> (string \<times> json) list option" where
  "mergeTestRunResultsJson runs testId patch =
     (let existing = om_get runs testId;
          merged = mergeJson (JObj (asJsonObject (dflt JUndef existing))) (JObj patch)
      in if existing = None then None else Some (om_set testId merged runs))"

section \<open>Lookups after a merge\<close>

lemma isRecord_iff: "isRecord j \<longleftrightarrow> (\<exists>kvs. j = JObj kvs)"
  by (cases j) (auto simp: isRecord_def)

lemma isRecord_JObj [simp]: "isRecord (JObj kvs)"
  by (simp add: isRecord_def)

lemma asJsonObject_JObj [simp]: "asJsonObject (JObj kvs) = kvs"
  by (simp add: asJsonObject_def obj_fields_def)

lemma obj_fields_JObj [simp]: "obj_fields (JObj kvs) = kvs"
  by (simp add: obj_fields_def)

lemma field_om_set: "field (om_set k v m) k' = (if k' = k then v else field m k')"
  by (simp add: field_def om_get_set)

lemma field_set_defined: "field (set_defined k v m) k' = (if k' = k \<and> v \<noteq> JUndef then v else field m k')"
  by (simp add: set_defined_def field_om_set)

lemma field_Nil [simp]: "field [] k = JUndef"
  by (simp add: field_def)

declare mergeJson.simps [simp del]

lemma mergeJson_JObj: "mergeJson (JObj b) (JObj p) = JObj (merge_entries b p)"
  by (simp add: mergeJson.simps)

lemma mergeJson_leaf: "\<not> isRecord p \<or> \<not> isRecord b \<Longrightarrow> mergeJson b p = p"
  by (auto simp: mergeJson.simps)

lemma merge_entries_Cons: "merge_entries m ((k, v) # es) = merge_entries (om_set k (mergeJson (field m k) v) m) es"
  by (auto simp: Let_def mergeJson_leaf)

lemmas merge_entries_steps = merge_entries.simps(1) merge_entries_Cons

declare merge_entries.simps(2) [simp del]

lemma om_get_merge_entries:
  "distinct (om_keys p) \<Longrightarrow>
   om_get (merge_entries m p) k = (case om_get p k of None \<Rightarrow> om_get m k | Some v \<Rightarrow> Some (mergeJson (field m k) v))"
proof (induction p arbitrary: m)
  case (Cons kv p)
  obtain k' v where kv: "kv = (k', v)" by (cases kv)
  have "om_get p k' = None" using Cons.prems kv by (simp add: om_get_None_iff)
  moreover have "om_get ((k', v) # p) k = (if k' = k then Some v else om_get p k)" by (simp add: om_get_def)
  ultimately show ?case using Cons by (auto simp: kv merge_entries_Cons om_get_set field_om_set split: option.split)
qed simp

lemma set_om_keys_merge: "set (om_keys (merge_entries m p)) = set (om_keys m) \<union> set (om_keys p)"
  by (induction p arbitrary: m) (auto simp: merge_entries_Cons)

lemma distinct_merge_entries: "distinct (om_keys m) \<Longrightarrow> distinct (om_keys (merge_entries m p))"
  by (induction p arbitrary: m) (auto simp: merge_entries_Cons)

lemma om_keys_merge: "om_keys (merge_entries m p) = foldl (\<lambda>ks k. os_add k ks) (om_keys m) (om_keys p)"
  by (induction p arbitrary: m) (auto simp: merge_entries_Cons om_keys_set)

lemma foldl_os_add_subset: "set ks \<subseteq> set xs \<Longrightarrow> foldl (\<lambda>s k. os_add k s) xs ks = xs"
  by (induction ks) (auto simp: os_add_def)

lemma om_eqI:
  "om_keys m = om_keys m' \<Longrightarrow> distinct (om_keys m) \<Longrightarrow> (\<And>k. om_get m k = om_get m' k) \<Longrightarrow> m = m'"
proof (induction m arbitrary: m')
  case (Cons kv m)
  obtain k v where kv: "kv = (k, v)" by (cases kv)
  obtain v' r where m': "m' = (k, v') # r" using Cons.prems(1) kv by (cases m') auto
  have "v' = v" using Cons.prems(3) [of k] kv m' by (simp add: om_get_def)
  moreover have "m = r"
  proof (rule Cons.IH)
    fix x
    show "om_get m x = om_get r x"
    proof (cases "x = k")
      case True
      then have "x \<notin> set (om_keys m)" "x \<notin> set (om_keys r)" using Cons.prems(1,2) kv m' by auto
      then show ?thesis by (metis om_get_None_iff)
    qed (use Cons.prems(3) [of x] kv m' in \<open>simp add: om_get_def\<close>)
  qed (use Cons.prems(1,2) kv m' in auto)
  ultimately show ?case using kv m' by simp
qed (simp add: om_keys_def)

text \<open>A JSON text never repeats a key of an object.\<close>

fun json_wf :: "json \<Rightarrow> bool" where
  "json_wf (JArr xs) = list_all json_wf xs"
| "json_wf (JObj kvs) = (distinct (om_keys kvs) \<and> list_all (\<lambda>kv. json_wf (snd kv)) kvs)"
| "json_wf _ = True"

lemma json_wf_field: "json_wf (JObj kvs) \<Longrightarrow> json_wf (field kvs k)"
  by (auto simp: field_def dflt_def om_get_def list_all_iff dest!: map_of_SomeD split: option.split)

lemma json_wf_get: "json_wf (JObj kvs) \<Longrightarrow> om_get kvs k = Some v \<Longrightarrow> json_wf v"
  using json_wf_field [of kvs k] by (simp add: field_def)

lemma merge_entries_self:
  assumes "distinct (om_keys p)" "\<And>k v. om_get p k = Some v \<Longrightarrow> mergeJson v v = v"
  shows "merge_entries p p = p"
proof (rule om_eqI)
  show "om_keys (merge_entries p p) = om_keys p" by (simp add: om_keys_merge foldl_os_add_subset)
  show "distinct (om_keys (merge_entries p p))" using assms(1) by (simp add: distinct_merge_entries)
  show "om_get (merge_entries p p) k = om_get p k" for k
    using assms by (auto simp: om_get_merge_entries field_def split: option.split)
qed

lemma mergeJson_self: "json_wf p \<Longrightarrow> mergeJson p p = p"
proof (induction p)
  case (JObj p)
  have "mergeJson v v = v" if "om_get p k = Some v" for k v
  proof -
    have "(k, v) \<in> set p" using that by (simp add: om_get_def map_of_SomeD)
    then show ?thesis using JObj.IH [of "(k, v)" v] json_wf_get [OF JObj.prems that] by (simp add: snds.simps)
  qed
  then show ?case using merge_entries_self JObj.prems by (simp add: mergeJson_JObj)
qed (simp_all add: mergeJson_leaf isRecord_def)

lemma json_wf_iff: "json_wf (JObj kvs) \<longleftrightarrow> distinct (om_keys kvs) \<and> (\<forall>k v. om_get kvs k = Some v \<longrightarrow> json_wf v)"
  by (force simp: list_all_iff om_get_def om_keys_def dest: map_of_SomeD)

lemma json_wf_mergeJson: "json_wf b \<Longrightarrow> json_wf p \<Longrightarrow> json_wf (mergeJson b p)"
proof (induction p arbitrary: b)
  case (JObj p)
  show ?case
  proof (cases "isRecord b")
    case True
    then obtain m where b: "b = JObj m" by (auto simp: isRecord_iff)
    have p: "distinct (om_keys p)" and m: "distinct (om_keys m)" using JObj.prems b by simp_all
    have "json_wf v" if v: "om_get (merge_entries m p) k = Some v" for k v
    proof (cases "om_get p k")
      case None
      then show ?thesis using v p JObj.prems(1) b json_wf_get by (simp add: om_get_merge_entries del: json_wf.simps)
    next
      case (Some w)
      have "json_wf (mergeJson (field m k) w)"
      proof (rule JObj.IH)
        show "(k, w) \<in> set p" "w \<in> Basic_BNFs.snds (k, w)" using Some by (simp_all add: om_get_def map_of_SomeD snds.simps)
        show "json_wf (field m k)" using JObj.prems(1) b json_wf_field by blast
        show "json_wf w" using json_wf_get [OF JObj.prems(2) Some] .
      qed
      then show ?thesis using v p Some by (simp add: om_get_merge_entries)
    qed
    then show ?thesis using m by (simp add: b mergeJson_JObj json_wf_iff distinct_merge_entries del: json_wf.simps)
  qed (use JObj.prems in \<open>simp add: mergeJson_leaf\<close>)
qed (simp_all add: mergeJson_leaf isRecord_def)

lemma mergeJson_idem: "json_wf b \<Longrightarrow> json_wf p \<Longrightarrow> mergeJson (mergeJson b p) p = mergeJson b p"
proof (induction p arbitrary: b)
  case (JObj p)
  show ?case
  proof (cases "isRecord b")
    case True
    then obtain m where b: "b = JObj m" by (auto simp: isRecord_iff)
    let ?m = "merge_entries m p"
    have p: "distinct (om_keys p)" and m: "distinct (om_keys m)" using JObj.prems b by simp_all
    have "merge_entries ?m p = ?m"
    proof (rule om_eqI)
      show "om_keys (merge_entries ?m p) = om_keys ?m"
        by (simp add: om_keys_merge [of ?m] foldl_os_add_subset set_om_keys_merge)
      show "distinct (om_keys (merge_entries ?m p))" using m by (simp add: distinct_merge_entries)
      fix k
      have "mergeJson (mergeJson (field m k) v) v = mergeJson (field m k) v" if v: "om_get p k = Some v" for v
      proof (rule JObj.IH)
        show "(k, v) \<in> set p" "v \<in> Basic_BNFs.snds (k, v)" using v by (simp_all add: om_get_def map_of_SomeD snds.simps)
        show "json_wf (field m k)" using JObj.prems(1) b json_wf_field by simp
        show "json_wf v" using json_wf_get [OF JObj.prems(2) v] .
      qed
      then show "om_get (merge_entries ?m p) k = om_get ?m k"
        by (auto simp: om_get_merge_entries [OF p] field_def [of ?m] split: option.split)
    qed
    then show ?thesis by (simp add: b mergeJson_JObj)
  qed (use JObj.prems mergeJson_self [of "JObj p"] in \<open>simp add: mergeJson_leaf\<close>)
qed (simp_all add: mergeJson_leaf isRecord_def)

section \<open>The value at a path\<close>

fun json_at :: "json \<Rightarrow> string list \<Rightarrow> json option" where
  "json_at j [] = Some j"
| "json_at j (k # ks) = (case om_get (obj_fields j) k of None \<Rightarrow> None | Some v \<Rightarrow> json_at v ks)"

lemma obj_fields_leaf: "\<not> isRecord j \<Longrightarrow> obj_fields j = []"
  by (cases j) (simp_all add: isRecord_def obj_fields_def)

lemma json_at_leaf: "\<not> isRecord j \<Longrightarrow> json_at j (k # ks) = None"
  by (cases j) (simp_all add: isRecord_def obj_fields_def)

lemma json_at_append: "json_at j (ks @ ks') = Option.bind (json_at j ks) (\<lambda>v. json_at v ks')"
  by (induction ks arbitrary: j) (auto split: option.split)

lemma merge_at_step:
  assumes "json_wf (JObj p)"
  shows "json_at (mergeJson b (JObj p)) (k # ks) =
    (case om_get p k of
       None \<Rightarrow> json_at b (k # ks)
     | Some v \<Rightarrow> json_at (mergeJson (if isRecord b then field (obj_fields b) k else JUndef) v) ks)"
proof (cases "isRecord b")
  case True
  then obtain m where b: "b = JObj m" by (auto simp: isRecord_iff)
  show ?thesis using assms by (simp add: b mergeJson_JObj om_get_merge_entries split: option.split)
next
  case False
  then show ?thesis by (simp add: mergeJson_leaf obj_fields_leaf isRecord_def [of JUndef] split: option.split)
qed

lemma json_wf_at: "json_wf j \<Longrightarrow> json_at j ks = Some v \<Longrightarrow> json_wf v"
proof (induction ks arbitrary: j)
  case (Cons k ks)
  then obtain m where "j = JObj m" by (cases j) (auto simp: obj_fields_def)
  moreover from this obtain x where "om_get m k = Some x" "json_at x ks = Some v"
    using Cons.prems(2) by (auto split: option.splits)
  ultimately show ?case using Cons.IH [of x] Cons.prems(1) json_wf_get [of m k x] by blast
qed simp

text \<open>Deep merge of stored results.  Wherever the patch holds a value that is not an object, the
  result holds that value; below an object of the patch that does not name the next key of a path,
  the result has exactly what the base had there, whatever the patch says elsewhere.\<close>
lemma mergeJson_paths:
  assumes "json_wf patch"
  shows "(json_at patch ks = Some leaf \<and> \<not> isRecord leaf \<longrightarrow> json_at (mergeJson base patch) ks = Some leaf) \<and>
    (json_at patch pre = Some (JObj q) \<and> om_get q k = None \<longrightarrow>
       json_at (mergeJson base patch) (pre @ k # post) = json_at base (pre @ k # post))"
proof (intro conjI impI; elim conjE)
  assume "json_at patch ks = Some leaf" "\<not> isRecord leaf"
  then show "json_at (mergeJson base patch) ks = Some leaf" using assms
  proof (induction ks arbitrary: base patch)
    case (Cons k ks)
    then obtain p where p: "patch = JObj p" by (cases patch) (auto simp: obj_fields_def)
    then obtain v where v: "om_get p k = Some v" "json_at v ks = Some leaf" using Cons.prems(1) by (auto split: option.splits)
    have "json_wf v" using Cons.prems(3) v(1) p json_wf_get by blast
    then show ?case using Cons.IH [OF v(2) Cons.prems(2)] Cons.prems(3) v(1) by (simp only: p merge_at_step option.case)
  qed (simp add: mergeJson_leaf)
next
  assume q: "json_at patch pre = Some (JObj q)" and new: "om_get q k = None"
  from q assms show "json_at (mergeJson base patch) (pre @ k # post) = json_at base (pre @ k # post)"
  proof (induction pre arbitrary: base patch)
    case Nil
    then show ?case using new by (simp only: json_at.simps(1) option.inject append_Nil merge_at_step option.case)
  next
    case (Cons c pre)
    then obtain p where p: "patch = JObj p" by (cases patch) (auto simp: obj_fields_def)
    then obtain v where v: "om_get p c = Some v" "json_at v pre = Some (JObj q)" using Cons.prems(1) by (auto split: option.splits)
    have "json_wf v" using Cons.prems(2) v(1) p json_wf_get by blast
    moreover have "json_at (if isRecord base then field (obj_fields base) c else JUndef) (pre @ k # post) =
        json_at base ((c # pre) @ k # post)"
      by (cases base; cases pre) (auto simp: isRecord_def obj_fields_def field_def split: option.split)
    ultimately show ?case
      using Cons.IH [OF v(2)] Cons.prems(2) v(1) by (simp only: p merge_at_step option.case append_Cons)
  qed
qed

lemma mergeJson_paths_witness:
  "json_at (mergeJson (JObj [(''metadata'', JObj [(''a'', JNum 1), (''b'', JNum 2)])])
       (JObj [(''metadata'', JObj [(''a'', JNull)])])) [''metadata'', ''a''] = Some JNull \<and>
   json_at (mergeJson (JObj [(''metadata'', JObj [(''a'', JNum 1), (''b'', JNum 2)])])
       (JObj [(''metadata'', JObj [(''a'', JNull)])])) [''metadata'', ''b''] = Some (JNum 2)"
  using mergeJson_paths [of "JObj [(''metadata'', JObj [(''a'', JNull)])]" "[''metadata'', ''a'']" JNull
      "JObj [(''metadata'', JObj [(''a'', JNum 1), (''b'', JNum 2)])]" "[''metadata'']" "[(''a'', JNull)]" "''b''" "[]"]
  by (simp add: om_get_def om_keys_def obj_fields_def isRecord_def)

section \<open>Structured results\<close>

text \<open>What a build stores under each field it writes.\<close>

lemma structured_fields:
  fixes existing payload :: json and patch :: "(string \<times> json) list option"
  defines "cur \<equiv> asJsonObject existing" and "inc \<equiv> asJsonObject payload"
  defines "r \<equiv> buildStructuredResultsJson existing payload patch"
  shows "field r ''metadata'' = merged_metadata cur inc"
    and "field r ''commandResults'' = JArr (prefer_new extractCommandResults inc cur)"
    and "field r ''results'' = JArr (prefer_new extractCommandResults inc cur)"
    and "field r ''evidence'' = JArr (prefer_new extractEvidence inc cur)"
    and "field r ''verdicts'' = JArr (prefer_new extractVerdicts inc cur)"
    and "field r ''transport'' = merged_transport cur inc (dflt [] patch)"
    and "field r ''schemaVersion'' = schema_version cur inc"
  by (simp_all add: r_def cur_def inc_def buildStructuredResultsJson_def Let_def field_om_set field_set_defined)

lemma schema_version_number: "\<exists>q. schema_version cur inc = JNum q"
  by (simp add: schema_version_def split: json.split)

lemma merge_object: "\<exists>m. mergeJson (JObj b) (JObj p) = JObj m"
  by (simp add: mergeJson_JObj)

lemma merged_transport_object: "\<exists>m. merged_transport cur inc p = JObj m"
  by (simp add: merged_transport_def mergeJson_JObj)

text \<open>C14: no message loses evidence.  After any number of messages the stored results hold the items of
  the last message that carried any (command results, evidence and verdicts each on their own), an
  empty or missing list in a later message leaves them, and the old field name \<open>results\<close> always
  agrees with \<open>commandResults\<close>.\<close>
theorem results_survive_messages:
  assumes "r = foldl (\<lambda>j m. JObj (buildStructuredResultsJson j (fst m) (snd m))) existing (before @ (payload, tp) # after)"
    and "extractCommandResults (asJsonObject payload) = xs" "xs \<noteq> []"
    and "\<forall>m \<in> set after. extractCommandResults (asJsonObject (fst m)) = []"
  shows "field (obj_fields r) ''commandResults'' = JArr xs \<and> field (obj_fields r) ''results'' = JArr xs"
proof -
  let ?step = "\<lambda>j m. JObj (buildStructuredResultsJson j (fst m) (snd m))"
  define r0 where "r0 = ?step (foldl ?step existing before) (payload, tp)"
  have r: "r = foldl ?step r0 after" by (simp add: assms(1) r0_def)
  have start: "field (obj_fields r0) ''commandResults'' = JArr xs \<and> field (obj_fields r0) ''results'' = JArr xs \<and> isRecord r0"
    using assms(2,3) by (simp add: r0_def structured_fields prefer_new_def)
  have "field (obj_fields (foldl ?step j ms)) ''commandResults'' = JArr xs \<and>
      field (obj_fields (foldl ?step j ms)) ''results'' = JArr xs"
    if "field (obj_fields j) ''commandResults'' = JArr xs \<and> field (obj_fields j) ''results'' = JArr xs \<and> isRecord j"
      "\<forall>m \<in> set ms. extractCommandResults (asJsonObject (fst m)) = []" for j ms
    using that
  proof (induction ms arbitrary: j)
    case (Cons m ms)
    have "extractCommandResults (asJsonObject j) = xs"
      using Cons.prems(1) by (simp add: extractCommandResults_def asArray_def asJsonObject_def)
    then show ?case using Cons.IH [of "?step j m"] Cons.prems(2) by (simp add: structured_fields prefer_new_def)
  qed simp
  then show ?thesis using start assms(4) r by blast
qed

theorem results_survive_messages_witness:
  "field (obj_fields (JObj (buildStructuredResultsJson
      (JObj (buildStructuredResultsJson JNull (JObj [(''results'', JArr [JNum 1])]) None))
      (JObj [(''commandResults'', JArr []), (''verdicts'', JArr [JNum 2])]) None))) ''commandResults'' = JArr [JNum 1]"
  using results_survive_messages [of "JObj (buildStructuredResultsJson
      (JObj (buildStructuredResultsJson JNull (JObj [(''results'', JArr [JNum 1])]) None))
      (JObj [(''commandResults'', JArr []), (''verdicts'', JArr [JNum 2])]) None)" JNull "[]"
      "JObj [(''results'', JArr [JNum 1])]" None "[(JObj [(''commandResults'', JArr []), (''verdicts'', JArr [JNum 2])], None)]"
      "[JNum 1]"]
  by (simp add: extractCommandResults_def asArray_def asJsonObject_def obj_fields_def isRecord_def field_def om_get_def)

text \<open>Redelivery.  Storing the same message twice leaves the lists, the transport record and the
  schema version as storing it once.\<close>
lemma redelivery_idempotent:
  assumes "json_wf existing" "json_wf payload" "json_wf (JObj (dflt [] tp))"
    and "r1 = buildStructuredResultsJson existing payload tp" "r2 = buildStructuredResultsJson (JObj r1) payload tp"
    and "k \<in> {''commandResults'', ''results'', ''evidence'', ''verdicts'', ''transport'', ''schemaVersion''}"
  shows "field r2 k = field r1 k"
proof -
  let ?cur = "asJsonObject existing" and ?inc = "asJsonObject payload"
  note f1 = structured_fields [of existing payload tp, folded assms(4)]
  note f2 = structured_fields [of "JObj r1" payload tp, folded assms(5), unfolded asJsonObject_JObj]
  have lists: "prefer_new extractCommandResults ?inc r1 = prefer_new extractCommandResults ?inc ?cur"
      "prefer_new extractEvidence ?inc r1 = prefer_new extractEvidence ?inc ?cur"
      "prefer_new extractVerdicts ?inc r1 = prefer_new extractVerdicts ?inc ?cur"
    using f1 by (simp_all add: prefer_new_def [of _ _ r1] extractCommandResults_def [of r1] extractEvidence_def [of r1]
        extractVerdicts_def [of r1] asArray_def) (simp_all add: prefer_new_def)
  have version: "schema_version r1 ?inc = schema_version ?cur ?inc"
    using f1(7) schema_version_number [of ?cur ?inc] by (auto simp: schema_version_def [of r1] schema_version_def split: json.splits)
  let ?Q = "mergeJson (JObj (asJsonObject (field ?inc ''transport''))) (JObj (dflt [] tp))"
  have wf_obj: "json_wf j \<Longrightarrow> json_wf (JObj (asJsonObject j))" for j by (cases j) (simp_all add: asJsonObject_def isRecord_def)
  have wf: "json_wf (JObj (asJsonObject (field (asJsonObject j) x)))" if "json_wf j" for j x
    by (rule wf_obj, rule json_wf_field, rule wf_obj, rule that)
  have "merged_transport r1 ?inc (dflt [] tp) = merged_transport ?cur ?inc (dflt [] tp)"
  proof -
    obtain t where t: "merged_transport ?cur ?inc (dflt [] tp) = JObj t" using merged_transport_object by blast
    have "merged_transport r1 ?inc (dflt [] tp) = mergeJson (merged_transport ?cur ?inc (dflt [] tp)) ?Q"
      by (simp only: merged_transport_def [of r1] f1(6) t asJsonObject_JObj)
    also have "\<dots> = merged_transport ?cur ?inc (dflt [] tp)"
      unfolding merged_transport_def by (rule mergeJson_idem [OF wf [OF assms(1)] json_wf_mergeJson [OF wf [OF assms(2)] assms(3)]])
    finally show ?thesis .
  qed
  then show ?thesis using assms(6) f1 f2 lists version by auto
qed

lemma redelivery_idempotent_witness:
  "field (buildStructuredResultsJson
      (JObj (buildStructuredResultsJson JNull (JObj [(''results'', JArr [JNum 1])]) (Some [(''truncated'', JBool True)])))
      (JObj [(''results'', JArr [JNum 1])]) (Some [(''truncated'', JBool True)])) ''transport''
    = field (buildStructuredResultsJson JNull (JObj [(''results'', JArr [JNum 1])]) (Some [(''truncated'', JBool True)])) ''transport''"
  by (rule redelivery_idempotent [OF _ _ _ refl refl]) (simp_all add: om_keys_def)

end
