(* ===== verification/Test_Analysis.thy ===== *)
theory Test_Analysis
  imports Test_Generator Test_Results Detection_Types
begin

text \<open>
  The analysing half of \<open>services/topologyTestGenerator.ts\<close>: the findings about the probes of a topology test,
  and the connectivity matrix of a mesh test.  The results come from a device and the metadata from
  storage, so every field is read as JSON; text is put together as template strings do.
\<close>

section \<open>Findings of a topology test\<close>

datatype finding_type =
    IsolationBreach
  | IsolationVerified
  | ConnectivityMismatch
  | PolicyConflict
  | InsufficientEvidence

record topology_finding =
  tf_type :: finding_type
  tf_severity :: severity
  tf_title :: string
  tf_description :: string
  tf_impact :: "string option"
  tf_remediation :: "string option"
  tf_affectedResource :: string

record path_info =
  pi_sourceNetwork :: json
  pi_network :: json
  pi_deviceName :: json
  pi_expected :: json
  pi_intentExpected :: json
  pi_effectiveExpected :: json
  pi_reason :: json
  pi_intentReason :: json
  pi_effectiveReason :: json
  pi_effectiveExplicit :: bool
  pi_conflict :: bool
  pi_policySource :: json

definition path_key :: "json \<Rightarrow> json \<Rightarrow> string" where
  "path_key host port = target_key (js_to_string host) (js_to_string port)"

definition path_entry :: "json \<Rightarrow> (string \<times> json) list \<Rightarrow> string \<times> path_info" where
  "path_entry sourceNetworkFallback target =
     (path_key (field target ''ip'') (field target ''port''),
      \<lparr>pi_sourceNetwork = json_or (field target ''sourceNetwork'') sourceNetworkFallback,
       pi_network = field target ''network'',
       pi_deviceName = field target ''deviceName'',
       pi_expected = json_or (field target ''expected'')
         (JStr (if json_truthy (field target ''shouldBeBlocked'') then ''block'' else ''allow'')),
       pi_intentExpected = json_or (field target ''intentExpected'') JUndef,
       pi_effectiveExpected = json_or (field target ''effectiveExpected'') JUndef,
       pi_reason = field target ''reason'',
       pi_intentReason = field target ''intentReason'',
       pi_effectiveReason = field target ''effectiveReason'',
       pi_effectiveExplicit = json_truthy (field target ''effectiveExplicit''),
       pi_conflict = (field target ''verdict'' = JStr ''conflict'' \<or> json_truthy (field target ''conflict'')),
       pi_policySource = field target ''policySource''\<rparr>)"

definition path_lookup :: "json \<Rightarrow> (string \<times> json) list list \<Rightarrow> (string \<times> path_info) list" where
  "path_lookup sourceNetworkFallback targets = om_of (map (path_entry sourceNetworkFallback) targets)"

text \<open>\<open>result.data?.k\<close>.\<close>

definition data_field :: "(string \<times> json) list \<Rightarrow> string \<Rightarrow> json" where
  "data_field result k = field (get_obj result ''data'') k"

definition result_host :: "(string \<times> json) list \<Rightarrow> json" where
  "result_host result = json_or (data_field result ''host'') (field result ''host'')"

definition result_port :: "(string \<times> json) list \<Rightarrow> json" where
  "result_port result = json_or (json_or (data_field result ''port'') (field result ''port'')) (JNum 0)"

definition result_reachable :: "(string \<times> json) list \<Rightarrow> bool" where
  "result_reachable result \<longleftrightarrow> json_truthy (field result ''success'') \<and>
     (data_field result ''open'' = JBool True \<or> data_field result ''reachable'' = JBool True)"

definition bool_text :: "json \<Rightarrow> string" where
  "bool_text j = (if json_truthy j then ''true'' else ''false'')"

definition or_words :: "json list \<Rightarrow> string \<Rightarrow> string" where
  "or_words js words = js_to_string (foldr json_or js (JStr words))"

text \<open>The texts about one probe.\<close>

record probe_texts =
  pt_path :: string
  pt_networkPath :: string
  pt_source :: string
  pt_network :: string
  pt_hostPort :: string
  pt_destinationWithName :: string
  pt_policyDetail :: string
  pt_validationLabel :: string
  pt_evidenceDetail :: string

definition probe_texts_of :: "path_info \<Rightarrow> (string \<times> json) list \<Rightarrow> probe_texts" where
  "probe_texts_of i result =
     (let host = js_to_string (result_host result);
          port = result_port result;
          tcp = (field result ''op'' = JStr ''tcp_connect'');
          source = js_to_string (pi_sourceNetwork i);
          network = js_to_string (pi_network i);
          named = json_truthy (pi_deviceName i);
          device = js_to_string (pi_deviceName i);
          hostPort = host @ (if json_truthy port then '':'' @ js_to_string port else []);
          destinationNode = (if named then device @ '' ('' @ network @ '')'' else network);
          destination = network @ '' ('' @ hostPort @ '')'';
          intentExpected = json_or (pi_intentExpected i) (pi_expected i);
          effectiveExpected = json_or (pi_effectiveExpected i) (JStr ''unknown'');
          intentDetail = ''Intent '' @ js_to_string intentExpected @ '': '' @
            or_words [pi_intentReason i, pi_reason i] ''no additional detail'';
          effectiveDetail = ''Effective '' @ js_to_string effectiveExpected @ '': '' @
            or_words [pi_effectiveReason i] ''no inferred UniFi evidence''
      in \<lparr>pt_path = source @ '' -> '' @ destinationNode,
          pt_networkPath = source @ '' -> '' @ network,
          pt_source = source,
          pt_network = network,
          pt_hostPort = hostPort,
          pt_destinationWithName = (if named then device @ '' on '' @ destination else destination),
          pt_policyDetail = or_words [pi_policySource i] ''hybrid'' @ '' policy. '' @ intentDetail @ ''. '' @ effectiveDetail @ ''.'',
          pt_validationLabel = (if field result ''op'' = JStr ''ping'' then ''PING''
            else ''TCP'' @ (if json_truthy port then '':'' @ js_to_string port else [])),
          pt_evidenceDetail =
            (if tcp then ''Evidence: tcp_connect to '' @ host @ '':'' @ js_to_string port @ '' returned open='' @
               bool_text (data_field result ''open'')
             else ''Evidence: ping to '' @ host @ '' returned reachable='' @ bool_text (data_field result ''reachable'')) @
            '' (success='' @ bool_text (field result ''success'') @ '').''\<rparr>)"

definition mk_finding ::
    "finding_type \<Rightarrow> severity \<Rightarrow> string \<Rightarrow> string \<Rightarrow> string option \<Rightarrow> string option \<Rightarrow> string \<Rightarrow> topology_finding" where
  "mk_finding ty sev title description impact remediation resource =
     \<lparr>tf_type = ty, tf_severity = sev, tf_title = title, tf_description = description, tf_impact = impact,
      tf_remediation = remediation, tf_affectedResource = resource\<rparr>"

definition path_finding :: "string \<Rightarrow> path_info \<Rightarrow> (string \<times> json) list \<Rightarrow> topology_finding option" where
  "path_finding sourceDeviceLabel i result =
     (let x = probe_texts_of i result;
          isReachable = result_reachable result;
          intentExpected = json_or (pi_intentExpected i) (pi_expected i);
          effectiveExpected = json_or (pi_effectiveExpected i) (JStr ''unknown'');
          title = (\<lambda>what. what @ '': '' @ pt_path x @ '' ['' @ pt_validationLabel x @ '']'');
          described = (\<lambda>verb rest. ''Source '' @ sourceDeviceLabel @ '' on '' @ pt_source x @ verb @
            pt_destinationWithName x @ rest @ pt_evidenceDetail x);
          resource = pt_path x @ '' ('' @ pt_hostPort x @ '')''
      in if pi_conflict i then
           (if isReachable \<and> intentExpected = JStr ''block'' \<and> effectiveExpected = JStr ''allow'' \<and> pi_effectiveExplicit i then
              Some (mk_finding IsolationBreach LOW (title ''Potential Firewall Opening'')
                (described '' reached '' (''. Intent expects this path blocked, but UniFi effective policy explicitly allows it. '' @
                   pt_policyDetail x @ '' ''))
                (Some ''This path is likely intentional, but policy intent and effective enforcement are out of sync.'')
                (Some (''In UniFi, confirm this directional allow path ('' @ pt_networkPath x @
                   '') is intentional and documented. If intentional, add/update an intent override so this appears as expected. If not intentional, remove or narrow the allow rule and retest.''))
                resource)
            else
              Some (mk_finding PolicyConflict MEDIUM (title ''Policy Conflict'')
                (described '' tested '' (''. Intent and inferred effective policy disagree. '' @ pt_policyDetail x @ '' ''))
                None None resource))
         else if pi_expected i = JStr ''unknown'' then
           Some (mk_finding InsufficientEvidence LOW (title ''Unknown Expectation'')
             (described '' tested '' (''. No clear allow/block expectation exists for this directional path. '' @ pt_policyDetail x @ '' ''))
             None None resource)
         else if pi_expected i = JStr ''block'' \<and> isReachable then
           Some (mk_finding IsolationBreach CRITICAL (title ''Network Isolation Breach'')
             (described '' was able to reach '' (''. This directional path is currently expected to be blocked. '' @ pt_policyDetail x @ '' ''))
             (Some ''Devices on isolated networks can communicate, potentially allowing lateral movement, data exfiltration, or compromise of sensitive systems.'')
             (Some (''In UniFi, add/verify an inter-VLAN drop rule for '' @ pt_networkPath x @ '' (source '' @ pt_source x @
                '' -> destination '' @ pt_network x @ '') above broader allow rules. Then retest this path.''))
             resource)
         else if pi_expected i = JStr ''block'' then
           Some (mk_finding IsolationVerified INFO (title ''Isolation Verified'')
             (described '' could not reach '' '', which matches expected blocked policy. '') None None (pt_path x))
         else if pi_expected i = JStr ''allow'' \<and> \<not> isReachable then
           Some (mk_finding ConnectivityMismatch MEDIUM (title ''Expected Reachability Failed'')
             (described '' could not reach '' ('', even though this directional path is expected to be allowed. '' @ pt_policyDetail x @ '' ''))
             None
             (Some (''Validate directional allow rules for '' @ pt_path x @
                '' and confirm destination service/port availability on '' @ pt_hostPort x @ ''.''))
             resource)
         else if pi_expected i = JStr ''allow'' then
           Some (mk_finding IsolationVerified INFO (title ''Reachability Verified'')
             (described '' successfully reached '' '', matching expected allowed policy. '') None None (pt_path x))
         else None)"

definition result_finding ::
    "string \<Rightarrow> (string \<times> path_info) list \<Rightarrow> (string \<times> json) list \<Rightarrow> topology_finding option" where
  "result_finding sourceDeviceLabel lookup result =
     (if field result ''op'' \<noteq> JStr ''tcp_connect'' \<and> field result ''op'' \<noteq> JStr ''ping'' then None
      else (case om_get lookup (path_key (result_host result) (result_port result)) of
              None \<Rightarrow> None
            | Some i \<Rightarrow> path_finding sourceDeviceLabel i result))"

definition device_label :: "(string \<times> json) list \<Rightarrow> string" where
  "device_label metadata =
     or_words [field metadata ''sourceDeviceName'', field metadata ''sourceDeviceId'', field metadata ''sourceDeviceIp''] ''Probe device''"

text \<open>A null target or result ends the analysis with an exception.\<close>

definition analyzeTopologyResults ::
    "json list \<Rightarrow> (string \<times> json) list \<Rightarrow> topology_finding list option" where
  "analyzeTopologyResults results metadata =
     (case Option.bind (js_items (json_or (field metadata ''testTargets'') (JArr []))) item_fields of
        None \<Rightarrow> None
      | Some targets \<Rightarrow>
          (let lookup = path_lookup (json_or (field metadata ''deviceNetwork'') (JStr ''Unknown Source'')) targets in
           map_option (\<lambda>rs. List.map_filter (result_finding (device_label metadata) lookup) rs) (item_fields results)))"

section \<open>The mesh\<close>

record mesh_data =
  mt_source :: peer
  mt_targets :: "peer list"
  mt_results :: "(string \<times> json) list list"
  mt_error :: "string option"

record mesh_path =
  mp_source :: peer
  mp_target :: peer
  mp_pingSuccess :: bool
  mp_pingLatency :: json
  mp_tcpSuccess :: bool
  mp_error :: "string option"

record mesh_summary =
  ms_totalPaths :: nat
  ms_successfulPaths :: nat
  ms_failedPaths :: int
  ms_crossNetworkPaths :: nat
  ms_crossNetworkSuccesses :: nat

record mesh_state =
  mx_matrix :: "mesh_path list"
  mx_totalPaths :: nat
  mx_successfulPaths :: nat
  mx_crossNetworkPaths :: nat
  mx_crossNetworkSuccesses :: nat

definition about_peer :: "string \<Rightarrow> peer \<Rightarrow> (string \<times> json) list \<Rightarrow> bool" where
  "about_peer probe target r \<longleftrightarrow> field r ''op'' = JStr probe \<and>
     (data_field r ''host'' = JStr (pr_ip target) \<or> field r ''host'' = JStr (pr_ip target))"

definition answered :: "string \<Rightarrow> (string \<times> json) list option \<Rightarrow> bool" where
  "answered k r = (case r of None \<Rightarrow> False | Some r \<Rightarrow> json_truthy (field r ''success'') \<and> data_field r k = JBool True)"

definition mesh_path_of :: "mesh_data \<Rightarrow> peer \<Rightarrow> mesh_path" where
  "mesh_path_of d target =
     (if truthy (mt_error d) then
        \<lparr>mp_source = mt_source d, mp_target = target, mp_pingSuccess = False, mp_pingLatency = JUndef,
         mp_tcpSuccess = False, mp_error = mt_error d\<rparr>
      else
        (let pingResult = find (about_peer ''ping'' target) (mt_results d);
             tcpResult = find (about_peer ''tcp_connect'' target) (mt_results d)
         in \<lparr>mp_source = mt_source d, mp_target = target, mp_pingSuccess = answered ''reachable'' pingResult,
             mp_pingLatency = (case pingResult of None \<Rightarrow> JUndef | Some r \<Rightarrow> data_field r ''latency''),
             mp_tcpSuccess = answered ''open'' tcpResult, mp_error = None\<rparr>))"

definition path_success :: "mesh_path \<Rightarrow> bool" where
  "path_success p \<longleftrightarrow> mp_pingSuccess p \<or> mp_tcpSuccess p"

definition crosses :: "mesh_path \<Rightarrow> bool" where
  "crosses p \<longleftrightarrow> pr_network (mp_source p) \<noteq> pr_network (mp_target p)"

definition mesh_step :: "mesh_data \<Rightarrow> mesh_state \<Rightarrow> peer \<Rightarrow> mesh_state" where
  "mesh_step d st target =
     (let p = mesh_path_of d target; pathSuccess = path_success p; isCrossNetwork = crosses p in
      \<lparr>mx_matrix = mx_matrix st @ [p], mx_totalPaths = mx_totalPaths st + 1,
       mx_successfulPaths = mx_successfulPaths st + (if pathSuccess then 1 else 0),
       mx_crossNetworkPaths = mx_crossNetworkPaths st + (if isCrossNetwork then 1 else 0),
       mx_crossNetworkSuccesses = mx_crossNetworkSuccesses st + (if isCrossNetwork \<and> pathSuccess then 1 else 0)\<rparr>)"

definition analyzeMeshResults :: "mesh_data list \<Rightarrow> mesh_path list \<times> mesh_summary" where
  "analyzeMeshResults meshData =
     (let st = foldl (\<lambda>st d. foldl (mesh_step d) st (mt_targets d))
                 \<lparr>mx_matrix = [], mx_totalPaths = 0, mx_successfulPaths = 0, mx_crossNetworkPaths = 0,
                  mx_crossNetworkSuccesses = 0\<rparr> meshData
      in (mx_matrix st,
          \<lparr>ms_totalPaths = mx_totalPaths st, ms_successfulPaths = mx_successfulPaths st,
           ms_failedPaths = int (mx_totalPaths st) - int (mx_successfulPaths st),
           ms_crossNetworkPaths = mx_crossNetworkPaths st,
           ms_crossNetworkSuccesses = mx_crossNetworkSuccesses st\<rparr>))"

section \<open>What a finding says\<close>

lemma mk_finding_simps [simp]:
  "tf_type (mk_finding ty sev t d i r a) = ty" "tf_severity (mk_finding ty sev t d i r a) = sev"
  "tf_title (mk_finding ty sev t d i r a) = t"
  by (simp_all add: mk_finding_def)

text \<open>The kind and the severity of the finding about one probe.\<close>

fun finding_table :: "bool \<Rightarrow> bool \<Rightarrow> string \<Rightarrow> bool \<Rightarrow> (finding_type \<times> severity) option" where
  "finding_table conflict exception expected reachable =
     (if conflict then Some (if exception then (IsolationBreach, LOW) else (PolicyConflict, MEDIUM))
      else if expected = ''unknown'' then Some (InsufficientEvidence, LOW)
      else if expected = ''block'' then Some (if reachable then (IsolationBreach, CRITICAL) else (IsolationVerified, INFO))
      else if expected = ''allow'' then Some (if reachable then (IsolationVerified, INFO) else (ConnectivityMismatch, MEDIUM))
      else None)"

definition explicit_exception :: "path_info \<Rightarrow> (string \<times> json) list \<Rightarrow> bool" where
  "explicit_exception i r \<longleftrightarrow> result_reachable r \<and> json_or (pi_intentExpected i) (pi_expected i) = JStr ''block'' \<and>
     json_or (pi_effectiveExpected i) (JStr ''unknown'') = JStr ''allow'' \<and> pi_effectiveExplicit i"

lemma path_finding_table:
  "pi_expected i = JStr e \<Longrightarrow>
   map_option (\<lambda>f. (tf_type f, tf_severity f)) (path_finding l i r) =
     finding_table (pi_conflict i) (explicit_exception i r) e (result_reachable r)"
  by (simp add: path_finding_def Let_def explicit_exception_def)

lemma path_finding_critical:
  "path_finding l i r = Some f \<Longrightarrow>
   tf_severity f = CRITICAL \<longleftrightarrow> \<not> pi_conflict i \<and> pi_expected i = JStr ''block'' \<and> result_reachable r"
  by (auto simp: path_finding_def Let_def split: if_splits)

section \<open>The findings about a generated test\<close>

definition info_of_target :: "test_target \<Rightarrow> path_info" where
  "info_of_target t = snd (path_entry JUndef (obj_fields (target_json t)))"

lemma target_json_path:
  "de_sourceNetworkName (tg_expectation t) \<noteq> [] \<Longrightarrow>
   path_entry fallback (obj_fields (target_json t)) = (probe_key t, info_of_target t)"
proof -
  assume "de_sourceNetworkName (tg_expectation t) \<noteq> []"
  then have "json_or (field (obj_fields (target_json t)) ''sourceNetwork'') x = JStr (de_sourceNetworkName (tg_expectation t))" for x
    by (simp add: target_json_def Let_def obj_fields_def field_def om_get_def json_or_def)
  moreover have "path_key (field (obj_fields (target_json t)) ''ip'') (field (obj_fields (target_json t)) ''port'') = probe_key t"
    unfolding target_json_fields by (simp add: path_key_def js_int_def probe_key_def show_number_int del: of_int_of_nat_eq)
  ultimately show ?thesis by (simp add: path_entry_def info_of_target_def)
qed

lemma info_of_target_fields:
  "pi_expected (info_of_target t) = JStr (ex_text (ds_expected (de_decision (tg_expectation t))))"
  "pi_conflict (info_of_target t) = ds_conflict (de_decision (tg_expectation t))"
proof -
  have "ex_text x \<noteq> []" for x by (cases x) simp_all
  then show "pi_expected (info_of_target t) = JStr (ex_text (ds_expected (de_decision (tg_expectation t))))"
    by (simp add: info_of_target_def path_entry_def target_json_def Let_def obj_fields_def field_def om_get_def json_or_def)
  show "pi_conflict (info_of_target t) = ds_conflict (de_decision (tg_expectation t))"
    by (simp add: info_of_target_def path_entry_def target_json_def Let_def obj_fields_def field_def om_get_def)
qed

text \<open>A result answers the probe whose address and port it repeats.\<close>

definition answers :: "test_target \<Rightarrow> (string \<times> json) list \<Rightarrow> bool" where
  "answers t r \<longleftrightarrow> field r ''op'' \<in> {JStr ''tcp_connect'', JStr ''ping''} \<and>
     path_key (result_host r) (result_port r) = probe_key t"

lemma topology_targets_field:
  "json_or (field (obj_fields (topology_metadata dn ip dev networks es targets)) ''testTargets'') (JArr []) =
     JArr (map target_json targets)"
  by (simp add: topology_metadata_def obj_fields_def field_def om_get_def json_or_def)

lemma item_fields_objects: "(\<And>x. x \<in> set xs \<Longrightarrow> f x \<noteq> JNull) \<Longrightarrow> item_fields (map f xs) = Some (map (\<lambda>x. obj_fields (f x)) xs)"
  by (auto simp: item_fields_def) metis

lemma target_json_object: "target_json t \<noteq> JNull"
  by (simp add: target_json_def Let_def)

lemma analysis_of_plan:
  assumes "\<And>t. t \<in> set targets \<Longrightarrow> de_sourceNetworkName (tg_expectation t) \<noteq> []"
  shows "analyzeTopologyResults (map JObj rs) (obj_fields (topology_metadata dn ip dev networks es targets)) =
    Some (List.map_filter
      (result_finding (device_label (obj_fields (topology_metadata dn ip dev networks es targets)))
         (om_of (map (\<lambda>t. (probe_key t, info_of_target t)) targets))) rs)"
proof -
  have "path_lookup fb (map (\<lambda>t. obj_fields (target_json t)) targets) = om_of (map (\<lambda>t. (probe_key t, info_of_target t)) targets)" for fb
    using target_json_path assms by (auto simp: path_lookup_def comp_def intro: arg_cong [of _ _ om_of])
  then show ?thesis
    by (simp add: analyzeTopologyResults_def topology_targets_field js_items_def item_fields_objects target_json_object
        obj_fields_def [of "JObj _"] Let_def)
qed

lemma om_get_probe:
  assumes "inj_on probe_key (set targets)"
  shows "om_get (om_of (map (\<lambda>t. (probe_key t, g t)) targets)) k = Some v \<longleftrightarrow> (\<exists>t \<in> set targets. probe_key t = k \<and> v = g t)"
proof (cases "k \<in> probe_key ` set targets")
  case True
  then obtain t where t: "t \<in> set targets" "probe_key t = k" by auto
  have "om_get (om_of (map (\<lambda>t. (probe_key t, g t)) targets)) (probe_key t) = Some (g t)"
    by (rule om_get_of_map [OF t(1)]) (use assms t(1) in \<open>auto dest: inj_onD\<close>)
  then show ?thesis using t assms by (auto dest: inj_onD)
next
  case False
  then show ?thesis using om_get_of_map_None [OF False, of g] by auto
qed

lemma critical_findings:
  assumes "\<forall>d \<in> set devices. 0 < dt_port d" "topology_plan networks devices es = (commands, targets)"
    and "\<forall>e \<in> set es. de_sourceNetworkName e \<noteq> []"
    and "md = obj_fields (topology_metadata dn ip dev networks es targets)"
  shows "\<exists>fs. analyzeTopologyResults (map JObj rs) md = Some fs \<and>
    (\<forall>f. f \<in> set fs \<and> tf_severity f = CRITICAL \<longleftrightarrow>
      (\<exists>t \<in> set targets. \<exists>r \<in> set rs. answers t r \<and> result_reachable r \<and>
         ds_expected (de_decision (tg_expectation t)) = ExBlock \<and> \<not> ds_conflict (de_decision (tg_expectation t)) \<and>
         path_finding (device_label md) (info_of_target t) r = Some f))"
proof -
  let ?l = "om_of (map (\<lambda>t. (probe_key t, info_of_target t)) targets)"
  have inj: "inj_on probe_key (set targets)"
    using plan_commands_keys [OF assms(1,2)] by (simp add: distinct_map)
  have "tg_expectation ` set targets \<subseteq> set es" using plan_expectations [OF assms(1,2)] .
  then have names: "de_sourceNetworkName (tg_expectation t) \<noteq> []" if "t \<in> set targets" for t
    using assms(3) that by blast
  have fs: "analyzeTopologyResults (map JObj rs) md = Some (List.map_filter (result_finding (device_label md) ?l) rs)"
    unfolding assms(4) by (rule analysis_of_plan [OF names])
  have found: "result_finding (device_label md) ?l r = Some f \<longleftrightarrow>
      (\<exists>t \<in> set targets. answers t r \<and> path_finding (device_label md) (info_of_target t) r = Some f)" for r f
  proof -
    have "result_finding (device_label md) ?l r = Some f \<longleftrightarrow> field r ''op'' \<in> {JStr ''tcp_connect'', JStr ''ping''} \<and>
        (\<exists>i. om_get ?l (path_key (result_host r) (result_port r)) = Some i \<and> path_finding (device_label md) i r = Some f)"
      by (auto simp: result_finding_def split: option.split)
    moreover have "(\<exists>i. (\<exists>t \<in> T. K t = k \<and> i = I t) \<and> Q i) \<longleftrightarrow> (\<exists>t \<in> T. k = K t \<and> Q (I t))"
      for T and K :: "test_target \<Rightarrow> string" and I :: "test_target \<Rightarrow> path_info" and Q k by auto
    ultimately show ?thesis unfolding om_get_probe [OF inj] answers_def by (simp only:) blast
  qed
  have block: "ex_text x = ''block'' \<longleftrightarrow> x = ExBlock" for x by (cases x) simp_all
  have "f \<in> set (List.map_filter (result_finding (device_label md) ?l) rs) \<and> tf_severity f = CRITICAL \<longleftrightarrow>
      (\<exists>t \<in> set targets. \<exists>r \<in> set rs. answers t r \<and> result_reachable r \<and>
         ds_expected (de_decision (tg_expectation t)) = ExBlock \<and> \<not> ds_conflict (de_decision (tg_expectation t)) \<and>
         path_finding (device_label md) (info_of_target t) r = Some f)" for f
  proof -
    have "f \<in> set (List.map_filter (result_finding (device_label md) ?l) rs) \<longleftrightarrow>
        (\<exists>r \<in> set rs. result_finding (device_label md) ?l r = Some f)"
      by (auto simp: List.map_filter_def intro: rev_image_eqI)
    then show ?thesis unfolding found
      using path_finding_critical [of "device_label md" "info_of_target _" _ f] by (auto simp: info_of_target_fields block)
  qed
  then show ?thesis using fs by blast
qed

text \<open>The critical findings of a topology test.  For the stored metadata of a generated test and whatever results
  a device sends back, a critical breach is reported exactly for each result that answers a probe of
  the test, shows the target reachable, and whose path the policy decision blocks without a conflict;
  it is about the path of that probe.\<close>
lemma critical_breaches_exact:
  assumes "\<forall>d \<in> set devices. 0 < dt_port d" "topology_plan networks devices es = (commands, targets)"
    and "\<forall>e \<in> set es. de_sourceNetworkName e \<noteq> []"
    and "md = obj_fields (topology_metadata dn ip dev networks es targets)"
  shows "\<exists>fs. analyzeTopologyResults (map JObj rs) md = Some fs \<and>
    (\<forall>f. f \<in> set fs \<and> tf_severity f = CRITICAL \<longleftrightarrow>
      (\<exists>t \<in> set targets. \<exists>r \<in> set rs. answers t r \<and> result_reachable r \<and>
         ds_expected (de_decision (tg_expectation t)) = ExBlock \<and> \<not> ds_conflict (de_decision (tg_expectation t)) \<and>
         path_finding (device_label md) (info_of_target t) r = Some f))"
  by (rule critical_findings [OF assms])

text \<open>A probe from the trusted network that gets through to the gateway of the isolated one.\<close>

definition demo_answer :: "(string \<times> json) list" where
  "demo_answer = [(''op'', JStr ''ping''), (''success'', JBool True),
     (''data'', JObj [(''host'', JStr ''10.0.2.1''), (''reachable'', JBool True)])]"

lemma demo_gateway_plan:
  "topology_plan demo_nets [] [demo_path 0 1] =
     ([network_info_command, tcp_command (gateway_probe (demo_path 0 1) ''10.0.2.1''\<lparr>tg_port := 80\<rparr>),
       ping_command (gateway_probe (demo_path 0 1) ''10.0.2.1'')],
      [gateway_probe (demo_path 0 1) ''10.0.2.1''\<lparr>tg_port := 80\<rparr>, gateway_probe (demo_path 0 1) ''10.0.2.1''])"
  by code_simp

lemma critical_breaches_exact_witness:
  "\<exists>fs. analyzeTopologyResults [JObj demo_answer] (obj_fields (topology_metadata None None None demo_nets [demo_path 0 1]
      [gateway_probe (demo_path 0 1) ''10.0.2.1''\<lparr>tg_port := 80\<rparr>, gateway_probe (demo_path 0 1) ''10.0.2.1''])) = Some fs \<and>
    CRITICAL \<in> tf_severity ` set fs"
proof -
  let ?t = "gateway_probe (demo_path 0 1) ''10.0.2.1''"
  let ?md = "obj_fields (topology_metadata None None None demo_nets [demo_path 0 1] [?t\<lparr>tg_port := 80\<rparr>, ?t])"
  have named: "\<forall>e \<in> set [demo_path 0 1]. de_sourceNetworkName e \<noteq> []" by code_simp
  from critical_breaches_exact [OF _ demo_gateway_plan named refl, where rs = "[demo_answer]" and dn = None and ip = None and
      dev = None]
  obtain fs where fs: "analyzeTopologyResults (map JObj [demo_answer]) ?md = Some fs"
    and exact: "\<forall>f. f \<in> set fs \<and> tf_severity f = CRITICAL \<longleftrightarrow>
      (\<exists>t \<in> set [?t\<lparr>tg_port := 80\<rparr>, ?t]. \<exists>r \<in> set [demo_answer]. answers t r \<and> result_reachable r \<and>
         ds_expected (de_decision (tg_expectation t)) = ExBlock \<and> \<not> ds_conflict (de_decision (tg_expectation t)) \<and>
         path_finding (device_label ?md) (info_of_target t) r = Some f)" by auto
  have "answers ?t demo_answer" "result_reachable demo_answer" by code_simp+
  moreover have d: "ds_expected (de_decision (tg_expectation ?t)) = ExBlock" "\<not> ds_conflict (de_decision (tg_expectation ?t))"
    by code_simp+
  moreover obtain f where "path_finding (device_label ?md) (info_of_target ?t) demo_answer = Some f"
    using path_finding_table [of "info_of_target ?t" "''block''" "device_label ?md" demo_answer] d
    by (auto simp: info_of_target_fields)
  ultimately have "f \<in> set fs \<and> tf_severity f = CRITICAL"
    using exact [rule_format, of f] by (metis list.set_intros(1,2))
  then show ?thesis using fs by (intro exI [of _ fs]) (auto intro: rev_image_eqI)
qed

section \<open>The summary of a mesh test\<close>

definition mesh_matrix :: "mesh_data list \<Rightarrow> mesh_path list" where
  "mesh_matrix data = concat (map (\<lambda>d. map (mesh_path_of d) (mt_targets d)) data)"

definition counted :: "mesh_path list \<Rightarrow> mesh_state" where
  "counted ps =
     \<lparr>mx_matrix = ps, mx_totalPaths = length ps, mx_successfulPaths = length (filter path_success ps),
      mx_crossNetworkPaths = length (filter crosses ps),
      mx_crossNetworkSuccesses = length (filter (\<lambda>p. crosses p \<and> path_success p) ps)\<rparr>"

lemma mesh_step_counted: "mesh_step d (counted ps) t = counted (ps @ [mesh_path_of d t])"
  by (simp add: mesh_step_def counted_def Let_def)

lemma mesh_steps_counted: "foldl (mesh_step d) (counted ps) ts = counted (ps @ map (mesh_path_of d) ts)"
  by (induction ts arbitrary: ps) (simp_all add: mesh_step_counted)

lemma mesh_fold_counted:
  "foldl (\<lambda>st d. foldl (mesh_step d) st (mt_targets d)) (counted ps) data = counted (ps @ mesh_matrix data)"
  by (induction data arbitrary: ps) (simp_all add: mesh_steps_counted mesh_matrix_def)

text \<open>The mesh report.  The matrix has one entry for every source and target, in order; every number of the
  summary counts entries of the matrix, failed and successful paths add up, and no path succeeds across
  networks that is not counted among both.\<close>
lemma mesh_summary_counts:
  "analyzeMeshResults data = (mesh_matrix data,
     \<lparr>ms_totalPaths = length (mesh_matrix data), ms_successfulPaths = length (filter path_success (mesh_matrix data)),
      ms_failedPaths = int (length (filter (\<lambda>p. \<not> path_success p) (mesh_matrix data))),
      ms_crossNetworkPaths = length (filter crosses (mesh_matrix data)),
      ms_crossNetworkSuccesses = length (filter (\<lambda>p. crosses p \<and> path_success p) (mesh_matrix data))\<rparr>)"
proof -
  have "\<lparr>mx_matrix = [], mx_totalPaths = 0, mx_successfulPaths = 0, mx_crossNetworkPaths = 0, mx_crossNetworkSuccesses = 0\<rparr> = counted []"
    by (simp add: counted_def)
  moreover have "int (length ps) - int (length (filter P ps)) = int (length (filter (\<lambda>p. \<not> P p) ps))" for P :: "mesh_path \<Rightarrow> bool" and ps
    using sum_length_filter_compl [of P ps] by linarith
  ultimately show ?thesis by (simp add: analyzeMeshResults_def mesh_fold_counted Let_def) (simp add: counted_def)
qed

end
