(* ===== verification/Test_Processor.thy ===== *)
theory Test_Processor
  imports Test_Analysis
begin

text \<open>
  \<open>services/testProcessor.ts\<close> with \<open>services/vulnerabilityDispositionService.ts\<close>: the vulnerabilities that the
  results of a test run create, refresh and consolidate.

  Tables are lists of rows; a row's identifier is a number, and creating a row takes the next one.  The time
  at which the \<open>n\<close>-th finding of a run is stored is a parameter.  Scan results come at the types their
  interfaces declare; topology results are read as JSON.
\<close>

section \<open>Dispositions\<close>

definition AUTO_ACK_FIREWALL_OPENING_NOTE :: string where
  "AUTO_ACK_FIREWALL_OPENING_NOTE =
     ''Auto-acknowledged: explicit UniFi firewall/policy allow detected for this directional path. Add an intent override if this is expected.''"

definition AUTO_DEDUP_NOTE :: string where
  "AUTO_DEDUP_NOTE = ''Auto-deduplicated: consolidated duplicate finding for the same network path/endpoint.''"

definition NETWORK_FINDING_TYPES :: "string list" where
  "NETWORK_FINDING_TYPES = [''NETWORK_ISOLATION_BREACH'', ''NETWORK_POLICY_OPENING'']"

definition opening_title :: "string \<Rightarrow> bool" where
  "opening_title title = starts_with ''Potential Firewall Opening:'' title"

definition classifyTopologyBreachType :: "string \<Rightarrow> string" where
  "classifyTopologyBreachType title = (if opening_title title then ''NETWORK_POLICY_OPENING'' else ''NETWORK_ISOLATION_BREACH'')"

definition isNetworkFindingType :: "string \<Rightarrow> bool" where
  "isNetworkFindingType ty = (ty \<in> set NETWORK_FINDING_TYPES)"

text \<open>The expression \<open>\((\d+\.\d+\.\d+\.\d+(?::\d+)?)\)\s*$\<close>: no bracket opens inside the group, so the last one of the text
  starts it.\<close>

definition is_endpoint :: "string \<Rightarrow> bool" where
  "is_endpoint s =
     (case split_on CHR '':'' s of
        [addr] \<Rightarrow> length (split_on CHR ''.'' addr) = 4 \<and> list_all digits (split_on CHR ''.'' addr)
      | [addr, port] \<Rightarrow> length (split_on CHR ''.'' addr) = 4 \<and> list_all digits (split_on CHR ''.'' addr) \<and> digits port
      | _ \<Rightarrow> False)"

definition extractNetworkFindingEndpoint :: "string option \<Rightarrow> string option" where
  "extractNetworkFindingEndpoint resource =
     (if \<not> truthy resource then None
      else (case dropWhile is_space (rev (the resource)) of
              c # r \<Rightarrow>
                if c \<noteq> CHR '')'' then None
                else (let inside = takeWhile (\<lambda>x. x \<noteq> CHR ''('') r in
                      if length inside < length r \<and> is_endpoint (rev inside) then Some (rev inside) else None)
            | [] \<Rightarrow> None))"

definition normalizeSourceValue :: "string \<Rightarrow> string" where
  "normalizeSourceValue source = to_upper (js_trim source)"

text \<open>The expression \<open>:\s*([^:>]+?)\s*->\<close>: between its colon and its arrow there is neither a colon nor another
  bracket.  The group is returned with the white space around it, which is trimmed afterwards.\<close>

fun title_source :: "string \<Rightarrow> string option" where
  "title_source [] = None"
| "title_source (c # rest) =
     (if c = CHR '':'' then
        (let seg = takeWhile (\<lambda>x. x \<noteq> CHR '':'' \<and> x \<noteq> CHR ''>'') rest in
         if take 1 (drop (length seg) rest) = ''>'' \<and> 1 < length seg \<and> last seg = CHR ''-'' then Some (butlast seg)
         else title_source rest)
      else title_source rest)"

text \<open>The expression on descriptions, under the \<open>i\<close> flag:
  \<open>\bon\s+([A-Za-z0-9 _-]+?)\s+(was able to reach|could not reach|tested|successfully reached)\b\<close>.\<close>

definition is_word :: "char \<Rightarrow> bool" where
  "is_word c = (let n = (of_char (lower_char c) :: nat) in is_digit c \<or> c = CHR ''_'' \<or> 97 \<le> n \<and> n \<le> 122)"

definition phrase_at :: "string \<Rightarrow> bool" where
  "phrase_at s = list_ex (\<lambda>p. starts_with p (to_lower s) \<and> (case drop (length p) s of [] \<Rightarrow> True | c # _ \<Rightarrow> \<not> is_word c))
     [''was able to reach'', ''could not reach'', ''tested'', ''successfully reached'']"

fun lazy_group :: "string \<Rightarrow> string \<Rightarrow> string option" where
  "lazy_group acc [] = None"
| "lazy_group acc (c # s) =
     (if acc \<noteq> [] \<and> is_space c \<and> phrase_at (dropWhile is_space (c # s)) then Some (rev acc)
      else if is_word c \<or> c = CHR '' '' \<or> c = CHR ''-'' then lazy_group (c # acc) s
      else None)"

fun first_some :: "'a option list \<Rightarrow> 'a option" where
  "first_some [] = None"
| "first_some (x # xs) = (case x of Some y \<Rightarrow> Some y | None \<Rightarrow> first_some xs)"

definition on_source :: "string \<Rightarrow> string option" where
  "on_source s =
     (if starts_with ''on'' (to_lower s) then
        (let rest = drop 2 s; n = length (takeWhile is_space rest) in
         first_some (map (\<lambda>j. lazy_group [] (drop j rest)) (rev [1..<Suc n])))
      else None)"

fun description_source :: "bool \<Rightarrow> string \<Rightarrow> string option" where
  "description_source inWord [] = None"
| "description_source inWord (c # s) =
     (case (if inWord then None else on_source (c # s)) of
        Some g \<Rightarrow> Some g
      | None \<Rightarrow> description_source (is_word c) s)"

definition extractNetworkFindingSource :: "string \<Rightarrow> string \<Rightarrow> string option" where
  "extractNetworkFindingSource title description =
     (case title_source title of
        Some g \<Rightarrow> Some (normalizeSourceValue g)
      | None \<Rightarrow> map_option normalizeSourceValue (description_source False description))"

section \<open>Findings and rows\<close>

record vuln_finding =
  fd_type :: string
  fd_severity :: severity
  fd_title :: string
  fd_description :: string
  fd_impact :: "string option"
  fd_remediation :: "string option"
  fd_affectedResource :: "string option"
  fd_cveId :: "string option"

definition shouldAutoAcknowledgeFinding :: "vuln_finding \<Rightarrow> bool" where
  "shouldAutoAcknowledgeFinding f =
     (if fd_type f = ''NETWORK_POLICY_OPENING'' then True
      else if opening_title (fd_title f) then True
      else fd_severity f = LOW \<and> str_includes ''Intent expects this path blocked'' (fd_description f) \<and>
        str_includes ''explicitly allows'' (fd_description f))"

datatype vuln_status = VOpen | VAcknowledged | VFixed | VFalsePositive

record vuln =
  vl_id :: nat
  vl_testRunId :: "string option"
  vl_configId :: "string option"
  vl_type :: string
  vl_severity :: severity
  vl_title :: string
  vl_description :: string
  vl_impact :: "string option"
  vl_remediation :: "string option"
  vl_affectedResource :: "string option"
  vl_cveId :: "string option"
  vl_status :: vuln_status
  vl_firstSeen :: int
  vl_lastSeen :: int
  vl_notes :: "string option"

record service_row =
  sr_testRunId :: string
  sr_ipAddress :: string
  sr_port :: nat
  sr_protocol :: "string option"
  sr_serviceName :: "string option"
  sr_banner :: "string option"
  sr_version :: "string option"

record processor_run =
  pc_id :: string
  pc_testType :: string
  pc_configId :: "string option"
  pc_resultsJson :: json

record processor_db =
  pd_vulns :: "vuln list"
  pd_nextId :: nat
  pd_services :: "service_row list"
  pd_runs :: "processor_run list"

section \<open>Storing findings\<close>

definition is_active :: "vuln \<Rightarrow> bool" where
  "is_active v \<longleftrightarrow> vl_status v = VOpen \<or> vl_status v = VAcknowledged"

definition in_config :: "string option \<Rightarrow> vuln \<Rightarrow> bool" where
  "in_config configId v \<longleftrightarrow> (if truthy configId then vl_configId v = configId else True)"

definition by_recency :: "vuln list \<Rightarrow> vuln list" where
  "by_recency vs = sort_key (\<lambda>v. - vl_lastSeen v) (sort_key (\<lambda>v. - vl_firstSeen v) vs)"

definition same_endpoint :: "string option \<Rightarrow> string \<Rightarrow> vuln list \<Rightarrow> vuln list" where
  "same_endpoint configId endpoint vs =
     by_recency (filter (\<lambda>v. in_config configId v \<and> vl_type v \<in> set NETWORK_FINDING_TYPES \<and> is_active v \<and>
       (case vl_affectedResource v of None \<Rightarrow> False | Some r \<Rightarrow> str_includes endpoint r)) vs)"

definition finding_source :: "vuln_finding \<Rightarrow> string option" where
  "finding_source f = extractNetworkFindingSource (fd_title f) (fd_description f)"

definition vuln_source :: "vuln \<Rightarrow> string option" where
  "vuln_source v = extractNetworkFindingSource (vl_title v) (vl_description v)"

text \<open>The endpoint of a finding about the network; other findings have none.\<close>

definition finding_endpoint :: "vuln_finding \<Rightarrow> string option" where
  "finding_endpoint f =
     (if isNetworkFindingType (fd_type f) then extractNetworkFindingEndpoint (fd_affectedResource f) else None)"

definition pick_candidate :: "vuln_finding \<Rightarrow> vuln list \<Rightarrow> vuln option" where
  "pick_candidate f candidates =
     (case (if truthy (finding_source f) then find (\<lambda>c. vuln_source c = finding_source f) candidates else None) of
        Some v \<Rightarrow> Some v
      | None \<Rightarrow>
          (case find (\<lambda>c. \<not> truthy (vuln_source c)) candidates of
             Some v \<Rightarrow> Some v
           | None \<Rightarrow> Some (hd candidates)))"

definition first_similar :: "string option \<Rightarrow> vuln_finding \<Rightarrow> vuln list \<Rightarrow> vuln option" where
  "first_similar configId f vs =
     (case by_recency (filter (\<lambda>v. in_config configId v \<and> vl_type v = fd_type f \<and>
         (fd_affectedResource f \<noteq> None \<longrightarrow> vl_affectedResource v = fd_affectedResource f) \<and> is_active v) vs) of
        [] \<Rightarrow> None
      | v # _ \<Rightarrow> Some v)"

definition findExistingVulnerability :: "string option \<Rightarrow> vuln_finding \<Rightarrow> vuln list \<Rightarrow> vuln option" where
  "findExistingVulnerability configId f vs =
     (case finding_endpoint f of
        None \<Rightarrow> first_similar configId f vs
      | Some endpoint \<Rightarrow>
          (let candidates = same_endpoint configId endpoint vs in
           if 0 < length candidates then pick_candidate f candidates else first_similar configId f vs))"

definition update_vuln :: "nat \<Rightarrow> (vuln \<Rightarrow> vuln) \<Rightarrow> vuln list \<Rightarrow> vuln list" where
  "update_vuln i g vs = map (\<lambda>v. if vl_id v = i then g v else v) vs"

definition dedup_notes :: "vuln \<Rightarrow> string option" where
  "dedup_notes d = (if \<not> truthy (vl_notes d) \<or> vl_notes d = Some AUTO_DEDUP_NOTE then Some AUTO_DEDUP_NOTE else vl_notes d)"

definition is_duplicate :: "nat \<Rightarrow> vuln_finding \<Rightarrow> vuln \<Rightarrow> bool" where
  "is_duplicate keeperId f d \<longleftrightarrow> vl_id d \<noteq> keeperId \<and>
     (\<not> truthy (finding_source f) \<or> \<not> truthy (vuln_source d) \<or> vuln_source d = finding_source f)"

definition collapseDuplicateNetworkFindings :: "string option \<Rightarrow> nat \<Rightarrow> vuln_finding \<Rightarrow> vuln list \<Rightarrow> vuln list" where
  "collapseDuplicateNetworkFindings configId keeperId f vs =
     (case finding_endpoint f of
        None \<Rightarrow> vs
      | Some endpoint \<Rightarrow>
          foldl (\<lambda>vs d. if is_duplicate keeperId f d
                         then update_vuln (vl_id d) (\<lambda>v. v\<lparr>vl_status := VAcknowledged, vl_notes := dedup_notes d\<rparr>) vs else vs)
            vs (same_endpoint configId endpoint vs))"

definition next_status :: "bool \<Rightarrow> vuln \<Rightarrow> vuln_status" where
  "next_status autoAcknowledge existing =
     (if autoAcknowledge then VAcknowledged
      else if vl_status existing = VAcknowledged \<and> vl_notes existing = Some AUTO_ACK_FIREWALL_OPENING_NOTE then VOpen
      else vl_status existing)"

text \<open>\<open>undefined\<close> leaves the notes, null clears them.\<close>

definition next_notes :: "bool \<Rightarrow> vuln \<Rightarrow> string option" where
  "next_notes autoAcknowledge existing =
     (if autoAcknowledge then
        (if \<not> truthy (vl_notes existing) \<or> vl_notes existing = Some AUTO_ACK_FIREWALL_OPENING_NOTE
         then Some AUTO_ACK_FIREWALL_OPENING_NOTE else vl_notes existing)
      else if vl_notes existing = Some AUTO_ACK_FIREWALL_OPENING_NOTE then None
      else vl_notes existing)"

text \<open>An update with an undefined value leaves the column as it is.\<close>

definition refresh_vuln :: "int \<Rightarrow> string \<Rightarrow> string option \<Rightarrow> vuln_finding \<Rightarrow> vuln \<Rightarrow> vuln" where
  "refresh_vuln now testRunId configId f v =
     (let auto = shouldAutoAcknowledgeFinding f in
      v\<lparr>vl_lastSeen := now, vl_testRunId := Some testRunId, vl_configId := configId,
        vl_status := next_status auto v, vl_severity := fd_severity f, vl_title := fd_title f,
        vl_description := fd_description f, vl_impact := nullish (fd_impact f) (vl_impact v),
        vl_remediation := nullish (fd_remediation f) (vl_remediation v), vl_cveId := nullish (fd_cveId f) (vl_cveId v),
        vl_notes := next_notes auto v\<rparr>)"

definition new_vuln :: "nat \<Rightarrow> int \<Rightarrow> string \<Rightarrow> string option \<Rightarrow> vuln_finding \<Rightarrow> vuln" where
  "new_vuln i now testRunId configId f =
     (let auto = shouldAutoAcknowledgeFinding f in
      \<lparr>vl_id = i, vl_testRunId = Some testRunId, vl_configId = configId, vl_type = fd_type f, vl_severity = fd_severity f,
       vl_title = fd_title f, vl_description = fd_description f, vl_impact = fd_impact f, vl_remediation = fd_remediation f,
       vl_affectedResource = fd_affectedResource f, vl_cveId = fd_cveId f,
       vl_status = (if auto then VAcknowledged else VOpen), vl_firstSeen = now, vl_lastSeen = now,
       vl_notes = (if auto then Some AUTO_ACK_FIREWALL_OPENING_NOTE else None)\<rparr>)"

definition store_finding :: "string \<Rightarrow> string option \<Rightarrow> int \<Rightarrow> vuln_finding \<Rightarrow> processor_db \<Rightarrow> processor_db" where
  "store_finding testRunId configId now f db =
     (case findExistingVulnerability configId f (pd_vulns db) of
        Some existing \<Rightarrow>
          db\<lparr>pd_vulns := collapseDuplicateNetworkFindings configId (vl_id existing) f
               (update_vuln (vl_id existing) (refresh_vuln now testRunId configId f) (pd_vulns db))\<rparr>
      | None \<Rightarrow>
          db\<lparr>pd_nextId := Suc (pd_nextId db),
             pd_vulns := collapseDuplicateNetworkFindings configId (pd_nextId db) f
               (pd_vulns db @ [new_vuln (pd_nextId db) now testRunId configId f])\<rparr>)"

definition createVulnerabilities ::
    "(nat \<Rightarrow> int) \<Rightarrow> vuln_finding list \<Rightarrow> string \<Rightarrow> string option \<Rightarrow> processor_db \<Rightarrow> processor_db" where
  "createVulnerabilities clock findings testRunId configId db =
     foldl (\<lambda>db nf. store_finding testRunId configId (clock (fst nf)) (snd nf) db) db (enumerate 0 findings)"

section \<open>Scans\<close>

record open_port =
  op_port :: nat
  op_protocol :: string
  op_service :: "string option"
  op_banner :: "string option"

record host_scan =
  hs_ip :: string
  hs_openPorts :: "open_port list"

record vlan_test =
  vt_sourceVlan :: int
  vt_targetVlan :: int
  vt_canReach :: bool

record service_scan =
  ss_ip :: string
  ss_port :: nat
  ss_service :: string
  ss_version :: "string option"

definition riskyPorts :: "nat \<Rightarrow> (string \<times> severity \<times> string) option" where
  "riskyPorts port = map_of
     [(21, ''FTP'', HIGH, ''FTP transmits credentials in plaintext''),
      (23, ''Telnet'', HIGH, ''Telnet transmits data in plaintext''),
      (445, ''SMB'', MEDIUM, ''SMB can be vulnerable to attacks''),
      (3389, ''RDP'', MEDIUM, ''RDP should not be exposed''),
      (5900, ''VNC'', MEDIUM, ''VNC may have weak authentication''),
      (6379, ''Redis'', HIGH, ''Redis often lacks authentication''),
      (27017, ''MongoDB'', HIGH, ''MongoDB may be unauthenticated'')] port"

definition endpoint_text :: "string \<Rightarrow> nat \<Rightarrow> string" where
  "endpoint_text ip port = ip @ CHR '':'' # show_nat port"

definition port_finding :: "string \<Rightarrow> open_port \<Rightarrow> vuln_finding option" where
  "port_finding ip port =
     (case riskyPorts (op_port port) of
        None \<Rightarrow> None
      | Some (name, severity, reason) \<Rightarrow> Some
          \<lparr>fd_type = ''RISKY_PORT_OPEN'', fd_severity = severity,
           fd_title = name @ '' service exposed on '' @ endpoint_text ip (op_port port),
           fd_description = ''The '' @ name @ '' service was found running on port '' @ show_nat (op_port port) @ ''. '' @ reason @ ''.'',
           fd_impact = Some ''This service could be exploited by attackers to gain unauthorized access.'',
           fd_remediation = Some (''Consider disabling the '' @ name @ '' service or restricting access via firewall rules.''),
           fd_affectedResource = Some (endpoint_text ip (op_port port)), fd_cveId = None\<rparr>)"

definition port_service :: "string \<Rightarrow> string \<Rightarrow> open_port \<Rightarrow> service_row" where
  "port_service testRunId ip port =
     \<lparr>sr_testRunId = testRunId, sr_ipAddress = ip, sr_port = op_port port, sr_protocol = Some (op_protocol port),
      sr_serviceName = op_service port, sr_banner = op_banner port, sr_version = None\<rparr>"

definition processPortScanResults ::
    "(nat \<Rightarrow> int) \<Rightarrow> string \<Rightarrow> string option \<Rightarrow> host_scan list \<Rightarrow> processor_db \<Rightarrow> processor_db" where
  "processPortScanResults clock testRunId configId hosts db =
     (let ports = concat (map (\<lambda>h. map (Pair (hs_ip h)) (hs_openPorts h)) hosts) in
      createVulnerabilities clock (List.map_filter (\<lambda>ip. port_finding (fst ip) (snd ip)) ports) testRunId configId
        (db\<lparr>pd_services := pd_services db @ map (\<lambda>ip. port_service testRunId (fst ip) (snd ip)) ports\<rparr>))"

definition arrow :: string where
  "arrow = [CHR '' '', CHR 0xE2, CHR 0x86, CHR 0x92, CHR '' '']"

definition vlan_finding :: "vlan_test \<Rightarrow> vuln_finding option" where
  "vlan_finding t =
     (if vt_canReach t \<and> vt_sourceVlan t \<noteq> vt_targetVlan t then
        (let src = ''VLAN '' @ show_int (vt_sourceVlan t); dst = ''VLAN '' @ show_int (vt_targetVlan t); nl = [CHR 0x0A] in Some
          \<lparr>fd_type = ''VLAN_ISOLATION_FAILURE'', fd_severity = CRITICAL,
           fd_title = ''VLAN isolation breach: '' @ src @ '' can reach '' @ dst,
           fd_description = ''Testing from '' @ src @ '' was able to reach devices on '' @ dst @
             ''. This indicates that VLAN isolation is not properly configured.'',
           fd_impact = Some ''Devices on different VLANs should be isolated. A breach allows lateral movement between network segments.'',
           fd_remediation = Some (''Review firewall rules between '' @ src @ '' and '' @ dst @
             ''. Ensure inter-VLAN routing is properly restricted.'' @ nl @ nl @ ''In UniFi:'' @ nl @
             ''1. Go to Settings > Routing & Firewall > Firewall'' @ nl @
             ''2. Create a LAN IN rule to block traffic between these VLANs'' @ nl @
             ''3. Ensure the rule is placed before any allow rules''),
           fd_affectedResource = Some (src @ arrow @ dst), fd_cveId = None\<rparr>)
      else None)"

definition processVlanTestResults ::
    "(nat \<Rightarrow> int) \<Rightarrow> string \<Rightarrow> string option \<Rightarrow> vlan_test list \<Rightarrow> processor_db \<Rightarrow> processor_db" where
  "processVlanTestResults clock testRunId configId tests db =
     createVulnerabilities clock (List.map_filter vlan_finding tests) testRunId configId db"

definition vulnerableVersions :: "string \<Rightarrow> (re_item list \<times> severity \<times> string option) list" where
  "vulnerableVersions service =
     (if service = ''ssh'' then
        [(lit ''OpenSSH_'' @ [RClass ''0123456''] @ lit ''.'', HIGH, Some ''Multiple CVEs''),
         (lit ''OpenSSH_7.'' @ [RClass ''0123''], MEDIUM, None)]
      else if service = ''http'' then
        [(lit ''Apache/2.2'', HIGH, Some ''EOL software''), (lit ''nginx/1.'' @ [RDigit] @ lit ''.'', MEDIUM, None)]
      else [])"

definition service_finding :: "service_scan \<Rightarrow> vuln_finding option" where
  "service_finding s =
     (if \<not> truthy (ss_version s) then None
      else (case find (\<lambda>v. re_test (fst v) (the (ss_version s))) (vulnerableVersions (to_lower (ss_service s))) of
              None \<Rightarrow> None
            | Some (_, severity, cve) \<Rightarrow> Some
                \<lparr>fd_type = ''OUTDATED_SERVICE'', fd_severity = severity,
                 fd_title = ''Outdated '' @ ss_service s @ '' version on '' @ endpoint_text (ss_ip s) (ss_port s),
                 fd_description = ''The '' @ ss_service s @ '' service is running version '' @ the (ss_version s) @
                   '' which may contain known vulnerabilities.'',
                 fd_impact = Some ''Outdated software may contain security vulnerabilities that could be exploited.'',
                 fd_remediation = Some (''Update '' @ ss_service s @ '' to the latest stable version.''),
                 fd_affectedResource = Some (endpoint_text (ss_ip s) (ss_port s)), fd_cveId = cve\<rparr>))"

definition processServiceDiscoveryResults ::
    "(nat \<Rightarrow> int) \<Rightarrow> string \<Rightarrow> string option \<Rightarrow> service_scan list \<Rightarrow> processor_db \<Rightarrow> processor_db" where
  "processServiceDiscoveryResults clock testRunId configId services db =
     createVulnerabilities clock (List.map_filter service_finding services) testRunId configId
       (db\<lparr>pd_services := pd_services db @ map (\<lambda>s.
            \<lparr>sr_testRunId = testRunId, sr_ipAddress = ss_ip s, sr_port = ss_port s, sr_protocol = None,
             sr_serviceName = Some (ss_service s), sr_banner = None, sr_version = ss_version s\<rparr>) services\<rparr>)"

section \<open>Results of a topology test\<close>

definition stored_metadata :: "json \<Rightarrow> (string \<times> json) list" where
  "stored_metadata resultsJson =
     (let storedResults = asJsonObject resultsJson;
          nested = asJsonObject (field (asJsonObject (field storedResults ''metadata'')) ''topologyMetadata'')
      in if 0 < length nested then nested else asJsonObject (field storedResults ''topologyMetadata''))"

definition breach_finding :: "topology_finding \<Rightarrow> vuln_finding" where
  "breach_finding r =
     \<lparr>fd_type = classifyTopologyBreachType (tf_title r), fd_severity = tf_severity r, fd_title = tf_title r,
      fd_description = tf_description r, fd_impact = tf_impact r, fd_remediation = tf_remediation r,
      fd_affectedResource = Some (tf_affectedResource r), fd_cveId = None\<rparr>"

definition is_breach :: "topology_finding \<Rightarrow> bool" where
  "is_breach r \<longleftrightarrow> tf_type r = IsolationBreach"

text \<open>An exception of the analysis leaves the database as it is.\<close>

definition processTopologyValidationResults ::
    "(nat \<Rightarrow> int) \<Rightarrow> string \<Rightarrow> string option \<Rightarrow> (string \<times> json) list \<Rightarrow> processor_db \<Rightarrow> processor_db" where
  "processTopologyValidationResults clock testRunId configId results db =
     (let stored = (case find (\<lambda>t. pc_id t = testRunId) (pd_runs db) of None \<Rightarrow> JUndef | Some t \<Rightarrow> pc_resultsJson t);
          commandResults = json_or (json_or (field results ''commandResults'') (field results ''results'')) (JArr [])
      in case Option.bind (js_items commandResults) (\<lambda>rs. analyzeTopologyResults rs (stored_metadata stored)) of
           None \<Rightarrow> db
         | Some analysis \<Rightarrow>
             createVulnerabilities clock (map breach_finding (filter is_breach analysis)) testRunId configId db)"

section \<open>Dispatch\<close>

text \<open>The results of a run, at the types of each kind of test; a full audit nests them.\<close>

record scan_results =
  rs_hosts :: "host_scan list"
  rs_tests :: "vlan_test list"
  rs_services :: "service_scan list"

record run_results =
  rn_scan :: scan_results
  rn_commands :: "(string \<times> json) list"
  rn_portScan :: "scan_results option"
  rn_vlanTest :: "scan_results option"
  rn_serviceDiscovery :: "scan_results option"

definition when_present :: "'a option \<Rightarrow> ('a \<Rightarrow> 's \<Rightarrow> 's) \<Rightarrow> 's \<Rightarrow> 's" where
  "when_present x f s = (case x of None \<Rightarrow> s | Some y \<Rightarrow> f y s)"

definition processTestResults :: "(nat \<Rightarrow> int) \<Rightarrow> string \<Rightarrow> run_results \<Rightarrow> processor_db \<Rightarrow> processor_db" where
  "processTestResults clock testRunId results db =
     (case find (\<lambda>t. pc_id t = testRunId) (pd_runs db) of
        None \<Rightarrow> db
      | Some t \<Rightarrow>
          (let ty = pc_testType t; configId = pc_configId t;
               ports = (\<lambda>r. processPortScanResults clock testRunId configId (rs_hosts r));
               vlans = (\<lambda>r. processVlanTestResults clock testRunId configId (rs_tests r));
               services = (\<lambda>r. processServiceDiscoveryResults clock testRunId configId (rs_services r))
           in if ty = ''port_scan'' then ports (rn_scan results) db
              else if ty = ''vlan_isolation'' then vlans (rn_scan results) db
              else if ty = ''service_discovery'' then services (rn_scan results) db
              else if ty = ''topology_validation'' then
                processTopologyValidationResults clock testRunId configId (rn_commands results) db
              else if ty = ''full_audit'' then
                when_present (rn_serviceDiscovery results) services
                  (when_present (rn_vlanTest results) vlans (when_present (rn_portScan results) ports db))
              else db))"

section \<open>What storing a finding does to the rows\<close>

lemma set_by_recency [simp]: "set (by_recency vs) = set vs"
  by (simp add: by_recency_def)

lemma distinct_by_recency: "distinct (map vl_id vs) \<Longrightarrow> distinct (map vl_id (by_recency vs))"
  by (simp add: by_recency_def distinct_map)

lemma distinct_mapD: "distinct (map f xs) \<Longrightarrow> distinct xs"
  by (simp add: distinct_map)

lemma by_recency_Nil: "by_recency vs = [] \<longleftrightarrow> vs = []"
  by (metis set_by_recency set_empty)

lemma same_id: "distinct (map vl_id vs) \<Longrightarrow> v \<in> set vs \<Longrightarrow> w \<in> set vs \<Longrightarrow> vl_id v = vl_id w \<Longrightarrow> v = w"
  by (meson distinct_map inj_onD)

lemma update_fold:
  assumes "distinct (map vl_id vs)" "set ds \<subseteq> set vs" "distinct ds" "\<And>d v. vl_id (g d v) = vl_id v"
  shows "foldl (\<lambda>vs d. if P d then update_vuln (vl_id d) (g d) vs else vs) vs ds =
    map (\<lambda>v. if v \<in> set ds \<and> P v then g v v else v) vs"
  using assms(2,3)
proof (induction ds rule: rev_induct)
  case (snoc d ds)
  have "vl_id v = vl_id d \<longleftrightarrow> v = d" if "v \<in> set vs" for v
    using same_id [OF assms(1) that, of d] snoc.prems(1) by auto
  then show ?case using snoc assms(4) by (auto simp: update_vuln_def)
qed simp

definition endpoint_match :: "string option \<Rightarrow> string \<Rightarrow> vuln \<Rightarrow> bool" where
  "endpoint_match configId endpoint v \<longleftrightarrow> in_config configId v \<and> vl_type v \<in> set NETWORK_FINDING_TYPES \<and> is_active v \<and>
     (case vl_affectedResource v of None \<Rightarrow> False | Some r \<Rightarrow> str_includes endpoint r)"

lemma set_same_endpoint: "set (same_endpoint configId endpoint vs) = {v \<in> set vs. endpoint_match configId endpoint v}"
  by (auto simp: same_endpoint_def endpoint_match_def)

definition consolidated :: "string option \<Rightarrow> nat \<Rightarrow> vuln_finding \<Rightarrow> vuln \<Rightarrow> vuln" where
  "consolidated configId keeperId f v =
     (if (\<exists>e. finding_endpoint f = Some e \<and> endpoint_match configId e v) \<and> is_duplicate keeperId f v
      then v\<lparr>vl_status := VAcknowledged, vl_notes := dedup_notes v\<rparr> else v)"

lemma collapse_map:
  assumes "distinct (map vl_id vs)"
  shows "collapseDuplicateNetworkFindings configId keeperId f vs = map (consolidated configId keeperId f) vs"
proof (cases "finding_endpoint f")
  case None
  then have "consolidated configId keeperId f v = v" for v by (simp add: consolidated_def)
  then show ?thesis using None by (simp add: collapseDuplicateNetworkFindings_def map_idI)
next
  case (Some e)
  have "set (same_endpoint configId e vs) \<subseteq> set vs" by (auto simp: set_same_endpoint)
  moreover have "distinct (same_endpoint configId e vs)"
    unfolding same_endpoint_def by (rule distinct_mapD [OF distinct_by_recency [OF distinct_map_filter [OF assms]]])
  ultimately have "collapseDuplicateNetworkFindings configId keeperId f vs =
      map (\<lambda>v. if v \<in> set (same_endpoint configId e vs) \<and> is_duplicate keeperId f v
        then v\<lparr>vl_status := VAcknowledged, vl_notes := dedup_notes v\<rparr> else v) vs"
    unfolding collapseDuplicateNetworkFindings_def Some option.case
    by (intro update_fold [OF assms]) simp_all
  then show ?thesis by (simp add: set_same_endpoint consolidated_def Some)
qed

lemma consolidated_keeps [simp]:
  "vl_id (consolidated c k f v) = vl_id v" "vl_type (consolidated c k f v) = vl_type v"
  "vl_affectedResource (consolidated c k f v) = vl_affectedResource v" "vl_configId (consolidated c k f v) = vl_configId v"
  "is_active (consolidated c k f v) = is_active v"
  by (auto simp add: consolidated_def is_active_def endpoint_match_def)

lemma consolidated_keeper: "consolidated c (vl_id v) f v = v"
  by (simp add: consolidated_def is_duplicate_def)

lemma refresh_keeps [simp]:
  "vl_id (refresh_vuln now run c f v) = vl_id v" "vl_type (refresh_vuln now run c f v) = vl_type v"
  "vl_affectedResource (refresh_vuln now run c f v) = vl_affectedResource v" "vl_configId (refresh_vuln now run c f v) = c"
  by (simp_all add: refresh_vuln_def Let_def)

lemma refresh_active: "is_active v \<Longrightarrow> is_active (refresh_vuln now run c f v)"
  by (auto simp: refresh_vuln_def Let_def is_active_def next_status_def)

lemma by_recency_hd: "by_recency vs = v # r \<Longrightarrow> v \<in> set vs"
  by (metis list.set_intros(1) set_by_recency)

lemma first_similar_mem: "first_similar c f vs = Some v \<Longrightarrow> v \<in> set vs \<and> is_active v \<and> in_config c v"
  by (auto simp: first_similar_def dest!: by_recency_hd split: list.splits)

lemma pick_candidate_mem: "pick_candidate f cs = Some v \<Longrightarrow> cs \<noteq> [] \<Longrightarrow> v \<in> set cs"
  by (auto simp: pick_candidate_def dest: find_mem split: option.splits if_splits)

lemma existing_mem:
  assumes "findExistingVulnerability c f vs = Some v"
  shows "v \<in> set vs \<and> is_active v \<and> in_config c v"
proof (cases "finding_endpoint f")
  case None
  then show ?thesis using assms first_similar_mem by (simp add: findExistingVulnerability_def)
next
  case (Some e)
  show ?thesis
  proof (cases "same_endpoint c e vs = []")
    case True
    then show ?thesis using assms first_similar_mem Some by (simp add: findExistingVulnerability_def)
  next
    case False
    then have "v \<in> set (same_endpoint c e vs)"
      using assms Some pick_candidate_mem by (simp add: findExistingVulnerability_def)
    then show ?thesis by (simp add: set_same_endpoint endpoint_match_def)
  qed
qed

text \<open>Identifiers are unique, and the next one is new.\<close>

definition vulns_wf :: "processor_db \<Rightarrow> bool" where
  "vulns_wf db \<longleftrightarrow> distinct (map vl_id (pd_vulns db)) \<and> (\<forall>v \<in> set (pd_vulns db). vl_id v < pd_nextId db)"

lemma store_finding_cases:
  assumes "vulns_wf db"
  shows "(\<exists>v. findExistingVulnerability c f (pd_vulns db) = Some v \<and> v \<in> set (pd_vulns db) \<and> is_active v \<and>
      pd_vulns (store_finding run c now f db) =
        map (\<lambda>w. if w = v then refresh_vuln now run c f v else consolidated c (vl_id v) f w) (pd_vulns db)) \<or>
    (findExistingVulnerability c f (pd_vulns db) = None \<and>
      pd_vulns (store_finding run c now f db) =
        map (consolidated c (pd_nextId db) f) (pd_vulns db) @ [new_vuln (pd_nextId db) now run c f])"
proof (cases "findExistingVulnerability c f (pd_vulns db)")
  case None
  have "distinct (map vl_id (pd_vulns db @ [new_vuln (pd_nextId db) now run c f]))"
    using assms by (auto simp: vulns_wf_def new_vuln_def Let_def)
  moreover have "consolidated c (pd_nextId db) f (new_vuln (pd_nextId db) now run c f) = new_vuln (pd_nextId db) now run c f"
    using consolidated_keeper [of c "new_vuln (pd_nextId db) now run c f" f] by (simp add: new_vuln_def Let_def)
  ultimately show ?thesis using None by (simp add: store_finding_def collapse_map)
next
  case (Some v)
  note v = existing_mem [OF Some]
  have d: "distinct (map vl_id (pd_vulns db))" using assms by (simp add: vulns_wf_def)
  have u: "update_vuln (vl_id v) (refresh_vuln now run c f) (pd_vulns db) =
      map (\<lambda>w. if w = v then refresh_vuln now run c f v else w) (pd_vulns db)"
    unfolding update_vuln_def using same_id [OF d] v by (intro map_cong refl) auto
  have "map vl_id (update_vuln (vl_id v) (refresh_vuln now run c f) (pd_vulns db)) = map vl_id (pd_vulns db)"
    by (simp add: update_vuln_def)
  then have "distinct (map vl_id (update_vuln (vl_id v) (refresh_vuln now run c f) (pd_vulns db)))" using d by simp
  moreover have "consolidated c (vl_id v) f (refresh_vuln now run c f v) = refresh_vuln now run c f v"
    using consolidated_keeper [of c "refresh_vuln now run c f v" f] by simp
  ultimately have "pd_vulns (store_finding run c now f db) =
      map (\<lambda>w. if w = v then refresh_vuln now run c f v else consolidated c (vl_id v) f w) (pd_vulns db)"
    using Some by (simp add: store_finding_def collapse_map u)
  then show ?thesis using Some v by blast
qed

lemma vulns_wf_ids:
  "vulns_wf db \<longleftrightarrow> distinct (map vl_id (pd_vulns db)) \<and> (\<forall>i \<in> set (map vl_id (pd_vulns db)). i < pd_nextId db)"
  by (simp add: vulns_wf_def)

lemma store_finding_ids:
  assumes "vulns_wf db"
  shows "map vl_id (pd_vulns (store_finding run c now f db)) = map vl_id (pd_vulns db) \<and>
      pd_nextId (store_finding run c now f db) = pd_nextId db \<or>
    map vl_id (pd_vulns (store_finding run c now f db)) = map vl_id (pd_vulns db) @ [pd_nextId db] \<and>
      pd_nextId (store_finding run c now f db) = Suc (pd_nextId db)"
  using store_finding_cases [OF assms, of c f run now]
  by (auto simp: store_finding_def new_vuln_def Let_def)

lemma store_finding_wf: "vulns_wf db \<Longrightarrow> vulns_wf (store_finding run c now f db)"
proof -
  assume wf: "vulns_wf db"
  from store_finding_ids [OF wf, of run c now f] show ?thesis
  proof (elim disjE conjE)
    assume e: "map vl_id (pd_vulns (store_finding run c now f db)) = map vl_id (pd_vulns db)"
      "pd_nextId (store_finding run c now f db) = pd_nextId db"
    show ?thesis unfolding vulns_wf_ids e using wf [unfolded vulns_wf_ids] .
  next
    assume e: "map vl_id (pd_vulns (store_finding run c now f db)) = map vl_id (pd_vulns db) @ [pd_nextId db]"
      "pd_nextId (store_finding run c now f db) = Suc (pd_nextId db)"
    show ?thesis unfolding vulns_wf_ids e using wf [unfolded vulns_wf_ids] by auto
  qed
qed

lemma create_step:
  "createVulnerabilities clock (fs @ [f]) run c db =
     store_finding run c (clock (length fs)) f (createVulnerabilities clock fs run c db)"
  by (simp add: createVulnerabilities_def enumerate_append_eq)

lemma create_wf: "vulns_wf db \<Longrightarrow> vulns_wf (createVulnerabilities clock fs run c db)"
proof (induction fs rule: rev_induct)
  case (snoc f fs)
  then show ?case unfolding create_step by (intro store_finding_wf)
qed (simp add: createVulnerabilities_def)

text \<open>What a store of findings keeps: every closed row as it is, and the id of every row.\<close>

definition closed_kept :: "processor_db \<Rightarrow> processor_db \<Rightarrow> bool" where
  "closed_kept db db' \<longleftrightarrow>
     (\<forall>v \<in> set (pd_vulns db). \<not> is_active v \<longrightarrow> v \<in> set (pd_vulns db')) \<and>
     vl_id ` set (pd_vulns db) \<subseteq> vl_id ` set (pd_vulns db') \<and> vulns_wf db'"

lemma closed_kept_refl: "vulns_wf db \<Longrightarrow> closed_kept db db"
  by (simp add: closed_kept_def)

lemma closed_kept_trans: "closed_kept db db1 \<Longrightarrow> closed_kept db1 db2 \<Longrightarrow> closed_kept db db2"
  unfolding closed_kept_def by (meson subset_trans)

lemma closed_keptD: "closed_kept db db' \<Longrightarrow> vulns_wf db'"
  by (simp add: closed_kept_def)

lemma store_keeps_closed:
  assumes "vulns_wf db"
  shows "closed_kept db (store_finding run c now f db)"
proof -
  have "consolidated c k f v = v" if "\<not> is_active v" for k v
    using that by (simp add: consolidated_def endpoint_match_def)
  then have "v \<in> set (pd_vulns (store_finding run c now f db))" if "v \<in> set (pd_vulns db)" "\<not> is_active v" for v
    using store_finding_cases [OF assms, of c f run now] that by (auto intro!: rev_image_eqI)
  moreover have "set (map vl_id (pd_vulns db)) \<subseteq> set (map vl_id (pd_vulns (store_finding run c now f db)))"
    using store_finding_ids [OF assms, of run c now f] by (elim disjE conjE) (simp_all only: set_append, auto)
  ultimately show ?thesis using store_finding_wf [OF assms] by (simp add: closed_kept_def)
qed

lemma create_keeps_closed: "vulns_wf db \<Longrightarrow> closed_kept db (createVulnerabilities clock fs run c db)"
proof (induction fs rule: rev_induct)
  case (snoc f fs)
  then show ?case unfolding create_step
    using closed_kept_trans store_keeps_closed closed_keptD by blast
qed (simp add: createVulnerabilities_def closed_kept_refl)

lemma closed_kept_services:
  "closed_kept (db\<lparr>pd_services := s\<rparr>) db' = closed_kept db db'" "vulns_wf (db\<lparr>pd_services := s\<rparr>) = vulns_wf db"
  by (simp_all add: closed_kept_def vulns_wf_def)

lemma scans_keep_closed:
  assumes "vulns_wf db"
  shows "closed_kept db (processPortScanResults clock run c hosts db)" "closed_kept db (processVlanTestResults clock run c tests db)"
    "closed_kept db (processServiceDiscoveryResults clock run c services db)"
    "closed_kept db (processTopologyValidationResults clock run c results db)"
proof -
  have "closed_kept db (createVulnerabilities clock fs run c (db\<lparr>pd_services := s\<rparr>))" for fs s
    using create_keeps_closed [of "db\<lparr>pd_services := s\<rparr>" clock fs run c] assms unfolding closed_kept_services by blast
  then show "closed_kept db (processPortScanResults clock run c hosts db)"
      "closed_kept db (processServiceDiscoveryResults clock run c services db)"
    by (simp_all add: processPortScanResults_def processServiceDiscoveryResults_def Let_def)
qed (use assms in \<open>auto simp: processVlanTestResults_def processTopologyValidationResults_def Let_def create_keeps_closed
    closed_kept_refl split: option.split\<close>)

lemma when_present_keeps_closed:
  assumes "closed_kept db db1" and "\<And>y db'. vulns_wf db' \<Longrightarrow> closed_kept db' (f y db')"
  shows "closed_kept db (when_present x f db1)"
  using assms closed_kept_trans closed_keptD [OF assms(1)] by (auto simp: when_present_def split: option.split)

text \<open>C38: what a user has closed stays closed: a vulnerability marked fixed or a false positive is never changed
  by the results of a test run, whatever they report; and no row is ever removed.\<close>
theorem closed_rows_untouched:
  assumes "vulns_wf db"
  shows "(v \<in> set (pd_vulns db) \<and> \<not> is_active v \<longrightarrow> v \<in> set (pd_vulns (processTestResults clock run results db))) \<and>
    vl_id ` set (pd_vulns db) \<subseteq> vl_id ` set (pd_vulns (processTestResults clock run results db)) \<and>
    vulns_wf (processTestResults clock run results db)"
proof -
  note keep = assms scans_keep_closed closed_kept_refl when_present_keeps_closed
  have "closed_kept db (processTestResults clock run results db)"
    unfolding processTestResults_def Let_def by (auto split: option.split intro!: keep)
  then show ?thesis by (auto simp: closed_kept_def)
qed

section \<open>Repeating a run\<close>

text \<open>A row that counts as the same finding.\<close>

definition stands_for :: "string option \<Rightarrow> vuln_finding \<Rightarrow> vuln \<Rightarrow> bool" where
  "stands_for c f v \<longleftrightarrow> is_active v \<and> in_config c v \<and>
     ((\<exists>e. finding_endpoint f = Some e \<and> endpoint_match c e v) \<or>
      (vl_type v = fd_type f \<and> (fd_affectedResource f \<noteq> None \<longrightarrow> vl_affectedResource v = fd_affectedResource f)))"

lemma existing_iff: "findExistingVulnerability c f vs = None \<longleftrightarrow> \<not> (\<exists>v \<in> set vs. stands_for c f v)"
proof -
  have first: "first_similar c f vs = None \<longleftrightarrow>
      \<not> (\<exists>v \<in> set vs. is_active v \<and> in_config c v \<and> vl_type v = fd_type f \<and>
          (fd_affectedResource f \<noteq> None \<longrightarrow> vl_affectedResource v = fd_affectedResource f))"
  proof -
    have "(case by_recency xs of [] \<Rightarrow> None | v # _ \<Rightarrow> Some v) = None \<longleftrightarrow> xs = []" for xs
      using by_recency_Nil [of xs] by (cases "by_recency xs") auto
    then show ?thesis unfolding first_similar_def by (auto simp: filter_empty_conv)
  qed
  have pick: "pick_candidate f cs \<noteq> None" for cs by (simp add: pick_candidate_def split: option.split)
  show ?thesis
  proof (cases "finding_endpoint f")
    case None
    then show ?thesis using first by (auto simp: findExistingVulnerability_def stands_for_def)
  next
    case (Some e)
    have empty: "same_endpoint c e vs = [] \<longleftrightarrow> \<not> (\<exists>v \<in> set vs. endpoint_match c e v)"
      unfolding set_empty [symmetric] set_same_endpoint by auto
    show ?thesis
    proof (cases "same_endpoint c e vs = []")
      case True
      then have "\<not> (\<exists>v \<in> set vs. endpoint_match c e v)" using empty by blast
      then show ?thesis using first Some True by (simp add: findExistingVulnerability_def stands_for_def)
    next
      case False
      then obtain v where "v \<in> set vs" "endpoint_match c e v" using empty by blast
      moreover from this have "stands_for c f v" using Some by (simp add: stands_for_def endpoint_match_def)
      moreover obtain y where "pick_candidate f (same_endpoint c e vs) = Some y" using pick by blast
      ultimately show ?thesis using Some False by (auto simp: findExistingVulnerability_def)
    qed
  qed
qed

text \<open>Storing any finding keeps what stands for another one.\<close>

lemma stands_for_cong:
  assumes "stands_for c f v" "vl_type w = vl_type v" "vl_affectedResource w = vl_affectedResource v" "is_active w"
    "vl_configId w = c \<or> vl_configId w = vl_configId v"
  shows "stands_for c f w"
  using assms by (auto simp: stands_for_def endpoint_match_def in_config_def split: if_splits)

lemma stands_for_stored:
  assumes "vulns_wf db" "v \<in> set (pd_vulns db)" "stands_for c f v"
  shows "\<exists>w \<in> set (pd_vulns (store_finding run c now g db)). stands_for c f w"
proof -
  have a: "is_active v" using assms(3) by (simp add: stands_for_def)
  have "stands_for c f (consolidated c k g v)" for k by (rule stands_for_cong [OF assms(3)]) (simp_all add: a)
  moreover have "stands_for c f (refresh_vuln now run c g v)"
    by (rule stands_for_cong [OF assms(3)]) (simp_all add: refresh_active a)
  moreover have "consolidated c k g v \<in> set (pd_vulns (store_finding run c now g db)) \<or>
      refresh_vuln now run c g v \<in> set (pd_vulns (store_finding run c now g db))"
    if "k = (case findExistingVulnerability c g (pd_vulns db) of None \<Rightarrow> pd_nextId db | Some x \<Rightarrow> vl_id x)" for k
    using store_finding_cases [OF assms(1), of c g run now] assms(2) that by (auto intro: rev_image_eqI)
  ultimately show ?thesis by blast
qed

lemma stored_stands_for:
  assumes "vulns_wf db"
  shows "\<exists>w \<in> set (pd_vulns (store_finding run c now f db)). stands_for c f w"
proof (cases "findExistingVulnerability c f (pd_vulns db)")
  case None
  then have "new_vuln (pd_nextId db) now run c f \<in> set (pd_vulns (store_finding run c now f db))"
    using store_finding_cases [OF assms, of c f run now] by auto
  moreover have "stands_for c f (new_vuln (pd_nextId db) now run c f)"
    by (auto simp: stands_for_def new_vuln_def Let_def is_active_def in_config_def)
  ultimately show ?thesis by blast
next
  case (Some v)
  then obtain v where "v \<in> set (pd_vulns db)" "stands_for c f v" using existing_iff [of c f "pd_vulns db"] by auto
  then show ?thesis by (rule stands_for_stored [OF assms])
qed

lemma create_keeps_standing:
  "vulns_wf db \<Longrightarrow> \<exists>v \<in> set (pd_vulns db). stands_for c f v \<Longrightarrow>
   \<exists>v \<in> set (pd_vulns (createVulnerabilities clock fs run c db)). stands_for c f v"
proof (induction fs rule: rev_induct)
  case (snoc g fs)
  then show ?case unfolding create_step using stands_for_stored [OF create_wf [OF snoc.prems(1)]] by blast
qed (simp add: createVulnerabilities_def)

lemma create_stands_for:
  "vulns_wf db \<Longrightarrow> f \<in> set fs \<Longrightarrow> \<exists>v \<in> set (pd_vulns (createVulnerabilities clock fs run c db)). stands_for c f v"
proof (induction fs rule: rev_induct)
  case (snoc g fs)
  note wf = create_wf [OF snoc.prems(1)]
  show ?case
  proof (cases "f = g")
    case True
    then show ?thesis unfolding create_step using stored_stands_for [OF wf] by blast
  next
    case False
    then obtain v where "v \<in> set (pd_vulns (createVulnerabilities clock fs run c db))" "stands_for c f v"
      using snoc by auto
    then show ?thesis unfolding create_step by (rule stands_for_stored [OF wf])
  qed
qed simp

lemma known_adds_nothing:
  "vulns_wf db \<Longrightarrow> (\<And>f. f \<in> set fs \<Longrightarrow> \<exists>v \<in> set (pd_vulns db). stands_for c f v) \<Longrightarrow>
   map vl_id (pd_vulns (createVulnerabilities clock fs run c db)) = map vl_id (pd_vulns db)"
proof (induction fs rule: rev_induct)
  case (snoc f fs)
  let ?db = "createVulnerabilities clock fs run c db"
  note wf = create_wf [OF snoc.prems(1), of clock fs run c]
  have "\<exists>v \<in> set (pd_vulns ?db). stands_for c f v" using create_keeps_standing [OF snoc.prems(1) snoc.prems(2)] by simp
  then have "findExistingVulnerability c f (pd_vulns ?db) \<noteq> None" by (simp add: existing_iff)
  then have "map vl_id (pd_vulns (store_finding run c now f ?db)) = map vl_id (pd_vulns ?db)" for now
    using store_finding_cases [OF wf, of c f run now] by auto
  then show ?case using snoc unfolding create_step by auto
qed (simp add: createVulnerabilities_def)

text \<open>C37: a repeated run adds no row.  Every finding of a run has an open or acknowledged row afterwards, and running
  the test again with the same outcome, by any later run for the same configuration and however often
  in between other findings were stored, only refreshes rows: the table has the same identifiers.\<close>
theorem repeat_run_adds_nothing:
  assumes "vulns_wf db" "db1 = createVulnerabilities clock fs run c db"
    and "db2 = createVulnerabilities clock' gs run' c db1"
  shows "(\<forall>f \<in> set fs. \<exists>v \<in> set (pd_vulns db1). stands_for c f v) \<and>
    map vl_id (pd_vulns (createVulnerabilities clock'' fs run'' c db2)) = map vl_id (pd_vulns db2)"
proof
  show first: "\<forall>f \<in> set fs. \<exists>v \<in> set (pd_vulns db1). stands_for c f v"
    using create_stands_for [OF assms(1)] unfolding assms(2) by blast
  have wf1: "vulns_wf db1" unfolding assms(2) by (rule create_wf [OF assms(1)])
  show "map vl_id (pd_vulns (createVulnerabilities clock'' fs run'' c db2)) = map vl_id (pd_vulns db2)"
  proof (rule known_adds_nothing)
    show "vulns_wf db2" unfolding assms(3) by (rule create_wf [OF wf1])
    show "\<exists>v \<in> set (pd_vulns db2). stands_for c f v" if "f \<in> set fs" for f
      unfolding assms(3) using create_keeps_standing [OF wf1] first that by blast
  qed
qed

section \<open>A known finding\<close>

text \<open>Refreshing a known finding.  The row that stands for it takes the severity, texts and run of the new
  finding; an opening the policy explains is acknowledged; a row that had been acknowledged only
  automatically is opened again, with its note cleared, when the path turns into a breach; otherwise
  the user's status is kept.\<close>
lemma known_finding_refreshed:
  assumes "vulns_wf db" "findExistingVulnerability c f (pd_vulns db) = Some v"
  shows "\<exists>w \<in> set (pd_vulns (store_finding run c now f db)).
    vl_id w = vl_id v \<and> vl_severity w = fd_severity f \<and> vl_title w = fd_title f \<and> vl_lastSeen w = now \<and>
    vl_firstSeen w = vl_firstSeen v \<and>
    (if shouldAutoAcknowledgeFinding f then vl_status w = VAcknowledged
     else if vl_status v = VAcknowledged \<and> vl_notes v = Some AUTO_ACK_FIREWALL_OPENING_NOTE
     then vl_status w = VOpen \<and> vl_notes w = None
     else vl_status w = vl_status v)"
proof (rule bexI [of _ "refresh_vuln now run c f v"])
  show "refresh_vuln now run c f v \<in> set (pd_vulns (store_finding run c now f db))"
    using store_finding_cases [OF assms(1), of c f run now] assms(2) by (auto intro: rev_image_eqI)
qed (simp add: refresh_vuln_def Let_def next_status_def next_notes_def)

section \<open>Addresses that contain each other\<close>

text \<open>One host's finding silences another's.  Rows are matched by whether the resource text contains the
  endpoint, so a finding about 10.0.2.1 also matches a row about 10.0.2.10: if that row names the same
  source, storing the finding either acknowledges it as a duplicate or overwrites its texts.  It is
  never left open as it was.\<close>
lemma contained_endpoint_hides_finding:
  assumes "vulns_wf db" "v \<in> set (pd_vulns db)" "is_active v" "in_config c v" "vl_type v \<in> set NETWORK_FINDING_TYPES"
    and "finding_endpoint f = Some e" "vl_affectedResource v = Some r" "str_includes e r" "vuln_source v = finding_source f"
  shows "\<forall>w \<in> set (pd_vulns (store_finding run c now f db)). vl_id w = vl_id v \<longrightarrow>
    vl_affectedResource w = Some r \<and> (vl_status w = VAcknowledged \<or> vl_title w = fd_title f)"
proof (intro ballI impI)
  fix w assume w: "w \<in> set (pd_vulns (store_finding run c now f db))" and i: "vl_id w = vl_id v"
  have d: "distinct (map vl_id (pd_vulns db))" using assms(1) by (simp add: vulns_wf_def)
  have m: "endpoint_match c e v" using assms by (simp add: endpoint_match_def)
  have "findExistingVulnerability c f (pd_vulns db) \<noteq> None"
    using assms m by (auto simp: existing_iff stands_for_def)
  then obtain x where x: "x \<in> set (pd_vulns db)"
    and rows: "pd_vulns (store_finding run c now f db) =
        map (\<lambda>w. if w = x then refresh_vuln now run c f x else consolidated c (vl_id x) f w) (pd_vulns db)"
    using store_finding_cases [OF assms(1), of c f run now] by auto
  from w rows obtain y where y: "y \<in> set (pd_vulns db)"
    and wy: "w = (if y = x then refresh_vuln now run c f x else consolidated c (vl_id x) f y)" by auto
  have "vl_id y = vl_id v" using i wy by (simp split: if_splits)
  then have yv: "y = v" using same_id [OF d y assms(2)] by blast
  show "vl_affectedResource w = Some r \<and> (vl_status w = VAcknowledged \<or> vl_title w = fd_title f)"
  proof (cases "v = x")
    case True
    then show ?thesis using wy yv assms(7) by (simp add: refresh_vuln_def Let_def)
  next
    case False
    then have "is_duplicate (vl_id x) f v"
      using same_id [OF d assms(2) x] assms(9) by (auto simp: is_duplicate_def)
    then show ?thesis using wy yv False m assms(6,7) by (simp add: consolidated_def)
  qed
qed

text \<open>A breach at a lamp, and one at the gateway of the same network.\<close>

definition demo_breach :: "string \<Rightarrow> string \<Rightarrow> vuln_finding" where
  "demo_breach device endpoint =
     \<lparr>fd_type = ''NETWORK_ISOLATION_BREACH'', fd_severity = CRITICAL,
      fd_title = ''Network Isolation Breach: Home -> '' @ device @ '' (Guest) [TCP:80]'', fd_description = [],
      fd_impact = None, fd_remediation = None,
      fd_affectedResource = Some (''Home -> '' @ device @ '' (Guest) ('' @ endpoint @ '')''), fd_cveId = None\<rparr>"

definition demo_processor :: processor_db where
  "demo_processor =
     \<lparr>pd_vulns = [(new_vuln 0 1000 ''r1'' None (demo_breach ''Lamp'' ''10.0.2.10:80'')),
        (new_vuln 1 1000 ''r1'' None (demo_breach ''Phone'' ''10.0.2.77:80''))\<lparr>vl_status := VFixed\<rparr>],
      pd_nextId = 2, pd_services = [], pd_runs = []\<rparr>"

lemma demo_processor_wf: "vulns_wf demo_processor"
  by (simp add: vulns_wf_def demo_processor_def new_vuln_def Let_def)

lemma demo_rows:
  "pd_vulns demo_processor = [new_vuln 0 1000 ''r1'' None (demo_breach ''Lamp'' ''10.0.2.10:80''),
     (new_vuln 1 1000 ''r1'' None (demo_breach ''Phone'' ''10.0.2.77:80''))\<lparr>vl_status := VFixed\<rparr>]"
  by (simp add: demo_processor_def)

lemma contained_endpoint_hides_finding_witness:
  "\<exists>w \<in> set (pd_vulns (store_finding ''r2'' None 2000 (demo_breach ''Guest Gateway'' ''10.0.2.1'') demo_processor)).
     vl_id w = 0 \<and> (vl_status w = VAcknowledged \<or> vl_title w = fd_title (demo_breach ''Guest Gateway'' ''10.0.2.1''))"
proof -
  let ?f = "demo_breach ''Guest Gateway'' ''10.0.2.1''"
  let ?v = "new_vuln 0 1000 ''r1'' None (demo_breach ''Lamp'' ''10.0.2.10:80'')"
  let ?rows = "pd_vulns (store_finding ''r2'' None 2000 ?f demo_processor)"
  have v: "?v \<in> set (pd_vulns demo_processor)" by (simp add: demo_rows)
  have a: "is_active ?v" "in_config None ?v" "vl_type ?v \<in> set NETWORK_FINDING_TYPES" "finding_endpoint ?f = Some ''10.0.2.1''"
    "vl_affectedResource ?v = Some ''Home -> Lamp (Guest) (10.0.2.10:80)''"
    "str_includes ''10.0.2.1'' ''Home -> Lamp (Guest) (10.0.2.10:80)''" "vuln_source ?v = finding_source ?f"
    by code_simp+
  have "0 \<in> set (map vl_id (pd_vulns demo_processor))" by (simp add: demo_rows new_vuln_def Let_def)
  then have "0 \<in> set (map vl_id ?rows)"
    using store_finding_ids [OF demo_processor_wf, of "''r2''" None 2000 ?f] by (elim disjE conjE) (simp_all only: set_append, simp)
  then obtain w where "w \<in> set ?rows" "vl_id w = 0" by auto
  moreover have "vl_id ?v = 0" by (simp add: new_vuln_def Let_def)
  ultimately show ?thesis
    using contained_endpoint_hides_finding [OF demo_processor_wf v a, of "''r2''" 2000] by metis
qed

definition demo_breach_results :: run_results where
  "demo_breach_results = \<lparr>rn_scan = \<lparr>rs_hosts = [], rs_tests = [\<lparr>vt_sourceVlan = 1, vt_targetVlan = 20, vt_canReach = True\<rparr>],
     rs_services = []\<rparr>, rn_commands = [], rn_portScan = None, rn_vlanTest = None, rn_serviceDiscovery = None\<rparr>"

definition demo_vlan_run :: processor_run where
  "demo_vlan_run = \<lparr>pc_id = ''r2'', pc_testType = ''vlan_isolation'', pc_configId = None, pc_resultsJson = JUndef\<rparr>"

theorem closed_rows_untouched_witness:
  "(new_vuln 1 1000 ''r1'' None (demo_breach ''Phone'' ''10.0.2.77:80''))\<lparr>vl_status := VFixed\<rparr>
     \<in> set (pd_vulns (processTestResults (\<lambda>_. 2000) ''r2'' demo_breach_results (demo_processor\<lparr>pd_runs := [demo_vlan_run]\<rparr>)))"
proof (rule closed_rows_untouched [THEN conjunct1, THEN mp])
  show "vulns_wf (demo_processor\<lparr>pd_runs := [demo_vlan_run]\<rparr>)" using demo_processor_wf by (simp add: vulns_wf_def)
qed (simp add: demo_rows is_active_def)

theorem repeat_run_adds_nothing_witness:
  "map vl_id (pd_vulns (createVulnerabilities (\<lambda>_. 3000) [demo_breach ''Phone'' ''10.0.2.77:80''] ''r3'' None
      (createVulnerabilities (\<lambda>_. 2000) [] ''r2'' None
        (createVulnerabilities (\<lambda>_. 2000) [demo_breach ''Phone'' ''10.0.2.77:80''] ''r2'' None demo_processor)))) =
   map vl_id (pd_vulns (createVulnerabilities (\<lambda>_. 2000) [] ''r2'' None
        (createVulnerabilities (\<lambda>_. 2000) [demo_breach ''Phone'' ''10.0.2.77:80''] ''r2'' None demo_processor)))"
  by (rule repeat_run_adds_nothing [OF demo_processor_wf refl refl, THEN conjunct2])

lemma known_finding_refreshed_witness:
  "\<exists>w \<in> set (pd_vulns (store_finding ''r2'' None 2000 (demo_breach ''Lamp'' ''10.0.2.10:80'') demo_processor)). vl_lastSeen w = 2000"
proof -
  have "findExistingVulnerability None (demo_breach ''Lamp'' ''10.0.2.10:80'') (pd_vulns demo_processor) \<noteq> None" by code_simp
  then obtain v where "findExistingVulnerability None (demo_breach ''Lamp'' ''10.0.2.10:80'') (pd_vulns demo_processor) = Some v" by auto
  from known_finding_refreshed [OF demo_processor_wf this, of "''r2''" 2000] show ?thesis by blast
qed

section \<open>The vulnerabilities of a topology test\<close>

lemma critical_is_breach: "path_finding l i r = Some f \<Longrightarrow> tf_severity f = CRITICAL \<Longrightarrow> is_breach f"
  by (auto simp: path_finding_def Let_def is_breach_def split: if_splits)

lemma topology_vulnerabilities:
  assumes "find (\<lambda>t. pc_id t = run) (pd_runs db) = Some t" "stored_metadata (pc_resultsJson t) = md"
    and "field results ''commandResults'' = JArr (map JObj rs)" "analyzeTopologyResults (map JObj rs) md = Some fs"
  shows "processTopologyValidationResults clock run c results db =
    createVulnerabilities clock (map breach_finding (filter is_breach fs)) run c db"
  using assms by (simp add: processTopologyValidationResults_def json_or_def js_items_def Let_def)

text \<open>C7: from the probes to the vulnerabilities.  For a run that stores the metadata of its generated test, the
  critical findings that are written to the vulnerability table are exactly those of the probes whose
  path the policy blocks without a conflict and that the device reports as reached.\<close>
theorem topology_vulnerabilities_exact:
  assumes "\<forall>d \<in> set devices. 0 < dt_port d" "topology_plan networks devices es = (commands, targets)"
    and "\<forall>e \<in> set es. de_sourceNetworkName e \<noteq> []"
    and "find (\<lambda>t. pc_id t = run) (pd_runs db) = Some t" "stored_metadata (pc_resultsJson t) = md"
    and "md = obj_fields (topology_metadata dn ip dev networks es targets)"
    and "field results ''commandResults'' = JArr (map JObj rs)"
  shows "\<exists>fs. processTopologyValidationResults clock run c results db = createVulnerabilities clock fs run c db \<and>
    (\<forall>f. f \<in> set fs \<and> fd_severity f = CRITICAL \<longleftrightarrow>
      (\<exists>t \<in> set targets. \<exists>r \<in> set rs. answers t r \<and> result_reachable r \<and>
         ds_expected (de_decision (tg_expectation t)) = ExBlock \<and> \<not> ds_conflict (de_decision (tg_expectation t)) \<and>
         map_option breach_finding (path_finding (device_label md) (info_of_target t) r) = Some f))"
proof -
  obtain as where as: "analyzeTopologyResults (map JObj rs) md = Some as"
    and exact: "\<forall>f. f \<in> set as \<and> tf_severity f = CRITICAL \<longleftrightarrow>
      (\<exists>t \<in> set targets. \<exists>r \<in> set rs. answers t r \<and> result_reachable r \<and>
         ds_expected (de_decision (tg_expectation t)) = ExBlock \<and> \<not> ds_conflict (de_decision (tg_expectation t)) \<and>
         path_finding (device_label md) (info_of_target t) r = Some f)"
    using critical_findings [OF assms(1,2,3,6)] by metis
  let ?fs = "map breach_finding (filter is_breach as)"
  have "f \<in> set ?fs \<and> fd_severity f = CRITICAL \<longleftrightarrow>
      (\<exists>t \<in> set targets. \<exists>r \<in> set rs. answers t r \<and> result_reachable r \<and>
         ds_expected (de_decision (tg_expectation t)) = ExBlock \<and> \<not> ds_conflict (de_decision (tg_expectation t)) \<and>
         map_option breach_finding (path_finding (device_label md) (info_of_target t) r) = Some f)" for f
  proof -
    have "f \<in> set ?fs \<and> fd_severity f = CRITICAL \<longleftrightarrow>
        (\<exists>a. a \<in> set as \<and> tf_severity a = CRITICAL \<and> is_breach a \<and> f = breach_finding a)"
      by (auto simp: breach_finding_def)
    also have "\<dots> \<longleftrightarrow> (\<exists>a. (a \<in> set as \<and> tf_severity a = CRITICAL) \<and> f = breach_finding a)"
      using exact critical_is_breach by blast
    finally show ?thesis by (simp only: exact [rule_format] map_option_eq_Some) blast
  qed
  then show ?thesis using topology_vulnerabilities [OF assms(4,5,7) as] by blast
qed

definition demo_test_run :: processor_run where
  "demo_test_run =
     \<lparr>pc_id = ''r1'', pc_testType = ''topology_validation'', pc_configId = None,
      pc_resultsJson = JObj [(''topologyMetadata'', topology_metadata None None None demo_nets [demo_path 0 1]
        [gateway_probe (demo_path 0 1) ''10.0.2.1''\<lparr>tg_port := 80\<rparr>, gateway_probe (demo_path 0 1) ''10.0.2.1''])]\<rparr>"

theorem topology_vulnerabilities_exact_witness:
  "\<exists>fs. processTopologyValidationResults (\<lambda>_. 0) ''r1'' None [(''commandResults'', JArr [JObj demo_answer])]
      (demo_processor\<lparr>pd_runs := [demo_test_run]\<rparr>) =
        createVulnerabilities (\<lambda>_. 0) fs ''r1'' None (demo_processor\<lparr>pd_runs := [demo_test_run]\<rparr>) \<and>
      CRITICAL \<in> fd_severity ` set fs"
proof -
  let ?t = "gateway_probe (demo_path 0 1) ''10.0.2.1''"
  let ?md = "obj_fields (topology_metadata None None None demo_nets [demo_path 0 1] [?t\<lparr>tg_port := 80\<rparr>, ?t])"
  let ?db = "demo_processor\<lparr>pd_runs := [demo_test_run]\<rparr>"
  have named: "\<forall>e \<in> set [demo_path 0 1]. de_sourceNetworkName e \<noteq> []" by code_simp
  have run: "find (\<lambda>t. pc_id t = ''r1'') (pd_runs ?db) = Some demo_test_run" by (simp add: demo_test_run_def)
  have md: "stored_metadata (pc_resultsJson demo_test_run) = ?md"
    by (simp add: stored_metadata_def demo_test_run_def topology_metadata_def field_def om_get_def asJsonObject_def
        isRecord_def obj_fields_def Let_def)
  have rs: "field [(''commandResults'', JArr [JObj demo_answer])] ''commandResults'' = JArr (map JObj [demo_answer])"
    by (simp add: field_def om_get_def)
  from topology_vulnerabilities_exact [OF _ demo_gateway_plan named run md refl rs, of "\<lambda>_. 0" None]
  obtain fs where fs: "processTopologyValidationResults (\<lambda>_. 0) ''r1'' None [(''commandResults'', JArr [JObj demo_answer])] ?db =
        createVulnerabilities (\<lambda>_. 0) fs ''r1'' None ?db"
    and exact: "\<forall>f. f \<in> set fs \<and> fd_severity f = CRITICAL \<longleftrightarrow>
      (\<exists>t \<in> set [?t\<lparr>tg_port := 80\<rparr>, ?t]. \<exists>r \<in> set [demo_answer]. answers t r \<and> result_reachable r \<and>
         ds_expected (de_decision (tg_expectation t)) = ExBlock \<and> \<not> ds_conflict (de_decision (tg_expectation t)) \<and>
         map_option breach_finding (path_finding (device_label ?md) (info_of_target t) r) = Some f)" by auto
  have "answers ?t demo_answer" "result_reachable demo_answer" by code_simp+
  moreover have d: "ds_expected (de_decision (tg_expectation ?t)) = ExBlock" "\<not> ds_conflict (de_decision (tg_expectation ?t))"
    by code_simp+
  moreover obtain f where "map_option breach_finding (path_finding (device_label ?md) (info_of_target ?t) demo_answer) = Some f"
    using path_finding_table [of "info_of_target ?t" "''block''" "device_label ?md" demo_answer] d
    by (auto simp: info_of_target_fields)
  ultimately have "f \<in> set fs \<and> fd_severity f = CRITICAL"
    using exact [rule_format, of f] by (metis list.set_intros(1,2))
  then show ?thesis using fs by (intro exI [of _ fs]) (auto intro: rev_image_eqI)
qed

end
