(* ===== verification/Test_Runs.thy ===== *)
theory Test_Runs
  imports Test_Processor
begin

text \<open>
  The state that the execution of tests works on: the rows of test runs and devices, what has been sent to
  devices, the buffers of partial results and the timers that are pending.  The components that follow
  (\<open>mqtt/index.ts\<close>, \<open>services/autoValidationService.ts\<close>, \<open>scheduler.ts\<close> and the routes of
  \<open>api/routes/tests.ts\<close>) are functions on it.

  Times are milliseconds.  A handler runs to its end before the next one starts: what the code awaits in
  between are single statements on the database.  Log lines and the messages to dashboards are left out.
\<close>

section \<open>Rows\<close>

record life_run = processor_run +
  lr_deviceId :: string
  lr_status :: test_status
  lr_progress :: rat
  lr_currentStep :: "string option"
  lr_startedAt :: int
  lr_completedAt :: "int option"
  lr_duration :: "rat option"
  lr_errorMessage :: "string option"

record live_device = device_row +
  ld_macAddress :: "string option"
  ld_firmwareVersion :: "string option"
  ld_lastSeen :: "int option"

record chunk_buffer =
  cb_deviceId :: string
  cb_chunkCount :: rat
  cb_chunks :: "(rat \<times> string) list"
  cb_receivedChunks :: "rat list"
  cb_success :: "bool option"
  cb_error :: "string option"
  cb_duration :: "rat option"
  cb_updatedAt :: int

text \<open>What leaves the server: a command for a device, with its name and payload.\<close>

datatype outgoing = MqttCommand string string "(string \<times> json) list"

text \<open>A batch of commands that the server runs itself, with the endpoints (an address and a port) it must not
  touch.\<close>

type_synonym exclusion = "string \<times> rat"

record local_batch =
  lb_testId :: string
  lb_commands :: "command list"
  lb_exclusions :: "exclusion list"

text \<open>A pending timer: the timeout after a test reports all of its progress, the validation of a device that
  came online, and the second test of that validation.\<close>

datatype timer =
    ResultsTimeout string string
  | AutoValidation string string string
  | FollowUp string string

record test_state =
  ts_runs :: "life_run list"
  ts_devices :: "live_device list"
  ts_store :: processor_db
  ts_buffers :: "(string \<times> chunk_buffer) list"
  ts_timers :: "(int \<times> timer) list"
  ts_sent :: "outgoing list"
  ts_connected :: bool
  ts_local :: "local_batch option"
  ts_profile :: "stored_profile option"
  ts_configs :: "config_row list"
  ts_configId :: "string option"
  ts_nextRun :: nat

section \<open>Database operations\<close>

definition find_run :: "test_state \<Rightarrow> string \<Rightarrow> life_run option" where
  "find_run st testId = find (\<lambda>r. pc_id r = testId) (ts_runs st)"

definition update_run :: "string \<Rightarrow> (life_run \<Rightarrow> life_run) \<Rightarrow> test_state \<Rightarrow> test_state" where
  "update_run testId g st = st\<lparr>ts_runs := map (\<lambda>r. if pc_id r = testId then g r else r) (ts_runs st)\<rparr>"

text \<open>Devices are found by the name they use on the broker (\<open>deviceId\<close>) or by their row (\<open>id\<close>).\<close>

definition find_device :: "(live_device \<Rightarrow> bool) \<Rightarrow> test_state \<Rightarrow> live_device option" where
  "find_device p st = find p (ts_devices st)"

definition by_deviceId :: "string \<Rightarrow> live_device \<Rightarrow> bool" where
  "by_deviceId i d \<longleftrightarrow> dw_deviceId d = i"

definition by_dbId :: "string \<Rightarrow> live_device \<Rightarrow> bool" where
  "by_dbId i d \<longleftrightarrow> dw_id d = i"

definition set_device_status :: "(live_device \<Rightarrow> bool) \<Rightarrow> device_status \<Rightarrow> test_state \<Rightarrow> test_state" where
  "set_device_status p s st = st\<lparr>ts_devices := map (\<lambda>d. if p d then d\<lparr>dw_status := s\<rparr> else d) (ts_devices st)\<rparr>"

text \<open>The rows as the coverage service and the test generator read them.\<close>

definition run_row :: "life_run \<Rightarrow> test_run" where
  "run_row r =
     \<lparr>te_id = pc_id r, te_deviceId = lr_deviceId r, te_testType = pc_testType r, te_status = lr_status r,
      te_completedAt = lr_completedAt r, te_resultsJson = pc_resultsJson r\<rparr>"

definition coverage_db :: "test_state \<Rightarrow> vlan_db" where
  "coverage_db st =
     \<lparr>vd_devices = map device_row.truncate (ts_devices st), vd_testRuns = map run_row (ts_runs st),
      vd_profile = ts_profile st, vd_configs = ts_configs st\<rparr>"

definition merge_run_results :: "string \<Rightarrow> (string \<times> json) list \<Rightarrow> test_state \<Rightarrow> test_state" where
  "merge_run_results testId patch st =
     (case mergeTestRunResultsJson (map (\<lambda>r. (pc_id r, pc_resultsJson r)) (ts_runs st)) testId patch of
        None \<Rightarrow> st
      | Some rows \<Rightarrow> update_run testId (\<lambda>r. r\<lparr>pc_resultsJson := dflt JNull (om_get rows testId)\<rparr>) st)"

section \<open>Commands\<close>

definition sendCommand :: "string \<Rightarrow> string \<Rightarrow> (string \<times> json) list \<Rightarrow> test_state \<Rightarrow> test_state" where
  "sendCommand deviceId cmd payload st =
     (if \<not> ts_connected st then st else st\<lparr>ts_sent := ts_sent st @ [MqttCommand deviceId cmd payload]\<rparr>)"

definition exclusion_json :: "exclusion \<Rightarrow> json" where
  "exclusion_json x = JObj [(''ip'', JStr (fst x)), (''port'', JNum (snd x))]"

definition execute_payload :: "string \<Rightarrow> command list \<Rightarrow> exclusion list \<Rightarrow> (string \<times> json) list" where
  "execute_payload testId commands exclusions =
     [(''testId'', JStr testId), (''commands'', JArr (map JObj commands)),
      (''honeypotExclusions'', JArr (map exclusion_json exclusions))]"

section \<open>Lemmas on the operations\<close>

lemma update_run_simps [simp]:
  "ts_devices (update_run i g st) = ts_devices st" "ts_store (update_run i g st) = ts_store st"
  "ts_buffers (update_run i g st) = ts_buffers st" "ts_timers (update_run i g st) = ts_timers st"
  "ts_sent (update_run i g st) = ts_sent st" "ts_connected (update_run i g st) = ts_connected st"
  "ts_nextRun (update_run i g st) = ts_nextRun st" "ts_local (update_run i g st) = ts_local st" "ts_configId (update_run i g st) = ts_configId st"
  "ts_runs (update_run i g st) = map (\<lambda>r. if pc_id r = i then g r else r) (ts_runs st)"
  by (simp_all add: update_run_def)

lemma set_device_status_simps [simp]:
  "ts_runs (set_device_status p s st) = ts_runs st" "ts_store (set_device_status p s st) = ts_store st"
  "ts_buffers (set_device_status p s st) = ts_buffers st" "ts_timers (set_device_status p s st) = ts_timers st"
  "ts_sent (set_device_status p s st) = ts_sent st" "ts_nextRun (set_device_status p s st) = ts_nextRun st"
  "ts_local (set_device_status p s st) = ts_local st" "ts_connected (set_device_status p s st) = ts_connected st"
  "ts_devices (set_device_status p s st) = map (\<lambda>d. if p d then d\<lparr>dw_status := s\<rparr> else d) (ts_devices st)"
  by (simp_all add: set_device_status_def)

lemma sendCommand_simps [simp]:
  "ts_runs (sendCommand d c p st) = ts_runs st" "ts_store (sendCommand d c p st) = ts_store st"
  "ts_devices (sendCommand d c p st) = ts_devices st"
  "ts_buffers (sendCommand d c p st) = ts_buffers st" "ts_timers (sendCommand d c p st) = ts_timers st"
  "ts_nextRun (sendCommand d c p st) = ts_nextRun st" "ts_local (sendCommand d c p st) = ts_local st"
  by (simp_all add: sendCommand_def)

lemma find_run_mem: "find_run st i = Some r \<Longrightarrow> r \<in> set (ts_runs st) \<and> pc_id r = i"
  by (auto simp: find_run_def dest: find_mem)

lemma find_run_update:
  assumes "\<And>r. pc_id (g r) = pc_id r"
  shows "find_run (update_run i g st) j = (if j = i then map_option g (find_run st j) else find_run st j)"
proof -
  have "find (\<lambda>r. pc_id r = j) (map (\<lambda>r. if pc_id r = i then g r else r) rs) =
      (if j = i then map_option g (find (\<lambda>r. pc_id r = j) rs) else find (\<lambda>r. pc_id r = j) rs)" for rs
    using assms by (induction rs) auto
  then show ?thesis by (simp add: find_run_def)
qed

lemma merge_run_results_eq:
  "merge_run_results i patch st =
     (if find_run st i = None then st
      else update_run i (\<lambda>r. r\<lparr>pc_resultsJson := mergeJson (JObj (asJsonObject (dflt JUndef (map_option pc_resultsJson (find_run st i))))) (JObj patch)\<rparr>) st)"
proof -
  have "om_get (map (\<lambda>r. (pc_id r, pc_resultsJson r)) rs) i = map_option pc_resultsJson (find (\<lambda>r. pc_id r = i) rs)" for rs :: "life_run list"
    by (induction rs) (auto simp: om_get_def)
  then show ?thesis
    by (auto simp: merge_run_results_def mergeTestRunResultsJson_def find_run_def om_get_set Let_def split: option.split)
qed

end
