(* ===== verification/Mqtt_Service.thy ===== *)
theory Mqtt_Service
  imports Test_Runs
begin

text \<open>
  The message handlers of \<open>mqtt/index.ts\<close> that change state: device status, progress of a test, results in one
  message and results in chunks, and the timer that ends a test whose results never arrive.  Messages come
  at the types of their interfaces, a chunk as the JSON object whose fields the handler checks itself.
  Handlers that only pass a message on to dashboards are left out.
\<close>

section \<open>Pending validations\<close>

text \<open>Of \<open>services/autoValidationService.ts\<close>: a device has at most one validation pending.\<close>

definition AUTO_VALIDATION_DELAY_MS :: int where
  "AUTO_VALIDATION_DELAY_MS = 30 * 1000"

definition is_pending :: "string \<Rightarrow> timer \<Rightarrow> bool" where
  "is_pending deviceId t = (case t of AutoValidation d _ _ \<Rightarrow> d = deviceId | _ \<Rightarrow> False)"

definition cancelPendingValidation :: "string \<Rightarrow> test_state \<Rightarrow> test_state" where
  "cancelPendingValidation deviceId st =
     st\<lparr>ts_timers := filter (\<lambda>t. \<not> is_pending deviceId (snd t)) (ts_timers st)\<rparr>"

definition scheduleAutoValidation :: "int \<Rightarrow> string \<Rightarrow> string \<Rightarrow> string \<Rightarrow> test_state \<Rightarrow> test_state" where
  "scheduleAutoValidation now deviceId dbDeviceId ipAddress st =
     (let st1 = cancelPendingValidation deviceId st in
      st1\<lparr>ts_timers := ts_timers st1 @ [(now + AUTO_VALIDATION_DELAY_MS, AutoValidation deviceId dbDeviceId ipAddress)]\<rparr>)"

definition getAutoValidationStats :: "test_state \<Rightarrow> nat \<times> string list" where
  "getAutoValidationStats st =
     (let ds = concat (map (\<lambda>t. case snd t of AutoValidation d _ _ \<Rightarrow> [d] | _ \<Rightarrow> []) (ts_timers st)) in (length ds, ds))"

section \<open>Device status\<close>

record status_message =
  sm_name :: "string option"
  sm_mac :: "string option"
  sm_ip :: "string option"
  sm_firmware :: "string option"
  sm_online :: bool

definition online_status :: "bool \<Rightarrow> device_status" where
  "online_status online = (if online then DevOnline else DevOffline)"

text \<open>The update leaves a column whose value is not sent.\<close>

definition updated_device :: "int \<Rightarrow> string \<Rightarrow> status_message \<Rightarrow> live_device \<Rightarrow> live_device" where
  "updated_device now deviceId status d =
     d\<lparr>dw_name := str_dflt (sm_name status) deviceId, ld_macAddress := nullish (sm_mac status) (ld_macAddress d),
       dw_ipAddress := nullish (sm_ip status) (dw_ipAddress d),
       ld_firmwareVersion := nullish (sm_firmware status) (ld_firmwareVersion d),
       dw_status := online_status (sm_online status), ld_lastSeen := Some now\<rparr>"

definition created_device :: "int \<Rightarrow> string \<Rightarrow> string \<Rightarrow> status_message \<Rightarrow> live_device" where
  "created_device now dbId deviceId status =
     \<lparr>dw_id = dbId, dw_deviceId = deviceId, dw_name = str_dflt (sm_name status) deviceId, dw_ipAddress = sm_ip status,
      dw_status = online_status (sm_online status), ld_macAddress = sm_mac status,
      ld_firmwareVersion = sm_firmware status, ld_lastSeen = Some now\<rparr>"

definition upsert_device :: "int \<Rightarrow> string \<Rightarrow> string \<Rightarrow> status_message \<Rightarrow> test_state \<Rightarrow> test_state" where
  "upsert_device now newId deviceId status st =
     (if find_device (by_deviceId deviceId) st = None
      then st\<lparr>ts_devices := ts_devices st @ [created_device now newId deviceId status]\<rparr>
      else st\<lparr>ts_devices := map (\<lambda>d. if by_deviceId deviceId d then updated_device now deviceId status d else d) (ts_devices st)\<rparr>)"

definition registerDeviceAcrossFleet :: "string \<Rightarrow> string \<Rightarrow> string \<Rightarrow> test_state \<Rightarrow> test_state" where
  "registerDeviceAcrossFleet deviceId mac ip st =
     foldl (\<lambda>st d. sendCommand (dw_deviceId d) ''register_zeroproof_device''
                     [(''mac'', JStr mac), (''deviceId'', JStr deviceId), (''ip'', JStr ip)] st)
       st (filter (\<lambda>d. dw_status d = DevOnline \<and> dw_deviceId d \<noteq> deviceId) (ts_devices st))"

definition handleDeviceStatus :: "int \<Rightarrow> string \<Rightarrow> string \<Rightarrow> status_message \<Rightarrow> test_state \<Rightarrow> test_state" where
  "handleDeviceStatus now newId deviceId status st =
     (let existing = find_device (by_deviceId deviceId) st;
          wasOffline = (case existing of None \<Rightarrow> True | Some d \<Rightarrow> dw_status d = DevOffline);
          isNowOnline = sm_online status;
          st1 = upsert_device now newId deviceId status st;
          dbId = (case existing of None \<Rightarrow> newId | Some d \<Rightarrow> dw_id d);
          st2 = (if sm_online status \<and> truthy (sm_mac status) \<and> truthy (sm_ip status)
                 then registerDeviceAcrossFleet deviceId (the (sm_mac status)) (the (sm_ip status)) st1 else st1)
      in if wasOffline \<and> isNowOnline \<and> truthy (sm_ip status)
         then scheduleAutoValidation now deviceId dbId (the (sm_ip status)) st2
         else if \<not> isNowOnline then cancelPendingValidation deviceId st2
         else st2)"

section \<open>Progress\<close>

record progress_message =
  pm_testId :: string
  pm_progress :: rat
  pm_currentStep :: "string option"

definition RESULTS_TIMEOUT_MS :: int where
  "RESULTS_TIMEOUT_MS = 5000"

definition handleTestProgress :: "int \<Rightarrow> string \<Rightarrow> progress_message \<Rightarrow> test_state \<Rightarrow> test_state" where
  "handleTestProgress now deviceId p st =
     (if find_run st (pm_testId p) = None then st
      else
        (let st1 = update_run (pm_testId p)
               (\<lambda>r. r\<lparr>lr_progress := pm_progress p, lr_currentStep := nullish (pm_currentStep p) (lr_currentStep r),
                       lr_status := Running\<rparr>) st
         in if pm_progress p = 100
            then st1\<lparr>ts_timers := ts_timers st1 @ [(now + RESULTS_TIMEOUT_MS, ResultsTimeout (pm_testId p) deviceId)]\<rparr>
            else st1))"

definition cleanupStaleChunkBuffers :: "int \<Rightarrow> test_state \<Rightarrow> test_state" where
  "cleanupStaleChunkBuffers now st =
     st\<lparr>ts_buffers := filter (\<lambda>b. \<not> 60000 < now - cb_updatedAt (snd b)) (ts_buffers st)\<rparr>"

definition drop_buffer :: "string \<Rightarrow> test_state \<Rightarrow> test_state" where
  "drop_buffer testId st = st\<lparr>ts_buffers := filter (\<lambda>b. fst b \<noteq> testId) (ts_buffers st)\<rparr>"

definition num_or_undef :: "rat option \<Rightarrow> json" where
  "num_or_undef q = (case q of None \<Rightarrow> JUndef | Some x \<Rightarrow> JNum x)"

definition timeout_transport :: "chunk_buffer option \<Rightarrow> (string \<times> json) list" where
  "timeout_transport b =
     [(''chunked'', JBool (b \<noteq> None)), (''chunkCount'', num_or_undef (map_option cb_chunkCount b)),
      (''receivedChunks'', num_or_undef (map_option (\<lambda>b. of_nat (length (cb_receivedChunks b))) b)),
      (''truncated'', JBool True), (''incomplete'', JBool (b \<noteq> None)),
      (''reason'', JStr (if b \<noteq> None then ''Chunked MQTT results were incomplete when timeout elapsed.''
         else ''Results payload likely truncated by MQTT packet size.''))]"

definition no_results :: json where
  "no_results = JObj [(''results'', JArr [])]"

definition results_timeout :: "int \<Rightarrow> string \<Rightarrow> string \<Rightarrow> test_state \<Rightarrow> test_state" where
  "results_timeout now testId deviceId st =
     (let st1 = cleanupStaleChunkBuffers now st in
      case find_run st1 testId of
        None \<Rightarrow> st1
      | Some r \<Rightarrow>
          if lr_status r = Running then
            (let structured = buildStructuredResultsJson (pc_resultsJson r) no_results
                   (Some (timeout_transport (om_get (ts_buffers st1) testId)));
                 st2 = update_run testId
                   (\<lambda>r. r\<lparr>lr_status := Completed, lr_completedAt := Some now, pc_resultsJson := JObj structured\<rparr>) st1
             in set_device_status (by_deviceId deviceId) DevOnline (drop_buffer testId st2))
          else st1)"

section \<open>Results\<close>

record result_message =
  rm_testId :: string
  rm_success :: bool
  rm_results :: json
  rm_error :: "string option"
  rm_duration :: rat
  rm_transport :: "(string \<times> json) list option"

text \<open>How the scan results of a run are read at the types of their interfaces is a parameter (\<open>typed\<close>); the
  commands are the results themselves.\<close>

definition process_results ::
    "((string \<times> json) list \<Rightarrow> run_results) \<Rightarrow> (nat \<Rightarrow> int) \<Rightarrow> string \<Rightarrow> (string \<times> json) list \<Rightarrow> test_state \<Rightarrow> test_state" where
  "process_results typed clock testId results st =
     st\<lparr>ts_store := processTestResults clock testId ((typed results)\<lparr>rn_commands := results\<rparr>)
          ((ts_store st)\<lparr>pd_runs := map processor_run.truncate (ts_runs st)\<rparr>)\<rparr>"

definition handleTestResults ::
    "((string \<times> json) list \<Rightarrow> run_results) \<Rightarrow> (nat \<Rightarrow> int) \<Rightarrow> int \<Rightarrow> string \<Rightarrow> result_message \<Rightarrow> test_state \<Rightarrow> test_state" where
  "handleTestResults typed clock now deviceId result st =
     (let st1 = drop_buffer (rm_testId result) st in
      case find_run st1 (rm_testId result) of
        None \<Rightarrow> st1
      | Some r \<Rightarrow>
          if pc_testType r = ''device_mesh'' then st1
          else
            (let duration = of_int \<lfloor>of_int (now - lr_startedAt r) / (1000 :: rat)\<rfloor>;
                 structured = buildStructuredResultsJson (pc_resultsJson r) (rm_results result) (rm_transport result);
                 st2 = update_run (rm_testId result)
                   (\<lambda>r. r\<lparr>lr_status := (if rm_success result then Completed else TestFailed), lr_progress := 100,
                           lr_completedAt := Some now, lr_duration := Some duration, pc_resultsJson := JObj structured,
                           lr_errorMessage := nullish (rm_error result) (lr_errorMessage r)\<rparr>) st1
             in if find_device (by_deviceId deviceId) st2 = None then st2
                else process_results typed clock (rm_testId result) structured
                       (set_device_status (by_deviceId deviceId) DevOnline st2)))"

section \<open>Chunks\<close>

definition MAX_ARRAY_LENGTH :: rat where
  "MAX_ARRAY_LENGTH = 4294967295"

definition new_buffer :: "int \<Rightarrow> string \<Rightarrow> rat \<Rightarrow> chunk_buffer" where
  "new_buffer now deviceId chunkCount =
     \<lparr>cb_deviceId = deviceId, cb_chunkCount = chunkCount, cb_chunks = [], cb_receivedChunks = [], cb_success = None,
      cb_error = None, cb_duration = None, cb_updatedAt = now\<rparr>"

definition add_chunk :: "int \<Rightarrow> rat \<Rightarrow> string \<Rightarrow> (string \<times> json) list \<Rightarrow> chunk_buffer \<Rightarrow> chunk_buffer" where
  "add_chunk now chunkIndex payload message b =
     b\<lparr>cb_chunks := om_set chunkIndex payload (cb_chunks b), cb_receivedChunks := os_add chunkIndex (cb_receivedChunks b),
       cb_success := nullish (get_bool message ''success'') (cb_success b),
       cb_error := nullish (get_str message ''error'') (cb_error b),
       cb_duration := nullish (get_num message ''duration'') (cb_duration b), cb_updatedAt := now\<rparr>"

text \<open>\<open>chunks.join('')\<close>: the elements of the array in order of their index; one that was not received is empty.\<close>

definition joined_chunks :: "chunk_buffer \<Rightarrow> string" where
  "joined_chunks b = concat (map (\<lambda>i. dflt [] (om_get (cb_chunks b) (of_nat i))) [0..<nat \<lceil>cb_chunkCount b\<rceil>])"

definition chunk_transport :: "chunk_buffer \<Rightarrow> (string \<times> json) list" where
  "chunk_transport b =
     [(''chunked'', JBool True), (''chunkCount'', JNum (cb_chunkCount b)),
      (''receivedChunks'', JNum (of_nat (length (cb_receivedChunks b))))]"

text \<open>Object spread: the fields of the first object, then those of the second over them.\<close>

definition spread :: "(string \<times> json) list \<Rightarrow> (string \<times> json) list \<Rightarrow> (string \<times> json) list" where
  "spread a b = foldl (\<lambda>m kv. om_set (fst kv) (snd kv) m) a b"

definition assembled_result :: "string \<Rightarrow> chunk_buffer \<Rightarrow> json \<Rightarrow> result_message" where
  "assembled_result testId b parsed =
     (let parsedObject = asJsonObject parsed;
          payloadWithTransport = spread parsedObject
            [(''transport'', JObj (spread (asJsonObject (field parsedObject ''transport'')) (chunk_transport b)))]
      in \<lparr>rm_testId = testId, rm_success = dflt True (cb_success b), rm_results = JObj payloadWithTransport,
          rm_error = cb_error b, rm_duration = dflt 0 (cb_duration b), rm_transport = Some (chunk_transport b)\<rparr>)"

definition assembly_failed :: "int \<Rightarrow> string \<Rightarrow> chunk_buffer \<Rightarrow> test_state \<Rightarrow> test_state" where
  "assembly_failed now testId b st =
     (case find_run st testId of
        None \<Rightarrow> st
      | Some r \<Rightarrow>
          if lr_status r = Running then
            (let structured = buildStructuredResultsJson (pc_resultsJson r) no_results
                   (Some (chunk_transport b @ [(''truncated'', JBool True), (''incomplete'', JBool True),
                      (''reason'', JStr ''Received all chunks but JSON parsing failed during assembly.'')]))
             in update_run testId
                  (\<lambda>r. r\<lparr>lr_status := TestFailed, lr_progress := 100, lr_completedAt := Some now,
                          pc_resultsJson := JObj structured,
                          lr_errorMessage := Some ''Failed to parse chunked test results''\<rparr>) st)
          else st)"

definition receive_chunk ::
    "((string \<times> json) list \<Rightarrow> run_results) \<Rightarrow> (nat \<Rightarrow> int) \<Rightarrow> int \<Rightarrow> string \<Rightarrow> string \<Rightarrow> rat \<Rightarrow> rat \<Rightarrow> string \<Rightarrow>
     (string \<times> json) list \<Rightarrow> test_state \<Rightarrow> test_state" where
  "receive_chunk typed clock now deviceId testId chunkIndex chunkCount payload message st =
     (let existing = om_get (ts_buffers st) testId;
          fresh = (case existing of None \<Rightarrow> True | Some b \<Rightarrow> cb_chunkCount b \<noteq> chunkCount)
      in if fresh \<and> MAX_ARRAY_LENGTH < chunkCount then st
         else
           (let b = add_chunk now chunkIndex payload message (if fresh then new_buffer now deviceId chunkCount else the existing);
                st1 = st\<lparr>ts_buffers := om_set testId b (ts_buffers st)\<rparr>
            in if of_nat (length (cb_receivedChunks b)) \<noteq> cb_chunkCount b then st1
               else
                 (let st2 = drop_buffer testId st1 in
                  case json_parse (joined_chunks b) of
                    Some parsed \<Rightarrow> handleTestResults typed clock now deviceId (assembled_result testId b parsed) st2
                  | None \<Rightarrow> assembly_failed now testId b st2)))"

definition handleChunkedTestResults ::
    "((string \<times> json) list \<Rightarrow> run_results) \<Rightarrow> (nat \<Rightarrow> int) \<Rightarrow> int \<Rightarrow> string \<Rightarrow> (string \<times> json) list \<Rightarrow> test_state \<Rightarrow> test_state" where
  "handleChunkedTestResults typed clock now deviceId message st =
     (case (get_str message ''testId'', get_num message ''chunkIndex'', get_num message ''chunkCount'', get_str message ''payload'') of
        (Some testId, Some chunkIndex, Some chunkCount, Some payload) \<Rightarrow>
          if testId = [] then st
          else if chunkIndex < 0 \<or> chunkCount \<le> 0 \<or> chunkCount \<le> chunkIndex then st
          else receive_chunk typed clock now deviceId testId chunkIndex chunkCount payload message st
      | _ \<Rightarrow> st)"

end
