(* ===== verification/Honeypot_Service.thy ===== *)
theory Honeypot_Service
  imports Test_Processor
begin

text \<open>
  \<open>services/honeypotService.ts\<close>: the honeypots of the active configuration, the probes that validate them and the
  endpoints that scans leave out.  The entries of the configuration are read at the types of their interface;
  a value that cannot be iterated, or an entry that is null, is an exception (\<open>None\<close>).
\<close>

section \<open>Extraction\<close>

record honeypot =
  hp_id :: string
  hp_enabled :: bool
  hp_ipAddress :: string
  hp_port :: rat
  hp_protocol :: string
  hp_serviceType :: string
  hp_networkId :: "string option"
  hp_networkName :: "string option"

definition honeypotPorts :: "nat list" where
  "honeypotPorts = [21, 22, 23, 25, 80, 443, 445, 3389, 5900, 8080]"

definition getServiceTypeForPort :: "nat \<Rightarrow> string" where
  "getServiceTypeForPort port =
     (if port = 21 then ''ftp'' else if port = 22 then ''ssh'' else if port = 23 then ''telnet''
      else if port = 25 then ''smtp'' else if port = 80 then ''http'' else if port = 443 then ''https''
      else if port = 445 then ''smb'' else if port = 3306 then ''mysql'' else if port = 3389 then ''rdp''
      else if port = 5432 then ''postgresql'' else if port = 5900 then ''vnc'' else if port = 8080 then ''http-alt''
      else ''generic'')"

definition honeypot_ip :: "(string \<times> json) list \<Rightarrow> string option" where
  "honeypot_ip hp = str_or (str_or (get_str hp ''ip_address'') (get_str hp ''ipAddress'')) (get_str hp ''ip'')"

definition ips_entry :: "string \<Rightarrow> (string \<times> json) list \<Rightarrow> string \<Rightarrow> rat \<Rightarrow> string \<Rightarrow> honeypot" where
  "ips_entry i hp ip port service =
     \<lparr>hp_id = i, hp_enabled = True, hp_ipAddress = ip, hp_port = port, hp_protocol = ''tcp'', hp_serviceType = service,
      hp_networkId = get_str hp ''network_id'', hp_networkName = None\<rparr>"

text \<open>One entry for all ports and one for each of the common ones.\<close>

definition ips_entries :: "(string \<times> json) list \<Rightarrow> honeypot list" where
  "ips_entries hp =
     (if \<not> truthy (honeypot_ip hp) then []
      else
        (let ip = the (honeypot_ip hp) in
         ips_entry (''honeypot-'' @ ip) hp ip 0 ''internal-honeypot'' #
         map (\<lambda>port. ips_entry (''honeypot-'' @ ip @ ''-'' @ show_nat port) hp ip (of_nat port) (getServiceTypeForPort port))
           honeypotPorts))"

text \<open>The items of \<open>x || []\<close>.\<close>

definition items_or_none :: "json \<Rightarrow> (string \<times> json) list list option" where
  "items_or_none j = (if json_truthy j then Option.bind (js_items j) item_fields else Some [])"

definition setting_honeypots :: "(string \<times> json) list \<Rightarrow> honeypot list option" where
  "setting_honeypots setting =
     (if get_str setting ''key'' \<noteq> Some ''ips'' \<or> \<not> json_truthy (field setting ''honeypot_enabled'') then Some []
      else map_option (\<lambda>hps. concat (map ips_entries hps)) (items_or_none (field setting ''honeypot'')))"

definition num_or_zero :: "rat option \<Rightarrow> rat" where
  "num_or_zero q = dflt 0 q"

definition direct_honeypot :: "(string \<times> json) list \<Rightarrow> honeypot list" where
  "direct_honeypot hp =
     (if \<not> truthy (honeypot_ip hp) then []
      else
        (let ip = the (honeypot_ip hp); port = num_or_zero (get_num hp ''port'') in
         [\<lparr>hp_id = str_dflt (get_str hp ''_id'') (''hp-'' @ ip @ ''-'' @ show_number port),
           hp_enabled = (field hp ''enabled'' \<noteq> JBool False), hp_ipAddress = ip, hp_port = port,
           hp_protocol = str_dflt (get_str hp ''protocol'') ''tcp'',
           hp_serviceType = str_dflt (str_or (str_or (get_str hp ''service_type'') (get_str hp ''serviceType'')) (get_str hp ''type'')) ''honeypot'',
           hp_networkId = str_or (get_str hp ''network_id'') (get_str hp ''networkId''), hp_networkName = None\<rparr>]))"

fun all_some :: "'a option list \<Rightarrow> 'a list option" where
  "all_some [] = Some []"
| "all_some (None # xs) = None"
| "all_some (Some x # xs) = map_option (Cons x) (all_some xs)"

definition extractHoneypots :: "(string \<times> json) list \<Rightarrow> honeypot list option" where
  "extractHoneypots config =
     (case Option.bind (items_or_none (field config ''setting'')) (\<lambda>settings. all_some (map setting_honeypots settings)) of
        None \<Rightarrow> None
      | Some parts \<Rightarrow>
          map_option (\<lambda>direct. concat parts @ concat (map direct_honeypot direct))
            (items_or_none (first_of config [''honeypot'', ''honeypots''])))"

section \<open>Honeypots of the active configuration\<close>

definition keep_widest :: "(string \<times> honeypot) list \<Rightarrow> honeypot \<Rightarrow> (string \<times> honeypot) list" where
  "keep_widest byIp hp =
     (if om_get byIp (hp_ipAddress hp) = None \<or> hp_port hp = 0 then om_set (hp_ipAddress hp) hp byIp else byIp)"

definition uniqueByIp :: "honeypot list \<Rightarrow> honeypot list" where
  "uniqueByIp hps = map snd (foldl keep_widest [] hps)"

text \<open>\<open>networks.find\<close> by either id: reading a field of a null item is an exception.\<close>

fun find_network :: "json list \<Rightarrow> string \<Rightarrow> (string \<times> json) list option option" where
  "find_network [] i = Some None"
| "find_network (j # js) i =
     (if j = JNull then None
      else if get_str (obj_fields j) ''_id'' = Some i \<or> get_str (obj_fields j) ''id'' = Some i then Some (Some (obj_fields j))
      else find_network js i)"

definition named_network :: "json \<Rightarrow> honeypot \<Rightarrow> honeypot option" where
  "named_network networks hp =
     (if \<not> truthy (hp_networkId hp) then Some hp
      else (case networks of
              JArr js \<Rightarrow> map_option (\<lambda>found. case found of None \<Rightarrow> hp | Some n \<Rightarrow> hp\<lparr>hp_networkName := get_str n ''name''\<rparr>)
                           (find_network js (the (hp_networkId hp)))
            | _ \<Rightarrow> None))"

text \<open>An exception leaves no honeypots.\<close>

definition getHoneypots :: "vlan_db \<Rightarrow> honeypot list" where
  "getHoneypots db =
     (case find cf_isActive (vd_configs db) of
        None \<Rightarrow> []
      | Some c \<Rightarrow>
          if \<not> json_truthy (cf_configJson c) then []
          else
            (let config = obj_fields (cf_configJson c);
                 networks = first_of config [''networks'', ''networkConf'', ''networkconf'']
             in dflt [] (Option.bind (extractHoneypots config)
                           (\<lambda>hps. all_some (map (named_network networks) (uniqueByIp hps))))))"

definition active_honeypots :: "vlan_db \<Rightarrow> honeypot list option" where
  "active_honeypots db =
     (case find cf_isActive (vd_configs db) of
        None \<Rightarrow> Some []
      | Some c \<Rightarrow> if cf_configJson c = JNull then None else extractHoneypots (obj_fields (cf_configJson c)))"

definition isHoneypot :: "vlan_db \<Rightarrow> string \<Rightarrow> rat \<Rightarrow> bool option" where
  "isHoneypot db ip port =
     map_option (\<lambda>hps. \<exists>hp \<in> set hps. hp_enabled hp \<and> hp_ipAddress hp = ip \<and> (hp_port hp = port \<or> hp_port hp = 0))
       (active_honeypots db)"

definition getHoneypotExclusions :: "vlan_db \<Rightarrow> (string \<times> rat) list option" where
  "getHoneypotExclusions db =
     map_option (\<lambda>hps. map (\<lambda>hp. (hp_ipAddress hp, hp_port hp)) (filter (\<lambda>hp. hp_enabled hp \<and> hp_ipAddress hp \<noteq> []) hps))
       (active_honeypots db)"

definition testPorts :: "rat list" where
  "testPorts = [22, 80, 23]"

definition honeypot_probe :: "string \<Rightarrow> rat \<Rightarrow> command" where
  "honeypot_probe ip port =
     [(''op'', JStr ''tcp_connect''), (''host'', JStr ip), (''port'', JNum port), (''timeout'', JNum 2000),
      (''isHoneypot'', JBool True)]"

definition generateHoneypotValidationCommands :: "vlan_db \<Rightarrow> string list option \<Rightarrow> command list" where
  "generateHoneypotValidationCommands db honeypotIds =
     (let honeypots = getHoneypots db;
          targets = (case honeypotIds of
                       Some ids \<Rightarrow> if 0 < length ids then filter (\<lambda>hp. hp_id hp \<in> set ids) honeypots
                                    else filter hp_enabled honeypots
                     | None \<Rightarrow> filter hp_enabled honeypots)
      in concat (map (\<lambda>hp. if hp_ipAddress hp = [] then [] else map (honeypot_probe (hp_ipAddress hp)) testPorts) targets))"

end
