(* ===== verification/Local_Executor.thy ===== *)
theory Local_Executor
  imports Test_Runs Honeypot_Service
begin

text \<open>
  \<open>services/localTestExecutor.ts\<close>: the commands that the server runs itself.  What the operating system answers
  (network interfaces, sockets, name lookups) is a parameter, \<open>host_net\<close>.  A batch occupies the executor from
  \<open>local_start\<close> until \<open>local_finish\<close>, and other handlers can run between the two.  Commands are read at the
  types of their interface.
\<close>

section \<open>The host\<close>

record iface_address =
  ia_family :: string
  ia_internal :: bool
  ia_address :: string
  ia_mac :: string

record host_net =
  hn_interfaces :: "iface_address list list"
  hn_system :: "(string \<times> json) list"
  hn_tcp :: "string \<Rightarrow> rat \<Rightarrow> rat \<Rightarrow> bool"
  hn_banner :: "string \<Rightarrow> rat \<Rightarrow> rat \<Rightarrow> string"
  hn_dns :: "string \<Rightarrow> string option"
  hn_latency :: "string \<Rightarrow> rat"
  hn_dbError :: string

definition address_part :: "string \<Rightarrow> nat \<Rightarrow> string" where
  "address_part ip i = (let parts = split_on CHR ''.'' ip in if i < length parts then parts ! i else ''undefined'')"

definition address_prefix :: "string \<Rightarrow> string" where
  "address_prefix ip = address_part ip 0 @ ''.'' @ address_part ip 1 @ ''.'' @ address_part ip 2"

text \<open>The address, gateway and MAC address of the first interface that has an address of its own.\<close>

fun primary_interface :: "iface_address list list \<Rightarrow> string \<times> string \<times> string \<Rightarrow> string \<times> string \<times> string" where
  "primary_interface [] found = found"
| "primary_interface (addrs # rest) found =
     (case find (\<lambda>a. ia_family a = ''IPv4'' \<and> \<not> ia_internal a) addrs of
        None \<Rightarrow> primary_interface rest found
      | Some a \<Rightarrow>
          (let found' = (ia_address a, address_prefix (ia_address a) @ ''.1'', ia_mac a) in
           if ia_address a \<noteq> ''127.0.0.1'' then found' else primary_interface rest found'))"

definition local_address :: "host_net \<Rightarrow> string \<times> string \<times> string" where
  "local_address net = primary_interface (hn_interfaces net) (''127.0.0.1'', [], [])"

definition getNetworkInfo :: "host_net \<Rightarrow> (string \<times> json) list" where
  "getNetworkInfo net =
     (let (localIP, gateway, mac) = local_address net in
      [(''localIP'', JStr localIP), (''gateway'', JStr gateway), (''subnet'', JStr ''255.255.255.0''), (''mac'', JStr mac)] @
      hn_system net)"

section \<open>Commands\<close>

record command_result =
  cr_op :: string
  cr_index :: nat
  cr_success :: bool
  cr_data :: "(string \<times> json) list option"
  cr_error :: "string option"

definition num_dflt :: "rat option \<Rightarrow> rat \<Rightarrow> rat" where
  "num_dflt q d = (case q of None \<Rightarrow> d | Some x \<Rightarrow> if x = 0 then d else x)"

definition op_of :: "command \<Rightarrow> string" where
  "op_of cmd = dflt [] (get_str cmd ''op'')"

definition host_of :: "command \<Rightarrow> string" where
  "host_of cmd = dflt [] (get_str cmd ''host'')"

text \<open>A host is found when one of the well-known ports accepts a connection.  The hosts of a batch of ten are
  probed at once and found in any order; they are listed here in the order of their addresses.\<close>

definition discoveryPorts :: "rat list" where
  "discoveryPorts = [80, 443, 22, 445, 139, 21, 23, 53, 8080]"

definition arpScan :: "host_net \<Rightarrow> nat \<Rightarrow> nat \<Rightarrow> rat \<Rightarrow> string list" where
  "arpScan net startHost endHost timeout =
     (let localIP = fst (local_address net) in
      filter (\<lambda>target. target \<noteq> localIP \<and> (\<exists>p \<in> set discoveryPorts. hn_tcp net target p timeout))
        (map (\<lambda>j. address_prefix localIP @ ''.'' @ show_nat j) [startHost..<Suc endHost]))"

definition ok_result :: "string \<Rightarrow> nat \<Rightarrow> (string \<times> json) list \<Rightarrow> command_result" where
  "ok_result op index data = \<lparr>cr_op = op, cr_index = index, cr_success = True, cr_data = Some data, cr_error = None\<rparr>"

definition whole :: "rat \<Rightarrow> nat" where
  "whole q = nat \<lfloor>q\<rfloor>"

definition executeCommand :: "host_net \<Rightarrow> command \<Rightarrow> nat \<Rightarrow> command_result" where
  "executeCommand net cmd index =
     (let op = op_of cmd; host = host_of cmd; port = num_dflt (get_num cmd ''port'') 80 in
      if op = ''get_network_info'' then ok_result op index (getNetworkInfo net)
      else if op = ''tcp_connect'' then
        (let timeout = num_dflt (get_num cmd ''timeout'') 1000 in
         ok_result op index [(''host'', JStr host), (''port'', JNum port), (''open'', JBool (hn_tcp net host port timeout))])
      else if op = ''tcp_banner'' then
        (let timeout = num_dflt (get_num cmd ''timeout'') 2000;
             banner = hn_banner net host port timeout;
             open = (0 < length banner \<or> hn_tcp net host port timeout)
         in ok_result op index [(''host'', JStr host), (''port'', JNum port), (''open'', JBool open), (''banner'', JStr banner)])
      else if op = ''dns_lookup'' then
        (let hostname = dflt [] (get_str cmd ''hostname'') in
         ok_result op index ((''hostname'', JStr hostname) #
           (case hn_dns net hostname of
              Some ip \<Rightarrow> [(''resolved'', JBool True), (''ip'', JStr ip)]
            | None \<Rightarrow> [(''resolved'', JBool False)])))
      else if op = ''arp_scan'' then
        (let hosts = arpScan net (whole (num_dflt (get_num cmd ''startHost'') 1)) (whole (num_dflt (get_num cmd ''endHost'') 254))
                       (num_dflt (get_num cmd ''timeout'') 50)
         in ok_result op index
              [(''subnet'', JStr (address_prefix (fst (local_address net)) @ ''.0/24'')),
               (''hosts'', JArr (map JStr hosts)), (''count'', js_int (int (length hosts)))])
      else if op = ''ping'' then
        (let timeout = num_dflt (get_num cmd ''timeout'') 1000;
             reachable = (hn_tcp net host 80 timeout \<or> hn_tcp net host 443 timeout)
         in ok_result op index
              [(''host'', JStr host), (''reachable'', JBool reachable), (''latency'', JNum (hn_latency net host))])
      else \<lparr>cr_op = op, cr_index = index, cr_success = False, cr_data = None, cr_error = Some (''Unknown operation: '' @ op)\<rparr>)"

section \<open>Batches\<close>

definition shouldExclude :: "string option \<Rightarrow> rat option \<Rightarrow> exclusion list \<Rightarrow> bool" where
  "shouldExclude ip port exclusions = (\<exists>ex \<in> set exclusions. Some (fst ex) = ip \<and> (snd ex = 0 \<or> Some (snd ex) = port))"

definition is_connection :: "command \<Rightarrow> bool" where
  "is_connection cmd \<longleftrightarrow> op_of cmd = ''tcp_connect'' \<or> op_of cmd = ''tcp_banner''"

definition is_excluded :: "exclusion list \<Rightarrow> command \<Rightarrow> bool" where
  "is_excluded exclusions cmd \<longleftrightarrow>
     0 < length exclusions \<and> is_connection cmd \<and> shouldExclude (get_str cmd ''host'') (get_num cmd ''port'') exclusions"

definition skipped_result :: "command \<Rightarrow> nat \<Rightarrow> command_result" where
  "skipped_result cmd index =
     ok_result (op_of cmd) index [(''host'', field cmd ''host''), (''port'', field cmd ''port''), (''skipped'', JBool True), (''reason'', JStr ''honeypot'')]"

fun batch_results :: "host_net \<Rightarrow> exclusion list \<Rightarrow> command list \<Rightarrow> nat \<Rightarrow> command_result list" where
  "batch_results net exclusions [] i = []"
| "batch_results net exclusions (cmd # cmds) i =
     (if is_excluded exclusions cmd then skipped_result cmd i else executeCommand net cmd i) #
     batch_results net exclusions cmds (Suc i)"

definition command_result_json :: "command_result \<Rightarrow> json" where
  "command_result_json r = JObj
     [(''op'', JStr (cr_op r)), (''index'', js_int (int (cr_index r))), (''success'', JBool (cr_success r)),
      (''data'', case cr_data r of None \<Rightarrow> JUndef | Some d \<Rightarrow> JObj d), (''error'', opt_json (cr_error r))]"

definition local_start :: "string \<Rightarrow> command list \<Rightarrow> exclusion list \<Rightarrow> test_state \<Rightarrow> test_state" where
  "local_start testId commands exclusions st =
     (if ts_local st \<noteq> None then st
      else st\<lparr>ts_local := Some \<lparr>lb_testId = testId, lb_commands = commands, lb_exclusions = exclusions\<rparr>\<rparr>)"

definition batch_incoming :: "command_result list \<Rightarrow> json" where
  "batch_incoming results = JObj
     [(''results'', JArr (map command_result_json results)), (''metadata'', JObj [(''executor'', JStr ''server-local'')])]"

text \<open>The rows that the end of a batch writes.  When the run has been deleted both updates fail; when the row of
  the server is missing the run is marked as failed.\<close>

definition local_finish :: "host_net \<Rightarrow> int \<Rightarrow> test_state \<Rightarrow> test_state" where
  "local_finish net now st =
     (case ts_local st of
        None \<Rightarrow> st
      | Some b \<Rightarrow>
          (let st1 = st\<lparr>ts_local := None\<rparr>;
               results = batch_results net (lb_exclusions b) (lb_commands b) 0;
               success = (\<forall>r \<in> set results. cr_success r)
           in case find_run st (lb_testId b) of
                None \<Rightarrow> st1
              | Some r \<Rightarrow>
                  (let structured = buildStructuredResultsJson (pc_resultsJson r) (batch_incoming results) (Some [(''chunked'', JBool False)]);
                       st2 = update_run (lb_testId b)
                         (\<lambda>r. r\<lparr>lr_status := (if success then Completed else TestFailed), lr_progress := 100,
                                 lr_completedAt := Some now, pc_resultsJson := JObj structured\<rparr>) st1
                   in if find_device (by_deviceId SERVER_DEVICE_ID) st2 = None
                      then update_run (lb_testId b)
                             (\<lambda>r. r\<lparr>lr_status := TestFailed, lr_errorMessage := Some (hn_dbError net)\<rparr>) st2
                      else set_device_status (by_deviceId SERVER_DEVICE_ID) DevOnline st2)))"

text \<open>\<open>ensureServerDevice\<close>, with the address that was found for the server.\<close>

definition ensureServerDevice :: "host_net \<Rightarrow> string \<Rightarrow> string option \<Rightarrow> int \<Rightarrow> string \<Rightarrow> test_state \<Rightarrow> test_state" where
  "ensureServerDevice net hostIp lanIP now newId st =
     (let (localIP, gateway, mac) = local_address net;
          serverIP = (if hostIp \<noteq> [] then hostIp else str_dflt lanIP localIP)
      in if find_device (by_deviceId SERVER_DEVICE_ID) st = None
         then st\<lparr>ts_devices := ts_devices st @
                [\<lparr>dw_id = newId, dw_deviceId = SERVER_DEVICE_ID, dw_name = ''Server (Local)'', dw_ipAddress = Some serverIP,
                  dw_status = DevOnline, ld_macAddress = Some mac, ld_firmwareVersion = Some ''server'', ld_lastSeen = None\<rparr>]\<rparr>
         else st\<lparr>ts_devices := map (\<lambda>d. if by_deviceId SERVER_DEVICE_ID d
                  then d\<lparr>dw_ipAddress := Some serverIP, dw_status := DevOnline, ld_lastSeen := Some now\<rparr> else d)
                (ts_devices st)\<rparr>)"

section \<open>Honeypots in batches\<close>

text \<open>What a batch leaves out are exactly the honeypots.  The list of endpoints that a test excludes says of
  each address and port whether the check for honeypots finds one there.\<close>
lemma exclusions_are_honeypots:
  assumes "getHoneypotExclusions db = Some xs" and "isHoneypot db ip port = Some b" and "ip \<noteq> []"
  shows "shouldExclude (Some ip) (Some port) xs = b"
  using assms by (auto simp: getHoneypotExclusions_def isHoneypot_def shouldExclude_def image_iff)

lemma batch_results_nth:
  "k < length cmds \<Longrightarrow> batch_results net xs cmds i ! k =
     (if is_excluded xs (cmds ! k) then skipped_result (cmds ! k) (i + k) else executeCommand net (cmds ! k) (i + k))"
proof (induction cmds arbitrary: i k)
  case (Cons c cmds)
  then show ?case by (cases k) auto
qed simp

lemma length_batch [simp]: "length (batch_results net xs cmds i) = length cmds"
  by (induction cmds arbitrary: i) auto

lemma no_connections: "\<forall>c \<in> set cmds. \<not> is_connection c \<Longrightarrow> batch_results net xs cmds i = batch_results net [] cmds i"
  by (induction cmds arbitrary: i) (auto simp: is_excluded_def)

definition scan_commands :: "command list" where
  "scan_commands =
     [network_info_command,
      [(''op'', JStr ''arp_scan''), (''timeout'', JNum 100), (''startHost'', JNum 1), (''endHost'', JNum 254)]]"

lemma scan_tests:
  "map_option df_commands (getTestDefinition ''port_scan'') = Some scan_commands"
  "map_option df_commands (getTestDefinition ''service_discovery'') = Some scan_commands"
  by code_simp+

text \<open>The tests that look for hosts do not leave honeypots out.  Only single connections are
  checked against the list, and the scans of the server open connections to the same ports of every host: the list
  has no effect on them, and a honeypot that accepts a connection is probed and reported as a host.\<close>
lemma scans_probe_honeypots:
  assumes "getTestDefinition ty = Some d" and "ty = ''port_scan'' \<or> ty = ''service_discovery''"
    and "target = address_prefix (fst (local_address net)) @ ''.'' @ show_nat j" and "1 \<le> j" "j \<le> 254"
    and "target \<noteq> fst (local_address net)" and "p \<in> set discoveryPorts" and "hn_tcp net target p 100"
    and "results = batch_results net xs (df_commands d) 0"
  shows "results = batch_results net [] (df_commands d) 0 \<and>
    (\<exists>hosts. field (the (cr_data (results ! 1))) ''hosts'' = JArr (map JStr hosts) \<and> target \<in> set hosts)"
proof -
  have d: "df_commands d = scan_commands"
    using assms(1,2) scan_tests by auto
  have "\<forall>c \<in> set scan_commands. \<not> is_connection c"
    by (simp add: scan_commands_def network_info_command_def is_connection_def op_of_def get_str_def parse_str_def
        field_def om_get_def dflt_def)
  then have same: "results = batch_results net [] scan_commands 0"
    unfolding assms(9) d by (rule no_connections)
  have "results ! 1 = executeCommand net (scan_commands ! 1) 1"
    unfolding same by (subst batch_results_nth) (simp_all add: scan_commands_def is_excluded_def)
  then have hosts: "field (the (cr_data (results ! 1))) ''hosts'' = JArr (map JStr (arpScan net 1 254 100))"
    by (simp add: scan_commands_def executeCommand_def op_of_def get_str_def parse_str_def get_num_def num_dflt_def
        whole_def field_def om_get_def dflt_def ok_result_def Let_def)
  have found: "target \<in> set (arpScan net 1 254 100)"
    using assms(3-8) by (auto simp: arpScan_def Let_def)
  have "results = batch_results net [] (df_commands d) 0"
    by (simp only: same d)
  then show ?thesis
    by (intro conjI exI [of _ "arpScan net 1 254 100"] hosts found)
qed

text \<open>An excluded endpoint is not touched by single connections.  In every batch the command is answered as
  skipped, whatever the network is, and the commands that are not excluded get the answers they would get
  without the list.\<close>
lemma excluded_endpoints_skipped:
  assumes "k < length cmds" and "is_connection (cmds ! k)" and "get_str (cmds ! k) ''host'' = Some ip"
    and "get_num (cmds ! k) ''port'' = Some port"
  shows "batch_results net xs cmds 0 ! k =
    (if (ip, port) \<in> set xs \<or> (ip, 0) \<in> set xs
     then ok_result (op_of (cmds ! k)) k
       [(''host'', JStr ip), (''port'', JNum port), (''skipped'', JBool True), (''reason'', JStr ''honeypot'')]
     else executeCommand net (cmds ! k) k)"
proof -
  have "field (cmds ! k) ''host'' = JStr ip" "field (cmds ! k) ''port'' = JNum port"
    using assms(3,4) by (auto simp: get_str_def get_num_def parse_str_def split: json.splits)
  moreover have "is_excluded xs (cmds ! k) \<longleftrightarrow> (ip, port) \<in> set xs \<or> (ip, 0) \<in> set xs"
    using assms(2-4) by (auto simp: is_excluded_def shouldExclude_def intro: bexI [of _ "(ip, port)"] bexI [of _ "(ip, 0)"])
  ultimately show ?thesis
    using assms(1) by (simp add: batch_results_nth skipped_result_def)
qed

section \<open>Examples\<close>

definition demo_honeypots :: vlan_db where
  "demo_honeypots =
     \<lparr>vd_devices = [], vd_testRuns = [], vd_profile = None,
      vd_configs = [\<lparr>cf_isActive = True, cf_configJson = JObj [(''honeypots'', JArr
        [JObj [(''ip'', JStr ''10.0.1.9''), (''port'', JNum 22)], JObj [(''ip'', JStr ''10.0.1.8'')]])]\<rparr>]\<rparr>"

lemma exclusions_are_honeypots_witness:
  "shouldExclude (Some ''10.0.1.8'') (Some 443) [(''10.0.1.9'', 22), (''10.0.1.8'', 0)] \<and>
   \<not> shouldExclude (Some ''10.0.1.9'') (Some 80) [(''10.0.1.9'', 22), (''10.0.1.8'', 0)]"
proof -
  have "getHoneypotExclusions demo_honeypots = Some [(''10.0.1.9'', 22), (''10.0.1.8'', 0)]"
    "isHoneypot demo_honeypots ''10.0.1.8'' 443 = Some True" "isHoneypot demo_honeypots ''10.0.1.9'' 80 = Some False"
    by code_simp+
  then show ?thesis
    using exclusions_are_honeypots [of demo_honeypots "[(''10.0.1.9'', 22), (''10.0.1.8'', 0)]" "''10.0.1.8''" 443 True]
      exclusions_are_honeypots [of demo_honeypots "[(''10.0.1.9'', 22), (''10.0.1.8'', 0)]" "''10.0.1.9''" 80 False]
    by simp
qed

definition trap_net :: host_net where
  "trap_net =
     \<lparr>hn_interfaces = [[\<lparr>ia_family = ''IPv4'', ia_internal = False, ia_address = ''192.168.10.2'', ia_mac = []\<rparr>]],
      hn_system = [], hn_tcp = (\<lambda>host port timeout. host = ''192.168.10.66''), hn_banner = (\<lambda>_ _ _. []), hn_dns = (\<lambda>_. None),
      hn_latency = (\<lambda>_. 1), hn_dbError = ''not found''\<rparr>"

lemma scans_probe_honeypots_witness:
  "\<exists>hosts. field (the (cr_data (batch_results trap_net [(''192.168.10.66'', 0)] scan_commands 0 ! 1))) ''hosts'' = JArr (map JStr hosts) \<and>
     ''192.168.10.66'' \<in> set hosts"
proof -
  obtain d where d: "getTestDefinition ''port_scan'' = Some d" "df_commands d = scan_commands"
    using scan_tests(1) by auto
  have target: "''192.168.10.66'' = address_prefix (fst (local_address trap_net)) @ ''.'' @ show_nat 66"
    and own: "''192.168.10.66'' \<noteq> fst (local_address trap_net)"
    by code_simp+
  have tcp: "hn_tcp trap_net ''192.168.10.66'' 80 100"
    by (simp add: trap_net_def)
  have port: "80 \<in> set discoveryPorts"
    by (simp add: discoveryPorts_def)
  have range: "1 \<le> (66 :: nat)" "(66 :: nat) \<le> 254" by simp_all
  from scans_probe_honeypots [OF d(1) disjI1 [OF refl] target range own port tcp refl, of "[(''192.168.10.66'', 0)]"]
  show ?thesis unfolding d(2) by (rule conjunct2)
qed

lemma excluded_endpoints_skipped_witness:
  "cr_data (batch_results trap_net [(''192.168.10.66'', 0)] [honeypot_probe ''192.168.10.66'' 22] 0 ! 0) =
     Some [(''host'', JStr ''192.168.10.66''), (''port'', JNum 22), (''skipped'', JBool True), (''reason'', JStr ''honeypot'')]"
  using excluded_endpoints_skipped [of 0 "[honeypot_probe ''192.168.10.66'' 22]" "''192.168.10.66''" 22 trap_net "[(''192.168.10.66'', 0)]"]
  by (simp add: honeypot_probe_def is_connection_def op_of_def get_str_def parse_str_def get_num_def field_def om_get_def
      dflt_def ok_result_def)

end
