(* ===== verification/Test_Scheduling.thy ===== *)
theory Test_Scheduling
  imports Mqtt_Service Local_Executor
begin

text \<open>
  Starting and ending tests: \<open>services/autoValidationService.ts\<close>, the routes of \<open>api/routes/tests.ts\<close> that start
  and cancel a test, and the periodic jobs of \<open>scheduler.ts\<close> that retry, time out and delete test runs.
\<close>

section \<open>Creating a run\<close>

text \<open>The identifiers that the database gives to new rows are all different.\<close>

definition new_run_id :: "nat \<Rightarrow> string" where
  "new_run_id n = CHR ''c'' # show_nat n"

definition is_active_run :: "life_run \<Rightarrow> bool" where
  "is_active_run r \<longleftrightarrow> lr_status r = Queued \<or> lr_status r = Running"

definition active_run :: "test_state \<Rightarrow> string \<Rightarrow> life_run option" where
  "active_run st dbDeviceId =
     (case sort_key (\<lambda>r. - lr_startedAt r) (filter (\<lambda>r. lr_deviceId r = dbDeviceId \<and> is_active_run r) (ts_runs st)) of
        [] \<Rightarrow> None
      | r # rs \<Rightarrow> Some r)"

definition queued_run :: "int \<Rightarrow> string \<Rightarrow> string \<Rightarrow> string \<Rightarrow> string option \<Rightarrow> life_run" where
  "queued_run now testId dbDeviceId testType configId =
     \<lparr>pc_id = testId, pc_testType = testType, pc_configId = configId, pc_resultsJson = JNull,
      lr_deviceId = dbDeviceId, lr_status = Queued, lr_progress = 0, lr_currentStep = Some ''Initializing'',
      lr_startedAt = now, lr_completedAt = None, lr_duration = None, lr_errorMessage = None\<rparr>"

definition create_run :: "int \<Rightarrow> string \<Rightarrow> string \<Rightarrow> string option \<Rightarrow> test_state \<Rightarrow> string \<times> test_state" where
  "create_run now dbDeviceId testType configId st =
     (let testId = new_run_id (ts_nextRun st) in
      (testId, st\<lparr>ts_runs := ts_runs st @ [queued_run now testId dbDeviceId testType configId],
                  ts_nextRun := Suc (ts_nextRun st)\<rparr>))"

definition peer_json :: "peer \<Rightarrow> json" where
  "peer_json p = JObj
     [(''id'', JStr (pr_id p)), (''name'', JStr (pr_name p)), (''ip'', JStr (pr_ip p)), (''network'', opt_json (pr_network p))]"

definition device_metadata :: "device_plan \<Rightarrow> json" where
  "device_metadata p = JObj
     [(''sourceDevice'', peer_json (dp_sourceDevice p)), (''targetDevices'', JArr (map peer_json (dp_targetDevices p)))]"

definition metadata_patch :: "string \<Rightarrow> json \<Rightarrow> (string \<times> json) list" where
  "metadata_patch key metadata = [(''metadata'', JObj [(key, metadata)]), (key, metadata), (''schemaVersion'', JNum 2)]"

definition store_patch :: "string \<Rightarrow> (string \<times> json) list option \<Rightarrow> test_state \<Rightarrow> test_state" where
  "store_patch testId patch st = (case patch of None \<Rightarrow> st | Some p \<Rightarrow> merge_run_results testId p st)"

definition dispatch :: "string \<Rightarrow> string \<Rightarrow> command list \<Rightarrow> exclusion list \<Rightarrow> test_state \<Rightarrow> test_state" where
  "dispatch mqttDeviceId testId commands exclusions st =
     (if mqttDeviceId = SERVER_DEVICE_ID then local_start testId commands exclusions st
      else sendCommand mqttDeviceId ''execute'' (execute_payload testId commands exclusions) st)"

section \<open>Scheduled tests\<close>

text \<open>The commands and the metadata of a test; no plan when there is nothing to test or the generator fails.\<close>

definition plan_test ::
    "(string \<Rightarrow> string \<Rightarrow> int) \<Rightarrow> test_state \<Rightarrow> live_device \<Rightarrow> string \<Rightarrow> string \<Rightarrow> (command list \<times> (string \<times> json) list option) option" where
  "plan_test cmp st device mqttDeviceId testType =
     (if testType = ''topology_validation'' then
        (case generateTopologyTestCommands cmp (coverage_db st) (if truthy (dw_ipAddress device) then dw_ipAddress device else None) of
           None \<Rightarrow> None
         | Some (commands, metadata) \<Rightarrow>
             if length commands \<le> 1 then None else Some (commands, Some (metadata_patch ''topologyMetadata'' metadata)))
      else if testType = ''device_to_device'' then
        (case generateDeviceToDeviceCommands (coverage_db st) mqttDeviceId of
           None \<Rightarrow> None
         | Some p \<Rightarrow>
             if truthy (dp_error p) \<or> length (dp_targetDevices p) = 0 then None
             else Some (dp_commands p, Some (metadata_patch ''deviceToDeviceMetadata'' (device_metadata p))))
      else map_option (\<lambda>d. (df_commands d, None)) (getTestDefinition testType))"

definition launch ::
    "int \<Rightarrow> string \<Rightarrow> string \<Rightarrow> string \<Rightarrow> command list \<times> (string \<times> json) list option \<Rightarrow> test_state \<Rightarrow> string option \<times> test_state" where
  "launch now dbDeviceId mqttDeviceId testType plan st =
     (let (testId, st1) = create_run now dbDeviceId testType (ts_configId st) st;
          st2 = store_patch testId (snd plan) st1;
          st3 = set_device_status (by_dbId dbDeviceId) DevTesting st2
      in (Some testId, dispatch mqttDeviceId testId (fst plan) [] st3))"

definition scheduleTest ::
    "(string \<Rightarrow> string \<Rightarrow> int) \<Rightarrow> int \<Rightarrow> string \<Rightarrow> string \<Rightarrow> string \<Rightarrow> test_state \<Rightarrow> string option \<times> test_state" where
  "scheduleTest cmp now dbDeviceId mqttDeviceId testType st =
     (case find_device (by_dbId dbDeviceId) st of
        None \<Rightarrow> (None, st)
      | Some device \<Rightarrow>
          if dw_status device \<noteq> DevOnline then (None, st)
          else
            (case active_run st dbDeviceId of
               Some r \<Rightarrow> (Some (pc_id r), st)
             | None \<Rightarrow>
                 (case plan_test cmp st device mqttDeviceId testType of
                    None \<Rightarrow> (None, st)
                  | Some plan \<Rightarrow> launch now dbDeviceId mqttDeviceId testType plan st)))"

definition FOLLOW_UP_MS :: int where
  "FOLLOW_UP_MS = 15000"

definition coverage_network :: "vlan_info \<Rightarrow> vlan_network" where
  "coverage_network v =
     \<lparr>vw_id = vi_networkId v, vw_name = vi_name v, vw_vlanId = vi_vlanId v, vw_subnet = vi_subnet v, vw_purpose = []\<rparr>"

definition runAutoValidation ::
    "(string \<Rightarrow> string \<Rightarrow> int) \<Rightarrow> (json \<Rightarrow> bool) \<Rightarrow> int \<Rightarrow> string \<Rightarrow> string \<Rightarrow> string \<Rightarrow> test_state \<Rightarrow> test_state" where
  "runAutoValidation cmp stored now deviceId dbDeviceId ipAddress st =
     (case find_device (by_dbId dbDeviceId) st of
        None \<Rightarrow> st
      | Some device \<Rightarrow>
          if dw_status device \<noteq> DevOnline then st
          else
            (case getVlanCoverage cmp stored (coverage_db st) of
               None \<Rightarrow> st
             | Some coverage \<Rightarrow>
                 (let networks = map coverage_network (vc_vlans coverage);
                      st1 = snd (scheduleTest cmp now dbDeviceId deviceId ''connectivity'' st)
                  in case mapDeviceToNetwork (Some ipAddress) networks of
                       None \<Rightarrow> st1
                     | Some n \<Rightarrow>
                         if 0 < length (getDevicesOnOtherVlans cmp stored (coverage_db st1) (vw_id n))
                         then st1\<lparr>ts_timers := ts_timers st1 @ [(now + FOLLOW_UP_MS, FollowUp dbDeviceId deviceId)]\<rparr>
                         else st1)))"

definition shouldRunVlanValidation ::
    "(string \<Rightarrow> string \<Rightarrow> int) \<Rightarrow> (json \<Rightarrow> bool) \<Rightarrow> int \<Rightarrow> string \<Rightarrow> test_state \<Rightarrow> bool" where
  "shouldRunVlanValidation cmp stored now networkId st =
     (case getVlanCoverage cmp stored (coverage_db st) of
        None \<Rightarrow> False
      | Some coverage \<Rightarrow>
          (case find (\<lambda>v. vi_networkId v = networkId) (vc_vlans coverage) of
             None \<Rightarrow> False
           | Some v \<Rightarrow> validation_due now v))"

definition vlan_runner :: "vlan_info \<Rightarrow> test_device option" where
  "vlan_runner v =
     (case find (\<lambda>d. td_status d = DevOnline) (vi_testDevices v) of
        Some d \<Rightarrow> Some d
      | None \<Rightarrow>
          (case vi_hostValidationDevice v of
             Some h \<Rightarrow> if td_status h = DevOnline then Some h else None
           | None \<Rightarrow> None))"

definition validate_vlan ::
    "(string \<Rightarrow> string \<Rightarrow> int) \<Rightarrow> (json \<Rightarrow> bool) \<Rightarrow> int \<Rightarrow> test_state \<Rightarrow> vlan_info \<Rightarrow> test_state" where
  "validate_vlan cmp stored now st vlan =
     (if \<not> vi_hasCoverage vlan \<and> \<not> vi_hasHostValidation vlan then st
      else
        (case vlan_runner vlan of
           None \<Rightarrow> st
         | Some runner \<Rightarrow>
             if \<not> shouldRunVlanValidation cmp stored now (vi_networkId vlan) st then st
             else snd (scheduleTest cmp now (td_id runner) (td_deviceId runner) ''topology_validation'' st)))"

definition runScheduledVlanValidation ::
    "(string \<Rightarrow> string \<Rightarrow> int) \<Rightarrow> (json \<Rightarrow> bool) \<Rightarrow> int \<Rightarrow> test_state \<Rightarrow> test_state" where
  "runScheduledVlanValidation cmp stored now st =
     (case getVlanCoverage cmp stored (coverage_db st) of
        None \<Rightarrow> st
      | Some coverage \<Rightarrow> foldl (validate_vlan cmp stored now) st (vc_vlans coverage))"

end
