(* ===== verification/Test_Routes.thy ===== *)
theory Test_Routes
  imports Test_Scheduling
begin

text \<open>
  The routes of \<open>api/routes/tests.ts\<close> that start and cancel a test, and the periodic jobs of \<open>scheduler.ts\<close> that
  mark devices offline, send queued tests again, and time out and delete test runs.  The request is the validated
  body; the answer is the status of the response.
\<close>

section \<open>Starting a test\<close>

datatype start_answer =
    TestStarted string | DeviceNotFound | DeviceNotOnline | TestInProgress | NoTopologyData | NoHoneypots | NoDevices
  | TestStartError

record start_request =
  sq_deviceId :: string
  sq_testType :: string
  sq_configId :: "string option"
  sq_excludeHoneypots :: bool
  sq_honeypotIds :: "string list option"
  sq_options :: "(string \<times> json) list option"

definition status_text :: "test_status \<Rightarrow> string" where
  "status_text s =
     (case s of Queued \<Rightarrow> ''queued'' | Running \<Rightarrow> ''running'' | Completed \<Rightarrow> ''completed'' | TestFailed \<Rightarrow> ''failed''
      | Cancelled \<Rightarrow> ''cancelled'')"

definition stale_run :: "int \<Rightarrow> life_run \<Rightarrow> bool" where
  "stale_run now r \<longleftrightarrow>
     (lr_status r = Queued \<and> now - lr_startedAt r > 2 * 60 * 1000) \<or>
     (lr_status r = Running \<and> now - lr_startedAt r > 30 * 60 * 1000)"

definition fail_run :: "int \<Rightarrow> string \<Rightarrow> life_run \<Rightarrow> life_run" where
  "fail_run now message r = r\<lparr>lr_status := TestFailed, lr_completedAt := Some now, lr_errorMessage := Some message\<rparr>"

definition clear_stale :: "int \<Rightarrow> life_run \<Rightarrow> string \<Rightarrow> test_state \<Rightarrow> test_state" where
  "clear_stale now r dbDeviceId st =
     set_device_status (by_dbId dbDeviceId) DevOnline
       (update_run (pc_id r) (fail_run now (''Auto-cleared stale '' @ status_text (lr_status r) @ '' test before new run'')) st)"

definition undo_start :: "string \<Rightarrow> string \<Rightarrow> test_state \<Rightarrow> test_state" where
  "undo_start testId dbDeviceId st =
     set_device_status (by_dbId dbDeviceId) DevOnline (st\<lparr>ts_runs := filter (\<lambda>r. pc_id r \<noteq> testId) (ts_runs st)\<rparr>)"

text \<open>The commands of a started test, with the rows as they are then; or why there are none.\<close>

datatype prepared = Prepared "command list" "(string \<times> json) list option" | Refused start_answer

definition prepare_commands ::
    "(string \<Rightarrow> string \<Rightarrow> int) \<Rightarrow> start_request \<Rightarrow> live_device \<Rightarrow> test_definition \<Rightarrow> test_state \<Rightarrow> prepared" where
  "prepare_commands cmp q device testDef st =
     (if sq_testType q = ''topology_validation'' then
        (case generateTopologyTestCommands cmp (coverage_db st) (if truthy (dw_ipAddress device) then dw_ipAddress device else None) of
           None \<Rightarrow> Refused TestStartError
         | Some (commands, metadata) \<Rightarrow>
             if length commands \<le> 1 then Refused NoTopologyData
             else Prepared commands (Some (metadata_patch ''topologyMetadata'' metadata)))
      else if sq_testType q = ''honeypot_validation'' then
        (let honeypotCommands = generateHoneypotValidationCommands (coverage_db st) (sq_honeypotIds q) in
         if length honeypotCommands = 0 then Refused NoHoneypots
         else Prepared (df_commands testDef @ honeypotCommands) None)
      else if sq_testType q = ''device_to_device'' then
        (case generateDeviceToDeviceCommands (coverage_db st) (dw_deviceId device) of
           None \<Rightarrow> Refused TestStartError
         | Some p \<Rightarrow>
             if truthy (dp_error p) \<or> length (dp_targetDevices p) = 0 then Refused NoDevices
             else Prepared (dp_commands p) (Some (metadata_patch ''deviceToDeviceMetadata'' (device_metadata p))))
      else Prepared (df_commands testDef) None)"

definition start_exclusions :: "start_request \<Rightarrow> test_state \<Rightarrow> exclusion list option" where
  "start_exclusions q st =
     (if sq_excludeHoneypots q \<and> sq_testType q \<noteq> ''honeypot_validation'' then getHoneypotExclusions (coverage_db st)
      else Some [])"

definition exclusions_patch :: "exclusion list \<Rightarrow> (string \<times> json) list option" where
  "exclusions_patch exclusions =
     (if 0 < length exclusions then
        (let j = JArr (map exclusion_json exclusions) in
         Some [(''metadata'', JObj [(''honeypotExclusions'', j)]), (''honeypotExclusions'', j), (''schemaVersion'', JNum 2)])
      else None)"

definition run_commands ::
    "(string \<Rightarrow> string \<Rightarrow> int) \<Rightarrow> start_request \<Rightarrow> live_device \<Rightarrow> string \<Rightarrow> test_definition \<Rightarrow> test_state \<Rightarrow> start_answer \<times> test_state" where
  "run_commands cmp q device testId testDef st =
     (case prepare_commands cmp q device testDef st of
        Refused a \<Rightarrow> (a, if a = TestStartError then st else undo_start testId (sq_deviceId q) st)
      | Prepared commands patch \<Rightarrow>
          (let st1 = store_patch testId patch st in
           case start_exclusions q st1 of
             None \<Rightarrow> (TestStartError, st1)
           | Some exclusions \<Rightarrow>
               (TestStarted testId,
                dispatch (dw_deviceId device) testId commands exclusions (store_patch testId (exclusions_patch exclusions) st1))))"

definition legacy_payload :: "start_request \<Rightarrow> live_device \<Rightarrow> string \<Rightarrow> (string \<times> json) list" where
  "legacy_payload q device testId =
     [(''testId'', JStr testId), (''deviceId'', JStr (dw_deviceId device)), (''testType'', JStr (sq_testType q)),
      (''options'', case sq_options q of None \<Rightarrow> JUndef | Some os \<Rightarrow> JObj os)]"

definition begin_test ::
    "(string \<Rightarrow> string \<Rightarrow> int) \<Rightarrow> int \<Rightarrow> start_request \<Rightarrow> live_device \<Rightarrow> test_state \<Rightarrow> start_answer \<times> test_state" where
  "begin_test cmp now q device st =
     (let configId = (if truthy (sq_configId q) then sq_configId q else ts_configId st);
          (testId, st1) = create_run now (sq_deviceId q) (sq_testType q) configId st;
          st2 = set_device_status (by_dbId (sq_deviceId q)) DevTesting st1
      in case getTestDefinition (sq_testType q) of
           Some testDef \<Rightarrow> run_commands cmp q device testId testDef st2
         | None \<Rightarrow> (TestStarted testId, sendCommand (dw_deviceId device) ''start_test'' (legacy_payload q device testId) st2))"

definition startTest :: "(string \<Rightarrow> string \<Rightarrow> int) \<Rightarrow> int \<Rightarrow> start_request \<Rightarrow> test_state \<Rightarrow> start_answer \<times> test_state" where
  "startTest cmp now q st =
     (case find_device (by_dbId (sq_deviceId q)) st of
        None \<Rightarrow> (DeviceNotFound, st)
      | Some device \<Rightarrow>
          if dw_status device \<noteq> DevOnline then (DeviceNotOnline, st)
          else
            (case active_run st (sq_deviceId q) of
               None \<Rightarrow> begin_test cmp now q device st
             | Some r \<Rightarrow>
                 if \<not> stale_run now r then (TestInProgress, st)
                 else
                   (let st1 = clear_stale now r (sq_deviceId q) st in
                    if active_run st1 (sq_deviceId q) \<noteq> None then (TestInProgress, st1)
                    else begin_test cmp now q device st1)))"

section \<open>Cancelling a test\<close>

datatype cancel_answer = TestCancelled | TestNotFound | InvalidState | CancelError

definition cancelTest :: "int \<Rightarrow> string \<Rightarrow> test_state \<Rightarrow> cancel_answer \<times> test_state" where
  "cancelTest now testId st =
     (case find_run st testId of
        None \<Rightarrow> (TestNotFound, st)
      | Some r \<Rightarrow>
          if \<not> is_active_run r then (InvalidState, st)
          else
            (case find_device (by_dbId (lr_deviceId r)) st of
               None \<Rightarrow> (CancelError, st)
             | Some device \<Rightarrow>
                 (TestCancelled,
                  set_device_status (by_dbId (lr_deviceId r)) DevOnline
                    (update_run testId (\<lambda>r. r\<lparr>lr_status := Cancelled, lr_completedAt := Some now\<rparr>)
                      (sendCommand (dw_deviceId device) ''cancel_test'' [(''testId'', JStr testId)] st)))))"

section \<open>Periodic jobs\<close>

definition cleanupOfflineDevices :: "int \<Rightarrow> test_state \<Rightarrow> test_state" where
  "cleanupOfflineDevices now st =
     st\<lparr>ts_devices := map (\<lambda>d. if dw_status d = DevOnline \<and>
            (case ld_lastSeen d of None \<Rightarrow> False | Some t \<Rightarrow> t < now - 5 * 60 * 1000)
          then d\<lparr>dw_status := DevOffline\<rparr> else d) (ts_devices st)\<rparr>"

definition retry_due :: "int \<Rightarrow> life_run \<Rightarrow> bool" where
  "retry_due now r \<longleftrightarrow> lr_status r = Queued \<and> lr_startedAt r < now - 2 * 60 * 1000 \<and> now - 15 * 60 * 1000 < lr_startedAt r"

definition retry_run :: "test_state \<Rightarrow> life_run \<Rightarrow> test_state" where
  "retry_run st r =
     (case find_device (by_dbId (lr_deviceId r)) st of
        None \<Rightarrow> st
      | Some device \<Rightarrow>
          if dw_status device \<noteq> DevOnline \<and> dw_status device \<noteq> DevTesting then st
          else
            (case getTestDefinition (pc_testType r) of
               None \<Rightarrow> st
             | Some testDef \<Rightarrow>
                 sendCommand (dw_deviceId device) ''execute'' (execute_payload (pc_id r) (df_commands testDef) []) st))"

definition retryQueuedTests :: "int \<Rightarrow> test_state \<Rightarrow> test_state" where
  "retryQueuedTests now st = foldl retry_run st (filter (retry_due now) (ts_runs st))"

definition overdue :: "int \<Rightarrow> life_run \<Rightarrow> bool" where
  "overdue now r \<longleftrightarrow> is_active_run r \<and> lr_startedAt r < now - 30 * 60 * 1000"

definition time_out :: "int \<Rightarrow> test_state \<Rightarrow> life_run \<Rightarrow> test_state" where
  "time_out now st r =
     set_device_status (by_dbId (lr_deviceId r)) DevOnline (update_run (pc_id r) (fail_run now ''Test timed out'') st)"

definition cleanupStaleTests :: "int \<Rightarrow> test_state \<Rightarrow> test_state" where
  "cleanupStaleTests now st = foldl (time_out now) st (filter (overdue now) (ts_runs st))"

text \<open>The run rows that the daily cleanup deletes; the services they found go with them, their vulnerabilities
  stay without a run.\<close>

definition expired_run :: "int \<Rightarrow> life_run \<Rightarrow> bool" where
  "expired_run now r \<longleftrightarrow> \<not> is_active_run r \<and> lr_startedAt r < now - 30 * 24 * 60 * 60 * 1000"

definition cleanupOldRuns :: "int \<Rightarrow> test_state \<Rightarrow> test_state" where
  "cleanupOldRuns now st =
     (let gone = (\<lambda>i. \<exists>r \<in> set (ts_runs st). pc_id r = i \<and> expired_run now r) in
      st\<lparr>ts_runs := filter (\<lambda>r. \<not> expired_run now r) (ts_runs st),
         ts_store := (ts_store st)
           \<lparr>pd_services := filter (\<lambda>s. \<not> gone (sr_testRunId s)) (pd_services (ts_store st)),
            pd_vulns := map (\<lambda>v. case vl_testRunId v of
                Some i \<Rightarrow> if gone i then v\<lparr>vl_testRunId := None\<rparr> else v
              | None \<Rightarrow> v) (pd_vulns (ts_store st))\<rparr>\<rparr>)"

end
