(* ===== verification/Test_Chunks.thy ===== *)
theory Test_Chunks
  imports Test_Routes
begin

text \<open>
  Results in chunks (\<open>mqtt/index.ts\<close>): however the chunks of a text arrive, in any order and some of them several
  times, the last one missing hands over the value whose text was cut; and what happens to a run whose chunks
  do not make a text that can be read.
\<close>

section \<open>Collecting\<close>

text \<open>The message that carries chunk \<open>i\<close> of \<open>n\<close>.\<close>

definition chunk_message :: "string \<Rightarrow> bool \<Rightarrow> rat \<Rightarrow> nat \<Rightarrow> nat \<Rightarrow> string \<Rightarrow> (string \<times> json) list" where
  "chunk_message testId success duration i n payload =
     [(''testId'', JStr testId), (''chunkIndex'', JNum (of_nat i)), (''chunkCount'', JNum (of_nat n)),
      (''payload'', JStr payload), (''success'', JBool success), (''duration'', JNum duration)]"

definition complete_buffer :: "string \<Rightarrow> bool \<Rightarrow> rat \<Rightarrow> string list \<Rightarrow> nat set \<Rightarrow> chunk_buffer \<Rightarrow> bool" where
  "complete_buffer deviceId success duration ps is b \<longleftrightarrow>
     cb_deviceId b = deviceId \<and> cb_chunkCount b = of_nat (length ps) \<and> cb_success b = Some success \<and> cb_error b = None \<and>
     cb_duration b = Some duration \<and>
     (\<forall>i. om_get (cb_chunks b) (of_nat i) = (if i \<in> is then Some (ps ! i) else None)) \<and>
     distinct (cb_receivedChunks b) \<and> set (cb_receivedChunks b) = of_nat ` is"

lemma message_fields [simp]:
  "get_str (chunk_message t s d i n p) ''testId'' = Some t" "get_num (chunk_message t s d i n p) ''chunkIndex'' = Some (of_nat i)"
  "get_num (chunk_message t s d i n p) ''chunkCount'' = Some (of_nat n)" "get_str (chunk_message t s d i n p) ''payload'' = Some p"
  "get_bool (chunk_message t s d i n p) ''success'' = Some s" "get_num (chunk_message t s d i n p) ''duration'' = Some d"
  "get_str (chunk_message t s d i n p) ''error'' = None"
  by (simp_all add: chunk_message_def get_str_def get_num_def get_bool_def parse_str_def field_def om_get_def dflt_def)

lemma received_count:
  assumes "complete_buffer dev s d ps is b" and "finite is"
  shows "length (cb_receivedChunks b) = card is"
proof -
  have "card (of_nat ` is :: rat set) = card is"
    by (rule card_image) (simp add: inj_on_def)
  then show ?thesis
    using assms(1) distinct_card [of "cb_receivedChunks b"] by (simp add: complete_buffer_def)
qed

lemma add_chunk_complete:
  assumes "complete_buffer dev s d ps is b \<or> (is = {} \<and> b = new_buffer now0 dev (of_nat (length ps)))"
  shows "complete_buffer dev s d ps (insert i is)
    (add_chunk now (of_nat i) (ps ! i) (chunk_message t s d i n (ps ! i)) b)"
  using assms
  by (auto simp: complete_buffer_def add_chunk_def new_buffer_def om_get_set nullish_def os_add_def)

lemma receive_step:
  assumes b: "om_get (ts_buffers st) t = None \<and> is = {} \<or>
      (\<exists>b. om_get (ts_buffers st) t = Some b \<and> complete_buffer dev s d ps is b)"
    and size: "of_nat (length ps) \<le> MAX_ARRAY_LENGTH" and t: "t \<noteq> []" and i: "i < length ps"
  shows "\<exists>b. complete_buffer dev s d ps (insert i is) b \<and>
    handleChunkedTestResults typed clock now dev (chunk_message t s d i (length ps) (ps ! i)) st =
    (let st1 = st\<lparr>ts_buffers := om_set t b (ts_buffers st)\<rparr> in
     if of_nat (length (cb_receivedChunks b)) \<noteq> cb_chunkCount b then st1
     else (let st2 = drop_buffer t st1 in
           case json_parse (joined_chunks b) of
             Some parsed \<Rightarrow> handleTestResults typed clock now dev (assembled_result t b parsed) st2
           | None \<Rightarrow> assembly_failed now t b st2))"
proof -
  let ?n = "of_nat (length ps) :: rat" and ?m = "chunk_message t s d i (length ps) (ps ! i)"
  let ?fresh = "case om_get (ts_buffers st) t of None \<Rightarrow> True | Some b \<Rightarrow> cb_chunkCount b \<noteq> ?n"
  let ?b0 = "if ?fresh then new_buffer now dev ?n else the (om_get (ts_buffers st) t)"
  have old: "complete_buffer dev s d ps is ?b0 \<or> (is = {} \<and> ?b0 = new_buffer now dev ?n)"
    using b by (auto simp: complete_buffer_def)
  have "handleChunkedTestResults typed clock now dev ?m st =
      receive_chunk typed clock now dev t (of_nat i) ?n (ps ! i) ?m st"
    using t i by (auto simp: handleChunkedTestResults_def simp del: of_nat_le_iff of_nat_less_iff)
  then show ?thesis
    using size add_chunk_complete [OF old, where i = i and now = now and t = t and n = "length ps"]
    by (intro exI [of _ "add_chunk now (of_nat i) (ps ! i) ?m ?b0"] conjI) (auto simp: receive_chunk_def Let_def)
qed

lemma joined_complete: "complete_buffer dev s d ps {..<length ps} b \<Longrightarrow> joined_chunks b = concat ps"
proof -
  assume "complete_buffer dev s d ps {..<length ps} b"
  then have "map (\<lambda>i. dflt [] (om_get (cb_chunks b) (of_nat i))) [0..<nat \<lceil>cb_chunkCount b\<rceil>] = map (\<lambda>i. ps ! i) [0..<length ps]"
    by (auto simp: complete_buffer_def dflt_def)
  then show ?thesis
    by (simp add: joined_chunks_def map_nth)
qed

lemma om_set_fresh: "om_get m k = None \<Longrightarrow> om_set k v m = m @ [(k, v)]"
  by (induction m) (auto simp: om_get_def split: if_splits)

lemma om_set_last: "om_get m k = None \<Longrightarrow> om_set k v (m @ [(k, w)]) = m @ [(k, v)]"
  by (induction m) (auto simp: om_get_def split: if_splits)

lemma om_get_snoc: "om_get m k = None \<Longrightarrow> om_get (m @ [(k, w)]) k = Some w"
  by (simp add: om_get_def map_add_def)

lemma filter_fresh: "om_get m k = None \<Longrightarrow> filter (\<lambda>b. fst b \<noteq> k) m = m"
  by (auto simp: om_get_def map_of_eq_None_iff intro!: filter_True)

text \<open>The chunks that have arrived, as times and indices.\<close>

definition deliver ::
    "((string \<times> json) list \<Rightarrow> run_results) \<Rightarrow> (nat \<Rightarrow> int) \<Rightarrow> string \<Rightarrow> string \<Rightarrow> bool \<Rightarrow> rat \<Rightarrow> string list \<Rightarrow>
     (int \<times> nat) list \<Rightarrow> test_state \<Rightarrow> test_state" where
  "deliver typed clock dev t s d ps arrivals st =
     foldl (\<lambda>st a. handleChunkedTestResults typed clock (fst a) dev (chunk_message t s d (snd a) (length ps) (ps ! snd a)) st)
       st arrivals"

definition collecting :: "string \<Rightarrow> string \<Rightarrow> bool \<Rightarrow> rat \<Rightarrow> string list \<Rightarrow> nat set \<Rightarrow> test_state \<Rightarrow> test_state \<Rightarrow> bool" where
  "collecting dev t s d ps is st st' \<longleftrightarrow>
     (is = {} \<and> st' = st) \<or>
     (\<exists>b. complete_buffer dev s d ps is b \<and> st' = st\<lparr>ts_buffers := ts_buffers st @ [(t, b)]\<rparr>)"

lemma collecting_step:
  assumes c: "collecting dev t s d ps is st st'" and new: "om_get (ts_buffers st) t = None"
    and size: "of_nat (length ps) \<le> MAX_ARRAY_LENGTH" and t: "t \<noteq> []" and i: "i < length ps" and "is \<subseteq> {..<length ps}"
  shows "\<exists>b. complete_buffer dev s d ps (insert i is) b \<and>
    handleChunkedTestResults typed clock now dev (chunk_message t s d i (length ps) (ps ! i)) st' =
    (if insert i is \<noteq> {..<length ps} then st\<lparr>ts_buffers := ts_buffers st @ [(t, b)]\<rparr>
     else (case json_parse (concat ps) of
             Some parsed \<Rightarrow> handleTestResults typed clock now dev (assembled_result t b parsed) st
           | None \<Rightarrow> assembly_failed now t b st))"
proof -
  let ?is = "insert i is"
  have "om_get (ts_buffers st') t = None \<and> is = {} \<or>
      (\<exists>b. om_get (ts_buffers st') t = Some b \<and> complete_buffer dev s d ps is b)"
    using c new by (auto simp: collecting_def om_get_snoc)
  from receive_step [OF this size t i, of typed clock now]
  obtain b where b: "complete_buffer dev s d ps ?is b" and
    run: "handleChunkedTestResults typed clock now dev (chunk_message t s d i (length ps) (ps ! i)) st' =
      (let st1 = st'\<lparr>ts_buffers := om_set t b (ts_buffers st')\<rparr> in
       if of_nat (length (cb_receivedChunks b)) \<noteq> cb_chunkCount b then st1
       else (let st2 = drop_buffer t st1 in
             case json_parse (joined_chunks b) of
               Some parsed \<Rightarrow> handleTestResults typed clock now dev (assembled_result t b parsed) st2
             | None \<Rightarrow> assembly_failed now t b st2))"
    by blast
  have sub: "?is \<subseteq> {..<length ps}" and fin: "finite ?is"
    using assms(6) i finite_subset [of "is" "{..<length ps}"] by auto
  have buffers: "st'\<lparr>ts_buffers := om_set t b (ts_buffers st')\<rparr> = st\<lparr>ts_buffers := ts_buffers st @ [(t, b)]\<rparr>"
    using c new by (auto simp: collecting_def om_set_fresh om_set_last)
  have "card ?is = length ps \<longleftrightarrow> ?is = {..<length ps}"
    using card_subset_eq [OF finite_lessThan sub] by (metis card_lessThan)
  then have full: "of_nat (length (cb_receivedChunks b)) = cb_chunkCount b \<longleftrightarrow> ?is = {..<length ps}"
    using received_count [OF b fin] b by (simp add: complete_buffer_def)
  have drop: "drop_buffer t (st\<lparr>ts_buffers := ts_buffers st @ [(t, b)]\<rparr>) = st"
    using filter_fresh [OF new] by (simp add: drop_buffer_def)
  show ?thesis
  proof (cases "?is = {..<length ps}")
    case True
    then have "joined_chunks b = concat ps"
      using b joined_complete [of dev s d ps b] by simp
    then show ?thesis
      using True b run unfolding Let_def buffers full drop by (intro exI [of _ b]) simp
  next
    case False
    then show ?thesis
      using b run unfolding Let_def buffers full by (intro exI [of _ b]) simp
  qed
qed

lemma deliver_collecting:
  assumes "om_get (ts_buffers st) t = None" and "of_nat (length ps) \<le> MAX_ARRAY_LENGTH" and "t \<noteq> []"
  shows "snd ` set as \<subset> {..<length ps} \<Longrightarrow>
    collecting dev t s d ps (snd ` set as) st (deliver typed clock dev t s d ps as st)"
proof (induction as rule: rev_induct)
  case Nil
  then show ?case by (simp add: collecting_def deliver_def)
next
  case (snoc a as)
  have part: "snd ` set as \<subset> {..<length ps}" and i: "snd a < length ps"
    using snoc.prems by auto
  have more: "insert (snd a) (snd ` set as) \<noteq> {..<length ps}"
    using snoc.prems by auto
  from collecting_step [OF snoc.IH [OF part] assms i, of typed clock "fst a"] part
  obtain b where "complete_buffer dev s d ps (insert (snd a) (snd ` set as)) b"
    "deliver typed clock dev t s d ps (as @ [a]) st = st\<lparr>ts_buffers := ts_buffers st @ [(t, b)]\<rparr>"
    unfolding deliver_def using more by auto
  then show ?case by (auto simp: collecting_def)
qed

section \<open>Delivery\<close>

definition chunked_transport :: "nat \<Rightarrow> (string \<times> json) list" where
  "chunked_transport n =
     [(''chunked'', JBool True), (''chunkCount'', JNum (of_nat n)), (''receivedChunks'', JNum (of_nat n))]"

text \<open>What the handler of results sees, as if the payload had come in one message.\<close>

definition delivered_result :: "string \<Rightarrow> bool \<Rightarrow> rat \<Rightarrow> nat \<Rightarrow> (string \<times> json) list \<Rightarrow> result_message" where
  "delivered_result t s d n kvs =
     \<lparr>rm_testId = t, rm_success = s,
      rm_results = JObj (spread kvs
        [(''transport'', JObj (spread (asJsonObject (field kvs ''transport'')) (chunked_transport n)))]),
      rm_error = None, rm_duration = d, rm_transport = Some (chunked_transport n)\<rparr>"

lemma complete_transport:
  assumes "complete_buffer dev s d ps {..<length ps} b"
  shows "chunk_transport b = chunked_transport (length ps)"
    and "assembled_result t b (JObj kvs) = delivered_result t s d (length ps) kvs"
proof -
  show "chunk_transport b = chunked_transport (length ps)"
    using assms received_count [OF assms]
    by (simp add: chunk_transport_def chunked_transport_def complete_buffer_def)
  with assms show "assembled_result t b (JObj kvs) = delivered_result t s d (length ps) kvs"
    by (simp add: assembled_result_def delivered_result_def Let_def complete_buffer_def dflt_def)
qed

text \<open>The last chunk that was missing ends the collection.\<close>

lemma deliver_all:
  assumes new: "om_get (ts_buffers st) t = None" and size: "of_nat (length ps) \<le> MAX_ARRAY_LENGTH" and t: "t \<noteq> []"
    and all: "insert i (snd ` set as) = {..<length ps}" and last: "i \<notin> snd ` set as"
  obtains b where "complete_buffer dev s d ps {..<length ps} b"
    and "deliver typed clock dev t s d ps (as @ [(now, i)]) st =
      (case json_parse (concat ps) of
         Some parsed \<Rightarrow> handleTestResults typed clock now dev (assembled_result t b parsed) st
       | None \<Rightarrow> assembly_failed now t b st)"
proof -
  have part: "snd ` set as \<subset> {..<length ps}" and i: "i < length ps"
    using all last by auto
  have sub: "snd ` set as \<subseteq> {..<length ps}"
    using part by auto
  have before: "collecting dev t s d ps (snd ` set as) st (deliver typed clock dev t s d ps as st)"
    by (rule deliver_collecting [OF new size t part])
  from collecting_step [OF before new size t i sub, where typed = typed and clock = clock and now = now]
  obtain b where "complete_buffer dev s d ps {..<length ps} b"
    and "deliver typed clock dev t s d ps (as @ [(now, i)]) st =
      (case json_parse (concat ps) of
         Some parsed \<Rightarrow> handleTestResults typed clock now dev (assembled_result t b parsed) st
       | None \<Rightarrow> assembly_failed now t b st)"
    unfolding deliver_def all by auto
  then show thesis by (rule that)
qed

text \<open>C18: results in chunks arrive whole.  When the text of an object is cut into pieces and the pieces are
  delivered in any order, any of them several times, then the message with the last piece that was missing has
  the effect of the object arriving in one message (with the transport record of the chunks).  Until then no
  message changes anything of the server (runs, vulnerabilities, devices, timers, messages sent, buffers of
  other tests) but the buffer of this test.\<close>
theorem chunks_reassemble:
  assumes "plain_json (JObj kvs)" and "concat ps = js_stringify (JObj kvs)"
    and "om_get (ts_buffers st) t = None" and "of_nat (length ps) \<le> MAX_ARRAY_LENGTH" and "t \<noteq> []"
    and "insert i (snd ` set as) = {..<length ps}" and "i \<notin> snd ` set as"
  shows "deliver typed clock dev t s d ps (as @ [(now, i)]) st =
      handleTestResults typed clock now dev (delivered_result t s d (length ps) kvs) st \<and>
    (\<exists>bs. fst ` set bs \<subseteq> {t} \<and> deliver typed clock dev t s d ps as st = st\<lparr>ts_buffers := ts_buffers st @ bs\<rparr>)"
proof
  obtain b where "complete_buffer dev s d ps {..<length ps} b"
    and "deliver typed clock dev t s d ps (as @ [(now, i)]) st =
      (case json_parse (concat ps) of
         Some parsed \<Rightarrow> handleTestResults typed clock now dev (assembled_result t b parsed) st
       | None \<Rightarrow> assembly_failed now t b st)"
    by (rule deliver_all [OF assms(3-7)])
  with json_parse_stringify [OF assms(1)] complete_transport(2) assms(2)
  show "deliver typed clock dev t s d ps (as @ [(now, i)]) st =
      handleTestResults typed clock now dev (delivered_result t s d (length ps) kvs) st"
    by simp
  have "snd ` set as \<subset> {..<length ps}"
    using assms(6,7) by auto
  from deliver_collecting [OF assms(3-5) this, where typed = typed and clock = clock and dev = dev and s = s and d = d]
  have "deliver typed clock dev t s d ps as st = st\<lparr>ts_buffers := ts_buffers st @ []\<rparr> \<or>
      (\<exists>b. deliver typed clock dev t s d ps as st = st\<lparr>ts_buffers := ts_buffers st @ [(t, b)]\<rparr>)"
    by (auto simp: collecting_def)
  then show "\<exists>bs. fst ` set bs \<subseteq> {t} \<and> deliver typed clock dev t s d ps as st = st\<lparr>ts_buffers := ts_buffers st @ bs\<rparr>"
  proof (elim disjE exE)
    assume "deliver typed clock dev t s d ps as st = st\<lparr>ts_buffers := ts_buffers st @ []\<rparr>"
    then show ?thesis by (intro exI [of _ "[]"]) simp
  next
    fix b assume "deliver typed clock dev t s d ps as st = st\<lparr>ts_buffers := ts_buffers st @ [(t, b)]\<rparr>"
    then show ?thesis by (intro exI [of _ "[(t, b)]"]) simp
  qed
qed

text \<open>What the results of a run become when its pieces cannot be read.\<close>

definition unreadable_note :: "nat \<Rightarrow> (string \<times> json) list" where
  "unreadable_note n = chunked_transport n @ [(''truncated'', JBool True), (''incomplete'', JBool True),
     (''reason'', JStr ''Received all chunks but JSON parsing failed during assembly.'')]"

definition written_fields :: "string list" where
  "written_fields =
     [''metadata'', ''commandResults'', ''results'', ''evidence'', ''verdicts'', ''transport'', ''schemaVersion'']"

text \<open>The parts of the metadata that are copied next to it.\<close>

definition run_copies :: "string list" where
  "run_copies = [''topologyMetadata'', ''deviceToDeviceMetadata'', ''honeypotExclusions'']"

lemma no_results_extracts:
  "extractCommandResults (asJsonObject no_results) = []" "extractEvidence (asJsonObject no_results) = []"
  "extractVerdicts (asJsonObject no_results) = []" "extractLegacyMetadata (asJsonObject no_results) = []"
  by (simp_all add: no_results_def extractCommandResults_def extractEvidence_def extractVerdicts_def asArray_def field_def
      om_get_def dflt_def extractLegacyMetadata_def legacyKeys_def set_defined_def)

lemma merge_empty: "mergeJson (mergeJson (JObj a) (JObj b)) (mergeJson (JObj []) (JObj [])) = mergeJson (JObj a) (JObj b)"
  by (simp add: mergeJson_JObj)

lemma no_results_kept:
  fixes j :: json and tp :: "(string \<times> json) list"
  defines "cur \<equiv> asJsonObject j" and "res \<equiv> buildStructuredResultsJson j no_results (Some tp)"
  defines "md \<equiv> mergeJson (JObj (asJsonObject (field cur ''metadata''))) (JObj (extractLegacyMetadata cur))"
  shows "field res ''commandResults'' = JArr (extractCommandResults cur)" "field res ''results'' = JArr (extractCommandResults cur)"
    and "field res ''evidence'' = JArr (extractEvidence cur)" "field res ''verdicts'' = JArr (extractVerdicts cur)"
    and "field res ''metadata'' = md" "field res ''schemaVersion'' = schema_version cur (asJsonObject no_results)"
    and "k \<in> set run_copies \<Longrightarrow>
      field res k = (if field (obj_fields md) k \<noteq> JUndef then field (obj_fields md) k else field cur k)"
    and "k \<notin> set run_copies \<Longrightarrow> k \<notin> set written_fields \<Longrightarrow> field res k = field cur k"
proof -
  have inc: "field (asJsonObject no_results) k = JUndef" if "k \<noteq> ''results''" for k
    using that by (simp add: no_results_def field_def om_get_def dflt_def)
  note f = structured_fields [of j no_results "Some tp", folded cur_def res_def]
  show "field res ''commandResults'' = JArr (extractCommandResults cur)" "field res ''results'' = JArr (extractCommandResults cur)"
      "field res ''evidence'' = JArr (extractEvidence cur)" "field res ''verdicts'' = JArr (extractVerdicts cur)"
      "field res ''schemaVersion'' = schema_version cur (asJsonObject no_results)"
    using f by (simp_all add: prefer_new_def no_results_extracts)
  have md: "merged_metadata cur (asJsonObject no_results) = md"
    using merge_empty by (simp add: md_def merged_metadata_def no_results_extracts inc asJsonObject_def [of JUndef] isRecord_def)
  then show "field res ''metadata'' = md" using f(1) by simp
  have root: "field (obj_fields (mergeJson (JObj cur) (JObj (asJsonObject no_results)))) k = field cur k" if "k \<noteq> ''results''" for k
    using that by (simp add: mergeJson_JObj no_results_def merge_entries_steps field_om_set)
  have "\<exists>m. res = set_defined ''honeypotExclusions'' (field (obj_fields md) ''honeypotExclusions'')
        (set_defined ''deviceToDeviceMetadata'' (field (obj_fields md) ''deviceToDeviceMetadata'')
          (set_defined ''topologyMetadata'' (field (obj_fields md) ''topologyMetadata'') m)) \<and>
      (\<forall>k. k \<notin> set written_fields \<longrightarrow> field m k = field cur k)"
    unfolding res_def buildStructuredResultsJson_def Let_def cur_def [symmetric] md
    by (intro exI conjI) (rule refl, simp add: written_fields_def field_om_set root)
  then obtain m where m: "res = set_defined ''honeypotExclusions'' (field (obj_fields md) ''honeypotExclusions'')
        (set_defined ''deviceToDeviceMetadata'' (field (obj_fields md) ''deviceToDeviceMetadata'')
          (set_defined ''topologyMetadata'' (field (obj_fields md) ''topologyMetadata'') m))"
      "\<And>k. k \<notin> set written_fields \<Longrightarrow> field m k = field cur k" by blast
  have "k \<notin> set written_fields" if "k \<in> set run_copies" using that by (auto simp: run_copies_def written_fields_def)
  then show "field res k = (if field (obj_fields md) k \<noteq> JUndef then field (obj_fields md) k else field cur k)" if "k \<in> set run_copies"
    using that m(2) unfolding m(1) by (auto simp: run_copies_def field_set_defined)
  show "field res k = field cur k" if "k \<notin> set run_copies" "k \<notin> set written_fields"
    using that m(2) unfolding m(1) by (simp add: run_copies_def field_set_defined)
qed

lemma no_results_transport:
  "field (buildStructuredResultsJson j no_results (Some (unreadable_note n))) ''transport'' =
    mergeJson (JObj (asJsonObject (field (asJsonObject j) ''transport''))) (JObj (unreadable_note n))"
proof -
  have "merge_entries [] (unreadable_note n) = unreadable_note n"
    by (simp add: unreadable_note_def chunked_transport_def merge_entries_steps mergeJson_leaf isRecord_def)
  moreover have "field (asJsonObject no_results) ''transport'' = JUndef"
    by (simp add: no_results_def field_def om_get_def dflt_def)
  ultimately show ?thesis
    by (simp add: structured_fields merged_transport_def mergeJson_JObj asJsonObject_def [of JUndef] isRecord_def)
qed

text \<open>What a run stores, with a failed delivery of \<open>n\<close> pieces noted: every list of results, the metadata (with
  what older runs keep outside it), and every field the server does not write itself.\<close>

definition stored_with_note :: "(string \<times> json) list \<Rightarrow> nat \<Rightarrow> (string \<times> json) list \<Rightarrow> bool" where
  "stored_with_note cur n res \<longleftrightarrow>
     (let md = mergeJson (JObj (asJsonObject (field cur ''metadata''))) (JObj (extractLegacyMetadata cur)) in
      field res ''commandResults'' = JArr (extractCommandResults cur) \<and> field res ''results'' = JArr (extractCommandResults cur) \<and>
      field res ''evidence'' = JArr (extractEvidence cur) \<and> field res ''verdicts'' = JArr (extractVerdicts cur) \<and>
      field res ''metadata'' = md \<and>
      field res ''schemaVersion'' = (case field cur ''schemaVersion'' of JNum q \<Rightarrow> JNum q | _ \<Rightarrow> JNum 2) \<and>
      field res ''transport'' = mergeJson (JObj (asJsonObject (field cur ''transport''))) (JObj (unreadable_note n)) \<and>
      (\<forall>k \<in> set run_copies.
         field res k = (if field (obj_fields md) k \<noteq> JUndef then field (obj_fields md) k else field cur k)) \<and>
      (\<forall>k. k \<notin> set run_copies \<and> k \<notin> set written_fields \<longrightarrow> field res k = field cur k))"

lemma no_results_stored:
  "stored_with_note (asJsonObject j) n (buildStructuredResultsJson j no_results (Some (unreadable_note n)))"
proof -
  have "field (asJsonObject no_results) ''schemaVersion'' = JUndef"
    by (simp add: no_results_def field_def om_get_def dflt_def)
  then show ?thesis
    unfolding stored_with_note_def Let_def
    by (intro conjI ballI allI impI; (elim conjE)?) (simp_all add: no_results_kept no_results_transport schema_version_def)
qed

lemma assembly_failed_effect:
  assumes "complete_buffer dev s d ps {..<length ps} b" and "find_run st t = Some r" and "lr_status r = Running"
  shows "assembly_failed now t b st =
    update_run t (\<lambda>r'. r'\<lparr>lr_status := TestFailed, lr_progress := 100, lr_completedAt := Some now,
        pc_resultsJson := JObj (buildStructuredResultsJson (pc_resultsJson r) no_results (Some (unreadable_note (length ps)))),
        lr_errorMessage := Some ''Failed to parse chunked test results''\<rparr>) st"
  using assms(2,3) by (simp add: assembly_failed_def Let_def complete_transport(1) [OF assms(1)] unreadable_note_def)

text \<open>C40: pieces that do not make a text that can be parsed end the run.  If the run is still running when
  the last missing piece arrives, it becomes failed, at progress 100, with a message and a completion time; the
  results it stores keep the lists of commands, evidence and verdicts, the metadata and all other fields, and the
  transport record notes the failure.  Nothing else changes: no other run or field of the run, no vulnerability, device,
  timer, message or buffer.  If the run is not running, nothing changes at all.\<close>
theorem unreadable_chunks_fail_run:
  assumes "json_parse (concat ps) = None"
    and "om_get (ts_buffers st) t = None" and "of_nat (length ps) \<le> MAX_ARRAY_LENGTH" and "t \<noteq> []"
    and "insert i (snd ` set as) = {..<length ps}" and "i \<notin> snd ` set as" and "find_run st t = Some r"
    and "st' = deliver typed clock dev t s d ps (as @ [(now, i)]) st"
  shows "(if lr_status r = Running
          then (\<exists>res. stored_with_note (asJsonObject (pc_resultsJson r)) (length ps) res \<and>
                 st' = update_run t (\<lambda>r'. r'\<lparr>lr_status := TestFailed, lr_progress := 100, lr_completedAt := Some now,
                   pc_resultsJson := JObj res, lr_errorMessage := Some ''Failed to parse chunked test results''\<rparr>) st)
          else st' = st)"
proof -
  obtain b where b: "complete_buffer dev s d ps {..<length ps} b"
    and "deliver typed clock dev t s d ps (as @ [(now, i)]) st =
      (case json_parse (concat ps) of
         Some parsed \<Rightarrow> handleTestResults typed clock now dev (assembled_result t b parsed) st
       | None \<Rightarrow> assembly_failed now t b st)"
    by (rule deliver_all [OF assms(2-6)])
  with assms(1,8) have st': "st' = assembly_failed now t b st" by simp
  show ?thesis
  proof (cases "lr_status r = Running")
    case True
    then show ?thesis
      using st' assembly_failed_effect [OF b assms(7)] no_results_stored [of "pc_resultsJson r" "length ps"] by auto
  next
    case False
    then show ?thesis using assms(7) st' by (simp add: assembly_failed_def)
  qed
qed

section \<open>Examples\<close>

text \<open>A server with one device that runs one test.\<close>

definition no_scan :: run_results where
  "no_scan = \<lparr>rn_scan = \<lparr>rs_hosts = [], rs_tests = [], rs_services = []\<rparr>, rn_commands = [], rn_portScan = None,
     rn_vlanTest = None, rn_serviceDiscovery = None\<rparr>"

definition demo_device :: "device_status \<Rightarrow> live_device" where
  "demo_device s =
     \<lparr>dw_id = ''d1'', dw_deviceId = ''esp1'', dw_name = ''Probe'', dw_ipAddress = Some ''192.168.10.7'', dw_status = s,
      ld_macAddress = None, ld_firmwareVersion = None, ld_lastSeen = Some 0\<rparr>"

definition demo_life :: "test_status \<Rightarrow> life_run" where
  "demo_life s = (queued_run 0 (new_run_id 0) ''d1'' ''connectivity'' None)\<lparr>lr_status := s\<rparr>"

definition demo_state :: "device_status \<Rightarrow> life_run list \<Rightarrow> test_state" where
  "demo_state s runs =
     \<lparr>ts_runs = runs, ts_devices = [demo_device s],
      ts_store = \<lparr>pd_vulns = [], pd_nextId = 0, pd_services = [], pd_runs = []\<rparr>, ts_buffers = [], ts_timers = [],
      ts_sent = [], ts_connected = True, ts_local = None, ts_profile = None, ts_configs = [], ts_configId = None,
      ts_nextRun = length runs\<rparr>"

definition demo_pieces :: "string list" where
  "demo_pieces = [''{\"results\"'', '':[]}'']"

theorem chunks_reassemble_witness:
  "deliver (\<lambda>_. no_scan) int ''esp1'' ''c0'' True 1 demo_pieces ([(5, 1), (6, 1)] @ [(7, 0)])
      (demo_state DevTesting [demo_life Running]) =
    handleTestResults (\<lambda>_. no_scan) int 7 ''esp1'' (delivered_result ''c0'' True 1 (length demo_pieces) [(''results'', JArr [])])
      (demo_state DevTesting [demo_life Running])"
proof (rule chunks_reassemble [THEN conjunct1])
  show "plain_json (JObj [(''results'', JArr [])])" "concat demo_pieces = js_stringify (JObj [(''results'', JArr [])])"
    by code_simp+
qed (auto simp: demo_state_def MAX_ARRAY_LENGTH_def demo_pieces_def)

theorem unreadable_chunks_fail_run_witness:
  "\<exists>res. stored_with_note (asJsonObject (pc_resultsJson (demo_life Running))) 2 res \<and>
     deliver (\<lambda>_. no_scan) int ''esp1'' ''c0'' True 1 [''{\"results\"'', '':[}''] ([(5, 1)] @ [(7, 0)])
       (demo_state DevTesting [demo_life Running]) =
     update_run ''c0'' (\<lambda>r'. r'\<lparr>lr_status := TestFailed, lr_progress := 100, lr_completedAt := Some 7,
         pc_resultsJson := JObj res, lr_errorMessage := Some ''Failed to parse chunked test results''\<rparr>)
       (demo_state DevTesting [demo_life Running])"
proof -
  let ?ps = "[''{\"results\"'', '':[}'']" and ?st = "demo_state DevTesting [demo_life Running]"
  have parts: "json_parse (concat ?ps) = None" "find_run ?st ''c0'' = Some (demo_life Running)" by code_simp+
  have free: "om_get (ts_buffers ?st) ''c0'' = None" "of_nat (length ?ps) \<le> MAX_ARRAY_LENGTH" "''c0'' \<noteq> []"
      "insert 0 (snd ` set [(5 :: int, 1)]) = {..<length ?ps}" "0 \<notin> snd ` set [(5 :: int, 1 :: nat)]"
    by (auto simp: demo_state_def MAX_ARRAY_LENGTH_def)
  have "lr_status (demo_life Running) = Running" "length ?ps = 2" by (simp_all add: demo_life_def)
  then show ?thesis
    using unreadable_chunks_fail_run [OF parts(1) free parts(2) refl, of "\<lambda>_. no_scan" int "''esp1''" True 1 7]
    by (simp only: if_True simp_thms)
qed

end
