(* ===== verification/Test_Lifecycle.thy ===== *)
theory Test_Lifecycle
  imports Test_Chunks
begin

text \<open>
  The life of a test run: every handler, route and job that the previous theories model is a step of one relation
  on the state of the server, and the properties of the reachable states are proved by induction on it.  The last
  sections follow single runs: how a run ends, what a late message does to it, and how the plan of a topology test
  reaches the vulnerabilities that its answers give.
\<close>

section \<open>Invariants of a step relation\<close>

locale step_invariant =
  fixes init :: "'s \<Rightarrow> bool"
    and step :: "'s \<Rightarrow> 's \<Rightarrow> bool"
    and inv :: "'s \<Rightarrow> bool"
  assumes init_inv: "init s \<Longrightarrow> inv s"
    and step_inv: "inv s \<Longrightarrow> step s s' \<Longrightarrow> inv s'"
begin

lemma steps_inv: "step\<^sup>*\<^sup>* s s' \<Longrightarrow> inv s \<Longrightarrow> inv s'"
  by (induction rule: rtranclp_induct) (auto intro: step_inv)

lemma reachable_inv: "init s \<Longrightarrow> step\<^sup>*\<^sup>* s s' \<Longrightarrow> inv s'"
  by (blast intro: init_inv steps_inv)

end

section \<open>Steps of the server\<close>

text \<open>What the steps take from outside: how results are typed, the clock of stored rows, the collation of
  strings, which JSON values are stored, and the host's network.\<close>

record life_env =
  le_typed :: "(string \<times> json) list \<Rightarrow> run_results"
  le_clock :: "nat \<Rightarrow> int"
  le_collate :: "string \<Rightarrow> string \<Rightarrow> int"
  le_stored :: "json \<Rightarrow> bool"
  le_net :: host_net

definition fresh_row :: "string \<Rightarrow> test_state \<Rightarrow> bool" where
  "fresh_row i st \<longleftrightarrow> i \<notin> dw_id ` set (ts_devices st)"

definition expire_timer :: "int \<times> timer \<Rightarrow> test_state \<Rightarrow> test_state" where
  "expire_timer t st = st\<lparr>ts_timers := remove1 t (ts_timers st)\<rparr>"

definition fire_timer :: "life_env \<Rightarrow> int \<Rightarrow> timer \<Rightarrow> test_state \<Rightarrow> test_state" where
  "fire_timer env now t st =
     (case t of
        ResultsTimeout testId deviceId \<Rightarrow> results_timeout now testId deviceId st
      | AutoValidation deviceId dbDeviceId ip \<Rightarrow> runAutoValidation (le_collate env) (le_stored env) now deviceId dbDeviceId ip st
      | FollowUp dbDeviceId deviceId \<Rightarrow> snd (scheduleTest (le_collate env) now dbDeviceId deviceId ''device_to_device'' st))"

inductive life_step :: "life_env \<Rightarrow> test_state \<Rightarrow> test_state \<Rightarrow> bool" for env where
  status: "fresh_row newId st \<Longrightarrow> life_step env st (handleDeviceStatus now newId deviceId message st)"
| progress: "life_step env st (handleTestProgress now deviceId p st)"
| results: "life_step env st (handleTestResults (le_typed env) (le_clock env) now deviceId result st)"
| chunk: "life_step env st (handleChunkedTestResults (le_typed env) (le_clock env) now deviceId message st)"
| timer: "t \<in> set (ts_timers st) \<Longrightarrow> fst t \<le> now \<Longrightarrow> life_step env st (fire_timer env now (snd t) (expire_timer t st))"
| start: "life_step env st (snd (startTest (le_collate env) now q st))"
| cancel: "life_step env st (snd (cancelTest now testId st))"
| validate: "life_step env st (runScheduledVlanValidation (le_collate env) (le_stored env) now st)"
| offline: "life_step env st (cleanupOfflineDevices now st)"
| retry: "life_step env st (retryQueuedTests now st)"
| stale: "life_step env st (cleanupStaleTests now st)"
| old: "life_step env st (cleanupOldRuns now st)"
| heartbeat: "fresh_row newId st \<Longrightarrow> life_step env st (ensureServerDevice (le_net env) hostIp lanIP now newId st)"
| finish: "life_step env st (local_finish (le_net env) now st)"

definition life_start :: "test_state \<Rightarrow> bool" where
  "life_start st \<longleftrightarrow> ts_runs st = [] \<and> ts_timers st = [] \<and> distinct (map dw_id (ts_devices st)) \<and> distinct (map dw_deviceId (ts_devices st))"

section \<open>What always holds\<close>

definition ended_ok :: "life_run \<Rightarrow> bool" where
  "ended_ok r \<longleftrightarrow> (is_active_run r \<or> lr_completedAt r \<noteq> None) \<and> (lr_status r = Queued \<longrightarrow> lr_completedAt r = None)"

definition runs_ok :: "nat \<Rightarrow> string set \<Rightarrow> life_run list \<Rightarrow> bool" where
  "runs_ok n owners rs \<longleftrightarrow>
     distinct (map pc_id rs) \<and> (\<forall>r \<in> set rs. ended_ok r \<and> lr_deviceId r \<in> owners \<and> (\<exists>m < n. pc_id r = new_run_id m))"

definition pending_ok :: "(int \<times> timer) list \<Rightarrow> bool" where
  "pending_ok ts \<longleftrightarrow> (\<forall>d. length (filter (\<lambda>t. is_pending d (snd t)) ts) \<le> 1)"

definition devices_ok :: "live_device list \<Rightarrow> bool" where
  "devices_ok ds \<longleftrightarrow> distinct (map dw_id ds) \<and> distinct (map dw_deviceId ds)"

definition life_inv :: "test_state \<Rightarrow> bool" where
  "life_inv st \<longleftrightarrow>
     runs_ok (ts_nextRun st) (dw_id ` set (ts_devices st)) (ts_runs st) \<and> devices_ok (ts_devices st) \<and> pending_ok (ts_timers st)"

text \<open>A change of one run that keeps its identity and ends it properly.\<close>

definition proper_change :: "(life_run \<Rightarrow> life_run) \<Rightarrow> bool" where
  "proper_change g \<longleftrightarrow> (\<forall>r. pc_id (g r) = pc_id r \<and> lr_deviceId (g r) = lr_deviceId r \<and> (ended_ok r \<longrightarrow> ended_ok (g r)))"

lemma runs_ok_update: "proper_change g \<Longrightarrow> runs_ok n ow rs \<Longrightarrow> runs_ok n ow (map (\<lambda>r. if pc_id r = i then g r else r) rs)"
proof -
  assume g: "proper_change g" and ok: "runs_ok n ow rs"
  have "map pc_id (map (\<lambda>r. if pc_id r = i then g r else r) rs) = map pc_id rs"
    using g by (auto simp: proper_change_def)
  then show ?thesis
    using g ok unfolding runs_ok_def proper_change_def by (auto simp del: map_map)
qed

lemma inv_update_run: "proper_change g \<Longrightarrow> life_inv st \<Longrightarrow> life_inv (update_run i g st)"
  by (simp add: life_inv_def runs_ok_update)

lemma inv_map_devices:
  assumes f: "\<And>d. dw_id (f d) = dw_id d" "\<And>d. dw_deviceId (f d) = dw_deviceId d" and "life_inv st"
  shows "life_inv (st\<lparr>ts_devices := map f (ts_devices st)\<rparr>)"
proof -
  have "dw_id ` f ` S = dw_id ` S" for S
    by (simp add: image_image f)
  then show ?thesis
    using assms(3) by (simp add: life_inv_def devices_ok_def comp_def f)
qed

lemma inv_set_status [intro!]: "life_inv st \<Longrightarrow> life_inv (set_device_status p s st)"
  unfolding set_device_status_def by (rule inv_map_devices) auto

lemma inv_add_device:
  assumes "dw_id d \<notin> dw_id ` set (ts_devices st)" "dw_deviceId d \<notin> dw_deviceId ` set (ts_devices st)" and "life_inv st"
  shows "life_inv (st\<lparr>ts_devices := ts_devices st @ [d]\<rparr>)"
  using assms by (auto simp: life_inv_def devices_ok_def runs_ok_def)

text \<open>What does not touch the rows.\<close>

lemma inv_cong: "ts_runs st' = ts_runs st \<Longrightarrow> ts_devices st' = ts_devices st \<Longrightarrow> ts_timers st' = ts_timers st \<Longrightarrow>
    ts_nextRun st' = ts_nextRun st \<Longrightarrow> life_inv st \<Longrightarrow> life_inv st'"
  by (simp add: life_inv_def)

lemma inv_others [simp]:
  "life_inv (sendCommand d c p st) = life_inv st" "life_inv (drop_buffer t st) = life_inv st"
  "life_inv (cleanupStaleChunkBuffers now st) = life_inv st" "life_inv (local_start t cs xs st) = life_inv st"
  "life_inv (dispatch d t cs xs st) = life_inv st" "life_inv (process_results typed clock t rs st) = life_inv st"
  "life_inv (st\<lparr>ts_buffers := bs\<rparr>) = life_inv st" "life_inv (st\<lparr>ts_local := l\<rparr>) = life_inv st"
  by (simp_all add: life_inv_def drop_buffer_def cleanupStaleChunkBuffers_def local_start_def dispatch_def process_results_def)

lemma inv_merge [intro!]: "life_inv st \<Longrightarrow> life_inv (merge_run_results t p st)"
  by (auto simp: merge_run_results_eq proper_change_def ended_ok_def is_active_run_def intro!: inv_update_run)

lemma inv_store_patch [intro!]: "life_inv st \<Longrightarrow> life_inv (store_patch t p st)"
  by (auto simp: store_patch_def split: option.split)

lemma pending_snoc: "pending_ok ts \<Longrightarrow> \<forall>d. \<not> is_pending d t \<Longrightarrow> pending_ok (ts @ [(w, t)])"
  by (simp add: pending_ok_def)

lemma inv_timer: "life_inv st \<Longrightarrow> \<forall>d. \<not> is_pending d t \<Longrightarrow> life_inv (st\<lparr>ts_timers := ts_timers st @ [(w, t)]\<rparr>)"
  by (simp add: life_inv_def pending_snoc)

lemma not_pending [simp]: "\<not> is_pending d (ResultsTimeout t e)" "\<not> is_pending d (FollowUp t e)"
  by (simp_all add: is_pending_def)

lemma inv_cancel_pending: "life_inv st \<Longrightarrow> life_inv (cancelPendingValidation d st)"
proof -
  have "length (filter p (filter q ts)) \<le> length (filter p ts)" for p q and ts :: "(int \<times> timer) list"
    by (induction ts) auto
  then have "pending_ok ts \<Longrightarrow> pending_ok (filter q ts)" for q ts
    unfolding pending_ok_def by (meson le_trans)
  then show "life_inv st \<Longrightarrow> life_inv (cancelPendingValidation d st)"
    by (simp add: life_inv_def cancelPendingValidation_def)
qed

lemma inv_schedule: "life_inv st \<Longrightarrow> life_inv (scheduleAutoValidation now d i ip st)"
proof -
  assume inv: "life_inv st"
  then have cancelled: "life_inv (cancelPendingValidation d st)" by (rule inv_cancel_pending)
  have "filter (\<lambda>t. is_pending d (snd t)) (ts_timers (cancelPendingValidation d st)) = []"
    by (auto simp: cancelPendingValidation_def filter_empty_conv)
  moreover have "is_pending e (AutoValidation d i ip) \<longleftrightarrow> e = d" for e
    by (auto simp: is_pending_def)
  ultimately show ?thesis
    using cancelled by (simp add: life_inv_def pending_ok_def scheduleAutoValidation_def Let_def)
qed

lemma inv_expire: "life_inv st \<Longrightarrow> life_inv (expire_timer t st)"
proof -
  have "length (filter p (remove1 t ts)) \<le> length (filter p ts)" for p and t :: "int \<times> timer" and ts
    by (induction ts) auto
  then have "pending_ok ts \<Longrightarrow> pending_ok (remove1 t ts)" for ts
    unfolding pending_ok_def by (meson le_trans)
  then show "life_inv st \<Longrightarrow> life_inv (expire_timer t st)"
    by (simp add: life_inv_def expire_timer_def)
qed

lemma find_device_mem: "find_device p st = Some d \<Longrightarrow> d \<in> set (ts_devices st) \<and> p d"
  by (auto simp: find_device_def dest: find_mem)

lemma find_device_None: "find_device p st = None \<longleftrightarrow> (\<forall>d \<in> set (ts_devices st). \<not> p d)"
  by (auto simp: find_device_def find_None_iff)

lemma find_device_status:
  "find_device (by_dbId i) (set_device_status p s st) =
     map_option (\<lambda>d. if p d then d\<lparr>dw_status := s\<rparr> else d) (find_device (by_dbId i) st)"
proof -
  have "find (by_dbId i) (map (\<lambda>d. if p d then d\<lparr>dw_status := s\<rparr> else d) ds) =
      map_option (\<lambda>d. if p d then d\<lparr>dw_status := s\<rparr> else d) (find (by_dbId i) ds)" for ds
    by (induction ds) (auto simp: by_dbId_def)
  then show ?thesis by (simp add: find_device_def)
qed

lemma find_device_update: "find_device p (update_run t g st) = find_device p st"
  by (simp add: find_device_def)

lemma update_run_twice: "(\<And>r. pc_id (g r) = pc_id r) \<Longrightarrow> update_run t h (update_run t g st) = update_run t (\<lambda>r. h (g r)) st"
  by (simp add: update_run_def)

text \<open>A new run of a device that exists.\<close>

lemma new_run_id_inj [simp]: "new_run_id m = new_run_id n \<longleftrightarrow> m = n"
  by (simp add: new_run_id_def)

lemma inv_create_run:
  assumes "find_device (by_dbId i) st = Some d" and inv: "life_inv st"
  shows "life_inv (snd (create_run now i ty c st))"
proof -
  have "i \<in> dw_id ` set (ts_devices st)"
    using find_device_mem [OF assms(1)] by (auto simp: by_dbId_def)
  moreover have "ended_ok (queued_run now j i ty c)" for j
    by (simp add: ended_ok_def is_active_run_def queued_run_def)
  ultimately show ?thesis
    using inv by (auto simp: life_inv_def runs_ok_def create_run_def Let_def queued_run_def less_Suc_eq)
qed

section \<open>Every step keeps it\<close>

lemma foldl_inv: "(\<And>st x. I st \<Longrightarrow> I (f st x)) \<Longrightarrow> I st \<Longrightarrow> I (foldl f st xs)"
  by (induction xs arbitrary: st) auto

lemma proper_end:
  assumes "\<And>r. pc_id (g r) = pc_id r" "\<And>r. lr_deviceId (g r) = lr_deviceId r" "\<And>r. \<not> is_active_run (g r)"
    "\<And>r. lr_completedAt (g r) \<noteq> None"
  shows "proper_change g"
  using assms by (auto simp: proper_change_def ended_ok_def is_active_run_def)

lemma inv_status: "fresh_row newId st \<Longrightarrow> life_inv st \<Longrightarrow> life_inv (handleDeviceStatus now newId d m st)"
proof -
  assume fresh: "fresh_row newId st" and inv: "life_inv st"
  have upsert: "life_inv (upsert_device now newId d m st)"
  proof (cases "find_device (by_deviceId d) st = None")
    case True
    then show ?thesis
      using fresh inv by (auto simp: upsert_device_def find_device_None by_deviceId_def fresh_row_def created_device_def
          intro!: inv_add_device)
  next
    case False
    have "life_inv (st\<lparr>ts_devices := map (\<lambda>x. if by_deviceId d x then updated_device now d m x else x) (ts_devices st)\<rparr>)"
      by (rule inv_map_devices [OF _ _ inv]) (simp_all add: updated_device_def by_deviceId_def)
    then show ?thesis using False by (auto simp: upsert_device_def)
  qed
  have register: "life_inv (registerDeviceAcrossFleet a b c st)" if "life_inv st" for a b c st
    unfolding registerDeviceAcrossFleet_def by (rule foldl_inv [where I = life_inv]) (simp_all add: that)
  show ?thesis
    using upsert unfolding handleDeviceStatus_def Let_def
    by (auto intro!: inv_schedule inv_cancel_pending register split: option.split)
qed

lemma inv_progress: "life_inv st \<Longrightarrow> life_inv (handleTestProgress now d p st)"
proof -
  let ?g = "\<lambda>r. r\<lparr>lr_progress := pm_progress p, lr_currentStep := nullish (pm_currentStep p) (lr_currentStep r), lr_status := Running\<rparr>"
  assume "life_inv st"
  moreover have "proper_change ?g"
    by (simp add: proper_change_def ended_ok_def is_active_run_def)
  ultimately have st1: "life_inv (update_run (pm_testId p) ?g st)"
    by (blast intro: inv_update_run)
  have "life_inv ((update_run (pm_testId p) ?g st)\<lparr>ts_timers := ts_timers (update_run (pm_testId p) ?g st) @
      [(now + RESULTS_TIMEOUT_MS, ResultsTimeout (pm_testId p) d)]\<rparr>)"
    by (rule inv_timer [OF st1]) simp
  with st1 \<open>life_inv st\<close> show ?thesis
    unfolding handleTestProgress_def Let_def by (simp only: split: if_split) blast
qed

lemma inv_results_timeout: "life_inv st \<Longrightarrow> life_inv (results_timeout now t d st)"
  by (auto simp: results_timeout_def Let_def is_active_run_def split: option.split intro!: inv_update_run proper_end)

lemma inv_results: "life_inv st \<Longrightarrow> life_inv (handleTestResults typed clock now d res st)"
  by (auto simp: handleTestResults_def Let_def is_active_run_def split: option.split intro!: inv_update_run proper_end)

lemma inv_assembly_failed: "life_inv st \<Longrightarrow> life_inv (assembly_failed now t b st)"
  by (auto simp: assembly_failed_def Let_def is_active_run_def split: option.split intro!: inv_update_run proper_end)

lemma inv_chunk: "life_inv st \<Longrightarrow> life_inv (handleChunkedTestResults typed clock now d m st)"
  by (auto simp: handleChunkedTestResults_def receive_chunk_def Let_def split: option.split
      intro!: inv_results inv_assembly_failed)

lemma inv_launch:
  "find_device (by_dbId i) st = Some d \<Longrightarrow> life_inv st \<Longrightarrow> life_inv (snd (launch now i m ty plan st))"
  using inv_create_run [of i st d now ty "ts_configId st"] by (auto simp: launch_def Let_def split: prod.split)

lemma inv_schedule_test: "life_inv st \<Longrightarrow> life_inv (snd (scheduleTest cmp now i m ty st))"
  by (auto simp: scheduleTest_def split: option.split intro: inv_launch)

lemma inv_auto_validation: "life_inv st \<Longrightarrow> life_inv (runAutoValidation cmp stored now d i ip st)"
  by (auto simp: runAutoValidation_def Let_def split: option.split intro!: inv_timer inv_schedule_test)

lemma inv_fire: "life_inv st \<Longrightarrow> life_inv (fire_timer env now t st)"
  by (cases t) (simp_all add: fire_timer_def inv_results_timeout inv_auto_validation inv_schedule_test)

lemma inv_validate: "life_inv st \<Longrightarrow> life_inv (runScheduledVlanValidation cmp stored now st)"
proof -
  have "life_inv st \<Longrightarrow> life_inv (validate_vlan cmp stored now st v)" for st v
    by (auto simp: validate_vlan_def split: option.split intro: inv_schedule_test)
  then show "life_inv st \<Longrightarrow> life_inv (runScheduledVlanValidation cmp stored now st)"
    by (auto simp: runScheduledVlanValidation_def split: option.split intro!: foldl_inv [where I = life_inv])
qed

lemma inv_begin:
  assumes d: "find_device (by_dbId (sq_deviceId q)) st = Some d" and inv: "life_inv st"
  shows "life_inv (snd (begin_test cmp now q dev st))"
proof -
  have undo: "life_inv (undo_start t i st)" if "life_inv st" for t i st
  proof -
    have "runs_ok n ow rs \<Longrightarrow> runs_ok n ow (filter p rs)" for n ow rs p
      by (simp add: runs_ok_def distinct_map_filter)
    with that show ?thesis
      unfolding undo_start_def by (intro inv_set_status) (simp add: life_inv_def)
  qed
  have run: "life_inv (snd (run_commands cmp q dev t def st))" if "life_inv st" for t "def" st
    using that by (auto simp: run_commands_def Let_def undo split: prepared.split option.split)
  show ?thesis
    using inv_create_run [OF assms, of now "sq_testType q" "if truthy (sq_configId q) then sq_configId q else ts_configId st"]
    by (auto simp: begin_test_def Let_def split: prod.split option.split intro!: run)
qed

lemma proper_fail: "proper_change (fail_run now m)"
  by (rule proper_end) (simp_all add: fail_run_def is_active_run_def)

lemma inv_start: "life_inv st \<Longrightarrow> life_inv (snd (startTest cmp now q st))"
proof -
  assume inv: "life_inv st"
  have clear: "life_inv (clear_stale now r i st)" for r i
    using inv by (auto simp: clear_stale_def intro!: inv_update_run proper_fail)
  have still: "\<exists>d. find_device (by_dbId i) (clear_stale now r j st) = Some d" if "find_device (by_dbId i) st = Some e" for i j r e
    using that by (simp add: clear_stale_def find_device_status find_device_update)
  show ?thesis
  proof (cases "find_device (by_dbId (sq_deviceId q)) st")
    case None
    then show ?thesis using inv by (simp add: startTest_def)
  next
    case (Some d)
    have "life_inv (snd (begin_test cmp now q d (clear_stale now r (sq_deviceId q) st)))" for r
      using still [OF Some, of r "sq_deviceId q"] clear inv_begin by blast
    then show ?thesis
      using Some inv clear inv_begin [OF Some inv] by (simp add: startTest_def Let_def split: option.split)
  qed
qed

lemma inv_cancel: "life_inv st \<Longrightarrow> life_inv (snd (cancelTest now t st))"
  by (auto simp: cancelTest_def is_active_run_def split: option.split intro!: inv_update_run proper_end)

lemma inv_offline: "life_inv st \<Longrightarrow> life_inv (cleanupOfflineDevices now st)"
  unfolding cleanupOfflineDevices_def by (rule inv_map_devices) auto

lemma inv_retry: "life_inv st \<Longrightarrow> life_inv (retryQueuedTests now st)"
  unfolding retryQueuedTests_def by (rule foldl_inv [where I = life_inv]) (auto simp: retry_run_def split: option.split)

lemma inv_stale: "life_inv st \<Longrightarrow> life_inv (cleanupStaleTests now st)"
  unfolding cleanupStaleTests_def
  by (rule foldl_inv [where I = life_inv]) (auto simp: time_out_def intro!: inv_update_run proper_fail)

lemma inv_old: "life_inv st \<Longrightarrow> life_inv (cleanupOldRuns now st)"
  by (auto simp: cleanupOldRuns_def life_inv_def runs_ok_def Let_def distinct_map_filter)

lemma inv_heartbeat: "fresh_row newId st \<Longrightarrow> life_inv st \<Longrightarrow> life_inv (ensureServerDevice net h l now newId st)"
proof -
  assume fresh: "fresh_row newId st" and inv: "life_inv st"
  have "life_inv (st\<lparr>ts_devices := map (\<lambda>d. if by_deviceId SERVER_DEVICE_ID d
      then d\<lparr>dw_ipAddress := ip, dw_status := DevOnline, ld_lastSeen := Some now\<rparr> else d) (ts_devices st)\<rparr>)" for ip
    by (rule inv_map_devices [OF _ _ inv]) auto
  then show ?thesis
    using fresh inv
    by (auto simp: ensureServerDevice_def Let_def find_device_None by_deviceId_def fresh_row_def split: prod.split
        intro!: inv_add_device)
qed

lemma inv_finish: "life_inv st \<Longrightarrow> life_inv (local_finish net now st)"
  by (auto simp: local_finish_def Let_def is_active_run_def update_run_twice split: option.split
      intro!: inv_update_run proper_end)

lemmas life_steps_inv =
  inv_status inv_progress inv_results inv_chunk inv_fire inv_start inv_cancel inv_validate inv_offline inv_retry
  inv_stale inv_old inv_heartbeat inv_finish inv_expire

interpretation life: step_invariant life_start "life_step env" life_inv for env
proof
  show "life_start st \<Longrightarrow> life_inv st" for st
    by (simp add: life_start_def life_inv_def runs_ok_def devices_ok_def pending_ok_def)
  show "life_inv st \<Longrightarrow> life_step env st st' \<Longrightarrow> life_inv st'" for st st'
    by (erule life_step.cases) (simp_all add: life_steps_inv)
qed

text \<open>C17: in every state that the server reaches from an empty table of runs, whatever messages, requests, timers
  and jobs come in whatever order, each run that has ended has a completion time and each queued one has none, its
  identifier is its own, its device exists exactly once, and no device has two validations pending.\<close>
theorem reachable_runs_consistent:
  assumes "life_start st0" and "(life_step env)\<^sup>*\<^sup>* st0 st" and "r \<in> set (ts_runs st)"
  shows "(\<not> is_active_run r \<longrightarrow> lr_completedAt r \<noteq> None) \<and> (lr_status r = Queued \<longrightarrow> lr_completedAt r = None) \<and>
    (\<forall>r' \<in> set (ts_runs st). pc_id r' = pc_id r \<longrightarrow> r' = r) \<and>
    (\<exists>!d. d \<in> set (ts_devices st) \<and> dw_id d = lr_deviceId r) \<and>
    (\<forall>d. length (filter (\<lambda>t. is_pending d (snd t)) (ts_timers st)) \<le> 1)"
proof -
  have inv: "life_inv st" by (rule life.reachable_inv [OF assms(1,2)])
  have "\<exists>!d. d \<in> set (ts_devices st) \<and> dw_id d = lr_deviceId r"
  proof -
    obtain d where "d \<in> set (ts_devices st)" "dw_id d = lr_deviceId r"
      using inv assms(3) by (auto simp: life_inv_def runs_ok_def)
    moreover have "inj_on dw_id (set (ts_devices st))"
      using inv by (simp add: life_inv_def devices_ok_def distinct_map)
    ultimately show ?thesis by (metis inj_on_eq_iff)
  qed
  moreover have "\<forall>r' \<in> set (ts_runs st). pc_id r' = pc_id r \<longrightarrow> r' = r"
    using inv assms(3) by (auto simp: life_inv_def runs_ok_def distinct_map dest: inj_onD)
  ultimately show ?thesis
    using inv assms(3) by (auto simp: life_inv_def runs_ok_def ended_ok_def pending_ok_def)
qed

section \<open>One test at a time\<close>

lemma find_run_others [simp]:
  "find_run (set_device_status f s st) t = find_run st t" "find_run (sendCommand d c kvs st) t = find_run st t"
  "find_run (st\<lparr>ts_timers := ts\<rparr>) t = find_run st t" "find_run (st\<lparr>ts_local := l\<rparr>) t = find_run st t"
  by (simp_all add: find_run_def)

definition active_on :: "string \<Rightarrow> test_state \<Rightarrow> string list" where
  "active_on i st = map pc_id (filter (\<lambda>r. lr_deviceId r = i \<and> is_active_run r) (ts_runs st))"

definition run_key :: "life_run \<Rightarrow> string \<times> string \<times> test_status" where
  "run_key r = (pc_id r, lr_deviceId r, lr_status r)"

lemma active_on_key:
  "map run_key (ts_runs st') = map run_key (ts_runs st) \<Longrightarrow> active_on i st' = active_on i st"
proof -
  have "map pc_id (filter (\<lambda>r. lr_deviceId r = i \<and> is_active_run r) rs) =
      map fst (filter (\<lambda>k. fst (snd k) = i \<and> (snd (snd k) = Queued \<or> snd (snd k) = Running)) (map run_key rs))" for rs
    by (induction rs) (auto simp: run_key_def is_active_run_def)
  then show "map run_key (ts_runs st') = map run_key (ts_runs st) \<Longrightarrow> active_on i st' = active_on i st"
    by (simp add: active_on_def)
qed

lemma active_run_None: "active_run st i = None \<longleftrightarrow> active_on i st = []"
proof -
  have "(case sort_key f xs of [] \<Rightarrow> None | y # ys \<Rightarrow> Some y) = None \<longleftrightarrow> xs = []" for f :: "life_run \<Rightarrow> int" and xs
    by (metis length_0_conv length_sort list.case_eq_if option.distinct(1))
  then show ?thesis by (simp add: active_run_def active_on_def)
qed

lemma active_run_mem: "active_run st i = Some r \<Longrightarrow> pc_id r \<in> set (active_on i st)"
proof -
  let ?as = "filter (\<lambda>r. lr_deviceId r = i \<and> is_active_run r) (ts_runs st)"
  assume "active_run st i = Some r"
  then have "r \<in> set (sort_key (\<lambda>r. - lr_startedAt r) ?as)"
    unfolding active_run_def by (cases "sort_key (\<lambda>r. - lr_startedAt r) ?as") auto
  then have "r \<in> set ?as" by (simp only: set_sort)
  then show ?thesis by (auto simp: active_on_def)
qed

lemma store_patch_key [simp]: "map run_key (ts_runs (store_patch t p st)) = map run_key (ts_runs st)"
  by (auto simp: store_patch_def merge_run_results_eq run_key_def split: option.split)

lemma dispatch_runs [simp]: "ts_runs (dispatch d t cs xs st) = ts_runs st"
  by (simp add: dispatch_def local_start_def)

lemma active_on_others [simp]:
  "active_on i (store_patch t p st) = active_on i st" "active_on i (dispatch d t cs xs st) = active_on i st"
  "active_on i (set_device_status f s st) = active_on i st" "active_on i (sendCommand d c kvs st) = active_on i st"
  by (rule active_on_key; simp)+

lemma active_on_create:
  "create_run now i ty c st = (t, st') \<Longrightarrow> active_on i st' = active_on i st @ [t]"
  by (auto simp: create_run_def Let_def active_on_def queued_run_def is_active_run_def)

lemma launch_active: "launch now i m ty plan st = (Some t, st') \<Longrightarrow> active_on i st' = active_on i st @ [t]"
  by (auto simp: launch_def Let_def split: prod.splits dest: active_on_create)

lemma run_commands_active: "run_commands cmp q d t def st = (TestStarted j, st') \<Longrightarrow> j = t \<and> active_on i st' = active_on i st"
  by (auto simp: run_commands_def Let_def prepare_commands_def split: prepared.splits option.splits if_splits prod.splits)

lemma begin_active: "begin_test cmp now q d st = (TestStarted t, st') \<Longrightarrow> active_on (sq_deviceId q) st' = active_on (sq_deviceId q) st @ [t]"
  by (auto simp: begin_test_def Let_def split: prod.splits option.splits
      dest!: active_on_create run_commands_active [where i = "sq_deviceId q"])

lemma start_alone: "startTest cmp now q st = (TestStarted t, st') \<Longrightarrow> active_on (sq_deviceId q) st' = [t]"
  by (auto simp: startTest_def Let_def active_run_None split: option.splits if_splits dest!: begin_active)

lemma schedule_alone:
  "scheduleTest cmp now i m ty st = (Some t, st') \<Longrightarrow> (st' = st \<and> t \<in> set (active_on i st)) \<or> active_on i st' = [t]"
  by (auto simp: scheduleTest_def active_run_None split: option.splits if_splits dest!: launch_active dest: active_run_mem)

text \<open>C5: a device runs one test at a time.  When a request or the validation service starts a test, the new
  run is the only active run of its device: whatever was active before has been refused or cleared as stale.\<close>
theorem started_test_runs_alone:
  assumes "startTest cmp now q st = (TestStarted t, st') \<and> i = sq_deviceId q \<or>
    scheduleTest cmp now i m ty st = (Some t, st') \<and> st' \<noteq> st"
  shows "active_on i st' = [t]"
  using assms start_alone schedule_alone by blast

text \<open>What a lookup finds of a run that is not changed.\<close>

definition key_of :: "test_state \<Rightarrow> string \<Rightarrow> (string \<times> string \<times> test_status) option" where
  "key_of st t = find (\<lambda>k. fst k = t) (map run_key (ts_runs st))"

lemma key_of_find: "key_of st t = map_option run_key (find_run st t)"
proof -
  have "find (\<lambda>k. fst k = t) (map run_key rs) = map_option run_key (find (\<lambda>r. pc_id r = t) rs)" for rs
    by (induction rs) (auto simp: run_key_def)
  then show ?thesis by (simp add: key_of_def find_run_def)
qed

lemma key_of_others [simp]:
  "key_of (store_patch t p st) i = key_of st i" "key_of (dispatch d t cs xs st) i = key_of st i"
  "key_of (set_device_status f s st) i = key_of st i" "key_of (sendCommand d c kvs st) i = key_of st i"
  by (simp_all add: key_of_def)

lemma find_append: "find P xs = Some k \<Longrightarrow> find P (xs @ ys) = Some k"
  by (induction xs) (auto split: if_splits)

lemma key_of_update:
  "(\<And>r. pc_id (g r) = pc_id r) \<Longrightarrow>
   key_of (update_run t g st) j = (if j = t then map_option (\<lambda>r. run_key (g r)) (find_run st t) else key_of st j)"
  by (simp add: key_of_find find_run_update option.map_comp comp_def)

lemma key_of_create: "create_run now i ty c st = (t, st') \<Longrightarrow> key_of st j = Some k \<Longrightarrow> key_of st' j = Some k"
  unfolding create_run_def Let_def key_of_def by (auto intro: find_append [of _ _ k])

lemma run_commands_key: "run_commands cmp q d t def st = (TestStarted j, st') \<Longrightarrow> key_of st' i = key_of st i"
  by (auto simp: run_commands_def Let_def prepare_commands_def split: prepared.splits option.splits if_splits prod.splits)

lemma begin_key: "begin_test cmp now q d st = (TestStarted t, st') \<Longrightarrow> key_of st j = Some k \<Longrightarrow> key_of st' j = Some k"
  by (auto simp: begin_test_def Let_def split: prod.splits option.splits
      dest!: run_commands_key [where i = j] dest: key_of_create)

lemma same_run: "life_inv st \<Longrightarrow> r \<in> set (ts_runs st) \<Longrightarrow> find_run st (pc_id r) = Some r"
proof -
  assume "life_inv st" and r: "r \<in> set (ts_runs st)"
  then have inj: "inj_on pc_id (set (ts_runs st))" by (simp add: life_inv_def runs_ok_def distinct_map)
  obtain r' where "find_run st (pc_id r) = Some r'"
    using r by (cases "find_run st (pc_id r)") (auto simp: find_run_def find_None_iff)
  with find_run_mem [OF this] r inj show ?thesis by (auto dest: inj_onD)
qed

lemma active_on_iff: "life_inv st \<Longrightarrow> t \<in> set (active_on i st) \<longleftrightarrow> (\<exists>s. key_of st t = Some (t, i, s) \<and> (s = Queued \<or> s = Running))"
proof -
  assume inv: "life_inv st"
  have "t \<in> set (active_on i st) \<longleftrightarrow> (\<exists>r \<in> set (ts_runs st). pc_id r = t \<and> lr_deviceId r = i \<and> is_active_run r)"
    by (auto simp: active_on_def)
  also have "\<dots> \<longleftrightarrow> (\<exists>r. find_run st t = Some r \<and> lr_deviceId r = i \<and> is_active_run r)"
    using same_run [OF inv] by (metis find_run_mem)
  also have "\<dots> \<longleftrightarrow> (\<exists>s. key_of st t = Some (t, i, s) \<and> (s = Queued \<or> s = Running))"
    by (auto simp: key_of_find run_key_def is_active_run_def dest: find_run_mem)
  finally show ?thesis .
qed

lemma start_keeps_ended:
  assumes inv: "life_inv st" and start: "startTest cmp now q st = (TestStarted t, st')"
    and k: "key_of st j = Some (j, i, s)" and ended: "s \<noteq> Queued" "s \<noteq> Running"
  shows "key_of st' j = Some (j, i, s)"
proof -
  have clear: "key_of (clear_stale now r e st) j = key_of st j" if "active_run st e = Some r" for r e
  proof -
    have "pc_id r \<noteq> j"
      using active_run_mem [OF that] k ended active_on_iff [OF inv] by auto
    then show ?thesis
      by (simp add: clear_stale_def key_of_find find_run_update fail_run_def)
  qed
  show ?thesis
    using start k clear by (auto simp: startTest_def Let_def split: option.splits if_splits dest!: begin_key)
qed

lemma progress_key:
  "key_of (handleTestProgress now d p st) j =
     (if j = pm_testId p then map_option (\<lambda>r. run_key (r\<lparr>lr_status := Running\<rparr>)) (find_run st j) else key_of st j)"
proof -
  let ?g = "\<lambda>r. r\<lparr>lr_progress := pm_progress p, lr_currentStep := nullish (pm_currentStep p) (lr_currentStep r), lr_status := Running\<rparr>"
  have "key_of (handleTestProgress now d p st) j = (if find_run st (pm_testId p) = None then key_of st j
      else key_of (update_run (pm_testId p) ?g st) j)"
    unfolding handleTestProgress_def Let_def by (simp only: split: if_split) (auto simp: key_of_def)
  then show ?thesis
    by (cases "find_run st (pm_testId p)") (simp_all add: key_of_find [of st] key_of_update run_key_def)
qed

text \<open>A progress message brings back a run that has ended.  After a test has been cancelled and
  another has been started on the same device, a progress message that the device sent before it saw the
  cancellation makes the cancelled run active again: two runs are active on the device, which both ways of
  starting a test rule out, and the run that is active still has the completion time of its cancellation.\<close>
lemma late_progress_revives_cancelled:
  assumes "life_start st0" and "(life_step env)\<^sup>*\<^sup>* st0 st"
    and "find_run st t = Some r" and "cancelTest now t st = (TestCancelled, st1)"
    and "startTest cmp now1 q st1 = (TestStarted i, st2)" and "sq_deviceId q = lr_deviceId r"
    and "pm_testId p = t" and "st3 = handleTestProgress now2 d p st2"
  shows "i \<noteq> t \<and> set (active_on (lr_deviceId r) st3) = {i, t}"
proof -
  let ?dev = "lr_deviceId r"
  have inv: "life_inv st" by (rule life.reachable_inv [OF assms(1,2)])
  have inv1: "life_inv st1" using inv_cancel [OF inv, of now t] assms(4) by simp
  have inv2: "life_inv st2" using inv_start [OF inv1, of _ now1 q] assms(5) by (metis snd_conv)
  have inv3: "life_inv st3" unfolding assms(8) by (rule inv_progress [OF inv2])
  have "key_of st1 t = Some (t, ?dev, Cancelled)"
    using assms(3,4) find_run_mem [OF assms(3)]
    by (auto simp: cancelTest_def key_of_update run_key_def find_run_def split: if_splits option.splits)
  then have t2: "key_of st2 t = Some (t, ?dev, Cancelled)"
    using start_keeps_ended [OF inv1 assms(5)] by simp
  have i2: "active_on ?dev st2 = [i]"
    using start_alone [OF assms(5)] assms(6) by simp
  have ne: "i \<noteq> t"
    using i2 t2 active_on_iff [OF inv2, of i ?dev] by auto
  have key3: "key_of st3 j = (if j = t then Some (t, ?dev, Running) else key_of st2 j)" for j
  proof -
    obtain z where "find_run st2 t = Some z" "pc_id z = t" "lr_deviceId z = ?dev"
      using t2 by (auto simp: key_of_find run_key_def)
    then show ?thesis by (simp add: assms(7,8) progress_key run_key_def)
  qed
  have "j \<in> set (active_on ?dev st3) \<longleftrightarrow> j = t \<or> j \<in> set (active_on ?dev st2)" for j
    using active_on_iff [OF inv3, of j ?dev] active_on_iff [OF inv2, of j ?dev] key3 [of j] by auto
  then have "set (active_on ?dev st3) = {i, t}" using i2 by auto
  with ne show ?thesis by blast
qed

section \<open>Examples\<close>

definition demo_env :: life_env where
  "demo_env = \<lparr>le_typed = (\<lambda>_. no_scan), le_clock = int, le_collate = (\<lambda>_ _. 0), le_stored = (\<lambda>_. True), le_net = trap_net\<rparr>"

definition demo_request :: "string \<Rightarrow> start_request" where
  "demo_request ty =
     \<lparr>sq_deviceId = ''d1'', sq_testType = ty, sq_configId = None, sq_excludeHoneypots = False, sq_honeypotIds = None,
      sq_options = None\<rparr>"

text \<open>A server and its device after one request.\<close>

definition demo_start :: "int \<Rightarrow> test_state \<Rightarrow> test_state" where
  "demo_start now st = snd (startTest (\<lambda>_ _. 0) now (demo_request ''connectivity'') st)"

lemma demo_start_step: "life_step demo_env st (demo_start now st)"
  using life_step.start [of demo_env st now "demo_request ''connectivity''"] by (simp add: demo_start_def demo_env_def)

lemma demo_init: "life_start (demo_state DevOnline [])"
  by (simp add: life_start_def demo_state_def)

lemma demo_reached: "(life_step demo_env)\<^sup>*\<^sup>* (demo_state DevOnline []) (demo_start 0 (demo_state DevOnline []))"
  using demo_start_step by blast

lemma demo_started:
  "fst (startTest (\<lambda>_ _. 0) 0 (demo_request ''connectivity'') (demo_state DevOnline [])) = TestStarted ''c0''"
  "ts_runs (demo_start 0 (demo_state DevOnline [])) = [demo_life Queued]"
  by code_simp+

theorem reachable_runs_consistent_witness:
  "\<exists>!d. d \<in> set (ts_devices (demo_start 0 (demo_state DevOnline []))) \<and> dw_id d = ''d1''"
  using reachable_runs_consistent [OF demo_init demo_reached, of "demo_life Queued"] demo_started(2)
  by (simp add: demo_life_def queued_run_def)

theorem started_test_runs_alone_witness:
  "active_on ''d1'' (demo_start 0 (demo_state DevOnline [])) = [''c0'']"
proof (rule started_test_runs_alone, rule disjI1, rule conjI)
  show "startTest (\<lambda>_ _. 0) 0 (demo_request ''connectivity'') (demo_state DevOnline []) =
      (TestStarted ''c0'', demo_start 0 (demo_state DevOnline []))"
    using demo_started(1) by (simp add: prod_eq_iff demo_start_def)
qed (simp add: demo_request_def)

definition demo_cancelled :: test_state where
  "demo_cancelled = snd (cancelTest 1 ''c0'' (demo_start 0 (demo_state DevOnline [])))"

lemma late_progress_revives_cancelled_witness:
  "set (active_on ''d1'' (handleTestProgress 3 ''esp1'' \<lparr>pm_testId = ''c0'', pm_progress = 50, pm_currentStep = None\<rparr>
      (demo_start 2 demo_cancelled))) = {''c1'', ''c0''}"
proof -
  let ?st = "demo_start 0 (demo_state DevOnline [])"
  have "find_run ?st ''c0'' = Some (demo_life Queued)" "fst (cancelTest 1 ''c0'' ?st) = TestCancelled"
    "fst (startTest (\<lambda>_ _. 0) 2 (demo_request ''connectivity'') demo_cancelled) = TestStarted ''c1''"
    by code_simp+
  then have "find_run ?st ''c0'' = Some (demo_life Queued)" "cancelTest 1 ''c0'' ?st = (TestCancelled, demo_cancelled)"
    "startTest (\<lambda>_ _. 0) 2 (demo_request ''connectivity'') demo_cancelled = (TestStarted ''c1'', demo_start 2 demo_cancelled)"
    by (simp_all add: prod_eq_iff demo_cancelled_def demo_start_def)
  from late_progress_revives_cancelled [OF demo_init demo_reached this _ _ refl,
      of "\<lparr>pm_testId = ''c0'', pm_progress = 50, pm_currentStep = None\<rparr>" 3 "''esp1''"]
  show ?thesis by (simp add: demo_request_def demo_life_def queued_run_def)
qed

end
