(* ===== verification/Test_Outcomes.thy ===== *)
theory Test_Outcomes
  imports Test_Lifecycle
begin

text \<open>
  How runs end (\<open>scheduler.ts\<close>, \<open>mqtt/index.ts\<close>): the job that times out old runs, the timer that ends a run whose
  results never come, and where tests of the server itself and tests that are sent again go wrong.
\<close>

section \<open>The timeout job\<close>

lemma fail_run_simps [simp]:
  "pc_id (fail_run now m r) = pc_id r" "lr_deviceId (fail_run now m r) = lr_deviceId r"
  "lr_status (fail_run now m r) = TestFailed" "fail_run now m (fail_run now m r) = fail_run now m r"
  "lr_startedAt (fail_run now m r) = lr_startedAt r" "\<not> is_active_run (fail_run now m r)"
  by (simp_all add: fail_run_def is_active_run_def)

lemma time_out_all:
  "ts_runs (foldl (time_out now) st rs) =
     map (\<lambda>r. if pc_id r \<in> pc_id ` set rs then fail_run now ''Test timed out'' r else r) (ts_runs st)"
  "ts_devices (foldl (time_out now) st rs) =
     map (\<lambda>d. if dw_id d \<in> lr_deviceId ` set rs then d\<lparr>dw_status := DevOnline\<rparr> else d) (ts_devices st)"
  by (induction rs arbitrary: st) (auto simp: time_out_def by_dbId_def)

text \<open>C15: no run stays active for more than thirty minutes.  The job ends every run that has been queued or running
  longer, as failed with its completion time, and puts the devices of these runs, and no others, back online; every
  other run is as it was, and what is still active afterwards was started in the last thirty minutes.\<close>
theorem stale_cleanup_exact:
  assumes "life_start st0" and "(life_step env)\<^sup>*\<^sup>* st0 st" and "st' = cleanupStaleTests now st"
  shows "ts_runs st' = map (\<lambda>r. if overdue now r then fail_run now ''Test timed out'' r else r) (ts_runs st) \<and>
    ts_devices st' = map (\<lambda>d. if \<exists>r \<in> set (ts_runs st). overdue now r \<and> lr_deviceId r = dw_id d
                                then d\<lparr>dw_status := DevOnline\<rparr> else d) (ts_devices st) \<and>
    (\<forall>r \<in> set (ts_runs st'). is_active_run r \<longrightarrow> now - 30 * 60 * 1000 \<le> lr_startedAt r)"
proof -
  have "distinct (map pc_id (ts_runs st))"
    using life.reachable_inv [OF assms(1,2)] by (simp add: life_inv_def runs_ok_def)
  then have "pc_id r \<in> pc_id ` set (filter (overdue now) (ts_runs st)) \<longleftrightarrow> overdue now r" if "r \<in> set (ts_runs st)" for r
    using that by (auto simp: distinct_map dest: inj_onD)
  then have runs: "ts_runs st' = map (\<lambda>r. if overdue now r then fail_run now ''Test timed out'' r else r) (ts_runs st)"
    using time_out_all(1) [of now st "filter (overdue now) (ts_runs st)"] by (simp add: assms(3) cleanupStaleTests_def)
  moreover have "ts_devices st' = map (\<lambda>d. if \<exists>r \<in> set (ts_runs st). overdue now r \<and> lr_deviceId r = dw_id d
      then d\<lparr>dw_status := DevOnline\<rparr> else d) (ts_devices st)"
    using time_out_all(2) [of now st "filter (overdue now) (ts_runs st)"]
    by (auto simp: assms(3) cleanupStaleTests_def image_iff)
  moreover have "\<forall>r \<in> set (ts_runs st'). is_active_run r \<longrightarrow> now - 30 * 60 * 1000 \<le> lr_startedAt r"
    by (auto simp: runs overdue_def)
  ultimately show ?thesis by blast
qed

section \<open>Results that never come\<close>

lemma timeout_ends: "find_run (results_timeout now t d st) t = Some r \<Longrightarrow> lr_status r \<noteq> Running"
proof -
  have chunk: "find_run (cleanupStaleChunkBuffers now st) t = find_run st t" and drop: "find_run (drop_buffer t st) t = find_run st t" for st
    by (simp_all add: cleanupStaleChunkBuffers_def drop_buffer_def find_run_def)
  show "find_run (results_timeout now t d st) t = Some r \<Longrightarrow> lr_status r \<noteq> Running"
    by (cases "find_run st t") (auto simp: results_timeout_def Let_def chunk drop find_run_update split: if_splits)
qed

text \<open>A pending timeout of results stays until it fires.\<close>

definition waiting :: "int \<times> timer \<Rightarrow> test_state \<Rightarrow> bool" where
  "waiting t st \<longleftrightarrow> t \<in> set (ts_timers st) \<and> (\<exists>i d. snd t = ResultsTimeout i d)"

lemma waiting_cong: "ts_timers st' = ts_timers st \<Longrightarrow> waiting t st' = waiting t st"
  by (simp add: waiting_def)

lemma waiting_others [simp]:
  "waiting t (update_run i g st) = waiting t st" "waiting t (set_device_status f s st) = waiting t st"
  "waiting t (sendCommand d c p st) = waiting t st" "waiting t (drop_buffer i st) = waiting t st"
  "waiting t (cleanupStaleChunkBuffers now st) = waiting t st" "waiting t (local_start i cs xs st) = waiting t st"
  "waiting t (dispatch d i cs xs st) = waiting t st" "waiting t (process_results typed clock i kvs st) = waiting t st"
  "waiting t (st\<lparr>ts_buffers := bs\<rparr>) = waiting t st" "waiting t (st\<lparr>ts_local := l\<rparr>) = waiting t st"
  "waiting t (st\<lparr>ts_devices := ds\<rparr>) = waiting t st" "waiting t (st\<lparr>ts_runs := rs\<rparr>) = waiting t st"
  "waiting t (merge_run_results i p st) = waiting t st" "waiting t (cancelPendingValidation d st) = waiting t st"
  by (auto simp: waiting_def drop_buffer_def cleanupStaleChunkBuffers_def local_start_def dispatch_def process_results_def
      merge_run_results_eq cancelPendingValidation_def is_pending_def split: timer.splits)

lemma waiting_store [simp]: "waiting t (store_patch i p st) = waiting t st"
  by (simp add: store_patch_def split: option.split)

lemma waiting_create [simp]: "create_run now i ty c st = (x, st') \<Longrightarrow> waiting t st' = waiting t st"
  by (auto simp: create_run_def Let_def waiting_def)

lemma waiting_timers: "waiting t st \<Longrightarrow> waiting t (st\<lparr>ts_timers := ts_timers st @ ts\<rparr>)"
  by (auto simp: waiting_def)

lemma waiting_schedule: "waiting t st \<Longrightarrow> waiting t (snd (scheduleTest cmp now i m ty st))"
  by (auto simp: scheduleTest_def launch_def Let_def split: option.split prod.split)

lemma waiting_clear [simp]: "waiting t (clear_stale now r i st) = waiting t st"
  unfolding clear_stale_def by (simp only: waiting_others)

lemma waiting_run_commands: "waiting t st \<Longrightarrow> waiting t (snd (run_commands cmp q d i def st))"
  by (simp add: run_commands_def undo_start_def Let_def split: option.split prepared.split)

lemma waiting_begin: "waiting t st \<Longrightarrow> waiting t (snd (begin_test cmp now q d st))"
  unfolding begin_test_def Let_def by (auto split: option.split prod.split intro!: waiting_run_commands)

lemma waiting_start: "waiting t st \<Longrightarrow> waiting t (snd (startTest cmp now q st))"
  by (simp add: startTest_def waiting_begin Let_def split: option.split)

lemma waiting_results: "waiting t st \<Longrightarrow> waiting t (handleTestResults typed clock now d res st)"
  by (simp add: handleTestResults_def Let_def split: option.split)

lemma waiting_assembly [simp]: "waiting t (assembly_failed now i b st) = waiting t st"
  unfolding assembly_failed_def Let_def by (cases "find_run st i") (simp_all only: option.simps waiting_others split: if_split, blast)

lemma waiting_receive: "waiting t st \<Longrightarrow> waiting t (receive_chunk typed clock now d i ix n p m st)"
  unfolding receive_chunk_def Let_def by (auto split: option.split intro!: waiting_results)

lemma waiting_chunk: "waiting t st \<Longrightarrow> waiting t (handleChunkedTestResults typed clock now d m st)"
  by (simp add: handleChunkedTestResults_def waiting_receive split: option.split)

lemma waiting_status: "waiting t st \<Longrightarrow> waiting t (handleDeviceStatus now newId d m st)"
proof -
  assume "waiting t st"
  then have upsert: "waiting t (upsert_device now newId d m st)"
    by (simp add: upsert_device_def)
  have register: "waiting t (registerDeviceAcrossFleet a b c st)" if "waiting t st" for a b c st
    unfolding registerDeviceAcrossFleet_def by (rule foldl_inv [where I = "waiting t"]) (simp_all add: that)
  have schedule: "waiting t (scheduleAutoValidation now d i ip st)" if "waiting t st" for i ip st
    using that by (simp add: scheduleAutoValidation_def Let_def waiting_timers)
  show ?thesis
    using upsert by (simp add: handleDeviceStatus_def Let_def register schedule split: option.split)
qed

lemma waiting_progress: "waiting t st \<Longrightarrow> waiting t (handleTestProgress now d p st)"
  by (auto simp: handleTestProgress_def Let_def waiting_def)

lemma waiting_fire: "waiting t st \<Longrightarrow> waiting t (fire_timer env now tm st)"
  by (cases tm) (auto simp: fire_timer_def waiting_schedule runAutoValidation_def results_timeout_def Let_def
      split: option.split intro!: waiting_timers waiting_schedule)

lemma waiting_validate: "waiting t st \<Longrightarrow> waiting t (runScheduledVlanValidation cmp stored now st)"
proof -
  have "waiting t st \<Longrightarrow> waiting t (validate_vlan cmp stored now st v)" for st v
    by (auto simp: validate_vlan_def split: option.split intro: waiting_schedule)
  then show "waiting t st \<Longrightarrow> waiting t (runScheduledVlanValidation cmp stored now st)"
    by (auto simp: runScheduledVlanValidation_def split: option.split intro!: foldl_inv [where I = "waiting t"])
qed

lemma waiting_jobs:
  assumes "waiting t st"
  shows "waiting t (retryQueuedTests now st)" "waiting t (cleanupStaleTests now st)" "waiting t (cleanupOldRuns now st)"
    "waiting t (cleanupOfflineDevices now st)" "waiting t (ensureServerDevice net h l now i st)"
    "waiting t (local_finish net now st)" "waiting t (snd (cancelTest now i st))"
proof -
  show "waiting t (retryQueuedTests now st)"
    unfolding retryQueuedTests_def
    by (rule foldl_inv [where I = "waiting t"]) (auto simp: retry_run_def assms split: option.split)
  show "waiting t (cleanupStaleTests now st)"
    unfolding cleanupStaleTests_def by (rule foldl_inv [where I = "waiting t"]) (auto simp: time_out_def assms)
qed (use assms in \<open>auto simp: cleanupOldRuns_def cleanupOfflineDevices_def ensureServerDevice_def local_finish_def
    cancelTest_def Let_def waiting_def split: option.split prod.split\<close>)

lemma waiting_step:
  assumes "life_step env st st'" and "waiting t st"
  shows "waiting t st' \<or> (\<exists>now. fst t \<le> now \<and> st' = fire_timer env now (snd t) (expire_timer t st))"
  using assms
proof cases
  case (timer tm now)
  show ?thesis
  proof (cases "tm = t")
    case False
    then have "waiting t (expire_timer tm st)"
      using assms(2) by (auto simp: waiting_def expire_timer_def)
    then show ?thesis using timer by (auto intro: waiting_fire)
  qed (use timer in auto)
qed (simp_all add: waiting_status waiting_progress waiting_results waiting_chunk waiting_start waiting_validate waiting_jobs)

lemma waiting_steps:
  assumes "(life_step env)\<^sup>*\<^sup>* st st'" and "waiting t st"
  shows "waiting t st' \<or> (\<exists>sa now. (life_step env)\<^sup>*\<^sup>* st sa \<and> fst t \<le> now \<and> waiting t sa \<and>
    (life_step env)\<^sup>*\<^sup>* (fire_timer env now (snd t) (expire_timer t sa)) st')"
  using assms(1)
proof (induction rule: rtranclp_induct)
  case (step sb sc)
  from step.IH show ?case
  proof
    assume here: "waiting t sb"
    from waiting_step [OF step.hyps(2) here] step.hyps(1) here show ?thesis by blast
  qed (use step.hyps(2) in \<open>meson rtranclp.rtrancl_into_rtrancl\<close>)
qed (use assms(2) in blast)

text \<open>C16: a test that reports all of its progress does not stay running.  From the moment of that message, in
  every state the server reaches, the timer of the run is still pending, or it has fired after its five seconds and
  at that moment the run was ended (if its results had not ended it before).\<close>
theorem complete_progress_ends_run:
  assumes "find_run st (pm_testId p) \<noteq> None" and "pm_progress p = 100"
    and "(life_step env)\<^sup>*\<^sup>* (handleTestProgress now d p st) st'"
    and "t = (now + RESULTS_TIMEOUT_MS, ResultsTimeout (pm_testId p) d)"
  shows "t \<in> set (ts_timers st') \<or>
    (\<exists>sa sb now'. (life_step env)\<^sup>*\<^sup>* (handleTestProgress now d p st) sa \<and> now + 5000 \<le> now' \<and>
       sb = results_timeout now' (pm_testId p) d (expire_timer t sa) \<and> (life_step env)\<^sup>*\<^sup>* sb st' \<and>
       (\<forall>r. find_run sb (pm_testId p) = Some r \<longrightarrow> lr_status r \<noteq> Running))"
proof -
  have "waiting t (handleTestProgress now d p st)"
    using assms(1,2) by (auto simp: waiting_def handleTestProgress_def Let_def assms(4))
  from waiting_steps [OF assms(3) this] show ?thesis
  proof
    assume "waiting t st'"
    then show ?thesis by (simp add: waiting_def)
  next
    assume "\<exists>sa now'. (life_step env)\<^sup>*\<^sup>* (handleTestProgress now d p st) sa \<and> fst t \<le> now' \<and> waiting t sa \<and>
      (life_step env)\<^sup>*\<^sup>* (fire_timer env now' (snd t) (expire_timer t sa)) st'"
    then obtain sa now' where fired: "(life_step env)\<^sup>*\<^sup>* (handleTestProgress now d p st) sa" "fst t \<le> now'"
      "(life_step env)\<^sup>*\<^sup>* (fire_timer env now' (snd t) (expire_timer t sa)) st'"
      by blast
    then show ?thesis
      using timeout_ends [of now' "pm_testId p" d "expire_timer t sa"]
      by (intro disjI2 exI [of _ sa] exI [of _ "results_timeout now' (pm_testId p) d (expire_timer t sa)"] exI [of _ now'])
        (auto simp: fire_timer_def assms(4) RESULTS_TIMEOUT_MS_def)
  qed
qed

section \<open>Tests of the server\<close>

text \<open>A batch of the server is not visible in its run until it ends: the run stays queued.\<close>

lemma key_of_local_finish:
  assumes "ts_local st = Some b" and "find_run st (lb_testId b) = Some r"
  shows "\<exists>s. (s = Completed \<or> s = TestFailed) \<and> key_of (local_finish net now st) (lb_testId b) = Some (lb_testId b, lr_deviceId r, s)"
  using assms find_run_mem [OF assms(2)]
  by (simp add: local_finish_def Let_def key_of_update run_key_def find_run_update)

text \<open>Cancelling a test of the server does not stop it.  The request is answered as if it did and the
  run is marked as cancelled, but the batch goes on (the message goes to a broker the server does not listen on),
  and when it ends the cancelled run becomes completed or failed.\<close>
lemma cancelled_server_test_completes:
  assumes "cancelTest now t st = (TestCancelled, st1)" and "ts_local st = Some b" and "lb_testId b = t"
  shows "(\<exists>r. find_run st1 t = Some r \<and> lr_status r = Cancelled) \<and> ts_local st1 = Some b \<and>
    (\<exists>r. find_run (local_finish net now1 st1) t = Some r \<and> (lr_status r = Completed \<or> lr_status r = TestFailed))"
proof -
  obtain r where "find_run st t = Some r"
    using assms(1) by (auto simp: cancelTest_def split: option.splits)
  then have r1: "find_run st1 t = Some (r\<lparr>lr_status := Cancelled, lr_completedAt := Some now\<rparr>)"
    using assms(1) by (auto simp: cancelTest_def find_run_update split: if_splits option.splits)
  moreover have local: "ts_local st1 = Some b"
    using assms(1,2) by (auto simp: cancelTest_def split: if_splits option.splits)
  ultimately show ?thesis
    using key_of_local_finish [OF local, of _ net now1] assms(3) by (auto simp: key_of_find run_key_def)
qed

lemma only_active_run:
  assumes "life_inv st" and "active_on i st = [t]" and "find_run st t = Some r"
  shows "active_run st i = Some r"
proof -
  let ?as = "filter (\<lambda>r. lr_deviceId r = i \<and> is_active_run r) (ts_runs st)"
  obtain r' where as: "?as = [r']" "pc_id r' = t"
    using assms(2) by (auto simp: active_on_def map_eq_Cons_conv)
  then have "r' \<in> set (ts_runs st)"
    by (metis filter_is_subset list.set_intros(1) subsetD)
  then have "r' = r"
    using same_run [OF assms(1)] as(2) assms(3) by fastforce
  then show ?thesis
    using as(1) by (simp add: active_run_def)
qed

lemma find_append_None: "find P xs = None \<Longrightarrow> find P (xs @ ys) = find P ys"
  by (induction xs) (auto split: if_splits)

lemma find_new: "life_inv st \<Longrightarrow> create_run now i ty c st = (t, st') \<Longrightarrow> find_run st' t = Some (queued_run now t i ty c)"
proof -
  assume inv: "life_inv st" and new: "create_run now i ty c st = (t, st')"
  have "new_run_id (ts_nextRun st) \<notin> pc_id ` set (ts_runs st)"
    using inv by (auto simp: life_inv_def runs_ok_def)
  then have none: "find (\<lambda>r. pc_id r = new_run_id (ts_nextRun st)) (ts_runs st) = None"
    unfolding find_None_iff by (metis imageI)
  then show ?thesis
    using new find_append_None [OF none] by (auto simp: create_run_def Let_def find_run_def queued_run_def)
qed

lemma key_of_new: "life_inv st \<Longrightarrow> create_run now i ty c st = (t, st') \<Longrightarrow> key_of st' t = Some (t, i, Queued)"
  by (simp add: key_of_find find_new run_key_def queued_run_def)

text \<open>A batch that is running keeps the executor.\<close>

lemma local_kept [simp]:
  "ts_local (store_patch t p st) = ts_local st" "create_run now i ty c st = (t, st') \<Longrightarrow> ts_local st' = ts_local st"
  by (auto simp: store_patch_def merge_run_results_eq create_run_def Let_def split: option.split)

lemma connectivity_test: "getTestDefinition ''connectivity'' \<noteq> None"
  by code_simp

text \<open>A test of the server that takes more than two minutes is overrun.  Its run stays queued
  while the batch executes, so it counts as stale: the next request marks it as failed and starts a test whose
  commands are dropped because the executor is busy.  When the old batch ends, the run that was reported as failed
  gets its results and the new run is still queued, with nothing left that would execute it (sending it again goes to the broker, where the server does not
  listen).\<close>
lemma slow_server_test_overrun:
  assumes "life_start st0" and "(life_step env)\<^sup>*\<^sup>* st0 st"
    and "ts_local st = Some b" and "find_run st (lb_testId b) = Some r" and "lr_status r = Queued"
    and "2 * 60 * 1000 < now - lr_startedAt r" and "active_on (lr_deviceId r) st = [lb_testId b]"
    and "find_device (by_dbId (lr_deviceId r)) st = Some dev" and "dw_deviceId dev = SERVER_DEVICE_ID"
    and "dw_status dev = DevOnline" and "sq_deviceId q = lr_deviceId r" and "sq_testType q = ''connectivity''"
    and "\<not> sq_excludeHoneypots q"
  shows "\<exists>t st1 s. startTest cmp now q st = (TestStarted t, st1) \<and> t \<noteq> lb_testId b \<and>
    key_of st1 (lb_testId b) = Some (lb_testId b, lr_deviceId r, TestFailed) \<and>
    ts_local st1 = Some b \<and> ts_sent st1 = ts_sent st \<and>
    (s = Completed \<or> s = TestFailed) \<and>
    key_of (local_finish net now1 st1) (lb_testId b) = Some (lb_testId b, lr_deviceId r, s) \<and>
    key_of (local_finish net now1 st1) t = Some (t, lr_deviceId r, Queued) \<and>
    ts_local (local_finish net now1 st1) = None \<and> ts_sent (local_finish net now1 st1) = ts_sent st"
proof -
  have inv: "life_inv st" by (rule life.reachable_inv [OF assms(1,2)])
  let ?dev = "lr_deviceId r" and ?old = "lb_testId b"
  let ?c = "clear_stale now r ?dev st"
  have old: "pc_id r = ?old" using find_run_mem [OF assms(4)] by simp
  have invc: "life_inv ?c"
    using inv by (auto simp: clear_stale_def intro!: inv_update_run proper_fail)
  have keyc: "key_of ?c j = (if j = ?old then Some (?old, ?dev, TestFailed) else key_of st j)" for j
    using assms(4) old by (simp add: clear_stale_def key_of_update run_key_def fail_run_def)
  have "j \<notin> set (active_on ?dev ?c)" for j
    using active_on_iff [OF invc, of j ?dev] keyc [of j] active_on_iff [OF inv, of j ?dev] assms(7) by auto
  then have free: "active_run ?c ?dev = None"
    unfolding active_run_None by (metis list.set_intros(1) neq_Nil_conv)
  obtain t st2 where new: "create_run now ?dev (sq_testType q)
      (if truthy (sq_configId q) then sq_configId q else ts_configId ?c) ?c = (t, st2)"
    by fastforce
  let ?st1 = "set_device_status (by_dbId ?dev) DevTesting st2"
  obtain def where "def": "getTestDefinition ''connectivity'' = Some def" using connectivity_test by blast
  have local: "ts_local ?st1 = Some b" and sent: "ts_sent ?st1 = ts_sent st"
    using new assms(3) by (auto simp: create_run_def Let_def clear_stale_def set_device_status_def)
  have "begin_test cmp now q dev ?c = (TestStarted t, ?st1)"
    using new "def" local assms(9,11,12,13)
    by (simp add: begin_test_def Let_def run_commands_def prepare_commands_def start_exclusions_def store_patch_def
        exclusions_patch_def dispatch_def local_start_def)
  then have start: "startTest cmp now q st = (TestStarted t, ?st1)"
    using only_active_run [OF inv assms(7,4)] free assms(5,6,8,10,11) by (simp add: startTest_def stale_run_def Let_def)
  have t1: "key_of ?st1 t = Some (t, ?dev, Queued)"
    using key_of_new [OF invc new] by simp
  have old1: "key_of ?st1 ?old = Some (?old, ?dev, TestFailed)"
    using key_of_create [OF new] keyc [of ?old] by simp
  have ne: "t \<noteq> ?old" using t1 old1 by auto
  obtain r1 where r1: "find_run ?st1 ?old = Some r1" "lr_deviceId r1 = ?dev"
    using old1 by (auto simp: key_of_find run_key_def)
  obtain s where "s = Completed \<or> s = TestFailed" "key_of (local_finish net now1 ?st1) ?old = Some (?old, ?dev, s)"
    using key_of_local_finish [OF local r1(1), of net now1] r1(2) by auto
  moreover have "key_of (local_finish net now1 ?st1) t = key_of ?st1 t"
    using ne local r1 by (auto simp: local_finish_def Let_def key_of_update) (simp_all add: key_of_def)
  moreover have "ts_local (local_finish net now1 ?st1) = None" "ts_sent (local_finish net now1 ?st1) = ts_sent st"
    using local r1 sent by (auto simp: local_finish_def Let_def set_device_status_def)
  ultimately show ?thesis
    using start ne old1 local sent t1 by metis
qed

section \<open>Tests that are sent again\<close>

definition resent :: "test_state \<Rightarrow> life_run \<Rightarrow> outgoing list" where
  "resent st r =
     (case find_device (by_dbId (lr_deviceId r)) st of
        None \<Rightarrow> []
      | Some d \<Rightarrow>
          (case getTestDefinition (pc_testType r) of
             None \<Rightarrow> []
           | Some def \<Rightarrow>
               if (dw_status d = DevOnline \<or> dw_status d = DevTesting) \<and> ts_connected st
               then [MqttCommand (dw_deviceId d) ''execute'' (execute_payload (pc_id r) (df_commands def) [])] else []))"

lemma retry_sent: "ts_sent (foldl retry_run st rs) = ts_sent st @ concat (map (resent st) rs)"
proof (induction rs arbitrary: st)
  case (Cons r rs)
  have same: "resent (retry_run st r) = resent st"
    by (rule ext) (auto simp: resent_def retry_run_def sendCommand_def find_device_def split: option.split)
  have "ts_sent (retry_run st r) = ts_sent st @ resent st r"
    by (auto simp: resent_def retry_run_def sendCommand_def split: option.split)
  then show ?case using Cons.IH [of "retry_run st r"] by (simp add: same)
qed simp

text \<open>A generated test is sent again without its commands.  The job that repeats a lost command
  takes the commands from the fixed definitions, which are empty for the tests whose commands were generated when
  they were started: the device is told to execute nothing, and the run then completes without having tested
  anything.\<close>
lemma retry_drops_commands:
  assumes "r \<in> set (ts_runs st)" and "retry_due now r"
    and "pc_testType r = ''topology_validation'' \<or> pc_testType r = ''device_to_device''"
    and "find_device (by_dbId (lr_deviceId r)) st = Some d" and "dw_status d = DevOnline \<or> dw_status d = DevTesting"
    and "ts_connected st"
  shows "MqttCommand (dw_deviceId d) ''execute''
      [(''testId'', JStr (pc_id r)), (''commands'', JArr []), (''honeypotExclusions'', JArr [])]
    \<in> set (ts_sent (retryQueuedTests now st))"
proof -
  have "map_option df_commands (getTestDefinition ''topology_validation'') = Some []"
    "map_option df_commands (getTestDefinition ''device_to_device'') = Some []"
    by code_simp+
  then obtain def where "getTestDefinition (pc_testType r) = Some def" "df_commands def = []"
    using assms(3) by auto
  then have "resent st r = [MqttCommand (dw_deviceId d) ''execute''
      [(''testId'', JStr (pc_id r)), (''commands'', JArr []), (''honeypotExclusions'', JArr [])]]"
    using assms(4-6) by (simp add: resent_def execute_payload_def)
  then show ?thesis
    using assms(1,2) by (force simp: retryQueuedTests_def retry_sent)
qed

section \<open>Examples\<close>

theorem stale_cleanup_exact_witness:
  "ts_runs (cleanupStaleTests 2000000 (demo_start 0 (demo_state DevOnline []))) = [fail_run 2000000 ''Test timed out'' (demo_life Queued)]"
  using stale_cleanup_exact [OF demo_init demo_reached refl, of 2000000] demo_started(2)
  by (simp add: overdue_def is_active_run_def demo_life_def queued_run_def)

definition demo_complete :: progress_message where
  "demo_complete = \<lparr>pm_testId = ''c0'', pm_progress = 100, pm_currentStep = None\<rparr>"

definition demo_fired :: test_state where
  "demo_fired =
     fire_timer demo_env 5000 (ResultsTimeout ''c0'' ''esp1'') (expire_timer (5000, ResultsTimeout ''c0'' ''esp1'')
       (handleTestProgress 0 ''esp1'' demo_complete (demo_state DevTesting [demo_life Running])))"

theorem complete_progress_ends_run_witness:
  "\<exists>sb. (life_step demo_env)\<^sup>*\<^sup>* sb demo_fired \<and> map_option lr_status (find_run sb ''c0'') \<noteq> Some Running"
proof -
  let ?st = "demo_state DevTesting [demo_life Running]" and ?t = "(5000, ResultsTimeout ''c0'' ''esp1'')"
  let ?s1 = "handleTestProgress 0 ''esp1'' demo_complete ?st"
  have timers: "ts_timers ?s1 = [?t]" and gone: "ts_timers demo_fired = []" and run: "find_run ?st (pm_testId demo_complete) = Some (demo_life Running)"
    by code_simp+
  have "life_step demo_env ?s1 demo_fired"
    using life_step.timer [of ?t ?s1 5000 demo_env] timers by (simp add: demo_fired_def)
  then have reach: "(life_step demo_env)\<^sup>*\<^sup>* ?s1 demo_fired" by blast
  from complete_progress_ends_run [OF _ _ reach refl] run gone
  obtain sb where "(life_step demo_env)\<^sup>*\<^sup>* sb demo_fired" "\<forall>r. find_run sb ''c0'' = Some r \<longrightarrow> lr_status r \<noteq> Running"
    by (auto simp: demo_complete_def)
  then show ?thesis by (intro exI [of _ sb]) auto
qed

text \<open>The server as its own device.\<close>

definition demo_server :: test_state where
  "demo_server = (demo_state DevOnline [])\<lparr>ts_devices := [(demo_device DevOnline)\<lparr>dw_deviceId := SERVER_DEVICE_ID\<rparr>]\<rparr>"

definition demo_batch :: local_batch where
  "demo_batch = the (ts_local (demo_start 0 demo_server))"

lemma demo_server_runs:
  "ts_local (demo_start 0 demo_server) = Some demo_batch" "lb_testId demo_batch = ''c0''"
  by code_simp+

lemma cancelled_server_test_completes_witness:
  "map_option lr_status (find_run (local_finish trap_net 9 (snd (cancelTest 5 ''c0'' (demo_start 0 demo_server)))) ''c0'')
    \<noteq> Some Cancelled"
proof -
  have "fst (cancelTest 5 ''c0'' (demo_start 0 demo_server)) = TestCancelled" by code_simp
  then have "cancelTest 5 ''c0'' (demo_start 0 demo_server) = (TestCancelled, snd (cancelTest 5 ''c0'' (demo_start 0 demo_server)))"
    by (simp add: prod_eq_iff)
  from cancelled_server_test_completes [OF this demo_server_runs, of trap_net 9] show ?thesis by auto
qed

text \<open>The heartbeat of the server puts it online while the batch executes.\<close>

definition demo_busy :: test_state where
  "demo_busy = ensureServerDevice trap_net [] None 60000 ''d2'' (demo_start 0 demo_server)"

lemma slow_server_test_overrun_witness:
  "\<exists>t st1. startTest (\<lambda>_ _. 0) 130000 (demo_request ''connectivity'') demo_busy = (TestStarted t, st1) \<and>
    ts_local st1 = Some demo_batch \<and> key_of (local_finish trap_net 140000 st1) t = Some (t, ''d1'', Queued)"
proof -
  have init: "life_start demo_server" by (simp add: life_start_def demo_server_def demo_state_def)
  have "fresh_row ''d2'' (demo_start 0 demo_server)"
  proof -
    have "map dw_id (ts_devices (demo_start 0 demo_server)) = [''d1'']" by code_simp
    then have "''d2'' \<notin> set (map dw_id (ts_devices (demo_start 0 demo_server)))" by (simp only:) simp
    then show ?thesis by (simp add: fresh_row_def)
  qed
  then have "life_step demo_env (demo_start 0 demo_server) demo_busy"
    using life_step.heartbeat [of "''d2''" "demo_start 0 demo_server" demo_env "[]" None 60000]
    by (simp add: demo_busy_def demo_env_def)
  then have reach: "(life_step demo_env)\<^sup>*\<^sup>* demo_server demo_busy"
    using demo_start_step by (meson converse_rtranclp_into_rtranclp r_into_rtranclp)
  have busy: "ts_local demo_busy = Some demo_batch" "find_run demo_busy (lb_testId demo_batch) = Some (demo_life Queued)"
      "active_on (lr_deviceId (demo_life Queued)) demo_busy = [lb_testId demo_batch]"
      "map_option (\<lambda>d. (dw_deviceId d, dw_status d)) (find_device (by_dbId (lr_deviceId (demo_life Queued))) demo_busy) =
        Some (SERVER_DEVICE_ID, DevOnline)"
    by code_simp+
  obtain dev where dev: "find_device (by_dbId (lr_deviceId (demo_life Queued))) demo_busy = Some dev"
      "dw_deviceId dev = SERVER_DEVICE_ID" "dw_status dev = DevOnline"
    using busy(4) by auto
  have queued: "lr_status (demo_life Queued) = Queued" "2 * 60 * 1000 < 130000 - lr_startedAt (demo_life Queued)"
      "sq_deviceId (demo_request ''connectivity'') = lr_deviceId (demo_life Queued)"
      "sq_testType (demo_request ''connectivity'') = ''connectivity''" "\<not> sq_excludeHoneypots (demo_request ''connectivity'')"
      "lr_deviceId (demo_life Queued) = ''d1''"
    by (simp_all add: demo_life_def queued_run_def demo_request_def)
  have "\<exists>t st1 s. startTest (\<lambda>_ _. 0) 130000 (demo_request ''connectivity'') demo_busy = (TestStarted t, st1) \<and>
    t \<noteq> lb_testId demo_batch \<and> key_of st1 (lb_testId demo_batch) = Some (lb_testId demo_batch, ''d1'', TestFailed) \<and>
    ts_local st1 = Some demo_batch \<and> ts_sent st1 = ts_sent demo_busy \<and> (s = Completed \<or> s = TestFailed) \<and>
    key_of (local_finish trap_net 140000 st1) (lb_testId demo_batch) = Some (lb_testId demo_batch, ''d1'', s) \<and>
    key_of (local_finish trap_net 140000 st1) t = Some (t, ''d1'', Queued) \<and>
    ts_local (local_finish trap_net 140000 st1) = None \<and> ts_sent (local_finish trap_net 140000 st1) = ts_sent demo_busy"
    using slow_server_test_overrun [OF init reach busy(1,2) queued(1,2) busy(3) dev queued(3,4,5),
        where cmp = "\<lambda>_ _. 0" and net = trap_net and ?now1.0 = 140000]
    unfolding queued(6) .
  then show ?thesis by blast
qed

lemma demo_id: "new_run_id 0 = ''c0''"
  by code_simp

lemma retry_drops_commands_witness:
  "MqttCommand ''esp1'' ''execute'' [(''testId'', JStr ''c0''), (''commands'', JArr []), (''honeypotExclusions'', JArr [])]
    \<in> set (ts_sent (retryQueuedTests 200000 (demo_state DevTesting [(demo_life Queued)\<lparr>pc_testType := ''topology_validation''\<rparr>])))"
  using retry_drops_commands [of "(demo_life Queued)\<lparr>pc_testType := ''topology_validation''\<rparr>"
      "demo_state DevTesting [(demo_life Queued)\<lparr>pc_testType := ''topology_validation''\<rparr>]" 200000 "demo_device DevTesting"]
    demo_id
  by (simp add: demo_state_def retry_due_def demo_life_def queued_run_def find_device_def by_dbId_def demo_device_def)

end
