(* ===== verification/Test_Composition.thy ===== *)
theory Test_Composition
  imports Test_Outcomes
begin

text \<open>
  A topology test from its start to its vulnerabilities, across \<open>autoValidationService.ts\<close>,
  \<open>topologyTestGenerator.ts\<close>, \<open>testRunResultsJson.ts\<close>, \<open>mqtt/index.ts\<close> and \<open>testProcessor.ts\<close>: the
  metadata that the generator writes is what the analysis of the answers reads, whatever the device reports.
\<close>

section \<open>Metadata is kept\<close>

lemma distinct_legacy: "distinct (om_keys (extractLegacyMetadata p))"
  by (simp add: extractLegacyMetadata_def legacyKeys_def set_defined_def)

lemma get_legacy:
  "om_get (extractLegacyMetadata p) ''topologyMetadata'' =
     (if field p ''topologyMetadata'' = JUndef then None else Some (field p ''topologyMetadata''))"
  by (simp add: extractLegacyMetadata_def legacyKeys_def set_defined_def om_get_def)

definition silent_on_topology :: "json \<Rightarrow> bool" where
  "silent_on_topology payload \<longleftrightarrow>
     field (asJsonObject payload) ''topologyMetadata'' = JUndef \<and>
     (let m = asJsonObject (field (asJsonObject payload) ''metadata'') in
      distinct (om_keys m) \<and> om_get m ''topologyMetadata'' = None)"

lemma get_merged:
  assumes "distinct (om_keys p)"
  shows "field (obj_fields (mergeJson (JObj b) (JObj p))) k =
    (case om_get p k of None \<Rightarrow> field b k | Some v \<Rightarrow> mergeJson (field b k) v)"
  using assms by (simp add: mergeJson_JObj field_def om_get_merge_entries dflt_def split: option.split)

text \<open>A message that does not speak of the topology leaves the metadata of the run.\<close>

definition has_topology :: "(string \<times> json) list \<Rightarrow> json \<Rightarrow> bool" where
  "has_topology md j \<longleftrightarrow> md \<noteq> [] \<and> mergeJson (JObj md) (JObj md) = JObj md \<and>
     field (asJsonObject (field (asJsonObject j) ''metadata'')) ''topologyMetadata'' = JObj md \<and>
     (field (asJsonObject j) ''topologyMetadata'' = JObj md \<or> field (asJsonObject j) ''topologyMetadata'' = JUndef)"

lemma has_topology_stored: "has_topology md j \<Longrightarrow> stored_metadata j = md"
  by (simp add: has_topology_def stored_metadata_def Let_def)

lemma structured_keeps_topology:
  assumes j: "has_topology md j" and "silent_on_topology payload"
  shows "has_topology md (JObj (buildStructuredResultsJson j payload tp))"
proof -
  let ?cur = "asJsonObject j" and ?inc = "asJsonObject payload"
  let ?r = "buildStructuredResultsJson j payload tp"
  let ?A = "mergeJson (JObj (asJsonObject (field ?cur ''metadata''))) (JObj (extractLegacyMetadata ?cur))"
  let ?B = "mergeJson (JObj (asJsonObject (field ?inc ''metadata''))) (JObj (extractLegacyMetadata ?inc))"
  obtain a where a: "?A = JObj a" using merge_object by blast
  obtain b where b: "?B = JObj b" using merge_object by blast
  have A: "field a ''topologyMetadata'' = JObj md"
    using get_merged [OF distinct_legacy, of "asJsonObject (field ?cur ''metadata'')" ?cur "''topologyMetadata''"] j
    by (auto simp: a get_legacy has_topology_def)
  have "distinct (om_keys b)" "om_get b ''topologyMetadata'' = None"
    using assms(2) b by (auto simp: mergeJson_JObj silent_on_topology_def Let_def distinct_merge_entries
        om_get_merge_entries [OF distinct_legacy] get_legacy)
  then have "field (obj_fields (merged_metadata ?cur ?inc)) ''topologyMetadata'' = JObj md"
    unfolding merged_metadata_def a b using A by (simp add: get_merged)
  moreover obtain m where "merged_metadata ?cur ?inc = JObj m"
    unfolding merged_metadata_def a b using merge_object by blast
  ultimately have nested: "field (asJsonObject (field ?r ''metadata'')) ''topologyMetadata'' = JObj md"
    and md: "field (obj_fields (merged_metadata ?cur ?inc)) ''topologyMetadata'' = JObj md"
    by (simp_all add: structured_fields)
  have "field ?r ''topologyMetadata'' = JObj md"
    using md by (simp add: buildStructuredResultsJson_def Let_def field_set_defined)
  then show ?thesis
    using j nested by (simp add: has_topology_def)
qed

section \<open>Storing vulnerabilities\<close>

lemma store_runs: "store_finding run c now f (db\<lparr>pd_runs := rs\<rparr>) = (store_finding run c now f db)\<lparr>pd_runs := rs\<rparr>"
  by (simp add: store_finding_def split: option.split)

lemma create_runs: "createVulnerabilities clock fs run c (db\<lparr>pd_runs := rs\<rparr>) = (createVulnerabilities clock fs run c db)\<lparr>pd_runs := rs\<rparr>"
proof -
  have "foldl (\<lambda>db nf. store_finding run c (clock (fst nf)) (snd nf) db) (db\<lparr>pd_runs := rs\<rparr>) nfs =
      (foldl (\<lambda>db nf. store_finding run c (clock (fst nf)) (snd nf) db) db nfs)\<lparr>pd_runs := rs\<rparr>" for nfs
    by (induction nfs arbitrary: db) (simp_all add: store_runs)
  then show ?thesis by (simp add: createVulnerabilities_def)
qed

section \<open>The stored plan\<close>

lemma merge_leaves:
  assumes "distinct (om_keys md)" "list_all (\<lambda>kv. \<not> isRecord (snd kv)) md"
  shows "mergeJson (JObj md) (JObj md) = JObj md"
proof -
  have "mergeJson v v = v" if "om_get md k = Some v" for k v
  proof -
    have "(k, v) \<in> set md" using that by (simp add: om_get_def map_of_SomeD)
    then show ?thesis using assms(2) by (intro mergeJson_leaf) (auto simp: list_all_iff)
  qed
  then show ?thesis by (simp add: mergeJson_JObj merge_entries_self assms(1))
qed

lemma isRecord_cases [simp]: "\<not> isRecord (JArr xs)" "\<not> isRecord (opt_json s)" "\<not> isRecord (or_null s)"
  by (simp_all add: isRecord_def opt_json_def or_null_def split: option.split)

definition plain_metadata :: "json \<Rightarrow> bool" where
  "plain_metadata j \<longleftrightarrow> (\<exists>md. j = JObj md \<and> md \<noteq> [] \<and> mergeJson (JObj md) (JObj md) = JObj md)"

lemma topology_metadata_plain: "plain_metadata (topology_metadata a b c d e f)"
proof -
  obtain md where md: "topology_metadata a b c d e f = JObj md" "md \<noteq> []" "distinct (om_keys md)"
    "list_all (\<lambda>kv. \<not> isRecord (snd kv)) md"
    by (simp add: topology_metadata_def)
  then show ?thesis using merge_leaves by (auto simp: plain_metadata_def)
qed

lemma generated_metadata:
  "generateTopologyTestCommands cmp db ip = Some (commands, metadata) \<Longrightarrow> 1 < length commands \<Longrightarrow> plain_metadata metadata"
  by (auto simp: generateTopologyTestCommands_def no_plan_def Let_def topology_metadata_plain split: option.splits if_splits)

lemma patch_has_topology:
  assumes "md \<noteq> []" "mergeJson (JObj md) (JObj md) = JObj md"
  shows "has_topology md (mergeJson (JObj []) (JObj (metadata_patch ''topologyMetadata'' (JObj md))))"
proof -
  let ?p = "metadata_patch ''topologyMetadata'' (JObj md)"
  have keys: "distinct (om_keys ?p)" by (simp add: metadata_patch_def)
  have gets: "om_get ?p ''metadata'' = Some (JObj [(''topologyMetadata'', JObj md)])" "om_get ?p ''topologyMetadata'' = Some (JObj md)"
    by (simp_all add: metadata_patch_def om_get_def)
  have undef: "mergeJson JUndef v = v" for v by (simp add: mergeJson_leaf isRecord_def)
  obtain q where q: "mergeJson (JObj []) (JObj ?p) = JObj q" using merge_object by blast
  have "field q k = (case om_get ?p k of None \<Rightarrow> JUndef | Some v \<Rightarrow> v)" for k
    using get_merged [OF keys, of "[]" k] by (simp add: q undef split: option.splits)
  then show ?thesis
    using assms gets by (simp add: q has_topology_def field_def [of "[_]"] om_get_def dflt_def)
qed

lemma launch_run:
  assumes inv: "life_inv st" and go: "launch now i m ty (commands, Some patch) st = (Some t, st')"
  obtains r where "find_run st' t = Some r" "pc_testType r = ty" "pc_configId r = ts_configId st"
    "pc_resultsJson r = mergeJson (JObj []) (JObj patch)" "ts_store st' = ts_store st"
proof -
  obtain st1 where new: "create_run now i ty (ts_configId st) st = (t, st1)"
    and st': "st' = dispatch m t commands [] (set_device_status (by_dbId i) DevTesting (store_patch t (Some patch) st1))"
    using go by (auto simp: launch_def Let_def split: prod.splits)
  have run: "find_run st1 t = Some (queued_run now t i ty (ts_configId st))"
    by (rule find_new [OF inv new])
  have store: "ts_store st1 = ts_store st"
    using new by (auto simp: create_run_def Let_def)
  have "find_run st' t = find_run (store_patch t (Some patch) st1) t" "ts_store st' = ts_store st"
    using store by (auto simp: st' find_run_def store_patch_def merge_run_results_eq dispatch_def local_start_def)
  then show thesis
    using run that by (auto simp: store_patch_def merge_run_results_eq find_run_update queued_run_def asJsonObject_def isRecord_def dflt_def)
qed

section \<open>The answers\<close>

lemma find_truncated:
  "find (\<lambda>r. pc_id r = t) (map processor_run.truncate (rs :: life_run list)) =
     map_option processor_run.truncate (find (\<lambda>r. pc_id r = t) rs)"
  by (induction rs) (auto simp: processor_run.defs)

lemma processed_topology:
  assumes "find_run st t = Some r" and "pc_testType r = ''topology_validation''" and "has_topology md (pc_resultsJson r)"
    and "field results ''commandResults'' = JArr xs" and "analyzeTopologyResults xs md = Some analysis"
  shows "pd_vulns (ts_store (process_results typed clock t results st)) =
    pd_vulns (createVulnerabilities clock (map breach_finding (filter is_breach analysis)) t (pc_configId r) (ts_store st))"
proof -
  let ?row = "processor_run.truncate r"
  have row: "find (\<lambda>r. pc_id r = t) (map processor_run.truncate (ts_runs st)) = Some ?row"
    using assms(1) by (simp add: find_truncated find_run_def)
  have "pc_testType ?row = ''topology_validation''" "stored_metadata (pc_resultsJson ?row) = md" "pc_configId ?row = pc_configId r"
    using assms(2) has_topology_stored [OF assms(3)] by (simp_all add: processor_run.defs)
  then show ?thesis
    using assms(4,5) row
    by (simp add: process_results_def processTestResults_def processTopologyValidationResults_def json_or_def js_items_def
        Let_def create_runs)
qed

lemma results_processed:
  assumes run: "find_run st t = Some r" and ty: "pc_testType r = ''topology_validation''" and md: "has_topology md (pc_resultsJson r)"
    and res: "rm_testId res = t" "silent_on_topology (rm_results res)"
    and xs: "extractCommandResults (asJsonObject (rm_results res)) = xs" "xs \<noteq> []"
    and dev: "find_device (by_deviceId d) st \<noteq> None" and ok: "analyzeTopologyResults xs md = Some analysis"
  shows "pd_vulns (ts_store (handleTestResults typed clock now d res st)) =
    pd_vulns (createVulnerabilities clock (map breach_finding (filter is_breach analysis)) t (pc_configId r) (ts_store st))"
proof -
  let ?s = "buildStructuredResultsJson (pc_resultsJson r) (rm_results res) (rm_transport res)"
  let ?g = "\<lambda>x. x\<lparr>lr_status := (if rm_success res then Completed else TestFailed), lr_progress := 100, lr_completedAt := Some now,
      lr_duration := Some (of_int \<lfloor>of_int (now - lr_startedAt r) / (1000 :: rat)\<rfloor>), pc_resultsJson := JObj ?s,
      lr_errorMessage := nullish (rm_error res) (lr_errorMessage x)\<rparr>"
  let ?st2 = "set_device_status (by_deviceId d) DevOnline (update_run t ?g (drop_buffer t st))"
  have drop: "find_run (drop_buffer t st) t = Some r" "find_device (by_deviceId d) (drop_buffer t st) \<noteq> None"
      "ts_store (drop_buffer t st) = ts_store st"
    using run dev by (simp_all add: drop_buffer_def find_run_def find_device_def)
  have "find_run ?st2 t = Some (?g r)"
    using drop(1) by (simp add: find_run_update)
  moreover have "has_topology md (JObj ?s)"
    by (rule structured_keeps_topology [OF md res(2)])
  moreover have "field ?s ''commandResults'' = JArr xs"
    using xs by (simp add: structured_fields prefer_new_def)
  ultimately have "pd_vulns (ts_store (process_results typed clock t ?s ?st2)) =
      pd_vulns (createVulnerabilities clock (map breach_finding (filter is_breach analysis)) t (pc_configId r) (ts_store st))"
    using processed_topology [of ?st2 t "?g r" md ?s xs analysis typed clock] ty ok drop(3) by simp
  moreover have "handleTestResults typed clock now d res st = process_results typed clock t ?s ?st2"
    using drop ty res(1) by (auto simp: handleTestResults_def Let_def find_device_update)
  ultimately show ?thesis by simp
qed

text \<open>Progress leaves what the answers are read with.\<close>

lemma progress_row:
  assumes "find_run st t = Some r"
  obtains r' where "find_run (handleTestProgress now d p st) t = Some r'" "pc_testType r' = pc_testType r"
    "pc_configId r' = pc_configId r" "pc_resultsJson r' = pc_resultsJson r"
proof -
  have row: "find_run (handleTestProgress now d p st) t = (if pm_testId p = t
      then Some (r\<lparr>lr_progress := pm_progress p, lr_currentStep := nullish (pm_currentStep p) (lr_currentStep r), lr_status := Running\<rparr>)
      else Some r)"
    using assms unfolding handleTestProgress_def Let_def
    by (cases "find_run st (pm_testId p) = None"; cases "pm_progress p = 100") (auto simp: find_run_update)
  show thesis
    by (cases "pm_testId p = t") (use row that in auto)
qed

definition progressing :: "(int \<times> string \<times> progress_message) list \<Rightarrow> test_state \<Rightarrow> test_state" where
  "progressing ps st = foldl (\<lambda>st p. handleTestProgress (fst p) (fst (snd p)) (snd (snd p)) st) st ps"

lemma progressing_row:
  assumes "find_run st t = Some r"
  shows "\<exists>r'. find_run (progressing ps st) t = Some r' \<and> pc_testType r' = pc_testType r \<and> pc_configId r' = pc_configId r \<and>
    pc_resultsJson r' = pc_resultsJson r"
  using assms
proof (induction ps arbitrary: st r)
  case (Cons p ps)
  obtain r' where "find_run (handleTestProgress (fst p) (fst (snd p)) (snd (snd p)) st) t = Some r'" "pc_testType r' = pc_testType r"
    "pc_configId r' = pc_configId r" "pc_resultsJson r' = pc_resultsJson r"
    by (rule progress_row [OF Cons.prems])
  with Cons.IH [of "handleTestProgress (fst p) (fst (snd p)) (snd (snd p)) st" r'] show ?case
    by (simp add: progressing_def)
qed (simp add: progressing_def)

lemma progressing_others: "ts_devices (progressing ps st) = ts_devices st" "ts_store (progressing ps st) = ts_store st"
  unfolding progressing_def
  by (induction ps arbitrary: st) (auto simp: handleTestProgress_def Let_def)

lemma device_known: "find_device (by_deviceId d) st \<noteq> None \<longleftrightarrow> d \<in> dw_deviceId ` set (ts_devices st)"
  by (auto simp: find_device_None by_deviceId_def)

lemma launch_devices: "launch now i m ty plan st = (Some t, st') \<Longrightarrow> dw_deviceId ` set (ts_devices st') = dw_deviceId ` set (ts_devices st)"
proof -
  assume go: "launch now i m ty plan st = (Some t, st')"
  obtain st1 where new: "create_run now i ty (ts_configId st) st = (t, st1)"
    and st': "st' = dispatch m t (fst plan) [] (set_device_status (by_dbId i) DevTesting (store_patch t (snd plan) st1))"
    using go by (auto simp: launch_def Let_def split: prod.splits)
  have patch: "ts_devices (store_patch t q st) = ts_devices st" for q st
    by (simp add: store_patch_def merge_run_results_eq split: option.split)
  have "ts_devices (dispatch m t cs xs st) = ts_devices st" for cs xs st
    by (simp add: dispatch_def local_start_def)
  moreover have "ts_devices st1 = ts_devices st"
    using new by (auto simp: create_run_def Let_def)
  ultimately have "ts_devices st' = map (\<lambda>d. if by_dbId i d then d\<lparr>dw_status := DevTesting\<rparr> else d) (ts_devices st)"
    by (simp only: st' set_device_status_simps patch)
  then have "map dw_deviceId (ts_devices st') = map dw_deviceId (ts_devices st)"
    by (simp add: comp_def if_distrib [of dw_deviceId] cong: if_cong)
  then show ?thesis by (metis set_map)
qed

text \<open>C2: a topology test from its start to its vulnerabilities.  When the service starts a topology test, the
  device is sent the commands that the generator made from the state at that moment, and when its answers arrive,
  after any progress messages, in a payload that says nothing about the topology itself, the vulnerabilities that
  are stored are those of the analysis of these answers against the metadata of the generator, for the
  configuration that was active when the test was started.\<close>
theorem topology_test_end_to_end:
  assumes "life_start st0" and "(life_step env)\<^sup>*\<^sup>* st0 st"
    and "scheduleTest cmp now i m ''topology_validation'' st = (Some t, st1)" and "st1 \<noteq> st"
    and "st2 = progressing ps st1" and "st3 = handleTestResults typed clock now3 d res st2"
    and "rm_testId res = t" and "silent_on_topology (rm_results res)"
    and "extractCommandResults (asJsonObject (rm_results res)) = xs" and "xs \<noteq> []"
    and "find_device (by_deviceId d) st \<noteq> None"
  shows "\<exists>dev commands md. find_device (by_dbId i) st = Some dev \<and>
    generateTopologyTestCommands cmp (coverage_db st) (if truthy (dw_ipAddress dev) then dw_ipAddress dev else None) =
      Some (commands, JObj md) \<and>
    (ts_connected st \<and> m \<noteq> SERVER_DEVICE_ID \<longrightarrow>
       MqttCommand m ''execute'' (execute_payload t commands []) \<in> set (ts_sent st1)) \<and>
    (\<forall>analysis. analyzeTopologyResults xs md = Some analysis \<longrightarrow>
       pd_vulns (ts_store st3) =
       pd_vulns (createVulnerabilities clock (map breach_finding (filter is_breach analysis)) t (ts_configId st) (ts_store st)))"
proof -
  have inv: "life_inv st" by (rule life.reachable_inv [OF assms(1,2)])
  obtain dev plan where dev: "find_device (by_dbId i) st = Some dev"
    and plan: "plan_test cmp st dev m ''topology_validation'' = Some plan"
    and go: "launch now i m ''topology_validation'' plan st = (Some t, st1)"
    using assms(3,4) by (auto simp: scheduleTest_def split: option.splits if_splits)
  obtain commands metadata where gen: "generateTopologyTestCommands cmp (coverage_db st)
        (if truthy (dw_ipAddress dev) then dw_ipAddress dev else None) = Some (commands, metadata)"
    and long: "1 < length commands" and p: "plan = (commands, Some (metadata_patch ''topologyMetadata'' metadata))"
    using plan by (auto simp: plan_test_def split: option.splits if_splits)
  obtain md where md: "metadata = JObj md" "md \<noteq> []" "mergeJson (JObj md) (JObj md) = JObj md"
    using generated_metadata [OF gen long] by (auto simp: plain_metadata_def)
  obtain r where r: "find_run st1 t = Some r" "pc_testType r = ''topology_validation''" "pc_configId r = ts_configId st"
    "pc_resultsJson r = mergeJson (JObj []) (JObj (metadata_patch ''topologyMetadata'' metadata))" "ts_store st1 = ts_store st"
    by (rule launch_run [OF inv go [unfolded p]])
  obtain r2 where r2: "find_run st2 t = Some r2" "pc_testType r2 = ''topology_validation''" "pc_configId r2 = ts_configId st"
    "has_topology md (pc_resultsJson r2)" "ts_store st2 = ts_store st"
    using progressing_row [OF r(1), of ps] patch_has_topology [OF md(2,3)] r progressing_others(2) [of ps st1]
    by (auto simp: assms(5) md(1))
  have dev2: "find_device (by_deviceId d) st2 \<noteq> None"
    using assms(11) unfolding device_known by (simp add: assms(5) progressing_others launch_devices [OF go])
  have sent: "MqttCommand m ''execute'' (execute_payload t commands []) \<in> set (ts_sent st1)"
    if "ts_connected st" "m \<noteq> SERVER_DEVICE_ID"
    using go that by (auto simp: launch_def Let_def p dispatch_def sendCommand_def store_patch_def merge_run_results_eq
        create_run_def split: if_splits)
  show ?thesis
    using dev gen sent results_processed [OF r2(1,2,4) assms(7,8,9,10) dev2] r2(3,5)
    by (intro exI [of _ dev] exI [of _ commands] exI [of _ md] conjI allI impI) (simp_all add: md(1) assms(6))
qed

section \<open>Example\<close>

definition demo_topology :: test_state where
  "demo_topology =
     (demo_state DevOnline [])\<lparr>ts_devices := [(demo_device DevOnline)\<lparr>dw_ipAddress := Some ''10.0.1.7''\<rparr>],
       ts_profile := Some demo_profile, ts_configs := [\<lparr>cf_isActive = True, cf_configJson = demo_config\<rparr>]\<rparr>"

definition demo_results :: result_message where
  "demo_results =
     \<lparr>rm_testId = ''c0'', rm_success = True, rm_results = JObj [(''results'', JArr [JObj demo_answer])], rm_error = None,
      rm_duration = 1, rm_transport = None\<rparr>"

theorem topology_test_end_to_end_witness:
  "\<exists>commands md. generateTopologyTestCommands (\<lambda>_ _. 0) (coverage_db demo_topology) (Some ''10.0.1.7'') = Some (commands, JObj md) \<and>
    MqttCommand ''esp1'' ''execute'' (execute_payload ''c0'' commands [])
      \<in> set (ts_sent (snd (scheduleTest (\<lambda>_ _. 0) 0 ''d1'' ''esp1'' ''topology_validation'' demo_topology)))"
proof -
  let ?run = "scheduleTest (\<lambda>_ _. 0) 0 ''d1'' ''esp1'' ''topology_validation'' demo_topology"
  have init: "life_start demo_topology"
    by (simp add: life_start_def demo_topology_def demo_state_def)
  have started: "fst ?run = Some ''c0''" "ts_nextRun (snd ?run) = 1"
    by code_simp+
  then have run: "?run = (Some ''c0'', snd ?run)" and changed: "snd ?run \<noteq> demo_topology"
    by (auto simp: prod_eq_iff demo_topology_def demo_state_def)
  have answers: "rm_testId demo_results = ''c0''" "silent_on_topology (rm_results demo_results)"
    "extractCommandResults (asJsonObject (rm_results demo_results)) = [JObj demo_answer]" "[JObj demo_answer] \<noteq> []"
    by (simp_all add: demo_results_def silent_on_topology_def extractCommandResults_def asArray_def field_def om_get_def dflt_def
        asJsonObject_def [of JUndef] isRecord_def [of JUndef])
  have known: "find_device (by_deviceId ''esp1'') demo_topology \<noteq> None"
    and dev: "find_device (by_dbId ''d1'') demo_topology = Some ((demo_device DevOnline)\<lparr>dw_ipAddress := Some ''10.0.1.7''\<rparr>)"
    by (simp_all add: find_device_def by_deviceId_def by_dbId_def demo_topology_def demo_state_def demo_device_def)
  have connected: "ts_connected demo_topology" "''esp1'' \<noteq> SERVER_DEVICE_ID"
    by (simp_all add: demo_topology_def demo_state_def SERVER_DEVICE_ID_def)
  from topology_test_end_to_end [OF init rtranclp.rtrancl_refl [of "life_step demo_env"] run changed refl refl answers known,
      where ps = "[]" and typed = "\<lambda>_. no_scan" and clock = int and ?now3.0 = 9]
    dev connected
  show ?thesis by (auto simp: truthy_def)
qed

end
