(* ===== verification/Config_Types.thy ===== *)
theory Config_Types
  imports Test_Processor
begin

text \<open>
  The imported configuration as the analyzers read it: the interfaces of \<open>types/index.ts\<close> and the helpers of
  \<open>utils/configNormalizer.ts\<close>, which find a list under any of the names the controller has used for it.
  A configuration is a JSON object; a field of another type than its interface declares is read as absent.
\<close>

section \<open>Texts\<close>

text \<open>A field in a message: an absent one is written as \<open>undefined\<close>.\<close>

definition tpl :: "string option \<Rightarrow> string" where
  "tpl s = dflt ''undefined'' s"

definition nl :: string where "nl = [CHR 0x0A]"
definition dq :: string where "dq = [CHR 0x22]"

definition names_any :: "string option \<Rightarrow> string list \<Rightarrow> bool" where
  "names_any name words = (case name of None \<Rightarrow> False | Some s \<Rightarrow> \<exists>w \<in> set words. str_includes w (to_lower s))"

definition num_truthy :: "rat option \<Rightarrow> bool" where
  "num_truthy v = (case v of None \<Rightarrow> False | Some q \<Rightarrow> q \<noteq> 0)"

definition is_on :: "bool option \<Rightarrow> bool" where
  "is_on b = (b = Some True)"

lemma is_on_simps [simp]: "is_on (Some b) = b" "\<not> is_on None"
  by (simp_all add: is_on_def)

lemma num_truthy_simps [simp]: "num_truthy (Some q) = (q \<noteq> 0)" "\<not> num_truthy None"
  by (simp_all add: num_truthy_def)

section \<open>Lists under any of their names\<close>

type_synonym fields = "(string \<times> json) list"

definition raw_list :: "fields \<Rightarrow> string list \<Rightarrow> fields list" where
  "raw_list config ks = (case first_some (map (get_arr config) ks) of None \<Rightarrow> [] | Some xs \<Rightarrow> map obj_fields xs)"

definition getRawNetworks :: "fields \<Rightarrow> fields list" where
  "getRawNetworks config = raw_list config [''networks'', ''networkConf'', ''networkconf'']"

definition getRawWlans :: "fields \<Rightarrow> fields list" where
  "getRawWlans config = raw_list config [''wlans'', ''wlanConf'', ''wlanconf'']"

definition getRawFirewallRules :: "fields \<Rightarrow> fields list" where
  "getRawFirewallRules config = raw_list config [''firewallRules'', ''firewall_rule'']"

definition getRawFirewallGroups :: "fields \<Rightarrow> fields list" where
  "getRawFirewallGroups config = raw_list config [''firewallGroups'', ''firewall_group'', ''firewallgroup'']"

definition getRawPortForwards :: "fields \<Rightarrow> fields list" where
  "getRawPortForwards config = raw_list config [''portForwards'', ''portForward'', ''portforward'']"

definition getRawClients :: "fields \<Rightarrow> fields list" where
  "getRawClients config = raw_list config [''clients'', ''user'', ''sta'']"

definition getRawVpnServers :: "fields \<Rightarrow> fields list" where
  "getRawVpnServers config = raw_list config [''vpnServers'', ''vpn_servers'']"

text \<open>The settings are a list, or one object.\<close>

definition getRawSettings :: "fields \<Rightarrow> fields list" where
  "getRawSettings config =
     (case json_or (json_or (field config ''settings'') (field config ''setting'')) (JObj []) of
        JArr xs \<Rightarrow> map obj_fields xs
      | j \<Rightarrow> [obj_fields j])"

section \<open>Interfaces\<close>

record uni_network =
  un_id :: "string option"
  un_name :: "string option"
  un_purpose :: "string option"
  un_vlan :: "rat option"
  un_vlan_enabled :: "bool option"
  un_dhcpd_enabled :: "bool option"
  un_network_isolation :: "bool option"

definition read_uni_network :: "fields \<Rightarrow> uni_network" where
  "read_uni_network n =
     \<lparr>un_id = get_str n ''_id'', un_name = get_str n ''name'', un_purpose = get_str n ''purpose'',
      un_vlan = get_num n ''vlan'', un_vlan_enabled = get_bool n ''vlan_enabled'',
      un_dhcpd_enabled = get_bool n ''dhcpd_enabled'', un_network_isolation = get_bool n ''network_isolation''\<rparr>"

record uni_rule =
  ur_id :: "string option"
  ur_name :: "string option"
  ur_enabled :: "bool option"
  ur_ruleset :: "string option"
  ur_rule_index :: "rat option"
  ur_action :: "string option"
  ur_protocol :: "string option"
  ur_src_groups :: "string list option"
  ur_dst_groups :: "string list option"
  ur_src_address :: "string option"
  ur_dst_address :: "string option"
  ur_src_port :: "string option"
  ur_dst_port :: "string option"

definition read_uni_rule :: "fields \<Rightarrow> uni_rule" where
  "read_uni_rule r =
     \<lparr>ur_id = get_str r ''_id'', ur_name = get_str r ''name'', ur_enabled = get_bool r ''enabled'',
      ur_ruleset = get_str r ''ruleset'', ur_rule_index = get_num r ''rule_index'', ur_action = get_str r ''action'',
      ur_protocol = get_str r ''protocol'', ur_src_groups = get_strs r ''src_firewallgroup_ids'',
      ur_dst_groups = get_strs r ''dst_firewallgroup_ids'', ur_src_address = get_str r ''src_address'',
      ur_dst_address = get_str r ''dst_address'', ur_src_port = get_str r ''src_port'',
      ur_dst_port = get_str r ''dst_port''\<rparr>"

record uni_forward =
  uf_name :: "string option"
  uf_enabled :: "bool option"
  uf_src :: "string option"
  uf_dst_port :: "string option"
  uf_fwd :: "string option"
  uf_fwd_port :: "string option"
  uf_log :: "bool option"

definition read_uni_forward :: "fields \<Rightarrow> uni_forward" where
  "read_uni_forward p =
     \<lparr>uf_name = get_str p ''name'', uf_enabled = get_bool p ''enabled'', uf_src = get_str p ''src'',
      uf_dst_port = get_str p ''dst_port'', uf_fwd = get_str p ''fwd'', uf_fwd_port = get_str p ''fwd_port'',
      uf_log = get_bool p ''log''\<rparr>"

record uni_wlan =
  uw_name :: "string option"
  uw_enabled :: "bool option"
  uw_security :: "string option"
  uw_wpa_mode :: "string option"
  uw_wpa_enc :: "string option"
  uw_is_guest :: "bool option"
  uw_networkconf_id :: "string option"
  uw_vlan_enabled :: "bool option"
  uw_hide_ssid :: "bool option"
  uw_pmf_mode :: "string option"
  uw_l2_isolation :: "bool option"

definition read_uni_wlan :: "fields \<Rightarrow> uni_wlan" where
  "read_uni_wlan w =
     \<lparr>uw_name = get_str w ''name'', uw_enabled = get_bool w ''enabled'', uw_security = get_str w ''security'',
      uw_wpa_mode = get_str w ''wpa_mode'', uw_wpa_enc = get_str w ''wpa_enc'', uw_is_guest = get_bool w ''is_guest'',
      uw_networkconf_id = get_str w ''networkconf_id'', uw_vlan_enabled = get_bool w ''vlan_enabled'',
      uw_hide_ssid = get_bool w ''hide_ssid'', uw_pmf_mode = get_str w ''pmf_mode'',
      uw_l2_isolation = get_bool w ''l2_isolation''\<rparr>"

record uni_device =
  ud_name :: "string option"
  ud_model :: "string option"
  ud_version :: "string option"

definition read_uni_device :: "fields \<Rightarrow> uni_device" where
  "read_uni_device d = \<lparr>ud_name = get_str d ''name'', ud_model = get_str d ''model'', ud_version = get_str d ''version''\<rparr>"

definition config_networks :: "fields \<Rightarrow> uni_network list" where
  "config_networks config = map read_uni_network (getRawNetworks config)"

definition config_wlans :: "fields \<Rightarrow> uni_wlan list" where
  "config_wlans config = map read_uni_wlan (getRawWlans config)"

text \<open>Rules, port forwards and devices are read under their own name only.\<close>

definition config_rules :: "fields \<Rightarrow> uni_rule list" where
  "config_rules config = map read_uni_rule (raw_list config [''firewallRules''])"

definition config_forwards :: "fields \<Rightarrow> uni_forward list" where
  "config_forwards config = map read_uni_forward (raw_list config [''portForwards''])"

definition config_devices :: "fields \<Rightarrow> uni_device list" where
  "config_devices config = map read_uni_device (raw_list config [''devices''])"

section \<open>The intent profile\<close>

datatype internet_access = AccessFull | AccessLimited | AccessNone

datatype security_level = SecMaximum | SecBalanced | SecConvenience

record full_profile = stored_profile +
  fp_workVpn :: bool
  fp_iotInternetAccess :: internet_access
  fp_guestBandwidthLimit :: bool
  fp_securityLevel :: security_level
  fp_dnsFiltering :: bool
  fp_dnsFilteringNetworks :: "string list option"
  fp_dnsFilteringServerIp :: "string option"
  fp_malwareBlocking :: bool

section \<open>Conditional findings\<close>

definition when_list :: "bool \<Rightarrow> 'a \<Rightarrow> 'a list" where
  "when_list b x = (if b then [x] else [])"

lemma set_when_list [simp]: "set (when_list b x) = (if b then {x} else {})"
  by (cases b) (simp_all add: when_list_def)

lemma in_when_list: "y \<in> set (when_list b x) \<longleftrightarrow> b \<and> y = x"
  by (cases b) (simp_all add: when_list_def)

end
