(* ===== verification/Static_Analyzers.thy ===== *)
theory Static_Analyzers
  imports Config_Types
begin

text \<open>
  The analyzers of an imported configuration under \<open>analyzers/\<close>: \<open>vlanAnalyzer.ts\<close>, \<open>portForwardAnalyzer.ts\<close>,
  \<open>wlanAnalyzer.ts\<close> and \<open>firewallAnalyzer.ts\<close>.  Every message is a definition of its own.
\<close>

section \<open>Networks\<close>

definition no_segmentation :: "vuln_finding" where
  "no_segmentation =
     \<lparr>fd_type = ''NO_VLAN_SEGMENTATION'', fd_severity = MEDIUM,
      fd_title = ''No VLAN segmentation configured'',
      fd_description = ''Multiple networks exist but none have VLAN tagging enabled. All devices share the same '' @
        ''broadcast domain.'',
      fd_impact = Some (''Without VLAN segmentation, devices cannot be isolated. A compromised device can easily attack '' @
        ''others.''),
      fd_remediation = Some (''Enable VLAN tagging on your networks to segment traffic.'' @ nl @ nl @ ''In UniFi:'' @ nl @
        ''1. Go to Settings > Networks'' @ nl @ ''2. Edit each network that should be isolated'' @ nl @
        ''3. Enable '' @ dq @ ''VLAN Only Network'' @ dq @ '' or set a VLAN ID'' @ nl @
        ''4. Ensure your switch ports are configured for the VLANs''),
      fd_affectedResource = Some ''Network Configuration'', fd_cveId = None\<rparr>"

definition vlan_1_in_use :: "uni_network \<Rightarrow> vuln_finding" where
  "vlan_1_in_use n =
     \<lparr>fd_type = ''VLAN_1_IN_USE'', fd_severity = LOW,
      fd_title = ''VLAN 1 is in use for network '' @ dq @ tpl (un_name n) @ dq,
      fd_description = ''VLAN 1 is the default VLAN on most switches and should not be used for production traffic.'',
      fd_impact = Some (''Using VLAN 1 can lead to security issues as it is often the native/untagged VLAN.''),
      fd_remediation = Some (''Move traffic off VLAN 1 to a dedicated VLAN.'' @ nl @ nl @ ''In UniFi:'' @ nl @
        ''1. Go to Settings > Networks'' @ nl @ ''2. Edit '' @ dq @ tpl (un_name n) @ dq @ nl @
        ''3. Change the VLAN ID to a non-default value (e.g., 10, 20, etc.)''),
      fd_affectedResource = un_name n, fd_cveId = None\<rparr>"

definition no_dhcp_no_vlan :: "uni_network \<Rightarrow> vuln_finding" where
  "no_dhcp_no_vlan n =
     \<lparr>fd_type = ''NETWORK_NO_DHCP_NO_VLAN'', fd_severity = INFO,
      fd_title = ''Network '' @ dq @ tpl (un_name n) @ dq @ '' has no DHCP and no VLAN'',
      fd_description = ''The network '' @ dq @ tpl (un_name n) @ dq @
        '' doesn't have DHCP enabled and is not VLAN-tagged. Verify this is intentional.'',
      fd_impact = Some (''Clients may not get IP addresses, or this network may not be properly isolated.''),
      fd_remediation = Some (''Review the configuration of '' @ dq @ tpl (un_name n) @ dq @
        '' to ensure it matches your intended design.''),
      fd_affectedResource = un_name n, fd_cveId = None\<rparr>"

definition iot_not_isolated :: "uni_network \<Rightarrow> vuln_finding" where
  "iot_not_isolated n =
     \<lparr>fd_type = ''IOT_NOT_ISOLATED'', fd_severity = HIGH,
      fd_title = ''IoT network '' @ dq @ tpl (un_name n) @ dq @ '' is not VLAN isolated'',
      fd_description = ''IoT devices should be isolated on their own VLAN to prevent them from accessing sensitive '' @
        ''resources.'',
      fd_impact = Some (''Compromised IoT devices could be used to attack other devices on your network.''),
      fd_remediation = Some (''Enable VLAN isolation for the IoT network.'' @ nl @ nl @ ''In UniFi:'' @ nl @
        ''1. Go to Settings > Networks'' @ nl @ ''2. Edit '' @ dq @ tpl (un_name n) @ dq @ nl @
        ''3. Enable VLAN and assign a dedicated VLAN ID'' @ nl @
        ''4. Create firewall rules to restrict IoT access to other networks''),
      fd_affectedResource = un_name n, fd_cveId = None\<rparr>"

definition guest_not_isolated :: "uni_network \<Rightarrow> vuln_finding" where
  "guest_not_isolated n =
     \<lparr>fd_type = ''GUEST_NOT_ISOLATED'', fd_severity = HIGH,
      fd_title = ''Guest network '' @ dq @ tpl (un_name n) @ dq @ '' is not VLAN isolated'',
      fd_description = ''Guest networks should be isolated to prevent guests from accessing internal resources.'',
      fd_impact = Some (''Guests could access sensitive internal systems and data.''),
      fd_remediation = Some (''Enable VLAN isolation for the guest network.'' @ nl @ nl @ ''In UniFi:'' @ nl @
        ''1. Go to Settings > Networks'' @ nl @ ''2. Edit '' @ dq @ tpl (un_name n) @ dq @ nl @
        ''3. Enable VLAN and assign a dedicated VLAN ID'' @ nl @ ''4. Enable '' @ dq @ ''Guest Network'' @ dq @
        '' features for client isolation''),
      fd_affectedResource = un_name n, fd_cveId = None\<rparr>"

definition duplicate_vlan_id :: "rat list \<Rightarrow> vuln_finding" where
  "duplicate_vlan_id duplicates =
     \<lparr>fd_type = ''DUPLICATE_VLAN_ID'', fd_severity = HIGH,
      fd_title = ''Duplicate VLAN IDs detected: '' @ join '', '' (map show_number (os_of duplicates)),
      fd_description = ''Multiple networks are using the same VLAN ID, which can cause traffic conflicts.'',
      fd_impact = Some (''Traffic from different networks may be merged, breaking isolation.''),
      fd_remediation = Some (''Assign unique VLAN IDs to each network.'' @ nl @ nl @ ''In UniFi:'' @ nl @
        ''1. Go to Settings > Networks'' @ nl @ ''2. Review networks using duplicate VLAN IDs'' @ nl @
        ''3. Assign unique VLAN IDs to each''),
      fd_affectedResource = Some ''VLAN Configuration'', fd_cveId = None\<rparr>"

definition tagged_networks :: "uni_network list \<Rightarrow> uni_network list" where
  "tagged_networks networks = filter (\<lambda>n. is_on (un_vlan_enabled n) \<and> num_truthy (un_vlan n)) networks"

text \<open>The ids that occur before in the list, in order.\<close>

fun repeated_from :: "'a list \<Rightarrow> 'a list \<Rightarrow> 'a list" where
  "repeated_from seen [] = []"
| "repeated_from seen (x # xs) = (if x \<in> set seen then [x] else []) @ repeated_from (seen @ [x]) xs"

definition vlan_ids :: "uni_network list \<Rightarrow> rat list" where
  "vlan_ids networks = concat (map (\<lambda>n. case un_vlan n of None \<Rightarrow> [] | Some v \<Rightarrow> [v]) (tagged_networks networks))"

definition lacks_dhcp_and_vlan :: "uni_network \<Rightarrow> bool" where
  "lacks_dhcp_and_vlan n \<longleftrightarrow>
     un_purpose n = Some ''corporate'' \<and> \<not> is_on (un_dhcpd_enabled n) \<and> \<not> is_on (un_vlan_enabled n)"

definition looks_iot :: "uni_network \<Rightarrow> bool" where
  "looks_iot n = names_any (un_name n) [''iot'', ''smart'', ''device'']"

definition looks_guest :: "uni_network \<Rightarrow> bool" where
  "looks_guest n \<longleftrightarrow> names_any (un_name n) [''guest''] \<or> un_purpose n = Some ''guest''"

text \<open>Of the networks that look alike only the first is checked.\<close>

definition first_untagged :: "(uni_network \<Rightarrow> bool) \<Rightarrow> (uni_network \<Rightarrow> vuln_finding) \<Rightarrow> uni_network list \<Rightarrow> vuln_finding list" where
  "first_untagged looks report networks =
     (case find looks networks of
        None \<Rightarrow> []
      | Some n \<Rightarrow> when_list (\<not> is_on (un_vlan_enabled n)) (report n))"

definition vlan_findings :: "uni_network list \<Rightarrow> vuln_finding list" where
  "vlan_findings networks =
     (let duplicates = repeated_from [] (vlan_ids networks) in
      when_list (length (tagged_networks networks) = 0 \<and> 1 < length networks) no_segmentation @
      (case find (\<lambda>n. un_vlan n = Some 1) networks of None \<Rightarrow> [] | Some n \<Rightarrow> [vlan_1_in_use n]) @
      when_list (0 < length duplicates) (duplicate_vlan_id duplicates) @
      map no_dhcp_no_vlan (filter lacks_dhcp_and_vlan networks) @
      first_untagged looks_iot iot_not_isolated networks @
      first_untagged looks_guest guest_not_isolated networks)"

definition analyzeVlanConfig :: "fields \<Rightarrow> vuln_finding list" where
  "analyzeVlanConfig config = vlan_findings (config_networks config)"

section \<open>Port forwards\<close>

text \<open>Severity, service and recommendation of a port that should not be reachable from the internet.\<close>

definition exposed_service :: "string \<Rightarrow> (severity \<times> string \<times> string) option" where
  "exposed_service port = om_get
     [(''21'', HIGH, ''FTP'', ''Use SFTP or SCP instead of FTP''),
      (''22'', MEDIUM, ''SSH'', ''Use a VPN or restrict to specific IPs''),
      (''23'', CRITICAL, ''Telnet'', ''Never expose Telnet - use SSH instead''),
      (''25'', MEDIUM, ''SMTP'', ''Use a proper mail relay or hosting service''),
      (''110'', HIGH, ''POP3'', ''Use POP3S (port 995) instead''),
      (''143'', HIGH, ''IMAP'', ''Use IMAPS (port 993) instead''),
      (''445'', CRITICAL, ''SMB'', ''Never expose SMB to the internet''),
      (''1433'', CRITICAL, ''MSSQL'', ''Use a VPN for database access''),
      (''3306'', CRITICAL, ''MySQL'', ''Use a VPN for database access''),
      (''3389'', HIGH, ''RDP'', ''Use a VPN instead of exposing RDP directly''),
      (''5432'', CRITICAL, ''PostgreSQL'', ''Use a VPN for database access''),
      (''5900'', HIGH, ''VNC'', ''Use a VPN instead of exposing VNC directly''),
      (''6379'', CRITICAL, ''Redis'', ''Never expose Redis to the internet''),
      (''27017'', CRITICAL, ''MongoDB'', ''Never expose MongoDB to the internet'')]
     port"

definition risky_port_forward :: "uni_forward \<Rightarrow> string \<Rightarrow> severity \<times> string \<times> string \<Rightarrow> vuln_finding" where
  "risky_port_forward pf port risk =
     \<lparr>fd_type = ''RISKY_PORT_FORWARD'', fd_severity = fst risk,
      fd_title = fst (snd risk) @ '' (port '' @ port @ '') is forwarded to the internet'',
      fd_description = ''The port forward '' @ dq @ tpl (uf_name pf) @ dq @ '' exposes '' @ fst (snd risk) @ '' to the internet. '' @
        snd (snd risk) @ ''.'',
      fd_impact = Some (fst (snd risk) @
        '' is a common target for attackers. Exposing it directly to the internet significantly increases '' @
        ''your attack surface.''),
      fd_remediation = Some (snd (snd risk) @ ''.'' @ nl @ nl @ ''In UniFi:'' @ nl @
        ''1. Go to Settings > Routing & Firewall > Port Forwarding'' @ nl @ ''2. Disable or remove '' @ dq @
        tpl (uf_name pf) @ dq @ nl @ ''3. Set up a VPN for remote access instead''),
      fd_affectedResource = Some (tpl (uf_name pf) @ '' ('' @ tpl (uf_fwd pf) @ '':'' @ tpl (uf_fwd_port pf) @ '')''), fd_cveId = None\<rparr>"

definition unrestricted_port_forward :: "uni_forward \<Rightarrow> vuln_finding" where
  "unrestricted_port_forward pf =
     \<lparr>fd_type = ''UNRESTRICTED_PORT_FORWARD'', fd_severity = MEDIUM,
      fd_title = ''Port forward '' @ dq @ tpl (uf_name pf) @ dq @ '' allows any source IP'',
      fd_description = ''The port forward allows connections from any IP address. Consider restricting to known IPs if '' @
        ''possible.'',
      fd_impact = Some (''Anyone on the internet can attempt to connect to the forwarded service.''),
      fd_remediation = Some (''If you know which IPs need access, restrict the port forward to those IPs only.'' @ nl @ nl @
        ''In UniFi:'' @ nl @ ''1. Go to Settings > Routing & Firewall > Port Forwarding'' @ nl @ ''2. Edit '' @ dq @
        tpl (uf_name pf) @ dq @ nl @ ''3. Set a specific source IP or range''),
      fd_affectedResource = uf_name pf, fd_cveId = None\<rparr>"

definition port_mapping_mismatch :: "uni_forward \<Rightarrow> vuln_finding" where
  "port_mapping_mismatch pf =
     \<lparr>fd_type = ''PORT_MAPPING_MISMATCH'', fd_severity = INFO,
      fd_title = ''Port forward '' @ dq @ tpl (uf_name pf) @ dq @ '' uses non-standard mapping'',
      fd_description = ''External port '' @ tpl (uf_dst_port pf) @ '' forwards to internal port '' @ tpl (uf_fwd_port pf) @
        ''. This provides minimal security benefit.'',
      fd_impact = Some (''Port scanners will still discover the service regardless of the external port used.''),
      fd_remediation = Some (''Security through obscurity is not effective. Focus on securing the service itself.''),
      fd_affectedResource = uf_name pf, fd_cveId = None\<rparr>"

definition port_forward_no_logging :: "uni_forward \<Rightarrow> vuln_finding" where
  "port_forward_no_logging pf =
     \<lparr>fd_type = ''PORT_FORWARD_NO_LOGGING'', fd_severity = LOW,
      fd_title = ''Logging disabled on port forward '' @ dq @ tpl (uf_name pf) @ dq,
      fd_description = ''Connection attempts to this port forward are not being logged.'',
      fd_impact = Some (''You will not have visibility into who is connecting to this service.''),
      fd_remediation = Some (''Enable logging for this port forward.'' @ nl @ nl @ ''In UniFi:'' @ nl @
        ''1. Go to Settings > Routing & Firewall > Port Forwarding'' @ nl @ ''2. Edit '' @ dq @ tpl (uf_name pf) @
        dq @ nl @ ''3. Enable logging''),
      fd_affectedResource = uf_name pf, fd_cveId = None\<rparr>"

definition excessive_port_forwards :: "nat \<Rightarrow> vuln_finding" where
  "excessive_port_forwards k =
     \<lparr>fd_type = ''EXCESSIVE_PORT_FORWARDS'', fd_severity = MEDIUM,
      fd_title = show_nat k @ '' active port forwards detected'',
      fd_description = ''A large number of port forwards increases your attack surface. Review if all are necessary.'',
      fd_impact = Some (''Each port forward is a potential entry point for attackers.''),
      fd_remediation = Some (''Review all port forwards and disable any that are no longer needed. Consider using a VPN for '' @
        ''services that only you need to access.''),
      fd_affectedResource = Some ''Port Forward Configuration'', fd_cveId = None\<rparr>"

definition forward_findings :: "uni_forward \<Rightarrow> vuln_finding list" where
  "forward_findings pf =
     (if \<not> is_on (uf_enabled pf) then []
      else
        (let portToCheck = str_or (uf_dst_port pf) (uf_fwd_port pf) in
         (if truthy portToCheck then
            (case exposed_service (the portToCheck) of
               None \<Rightarrow> []
             | Some risk \<Rightarrow> [risky_port_forward pf (the portToCheck) risk])
          else []) @
         when_list (\<not> truthy (uf_src pf) \<or> uf_src pf = Some ''any'') (unrestricted_port_forward pf) @
         when_list (uf_dst_port pf \<noteq> uf_fwd_port pf) (port_mapping_mismatch pf) @
         when_list (\<not> is_on (uf_log pf)) (port_forward_no_logging pf)))"

definition port_forward_findings :: "uni_forward list \<Rightarrow> vuln_finding list" where
  "port_forward_findings forwards =
     (let enabled = length (filter (\<lambda>pf. is_on (uf_enabled pf)) forwards) in
      concat (map forward_findings forwards) @ when_list (10 < enabled) (excessive_port_forwards enabled))"

definition analyzePortForwards :: "fields \<Rightarrow> vuln_finding list" where
  "analyzePortForwards config = port_forward_findings (config_forwards config)"

section \<open>Wireless networks\<close>

definition open_wifi_network :: "uni_wlan \<Rightarrow> vuln_finding" where
  "open_wifi_network w =
     \<lparr>fd_type = ''OPEN_WIFI_NETWORK'', fd_severity = HIGH,
      fd_title = ''WiFi network '' @ dq @ tpl (uw_name w) @ dq @ '' has no password'',
      fd_description = ''This wireless network has no security enabled. Anyone can connect.'',
      fd_impact = Some (''Unauthorized users can access your network, consume bandwidth, and potentially attack internal '' @
        ''resources.''),
      fd_remediation = Some (''Enable WPA3 or WPA2 security on this network.'' @ nl @ nl @ ''In UniFi:'' @ nl @
        ''1. Go to Settings > WiFi'' @ nl @ ''2. Edit '' @ dq @ tpl (uw_name w) @ dq @ nl @
        ''3. Set Security Protocol to WPA2 or WPA3'' @ nl @ ''4. Set a strong password''),
      fd_affectedResource = uw_name w, fd_cveId = None\<rparr>"

definition wep_security :: "uni_wlan \<Rightarrow> vuln_finding" where
  "wep_security w =
     \<lparr>fd_type = ''WEP_SECURITY'', fd_severity = CRITICAL,
      fd_title = ''WiFi network '' @ dq @ tpl (uw_name w) @ dq @ '' uses WEP encryption'',
      fd_description = ''WEP encryption can be cracked in minutes. It provides almost no security.'',
      fd_impact = Some (''Attackers can easily crack WEP and gain full access to your network.''),
      fd_remediation = Some (''Upgrade to WPA3 or WPA2 immediately.'' @ nl @ nl @ ''In UniFi:'' @ nl @ ''1. Go to Settings > WiFi'' @ nl @
        ''2. Edit '' @ dq @ tpl (uw_name w) @ dq @ nl @ ''3. Change Security Protocol to WPA2 or WPA3''),
      fd_affectedResource = uw_name w, fd_cveId = None\<rparr>"

definition wpa1_only :: "uni_wlan \<Rightarrow> vuln_finding" where
  "wpa1_only w =
     \<lparr>fd_type = ''WPA1_ONLY'', fd_severity = HIGH,
      fd_title = ''WiFi network '' @ dq @ tpl (uw_name w) @ dq @ '' uses WPA1'',
      fd_description = ''WPA1 has known vulnerabilities and should be upgraded to WPA2 or WPA3.'',
      fd_impact = Some (''WPA1 can be attacked using various techniques including TKIP weaknesses.''),
      fd_remediation = Some (''Upgrade to WPA2 or WPA3.'' @ nl @ nl @ ''In UniFi:'' @ nl @ ''1. Go to Settings > WiFi'' @ nl @
        ''2. Edit '' @ dq @ tpl (uw_name w) @ dq @ nl @ ''3. Change Security Protocol to WPA2 or WPA3''),
      fd_affectedResource = uw_name w, fd_cveId = None\<rparr>"

definition tkip_encryption :: "uni_wlan \<Rightarrow> vuln_finding" where
  "tkip_encryption w =
     \<lparr>fd_type = ''TKIP_ENCRYPTION'', fd_severity = MEDIUM,
      fd_title = ''WiFi network '' @ dq @ tpl (uw_name w) @ dq @ '' allows TKIP encryption'',
      fd_description = ''TKIP encryption has known weaknesses. Use CCMP (AES) only for better security.'',
      fd_impact = Some (''TKIP is vulnerable to certain attacks and should not be used.''),
      fd_remediation = Some (''Set encryption to CCMP/AES only.'' @ nl @ nl @ ''In UniFi:'' @ nl @ ''1. Go to Settings > WiFi'' @ nl @
        ''2. Edit '' @ dq @ tpl (uw_name w) @ dq @ nl @ ''3. Ensure WPA Mode uses AES/CCMP only''),
      fd_affectedResource = uw_name w, fd_cveId = None\<rparr>"

definition guest_no_isolation :: "uni_wlan \<Rightarrow> vuln_finding" where
  "guest_no_isolation w =
     \<lparr>fd_type = ''GUEST_NO_ISOLATION'', fd_severity = MEDIUM,
      fd_title = ''Guest network '' @ dq @ tpl (uw_name w) @ dq @ '' may not have client isolation'',
      fd_description = ''Guest networks should have client isolation enabled to prevent guests from seeing each other.'',
      fd_impact = Some (''Guests can potentially attack each other or sniff traffic.''),
      fd_remediation = Some (''Enable client isolation on the guest network.'' @ nl @ nl @ ''In UniFi:'' @ nl @
        ''1. Go to Settings > WiFi'' @ nl @ ''2. Edit '' @ dq @ tpl (uw_name w) @ dq @ nl @ ''3. Enable '' @ dq @
        ''Guest Policies'' @ dq @ '' and '' @ dq @ ''Client Device Isolation'' @ dq @ nl @ nl @ ''Or enable '' @ dq @
        ''Isolate Network'' @ dq @ '' on the linked network in Settings > Networks.''),
      fd_affectedResource = uw_name w, fd_cveId = None\<rparr>"

definition hidden_ssid :: "uni_wlan \<Rightarrow> vuln_finding" where
  "hidden_ssid w =
     \<lparr>fd_type = ''HIDDEN_SSID'', fd_severity = INFO,
      fd_title = ''WiFi network '' @ dq @ tpl (uw_name w) @ dq @ '' has hidden SSID'',
      fd_description = ''Hiding the SSID provides no real security benefit and can cause connectivity issues.'',
      fd_impact = Some (''Hidden SSIDs are easily discovered by wireless scanners. This may cause devices to constantly '' @
        ''probe for the network.''),
      fd_remediation = Some (''Consider showing the SSID and relying on proper encryption for security instead.''),
      fd_affectedResource = uw_name w, fd_cveId = None\<rparr>"

definition pmf_disabled :: "uni_wlan \<Rightarrow> vuln_finding" where
  "pmf_disabled w =
     \<lparr>fd_type = ''PMF_DISABLED'', fd_severity = LOW,
      fd_title = ''WiFi network '' @ dq @ tpl (uw_name w) @ dq @ '' has PMF disabled'',
      fd_description = ''Protected Management Frames (802.11w) helps prevent deauthentication attacks.'',
      fd_impact = Some (''Without PMF, attackers can disconnect clients from your network using deauth attacks.''),
      fd_remediation = Some (''Enable PMF (802.11w).'' @ nl @ nl @ ''In UniFi:'' @ nl @ ''1. Go to Settings > WiFi'' @ nl @ ''2. Edit '' @
        dq @ tpl (uw_name w) @ dq @ nl @ ''3. Enable '' @ dq @ ''BSS Transition'' @ dq @
        '' or set PMF mode to Optional/Required''),
      fd_affectedResource = uw_name w, fd_cveId = None\<rparr>"

definition guest_wifi_no_vlan :: "uni_wlan \<Rightarrow> vuln_finding" where
  "guest_wifi_no_vlan w =
     \<lparr>fd_type = ''GUEST_WIFI_NO_VLAN'', fd_severity = HIGH,
      fd_title = ''Guest WiFi '' @ dq @ tpl (uw_name w) @ dq @ '' is not on a separate VLAN'',
      fd_description = ''Guest WiFi networks should be placed on a dedicated VLAN to isolate guest traffic.'',
      fd_impact = Some (''Guest traffic may be able to reach internal resources.''),
      fd_remediation = Some (''Assign the guest network to a dedicated VLAN.'' @ nl @ nl @ ''In UniFi:'' @ nl @
        ''1. Create a dedicated Guest network in Settings > Networks'' @ nl @ ''2. Go to Settings > WiFi'' @ nl @
        ''3. Edit '' @ dq @ tpl (uw_name w) @ dq @ nl @ ''4. Assign it to the Guest network''),
      fd_affectedResource = uw_name w, fd_cveId = None\<rparr>"

definition too_many_open_networks :: "nat \<Rightarrow> vuln_finding" where
  "too_many_open_networks k =
     \<lparr>fd_type = ''TOO_MANY_OPEN_NETWORKS'', fd_severity = LOW,
      fd_title = show_nat k @ '' open or guest WiFi networks detected'',
      fd_description = ''Having many open or guest networks increases management complexity and attack surface.'',
      fd_impact = Some (''Each open network is a potential entry point and consumes radio resources.''),
      fd_remediation = Some (''Review if all open/guest networks are necessary. Consolidate where possible.''),
      fd_affectedResource = Some ''WiFi Configuration'', fd_cveId = None\<rparr>"

definition linked_network :: "uni_network list \<Rightarrow> uni_wlan \<Rightarrow> uni_network option" where
  "linked_network networks w =
     (if truthy (uw_networkconf_id w) then find (\<lambda>n. un_id n = uw_networkconf_id w) networks else None)"

definition isOnVlan :: "uni_network list \<Rightarrow> uni_wlan \<Rightarrow> bool" where
  "isOnVlan networks w \<longleftrightarrow>
     is_on (uw_vlan_enabled w) \<or>
     (case linked_network networks w of
        None \<Rightarrow> False
      | Some n \<Rightarrow> is_on (un_vlan_enabled n) \<or> num_truthy (un_vlan n))"

definition linked_isolation :: "uni_network list \<Rightarrow> uni_wlan \<Rightarrow> bool" where
  "linked_isolation networks w =
     (case linked_network networks w of None \<Rightarrow> False | Some n \<Rightarrow> is_on (un_network_isolation n))"

definition uses_wpa1 :: "uni_wlan \<Rightarrow> bool" where
  "uses_wpa1 w \<longleftrightarrow>
     uw_security w = Some ''wpa'' \<or>
     uw_wpa_mode w = Some ''wpa1'' \<and> \<not> str_includes ''wpa2'' (dflt [] (uw_wpa_mode w))"

definition wlan_checks :: "uni_network list \<Rightarrow> uni_wlan \<Rightarrow> vuln_finding list" where
  "wlan_checks networks w =
     (if \<not> is_on (uw_enabled w) then []
      else
        when_list (uw_security w = Some ''open'') (open_wifi_network w) @
        when_list (uw_security w = Some ''wep'') (wep_security w) @
        when_list (uses_wpa1 w) (wpa1_only w) @
        when_list (uw_wpa_enc w = Some ''tkip'' \<or> uw_wpa_enc w = Some ''both'') (tkip_encryption w) @
        when_list (is_on (uw_is_guest w) \<and> \<not> is_on (uw_l2_isolation w) \<and> \<not> linked_isolation networks w)
          (guest_no_isolation w) @
        when_list (is_on (uw_hide_ssid w)) (hidden_ssid w) @
        when_list (\<not> truthy (uw_pmf_mode w) \<or> uw_pmf_mode w = Some ''disabled'') (pmf_disabled w) @
        when_list (is_on (uw_is_guest w) \<and> \<not> isOnVlan networks w) (guest_wifi_no_vlan w))"

definition wlan_findings :: "uni_network list \<Rightarrow> uni_wlan list \<Rightarrow> vuln_finding list" where
  "wlan_findings networks wlans =
     (let open = length (filter (\<lambda>w. is_on (uw_enabled w) \<and> (uw_security w = Some ''open'' \<or> is_on (uw_is_guest w))) wlans) in
      concat (map (wlan_checks networks) wlans) @ when_list (2 < open) (too_many_open_networks open))"

definition analyzeWlanConfig :: "fields \<Rightarrow> vuln_finding list" where
  "analyzeWlanConfig config = wlan_findings (config_networks config) (config_wlans config)"

section \<open>Firewall rules\<close>

definition dangerous_port :: "string \<Rightarrow> (severity \<times> string) option" where
  "dangerous_port port = om_get
     [(''22'', MEDIUM, ''SSH should be restricted to trusted IPs''),
      (''23'', HIGH, ''Telnet is insecure and should be disabled''),
      (''3389'', HIGH, ''RDP should not be exposed to the internet''),
      (''5900'', MEDIUM, ''VNC should be restricted''),
      (''1433'', HIGH, ''MSSQL should not be exposed''),
      (''3306'', HIGH, ''MySQL should not be exposed''),
      (''5432'', HIGH, ''PostgreSQL should not be exposed''),
      (''27017'', HIGH, ''MongoDB should not be exposed''),
      (''6379'', HIGH, ''Redis should not be exposed'')]
     port"

definition overly_permissive_rule :: "uni_rule \<Rightarrow> vuln_finding" where
  "overly_permissive_rule r =
     \<lparr>fd_type = ''OVERLY_PERMISSIVE_RULE'', fd_severity = HIGH,
      fd_title = ''Overly permissive firewall rule: '' @ tpl (ur_name r),
      fd_description = ''The firewall rule '' @ dq @ tpl (ur_name r) @ dq @
        '' allows all traffic without restrictions. This could allow unauthorized access.'',
      fd_impact = Some (''Attackers could exploit this rule to access resources that should be protected.''),
      fd_remediation = Some (''Review the rule '' @ dq @ tpl (ur_name r) @ dq @
        '' and restrict it to specific ports, protocols, or addresses.'' @ nl @ nl @ ''In UniFi:'' @ nl @
        ''1. Go to Settings > Routing & Firewall > Firewall'' @ nl @ ''2. Edit the rule '' @ dq @ tpl (ur_name r) @
        dq @ nl @ ''3. Specify source and destination networks'' @ nl @ ''4. Limit to required ports only''),
      fd_affectedResource = ur_name r, fd_cveId = None\<rparr>"

definition dangerous_port_exposed :: "uni_rule \<Rightarrow> string \<Rightarrow> severity \<times> string \<Rightarrow> vuln_finding" where
  "dangerous_port_exposed r port info =
     \<lparr>fd_type = ''DANGEROUS_PORT_EXPOSED'', fd_severity = fst info,
      fd_title = ''Port '' @ port @ '' exposed via rule '' @ dq @ tpl (ur_name r) @ dq,
      fd_description = snd info @ ''. This port is being allowed through the WAN firewall.'',
      fd_impact = Some (''Exposed services can be targeted by attackers scanning the internet.''),
      fd_remediation = Some (''Review if port '' @ port @ '' really needs to be exposed. Consider using a VPN instead.'' @ nl @ nl @
        ''In UniFi:'' @ nl @ ''1. Go to Settings > Routing & Firewall > Firewall'' @ nl @ ''2. Find and edit rule '' @
        dq @ tpl (ur_name r) @ dq @ nl @ ''3. Remove port '' @ port @ '' or restrict source IPs''),
      fd_affectedResource = Some (tpl (ur_name r) @ '' (port '' @ port @ '')''), fd_cveId = None\<rparr>"

definition shadowed_rule :: "uni_rule \<Rightarrow> uni_rule \<Rightarrow> vuln_finding" where
  "shadowed_rule r s =
     \<lparr>fd_type = ''SHADOWED_RULE'', fd_severity = LOW,
      fd_title = ''Rule '' @ dq @ tpl (ur_name s) @ dq @ '' is shadowed by '' @ dq @ tpl (ur_name r) @ dq,
      fd_description = ''The rule '' @ dq @ tpl (ur_name s) @ dq @ '' will never match because '' @ dq @ tpl (ur_name r) @ dq @
        '' has a higher priority and covers the same traffic.'',
      fd_impact = Some (''Shadowed rules have no effect and may indicate a misconfiguration.''),
      fd_remediation = Some (''Review rules '' @ dq @ tpl (ur_name r) @ dq @ '' and '' @ dq @ tpl (ur_name s) @ dq @
        ''. Either remove the shadowed rule or adjust rule priorities.''),
      fd_affectedResource = ur_name s, fd_cveId = None\<rparr>"

definition conflicting_rules :: "uni_rule \<Rightarrow> uni_rule \<Rightarrow> vuln_finding" where
  "conflicting_rules r s =
     \<lparr>fd_type = ''CONFLICTING_RULES'', fd_severity = MEDIUM,
      fd_title = ''Rules '' @ dq @ tpl (ur_name r) @ dq @ '' and '' @ dq @ tpl (ur_name s) @ dq @ '' may conflict'',
      fd_description = ''These rules have opposite actions ('' @ tpl (ur_action r) @ '' vs '' @ tpl (ur_action s) @
        '') but may match similar traffic. The rule with lower index takes precedence.'',
      fd_impact = Some (''Conflicting rules can lead to unexpected traffic being allowed or blocked.''),
      fd_remediation = Some (''Review these rules to ensure the intended behavior. Consider consolidating or reordering them.''),
      fd_affectedResource = Some (tpl (ur_name r) @ '' / '' @ tpl (ur_name s)), fd_cveId = None\<rparr>"

definition missing_rfc1918_block :: "vuln_finding" where
  "missing_rfc1918_block =
     \<lparr>fd_type = ''MISSING_RFC1918_BLOCK'', fd_severity = MEDIUM,
      fd_title = ''No RFC1918 block on WAN interface'',
      fd_description = ''Private IP addresses (RFC1918) from the WAN should be blocked to prevent IP spoofing attacks.'',
      fd_impact = Some (''Attackers could spoof internal IP addresses to bypass security controls.''),
      fd_remediation = Some (''Create a firewall rule to drop traffic from private IP ranges on the WAN interface.'' @ nl @ nl @
        ''In UniFi:'' @ nl @ ''1. Go to Settings > Routing & Firewall > Firewall'' @ nl @
        ''2. Create a new WAN IN rule'' @ nl @ ''3. Action: Drop'' @ nl @
        ''4. Source: Create groups for 10.0.0.0/8, 172.16.0.0/12, 192.168.0.0/16'' @ nl @
        ''5. Place at top of rules''),
      fd_affectedResource = Some ''WAN Firewall'', fd_cveId = None\<rparr>"

definition disabled_security_rule :: "uni_rule \<Rightarrow> vuln_finding" where
  "disabled_security_rule r =
     \<lparr>fd_type = ''DISABLED_SECURITY_RULE'', fd_severity = MEDIUM,
      fd_title = ''Security rule '' @ dq @ tpl (ur_name r) @ dq @ '' is disabled'',
      fd_description = ''The firewall rule '' @ dq @ tpl (ur_name r) @ dq @
        '' appears to be a security rule but is currently disabled.'',
      fd_impact = Some (''Traffic that should be blocked may be allowed through.''),
      fd_remediation = Some (''Review whether this rule should be enabled.'' @ nl @ nl @ ''In UniFi:'' @ nl @
        ''1. Go to Settings > Routing & Firewall > Firewall'' @ nl @ ''2. Find rule '' @ dq @ tpl (ur_name r) @ dq @
        nl @ ''3. Enable if appropriate''),
      fd_affectedResource = ur_name r, fd_cveId = None\<rparr>"

definition no_items :: "'a list option \<Rightarrow> bool" where
  "no_items xs \<longleftrightarrow> (case xs of None \<Rightarrow> True | Some ys \<Rightarrow> length ys = 0)"

definition isOverlyPermissive :: "uni_rule \<Rightarrow> bool" where
  "isOverlyPermissive r \<longleftrightarrow>
     (if ur_action r \<noteq> Some ''accept'' then False
      else
        (\<not> truthy (ur_src_address r) \<and> no_items (ur_src_groups r)) \<and>
        (\<not> truthy (ur_dst_address r) \<and> no_items (ur_dst_groups r)) \<and>
        (\<not> truthy (ur_dst_port r) \<and> \<not> truthy (ur_src_port r)) \<and>
        ur_protocol r = Some ''all'')"

definition on_wan :: "uni_rule \<Rightarrow> bool" where
  "on_wan r = (case ur_ruleset r of None \<Rightarrow> False | Some s \<Rightarrow> str_includes ''WAN'' s)"

definition checkDangerousPorts :: "uni_rule \<Rightarrow> vuln_finding list" where
  "checkDangerousPorts r =
     (if ur_action r \<noteq> Some ''accept'' \<or> \<not> is_on (ur_enabled r) then []
      else if \<not> truthy (ur_dst_port r) then []
      else
        concat (map
          (\<lambda>port. case dangerous_port (js_trim port) of
             None \<Rightarrow> []
           | Some info \<Rightarrow> when_list (on_wan r) (dangerous_port_exposed r (js_trim port) info))
          (split_on CHR '','' (the (ur_dst_port r)))))"

definition rulesShadow :: "uni_rule \<Rightarrow> uni_rule \<Rightarrow> bool" where
  "rulesShadow higher lower =
     (if ur_protocol higher \<noteq> Some ''all'' \<and> ur_protocol higher \<noteq> ur_protocol lower then False
      else if truthy (ur_dst_port higher) \<and> truthy (ur_dst_port lower) \<and> ur_dst_port higher \<noteq> ur_dst_port lower then False
      else True)"

definition rulesOverlap :: "uni_rule \<Rightarrow> uni_rule \<Rightarrow> bool" where
  "rulesOverlap r s =
     (if ur_protocol r \<noteq> Some ''all'' \<and> ur_protocol s \<noteq> Some ''all'' \<and> ur_protocol r \<noteq> ur_protocol s then False else True)"

definition index_before :: "uni_rule \<Rightarrow> uni_rule \<Rightarrow> bool" where
  "index_before r s = (case (ur_rule_index r, ur_rule_index s) of (Some i, Some j) \<Rightarrow> i < j | _ \<Rightarrow> False)"

definition pair_findings :: "uni_rule \<Rightarrow> uni_rule \<Rightarrow> vuln_finding list" where
  "pair_findings r s =
     (if ur_id r = ur_id s \<or> \<not> is_on (ur_enabled s) \<or> ur_ruleset r \<noteq> ur_ruleset s then []
      else
        when_list (index_before r s \<and> rulesShadow r s) (shadowed_rule r s) @
        when_list (ur_action r \<noteq> ur_action s \<and> rulesOverlap r s) (conflicting_rules r s))"

definition findRuleConflicts :: "uni_rule \<Rightarrow> uni_rule list \<Rightarrow> vuln_finding list" where
  "findRuleConflicts r rules = concat (map (pair_findings r) rules)"

definition blocks_private_sources :: "uni_rule \<Rightarrow> bool" where
  "blocks_private_sources r \<longleftrightarrow>
     is_on (ur_enabled r) \<and> ur_action r = Some ''drop'' \<and> on_wan r \<and>
     (names_any (ur_name r) [''rfc1918'', ''private''] \<or>
      (case ur_src_address r of
         None \<Rightarrow> False
       | Some a \<Rightarrow> str_includes ''10.0.0.0'' a \<or> str_includes ''192.168.'' a \<or> str_includes ''172.16.'' a))"

definition checkMissingRules :: "uni_rule list \<Rightarrow> vuln_finding list" where
  "checkMissingRules rules = when_list (\<not> (\<exists>r \<in> set rules. blocks_private_sources r)) missing_rfc1918_block"

definition securityKeywords :: "string list" where
  "securityKeywords = [''block'', ''drop'', ''deny'', ''reject'', ''security'', ''isolat'']"

definition is_security_rule :: "uni_rule \<Rightarrow> bool" where
  "is_security_rule r \<longleftrightarrow>
     names_any (ur_name r) securityKeywords \<or> ur_action r = Some ''drop'' \<or> ur_action r = Some ''reject''"

definition checkDisabledSecurityRules :: "uni_rule list \<Rightarrow> vuln_finding list" where
  "checkDisabledSecurityRules rules =
     map disabled_security_rule (filter (\<lambda>r. \<not> is_on (ur_enabled r) \<and> is_security_rule r) rules)"

definition rule_findings :: "uni_rule list \<Rightarrow> uni_rule \<Rightarrow> vuln_finding list" where
  "rule_findings rules r =
     (if \<not> is_on (ur_enabled r) then []
      else
        when_list (isOverlyPermissive r) (overly_permissive_rule r) @
        checkDangerousPorts r @
        findRuleConflicts r rules)"

definition firewall_findings :: "uni_rule list \<Rightarrow> vuln_finding list" where
  "firewall_findings rules =
     concat (map (rule_findings rules) rules) @ checkMissingRules rules @ checkDisabledSecurityRules rules"

definition analyzeFirewallRules :: "fields \<Rightarrow> vuln_finding list" where
  "analyzeFirewallRules config = firewall_findings (config_rules config)"

section \<open>Disabled settings\<close>

lemma concat_enabled: "(\<And>x. \<not> p x \<Longrightarrow> f x = []) \<Longrightarrow> concat (map f xs) = concat (map f (filter p xs))"
  by (induction xs) auto

lemma pair_disabled: "\<not> is_on (ur_enabled s) \<Longrightarrow> pair_findings r s = []"
  by (simp add: pair_findings_def)

lemma rule_findings_enabled: "rule_findings rules r = rule_findings (filter (\<lambda>r. is_on (ur_enabled r)) rules) r"
  unfolding rule_findings_def findRuleConflicts_def
  by (subst concat_enabled [where p = "\<lambda>r. is_on (ur_enabled r)"]) (simp_all add: pair_disabled)

text \<open>What is switched off has no part in the report.  The findings on port forwards and wireless networks are those
  of the enabled ones alone; so are the findings on firewall rules, apart from one finding for each disabled rule that
  looks like a security rule.\<close>
lemma disabled_settings_ignored:
  "port_forward_findings forwards = port_forward_findings (filter (\<lambda>p. is_on (uf_enabled p)) forwards) \<and>
    wlan_findings networks wlans = wlan_findings networks (filter (\<lambda>w. is_on (uw_enabled w)) wlans) \<and>
    firewall_findings rules = firewall_findings (filter (\<lambda>r. is_on (ur_enabled r)) rules) @
      map disabled_security_rule (filter (\<lambda>r. \<not> is_on (ur_enabled r) \<and> is_security_rule r) rules)"
proof (intro conjI)
  define on_rules where "on_rules = filter (\<lambda>r. is_on (ur_enabled r)) rules"
  show "port_forward_findings forwards = port_forward_findings (filter (\<lambda>p. is_on (uf_enabled p)) forwards)"
    unfolding port_forward_findings_def
    by (subst concat_enabled [where p = "\<lambda>p. is_on (uf_enabled p)"]) (simp_all add: forward_findings_def)
  have w: "filter (\<lambda>w. is_on (uw_enabled w) \<and> q w) (filter (\<lambda>w. is_on (uw_enabled w)) wlans) =
      filter (\<lambda>w. is_on (uw_enabled w) \<and> q w) wlans" for q
    by (induction wlans) auto
  show "wlan_findings networks wlans = wlan_findings networks (filter (\<lambda>w. is_on (uw_enabled w)) wlans)"
    unfolding wlan_findings_def w
    by (subst concat_enabled [where p = "\<lambda>w. is_on (uw_enabled w)"]) (simp_all add: wlan_checks_def)
  have f: "rule_findings rules = rule_findings on_rules" unfolding on_rules_def by (rule ext) (rule rule_findings_enabled)
  have c: "concat (map (rule_findings on_rules) rules) = concat (map (rule_findings on_rules) on_rules)"
    unfolding on_rules_def by (rule concat_enabled) (simp add: rule_findings_def)
  have "checkMissingRules rules = checkMissingRules on_rules"
    unfolding checkMissingRules_def on_rules_def by (rule arg_cong [where f = "\<lambda>b. when_list b missing_rfc1918_block"])
      (auto simp: blocks_private_sources_def)
  moreover have "checkDisabledSecurityRules on_rules = []"
    by (simp add: checkDisabledSecurityRules_def on_rules_def filter_empty_conv)
  ultimately have "firewall_findings rules = firewall_findings on_rules @
      map disabled_security_rule (filter (\<lambda>r. \<not> is_on (ur_enabled r) \<and> is_security_rule r) rules)"
    unfolding firewall_findings_def f c by (simp add: checkDisabledSecurityRules_def)
  then show "firewall_findings rules = firewall_findings (filter (\<lambda>r. is_on (ur_enabled r)) rules) @
      map disabled_security_rule (filter (\<lambda>r. \<not> is_on (ur_enabled r) \<and> is_security_rule r) rules)"
    by (simp only: on_rules_def)
qed

section \<open>Duplicate VLANs\<close>

lemma repeated_from_set: "set (repeated_from seen xs) = {x \<in> set xs. x \<in> set seen \<or> 2 \<le> count_list xs x}"
proof (induction xs arbitrary: seen)
  case (Cons x xs)
  have "set (repeated_from seen (x # xs)) = (if x \<in> set seen then {x} else {}) \<union> set (repeated_from (seen @ [x]) xs)"
    by simp
  also have "\<dots> = {y \<in> set (x # xs). y \<in> set seen \<or> 2 \<le> count_list (x # xs) y}"
    unfolding Cons.IH by (auto simp: count_list_0_iff Suc_le_eq) (metis count_notin less_irrefl)
  finally show ?case .
qed simp

lemma repeated_from_nil: "repeated_from [] xs = [] \<longleftrightarrow> distinct xs"
proof -
  have "repeated_from [] xs = [] \<longleftrightarrow> (\<forall>x \<in> set xs. \<not> 2 \<le> count_list xs x)"
    using repeated_from_set [of "[]" xs] by (auto simp flip: set_empty)
  also have "\<dots> \<longleftrightarrow> distinct xs"
    by (induction xs) (auto simp: count_list_0_iff Suc_le_eq not_le)
  finally show ?thesis .
qed

section \<open>Gaps of the checks\<close>

text \<open>Of several guest networks only the first is checked: when it is tagged, no other one is reported.\<close>

lemma later_guest_networks_unchecked:
  assumes "find looks_guest networks = Some n" and "un_vlan_enabled n = Some True"
  shows "first_untagged looks_guest guest_not_isolated (networks @ rest) = []"
proof -
  have "find looks_guest (networks @ rest) = Some n" using assms(1) by (induction networks) auto
  then show ?thesis using assms(2) by (simp add: first_untagged_def when_list_def)
qed

text \<open>A rule for one source and one port is reported to shadow a later rule that allows everything, although it covers
  only a part of its traffic.\<close>

lemma narrow_rule_shadows_everything:
  assumes "r \<in> set rules" and "s \<in> set rules" and "is_on (ur_enabled r)" and "is_on (ur_enabled s)"
    and "ur_id r \<noteq> ur_id s" and "ur_ruleset r = ur_ruleset s" and "index_before r s"
    and "ur_protocol r = Some ''all''" and "ur_dst_port r = Some ''22''" and "ur_src_address r = Some ''192.0.2.7''"
    and "isOverlyPermissive s"
  shows "shadowed_rule r s \<in> set (firewall_findings rules)"
proof -
  have "\<not> truthy (ur_dst_port s)" using assms(11) by (simp add: isOverlyPermissive_def split: if_splits)
  then have "rulesShadow r s" using assms(8) by (simp add: rulesShadow_def)
  then have "shadowed_rule r s \<in> set (pair_findings r s)"
    using assms(4-7) by (simp add: pair_findings_def in_when_list)
  then have "shadowed_rule r s \<in> set (rule_findings rules r)"
    using assms(2,3) by (auto simp: rule_findings_def findRuleConflicts_def)
  then show ?thesis using assms(1) by (auto simp: firewall_findings_def)
qed

end
