(* ===== verification/Firmware_Advisories.thy ===== *)
theory Firmware_Advisories
  imports Config_Types
begin

text \<open>
  \<open>analyzers/firmwareAdvisory/versions.ts\<close>, \<open>analyzers/firmwareAdvisory/advisories.ts\<close> and
  \<open>analyzers/firmwareAdvisoryAnalyzer.ts\<close>: which consoles run a version that a security bulletin covers.
\<close>

section \<open>Versions\<close>

text \<open>The text between the separators \<open>.\<close>, \<open>-\<close> and \<open>+\<close>.\<close>

definition version_segments :: "string \<Rightarrow> string list" where
  "version_segments s = split_on CHR ''.'' (map (\<lambda>c. if c = CHR ''-'' \<or> c = CHR ''+'' then CHR ''.'' else c) s)"

definition drop_v :: "string \<Rightarrow> string" where
  "drop_v s = (case s of c # r \<Rightarrow> if lower_char c = CHR ''v'' then r else s | [] \<Rightarrow> [])"

fun leading_numbers :: "string list \<Rightarrow> int list" where
  "leading_numbers [] = []"
| "leading_numbers (segment # rest) =
     (case js_parse_int segment of None \<Rightarrow> [] | Some n \<Rightarrow> n # leading_numbers rest)"

definition parseVersion :: "string \<Rightarrow> int list" where
  "parseVersion version = leading_numbers (version_segments (drop_v (js_trim version)))"

definition part :: "int list \<Rightarrow> nat \<Rightarrow> int" where
  "part ns i = (if i < length ns then ns ! i else 0)"

text \<open>The loop over the positions that are left, up to the length of the longer version.\<close>

fun compare_from :: "int list \<Rightarrow> int list \<Rightarrow> nat list \<Rightarrow> int" where
  "compare_from pa pb [] = 0"
| "compare_from pa pb (i # is) =
     (let diff = part pa i - part pb i in
      if diff \<noteq> 0 then (if diff < 0 then - 1 else 1) else compare_from pa pb is)"

definition compareVersions :: "string \<Rightarrow> string \<Rightarrow> int" where
  "compareVersions a b =
     (let pa = parseVersion a; pb = parseVersion b in compare_from pa pb [0..<max (length pa) (length pb)])"

definition isAtOrBelow :: "string \<Rightarrow> string \<Rightarrow> bool" where
  "isAtOrBelow version threshold \<longleftrightarrow> compareVersions version threshold \<le> 0"

definition isParseableVersion :: "string option \<Rightarrow> bool" where
  "isParseableVersion version = (case version of None \<Rightarrow> False | Some v \<Rightarrow> 0 < length (parseVersion v))"

section \<open>Advisories\<close>

record affected_family =
  af_label :: string
  af_models :: "string list"
  af_affectedThrough :: string
  af_fixedVersion :: string
  af_isDefault :: bool

text \<open>Title, date and the descriptions of the CVEs are not read by any code and left out.\<close>

record firmware_advisory =
  fa_id :: string
  fa_url :: string
  fa_summary :: string
  fa_severity :: severity
  fa_maxCvss :: rat
  fa_cves :: "(string \<times> rat option) list"
  fa_families :: "affected_family list"

definition SAB_064 :: firmware_advisory where
  "SAB_064 =
     \<lparr>fa_id = ''SAB-064'',
      fa_url =
        ''https://community.ui.com/releases/Security-Advisory-Bulletin-064-064/84811c09-4cf4-42ab-bd61-cc9'' @
        ''94445963b'',
      fa_summary =
        ''Five vulnerabilities in UniFi OS '' @ em_dash @ '' three rated CVSS 10.0 '' @ em_dash @
        '' allow an actor with network access to inject commands, traverse the filesystem, and make '' @
        ''unauthorized changes to the underlying system. Update UniFi OS immediately.'',
      fa_severity = CRITICAL, fa_maxCvss = 10,
      fa_cves =
        [(''CVE-2026-34908'', Some 10),
         (''CVE-2026-34909'', Some 10),
         (''CVE-2026-34910'', Some 10),
         (''CVE-2026-33000'', Some (91 / 10)),
         (''CVE-2026-34911'', None)],
      fa_families =
      [\<lparr>af_label = ''UniFi OS Server (software)'',
       af_models = [''UNIFIOSSERVER'', ''UOS-SERVER''],
       af_affectedThrough = ''5.0.6'', af_fixedVersion = ''5.0.8'', af_isDefault = False\<rparr>,
      \<lparr>af_label = ''UNAS (UNAS-2/4/Pro/Pro-4/Pro-8)'',
       af_models = [''UNAS''],
       af_affectedThrough = ''5.1.8'', af_fixedVersion = ''5.1.10'', af_isDefault = False\<rparr>,
      \<lparr>af_label = ''UDM-Beast'',
       af_models = [''BEAST''],
       af_affectedThrough = ''5.1.8'', af_fixedVersion = ''5.1.11'', af_isDefault = False\<rparr>,
      \<lparr>af_label = ''UNVR-G2 / UNVR-G2-Pro'',
       af_models = [''UNVRG2'', ''UNVR-G2''],
       af_affectedThrough = ''5.1.11'', af_fixedVersion = ''5.1.12'', af_isDefault = False\<rparr>,
      \<lparr>af_label = ''UCG-Industrial'',
       af_models = [''UCGINDUSTRIAL'', ''UCG-INDUSTRIAL''],
       af_affectedThrough = ''5.0.13'', af_fixedVersion = ''5.1.12'', af_isDefault = False\<rparr>,
      \<lparr>af_label = ''Cloud Key / UDR-5G / ENVR-Core'',
       af_models = [''UCKP'', ''UCK'', ''UDR5G'', ''UDR-5G'', ''ENVRCORE'', ''ENVR-CORE''],
       af_affectedThrough = ''5.0.17'', af_fixedVersion = ''5.1.12'', af_isDefault = False\<rparr>,
      \<lparr>af_label = ''UniFi OS console (UDM / UDR / UNVR / ENVR / UCG / EFG / UDW / Express)'',
       af_models = [''UDMPRO'', ''UDM'', ''UDR7'', ''UDR'', ''UNVRPRO'', ''UNVR'', ''ENVR'', ''UCG'', ''EFG'', ''UDW'', ''EXPRESS''],
       af_affectedThrough = ''5.0.16'', af_fixedVersion = ''5.1.12'', af_isDefault = True\<rparr>]\<rparr>"

definition FIRMWARE_ADVISORIES :: "firmware_advisory list" where
  "FIRMWARE_ADVISORIES = [SAB_064]"

text \<open>White space and underscores are removed from a model, hyphens too from the patterns.\<close>

definition plain_model :: "string \<Rightarrow> string" where
  "plain_model model = filter (\<lambda>c. \<not> (is_space c \<or> c = CHR ''_'')) (to_upper model)"

definition plain_pattern :: "string \<Rightarrow> string" where
  "plain_pattern m = filter (\<lambda>c. \<not> (is_space c \<or> c = CHR ''_'' \<or> c = CHR ''-'')) m"

definition matchFamily :: "firmware_advisory \<Rightarrow> string option \<Rightarrow> affected_family option" where
  "matchFamily advisory model =
     (if \<not> truthy model then None
      else
        (let upper = plain_model (the model) in
         find (\<lambda>family. \<exists>m \<in> set (af_models family). str_includes (plain_pattern m) upper) (fa_families advisory)))"

definition defaultFamily :: "firmware_advisory \<Rightarrow> affected_family option" where
  "defaultFamily advisory = find af_isDefault (fa_families advisory)"

section \<open>Targets\<close>

record eval_target =
  et_label :: string
  et_model :: "string option"
  et_version :: string
  et_key :: string

definition target_of_device :: "uni_device \<Rightarrow> eval_target" where
  "target_of_device d =
     \<lparr>et_label = (if truthy (ud_name d) then tpl (ud_name d) @ '' ('' @ tpl (ud_model d) @ '')''
                   else str_dflt (ud_model d) ''UniFi OS console''),
      et_model = ud_model d, et_version = tpl (ud_version d),
      et_key = to_upper (str_dflt (ud_model d) []) @ ''|'' @ tpl (ud_version d)\<rparr>"

definition is_console :: "uni_device \<Rightarrow> bool" where
  "is_console d \<longleftrightarrow>
     isParseableVersion (ud_version d) \<and> (\<exists>a \<in> set FIRMWARE_ADVISORIES. matchFamily a (ud_model d) \<noteq> None)"

definition target_step ::
    "(string \<times> eval_target) list \<times> string list \<Rightarrow> uni_device \<Rightarrow> (string \<times> eval_target) list \<times> string list" where
  "target_step st d =
     (case st of (targets, hints) \<Rightarrow>
        if \<not> is_console d then st
        else
          (let hints' = (if truthy (ud_model d) then hints @ [tpl (ud_model d)] else hints);
               t = target_of_device d
           in (if om_get targets (et_key t) = None then om_set (et_key t) t targets else targets, hints')))"

definition sysinfo_target :: "string \<Rightarrow> string list \<Rightarrow> eval_target" where
  "sysinfo_target osVersion hints =
     (let model = (case hints of [] \<Rightarrow> None | h # hs \<Rightarrow> Some h) in
      \<lparr>et_label = (if truthy model then ''UniFi OS console ('' @ the model @ '')'' else ''UniFi OS (this controller)''),
       et_model = model, et_version = osVersion, et_key = ''SYSINFO|'' @ osVersion\<rparr>)"

definition collectTargets :: "fields \<Rightarrow> eval_target list" where
  "collectTargets config =
     (let (targets, hints) = foldl target_step ([], []) (config_devices config);
          osVersion = get_str (get_obj config ''sysInfo'') ''udm_version''
      in om_values
           (if isParseableVersion osVersion \<and> \<not> (\<exists>t \<in> set (om_values targets). et_version t = the osVersion)
            then om_set (''SYSINFO|'' @ the osVersion) (sysinfo_target (the osVersion) hints) targets
            else targets))"

section \<open>Findings\<close>

definition to_fixed1 :: "rat \<Rightarrow> string" where
  "to_fixed1 r = (let n = nat \<lfloor>10 * r + 1 / 2\<rfloor> in show_nat (n div 10) @ CHR ''.'' # [digit_char (n mod 10)])"

definition cve_text :: "string \<times> rat option \<Rightarrow> string" where
  "cve_text c = (if num_truthy (snd c) then fst c @ '' (CVSS '' @ to_fixed1 (the (snd c)) @ '')'' else fst c)"

definition buildFinding :: "firmware_advisory \<Rightarrow> affected_family \<Rightarrow> eval_target \<Rightarrow> vuln_finding" where
  "buildFinding a f t =
     \<lparr>fd_type = ''OUTDATED_FIRMWARE_ADVISORY'', fd_severity = fa_severity a,
      fd_title = fa_id a @ '': UniFi OS '' @ et_version t @ '' is affected by critical vulnerabilities'',
      fd_description = et_label t @ '' is running UniFi OS '' @ et_version t @ '', which is affected by '' @ fa_id a @ ''. '' @
        fa_summary a @ nl @ nl @ ''Bundled CVEs: '' @ join '', '' (map cve_text (fa_cves a)) @ ''.'',
      fd_impact = Some (''An actor with network access to this device can exploit these flaws (max CVSS '' @
        to_fixed1 (fa_maxCvss a) @
        '') to execute commands, read or manipulate files on the underlying system, and make unauthorized '' @
        ''changes '' @ em_dash @ '' a full compromise of the device that sits at the center of your network.''),
      fd_remediation = Some (''Update UniFi OS on this '' @ af_label f @ '' to '' @ af_fixedVersion f @ '' or later.'' @ nl @ nl @
        ''1. Open the UniFi console / UniFi OS dashboard'' @ nl @
        ''2. Go to System > Updates (or Console Settings > Firmware)'' @ nl @
        ''3. Install the latest UniFi OS update ('' @ af_fixedVersion f @ ''+)'' @ nl @
        ''4. Re-run a ZeroProof sync to confirm the finding clears'' @ nl @ nl @ ''Advisory: '' @ fa_url a),
      fd_affectedResource = Some (et_label t @ '' '' @ em_dash @ '' UniFi OS '' @ et_version t),
      fd_cveId = (case fa_cves a of [] \<Rightarrow> None | c # cs \<Rightarrow> Some (fst c))\<rparr>"

definition advise :: "firmware_advisory \<Rightarrow> eval_target \<Rightarrow> vuln_finding list" where
  "advise a t =
     (case nullish (matchFamily a (et_model t)) (defaultFamily a) of
        None \<Rightarrow> []
      | Some family \<Rightarrow> when_list (isAtOrBelow (et_version t) (af_affectedThrough family)) (buildFinding a family t))"

definition analyzeFirmwareAdvisories :: "fields \<Rightarrow> vuln_finding list" where
  "analyzeFirmwareAdvisories config =
     concat (map (\<lambda>a. concat (map (advise a) (collectTargets config))) FIRMWARE_ADVISORIES)"

section \<open>Comparison of versions\<close>

text \<open>What is meant by one version being at or below another: the numbers, continued with zeros, agree everywhere,
  or are smaller at the first position where they differ.\<close>

definition version_le :: "int list \<Rightarrow> int list \<Rightarrow> bool" where
  "version_le xs ys \<longleftrightarrow>
     (\<forall>i. part xs i = part ys i) \<or> (\<exists>k. (\<forall>i < k. part xs i = part ys i) \<and> part xs k < part ys k)"

lemma compare_from_le:
  "compare_from xs ys [k..<n] \<le> 0 \<longleftrightarrow>
     (\<forall>i \<in> {k..<n}. part xs i = part ys i) \<or>
     (\<exists>j \<in> {k..<n}. (\<forall>i \<in> {k..<j}. part xs i = part ys i) \<and> part xs j < part ys j)"
proof (induction "n - k" arbitrary: k)
  case 0
  then show ?case by simp
next
  case (Suc m)
  then have k: "k < n" and IH: "compare_from xs ys [Suc k..<n] \<le> 0 \<longleftrightarrow>
     (\<forall>i \<in> {Suc k..<n}. part xs i = part ys i) \<or>
     (\<exists>j \<in> {Suc k..<n}. (\<forall>i \<in> {Suc k..<j}. part xs i = part ys i) \<and> part xs j < part ys j)"
    by auto
  have split: "{k..<n} = insert k {Suc k..<n}" using k by auto
  have tail: "{k..<j} = insert k {Suc k..<j}" if "j \<in> {Suc k..<n}" for j using that by auto
  show ?case
  proof (cases "part xs k = part ys k")
    case True
    then show ?thesis using k IH by (simp add: upt_conv_Cons Let_def split tail)
  next
    case False
    then have "compare_from xs ys [k..<n] \<le> 0 \<longleftrightarrow> part xs k < part ys k"
      using k by (simp add: upt_conv_Cons Let_def)
    then show ?thesis using False k by (auto simp: split tail)
  qed
qed

lemma compare_le: "compare_from xs ys [0..<max (length xs) (length ys)] \<le> 0 \<longleftrightarrow> version_le xs ys"
proof -
  have beyond: "part xs i = part ys i" if "max (length xs) (length ys) \<le> i" for i using that by (simp add: part_def)
  have "k < max (length xs) (length ys)" if "part xs k < part ys k" for k
    using that beyond [of k] by linarith
  then show ?thesis unfolding compare_from_le version_le_def using beyond
    by (smt (verit, best) atLeastLessThan_iff leI zero_le)
qed

lemma version_le_refl: "version_le xs xs"
  by (simp add: version_le_def)

lemma version_le_trans:
  assumes "version_le xs ys" and "version_le ys zs"
  shows "version_le xs zs"
proof -
  consider "\<forall>i. part xs i = part ys i" | "\<forall>i. part ys i = part zs i"
    | j k where "\<forall>i < j. part xs i = part ys i" "part xs j < part ys j" "\<forall>i < k. part ys i = part zs i" "part ys k < part zs k"
    using assms unfolding version_le_def by blast
  then show ?thesis
  proof cases
    case 3
    then have "(\<forall>i < min j k. part xs i = part zs i) \<and> part xs (min j k) < part zs (min j k)"
      by (cases j k rule: linorder_cases) (auto simp: min_def)
    then show ?thesis unfolding version_le_def by blast
  qed (use assms in \<open>simp_all add: version_le_def\<close>)
qed

lemma version_le_total: "version_le xs ys \<or> version_le ys xs"
proof (cases "\<forall>i. part xs i = part ys i")
  case False
  define k where "k = (LEAST i. part xs i \<noteq> part ys i)"
  have "part xs k \<noteq> part ys k" using False unfolding k_def by (metis (mono_tags, lifting) LeastI)
  moreover have "\<forall>i < k. part xs i = part ys i" unfolding k_def using not_less_Least by blast
  ultimately show ?thesis unfolding version_le_def by (metis linorder_neqE)
qed (simp add: version_le_def)

lemma at_or_below: "isAtOrBelow v w \<longleftrightarrow> version_le (parseVersion v) (parseVersion w)"
  by (simp add: isAtOrBelow_def compareVersions_def Let_def compare_le)

section \<open>Dotted numbers\<close>

definition dotted :: "nat list \<Rightarrow> string" where
  "dotted ns = join ''.'' (map show_nat ns)"

lemma dotted_Cons: "dotted (n # ns) = show_nat n @ (if ns = [] then [] else CHR ''.'' # dotted ns)"
  by (cases ns) (simp_all add: dotted_def)

lemma dotted_chars: "c \<in> set (dotted ns) \<Longrightarrow> is_digit c \<or> c = CHR ''.''"
  by (induction ns) (auto simp: dotted_def [of "[]"] dotted_Cons dest: show_nat_digits split: if_splits)

lemma dotted_no_space: "c \<in> set (dotted ns) \<Longrightarrow> \<not> is_space c"
  by (drule dotted_chars) (auto simp: is_digit_def is_space_def Let_def)

lemma trim_no_space:
  assumes "\<And>c. c \<in> set s \<Longrightarrow> \<not> is_space c"
  shows "js_trim s = s"
proof -
  have "dropWhile is_space xs = xs" if "\<And>c. c \<in> set xs \<Longrightarrow> \<not> is_space c" for xs
    using that by (cases xs) simp_all
  from this [of s] this [of "rev s"] show ?thesis using assms by (simp add: js_trim_def)
qed

lemma leading_numbers_map: "leading_numbers (map show_nat ns) = map int ns"
  by (induction ns) (simp_all add: js_parse_int_show_nat)

lemma parse_dotted:
  assumes "ns \<noteq> []"
  shows "parseVersion (dotted ns) = map int ns"
proof -
  obtain n ms where ns: "ns = n # ms" using assms by (cases ns) auto
  obtain c r where c: "show_nat n = c # r" by (cases "show_nat n") auto
  have "is_digit c" using show_nat_digits [of c n] c by simp
  then have v: "drop_v (dotted ns) = dotted ns"
    by (auto simp: ns dotted_Cons c drop_v_def is_digit_def lower_char_def Let_def)
  have "map (\<lambda>c. if c = CHR ''-'' \<or> c = CHR ''+'' then CHR ''.'' else c) (dotted ns) = dotted ns"
    by (rule map_idI) (auto dest!: dotted_chars simp: is_digit_def Let_def)
  then have "version_segments (dotted ns) = split_on CHR ''.'' (dotted ns)" by (simp only: version_segments_def)
  also have "\<dots> = map show_nat ns"
    unfolding dotted_def using assms by (intro split_on_join) (auto dest: show_nat_digits simp: is_digit_def Let_def)
  finally show ?thesis
    by (simp add: parseVersion_def trim_no_space [OF dotted_no_space] v leading_numbers_map)
qed

text \<open>Version numbers are compared as numbers.  A dotted version is at or below a threshold exactly when its
  components, read as numbers and continued with zeros, agree with those of the threshold or are smaller at the first
  difference; so versions are ordered, every version below an affected one is affected, and trailing zeros do not
  matter.\<close>
lemma versions_compared_as_numbers:
  assumes "ns \<noteq> []" and "ms \<noteq> []" and "ls \<noteq> []"
  shows "(isAtOrBelow (dotted ns) (dotted ms) \<longleftrightarrow> version_le (map int ns) (map int ms)) \<and>
    (isAtOrBelow (dotted ns) (dotted ms) \<or> isAtOrBelow (dotted ms) (dotted ns)) \<and>
    (isAtOrBelow (dotted ls) (dotted ns) \<and> isAtOrBelow (dotted ns) (dotted ms) \<longrightarrow> isAtOrBelow (dotted ls) (dotted ms)) \<and>
    isAtOrBelow (dotted (ns @ [0])) (dotted ns) \<and> isAtOrBelow (dotted ns) (dotted (ns @ [0]))"
proof (intro conjI impI; (elim conjE)?)
  have zero: "part (map int ns @ [0]) i = part (map int ns) i" for i by (simp add: part_def nth_append)
  show "isAtOrBelow (dotted (ns @ [0])) (dotted ns)" "isAtOrBelow (dotted ns) (dotted (ns @ [0]))"
    using assms by (simp_all add: at_or_below parse_dotted version_le_def zero)
qed (use assms version_le_total version_le_trans in \<open>auto simp: at_or_below parse_dotted\<close>)

lemma versions_compared_as_numbers_witness:
  "isAtOrBelow (dotted [5, 0, 9]) (dotted [5, 0, 16]) = version_le [5, 0, 9] [5, 0, 16]"
  using versions_compared_as_numbers [of "[5, 0, 9]" "[5, 0, 16]" "[5]"] by simp

section \<open>No console is missed\<close>

definition targets_ok :: "uni_device set \<Rightarrow> (string \<times> eval_target) list \<Rightarrow> bool" where
  "targets_ok D targets \<longleftrightarrow>
     (\<forall>(k, t) \<in> set targets. \<exists>d \<in> D. is_console d \<and> t = target_of_device d \<and> k = et_key t) \<and>
     (\<forall>d \<in> D. is_console d \<longrightarrow> om_get targets (et_key (target_of_device d)) \<noteq> None)"

lemma targets_okD:
  assumes "targets_ok D targets" and "(k, t) \<in> set targets"
  obtains d where "d \<in> D" "is_console d" "t = target_of_device d" "k = et_key t"
proof -
  have "case (k, t) of (k, t) \<Rightarrow> \<exists>d \<in> D. is_console d \<and> t = target_of_device d \<and> k = et_key t"
    using assms unfolding targets_ok_def by (elim conjE) (drule bspec)
  then show thesis using that by auto
qed

lemma target_step_ok:
  assumes "targets_ok D (fst st)"
  shows "targets_ok (insert d D) (fst (target_step st d))"
proof -
  obtain targets hints where st: "st = (targets, hints)" by (cases st)
  let ?k = "et_key (target_of_device d)"
  have new: "set (om_set ?k t targets) = insert (?k, t) (set targets)" if "om_get targets ?k = None" for t
    using that by (induction targets) (auto simp: om_get_def split: if_splits)
  show ?thesis
  proof (cases "is_console d \<and> om_get targets ?k = None")
    case True
    then have "fst (target_step st d) = om_set ?k (target_of_device d) targets"
      by (simp add: target_step_def st Let_def)
    then show ?thesis using assms True new by (auto simp: targets_ok_def st om_get_set)
  next
    case False
    then have "fst (target_step st d) = targets" by (auto simp: target_step_def st Let_def)
    then show ?thesis using assms False unfolding targets_ok_def st by (auto split: if_splits)
  qed
qed

lemma targets_fold: "targets_ok D (fst st) \<Longrightarrow> targets_ok (D \<union> set ds) (fst (foldl target_step st ds))"
proof (induction ds arbitrary: D st)
  case (Cons d ds)
  show ?case using Cons.IH [OF target_step_ok [OF Cons.prems, of d]] by simp
qed simp

lemma last_bar:
  assumes "m @ CHR ''|'' # v = m' @ CHR ''|'' # v'" and "CHR ''|'' \<notin> set v" and "CHR ''|'' \<notin> set v'"
  shows "m = m' \<and> v = v'"
proof -
  have tail: "takeWhile (\<lambda>c. c \<noteq> CHR ''|'') (rev x @ CHR ''|'' # rev y) = rev x" if "CHR ''|'' \<notin> set x" for x y
    using that by (subst takeWhile_append2) auto
  have "rev v @ CHR ''|'' # rev m = rev v' @ CHR ''|'' # rev m'"
    using arg_cong [OF assms(1), of rev] by simp
  then have "rev v = rev v'" using tail [OF assms(2), of m] tail [OF assms(3), of m'] by (simp only:)
  then show ?thesis using assms(1) by simp
qed

lemma match_upper:
  assumes "to_upper m = to_upper m'" and "m \<noteq> []"
  shows "matchFamily a (Some m) = matchFamily a (Some m')"
proof -
  have "m' \<noteq> []" using assms by (auto simp: to_upper_def)
  then show ?thesis using assms by (simp add: matchFamily_def plain_model_def Let_def)
qed

lemma console_fields:
  assumes "is_console d"
  shows "\<exists>m v. ud_model d = Some m \<and> m \<noteq> [] \<and> ud_version d = Some v"
  using assms
  by (cases "ud_model d"; cases "ud_version d") (auto simp: is_console_def matchFamily_def isParseableVersion_def)

lemma target_fields:
  assumes "ud_model d = Some m" and "m \<noteq> []" and "ud_version d = Some v"
  shows "et_key (target_of_device d) = to_upper m @ CHR ''|'' # v" "et_version (target_of_device d) = v"
    "et_model (target_of_device d) = Some m"
  using assms by (simp_all add: target_of_device_def tpl_def dflt_def str_dflt_def)

text \<open>The separator of the keys.\<close>

definition no_bar :: "string option \<Rightarrow> bool" where
  "no_bar v \<longleftrightarrow> (case v of None \<Rightarrow> True | Some s \<Rightarrow> CHR ''|'' \<notin> set s)"

lemma console_entry:
  assumes "d \<in> set ds" and "is_console d" and "ud_version d = Some v" and "\<forall>d \<in> set ds. no_bar (ud_version d)"
    and "ts = fst (foldl target_step ([], []) ds)"
  shows "\<exists>k t. (k, t) \<in> set ts \<and> et_version t = v \<and> (\<forall>a. matchFamily a (et_model t) = matchFamily a (ud_model d))"
proof -
  have ok: "targets_ok (set ds) ts"
    using targets_fold [of "{}" "([], [])" ds] by (simp add: targets_ok_def assms(5))
  then obtain t where "om_get ts (et_key (target_of_device d)) = Some t" using assms(1,2) unfolding targets_ok_def by blast
  then have mem: "(et_key (target_of_device d), t) \<in> set ts" by (simp add: om_get_def map_of_SomeD)
  from ok mem obtain d' where d': "d' \<in> set ds" "is_console d'" "t = target_of_device d'" "et_key (target_of_device d) = et_key t"
    by (rule targets_okD)
  obtain m where m: "ud_model d = Some m" "m \<noteq> []" using console_fields [OF assms(2)] by blast
  obtain m' v' where m': "ud_model d' = Some m'" "m' \<noteq> []" "ud_version d' = Some v'" using console_fields [OF d'(2)] by blast
  have "to_upper m @ CHR ''|'' # v = to_upper m' @ CHR ''|'' # v'"
    using d'(4) unfolding d'(3) target_fields [OF m assms(3)] target_fields [OF m'] .
  moreover have "no_bar (Some v)" using bspec [OF assms(4) assms(1)] by (simp add: assms(3))
  moreover have "no_bar (Some v')" using bspec [OF assms(4) d'(1)] by (simp add: m'(3))
  ultimately have eq: "to_upper m = to_upper m'" "v = v'"
    using last_bar [of "to_upper m" v "to_upper m'" v'] by (simp_all add: no_bar_def)
  show ?thesis
  proof (intro exI conjI allI)
    show "(et_key (target_of_device d), t) \<in> set ts" by (rule mem)
    show "et_version t = v" unfolding d'(3) target_fields [OF m'] eq(2) ..
    show "matchFamily a (et_model t) = matchFamily a (ud_model d)" for a
      unfolding d'(3) target_fields [OF m'] m(1) by (rule match_upper [OF eq(1) m(2), symmetric])
  qed
qed

lemma sysinfo_keeps:
  assumes "(k, t) \<in> set ts" and "k \<noteq> s"
  shows "t \<in> set (om_values (om_set s x ts))"
proof -
  have "(k, t) \<in> set (om_set s x ts)" using assms by (induction ts) auto
  then show ?thesis by (force simp: om_values_def)
qed

lemma entry_version:
  assumes "(k, t) \<in> set (fst (foldl target_step ([], []) ds))" and "\<forall>d \<in> set ds. no_bar (ud_version d)"
    and "no_bar (Some w)" and "k = M @ CHR ''|'' # w"
  shows "et_version t = w"
proof -
  have "targets_ok (set ds) (fst (foldl target_step ([], []) ds))"
    using targets_fold [of "{}" "([], [])" ds] by (simp add: targets_ok_def)
  from this assms(1) obtain d where d: "d \<in> set ds" "is_console d" "t = target_of_device d" "k = et_key t"
    by (rule targets_okD)
  obtain m v where m: "ud_model d = Some m" "m \<noteq> []" "ud_version d = Some v" using console_fields [OF d(2)] by blast
  have "no_bar (Some v)" using bspec [OF assms(2) d(1)] by (simp add: m(3))
  moreover have "to_upper m @ CHR ''|'' # v = M @ CHR ''|'' # w"
    using d(4) unfolding d(3) target_fields [OF m] assms(4) by (rule sym)
  ultimately have "v = w" using last_bar [of "to_upper m" v M w] assms(3) by (simp add: no_bar_def)
  then show ?thesis unfolding d(3) target_fields [OF m] .
qed

lemma console_target:
  assumes "d \<in> set (config_devices config)" and "is_console d" and "ud_version d = Some v"
    and "\<forall>d \<in> set (config_devices config). no_bar (ud_version d)"
    and "no_bar (get_str (get_obj config ''sysInfo'') ''udm_version'')"
  shows "\<exists>t \<in> set (collectTargets config). et_version t = v \<and> (\<forall>a. matchFamily a (et_model t) = matchFamily a (ud_model d))"
proof -
  obtain ts hints where f: "foldl target_step ([], []) (config_devices config) = (ts, hints)" by (metis surj_pair)
  obtain k t where t: "(k, t) \<in> set ts" "et_version t = v" "\<forall>a. matchFamily a (et_model t) = matchFamily a (ud_model d)"
    using console_entry [OF assms(1-4) refl] f by auto
  have val: "t \<in> set (om_values ts)" using t(1) by (force simp: om_values_def)
  have "t \<in> set (collectTargets config)"
  proof (cases "get_str (get_obj config ''sysInfo'') ''udm_version''")
    case None
    then show ?thesis using val by (simp add: collectTargets_def f isParseableVersion_def)
  next
    case (Some w)
    have k: "k \<noteq> ''SYSINFO|'' @ w" if "\<not> (\<exists>t \<in> set (om_values ts). et_version t = w)"
      using entry_version [of k t "config_devices config" w "''SYSINFO''"] t(1) val that assms(4,5) Some f by auto
    show ?thesis
    proof (cases "isParseableVersion (Some w) \<and> \<not> (\<exists>t \<in> set (om_values ts). et_version t = w)")
      case True
      then show ?thesis using sysinfo_keeps [OF t(1) k] unfolding collectTargets_def f Some Let_def by simp
    next
      case False
      then show ?thesis using val unfolding collectTargets_def f Some Let_def by auto
    qed
  qed
  then show ?thesis using t(2,3) by blast
qed

section \<open>Where the targets come from\<close>

definition console_models :: "fields \<Rightarrow> string list" where
  "console_models config = map (\<lambda>d. tpl (ud_model d)) (filter is_console (config_devices config))"

lemma hints_fold:
  "snd (foldl target_step st ds) = snd st @ map (\<lambda>d. tpl (ud_model d)) (filter is_console ds)"
proof (induction ds arbitrary: st)
  case (Cons d ds)
  have "truthy (ud_model d)" if "is_console d" using console_fields [OF that] by auto
  then show ?case using Cons by (cases st) (auto simp: target_step_def Let_def)
qed simp

text \<open>The objects that are checked: the consoles of the configuration, and the controller itself, which takes the
  model of the first console.\<close>

definition checked_target :: "fields \<Rightarrow> eval_target \<Rightarrow> bool" where
  "checked_target config t \<longleftrightarrow>
     (\<exists>d \<in> set (config_devices config). is_console d \<and> t = target_of_device d) \<or>
     (\<exists>w. get_str (get_obj config ''sysInfo'') ''udm_version'' = Some w \<and> isParseableVersion (Some w) \<and>
          t = sysinfo_target w (console_models config))"

lemma collected_checked: "t \<in> set (collectTargets config) \<Longrightarrow> checked_target config t"
proof -
  assume t: "t \<in> set (collectTargets config)"
  obtain ts hints where f: "foldl target_step ([], []) (config_devices config) = (ts, hints)" by (metis surj_pair)
  have hints: "hints = console_models config"
    using hints_fold [of "([], [])" "config_devices config"] f by (simp add: console_models_def)
  have ok: "targets_ok (set (config_devices config)) ts"
    using targets_fold [of "{}" "([], [])" "config_devices config"] f by (simp add: targets_ok_def)
  have device: "checked_target config x" if "(k, x) \<in> set ts" for k x
    using targets_okD [OF ok that] unfolding checked_target_def by metis
  have set_new: "set (om_set k x m) \<subseteq> insert (k, x) (set m)" for k x and m :: "(string \<times> eval_target) list"
    by (induction m) (auto split: if_splits)
  show ?thesis
  proof (cases "get_str (get_obj config ''sysInfo'') ''udm_version''")
    case None
    then have "t \<in> set (om_values ts)" using t by (simp add: collectTargets_def f isParseableVersion_def)
    then show ?thesis using device by (auto simp: om_values_def)
  next
    case (Some w)
    have "t \<in> set (om_values ts) \<or> isParseableVersion (Some w) \<and> t = sysinfo_target w hints"
      using t set_new [of "''SYSINFO|'' @ w" "sysinfo_target w hints" ts] unfolding collectTargets_def f Some Let_def
      by (auto simp: om_values_def split: if_splits)
    then consider k where "(k, t) \<in> set ts" | "isParseableVersion (Some w)" "t = sysinfo_target w hints"
      by (auto simp: om_values_def)
    then show ?thesis using device Some hints by cases (blast, simp add: checked_target_def)
  qed
qed

lemma controller_target:
  assumes "get_str (get_obj config ''sysInfo'') ''udm_version'' = Some w" and "isParseableVersion (Some w)"
    and "\<forall>d \<in> set (config_devices config). is_console d \<longrightarrow> ud_version d \<noteq> Some w"
  shows "sysinfo_target w (console_models config) \<in> set (collectTargets config)"
proof -
  obtain ts hints where f: "foldl target_step ([], []) (config_devices config) = (ts, hints)" by (metis surj_pair)
  have hints: "hints = console_models config"
    using hints_fold [of "([], [])" "config_devices config"] f by (simp add: console_models_def)
  have ok: "targets_ok (set (config_devices config)) ts"
    using targets_fold [of "{}" "([], [])" "config_devices config"] f by (simp add: targets_ok_def)
  have "et_version x \<noteq> w" if x: "(k, x) \<in> set ts" for k x
  proof -
    from ok x obtain d where d: "d \<in> set (config_devices config)" "is_console d" "x = target_of_device d" by (rule targets_okD)
    obtain m v where m: "ud_model d = Some m" "m \<noteq> []" "ud_version d = Some v" using console_fields [OF d(2)] by blast
    then show ?thesis using assms(3) d by (auto simp: target_fields [OF m])
  qed
  then have "\<not> (\<exists>t \<in> set (om_values ts). et_version t = w)" by (force simp: om_values_def)
  moreover have "x \<in> set (om_values (om_set k x m))" for k x and m :: "(string \<times> eval_target) list"
    using map_of_SomeD [of "om_set k x m" k x] om_get_set [of k x m k] by (force simp: om_values_def om_get_def)
  ultimately show ?thesis using assms(1,2) hints by (simp add: collectTargets_def f)
qed

text \<open>When an advisory says a target is affected: by the bound of the family of its model, or of the family the
  advisory names as its default.\<close>

definition affected_by :: "firmware_advisory \<Rightarrow> affected_family \<Rightarrow> eval_target \<Rightarrow> bool" where
  "affected_by a family t \<longleftrightarrow>
     nullish (matchFamily a (et_model t)) (defaultFamily a) = Some family \<and>
     version_le (parseVersion (et_version t)) (parseVersion (af_affectedThrough family))"

lemma finding_iff:
  "f \<in> set (analyzeFirmwareAdvisories config) \<longleftrightarrow>
     (\<exists>a \<in> set FIRMWARE_ADVISORIES. \<exists>family. \<exists>t \<in> set (collectTargets config). affected_by a family t \<and> f = buildFinding a family t)"
proof -
  have "f \<in> set (advise a t) \<longleftrightarrow> (\<exists>family. affected_by a family t \<and> f = buildFinding a family t)" for a t
    by (cases "nullish (matchFamily a (et_model t)) (defaultFamily a)")
      (auto simp: advise_def in_when_list affected_by_def at_or_below)
  then show ?thesis unfolding analyzeFirmwareAdvisories_def by auto
qed


definition demo_console :: fields where
  "demo_console = [(''devices'', JArr [JObj [(''name'', JStr ''Storage''), (''model'', JStr ''UNAS''), (''version'', JStr ''5.1.8'')]]),
     (''sysInfo'', JObj [(''udm_version'', JStr ''5.1.8'')])]"

definition demo_unas :: uni_device where
  "demo_unas = \<lparr>ud_name = Some ''Storage'', ud_model = Some ''UNAS'', ud_version = Some ''5.1.8''\<rparr>"

lemma demo_devices: "config_devices demo_console = [demo_unas]"
  by code_simp


section \<open>Two gaps\<close>

text \<open>A build number after the version makes an affected version look fixed.\<close>

lemma build_number_hides_version:
  assumes "ns \<noteq> []" and "0 < b"
  shows "\<not> isAtOrBelow (dotted (ns @ [b])) (dotted ns)"
proof -
  have "part (map int ns @ [int b]) i = part (map int ns) i" if "i \<noteq> length ns" for i
    using that by (auto simp: part_def nth_append)
  moreover have "part (map int ns @ [int b]) (length ns) = int b" "part (map int ns) (length ns) = 0"
    by (simp_all add: part_def nth_append)
  ultimately have "\<not> version_le (map int ns @ [int b]) (map int ns)"
    unfolding version_le_def using assms(2) by (smt (verit) of_nat_0_less_iff)
  then show ?thesis using assms(1) by (simp add: at_or_below parse_dotted)
qed

text \<open>Hyphens are removed from the patterns of a family but not from the model, so a model that is written with its
  hyphen is matched by a broader family with a lower bound.\<close>

lemma hyphenated_model_misses_family:
  "map_option af_affectedThrough (matchFamily SAB_064 (Some ''UDR-5G'')) = Some ''5.0.16'' \<and>
   map_option af_affectedThrough (matchFamily SAB_064 (Some ''UDR5G'')) = Some ''5.0.17''"
  by code_simp

end
