(* ===== verification/Dns_Proxy_Analyzers.thy ===== *)
theory Dns_Proxy_Analyzers
  imports Config_Types
begin

text \<open>
  \<open>analyzers/dnsProxyAnalyzer.ts\<close>, whether the DNS filter that the owner declares can be bypassed, and
  \<open>analyzers/dnsProxyClientAnalyzer.ts\<close>, which devices of the network the DNS proxy knows.  What the proxy answers is
  an argument.
\<close>

section \<open>Rules that block DNS\<close>

text \<open>A token of a port list: \<open>a-b\<close>, or one port as the range from it to itself.\<close>

definition port_range :: "string \<Rightarrow> (nat \<times> nat) option" where
  "port_range token =
     (let lo = takeWhile is_digit token in
      case dropWhile is_space (dropWhile is_digit token) of
        [] \<Rightarrow> None
      | c # r \<Rightarrow>
          (let hi = dropWhile is_space r in
           if c = CHR ''-'' \<and> lo \<noteq> [] \<and> hi \<noteq> [] \<and> list_all is_digit hi then Some (dec_val lo, dec_val hi) else None))"

definition token_blocks_dns :: "string \<Rightarrow> bool" where
  "token_blocks_dns token =
     (case port_range token of
        Some (lo, hi) \<Rightarrow> (lo \<le> 53 \<and> 53 \<le> hi) \<or> (lo \<le> 853 \<and> 853 \<le> hi)
      | None \<Rightarrow> token \<noteq> [] \<and> list_all is_digit token \<and> (dec_val token = 53 \<or> dec_val token = 853))"

definition ruleBlocksDnsPorts :: "uni_rule \<Rightarrow> bool" where
  "ruleBlocksDnsPorts r =
     (if \<not> truthy (ur_dst_port r) then False
      else
        (let portStr = js_trim (the (ur_dst_port r)) in
         if portStr = [] then False
         else (\<exists>token \<in> set (filter (\<lambda>t. t \<noteq> []) (map js_trim (split_on CHR '','' portStr))). token_blocks_dns token)))"

definition blocks_dns :: "uni_rule \<Rightarrow> bool" where
  "blocks_dns r \<longleftrightarrow>
     ur_enabled r \<noteq> Some False \<and> (ur_action r = Some ''drop'' \<or> ur_action r = Some ''reject'') \<and> ruleBlocksDnsPorts r"

section \<open>Filter hygiene\<close>

record protected_network =
  pn_id :: string
  pn_name :: string
  pn_purpose :: string

definition read_protected :: "fields \<Rightarrow> protected_network" where
  "read_protected n =
     \<lparr>pn_id = js_trim (dflt [] (str_or (get_str n ''_id'') (str_or (get_str n ''id'') (get_str n ''network_id'')))),
      pn_name = str_dflt (str_or (get_str n ''name'') (get_str n ''network_name'')) ''Unknown'',
      pn_purpose = str_dflt (str_or (get_str n ''purpose'') (get_str n ''network_purpose'')) ''corporate''\<rparr>"

definition declared_ids :: "full_profile \<Rightarrow> string list" where
  "declared_ids intent = filter (\<lambda>i. i \<noteq> []) (map js_trim (dflt [] (fp_dnsFilteringNetworks intent)))"

definition protected_networks :: "full_profile \<Rightarrow> fields \<Rightarrow> protected_network list" where
  "protected_networks intent config =
     filter (\<lambda>n. pn_id n \<in> set (declared_ids intent) \<and> pn_purpose n \<noteq> ''wan'') (map read_protected (getRawNetworks config))"

definition dns_proxy_intent_mismatch :: "string \<Rightarrow> string \<Rightarrow> vuln_finding" where
  "dns_proxy_intent_mismatch intentIp proxyIp =
     \<lparr>fd_type = ''DNS_PROXY_INTENT_MISMATCH'', fd_severity = MEDIUM,
      fd_title = ''DNS Proxy host differs from declared filter intent'',
      fd_description = ''Your security wizard declares '' @ intentIp @
        '' as the DNS filtering server, but the connected DNS Proxy points at '' @ proxyIp @
        ''. Attribution and signal correlation will use the connected proxy while intent compliance is '' @
        ''scored against the declared IP, producing false negatives in both directions.'',
      fd_impact = Some (''Operators will see green DNS Proxy status but the intent analyzer will flag networks as '' @
        ''misconfigured (or vice versa). Campaign DNS evidence may not align with the network you think '' @
        ''you are protecting.''),
      fd_remediation = Some (''Reconcile the two values:'' @ nl @ ''1. Open Settings '' @ right_arrow @ '' Wizard and update '' @ dq @
        ''DNS Filtering Server IP'' @ dq @ '' to '' @ proxyIp @ '', OR'' @ nl @ ''2. Open Settings '' @ right_arrow @
        '' DNS Proxy and change the host to '' @ intentIp @ ''.'' @ nl @ nl @
        ''Whichever IP is the real AdGuard Home should win.''),
      fd_affectedResource = Some ''DNS Proxy configuration'', fd_cveId = None\<rparr>"

definition dns_bypass_not_blocked :: "string \<Rightarrow> string \<Rightarrow> vuln_finding" where
  "dns_bypass_not_blocked protectedNames expectedFilterIp =
     \<lparr>fd_type = ''DNS_BYPASS_NOT_BLOCKED'', fd_severity = HIGH,
      fd_title = ''External DNS is not blocked '' @ em_dash @ '' filter can be bypassed'',
      fd_description = ''Networks you declared as filtered ('' @ protectedNames @ '') point at '' @ expectedFilterIp @
        '' for DNS, but no firewall rule blocks outbound DNS to other servers. Devices can ignore the '' @
        ''configured DNS server simply by hardcoding a public resolver like 1.1.1.1, 8.8.8.8, or any '' @
        ''DNS-over-TLS endpoint.'',
      fd_impact = Some (''The DNS filter becomes optional in practice. Malware, misconfigured IoT devices, and '' @
        ''privacy-aware browsers can use external DNS, DoT, or DoH to evade detection. Campaign DNS '' @
        ''evidence will miss any client that bypasses, and the '' @ dq @ ''blocked queries'' @ dq @
        '' count understates the real attack surface.''),
      fd_remediation = Some (''Add a firewall rule to enforce the filter:'' @ nl @ ''1. Source: the filtered networks ('' @
        protectedNames @ '')'' @ nl @ ''2. Destination: any IP except '' @ expectedFilterIp @ nl @
        ''3. Protocol: TCP/UDP, destination port 53 (DNS) and TCP destination port 853 (DoT)'' @ nl @
        ''4. Action: Drop (place above any allow-all rules)'' @ nl @ nl @
        ''For DoH (DNS-over-HTTPS) bypass, add traffic rules in Settings '' @ right_arrow @ '' Routing & Firewall '' @
        right_arrow @ '' Traffic Rules blocking known DoH endpoints: dns.google, mozilla.cloudflare-dns.com, '' @
        ''chrome.cloudflare-dns.com, dns.quad9.net.''),
      fd_affectedResource = Some protectedNames, fd_cveId = None\<rparr>"

definition intent_ip :: "full_profile option \<Rightarrow> string" where
  "intent_ip intent = js_trim (dflt [] (Option.bind intent fp_dnsFilteringServerIp))"

definition bypass_findings :: "fields \<Rightarrow> full_profile option \<Rightarrow> string \<Rightarrow> vuln_finding list" where
  "bypass_findings config intent expectedFilterIp =
     (case intent of
        None \<Rightarrow> []
      | Some profile \<Rightarrow>
          if \<not> fp_dnsFiltering profile then []
          else if length (declared_ids profile) = 0 then []
          else
            (let protected = protected_networks profile config in
             if length protected = 0 then []
             else if \<exists>r \<in> set (config_rules config). blocks_dns r then []
             else [dns_bypass_not_blocked (join '', '' (map pn_name protected)) expectedFilterIp]))"

definition analyzeDnsProxyHygiene :: "fields \<Rightarrow> full_profile option \<Rightarrow> string option \<Rightarrow> vuln_finding list" where
  "analyzeDnsProxyHygiene config intent adguardHost =
     (let intentIp = intent_ip intent;
          proxyIp = js_trim (dflt [] adguardHost);
          expectedFilterIp = (if intentIp \<noteq> [] then intentIp else proxyIp)
      in if expectedFilterIp = [] then []
         else
           when_list (intentIp \<noteq> [] \<and> proxyIp \<noteq> [] \<and> intentIp \<noteq> proxyIp) (dns_proxy_intent_mismatch intentIp proxyIp) @
           bypass_findings config intent expectedFilterIp)"

section \<open>Client coverage\<close>

record network_client =
  nc_mac :: "string option"
  nc_displayName :: "string option"
  nc_hostname :: "string option"
  nc_lastIp :: "string option"

datatype identifier_kind = ByIp | ByMac | ByClientId | ByHostname

record proxy_client =
  px_name :: string
  px_identifiers :: "(identifier_kind \<times> string) list"

text \<open>The clients under their identifiers of one kind; a later client takes over a shared identifier.\<close>

definition client_index :: "identifier_kind \<Rightarrow> proxy_client list \<Rightarrow> (string \<times> proxy_client) list" where
  "client_index kind clients =
     om_of (concat (map (\<lambda>c. map (\<lambda>i. (to_lower (snd i), c)) (filter (\<lambda>i. fst i = kind) (px_identifiers c))) clients))"

definition lookup_client :: "identifier_kind \<Rightarrow> proxy_client list \<Rightarrow> string option \<Rightarrow> (proxy_client \<times> identifier_kind) option" where
  "lookup_client kind clients v =
     (let key = to_lower (dflt [] v) in
      if key = [] then None else map_option (\<lambda>c. (c, kind)) (om_get (client_index kind clients) key))"

definition match_client :: "proxy_client list \<Rightarrow> network_client \<Rightarrow> (proxy_client \<times> identifier_kind) option" where
  "match_client clients u =
     nullish (lookup_client ByMac clients (nc_mac u))
       (nullish (lookup_client ByIp clients (nc_lastIp u)) (lookup_client ByHostname clients (nc_hostname u)))"

definition matchClients ::
    "network_client list \<Rightarrow> proxy_client list \<Rightarrow> (network_client \<times> (proxy_client \<times> identifier_kind) option) list" where
  "matchClients unifi clients = map (\<lambda>u. (u, match_client clients u)) unifi"

definition preview :: "string list \<Rightarrow> string" where
  "preview names =
     join '', '' (take 8 names) @ (if 8 < length names then '', +'' @ show_nat (length names - 8) @ '' more'' else [])"

definition client_label :: "network_client \<Rightarrow> string option" where
  "client_label u = str_or (nc_displayName u) (str_or (nc_hostname u) (nc_mac u))"

definition missing_names :: "network_client list \<Rightarrow> string list" where
  "missing_names missing = concat (map (\<lambda>u. if truthy (client_label u) then [the (client_label u)] else []) missing)"

definition percent :: "nat \<Rightarrow> nat \<Rightarrow> string" where
  "percent k n = show_int \<lfloor>rat_of_nat k / rat_of_nat n * 100 + 1 / 2\<rfloor>"

definition no_persistent_clients :: "nat \<Rightarrow> vuln_finding" where
  "no_persistent_clients k =
     \<lparr>fd_type = ''DNS_PROXY_NO_PERSISTENT_CLIENTS'', fd_severity = HIGH,
      fd_title = ''DNS Proxy has no persistent clients defined'',
      fd_description = ''Your DNS proxy has zero persistent client identities, but UniFi has '' @ show_nat k @
        '' client(s) on the network. Without persistent client definitions, every device receives the '' @
        ''same global filtering policy '' @ em_dash @
        '' there is no way to apply per-device or per-VLAN DNS rules (kids' parental controls, IoT '' @
        ''telemetry blocking, work-laptop tracker blocking).'',
      fd_impact = Some (''Per-device policy is impossible. Every device gets the same global filter, so the DNS proxy '' @
        ''cannot honor per-VLAN intent (e.g., aggressive IoT blocking but lenient guest filtering). Most '' @
        ''of the value of running a DNS proxy is unrealized.''),
      fd_remediation = Some (''Open AdGuard Home '' @ right_arrow @ '' Settings '' @ right_arrow @
        '' Client settings and add persistent clients for each device that needs distinct policy. '' @
        ''Identify clients by MAC address or by ClientID (DHCP option 12) for stable identification '' @
        ''across DHCP renewals '' @ em_dash @ '' IP-based identification will break the moment leases rotate.''),
      fd_affectedResource = Some ''DNS Proxy clients'', fd_cveId = None\<rparr>"

definition no_client_overlap :: "nat \<Rightarrow> nat \<Rightarrow> vuln_finding" where
  "no_client_overlap p k =
     \<lparr>fd_type = ''DNS_PROXY_NO_CLIENT_OVERLAP'', fd_severity = HIGH,
      fd_title = ''DNS Proxy persistent clients do not match any UniFi device'',
      fd_description = ''Your DNS proxy has '' @ show_nat p @
        '' persistent client identitie(s) defined, but none match any of the '' @ show_nat k @
        '' UniFi devices we know about (no shared MAC, IP, or hostname). Either the AdGuard client '' @
        ''identifiers are stale, or AdGuard is sitting in a network position where it cannot see the real '' @
        ''client IPs.'',
      fd_impact = Some (''Per-device policy in AdGuard is misaligned with the actual network. Whatever rules are '' @
        ''configured per-client will not apply to the devices the operator believes they apply to.''),
      fd_remediation = Some (''Reconcile AdGuard client identifiers against the UniFi device inventory. The most reliable '' @
        ''identifier is the device MAC; the next is a ClientID set via DHCP option 12 in UniFi.''),
      fd_affectedResource = Some ''DNS Proxy clients'', fd_cveId = None\<rparr>"

definition client_inventory_gap :: "nat \<Rightarrow> nat \<Rightarrow> string list \<Rightarrow> vuln_finding" where
  "client_inventory_gap matched k names =
     \<lparr>fd_type = ''DNS_PROXY_CLIENT_INVENTORY_GAP'', fd_severity = MEDIUM,
      fd_title = ''DNS Proxy is missing '' @ show_nat (k - matched) @ '' of '' @ show_nat k @ '' UniFi devices'',
      fd_description = ''Only '' @ show_nat matched @ '' of your '' @ show_nat k @ '' UniFi clients ('' @ percent matched k @
        ''%) are defined as persistent clients in your DNS proxy. Devices not in the persistent client '' @
        ''list fall back to the global default filter, which means per-device intent (parental controls, '' @
        ''IoT-specific blocking, work-laptop policy) is not being applied. Missing: '' @ preview names @ ''.'',
      fd_impact = Some (''Devices not represented in AdGuard are filtered against the global default policy, not their '' @
        ''intended per-device or per-VLAN policy. Coverage gaps are how IoT telemetry leaks, parental '' @
        ''controls miss kid devices, and work-machine tracker-blocking gets skipped.''),
      fd_remediation = Some (''Add the missing devices in AdGuard Home '' @ right_arrow @ '' Settings '' @ right_arrow @
        '' Client settings. Identify each by MAC address (preferred) or ClientID. Group them into AdGuard '' @
        ''tags that match the VLAN they live on so per-tag filter assignment is straightforward.''),
      fd_affectedResource = Some (if 0 < length names then join '', '' names else ''DNS Proxy clients''), fd_cveId = None\<rparr>"

definition clients_ip_identified :: "string list \<Rightarrow> vuln_finding" where
  "clients_ip_identified names =
     \<lparr>fd_type = ''DNS_PROXY_CLIENTS_IP_IDENTIFIED'', fd_severity = MEDIUM,
      fd_title = show_nat (length names) @ '' DNS Proxy client(s) identified by IP only'',
      fd_description = ''These persistent clients in your DNS proxy are identified solely by IP address: '' @ preview names @
        ''. IP-based identification breaks the moment DHCP leases rotate, the device reconnects with a '' @
        ''new lease, or the network is renumbered. The per-client policy attached to these entries will '' @
        ''silently stop applying.'',
      fd_impact = Some (''Per-device DNS policy is fragile. A power cycle on the device, a DHCP lease expiry, or a router '' @
        ''reboot can reassign the IP and the DNS proxy will start treating that device as anonymous '' @
        ''traffic against the global default policy.''),
      fd_remediation = Some (''Edit each affected client in AdGuard Home '' @ right_arrow @ '' Settings '' @ right_arrow @
        '' Client settings and add either the device MAC address or a ClientID (DHCP option 12 set in '' @
        ''UniFi '' @ right_arrow @ '' Client '' @ right_arrow @
        '' Configure DHCP). MAC is the simplest durable identifier on a typical home network.''),
      fd_affectedResource = Some (join '', '' names), fd_cveId = None\<rparr>"

definition COVERAGE_GAP_RATIO :: rat where
  "COVERAGE_GAP_RATIO = 1 / 2"

definition ip_only :: "proxy_client \<Rightarrow> bool" where
  "ip_only c \<longleftrightarrow> 0 < length (px_identifiers c) \<and> (\<forall>i \<in> set (px_identifiers c). fst i = ByIp)"

definition evaluateClientCoverage :: "network_client list \<Rightarrow> proxy_client list \<Rightarrow> vuln_finding list" where
  "evaluateClientCoverage unifi persistent =
     (if length persistent = 0 then [no_persistent_clients (length unifi)]
      else
        (let matches = matchClients unifi persistent;
             matched = length (filter (\<lambda>m. snd m \<noteq> None) matches);
             missing = map fst (filter (\<lambda>m. snd m = None) matches);
             ipOnlyClients = filter ip_only persistent
         in (if matched = 0 then [no_client_overlap (length persistent) (length unifi)]
             else when_list (rat_of_nat matched / rat_of_nat (length unifi) < COVERAGE_GAP_RATIO)
                    (client_inventory_gap matched (length unifi) (missing_names missing))) @
            when_list (0 < length ipOnlyClients) (clients_ip_identified (map px_name ipOnlyClients))))"

text \<open>No audit is made when the proxy cannot be read.\<close>

definition analyzeDnsProxyClientCoverage :: "network_client list \<Rightarrow> proxy_client list option \<Rightarrow> vuln_finding list" where
  "analyzeDnsProxyClientCoverage unifi audit =
     (if length unifi = 0 then []
      else (case audit of None \<Rightarrow> [] | Some persistent \<Rightarrow> evaluateClientCoverage unifi persistent))"

section \<open>What the audit counts\<close>

text \<open>A device is known to the proxy when one of its clients has the MAC address, the last IP address or the host
  name of the device, whatever the case of the letters.\<close>

definition has_identifier :: "proxy_client list \<Rightarrow> identifier_kind \<Rightarrow> string option \<Rightarrow> bool" where
  "has_identifier clients kind value \<longleftrightarrow>
     truthy value \<and> (\<exists>c \<in> set clients. \<exists>i \<in> set (px_identifiers c). fst i = kind \<and> to_lower (snd i) = to_lower (the value))"

definition known_client :: "proxy_client list \<Rightarrow> network_client \<Rightarrow> bool" where
  "known_client clients u \<longleftrightarrow>
     has_identifier clients ByMac (nc_mac u) \<or> has_identifier clients ByIp (nc_lastIp u) \<or>
     has_identifier clients ByHostname (nc_hostname u)"

lemma om_of_keys: "om_get (om_of kvs) k \<noteq> None \<longleftrightarrow> k \<in> fst ` set kvs"
proof -
  have "om_get (foldl (\<lambda>m kv. om_set (fst kv) (snd kv) m) m0 kvs) k \<noteq> None \<longleftrightarrow> om_get m0 k \<noteq> None \<or> k \<in> fst ` set kvs" for m0
    by (induction kvs arbitrary: m0) (auto simp: om_get_set)
  from this [of "[]"] show ?thesis by (simp add: om_of_def)
qed

lemma lookup_client_iff: "lookup_client kind clients v \<noteq> None \<longleftrightarrow> has_identifier clients kind v"
proof -
  have "om_get (client_index kind clients) key \<noteq> None \<longleftrightarrow>
      (\<exists>c \<in> set clients. \<exists>i \<in> set (px_identifiers c). fst i = kind \<and> to_lower (snd i) = key)" for key
    unfolding client_index_def om_of_keys by force
  then show ?thesis
    by (cases v) (auto simp: lookup_client_def has_identifier_def Let_def to_lower_def dflt_def split: if_splits)
qed

lemma nullish_ne: "nullish a b \<noteq> None \<longleftrightarrow> a \<noteq> None \<or> b \<noteq> None"
  by (cases a) (simp_all add: nullish_def)

lemma match_client_iff: "match_client clients u \<noteq> None \<longleftrightarrow> known_client clients u"
  unfolding match_client_def known_client_def nullish_ne lookup_client_iff ..

text \<open>The audit of the DNS proxy counts the devices it knows.  With \<open>known\<close> the devices that share an identifier
  with a client of the proxy, the report says that there is no overlap exactly when none is known, that there is a gap
  exactly when fewer than half are known, names in it the devices that are not known, and lists the clients that are
  identified by addresses only.\<close>
lemma client_coverage_exact:
  assumes "unifi \<noteq> []" and "persistent \<noteq> []" and "known = filter (known_client persistent) unifi"
  shows "evaluateClientCoverage unifi persistent =
    (if known = [] then [no_client_overlap (length persistent) (length unifi)]
     else when_list (2 * length known < length unifi)
       (client_inventory_gap (length known) (length unifi) (missing_names (filter (\<lambda>u. \<not> known_client persistent u) unifi)))) @
    when_list (\<exists>c \<in> set persistent. ip_only c) (clients_ip_identified (map px_name (filter ip_only persistent)))"
proof -
  have m: "length (filter (\<lambda>m. snd m \<noteq> None) (matchClients unifi persistent)) = length known"
    by (simp only: matchClients_def assms(3) filter_map length_map comp_def snd_conv match_client_iff)
  have n: "map fst (filter (\<lambda>m. snd m = None) (matchClients unifi persistent)) = filter (\<lambda>u. \<not> known_client persistent u) unifi"
    by (simp only: matchClients_def filter_map map_map comp_def snd_conv fst_conv match_client_iff [symmetric] not_not map_ident)
  have half: "rat_of_nat (length known) / rat_of_nat (length unifi) < COVERAGE_GAP_RATIO \<longleftrightarrow> 2 * length known < length unifi"
  proof -
    have "0 < rat_of_nat (length unifi)" using assms(1) by simp
    then have "rat_of_nat (length known) / rat_of_nat (length unifi) < 1 / 2 \<longleftrightarrow> rat_of_nat (2 * length known) < rat_of_nat (length unifi)"
      by (simp add: field_simps)
    then show ?thesis unfolding COVERAGE_GAP_RATIO_def of_nat_less_iff .
  qed
  have "(0 < length (filter ip_only persistent)) = (\<exists>c \<in> set persistent. ip_only c)"
    by (simp add: filter_empty_conv)
  then show ?thesis unfolding evaluateClientCoverage_def Let_def m n half using assms(2) by simp
qed

definition demo_clients :: "network_client list" where
  "demo_clients =
     [\<lparr>nc_mac = Some ''AA:01'', nc_displayName = Some ''Laptop'', nc_hostname = None, nc_lastIp = None\<rparr>,
      \<lparr>nc_mac = Some ''aa:02'', nc_displayName = None, nc_hostname = Some ''tv'', nc_lastIp = None\<rparr>,
      \<lparr>nc_mac = Some ''aa:03'', nc_displayName = None, nc_hostname = None, nc_lastIp = None\<rparr>]"

definition demo_proxy :: "proxy_client list" where
  "demo_proxy = [\<lparr>px_name = ''laptop'', px_identifiers = [(ByMac, ''aa:01'')]\<rparr>]"

lemma client_coverage_exact_witness:
  "evaluateClientCoverage demo_clients demo_proxy = [client_inventory_gap 1 3 [''tv'', ''aa:03'']]"
proof -
  have k: "filter (known_client demo_proxy) demo_clients = [hd demo_clients]"
    "missing_names (filter (\<lambda>u. \<not> known_client demo_proxy u) demo_clients) = [''tv'', ''aa:03'']"
    "\<not> (\<exists>c \<in> set demo_proxy. ip_only c)" "length demo_clients = 3" "demo_clients \<noteq> []" "demo_proxy \<noteq> []"
    by code_simp+
  show ?thesis
    using client_coverage_exact [OF k(5,6) refl] by (simp add: k(1-4) when_list_def)
qed

section \<open>A rule that blocks only encrypted DNS\<close>

text \<open>Any blocking rule over one of the two ports is taken for one that blocks DNS, whatever its protocol, its source
  and its destination; so a rule for DNS over TLS alone silences the warning.\<close>

lemma encrypted_dns_rule_silences_warning:
  assumes "r \<in> set (config_rules config)" and "ur_enabled r = Some True" and "ur_action r = Some ''drop''"
    and "ur_dst_port r = Some ''853''"
  shows "bypass_findings config intent ip = []"
proof -
  have "ruleBlocksDnsPorts r" unfolding ruleBlocksDnsPorts_def assms(4) by code_simp
  then have "\<exists>r \<in> set (config_rules config). blocks_dns r"
    using assms(1-3) by (intro bexI [of _ r]) (simp_all add: blocks_dns_def)
  then show ?thesis by (simp add: bypass_findings_def Let_def split: option.split)
qed

end
