(* ===== verification/Config_Analysis.thy ===== *)
theory Config_Analysis
  imports Static_Analyzers Firmware_Advisories Dns_Proxy_Analyzers
begin

text \<open>
  \<open>analyzeConfiguration\<close> of \<open>analyzers/index.ts\<close>: all analyzers of an imported configuration, and the rows that
  their findings replace.  What the DNS proxy and the client inventory answer are arguments.  The \<open>catch\<close> of the
  function is outside the model: the analyzers are total on the typed configuration, so the path on which one of them throws
  (no row changes and the findings are the empty list) and the path on which a statement of the database fails (the rows
  deleted so far stay deleted) have no counterpart here.
\<close>

section \<open>The analysis\<close>

record analysis_inputs =
  ai_intent :: "full_profile option"
  ai_adguardHost :: "string option"
  ai_clients :: "network_client list"
  ai_audit :: "proxy_client list option"

definition config_findings :: "analysis_inputs \<Rightarrow> fields \<Rightarrow> vuln_finding list" where
  "config_findings inputs config =
     analyzeFirewallRules config @ analyzeVlanConfig config @ analyzePortForwards config @ analyzeWlanConfig config @
     analyzeFirmwareAdvisories config @
     analyzeDnsProxyHygiene config (ai_intent inputs) (ai_adguardHost inputs) @
     (if ai_adguardHost inputs = None then []
      else analyzeDnsProxyClientCoverage (ai_clients inputs) (ai_audit inputs))"

definition config_vuln :: "nat \<Rightarrow> int \<Rightarrow> string \<Rightarrow> vuln_finding \<Rightarrow> vuln" where
  "config_vuln i now configId f =
     \<lparr>vl_id = i, vl_testRunId = None, vl_configId = Some configId, vl_type = fd_type f, vl_severity = fd_severity f,
      vl_title = fd_title f, vl_description = fd_description f, vl_impact = fd_impact f,
      vl_remediation = fd_remediation f, vl_affectedResource = fd_affectedResource f, vl_cveId = fd_cveId f,
      vl_status = VOpen, vl_firstSeen = now, vl_lastSeen = now, vl_notes = None\<rparr>"

definition insert_config_vuln :: "int \<Rightarrow> string \<Rightarrow> processor_db \<Rightarrow> vuln_finding \<Rightarrow> processor_db" where
  "insert_config_vuln now configId db f =
     db\<lparr>pd_nextId := Suc (pd_nextId db), pd_vulns := pd_vulns db @ [config_vuln (pd_nextId db) now configId f]\<rparr>"

definition analyzeConfiguration ::
    "analysis_inputs \<Rightarrow> int \<Rightarrow> fields \<Rightarrow> string \<Rightarrow> processor_db \<Rightarrow> vuln_finding list \<times> processor_db" where
  "analyzeConfiguration inputs now config configId db =
     (let allFindings = config_findings inputs config;
          db1 = db\<lparr>pd_vulns := filter (\<lambda>v. vl_configId v \<noteq> Some configId) (pd_vulns db)\<rparr>
      in (allFindings, foldl (insert_config_vuln now configId) db1 allFindings))"

section \<open>What is stored\<close>

definition finding_of_row :: "vuln \<Rightarrow> vuln_finding" where
  "finding_of_row v =
     \<lparr>fd_type = vl_type v, fd_severity = vl_severity v, fd_title = vl_title v, fd_description = vl_description v,
      fd_impact = vl_impact v, fd_remediation = vl_remediation v, fd_affectedResource = vl_affectedResource v,
      fd_cveId = vl_cveId v\<rparr>"

lemma finding_of_config_vuln [simp]: "finding_of_row (config_vuln i now c f) = f"
  by (cases f) (simp add: finding_of_row_def config_vuln_def)

lemma insert_all:
  "pd_vulns (foldl (insert_config_vuln now c) db fs) =
     pd_vulns db @ map (\<lambda>(i, f). config_vuln i now c f) (enumerate (pd_nextId db) fs) \<and>
   pd_nextId (foldl (insert_config_vuln now c) db fs) = pd_nextId db + length fs \<and>
   pd_services (foldl (insert_config_vuln now c) db fs) = pd_services db \<and>
   pd_runs (foldl (insert_config_vuln now c) db fs) = pd_runs db"
proof (induction fs arbitrary: db)
  case (Cons f fs)
  show ?case using Cons.IH [of "insert_config_vuln now c db f"] by (simp add: insert_config_vuln_def)
qed simp

text \<open>C39: an analysis replaces the findings of its configuration.  Afterwards the open rows of the configuration are
  its findings, one row each in their order, new and seen now; the rows of every other configuration are as they were,
  and identifiers stay unique.\<close>
theorem analysis_replaces_rows:
  assumes "vulns_wf db" and "analyzeConfiguration inputs now config c db = (fs, db')"
  shows "map finding_of_row (filter (\<lambda>v. vl_configId v = Some c) (pd_vulns db')) = config_findings inputs config \<and>
    fs = config_findings inputs config \<and>
    (\<forall>v \<in> set (pd_vulns db'). vl_configId v = Some c \<longrightarrow>
       vl_status v = VOpen \<and> vl_firstSeen v = now \<and> vl_lastSeen v = now \<and> vl_notes v = None) \<and>
    filter (\<lambda>v. vl_configId v \<noteq> Some c) (pd_vulns db') = filter (\<lambda>v. vl_configId v \<noteq> Some c) (pd_vulns db) \<and>
    vulns_wf db'"
proof -
  let ?fs = "config_findings inputs config"
  let ?new = "map (\<lambda>(i, f). config_vuln i now c f) (enumerate (pd_nextId db) ?fs)"
  have db': "pd_vulns db' = filter (\<lambda>v. vl_configId v \<noteq> Some c) (pd_vulns db) @ ?new" "pd_nextId db' = pd_nextId db + length ?fs"
    and fs: "fs = ?fs"
    using assms(2) insert_all [of now c "db\<lparr>pd_vulns := filter (\<lambda>v. vl_configId v \<noteq> Some c) (pd_vulns db)\<rparr>" ?fs]
    by (auto simp: analyzeConfiguration_def Let_def)
  have own: "filter (\<lambda>v. vl_configId v = Some c) ?new = ?new" "filter (\<lambda>v. vl_configId v \<noteq> Some c) ?new = []"
    by (auto simp: filter_id_conv filter_empty_conv config_vuln_def)
  have gone: "filter (\<lambda>v. vl_configId v = Some c) (filter (\<lambda>v. vl_configId v \<noteq> Some c) xs) = []" for xs
    by (simp add: filter_empty_conv)
  have same: "map finding_of_row ?new = ?fs"
  proof -
    have "map finding_of_row ?new = map snd (enumerate (pd_nextId db) ?fs)"
      unfolding map_map by (rule map_cong [OF refl]) auto
    then show ?thesis by (simp only: map_snd_enumerate)
  qed
  have ids: "map vl_id ?new = [pd_nextId db..<pd_nextId db + length ?fs]"
  proof -
    have "map vl_id ?new = map fst (enumerate (pd_nextId db) ?fs)"
      unfolding map_map by (rule map_cong [OF refl]) (auto simp: config_vuln_def)
    then show ?thesis by (simp only: map_fst_enumerate)
  qed
  have sub: "set (map vl_id (filter (\<lambda>v. vl_configId v \<noteq> Some c) (pd_vulns db))) \<subseteq> {..<pd_nextId db}"
    using assms(1) by (auto simp: vulns_wf_def)
  have "distinct (map vl_id (pd_vulns db'))" using assms(1) sub
    unfolding db' map_append distinct_append ids by (auto simp: vulns_wf_def distinct_map_filter)
  moreover have "vl_id v < pd_nextId db'" if "v \<in> set (pd_vulns db')" for v
  proof -
    have "vl_id v \<in> set (map vl_id (filter (\<lambda>v. vl_configId v \<noteq> Some c) (pd_vulns db))) \<union> set (map vl_id ?new)"
      using imageI [OF that, of vl_id] unfolding db'(1) set_append set_map image_Un .
    then show ?thesis using sub unfolding ids db'(2) by auto
  qed
  ultimately have wf: "vulns_wf db'" by (simp add: vulns_wf_def)
  show ?thesis
    using fs same wf own gone by (auto simp: db' filter_empty_conv config_vuln_def)
qed

text \<open>What a user had decided about a finding of the configuration does not survive the next analysis of it.\<close>

lemma reanalysis_forgets_decisions:
  assumes "v \<in> set (pd_vulns db)" and "vl_configId v = Some c" and "vl_status v = VFalsePositive"
    and "analyzeConfiguration inputs now config c db = (fs, db')"
  shows "v \<notin> set (pd_vulns db')"
proof
  assume "v \<in> set (pd_vulns db')"
  moreover have "pd_vulns db' = filter (\<lambda>v. vl_configId v \<noteq> Some c) (pd_vulns db) @
      map (\<lambda>(i, f). config_vuln i now c f) (enumerate (pd_nextId db) (config_findings inputs config))"
    using assms(4) insert_all [of now c "db\<lparr>pd_vulns := filter (\<lambda>v. vl_configId v \<noteq> Some c) (pd_vulns db)\<rparr>"
        "config_findings inputs config"]
    by (auto simp: analyzeConfiguration_def Let_def)
  ultimately show False using assms(2,3) by (auto simp: config_vuln_def)
qed

section \<open>An instance\<close>

definition demo_inputs :: analysis_inputs where
  "demo_inputs = \<lparr>ai_intent = None, ai_adguardHost = None, ai_clients = [], ai_audit = None\<rparr>"

theorem analysis_replaces_rows_witness:
  "map finding_of_row (filter (\<lambda>v. vl_configId v = Some ''k'') (pd_vulns (snd (analyzeConfiguration demo_inputs 7 [] ''k'' demo_processor)))) =
     config_findings demo_inputs []"
  by (rule analysis_replaces_rows [OF demo_processor_wf, THEN conjunct1]) (rule surjective_pairing)

end
