(* ===== verification/Intent_Settings.thy ===== *)
theory Intent_Settings
  imports Config_Types
begin

text \<open>
  The settings of \<open>analyzers/intentAnalyzer.ts\<close>: what the configuration says about each thing the owner asked for.
  Every part of \<open>analyzeAgainstIntent\<close> is a function to the settings it evaluates and the gaps it finds.
\<close>

section \<open>Settings and gaps\<close>

datatype setting_status = Configured | NotConfigured | Partial | NotApplicable

datatype setting_category = OfWork | OfDevices | OfGuest | OfSecurity

record mapped_network =
  mn_id :: string
  mn_name :: string
  mn_vlan :: "rat option"
  mn_hasVlan :: bool

text \<open>A dismissal is the identifier and the reason of the user's entry.\<close>

record intent_setting =
  se_id :: string
  se_category :: setting_category
  se_name :: string
  se_description :: string
  se_required :: bool
  se_status :: setting_status
  se_severity :: severity
  se_currentValue :: "string option"
  se_expectedValue :: "string option"
  se_mappedNetwork :: "mapped_network option"
  se_mappedDevice :: "device_mapping option"
  se_requiresDeviceMapping :: bool
  se_remediation :: "string option"
  se_dismissal :: "(string \<times> string) option"

record intent_gap =
  ga_intent :: string
  ga_reality :: string
  ga_severity :: severity
  ga_remediation :: string
  ga_settingId :: "string option"
  ga_dismissal :: "(string \<times> string) option"

definition setting ::
    "string \<Rightarrow> setting_category \<Rightarrow> string \<Rightarrow> string \<Rightarrow> bool \<Rightarrow> setting_status \<Rightarrow> severity \<Rightarrow> intent_setting" where
  "setting i cat nm description required status sev =
     \<lparr>se_id = i, se_category = cat, se_name = nm, se_description = description, se_required = required,
      se_status = status, se_severity = sev, se_currentValue = None, se_expectedValue = None, se_mappedNetwork = None,
      se_mappedDevice = None, se_requiresDeviceMapping = False, se_remediation = None, se_dismissal = None\<rparr>"

definition gap :: "string \<Rightarrow> string \<Rightarrow> severity \<Rightarrow> string \<Rightarrow> intent_gap" where
  "gap intent reality sev remediation =
     \<lparr>ga_intent = intent, ga_reality = reality, ga_severity = sev, ga_remediation = remediation, ga_settingId = None,
      ga_dismissal = None\<rparr>"

type_synonym evaluation = "intent_setting list \<times> intent_gap list"

definition configured_if :: "bool \<Rightarrow> setting_status" where
  "configured_if b = (if b then Configured else NotConfigured)"

definition by_isolation :: "'a option \<Rightarrow> bool \<Rightarrow> setting_status" where
  "by_isolation network isolated = (if network = None then NotConfigured else if isolated then Configured else Partial)"

section \<open>The configuration\<close>

record intent_network =
  it_id :: "string option"
  it_name :: string
  it_purpose :: string
  it_vlan :: "rat option"
  it_vlan_enabled :: bool
  it_isolation :: bool

definition raw_id :: "fields \<Rightarrow> string option" where
  "raw_id n = str_or (get_str n ''_id'') (str_or (get_str n ''id'') (get_str n ''network_id''))"

definition raw_name :: "fields \<Rightarrow> string" where
  "raw_name n = str_dflt (str_or (get_str n ''name'') (get_str n ''network_name'')) ''Unknown''"

definition raw_purpose :: "fields \<Rightarrow> string" where
  "raw_purpose n = str_dflt (str_or (get_str n ''purpose'') (get_str n ''network_purpose'')) ''corporate''"

definition raw_vlan :: "fields \<Rightarrow> rat option" where
  "raw_vlan n = (if num_truthy (get_num n ''vlan'') then get_num n ''vlan'' else get_num n ''vlan_id'')"

definition raw_isolation :: "fields \<Rightarrow> bool" where
  "raw_isolation n \<longleftrightarrow>
     is_on (get_bool n ''network_isolation_enabled'') \<or> is_on (get_bool n ''network_isolation'') \<or> is_on (get_bool n ''isolation'')"

definition read_intent_network :: "fields \<Rightarrow> intent_network" where
  "read_intent_network n =
     \<lparr>it_id = raw_id n, it_name = raw_name n, it_purpose = raw_purpose n, it_vlan = raw_vlan n,
      it_vlan_enabled = dflt (num_truthy (get_num n ''vlan'')) (get_bool n ''vlan_enabled''),
      it_isolation = raw_isolation n\<rparr>"

text \<open>The lists of the configuration, and the networks that the switches block for each source network.\<close>

record intent_view =
  iv_raw :: "fields list"
  iv_rules :: "fields list"
  iv_groups :: "fields list"
  iv_wlans :: "fields list"
  iv_isolations :: "(string option \<times> string list) list"

definition iv_networks :: "intent_view \<Rightarrow> intent_network list" where
  "iv_networks v = map read_intent_network (iv_raw v)"

definition l3AclIsolation :: "fields list \<Rightarrow> (string option \<times> string list) list" where
  "l3AclIsolation settings =
     (case first_some (map (\<lambda>s. get_arr s ''acl_l3_isolation'') settings) of
        None \<Rightarrow> []
      | Some entries \<Rightarrow>
          map (\<lambda>e. (get_str (obj_fields e) ''source_network'', dflt [] (get_strs (obj_fields e) ''destination_networks''))) entries)"

definition intent_view_of :: "fields \<Rightarrow> intent_view" where
  "intent_view_of config =
     \<lparr>iv_raw = getRawNetworks config, iv_rules = getRawFirewallRules config, iv_groups = getRawFirewallGroups config,
      iv_wlans = getRawWlans config, iv_isolations = l3AclIsolation (getRawSettings config)\<rparr>"

definition l3AclBlocks :: "intent_view \<Rightarrow> (string option \<times> string list) list" where
  "l3AclBlocks v =
     foldl (\<lambda>m e. om_set (fst e) (foldl (\<lambda>s x. os_add x s) (dflt [] (om_get m (fst e))) (snd e)) m) [] (iv_isolations v)"

definition acl_blocks :: "intent_view \<Rightarrow> string \<Rightarrow> string list" where
  "acl_blocks v i = dflt [] (om_get (l3AclBlocks v) (Some i))"

section \<open>Helpers\<close>

definition findNetwork :: "intent_view \<Rightarrow> string option \<Rightarrow> string list \<Rightarrow> intent_network option" where
  "findNetwork v networkId namePatterns =
     (if truthy networkId then find (\<lambda>n. it_id n = networkId) (iv_networks v)
      else find (\<lambda>n. \<exists>p \<in> set namePatterns. str_includes (to_lower p) (to_lower (it_name n))) (iv_networks v))"

definition isNetworkIsolated :: "intent_network option \<Rightarrow> bool" where
  "isNetworkIsolated network =
     (case network of
        None \<Rightarrow> False
      | Some n \<Rightarrow> it_vlan_enabled n \<and> (case it_vlan n of None \<Rightarrow> False | Some q \<Rightarrow> q \<noteq> 0 \<and> 1 < q))"

definition mapped :: "intent_network option \<Rightarrow> mapped_network option" where
  "mapped network =
     map_option (\<lambda>n. \<lparr>mn_id = dflt [] (it_id n), mn_name = it_name n, mn_vlan = it_vlan n,
                       mn_hasVlan = isNetworkIsolated network\<rparr>) network"

definition vlan_text :: "intent_network option \<Rightarrow> string" where
  "vlan_text network =
     (case Option.bind network it_vlan of None \<Rightarrow> ''undefined'' | Some q \<Rightarrow> show_number q)"

definition name_text :: "intent_network option \<Rightarrow> string" where
  "name_text network = tpl (map_option it_name network)"

definition without_colons :: "string \<Rightarrow> string" where
  "without_colons s = filter (\<lambda>c. c \<noteq> CHR '':'') s"

definition is_member :: "device_mapping \<Rightarrow> json \<Rightarrow> bool" where
  "is_member device member \<longleftrightarrow>
     (let m = to_lower (js_to_string member); mac = to_lower (dflt [] (dm_mac device)) in
      (truthy (dm_ip device) \<and> m = to_lower (the (dm_ip device))) \<or>
      (truthy (dm_mac device) \<and> (m = mac \<or> m = without_colons mac)))"

definition group_members :: "fields \<Rightarrow> json list" where
  "group_members g = dflt [] (nullish (get_arr g ''group_members'') (get_arr g ''groupMembers''))"

text \<open>The group that contains the device, with its name.\<close>

definition hasFirewallGroupForDevice :: "intent_view \<Rightarrow> device_mapping \<Rightarrow> string option option" where
  "hasFirewallGroupForDevice v device =
     map_option (\<lambda>g. get_str g ''name'') (find (\<lambda>g. \<exists>m \<in> set (group_members g). is_member device m) (iv_groups v))"

definition mentions :: "device_mapping \<Rightarrow> fields \<Rightarrow> bool" where
  "mentions device rule \<longleftrightarrow>
     (let ruleStr = to_lower (js_stringify (JObj rule)); mac = to_lower (dflt [] (dm_mac device)) in
      (truthy (dm_ip device) \<and> str_includes (to_lower (the (dm_ip device))) ruleStr) \<or>
      (truthy (dm_mac device) \<and> str_includes (without_colons mac) ruleStr) \<or>
      (truthy (dm_mac device) \<and> str_includes mac ruleStr))"

definition hasFirewallRulesForDevice :: "intent_view \<Rightarrow> device_mapping \<Rightarrow> bool" where
  "hasFirewallRulesForDevice v device = (\<exists>rule \<in> set (iv_rules v). mentions device rule)"

definition is_blocking :: "fields \<Rightarrow> bool" where
  "is_blocking rule \<longleftrightarrow>
     is_on (get_bool rule ''enabled'') \<and>
     (get_str rule ''action'' = Some ''drop'' \<or> get_str rule ''action'' = Some ''reject'')"

definition rule_named :: "fields \<Rightarrow> string list \<Rightarrow> bool" where
  "rule_named rule words = names_any (get_str rule ''name'') words"

section \<open>Work\<close>

definition work_vlan :: "intent_view \<Rightarrow> full_profile \<Rightarrow> network_mappings \<Rightarrow> evaluation" where
  "work_vlan v p mappings =
     (let workNetwork = findNetwork v (nm_work mappings) [''work'', ''office'', ''business''];
          isConfigured = isNetworkIsolated workNetwork
      in ([(setting ''work_vlan'' OfWork ''Work Network VLAN''
              ''Dedicated VLAN for work devices isolated from personal network''
              True (by_isolation workNetwork isConfigured) HIGH)
             \<lparr>se_currentValue := Some
                (if workNetwork = None then ''Not mapped''
                 else if isConfigured then (name_text workNetwork @ '' (VLAN '' @ vlan_text workNetwork @ '')'')
                 else (name_text workNetwork @ '' - no VLAN isolation'')),
              se_expectedValue := Some ''Dedicated VLAN (e.g., VLAN 20)'', se_mappedNetwork := mapped workNetwork,
              se_remediation := Some
                (if workNetwork \<noteq> None then ''Enable VLAN tagging on the Work network and assign a unique VLAN ID''
                 else ''Create a dedicated Work network with VLAN isolation, or map an existing network'')\<rparr>],
          when_list (\<not> isConfigured)
            (gap ''Work devices should be isolated from personal devices''
               (if workNetwork \<noteq> None then ''Work network exists but lacks VLAN isolation''
                else ''No dedicated Work VLAN found'') HIGH
               (if workNetwork \<noteq> None then ''Enable VLAN on your Work network in UniFi Settings > Networks''
                else ''Create a dedicated Work network with VLAN isolation''))))"

definition work_vpn :: "full_profile \<Rightarrow> intent_setting" where
  "work_vpn p =
     (setting ''work_vpn'' OfWork ''Work VPN'' ''VPN connection to employer network'' False
        (if fp_workVpn p then Configured else NotApplicable) INFO)
       \<lparr>se_currentValue := Some (if fp_workVpn p then ''Enabled'' else ''Not needed'')\<rparr>"

definition server_vlan :: "intent_view \<Rightarrow> network_mappings \<Rightarrow> intent_setting" where
  "server_vlan v mappings =
     (let serverNetwork = findNetwork v (nm_server mappings) [''server'', ''dmz'', ''services''];
          isConfigured = isNetworkIsolated serverNetwork
      in (setting ''server_vlan'' OfWork ''Server/DMZ Network''
            ''Isolated network for home servers with external access'' True (by_isolation serverNetwork isConfigured) MEDIUM)
           \<lparr>se_currentValue := Some
              (if serverNetwork = None then ''Not mapped''
               else if isConfigured then (''VLAN '' @ vlan_text serverNetwork) else ''No VLAN isolation''),
            se_expectedValue := Some ''Dedicated VLAN for servers'', se_mappedNetwork := mapped serverNetwork,
            se_remediation := Some ''Create a dedicated Server/DMZ network to isolate externally-accessible services''\<rparr>)"

section \<open>IoT\<close>

definition iot_vlan :: "intent_view \<Rightarrow> network_mappings \<Rightarrow> evaluation" where
  "iot_vlan v mappings =
     (let iotNetwork = findNetwork v (nm_iot mappings) [''iot'', ''smart'', ''devices'', ''things''];
          isIotIsolated = isNetworkIsolated iotNetwork;
          blocked = length (acl_blocks v (dflt [] (Option.bind iotNetwork it_id)))
      in ([(setting ''iot_vlan'' OfDevices ''IoT Network VLAN''
              ''Dedicated isolated VLAN for smart home devices'' True (by_isolation iotNetwork isIotIsolated) HIGH)
             \<lparr>se_currentValue := Some
                (if iotNetwork = None then ''Not mapped''
                 else if isIotIsolated \<and> 0 < blocked
                 then (''VLAN '' @ vlan_text iotNetwork @ '' + L3 ACL (blocks '' @ show_nat blocked @
                      '' network(s))'')
                 else if isIotIsolated then (''VLAN '' @ vlan_text iotNetwork) else ''No VLAN isolation''),
              se_expectedValue := Some ''Dedicated VLAN (e.g., VLAN 30)'', se_mappedNetwork := mapped iotNetwork,
              se_remediation := Some
                (if iotNetwork \<noteq> None then ''Enable VLAN tagging on the IoT network''
                 else ''Create a dedicated IoT network with VLAN isolation'')\<rparr>],
          when_list (\<not> isIotIsolated)
            (gap ''IoT devices should be isolated from the main network''
               (if iotNetwork \<noteq> None then ''IoT network exists but lacks VLAN isolation'' else ''No dedicated IoT VLAN found'')
               HIGH
               (''Create or configure an IoT network with VLAN isolation, then add L3 ACL rules to block access '' @
               ''to trusted networks''))))"

definition restricts_iot :: "fields \<Rightarrow> bool" where
  "restricts_iot rule \<longleftrightarrow>
     is_blocking rule \<and>
     (rule_named rule [''iot''] \<or>
      (case get_str rule ''src_address'' of None \<Rightarrow> False | Some a \<Rightarrow> str_includes ''iot'' a))"

definition iot_internet :: "intent_view \<Rightarrow> full_profile \<Rightarrow> evaluation" where
  "iot_internet v p =
     (let hasIotFirewallRule = (\<exists>rule \<in> set (iv_rules v). restricts_iot rule);
          none = (fp_iotInternetAccess p = AccessNone);
          expectedAccess = (if none then ''No internet access'' else ''Limited internet access'')
      in ([(setting ''iot_internet'' OfDevices ''IoT Internet Access''
              (''Control IoT device internet access ('' @ expectedAccess @ '')'') True (configured_if hasIotFirewallRule)
              (if none then MEDIUM else LOW))
             \<lparr>se_currentValue := Some (if hasIotFirewallRule then ''Firewall rules configured'' else ''No restrictions''),
              se_expectedValue := Some expectedAccess,
              se_remediation := Some (''Create firewall rules to '' @ (if none then ''block'' else ''limit'') @ '' IoT network internet access'')\<rparr>],
          when_list (\<not> hasIotFirewallRule)
            (gap (''IoT devices should have '' @ to_lower expectedAccess) ''No firewall rules restricting IoT internet access''
               MEDIUM ''Create firewall rules in UniFi to control IoT network WAN access'')))"

section \<open>NAS\<close>

definition nas_scope :: "full_profile \<Rightarrow> string" where
  "nas_scope p = (if ip_nasAccessibleFrom p = NasTrusted then ''trusted networks'' else ''specific VLANs'')"

definition nas_value :: "full_profile \<Rightarrow> string" where
  "nas_value p =
     (case ip_nasAccessibleFrom p of NasAll \<Rightarrow> ''all'' | NasTrusted \<Rightarrow> ''trusted'' | NasSpecific \<Rightarrow> ''specific_vlans'')"

definition nas_setting :: "full_profile \<Rightarrow> setting_status \<Rightarrow> intent_network option \<Rightarrow> string \<Rightarrow> intent_setting" where
  "nas_setting p status nasNetwork current =
     (setting ''nas_access'' OfDevices ''NAS Access Control'' (''Restrict NAS access to '' @ nas_scope p) True status MEDIUM)
       \<lparr>se_currentValue := Some current, se_expectedValue := Some (''Access from '' @ nas_value p @ '' only''),
        se_mappedNetwork := mapped nasNetwork, se_requiresDeviceMapping := True\<rparr>"

definition unmapped_nas :: "full_profile \<Rightarrow> intent_network option \<Rightarrow> evaluation" where
  "unmapped_nas p nasNetwork =
     ([(nas_setting p NotConfigured nasNetwork ''No NAS device selected'')
         \<lparr>se_remediation := Some ''Select your NAS device to verify firewall rules are protecting it''\<rparr>],
      [gap (''NAS should only be accessible from '' @ nas_scope p) ''No NAS device selected - cannot verify firewall rules'' MEDIUM
         ''Select your NAS device in the Intent Analysis, then create firewall rules targeting its IP''])"

definition nasKeywords :: "string list" where
  "nasKeywords = [''nas'', ''storage'', ''synology'', ''qnap'', ''truenas'', ''unraid'', ''freenas'']"

definition device_name :: "device_mapping \<Rightarrow> string" where
  "device_name d = tpl (str_or (dm_name d) (str_or (dm_ip d) (dm_mac d)))"

definition has_nas_config :: "intent_view \<Rightarrow> device_mapping \<Rightarrow> bool" where
  "has_nas_config v device \<longleftrightarrow>
     hasFirewallGroupForDevice v device \<noteq> None \<or> hasFirewallRulesForDevice v device \<or>
     (\<exists>rule \<in> set (iv_rules v). rule_named rule nasKeywords)"

definition mapped_nas :: "intent_view \<Rightarrow> full_profile \<Rightarrow> intent_network option \<Rightarrow> device_mapping \<Rightarrow> evaluation" where
  "mapped_nas v p nasNetwork device =
     (let config = has_nas_config v device; label = device_name device in
      ([(nas_setting p (configured_if config) nasNetwork
           (case hasFirewallGroupForDevice v device of
              Some groupName \<Rightarrow> (''In firewall group '' @ dq @ tpl groupName @ dq)
            | None \<Rightarrow>
                if hasFirewallRulesForDevice v device then (''Rules protect '' @ label)
                else if \<exists>rule \<in> set (iv_rules v). rule_named rule nasKeywords then ''NAS-related rules found''
                else (''No firewall config for '' @ label)))
          \<lparr>se_mappedDevice := Some device,
           se_remediation :=
             (if config then None
              else Some (''Create firewall rules to control which networks can access '' @ label @ '' ('' @
                        tpl (str_or (dm_ip device) (dm_mac device)) @ '')''))\<rparr>],
       when_list (\<not> config)
         (gap (''NAS ('' @ label @ '') should only be accessible from '' @ nas_scope p) (''No firewall configuration found for '' @ label) MEDIUM
            (''Create firewall rules in UniFi targeting IP '' @ str_dflt (dm_ip device) ''N/A'' @
            '' to restrict access''))))"

definition nas_access :: "intent_view \<Rightarrow> full_profile \<Rightarrow> network_mappings \<Rightarrow> evaluation" where
  "nas_access v p mappings =
     (let nasNetwork = findNetwork v (nm_nas mappings) [''nas'', ''storage'', ''media''] in
      case sp_nasDevice p of None \<Rightarrow> unmapped_nas p nasNetwork | Some device \<Rightarrow> mapped_nas v p nasNetwork device)"

section \<open>Guests\<close>

definition guest_wlan :: "intent_view \<Rightarrow> fields option" where
  "guest_wlan v =
     find (\<lambda>w. is_on (get_bool w ''is_guest'') \<or> names_any (get_str w ''name'') [''guest'']) (iv_wlans v)"

definition guest_network :: "intent_view \<Rightarrow> network_mappings \<Rightarrow> intent_network option" where
  "guest_network v mappings = findNetwork v (nm_guest mappings) [''guest'', ''visitor'']"

definition has_guest :: "intent_view \<Rightarrow> network_mappings \<Rightarrow> bool" where
  "has_guest v mappings \<longleftrightarrow> guest_network v mappings \<noteq> None \<or> guest_wlan v \<noteq> None"

definition guest_wifi :: "intent_view \<Rightarrow> network_mappings \<Rightarrow> evaluation" where
  "guest_wifi v mappings =
     (let guestNetwork = guest_network v mappings; hasGuest = has_guest v mappings
      in ([(setting ''guest_network'' OfGuest ''Guest WiFi Network'' ''Dedicated WiFi network for visitors'' True
              (configured_if hasGuest) MEDIUM)
             \<lparr>se_currentValue :=
                (if hasGuest then
                   (case guest_wlan v of
                      Some w \<Rightarrow> Some (''SSID: '' @ tpl (get_str w ''name''))
                    | None \<Rightarrow> map_option it_name guestNetwork)
                 else Some ''Not configured''),
              se_expectedValue := Some ''Guest WiFi with separate SSID'', se_mappedNetwork := mapped guestNetwork,
              se_remediation := Some ''Create a guest WiFi network in UniFi''\<rparr>],
          when_list (\<not> hasGuest)
            (gap ''A guest WiFi network should be available'' ''No guest network or WiFi found'' MEDIUM
               ''Create a dedicated guest network with its own SSID'')))"

definition guest_isolation :: "intent_view \<Rightarrow> network_mappings \<Rightarrow> intent_setting" where
  "guest_isolation v mappings =
     (let guestNetwork = guest_network v mappings; hasGuest = has_guest v mappings;
          isGuestIsolated = isNetworkIsolated guestNetwork
      in (setting ''guest_isolation'' OfGuest ''Guest Network Isolation'' ''Guests cannot access your internal devices'' True
            (if hasGuest then (if isGuestIsolated then Configured else Partial) else NotConfigured) HIGH)
           \<lparr>se_currentValue := Some
              (if isGuestIsolated then (''VLAN '' @ vlan_text guestNetwork)
               else if hasGuest then ''No VLAN isolation'' else ''Not configured''),
            se_expectedValue := Some ''VLAN isolated with firewall rules'', se_mappedNetwork := mapped guestNetwork,
            se_remediation := Some ''Enable VLAN isolation and create firewall rules blocking guest to internal access''\<rparr>)"

text \<open>Isolation of the guest network: by its own setting, by its purpose, by the wireless network, by a raw field, or by
  the switches.\<close>

definition guest_block_rule :: "intent_view \<Rightarrow> bool" where
  "guest_block_rule v = (\<exists>rule \<in> set (iv_rules v). is_blocking rule \<and> rule_named rule [''guest''])"

definition network_has_isolation :: "intent_network option \<Rightarrow> bool" where
  "network_has_isolation n = (case n of None \<Rightarrow> False | Some g \<Rightarrow> it_isolation g)"

definition is_guest_purpose :: "intent_network option \<Rightarrow> bool" where
  "is_guest_purpose n = (case n of None \<Rightarrow> False | Some g \<Rightarrow> it_purpose g = ''guest'')"

definition wlan_has_isolation :: "intent_view \<Rightarrow> bool" where
  "wlan_has_isolation v =
     (case guest_wlan v of None \<Rightarrow> False | Some w \<Rightarrow> raw_isolation w \<or> is_on (get_bool w ''is_guest''))"

definition raw_has_isolation :: "intent_view \<Rightarrow> intent_network option \<Rightarrow> bool" where
  "raw_has_isolation v guestNetwork =
     (case find (\<lambda>n. raw_id n = Option.bind guestNetwork it_id) (iv_raw v) of None \<Rightarrow> False | Some n \<Rightarrow> raw_isolation n)"

definition guest_blocks :: "intent_view \<Rightarrow> intent_network option \<Rightarrow> nat" where
  "guest_blocks v guestNetwork = length (acl_blocks v (dflt [] (Option.bind guestNetwork it_id)))"

definition guest_network_isolated :: "intent_view \<Rightarrow> intent_network option \<Rightarrow> bool" where
  "guest_network_isolated v n \<longleftrightarrow>
     network_has_isolation n \<or> is_guest_purpose n \<or> wlan_has_isolation v \<or> raw_has_isolation v n \<or> 0 < guest_blocks v n"

definition guest_isolated :: "intent_view \<Rightarrow> intent_network option \<Rightarrow> bool" where
  "guest_isolated v n \<longleftrightarrow> guest_block_rule v \<or> guest_network_isolated v n"

definition guest_firewall_value :: "intent_view \<Rightarrow> intent_network option \<Rightarrow> string" where
  "guest_firewall_value v n =
     (if 0 < guest_blocks v n then (''L3 ACL isolation (blocks '' @ show_nat (guest_blocks v n) @ '' network(s))'')
      else if guest_block_rule v \<and> guest_network_isolated v n then ''Firewall rules + Network isolation enabled''
      else if network_has_isolation n \<or> raw_has_isolation v n then ''Network isolation enabled''
      else if is_guest_purpose n then ''Guest network (isolated by default)''
      else if wlan_has_isolation v then ''Guest WiFi isolation enabled''
      else if guest_block_rule v then ''Firewall rules configured''
      else ''No blocking rules or isolation'')"

definition guest_firewall :: "intent_view \<Rightarrow> network_mappings \<Rightarrow> evaluation" where
  "guest_firewall v mappings =
     (let n = guest_network v mappings; isGuestIsolated = isNetworkIsolated n; hasGuestIsolation = guest_isolated v n
      in ([(setting ''guest_firewall'' OfGuest ''Guest Firewall Rules'' ''Block guest network from accessing internal resources''
              True (configured_if hasGuestIsolation) HIGH)
             \<lparr>se_currentValue := Some (guest_firewall_value v n),
              se_expectedValue := Some ''Block guest to internal VLANs'',
              se_remediation := Some (''Configure L3 ACL isolation (Settings > Security > ACL), enable '' @ dq @ ''Isolate Network'' @ dq @
          '', or create firewall rule: Block Guest VLAN '' @ right_arrow @ '' All Internal VLANs'')\<rparr>],
          when_list (\<not> isGuestIsolated \<or> \<not> hasGuestIsolation)
            (gap ''Guest network should be completely isolated from internal devices''
               (if \<not> isGuestIsolated \<and> \<not> hasGuestIsolation then ''Guest network lacks VLAN isolation and firewall rules''
                else if \<not> isGuestIsolated then ''Guest network lacks VLAN isolation''
                else ''No firewall rules or network isolation'') HIGH
               (''Enable VLAN on guest network and enable '' @ dq @ ''Isolate Network'' @ dq @
               '' or create firewall rules to block internal access''))))"

definition guest_bandwidth :: "intent_view \<Rightarrow> intent_setting" where
  "guest_bandwidth v =
     (let limited = (case guest_wlan v of None \<Rightarrow> False | Some w \<Rightarrow> truthy (get_str w ''usergroup_id''))
      in (setting ''guest_bandwidth'' OfGuest ''Guest Bandwidth Limits'' ''Limit bandwidth for guest users'' False
            (configured_if limited) LOW)
           \<lparr>se_currentValue := Some (if limited then ''Limits configured'' else ''No limits''),
            se_expectedValue := Some ''Bandwidth limiting enabled'',
            se_remediation := Some ''Configure bandwidth limits in UniFi WiFi settings or create a user group with limits''\<rparr>)"

section \<open>Traffic between networks\<close>

definition default_deny_rule :: "fields \<Rightarrow> bool" where
  "default_deny_rule rule \<longleftrightarrow>
     is_blocking rule \<and> rule_named rule [''block'', ''deny''] \<and> rule_named rule [''inter-vlan'', ''intervlan'', ''all vlan'']"

definition lan_networks :: "intent_view \<Rightarrow> intent_network list" where
  "lan_networks v =
     filter (\<lambda>n. it_purpose n \<noteq> ''wan'' \<and> \<not> str_includes ''internet'' (to_lower (it_name n))) (iv_networks v)"

definition group_with :: "intent_view \<Rightarrow> string \<Rightarrow> fields option" where
  "group_with v gid = find (\<lambda>g. get_str g ''_id'' = Some gid \<or> get_str g ''id'' = Some gid) (iv_groups v)"

definition group_has :: "intent_view \<Rightarrow> string \<Rightarrow> string \<Rightarrow> bool" where
  "group_has v i gid =
     (case group_with v gid of None \<Rightarrow> False | Some g \<Rightarrow> JStr i \<in> set (dflt [] (get_arr g ''group_members'')))"

definition side_matches :: "intent_view \<Rightarrow> fields \<Rightarrow> string \<Rightarrow> string \<Rightarrow> string \<Rightarrow> bool" where
  "side_matches v rule networkKey groupsKey i \<longleftrightarrow>
     get_str rule networkKey = Some i \<or> (\<exists>gid \<in> set (dflt [] (get_strs rule groupsKey)). group_has v i gid)"

definition hasBlockRule :: "intent_view \<Rightarrow> string \<Rightarrow> string \<Rightarrow> bool" where
  "hasBlockRule v srcNetworkId dstNetworkId \<longleftrightarrow>
     dstNetworkId \<in> set (acl_blocks v srcNetworkId) \<or>
     (\<exists>rule \<in> set (iv_rules v).
        is_blocking rule \<and> side_matches v rule ''src_network_id'' ''src_firewallgroup_ids'' srcNetworkId \<and>
        side_matches v rule ''dst_network_id'' ''dst_firewallgroup_ids'' dstNetworkId)"

definition open_pair :: "intent_view \<Rightarrow> intent_network \<Rightarrow> intent_network \<Rightarrow> bool" where
  "open_pair v a b \<longleftrightarrow>
     \<not> hasBlockRule v (dflt [] (it_id a)) (dflt [] (it_id b)) \<or> \<not> hasBlockRule v (dflt [] (it_id b)) (dflt [] (it_id a))"

fun open_pairs :: "intent_view \<Rightarrow> intent_network list \<Rightarrow> string list" where
  "open_pairs v [] = []"
| "open_pairs v (a # rest) =
     map (\<lambda>b. it_name a @ '' '' @ both_arrow @ '' '' @ it_name b) (filter (open_pair v a) rest) @ open_pairs v rest"

definition intervlan_value :: "intent_view \<Rightarrow> bool \<Rightarrow> string list \<Rightarrow> string" where
  "intervlan_value v hasDefaultDeny openPairs =
     (if hasDefaultDeny then ''Default deny rule configured''
      else if length openPairs = 0 \<and> 0 < length (iv_isolations v) then ''All VLAN pairs blocked (L3 ACL + firewall rules)''
      else if length openPairs = 0 then ''All VLAN pairs have block rules''
      else if length openPairs \<le> 5 then (''Open pairs: '' @ join '', '' openPairs)
      else (show_nat (length openPairs) @ '' VLAN pairs can communicate: '' @ join '', '' (take 3 openPairs) @
           ''...''))"

definition intervlan_deny :: "intent_view \<Rightarrow> evaluation" where
  "intervlan_deny v =
     (let hasDefaultDeny = (\<exists>rule \<in> set (iv_rules v). default_deny_rule rule);
          openPairs = open_pairs v (lan_networks v);
          isConfigured = (hasDefaultDeny \<or> length openPairs = 0)
      in ([(setting ''intervlan_deny'' OfSecurity ''Inter-VLAN Default Deny'' ''Block all VLAN-to-VLAN traffic by default'' True
              (configured_if isConfigured) HIGH)
             \<lparr>se_currentValue := Some (intervlan_value v hasDefaultDeny openPairs),
              se_expectedValue := Some ''Block all inter-VLAN traffic by default'',
              se_remediation := Some
                (if 0 < length openPairs then
                   (''Create firewall rules to block: '' @ join '', '' (take 5 openPairs)) @
                   (if 5 < length openPairs then ('' (and '' @ show_nat (length openPairs - 5) @ '' more)'') else [])
                 else (''Create a low-priority firewall rule blocking all inter-VLAN traffic, then add specific allow '' @
                      ''rules''))\<rparr>],
          when_list (\<not> isConfigured)
            (gap ''VLANs should not be able to communicate by default''
               (if 0 < length openPairs then
                  (show_nat (length openPairs) @ '' VLAN pair(s) can communicate: '' @ join '', '' (take 3 openPairs)) @
                  (if 3 < length openPairs then ''...'' else [])
                else ''No default deny inter-VLAN firewall rule found'') HIGH
               (''Create firewall rule: Block All RFC1918 '' @ right_arrow @
               '' All RFC1918 (place at bottom of rules)''))))"

section \<open>DNS filtering\<close>

definition knownFilteringDns :: "string list" where
  "knownFilteringDns =
     [''1.1.1.3'', ''1.0.0.3'', ''9.9.9.9'', ''149.112.112.112'', ''208.67.222.123'', ''208.67.220.123'', ''185.228.168.168'',
      ''185.228.169.168'']"

record dns_status =
  ds_name :: string
  ds_dns :: "string option"
  ds_hasFiltering :: bool
  ds_shouldHave :: bool
  ds_matchesUser :: bool

definition is_local_dns :: "string \<Rightarrow> bool" where
  "is_local_dns dns \<longleftrightarrow> starts_with ''192.168.'' dns \<or> starts_with ''10.'' dns \<or> starts_with ''172.'' dns"

text \<open>The status of one network: none for a WAN, nor for a network without its own DNS and with DHCP switched off.\<close>

definition dns_status_of :: "string \<Rightarrow> string list \<Rightarrow> fields \<Rightarrow> dns_status option" where
  "dns_status_of userDns specified n =
     (let should = (if 0 < length specified then dflt [] (raw_id n) \<in> set specified else True);
          hasDhcp = (get_bool n ''dhcpd_enabled'' \<noteq> Some False);
          dns1 = dflt [] (get_str n ''dhcpd_dns_1'')
      in if raw_purpose n = ''wan'' \<or> str_includes ''internet'' (to_lower (raw_name n)) then None
         else if hasDhcp \<and> dns1 \<noteq> [] \<and> js_trim dns1 \<noteq> [] then
           (let matchesUser = (if userDns \<noteq> [] then dns1 = userDns else False) in
            Some \<lparr>ds_name = raw_name n, ds_dns = Some dns1,
                  ds_hasFiltering = (matchesUser \<or> dns1 \<in> set knownFilteringDns \<or> (userDns = [] \<and> is_local_dns dns1)),
                  ds_shouldHave = should, ds_matchesUser = matchesUser\<rparr>)
         else if hasDhcp then
           Some \<lparr>ds_name = raw_name n, ds_dns = None, ds_hasFiltering = False, ds_shouldHave = should, ds_matchesUser = False\<rparr>
         else None)"

definition dns_statuses :: "intent_view \<Rightarrow> string \<Rightarrow> string list \<Rightarrow> dns_status list" where
  "dns_statuses v userDns specified = concat (map (\<lambda>n. case dns_status_of userDns specified n of None \<Rightarrow> [] | Some s \<Rightarrow> [s]) (iv_raw v))"

text \<open>The first DNS server of a network that is known to filter or is local, unless the user names one.\<close>

definition detected_dns :: "string \<Rightarrow> dns_status list \<Rightarrow> string option" where
  "detected_dns userDns statuses =
     (if userDns \<noteq> [] then Some userDns
      else first_some (map (\<lambda>s. case ds_dns s of
             Some d \<Rightarrow> if d \<in> set knownFilteringDns \<or> is_local_dns d then Some d else None | None \<Rightarrow> None) statuses))"

definition names_of :: "dns_status list \<Rightarrow> string" where
  "names_of ss = join '', '' (map ds_name ss)"

definition user_dns_value :: "string \<Rightarrow> dns_status list \<Rightarrow> string" where
  "user_dns_value userDns toCheck =
     (let using = filter ds_matchesUser toCheck; missing = filter (\<lambda>s. \<not> ds_hasFiltering s) toCheck in
      if length using = length toCheck \<and> 0 < length toCheck then (''All networks using '' @ userDns)
      else if length using = 0 then
        (''No networks using '' @ userDns @ ''. Current: '' @
        join '', '' (map (\<lambda>s. ds_name s @ '': '' @ str_dflt (ds_dns s) ''default'') toCheck))
      else
        (''Using '' @ userDns @ '': '' @ names_of using @ '' | Not using: '' @
        join '', '' (map (\<lambda>s. ds_name s @ '' ('' @ str_dflt (ds_dns s) ''default'' @ '')'') missing)))"

definition specified_value :: "dns_status list \<Rightarrow> dns_status list \<Rightarrow> string" where
  "specified_value toCheck others =
     (let filtering = filter ds_hasFiltering toCheck; missing = filter (\<lambda>s. \<not> ds_hasFiltering s) toCheck in
      (if length missing = 0 \<and> 0 < length filtering then (''All selected: '' @ names_of filtering)
       else if length filtering = 0 then (''Missing: '' @ names_of missing)
       else (''Enabled: '' @ names_of filtering @ '' | Missing: '' @ names_of missing)) @
      (if 0 < length others then ('' | Also enabled: '' @ names_of others) else []))"

definition any_value :: "string option \<Rightarrow> dns_status list \<Rightarrow> string" where
  "any_value detected toCheck =
     (let filtering = filter ds_hasFiltering toCheck; missing = filter (\<lambda>s. \<not> ds_hasFiltering s) toCheck in
      if length filtering = 0 then ''No networks using filtering DNS''
      else if length missing = 0 then (''All networks using '' @ str_dflt detected ''custom DNS'')
      else (''Enabled: '' @ names_of filtering @ '' | Default DNS: '' @ names_of missing))"

definition dns_state :: "dns_status list \<Rightarrow> setting_status" where
  "dns_state toCheck =
     (let filtering = filter ds_hasFiltering toCheck; missing = filter (\<lambda>s. \<not> ds_hasFiltering s) toCheck in
      if length toCheck = 0 then NotConfigured
      else if length missing = 0 then Configured
      else if 0 < length filtering then Partial
      else NotConfigured)"

definition dns_filtering :: "intent_view \<Rightarrow> full_profile \<Rightarrow> evaluation" where
  "dns_filtering v p =
     (let userDns = js_trim (dflt [] (fp_dnsFilteringServerIp p));
          specified = dflt [] (fp_dnsFilteringNetworks p);
          hasSpecified = (0 < length specified);
          statuses = dns_statuses v userDns specified;
          toCheck = filter ds_shouldHave statuses;
          missing = filter (\<lambda>s. \<not> ds_hasFiltering s) toCheck;
          others = filter (\<lambda>s. \<not> ds_shouldHave s \<and> ds_hasFiltering s) statuses;
          status = dns_state toCheck;
          target = (''Networks should use DNS filtering server at '' @ userDns)
      in ([(setting ''dns_filtering'' OfSecurity ''DNS Filtering''
              (if userDns \<noteq> [] then target
               else if hasSpecified then (''Block ads and trackers via custom DNS ('' @ show_nat (length toCheck) @ '' selected networks)'')
               else ''Block ads and trackers via custom DNS (per-network)'')
              (hasSpecified \<or> userDns \<noteq> []) status LOW)
             \<lparr>se_currentValue := Some
                (if userDns \<noteq> [] then user_dns_value userDns toCheck
                 else if hasSpecified then specified_value toCheck others
                 else any_value (detected_dns userDns statuses) toCheck),
              se_expectedValue := Some
                (if userDns \<noteq> [] then (''Networks should use DNS server '' @ userDns)
                 else if hasSpecified then
                   (''Selected networks: '' @
                   (if 3 < length specified then show_nat (length specified) @ '' networks'' else names_of toCheck))
                 else ''Filtering DNS (AdGuard, Pi-hole, NextDNS)''),
              se_remediation :=
                (if 0 < length missing then
                   Some (if userDns \<noteq> [] then (''Set DNS server to '' @ userDns @ '' for: '' @ names_of missing)
                         else (''Configure DNS filtering for: '' @ names_of missing))
                 else None)\<rparr>],
          when_list
            (status = NotConfigured \<or> (hasSpecified \<and> 0 < length missing) \<or>
             (userDns \<noteq> [] \<and> length (filter ds_matchesUser toCheck) < length toCheck))
            (gap
               (if userDns \<noteq> [] then target
                else if hasSpecified then (''DNS filtering should be enabled on: '' @ names_of toCheck)
                else ''DNS filtering should be enabled on networks'')
               (if 0 < length missing then (''Missing DNS filtering on: '' @ names_of missing)
                else ''No networks have custom DNS configured'') LOW
               (if userDns \<noteq> [] then (''In UniFi Network settings, set the DHCP Name Server for each network to '' @ userDns)
                else ''Set up AdGuard Home, Pi-hole, or NextDNS and configure the selected networks to use it''))))"

section \<open>Security level\<close>

definition malware_blocking :: intent_setting where
  "malware_blocking =
     (setting ''malware_blocking'' OfSecurity ''Malware Blocking'' ''Block known malicious websites and threats'' True Partial MEDIUM)
       \<lparr>se_currentValue := Some ''Requires manual verification'',
        se_expectedValue := Some ''Threat management or DNS blocking enabled'',
        se_remediation := Some (''Enable UniFi Threat Management or use a security-focused DNS like Quad9 or Cloudflare for '' @
          ''Families'')\<rparr>"

definition is_weak_wlan :: "fields \<Rightarrow> bool" where
  "is_weak_wlan w \<longleftrightarrow>
     is_on (get_bool w ''enabled'') \<and> \<not> is_on (get_bool w ''is_guest'') \<and>
     (get_str w ''security'' = Some ''open'' \<or> get_str w ''security'' = Some ''wep'' \<or>
      (get_str w ''security'' = Some ''wpapsk'' \<and> get_str w ''wpa_mode'' = Some ''wpa1''))"

definition wlan_security :: "intent_view \<Rightarrow> evaluation" where
  "wlan_security v =
     (let weakWlans = filter is_weak_wlan (iv_wlans v); k = length weakWlans
      in ([(setting ''wlan_security'' OfSecurity ''WiFi Encryption'' ''All WiFi networks use WPA2 or WPA3'' True
              (configured_if (k = 0)) CRITICAL)
             \<lparr>se_currentValue := Some
                (if k = 0 then ''All networks use strong encryption'' else (show_nat k @ '' network(s) with weak encryption'')),
              se_expectedValue := Some ''WPA2 or WPA3 on all networks'',
              se_remediation := Some ''Upgrade all WiFi networks to WPA2-AES or WPA3''\<rparr>],
          when_list (0 < k)
            (gap ''Maximum security requires strong WiFi encryption''
               (show_nat k @ '' WiFi network(s) with weak or no encryption: '' @
               join '', '' (map (\<lambda>w. dflt [] (get_str w ''name'')) weakWlans))
               CRITICAL ''Change security mode to WPA2 or WPA3 in UniFi WiFi settings'')))"

definition network_segmentation :: "intent_view \<Rightarrow> evaluation" where
  "network_segmentation v =
     (let k = length (filter (\<lambda>n. isNetworkIsolated (Some n)) (iv_networks v))
      in ([(setting ''network_segmentation'' OfSecurity ''Network Segmentation'' ''Multiple VLANs for proper network isolation''
              True (if 3 \<le> k then Configured else if 1 \<le> k then Partial else NotConfigured) HIGH)
             \<lparr>se_currentValue := Some (show_nat k @ '' VLAN(s) configured''),
              se_expectedValue := Some ''At least 3 VLANs (Trusted, IoT, Guest)'',
              se_remediation := Some ''Create separate VLANs for different device categories''\<rparr>],
          when_list (k < 3)
            (gap ''Maximum security requires proper network segmentation'' (''Only '' @ show_nat k @ '' VLAN(s) configured'') HIGH
               ''Create at least: Main/Trusted VLAN, IoT VLAN, Guest VLAN'')))"

definition trusted_network :: "intent_view \<Rightarrow> network_mappings \<Rightarrow> intent_setting" where
  "trusted_network v mappings =
     (let trustedNetwork = findNetwork v (nm_trusted mappings) [''main'', ''trusted'', ''home'', ''lan'']
      in (setting ''trusted_network'' OfSecurity ''Trusted Network'' ''Primary network for trusted personal devices'' False
            (if trustedNetwork \<noteq> None then Configured else Partial) INFO)
           \<lparr>se_currentValue := Some (if trustedNetwork \<noteq> None then name_text trustedNetwork else ''Using default LAN''),
            se_expectedValue := Some ''Identified trusted network'', se_mappedNetwork := mapped trustedNetwork\<rparr>)"

end
