(* ===== verification/Intent_Analysis.thy ===== *)
theory Intent_Analysis
  imports Intent_Settings
begin

text \<open>
  \<open>analyzeAgainstIntent\<close> of \<open>analyzers/intentAnalyzer.ts\<close>: the settings that the profile asks for, the dismissals of the
  user, the link from a gap to its setting, and the summary, score and verdict.
\<close>

section \<open>What the profile asks for\<close>

definition only_setting :: "intent_setting \<Rightarrow> evaluation" where
  "only_setting s = ([s], [])"

definition work_part :: "intent_view \<Rightarrow> full_profile \<Rightarrow> network_mappings \<Rightarrow> evaluation list" where
  "work_part v p m =
     (if ip_workFromHome p then
        (if ip_workDeviceIsolation p then [work_vlan v p m] else []) @ [only_setting (work_vpn p)]
      else [])"

definition device_part :: "intent_view \<Rightarrow> full_profile \<Rightarrow> network_mappings \<Rightarrow> evaluation list" where
  "device_part v p m =
     (if ip_homeServer p then [only_setting (server_vlan v m)] else []) @
     (if ip_hasIoT p then
        (if ip_iotIsolation p then [iot_vlan v m] else []) @
        (if fp_iotInternetAccess p \<noteq> AccessFull then [iot_internet v p] else [])
      else []) @
     (if ip_hasNAS p \<and> ip_nasAccessibleFrom p \<noteq> NasAll then [nas_access v p m] else [])"

definition guest_part :: "intent_view \<Rightarrow> full_profile \<Rightarrow> network_mappings \<Rightarrow> evaluation list" where
  "guest_part v p m =
     (if ip_guestNetwork p then
        [guest_wifi v m] @
        (if ip_guestIsolation p then [only_setting (guest_isolation v m), guest_firewall v m] else []) @
        (if fp_guestBandwidthLimit p then [only_setting (guest_bandwidth v)] else [])
      else [])"

definition security_part :: "intent_view \<Rightarrow> full_profile \<Rightarrow> network_mappings \<Rightarrow> evaluation list" where
  "security_part v p m =
     (if ip_interVlanDefault p = DenyAll then [intervlan_deny v] else []) @
     (if fp_dnsFiltering p then [dns_filtering v p] else []) @
     (if fp_malwareBlocking p then [only_setting malware_blocking] else []) @
     (if fp_securityLevel p = SecMaximum then [wlan_security v, network_segmentation v] else []) @
     [only_setting (trusted_network v m)]"

definition evaluations :: "intent_view \<Rightarrow> full_profile \<Rightarrow> evaluation list" where
  "evaluations v p =
     (let m = dflt no_mappings (ip_networkMappings p) in
      work_part v p m @ device_part v p m @ guest_part v p m @ security_part v p m)"

section \<open>Dismissals\<close>

record dismissal =
  di_id :: string
  di_findingId :: string
  di_reason :: string

definition dismissalMap :: "dismissal list \<Rightarrow> (string \<times> dismissal) list" where
  "dismissalMap dismissals = om_of (map (\<lambda>d. (di_findingId d, d)) dismissals)"

definition dismissal_of :: "dismissal list \<Rightarrow> string \<Rightarrow> (string \<times> string) option" where
  "dismissal_of dismissals i = map_option (\<lambda>d. (di_id d, di_reason d)) (om_get (dismissalMap dismissals) i)"

definition dismiss_setting :: "dismissal list \<Rightarrow> intent_setting \<Rightarrow> intent_setting" where
  "dismiss_setting dismissals s = s\<lparr>se_dismissal := dismissal_of dismissals (se_id s)\<rparr>"

text \<open>The words of a gap that name its setting, tried in order.\<close>

definition gap_words :: "(string \<times> string \<times> string) list" where
  "gap_words =
     [(''work'', ''isolat'', ''work_vlan''), (''iot'', ''isolat'', ''iot_vlan''), (''iot'', ''internet'', ''iot_internet''),
      (''nas'', ''access'', ''nas_access''), (''guest'', ''wifi'', ''guest_network''), (''guest'', ''isolat'', ''guest_isolation''),
      (''vlan'', ''default'', ''intervlan_deny''), (''dns'', ''filter'', ''dns_filtering''),
      (''wifi'', ''encrypt'', ''wlan_security''), (''network'', ''segment'', ''network_segmentation'')]"

definition settingIdForGap :: "intent_gap \<Rightarrow> string option" where
  "settingIdForGap g =
     (let intent = to_lower (ga_intent g) in
      map_option (\<lambda>(a, b, i). i) (find (\<lambda>(a, b, i). str_includes a intent \<and> str_includes b intent) gap_words))"

definition dismiss_gap :: "dismissal list \<Rightarrow> intent_gap \<Rightarrow> intent_gap" where
  "dismiss_gap dismissals g =
     (case settingIdForGap g of
        None \<Rightarrow> g
      | Some i \<Rightarrow> g\<lparr>ga_settingId := Some i, ga_dismissal := dismissal_of dismissals i\<rparr>)"

section \<open>The result\<close>

record intent_summary =
  su_total :: nat
  su_configured :: nat
  su_notConfigured :: nat
  su_partial :: nat
  su_notApplicable :: nat
  su_dismissed :: nat

record config_requirement =
  rq_id :: string
  rq_device :: bool
  rq_message :: string
  rq_severity :: severity

record intent_result =
  ir_compliant :: bool
  ir_score :: int
  ir_gaps :: "intent_gap list"
  ir_settings :: "intent_setting list"
  ir_summary :: intent_summary
  ir_configRequirements :: "config_requirement list option"

definition active_settings :: "intent_setting list \<Rightarrow> intent_setting list" where
  "active_settings settings = filter (\<lambda>s. se_dismissal s = None) settings"

definition with_status :: "setting_status \<Rightarrow> intent_setting list \<Rightarrow> nat" where
  "with_status status settings = length (filter (\<lambda>s. se_status s = status) settings)"

definition summarize_settings :: "intent_setting list \<Rightarrow> intent_summary" where
  "summarize_settings settings =
     (let active = active_settings settings in
      \<lparr>su_total = length settings, su_configured = with_status Configured active,
       su_notConfigured = with_status NotConfigured active, su_partial = with_status Partial active,
       su_notApplicable = with_status NotApplicable active,
       su_dismissed = length (filter (\<lambda>s. se_dismissal s \<noteq> None) settings)\<rparr>)"

definition intent_score :: "intent_setting list \<Rightarrow> int" where
  "intent_score settings =
     (let required = filter se_required (active_settings settings);
          configured = rat_of_nat (with_status Configured required);
          partly = rat_of_nat (with_status Partial required)
      in if 0 < length required
         then \<lfloor>(configured + partly * (1 / 2)) / rat_of_nat (length required) * 100 + 1 / 2\<rfloor>
         else 100)"

definition requirement_of :: "intent_setting \<Rightarrow> config_requirement" where
  "requirement_of s =
     \<lparr>rq_id = ''mapping_'' @ se_id s, rq_device = se_requiresDeviceMapping s,
      rq_message = dq @ se_name s @ dq @ '' requires a network mapping to evaluate'',
      rq_severity = (if se_severity s = CRITICAL \<or> se_severity s = HIGH then HIGH else MEDIUM)\<rparr>"

definition is_unmapped :: "intent_setting \<Rightarrow> bool" where
  "is_unmapped s \<longleftrightarrow>
     se_required s \<and> se_status s = NotConfigured \<and> se_mappedNetwork s = None \<and> se_mappedDevice s = None"

definition analyzeAgainstIntent :: "fields \<Rightarrow> full_profile \<Rightarrow> dismissal list \<Rightarrow> intent_result" where
  "analyzeAgainstIntent config p dismissals =
     (let evs = evaluations (intent_view_of config) p;
          settings = map (dismiss_setting dismissals) (concat (map fst evs));
          gaps = map (dismiss_gap dismissals) (concat (map snd evs));
          requirements = map requirement_of (filter is_unmapped (active_settings settings))
      in \<lparr>ir_compliant = (length (filter (\<lambda>g. ga_dismissal g = None) gaps) = 0), ir_score = intent_score settings,
          ir_gaps = gaps, ir_settings = settings, ir_summary = summarize_settings settings,
          ir_configRequirements = (if 0 < length requirements then Some requirements else None)\<rparr>)"

section \<open>Summary and score\<close>

lemmas evaluation_defs =
  work_vlan_def work_vpn_def server_vlan_def iot_vlan_def iot_internet_def nas_access_def unmapped_nas_def mapped_nas_def
  guest_wifi_def guest_isolation_def guest_firewall_def guest_bandwidth_def intervlan_deny_def dns_filtering_def
  malware_blocking_def wlan_security_def network_segmentation_def trusted_network_def only_setting_def

definition single :: "evaluation \<Rightarrow> bool" where
  "single e \<longleftrightarrow> length (fst e) = 1"

lemma single_simps [simp]:
  "single (only_setting s)" "single (work_vlan v p m)" "single (iot_vlan v m)" "single (iot_internet v p)"
  "single (guest_wifi v m)" "single (guest_firewall v m)" "single (intervlan_deny v)" "single (dns_filtering v p)"
  "single (wlan_security v)" "single (network_segmentation v)"
  by (simp_all add: single_def evaluation_defs Let_def)

lemma single_nas [simp]: "single (nas_access v p m)"
  by (simp add: single_def nas_access_def unmapped_nas_def mapped_nas_def Let_def split: option.split)

lemma evaluations_single: "e \<in> set (evaluations v p) \<Longrightarrow> single e"
  by (auto simp: evaluations_def work_part_def device_part_def guest_part_def security_part_def Let_def split: if_splits)

lemma evaluations_bound: "length (evaluations v p) \<le> 17"
  by (simp add: evaluations_def work_part_def device_part_def guest_part_def security_part_def Let_def)

lemma settings_bound: "length (concat (map fst (evaluations v p))) \<le> 17"
proof -
  have "length (concat (map fst es)) = length es" if "\<forall>e \<in> set es. single e" for es :: "evaluation list"
    using that by (induction es) (auto simp: single_def)
  then show ?thesis using evaluations_single evaluations_bound by metis
qed

text \<open>Identifier, necessity and status of each setting, and when there is a gap.\<close>

definition brief :: "intent_setting \<Rightarrow> string \<times> bool \<times> setting_status" where
  "brief s = (se_id s, se_required s, se_status s)"

lemma brief_setting [simp]:
  "brief (setting i cat nm d r st sev) = (i, r, st)"
  "brief (s\<lparr>se_currentValue := a\<rparr>) = brief s" "brief (s\<lparr>se_expectedValue := b\<rparr>) = brief s"
  "brief (s\<lparr>se_mappedNetwork := c\<rparr>) = brief s" "brief (s\<lparr>se_mappedDevice := dv\<rparr>) = brief s"
  "brief (s\<lparr>se_remediation := e\<rparr>) = brief s" "brief (s\<lparr>se_requiresDeviceMapping := f\<rparr>) = brief s"
  "brief (s\<lparr>se_dismissal := g\<rparr>) = brief s"
  by (simp_all add: brief_def setting_def)

definition briefs_of :: "evaluation \<Rightarrow> (string \<times> bool \<times> setting_status) list" where
  "briefs_of e = map brief (fst e)"

definition network_of :: "intent_view \<Rightarrow> string option \<Rightarrow> string list \<Rightarrow> setting_status" where
  "network_of v i words = by_isolation (findNetwork v i words) (isNetworkIsolated (findNetwork v i words))"

lemma brief_work [simp]:
  "briefs_of (work_vlan v p m) = [(''work_vlan'', True, network_of v (nm_work m) [''work'', ''office'', ''business''])]"
  "brief (work_vpn p) = (''work_vpn'', False, if fp_workVpn p then Configured else NotApplicable)"
  "brief (server_vlan v m) = (''server_vlan'', True, network_of v (nm_server m) [''server'', ''dmz'', ''services''])"
  by (simp_all add: briefs_of_def work_vlan_def work_vpn_def server_vlan_def Let_def network_of_def)

lemma brief_iot [simp]:
  "briefs_of (iot_vlan v m) =
     [(''iot_vlan'', True, network_of v (nm_iot m) [''iot'', ''smart'', ''devices'', ''things''])]"
  "briefs_of (iot_internet v p) = [(''iot_internet'', True, configured_if (\<exists>rule \<in> set (iv_rules v). restricts_iot rule))]"
  by (simp_all add: briefs_of_def iot_vlan_def iot_internet_def Let_def network_of_def)

definition nas_ok :: "intent_view \<Rightarrow> full_profile \<Rightarrow> bool" where
  "nas_ok v p \<longleftrightarrow> (case sp_nasDevice p of None \<Rightarrow> False | Some device \<Rightarrow> has_nas_config v device)"

lemma brief_nas [simp]: "briefs_of (nas_access v p m) = [(''nas_access'', True, configured_if (nas_ok v p))]"
  by (cases "sp_nasDevice p")
    (simp_all add: briefs_of_def nas_access_def unmapped_nas_def mapped_nas_def nas_setting_def nas_ok_def configured_if_def Let_def)

lemma brief_guest [simp]:
  "briefs_of (guest_wifi v m) = [(''guest_network'', True, configured_if (has_guest v m))]"
  "brief (guest_isolation v m) = (''guest_isolation'', True,
     if has_guest v m then (if isNetworkIsolated (guest_network v m) then Configured else Partial) else NotConfigured)"
  "briefs_of (guest_firewall v m) = [(''guest_firewall'', True, configured_if (guest_isolated v (guest_network v m)))]"
  "brief (guest_bandwidth v) = (''guest_bandwidth'', False,
     configured_if (case guest_wlan v of None \<Rightarrow> False | Some w \<Rightarrow> truthy (get_str w ''usergroup_id'')))"
  by (simp_all add: briefs_of_def guest_wifi_def guest_isolation_def guest_firewall_def guest_bandwidth_def Let_def)

definition intervlan_ok :: "intent_view \<Rightarrow> bool" where
  "intervlan_ok v \<longleftrightarrow> (\<exists>rule \<in> set (iv_rules v). default_deny_rule rule) \<or> open_pairs v (lan_networks v) = []"

definition dns_checked :: "intent_view \<Rightarrow> full_profile \<Rightarrow> dns_status list" where
  "dns_checked v p =
     filter ds_shouldHave
       (dns_statuses v (js_trim (dflt [] (fp_dnsFilteringServerIp p))) (dflt [] (fp_dnsFilteringNetworks p)))"

definition dns_required :: "full_profile \<Rightarrow> bool" where
  "dns_required p \<longleftrightarrow> dflt [] (fp_dnsFilteringNetworks p) \<noteq> [] \<or> js_trim (dflt [] (fp_dnsFilteringServerIp p)) \<noteq> []"

definition isolated_count :: "intent_view \<Rightarrow> nat" where
  "isolated_count v = length (filter (\<lambda>n. isNetworkIsolated (Some n)) (iv_networks v))"

lemma brief_security [simp]:
  "briefs_of (intervlan_deny v) = [(''intervlan_deny'', True, configured_if (intervlan_ok v))]"
  "briefs_of (dns_filtering v p) = [(''dns_filtering'', dns_required p, dns_state (dns_checked v p))]"
  "brief malware_blocking = (''malware_blocking'', True, Partial)"
  "briefs_of (wlan_security v) = [(''wlan_security'', True, configured_if (filter is_weak_wlan (iv_wlans v) = []))]"
  "briefs_of (network_segmentation v) = [(''network_segmentation'', True,
     if 3 \<le> isolated_count v then Configured else if 1 \<le> isolated_count v then Partial else NotConfigured)]"
  "brief (trusted_network v m) = (''trusted_network'', False,
     if findNetwork v (nm_trusted m) [''main'', ''trusted'', ''home'', ''lan''] \<noteq> None then Configured else Partial)"
  by (simp_all add: briefs_of_def intervlan_deny_def dns_filtering_def malware_blocking_def wlan_security_def network_segmentation_def
      trusted_network_def Let_def intervlan_ok_def dns_checked_def dns_required_def isolated_count_def)

lemma brief_only [simp]: "briefs_of (only_setting s) = [brief s]"
  by (simp add: briefs_of_def only_setting_def)

lemma status_applicable [simp]:
  "configured_if b \<noteq> NotApplicable" "by_isolation n b \<noteq> NotApplicable" "dns_state ss \<noteq> NotApplicable"
  "network_of v i words \<noteq> NotApplicable"
  by (simp_all add: configured_if_def by_isolation_def dns_state_def Let_def network_of_def)

definition briefs :: "intent_view \<Rightarrow> full_profile \<Rightarrow> (string \<times> bool \<times> setting_status) set" where
  "briefs v p = brief ` set (concat (map fst (evaluations v p)))"

lemma briefs_concat: "briefs v p = (\<Union>e \<in> set (evaluations v p). set (briefs_of e))"
  by (auto simp: briefs_def briefs_of_def)

lemma setting_applicable:
  assumes "b \<in> briefs v p" and "fst (snd b)"
  shows "snd (snd b) \<noteq> NotApplicable"
proof -
  obtain e where e: "e \<in> set (evaluations v p)" "b \<in> set (briefs_of e)" using assms(1) unfolding briefs_concat by blast
  have "\<forall>b \<in> set (briefs_of e). fst (snd b) \<longrightarrow> snd (snd b) \<noteq> NotApplicable"
    using e(1) unfolding evaluations_def work_part_def device_part_def guest_part_def security_part_def Let_def
    by (auto split: if_splits)
  then show ?thesis using e(2) assms(2) by blast
qed

lemma brief_dismiss [simp]: "brief (dismiss_setting ds s) = brief s"
  by (simp add: dismiss_setting_def)

lemma result_settings: "ir_settings (analyzeAgainstIntent config p ds) =
    map (dismiss_setting ds) (concat (map fst (evaluations (intent_view_of config) p)))"
  by (simp add: analyzeAgainstIntent_def Let_def)

lemma status_counts:
  "length xs = with_status Configured xs + with_status NotConfigured xs + with_status Partial xs + with_status NotApplicable xs"
proof (induction xs)
  case (Cons x xs)
  then show ?case by (cases "se_status x") (simp_all add: with_status_def)
qed (simp add: with_status_def)

lemma score_value:
  fixes c q n :: nat
  defines "x \<equiv> (rat_of_nat c + rat_of_nat q * (1 / 2)) / rat_of_nat n * 100 + 1 / 2"
  assumes "c + q \<le> n" and "0 < n" and "n < 100"
  shows "0 \<le> \<lfloor>x\<rfloor>" "\<lfloor>x\<rfloor> \<le> 100" "\<lfloor>x\<rfloor> = 100 \<longleftrightarrow> c = n"
proof -
  have n: "0 < rat_of_nat n" "rat_of_nat n < 100" using assms(3,4) by simp_all
  have cq: "rat_of_nat c + rat_of_nat q \<le> rat_of_nat n" using assms(2) by (metis of_nat_add of_nat_le_iff)
  have "0 \<le> x" using n(1) by (simp add: x_def)
  then show "0 \<le> \<lfloor>x\<rfloor>" by simp
  have "rat_of_nat c + rat_of_nat q * (1 / 2) \<le> rat_of_nat n" using cq by simp
  then have "(rat_of_nat c + rat_of_nat q * (1 / 2)) / rat_of_nat n \<le> 1" using n(1) by simp
  then have "x < 101" unfolding x_def by linarith
  then show "\<lfloor>x\<rfloor> \<le> 100" by linarith
  show "\<lfloor>x\<rfloor> = 100 \<longleftrightarrow> c = n"
  proof
    assume "c = n"
    then have "q = 0" using assms(2) by simp
    then have "x = 100 + 1 / 2" using n(1) \<open>c = n\<close> by (simp add: x_def)
    then show "\<lfloor>x\<rfloor> = 100" by linarith
  next
    assume full: "\<lfloor>x\<rfloor> = 100"
    show "c = n"
    proof (rule ccontr)
      assume "c \<noteq> n"
      then have "2 * c + q \<le> 2 * n - 1" "0 < n" using assms(2,3) by simp_all
      then have "rat_of_nat (2 * c + q) \<le> rat_of_nat (2 * n - 1)" by (simp only: of_nat_le_iff)
      then have "2 * rat_of_nat c + rat_of_nat q \<le> 2 * rat_of_nat n - 1" using assms(3) by (simp add: of_nat_diff)
      then have "(rat_of_nat c + rat_of_nat q * (1 / 2)) * 100 \<le> 100 * rat_of_nat n - 50" by simp
      then have "(rat_of_nat c + rat_of_nat q * (1 / 2)) * 100 < (100 - 1 / 2) * rat_of_nat n" using n(2) by simp
      then have "(rat_of_nat c + rat_of_nat q * (1 / 2)) * 100 / rat_of_nat n < 100 - 1 / 2"
        using n(1) by (simp only: pos_divide_less_eq)
      then have "x < 100" unfolding x_def times_divide_eq_left [symmetric] by linarith
      then show False using full by linarith
    qed
  qed
qed

lemma filter_all: "length (filter p xs) = length xs \<longleftrightarrow> (\<forall>x \<in> set xs. p x)"
proof
  show "length (filter p xs) = length xs \<Longrightarrow> \<forall>x \<in> set xs. p x"
    using length_filter_less [of _ xs p] by (metis less_irrefl)
qed (simp add: filter_True)

text \<open>C24: the summary and the score of an intent analysis.  Every setting is counted once; the score lies between 0 and
  100, and it is 100 exactly when every required setting that the user has not dismissed is configured (rounding hides
  nothing).\<close>
theorem intent_score_exact:
  assumes "r = analyzeAgainstIntent config p ds"
  shows "su_total (ir_summary r) = su_configured (ir_summary r) + su_notConfigured (ir_summary r) + su_partial (ir_summary r) +
      su_notApplicable (ir_summary r) + su_dismissed (ir_summary r) \<and>
    0 \<le> ir_score r \<and> ir_score r \<le> 100 \<and>
    (ir_score r = 100 \<longleftrightarrow>
      (\<forall>s \<in> set (ir_settings r). se_required s \<and> se_dismissal s = None \<longrightarrow> se_status s = Configured))"
proof -
  let ?ss = "ir_settings r"
  let ?req = "filter se_required (active_settings ?ss)"
  have r: "ir_summary r = summarize_settings ?ss" "ir_score r = intent_score ?ss"
    by (simp_all add: assms analyzeAgainstIntent_def Let_def)
  have len: "length ?ss = length (active_settings ?ss) + length (filter (\<lambda>s. se_dismissal s \<noteq> None) ?ss)"
    unfolding active_settings_def by (rule sum_length_filter_compl [symmetric])
  have sum: "su_total (ir_summary r) = su_configured (ir_summary r) + su_notConfigured (ir_summary r) + su_partial (ir_summary r) +
      su_notApplicable (ir_summary r) + su_dismissed (ir_summary r)"
    using len status_counts [of "active_settings ?ss"] unfolding r summarize_settings_def Let_def by simp
  have "brief ` set ?ss = briefs (intent_view_of config) p"
    unfolding assms result_settings briefs_def by (simp add: image_image)
  then have app: "se_status s \<noteq> NotApplicable" if "s \<in> set ?req" for s
    using that setting_applicable [of "brief s"] by (force simp: active_settings_def brief_def)
  then have none: "with_status NotApplicable ?req = 0" by (simp add: with_status_def filter_empty_conv)
  have "length ?req \<le> length ?ss" unfolding active_settings_def by (metis length_filter_le order_trans)
  also have "\<dots> \<le> 17" using settings_bound by (simp add: assms result_settings)
  finally have small: "length ?req < 100" by simp
  have all: "with_status Configured ?req = length ?req \<longleftrightarrow> (\<forall>s \<in> set ?req. se_status s = Configured)"
    unfolding with_status_def by (rule filter_all)
  have "0 \<le> intent_score ?ss \<and> intent_score ?ss \<le> 100 \<and> (intent_score ?ss = 100 \<longleftrightarrow> (\<forall>s \<in> set ?req. se_status s = Configured))"
  proof (cases "?req = []")
    case True
    then show ?thesis by (simp add: intent_score_def)
  next
    case False
    have c: "with_status Configured ?req + with_status Partial ?req \<le> length ?req"
      using status_counts [of ?req] by simp
    have "0 < length ?req" using False by simp
    from score_value [OF c this small] show ?thesis using False unfolding intent_score_def Let_def all by simp
  qed
  then show ?thesis using sum unfolding r by (auto simp: active_settings_def)
qed

section \<open>The verdict\<close>

text \<open>Two required settings have no gap of their own: the server network, and the malware blocking that is always
  partial.  A setting is judged when it is required and is not one of them.\<close>

definition unjudged :: "string set" where
  "unjudged = {''server_vlan'', ''malware_blocking''}"

definition judged_ok :: "string \<times> bool \<times> setting_status \<Rightarrow> bool" where
  "judged_ok b \<longleftrightarrow> (fst (snd b) \<and> fst b \<notin> unjudged \<longrightarrow> snd (snd b) = Configured)"

definition ok :: "evaluation \<Rightarrow> bool" where
  "ok e \<longleftrightarrow> list_all judged_ok (briefs_of e)"

definition quiet :: "evaluation \<Rightarrow> bool" where
  "quiet e \<longleftrightarrow> snd e = []"

lemma status_configured [simp]:
  "configured_if b = Configured \<longleftrightarrow> b"
  "network_of v i words = Configured \<longleftrightarrow> isNetworkIsolated (findNetwork v i words)"
  by (auto simp: configured_if_def network_of_def by_isolation_def isNetworkIsolated_def split: option.splits)

lemma when_list_empty [simp]: "when_list b x = [] \<longleftrightarrow> \<not> b"
  by (simp add: when_list_def)

lemma quiet_only [simp]: "quiet (only_setting s)"
  by (simp add: quiet_def only_setting_def)

lemma ok_only [simp]:
  "ok (only_setting (work_vpn p))" "ok (only_setting (server_vlan v m))" "ok (only_setting (guest_bandwidth v))"
  "ok (only_setting malware_blocking)" "ok (only_setting (trusted_network v m))"
  by (simp_all add: ok_def judged_ok_def unjudged_def)

lemma ok_briefs:
  "ok (work_vlan v p m) \<longleftrightarrow> isNetworkIsolated (findNetwork v (nm_work m) [''work'', ''office'', ''business''])"
  "ok (iot_vlan v m) \<longleftrightarrow> isNetworkIsolated (findNetwork v (nm_iot m) [''iot'', ''smart'', ''devices'', ''things''])"
  "ok (iot_internet v p) \<longleftrightarrow> (\<exists>rule \<in> set (iv_rules v). restricts_iot rule)"
  "ok (nas_access v p m) \<longleftrightarrow> nas_ok v p"
  "ok (guest_wifi v m) \<longleftrightarrow> has_guest v m"
  "ok (intervlan_deny v) \<longleftrightarrow> intervlan_ok v"
  "ok (wlan_security v) \<longleftrightarrow> filter is_weak_wlan (iv_wlans v) = []"
  "ok (network_segmentation v) \<longleftrightarrow> 3 \<le> isolated_count v"
  by (simp_all add: ok_def judged_ok_def unjudged_def)

lemma quiet_gaps:
  "quiet (work_vlan v p m) \<longleftrightarrow> isNetworkIsolated (findNetwork v (nm_work m) [''work'', ''office'', ''business''])"
  "quiet (iot_vlan v m) \<longleftrightarrow> isNetworkIsolated (findNetwork v (nm_iot m) [''iot'', ''smart'', ''devices'', ''things''])"
  "quiet (iot_internet v p) \<longleftrightarrow> (\<exists>rule \<in> set (iv_rules v). restricts_iot rule)"
  "quiet (guest_wifi v m) \<longleftrightarrow> has_guest v m"
  "quiet (intervlan_deny v) \<longleftrightarrow> intervlan_ok v"
  "quiet (wlan_security v) \<longleftrightarrow> filter is_weak_wlan (iv_wlans v) = []"
  "quiet (network_segmentation v) \<longleftrightarrow> 3 \<le> isolated_count v"
  unfolding quiet_def work_vlan_def iot_vlan_def iot_internet_def guest_wifi_def intervlan_deny_def wlan_security_def
    network_segmentation_def Let_def snd_conv when_list_empty intervlan_ok_def isolated_count_def
  by auto

lemma quiet_nas: "quiet (nas_access v p m) \<longleftrightarrow> nas_ok v p"
proof (cases "sp_nasDevice p")
  case None
  then show ?thesis unfolding quiet_def nas_access_def unmapped_nas_def nas_ok_def Let_def by simp
next
  case (Some device)
  then show ?thesis
    unfolding quiet_def nas_access_def mapped_nas_def nas_ok_def Let_def Some option.case snd_conv when_list_empty by blast
qed

lemma ok_quiet [simp]:
  "ok (work_vlan v p m) \<longleftrightarrow> quiet (work_vlan v p m)" "ok (iot_vlan v m) \<longleftrightarrow> quiet (iot_vlan v m)"
  "ok (iot_internet v p) \<longleftrightarrow> quiet (iot_internet v p)" "ok (nas_access v p m) \<longleftrightarrow> quiet (nas_access v p m)"
  "ok (guest_wifi v m) \<longleftrightarrow> quiet (guest_wifi v m)" "ok (intervlan_deny v) \<longleftrightarrow> quiet (intervlan_deny v)"
  "ok (wlan_security v) \<longleftrightarrow> quiet (wlan_security v)"
  "ok (network_segmentation v) \<longleftrightarrow> quiet (network_segmentation v)"
  by (simp_all only: ok_briefs quiet_gaps quiet_nas)

lemma ok_guest_briefs:
  "ok (only_setting (guest_isolation v m)) \<longleftrightarrow> has_guest v m \<and> isNetworkIsolated (guest_network v m)"
  "ok (guest_firewall v m) \<longleftrightarrow> guest_isolated v (guest_network v m)"
  by (simp_all add: ok_def judged_ok_def unjudged_def)

lemma quiet_guest:
  "quiet (guest_firewall v m) \<longleftrightarrow> isNetworkIsolated (guest_network v m) \<and> guest_isolated v (guest_network v m)"
  unfolding quiet_def guest_firewall_def Let_def snd_conv when_list_empty by blast

lemma ok_guest:
  "ok (only_setting (guest_isolation v m)) \<and> ok (guest_firewall v m) \<longleftrightarrow> quiet (guest_firewall v m)"
proof -
  have "has_guest v m" if "isNetworkIsolated (guest_network v m)"
    using that by (auto simp: has_guest_def isNetworkIsolated_def split: option.splits)
  then show ?thesis unfolding ok_guest_briefs quiet_guest by blast
qed

lemma matching_status: "dns_status_of userDns specified n = Some s \<Longrightarrow> ds_matchesUser s \<Longrightarrow> ds_hasFiltering s"
  unfolding dns_status_of_def Let_def by (simp split: if_split_asm) (metis dns_status.select_convs(3,5) option.inject)+

lemma matches_filter: "s \<in> set (dns_checked v p) \<Longrightarrow> ds_matchesUser s \<Longrightarrow> ds_hasFiltering s"
  by (auto simp: dns_checked_def dns_statuses_def dest: matching_status [OF sym] split: option.splits)

lemma quiet_dns:
  assumes "quiet (dns_filtering v p)"
  shows "ok (dns_filtering v p)"
proof -
  define checked where "checked = dns_checked v p"
  let ?user = "js_trim (dflt [] (fp_dnsFilteringServerIp p))"
  have quiet: "\<not> (dns_state checked = NotConfigured \<or>
      (dflt [] (fp_dnsFilteringNetworks p) \<noteq> [] \<and> filter (\<lambda>s. \<not> ds_hasFiltering s) checked \<noteq> []) \<or>
      (?user \<noteq> [] \<and> length (filter ds_matchesUser checked) < length checked))"
    using assms unfolding quiet_def dns_filtering_def Let_def checked_def dns_checked_def by simp
  have "dns_state checked = Configured" if "dns_required p"
  proof -
    have "filter (\<lambda>s. \<not> ds_hasFiltering s) checked = []"
    proof (cases "dflt [] (fp_dnsFilteringNetworks p) = []")
      case True
      then have "?user \<noteq> []" using that by (simp add: dns_required_def)
      then have "length (filter ds_matchesUser checked) = length checked"
        using quiet length_filter_le [of ds_matchesUser checked] by linarith
      then have "\<forall>s \<in> set checked. ds_matchesUser s" by (simp only: filter_all)
      then show ?thesis using matches_filter unfolding checked_def filter_empty_conv by blast
    next
      case False
      then show ?thesis using quiet by blast
    qed
    then show ?thesis using quiet by (cases "checked = []") (simp_all add: dns_state_def Let_def)
  qed
  then show ?thesis by (simp add: ok_def judged_ok_def checked_def)
qed

lemma ball_if: "(\<forall>e \<in> set (if b then xs else []). Q e) \<longleftrightarrow> (b \<longrightarrow> (\<forall>e \<in> set xs. Q e))"
  by (cases b) simp_all

lemmas ball_part = ball_if set_append ball_Un list.set ball_simps(5) ball_simps(7)

lemma parts_ok:
  "(\<forall>e \<in> set (work_part v p m). ok e) \<longleftrightarrow> (\<forall>e \<in> set (work_part v p m). quiet e)"
  "(\<forall>e \<in> set (device_part v p m). ok e) \<longleftrightarrow> (\<forall>e \<in> set (device_part v p m). quiet e)"
  "(\<forall>e \<in> set (guest_part v p m). ok e) \<longleftrightarrow> (\<forall>e \<in> set (guest_part v p m). quiet e)"
  using ok_guest [of v m]
  by (auto simp only: work_part_def device_part_def guest_part_def ball_part ok_quiet ok_only quiet_only)

lemma security_ok:
  "(\<forall>e \<in> set (security_part v p m). quiet e) \<Longrightarrow> (\<forall>e \<in> set (security_part v p m). ok e)"
  "\<not> fp_dnsFiltering p \<Longrightarrow> (\<forall>e \<in> set (security_part v p m). ok e) \<Longrightarrow> (\<forall>e \<in> set (security_part v p m). quiet e)"
  using quiet_dns [of v p] by (auto simp only: security_part_def ball_part ok_quiet ok_only quiet_only)

lemma evaluations_ok:
  "(\<forall>e \<in> set (evaluations v p). quiet e) \<Longrightarrow> (\<forall>e \<in> set (evaluations v p). ok e)"
  "\<not> fp_dnsFiltering p \<Longrightarrow> (\<forall>e \<in> set (evaluations v p). ok e) \<Longrightarrow> (\<forall>e \<in> set (evaluations v p). quiet e)"
proof -
  define m where "m = dflt no_mappings (ip_networkMappings p)"
  have split: "(\<forall>e \<in> set (evaluations v p). Q e) \<longleftrightarrow> (\<forall>e \<in> set (work_part v p m). Q e) \<and> (\<forall>e \<in> set (device_part v p m). Q e) \<and>
      (\<forall>e \<in> set (guest_part v p m). Q e) \<and> (\<forall>e \<in> set (security_part v p m). Q e)" for Q
    by (simp add: evaluations_def Let_def m_def ball_Un)
  show "(\<forall>e \<in> set (evaluations v p). quiet e) \<Longrightarrow> (\<forall>e \<in> set (evaluations v p). ok e)"
    unfolding split parts_ok using security_ok(1) by blast
  show "\<not> fp_dnsFiltering p \<Longrightarrow> (\<forall>e \<in> set (evaluations v p). ok e) \<Longrightarrow> (\<forall>e \<in> set (evaluations v p). quiet e)"
    unfolding split parts_ok using security_ok(2) by blast
qed

lemma nothing_dismissed [simp]:
  "dismissal_of [] i = None" "ga_dismissal g = None \<Longrightarrow> ga_dismissal (dismiss_gap [] g) = None"
  by (simp_all add: dismissal_of_def dismissalMap_def om_of_def dismiss_gap_def split: option.split)

lemma result_compliant: "ir_compliant (analyzeAgainstIntent config p ds) \<longleftrightarrow>
    (\<forall>g \<in> set (concat (map snd (evaluations (intent_view_of config) p))). ga_dismissal (dismiss_gap ds g) \<noteq> None)"
  by (simp add: analyzeAgainstIntent_def Let_def filter_empty_conv)

definition fresh :: "evaluation \<Rightarrow> bool" where
  "fresh e \<longleftrightarrow> list_all (\<lambda>g. ga_dismissal g = None) (snd e)"

lemma fresh_only [simp]: "fresh (only_setting s)"
  by (simp add: fresh_def only_setting_def)

lemma fresh_when: "list_all (\<lambda>g. ga_dismissal g = None) (when_list b (gap i r s t))"
  by (simp add: when_list_def gap_def)

lemma fresh_gaps [simp]:
  "fresh (work_vlan v p m)" "fresh (iot_vlan v m)" "fresh (iot_internet v p)" "fresh (guest_wifi v m)" "fresh (guest_firewall v m)"
  "fresh (intervlan_deny v)" "fresh (dns_filtering v p)" "fresh (wlan_security v)" "fresh (network_segmentation v)"
  unfolding fresh_def work_vlan_def iot_vlan_def iot_internet_def guest_wifi_def guest_firewall_def intervlan_deny_def
    dns_filtering_def wlan_security_def network_segmentation_def Let_def snd_conv
  by (rule fresh_when)+

lemma fresh_nas [simp]: "fresh (nas_access v p m)"
proof (cases "sp_nasDevice p")
  case None
  then show ?thesis unfolding fresh_def nas_access_def unmapped_nas_def gap_def Let_def by simp
next
  case (Some device)
  then show ?thesis
    by (simp only: fresh_def nas_access_def mapped_nas_def Let_def option.case snd_conv fresh_when)
qed

lemma evaluations_fresh: "e \<in> set (evaluations v p) \<Longrightarrow> fresh e"
  by (auto simp: evaluations_def work_part_def device_part_def guest_part_def security_part_def Let_def split: if_splits)

lemma compliant_quiet:
  "ir_compliant (analyzeAgainstIntent config p []) \<longleftrightarrow> (\<forall>e \<in> set (evaluations (intent_view_of config) p). quiet e)"
proof -
  have "ga_dismissal (dismiss_gap [] g) = None" if "e \<in> set (evaluations (intent_view_of config) p)" "g \<in> set (snd e)" for e g
    using evaluations_fresh [OF that(1)] that(2) by (simp add: fresh_def list_all_iff)
  then have "ir_compliant (analyzeAgainstIntent config p []) \<longleftrightarrow>
      (\<forall>e \<in> set (evaluations (intent_view_of config) p). set (snd e) = {})"
    unfolding result_compliant by fastforce
  then show ?thesis by (simp add: quiet_def)
qed

lemma settings_ok:
  "(\<forall>s \<in> set (ir_settings (analyzeAgainstIntent config p ds)). judged_ok (brief s)) \<longleftrightarrow>
   (\<forall>e \<in> set (evaluations (intent_view_of config) p). ok e)"
  by (auto simp: result_settings ok_def briefs_of_def list_all_iff)

text \<open>C22: the verdict of an intent analysis.  With nothing dismissed, a compliant verdict means that every required
  setting is configured, apart from the server network and the malware blocking, for which the analyzer reports no gap;
  and unless the profile asks for DNS filtering, the converse holds as well.\<close>
theorem compliance_verdict:
  assumes "r = analyzeAgainstIntent config p []"
  shows "(ir_compliant r \<longrightarrow> (\<forall>s \<in> set (ir_settings r). se_required s \<and>
            se_id s \<noteq> ''server_vlan'' \<and> se_id s \<noteq> ''malware_blocking'' \<longrightarrow> se_status s = Configured)) \<and>
    (\<not> fp_dnsFiltering p \<longrightarrow>
       (\<forall>s \<in> set (ir_settings r). se_required s \<and>
          se_id s \<noteq> ''server_vlan'' \<and> se_id s \<noteq> ''malware_blocking'' \<longrightarrow> se_status s = Configured) \<longrightarrow>
       ir_compliant r)"
proof -
  have judged: "judged_ok (brief s) \<longleftrightarrow>
      (se_required s \<and> se_id s \<noteq> ''server_vlan'' \<and> se_id s \<noteq> ''malware_blocking'' \<longrightarrow> se_status s = Configured)" for s
    by (simp add: judged_ok_def brief_def unjudged_def)
  show ?thesis
    unfolding judged [symmetric] assms settings_ok compliant_quiet
    using evaluations_ok [where v = "intent_view_of config" and p = p] by blast
qed

section \<open>Witnesses\<close>

definition demo_profile :: full_profile where
  "demo_profile =
     \<lparr>ip_workFromHome = False, ip_workDeviceIsolation = False, ip_workIsolationMode = None, ip_hasIoT = False,
      ip_iotIsolation = False, ip_hasNAS = False, ip_nasAccessibleFrom = NasAll, ip_homeServer = False,
      ip_guestNetwork = True, ip_guestIsolation = False, ip_interVlanDefault = AllowAll, ip_reachabilityOverrides = None,
      ip_networkMappings = None, sp_nasDevice = None, sp_serverDevice = None, fp_workVpn = False, fp_iotInternetAccess = AccessFull,
      fp_guestBandwidthLimit = False, fp_securityLevel = SecBalanced, fp_dnsFiltering = False, fp_dnsFilteringNetworks = None,
      fp_dnsFilteringServerIp = None, fp_malwareBlocking = False\<rparr>"

text \<open>A configuration with one wireless network for guests.\<close>

definition demo_config :: fields where
  "demo_config = [(''wlans'', JArr [JObj [(''name'', JStr ''Guest''), (''is_guest'', JBool True)]])]"

lemma demo_settings: "map brief (ir_settings (analyzeAgainstIntent demo_config demo_profile [])) =
    [(''guest_network'', True, Configured), (''trusted_network'', False, Partial)]"
  by code_simp

lemma demo_empty_settings: "map brief (ir_settings (analyzeAgainstIntent [] demo_profile [])) =
    [(''guest_network'', True, NotConfigured), (''trusted_network'', False, Partial)]"
  by code_simp

lemma all_of_briefs: "(\<forall>s \<in> set ss. P (se_id s) (se_required s) (se_status s)) \<longleftrightarrow> (\<forall>(i, r, st) \<in> set (map brief ss). P i r st)"
  by (auto simp: brief_def)

theorem compliance_verdict_witness:
  "ir_compliant (analyzeAgainstIntent demo_config demo_profile []) \<and> \<not> ir_compliant (analyzeAgainstIntent [] demo_profile [])"
proof
  have *: "\<forall>s \<in> set (ir_settings (analyzeAgainstIntent demo_config demo_profile [])).
      se_required s \<and> se_id s \<noteq> ''server_vlan'' \<and> se_id s \<noteq> ''malware_blocking'' \<longrightarrow> se_status s = Configured"
    by (subst all_of_briefs) (simp add: demo_settings)
  have "\<not> fp_dnsFiltering demo_profile" by (simp add: demo_profile_def)
  from compliance_verdict [OF refl, THEN conjunct2, rule_format, OF this] *
  show "ir_compliant (analyzeAgainstIntent demo_config demo_profile [])" by blast
  have "\<not> (\<forall>s \<in> set (ir_settings (analyzeAgainstIntent [] demo_profile [])).
      se_required s \<and> se_id s \<noteq> ''server_vlan'' \<and> se_id s \<noteq> ''malware_blocking'' \<longrightarrow> se_status s = Configured)"
    by (subst all_of_briefs) (simp add: demo_empty_settings)
  then show "\<not> ir_compliant (analyzeAgainstIntent [] demo_profile [])"
    using compliance_verdict [OF refl, THEN conjunct1] by blast
qed

lemma no_dismissals [simp]: "s \<in> set (ir_settings (analyzeAgainstIntent config p [])) \<Longrightarrow> se_dismissal s = None"
  by (auto simp: result_settings dismiss_setting_def)

theorem intent_score_exact_witness:
  "ir_score (analyzeAgainstIntent demo_config demo_profile []) = 100 \<and> ir_score (analyzeAgainstIntent [] demo_profile []) \<noteq> 100"
proof
  have exact: "ir_score (analyzeAgainstIntent config demo_profile []) = 100 \<longleftrightarrow>
      (\<forall>s \<in> set (ir_settings (analyzeAgainstIntent config demo_profile [])). se_required s \<longrightarrow> se_status s = Configured)" for config
    using intent_score_exact [OF refl, of config demo_profile "[]"] by auto
  show "ir_score (analyzeAgainstIntent demo_config demo_profile []) = 100"
    unfolding exact by (subst all_of_briefs) (simp add: demo_settings)
  show "ir_score (analyzeAgainstIntent [] demo_profile []) \<noteq> 100"
    unfolding exact by (subst all_of_briefs) (simp add: demo_empty_settings)
qed

section \<open>The link from a gap to its setting\<close>

text \<open>The word ''network'' contains ''work'': the gaps about the isolation of the IoT devices and of the guest network are
  linked to the setting of the work network, so a user who dismisses that setting dismisses them as well.\<close>
lemma first_gap_word:
  assumes "str_includes ''work'' (to_lower intent)" and "str_includes ''isolat'' (to_lower intent)"
  shows "settingIdForGap (gap intent r s t) = Some ''work_vlan''"
  using assms by (simp add: settingIdForGap_def gap_words_def gap_def Let_def del: str_includes.simps)

lemma isolation_gaps_named_work:
  "settingIdForGap (gap ''IoT devices should be isolated from the main network'' r s t) = Some ''work_vlan''"
  "settingIdForGap (gap ''Guest network should be completely isolated from internal devices'' r s t) = Some ''work_vlan''"
  by (rule first_gap_word, code_simp, code_simp)+

lemma dismissed_work_hides_iot:
  assumes "di_findingId d = ''work_vlan''"
  shows "ga_dismissal (dismiss_gap [d] (gap ''IoT devices should be isolated from the main network'' r s t)) =
    Some (di_id d, di_reason d)"
  by (simp add: dismiss_gap_def isolation_gaps_named_work dismissal_of_def dismissalMap_def om_of_def om_get_def assms)

text \<open>The same word is looked for in the names of the networks: without a mapping, the first network called a network of
  any kind, such as ''IoT Network'', is taken for the work network.\<close>
lemma any_network_is_work:
  assumes "iv_networks v = n # rest" and "str_includes ''network'' (to_lower (it_name n))"
  shows "findNetwork v None [''work'', ''office'', ''business''] = Some n"
proof -
  obtain a b where "to_lower (it_name n) = a @ ''network'' @ b" using assms(2) unfolding includes_iff by blast
  then have "to_lower (it_name n) = (a @ ''net'') @ ''work'' @ b" by simp
  then have "str_includes ''work'' (to_lower (it_name n))" unfolding includes_iff by blast
  moreover have "to_lower ''work'' = ''work''" by code_simp
  ultimately show ?thesis by (simp add: findNetwork_def assms(1) truthy_def)
qed

text \<open>The inter-VLAN setting is configured exactly when a rule denies everything or every two LAN networks are blocked in
  both directions.\<close>
lemma open_pairs_empty:
  "open_pairs v ns = [] \<longleftrightarrow> (\<forall>i j. i < j \<and> j < length ns \<longrightarrow> \<not> open_pair v (ns ! i) (ns ! j))"
proof (induction ns)
  case (Cons a rest)
  have "open_pairs v (a # rest) = [] \<longleftrightarrow> (\<forall>j < length rest. \<not> open_pair v a (rest ! j)) \<and> open_pairs v rest = []"
    by (auto simp: filter_empty_conv all_set_conv_all_nth)
  also have "\<dots> \<longleftrightarrow> (\<forall>i j. i < j \<and> j < length (a # rest) \<longrightarrow> \<not> open_pair v ((a # rest) ! i) ((a # rest) ! j))"
    (is "_ \<longleftrightarrow> ?all")
  proof
    assume *: "(\<forall>j < length rest. \<not> open_pair v a (rest ! j)) \<and> open_pairs v rest = []"
    show ?all
    proof (intro allI impI)
      fix i j assume ij: "i < j \<and> j < length (a # rest)"
      then obtain k where "j = Suc k" "k < length rest" by (cases j) auto
      then show "\<not> open_pair v ((a # rest) ! i) ((a # rest) ! j)" using * ij Cons.IH by (cases i) auto
    qed
  next
    assume all: ?all
    have "\<not> open_pair v a (rest ! j)" if "j < length rest" for j using that spec2 [OF all, of 0 "Suc j"] by simp
    moreover have "\<not> open_pair v (rest ! i) (rest ! j)" if "i < j \<and> j < length rest" for i j
      using that spec2 [OF all, of "Suc i" "Suc j"] by simp
    ultimately show "(\<forall>j < length rest. \<not> open_pair v a (rest ! j)) \<and> open_pairs v rest = []" using Cons.IH by blast
  qed
  finally show ?case .
qed simp

end
