(* ===== verification/Js_Double.thy ===== *)
theory Js_Double
  imports Js_Number "HOL-Library.Log_Nat"
begin

text \<open>
  The numbers of JavaScript are doubles: a sum or a number read from a text is the nearest multiple of a power of two
  with a significand of 53 bits, ties going to the even significand.  The value of a double is a rational; a value
  too large is an infinity.  Only what the port ranges need is proved: which integers are exact, how far a sum can be off, and
  where adding one has no effect any more.
\<close>

section \<open>Rounding\<close>

definition round_even :: "rat \<Rightarrow> int" where
  "round_even x =
     (let n = \<lfloor>x\<rfloor>; d = x - of_int n in
      if d < 1 / 2 then n else if 1 / 2 < d then n + 1 else if even n then n else n + 1)"

text \<open>The smallest positive double is \<open>2 ^ -1074\<close>.  In multiples of it, a value with \<open>b\<close> bits before the point
  keeps the first 53 of them; a smaller one keeps them all.\<close>

definition min_exp :: nat where
  "min_exp = 1074"

definition top_exp :: nat where
  "top_exp = 1024 + min_exp"

definition ulp_exp :: "rat \<Rightarrow> nat" where
  "ulp_exp y = floorlog 2 (nat \<lfloor>y\<rfloor>) - 53"

definition round_bits :: "rat \<Rightarrow> int" where
  "round_bits y = round_even (y / 2 ^ ulp_exp y) * 2 ^ ulp_exp y"

definition to_double :: "rat \<Rightarrow> js_num" where
  "to_double x =
     (let m = round_bits (\<bar>x\<bar> * 2 ^ min_exp) in
      if 2 ^ top_exp \<le> m then Inf (x < 0)
      else Fin ((if x < 0 then - of_int m else of_int m) / 2 ^ min_exp))"

fun js_round :: "js_num \<Rightarrow> js_num" where
  "js_round (Fin x) = to_double x"
| "js_round n = n"

section \<open>The rounded significand\<close>

lemma round_even_int [simp]: "round_even (of_int n) = n"
  by (simp add: round_even_def Let_def)

lemma round_even_bounds: "of_int (round_even x) \<le> x + 1 / 2" "x - 1 / 2 \<le> of_int (round_even x)"
proof -
  define n where "n = \<lfloor>x\<rfloor>"
  have "of_int n \<le> x" "x < of_int n + 1" unfolding n_def by linarith+
  then show "of_int (round_even x) \<le> x + 1 / 2" "x - 1 / 2 \<le> of_int (round_even x)"
    unfolding round_even_def n_def [symmetric] Let_def by (simp_all split: if_split)
qed

lemma round_even_le: "x \<le> of_int m \<Longrightarrow> round_even x \<le> m"
proof -
  assume "x \<le> of_int m"
  then have "of_int (round_even x) \<le> (of_int m + 1 / 2 :: rat)" using round_even_bounds(1) [of x] by linarith
  then show ?thesis by linarith
qed

lemma round_even_ge: "of_int m \<le> x \<Longrightarrow> m \<le> round_even x"
proof -
  assume "of_int m \<le> x"
  then have "of_int m - 1 / 2 \<le> (of_int (round_even x) :: rat)" using round_even_bounds(2) [of x] by linarith
  then show ?thesis by linarith
qed

lemma round_even_near: "of_int m \<le> x \<Longrightarrow> x < of_int m + 1 / 2 \<Longrightarrow> round_even x = m"
proof -
  assume a: "of_int m \<le> x" "x < of_int m + 1 / 2"
  then have "\<lfloor>x\<rfloor> = m" by (intro floor_unique) linarith+
  then show ?thesis using a by (simp add: round_even_def Let_def)
qed

lemma round_even_tie: "round_even (of_int m + 1 / 2) = (if even m then m else m + 1)"
proof -
  have "\<lfloor>of_int m + 1 / 2 :: rat\<rfloor> = m" by (rule floor_unique) simp_all
  then show ?thesis by (simp add: round_even_def Let_def)
qed

section \<open>The unit of a value\<close>

lemma floor_nat_less: "0 \<le> y \<Longrightarrow> nat \<lfloor>y\<rfloor> < 2 ^ n \<longleftrightarrow> y < 2 ^ n"
  for y :: rat
proof -
  assume "0 \<le> y"
  then have "nat \<lfloor>y\<rfloor> < 2 ^ n \<longleftrightarrow> \<lfloor>y\<rfloor> < 2 ^ n" by (simp add: nat_less_iff)
  also have "\<dots> \<longleftrightarrow> y < of_int (2 ^ n)" by (rule floor_less_iff)
  finally show ?thesis by simp
qed

lemma ulp_exp_le: "0 \<le> y \<Longrightarrow> ulp_exp y \<le> k \<longleftrightarrow> y < 2 ^ (53 + k)"
  using floor_nat_less [of y "53 + k"] by (simp add: ulp_exp_def floorlog_le_iff le_diff_conv add.commute)

lemma below_power: "0 \<le> y \<Longrightarrow> y < 2 ^ (53 + ulp_exp y)"
  using ulp_exp_le [of y "ulp_exp y"] by simp

lemma above_power: "0 \<le> y \<Longrightarrow> 0 < ulp_exp y \<Longrightarrow> 2 ^ (52 + ulp_exp y) \<le> y"
  using ulp_exp_le [of y "ulp_exp y - 1"] by (cases "ulp_exp y") (auto simp: not_le not_less)

lemma ulp_exp_eq: "2 ^ (52 + k) \<le> y \<Longrightarrow> y < 2 ^ (53 + k) \<Longrightarrow> ulp_exp y = k"
proof -
  assume a: "2 ^ (52 + k) \<le> y" "y < 2 ^ (53 + k)"
  have "0 \<le> y" using a(1) by (meson order_trans zero_le_numeral zero_le_power)
  moreover from this have "\<not> ulp_exp y \<le> k - 1" if "0 < k" using that a(1) ulp_exp_le [of y "k - 1"] by simp
  ultimately show ?thesis using a(2) ulp_exp_le [of y k] by (cases k) auto
qed

lemma ulp_mono: "0 \<le> x \<Longrightarrow> x \<le> y \<Longrightarrow> ulp_exp x \<le> ulp_exp y"
  using below_power [of y] ulp_exp_le [of x "ulp_exp y"] by linarith

lemma round_le: "y \<le> of_int (m * 2 ^ ulp_exp y) \<Longrightarrow> round_bits y \<le> m * 2 ^ ulp_exp y"
  unfolding round_bits_def by (intro mult_right_mono round_even_le) (simp_all add: divide_le_eq)

lemma round_ge: "of_int (m * 2 ^ ulp_exp y) \<le> y \<Longrightarrow> m * 2 ^ ulp_exp y \<le> round_bits y"
  unfolding round_bits_def by (intro mult_right_mono round_even_ge) (simp_all add: le_divide_eq)

lemma round_exact: "y = of_int (m * 2 ^ ulp_exp y) \<Longrightarrow> round_bits y = m * 2 ^ ulp_exp y"
  by (rule antisym; rule round_le round_ge) simp_all

lemma round_error: "\<bar>of_int (round_bits y) - y\<bar> \<le> 2 ^ ulp_exp y / 2"
proof -
  let ?u = "2 ^ ulp_exp y :: rat" and ?r = "of_int (round_even (y / 2 ^ ulp_exp y)) :: rat"
  have "\<bar>?r - y / ?u\<bar> \<le> 1 / 2" using round_even_bounds [of "y / ?u"] by linarith
  then have "\<bar>?r - y / ?u\<bar> * ?u \<le> 1 / 2 * ?u" by (rule mult_right_mono) simp
  moreover have "\<bar>?r - y / ?u\<bar> * ?u = \<bar>?r * ?u - y\<bar>"
    by (subst (2) abs_of_pos [of ?u, symmetric]) (simp, simp only: abs_mult [symmetric], simp add: left_diff_distrib)
  ultimately show ?thesis by (simp add: round_bits_def)
qed

lemma round_nonneg: "0 \<le> y \<Longrightarrow> 0 \<le> round_bits y"
  using round_ge [of 0 y] by simp

text \<open>The result of rounding has a significand of at most 53 bits.\<close>

definition short :: "int \<Rightarrow> bool" where
  "short y \<longleftrightarrow> (\<exists>m k. y = m * 2 ^ k \<and> 0 \<le> m \<and> m \<le> 2 ^ 53)"

lemma round_short: "0 \<le> y \<Longrightarrow> short (round_bits y)"
proof -
  assume y: "0 \<le> y"
  have "y / 2 ^ ulp_exp y \<le> of_int (2 ^ 53)" using below_power [OF y] by (simp add: divide_le_eq power_add)
  then have "round_even (y / 2 ^ ulp_exp y) \<le> 2 ^ 53" by (rule round_even_le)
  moreover have "0 \<le> round_even (y / 2 ^ ulp_exp y)" using y by (intro round_even_ge) simp
  ultimately show ?thesis unfolding short_def round_bits_def by blast
qed

text \<open>Such a number is a multiple of its own unit.\<close>

lemma short_multiple:
  assumes "short y"
  shows "2 ^ ulp_exp (of_int y) dvd y"
proof -
  obtain m k where y: "y = m * 2 ^ k" "0 \<le> m" "m \<le> 2 ^ 53" using assms by (auto simp: short_def)
  have pos: "0 \<le> (of_int y :: rat)" using y by simp
  show ?thesis
  proof (cases "m = 2 ^ 53")
    case True
    then have "y = 2 ^ (53 + k)" by (simp add: y(1) power_add)
    then have "ulp_exp (of_int y) = Suc k" by (intro ulp_exp_eq) simp_all
    then show ?thesis unfolding \<open>y = 2 ^ (53 + k)\<close> by (simp add: le_imp_power_dvd del: power_Suc)
  next
    case False
    then have "m < 2 ^ 53" using y(3) by simp
    then have "y < 2 ^ (53 + k)" by (simp add: y(1) power_add)
    then have "(of_int y :: rat) < of_int (2 ^ (53 + k))" by (simp only: of_int_less_iff)
    then have "ulp_exp (of_int y) \<le> k" using ulp_exp_le [OF pos] by simp
    then have "(2 :: int) ^ ulp_exp (of_int y) dvd 2 ^ k" by (rule le_imp_power_dvd)
    then show ?thesis unfolding y(1) by (rule dvd_mult)
  qed
qed

section \<open>Values of doubles\<close>

definition is_double :: "rat \<Rightarrow> bool" where
  "is_double a \<longleftrightarrow> (\<exists>y. short y \<and> y < 2 ^ top_exp \<and> a = of_int y / 2 ^ min_exp)"

lemma to_double_nonneg:
  "0 \<le> x \<Longrightarrow> to_double x = (if 2 ^ top_exp \<le> round_bits (x * 2 ^ min_exp) then Inf False
     else Fin (of_int (round_bits (x * 2 ^ min_exp)) / 2 ^ min_exp))"
  by (simp add: to_double_def Let_def)

lemma to_double_is_double: "0 \<le> x \<Longrightarrow> to_double x = Fin a \<Longrightarrow> is_double a \<and> 0 \<le> a"
  using round_short [of "x * 2 ^ min_exp"] round_nonneg [of "x * 2 ^ min_exp"]
  by (auto simp: to_double_nonneg is_double_def not_le split: if_splits)

lemma to_double_pos: "0 \<le> x \<Longrightarrow> to_double x = Inf False \<or> (\<exists>a. to_double x = Fin a \<and> 0 \<le> a)"
  using round_nonneg [of "x * 2 ^ min_exp"] by (simp add: to_double_nonneg)

lemma to_double_value:
  assumes "round_bits (x * 2 ^ min_exp) = m" and "0 \<le> x" and "m < 2 ^ top_exp"
  shows "to_double x = Fin (of_int m / 2 ^ min_exp)"
  using assms by (simp add: to_double_nonneg)

lemma to_double_ge:
  assumes "0 \<le> x" and "of_int (m * 2 ^ ulp_exp (x * 2 ^ min_exp)) \<le> x * 2 ^ min_exp"
    and "s * 2 ^ min_exp \<le> of_int (m * 2 ^ ulp_exp (x * 2 ^ min_exp))"
  shows "js_le (Fin s) (to_double x)"
proof -
  have "(of_int (m * 2 ^ ulp_exp (x * 2 ^ min_exp)) :: rat) \<le> of_int (round_bits (x * 2 ^ min_exp))"
    using round_ge [OF assms(2)] by (simp only: of_int_le_iff)
  then have "s * 2 ^ min_exp \<le> of_int (round_bits (x * 2 ^ min_exp))" using assms(3) by linarith
  then show ?thesis using assms(1) by (simp add: to_double_nonneg le_divide_eq)
qed

text \<open>Integers of at most 53 bits are exact.\<close>

lemma power_bound: "k \<le> 1023 \<Longrightarrow> m \<le> 2 ^ k * 2 ^ min_exp \<Longrightarrow> m < 2 ^ top_exp"
  for m :: int
proof -
  assume "k \<le> 1023" "m \<le> 2 ^ k * 2 ^ min_exp"
  moreover from this have "k + min_exp < top_exp" by (simp add: top_exp_def)
  then have "(2 :: int) ^ (k + min_exp) < 2 ^ top_exp" by (rule power_strict_increasing) simp
  ultimately show ?thesis by (simp add: power_add)
qed

lemma small_ulp: "0 \<le> x \<Longrightarrow> x < 2 ^ 53 \<Longrightarrow> ulp_exp (x * 2 ^ min_exp) \<le> min_exp"
proof -
  assume a: "0 \<le> x" "x < 2 ^ 53"
  then have "x * 2 ^ min_exp < 2 ^ 53 * 2 ^ min_exp" by (intro mult_strict_right_mono) simp_all
  then have "x * 2 ^ min_exp < 2 ^ (53 + min_exp)" by (simp only: power_add)
  then show ?thesis using a(1) by (subst ulp_exp_le) simp_all
qed

lemma middle_ulp: "2 ^ 53 \<le> x \<Longrightarrow> x < 2 ^ 54 \<Longrightarrow> ulp_exp (x * 2 ^ min_exp) = Suc min_exp"
proof (rule ulp_exp_eq)
  assume a: "2 ^ 53 \<le> x" "x < 2 ^ 54"
  from a(1) have "2 ^ 53 * 2 ^ min_exp \<le> x * 2 ^ min_exp" by (rule mult_right_mono) simp
  then show "2 ^ (52 + Suc min_exp) \<le> x * 2 ^ min_exp" by (simp add: power_add)
  from a(2) have "x * 2 ^ min_exp < 2 ^ 54 * 2 ^ min_exp" by (rule mult_strict_right_mono) simp
  then show "x * 2 ^ min_exp < 2 ^ (53 + Suc min_exp)" by (simp add: power_add)
qed

lemma split_power: "k \<le> n \<Longrightarrow> a * 2 ^ n = (a * 2 ^ (n - k)) * 2 ^ k"
  for a :: int
  by (simp add: mult.assoc power_add [symmetric])

lemma nat_exact:
  assumes "n \<le> 2 ^ 53"
  shows "to_double (of_nat n) = Fin (of_nat n)"
proof -
  let ?y = "of_nat n * 2 ^ min_exp :: rat"
  have "\<exists>m. int n * 2 ^ min_exp = m * 2 ^ ulp_exp ?y"
  proof (cases "n = 2 ^ 53")
    case True
    then have "ulp_exp ?y = Suc min_exp" by (intro middle_ulp) simp_all
    moreover have "int n * 2 ^ min_exp = 2 ^ 52 * 2 ^ Suc min_exp" by (simp add: True)
    ultimately show ?thesis by metis
  next
    case False
    then have "(of_nat n :: rat) < of_nat (2 ^ 53)" using assms by (simp only: of_nat_less_iff)
    then have "ulp_exp ?y \<le> min_exp" by (intro small_ulp) simp_all
    then show ?thesis using split_power by blast
  qed
  then obtain m where m: "int n * 2 ^ min_exp = m * 2 ^ ulp_exp ?y" by blast
  have "?y = of_int (int n * 2 ^ min_exp)" by simp
  then have "round_bits ?y = int n * 2 ^ min_exp" unfolding m by (rule round_exact)
  moreover have "int n * 2 ^ min_exp \<le> 2 ^ 53 * 2 ^ min_exp" using assms by (intro mult_right_mono) simp_all
  then have "int n * 2 ^ min_exp < 2 ^ top_exp" by (rule power_bound [rotated]) simp
  ultimately show ?thesis using to_double_value [of "of_nat n" "int n * 2 ^ min_exp"] by simp
qed

lemma to_double_neg: "0 < x \<Longrightarrow> to_double (- x) = (case to_double x of Fin a \<Rightarrow> Fin (- a) | n \<Rightarrow> Inf True)"
  by (simp add: to_double_def Let_def)

lemma int_exact: "\<bar>n\<bar> \<le> 2 ^ 53 \<Longrightarrow> to_double (of_int n) = Fin (of_int n)"
proof (cases "0 \<le> n")
  case True
  moreover assume "\<bar>n\<bar> \<le> 2 ^ 53"
  ultimately show ?thesis using nat_exact [of "nat n"] by (simp add: nat_le_iff of_nat_nat)
next
  case False
  moreover assume "\<bar>n\<bar> \<le> 2 ^ 53"
  ultimately show ?thesis using nat_exact [of "nat (- n)"] to_double_neg [of "of_int (- n)"] by (simp add: nat_le_iff of_nat_nat)
qed

lemma to_double_code [code]:
  "to_double x =
     (if x = of_int \<lfloor>x\<rfloor> \<and> \<bar>x\<bar> \<le> 9007199254740992 then Fin x
      else (let m = round_bits (\<bar>x\<bar> * 2 ^ min_exp) in
        if 2 ^ top_exp \<le> m then Inf (x < 0)
        else Fin ((if x < 0 then - of_int m else of_int m) / 2 ^ min_exp)))"
proof (cases "x = of_int \<lfloor>x\<rfloor> \<and> \<bar>x\<bar> \<le> 9007199254740992")
  case True
  then obtain n where n: "x = of_int n" by blast
  from True have "\<bar>x\<bar> \<le> 9007199254740992" by (rule conjunct2)
  then have "of_int \<bar>n\<bar> \<le> (of_int (2 ^ 53) :: rat)" by (simp add: n)
  then have "\<bar>n\<bar> \<le> 2 ^ 53" by (simp only: of_int_le_iff)
  then have "to_double x = Fin x" unfolding n by (rule int_exact)
  then show ?thesis using True by (simp only: if_True simp_thms)
next
  case False
  then show ?thesis by (simp only: to_double_def Let_def if_False)
qed

section \<open>Adding one\<close>

text \<open>Up to \<open>2 ^ 53\<close> adding one makes progress; at \<open>2 ^ 53\<close> it has no effect.\<close>

lemma add_small:
  assumes "0 \<le> x" and "x < 2 ^ 53"
  shows "\<exists>q. to_double x = Fin q \<and> \<bar>q - x\<bar> \<le> 1 / 2 \<and> 0 \<le> q \<and> q \<le> 2 ^ 53"
proof -
  let ?y = "x * 2 ^ min_exp" and ?I = "2 ^ min_exp :: rat"
  define r where "r = round_bits ?y"
  have u: "ulp_exp ?y \<le> min_exp" using assms by (rule small_ulp)
  then have "(2 :: rat) ^ ulp_exp ?y \<le> ?I" by (rule power_increasing) simp
  then have err: "\<bar>of_int r - ?y\<bar> \<le> ?I / 2" using round_error [of ?y] unfolding r_def by linarith
  have split: "2 ^ 53 * 2 ^ min_exp = (2 ^ 53 * 2 ^ (min_exp - ulp_exp ?y)) * (2 :: int) ^ ulp_exp ?y" by (rule split_power [OF u])
  have "?y \<le> 2 ^ 53 * ?I" using assms(2) by (intro mult_right_mono) simp_all
  then have "?y \<le> of_int (2 ^ 53 * 2 ^ min_exp)" by simp
  then have le: "r \<le> 2 ^ 53 * 2 ^ min_exp" unfolding split r_def by (rule round_le)
  then have "to_double x = Fin (of_int r / ?I)"
    using assms(1) by (intro to_double_value power_bound [of 53]) (simp_all add: r_def)
  moreover have "\<bar>of_int r / ?I - x\<bar> \<le> 1 / 2"
    using err by (simp add: abs_le_iff field_simps)
  moreover have "(of_int r :: rat) \<le> of_int (2 ^ 53 * 2 ^ min_exp)" using le by (simp only: of_int_le_iff)
  then have "of_int r / ?I \<le> 2 ^ 53" by (simp add: divide_le_eq)
  moreover have "0 \<le> of_int r / ?I" using round_nonneg [of ?y] assms(1) by (simp add: r_def)
  ultimately show ?thesis by blast
qed

lemma middle_round:
  assumes "2 ^ 53 \<le> x" and "x < 2 ^ 54" and "round_even (x / 2) = m" and "m \<le> 2 ^ 53"
  shows "to_double x = Fin (2 * of_int m)"
proof -
  have pos: "0 \<le> x" using assms(1) by (meson order_trans zero_le_numeral zero_le_power)
  have "x * 2 ^ min_exp / 2 ^ Suc min_exp = x / 2" by simp
  then have r: "round_bits (x * 2 ^ min_exp) = m * 2 ^ Suc min_exp"
    unfolding round_bits_def middle_ulp [OF assms(1,2)] assms(3) [symmetric] by (simp only:)
  have "m * 2 ^ Suc min_exp \<le> 2 ^ 54 * 2 ^ min_exp" using assms(4) by simp
  then have "m * 2 ^ Suc min_exp < 2 ^ top_exp" by (rule power_bound [rotated]) simp
  from to_double_value [OF r pos this] show ?thesis by simp
qed

lemma add_one:
  assumes "0 \<le> p" and "p \<le> 2 ^ 53"
  shows "\<exists>q. to_double (p + 1) = Fin q \<and> (p + 1 / 2 \<le> q \<or> q = 2 ^ 53) \<and> 0 \<le> q \<and> q \<le> 2 ^ 53"
proof (cases "p + 1 < 2 ^ 53")
  case True
  then obtain q where "to_double (p + 1) = Fin q" "\<bar>q - (p + 1)\<bar> \<le> 1 / 2" "0 \<le> q" "q \<le> 2 ^ 53"
    using add_small [of "p + 1"] assms(1) by auto
  then show ?thesis by (intro exI [of _ q]) linarith
next
  case False
  have "round_even ((p + 1) / 2) = 2 ^ 52"
  proof (cases "p = 2 ^ 53")
    case True
    then have "(p + 1) / 2 = of_int (2 ^ 52) + 1 / 2" by simp
    then show ?thesis using round_even_tie [of "2 ^ 52"] by simp
  next
    case False
    with assms(2) have "p < 2 ^ 53" by simp
    then show ?thesis using \<open>\<not> p + 1 < 2 ^ 53\<close> by (intro round_even_near) simp_all
  qed
  then have "to_double (p + 1) = Fin (2 * of_int (2 ^ 52))" using False assms(2) by (intro middle_round) simp_all
  then show ?thesis by simp
qed

lemma no_progress: "to_double (2 ^ 53 + 1) = Fin (2 ^ 53)"
  using add_one [of "2 ^ 53"] by auto

lemma add_hundred_above:
  assumes "2 ^ 53 \<le> s + 100" and "s \<le> 2 ^ 53"
  shows "js_le (Fin (2 ^ 53)) (to_double (s + 100))"
proof (rule to_double_ge)
  let ?y = "(s + 100) * 2 ^ min_exp"
  have u: "ulp_exp ?y = Suc min_exp" using assms by (intro middle_ulp) simp_all
  have m: "(of_int (2 ^ 52 * 2 ^ ulp_exp ?y) :: rat) = 2 ^ 53 * 2 ^ min_exp" unfolding u by simp
  have "2 ^ 53 * 2 ^ min_exp \<le> ?y" using assms(1) by (intro mult_right_mono) simp_all
  then show "of_int (2 ^ 52 * 2 ^ ulp_exp ?y) \<le> ?y" unfolding m .
  show "2 ^ 53 * 2 ^ min_exp \<le> (of_int (2 ^ 52 * 2 ^ ulp_exp ?y) :: rat)" unfolding m ..
qed (use assms(1) in \<open>meson order_trans zero_le_numeral zero_le_power\<close>)

text \<open>Between \<open>2 ^ 53\<close> and \<open>2 ^ 54\<close> the doubles are the even integers, and adding one goes to the next multiple of four.\<close>

lemma middle_double:
  assumes "is_double s" and "2 ^ 53 < s" and "s < 2 ^ 54"
  obtains j where "s = 2 * of_int j" "2 ^ 52 < j" "j < 2 ^ 53"
proof -
  obtain y where y: "short y" "s = of_int y / 2 ^ min_exp" using assms(1) by (auto simp: is_double_def)
  then have e: "of_int y = s * 2 ^ min_exp" by simp
  have "ulp_exp (s * 2 ^ min_exp) = Suc min_exp" using assms(2,3) by (intro middle_ulp) simp_all
  then have "2 ^ Suc min_exp dvd y" using short_multiple [OF y(1)] unfolding e by simp
  then obtain j where j: "y = 2 ^ Suc min_exp * j" by (auto simp: dvd_def)
  have s: "s = 2 * of_int j" unfolding y(2) j by simp
  then have "(of_int (2 ^ 52) :: rat) < of_int j" "(of_int j :: rat) < of_int (2 ^ 53)" using assms(2,3) by simp_all
  then show ?thesis using that s by (simp only: of_int_less_iff)
qed

lemma even_add_one:
  assumes "2 ^ 52 < j" and "j < 2 ^ 53"
  shows "to_double (2 * of_int j + 1) = Fin (2 * of_int (if even j then j else j + 1))"
proof (rule middle_round)
  have r: "(of_int (2 ^ 52) :: rat) < of_int j" "(of_int (j + 1) :: rat) \<le> of_int (2 ^ 53)"
    using assms by (simp_all only: of_int_less_iff of_int_le_iff)
  then show "2 ^ 53 \<le> 2 * of_int j + (1 :: rat)" "2 * of_int j + (1 :: rat) < 2 ^ 54" by simp_all
  have "(2 * of_int j + 1 :: rat) / 2 = of_int j + 1 / 2" by simp
  then show "round_even ((2 * of_int j + 1) / 2) = (if even j then j else j + 1)" by (simp only: round_even_tie)
qed (use assms in simp)

lemma even_add_hundred:
  assumes "2 ^ 52 < j" and "j < 2 ^ 53"
  shows "js_le (Fin (2 * of_int j + 2)) (to_double (2 * of_int j + 100))"
proof -
  let ?x = "2 * of_int j + 100 :: rat"
  let ?y = "?x * 2 ^ min_exp"
  define i where "i = (2 * j + 100) div 4"
  have i: "4 * i \<le> 2 * j + 100" "2 * j + 2 \<le> 4 * i" unfolding i_def by linarith+
  have r: "(of_int j :: rat) < of_int (2 ^ 53)" using assms by (simp only: of_int_less_iff)
  have "0 < (2 :: int) ^ 52" by simp
  then have jpos: "0 < j" using assms(1) by (rule less_trans)
  have "?x < 2 ^ 55" using r by simp
  then have "?y < 2 ^ 55 * 2 ^ min_exp" by (rule mult_strict_right_mono) simp
  then have "?y < 2 ^ (53 + (min_exp + 2))" by (simp add: power_add)
  then have u: "ulp_exp ?y \<le> min_exp + 2" using jpos by (subst ulp_exp_le) simp_all
  have m: "i * 2 ^ (min_exp + 2) = (i * 2 ^ (min_exp + 2 - ulp_exp ?y)) * 2 ^ ulp_exp ?y" by (rule split_power [OF u])
  have v: "(of_int (i * 2 ^ (min_exp + 2)) :: rat) = of_int (4 * i) * 2 ^ min_exp" by (simp add: power_add)
  have "(of_int (4 * i) :: rat) \<le> of_int (2 * j + 100)" "(of_int (2 * j + 2) :: rat) \<le> of_int (4 * i)"
    using i by (simp_all only: of_int_le_iff)
  then have "of_int (4 * i) * 2 ^ min_exp \<le> ?y" "(2 * of_int j + 2) * 2 ^ min_exp \<le> (of_int (4 * i) * 2 ^ min_exp :: rat)"
    by (intro mult_right_mono; simp)+
  then show ?thesis using jpos unfolding v [symmetric] m
    by (intro to_double_ge [of ?x "i * 2 ^ (min_exp + 2 - ulp_exp ?y)"]) simp_all
qed

text \<open>From \<open>2 ^ 54\<close> on the doubles are at least four apart.\<close>

lemma large_double:
  assumes "is_double s" and "2 ^ 54 \<le> s"
  shows "to_double (s + 1) = Fin s" "js_le (Fin s) (to_double (s + 100))"
proof -
  obtain n where n: "short n" "n < 2 ^ top_exp" "s = of_int n / 2 ^ min_exp" using assms(1) by (auto simp: is_double_def)
  let ?I = "2 ^ min_exp :: rat"
  have e: "s * ?I = of_int n" using n(3) by simp
  define u where "u = ulp_exp (of_int n)"
  have pos: "0 \<le> s" using assms(2) by (meson order_trans zero_le_numeral zero_le_power)
  then have npos: "0 \<le> (of_int n :: rat)" unfolding e [symmetric] by simp
  obtain j where j: "n = 2 ^ u * j" using short_multiple [OF n(1)] unfolding u_def by (auto simp: dvd_def)
  have "2 ^ 54 * ?I \<le> s * ?I" using assms(2) by (rule mult_right_mono) simp
  then have big: "\<not> (of_int n :: rat) < 2 ^ (53 + Suc min_exp)" unfolding e by (simp add: power_add not_less)
  then have "\<not> u \<le> Suc min_exp" unfolding u_def using ulp_exp_le [OF npos, of "Suc min_exp"] by simp
  then have u: "min_exp + 2 \<le> u" by simp
  then have four: "4 * ?I \<le> 2 ^ u" using power_increasing [of "min_exp + 2" u "2 :: rat"] by (simp add: power_add)
  have lo: "2 ^ (52 + u) \<le> (of_int n :: rat)" unfolding u_def using u by (intro above_power [OF npos]) (simp add: u_def)
  have hi: "(of_int n :: rat) < 2 ^ (53 + u)" unfolding u_def by (rule below_power [OF npos])
  have "2 ^ u * j < (2 ^ u * 2 ^ 53 :: int)"
  proof -
    have "(of_int n :: rat) < of_int (2 ^ u * 2 ^ 53)" using hi by (simp add: power_add mult.commute)
    then show ?thesis unfolding j by (simp only: of_int_less_iff)
  qed
  then have "j + 1 \<le> 2 ^ 53" by simp
  then have "2 ^ u * (j + 1) \<le> (2 ^ u * 2 ^ 53 :: int)" by simp
  then have "(of_int (2 ^ u * (j + 1)) :: rat) \<le> of_int (2 ^ u * 2 ^ 53)" by (simp only: of_int_le_iff)
  then have room: "of_int n + 2 ^ u \<le> (2 ^ (53 + u) :: rat)" unfolding j by (simp add: power_add algebra_simps)
  have Ipos: "0 < ?I" by simp
  have u1: "ulp_exp ((s + 1) * ?I) = u"
  proof (rule ulp_exp_eq)
    have y: "(s + 1) * ?I = of_int n + ?I" by (simp only: distrib_right e mult_1)
    show "2 ^ (52 + u) \<le> (s + 1) * ?I" unfolding y using lo Ipos by linarith
    show "(s + 1) * ?I < 2 ^ (53 + u)" unfolding y using room four Ipos by linarith
  qed
  have q: "(s + 1) * ?I / 2 ^ u = of_int j + ?I / 2 ^ u" by (simp add: distrib_right e j add_divide_distrib)
  have "?I * 2 < 2 ^ u" using four Ipos by linarith
  then have "?I / 2 ^ u < 1 / 2" by (simp add: divide_less_eq)
  then have "round_even ((s + 1) * ?I / 2 ^ u) = j" unfolding q by (intro round_even_near) simp_all
  then have "round_bits ((s + 1) * ?I) = n" unfolding round_bits_def u1 j by (simp add: mult.commute)
  then have "to_double (s + 1) = Fin (of_int n / ?I)" using pos n(2) by (intro to_double_value) simp_all
  then show "to_double (s + 1) = Fin s" using n(3) by simp
  let ?y = "(s + 100) * ?I"
  have le: "of_int n \<le> ?y" by (simp add: distrib_right e)
  then have "u \<le> ulp_exp ?y" unfolding u_def by (rule ulp_mono [OF npos])
  then consider "ulp_exp ?y = u" | "u < ulp_exp ?y" by linarith
  then show "js_le (Fin s) (to_double (s + 100))"
  proof cases
    case 1
    then show ?thesis using le pos by (intro to_double_ge [of _ j]) (simp_all add: e j mult.commute)
  next
    case 2
    have y: "0 \<le> ?y" using pos by simp
    have "(2 :: rat) ^ (53 + u) \<le> 2 ^ (52 + ulp_exp ?y)" using 2 by (intro power_increasing) simp_all
    then have "of_int n \<le> (of_int (2 ^ 52 * 2 ^ ulp_exp ?y) :: rat)" using hi by (simp add: power_add)
    then have "s * ?I \<le> of_int (2 ^ 52 * 2 ^ ulp_exp ?y)" by (simp only: e)
    moreover have "of_int (2 ^ 52 * 2 ^ ulp_exp ?y) \<le> ?y" using above_power [OF y] 2 by (simp add: power_add)
    moreover have "0 \<le> s + 100" using pos by simp
    ultimately show ?thesis by (intro to_double_ge [of "s + 100" "2 ^ 52"])
  qed
qed

end
