(* ===== verification/Device_Access.thy ===== *)
theory Device_Access
  imports Config_Types Js_Double "HOL-Library.Monad_Syntax"
begin

text \<open>
  \<open>services/deviceAccessRules.ts\<close>: which networks may reach which devices on which ports, as the zone-based policies
  and the legacy rules of the active configuration say, and the summary of one network.  A loop that never ends is the
  value \<open>None\<close>.
\<close>

section \<open>Ports\<close>

text \<open>\<open>p++\<close> and \<open>start + 100\<close> are sums of doubles: the exact sum is rounded, and an infinity stays what it is.\<close>

fun js_plus :: "js_num \<Rightarrow> rat \<Rightarrow> js_num" where
  "js_plus (Fin a) b = to_double (a + b)"
| "js_plus n b = n"

partial_function (option) port_loop :: "js_num \<Rightarrow> js_num \<Rightarrow> js_num \<Rightarrow> js_num list option" where
  "port_loop start stop p =
     (if js_le p stop \<and> js_le p (js_plus start 100)
      then Option.bind (port_loop start stop (js_plus p 1)) (\<lambda>rest. Some (p # rest))
      else Some [])"

definition range_ports :: "string \<Rightarrow> js_num list option" where
  "range_ports rg =
     (if CHR ''-'' \<in> set rg then
        (let bounds = map (\<lambda>s. js_round (js_number s)) (split_on CHR ''-'' rg); start = bounds ! 0; stop = bounds ! 1 in
         if start \<noteq> NaN \<and> stop \<noteq> NaN then port_loop start stop start else Some [])
      else
        (case js_parse_int rg of None \<Rightarrow> Some [] | Some port \<Rightarrow> Some [to_double (of_int port)]))"

fun parsePortRanges :: "string list \<Rightarrow> js_num list option" where
  "parsePortRanges [] = Some []"
| "parsePortRanges (rg # rest) =
     Option.bind (range_ports rg) (\<lambda>ps. Option.bind (parsePortRanges rest) (\<lambda>qs. Some (ps @ qs)))"

section \<open>Names of devices\<close>

definition named_mapping :: "device_mapping option \<Rightarrow> string \<Rightarrow> (string \<times> string) list" where
  "named_mapping d fallback =
     (case d of
        None \<Rightarrow> []
      | Some m \<Rightarrow> if truthy (dm_ip m) then [(the (dm_ip m), str_dflt (dm_name m) fallback)] else [])"

definition named_client :: "fields \<Rightarrow> (string \<times> string) list" where
  "named_client c =
     (let ip = str_or (get_str c ''fixed_ip'') (get_str c ''ip''); name = str_or (get_str c ''name'') (get_str c ''hostname'') in
      if truthy ip \<and> truthy name then [(the ip, the name)] else [])"

definition getKnownDevices :: "stored_profile option \<Rightarrow> fields list \<Rightarrow> (string \<times> string) list" where
  "getKnownDevices profile clients =
     om_of (named_mapping (Option.bind profile sp_nasDevice) ''NAS'' @
            named_mapping (Option.bind profile sp_serverDevice) ''Server'' @ concat (map named_client clients))"

section \<open>Rules\<close>

datatype rule_action = AllowRule | DenyRule

record access_rule =
  ar_ruleName :: string
  ar_sourceNetwork :: string
  ar_sourceNetworkId :: string
  ar_targetDevice :: string
  ar_targetIp :: string
  ar_ports :: "js_num list"
  ar_action :: rule_action
  ar_ruleId :: "string option"

definition network_ident :: "fields \<Rightarrow> string option" where
  "network_ident n = str_or (get_str n ''_id'') (get_str n ''id'')"

definition network_names :: "fields list \<Rightarrow> (string \<times> string) list" where
  "network_names networks =
     om_of (concat (map (\<lambda>n. if truthy (network_ident n) then [(the (network_ident n), str_dflt (get_str n ''name'') ''Unknown'')]
                              else []) networks))"

definition mapped_or :: "(string \<times> string) list \<Rightarrow> string \<Rightarrow> string" where
  "mapped_or m k = str_dflt (om_get m k) k"

definition policy_rule ::
    "(string \<times> string) list \<Rightarrow> (string \<times> string) list \<Rightarrow> fields \<Rightarrow> js_num list \<Rightarrow> string \<Rightarrow> string \<Rightarrow> access_rule" where
  "policy_rule names devices policy ports targetIp srcNetId =
     \<lparr>ar_ruleName = str_dflt (get_str policy ''name'') ''Unnamed Policy'', ar_sourceNetwork = mapped_or names srcNetId,
      ar_sourceNetworkId = srcNetId, ar_targetDevice = mapped_or devices targetIp, ar_targetIp = targetIp,
      ar_ports = ports, ar_action = (if get_str policy ''action'' = Some ''ALLOW'' then AllowRule else DenyRule),
      ar_ruleId = get_str policy ''_id''\<rparr>"

definition policy_ips :: "fields \<Rightarrow> string list" where
  "policy_ips policy = dflt [] (get_strs (get_obj policy ''destination'') ''ip_addresses'')"

definition policy_sources :: "fields \<Rightarrow> string list" where
  "policy_sources policy = dflt [] (get_strs (get_obj policy ''source'') ''network_ids'')"

definition policy_rules ::
    "(string \<times> string) list \<Rightarrow> (string \<times> string) list \<Rightarrow> fields \<Rightarrow> access_rule list option" where
  "policy_rules names devices policy =
     (if \<not> is_on (get_bool policy ''enabled'') then Some []
      else if length (policy_ips policy) = 0 then Some []
      else if length (policy_sources policy) = 0 then Some []
      else
        (case parsePortRanges (dflt [] (get_strs (get_obj policy ''destination'') ''port_ranges'')) of
           None \<Rightarrow> None
         | Some ports \<Rightarrow>
             Some (concat (map (\<lambda>ip. map (policy_rule names devices policy ports ip) (policy_sources policy)) (policy_ips policy)))))"

definition listed_ports :: "string \<Rightarrow> js_num list" where
  "listed_ports s =
     concat (map (\<lambda>part. case js_parse_int (js_trim part) of None \<Rightarrow> [] | Some port \<Rightarrow> [to_double (of_int port)]) (split_on CHR '','' s))"

definition legacy_source :: "(string \<times> string) list \<Rightarrow> fields \<Rightarrow> string \<times> string" where
  "legacy_source names rule =
     (if truthy (get_str rule ''src_network'') then
        (case find (\<lambda>e. Some (snd e) = get_str rule ''src_network'') names of None \<Rightarrow> ([], ''Any'') | Some e \<Rightarrow> e)
      else ([], ''Any''))"

definition legacy_rule :: "(string \<times> string) list \<Rightarrow> (string \<times> string) list \<Rightarrow> fields \<Rightarrow> access_rule list" where
  "legacy_rule names devices rule =
     (if \<not> is_on (get_bool rule ''enabled'') then []
      else if \<not> truthy (get_str rule ''dst_address'') then []
      else
        (let targetIp = the (get_str rule ''dst_address'') in
         [\<lparr>ar_ruleName = str_dflt (get_str rule ''name'') ''Unnamed Rule'', ar_sourceNetwork = snd (legacy_source names rule),
           ar_sourceNetworkId = fst (legacy_source names rule), ar_targetDevice = mapped_or devices targetIp,
           ar_targetIp = targetIp,
           ar_ports = (if truthy (get_str rule ''dst_port'') then listed_ports (the (get_str rule ''dst_port'')) else []),
           ar_action = (if get_str rule ''action'' = Some ''accept'' then AllowRule else DenyRule),
           ar_ruleId = Some (str_dflt (get_str rule ''_id'') [])\<rparr>]))"

section \<open>Merging\<close>

definition rule_key :: "access_rule \<Rightarrow> string" where
  "rule_key r =
     ar_sourceNetworkId r @ '':'' @ ar_targetIp r @ '':'' @ (case ar_action r of AllowRule \<Rightarrow> ''allow'' | DenyRule \<Rightarrow> ''deny'')"

definition merge_rule :: "access_rule \<Rightarrow> access_rule \<Rightarrow> access_rule" where
  "merge_rule r existing = existing\<lparr>ar_ports := os_of (ar_ports existing @ ar_ports r)\<rparr>"

definition merge_rules :: "access_rule list \<Rightarrow> access_rule list" where
  "merge_rules rules = om_values (accum (\<lambda>_. True) rule_key (\<lambda>r. r) merge_rule rules)"

fun all_policies ::
    "(string \<times> string) list \<Rightarrow> (string \<times> string) list \<Rightarrow> fields list \<Rightarrow> access_rule list option" where
  "all_policies names devices [] = Some []"
| "all_policies names devices (p # ps) =
     Option.bind (policy_rules names devices p)
       (\<lambda>rs. Option.bind (all_policies names devices ps) (\<lambda>rest. Some (rs @ rest)))"

definition access_networks :: "fields \<Rightarrow> fields list" where
  "access_networks config = raw_list config [''networks'', ''networkConf'', ''networkconf'']"

definition raw_access_rules :: "fields \<Rightarrow> stored_profile option \<Rightarrow> access_rule list option" where
  "raw_access_rules config profile =
     (let names = network_names (access_networks config);
          devices = getKnownDevices profile (raw_list config [''user'', ''clients''])
      in Option.bind (all_policies names devices (raw_list config [''firewallpolicy'', ''firewallPolicies'']))
           (\<lambda>rules. Some (rules @
              concat (map (legacy_rule names devices) (raw_list config [''firewallrule'', ''firewallRules''])))))"

text \<open>The active configuration is absent when there is none or it is empty.\<close>

definition extractDeviceAccessRules :: "fields option \<Rightarrow> stored_profile option \<Rightarrow> access_rule list option" where
  "extractDeviceAccessRules active profile =
     (case active of
        None \<Rightarrow> Some []
      | Some config \<Rightarrow> map_option merge_rules (raw_access_rules config profile))"

definition getNetworkAccessRules :: "fields option \<Rightarrow> stored_profile option \<Rightarrow> string \<Rightarrow> access_rule list option" where
  "getNetworkAccessRules active profile networkId =
     map_option (filter (\<lambda>r. ar_sourceNetworkId r = networkId)) (extractDeviceAccessRules active profile)"

record access_summary =
  as_networkId :: string
  as_networkName :: string
  as_accessRules :: "access_rule list"
  as_interVlanAccess :: "(string \<times> string) list"

definition other_networks :: "string \<Rightarrow> fields list \<Rightarrow> (string \<times> string) list" where
  "other_networks networkId networks =
     concat (map (\<lambda>n.
       if \<not> truthy (network_ident n) \<or> network_ident n = Some networkId then []
       else if to_lower (dflt [] (get_str n ''purpose'')) = ''wan'' then []
       else [(the (network_ident n), str_dflt (get_str n ''name'') ''Unknown'')]) networks)"

text \<open>Internet access, and the access to each other network, are always reported as unknown.\<close>

definition getNetworkAccessSummary ::
    "fields option \<Rightarrow> stored_profile option \<Rightarrow> string \<Rightarrow> access_summary option option" where
  "getNetworkAccessSummary active profile networkId =
     (case active of
        None \<Rightarrow> Some None
      | Some config \<Rightarrow>
          (case find (\<lambda>n. network_ident n = Some networkId) (access_networks config) of
             None \<Rightarrow> Some None
           | Some n \<Rightarrow>
               map_option (\<lambda>rules. Some
                   \<lparr>as_networkId = networkId, as_networkName = str_dflt (get_str n ''name'') ''Unknown'', as_accessRules = rules,
                    as_interVlanAccess = other_networks networkId (access_networks config)\<rparr>)
                 (getNetworkAccessRules active profile networkId)))"

section \<open>Which ranges end\<close>

text \<open>The numbers of a range are not negative: their text has no hyphen.\<close>

lemma decimal_nonneg: "unsigned_decimal u = Some r \<Longrightarrow> 0 \<le> r"
  by (simp add: unsigned_decimal_def Let_def pow10_def split: option.split_asm if_split_asm) auto

lemma trim_subset: "set (js_trim s) \<subseteq> set s"
  unfolding js_trim_def by (metis set_dropWhileD set_rev subsetI)

lemma bound_nonneg:
  assumes "CHR ''-'' \<notin> set s"
  obtains "js_round (js_number s) = NaN" | "js_round (js_number s) = Inf False"
    | a where "js_round (js_number s) = Fin a" "0 \<le> a" "is_double a"
proof -
  have "CHR ''-'' \<notin> set (js_trim s)" using assms trim_subset by blast
  then have plus: "fst (split_sign (js_trim s)) = False" by (auto simp: split_sign_def split: list.splits)
  have "js_number s = NaN \<or> js_number s = Inf False \<or> (\<exists>r. js_number s = Fin r \<and> 0 \<le> r)"
    using plus decimal_nonneg unfolding js_number_def Let_def
    by (cases "split_sign (js_trim s)") (auto split: option.split)
  then show ?thesis
  proof (elim disjE exE conjE)
    fix r assume r: "js_number s = Fin r" "0 \<le> r"
    then show ?thesis using to_double_pos [OF r(2)] to_double_is_double [OF r(2)] that by auto
  qed (use that in simp_all)
qed

text \<open>Where the counter of the loop comes to rest when nothing stops it: below \<open>2 ^ 53\<close> it counts up to there, where adding one
  has no effect any more; above, it is at rest after at most one step.\<close>

definition rest_point :: "rat \<Rightarrow> rat" where
  "rest_point a = (if a \<le> 2 ^ 53 then 2 ^ 53 else if a < 2 ^ 54 \<and> \<lfloor>a\<rfloor> mod 4 = 2 then a + 2 else a)"

definition stuck :: "js_num \<Rightarrow> js_num \<Rightarrow> bool" where
  "stuck start stop \<longleftrightarrow>
     (case start of
        NaN \<Rightarrow> False
      | Inf neg \<Rightarrow> stop = Inf neg
      | Fin a \<Rightarrow> js_le (Fin (rest_point a)) stop \<and> js_le (Fin (rest_point a)) (js_plus (Fin a) 100))"

text \<open>A loop whose counter stays in a set where it goes on never ends.\<close>

lemma endless_in:
  assumes "\<And>p. p \<in> S \<Longrightarrow> js_le p stop \<and> js_le p (js_plus start 100) \<and> js_plus p 1 \<in> S" and "p \<in> S"
  shows "port_loop start stop p = None"
proof -
  have on: "js_plus p 1 \<in> S" if "p \<in> S" for p using assms(1) [OF that] by blast
  have "port_loop s t p = Some ps \<Longrightarrow> s = start \<longrightarrow> t = stop \<longrightarrow> p \<notin> S" for s t p ps
  proof (rule port_loop.raw_induct [where P = "\<lambda>s t p ps. s = start \<longrightarrow> t = stop \<longrightarrow> p \<notin> S"])
    fix loop and s t p :: js_num and ps :: "js_num list"
    assume IH: "\<And>s t p ps. loop s t p = Some ps \<Longrightarrow> s = start \<longrightarrow> t = stop \<longrightarrow> p \<notin> S"
      and step: "(if js_le p t \<and> js_le p (js_plus s 100)
        then Option.bind (loop s t (js_plus p 1)) (\<lambda>rest. Some (p # rest)) else Some []) = Some ps"
    show "s = start \<longrightarrow> t = stop \<longrightarrow> p \<notin> S"
      using step assms(1) [of p] on [of p] by (auto split: bind_splits if_splits dest: IH)
  qed assumption
  then show ?thesis using assms(2) by (cases "port_loop start stop p") blast+
qed

lemma js_le_down: "p \<le> q \<Longrightarrow> js_le (Fin q) t \<Longrightarrow> js_le (Fin p) t"
  by (cases t) auto

lemma low_endless:
  assumes "0 \<le> a" and "a \<le> 2 ^ 53" and "js_le (Fin (2 ^ 53)) stop" and "js_le (Fin (2 ^ 53)) (js_plus (Fin a) 100)"
  shows "port_loop (Fin a) stop (Fin a) = None"
proof (rule endless_in [where S = "{Fin p | p. 0 \<le> p \<and> p \<le> 2 ^ 53}"])
  fix n assume "n \<in> {Fin p | p. 0 \<le> p \<and> p \<le> (2 ^ 53 :: rat)}"
  then obtain p where p: "n = Fin p" "0 \<le> p" "p \<le> 2 ^ 53" by blast
  then show "js_le n stop \<and> js_le n (js_plus (Fin a) 100) \<and> js_plus n 1 \<in> {Fin p | p. 0 \<le> p \<and> p \<le> 2 ^ 53}"
    using js_le_down [OF p(3)] assms(3,4) add_one [OF p(2,3)] by auto
qed (use assms(1,2) in simp)

lemma low_ends:
  assumes "0 \<le> a" and "a \<le> 2 ^ 53" and "\<not> (js_le (Fin (2 ^ 53)) stop \<and> js_le (Fin (2 ^ 53)) (js_plus (Fin a) 100))"
  shows "\<exists>ps. port_loop (Fin a) stop (Fin a) = Some ps \<and> length ps \<le> 202"
proof -
  define goes where "goes n \<longleftrightarrow> js_le n stop \<and> js_le n (js_plus (Fin a) 100)" for n
  have last: "\<not> goes (Fin (2 ^ 53))" using assms(3) by (simp add: goes_def)
  have near: "p \<le> a + 100 + 1 / 2" if p: "goes (Fin p)" "0 \<le> p" "p \<le> 2 ^ 53" for p
  proof (cases "a + 100 < 2 ^ 53")
    case True
    then obtain q where "to_double (a + 100) = Fin q" "\<bar>q - (a + 100)\<bar> \<le> 1 / 2" using add_small [of "a + 100"] assms(1) by auto
    moreover from this have "p \<le> q" using p(1) by (simp add: goes_def)
    ultimately show ?thesis by linarith
  next
    case False
    then show ?thesis using p(3) by linarith
  qed
  define left where "left p = nat (\<lfloor>2 * (a + 100 + 1 / 2 - p)\<rfloor> + 1)" for p
  have "\<exists>ps. port_loop (Fin a) stop (Fin p) = Some ps \<and> length ps \<le> left p" if "0 \<le> p" "p \<le> 2 ^ 53" for p
    using that
  proof (induction "left p" arbitrary: p rule: less_induct)
    case less
    show ?case
    proof (cases "goes (Fin p)")
      case True
      obtain q where q: "to_double (p + 1) = Fin q" "p + 1 / 2 \<le> q \<or> q = 2 ^ 53" "0 \<le> q" "q \<le> 2 ^ 53"
        using add_one [OF less.prems] by blast
      have near_p: "0 \<le> 2 * (a + 100 + 1 / 2 - p)" using near [OF True less.prems] by simp
      then have pos: "1 \<le> left p" unfolding left_def by linarith
      have "\<exists>qs. port_loop (Fin a) stop (Fin q) = Some qs \<and> Suc (length qs) \<le> left p"
      proof (cases "q = 2 ^ 53")
        case True
        then have "port_loop (Fin a) stop (Fin q) = Some []"
          using last by (subst port_loop.simps) (auto simp: goes_def)
        then show ?thesis using pos by simp
      next
        case False
        then have "2 * (a + 100 + 1 / 2 - q) \<le> 2 * (a + 100 + 1 / 2 - p) - 1" using q(2) by simp
        then have "\<lfloor>2 * (a + 100 + 1 / 2 - q)\<rfloor> \<le> \<lfloor>2 * (a + 100 + 1 / 2 - p)\<rfloor> - 1" by (metis floor_diff_one floor_mono)
        moreover have "0 \<le> \<lfloor>2 * (a + 100 + 1 / 2 - p)\<rfloor>" using near_p by (simp only: zero_le_floor)
        ultimately have k: "left q < left p" unfolding left_def by linarith
        obtain qs where "port_loop (Fin a) stop (Fin q) = Some qs" "length qs \<le> left q" using less.hyps [OF k q(3,4)] by blast
        then show ?thesis using k by auto
      qed
      then show ?thesis using True q(1) by (subst port_loop.simps) (auto simp: goes_def)
    next
      case False
      then show ?thesis by (subst port_loop.simps) (auto simp: goes_def)
    qed
  qed
  from this [OF assms(1,2)] show ?thesis by (simp add: left_def)
qed

text \<open>Above \<open>2 ^ 53\<close> the first or the second counter is the last.\<close>

lemma rest_cases:
  assumes "is_double a" and "2 ^ 53 < a"
  shows "js_le (Fin (rest_point a)) (to_double (a + 100))" "to_double (a + 1) = Fin (rest_point a)"
    "to_double (rest_point a + 1) = Fin (rest_point a)" "a \<le> rest_point a"
proof -
  have "js_le (Fin (rest_point a)) (to_double (a + 100)) \<and> to_double (a + 1) = Fin (rest_point a) \<and>
      to_double (rest_point a + 1) = Fin (rest_point a) \<and> a \<le> rest_point a"
  proof (cases "a < 2 ^ 54")
    case False
    then have "rest_point a = a" using assms(2) by (simp add: rest_point_def)
    then show ?thesis using large_double [OF assms(1)] False by simp
  next
    case True
    then obtain j where j: "a = 2 * of_int j" "2 ^ 52 < j" "j < 2 ^ 53" using middle_double [OF assms] by blast
    have "\<lfloor>a\<rfloor> = 2 * j" unfolding j(1) using floor_of_int [of "2 * j", where ?'a = rat] by simp
    moreover have "2 * j mod 4 = 2 \<longleftrightarrow> odd j" by presburger
    ultimately have rest: "rest_point a = (if odd j then a + 2 else a)" using assms(2) True by (simp add: rest_point_def)
    have one: "to_double (a + 1) = Fin (2 * of_int (if even j then j else j + 1))" unfolding j(1) using even_add_one [OF j(2,3)] .
    have far: "js_le (Fin (a + 2)) (to_double (a + 100))" unfolding j(1) using even_add_hundred [OF j(2,3)] .
    show ?thesis
    proof (cases "odd j")
      case False
      then show ?thesis using one far js_le_down [of a "a + 2"] rest j(1) by simp
    next
      case True
      have next_one: "to_double (a + 2 + 1) = Fin (a + 2)"
      proof (cases "j + 1 < 2 ^ 53")
        case True
        then have "to_double (2 * of_int (j + 1) + 1) = Fin (2 * of_int (j + 1))"
          using even_add_one [of "j + 1"] j(2) \<open>odd j\<close> by simp
        then show ?thesis unfolding j(1) by (simp add: algebra_simps)
      next
        case False
        then have "(of_int (2 ^ 53) :: rat) \<le> of_int (j + 1)" by (simp only: of_int_le_iff not_less)
        then have "2 ^ 54 \<le> a + 2" by (simp add: j(1))
        moreover have "to_double (a + 1) = Fin (a + 2)" using one True by (simp add: j(1))
        then have "is_double (a + 2)" using to_double_is_double [of "a + 1"] assms(2) by simp
        ultimately show ?thesis by (intro large_double(1))
      qed
      then show ?thesis using one far rest True j(1) by simp
    qed
  qed
  then show "js_le (Fin (rest_point a)) (to_double (a + 100))" "to_double (a + 1) = Fin (rest_point a)"
    "to_double (rest_point a + 1) = Fin (rest_point a)" "a \<le> rest_point a" by blast+
qed

lemma high_loop:
  assumes "is_double a" and "2 ^ 53 < a"
  shows "if stuck (Fin a) stop then port_loop (Fin a) stop (Fin a) = None
    else \<exists>ps. port_loop (Fin a) stop (Fin a) = Some ps \<and> length ps \<le> 1"
proof -
  note r = rest_cases [OF assms]
  have le: "js_le (Fin a) (to_double (a + 100))" using js_le_down [OF r(4) r(1)] .
  show ?thesis
  proof (cases "js_le (Fin (rest_point a)) stop")
    case True
    have "port_loop (Fin a) stop (Fin a) = None"
      by (rule endless_in [where S = "{Fin a, Fin (rest_point a)}"]) (use True r le js_le_down [OF r(4) True] in auto)
    then show ?thesis using True r(1) by (simp add: stuck_def)
  next
    case False
    then have "port_loop (Fin a) stop (Fin (rest_point a)) = Some []" by (subst port_loop.simps) simp
    then show ?thesis using False le r(2) by (subst port_loop.simps) (simp add: stuck_def)
  qed
qed

lemma loop_result:
  assumes "start \<noteq> NaN" and "stop \<noteq> NaN" and "start = Inf False \<or> (\<exists>a. start = Fin a \<and> 0 \<le> a \<and> is_double a)"
  shows "if stuck start stop then port_loop start stop start = None
    else \<exists>ps. port_loop start stop start = Some ps \<and> length ps \<le> 202"
  using assms(3)
proof (elim disjE exE conjE)
  assume s: "start = Inf False"
  show ?thesis
  proof (cases "stop = Inf False")
    case True
    have "port_loop start stop start = None" by (rule endless_in [where S = "{Inf False}"]) (simp_all add: s True)
    then show ?thesis by (simp add: s True stuck_def)
  next
    case False
    then have "\<not> js_le (Inf False) stop" using assms(2) by (cases stop) auto
    then have "port_loop start stop start = Some []" unfolding s by (subst port_loop.simps) simp
    then show ?thesis by (simp add: s False stuck_def)
  qed
next
  fix a assume a: "start = Fin a" "0 \<le> a" "is_double a"
  show ?thesis
  proof (cases "a \<le> 2 ^ 53")
    case True
    then have "stuck start stop \<longleftrightarrow> js_le (Fin (2 ^ 53)) stop \<and> js_le (Fin (2 ^ 53)) (js_plus (Fin a) 100)"
      by (simp only: a(1) stuck_def js_num.case rest_point_def if_True)
    then show ?thesis using low_endless [OF a(2) True] low_ends [OF a(2) True] unfolding a(1) by auto
  next
    case False
    then show ?thesis using high_loop [OF a(3), of stop] unfolding a(1) by (force split: if_splits)
  qed
qed

definition endless :: "string \<Rightarrow> bool" where
  "endless rg \<longleftrightarrow> CHR ''-'' \<in> set rg \<and>
     (let start = js_round (js_number (split_on CHR ''-'' rg ! 0)); stop = js_round (js_number (split_on CHR ''-'' rg ! 1)) in
      start \<noteq> NaN \<and> stop \<noteq> NaN \<and> stuck start stop)"

lemma two_parts: "c \<in> set s \<Longrightarrow> 2 \<le> length (split_on c s)"
proof -
  assume "c \<in> set s"
  then obtain a b where "s = a @ c # b" "c \<notin> set a" by (meson split_list_first)
  then have "length (split_on c s) = Suc (length (split_on c b))" by (simp add: split_on_append)
  moreover have "0 < length (split_on c b)" by simp
  ultimately show ?thesis by linarith
qed

lemma range_returns:
  "(range_ports rg = None \<longleftrightarrow> endless rg) \<and> (\<forall>ps. range_ports rg = Some ps \<longrightarrow> length ps \<le> 202)"
proof (cases "CHR ''-'' \<in> set rg")
  case False
  then show ?thesis by (simp add: range_ports_def endless_def split: option.split)
next
  case True
  define start where "start = js_round (js_number (split_on CHR ''-'' rg ! 0))"
  define stop where "stop = js_round (js_number (split_on CHR ''-'' rg ! 1))"
  have two: "2 \<le> length (split_on CHR ''-'' rg)" using True by (rule two_parts)
  have loop: "range_ports rg = (if start \<noteq> NaN \<and> stop \<noteq> NaN then port_loop start stop start else Some [])"
    using True two by (simp add: range_ports_def Let_def start_def stop_def)
  have endless: "endless rg \<longleftrightarrow> start \<noteq> NaN \<and> stop \<noteq> NaN \<and> stuck start stop"
    using True by (simp add: endless_def start_def stop_def Let_def)
  have "split_on CHR ''-'' rg ! 0 \<in> set (split_on CHR ''-'' rg)" using two by (intro nth_mem) linarith
  then have "CHR ''-'' \<notin> set (split_on CHR ''-'' rg ! 0)" by (rule split_on_parts)
  then have "start = NaN \<or> start = Inf False \<or> (\<exists>a. start = Fin a \<and> 0 \<le> a \<and> is_double a)"
    unfolding start_def by (rule bound_nonneg) simp_all
  then show ?thesis using loop_result [of start stop] unfolding loop endless by (auto split: if_splits)
qed

text \<open>Ranges of port numbers.\<close>

lemma port_sum: "n + k \<le> 2 ^ 53 \<Longrightarrow> js_plus (Fin (of_nat n)) (of_nat k) = Fin (of_nat (n + k))"
  using nat_exact [of "n + k"] by simp

lemma ordinary_loop:
  assumes "a \<le> 65535"
  shows "port_loop (Fin (of_nat a)) (Fin (of_nat b)) (Fin (of_nat p)) = Some (map (\<lambda>q. Fin (of_nat q)) [p..<Suc (min b (a + 100))])"
proof (induction "Suc (min b (a + 100)) - p" arbitrary: p)
  case 0
  then have "\<not> (p \<le> b \<and> p \<le> a + 100)" by (auto simp: min_def split: if_splits)
  moreover have "js_plus (Fin (of_nat a)) 100 = Fin (of_nat (a + 100))" using port_sum [of a 100] assms by simp
  ultimately show ?case using 0 by (subst port_loop.simps) auto
next
  case (Suc k)
  then have p: "p \<le> b" "p \<le> a + 100" by simp_all
  have "js_plus (Fin (of_nat a)) 100 = Fin (of_nat (a + 100))" "js_plus (Fin (of_nat p)) 1 = Fin (of_nat (Suc p))"
    using port_sum [of a 100] port_sum [of p 1] assms p(2) by simp_all
  moreover have "port_loop (Fin (of_nat a)) (Fin (of_nat b)) (Fin (of_nat (Suc p))) =
      Some (map (\<lambda>q. Fin (of_nat q)) [Suc p..<Suc (min b (a + 100))])"
    by (rule Suc.hyps(1)) (use Suc.hyps(2) in simp)
  moreover have "[p..<Suc (min b (a + 100))] = p # [Suc p..<Suc (min b (a + 100))]" using p by (simp add: upt_conv_Cons del: upt_Suc)
  moreover have "rat_of_nat p \<le> of_nat b" "rat_of_nat p \<le> of_nat (a + 100)" using p by (simp_all only: of_nat_le_iff)
  ultimately show ?case by (subst port_loop.simps) (simp del: upt_Suc of_nat_Suc of_nat_add js_plus.simps)
qed

lemma ordinary_range:
  assumes "a \<le> 65535" and "b \<le> 65535"
  shows "range_ports (show_nat a @ ''-'' @ show_nat b) = Some (map (\<lambda>q. Fin (of_nat q)) [a..<Suc (min b (a + 100))])"
proof -
  have no: "CHR ''-'' \<notin> set (show_nat n)" for n using show_nat_digits [of "CHR ''-''" n] by (auto simp: is_digit_def)
  have "split_on CHR ''-'' (show_nat a @ ''-'' @ show_nat b) = [show_nat a, show_nat b]"
    using split_on_append [OF no, of a "show_nat b"] split_on_no_sep [OF no, of b] by simp
  moreover have "js_round (js_number (show_nat n)) = Fin (of_nat n)" if "n \<le> 65535" for n
    using that js_number_show_nat [of n] nat_exact [of n] by simp
  ultimately show ?thesis using assms ordinary_loop [of a b a] by (simp add: range_ports_def del: upt_Suc)
qed

lemma ranges_result:
  "(parsePortRanges ranges = None \<longleftrightarrow> (\<exists>rg \<in> set ranges. endless rg)) \<and>
   (\<forall>ps. parsePortRanges ranges = Some ps \<longrightarrow> length ps \<le> 202 * length ranges)"
proof (induction ranges)
  case (Cons rg ranges)
  then show ?case using range_returns [of rg]
    by (cases "range_ports rg"; cases "parsePortRanges ranges") (auto intro: add_mono)
qed simp

text \<open>C29: the loop over port ranges ends for ranges of port numbers, and lists at most 101 ports of each, but not for
  every range.  It fails to return exactly when some range has a bound from which the counter comes to rest before it
  passes the end and the hundredth port: a range from infinity to infinity, or one that reaches \<open>2 ^ 53\<close>, where adding one
  to a double has no effect; and when it returns there are at most 202 ports for each range.\<close>
theorem port_ranges_end:
  "(parsePortRanges ranges = None \<longleftrightarrow> (\<exists>rg \<in> set ranges. endless rg)) \<and>
   (\<forall>ps. parsePortRanges ranges = Some ps \<longrightarrow> length ps \<le> 202 * length ranges) \<and>
   (a \<le> 65535 \<and> b \<le> 65535 \<longrightarrow> parsePortRanges [show_nat a @ ''-'' @ show_nat b] =
      Some (map (\<lambda>q. Fin (of_nat q)) [a..<Suc (min b (a + 100))]))"
  using ranges_result [of ranges] by (simp add: ordinary_range del: upt_Suc append_Cons append_Nil)

section \<open>What is merged\<close>

lemma merged_ports: "set (ar_ports (foldl (\<lambda>v r. merge_rule r v) e rs)) = set (ar_ports e) \<union> (\<Union>r \<in> set rs. set (ar_ports r))"
  by (induction rs rule: rev_induct) (auto simp: merge_rule_def)

lemma merged_fields: "\<exists>ps. foldl (\<lambda>v r. merge_rule r v) e rs = e\<lparr>ar_ports := ps\<rparr>"
proof (induction rs rule: rev_induct)
  case Nil
  have "e = e\<lparr>ar_ports := ar_ports e\<rparr>" by simp
  then show ?case by (simp only: foldl_Nil) blast
next
  case (snoc r rs)
  then obtain ps where "foldl (\<lambda>v r. merge_rule r v) e rs = e\<lparr>ar_ports := ps\<rparr>" by blast
  then have "foldl (\<lambda>v r. merge_rule r v) e (rs @ [r]) = e\<lparr>ar_ports := os_of (ps @ ar_ports r)\<rparr>" by (simp add: merge_rule_def)
  then show ?case by blast
qed

lemma find_via_filter: "find P xs = (case filter P xs of [] \<Rightarrow> None | x # _ \<Rightarrow> Some x)"
  by (induction xs) auto

lemma merged_key:
  assumes "bucket_of (\<lambda>r. r) merge_rule (rows_of (\<lambda>_. True) rule_key k raw) = Some r"
  shows "rule_key r = k" "find (\<lambda>q. rule_key q = k) raw = Some (r\<lparr>ar_ports := ar_ports (the (find (\<lambda>q. rule_key q = k) raw))\<rparr>)"
    "set (ar_ports r) = (\<Union>q \<in> {q \<in> set raw. rule_key q = k}. set (ar_ports q))"
proof -
  obtain q qs where rows: "rows_of (\<lambda>_. True) rule_key k raw = q # qs" and r: "r = foldl (\<lambda>v r. merge_rule r v) q qs"
    using assms by (auto elim: bucket_ofE)
  have "{q \<in> set raw. rule_key q = k} = set (rows_of (\<lambda>_. True) rule_key k raw)" by (simp add: rows_of_def)
  then have qs: "{q \<in> set raw. rule_key q = k} = set (q # qs)" by (simp only: rows)
  have q: "find (\<lambda>q. rule_key q = k) raw = Some q" using rows by (simp add: rows_of_def find_via_filter)
  show "set (ar_ports r) = (\<Union>q \<in> {q \<in> set raw. rule_key q = k}. set (ar_ports q))"
    unfolding qs r merged_ports by simp
  obtain ps where rq: "r = q\<lparr>ar_ports := ps\<rparr>" using merged_fields [of q qs] unfolding r by blast
  have "rule_key q = k" using qs by auto
  then show "rule_key r = k" by (simp add: rq rule_key_def)
  have "r\<lparr>ar_ports := ar_ports q\<rparr> = q" by (simp add: rq)
  then show "find (\<lambda>q. rule_key q = k) raw = Some (r\<lparr>ar_ports := ar_ports (the (find (\<lambda>q. rule_key q = k) raw))\<rparr>)"
    by (simp add: q)
qed

section \<open>What the configuration says\<close>

definition access_policies :: "fields \<Rightarrow> fields list" where
  "access_policies config = raw_list config [''firewallpolicy'', ''firewallPolicies'']"

definition legacy_rules :: "fields \<Rightarrow> fields list" where
  "legacy_rules config = raw_list config [''firewallrule'', ''firewallRules'']"

definition device_names :: "fields \<Rightarrow> stored_profile option \<Rightarrow> (string \<times> string) list" where
  "device_names config profile = getKnownDevices profile (raw_list config [''user'', ''clients''])"

text \<open>A policy speaks of a network, an address and an action when it is enabled and names both; its ports are those of
  its ranges.\<close>

definition policy_says :: "fields \<Rightarrow> stored_profile option \<Rightarrow> fields \<Rightarrow> access_rule \<Rightarrow> bool" where
  "policy_says config profile p q \<longleftrightarrow>
     get_bool p ''enabled'' = Some True \<and>
     (\<exists>ips. get_strs (get_obj p ''destination'') ''ip_addresses'' = Some ips \<and> ar_targetIp q \<in> set ips) \<and>
     (\<exists>ids. get_strs (get_obj p ''source'') ''network_ids'' = Some ids \<and> ar_sourceNetworkId q \<in> set ids) \<and>
     parsePortRanges (dflt [] (get_strs (get_obj p ''destination'') ''port_ranges'')) = Some (ar_ports q) \<and>
     (ar_action q = AllowRule \<longleftrightarrow> get_str p ''action'' = Some ''ALLOW'') \<and>
     ar_ruleId q = get_str p ''_id'' \<and> ar_ruleName q = str_dflt (get_str p ''name'') ''Unnamed Policy'' \<and>
     ar_sourceNetwork q = mapped_or (network_names (access_networks config)) (ar_sourceNetworkId q) \<and>
     ar_targetDevice q = mapped_or (device_names config profile) (ar_targetIp q)"

text \<open>A legacy rule speaks of its one address when it is enabled and has one.  Its source is the first network of the name
  it gives; without a name, or when no network is called so, it is any source.\<close>

definition source_says :: "(string \<times> string) list \<Rightarrow> string option \<Rightarrow> string \<times> string \<Rightarrow> bool" where
  "source_says names src e \<longleftrightarrow>
     (\<exists>k < length names. e = names ! k \<and> truthy src \<and> src = Some (snd e) \<and> (\<forall>i < k. src \<noteq> Some (snd (names ! i)))) \<or>
     e = ([], ''Any'') \<and> (truthy src \<longrightarrow> (\<forall>x \<in> set names. src \<noteq> Some (snd x)))"

definition legacy_says :: "fields \<Rightarrow> stored_profile option \<Rightarrow> fields \<Rightarrow> access_rule \<Rightarrow> bool" where
  "legacy_says config profile l q \<longleftrightarrow>
     get_bool l ''enabled'' = Some True \<and> get_str l ''dst_address'' = Some (ar_targetIp q) \<and> ar_targetIp q \<noteq> [] \<and>
     source_says (network_names (access_networks config)) (get_str l ''src_network'')
       (ar_sourceNetworkId q, ar_sourceNetwork q) \<and>
     ar_ports q = concat (map (\<lambda>s. case js_parse_int (js_trim s) of None \<Rightarrow> [] | Some n \<Rightarrow> [to_double (of_int n)])
       (split_on CHR '','' (dflt [] (get_str l ''dst_port'')))) \<and>
     (ar_action q = AllowRule \<longleftrightarrow> get_str l ''action'' = Some ''accept'') \<and>
     ar_ruleId q = Some (dflt [] (get_str l ''_id'')) \<and> ar_ruleName q = str_dflt (get_str l ''name'') ''Unnamed Rule'' \<and>
     ar_targetDevice q = mapped_or (device_names config profile) (ar_targetIp q)"

lemma action_says: "a = (if P then AllowRule else DenyRule) \<longleftrightarrow> (a = AllowRule \<longleftrightarrow> P)"
  by (cases a) auto

lemma policy_rules_says:
  assumes "policy_rules (network_names (access_networks config)) (device_names config profile) p = Some rs"
  shows "q \<in> set rs \<longleftrightarrow> policy_says config profile p q"
proof -
  let ?n = "network_names (access_networks config)" and ?d = "device_names config profile"
  have "q \<in> set rs \<longleftrightarrow> is_on (get_bool p ''enabled'') \<and> (\<exists>ip \<in> set (policy_ips p). \<exists>src \<in> set (policy_sources p). \<exists>ports.
      parsePortRanges (dflt [] (get_strs (get_obj p ''destination'') ''port_ranges'')) = Some ports \<and>
      q = policy_rule ?n ?d p ports ip src)"
    using assms by (auto simp: policy_rules_def split: if_splits option.splits) blast+
  moreover have "q = policy_rule ?n ?d p ports ip src \<longleftrightarrow> ar_targetIp q = ip \<and> ar_sourceNetworkId q = src \<and> ar_ports q = ports \<and>
      (ar_action q = AllowRule \<longleftrightarrow> get_str p ''action'' = Some ''ALLOW'') \<and>
      ar_ruleId q = get_str p ''_id'' \<and> ar_ruleName q = str_dflt (get_str p ''name'') ''Unnamed Policy'' \<and>
      ar_sourceNetwork q = mapped_or ?n src \<and> ar_targetDevice q = mapped_or ?d ip" for ports ip src
    by (cases q) (auto simp: policy_rule_def action_says)
  ultimately show ?thesis
    unfolding policy_says_def policy_ips_def policy_sources_def is_on_def
    by (cases "get_strs (get_obj p ''destination'') ''ip_addresses''"; cases "get_strs (get_obj p ''source'') ''network_ids''")
      (auto simp: dflt_def)
qed

lemma source_says_iff: "e = legacy_source names rule \<longleftrightarrow> source_says names (get_str rule ''src_network'') e"
proof -
  let ?src = "get_str rule ''src_network''"
  consider "\<not> truthy ?src" | "truthy ?src" "find (\<lambda>e. Some (snd e) = ?src) names = None"
    | x where "truthy ?src" "find (\<lambda>e. Some (snd e) = ?src) names = Some x" by blast
  then show ?thesis
  proof cases
    case 1
    then show ?thesis by (auto simp: legacy_source_def source_says_def)
  next
    case 2
    then have "\<forall>x \<in> set names. ?src \<noteq> Some (snd x)" by (force simp: find_None_iff)
    then show ?thesis using 2 by (auto simp: legacy_source_def source_says_def)
  next
    case (3 x)
    then obtain k where k: "k < length names" "?src = Some (snd (names ! k))" "x = names ! k" "\<forall>i < k. ?src \<noteq> Some (snd (names ! i))"
      by (fastforce simp: find_Some_iff)
    then have found: "\<not> (\<forall>x \<in> set names. ?src \<noteq> Some (snd x))" using nth_mem by blast
    have "k' = k" if "k' < length names" "?src = Some (snd (names ! k'))" "\<forall>i < k'. ?src \<noteq> Some (snd (names ! i))" for k'
      using that k by (metis linorder_neqE_nat)
    then have "source_says names ?src e \<longleftrightarrow> e = names ! k" unfolding source_says_def using 3(1) k(1,2,4) found by blast
    moreover have "legacy_source names rule = names ! k" using 3 k(3) by (simp add: legacy_source_def)
    ultimately show ?thesis by simp
  qed
qed

lemma legacy_rule_says:
  "q \<in> set (legacy_rule (network_names (access_networks config)) (device_names config profile) l) \<longleftrightarrow> legacy_says config profile l q"
proof -
  let ?n = "network_names (access_networks config)" and ?d = "device_names config profile"
  have ports: "(if truthy s then listed_ports (the s) else []) =
      concat (map (\<lambda>s. case js_parse_int (js_trim s) of None \<Rightarrow> [] | Some n \<Rightarrow> [to_double (of_int n)]) (split_on CHR '','' (dflt [] s)))"
    if "s = get_str l ''dst_port''" for s
    by (cases s) (auto simp: listed_ports_def dflt_def js_trim_def js_parse_int_def split_sign_def)
  have src: "ar_sourceNetworkId q = fst e \<and> ar_sourceNetwork q = snd e \<longleftrightarrow> (ar_sourceNetworkId q, ar_sourceNetwork q) = e" for e
    by (cases e) auto
  have ident: "str_dflt (get_str l ''_id'') [] = dflt [] (get_str l ''_id'')"
    by (cases "get_str l ''_id''") (auto simp: str_dflt_def dflt_def)
  show ?thesis
    unfolding legacy_says_def source_says_iff [symmetric] ports [OF refl, symmetric] action_says [symmetric] ident [symmetric] src [symmetric]
    by (cases q; cases "get_str l ''dst_address''") (auto simp: legacy_rule_def Let_def is_on_def)
qed

text \<open>Rules before merging: those of the policies, then those of the legacy rules, in order.\<close>

lemma all_policies_concat:
  "all_policies names devices ps =
    (if \<exists>p \<in> set ps. policy_rules names devices p = None then None
     else Some (concat (map (\<lambda>p. the (policy_rules names devices p)) ps)))"
  by (induction ps) (auto split: bind_splits)

definition endless_policy :: "fields \<Rightarrow> bool" where
  "endless_policy p \<longleftrightarrow>
     get_bool p ''enabled'' = Some True \<and> dflt [] (get_strs (get_obj p ''destination'') ''ip_addresses'') \<noteq> [] \<and>
     dflt [] (get_strs (get_obj p ''source'') ''network_ids'') \<noteq> [] \<and>
     (\<exists>rg \<in> set (dflt [] (get_strs (get_obj p ''destination'') ''port_ranges'')). endless rg)"

lemma policy_rules_None: "policy_rules names devices p = None \<longleftrightarrow> endless_policy p"
proof -
  let ?ranges = "dflt [] (get_strs (get_obj p ''destination'') ''port_ranges'')"
  have "parsePortRanges ?ranges = None \<longleftrightarrow> (\<exists>rg \<in> set ?ranges. endless rg)" using ranges_result by blast
  then show ?thesis
    by (cases "parsePortRanges ?ranges")
      (simp_all add: policy_rules_def endless_policy_def policy_ips_def policy_sources_def is_on_def)
qed

lemma extracted_rules:
  "if \<exists>p \<in> set (access_policies config). endless_policy p then extractDeviceAccessRules (Some config) profile = None
   else \<exists>f g. extractDeviceAccessRules (Some config) profile =
          Some (merge_rules (concat (map f (access_policies config)) @ concat (map g (legacy_rules config)))) \<and>
        (\<forall>p \<in> set (access_policies config). \<forall>q. q \<in> set (f p) \<longleftrightarrow> policy_says config profile p q) \<and>
        (\<forall>l \<in> set (legacy_rules config). \<forall>q. q \<in> set (g l) \<longleftrightarrow> legacy_says config profile l q)"
proof -
  let ?n = "network_names (access_networks config)" and ?d = "device_names config profile"
  have e: "extractDeviceAccessRules (Some config) profile = map_option merge_rules
      (Option.bind (all_policies ?n ?d (access_policies config)) (\<lambda>rules. Some (rules @ concat (map (legacy_rule ?n ?d) (legacy_rules config)))))"
    by (simp add: extractDeviceAccessRules_def raw_access_rules_def Let_def device_names_def access_policies_def legacy_rules_def)
  show ?thesis
  proof (cases "\<exists>p \<in> set (access_policies config). endless_policy p")
    case True
    then show ?thesis by (simp add: e all_policies_concat policy_rules_None)
  next
    case False
    then have "policy_rules ?n ?d p = Some (the (policy_rules ?n ?d p))" if "p \<in> set (access_policies config)" for p
      using that policy_rules_None [of ?n ?d p] by (cases "policy_rules ?n ?d p") auto
    then have "\<forall>p \<in> set (access_policies config). \<forall>q. q \<in> set (the (policy_rules ?n ?d p)) \<longleftrightarrow> policy_says config profile p q"
      using policy_rules_says by blast
    moreover have "extractDeviceAccessRules (Some config) profile = Some (merge_rules
        (concat (map (\<lambda>p. the (policy_rules ?n ?d p)) (access_policies config)) @ concat (map (legacy_rule ?n ?d) (legacy_rules config))))"
      using False by (simp add: e all_policies_concat policy_rules_None)
    moreover have "\<forall>l \<in> set (legacy_rules config). \<forall>q. q \<in> set (legacy_rule ?n ?d l) \<longleftrightarrow> legacy_says config profile l q"
      using legacy_rule_says by blast
    ultimately show ?thesis unfolding if_not_P [OF False]
      by (intro exI [of _ "\<lambda>p. the (policy_rules ?n ?d p)"] exI [of _ "legacy_rule ?n ?d"] conjI)
  qed
qed

lemma merged_rules:
  "map rule_key (merge_rules raw) = os_of (map rule_key raw) \<and>
   (\<forall>r \<in> set (merge_rules raw).
       set (ar_ports r) = (\<Union>q \<in> {q \<in> set raw. rule_key q = rule_key r}. set (ar_ports q)) \<and>
       (\<exists>q. find (\<lambda>q. rule_key q = rule_key r) raw = Some q \<and> r = q\<lparr>ar_ports := ar_ports r\<rparr>))"
proof -
  let ?m = "accum (\<lambda>_. True) rule_key (\<lambda>r. r) merge_rule raw"
  have rules: "merge_rules raw = om_values ?m" by (simp add: merge_rules_def)
  have keys: "om_keys ?m = os_of (map rule_key raw)" by (simp add: om_keys_accum)
  have "rule_key (snd x) = fst x" if "x \<in> set ?m" for x
    using merged_key(1) [of "fst x" raw "snd x"] that by (simp add: accum_mem [symmetric])
  then have "map rule_key (merge_rules raw) = map fst ?m" unfolding rules om_values_def map_map comp_def by (intro map_cong refl)
  then have "map rule_key (merge_rules raw) = os_of (map rule_key raw)" using keys by (simp add: om_keys_def)
  moreover have "set (ar_ports r) = (\<Union>q \<in> {q \<in> set raw. rule_key q = rule_key r}. set (ar_ports q)) \<and>
      (\<exists>q. find (\<lambda>q. rule_key q = rule_key r) raw = Some q \<and> r = q\<lparr>ar_ports := ar_ports r\<rparr>)" if "r \<in> set (merge_rules raw)" for r
  proof -
    have "r \<in> snd ` set ?m" using that unfolding rules om_values_def by simp
    then obtain k where "(k, r) \<in> set ?m" by auto
    then have b: "bucket_of (\<lambda>r. r) merge_rule (rows_of (\<lambda>_. True) rule_key k raw) = Some r" unfolding accum_mem .
    have k: "rule_key r = k" using b by (rule merged_key(1))
    obtain ps where f: "find (\<lambda>q. rule_key q = k) raw = Some (r\<lparr>ar_ports := ps\<rparr>)" using merged_key(2) [OF b] by blast
    have "r = r\<lparr>ar_ports := ps\<rparr>\<lparr>ar_ports := ar_ports r\<rparr>" by simp
    then show ?thesis using f merged_key(3) [OF b] unfolding k by blast
  qed
  ultimately show ?thesis by blast
qed

text \<open>C28: the access rules of a configuration.  The extraction does not return exactly when an enabled policy with addresses
  and source networks has a port range that never ends.  Otherwise there is one rule for each source network,
  address and action that some enabled policy or legacy rule names, in the order in which they first occur (policies before
  legacy rules); its ports are exactly those that any of these name, and all else in it is as in the first of
  them.  What a policy and a legacy rule name is read from the configuration: \<open>policy_says\<close> and \<open>legacy_says\<close>.\<close>
theorem access_rules_exact:
  "(extractDeviceAccessRules (Some config) profile = None \<longleftrightarrow> (\<exists>p \<in> set (access_policies config). endless_policy p)) \<and>
   (\<forall>rules. extractDeviceAccessRules (Some config) profile = Some rules \<longrightarrow>
     (\<exists>f g raw. raw = concat (map f (access_policies config)) @ concat (map g (legacy_rules config)) \<and>
        (\<forall>p \<in> set (access_policies config). \<forall>q. q \<in> set (f p) \<longleftrightarrow> policy_says config profile p q) \<and>
        (\<forall>l \<in> set (legacy_rules config). \<forall>q. q \<in> set (g l) \<longleftrightarrow> legacy_says config profile l q) \<and>
        map rule_key rules = os_of (map rule_key raw) \<and>
        (\<forall>r \<in> set rules.
          set (ar_ports r) = (\<Union>q \<in> {q \<in> set raw. rule_key q = rule_key r}. set (ar_ports q)) \<and>
          (\<exists>q. find (\<lambda>q. rule_key q = rule_key r) raw = Some q \<and> r = q\<lparr>ar_ports := ar_ports r\<rparr>))))"
proof (cases "\<exists>p \<in> set (access_policies config). endless_policy p")
  case True
  then show ?thesis using extracted_rules [of config profile] by simp
next
  case False
  then obtain f g where e: "extractDeviceAccessRules (Some config) profile =
        Some (merge_rules (concat (map f (access_policies config)) @ concat (map g (legacy_rules config))))"
      and says: "\<forall>p \<in> set (access_policies config). \<forall>q. q \<in> set (f p) \<longleftrightarrow> policy_says config profile p q"
      "\<forall>l \<in> set (legacy_rules config). \<forall>q. q \<in> set (g l) \<longleftrightarrow> legacy_says config profile l q"
    using extracted_rules [of config profile] by (simp only: if_False) blast
  show ?thesis
  proof (rule conjI)
    show "extractDeviceAccessRules (Some config) profile = None \<longleftrightarrow> (\<exists>p \<in> set (access_policies config). endless_policy p)"
      using e False by simp
    show "(\<forall>rules. extractDeviceAccessRules (Some config) profile = Some rules \<longrightarrow>
     (\<exists>f g raw. raw = concat (map f (access_policies config)) @ concat (map g (legacy_rules config)) \<and>
        (\<forall>p \<in> set (access_policies config). \<forall>q. q \<in> set (f p) \<longleftrightarrow> policy_says config profile p q) \<and>
        (\<forall>l \<in> set (legacy_rules config). \<forall>q. q \<in> set (g l) \<longleftrightarrow> legacy_says config profile l q) \<and>
        map rule_key rules = os_of (map rule_key raw) \<and>
        (\<forall>r \<in> set rules.
          set (ar_ports r) = (\<Union>q \<in> {q \<in> set raw. rule_key q = rule_key r}. set (ar_ports q)) \<and>
          (\<exists>q. find (\<lambda>q. rule_key q = rule_key r) raw = Some q \<and> r = q\<lparr>ar_ports := ar_ports r\<rparr>))))"
    proof (intro allI impI)
      fix rules assume "extractDeviceAccessRules (Some config) profile = Some rules"
      then have r: "rules = merge_rules (concat (map f (access_policies config)) @ concat (map g (legacy_rules config)))"
        using e by simp
      show "\<exists>f g raw. raw = concat (map f (access_policies config)) @ concat (map g (legacy_rules config)) \<and>
        (\<forall>p \<in> set (access_policies config). \<forall>q. q \<in> set (f p) \<longleftrightarrow> policy_says config profile p q) \<and>
        (\<forall>l \<in> set (legacy_rules config). \<forall>q. q \<in> set (g l) \<longleftrightarrow> legacy_says config profile l q) \<and>
        map rule_key rules = os_of (map rule_key raw) \<and>
        (\<forall>r \<in> set rules.
          set (ar_ports r) = (\<Union>q \<in> {q \<in> set raw. rule_key q = rule_key r}. set (ar_ports q)) \<and>
          (\<exists>q. find (\<lambda>q. rule_key q = rule_key r) raw = Some q \<and> r = q\<lparr>ar_ports := ar_ports r\<rparr>))"
        unfolding r
        by (rule exI [of _ f], rule exI [of _ g], rule exI [of _ "concat (map f (access_policies config)) @ concat (map g (legacy_rules config))"])
          (intro conjI refl says merged_rules [THEN conjunct1] merged_rules [THEN conjunct2])
    qed
  qed
qed

section \<open>Witnesses\<close>

theorem port_ranges_end_witness:
  "parsePortRanges [''80-81''] = Some [Fin 80, Fin 81] \<and> parsePortRanges [''Infinity-Infinity''] = None \<and>
   parsePortRanges [''443'', ''9007199254740992-9007199254740993''] = None"
proof -
  have ports: "show_nat 80 @ ''-'' @ show_nat 81 = ''80-81''" by code_simp
  have parts: "split_on CHR ''-'' ''Infinity-Infinity'' = [''Infinity'', ''Infinity'']"
    "split_on CHR ''-'' ''9007199254740992-9007199254740993'' = [''9007199254740992'', ''9007199254740993'']"
    by code_simp+
  have texts: "js_trim t = t \<and> t \<noteq> [] \<and> prefixed_val t = None \<and> split_sign t = (False, t) \<and> t \<noteq> ''Infinity''"
    if "t = ''9007199254740992'' \<or> t = ''9007199254740993''" for t
    using that by (elim disjE; hypsubst; code_simp)
  have "unsigned_decimal ''9007199254740992'' = Some 9007199254740992" "unsigned_decimal ''9007199254740993'' = Some 9007199254740993"
    by (simp_all add: unsigned_decimal_def Let_def is_digit_def dec_val_def digit_val_def pow10_def exponent_val_def)
  moreover have "\<not> overflows 9007199254740992" "\<not> overflows 9007199254740993" by (simp_all add: overflows_def)
  ultimately have "js_number ''9007199254740992'' = Fin 9007199254740992" "js_number ''9007199254740993'' = Fin 9007199254740993"
    using texts unfolding js_number_def Let_def by simp_all
  moreover have "js_number ''Infinity'' = Inf False" by code_simp
  moreover have "to_double 9007199254740992 = Fin 9007199254740992" "to_double 9007199254740993 = Fin 9007199254740992"
    using nat_exact [of "2 ^ 53"] no_progress by simp_all
  moreover have "js_le (Fin 9007199254740992) (to_double 9007199254741092)"
    using add_hundred_above [of "2 ^ 53"] by simp
  ultimately have "endless ''Infinity-Infinity''" "endless ''9007199254740992-9007199254740993''"
    by (simp_all add: endless_def parts stuck_def Let_def rest_point_def)
  then show ?thesis
    using port_ranges_end [of "[''Infinity-Infinity'']"] port_ranges_end [of "[''443'', ''9007199254740992-9007199254740993'']"]
      port_ranges_end [of "[]" 80 81, THEN conjunct2, THEN conjunct2, THEN mp]
    unfolding ports by (simp add: upt_rec)
qed

definition demo_access :: fields where
  "demo_access =
     [(''firewallrule'', JArr
        [JObj [(''enabled'', JBool True), (''dst_address'', JStr ''10.0.0.9''), (''dst_port'', JStr ''80,443''), (''action'', JStr ''accept'')],
         JObj [(''enabled'', JBool True), (''dst_address'', JStr ''10.0.0.9''), (''dst_port'', JStr ''22''), (''action'', JStr ''accept'')]])]"

lemma demo_legacy: "legacy_rules demo_access \<noteq> [] \<and> access_policies demo_access = []"
  by code_simp

theorem access_rules_exact_witness:
  "\<exists>rules. extractDeviceAccessRules (Some demo_access) None = Some rules \<and>
     (\<forall>r \<in> set rules. \<exists>q. (\<exists>l \<in> set (legacy_rules demo_access). legacy_says demo_access None l q) \<and>
        r = q\<lparr>ar_ports := ar_ports r\<rparr>)"
proof -
  have "extractDeviceAccessRules (Some demo_access) None \<noteq> None"
    using access_rules_exact [of demo_access None, THEN conjunct1] demo_legacy by simp
  then obtain rules where rules: "extractDeviceAccessRules (Some demo_access) None = Some rules" by blast
  obtain f g raw where raw: "raw = concat (map f (access_policies demo_access)) @ concat (map g (legacy_rules demo_access))"
    and g: "\<forall>l \<in> set (legacy_rules demo_access). \<forall>q. q \<in> set (g l) \<longleftrightarrow> legacy_says demo_access None l q"
    and merged: "\<forall>r \<in> set rules. set (ar_ports r) = (\<Union>q \<in> {q \<in> set raw. rule_key q = rule_key r}. set (ar_ports q)) \<and>
      (\<exists>q. find (\<lambda>q. rule_key q = rule_key r) raw = Some q \<and> r = q\<lparr>ar_ports := ar_ports r\<rparr>)"
    using access_rules_exact [of demo_access None, THEN conjunct2, THEN spec, THEN mp, OF rules]
    by (elim exE conjE) (rule that, assumption+)
  have first: "\<exists>q. find (\<lambda>q. rule_key q = rule_key r) raw = Some q \<and> r = q\<lparr>ar_ports := ar_ports r\<rparr>" if "r \<in> set rules" for r
    by (rule bspec [OF merged that, THEN conjunct2])
  have "\<exists>l \<in> set (legacy_rules demo_access). legacy_says demo_access None l q" if "find P raw = Some q" for P q
  proof -
    have "q \<in> set raw" using that by (auto simp: find_Some_iff)
    then show ?thesis using g demo_legacy by (auto simp: raw)
  qed
  then have "\<exists>q. (\<exists>l \<in> set (legacy_rules demo_access). legacy_says demo_access None l q) \<and> r = q\<lparr>ar_ports := ar_ports r\<rparr>"
    if "r \<in> set rules" for r
    using first [OF that] by blast
  with rules show ?thesis by blast
qed

section \<open>What the summary gets wrong\<close>

text \<open>A rule without ports is for all ports; merged with one for port 22 it becomes a rule for port 22.\<close>
lemma any_port_rule_narrowed:
  assumes "ar_ports a = []" and "ar_ports b = [p]" and "rule_key a = rule_key b"
  shows "map ar_ports (merge_rules [a, b]) = [[p]]"
  using assms by (simp add: merge_rules_def accum_def accum_step_def om_get_def om_values_def merge_rule_def os_of_def os_add_def)

text \<open>A source network that no network is called, is reported as any source.\<close>
lemma unknown_source_is_any:
  assumes "\<forall>e \<in> set names. Some (snd e) \<noteq> get_str rule ''src_network''"
  shows "legacy_source names rule = ([], ''Any'')"
proof -
  have "find (\<lambda>e. Some (snd e) = get_str rule ''src_network'') names = None" using assms by (force simp: find_None_iff)
  then show ?thesis by (simp add: legacy_source_def)
qed

text \<open>A rule for any source is in the summary of no network.\<close>
lemma any_source_in_no_summary:
  assumes "getNetworkAccessRules active profile networkId = Some rules" and "networkId \<noteq> []"
  shows "\<forall>r \<in> set rules. ar_sourceNetworkId r \<noteq> []"
  using assms by (auto simp: getNetworkAccessRules_def)

text \<open>The topology analyzer reads the addresses of a policy under \<open>ips\<close>; a policy that has them there has no rule
  here.\<close>
lemma addresses_under_ips_ignored:
  assumes "get_strs (get_obj policy ''destination'') ''ip_addresses'' = None"
  shows "policy_rules names devices policy = Some []"
  using assms by (simp add: policy_rules_def policy_ips_def)

text \<open>A legacy rule with a range of ports is listed with the first alone.\<close>
lemma legacy_range_cut: "listed_ports ''5000-5010'' = [Fin 5000]"
  by code_simp

end
