(* ===== verification/Detector_Identity.thy ===== *)
theory Detector_Identity
  imports Detection_Types Js_Parse
begin

text \<open>
  \<open>detectors/identity.ts\<close>: the identity of a device in the observed events, with addresses in one canonical form, and
  the fingerprints of findings.  The digest of a fingerprint is an argument; a time in stored metadata is its number
  of milliseconds instead of its ISO text.
\<close>

section \<open>Addresses\<close>

definition nonempty :: "string option \<Rightarrow> string option" where
  "nonempty s = (case s of None \<Rightarrow> None | Some t \<Rightarrow> if js_trim t = [] then None else Some (js_trim t))"

definition is_hex :: "char \<Rightarrow> bool" where
  "is_hex c = (case digit_val c of None \<Rightarrow> False | Some d \<Rightarrow> d < 16)"

definition hex_block :: "nat \<Rightarrow> string \<Rightarrow> bool" where
  "hex_block k s \<longleftrightarrow> length s = k \<and> list_all is_hex s"

text \<open>Twelve digits, or six pairs with colons or hyphens, or three groups of four with dots.\<close>

definition mac_shape :: "string \<Rightarrow> bool" where
  "mac_shape s \<longleftrightarrow>
     hex_block 12 s \<or>
     (length (split_on CHR '':'' s) = 6 \<and> list_all (hex_block 2) (split_on CHR '':'' s)) \<or>
     (length (split_on CHR ''-'' s) = 6 \<and> list_all (hex_block 2) (split_on CHR ''-'' s)) \<or>
     (length (split_on CHR ''.'' s) = 3 \<and> list_all (hex_block 4) (split_on CHR ''.'' s))"

fun pairs_of :: "string \<Rightarrow> string list" where
  "pairs_of (a # b # rest) = [a, b] # pairs_of rest"
| "pairs_of _ = []"

definition mac_digits :: "string \<Rightarrow> string" where
  "mac_digits s = to_lower (filter (\<lambda>c. c \<notin> set '':.-'') s)"

definition normalizeMac :: "string option \<Rightarrow> string option" where
  "normalizeMac v =
     (case nonempty v of
        None \<Rightarrow> None
      | Some mac \<Rightarrow>
          if \<not> mac_shape mac then None
          else if mac_digits mac = ''000000000000'' \<or> mac_digits mac = ''ffffffffffff'' then None
          else Some (join '':'' (pairs_of (mac_digits mac))))"

text \<open>Four numbers below 256 without leading zeros.\<close>

definition octet :: "string \<Rightarrow> nat option" where
  "octet s =
     (if s \<noteq> [] \<and> length s \<le> 3 \<and> list_all is_digit s \<and> (length s = 1 \<or> hd s \<noteq> CHR ''0'') \<and> dec_val s < 256
      then Some (dec_val s) else None)"

fun all_of :: "('a \<Rightarrow> 'b option) \<Rightarrow> 'a list \<Rightarrow> 'b list option" where
  "all_of f [] = Some []"
| "all_of f (x # xs) =
     (case f x of None \<Rightarrow> None | Some y \<Rightarrow> (case all_of f xs of None \<Rightarrow> None | Some ys \<Rightarrow> Some (y # ys)))"

definition ip4_octets :: "string \<Rightarrow> nat list option" where
  "ip4_octets s =
     (case all_of octet (split_on CHR ''.'' s) of None \<Rightarrow> None | Some os \<Rightarrow> if length os = 4 then Some os else None)"

text \<open>A group of an IPv6 address; the last one may be an IPv4 address, which stands for two.\<close>

definition group_val :: "string \<Rightarrow> nat option" where
  "group_val s = (if s \<noteq> [] \<and> length s \<le> 4 then digits_val 16 0 s else None)"

fun tail_groups :: "string list \<Rightarrow> nat list option" where
  "tail_groups [] = Some []"
| "tail_groups [p] =
     (if CHR ''.'' \<in> set p then
        (case ip4_octets p of Some [a, b, c, d] \<Rightarrow> Some [256 * a + b, 256 * c + d] | _ \<Rightarrow> None)
      else (case group_val p of None \<Rightarrow> None | Some n \<Rightarrow> Some [n]))"
| "tail_groups (p # ps) =
     (case group_val p of
        None \<Rightarrow> None
      | Some n \<Rightarrow> (case tail_groups ps of None \<Rightarrow> None | Some ns \<Rightarrow> Some (n # ns)))"

text \<open>The text before and after the first double colon.\<close>

fun split_double :: "string \<Rightarrow> (string \<times> string) option" where
  "split_double (a # b # s) =
     (if a = CHR '':'' \<and> b = CHR '':'' then Some ([], s)
      else map_option (\<lambda>(l, r). (a # l, r)) (split_double (b # s)))"
| "split_double _ = None"

definition part_groups :: "(string list \<Rightarrow> nat list option) \<Rightarrow> string \<Rightarrow> nat list option" where
  "part_groups f s = (if s = [] then Some [] else f (split_on CHR '':'' s))"

definition ip6_groups :: "string \<Rightarrow> nat list option" where
  "ip6_groups s =
     (case split_double s of
        None \<Rightarrow> (case tail_groups (split_on CHR '':'' s) of None \<Rightarrow> None | Some gs \<Rightarrow> if length gs = 8 then Some gs else None)
      | Some (l, r) \<Rightarrow>
          (case (part_groups (all_of group_val) l, part_groups tail_groups r) of
             (Some a, Some b) \<Rightarrow>
               if length a + length b \<le> 7 then Some (a @ replicate (8 - length a - length b) 0 @ b) else None
           | _ \<Rightarrow> None))"

text \<open>The canonical text: lower-case digits, and the first of the longest runs of two zeros or more left out.\<close>

fun show_hex :: "nat \<Rightarrow> string" where
  "show_hex n = (if n < 16 then [hex_digit n] else show_hex (n div 16) @ [hex_digit (n mod 16)])"

declare show_hex.simps [simp del]

definition zero_run :: "nat list \<Rightarrow> nat \<Rightarrow> nat" where
  "zero_run gs i = length (takeWhile (\<lambda>g. g = 0) (drop i gs))"

definition longest_run :: "nat list \<Rightarrow> nat" where
  "longest_run gs = foldl max 0 (map (zero_run gs) [0..<length gs])"

definition run_start :: "nat list \<Rightarrow> nat" where
  "run_start gs = dflt 0 (find (\<lambda>i. zero_run gs i = longest_run gs) [0..<length gs])"

definition show_groups :: "nat list \<Rightarrow> string" where
  "show_groups gs = join '':'' (map show_hex gs)"

definition show_ip6 :: "nat list \<Rightarrow> string" where
  "show_ip6 gs =
     (if longest_run gs < 2 then show_groups gs
      else show_groups (take (run_start gs) gs) @ ''::'' @ show_groups (drop (run_start gs + longest_run gs) gs))"

definition show_ip4 :: "nat list \<Rightarrow> string" where
  "show_ip4 os = join ''.'' (map show_nat os)"

definition normalizeIp :: "string option \<Rightarrow> string option" where
  "normalizeIp v =
     (case nonempty v of
        None \<Rightarrow> None
      | Some ip \<Rightarrow>
          if ip4_octets ip \<noteq> None then Some ip
          else if CHR ''%'' \<in> set ip then None
          else
            (case ip6_groups ip of
               None \<Rightarrow> None
             | Some gs \<Rightarrow>
                 if take 6 gs = [0, 0, 0, 0, 0, 65535]
                 then Some (show_ip4 [gs ! 6 div 256, gs ! 6 mod 256, gs ! 7 div 256, gs ! 7 mod 256])
                 else Some (show_ip6 gs)))"

section \<open>Identities\<close>

datatype source_kind = UnifiSource | AdguardSource

definition source_text :: "source_kind \<Rightarrow> string" where
  "source_text k = (case k of UnifiSource \<Rightarrow> ''unifi'' | AdguardSource \<Rightarrow> ''adguard'')"

record detector_identity =
  di_sourceKind :: source_kind
  di_connectionId :: "string option"
  di_scopeId :: "string option"
  di_srcIp :: "string option"
  di_srcMac :: "string option"
  di_eventId :: string
  di_observedAt :: "int option"

text \<open>An identity needs an event; without one the code throws.\<close>

definition createDetectorIdentity ::
    "source_kind \<Rightarrow> string option \<Rightarrow> string option \<Rightarrow> string option \<Rightarrow> string option \<Rightarrow> string \<Rightarrow> int option \<Rightarrow>
     detector_identity option" where
  "createDetectorIdentity kind connectionId scopeId srcIp srcMac eventId observedAt =
     (case nonempty (Some eventId) of
        None \<Rightarrow> None
      | Some e \<Rightarrow>
          Some \<lparr>di_sourceKind = kind, di_connectionId = nonempty connectionId, di_scopeId = nonempty scopeId,
                di_srcIp = normalizeIp srcIp, di_srcMac = normalizeMac srcMac, di_eventId = e, di_observedAt = observedAt\<rparr>)"

definition identity_json :: "detector_identity \<Rightarrow> json" where
  "identity_json i =
     JObj [(''version'', JNum 2), (''sourceKind'', JStr (source_text (di_sourceKind i))),
           (''connectionId'', js_opt_str (di_connectionId i)), (''scopeId'', js_opt_str (di_scopeId i)),
           (''srcIp'', js_opt_str (di_srcIp i)), (''srcMac'', js_opt_str (di_srcMac i)), (''eventId'', JStr (di_eventId i)),
           (''observedAt'', (case di_observedAt i of None \<Rightarrow> JNull | Some t \<Rightarrow> js_int t))]"

definition parse_kind :: "json \<Rightarrow> source_kind option" where
  "parse_kind j = (if j = JStr ''unifi'' then Some UnifiSource else if j = JStr ''adguard'' then Some AdguardSource else None)"

definition null_or_str :: "json \<Rightarrow> bool" where
  "null_or_str j = (case j of JNull \<Rightarrow> True | JStr s \<Rightarrow> True | _ \<Rightarrow> False)"

definition null_or_time :: "json \<Rightarrow> bool" where
  "null_or_time j = (case j of JNull \<Rightarrow> True | JNum q \<Rightarrow> True | _ \<Rightarrow> False)"

definition parse_time :: "json \<Rightarrow> int option" where
  "parse_time j = (case j of JNum q \<Rightarrow> Some \<lfloor>q\<rfloor> | _ \<Rightarrow> None)"

definition parseDetectorIdentity :: "json \<Rightarrow> detector_identity option" where
  "parseDetectorIdentity v =
     (case v of
        JObj kvs \<Rightarrow>
          (case parse_kind (field kvs ''sourceKind'') of
             None \<Rightarrow> None
           | Some kind \<Rightarrow>
               if field kvs ''version'' \<noteq> JNum 2 \<or> nonempty (get_str kvs ''eventId'') = None then None
               else if \<not> list_all (\<lambda>k. null_or_str (field kvs k)) [''connectionId'', ''scopeId'', ''srcIp'', ''srcMac''] then None
               else if \<not> null_or_time (field kvs ''observedAt'') then None
               else
                 (case createDetectorIdentity kind (get_str kvs ''connectionId'') (get_str kvs ''scopeId'') (get_str kvs ''srcIp'')
                         (get_str kvs ''srcMac'') (the (get_str kvs ''eventId'')) (parse_time (field kvs ''observedAt'')) of
                    None \<Rightarrow> None
                  | Some i \<Rightarrow>
                      if (field kvs ''srcIp'' \<noteq> JNull \<and> di_srcIp i = None) \<or> (field kvs ''srcMac'' \<noteq> JNull \<and> di_srcMac i = None)
                      then None else Some i))
      | _ \<Rightarrow> None)"

section \<open>Keys\<close>

definition deviceIdentityKey :: "detector_identity \<Rightarrow> string" where
  "deviceIdentityKey i =
     (case di_srcMac i of
        Some mac \<Rightarrow> ''mac:'' @ mac
      | None \<Rightarrow> (case di_srcIp i of Some ip \<Rightarrow> ''ip:'' @ ip | None \<Rightarrow> ''event:'' @ di_eventId i))"

definition incomplete_scope :: "detector_identity \<Rightarrow> bool" where
  "incomplete_scope i \<longleftrightarrow> di_connectionId i = None \<or> (di_sourceKind i = UnifiSource \<and> di_scopeId i = None)"

definition identityScopeKey :: "detector_identity \<Rightarrow> string" where
  "identityScopeKey i =
     js_stringify (JArr [JStr (source_text (di_sourceKind i)), js_opt_str (di_connectionId i), js_opt_str (di_scopeId i),
                         (if incomplete_scope i then JStr (di_eventId i) else JNull)])"

definition scopedDeviceKey :: "detector_identity \<Rightarrow> string" where
  "scopedDeviceKey i = js_stringify (JArr [JStr (identityScopeKey i), JStr (deviceIdentityKey i)])"

definition detectorFingerprint :: "(string \<Rightarrow> string) \<Rightarrow> string \<Rightarrow> detector_identity \<Rightarrow> string option \<Rightarrow> string" where
  "detectorFingerprint digest detectorId i indicator =
     detectorId @ '':v2:'' @ digest (js_stringify (JArr [JStr (scopedDeviceKey i), js_opt_str indicator]))"

section \<open>Reading back the text of an address\<close>

lemma hex_digit_val: "d < 16 \<Longrightarrow> digit_val (hex_digit d) = Some d"
  by (cases "d < 10") (simp_all add: hex_digit_def digit_val_def Let_def)

lemma show_hex_val: "digits_val 16 0 (show_hex n) = Some n"
proof (induction n rule: show_hex.induct)
  case (1 n)
  show ?case
  proof (cases "n < 16")
    case True
    then show ?thesis by (simp add: show_hex.simps [of n] hex_digit_val)
  next
    case False
    then show ?thesis using 1 by (simp add: show_hex.simps [of n] digits_val_append hex_digit_val)
  qed
qed

lemma show_hex_ne [simp]: "show_hex n \<noteq> []"
  by (simp add: show_hex.simps [of n])

lemma show_hex_length: "n < 16 ^ Suc k \<Longrightarrow> length (show_hex n) \<le> Suc k"
proof (induction k arbitrary: n)
  case 0
  then show ?case by (simp add: show_hex.simps [of n])
next
  case (Suc k)
  then have "n div 16 < 16 ^ Suc k" by (simp add: div_less_iff_less_mult)
  then show ?case using Suc.IH [of "n div 16"] by (simp add: show_hex.simps [of n])
qed

lemma digit_val_no_sep: "digit_val c = Some d \<Longrightarrow> c \<noteq> CHR '':'' \<and> c \<noteq> CHR ''.'' \<and> c \<noteq> CHR ''%'' \<and> \<not> is_space c"
  by (auto simp: digit_val_def Let_def is_space_def)

lemma digits_val_chars: "digits_val b a s = Some n \<Longrightarrow> c \<in> set s \<Longrightarrow> \<exists>d. digit_val c = Some d"
  by (induction s arbitrary: a) (auto split: option.splits if_splits)

lemma show_hex_chars: "c \<in> set (show_hex n) \<Longrightarrow> c \<noteq> CHR '':'' \<and> c \<noteq> CHR ''.'' \<and> c \<noteq> CHR ''%'' \<and> \<not> is_space c"
  using digits_val_chars [OF show_hex_val] digit_val_no_sep by blast

lemma group_val_show: "n < 65536 \<Longrightarrow> group_val (show_hex n) = Some n"
  using show_hex_length [of n 3] by (simp add: group_val_def show_hex_val)

lemma group_val_bound: "group_val s = Some n \<Longrightarrow> n < 65536"
proof -
  have bound: "digits_val 16 a s = Some n \<Longrightarrow> n < (a + 1) * 16 ^ length s" for a s n
  proof (induction s arbitrary: a)
    case (Cons c s)
    then obtain d where d: "d < 16" "digits_val 16 (a * 16 + d) s = Some n" by (auto split: option.splits if_splits)
    then have "n < (a * 16 + d + 1) * 16 ^ length s" using Cons.IH by simp
    also have "\<dots> \<le> ((a + 1) * 16) * 16 ^ length s" using d(1) by (intro mult_right_mono) simp_all
    finally show ?case by (simp add: algebra_simps)
  qed simp
  assume "group_val s = Some n"
  then have s: "length s \<le> 4" "digits_val 16 0 s = Some n" by (auto simp: group_val_def split: if_splits)
  then have "n < 16 ^ length s" using bound [of 0 s n] by simp
  also have "\<dots> \<le> 16 ^ 4" using s(1) by (intro power_increasing) simp_all
  finally show "n < 65536" by simp
qed

lemma tail_groups_Cons:
  "ps \<noteq> [] \<Longrightarrow> tail_groups (p # ps) =
     (case group_val p of None \<Rightarrow> None | Some n \<Rightarrow> (case tail_groups ps of None \<Rightarrow> None | Some ns \<Rightarrow> Some (n # ns)))"
  by (cases ps) auto

lemma tail_groups_show: "list_all (\<lambda>g. g < 65536) gs \<Longrightarrow> tail_groups (map show_hex gs) = Some gs"
proof (induction gs)
  case (Cons g gs)
  have "CHR ''.'' \<notin> set (show_hex g)" using show_hex_chars by blast
  then show ?case using Cons by (cases gs) (simp_all add: tail_groups_Cons group_val_show)
qed simp

lemma all_of_show: "list_all (\<lambda>g. g < 65536) gs \<Longrightarrow> all_of group_val (map show_hex gs) = Some gs"
  by (induction gs) (simp_all add: group_val_show)

lemma split_show: "gs \<noteq> [] \<Longrightarrow> split_on CHR '':'' (show_groups gs) = map show_hex gs"
  unfolding show_groups_def by (rule split_on_join) (use show_hex_chars in \<open>auto simp: image_iff\<close>)

lemma show_groups_Cons:
  "show_groups [] = []" "show_groups [g] = show_hex g" "gs \<noteq> [] \<Longrightarrow> show_groups (g # gs) = show_hex g @ CHR '':'' # show_groups gs"
  by (simp_all add: show_groups_def) (cases gs; simp)

lemma show_groups_empty [simp]: "show_groups gs = [] \<longleftrightarrow> gs = []"
  by (cases gs; cases "tl gs") (simp_all add: show_groups_Cons)

lemma part_groups_show:
  assumes "list_all (\<lambda>g. g < 65536) gs"
  shows "part_groups tail_groups (show_groups gs) = Some gs" "part_groups (all_of group_val) (show_groups gs) = Some gs"
  using assms by (cases "gs = []"; simp add: part_groups_def split_show tail_groups_show all_of_show)+

text \<open>Without a colon at its end, and without a double colon, a text ends where a double colon follows it.\<close>

lemma split_double_append:
  "split_double w = None \<Longrightarrow> w = [] \<or> last w \<noteq> CHR '':'' \<Longrightarrow> split_double (w @ ''::'' @ r) = Some (w, r)"
proof (induction w rule: split_double.induct)
  case (1 a b s)
  then have "\<not> (a = CHR '':'' \<and> b = CHR '':'')" "split_double (b # s) = None" by (auto split: if_splits)
  then show ?case using 1 by simp
qed simp_all

lemma split_double_pieces:
  assumes "CHR '':'' \<notin> set p" and "p \<noteq> []"
  shows "split_double p = None" "w \<noteq> [] \<Longrightarrow> hd w \<noteq> CHR '':'' \<Longrightarrow> split_double (p @ CHR '':'' # w) = None \<longleftrightarrow> split_double w = None"
proof -
  show "split_double p = None" using assms by (induction p rule: split_double.induct) auto
  show "split_double (p @ CHR '':'' # w) = None \<longleftrightarrow> split_double w = None" if "w \<noteq> []" "hd w \<noteq> CHR '':''"
    using assms
  proof (induction p)
    case (Cons c p)
    show ?case
    proof (cases p)
      case Nil
      then show ?thesis using Cons.prems that by (cases w) auto
    next
      case (Cons d q)
      then show ?thesis using Cons.IH Cons.prems by (cases w) auto
    qed
  qed simp
qed

lemma show_groups_ends:
  assumes "gs \<noteq> []"
  shows "hd (show_groups gs) \<noteq> CHR '':''" "last (show_groups gs) \<noteq> CHR '':''" "split_double (show_groups gs) = None"
proof -
  have h: "hd (show_hex g) \<noteq> CHR '':''" "last (show_hex g) \<noteq> CHR '':''" "CHR '':'' \<notin> set (show_hex g)" for g
    using show_hex_chars [of _ g] hd_in_set [OF show_hex_ne] last_in_set [OF show_hex_ne] by blast+
  have "hd (show_groups gs) \<noteq> CHR '':'' \<and> last (show_groups gs) \<noteq> CHR '':'' \<and> split_double (show_groups gs) = None"
    using assms
  proof (induction gs)
    case (Cons g gs)
    show ?case
    proof (cases "gs = []")
      case True
      then show ?thesis using h split_double_pieces(1) by (simp add: show_groups_Cons)
    next
      case False
      then have "split_double (show_hex g @ CHR '':'' # show_groups gs) = None"
        using Cons.IH split_double_pieces(2) [of "show_hex g" "show_groups gs"] h by simp
      then show ?thesis using False Cons.IH h by (simp add: show_groups_Cons)
    qed
  qed simp
  then show "hd (show_groups gs) \<noteq> CHR '':''" "last (show_groups gs) \<noteq> CHR '':''" "split_double (show_groups gs) = None" by simp_all
qed

lemma foldl_max_mem: "foldl max (a::nat) xs \<in> insert a (set xs)"
proof (induction xs arbitrary: a)
  case (Cons x xs)
  have "foldl max (max a x) xs \<in> insert (max a x) (set xs)" by (rule Cons.IH)
  moreover have "max a x = a \<or> max a x = x" by (simp add: max_def)
  ultimately show ?case by auto
qed simp

lemma longest_run_at_start:
  assumes "0 < longest_run gs"
  shows "zero_run gs (run_start gs) = longest_run gs"
proof -
  have "longest_run gs \<in> set (map (zero_run gs) [0..<length gs])"
    using foldl_max_mem [of 0 "map (zero_run gs) [0..<length gs]"] assms by (auto simp: longest_run_def)
  then have "find (\<lambda>i. zero_run gs i = longest_run gs) [0..<length gs] \<noteq> None" by (auto simp: find_None_iff)
  then obtain i where "find (\<lambda>i. zero_run gs i = longest_run gs) [0..<length gs] = Some i" by blast
  moreover from this have "zero_run gs i = longest_run gs" by (auto simp: find_Some_iff)
  ultimately show ?thesis by (simp add: run_start_def)
qed

lemma around_run:
  assumes "0 < longest_run gs"
  shows "take (run_start gs) gs @ replicate (longest_run gs) 0 @ drop (run_start gs + longest_run gs) gs = gs"
proof -
  let ?d = "drop (run_start gs) gs"
  have len: "length (takeWhile (\<lambda>g. g = 0) ?d) = longest_run gs"
    using longest_run_at_start [OF assms] by (simp only: zero_run_def)
  have "takeWhile (\<lambda>g. g = 0) ?d = replicate (length (takeWhile (\<lambda>g. g = 0) ?d)) 0"
    by (intro replicate_eqI refl) (auto dest: set_takeWhileD)
  then have zeros: "takeWhile (\<lambda>g. g = 0) ?d = replicate (longest_run gs) 0" unfolding len .
  have "dropWhile (\<lambda>g. g = 0) ?d = drop (longest_run gs) ?d" unfolding dropWhile_eq_drop len ..
  then have "?d = replicate (longest_run gs) 0 @ drop (run_start gs + longest_run gs) gs"
    using takeWhile_dropWhile_id [of "\<lambda>g. g = 0" ?d] zeros by (simp add: add.commute)
  then show ?thesis by (metis append_take_drop_id)
qed

text \<open>The canonical text of eight groups is read as these groups.\<close>

lemma ip6_round:
  assumes "length gs = 8" and "list_all (\<lambda>g. g < 65536) gs"
  shows "ip6_groups (show_ip6 gs) = Some gs"
proof (cases "longest_run gs < 2")
  case True
  have "gs \<noteq> []" using assms(1) by auto
  then show ?thesis using True assms
    by (simp add: show_ip6_def ip6_groups_def show_groups_ends split_show tail_groups_show)
next
  case False
  define a where "a = take (run_start gs) gs"
  define b where "b = drop (run_start gs + longest_run gs) gs"
  have gs: "a @ replicate (longest_run gs) 0 @ b = gs" using around_run [of gs] False by (simp add: a_def b_def)
  then have len: "length a + longest_run gs + length b = 8" using assms(1) by (metis add.assoc length_append length_replicate)
  have all: "list_all (\<lambda>g. g < 65536) a" "list_all (\<lambda>g. g < 65536) b" proof -
    have "list_all (\<lambda>g. g < 65536) (a @ replicate (longest_run gs) 0 @ b)" unfolding gs by (rule assms(2))
    then show "list_all (\<lambda>g. g < 65536) a" "list_all (\<lambda>g. g < 65536) b" by simp_all
  qed
  have shown: "show_ip6 gs = show_groups a @ ''::'' @ show_groups b" using False by (simp add: show_ip6_def a_def b_def)
  have "split_double (show_groups a @ ''::'' @ show_groups b) = Some (show_groups a, show_groups b)"
    by (rule split_double_append; cases "a = []") (simp_all add: show_groups_ends show_groups_Cons)
  then have "ip6_groups (show_ip6 gs) = Some (a @ replicate (8 - length a - length b) 0 @ b)"
    using len False by (simp add: shown ip6_groups_def part_groups_show [OF all(1)] part_groups_show [OF all(2)])
  also have "8 - length a - length b = longest_run gs" using len by linarith
  finally show ?thesis using gs by simp
qed

lemma ip4_octets_bound: "ip4_octets s = Some os \<Longrightarrow> length os = 4 \<and> list_all (\<lambda>n. n < 256) os"
proof -
  have "all_of octet ps = Some ns \<Longrightarrow> list_all (\<lambda>n. n < 256) ns" for ps ns
    by (induction ps arbitrary: ns) (auto simp: octet_def split: option.splits if_splits)
  then show "ip4_octets s = Some os \<Longrightarrow> length os = 4 \<and> list_all (\<lambda>n. n < 256) os"
    by (auto simp: ip4_octets_def split: option.splits if_splits)
qed

lemma all_of_bound: "all_of group_val ps = Some gs \<Longrightarrow> list_all (\<lambda>g. g < 65536) gs"
  by (induction ps arbitrary: gs) (auto split: option.splits dest: group_val_bound)

lemma tail_groups_bound: "tail_groups ps = Some gs \<Longrightarrow> list_all (\<lambda>g. g < 65536) gs"
proof (induction ps arbitrary: gs rule: tail_groups.induct)
  case (2 p)
  show ?case
  proof (cases "CHR ''.'' \<in> set p")
    case True
    then obtain a b c d where "ip4_octets p = Some [a, b, c, d]" "gs = [256 * a + b, 256 * c + d]"
      using 2 by (auto split: option.splits list.splits)
    then show ?thesis using ip4_octets_bound by force
  next
    case False
    then show ?thesis using 2 by (auto split: option.splits dest: group_val_bound)
  qed
qed (auto split: option.splits dest: group_val_bound)

lemma list_all_replicate: "list_all P (replicate n x) \<longleftrightarrow> n = 0 \<or> P x"
  by (induction n) auto

lemma ip6_groups_bound:
  assumes "ip6_groups s = Some gs"
  shows "length gs = 8" "list_all (\<lambda>g. g < 65536) gs"
proof -
  have p: "part_groups (all_of group_val) t = Some a \<Longrightarrow> list_all (\<lambda>g. g < 65536) a"
    "part_groups tail_groups t = Some a \<Longrightarrow> list_all (\<lambda>g. g < 65536) a" for t a
    by (auto simp: part_groups_def split: if_splits dest: all_of_bound tail_groups_bound)
  have "length gs = 8 \<and> list_all (\<lambda>g. g < 65536) gs"
    using assms unfolding ip6_groups_def
    by (auto split: option.splits prod.splits if_splits dest!: p tail_groups_bound simp: list_all_replicate)
  then show "length gs = 8" "list_all (\<lambda>g. g < 65536) gs" by simp_all
qed

section \<open>Fingerprints\<close>

lemma stringify_inject: "plain_json a \<Longrightarrow> plain_json b \<Longrightarrow> js_stringify a = js_stringify b \<longleftrightarrow> a = b"
  by (metis json_parse_stringify option.inject)

lemma js_opt_str_simps [simp]: "plain_json (js_opt_str s)" "js_opt_str s = js_opt_str t \<longleftrightarrow> s = t"
  by (cases s; cases t; simp add: js_opt_str_def)+

lemma source_text_inject [simp]: "source_text k = source_text k' \<longleftrightarrow> k = k'"
  by (cases k; cases k') (simp_all add: source_text_def)

text \<open>The scope of an identity: its source, connection and site, and only its own event when one of these is missing.\<close>

definition same_scope :: "detector_identity \<Rightarrow> detector_identity \<Rightarrow> bool" where
  "same_scope i j \<longleftrightarrow>
     di_sourceKind i = di_sourceKind j \<and> di_connectionId i = di_connectionId j \<and> di_scopeId i = di_scopeId j \<and>
     (incomplete_scope i \<longrightarrow> di_eventId i = di_eventId j)"

definition same_device :: "detector_identity \<Rightarrow> detector_identity \<Rightarrow> bool" where
  "same_device i j \<longleftrightarrow>
     di_srcMac i = di_srcMac j \<and>
     (di_srcMac i = None \<longrightarrow> di_srcIp i = di_srcIp j \<and> (di_srcIp i = None \<longrightarrow> di_eventId i = di_eventId j))"

lemma identityScopeKey_iff: "identityScopeKey i = identityScopeKey j \<longleftrightarrow> same_scope i j"
  unfolding identityScopeKey_def by (subst stringify_inject) (auto simp: same_scope_def incomplete_scope_def)

lemma deviceIdentityKey_iff: "deviceIdentityKey i = deviceIdentityKey j \<longleftrightarrow> same_device i j"
  by (auto simp: deviceIdentityKey_def same_device_def split: option.splits)

lemma scopedDeviceKey_iff: "scopedDeviceKey i = scopedDeviceKey j \<longleftrightarrow> same_scope i j \<and> same_device i j"
  unfolding scopedDeviceKey_def by (subst stringify_inject) (simp_all add: identityScopeKey_iff deviceIdentityKey_iff)

text \<open>The text whose digest goes into a fingerprint, and two texts that have the same digest.\<close>

definition fingerprint_key :: "detector_identity \<Rightarrow> string option \<Rightarrow> string" where
  "fingerprint_key i x = js_stringify (JArr [JStr (scopedDeviceKey i), js_opt_str x])"

definition collide :: "(string \<Rightarrow> string) \<Rightarrow> string \<Rightarrow> string \<Rightarrow> bool" where
  "collide digest a b \<longleftrightarrow> a \<noteq> b \<and> digest a = digest b"

lemma fingerprint_key_iff: "fingerprint_key i x = fingerprint_key j y \<longleftrightarrow> same_scope i j \<and> same_device i j \<and> x = y"
  unfolding fingerprint_key_def by (subst stringify_inject) (simp_all add: scopedDeviceKey_iff)

lemma fingerprint_iff:
  "detectorFingerprint digest d i x = detectorFingerprint digest d j y \<longleftrightarrow>
     same_scope i j \<and> same_device i j \<and> x = y \<or> collide digest (fingerprint_key i x) (fingerprint_key j y)"
  unfolding detectorFingerprint_def same_append_eq fingerprint_key_def [symmetric] collide_def fingerprint_key_iff [symmetric]
  by metis

section \<open>Canonical addresses\<close>

lemma show_nat_length: "n < 10 ^ Suc k \<Longrightarrow> length (show_nat n) \<le> Suc k"
proof (induction k arbitrary: n)
  case 0
  then show ?case by (simp add: show_nat.simps [of n])
next
  case (Suc k)
  then have "n div 10 < 10 ^ Suc k" by (simp add: div_less_iff_less_mult)
  then show ?case using Suc.IH [of "n div 10"] by (simp add: show_nat.simps [of n])
qed

lemma octet_show: "n < 256 \<Longrightarrow> octet (show_nat n) = Some n"
proof -
  assume n: "n < 256"
  have "length (show_nat n) = 1 \<or> hd (show_nat n) \<noteq> CHR ''0''"
    using show_nat_hd [of n] by (cases "n = 0") (simp_all add: show_nat.simps [of 0])
  moreover have "length (show_nat n) \<le> 3" using show_nat_length [of n 2] n by simp
  moreover have "list_all is_digit (show_nat n)" using show_nat_digits by (auto simp: list_all_iff)
  ultimately show ?thesis using n by (simp add: octet_def)
qed

lemma ip4_round:
  assumes "length os = 4" and "list_all (\<lambda>n. n < 256) os"
  shows "ip4_octets (show_ip4 os) = Some os"
proof -
  have "CHR ''.'' \<notin> set (show_nat n)" for n using show_nat_digits [of "CHR ''.''" n] by (auto simp: is_digit_def)
  then have "split_on CHR ''.'' (show_ip4 os) = map show_nat os"
    unfolding show_ip4_def using assms(1) by (intro split_on_join) auto
  moreover have "list_all (\<lambda>n. n < 256) ns \<Longrightarrow> all_of octet (map show_nat ns) = Some ns" for ns
    by (induction ns) (simp_all add: octet_show)
  ultimately show ?thesis using assms by (simp add: ip4_octets_def)
qed

lemma set_join: "set (join sep xs) \<subseteq> set sep \<union> \<Union> (set (map set xs))"
  by (induction sep xs rule: join.induct) auto

lemma ip4_chars:
  assumes "ip4_octets s = Some os" and "c \<in> set s"
  shows "is_digit c \<or> c = CHR ''.''"
proof -
  have all: "all_of octet ps = Some ns \<Longrightarrow> p \<in> set ps \<Longrightarrow> list_all is_digit p" for ps ns p
    by (induction ps arbitrary: ns) (auto simp: octet_def split: option.splits if_splits)
  have "c \<in> set (join [CHR ''.''] (split_on CHR ''.'' s))" using assms(2) by (simp only: join_split_on)
  then have "c = CHR ''.'' \<or> (\<exists>p \<in> set (split_on CHR ''.'' s). c \<in> set p)"
    using set_join [of "[CHR ''.'']" "split_on CHR ''.'' s"] by auto
  then show ?thesis using assms(1) all unfolding ip4_octets_def by (fastforce split: option.splits if_splits simp: list_all_iff)
qed

definition plain_char :: "char \<Rightarrow> bool" where
  "plain_char c \<longleftrightarrow> c \<noteq> CHR ''%'' \<and> \<not> is_space c"

lemma plain_nonempty: "\<forall>c \<in> set t. plain_char c \<Longrightarrow> t \<noteq> [] \<Longrightarrow> nonempty (Some t) = Some t"
  by (simp add: nonempty_def js_trim_id plain_char_def)

lemma ip4_plain: "ip4_octets s = Some os \<Longrightarrow> (\<forall>c \<in> set s. plain_char c) \<and> s \<noteq> [] \<and> CHR '':'' \<notin> set s"
proof -
  assume s: "ip4_octets s = Some os"
  have "plain_char c \<and> c \<noteq> CHR '':''" if "c \<in> set s" for c
    using ip4_chars [OF s that] by (auto simp: plain_char_def is_digit_def is_space_def Let_def)
  moreover have "s \<noteq> []" using s by (auto simp: ip4_octets_def octet_def)
  ultimately show "(\<forall>c \<in> set s. plain_char c) \<and> s \<noteq> [] \<and> CHR '':'' \<notin> set s" by blast
qed

lemma ip6_plain:
  assumes "length gs = 8"
  shows "(\<forall>c \<in> set (show_ip6 gs). plain_char c) \<and> show_ip6 gs \<noteq> [] \<and> CHR '':'' \<in> set (show_ip6 gs)"
proof -
  have g: "plain_char c" if "c \<in> set (show_groups hs)" for c hs
  proof -
    have "c \<in> set '':'' \<or> (\<exists>h. c \<in> set (show_hex h))" using that set_join [of "'':''" "map show_hex hs"] by (auto simp: show_groups_def)
    then show ?thesis using show_hex_chars [of c] by (auto simp: plain_char_def is_space_def Let_def)
  qed
  have "plain_char CHR '':''" by (simp add: plain_char_def is_space_def Let_def)
  moreover obtain a b hs where "gs = a # b # hs" using assms by (cases gs; cases "tl gs") auto
  then have "CHR '':'' \<in> set (show_groups gs)" by (simp add: show_groups_Cons)
  ultimately show ?thesis using g by (cases "gs = []") (auto simp: show_ip6_def show_groups_Cons)
qed

definition mapped_groups :: "nat list \<Rightarrow> bool" where
  "mapped_groups gs \<longleftrightarrow> take 6 gs = [0, 0, 0, 0, 0, 65535]"

definition octets_of :: "nat list \<Rightarrow> nat list" where
  "octets_of gs = [gs ! 6 div 256, gs ! 6 mod 256, gs ! 7 div 256, gs ! 7 mod 256]"

text \<open>The groups of an IPv6 address without a zone.\<close>

definition ip6_address :: "string \<Rightarrow> nat list option" where
  "ip6_address s =
     (if ip4_octets (js_trim s) \<noteq> None \<or> CHR ''%'' \<in> set (js_trim s) \<or> js_trim s = [] then None else ip6_groups (js_trim s))"

lemma normalize_ip6:
  "ip6_address s = Some gs \<Longrightarrow> normalizeIp (Some s) = Some (if mapped_groups gs then show_ip4 (octets_of gs) else show_ip6 gs)"
  by (auto simp: ip6_address_def normalizeIp_def nonempty_def mapped_groups_def octets_of_def split: if_splits)

lemma address_bound: "ip6_address s = Some gs \<Longrightarrow> length gs = 8 \<and> list_all (\<lambda>g. g < 65536) gs"
  by (auto simp: ip6_address_def split: if_splits dest: ip6_groups_bound)

lemma octets_ok: "length gs = 8 \<Longrightarrow> list_all (\<lambda>g. g < 65536) gs \<Longrightarrow> length (octets_of gs) = 4 \<and> list_all (\<lambda>n. n < 256) (octets_of gs)"
proof -
  assume gs: "length gs = 8" "list_all (\<lambda>g. g < 65536) gs"
  then have "gs ! 6 < 65536" "gs ! 7 < 65536" by (simp_all add: list_all_length)
  then show ?thesis by (simp add: octets_of_def div_less_iff_less_mult)
qed

lemma address_show: "length gs = 8 \<Longrightarrow> list_all (\<lambda>g. g < 65536) gs \<Longrightarrow> ip6_address (show_ip6 gs) = Some gs"
proof -
  assume gs: "length gs = 8" "list_all (\<lambda>g. g < 65536) gs"
  have p: "\<forall>c \<in> set (show_ip6 gs). plain_char c" "show_ip6 gs \<noteq> []" "CHR '':'' \<in> set (show_ip6 gs)" using ip6_plain [OF gs(1)] by simp_all
  have "ip4_octets (show_ip6 gs) = None" using ip4_plain p(3) by (cases "ip4_octets (show_ip6 gs)") auto
  moreover have "js_trim (show_ip6 gs) = show_ip6 gs" using p(1) by (intro js_trim_id) (simp add: plain_char_def)
  ultimately show ?thesis using p(1,2) ip6_round [OF gs] by (auto simp: ip6_address_def plain_char_def)
qed

lemma normalize_ip4: "ip4_octets t \<noteq> None \<Longrightarrow> normalizeIp (Some t) = Some t"
  using ip4_plain [of t] plain_nonempty [of t] by (auto simp: normalizeIp_def)

lemma mapped_inject:
  assumes "length gs = 8" "length hs = 8" "mapped_groups gs" "mapped_groups hs" "octets_of gs = octets_of hs"
  shows "gs = hs"
proof -
  have same: "a div 256 = b div 256 \<Longrightarrow> a mod 256 = b mod 256 \<Longrightarrow> a = b" for a b :: nat by (metis div_mult_mod_eq)
  have "gs ! 6 = hs ! 6" "gs ! 7 = hs ! 7" using assms(5) same unfolding octets_of_def by blast+
  moreover have "drop 6 gs = [gs ! 6, gs ! 7]" "drop 6 hs = [hs ! 6, hs ! 7]"
    using assms(1,2) by (simp_all add: Cons_nth_drop_Suc [symmetric])
  moreover have "take 6 gs = take 6 hs" using assms(3,4) by (simp add: mapped_groups_def)
  ultimately show ?thesis by (metis append_take_drop_id)
qed

lemma normalizeIp_idem:
  assumes t: "normalizeIp (Some s) = Some t"
  shows "normalizeIp (Some t) = Some t"
proof (cases "ip6_address s")
  case None
  then have "ip4_octets t \<noteq> None" using t by (auto simp: ip6_address_def normalizeIp_def nonempty_def split: if_splits option.splits)
  then show ?thesis by (rule normalize_ip4)
next
  case (Some gs)
  then have gs: "length gs = 8" "list_all (\<lambda>g. g < 65536) gs" using address_bound by blast+
  show ?thesis
  proof (cases "mapped_groups gs")
    case True
    then have "t = show_ip4 (octets_of gs)" using t normalize_ip6 [OF Some] by simp
    then show ?thesis using ip4_round octets_ok [OF gs] by (intro normalize_ip4) simp
  next
    case False
    then have "t = show_ip6 gs" using t normalize_ip6 [OF Some] by simp
    then show ?thesis using False normalize_ip6 [OF address_show [OF gs]] by simp
  qed
qed

text \<open>C27: addresses have one canonical form.  Normalising what is already normal changes nothing, and two spellings of IPv6
  addresses are normalised alike exactly when they denote the same eight groups, also for the addresses that stand for
  IPv4 addresses.\<close>
theorem normalizeIp_canonical:
  "(\<forall>t. normalizeIp (Some s) = Some t \<longrightarrow> normalizeIp (Some t) = Some t) \<and>
   (\<forall>gs hs. ip6_address s = Some gs \<and> ip6_address s' = Some hs \<longrightarrow>
      (normalizeIp (Some s) = normalizeIp (Some s') \<longleftrightarrow> gs = hs))"
proof (intro conjI allI impI)
  fix t assume "normalizeIp (Some s) = Some t"
  then show "normalizeIp (Some t) = Some t" by (rule normalizeIp_idem)
next
  fix gs hs assume a: "ip6_address s = Some gs \<and> ip6_address s' = Some hs"
  then have gs: "length gs = 8" "list_all (\<lambda>g. g < 65536) gs" and hs: "length hs = 8" "list_all (\<lambda>g. g < 65536) hs"
    using address_bound by blast+
  have norm: "normalizeIp (Some s) = Some (if mapped_groups gs then show_ip4 (octets_of gs) else show_ip6 gs)"
      "normalizeIp (Some s') = Some (if mapped_groups hs then show_ip4 (octets_of hs) else show_ip6 hs)"
    using a normalize_ip6 by blast+
  have four: "CHR '':'' \<notin> set (show_ip4 (octets_of ks))" if "length ks = 8" "list_all (\<lambda>g. g < 65536) ks" for ks
    using ip4_plain [OF ip4_round] octets_ok [OF that] by blast
  show "normalizeIp (Some s) = normalizeIp (Some s') \<longleftrightarrow> gs = hs"
  proof
    assume "normalizeIp (Some s) = normalizeIp (Some s')"
    then have eq: "(if mapped_groups gs then show_ip4 (octets_of gs) else show_ip6 gs) = (if mapped_groups hs then show_ip4 (octets_of hs) else show_ip6 hs)"
      unfolding norm by simp
    consider "mapped_groups gs" "mapped_groups hs" | "\<not> mapped_groups gs" "\<not> mapped_groups hs"
      using eq four [OF gs] four [OF hs] ip6_plain [OF gs(1)] ip6_plain [OF hs(1)] by (cases "mapped_groups gs"; cases "mapped_groups hs") auto
    then show "gs = hs"
    proof cases
      case 1
      then have "show_ip4 (octets_of gs) = show_ip4 (octets_of hs)" using eq by simp
      moreover have "ip4_octets (show_ip4 (octets_of gs)) = Some (octets_of gs)" "ip4_octets (show_ip4 (octets_of hs)) = Some (octets_of hs)"
        using octets_ok [OF gs] octets_ok [OF hs] by (intro ip4_round; simp)+
      ultimately have "octets_of gs = octets_of hs" by (metis option.inject)
      then show ?thesis using mapped_inject 1 gs(1) hs(1) by blast
    next
      case 2
      then have "show_ip6 gs = show_ip6 hs" using eq by simp
      then have "Some gs = Some hs" using ip6_round [OF gs] ip6_round [OF hs] by metis
      then show ?thesis by simp
    qed
  next
    assume "gs = hs"
    then show "normalizeIp (Some s) = normalizeIp (Some s')" unfolding norm by (simp only:)
  qed
qed

theorem normalizeIp_canonical_witness:
  "normalizeIp (Some ''1:0:00::A'') = normalizeIp (Some '' 1::a'')"
proof -
  have "ip6_address ''1:0:00::A'' = Some [1, 0, 0, 0, 0, 0, 0, 10]" "ip6_address '' 1::a'' = Some [1, 0, 0, 0, 0, 0, 0, 10]"
    by code_simp+
  then show ?thesis using normalizeIp_canonical [of "''1:0:00::A''" "'' 1::a''"] by blast
qed

text \<open>C26: findings of different devices are never merged.  The fingerprints of one detector agree exactly for events of the
  same source, connection and site (or of the same event, where a part of the scope is unknown), of the same device (its
  hardware address, else its network address, else the event itself) and for the same indicator, or when the digest
  takes the same value at the two different texts that stand for these; nothing else is asked of the digest.\<close>
theorem fingerprint_exact:
  "detectorFingerprint digest d i x = detectorFingerprint digest d j y \<longleftrightarrow>
    di_sourceKind i = di_sourceKind j \<and> di_connectionId i = di_connectionId j \<and> di_scopeId i = di_scopeId j \<and>
    (di_connectionId i = None \<or> di_sourceKind i = UnifiSource \<and> di_scopeId i = None \<longrightarrow> di_eventId i = di_eventId j) \<and>
    di_srcMac i = di_srcMac j \<and>
    (di_srcMac i = None \<longrightarrow> di_srcIp i = di_srcIp j \<and> (di_srcIp i = None \<longrightarrow> di_eventId i = di_eventId j)) \<and> x = y \<or>
    collide digest (fingerprint_key i x) (fingerprint_key j y)"
  unfolding fingerprint_iff same_scope_def same_device_def incomplete_scope_def by blast

text \<open>A digest of limited length: it is not injective.\<close>

definition short_digest :: "string \<Rightarrow> string" where
  "short_digest s = take 64 (rev s)"

definition demo_event :: "string \<Rightarrow> string \<Rightarrow> detector_identity" where
  "demo_event ip e =
     \<lparr>di_sourceKind = UnifiSource, di_connectionId = Some ''c'', di_scopeId = Some ''s'', di_srcIp = Some ip,
       di_srcMac = None, di_eventId = e, di_observedAt = Some 1\<rparr>"

theorem fingerprint_exact_witness:
  "detectorFingerprint short_digest ''ioc_match'' (demo_event ''10.0.0.5'' ''e1'') (Some ''ip:9.9.9.9'') =
     detectorFingerprint short_digest ''ioc_match'' (demo_event ''10.0.0.5'' ''e2'') (Some ''ip:9.9.9.9'') \<and>
   detectorFingerprint short_digest ''ioc_match'' (demo_event ''10.0.0.5'' ''e1'') (Some ''ip:9.9.9.9'') \<noteq>
     detectorFingerprint short_digest ''ioc_match'' (demo_event ''10.0.0.6'' ''e1'') (Some ''ip:9.9.9.9'')"
proof -
  have "\<not> collide short_digest (fingerprint_key (demo_event ''10.0.0.5'' ''e1'') (Some ''ip:9.9.9.9''))
      (fingerprint_key (demo_event ''10.0.0.6'' ''e1'') (Some ''ip:9.9.9.9''))"
    by code_simp
  then show ?thesis unfolding fingerprint_exact by (simp add: demo_event_def)
qed

section \<open>Reading back a stored identity\<close>

text \<open>The identities that \<open>createDetectorIdentity\<close> makes: every part is in its normal form.\<close>

definition normal_identity :: "detector_identity \<Rightarrow> bool" where
  "normal_identity i \<longleftrightarrow>
     nonempty (di_connectionId i) = di_connectionId i \<and> nonempty (di_scopeId i) = di_scopeId i \<and>
     normalizeIp (di_srcIp i) = di_srcIp i \<and> normalizeMac (di_srcMac i) = di_srcMac i \<and>
     nonempty (Some (di_eventId i)) = Some (di_eventId i)"

lemma opt_str_parts [simp]: "parse_str (js_opt_str s) = s" "null_or_str (js_opt_str s)" "js_opt_str s = JNull \<longleftrightarrow> s = None"
  by (cases s; simp add: js_opt_str_def parse_str_def null_or_str_def)+

lemma identity_parses:
  assumes "normal_identity i"
  shows "parseDetectorIdentity (identity_json i) = Some i"
proof -
  obtain kvs where j: "identity_json i = JObj kvs" and version: "field kvs ''version'' = JNum 2"
    and kind: "parse_kind (field kvs ''sourceKind'') = Some (di_sourceKind i)"
    and str: "field kvs ''connectionId'' = js_opt_str (di_connectionId i)" "field kvs ''scopeId'' = js_opt_str (di_scopeId i)"
      "field kvs ''srcIp'' = js_opt_str (di_srcIp i)" "field kvs ''srcMac'' = js_opt_str (di_srcMac i)"
    and event: "get_str kvs ''eventId'' = Some (di_eventId i)"
    and time: "null_or_time (field kvs ''observedAt'')" "parse_time (field kvs ''observedAt'') = di_observedAt i"
    by (cases "di_sourceKind i"; cases "di_observedAt i")
      (auto simp: identity_json_def field_def om_get_def source_text_def parse_kind_def get_str_def parse_str_def
        null_or_time_def parse_time_def js_int_def)
  have "createDetectorIdentity (di_sourceKind i) (di_connectionId i) (di_scopeId i) (di_srcIp i) (di_srcMac i) (di_eventId i)
      (di_observedAt i) = Some i"
    using assms by (simp add: normal_identity_def createDetectorIdentity_def)
  then show ?thesis using assms
    by (simp add: parseDetectorIdentity_def j version kind str event time get_str_def [of kvs "''connectionId''"] get_str_def [of kvs "''scopeId''"]
        get_str_def [of kvs "''srcIp''"] get_str_def [of kvs "''srcMac''"] normal_identity_def
      del: not_None_eq)
qed

lemma js_trim_idem [simp]: "js_trim (js_trim s) = js_trim s"
proof -
  let ?t = "dropWhile is_space s"
  let ?u = "js_trim s"
  have t: "?t = ?u @ rev (takeWhile is_space (rev ?t))"
    unfolding js_trim_def by (metis rev_append rev_rev_ident takeWhile_dropWhile_id)
  have "dropWhile is_space ?u = ?u"
  proof (cases "?u")
    case (Cons c u)
    then obtain v where "?t = c # v" using t by (metis append_Cons)
    then have "\<not> is_space c" by (metis hd_dropWhile list.discI list.sel(1))
    then show ?thesis using Cons by simp
  qed simp
  then show ?thesis by (simp add: js_trim_def)
qed

lemma nonempty_idem: "nonempty s = Some t \<Longrightarrow> nonempty (Some t) = Some t"
  by (auto simp: nonempty_def split: option.splits if_splits)

lemma filter_join: "\<not> P x \<Longrightarrow> filter P (join [x] ps) = concat (map (filter P) ps)"
  by (induction "[x]" ps rule: join.induct) auto

lemma pairs_of_facts: "even (length d) \<Longrightarrow> concat (pairs_of d) = d"
  "length (pairs_of d) = length d div 2" "p \<in> set (pairs_of d) \<Longrightarrow> length p = 2 \<and> set p \<subseteq> set d"
  by (induction d rule: pairs_of.induct) auto

lemma digit_val_lower: "digit_val (lower_char c) = digit_val c"
proof -
  have "of_char (char_of (n + 32) :: char) = n + 32" if "n \<le> 90" for n :: nat
    using that by simp
  then show ?thesis by (simp add: lower_char_def digit_val_def Let_def)
qed

lemma is_hex_digits: "is_hex c \<Longrightarrow> c \<notin> set '':.-'' \<and> \<not> is_space c \<and> is_hex (lower_char c)"
proof -
  assume c: "is_hex c"
  then obtain d where "digit_val c = Some d" by (auto simp: is_hex_def split: option.splits)
  moreover have "c \<noteq> CHR ''-''" using c by (auto simp: is_hex_def digit_val_def Let_def)
  ultimately show ?thesis using c digit_val_no_sep by (auto simp: is_hex_def digit_val_lower)
qed

lemma list_all_map_lower: "list_all is_hex (map lower_char s) \<longleftrightarrow> list_all is_hex s"
  by (induction s) (simp_all add: is_hex_def digit_val_lower)

lemma mac_digits_shape:
  assumes "mac_shape s"
  shows "length (mac_digits s) = 12" "\<And>c. c \<in> set (mac_digits s) \<Longrightarrow> is_hex c"
proof -
  let ?P = "\<lambda>c. c \<notin> set '':.-''"
  have keep: "filter ?P p = p" if "hex_block k p" for k p
    using that is_hex_digits by (auto simp: hex_block_def list_all_iff filter_id_conv)
  have blocks: "length (filter ?P s) = k * length ps \<and> list_all is_hex (filter ?P s)"
    if "s = join [x] ps" "list_all (hex_block k) ps" "\<not> ?P x" for x ps k
  proof -
    have "filter ?P s = concat ps"
      using that(2) keep unfolding that(1) filter_join [of ?P, OF that(3)] by (intro arg_cong [where f = concat] map_idI) (auto simp: list_all_iff)
    moreover have "length (concat qs) = k * length qs \<and> list_all is_hex (concat qs)" if "list_all (hex_block k) qs" for qs
      using that by (induction qs) (auto simp: hex_block_def)
    ultimately show ?thesis using that(2) by simp
  qed
  have split: "length (filter ?P s) = 12 \<and> list_all is_hex (filter ?P s)"
    if "list_all (hex_block k) (split_on x s)" "k * length (split_on x s) = 12" "\<not> ?P x" for k x
    using blocks [OF join_split_on [symmetric, of s x] that(1,3)] that(2) by simp
  consider "hex_block 12 s" | "length (split_on CHR '':'' s) = 6 \<and> list_all (hex_block 2) (split_on CHR '':'' s)"
    | "length (split_on CHR ''-'' s) = 6 \<and> list_all (hex_block 2) (split_on CHR ''-'' s)"
    | "length (split_on CHR ''.'' s) = 3 \<and> list_all (hex_block 4) (split_on CHR ''.'' s)"
    using assms unfolding mac_shape_def by blast
  then have "length (filter ?P s) = 12 \<and> list_all is_hex (filter ?P s)"
  proof cases
    case 1
    then show ?thesis using keep [OF 1] by (simp add: hex_block_def)
  next
    case 2
    then show ?thesis by (intro split [of 2 "CHR '':''"]) simp_all
  next
    case 3
    then show ?thesis by (intro split [of 2 "CHR ''-''"]) simp_all
  next
    case 4
    then show ?thesis by (intro split [of 4 "CHR ''.''"]) simp_all
  qed
  then have "length (mac_digits s) = 12" "list_all is_hex (mac_digits s)"
    unfolding mac_digits_def to_lower_def length_map list_all_map_lower by simp_all
  then show "length (mac_digits s) = 12" "\<And>c. c \<in> set (mac_digits s) \<Longrightarrow> is_hex c" by (simp_all add: list_all_iff)
qed

lemma normalizeMac_idem:
  assumes "normalizeMac v = Some m"
  shows "normalizeMac (Some m) = Some m"
proof -
  obtain s where s: "mac_shape s" "m = join '':'' (pairs_of (mac_digits s))"
    and ends: "mac_digits s \<noteq> ''000000000000''" "mac_digits s \<noteq> ''ffffffffffff''"
    using assms by (auto simp: normalizeMac_def split: option.splits if_splits)
  let ?d = "mac_digits s" and ?ps = "pairs_of (mac_digits s)"
  have len: "length ?d = 12" and hex: "\<And>c. c \<in> set ?d \<Longrightarrow> is_hex c" using mac_digits_shape [OF s(1)] by blast+
  have ps: "length ?ps = 6" "concat ?ps = ?d" using len pairs_of_facts(1,2) [of ?d] by simp_all
  have "hex_block 2 p" if "p \<in> set ?ps" for p
    using pairs_of_facts(3) [OF that] hex by (auto simp: hex_block_def list_all_iff)
  then have blocks: "list_all (hex_block 2) ?ps" by (simp add: list_all_iff)
  have sep: "CHR '':'' \<notin> set p" if "p \<in> set ?ps" for p
    using blocks that is_hex_digits by (fastforce simp: hex_block_def list_all_iff)
  have split: "split_on CHR '':'' m = ?ps" unfolding s(2) by (rule split_on_join) (use ps(1) sep in auto)
  then have shape: "mac_shape m" using ps blocks by (simp add: mac_shape_def)
  have "length (split_on CHR '':'' m) = 6" using split ps(1) by simp
  then have "m \<noteq> []" by auto
  have "c = CHR '':'' \<or> is_hex c" if "c \<in> set m" for c
    using that set_join [of "'':''" ?ps] blocks unfolding s(2) by (fastforce simp: hex_block_def list_all_iff)
  then have "\<not> is_space c" if "c \<in> set m" for c using is_hex_digits that by (fastforce simp: is_space_def Let_def)
  then have trim: "nonempty (Some m) = Some m" using \<open>m \<noteq> []\<close> by (simp add: nonempty_def js_trim_id)
  have "filter (\<lambda>c. c \<notin> set '':.-'') m = concat (map (filter (\<lambda>c. c \<notin> set '':.-'')) ?ps)" unfolding s(2) by (rule filter_join) simp
  also have "map (filter (\<lambda>c. c \<notin> set '':.-'')) ?ps = ?ps"
    using blocks is_hex_digits by (intro map_idI) (auto simp: hex_block_def list_all_iff filter_id_conv)
  finally have "mac_digits m = ?d" unfolding mac_digits_def [of m] using ps(2) by (simp add: mac_digits_def)
  then show ?thesis using trim shape ends s(2) by (simp add: normalizeMac_def)
qed

lemma normalized_opt: "nonempty (nonempty v) = nonempty v" "normalizeMac (normalizeMac v) = normalizeMac v"
  "normalizeIp (normalizeIp v) = normalizeIp v"
proof -
  show "nonempty (nonempty v) = nonempty v" using nonempty_idem [of v] by (cases "nonempty v") (simp_all add: nonempty_def)
  show "normalizeMac (normalizeMac v) = normalizeMac v"
    using normalizeMac_idem [of v] by (cases "normalizeMac v") (simp_all add: normalizeMac_def nonempty_def)
  show "normalizeIp (normalizeIp v) = normalizeIp v"
  proof (cases "normalizeIp v")
    case (Some t)
    then obtain s where "v = Some s" by (cases v) (simp_all add: normalizeIp_def nonempty_def)
    then show ?thesis using normalizeIp_idem [of s t] Some by simp
  qed (simp add: normalizeIp_def nonempty_def)
qed

lemma created_normal: "createDetectorIdentity kind c sc ip mac e obs = Some i \<Longrightarrow> normal_identity i"
  using nonempty_idem [of "Some e"]
  by (auto simp: createDetectorIdentity_def normal_identity_def normalized_opt split: option.splits)

text \<open>A stored identity is read back as it was made.  Every identity that the detectors make has its parts in normal form,
  so the metadata of a finding parses to the identity the finding was built from.\<close>
lemma stored_identity_returns:
  assumes "createDetectorIdentity kind connectionId scopeId srcIp srcMac eventId observedAt = Some i"
  shows "parseDetectorIdentity (identity_json i) = Some i"
  using identity_parses [OF created_normal [OF assms]] .

lemma stored_identity_returns_witness:
  "\<exists>i. parseDetectorIdentity (identity_json i) = Some i \<and> di_srcMac i = Some ''0a:00:00:00:00:01''"
proof -
  have "createDetectorIdentity UnifiSource (Some '' c '') (Some ''s'') None (Some ''0A-00-00-00-00-01'') ''e'' (Some 5) =
      Some \<lparr>di_sourceKind = UnifiSource, di_connectionId = Some ''c'', di_scopeId = Some ''s'', di_srcIp = None,
        di_srcMac = Some ''0a:00:00:00:00:01'', di_eventId = ''e'', di_observedAt = Some 5\<rparr>"
    by code_simp
  from stored_identity_returns [OF this] show ?thesis by auto
qed

end
