(* ===== verification/Threat_Intel.thy ===== *)
theory Threat_Intel
  imports Detector_Identity Keyed_Table
begin

text \<open>
  \<open>services/threatIntel/iocFeedService.ts\<close> with the feed of \<open>feeds/urlhaus.ts\<close>: the cache of threat indicators, its refresh
  from the registered feeds, and the look-ups of the detectors.  What a feed answers is an argument.
\<close>

section \<open>Records and the cache\<close>

record ioc_record =
  ic_kind :: string
  ic_value :: string
  ic_category :: "string option"
  ic_severity :: "string option"
  ic_context :: "json option"

record ioc_row =
  io_feed :: string
  io_kind :: string
  io_value :: string
  io_category :: "string option"
  io_severity :: "string option"
  io_context :: "json option"
  io_refreshedAt :: int

text \<open>The unique index of the table.\<close>

definition ioc_key :: "ioc_row \<Rightarrow> string \<times> string \<times> string" where
  "ioc_key r = (io_feed r, io_kind r, io_value r)"

definition record_key :: "string \<Rightarrow> ioc_record \<Rightarrow> string \<times> string \<times> string" where
  "record_key feedId r = (feedId, ic_kind r, ic_value r)"

definition create_ioc :: "string \<Rightarrow> int \<Rightarrow> ioc_record \<Rightarrow> ioc_row" where
  "create_ioc feedId now r =
     \<lparr>io_feed = feedId, io_kind = ic_kind r, io_value = ic_value r, io_category = ic_category r, io_severity = ic_severity r,
      io_context = ic_context r, io_refreshedAt = now\<rparr>"

text \<open>An absent context leaves the stored one.\<close>

definition update_ioc :: "int \<Rightarrow> ioc_record \<Rightarrow> ioc_row \<Rightarrow> ioc_row" where
  "update_ioc now r row =
     row\<lparr>io_category := ic_category r, io_severity := ic_severity r,
         io_context := (if ic_context r = None then io_context row else ic_context r), io_refreshedAt := now\<rparr>"

definition upsert_ioc :: "string \<Rightarrow> int \<Rightarrow> ioc_row list \<Rightarrow> ioc_record \<Rightarrow> ioc_row list" where
  "upsert_ioc feedId now t r =
     (case row_at ioc_key (record_key feedId r) t of
        None \<Rightarrow> t @ [create_ioc feedId now r]
      | Some old \<Rightarrow> map (\<lambda>row. if ioc_key row = record_key feedId r then update_ioc now r row else row) t)"

lemma ioc_keys [simp]: "ioc_key (create_ioc feedId now r) = record_key feedId r" "ioc_key (update_ioc now r row) = ioc_key row"
  by (simp_all add: ioc_key_def record_key_def create_ioc_def update_ioc_def)

interpretation ioc: keyed_table ioc_key "record_key feedId" "create_ioc feedId now" "update_ioc now" "upsert_ioc feedId now"
  for feedId now
  by unfold_locales (simp_all add: upsert_ioc_def)

section \<open>Refresh\<close>

text \<open>The upserts of one feed, in the order of its records.\<close>

definition upsertBatch :: "string \<Rightarrow> ioc_record list \<Rightarrow> int \<Rightarrow> ioc_row list \<Rightarrow> ioc_row list \<times> nat" where
  "upsertBatch feedId records now t =
     (let kept = filter (\<lambda>r. ic_value r \<noteq> []) records in (foldl (upsert_ioc feedId now) t kept, length kept))"

record feed_outcome =
  fo_feedId :: string
  fo_fetched :: nat
  fo_upserted :: nat
  fo_error :: "string option"

text \<open>The answer of a feed: its records, or the message of the error it threw.\<close>

type_synonym feed_answer = "string + ioc_record list"

definition refreshFeed :: "string \<Rightarrow> feed_answer \<Rightarrow> int \<Rightarrow> ioc_row list \<Rightarrow> ioc_row list \<times> feed_outcome" where
  "refreshFeed feedId answer now t =
     (case answer of
        Inl message \<Rightarrow> (t, \<lparr>fo_feedId = feedId, fo_fetched = 0, fo_upserted = 0, fo_error = Some message\<rparr>)
      | Inr records \<Rightarrow>
          (case upsertBatch feedId records now t of
             (t', n) \<Rightarrow> (t', \<lparr>fo_feedId = feedId, fo_fetched = length records, fo_upserted = n, fo_error = None\<rparr>)))"

definition DEFAULT_STALE_DAYS :: int where
  "DEFAULT_STALE_DAYS = 14"

definition pruneStale :: "int \<Rightarrow> int \<Rightarrow> ioc_row list \<Rightarrow> ioc_row list \<times> nat" where
  "pruneStale staleDays now t =
     (let cutoff = now - staleDays * 24 * 60 * 60 * 1000; kept = filter (\<lambda>r. \<not> io_refreshedAt r < cutoff) t
      in (kept, length t - length kept))"

definition refresh_step ::
    "int \<Rightarrow> ioc_row list \<times> feed_outcome list \<Rightarrow> string \<times> feed_answer \<Rightarrow> ioc_row list \<times> feed_outcome list" where
  "refresh_step now st feed =
     (case refreshFeed (fst feed) (snd feed) now (fst st) of (t, outcome) \<Rightarrow> (t, snd st @ [outcome]))"

text \<open>The feeds of \<open>listFeeds\<close> with their answers; one clock reading for the whole refresh.\<close>

definition refreshAllFeeds ::
    "int option \<Rightarrow> string list option \<Rightarrow> (string \<times> feed_answer) list \<Rightarrow> int \<Rightarrow> ioc_row list \<Rightarrow>
     ioc_row list \<times> feed_outcome list \<times> nat" where
  "refreshAllFeeds staleDays feedIds feeds now t =
     (let targets = (case feedIds of None \<Rightarrow> feeds | Some ids \<Rightarrow> filter (\<lambda>f. fst f \<in> set ids) feeds);
          st = foldl (refresh_step now) (t, []) targets;
          pruned = pruneStale (dflt DEFAULT_STALE_DAYS staleDays) now (fst st)
      in (fst pruned, snd st, snd pruned))"

section \<open>Registered feeds\<close>

text \<open>A feed object with its identity (the \<open>===\<close> of the function that unregisters it).\<close>

record threat_feed =
  tf_ref :: nat
  tf_id :: string
  tf_answer :: feed_answer

type_synonym feed_registry = "(string \<times> threat_feed) list"

definition registerFeed :: "threat_feed \<Rightarrow> feed_registry \<Rightarrow> feed_registry" where
  "registerFeed f g = om_set (tf_id f) f g"

definition unregisterFeed :: "threat_feed \<Rightarrow> feed_registry \<Rightarrow> feed_registry" where
  "unregisterFeed f g =
     (case om_get g (tf_id f) of
        None \<Rightarrow> g
      | Some f' \<Rightarrow> if tf_ref f' = tf_ref f then filter (\<lambda>kv. fst kv \<noteq> tf_id f) g else g)"

definition getFeed :: "feed_registry \<Rightarrow> string \<Rightarrow> threat_feed option" where
  "getFeed g i = om_get g i"

definition listFeeds :: "feed_registry \<Rightarrow> (string \<times> feed_answer) list" where
  "listFeeds g = map (\<lambda>f. (tf_id f, tf_answer f)) (om_values g)"

text \<open>The feeds are registered once per boot.\<close>

definition bootstrapThreatIntel :: "threat_feed \<Rightarrow> bool \<times> feed_registry \<Rightarrow> bool \<times> feed_registry" where
  "bootstrapThreatIntel urlhaus st = (if fst st then st else (True, registerFeed urlhaus (snd st)))"

section \<open>Statistics\<close>

record ioc_stats =
  is_total :: nat
  is_byFeed :: "(string \<times> nat) list"
  is_byKind :: "(string \<times> nat) list"
  is_oldest :: "int option"

definition group_sizes :: "(ioc_row \<Rightarrow> string) \<Rightarrow> ioc_row list \<Rightarrow> (string \<times> nat) list" where
  "group_sizes key t = accum (\<lambda>_. True) key (\<lambda>_. 1) (\<lambda>_ n. n + 1) t"

definition getIocCacheStats :: "ioc_row list \<Rightarrow> ioc_stats" where
  "getIocCacheStats t =
     \<lparr>is_total = length t, is_byFeed = group_sizes io_feed t, is_byKind = group_sizes io_kind t,
      is_oldest = (case sort_key io_refreshedAt t of [] \<Rightarrow> None | r # _ \<Rightarrow> Some (io_refreshedAt r))\<rparr>"

section \<open>Look-ups\<close>

definition lookupIp :: "ioc_row list \<Rightarrow> string \<Rightarrow> ioc_row list" where
  "lookupIp t ip =
     (let v = to_lower (js_trim ip) in if v = [] then [] else filter (\<lambda>r. io_kind r = ''ip'' \<and> io_value r = v) t)"

definition drop_dot :: "string \<Rightarrow> string" where
  "drop_dot s = (if s \<noteq> [] \<and> last s = CHR ''.'' then butlast s else s)"

definition domain_candidates :: "string \<Rightarrow> string list" where
  "domain_candidates normalized =
     (let parts = split_on CHR ''.'' normalized in
      normalized # map (\<lambda>i. join ''.'' (drop i parts)) [1..<length parts - 1])"

definition lookupDomain :: "ioc_row list \<Rightarrow> string \<Rightarrow> ioc_row list" where
  "lookupDomain t domain =
     (let normalized = drop_dot (to_lower (js_trim domain)) in
      if normalized = [] then []
      else filter (\<lambda>r. io_kind r = ''domain'' \<and> io_value r \<in> set (domain_candidates normalized)) t)"

section \<open>The URLhaus feed\<close>

definition all_digits :: "nat \<Rightarrow> string \<Rightarrow> bool" where
  "all_digits k s \<longleftrightarrow> s \<noteq> [] \<and> length s \<le> k \<and> list_all is_digit s"

definition isIpAddress :: "string \<Rightarrow> bool" where
  "isIpAddress v \<longleftrightarrow>
     (length (split_on CHR ''.'' v) = 4 \<and> list_all (all_digits 3) (split_on CHR ''.'' v)) \<or>
     (list_all (\<lambda>c. is_hex c \<or> c = CHR '':'') v \<and> CHR '':'' \<in> set v)"

definition classify :: "string \<Rightarrow> string list \<Rightarrow> string" where
  "classify threat tags =
     (let s = to_lower (join '' '' (threat # tags)) in
      if str_includes ''cobaltstrike'' s \<or> str_includes ''c2'' s then ''malware-c2''
      else if str_includes ''phish'' s then ''phishing''
      else if str_includes ''miner'' s \<or> str_includes ''coin'' s then ''cryptominer''
      else ''malware-distribution'')"

definition urlhaus_record :: "(string \<times> json) list \<Rightarrow> ioc_record list" where
  "urlhaus_record entry =
     (if \<not> truthy (get_str entry ''host'') \<or> \<not> truthy (get_str entry ''url'') then []
      else if truthy (get_str entry ''url_status'') \<and> get_str entry ''url_status'' \<noteq> Some ''online'' then []
      else
        (let host = to_lower (js_trim (the (get_str entry ''host''))) in
         [\<lparr>ic_kind = (if isIpAddress host then ''ip'' else ''domain''), ic_value = host,
           ic_category = Some (classify (dflt [] (get_str entry ''threat'')) (dflt [] (get_strs entry ''tags''))),
           ic_severity = Some ''HIGH'',
           ic_context = Some (JObj
             [(''sampleUrl'', js_opt_str (get_str entry ''url'')), (''dateAdded'', field entry ''date_added''),
              (''tags'', JArr (map JStr (dflt [] (get_strs entry ''tags'')))), (''reference'', field entry ''urlhaus_reference'')])\<rparr>]))"

definition dedupe_records :: "ioc_record list \<Rightarrow> ioc_record list" where
  "dedupe_records records =
     om_values (accum (\<lambda>_. True) (\<lambda>r. ic_kind r @ '':'' @ ic_value r) (\<lambda>r. r) (\<lambda>r old. old) records)"

text \<open>The body of the answer as parsed JSON; a body that is none is an error of the feed.\<close>

definition urlhaus_records :: "json \<Rightarrow> ioc_record list" where
  "urlhaus_records body =
     dedupe_records (concat (map (\<lambda>kv. case snd kv of JArr es \<Rightarrow> concat (map (\<lambda>e. urlhaus_record (obj_fields e)) es) | _ \<Rightarrow> [])
                                 (obj_fields body)))"

definition urlhaus_fetch :: "string + string \<Rightarrow> feed_answer" where
  "urlhaus_fetch answer =
     (case answer of
        Inl message \<Rightarrow> Inl message
      | Inr body \<Rightarrow> (case json_parse body of None \<Rightarrow> Inl ''SyntaxError'' | Some j \<Rightarrow> Inr (urlhaus_records j)))"

section \<open>Parent domains\<close>

lemma split_on_both: "split_on c (p @ c # v) = split_on c p @ split_on c v"
proof (induction p)
  case (Cons x p)
  then show ?case by (cases "split_on c p") (auto split: list.splits)
qed simp

lemma join_append: "xs \<noteq> [] \<Longrightarrow> ys \<noteq> [] \<Longrightarrow> join sep (xs @ ys) = join sep xs @ sep @ join sep ys"
proof (induction sep xs rule: join.induct)
  case (2 sep x)
  then show ?case by (cases ys) simp_all
qed auto

lemma join_sep: "2 \<le> length xs \<Longrightarrow> c \<in> set (join [c] xs)"
  by (cases xs; cases "tl xs") auto

lemma split_length: "c \<in> set s \<Longrightarrow> 2 \<le> length (split_on c s)"
proof -
  assume "c \<in> set s"
  then obtain a b where s: "s = a @ c # b" by (meson split_list)
  have "0 < length (split_on c a)" "0 < length (split_on c b)" by simp_all
  then show ?thesis unfolding s split_on_both length_append by linarith
qed

lemma domain_candidates_iff:
  "v \<in> set (domain_candidates d) \<longleftrightarrow> v = d \<or> (CHR ''.'' \<in> set v \<and> (\<exists>p. d = p @ CHR ''.'' # v))"
proof -
  let ?parts = "split_on CHR ''.'' d"
  have "v \<in> (\<lambda>i. join ''.'' (drop i ?parts)) ` {1..<length ?parts - 1} \<longleftrightarrow> CHR ''.'' \<in> set v \<and> (\<exists>p. d = p @ CHR ''.'' # v)"
  proof
    assume "v \<in> (\<lambda>i. join ''.'' (drop i ?parts)) ` {1..<length ?parts - 1}"
    then obtain i where i: "1 \<le> i" "i < length ?parts - 1" "v = join ''.'' (drop i ?parts)" by auto
    then have "CHR ''.'' \<in> set v" using join_sep [of "drop i ?parts" "CHR ''.''"] by simp
    moreover have "join ''.'' (take i ?parts @ drop i ?parts) = join ''.'' (take i ?parts) @ ''.'' @ join ''.'' (drop i ?parts)"
      by (rule join_append) (use i in auto)
    then have "d = join ''.'' (take i ?parts) @ CHR ''.'' # v" using i(3) by (simp add: join_split_on)
    ultimately show "CHR ''.'' \<in> set v \<and> (\<exists>p. d = p @ CHR ''.'' # v)" by blast
  next
    assume "CHR ''.'' \<in> set v \<and> (\<exists>p. d = p @ CHR ''.'' # v)"
    then obtain p where d: "d = p @ CHR ''.'' # v" and v: "CHR ''.'' \<in> set v" by blast
    let ?i = "length (split_on CHR ''.'' p)"
    have parts: "?parts = split_on CHR ''.'' p @ split_on CHR ''.'' v" unfolding d by (rule split_on_both)
    have "1 \<le> ?i" by (simp add: Suc_le_eq)
    then have "?i \<in> {1..<length ?parts - 1}" using split_length [OF v] unfolding parts length_append atLeastLessThan_iff by linarith
    moreover have "join ''.'' (drop ?i ?parts) = v" unfolding parts by (simp add: join_split_on)
    ultimately show "v \<in> (\<lambda>i. join ''.'' (drop i ?parts)) ` {1..<length ?parts - 1}" by blast
  qed
  then show ?thesis by (auto simp: domain_candidates_def Let_def)
qed

section \<open>What a refresh leaves\<close>

definition offers :: "(string \<times> feed_answer) list \<Rightarrow> string \<times> string \<times> string \<Rightarrow> ioc_record list" where
  "offers feeds k =
     concat (map (\<lambda>f. case snd f of Inl _ \<Rightarrow> []
       | Inr rs \<Rightarrow> filter (\<lambda>r. ic_value r \<noteq> [] \<and> record_key (fst f) r = k) rs) feeds)"

lemma offers_Cons: "offers (f # feeds) k =
    (case snd f of Inl _ \<Rightarrow> [] | Inr rs \<Rightarrow> filter (\<lambda>r. ic_value r \<noteq> [] \<and> record_key (fst f) r = k) rs) @ offers feeds k"
  by (simp add: offers_def)

definition store_offer :: "string \<Rightarrow> int \<Rightarrow> ioc_row option \<Rightarrow> ioc_record \<Rightarrow> ioc_row option" where
  "store_offer feedId now o' r = Some (case o' of None \<Rightarrow> create_ioc feedId now r | Some row \<Rightarrow> update_ioc now r row)"

lemma batch_row:
  "row_at ioc_key k (foldl (upsert_ioc feedId now) t (filter (\<lambda>r. ic_value r \<noteq> []) records)) =
     foldl (store_offer (fst k) now) (row_at ioc_key k t) (filter (\<lambda>r. ic_value r \<noteq> [] \<and> record_key feedId r = k) records)"
proof -
  let ?rs = "filter (\<lambda>r. ic_value r \<noteq> [] \<and> record_key feedId r = k) records"
  have "row_at ioc_key k (foldl (upsert_ioc feedId now) t (filter (\<lambda>r. ic_value r \<noteq> []) records)) =
      foldl (store_offer feedId now) (row_at ioc_key k t) ?rs"
    unfolding store_offer_def ioc.row_at_upserts filter_filter by (simp only: conj_commute)
  also have "\<dots> = foldl (store_offer (fst k) now) (row_at ioc_key k t) ?rs"
    by (rule foldl_cong) (auto simp: record_key_def)
  finally show ?thesis .
qed

lemma refreshed_row:
  "row_at ioc_key k (fst (foldl (refresh_step now) (t, os) feeds)) = foldl (store_offer (fst k) now) (row_at ioc_key k t) (offers feeds k)"
proof (induction feeds arbitrary: t os)
  case (Cons f feeds)
  show ?case
  proof (cases "snd f")
    case (Inl message)
    then obtain out where "refresh_step now (t, os) f = (t, os @ [out])" by (simp add: refresh_step_def refreshFeed_def)
    then show ?thesis using Cons.IH Inl by (simp add: offers_Cons)
  next
    case (Inr records)
    then obtain out where
      "refresh_step now (t, os) f = (foldl (upsert_ioc (fst f) now) t (filter (\<lambda>r. ic_value r \<noteq> []) records), os @ [out])"
      by (simp add: refresh_step_def refreshFeed_def upsertBatch_def Let_def)
    then show ?thesis using Cons.IH Inr by (simp add: offers_Cons batch_row)
  qed
qed (simp add: offers_def)

lemma stored_offer:
  assumes "rs \<noteq> []"
  obtains row where "foldl (store_offer feedId now) o' rs = Some row" "io_refreshedAt row = now"
    "io_category row = ic_category (last rs)" "io_severity row = ic_severity (last rs)"
proof -
  have "\<exists>row. foldl (store_offer feedId now) o' rs = Some row \<and> io_refreshedAt row = now \<and>
      io_category row = ic_category (last rs) \<and> io_severity row = ic_severity (last rs)"
    using assms
    by (induction rs rule: rev_induct) (auto simp: store_offer_def create_ioc_def update_ioc_def split: option.splits)
  then show ?thesis using that by blast
qed

lemma distinct_refreshed: "distinct (map ioc_key t) \<Longrightarrow> distinct (map ioc_key (fst (foldl (refresh_step now) (t, os) feeds)))"
proof (induction feeds arbitrary: t os)
  case (Cons f feeds)
  have "distinct (map ioc_key (fst (refresh_step now (t, os) f)))"
    using Cons.prems ioc.distinct_upserts [OF Cons.prems]
    by (cases "snd f") (simp_all add: refresh_step_def refreshFeed_def upsertBatch_def Let_def)
  then show ?case using Cons.IH [of "fst (refresh_step now (t, os) f)" "snd (refresh_step now (t, os) f)"] by simp
qed simp

lemma row_at_filter:
  assumes "distinct (map key t)"
  shows "row_at key k (filter P t) = (case row_at key k t of None \<Rightarrow> None | Some r \<Rightarrow> if P r then Some r else None)"
  using assms
proof (induction t)
  case (Cons r t)
  have "row_at key (key r) t = None" using Cons.prems by (simp add: row_at_None)
  moreover from this have "row_at key (key r) (filter P t) = None" by (auto simp: row_at_None)
  ultimately show ?case using Cons by (cases "key r = k") (auto simp: row_at_def)
qed (simp add: row_at_def)

text \<open>C25: a refresh of the threat feeds.  What an answering feed lists is in the cache afterwards, fresh, with the last
  category and severity it was listed with.  Every other entry is as it was if it was confirmed in the last fourteen days,
  and gone otherwise; so a feed that fails loses nothing that is not stale.\<close>
theorem refresh_exact:
  assumes "distinct (map ioc_key t)" and "refreshAllFeeds None None feeds now t = (t', os, n)"
  shows "(offers feeds k \<noteq> [] \<longrightarrow>
      (\<exists>row. row_at ioc_key k t' = Some row \<and> io_refreshedAt row = now \<and>
         io_category row = ic_category (last (offers feeds k)) \<and> io_severity row = ic_severity (last (offers feeds k)))) \<and>
    (offers feeds k = [] \<longrightarrow>
      row_at ioc_key k t' = (case row_at ioc_key k t of None \<Rightarrow> None
        | Some row \<Rightarrow> if now - 14 * 24 * 60 * 60 * 1000 \<le> io_refreshedAt row then Some row else None)) \<and>
    length os = length feeds \<and> (\<forall>i < length feeds. fo_error (os ! i) = (case snd (feeds ! i) of Inl e \<Rightarrow> Some e | Inr _ \<Rightarrow> None))"
proof -
  let ?st = "foldl (refresh_step now) (t, []) feeds"
  have t': "t' = filter (\<lambda>r. \<not> io_refreshedAt r < now - 14 * 24 * 60 * 60 * 1000) (fst ?st)" and os: "os = snd ?st"
    using assms(2) by (auto simp: refreshAllFeeds_def pruneStale_def Let_def DEFAULT_STALE_DAYS_def)
  have row: "row_at ioc_key k t' = (case foldl (store_offer (fst k) now) (row_at ioc_key k t) (offers feeds k) of None \<Rightarrow> None
      | Some r \<Rightarrow> if \<not> io_refreshedAt r < now - 14 * 24 * 60 * 60 * 1000 then Some r else None)"
    unfolding t' by (subst row_at_filter [OF distinct_refreshed [OF assms(1)]]) (simp only: refreshed_row)
  have "\<exists>row. row_at ioc_key k t' = Some row \<and> io_refreshedAt row = now \<and>
      io_category row = ic_category (last (offers feeds k)) \<and> io_severity row = ic_severity (last (offers feeds k))"
    if listed: "offers feeds k \<noteq> []"
  proof -
    obtain r where r: "foldl (store_offer (fst k) now) (row_at ioc_key k t) (offers feeds k) = Some r" "io_refreshedAt r = now"
        "io_category r = ic_category (last (offers feeds k))" "io_severity r = ic_severity (last (offers feeds k))"
      by (rule stored_offer [OF listed])
    then have "row_at ioc_key k t' = Some r" by (simp add: row)
    then show ?thesis using r by blast
  qed
  moreover have "row_at ioc_key k t' = (case row_at ioc_key k t of None \<Rightarrow> None
      | Some row \<Rightarrow> if now - 14 * 24 * 60 * 60 * 1000 \<le> io_refreshedAt row then Some row else None)" if "offers feeds k = []"
    unfolding row that by (simp add: not_less split: option.split)
  moreover have "map fo_error (snd (foldl (refresh_step now) (u, os0) feeds)) =
      map fo_error os0 @ map (\<lambda>f. case snd f of Inl e \<Rightarrow> Some e | Inr _ \<Rightarrow> None) feeds" for u os0
    by (induction feeds arbitrary: u os0)
      (auto simp: refresh_step_def refreshFeed_def split: sum.splits prod.splits)
  then have errors: "map fo_error os = map (\<lambda>f. case snd f of Inl e \<Rightarrow> Some e | Inr _ \<Rightarrow> None) feeds" unfolding os by simp
  then have "length os = length feeds" by (metis length_map)
  moreover have "fo_error (os ! i) = (case snd (feeds ! i) of Inl e \<Rightarrow> Some e | Inr _ \<Rightarrow> None)" if "i < length feeds" for i
    using errors \<open>length os = length feeds\<close> that by (metis (no_types, lifting) nth_map)
  ultimately show ?thesis by blast
qed

theorem refresh_exact_witness:
  "\<exists>row. row_at ioc_key (''f'', ''domain'', ''x.y'')
     (fst (refreshAllFeeds None None [(''e'', Inl ''down''), (''f'', Inr [\<lparr>ic_kind = ''domain'', ic_value = ''x.y'',
        ic_category = None, ic_severity = Some ''HIGH'', ic_context = None\<rparr>])] 5 [])) = Some row \<and> io_severity row = Some ''HIGH''"
proof -
  let ?feeds = "[(''e'', Inl ''down''), (''f'', Inr [\<lparr>ic_kind = ''domain'', ic_value = ''x.y'', ic_category = None,
    ic_severity = Some ''HIGH'', ic_context = None\<rparr>])]"
  obtain t' os n where r: "refreshAllFeeds None None ?feeds 5 [] = (t', os, n)" by (metis prod_cases3)
  have offer: "offers ?feeds (''f'', ''domain'', ''x.y'') = [\<lparr>ic_kind = ''domain'', ic_value = ''x.y'', ic_category = None,
    ic_severity = Some ''HIGH'', ic_context = None\<rparr>]"
    by (simp add: offers_def record_key_def)
  have "distinct (map ioc_key [])" by simp
  from refresh_exact [OF this r, of "(''f'', ''domain'', ''x.y'')"] show ?thesis unfolding offer r by auto
qed

end
