(* ===== verification/Ioc_Match.thy ===== *)
theory Ioc_Match
  imports Threat_Intel "HOL-Library.List_Lexorder" "HOL-Library.Char_ord"
begin

text \<open>
  \<open>detectors/iocMatch.ts\<close>: traffic and DNS queries are held against the cache of threat indicators, one page of rows after
  the other, and one finding is kept for each device and indicator.  The cache is read at one moment.
\<close>

section \<open>Paging\<close>

text \<open>The loop \<^verbatim>\<open>for (;;) { page = findMany(where id > cursor, order by id, take k); ...; if (page.length < k) break; cursor = last id }\<close>;
  the result lists the pages.  The page sizes of the source are positive.\<close>

definition after :: "('r \<Rightarrow> string) \<Rightarrow> string option \<Rightarrow> 'r \<Rightarrow> bool" where
  "after key cursor r = (case cursor of None \<Rightarrow> True | Some c \<Rightarrow> c < key r)"

definition page :: "nat \<Rightarrow> ('r \<Rightarrow> string) \<Rightarrow> 'r list \<Rightarrow> string option \<Rightarrow> 'r list" where
  "page k key rows cursor = take k (sort_key key (filter (after key cursor) rows))"

lemma page_after: "r \<in> set (page k key rows cursor) \<Longrightarrow> r \<in> set rows \<and> after key cursor r"
  by (auto simp: page_def dest: in_set_takeD)

lemma after_trans: "after key cursor r \<Longrightarrow> after key (Some (key r)) q \<Longrightarrow> after key cursor q"
  by (auto simp: after_def split: option.splits)

function pages :: "nat \<Rightarrow> ('r \<Rightarrow> string) \<Rightarrow> 'r list \<Rightarrow> string option \<Rightarrow> 'r list list" where
  "pages k key rows cursor =
     (let p = page k key rows cursor in
      if k = 0 \<or> length p < k then [p] else p # pages k key rows (Some (key (last p))))"
  by pat_completeness auto

termination
proof (relation "measure (\<lambda>(k, key, rows, cursor). length (filter (after key cursor) rows))")
  fix k :: nat and key :: "'r \<Rightarrow> string" and rows cursor p
  assume p: "p = page k key rows cursor" "\<not> (k = 0 \<or> length p < k)"
  then have "last p \<in> set p" by (intro last_in_set) auto
  then have r: "last p \<in> set rows" "after key cursor (last p)" using p(1) page_after by fast+
  have "filter (after key (Some (key (last p)))) rows = filter (after key (Some (key (last p)))) (filter (after key cursor) rows)"
    using after_trans [OF r(2)] by (auto intro!: filter_cong)
  also have "length \<dots> < length (filter (after key cursor) rows)"
    using r by (intro length_filter_less [of "last p"]) (simp_all add: after_def)
  finally show "((k, key, rows, Some (key (last p))), k, key, rows, cursor)
      \<in> measure (\<lambda>(k, key, rows, cursor). length (filter (after key cursor) rows))" by simp
qed simp

declare pages.simps [simp del]

lemma pages_concat:
  assumes "0 < k" and "distinct (map key rows)"
  shows "concat (pages k key rows cursor) = filter (after key cursor) (sort_key key rows)"
  using assms
proof (induction k key rows cursor rule: pages.induct)
  case (1 k key rows cursor)
  let ?S = "filter (after key cursor) (sort_key key rows)" and ?p = "page k key rows cursor"
  have p: "?p = take k ?S" by (simp add: page_def filter_sort)
  show ?case
  proof (cases "length ?p < k")
    case True
    then have "take k ?S = ?S" using p by simp
    then show ?thesis using True p by (subst pages.simps) (simp add: Let_def)
  next
    case False
    let ?x = "last ?p"
    have ne: "?p \<noteq> []" using False "1.prems"(1) by auto
    have "sorted (map key ?S)" by (intro sorted_filter) simp
    moreover have "distinct (map key ?S)" using "1.prems"(2) by (simp add: distinct_map inj_on_def)
    ultimately have "sorted_wrt (<) (map key (take k ?S @ drop k ?S))" by (simp add: strict_sorted_iff)
    then have strict: "sorted_wrt (\<lambda>a b. key a < key b) ?p" "\<And>b. b \<in> set (drop k ?S) \<Longrightarrow> key ?x < key b"
      using ne unfolding p map_append sorted_wrt_append by (auto simp: sorted_wrt_map)
    have "key a \<le> key ?x" if "a \<in> set ?p" for a
    proof -
      have "?p = butlast ?p @ [?x]" using ne by simp
      then have "sorted_wrt (\<lambda>a b. key a < key b) (butlast ?p @ [?x])" "a \<in> set (butlast ?p @ [?x])" using strict(1) that by simp_all
      then show ?thesis by (auto simp: sorted_wrt_append)
    qed
    then have "filter (after key (Some (key ?x))) (take k ?S) = []" unfolding p [symmetric]
      by (auto simp: filter_empty_conv after_def not_less)
    moreover have "filter (after key (Some (key ?x))) (drop k ?S) = drop k ?S" using strict(2) by (simp add: filter_id_conv after_def)
    ultimately have "filter (after key (Some (key ?x))) ?S = drop k ?S" by (metis append_self_conv2 append_take_drop_id filter_append)
    moreover have "filter (after key (Some (key ?x))) (sort_key key rows) = filter (after key (Some (key ?x))) ?S"
      using after_trans [of key cursor ?x] page_after [of ?x k key rows cursor] ne by (auto simp: intro!: filter_cong)
    ultimately have "concat (pages k key rows (Some (key ?x))) = drop k ?S" using "1.IH" [OF refl] "1.prems" False by simp
    then show ?thesis using False "1.prems"(1) p by (subst pages.simps) (simp add: Let_def)
  qed
qed

lemma pages_rows:
  assumes "0 < k" and "distinct (map key rows)"
  shows "concat (pages k key rows None) = sort_key key rows" "set (concat (pages k key rows None)) = set rows"
  using pages_concat [OF assms, of None] by (simp_all add: after_def del: set_concat)

section \<open>Rows with their source\<close>

record site_flow = flow_row +
  sf_connectionId :: string
  sf_scopeId :: "string option"

record proxy_query = dns_row +
  pq_connectionId :: string

definition CRITICAL_CATEGORIES :: "string list" where
  "CRITICAL_CATEGORIES = [''malware-c2'', ''cryptominer'']"

definition EVENT_PAGE_SIZE :: nat where
  "EVENT_PAGE_SIZE = 500"

definition normalizeDomain :: "string \<Rightarrow> string" where
  "normalizeDomain v = drop_dot (to_lower (js_trim v))"

definition critical_hit :: "ioc_row \<Rightarrow> bool" where
  "critical_hit hit \<longleftrightarrow>
     map_option to_upper (io_severity hit) = Some ''CRITICAL'' \<or>
     dflt [] (map_option (\<lambda>c. to_lower (js_trim c)) (io_category hit)) \<in> set CRITICAL_CATEGORIES"

definition ioc_severityFor :: "ioc_row list \<Rightarrow> severity" where
  "ioc_severityFor hits = (if list_ex critical_hit hits then CRITICAL else HIGH)"

section \<open>Matches\<close>

record ioc_hit =
  ih_identity :: detector_identity
  ih_actor :: string
  ih_destination :: string
  ih_kind :: string
  ih_hits :: "ioc_row list"
  ih_evidence :: evidence

text \<open>The indicators of a match, each with its entries of the cache.\<close>

definition hit_indicator :: "string \<Rightarrow> ioc_row \<Rightarrow> string option" where
  "hit_indicator kind hit = (if kind = ''ip'' then normalizeIp (Some (io_value hit)) else Some (normalizeDomain (io_value hit)))"

definition hit_counts :: "string \<Rightarrow> ioc_row \<Rightarrow> bool" where
  "hit_counts kind hit \<longleftrightarrow> truthy (hit_indicator kind hit) \<and> io_kind hit = kind"

definition indicators_of :: "ioc_hit \<Rightarrow> (string \<times> ioc_row list) list" where
  "indicators_of h =
     accum (hit_counts (ih_kind h)) (\<lambda>r. the (hit_indicator (ih_kind h) r)) (\<lambda>r. [r]) (\<lambda>r hits. hits @ [r]) (ih_hits h)"

text \<open>One step of the merging loop: a match, one of its indicators, and the entries that list it.\<close>

type_synonym ioc_event = "ioc_hit \<times> string \<times> ioc_row list"

definition events_of :: "ioc_hit \<Rightarrow> ioc_event list" where
  "events_of h = map (\<lambda>x. (h, x)) (indicators_of h)"

section \<open>One finding per device and indicator\<close>

record ioc_finding =
  if_fingerprint :: string
  if_identity :: detector_identity
  if_matchedValue :: string
  if_kind :: string
  if_actor :: string
  if_severity :: severity
  if_evidence :: "evidence list"
  if_count :: nat
  if_feeds :: "string list"
  if_categories :: "string list"
  if_destinations :: "string list"
  if_firstObservedAt :: "int option"
  if_lastObservedAt :: "int option"

definition indicator_fingerprint :: "(string \<Rightarrow> string) \<Rightarrow> detector_identity \<Rightarrow> string \<Rightarrow> string \<Rightarrow> string" where
  "indicator_fingerprint digest i kind v = detectorFingerprint digest ''ioc_match'' i (Some (kind @ '':'' @ v))"

definition event_fingerprint :: "(string \<Rightarrow> string) \<Rightarrow> ioc_event \<Rightarrow> string" where
  "event_fingerprint digest e = (case e of (h, v, hits) \<Rightarrow> indicator_fingerprint digest (ih_identity h) (ih_kind h) v)"

definition first_event :: "(string \<Rightarrow> string) \<Rightarrow> ioc_event \<Rightarrow> ioc_finding" where
  "first_event digest e =
     (case e of (h, v, hits) \<Rightarrow>
        \<lparr>if_fingerprint = event_fingerprint digest e, if_identity = ih_identity h, if_matchedValue = v, if_kind = ih_kind h,
         if_actor = ih_actor h, if_severity = HIGH, if_evidence = [], if_count = 0, if_feeds = [], if_categories = [],
         if_destinations = [], if_firstObservedAt = None, if_lastObservedAt = None\<rparr>)"

definition is_newest :: "ioc_hit \<Rightarrow> ioc_finding \<Rightarrow> bool" where
  "is_newest h f =
     (case di_observedAt (ih_identity h) of
        None \<Rightarrow> False
      | Some t \<Rightarrow>
          (case if_lastObservedAt f of
             None \<Rightarrow> True
           | Some l \<Rightarrow> t > l \<or> (t = l \<and> di_eventId (if_identity f) < di_eventId (ih_identity h))))"

definition earliest :: "int option \<Rightarrow> int option \<Rightarrow> int option" where
  "earliest a b = (case a of None \<Rightarrow> b | Some t \<Rightarrow> (case b of None \<Rightarrow> Some t | Some u \<Rightarrow> Some (min t u)))"

definition latest :: "int option \<Rightarrow> int option \<Rightarrow> int option" where
  "latest a b = (case a of None \<Rightarrow> b | Some t \<Rightarrow> (case b of None \<Rightarrow> Some t | Some u \<Rightarrow> Some (max t u)))"

definition is_source_event :: "evidence \<Rightarrow> bool" where
  "is_source_event ev = (case ev of EvFlow i \<Rightarrow> True | EvDnsQuery i \<Rightarrow> True | _ \<Rightarrow> False)"

text \<open>An item is the key of its own text, so an item that is there is not added again.\<close>

definition add_evidence_item :: "evidence list \<times> nat \<Rightarrow> evidence \<Rightarrow> evidence list \<times> nat" where
  "add_evidence_item st ev =
     (if ev \<in> set (fst st) then st else (fst st @ [ev], if is_source_event ev then snd st + 1 else snd st))"

definition new_evidence :: "ioc_event \<Rightarrow> evidence list" where
  "new_evidence e = (case e of (h, v, hits) \<Rightarrow> ih_evidence h # map (\<lambda>r. EvIoc v (io_feed r)) hits)"

definition hit_categories :: "ioc_row list \<Rightarrow> string list" where
  "hit_categories hits =
     concat (map (\<lambda>r. case io_category r of None \<Rightarrow> [] | Some c \<Rightarrow> if js_trim c = [] then [] else [to_lower (js_trim c)]) hits)"

definition add_event :: "ioc_event \<Rightarrow> ioc_finding \<Rightarrow> ioc_finding" where
  "add_event e f =
     (case e of (h, v, hits) \<Rightarrow>
        (let newest = is_newest h f; ev = foldl add_evidence_item (if_evidence f, if_count f) (new_evidence e);
             observedAt = di_observedAt (ih_identity h)
         in f\<lparr>if_identity := (if newest then ih_identity h else if_identity f),
              if_actor := (if newest then ih_actor h else if_actor f),
              if_severity := (if if_severity f = CRITICAL then CRITICAL else ioc_severityFor hits),
              if_evidence := fst ev, if_count := snd ev,
              if_feeds := foldl (\<lambda>s r. os_add (io_feed r) s) (if_feeds f) hits,
              if_categories := foldl (\<lambda>s c. os_add c s) (if_categories f) (hit_categories hits),
              if_destinations := os_add (ih_destination h) (if_destinations f),
              if_firstObservedAt := earliest (if_firstObservedAt f) observedAt,
              if_lastObservedAt := latest (if_lastObservedAt f) observedAt\<rparr>))"

definition merged_findings :: "(string \<Rightarrow> string) \<Rightarrow> ioc_event list \<Rightarrow> (string \<times> ioc_finding) list" where
  "merged_findings digest events =
     accum (\<lambda>_. True) (event_fingerprint digest) (\<lambda>e. add_event e (first_event digest e)) add_event events"

definition time_json :: "int option \<Rightarrow> json" where
  "time_json t = (case t of None \<Rightarrow> JNull | Some x \<Rightarrow> js_int x)"

definition strs_json :: "string list \<Rightarrow> json" where
  "strs_json xs = JArr (map JStr xs)"

definition ioc_result :: "ioc_finding \<Rightarrow> detection_result" where
  "ioc_result f =
     \<lparr>dr_fingerprint = if_fingerprint f, dr_severity = if_severity f,
      dr_title = if_actor f @ '' matched threat indicator '' @ if_matchedValue f,
      dr_description = ''Destination matched threat-intel feed(s): '' @ join '', '' (sort (if_feeds f)) @ ''.'',
      dr_remediation = None, dr_affectedResource = Some (if_actor f), dr_srcMac = di_srcMac (if_identity f),
      dr_confidence = None, dr_evidence = if_evidence f,
      dr_metadata = Some
        [(''identity'', identity_json (if_identity f)), (''matchedValue'', JStr (if_matchedValue f)),
         (''indicatorKind'', JStr (if_kind f)), (''observedDestinations'', strs_json (sort (if_destinations f))),
         (''feeds'', strs_json (sort (if_feeds f))), (''categories'', strs_json (sort (if_categories f))),
         (''firstObservedAt'', time_json (if_firstObservedAt f)), (''lastObservedAt'', time_json (if_lastObservedAt f)),
         (''sourceEventCount'', js_int (int (if_count f)))]\<rparr>"

section \<open>The detector\<close>

definition flow_identity :: "site_flow \<Rightarrow> detector_identity option" where
  "flow_identity f =
     createDetectorIdentity UnifiSource (Some (sf_connectionId f)) (sf_scopeId f) (fl_srcIp f) (fl_srcMac f) (fl_id f)
       (Some (fl_occurredAt f))"

definition query_identity :: "proxy_query \<Rightarrow> detector_identity option" where
  "query_identity q =
     createDetectorIdentity AdguardSource (Some (pq_connectionId q)) None (dq_clientIp q) None (dq_id q) (Some (dq_queriedAt q))"

text \<open>The match of a row, if any; None is the exception for a row without an identifier.\<close>

definition flow_hit :: "ioc_row list \<Rightarrow> site_flow \<Rightarrow> ioc_hit list option" where
  "flow_hit t f =
     (case normalizeIp (fl_dstIp f) of
        None \<Rightarrow> Some []
      | Some destination \<Rightarrow>
          (case lookupIp t (to_lower (js_trim (the (fl_dstIp f)))) of
             [] \<Rightarrow> Some []
           | hits \<Rightarrow>
               map_option (\<lambda>i. [\<lparr>ih_identity = i,
                   ih_actor = str_dflt (str_or (map_option js_trim (fl_srcClientName f)) (str_or (di_srcMac i) (di_srcIp i)))
                     ''Unknown device'',
                   ih_destination = destination, ih_kind = ''ip'', ih_hits = hits, ih_evidence = EvFlow (fl_id f)\<rparr>])
                 (flow_identity f)))"

definition query_hit :: "ioc_row list \<Rightarrow> proxy_query \<Rightarrow> ioc_hit list option" where
  "query_hit t q =
     (let destination = normalizeDomain (dq_domain q) in
      if destination = [] then Some []
      else
        (case lookupDomain t destination of
           [] \<Rightarrow> Some []
         | hits \<Rightarrow>
             map_option (\<lambda>i. [\<lparr>ih_identity = i,
                 ih_actor = str_dflt (str_or (map_option js_trim (dq_clientName q)) (di_srcIp i)) ''Unknown client'',
                 ih_destination = destination, ih_kind = ''domain'', ih_hits = hits, ih_evidence = EvDnsQuery (dq_id q)\<rparr>])
               (query_identity q)))"

definition ioc_flows :: "detector_context \<Rightarrow> site_flow list \<Rightarrow> site_flow list" where
  "ioc_flows ctx flows = filter (\<lambda>f. in_window ctx (fl_occurredAt f) \<and> fl_dstIp f \<noteq> None) flows"

definition ioc_queries :: "detector_context \<Rightarrow> proxy_query list \<Rightarrow> proxy_query list" where
  "ioc_queries ctx queries = filter (\<lambda>q. in_window ctx (dq_queriedAt q)) queries"

definition ioc_hits :: "ioc_row list \<Rightarrow> detector_context \<Rightarrow> site_flow list \<Rightarrow> proxy_query list \<Rightarrow> ioc_hit list option" where
  "ioc_hits t ctx flows queries =
     (case (all_of (flow_hit t) (concat (pages EVENT_PAGE_SIZE fl_id (ioc_flows ctx flows) None)),
            all_of (query_hit t) (concat (pages EVENT_PAGE_SIZE dq_id (ioc_queries ctx queries) None))) of
        (Some a, Some b) \<Rightarrow> Some (concat a @ concat b)
      | _ \<Rightarrow> None)"

definition ioc_match_evaluate ::
    "(string \<Rightarrow> string) \<Rightarrow> ioc_row list \<Rightarrow> detector_context \<Rightarrow> site_flow list \<Rightarrow> proxy_query list \<Rightarrow> detection_result list option" where
  "ioc_match_evaluate digest t ctx flows queries =
     map_option (\<lambda>hs. map ioc_result (om_values (merged_findings digest (concat (map events_of hs)))))
       (ioc_hits t ctx flows queries)"

section \<open>What is reported\<close>

text \<open>A sighting: a row of the window whose destination a cache entry lists, with the identity of its device, the kind and
  value of the indicator, the entry and the evidence.\<close>

definition sighting ::
    "ioc_row list \<Rightarrow> detector_context \<Rightarrow> site_flow list \<Rightarrow> proxy_query list \<Rightarrow>
     detector_identity \<Rightarrow> string \<Rightarrow> string \<Rightarrow> ioc_row \<Rightarrow> evidence \<Rightarrow> bool" where
  "sighting t ctx flows queries i kind v r ev \<longleftrightarrow>
     kind = ''ip'' \<and> normalizeIp (Some (io_value r)) = Some v \<and> v \<noteq> [] \<and> io_kind r = ''ip'' \<and>
       (\<exists>f \<in> set flows. in_window ctx (fl_occurredAt f) \<and> flow_identity f = Some i \<and> ev = EvFlow (fl_id f) \<and>
          normalizeIp (fl_dstIp f) \<noteq> None \<and> r \<in> set (lookupIp t (to_lower (js_trim (the (fl_dstIp f)))))) \<or>
     kind = ''domain'' \<and> v = normalizeDomain (io_value r) \<and> v \<noteq> [] \<and> io_kind r = ''domain'' \<and>
       (\<exists>q \<in> set queries. in_window ctx (dq_queriedAt q) \<and> query_identity q = Some i \<and> ev = EvDnsQuery (dq_id q) \<and>
          normalizeDomain (dq_domain q) \<noteq> [] \<and> r \<in> set (lookupDomain t (normalizeDomain (dq_domain q))))"

lemma bucket_of_list: "bucket_of (\<lambda>r. [r]) (\<lambda>r hits. hits @ [r]) rs = Some hits \<longleftrightarrow> hits = rs \<and> rs \<noteq> []"
proof -
  have "foldl (\<lambda>hits r. hits @ [r]) acc rs = acc @ rs" for acc and rs :: "'a list"
    by (induction rs arbitrary: acc) simp_all
  then show ?thesis by (cases rs) (auto simp: bucket_of_def)
qed

lemma event_mem:
  "(h, v, hits) \<in> set (events_of h') \<longleftrightarrow>
     h = h' \<and> hits = filter (\<lambda>r. hit_counts (ih_kind h) r \<and> hit_indicator (ih_kind h) r = Some v) (ih_hits h) \<and> hits \<noteq> []"
proof -
  have "rows_of (hit_counts k) (\<lambda>r. the (hit_indicator k r)) v rs = filter (\<lambda>r. hit_counts k r \<and> hit_indicator k r = Some v) rs" for k rs
    unfolding rows_of_def by (rule filter_cong) (auto simp: hit_counts_def truthy_def split: option.splits)
  then show ?thesis by (auto simp: events_of_def indicators_of_def accum_mem bucket_of_list)
qed

lemma foldl_evidence: "set (fst (foldl add_evidence_item st evs)) = set (fst st) \<union> set evs"
  by (induction evs arbitrary: st) (auto simp: add_evidence_item_def)

lemma add_event_simps:
  "if_fingerprint (add_event e f) = if_fingerprint f"
  "set (if_evidence (add_event e f)) = set (if_evidence f) \<union> set (new_evidence e)"
  "if_severity (add_event e f) = (if if_severity f = CRITICAL \<or> list_ex critical_hit (snd (snd e)) then CRITICAL else HIGH)"
  by (cases e; auto simp: add_event_def Let_def foldl_evidence ioc_severityFor_def)+

lemma add_event_fields:
  "if_identity (add_event e f) = (if is_newest (fst e) f then ih_identity (fst e) else if_identity f)"
  "if_kind (add_event e f) = if_kind f" "if_matchedValue (add_event e f) = if_matchedValue f"
  by (cases e; simp add: add_event_def Let_def)+

lemma first_event_fields:
  "if_identity (first_event digest e) = ih_identity (fst e)" "if_kind (first_event digest e) = ih_kind (fst e)"
  "if_matchedValue (first_event digest e) = fst (snd e)"
  by (cases e; simp add: first_event_def)+

lemma merged_mem:
  assumes "(fp, f) \<in> set (merged_findings digest events)"
  shows "if_fingerprint f = fp"
    "set (if_evidence f) = (\<Union>e \<in> {e \<in> set events. event_fingerprint digest e = fp}. set (new_evidence e))"
    "if_severity f = CRITICAL \<longleftrightarrow> (\<exists>e \<in> set events. event_fingerprint digest e = fp \<and> list_ex critical_hit (snd (snd e)))"
proof -
  let ?rows = "rows_of (\<lambda>_. True) (event_fingerprint digest) fp events"
  have rows: "set ?rows = {e \<in> set events. event_fingerprint digest e = fp}" by (auto simp: rows_of_def)
  have b: "bucket_of (\<lambda>e. add_event e (first_event digest e)) add_event ?rows = Some f"
    using assms by (simp add: merged_findings_def accum_mem)
  have "if_fingerprint f = fp \<and> set (if_evidence f) = (\<Union>e \<in> set ?rows. set (new_evidence e)) \<and>
      (if_severity f = CRITICAL \<longleftrightarrow> (\<exists>e \<in> set ?rows. list_ex critical_hit (snd (snd e))))"
  proof (rule bucket_of_induct [OF b, where P = "\<lambda>seen f. if_fingerprint f = fp \<and>
      set (if_evidence f) = (\<Union>e \<in> set seen. set (new_evidence e)) \<and>
      (if_severity f = CRITICAL \<longleftrightarrow> (\<exists>e \<in> set seen. list_ex critical_hit (snd (snd e))))"], goal_cases)
    case (1 e)
    then have "event_fingerprint digest e = fp" by (simp add: rows_of_def)
    then show ?case by (cases e) (simp add: add_event_simps first_event_def)
  next
    case (2 seen e f)
    then show ?case by (auto simp: add_event_simps)
  qed
  then show "if_fingerprint f = fp"
    "set (if_evidence f) = (\<Union>e \<in> {e \<in> set events. event_fingerprint digest e = fp}. set (new_evidence e))"
    "if_severity f = CRITICAL \<longleftrightarrow> (\<exists>e \<in> set events. event_fingerprint digest e = fp \<and> list_ex critical_hit (snd (snd e)))"
    unfolding rows by blast+
qed

lemma merged_origin:
  assumes "(fp, f) \<in> set (merged_findings digest events)"
  shows "\<exists>e \<in> set events. event_fingerprint digest e = fp \<and> if_identity f = ih_identity (fst e)"
    and "\<exists>e \<in> set events. event_fingerprint digest e = fp \<and> if_kind f = ih_kind (fst e) \<and> if_matchedValue f = fst (snd e)"
proof -
  let ?rows = "rows_of (\<lambda>_. True) (event_fingerprint digest) fp events"
  have b: "bucket_of (\<lambda>e. add_event e (first_event digest e)) add_event ?rows = Some f"
    using assms by (simp add: merged_findings_def accum_mem)
  have "(\<exists>e \<in> set ?rows. if_identity f = ih_identity (fst e)) \<and>
      (\<exists>e \<in> set ?rows. if_kind f = ih_kind (fst e) \<and> if_matchedValue f = fst (snd e))"
  proof (rule bucket_of_induct [OF b, where P = "\<lambda>seen f. (\<exists>e \<in> set seen. if_identity f = ih_identity (fst e)) \<and>
      (\<exists>e \<in> set seen. if_kind f = ih_kind (fst e) \<and> if_matchedValue f = fst (snd e))"], goal_cases)
    case (1 e)
    then show ?case by (simp add: add_event_fields first_event_fields)
  next
    case (2 seen e f)
    then show ?case by (auto simp: add_event_fields)
  qed
  then show "\<exists>e \<in> set events. event_fingerprint digest e = fp \<and> if_identity f = ih_identity (fst e)"
    and "\<exists>e \<in> set events. event_fingerprint digest e = fp \<and> if_kind f = ih_kind (fst e) \<and> if_matchedValue f = fst (snd e)"
    by (auto simp: rows_of_def)
qed

lemma all_of_Some: "\<forall>x \<in> set xs. g x \<noteq> None \<Longrightarrow> all_of g xs = Some (map (\<lambda>x. the (g x)) xs)"
  by (induction xs) auto

lemma identity_made: "nonempty (Some e) \<noteq> None \<Longrightarrow> \<exists>i. createDetectorIdentity k c sc ip mac e obs = Some i"
  by (auto simp: createDetectorIdentity_def split: option.splits)

lemma flow_seen:
  "(\<exists>h. flow_hit t f = Some [h] \<and> ih_identity h = i \<and> ih_kind h = kind \<and> ih_evidence h = ev \<and> r \<in> set (ih_hits h)) \<longleftrightarrow>
   kind = ''ip'' \<and> ev = EvFlow (fl_id f) \<and> flow_identity f = Some i \<and> normalizeIp (fl_dstIp f) \<noteq> None \<and>
     r \<in> set (lookupIp t (to_lower (js_trim (the (fl_dstIp f)))))"
  by (cases "lookupIp t (to_lower (js_trim (the (fl_dstIp f))))"; cases "normalizeIp (fl_dstIp f)"; cases "flow_identity f")
    (auto simp: flow_hit_def)

lemma query_seen:
  "(\<exists>h. query_hit t q = Some [h] \<and> ih_identity h = i \<and> ih_kind h = kind \<and> ih_evidence h = ev \<and> r \<in> set (ih_hits h)) \<longleftrightarrow>
   kind = ''domain'' \<and> ev = EvDnsQuery (dq_id q) \<and> query_identity q = Some i \<and> normalizeDomain (dq_domain q) \<noteq> [] \<and>
     r \<in> set (lookupDomain t (normalizeDomain (dq_domain q)))"
  by (cases "lookupDomain t (normalizeDomain (dq_domain q))"; cases "query_identity q")
    (auto simp: query_hit_def Let_def)

lemma hit_total:
  "nonempty (Some (fl_id f)) \<noteq> None \<Longrightarrow> flow_hit t f = Some [] \<or> (\<exists>h. flow_hit t f = Some [h])"
  "nonempty (Some (dq_id q)) \<noteq> None \<Longrightarrow> query_hit t q = Some [] \<or> (\<exists>h. query_hit t q = Some [h])"
proof -
  assume "nonempty (Some (fl_id f)) \<noteq> None"
  then obtain i where "flow_identity f = Some i" unfolding flow_identity_def using identity_made by blast
  then show "flow_hit t f = Some [] \<or> (\<exists>h. flow_hit t f = Some [h])" by (auto simp: flow_hit_def split: option.split list.split)
next
  assume "nonempty (Some (dq_id q)) \<noteq> None"
  then obtain i where "query_identity q = Some i" unfolding query_identity_def using identity_made by blast
  then show "query_hit t q = Some [] \<or> (\<exists>h. query_hit t q = Some [h])"
    by (auto simp: query_hit_def Let_def split: list.split)
qed

lemma all_hits:
  assumes "\<forall>x \<in> set xs. g x = Some [] \<or> (\<exists>h. g x = Some [h])"
  shows "\<exists>hs. all_of g xs = Some hs \<and> (\<forall>h. h \<in> set (concat hs) \<longleftrightarrow> (\<exists>x \<in> set xs. g x = Some [h]))"
proof -
  have "\<forall>x \<in> set xs. g x \<noteq> None" using assms by auto
  then have "all_of g xs = Some (map (\<lambda>x. the (g x)) xs)" by (rule all_of_Some)
  moreover have "h \<in> set (concat (map (\<lambda>x. the (g x)) xs)) \<longleftrightarrow> (\<exists>x \<in> set xs. g x = Some [h])" for h
    using assms by (induction xs) auto
  ultimately show ?thesis by blast
qed

definition sound_rows :: "site_flow list \<Rightarrow> proxy_query list \<Rightarrow> bool" where
  "sound_rows flows queries \<longleftrightarrow>
     distinct (map fl_id flows) \<and> list_all (\<lambda>f. nonempty (Some (fl_id f)) \<noteq> None) flows \<and>
     distinct (map dq_id queries) \<and> list_all (\<lambda>q. nonempty (Some (dq_id q)) \<noteq> None) queries"

lemma normalized_some: "normalizeIp v = Some a \<Longrightarrow> \<exists>s. v = Some s"
  by (cases v) (simp_all add: normalizeIp_def nonempty_def)

lemma hits_made:
  assumes "sound_rows flows queries"
  obtains hs where "ioc_hits t ctx flows queries = Some hs"
    and "\<And>i kind v r ev. sighting t ctx flows queries i kind v r ev \<longleftrightarrow>
      (\<exists>h \<in> set hs. ih_identity h = i \<and> ih_kind h = kind \<and> ih_evidence h = ev \<and> r \<in> set (ih_hits h) \<and>
         hit_counts kind r \<and> hit_indicator kind r = Some v)"
proof -
  let ?fs = "concat (pages EVENT_PAGE_SIZE fl_id (ioc_flows ctx flows) None)"
  let ?qs = "concat (pages EVENT_PAGE_SIZE dq_id (ioc_queries ctx queries) None)"
  have d: "distinct (map fl_id (ioc_flows ctx flows))" "distinct (map dq_id (ioc_queries ctx queries))"
    using assms by (simp_all add: sound_rows_def ioc_flows_def ioc_queries_def distinct_map_filter)
  have sets: "set ?fs = set (ioc_flows ctx flows)" "set ?qs = set (ioc_queries ctx queries)"
    using d by (simp_all only: pages_rows(2) EVENT_PAGE_SIZE_def zero_less_numeral)
  have "\<forall>f \<in> set ?fs. flow_hit t f = Some [] \<or> (\<exists>h. flow_hit t f = Some [h])"
    using assms hit_total(1) unfolding sets by (auto simp: sound_rows_def ioc_flows_def list_all_iff)
  then obtain a where a: "all_of (flow_hit t) ?fs = Some a" "\<And>h. h \<in> set (concat a) \<longleftrightarrow> (\<exists>f \<in> set (ioc_flows ctx flows). flow_hit t f = Some [h])"
    unfolding sets [symmetric] using all_hits by blast
  have "\<forall>q \<in> set ?qs. query_hit t q = Some [] \<or> (\<exists>h. query_hit t q = Some [h])"
    using assms hit_total(2) unfolding sets by (auto simp: sound_rows_def ioc_queries_def list_all_iff)
  then obtain b where b: "all_of (query_hit t) ?qs = Some b" "\<And>h. h \<in> set (concat b) \<longleftrightarrow> (\<exists>q \<in> set (ioc_queries ctx queries). query_hit t q = Some [h])"
    unfolding sets [symmetric] using all_hits by blast
  have hs: "ioc_hits t ctx flows queries = Some (concat a @ concat b)" by (simp add: ioc_hits_def a(1) b(1))
  have rows: "(\<exists>h \<in> set (concat a @ concat b). Q h) \<longleftrightarrow>
      (\<exists>f \<in> set (ioc_flows ctx flows). \<exists>h. flow_hit t f = Some [h] \<and> Q h) \<or>
      (\<exists>q \<in> set (ioc_queries ctx queries). \<exists>h. query_hit t q = Some [h] \<and> Q h)" for Q
    unfolding set_append bex_Un using a(2) b(2) by blast
  have "sighting t ctx flows queries i kind v r ev \<longleftrightarrow>
      (\<exists>h \<in> set (concat a @ concat b). ih_identity h = i \<and> ih_kind h = kind \<and> ih_evidence h = ev \<and> r \<in> set (ih_hits h) \<and>
         hit_counts kind r \<and> hit_indicator kind r = Some v)" for i kind v r ev
  proof -
    have "(\<exists>h \<in> set (concat a @ concat b). (ih_identity h = i \<and> ih_kind h = kind \<and> ih_evidence h = ev \<and> r \<in> set (ih_hits h)) \<and>
         hit_counts kind r \<and> hit_indicator kind r = Some v) \<longleftrightarrow>
      ((\<exists>f \<in> set (ioc_flows ctx flows). \<exists>h. flow_hit t f = Some [h] \<and> ih_identity h = i \<and> ih_kind h = kind \<and> ih_evidence h = ev \<and>
          r \<in> set (ih_hits h)) \<or>
       (\<exists>q \<in> set (ioc_queries ctx queries). \<exists>h. query_hit t q = Some [h] \<and> ih_identity h = i \<and> ih_kind h = kind \<and>
          ih_evidence h = ev \<and> r \<in> set (ih_hits h))) \<and> hit_counts kind r \<and> hit_indicator kind r = Some v"
      unfolding rows by blast
    also have "\<dots> \<longleftrightarrow> sighting t ctx flows queries i kind v r ev"
      unfolding flow_seen query_seen
      using normalized_some by (auto simp: sighting_def ioc_flows_def ioc_queries_def hit_counts_def hit_indicator_def)
    finally show ?thesis by (simp only: conj_assoc)
  qed
  then show ?thesis using that hs by blast
qed

lemma event_hits: "e \<in> set (events_of h) \<Longrightarrow> \<exists>r. r \<in> set (snd (snd e))"
proof -
  assume e: "e \<in> set (events_of h)"
  obtain h' v hits where x: "e = (h', v, hits)" by (cases e)
  have "hits \<noteq> []" using e unfolding x event_mem by blast
  then have "snd (snd e) \<noteq> []" by (simp add: x)
  then show ?thesis by (meson list.set_sel(1))
qed

lemma events_seen:
  "(\<exists>e \<in> set (concat (map events_of hs)). \<exists>r \<in> set (snd (snd e)).
      P (ih_identity (fst e)) (ih_kind (fst e)) (fst (snd e)) r (ih_evidence (fst e))) \<longleftrightarrow>
   (\<exists>h \<in> set hs. \<exists>r \<in> set (ih_hits h). \<exists>v. hit_counts (ih_kind h) r \<and> hit_indicator (ih_kind h) r = Some v \<and>
      P (ih_identity h) (ih_kind h) v r (ih_evidence h))" (is "?L \<longleftrightarrow> ?R")
proof
  assume ?L
  then obtain h e r where h: "h \<in> set hs" "e \<in> set (events_of h)" "r \<in> set (snd (snd e))"
      "P (ih_identity (fst e)) (ih_kind (fst e)) (fst (snd e)) r (ih_evidence (fst e))"
    by auto
  then show ?R using event_mem [of "fst e" "fst (snd e)" "snd (snd e)" h] by auto
next
  assume ?R
  then obtain h r v where h: "h \<in> set hs" "r \<in> set (ih_hits h)" "hit_counts (ih_kind h) r" "hit_indicator (ih_kind h) r = Some v"
      "P (ih_identity h) (ih_kind h) v r (ih_evidence h)"
    by blast
  define hits where "hits = filter (\<lambda>r. hit_counts (ih_kind h) r \<and> hit_indicator (ih_kind h) r = Some v) (ih_hits h)"
  have r: "r \<in> set hits" using h by (simp add: hits_def)
  then have "hits \<noteq> []" by auto
  then have "(h, v, hits) \<in> set (events_of h)" by (simp add: event_mem hits_def)
  then have "(h, v, hits) \<in> set (concat (map events_of hs))" using h(1) by auto
  moreover have "\<exists>r \<in> set (snd (snd (h, v, hits))). P (ih_identity (fst (h, v, hits))) (ih_kind (fst (h, v, hits)))
      (fst (snd (h, v, hits))) r (ih_evidence (fst (h, v, hits)))"
    using h(5) r by auto
  ultimately show ?L by (rule bexI [rotated])
qed

lemma new_evidence_set: "x \<in> set (new_evidence e) \<longleftrightarrow> x = ih_evidence (fst e) \<or> (\<exists>r \<in> set (snd (snd e)). x = EvIoc (fst (snd e)) (io_feed r))"
  by (cases e) (auto simp: new_evidence_def)

lemma event_fingerprint_sel:
  "event_fingerprint digest e = indicator_fingerprint digest (ih_identity (fst e)) (ih_kind (fst e)) (fst (snd e))"
  by (cases e) (simp add: event_fingerprint_def)

text \<open>A run merges events, which are the sightings.\<close>

lemma ioc_match_run:
  assumes "sound_rows flows queries"
  shows "\<exists>events. ioc_match_evaluate digest t ctx flows queries = Some (map ioc_result (om_values (merged_findings digest events))) \<and>
    (\<forall>e \<in> set events. \<exists>r. r \<in> set (snd (snd e))) \<and>
    (\<forall>P. (\<exists>e \<in> set events. \<exists>r \<in> set (snd (snd e)). P (ih_identity (fst e)) (ih_kind (fst e)) (fst (snd e)) r (ih_evidence (fst e))) \<longleftrightarrow>
      (\<exists>i kind v r ev. sighting t ctx flows queries i kind v r ev \<and> P i kind v r ev))"
proof -
  obtain hs where hs: "ioc_hits t ctx flows queries = Some hs"
    and seen: "\<And>i kind v r ev. sighting t ctx flows queries i kind v r ev \<longleftrightarrow>
      (\<exists>h \<in> set hs. ih_identity h = i \<and> ih_kind h = kind \<and> ih_evidence h = ev \<and> r \<in> set (ih_hits h) \<and>
         hit_counts kind r \<and> hit_indicator kind r = Some v)"
    using hits_made [OF assms] by blast
  let ?events = "concat (map events_of hs)"
  have "(\<exists>e \<in> set ?events. \<exists>r \<in> set (snd (snd e)). P (ih_identity (fst e)) (ih_kind (fst e)) (fst (snd e)) r (ih_evidence (fst e))) \<longleftrightarrow>
      (\<exists>i kind v r ev. sighting t ctx flows queries i kind v r ev \<and> P i kind v r ev)" for P
    unfolding events_seen seen by blast
  moreover have "\<exists>r. r \<in> set (snd (snd e))" if "e \<in> set ?events" for e
  proof -
    have "\<exists>h. e \<in> set (events_of h)" using that unfolding set_concat set_map by blast
    then show ?thesis using event_hits by blast
  qed
  moreover have "ioc_match_evaluate digest t ctx flows queries = Some (map ioc_result (om_values (merged_findings digest ?events)))"
    by (simp add: ioc_match_evaluate_def hs)
  ultimately show ?thesis by blast
qed

lemma ioc_findings:
  assumes "sound_rows flows queries"
  shows "\<exists>ds. ioc_match_evaluate digest t ctx flows queries = Some ds \<and> distinct (map dr_fingerprint ds) \<and>
    dr_fingerprint ` set ds =
      {indicator_fingerprint digest i kind v | i kind v r ev. sighting t ctx flows queries i kind v r ev} \<and>
    (\<forall>d \<in> set ds. set (dr_evidence d) =
       {x. \<exists>i kind v r ev. sighting t ctx flows queries i kind v r ev \<and>
          indicator_fingerprint digest i kind v = dr_fingerprint d \<and> x \<in> {ev, EvIoc v (io_feed r)}}) \<and>
    (\<forall>d \<in> set ds. dr_severity d = CRITICAL \<longleftrightarrow>
       (\<exists>i kind v r ev. sighting t ctx flows queries i kind v r ev \<and>
          indicator_fingerprint digest i kind v = dr_fingerprint d \<and> critical_hit r)) \<and>
    (\<forall>d \<in> set ds. \<exists>f. d = ioc_result f \<and>
       (\<exists>kind v r ev. sighting t ctx flows queries (if_identity f) kind v r ev \<and>
          indicator_fingerprint digest (if_identity f) kind v = dr_fingerprint d) \<and>
       (\<exists>i r ev. sighting t ctx flows queries i (if_kind f) (if_matchedValue f) r ev \<and>
          indicator_fingerprint digest i (if_kind f) (if_matchedValue f) = dr_fingerprint d))"
proof -
  obtain events where run: "ioc_match_evaluate digest t ctx flows queries = Some (map ioc_result (om_values (merged_findings digest events)))"
    and some: "\<And>e. e \<in> set events \<Longrightarrow> \<exists>r. r \<in> set (snd (snd e))"
    and seen: "\<And>P. (\<exists>e \<in> set events. \<exists>r \<in> set (snd (snd e)). P (ih_identity (fst e)) (ih_kind (fst e)) (fst (snd e)) r (ih_evidence (fst e))) \<longleftrightarrow>
      (\<exists>i kind v r ev. sighting t ctx flows queries i kind v r ev \<and> P i kind v r ev)"
    using ioc_match_run [OF assms, of digest t ctx] by blast
  let ?m = "merged_findings digest events"
  have keys: "om_keys ?m = os_of (map (event_fingerprint digest) events)" by (simp add: merged_findings_def om_keys_accum)
  have fp: "if_fingerprint (snd x) = fst x" if "x \<in> set ?m" for x
    using merged_mem(1) [of "fst x" "snd x" digest events] that by simp
  have prints: "map dr_fingerprint (map ioc_result (om_values ?m)) = om_keys ?m"
    using fp by (simp add: om_values_def om_keys_def ioc_result_def)
  have sighted: "(\<exists>e \<in> set events. event_fingerprint digest e = k \<and> (\<exists>r \<in> set (snd (snd e)). Q (fst (snd e)) r (ih_evidence (fst e)))) \<longleftrightarrow>
      (\<exists>i kind v r ev. sighting t ctx flows queries i kind v r ev \<and> indicator_fingerprint digest i kind v = k \<and> Q v r ev)" for k Q
    using seen [of "\<lambda>i kind v r ev. indicator_fingerprint digest i kind v = k \<and> Q v r ev"] unfolding event_fingerprint_sel by blast
  have "k \<in> dr_fingerprint ` set (map ioc_result (om_values ?m)) \<longleftrightarrow>
      (\<exists>i kind v r ev. sighting t ctx flows queries i kind v r ev \<and> k = indicator_fingerprint digest i kind v)" for k
  proof -
    have "k \<in> dr_fingerprint ` set (map ioc_result (om_values ?m)) \<longleftrightarrow> k \<in> set (om_keys ?m)"
      unfolding prints [symmetric] set_map ..
    also have "\<dots> \<longleftrightarrow> (\<exists>e \<in> set events. event_fingerprint digest e = k \<and> (\<exists>r \<in> set (snd (snd e)). True))"
      unfolding keys set_os_of set_map using some by blast
    finally show ?thesis unfolding sighted [of k "\<lambda>_ _ _. True"] by (simp only: simp_thms eq_commute [of k])
  qed
  then have "dr_fingerprint ` set (map ioc_result (om_values ?m)) =
      {indicator_fingerprint digest i kind v | i kind v r ev. sighting t ctx flows queries i kind v r ev}"
    by blast
  note fps = this
  have dist: "distinct (map dr_fingerprint (map ioc_result (om_values ?m)))" unfolding prints keys by simp
  have content: "(x \<in> set (dr_evidence d) \<longleftrightarrow> (\<exists>i kind v r ev. sighting t ctx flows queries i kind v r ev \<and>
        indicator_fingerprint digest i kind v = dr_fingerprint d \<and> x \<in> {ev, EvIoc v (io_feed r)})) \<and>
      (dr_severity d = CRITICAL \<longleftrightarrow> (\<exists>i kind v r ev. sighting t ctx flows queries i kind v r ev \<and>
        indicator_fingerprint digest i kind v = dr_fingerprint d \<and> critical_hit r))"
    if "d \<in> set (map ioc_result (om_values ?m))" for d x
  proof -
    have "d \<in> (\<lambda>x. ioc_result (snd x)) ` set ?m" using that unfolding om_values_def set_map image_image .
    then obtain y where y: "d = ioc_result (snd y)" "y \<in> set ?m" by (rule imageE)
    obtain k f where kf: "y = (k, f)" by (cases y)
    have f: "(k, f) \<in> set ?m" "d = ioc_result f" using y unfolding kf by simp_all
    note mem = merged_mem [OF f(1)]
    have d: "dr_fingerprint d = k" "dr_evidence d = if_evidence f" "dr_severity d = if_severity f"
      using mem(1) by (simp_all add: f(2) ioc_result_def)
    have "x \<in> set (if_evidence f) \<longleftrightarrow> (\<exists>e \<in> set events. event_fingerprint digest e = k \<and>
        (\<exists>r \<in> set (snd (snd e)). x \<in> {ih_evidence (fst e), EvIoc (fst (snd e)) (io_feed r)}))"
      unfolding mem(2) using some new_evidence_set by fast
    then show ?thesis unfolding d mem(3) list_ex_iff
      using sighted [of k "\<lambda>v r ev. x \<in> {ev, EvIoc v (io_feed r)}"] sighted [of k "\<lambda>v r ev. critical_hit r"] by simp
  qed
  have evid: "set (dr_evidence d) = {x. \<exists>i kind v r ev. sighting t ctx flows queries i kind v r ev \<and>
      indicator_fingerprint digest i kind v = dr_fingerprint d \<and> x \<in> {ev, EvIoc v (io_feed r)}}"
    if "d \<in> set (map ioc_result (om_values ?m))" for d
    unfolding set_eq_iff mem_Collect_eq using content [OF that] by blast
  have "\<forall>d \<in> set (map ioc_result (om_values ?m)). dr_severity d = CRITICAL \<longleftrightarrow>
      (\<exists>i kind v r ev. sighting t ctx flows queries i kind v r ev \<and>
        indicator_fingerprint digest i kind v = dr_fingerprint d \<and> critical_hit r)"
    using content by blast
  moreover have "\<forall>d \<in> set (map ioc_result (om_values ?m)). \<exists>f. d = ioc_result f \<and>
       (\<exists>kind v r ev. sighting t ctx flows queries (if_identity f) kind v r ev \<and>
          indicator_fingerprint digest (if_identity f) kind v = dr_fingerprint d) \<and>
       (\<exists>i r ev. sighting t ctx flows queries i (if_kind f) (if_matchedValue f) r ev \<and>
          indicator_fingerprint digest i (if_kind f) (if_matchedValue f) = dr_fingerprint d)"
  proof
    fix d assume "d \<in> set (map ioc_result (om_values ?m))"
    then have "d \<in> (\<lambda>x. ioc_result (snd x)) ` set ?m" unfolding om_values_def set_map image_image .
    then obtain y where y: "d = ioc_result (snd y)" "y \<in> set ?m" by (rule imageE)
    obtain k f where kf: "y = (k, f)" by (cases y)
    have f: "(k, f) \<in> set ?m" "d = ioc_result f" using y unfolding kf by simp_all
    have k: "dr_fingerprint d = k" using merged_mem(1) [OF f(1)] by (simp add: f(2) ioc_result_def)
    have "\<exists>kind v r ev. sighting t ctx flows queries (if_identity f) kind v r ev \<and> indicator_fingerprint digest (if_identity f) kind v = k"
      using merged_origin(1) [OF f(1)] some seen [of "\<lambda>i kind v r ev. i = if_identity f \<and> indicator_fingerprint digest i kind v = k"]
      unfolding event_fingerprint_sel by metis
    moreover have "\<exists>i r ev. sighting t ctx flows queries i (if_kind f) (if_matchedValue f) r ev \<and>
        indicator_fingerprint digest i (if_kind f) (if_matchedValue f) = k"
      using merged_origin(2) [OF f(1)] some
        seen [of "\<lambda>i kind v r ev. kind = if_kind f \<and> v = if_matchedValue f \<and> indicator_fingerprint digest i kind v = k"]
      unfolding event_fingerprint_sel by metis
    ultimately show "\<exists>f. d = ioc_result f \<and>
       (\<exists>kind v r ev. sighting t ctx flows queries (if_identity f) kind v r ev \<and>
          indicator_fingerprint digest (if_identity f) kind v = dr_fingerprint d) \<and>
       (\<exists>i r ev. sighting t ctx flows queries i (if_kind f) (if_matchedValue f) r ev \<and>
          indicator_fingerprint digest i (if_kind f) (if_matchedValue f) = dr_fingerprint d)"
      using f(2) unfolding k by blast
  qed
  ultimately show ?thesis using run dist fps evid by (intro exI [of _ "map ioc_result (om_values ?m)"] conjI ballI; blast)
qed

text \<open>C30: the findings on threat indicators.  The detector reports one finding for each fingerprint of a sighting, in whatever
  pages the rows are read.  Its evidence is exactly the rows that were seen and the feeds that list the indicator, and it
  is critical exactly when one of the entries is.\<close>
theorem ioc_match_exact:
  assumes "sound_rows flows queries"
  shows "\<exists>ds. ioc_match_evaluate digest t ctx flows queries = Some ds \<and> distinct (map dr_fingerprint ds) \<and>
    dr_fingerprint ` set ds =
      {indicator_fingerprint digest i kind v | i kind v r ev. sighting t ctx flows queries i kind v r ev} \<and>
    (\<forall>d \<in> set ds. set (dr_evidence d) =
       {x. \<exists>i kind v r ev. sighting t ctx flows queries i kind v r ev \<and>
          indicator_fingerprint digest i kind v = dr_fingerprint d \<and> x \<in> {ev, EvIoc v (io_feed r)}}) \<and>
    (\<forall>d \<in> set ds. dr_severity d = CRITICAL \<longleftrightarrow>
       (\<exists>i kind v r ev. sighting t ctx flows queries i kind v r ev \<and>
          indicator_fingerprint digest i kind v = dr_fingerprint d \<and> critical_hit r))"
  using ioc_findings [OF assms, of digest t ctx] by (elim exE conjE, intro exI conjI) assumption+

definition demo_flow :: site_flow where
  "demo_flow =
     \<lparr>fl_id = ''f1'', fl_occurredAt = 5, fl_action = None, fl_srcMac = None, fl_srcIp = Some ''10.0.0.5'', fl_srcClientName = None,
      fl_dstIp = Some '' 6.6.6.6'', fl_dstMac = None, fl_dstPort = None, fl_dstRegion = None, fl_bytesTotal = None,
      sf_connectionId = ''c'', sf_scopeId = Some ''s''\<rparr>"

definition demo_ioc :: ioc_row where
  "demo_ioc = \<lparr>io_feed = ''urlhaus'', io_kind = ''ip'', io_value = ''6.6.6.6'', io_category = Some ''malware-c2'', io_severity = None,
     io_context = None, io_refreshedAt = 1\<rparr>"

definition demo_source :: detector_identity where
  "demo_source = \<lparr>di_sourceKind = UnifiSource, di_connectionId = Some ''c'', di_scopeId = Some ''s'', di_srcIp = Some ''10.0.0.5'',
     di_srcMac = None, di_eventId = ''f1'', di_observedAt = Some 5\<rparr>"

lemma demo_sighting:
  "sighting [demo_ioc] \<lparr>cx_beginTime = 0, cx_endTime = 9\<rparr> [demo_flow] [] demo_source ''ip'' ''6.6.6.6'' demo_ioc (EvFlow ''f1'')"
  by code_simp

lemma demo_sound: "sound_rows [demo_flow] []"
  by code_simp

theorem ioc_match_exact_witness:
  "\<exists>ds. ioc_match_evaluate rev [demo_ioc] \<lparr>cx_beginTime = 0, cx_endTime = 9\<rparr> [demo_flow] [] = Some ds \<and>
     (\<exists>d \<in> set ds. dr_severity d = CRITICAL \<and> {EvFlow ''f1'', EvIoc ''6.6.6.6'' ''urlhaus''} \<subseteq> set (dr_evidence d))"
proof -
  let ?fp = "indicator_fingerprint rev demo_source ''ip'' ''6.6.6.6''"
  have crit: "critical_hit demo_ioc" and feed: "io_feed demo_ioc = ''urlhaus''" by code_simp+
  obtain ds where ds: "ioc_match_evaluate rev [demo_ioc] \<lparr>cx_beginTime = 0, cx_endTime = 9\<rparr> [demo_flow] [] = Some ds"
    and fps: "dr_fingerprint ` set ds = {indicator_fingerprint rev i kind v | i kind v r ev.
      sighting [demo_ioc] \<lparr>cx_beginTime = 0, cx_endTime = 9\<rparr> [demo_flow] [] i kind v r ev}"
    and evid: "\<forall>d \<in> set ds. set (dr_evidence d) = {x. \<exists>i kind v r ev.
      sighting [demo_ioc] \<lparr>cx_beginTime = 0, cx_endTime = 9\<rparr> [demo_flow] [] i kind v r ev \<and>
      indicator_fingerprint rev i kind v = dr_fingerprint d \<and> x \<in> {ev, EvIoc v (io_feed r)}}"
    and sev: "\<forall>d \<in> set ds. dr_severity d = CRITICAL \<longleftrightarrow> (\<exists>i kind v r ev.
      sighting [demo_ioc] \<lparr>cx_beginTime = 0, cx_endTime = 9\<rparr> [demo_flow] [] i kind v r ev \<and>
      indicator_fingerprint rev i kind v = dr_fingerprint d \<and> critical_hit r)"
    using ioc_match_exact [OF demo_sound, of rev "[demo_ioc]" "\<lparr>cx_beginTime = 0, cx_endTime = 9\<rparr>"]
    by (elim exE conjE) (rule that, assumption+)
  have "?fp \<in> dr_fingerprint ` set ds" unfolding fps using demo_sighting by blast
  then obtain d where d: "d \<in> set ds" "dr_fingerprint d = ?fp" by auto
  have "dr_severity d = CRITICAL" unfolding bspec [OF sev d(1)] d(2) by (intro exI conjI, rule demo_sighting, rule refl, rule crit)
  moreover have "EvFlow ''f1'' \<in> set (dr_evidence d)" "EvIoc ''6.6.6.6'' (io_feed demo_ioc) \<in> set (dr_evidence d)"
    unfolding bspec [OF evid d(1)] mem_Collect_eq d(2)
    by (intro exI conjI, rule demo_sighting, rule refl, simp)+
  ultimately show ?thesis using ds d(1) feed by auto
qed

end
