(* ===== verification/Compromise_Correlation.thy ===== *)
theory Compromise_Correlation
  imports Ioc_Match
begin

text \<open>
  \<open>detectors/validatedCompromise.ts\<close>: stored findings on threat indicators are held against the alerts of the intrusion
  detection, by source address and site.  The findings are read as JSON; the tables are read at one moment.
\<close>

section \<open>Rows\<close>

record site_threat = threat_row +
  st_connectionId :: string
  st_scopeId :: "string option"
  st_type :: "string option"
  st_subcategory :: "string option"

record stored_finding =
  sd_id :: string
  sd_detectorId :: string
  sd_evidence :: json
  sd_metadata :: json

definition CORRELATION_PAGE_SIZE :: nat where
  "CORRELATION_PAGE_SIZE = 200"

section \<open>Candidates\<close>

record ioc_candidate =
  ca_id :: string
  ca_identity :: detector_identity
  ca_indicator :: string
  ca_flowIds :: "string list"
  ca_indicators :: "evidence list"

definition flow_reference :: "json \<Rightarrow> string list" where
  "flow_reference item =
     (let e = obj_fields item in
      if get_str e ''kind'' = Some ''flow'' \<and> truthy (get_str e ''id'') then [the (get_str e ''id'')] else [])"

definition ioc_reference :: "string \<Rightarrow> json \<Rightarrow> evidence list" where
  "ioc_reference indicator item =
     (let e = obj_fields item in
      if get_str e ''kind'' = Some ''ioc'' \<and> get_str e ''ioc'' \<noteq> None \<and> normalizeIp (get_str e ''ioc'') = Some indicator \<and>
         truthy (get_str e ''feed'')
      then [EvIoc indicator (the (get_str e ''feed''))] else [])"

text \<open>Findings of the DNS proxy, without a full scope or without a device cannot be corroborated.\<close>

definition candidateFrom :: "stored_finding \<Rightarrow> ioc_candidate option" where
  "candidateFrom row =
     (let metadata = obj_fields (sd_metadata row) in
      case parseDetectorIdentity (field metadata ''identity'') of
        None \<Rightarrow> None
      | Some i \<Rightarrow>
          if di_sourceKind i \<noteq> UnifiSource \<or> di_connectionId i = None \<or> di_scopeId i = None then None
          else if di_srcMac i = None \<and> di_srcIp i = None then None
          else
            (case (normalizeIp (get_str metadata ''matchedValue''), sd_evidence row) of
               (Some indicator, JArr items) \<Rightarrow>
                 (let flowIds = os_of (concat (map flow_reference items)); inds = concat (map (ioc_reference indicator) items) in
                  if flowIds = [] \<or> inds = [] then None
                  else Some \<lparr>ca_id = sd_id row, ca_identity = i, ca_indicator = indicator, ca_flowIds = flowIds, ca_indicators = inds\<rparr>)
             | _ \<Rightarrow> None))"

section \<open>The flows of the candidates\<close>

text \<open>\<open>const entries = map.get(k) ?? []; entries.push(v); map.set(k, entries)\<close>.\<close>

definition group_by :: "('r \<Rightarrow> 'k) \<Rightarrow> ('r \<Rightarrow> 'v) \<Rightarrow> 'r list \<Rightarrow> ('k \<times> 'v list) list" where
  "group_by key val rows = accum (\<lambda>_. True) key (\<lambda>r. [val r]) (\<lambda>r xs. xs @ [val r]) rows"

text \<open>\<open>xs.slice(offset, offset + k)\<close> for offsets 0, k, 2k, ...\<close>

function slices :: "nat \<Rightarrow> 'a list \<Rightarrow> 'a list list" where
  "slices k xs = (if k = 0 \<or> xs = [] then [] else take k xs # slices k (drop k xs))"
  by pat_completeness auto

termination
  by (relation "measure (\<lambda>(k, xs). length xs)") auto

declare slices.simps [simp del]

definition byFlowId :: "ioc_candidate list \<Rightarrow> (string \<times> ioc_candidate list) list" where
  "byFlowId candidates = group_by fst snd (concat (map (\<lambda>c. map (\<lambda>i. (i, c)) (ca_flowIds c)) candidates))"

definition referenced_flows :: "detector_context \<Rightarrow> site_flow list \<Rightarrow> string list \<Rightarrow> site_flow list" where
  "referenced_flows ctx flows ids =
     concat (map (\<lambda>s. take CORRELATION_PAGE_SIZE
         (filter (\<lambda>f. fl_id f \<in> set s \<and> in_window ctx (fl_occurredAt f) \<and> sf_scopeId f \<noteq> None) flows))
       (slices CORRELATION_PAGE_SIZE ids))"

record flow_match =
  fm_candidate :: ioc_candidate
  fm_flow :: site_flow
  fm_identity :: detector_identity

definition agrees :: "site_flow \<Rightarrow> detector_identity \<Rightarrow> ioc_candidate \<Rightarrow> bool" where
  "agrees f i c \<longleftrightarrow>
     di_connectionId (ca_identity c) = Some (sf_connectionId f) \<and> di_scopeId (ca_identity c) = sf_scopeId f \<and>
     deviceIdentityKey (ca_identity c) = deviceIdentityKey i \<and> normalizeIp (fl_dstIp f) = Some (ca_indicator c)"

text \<open>None is the exception of a flow without an identifier.\<close>

definition match_flow :: "detector_context \<Rightarrow> (string \<times> ioc_candidate list) list \<Rightarrow> site_flow \<Rightarrow> flow_match list option" where
  "match_flow ctx by_flow f =
     (case normalizeIp (fl_srcIp f) of
        None \<Rightarrow> Some []
      | Some srcIp \<Rightarrow>
          if \<not> truthy (sf_scopeId f) \<or> \<not> in_window ctx (fl_occurredAt f) then Some []
          else map_option (\<lambda>i. map (\<lambda>c. \<lparr>fm_candidate = c, fm_flow = f, fm_identity = i\<rparr>)
                  (filter (agrees f i) (dflt [] (om_get by_flow (fl_id f)))))
                (createDetectorIdentity UnifiSource (Some (sf_connectionId f)) (sf_scopeId f) (Some srcIp) (fl_srcMac f)
                   (fl_id f) (Some (fl_occurredAt f))))"

definition sourceKey :: "string \<Rightarrow> string \<Rightarrow> string" where
  "sourceKey scopeId srcIp = js_stringify (JArr [JStr scopeId, JStr srcIp])"

definition match_key :: "flow_match \<Rightarrow> string" where
  "match_key m = sourceKey (the (sf_scopeId (fm_flow m))) (the (normalizeIp (fl_srcIp (fm_flow m))))"

section \<open>The alerts\<close>

definition is_ids :: "site_threat \<Rightarrow> bool" where
  "is_ids th \<longleftrightarrow> st_type th = Some ''THREAT_DETECTION_AND_PREVENTION'' \<or> st_subcategory th = Some ''SECURITY_INTRUSION_PREVENTION''"

definition scope_threats :: "detector_context \<Rightarrow> site_threat list \<Rightarrow> string list \<Rightarrow> site_threat list" where
  "scope_threats ctx threats scopeIds =
     concat (map (\<lambda>s. concat (pages CORRELATION_PAGE_SIZE th_id
         (filter (\<lambda>th. st_scopeId th \<in> Some ` set s \<and> in_window ctx (th_occurredAt th) \<and> is_ids th) threats) None))
       (slices CORRELATION_PAGE_SIZE scopeIds))"

definition threat_matches ::
    "detector_context \<Rightarrow> (string \<times> flow_match list) list \<Rightarrow> site_threat \<Rightarrow> (flow_match \<times> site_threat) list" where
  "threat_matches ctx by_source th =
     (case normalizeIp (th_srcIp th) of
        None \<Rightarrow> []
      | Some srcIp \<Rightarrow>
          if \<not> truthy (st_scopeId th) \<or> \<not> in_window ctx (th_occurredAt th) \<or> \<not> is_ids th then []
          else map (\<lambda>m. (m, th))
                 (filter (\<lambda>m. sf_connectionId (fm_flow m) = st_connectionId th)
                    (dflt [] (om_get by_source (sourceKey (the (st_scopeId th)) srcIp)))))"

text \<open>One page of findings.\<close>

definition page_matches ::
    "detector_context \<Rightarrow> site_flow list \<Rightarrow> site_threat list \<Rightarrow> stored_finding list \<Rightarrow> (flow_match \<times> site_threat) list option" where
  "page_matches ctx flows threats findings =
     (let by_flow = byFlowId (concat (map (\<lambda>row. case candidateFrom row of None \<Rightarrow> [] | Some c \<Rightarrow> [c]) findings)) in
      map_option (\<lambda>mss.
          let matches = concat mss; scopes = os_of (map (\<lambda>m. the (sf_scopeId (fm_flow m))) matches)
          in concat (map (threat_matches ctx (group_by match_key (\<lambda>m. m) matches)) (scope_threats ctx threats scopes)))
        (all_of (match_flow ctx by_flow) (referenced_flows ctx flows (om_keys by_flow))))"

section \<open>Correlations\<close>

record correlation =
  co_fingerprint :: string
  co_actor :: string
  co_srcMac :: "string option"
  co_identity :: detector_identity
  co_evidence :: "evidence list"
  co_findingIds :: "string list"
  co_threatIds :: "string list"
  co_categories :: "string list"
  co_sourceIps :: "string list"
  co_firstObservedAt :: int
  co_lastObservedAt :: int

definition correlation_key :: "(string \<Rightarrow> string) \<Rightarrow> flow_match \<times> site_threat \<Rightarrow> string" where
  "correlation_key digest x = detectorFingerprint digest ''validated_compromise'' (fm_identity (fst x)) None"

definition start_correlation :: "(string \<Rightarrow> string) \<Rightarrow> flow_match \<times> site_threat \<Rightarrow> correlation" where
  "start_correlation digest x =
     (case x of (m, th) \<Rightarrow>
        (let flowTime = fl_occurredAt (fm_flow m); threatTime = th_occurredAt th in
         \<lparr>co_fingerprint = correlation_key digest x,
          co_actor = str_dflt (str_or (fl_srcClientName (fm_flow m)) (di_srcMac (fm_identity m))) (the (normalizeIp (th_srcIp th))),
          co_srcMac = di_srcMac (fm_identity m), co_identity = fm_identity m, co_evidence = [], co_findingIds = [], co_threatIds = [],
          co_categories = [], co_sourceIps = [], co_firstObservedAt = min flowTime threatTime,
          co_lastObservedAt = max flowTime threatTime\<rparr>))"

definition match_evidence :: "flow_match \<times> site_threat \<Rightarrow> evidence list" where
  "match_evidence x = (case x of (m, th) \<Rightarrow> EvFlow (fl_id (fm_flow m)) # ca_indicators (fm_candidate m) @ [EvThreat (th_id th)])"

text \<open>An item is the key of its own text.  The identity is that of the latest flow, read back from the metadata.\<close>

definition add_correlation :: "flow_match \<times> site_threat \<Rightarrow> correlation \<Rightarrow> correlation" where
  "add_correlation x c =
     (case x of (m, th) \<Rightarrow>
        (let flowTime = fl_occurredAt (fm_flow m); threatTime = th_occurredAt th;
             newer = (case parseDetectorIdentity (identity_json (co_identity c)) of
                        None \<Rightarrow> True
                      | Some i \<Rightarrow> (case di_observedAt i of None \<Rightarrow> True | Some t \<Rightarrow> t < flowTime))
         in c\<lparr>co_evidence := foldl (\<lambda>s e. os_add e s) (co_evidence c) (match_evidence x),
              co_findingIds := os_add (ca_id (fm_candidate m)) (co_findingIds c),
              co_threatIds := os_add (th_id th) (co_threatIds c),
              co_categories := (if truthy (th_category th) then os_add (the (th_category th)) (co_categories c) else co_categories c),
              co_sourceIps := os_add (the (normalizeIp (th_srcIp th))) (co_sourceIps c),
              co_firstObservedAt := min (co_firstObservedAt c) (min flowTime threatTime),
              co_lastObservedAt := max (co_lastObservedAt c) (max flowTime threatTime),
              co_identity := (if newer then fm_identity m else co_identity c)\<rparr>))"

definition correlations_of :: "(string \<Rightarrow> string) \<Rightarrow> (flow_match \<times> site_threat) list \<Rightarrow> (string \<times> correlation) list" where
  "correlations_of digest xs =
     accum (\<lambda>_. True) (correlation_key digest) (\<lambda>x. add_correlation x (start_correlation digest x)) add_correlation xs"

definition correlation_result :: "correlation \<Rightarrow> detection_result" where
  "correlation_result c =
     \<lparr>dr_fingerprint = co_fingerprint c, dr_severity = CRITICAL,
      dr_title = ''Corroborated IOC and IDS activity: '' @ co_actor c,
      dr_description = ''A threat-intel match and a UniFi IDS event share the same source IP and controller/site within the event window. Investigate promptly; blocked traffic alone does not establish successful compromise.'',
      dr_remediation = None, dr_affectedResource = Some (co_actor c), dr_srcMac = co_srcMac c, dr_confidence = Some 1,
      dr_evidence = co_evidence c,
      dr_metadata = Some
        [(''identity'', identity_json (co_identity c)),
         (''correlationBasis'', JStr ''same_source_ip_and_immutable_controller_site_within_event_window''),
         (''confidenceBasis'', JStr ''deterministic_rule_match_not_compromise_probability''),
         (''iocFindingId'', (case co_findingIds c of [] \<Rightarrow> JUndef | i # _ \<Rightarrow> JStr i)),
         (''iocFindingIds'', strs_json (sort (co_findingIds c))), (''threatCategories'', strs_json (sort (co_categories c))),
         (''threatCount'', js_int (int (length (co_threatIds c)))), (''sourceIps'', strs_json (sort (co_sourceIps c))),
         (''firstObservedAt'', js_int (co_firstObservedAt c)), (''lastObservedAt'', js_int (co_lastObservedAt c))]\<rparr>"

definition all_matches ::
    "detector_context \<Rightarrow> stored_finding list \<Rightarrow> site_flow list \<Rightarrow> site_threat list \<Rightarrow> (flow_match \<times> site_threat) list option" where
  "all_matches ctx findings flows threats =
     map_option concat (all_of (page_matches ctx flows threats)
       (pages CORRELATION_PAGE_SIZE sd_id (filter (\<lambda>row. sd_detectorId row = ''ioc_match'') findings) None))"

definition validated_compromise_evaluate ::
    "(string \<Rightarrow> string) \<Rightarrow> detector_context \<Rightarrow> stored_finding list \<Rightarrow> site_flow list \<Rightarrow> site_threat list \<Rightarrow>
     detection_result list option" where
  "validated_compromise_evaluate digest ctx findings flows threats =
     map_option (\<lambda>xs. map correlation_result (om_values (correlations_of digest xs))) (all_matches ctx findings flows threats)"

section \<open>What is corroborated\<close>

text \<open>A candidate, a flow it refers to and an alert corroborate each other: same connection, same site and same source address,
  the device and the indicator of the candidate, and both events in the window.\<close>

definition corroborates ::
    "detector_context \<Rightarrow> site_flow list \<Rightarrow> site_threat list \<Rightarrow>
     ioc_candidate \<Rightarrow> site_flow \<Rightarrow> detector_identity \<Rightarrow> site_threat \<Rightarrow> bool" where
  "corroborates ctx flows threats c f i th \<longleftrightarrow>
     f \<in> set flows \<and> fl_id f \<in> set (ca_flowIds c) \<and> in_window ctx (fl_occurredAt f) \<and> flow_identity f = Some i \<and>
     th \<in> set threats \<and> is_ids th \<and> in_window ctx (th_occurredAt th) \<and>
     truthy (sf_scopeId f) \<and> st_scopeId th = sf_scopeId f \<and> di_scopeId (ca_identity c) = sf_scopeId f \<and>
     st_connectionId th = sf_connectionId f \<and> di_connectionId (ca_identity c) = Some (sf_connectionId f) \<and>
     normalizeIp (fl_srcIp f) \<noteq> None \<and> normalizeIp (th_srcIp th) = normalizeIp (fl_srcIp f) \<and>
     same_device (ca_identity c) i \<and> normalizeIp (fl_dstIp f) = Some (ca_indicator c)"

definition listed_candidate :: "stored_finding list \<Rightarrow> ioc_candidate \<Rightarrow> bool" where
  "listed_candidate findings c \<longleftrightarrow> (\<exists>row \<in> set findings. sd_detectorId row = ''ioc_match'' \<and> candidateFrom row = Some c)"

lemma group_by_mem: "x \<in> set (dflt [] (om_get (group_by key val rows) k)) \<longleftrightarrow> (\<exists>r \<in> set rows. key r = k \<and> val r = x)"
proof -
  have "foldl (\<lambda>xs r. xs @ [val r]) acc rs = acc @ map val rs" for acc rs by (induction rs arbitrary: acc) simp_all
  then have "bucket_of (\<lambda>r. [val r]) (\<lambda>r xs. xs @ [val r]) rs = (if rs = [] then None else Some (map val rs))" for rs
    by (cases rs) (simp_all add: bucket_of_def)
  then show ?thesis by (auto simp: group_by_def om_get_accum rows_of_def filter_empty_conv)
qed

lemma keys_group_by: "set (om_keys (group_by key val rows)) = key ` set rows"
  by (simp add: group_by_def om_keys_accum)

lemma concat_slices: "0 < k \<Longrightarrow> concat (slices k xs) = xs"
  by (induction k xs rule: slices.induct) (subst slices.simps, auto)

lemma slice_length: "s \<in> set (slices k xs) \<Longrightarrow> length s \<le> k"
proof (induction k xs rule: slices.induct)
  case (1 k xs)
  then show ?case by (subst (asm) (2) slices.simps) (auto split: if_splits)
qed

lemma slices_mem: "0 < k \<Longrightarrow> x \<in> set xs \<longleftrightarrow> (\<exists>s \<in> set (slices k xs). x \<in> set s)"
  using concat_slices [of k xs] by (metis UN_iff set_concat)

lemma take_all_rows:
  assumes "distinct (map key rows)" and "length s \<le> k"
  shows "take k (filter (\<lambda>r. key r \<in> set s \<and> P r) rows) = filter (\<lambda>r. key r \<in> set s \<and> P r) rows"
proof -
  let ?rs = "filter (\<lambda>r. key r \<in> set s \<and> P r) rows"
  have "distinct (map key ?rs)" using assms(1) by (rule distinct_map_filter)
  then have "length ?rs = card (set (map key ?rs))" using distinct_card [of "map key ?rs"] by simp
  also have "\<dots> \<le> card (set s)" by (rule card_mono) auto
  also have "\<dots> \<le> length s" by (rule card_length)
  finally show ?thesis using assms(2) by simp
qed

lemma referenced_mem:
  assumes "distinct (map fl_id flows)"
  shows "f \<in> set (referenced_flows ctx flows ids) \<longleftrightarrow>
    f \<in> set flows \<and> fl_id f \<in> set ids \<and> in_window ctx (fl_occurredAt f) \<and> sf_scopeId f \<noteq> None"
proof -
  let ?rows = "\<lambda>s. filter (\<lambda>f. fl_id f \<in> set s \<and> in_window ctx (fl_occurredAt f) \<and> sf_scopeId f \<noteq> None) flows"
  have "take CORRELATION_PAGE_SIZE (?rows s) = ?rows s" if "s \<in> set (slices CORRELATION_PAGE_SIZE ids)" for s
    using take_all_rows [OF assms slice_length [OF that], of "\<lambda>f. in_window ctx (fl_occurredAt f) \<and> sf_scopeId f \<noteq> None"] by simp
  then have "f \<in> set (referenced_flows ctx flows ids) \<longleftrightarrow> (\<exists>s \<in> set (slices CORRELATION_PAGE_SIZE ids). f \<in> set (?rows s))"
    unfolding referenced_flows_def set_concat set_map by auto
  then show ?thesis using slices_mem [of CORRELATION_PAGE_SIZE "fl_id f" ids] by (auto simp: CORRELATION_PAGE_SIZE_def)
qed

lemma scope_threats_mem:
  assumes "distinct (map th_id threats)"
  shows "th \<in> set (scope_threats ctx threats scopeIds) \<longleftrightarrow>
    th \<in> set threats \<and> (\<exists>sc \<in> set scopeIds. st_scopeId th = Some sc) \<and> in_window ctx (th_occurredAt th) \<and> is_ids th"
proof -
  let ?rows = "\<lambda>s. filter (\<lambda>th. st_scopeId th \<in> Some ` set s \<and> in_window ctx (th_occurredAt th) \<and> is_ids th) threats"
  have "set (concat (pages CORRELATION_PAGE_SIZE th_id (?rows s) None)) = set (?rows s)" for s
    by (rule pages_rows(2)) (simp_all add: CORRELATION_PAGE_SIZE_def distinct_map_filter assms)
  then have "th \<in> set (scope_threats ctx threats scopeIds) \<longleftrightarrow> (\<exists>s \<in> set (slices CORRELATION_PAGE_SIZE scopeIds). th \<in> set (?rows s))"
    unfolding scope_threats_def by (simp only: set_concat [of "map f xs" for f xs] set_map) blast
  also have "\<dots> \<longleftrightarrow> th \<in> set threats \<and> in_window ctx (th_occurredAt th) \<and> is_ids th \<and>
      (\<exists>sc. st_scopeId th = Some sc \<and> (\<exists>s \<in> set (slices CORRELATION_PAGE_SIZE scopeIds). sc \<in> set s))"
    by auto
  also have "\<dots> \<longleftrightarrow> th \<in> set threats \<and> in_window ctx (th_occurredAt th) \<and> is_ids th \<and> (\<exists>sc. st_scopeId th = Some sc \<and> sc \<in> set scopeIds)"
    using slices_mem [of CORRELATION_PAGE_SIZE _ scopeIds] by (simp add: CORRELATION_PAGE_SIZE_def)
  finally show ?thesis by blast
qed

lemma sourceKey_inject: "sourceKey a b = sourceKey a' b' \<longleftrightarrow> a = a' \<and> b = b'"
  unfolding sourceKey_def by (subst stringify_inject) simp_all

lemma byFlowId_mem:
  "c \<in> set (dflt [] (om_get (byFlowId cs) i)) \<longleftrightarrow> c \<in> set cs \<and> i \<in> set (ca_flowIds c)"
  "i \<in> set (om_keys (byFlowId cs)) \<longleftrightarrow> (\<exists>c \<in> set cs. i \<in> set (ca_flowIds c))"
  unfolding byFlowId_def group_by_mem keys_group_by by force+

lemma match_flow_mem:
  assumes "nonempty (Some (fl_id f)) \<noteq> None"
  shows "\<exists>ms. match_flow ctx by_flow f = Some ms \<and> (\<forall>m. m \<in> set ms \<longleftrightarrow>
    fm_flow m = f \<and> flow_identity f = Some (fm_identity m) \<and> normalizeIp (fl_srcIp f) \<noteq> None \<and> truthy (sf_scopeId f) \<and>
    in_window ctx (fl_occurredAt f) \<and> agrees f (fm_identity m) (fm_candidate m) \<and>
    fm_candidate m \<in> set (dflt [] (om_get by_flow (fl_id f))))"
proof (cases "normalizeIp (fl_srcIp f)")
  case None
  then show ?thesis by (simp add: match_flow_def)
next
  case (Some ip)
  have "normalizeIp (Some ip) = Some ip" using normalized_opt(3) [of "fl_srcIp f"] Some by simp
  then have same: "createDetectorIdentity UnifiSource (Some (sf_connectionId f)) (sf_scopeId f) (Some ip) (fl_srcMac f)
      (fl_id f) (Some (fl_occurredAt f)) = flow_identity f"
    using Some by (simp add: flow_identity_def createDetectorIdentity_def split: option.split)
  obtain i where i: "flow_identity f = Some i" unfolding flow_identity_def using identity_made [OF assms] by blast
  have "m \<in> (\<lambda>c. \<lparr>fm_candidate = c, fm_flow = f, fm_identity = i\<rparr>) ` A \<longleftrightarrow>
      fm_candidate m \<in> A \<and> fm_flow m = f \<and> fm_identity m = i" for m :: flow_match and A
    by (cases m) auto
  then show ?thesis using Some i by (auto simp: match_flow_def same)
qed

lemma match_flows_mem:
  assumes "distinct (map fl_id flows)" and "\<forall>f \<in> set flows. nonempty (Some (fl_id f)) \<noteq> None"
  shows "\<exists>mss. all_of (match_flow ctx (byFlowId cs)) (referenced_flows ctx flows (om_keys (byFlowId cs))) = Some mss \<and>
    (\<forall>m. m \<in> set (concat mss) \<longleftrightarrow> fm_candidate m \<in> set cs \<and> fl_id (fm_flow m) \<in> set (ca_flowIds (fm_candidate m)) \<and>
      fm_flow m \<in> set flows \<and> flow_identity (fm_flow m) = Some (fm_identity m) \<and> normalizeIp (fl_srcIp (fm_flow m)) \<noteq> None \<and>
      truthy (sf_scopeId (fm_flow m)) \<and> in_window ctx (fl_occurredAt (fm_flow m)) \<and>
      agrees (fm_flow m) (fm_identity m) (fm_candidate m))"
proof -
  let ?g = "match_flow ctx (byFlowId cs)" and ?fs = "referenced_flows ctx flows (om_keys (byFlowId cs))"
  note fs = referenced_mem [OF assms(1), of _ ctx "om_keys (byFlowId cs)"]
  have made: "nonempty (Some (fl_id f)) \<noteq> None" if "f \<in> set ?fs" for f using that assms(2) unfolding fs by blast
  then have "\<forall>f \<in> set ?fs. ?g f \<noteq> None" using match_flow_mem by blast
  then have "all_of ?g ?fs = Some (map (\<lambda>f. the (?g f)) ?fs)" by (rule all_of_Some)
  moreover have each: "m \<in> set (the (?g f)) \<longleftrightarrow>
      fm_flow m = f \<and> flow_identity f = Some (fm_identity m) \<and> normalizeIp (fl_srcIp f) \<noteq> None \<and> truthy (sf_scopeId f) \<and>
      in_window ctx (fl_occurredAt f) \<and> agrees f (fm_identity m) (fm_candidate m) \<and>
      fm_candidate m \<in> set cs \<and> fl_id f \<in> set (ca_flowIds (fm_candidate m))" if "f \<in> set ?fs" for f m
    using match_flow_mem [OF made [OF that], of ctx "byFlowId cs"] unfolding byFlowId_mem(1) by force
  have "m \<in> set (concat (map (\<lambda>f. the (?g f)) ?fs)) \<longleftrightarrow>
      fm_flow m \<in> set ?fs \<and> flow_identity (fm_flow m) = Some (fm_identity m) \<and> normalizeIp (fl_srcIp (fm_flow m)) \<noteq> None \<and>
      truthy (sf_scopeId (fm_flow m)) \<and> in_window ctx (fl_occurredAt (fm_flow m)) \<and>
      agrees (fm_flow m) (fm_identity m) (fm_candidate m) \<and> fm_candidate m \<in> set cs \<and>
      fl_id (fm_flow m) \<in> set (ca_flowIds (fm_candidate m))" for m
  proof -
    have "m \<in> set (concat (map (\<lambda>f. the (?g f)) ?fs)) \<longleftrightarrow> (\<exists>f \<in> set ?fs. m \<in> set (the (?g f)))" by simp
    then show ?thesis using each by metis
  qed
  then have "m \<in> set (concat (map (\<lambda>f. the (?g f)) ?fs)) \<longleftrightarrow> fm_candidate m \<in> set cs \<and>
      fl_id (fm_flow m) \<in> set (ca_flowIds (fm_candidate m)) \<and> fm_flow m \<in> set flows \<and>
      flow_identity (fm_flow m) = Some (fm_identity m) \<and> normalizeIp (fl_srcIp (fm_flow m)) \<noteq> None \<and>
      truthy (sf_scopeId (fm_flow m)) \<and> in_window ctx (fl_occurredAt (fm_flow m)) \<and>
      agrees (fm_flow m) (fm_identity m) (fm_candidate m)" for m
    unfolding fs byFlowId_mem(2) by (auto simp: truthy_def split: option.splits)
  ultimately show ?thesis by blast
qed

lemma threat_matches_mem:
  "(m, th) \<in> set (threat_matches ctx (group_by match_key (\<lambda>m. m) ms) th') \<longleftrightarrow>
     th = th' \<and> m \<in> set ms \<and> normalizeIp (th_srcIp th) \<noteq> None \<and> truthy (st_scopeId th) \<and> in_window ctx (th_occurredAt th) \<and>
     is_ids th \<and> sf_connectionId (fm_flow m) = st_connectionId th \<and>
     match_key m = sourceKey (the (st_scopeId th)) (the (normalizeIp (th_srcIp th)))"
  by (cases "normalizeIp (th_srcIp th')") (auto simp: threat_matches_def group_by_mem)

lemma truthy_the: "truthy a \<Longrightarrow> truthy b \<Longrightarrow> the a = the b \<longleftrightarrow> b = a"
  by (cases a; cases b) auto

lemma the_eq_iff: "a \<noteq> None \<Longrightarrow> b \<noteq> None \<Longrightarrow> the a = the b \<longleftrightarrow> b = a"
  by (cases a; cases b) auto

lemma page_matches_mem:
  assumes "distinct (map fl_id flows)" and "\<forall>f \<in> set flows. nonempty (Some (fl_id f)) \<noteq> None" and "distinct (map th_id threats)"
  shows "\<exists>xs. page_matches ctx flows threats rows = Some xs \<and>
    (\<forall>m th. (m, th) \<in> set xs \<longleftrightarrow> (\<exists>row \<in> set rows. candidateFrom row = Some (fm_candidate m)) \<and>
       corroborates ctx flows threats (fm_candidate m) (fm_flow m) (fm_identity m) th)"
proof -
  define cs where "cs = concat (map (\<lambda>row. case candidateFrom row of None \<Rightarrow> [] | Some c \<Rightarrow> [c]) rows)"
  have cs: "c \<in> set cs \<longleftrightarrow> (\<exists>row \<in> set rows. candidateFrom row = Some c)" for c
    unfolding cs_def by (force split: option.splits)
  obtain mss where mss: "all_of (match_flow ctx (byFlowId cs)) (referenced_flows ctx flows (om_keys (byFlowId cs))) = Some mss"
    and mem: "\<And>m. m \<in> set (concat mss) \<longleftrightarrow> fm_candidate m \<in> set cs \<and> fl_id (fm_flow m) \<in> set (ca_flowIds (fm_candidate m)) \<and>
      fm_flow m \<in> set flows \<and> flow_identity (fm_flow m) = Some (fm_identity m) \<and> normalizeIp (fl_srcIp (fm_flow m)) \<noteq> None \<and>
      truthy (sf_scopeId (fm_flow m)) \<and> in_window ctx (fl_occurredAt (fm_flow m)) \<and>
      agrees (fm_flow m) (fm_identity m) (fm_candidate m)"
    using match_flows_mem [OF assms(1,2)] by blast
  define ms where "ms = concat mss"
  define scopes where "scopes = os_of (map (\<lambda>m. the (sf_scopeId (fm_flow m))) ms)"
  define xs where "xs = concat (map (threat_matches ctx (group_by match_key (\<lambda>m. m) ms)) (scope_threats ctx threats scopes))"
  have run: "page_matches ctx flows threats rows = Some xs"
    by (simp add: page_matches_def cs_def [symmetric] mss Let_def xs_def scopes_def ms_def)
  have "(m, th) \<in> set xs \<longleftrightarrow> (\<exists>row \<in> set rows. candidateFrom row = Some (fm_candidate m)) \<and>
       corroborates ctx flows threats (fm_candidate m) (fm_flow m) (fm_identity m) th" for m th
  proof -
    let ?f = "fm_flow m"
    have scope: "the (sf_scopeId ?f) \<in> set scopes" if "m \<in> set ms" using that by (auto simp: scopes_def)
    have key: "match_key m = sourceKey (the (st_scopeId th)) (the (normalizeIp (th_srcIp th))) \<longleftrightarrow>
        st_scopeId th = sf_scopeId ?f \<and> normalizeIp (th_srcIp th) = normalizeIp (fl_srcIp ?f)"
      if "m \<in> set ms" "truthy (st_scopeId th)" "normalizeIp (th_srcIp th) \<noteq> None"
    proof -
      have t: "truthy (sf_scopeId ?f)" "normalizeIp (fl_srcIp ?f) \<noteq> None" using that(1) mem by (simp_all add: ms_def)
      have "the (sf_scopeId ?f) = the (st_scopeId th) \<longleftrightarrow> st_scopeId th = sf_scopeId ?f"
          "the (normalizeIp (fl_srcIp ?f)) = the (normalizeIp (th_srcIp th)) \<longleftrightarrow> normalizeIp (th_srcIp th) = normalizeIp (fl_srcIp ?f)"
        by (rule truthy_the [OF t(1) that(2)], rule the_eq_iff [OF t(2) that(3)])
      then show ?thesis unfolding match_key_def sourceKey_inject by (simp only:)
    qed
    have "(m, th) \<in> set xs \<longleftrightarrow> (\<exists>th' \<in> set (scope_threats ctx threats scopes).
        (m, th) \<in> set (threat_matches ctx (group_by match_key (\<lambda>m. m) ms) th'))"
      unfolding xs_def by simp
    also have "\<dots> \<longleftrightarrow> m \<in> set ms \<and> th \<in> set threats \<and> (\<exists>sc \<in> set scopes. st_scopeId th = Some sc) \<and> in_window ctx (th_occurredAt th) \<and>
        is_ids th \<and> normalizeIp (th_srcIp th) \<noteq> None \<and> truthy (st_scopeId th) \<and> sf_connectionId ?f = st_connectionId th \<and>
        match_key m = sourceKey (the (st_scopeId th)) (the (normalizeIp (th_srcIp th)))"
      unfolding threat_matches_mem using scope_threats_mem [OF assms(3), of th ctx scopes] by auto
    also have "\<dots> \<longleftrightarrow> m \<in> set ms \<and> th \<in> set threats \<and> in_window ctx (th_occurredAt th) \<and> is_ids th \<and>
        sf_connectionId ?f = st_connectionId th \<and> st_scopeId th = sf_scopeId ?f \<and> normalizeIp (th_srcIp th) = normalizeIp (fl_srcIp ?f)"
    proof (cases "m \<in> set ms")
      case True
      then have t: "truthy (sf_scopeId ?f)" "normalizeIp (fl_srcIp ?f) \<noteq> None" using mem by (simp_all add: ms_def)
      then have "st_scopeId th = sf_scopeId ?f \<Longrightarrow> (\<exists>sc \<in> set scopes. st_scopeId th = Some sc)"
        using scope [OF True] by (cases "sf_scopeId ?f") auto
      then show ?thesis using key [OF True] t True by metis
    qed simp
    also have "\<dots> \<longleftrightarrow> fm_candidate m \<in> set cs \<and> corroborates ctx flows threats (fm_candidate m) ?f (fm_identity m) th"
      unfolding ms_def mem corroborates_def agrees_def deviceIdentityKey_iff by auto
    finally show ?thesis unfolding cs .
  qed
  then show ?thesis using run by blast
qed

lemma all_matches_mem:
  assumes "distinct (map sd_id findings)" and "distinct (map fl_id flows)" and "\<forall>f \<in> set flows. nonempty (Some (fl_id f)) \<noteq> None"
    and "distinct (map th_id threats)"
  shows "\<exists>xs. all_matches ctx findings flows threats = Some xs \<and>
    (\<forall>m th. (m, th) \<in> set xs \<longleftrightarrow> listed_candidate findings (fm_candidate m) \<and>
       corroborates ctx flows threats (fm_candidate m) (fm_flow m) (fm_identity m) th)"
proof -
  let ?rows = "filter (\<lambda>row. sd_detectorId row = ''ioc_match'') findings"
  let ?ps = "pages CORRELATION_PAGE_SIZE sd_id ?rows None"
  let ?g = "page_matches ctx flows threats"
  note each = page_matches_mem [OF assms(2-4), of ctx]
  have "\<forall>rows \<in> set ?ps. ?g rows \<noteq> None" using each by blast
  then have "all_of ?g ?ps = Some (map (\<lambda>rows. the (?g rows)) ?ps)" by (rule all_of_Some)
  then have run: "all_matches ctx findings flows threats = Some (concat (map (\<lambda>rows. the (?g rows)) ?ps))"
    by (simp add: all_matches_def)
  have the: "(m, th) \<in> set (the (?g rows)) \<longleftrightarrow> (\<exists>row \<in> set rows. candidateFrom row = Some (fm_candidate m)) \<and>
      corroborates ctx flows threats (fm_candidate m) (fm_flow m) (fm_identity m) th" for m th rows
    using each [of rows] by auto
  have "set (concat ?ps) = set ?rows"
    by (rule pages_rows(2)) (simp_all add: CORRELATION_PAGE_SIZE_def distinct_map_filter assms(1))
  then have rows: "(\<exists>rows \<in> set ?ps. row \<in> set rows) \<longleftrightarrow> row \<in> set findings \<and> sd_detectorId row = ''ioc_match''" for row
    by (simp add: set_eq_iff)
  have "(m, th) \<in> set (concat (map (\<lambda>rows. the (?g rows)) ?ps)) \<longleftrightarrow> listed_candidate findings (fm_candidate m) \<and>
      corroborates ctx flows threats (fm_candidate m) (fm_flow m) (fm_identity m) th" for m th
  proof -
    have "(m, th) \<in> set (concat (map (\<lambda>rows. the (?g rows)) ?ps)) \<longleftrightarrow> (\<exists>rows \<in> set ?ps. (m, th) \<in> set (the (?g rows)))" by simp
    also have "\<dots> \<longleftrightarrow> (\<exists>row. (\<exists>rows \<in> set ?ps. row \<in> set rows) \<and> candidateFrom row = Some (fm_candidate m)) \<and>
        corroborates ctx flows threats (fm_candidate m) (fm_flow m) (fm_identity m) th"
      unfolding the by blast
    finally show ?thesis unfolding rows listed_candidate_def by blast
  qed
  then show ?thesis using run by blast
qed

lemma match_evidence_set:
  "x \<in> set (match_evidence y) \<longleftrightarrow>
     x = EvFlow (fl_id (fm_flow (fst y))) \<or> x = EvThreat (th_id (snd y)) \<or> x \<in> set (ca_indicators (fm_candidate (fst y)))"
  by (cases y) (auto simp: match_evidence_def)

lemma add_correlation_simps:
  "co_fingerprint (add_correlation x c) = co_fingerprint c"
  "set (co_evidence (add_correlation x c)) = set (co_evidence c) \<union> set (match_evidence x)"
  by (cases x; simp add: add_correlation_def Let_def)+

lemma correlation_mem:
  assumes "(k, c) \<in> set (correlations_of digest xs)"
  shows "co_fingerprint c = k" "set (co_evidence c) = (\<Union>x \<in> {x \<in> set xs. correlation_key digest x = k}. set (match_evidence x))"
proof -
  let ?rows = "rows_of (\<lambda>_. True) (correlation_key digest) k xs"
  have rows: "set ?rows = {x \<in> set xs. correlation_key digest x = k}" by (auto simp: rows_of_def)
  have b: "bucket_of (\<lambda>x. add_correlation x (start_correlation digest x)) add_correlation ?rows = Some c"
    using assms by (simp add: correlations_of_def accum_mem)
  have "co_fingerprint c = k \<and> set (co_evidence c) = (\<Union>x \<in> set ?rows. set (match_evidence x))"
  proof (rule bucket_of_induct [OF b, where P = "\<lambda>seen c. co_fingerprint c = k \<and>
      set (co_evidence c) = (\<Union>x \<in> set seen. set (match_evidence x))"], goal_cases)
    case (1 x)
    then have "correlation_key digest x = k" by (simp add: rows_of_def)
    then show ?case by (cases x) (simp add: add_correlation_simps start_correlation_def Let_def)
  next
    case (2 seen x c)
    then show ?case by (auto simp: add_correlation_simps)
  qed
  then show "co_fingerprint c = k" "set (co_evidence c) = (\<Union>x \<in> {x \<in> set xs. correlation_key digest x = k}. set (match_evidence x))"
    unfolding rows by blast+
qed

definition sound_tables :: "stored_finding list \<Rightarrow> site_flow list \<Rightarrow> site_threat list \<Rightarrow> bool" where
  "sound_tables findings flows threats \<longleftrightarrow>
     distinct (map sd_id findings) \<and> distinct (map fl_id flows) \<and> distinct (map th_id threats) \<and>
     list_all (\<lambda>f. nonempty (Some (fl_id f)) \<noteq> None) flows"

lemma compromise_findings:
  assumes "sound_tables findings flows threats"
  shows "\<exists>ds. validated_compromise_evaluate digest ctx findings flows threats = Some ds \<and> distinct (map dr_fingerprint ds) \<and>
    (\<forall>d \<in> set ds. dr_severity d = CRITICAL) \<and>
    dr_fingerprint ` set ds = {detectorFingerprint digest ''validated_compromise'' i None | c f i th.
      listed_candidate findings c \<and> corroborates ctx flows threats c f i th} \<and>
    (\<forall>d \<in> set ds. set (dr_evidence d) = {x. \<exists>c f i th. listed_candidate findings c \<and> corroborates ctx flows threats c f i th \<and>
      detectorFingerprint digest ''validated_compromise'' i None = dr_fingerprint d \<and>
      (x = EvFlow (fl_id f) \<or> x = EvThreat (th_id th) \<or> x \<in> set (ca_indicators c))})"
proof -
  let ?fp = "\<lambda>i. detectorFingerprint digest ''validated_compromise'' i None"
  have "distinct (map sd_id findings)" "distinct (map fl_id flows)" "\<forall>f \<in> set flows. nonempty (Some (fl_id f)) \<noteq> None"
    "distinct (map th_id threats)"
    using assms by (simp_all add: sound_tables_def list_all_iff)
  then obtain xs where xs: "all_matches ctx findings flows threats = Some xs"
    and mem: "\<And>m th. (m, th) \<in> set xs \<longleftrightarrow> listed_candidate findings (fm_candidate m) \<and>
      corroborates ctx flows threats (fm_candidate m) (fm_flow m) (fm_identity m) th"
    using all_matches_mem [of findings flows threats ctx] by blast
  have found: "(\<exists>x \<in> set xs. correlation_key digest x = k \<and> Q (fm_candidate (fst x)) (fm_flow (fst x)) (snd x)) \<longleftrightarrow>
      (\<exists>c f i th. listed_candidate findings c \<and> corroborates ctx flows threats c f i th \<and> ?fp i = k \<and> Q c f th)" for k Q
  proof
    assume "\<exists>x \<in> set xs. correlation_key digest x = k \<and> Q (fm_candidate (fst x)) (fm_flow (fst x)) (snd x)"
    then obtain m th where "(m, th) \<in> set xs" "?fp (fm_identity m) = k" "Q (fm_candidate m) (fm_flow m) th"
      by (auto simp: correlation_key_def)
    then show "\<exists>c f i th. listed_candidate findings c \<and> corroborates ctx flows threats c f i th \<and> ?fp i = k \<and> Q c f th"
      unfolding mem by blast
  next
    assume "\<exists>c f i th. listed_candidate findings c \<and> corroborates ctx flows threats c f i th \<and> ?fp i = k \<and> Q c f th"
    then obtain c f i th where c: "listed_candidate findings c \<and> corroborates ctx flows threats c f i th" "?fp i = k" "Q c f th" by blast
    then have "(\<lparr>fm_candidate = c, fm_flow = f, fm_identity = i\<rparr>, th) \<in> set xs" unfolding mem by simp
    then show "\<exists>x \<in> set xs. correlation_key digest x = k \<and> Q (fm_candidate (fst x)) (fm_flow (fst x)) (snd x)"
      by (rule rev_bexI) (simp add: correlation_key_def c)
  qed
  let ?m = "correlations_of digest xs" and ?ds = "map correlation_result (om_values (correlations_of digest xs))"
  have keys: "om_keys ?m = os_of (map (correlation_key digest) xs)" by (simp add: correlations_of_def om_keys_accum)
  have "co_fingerprint (snd x) = fst x" if "x \<in> set ?m" for x
    using correlation_mem(1) [of "fst x" "snd x" digest xs] that by simp
  then have prints: "map dr_fingerprint ?ds = om_keys ?m" by (simp add: om_values_def om_keys_def correlation_result_def)
  have dist: "distinct (map dr_fingerprint ?ds)" unfolding prints keys by simp
  have "k \<in> dr_fingerprint ` set ?ds \<longleftrightarrow> (\<exists>x \<in> set xs. correlation_key digest x = k \<and> True)" for k
  proof -
    have "k \<in> dr_fingerprint ` set ?ds \<longleftrightarrow> k \<in> set (om_keys ?m)" unfolding prints [symmetric] set_map ..
    then show ?thesis unfolding keys set_os_of set_map image_iff simp_thms by (simp only: eq_commute [of k])
  qed
  then have fps: "dr_fingerprint ` set ?ds =
      {?fp i | c f i th. listed_candidate findings c \<and> corroborates ctx flows threats c f i th}"
    unfolding found [of _ "\<lambda>_ _ _. True"] set_eq_iff mem_Collect_eq by metis
  have evid: "set (dr_evidence d) = {x. \<exists>c f i th. listed_candidate findings c \<and> corroborates ctx flows threats c f i th \<and>
      ?fp i = dr_fingerprint d \<and> (x = EvFlow (fl_id f) \<or> x = EvThreat (th_id th) \<or> x \<in> set (ca_indicators c))}" if "d \<in> set ?ds" for d
  proof -
    have "d \<in> (\<lambda>y. correlation_result (snd y)) ` set ?m" using that unfolding om_values_def set_map image_image .
    then obtain y where y: "d = correlation_result (snd y)" "y \<in> set ?m" by (rule imageE)
    obtain k c where kc: "y = (k, c)" by (cases y)
    note m = correlation_mem [OF y(2) [unfolded kc]]
    have d: "dr_fingerprint d = k" "dr_evidence d = co_evidence c" using m(1) by (simp_all add: y(1) kc correlation_result_def)
    have "x \<in> set (co_evidence c) \<longleftrightarrow> (\<exists>y \<in> set xs. correlation_key digest y = k \<and> (x = EvFlow (fl_id (fm_flow (fst y))) \<or>
        x = EvThreat (th_id (snd y)) \<or> x \<in> set (ca_indicators (fm_candidate (fst y)))))" for x
      unfolding m(2) match_evidence_set [symmetric] by blast
    then show ?thesis
      unfolding d set_eq_iff mem_Collect_eq
      using found [of k "\<lambda>c f th. _ = EvFlow (fl_id f) \<or> _ = EvThreat (th_id th) \<or> _ \<in> set (ca_indicators c)"] by simp
  qed
  have "\<forall>d \<in> set ?ds. dr_severity d = CRITICAL" by (auto simp: correlation_result_def)
  moreover have "validated_compromise_evaluate digest ctx findings flows threats = Some ?ds"
    by (simp add: validated_compromise_evaluate_def xs)
  ultimately show ?thesis using dist fps evid by (intro exI [of _ ?ds] conjI ballI; blast)
qed

text \<open>C9: the corroborated compromises.  The detector reports one critical finding for each device of a candidate, a flow and an
  alert that corroborate each other, whatever the pages and slices they are read in, and no other; its evidence is exactly
  these flows, the alerts and the indicators of the candidates.\<close>
theorem compromise_exact:
  assumes "sound_tables findings flows threats"
  shows "\<exists>ds. validated_compromise_evaluate digest ctx findings flows threats = Some ds \<and> distinct (map dr_fingerprint ds) \<and>
    (\<forall>d \<in> set ds. dr_severity d = CRITICAL) \<and>
    dr_fingerprint ` set ds = {detectorFingerprint digest ''validated_compromise'' i None | c f i th.
      listed_candidate findings c \<and> corroborates ctx flows threats c f i th} \<and>
    (\<forall>d \<in> set ds. set (dr_evidence d) = {x. \<exists>c f i th. listed_candidate findings c \<and> corroborates ctx flows threats c f i th \<and>
      detectorFingerprint digest ''validated_compromise'' i None = dr_fingerprint d \<and>
      (x = EvFlow (fl_id f) \<or> x = EvThreat (th_id th) \<or> x \<in> set (ca_indicators c))})"
  by (rule compromise_findings [OF assms])

definition demo_finding :: stored_finding where
  "demo_finding =
     \<lparr>sd_id = ''d1'', sd_detectorId = ''ioc_match'',
      sd_evidence = JArr [JObj [(''kind'', JStr ''flow''), (''id'', JStr ''f1'')],
        JObj [(''kind'', JStr ''ioc''), (''ioc'', JStr ''6.6.6.6''), (''feed'', JStr ''urlhaus'')]],
      sd_metadata = JObj [(''identity'', identity_json demo_source), (''matchedValue'', JStr ''6.6.6.6'')]\<rparr>"

definition demo_alert :: site_threat where
  "demo_alert =
     \<lparr>th_id = ''t1'', th_occurredAt = 7, th_srcIp = Some ''10.0.0.5 '', th_category = None, th_severity = None,
      st_connectionId = ''c'', st_scopeId = Some ''s'', st_type = Some ''THREAT_DETECTION_AND_PREVENTION'', st_subcategory = None\<rparr>"

definition demo_candidate :: ioc_candidate where
  "demo_candidate = \<lparr>ca_id = ''d1'', ca_identity = demo_source, ca_indicator = ''6.6.6.6'', ca_flowIds = [''f1''],
     ca_indicators = [EvIoc ''6.6.6.6'' ''urlhaus'']\<rparr>"

lemma demo_listed: "listed_candidate [demo_finding] demo_candidate"
  by code_simp

lemma demo_corroborates: "corroborates \<lparr>cx_beginTime = 0, cx_endTime = 9\<rparr> [demo_flow] [demo_alert] demo_candidate demo_flow demo_source demo_alert"
  by code_simp

lemma demo_tables: "sound_tables [demo_finding] [demo_flow] [demo_alert]"
  by code_simp

theorem compromise_exact_witness:
  "\<exists>ds. validated_compromise_evaluate rev \<lparr>cx_beginTime = 0, cx_endTime = 9\<rparr> [demo_finding] [demo_flow] [demo_alert] = Some ds \<and>
     ds \<noteq> []"
proof -
  obtain ds where ds: "validated_compromise_evaluate rev \<lparr>cx_beginTime = 0, cx_endTime = 9\<rparr> [demo_finding] [demo_flow] [demo_alert] = Some ds"
    and fps: "dr_fingerprint ` set ds = {detectorFingerprint rev ''validated_compromise'' i None | c f i th.
      listed_candidate [demo_finding] c \<and> corroborates \<lparr>cx_beginTime = 0, cx_endTime = 9\<rparr> [demo_flow] [demo_alert] c f i th}"
    using compromise_exact [OF demo_tables, of rev "\<lparr>cx_beginTime = 0, cx_endTime = 9\<rparr>"]
    by (elim exE conjE) (rule that, assumption+)
  have "detectorFingerprint rev ''validated_compromise'' demo_source None \<in> dr_fingerprint ` set ds"
    unfolding fps using demo_listed demo_corroborates by blast
  then show ?thesis using ds by auto
qed

section \<open>From listed traffic to the corroborated finding\<close>

text \<open>How evidence and metadata are stored.\<close>

definition evidence_json :: "evidence \<Rightarrow> json" where
  "evidence_json ev =
     (case ev of
        EvFlow i \<Rightarrow> JObj [(''kind'', JStr ''flow''), (''id'', JStr i)]
      | EvThreat i \<Rightarrow> JObj [(''kind'', JStr ''threat''), (''id'', JStr i)]
      | EvDnsQuery i \<Rightarrow> JObj [(''kind'', JStr ''dns_query''), (''id'', JStr i)]
      | EvDnsSignal i \<Rightarrow> JObj [(''kind'', JStr ''dns_signal''), (''id'', JStr i)]
      | EvIoc v feed \<Rightarrow> JObj [(''kind'', JStr ''ioc''), (''ioc'', JStr v), (''feed'', JStr feed)]
      | EvConfig r \<Rightarrow> JObj [(''kind'', JStr ''config''), (''ref'', JStr r)])"

definition stored_row :: "string \<Rightarrow> detection_result \<Rightarrow> stored_finding" where
  "stored_row i d =
     \<lparr>sd_id = i, sd_detectorId = ''ioc_match'', sd_evidence = JArr (map evidence_json (dr_evidence d)),
      sd_metadata = (case dr_metadata d of None \<Rightarrow> JNull | Some kvs \<Rightarrow> JObj kvs)\<rparr>"

lemma flow_reference_stored: "EvFlow x \<in> set evs \<Longrightarrow> x \<noteq> [] \<Longrightarrow> x \<in> set (concat (map flow_reference (map evidence_json evs)))"
  by (force simp: flow_reference_def evidence_json_def obj_fields_def get_str_def field_def om_get_def parse_str_def)

lemma ioc_reference_stored:
  "EvIoc v feed \<in> set evs \<Longrightarrow> feed \<noteq> [] \<Longrightarrow> normalizeIp (Some v) = Some v \<Longrightarrow>
    concat (map (ioc_reference v) (map evidence_json evs)) \<noteq> []"
  by (force simp: ioc_reference_def evidence_json_def obj_fields_def get_str_def field_def om_get_def parse_str_def)

lemma candidate_of_finding:
  assumes "normal_identity (if_identity f)" and "di_sourceKind (if_identity f) = UnifiSource"
    and "di_connectionId (if_identity f) \<noteq> None" and "di_scopeId (if_identity f) \<noteq> None"
    and "di_srcMac (if_identity f) \<noteq> None \<or> di_srcIp (if_identity f) \<noteq> None"
    and "normalizeIp (Some (if_matchedValue f)) = Some (if_matchedValue f)"
    and "EvFlow x \<in> set (if_evidence f)" and "x \<noteq> []" and "EvIoc (if_matchedValue f) feed \<in> set (if_evidence f)" and "feed \<noteq> []"
  shows "\<exists>c. candidateFrom (stored_row n (ioc_result f)) = Some c \<and> ca_identity c = if_identity f \<and>
    ca_indicator c = if_matchedValue f \<and> x \<in> set (ca_flowIds c)"
proof -
  let ?row = "stored_row n (ioc_result f)" and ?items = "map evidence_json (if_evidence f)"
  have fields: "field (obj_fields (sd_metadata ?row)) ''identity'' = identity_json (if_identity f)"
      "get_str (obj_fields (sd_metadata ?row)) ''matchedValue'' = Some (if_matchedValue f)" "sd_evidence ?row = JArr ?items"
    by (simp_all add: stored_row_def ioc_result_def obj_fields_def field_def get_str_def parse_str_def om_get_def)
  have x: "x \<in> set (os_of (concat (map flow_reference ?items)))" using flow_reference_stored [OF assms(7,8)] by simp
  then have "os_of (concat (map flow_reference ?items)) \<noteq> []" by (metis empty_iff empty_set)
  moreover have "concat (map (ioc_reference (if_matchedValue f)) ?items) \<noteq> []"
    by (rule ioc_reference_stored [OF assms(9,10,6)])
  ultimately have "candidateFrom ?row = Some \<lparr>ca_id = sd_id ?row, ca_identity = if_identity f, ca_indicator = if_matchedValue f,
      ca_flowIds = os_of (concat (map flow_reference ?items)),
      ca_indicators = concat (map (ioc_reference (if_matchedValue f)) ?items)\<rparr>"
    using assms(2-5) unfolding candidateFrom_def Let_def fields identity_parses [OF assms(1)] assms(6)
    by (simp del: map_map concat_eq_Nil_conv)
  then show ?thesis using x by auto
qed

definition same_source :: "site_flow \<Rightarrow> detector_identity \<Rightarrow> site_threat \<Rightarrow> bool" where
  "same_source f i th \<longleftrightarrow>
     di_connectionId i = Some (sf_connectionId f) \<and> di_scopeId i = sf_scopeId f \<and> truthy (sf_scopeId f) \<and>
     st_scopeId th = sf_scopeId f \<and> st_connectionId th = sf_connectionId f \<and>
     normalizeIp (fl_srcIp f) \<noteq> None \<and> normalizeIp (th_srcIp th) = normalizeIp (fl_srcIp f)"

lemma sighting_normal: "sighting t ctx flows queries i kind v r ev \<Longrightarrow> normal_identity i"
  unfolding sighting_def flow_identity_def query_identity_def using created_normal by blast

lemma sighting_kind: "sighting t ctx flows queries i kind v r ev \<Longrightarrow> kind = ''ip'' \<or> kind = ''domain''"
  unfolding sighting_def by blast

text \<open>The text whose digest identifies the finding of a sighting.\<close>

definition sighting_key :: "detector_identity \<Rightarrow> string \<Rightarrow> string \<Rightarrow> string" where
  "sighting_key i kind v = fingerprint_key i (Some (kind @ '':'' @ v))"

lemma indicator_fingerprint_same:
  assumes "\<not> collide digest (sighting_key i kind v) (sighting_key j kind' v')"
    and "kind = ''ip'' \<or> kind = ''domain''" and "kind' = ''ip'' \<or> kind' = ''domain''"
    and "indicator_fingerprint digest i kind v = indicator_fingerprint digest j kind' v'"
  shows "same_scope i j \<and> same_device i j \<and> kind = kind' \<and> v = v'"
  using assms(4) unfolding indicator_fingerprint_def fingerprint_iff using assms(1-3) by (auto simp: sighting_key_def)

text \<open>The finding of a sighting is stored as a candidate that refers to its flow.\<close>

lemma sighting_candidate:
  assumes apart: "\<forall>j kind w q ev. sighting t ctx flows queries j kind w q ev \<longrightarrow>
      \<not> collide digest (sighting_key j kind w) (sighting_key i ''ip'' v)"
    and "sound_rows flows queries"
    and "ioc_match_evaluate digest t ctx flows queries = Some ds" and "\<forall>d \<in> set ds. \<exists>n. stored_row n d \<in> set findings"
    and seen: "sighting t ctx flows queries i ''ip'' v r (EvFlow x)" and "x \<noteq> []" and "io_feed r \<noteq> []"
    and "di_sourceKind i = UnifiSource" and "di_connectionId i \<noteq> None" and "di_scopeId i \<noteq> None" and "di_srcIp i \<noteq> None"
  obtains c where "listed_candidate findings c" "same_scope (ca_identity c) i" "same_device (ca_identity c) i" "ca_indicator c = v"
    "x \<in> set (ca_flowIds c)"
proof -
  obtain ds' where "ioc_match_evaluate digest t ctx flows queries = Some ds'"
    and fps: "dr_fingerprint ` set ds' =
      {indicator_fingerprint digest i kind v | i kind v r ev. sighting t ctx flows queries i kind v r ev}"
    and evid: "\<forall>d \<in> set ds'. set (dr_evidence d) =
       {x. \<exists>i kind v r ev. sighting t ctx flows queries i kind v r ev \<and>
          indicator_fingerprint digest i kind v = dr_fingerprint d \<and> x \<in> {ev, EvIoc v (io_feed r)}}"
    and origin: "\<forall>d \<in> set ds'. \<exists>f. d = ioc_result f \<and>
       (\<exists>kind v r ev. sighting t ctx flows queries (if_identity f) kind v r ev \<and>
          indicator_fingerprint digest (if_identity f) kind v = dr_fingerprint d) \<and>
       (\<exists>i r ev. sighting t ctx flows queries i (if_kind f) (if_matchedValue f) r ev \<and>
          indicator_fingerprint digest i (if_kind f) (if_matchedValue f) = dr_fingerprint d)"
    using ioc_findings [OF assms(2), of digest t ctx] by (elim exE conjE) (rule that, assumption+)
  then have ds: "ds' = ds" using assms(3) by simp
  let ?fp = "indicator_fingerprint digest i ''ip'' v"
  have "?fp \<in> dr_fingerprint ` set ds'" unfolding fps using seen by blast
  then obtain d where d: "d \<in> set ds'" "dr_fingerprint d = ?fp" by auto
  obtain f where f: "d = ioc_result f"
    and id: "\<exists>kind v r ev. sighting t ctx flows queries (if_identity f) kind v r ev \<and>
      indicator_fingerprint digest (if_identity f) kind v = ?fp"
    and ind: "\<exists>i r ev. sighting t ctx flows queries i (if_kind f) (if_matchedValue f) r ev \<and>
      indicator_fingerprint digest i (if_kind f) (if_matchedValue f) = ?fp"
    using bspec [OF origin d(1)] unfolding d(2) by blast
  have same: "same_scope j i \<and> same_device j i \<and> kind = ''ip'' \<and> w = v"
    if "sighting t ctx flows queries j kind w q ev" "indicator_fingerprint digest j kind w = ?fp" for j kind w q ev
    using indicator_fingerprint_same [OF _ sighting_kind [OF that(1)] _ that(2)] apart that(1) by blast
  obtain kind w q ev where first: "sighting t ctx flows queries (if_identity f) kind w q ev"
      "indicator_fingerprint digest (if_identity f) kind w = ?fp"
    using id by blast
  have scope: "same_scope (if_identity f) i" "same_device (if_identity f) i" "normal_identity (if_identity f)"
    using same [OF first] sighting_normal [OF first(1)] by simp_all
  obtain j q' ev' where "sighting t ctx flows queries j (if_kind f) (if_matchedValue f) q' ev'"
      "indicator_fingerprint digest j (if_kind f) (if_matchedValue f) = ?fp"
    using ind by blast
  then have matched: "if_matchedValue f = v" using same by blast
  have v: "normalizeIp (Some v) = Some v" using seen normalizeIp_idem unfolding sighting_def by blast
  have ev: "EvFlow x \<in> set (if_evidence f)" "EvIoc (if_matchedValue f) (io_feed r) \<in> set (if_evidence f)"
  proof -
    have e: "set (if_evidence f) = {x. \<exists>i kind v r ev. sighting t ctx flows queries i kind v r ev \<and>
        indicator_fingerprint digest i kind v = ?fp \<and> x \<in> {ev, EvIoc v (io_feed r)}}"
      using bspec [OF evid d(1)] unfolding d(2) unfolding f by (simp add: ioc_result_def)
    show "EvFlow x \<in> set (if_evidence f)" unfolding e mem_Collect_eq by (intro exI conjI, rule seen, rule refl, simp)
    show "EvIoc (if_matchedValue f) (io_feed r) \<in> set (if_evidence f)"
      unfolding e mem_Collect_eq matched by (intro exI conjI, rule seen, rule refl, simp)
  qed
  obtain n where n: "stored_row n d \<in> set findings" using assms(4) d(1) ds by blast
  have "di_sourceKind (if_identity f) = UnifiSource" "di_connectionId (if_identity f) \<noteq> None" "di_scopeId (if_identity f) \<noteq> None"
      "di_srcMac (if_identity f) \<noteq> None \<or> di_srcIp (if_identity f) \<noteq> None"
    using scope(1,2) assms(8-11) unfolding same_scope_def same_device_def by auto
  then obtain c where c: "candidateFrom (stored_row n (ioc_result f)) = Some c" "ca_identity c = if_identity f"
      "ca_indicator c = if_matchedValue f" "x \<in> set (ca_flowIds c)"
    using candidate_of_finding [OF scope(3) _ _ _ _ _ ev(1) assms(6) ev(2) assms(7), of n] v matched by blast
  have "sd_detectorId (stored_row n d) = ''ioc_match''" by (simp add: stored_row_def)
  then have "listed_candidate findings c" using n c(1) unfolding listed_candidate_def f by blast
  then show ?thesis using that c scope(1,2) matched by metis
qed

text \<open>C8: traffic to a listed address and an alert of the intrusion detection for the same source are connected.  Once
  the findings of the one detector are stored, the other reports the device of the flow as critical, with the flow and the
  alert as evidence.  The one thing asked of the digest: no other sighting of the same run has a different text with the
  digest of this one's.\<close>
theorem listed_traffic_with_alert_reported:
  assumes "\<forall>j kind w q ev. sighting t ctx flows queries j kind w q ev \<longrightarrow>
      \<not> collide digest (sighting_key j kind w) (sighting_key i ''ip'' v)"
    and "sound_rows flows queries" and "ioc_match_evaluate digest t ctx flows queries = Some ds"
    and "\<forall>d \<in> set ds. \<exists>n. stored_row n d \<in> set findings" and "sound_tables findings flows threats"
    and "f \<in> set flows" and "flow_identity f = Some i" and "sighting t ctx flows queries i ''ip'' v r (EvFlow (fl_id f))"
    and "normalizeIp (fl_dstIp f) = Some v" and "io_feed r \<noteq> []"
    and "th \<in> set threats" and "is_ids th" and "in_window ctx' (fl_occurredAt f)" and "in_window ctx' (th_occurredAt th)"
    and "same_source f i th"
  shows "\<exists>cs. validated_compromise_evaluate digest ctx' findings flows threats = Some cs \<and>
    (\<exists>d \<in> set cs. dr_fingerprint d = detectorFingerprint digest ''validated_compromise'' i None \<and> dr_severity d = CRITICAL \<and>
       EvFlow (fl_id f) \<in> set (dr_evidence d) \<and> EvThreat (th_id th) \<in> set (dr_evidence d))"
proof -
  have i: "di_sourceKind i = UnifiSource" "di_srcIp i = normalizeIp (fl_srcIp f)" "nonempty (Some (fl_id f)) \<noteq> None"
    using assms(7) by (auto simp: flow_identity_def createDetectorIdentity_def split: option.splits)
  then have "fl_id f \<noteq> []" by (auto simp: nonempty_def js_trim_def)
  moreover have "di_connectionId i \<noteq> None" "di_scopeId i \<noteq> None" "di_srcIp i \<noteq> None"
    using assms(15) i(2) by (cases "sf_scopeId f"; simp add: same_source_def)+
  ultimately obtain c where c: "listed_candidate findings c" "same_scope (ca_identity c) i" "same_device (ca_identity c) i"
      "ca_indicator c = v" "fl_id f \<in> set (ca_flowIds c)"
    using sighting_candidate [OF assms(1-4,8) _ assms(10) i(1)] by metis
  have both: "listed_candidate findings c \<and> corroborates ctx' flows threats c f i th"
    using c assms(6,7,9,11-15) by (auto simp: corroborates_def same_source_def same_scope_def)
  obtain cs where cs: "validated_compromise_evaluate digest ctx' findings flows threats = Some cs"
    and crit: "\<forall>d \<in> set cs. dr_severity d = CRITICAL"
    and fps: "dr_fingerprint ` set cs = {detectorFingerprint digest ''validated_compromise'' i None | c f i th.
      listed_candidate findings c \<and> corroborates ctx' flows threats c f i th}"
    and evid: "\<forall>d \<in> set cs. set (dr_evidence d) = {x. \<exists>c f i th. listed_candidate findings c \<and>
      corroborates ctx' flows threats c f i th \<and> detectorFingerprint digest ''validated_compromise'' i None = dr_fingerprint d \<and>
      (x = EvFlow (fl_id f) \<or> x = EvThreat (th_id th) \<or> x \<in> set (ca_indicators c))}"
    using compromise_findings [OF assms(5), of digest ctx'] by (elim exE conjE) (rule that, assumption+)
  have "detectorFingerprint digest ''validated_compromise'' i None \<in> dr_fingerprint ` set cs" unfolding fps using both by blast
  then obtain d where d: "d \<in> set cs" "dr_fingerprint d = detectorFingerprint digest ''validated_compromise'' i None" by auto
  have "EvFlow (fl_id f) \<in> set (dr_evidence d)" "EvThreat (th_id th) \<in> set (dr_evidence d)"
    unfolding bspec [OF evid d(1)] d(2) using both by blast+
  then show ?thesis using cs crit d by blast
qed

lemma demo_source_facts: "flow_identity demo_flow = Some demo_source" "normalizeIp (fl_dstIp demo_flow) = Some ''6.6.6.6''"
  "io_feed demo_ioc \<noteq> []" "is_ids demo_alert" "in_window \<lparr>cx_beginTime = 0, cx_endTime = 9\<rparr> (fl_occurredAt demo_flow)"
  "in_window \<lparr>cx_beginTime = 0, cx_endTime = 9\<rparr> (th_occurredAt demo_alert)" "same_source demo_flow demo_source demo_alert"
  "fl_id demo_flow = ''f1''"
  by code_simp+

text \<open>A digest of limited length, which is not injective, on the only sighting of the example.\<close>

lemma demo_sighting_only:
  assumes "sighting [demo_ioc] ctx [demo_flow] [] j kind w q ev"
  shows "j = demo_source \<and> kind = ''ip'' \<and> w = ''6.6.6.6''"
proof -
  have only: "q = demo_ioc" if "q \<in> set (lookupIp [demo_ioc] x)" for x
    using that by (auto simp: lookupIp_def split: if_splits)
  from assms have k: "kind = ''ip''" "normalizeIp (Some (io_value q)) = Some w" "flow_identity demo_flow = Some j"
    and "\<exists>x. q \<in> set (lookupIp [demo_ioc] x)"
    by (auto simp: sighting_def)
  then have "normalizeIp (Some (io_value demo_ioc)) = Some w" using only by blast
  moreover have "normalizeIp (Some (io_value demo_ioc)) = Some ''6.6.6.6''" by code_simp
  ultimately show ?thesis using k(1,3) demo_source_facts(1) by simp
qed

theorem listed_traffic_with_alert_reported_witness:
  "\<exists>findings cs. validated_compromise_evaluate short_digest \<lparr>cx_beginTime = 0, cx_endTime = 9\<rparr> findings [demo_flow] [demo_alert] = Some cs \<and>
     (\<exists>d \<in> set cs. dr_severity d = CRITICAL \<and> EvFlow ''f1'' \<in> set (dr_evidence d))"
proof -
  let ?ctx = "\<lparr>cx_beginTime = 0, cx_endTime = 9\<rparr>"
  obtain ds where ds: "ioc_match_evaluate short_digest [demo_ioc] ?ctx [demo_flow] [] = Some ds" "distinct (map dr_fingerprint ds)"
    using ioc_findings [OF demo_sound, of short_digest "[demo_ioc]" ?ctx] by (elim exE conjE) (rule that, assumption+)
  define findings where "findings = map (\<lambda>d. stored_row (dr_fingerprint d) d) ds"
  have stored: "\<forall>d \<in> set ds. \<exists>n. stored_row n d \<in> set findings" by (auto simp: findings_def)
  have "map sd_id findings = map dr_fingerprint ds" by (simp add: findings_def stored_row_def)
  then have tables: "sound_tables findings [demo_flow] [demo_alert]" using ds(2) demo_tables by (simp add: sound_tables_def)
  have apart: "\<forall>j kind w q ev. sighting [demo_ioc] ?ctx [demo_flow] [] j kind w q ev \<longrightarrow>
      \<not> collide short_digest (sighting_key j kind w) (sighting_key demo_source ''ip'' ''6.6.6.6'')"
    using demo_sighting_only by (metis collide_def)
  from listed_traffic_with_alert_reported [OF apart demo_sound ds(1) stored tables _ demo_source_facts(1) _ demo_source_facts(2,3) _
      demo_source_facts(4-7)] demo_sighting
  show ?thesis unfolding demo_source_facts(8) by (metis list.set_intros(1))
qed

end
