(* ===== verification/Js_Value.thy ===== *)
theory Js_Value
  imports Js_Json
begin

text \<open>
  Values of type \<open>any\<close>: strict equality, member access and the array functions, for the code that
  walks over configuration objects whose shape it does not know.

  Two arrays or objects are strictly equal only when they are the same object; a value of a rule and
  a value of a configuration never are, so on those \<open>===\<close> is false.  Inherited members such as
  \<open>toString\<close> are not modelled, and a character is read by its index in ASCII text only.  An operation
  that throws a \<open>TypeError\<close> is \<open>None\<close>.
\<close>

definition strict_eq :: "json \<Rightarrow> json \<Rightarrow> bool" where
  "strict_eq a b = (case a of JArr _ \<Rightarrow> False | JObj _ \<Rightarrow> False | _ \<Rightarrow> a = b)"

definition js_includes :: "json list \<Rightarrow> json \<Rightarrow> bool" where
  "js_includes xs v = list_ex (\<lambda>x. strict_eq x v) xs"

section \<open>Members\<close>

definition array_index :: "string \<Rightarrow> nat option" where
  "array_index k = (if k \<noteq> [] \<and> list_all is_digit k \<and> (hd k \<noteq> CHR ''0'' \<or> k = ''0'') then Some (dec_val k) else None)"

text \<open>The UTF-16 code units of one byte of UTF-8 text.\<close>

definition byte_units :: "char \<Rightarrow> nat" where
  "byte_units c = (let n = (of_char c :: nat) in if 128 \<le> n \<and> n < 192 then 0 else if 240 \<le> n then 2 else 1)"

definition js_length :: "string \<Rightarrow> nat" where
  "js_length s = sum_list (map byte_units s)"

definition is_ascii :: "string \<Rightarrow> bool" where
  "is_ascii s = list_all (\<lambda>c. (of_char c :: nat) < 128) s"

definition js_member :: "json \<Rightarrow> string \<Rightarrow> json option" where
  "js_member v k = (case v of
     JUndef \<Rightarrow> None
   | JNull \<Rightarrow> None
   | JObj kvs \<Rightarrow> Some (field kvs k)
   | JArr xs \<Rightarrow> Some (if k = ''length'' then JNum (of_nat (length xs))
       else (case array_index k of None \<Rightarrow> JUndef | Some i \<Rightarrow> if i < length xs then xs ! i else JUndef))
   | JStr s \<Rightarrow> Some (if k = ''length'' then JNum (of_nat (js_length s))
       else (case array_index k of None \<Rightarrow> JUndef | Some i \<Rightarrow> if is_ascii s \<and> i < length s then JStr [s ! i] else JUndef))
   | _ \<Rightarrow> Some JUndef)"

text \<open>\<open>v?.k\<close>, and the field of a value that is known to be an object.\<close>

definition opt_member :: "json \<Rightarrow> string \<Rightarrow> json" where
  "opt_member v k = dflt JUndef (js_member v k)"

definition prop_of :: "json \<Rightarrow> string \<Rightarrow> json" where
  "prop_of v k = field (obj_fields v) k"

definition set_prop :: "string \<Rightarrow> json \<Rightarrow> json \<Rightarrow> json" where
  "set_prop k x v = JObj (om_set k x (obj_fields v))"

definition json_nullish :: "json \<Rightarrow> json \<Rightarrow> json" where
  "json_nullish a b = (if a = JUndef \<or> a = JNull then b else a)"

definition is_object :: "json \<Rightarrow> bool" where
  "is_object v = (case v of JObj _ \<Rightarrow> True | _ \<Rightarrow> False)"

section \<open>Arrays\<close>

definition js_join :: "string \<Rightarrow> json list \<Rightarrow> string" where
  "js_join sep xs = join sep (map (\<lambda>x. if x = JUndef \<or> x = JNull then [] else js_to_string x) xs)"

definition js_iterate :: "json \<Rightarrow> json list option" where
  "js_iterate v = (case v of JArr xs \<Rightarrow> Some xs | JStr s \<Rightarrow> Some (map (\<lambda>c. JStr [c]) s) | _ \<Rightarrow> None)"

text \<open>\<open>map\<close>, \<open>filter\<close> and \<open>find\<close> with a function that may throw.\<close>

fun map_m :: "('a \<Rightarrow> 'b option) \<Rightarrow> 'a list \<Rightarrow> 'b list option" where
  "map_m f [] = Some []"
| "map_m f (x # xs) =
     (case f x of None \<Rightarrow> None | Some y \<Rightarrow> (case map_m f xs of None \<Rightarrow> None | Some ys \<Rightarrow> Some (y # ys)))"

fun filter_m :: "('a \<Rightarrow> bool option) \<Rightarrow> 'a list \<Rightarrow> 'a list option" where
  "filter_m p [] = Some []"
| "filter_m p (x # xs) =
     (case p x of None \<Rightarrow> None
      | Some b \<Rightarrow> (case filter_m p xs of None \<Rightarrow> None | Some ys \<Rightarrow> Some (if b then x # ys else ys)))"

fun find_m :: "('a \<Rightarrow> bool option) \<Rightarrow> 'a list \<Rightarrow> 'a option option" where
  "find_m p [] = Some None"
| "find_m p (x # xs) = (case p x of None \<Rightarrow> None | Some True \<Rightarrow> Some (Some x) | Some False \<Rightarrow> find_m p xs)"

text \<open>
  A loop that pushes results: what is pushed before an exception stays, and nothing is looked at
  after it.
\<close>

fun push_until :: "('a \<Rightarrow> 'b option option) \<Rightarrow> 'a list \<Rightarrow> 'b list" where
  "push_until f [] = []"
| "push_until f (x # xs) =
     (case f x of None \<Rightarrow> [] | Some None \<Rightarrow> push_until f xs | Some (Some y) \<Rightarrow> y # push_until f xs)"

section \<open>Differences of numbers\<close>

fun js_minus :: "js_num \<Rightarrow> js_num \<Rightarrow> js_num" where
  "js_minus NaN b = NaN"
| "js_minus a NaN = NaN"
| "js_minus (Inf a) (Inf b) = (if a = b then NaN else Inf a)"
| "js_minus (Inf a) (Fin _) = Inf a"
| "js_minus (Fin _) (Inf b) = Inf (\<not> b)"
| "js_minus (Fin a) (Fin b) = Fin (a - b)"

section \<open>Lemmas\<close>

lemma strict_eq_simps [simp]:
  "strict_eq (JStr s) v \<longleftrightarrow> v = JStr s" "strict_eq v (JStr s) \<longleftrightarrow> v = JStr s"
  "strict_eq (JBool b) v \<longleftrightarrow> v = JBool b" "strict_eq v (JBool b) \<longleftrightarrow> v = JBool b"
  "strict_eq (JNum q) v \<longleftrightarrow> v = JNum q" "strict_eq v (JNum q) \<longleftrightarrow> v = JNum q"
  "strict_eq JUndef v \<longleftrightarrow> v = JUndef" "strict_eq v JUndef \<longleftrightarrow> v = JUndef"
  "strict_eq JNull v \<longleftrightarrow> v = JNull" "strict_eq v JNull \<longleftrightarrow> v = JNull"
  "\<not> strict_eq (JArr xs) v" "\<not> strict_eq (JObj kvs) v" "\<not> strict_eq v (JArr xs)" "\<not> strict_eq v (JObj kvs)"
  by (auto simp: strict_eq_def split: json.splits)

lemma strict_eq_sym: "strict_eq a b \<longleftrightarrow> strict_eq b a"
  by (cases a) (auto simp: strict_eq_def split: json.splits)

lemma strict_eqD: "strict_eq a b \<Longrightarrow> a = b"
  by (cases a) (auto simp: strict_eq_def)

lemma prop_of_JObj [simp]: "prop_of (JObj kvs) k = field kvs k"
  by (simp add: prop_of_def obj_fields_def)

lemma field_set [simp]: "field (om_set k x kvs) k' = (if k' = k then x else field kvs k')"
  by (simp add: field_def om_get_set)

lemma prop_of_set [simp]: "prop_of (set_prop k x v) k' = (if k' = k then x else prop_of v k')"
  by (simp add: prop_of_def set_prop_def obj_fields_def)

lemma is_object_set [simp]: "is_object (set_prop k x v)"
  by (simp add: is_object_def set_prop_def)

lemma is_objectE: "is_object v \<Longrightarrow> (\<And>kvs. v = JObj kvs \<Longrightarrow> P) \<Longrightarrow> P"
  by (cases v) (auto simp: is_object_def)

lemma js_member_object: "is_object v \<Longrightarrow> js_member v k = Some (prop_of v k)"
  by (auto elim!: is_objectE simp: js_member_def)

lemma json_nullish_simps [simp]:
  "json_nullish JUndef b = b" "json_nullish JNull b = b"
  "a \<noteq> JUndef \<Longrightarrow> a \<noteq> JNull \<Longrightarrow> json_nullish a b = a"
  by (simp_all add: json_nullish_def)

lemma json_or_simps [simp]:
  "json_truthy a \<Longrightarrow> json_or a b = a" "\<not> json_truthy a \<Longrightarrow> json_or a b = b"
  by (simp_all add: json_or_def)

lemma map_m_Some: "(\<And>x. x \<in> set xs \<Longrightarrow> f x = Some (g x)) \<Longrightarrow> map_m f xs = Some (map g xs)"
  by (induction xs) auto

lemma map_m_set: "map_m f xs = Some ys \<Longrightarrow> y \<in> set ys \<longleftrightarrow> (\<exists>x \<in> set xs. f x = Some y)"
  by (induction xs arbitrary: ys) (auto split: option.splits)

lemma filter_m_Some: "(\<And>x. x \<in> set xs \<Longrightarrow> p x = Some (q x)) \<Longrightarrow> filter_m p xs = Some (filter q xs)"
  by (induction xs) auto

lemma filter_m_eq: "filter_m p xs = Some ys \<Longrightarrow> ys = filter (\<lambda>x. p x = Some True) xs"
  by (induction xs arbitrary: ys) (auto split: option.splits if_splits)

lemma filter_m_defined: "filter_m p xs = Some ys \<Longrightarrow> x \<in> set xs \<Longrightarrow> p x \<noteq> None"
  by (induction xs arbitrary: ys) (auto split: option.splits)

lemma filter_m_None: "filter_m p xs = None \<longleftrightarrow> (\<exists>x \<in> set xs. p x = None)"
  by (induction xs) (auto split: option.splits)

lemma filter_m_list_all2:
  assumes "list_all2 R xs ys" "\<And>x y. R x y \<Longrightarrow> p x = q y"
  shows "rel_option (list_all2 R) (filter_m p xs) (filter_m q ys)"
  using assms(1)
proof (induction rule: list_all2_induct)
  case (Cons x xs y ys)
  with assms(2) [OF Cons.hyps(1)] show ?case
    by (cases "q y"; cases "filter_m p xs"; cases "filter_m q ys") auto
qed simp

lemma find_m_list_all2:
  assumes "list_all2 R xs ys" "\<And>x y. R x y \<Longrightarrow> p x = q y"
  shows "rel_option (rel_option R) (find_m p xs) (find_m q ys)"
  using assms(1)
proof (induction rule: list_all2_induct)
  case (Cons x xs y ys)
  with assms(2) [OF Cons.hyps(1)] show ?case by (auto split: option.splits bool.splits)
qed simp

lemma push_until_list_all2:
  assumes "list_all2 R xs ys" "\<And>x y. R x y \<Longrightarrow> f x = g y"
  shows "push_until f xs = push_until g ys"
  using assms(1)
proof (induction rule: list_all2_induct)
  case (Cons x xs y ys)
  with assms(2) [OF Cons.hyps(1)] show ?case by (simp split: option.split)
qed simp

lemma push_until_total:
  "(\<And>x. x \<in> set xs \<Longrightarrow> f x = Some (if q x then Some (g x) else None)) \<Longrightarrow> push_until f xs = map g (filter q xs)"
  by (induction xs) auto

lemma push_until_set: "y \<in> set (push_until f xs) \<Longrightarrow> \<exists>x \<in> set xs. f x = Some (Some y)"
  by (induction xs) (auto split: option.splits)

end
