(* ===== verification/Rule_Engine.thy ===== *)
theory Rule_Engine
  imports Js_Value Detection_Types
begin

text \<open>
  The engine for declarative security rules, \<open>services/ruleLoader/ruleEngine.ts\<close>: the kind of a network,
  the evaluation of conditions, the items a rule looks at, the templates of its output, and the execution
  of one rule and of all rules.

  A rule is the YAML value typed as in \<open>ruleLoader/types.ts\<close>; items are JSON values.  The regular
  expression engine is an argument: \<open>re i p t\<close> tells whether the pattern \<open>p\<close>, under the flag \<open>i\<close>, matches in
  the text \<open>t\<close>, and is \<open>None\<close> when \<open>p\<close> is no pattern.  A function that may throw gives \<open>None\<close> when it does.
  The engine writes into the networks of the configuration it is given, so a configuration goes in and
  comes out.
\<close>

type_synonym regex = "bool \<Rightarrow> string \<Rightarrow> string \<Rightarrow> bool option"
type_synonym obj = "(string \<times> json) list"

definition re_holds :: "bool option \<Rightarrow> bool" where
  "re_holds r = (r = Some True)"

section \<open>Rules and configurations\<close>

datatype rule_category =
    RC_firewall | RC_vlan | RC_dns | RC_port | RC_upnp | RC_wireless | RC_general | RC_ids_ips | RC_access_control
  | RC_switch | RC_vpn | RC_version | RC_optimization

datatype cond = Cond
  (c_field: "string option")
  (c_op: "string option")
  (c_value: json)
  (c_ref_field: "string option")
  (c_operator: "string option")
  (c_checks: "cond list option")
  (c_check: "cond option")

text \<open>An aggregate filter is a condition when it has the key \<open>operator\<close>, and else an object of fields.\<close>

datatype aggregate_filter = Operator_Filter cond | Field_Filter obj

record rule_output =
  out_resource :: string
  out_details :: string
  out_current :: "string option"
  out_expected :: "string option"

record cross_reference =
  xr_type :: string
  xr_pattern :: "string option"

record additional_condition =
  ac_target :: string
  ac_aggregate :: string
  ac_op :: string
  ac_value :: rat

record rule_detection =
  rd_target :: string
  rd_filter :: "obj option"
  rd_condition :: "cond option"
  rd_cross :: "cross_reference option"
  rd_aggregate :: "string option"
  rd_aggregate_filter :: "aggregate_filter option"
  rd_additional :: "additional_condition option"
  rd_report_mode :: "string option"
  rd_output :: rule_output

record security_rule =
  sr_id :: string
  sr_name :: string
  sr_description :: string
  sr_category :: rule_category
  sr_severity :: severity
  sr_impact :: string
  sr_remediation :: string
  sr_sourceId :: "string option"
  sr_sensitive_ports :: "(string \<times> string) list option"
  sr_detection :: rule_detection

record unifi_config =
  uc_networks :: "json list"
  uc_firewallRules :: "json list"
  uc_firewallGroups :: "json list"
  uc_firewallPolicies :: "json list"
  uc_trafficRules :: "json list"
  uc_wlans :: "json list"
  uc_portForwards :: "json list"
  uc_clients :: "json list"
  uc_devices :: "json list"
  uc_settings :: json
  uc_radiusProfiles :: "json list"
  uc_aclRules :: "json list"
  uc_l3AclIsolation :: "json list"
  uc_deviceIsolationNetworks :: "json list"
  uc_vpnServers :: "json list"
  uc_firewallZones :: "json list"

record check_result =
  cr_found :: bool
  cr_resource :: "string option"
  cr_details :: "string option"
  cr_current :: "string option"
  cr_expected :: "string option"

record rule_execution =
  rx_ruleId :: string
  rx_ruleName :: string
  rx_category :: rule_category
  rx_severity :: severity
  rx_sourceId :: string
  rx_findings :: "check_result list"

section \<open>The kind of a network\<close>

text \<open>\<open>(network.name || '').toLowerCase()\<close>, which throws when the name is no string but truthy.\<close>

definition name_lower :: "json \<Rightarrow> string option" where
  "name_lower n = (case json_or (prop_of n ''name'') (JStr []) of JStr s \<Rightarrow> Some (to_lower s) | _ \<Rightarrow> None)"

definition mentions_any :: "string list \<Rightarrow> string \<Rightarrow> bool" where
  "mentions_any ws name = list_ex (\<lambda>w. str_includes w name) ws"

definition has_purpose :: "string \<Rightarrow> json \<Rightarrow> bool" where
  "has_purpose p n = strict_eq (prop_of n ''purpose'') (JStr p)"

definition isIoTNetwork :: "json \<Rightarrow> bool option" where
  "isIoTNetwork n = map_option
     (\<lambda>name. mentions_any [''iot'', ''smart'', ''device''] name \<or> has_purpose ''iot'' n) (name_lower n)"

definition isGuestNetwork :: "json \<Rightarrow> bool option" where
  "isGuestNetwork n = map_option (\<lambda>name. mentions_any [''guest''] name \<or> has_purpose ''guest'' n) (name_lower n)"

definition isSecurityNetwork :: "json \<Rightarrow> bool option" where
  "isSecurityNetwork n = map_option (mentions_any [''camera'', ''security'', ''nvr'', ''surveillance'']) (name_lower n)"

definition isWorkNetwork :: "json \<Rightarrow> bool option" where
  "isWorkNetwork n = map_option (mentions_any [''work'', ''corporate'', ''office'', ''employee'']) (name_lower n)"

definition isManagementNetwork :: "json \<Rightarrow> bool option" where
  "isManagementNetwork n = map_option
     (\<lambda>name. mentions_any [''management'', ''mgmt''] name \<or> has_purpose ''management'' n) (name_lower n)"

definition isCorporateNetwork :: "json \<Rightarrow> bool option" where
  "isCorporateNetwork n =
     (if has_purpose ''corporate'' n \<or> has_purpose ''lan'' n then Some True
      else (case (isIoTNetwork n, isGuestNetwork n, isSecurityNetwork n, isManagementNetwork n, isWorkNetwork n) of
              (Some i, Some g, Some s, Some m, Some w) \<Rightarrow> Some (\<not> i \<and> \<not> g \<and> \<not> s \<and> \<not> m \<and> \<not> w)
            | _ \<Rightarrow> None))"

definition getNetworkType :: "json \<Rightarrow> string option" where
  "getNetworkType n =
     Option.bind (isIoTNetwork n) (\<lambda>i. if i then Some ''iot'' else
     Option.bind (isGuestNetwork n) (\<lambda>g. if g then Some ''guest'' else
     Option.bind (isSecurityNetwork n) (\<lambda>s. if s then Some ''security'' else
     Option.bind (isWorkNetwork n) (\<lambda>w. if w then Some ''work'' else
     Option.bind (isManagementNetwork n) (\<lambda>m. if m then Some ''management'' else
     Option.bind (isCorporateNetwork n) (\<lambda>c. if c then Some ''corporate'' else Some ''unknown''))))))"

section \<open>Conditions\<close>

fun walk :: "json \<Rightarrow> string list \<Rightarrow> json" where
  "walk v [] = v"
| "walk v (p # ps) = (case js_member v p of None \<Rightarrow> JUndef | Some w \<Rightarrow> walk w ps)"

definition getFieldValue :: "json \<Rightarrow> string \<Rightarrow> json" where
  "getFieldValue v path = walk v (split_on CHR ''.'' path)"

definition contains_value :: "json \<Rightarrow> json \<Rightarrow> bool option" where
  "contains_value fv cv = (case fv of
     JStr s \<Rightarrow> Some (str_includes (js_to_string cv) s)
   | JArr xs \<Rightarrow> Some (js_includes xs cv)
   | _ \<Rightarrow> None)"

definition is_empty_value :: "json \<Rightarrow> bool" where
  "is_empty_value fv = (fv = JNull \<or> fv = JUndef \<or> fv = JStr [] \<or> fv = JArr [])"

definition compares :: "(js_num \<Rightarrow> js_num \<Rightarrow> bool) \<Rightarrow> json \<Rightarrow> json \<Rightarrow> bool" where
  "compares le fv cv = (case fv of JNum q \<Rightarrow> le (Fin q) (js_to_number cv) | _ \<Rightarrow> False)"

definition range_size :: "string \<Rightarrow> js_num" where
  "range_size s = (let ns = map js_number (split_on CHR ''-'' s) in js_minus (ns ! 1) (ns ! 0))"

definition field_check :: "regex \<Rightarrow> string \<Rightarrow> json \<Rightarrow> json \<Rightarrow> string option \<Rightarrow> json \<Rightarrow> bool" where
  "field_check re p fv cv rf ctx =
     (if p = ''equals'' then strict_eq fv cv
      else if p = ''not_equals'' then \<not> strict_eq fv cv
      else if p = ''contains'' then dflt False (contains_value fv cv)
      else if p = ''not_contains'' then (case contains_value fv cv of Some b \<Rightarrow> \<not> b | None \<Rightarrow> True)
      else if p = ''matches'' then (case fv of JStr s \<Rightarrow> re_holds (re False (js_to_string cv) s) | _ \<Rightarrow> False)
      else if p = ''matches_i'' then (case fv of JStr s \<Rightarrow> re_holds (re True (js_to_string cv) s) | _ \<Rightarrow> False)
      else if p = ''in'' then (case cv of JArr xs \<Rightarrow> js_includes xs fv | _ \<Rightarrow> False)
      else if p = ''not_in'' then (case cv of JArr xs \<Rightarrow> \<not> js_includes xs fv | _ \<Rightarrow> True)
      else if p = ''gt'' then compares (\<lambda>a b. js_lt b a) fv cv
      else if p = ''lt'' then compares js_lt fv cv
      else if p = ''gte'' then compares (\<lambda>a b. js_le b a) fv cv
      else if p = ''lte'' then compares js_le fv cv
      else if p = ''empty'' then is_empty_value fv
      else if p = ''not_empty'' then \<not> is_empty_value fv
      else if p = ''empty_array'' then (case fv of JArr xs \<Rightarrow> xs = [] | _ \<Rightarrow> True)
      else if p = ''in_port_list'' then
        (case cv of JArr xs \<Rightarrow>
            (case js_parse_int (js_to_string fv) of None \<Rightarrow> False | Some i \<Rightarrow> js_includes xs (js_int i))
          | _ \<Rightarrow> False)
      else if p = ''port_range_exceeds'' then
        (case fv of JStr s \<Rightarrow> CHR ''-'' \<in> set s \<and> js_lt (js_to_number cv) (range_size s) | _ \<Rightarrow> False)
      else if p = ''equals_ref'' then
        truthy rf \<and> strict_eq fv (if json_truthy ctx then getFieldValue ctx (the rf) else JUndef)
      else False)"

fun evaluateCondition :: "regex \<Rightarrow> cond \<Rightarrow> json \<Rightarrow> json \<Rightarrow> bool" where
  "evaluateCondition re (Cond f p cv rf opr checks check) item ctx =
     (if truthy opr then
        (if opr = Some ''AND'' then
           (case checks of None \<Rightarrow> False | Some cs \<Rightarrow> list_all (\<lambda>c. evaluateCondition re c item ctx) cs)
         else if opr = Some ''OR'' then
           (case checks of None \<Rightarrow> False | Some cs \<Rightarrow> list_ex (\<lambda>c. evaluateCondition re c item ctx) cs)
         else if opr = Some ''NOT'' then
           (case check of None \<Rightarrow> False | Some c \<Rightarrow> \<not> evaluateCondition re c item ctx)
         else False)
      else if \<not> truthy f \<or> \<not> truthy p then False
      else field_check re (the p) (getFieldValue item (the f)) cv rf ctx)"

section \<open>The items of a target\<close>

definition resolveNetworkName :: "unifi_config \<Rightarrow> json \<Rightarrow> json" where
  "resolveNetworkName cfg i =
     (if \<not> json_truthy i then JStr []
      else (case List.find (\<lambda>n. strict_eq (prop_of n ''_id'') i) (uc_networks cfg) of
              None \<Rightarrow> i
            | Some n \<Rightarrow> json_or (prop_of n ''name'') i))"

definition acl_side :: "unifi_config \<Rightarrow> json \<Rightarrow> string option" where
  "acl_side cfg side =
     (let ips = opt_member side ''ips_or_subnets''; ids = opt_member side ''network_ids'' in
      if json_truthy (opt_member ips ''length'') then
        (case ips of JArr xs \<Rightarrow> Some (js_join '', '' xs) | _ \<Rightarrow> None)
      else if json_truthy (opt_member ids ''length'') then
        (case ids of JArr xs \<Rightarrow> Some (js_join '', '' (map (resolveNetworkName cfg) xs)) | _ \<Rightarrow> None)
      else Some ''Any'')"

definition acl_item :: "unifi_config \<Rightarrow> json \<Rightarrow> json option" where
  "acl_item cfg rule =
     (case (acl_side cfg (prop_of rule ''traffic_source''), acl_side cfg (prop_of rule ''traffic_destination'')) of
        (Some s, Some d) \<Rightarrow> Some (set_prop ''dest_desc'' (JStr d) (set_prop ''source_desc'' (JStr s) rule))
      | _ \<Rightarrow> None)"

definition isolation_item :: "unifi_config \<Rightarrow> json \<Rightarrow> json option" where
  "isolation_item cfg entry =
     (case json_or (prop_of entry ''destination_networks'') (JArr []) of
        JArr xs \<Rightarrow> Some (set_prop ''destination_networks_names'' (JStr (js_join '', '' (map (resolveNetworkName cfg) xs)))
          (set_prop ''source_network_name'' (resolveNetworkName cfg (prop_of entry ''source_network'')) entry))
      | _ \<Rightarrow> None)"

definition device_isolation_item :: "unifi_config \<Rightarrow> json \<Rightarrow> json" where
  "device_isolation_item cfg i = JObj [(''networkId'', i), (''network_name'', resolveNetworkName cfg i)]"

definition target_items :: "unifi_config \<Rightarrow> string \<Rightarrow> json list option" where
  "target_items cfg t =
     (if t = ''firewallRules'' then Some (uc_firewallRules cfg)
      else if t = ''networks'' then Some (uc_networks cfg)
      else if t = ''wlans'' then Some (uc_wlans cfg)
      else if t = ''portForwards'' then Some (uc_portForwards cfg)
      else if t = ''settings'' then Some (if json_truthy (uc_settings cfg) then [uc_settings cfg] else [])
      else if t = ''firewallPolicies'' then Some (uc_firewallPolicies cfg)
      else if t = ''aclRules'' then map_m (acl_item cfg) (uc_aclRules cfg)
      else if t = ''l3AclIsolation'' then map_m (isolation_item cfg) (uc_l3AclIsolation cfg)
      else if t = ''deviceIsolationNetworks'' then
        Some (map (device_isolation_item cfg) (uc_deviceIsolationNetworks cfg))
      else if t = ''clients'' then Some (uc_clients cfg)
      else if t = ''devices'' then Some (uc_devices cfg)
      else if t = ''vpnServers'' then Some (uc_vpnServers cfg)
      else if t = ''firewallZones'' then Some (uc_firewallZones cfg)
      else Some [])"

text \<open>\<open>typeof value === 'object' && value !== null && 'op' in value\<close>, and the condition made of it.\<close>

definition op_in :: "json \<Rightarrow> bool" where
  "op_in v = (case v of JObj kvs \<Rightarrow> ''op'' \<in> set (om_keys kvs) | _ \<Rightarrow> False)"

definition filter_condition :: "string \<Rightarrow> json \<Rightarrow> cond" where
  "filter_condition k v =
     Cond (Some k) (parse_str (prop_of v ''op'')) (prop_of v ''value'') None None None None"

definition field_accepts :: "regex \<Rightarrow> json \<Rightarrow> string \<times> json \<Rightarrow> bool" where
  "field_accepts re item kv =
     (if op_in (snd kv) then evaluateCondition re (filter_condition (fst kv) (snd kv)) item JUndef
      else strict_eq (prop_of item (fst kv)) (snd kv))"

definition filter_key :: "regex \<Rightarrow> string \<Rightarrow> json \<Rightarrow> string \<times> json \<Rightarrow> bool option" where
  "filter_key re target item kv =
     (if fst kv = ''network_type'' then
        (if target = ''networks'' then
           map_option (\<lambda>t. field_accepts re (JObj [(''network_type'', JStr t)]) kv) (getNetworkType item)
         else Some True)
      else if fst kv = ''name_pattern'' then
        map_option (\<lambda>name. re_holds (re True (js_to_string (snd kv)) name)) (name_lower item)
      else Some (field_accepts re item kv))"

fun passes_filter :: "regex \<Rightarrow> string \<Rightarrow> obj \<Rightarrow> json \<Rightarrow> bool option" where
  "passes_filter re target [] item = Some True"
| "passes_filter re target (kv # f) item =
     (case filter_key re target item kv of
        Some True \<Rightarrow> passes_filter re target f item
      | r \<Rightarrow> r)"

definition getTargetItems :: "regex \<Rightarrow> unifi_config \<Rightarrow> string \<Rightarrow> obj option \<Rightarrow> json list option" where
  "getTargetItems re cfg target flt =
     (case target_items cfg target of
        None \<Rightarrow> None
      | Some items \<Rightarrow> (case flt of None \<Rightarrow> Some items | Some f \<Rightarrow> filter_m (passes_filter re target f) items))"

section \<open>Templates\<close>

text \<open>The expression \<open>\{\{(\w+)\}\}\<close> at the start of a text: its group and what follows the match.\<close>

definition word_char :: "char \<Rightarrow> bool" where
  "word_char c = (is_digit c \<or> c = CHR ''_'' \<or>
     (let n = (of_char (lower_char c) :: nat) in 97 \<le> n \<and> n \<le> 122))"

definition placeholder :: "string \<Rightarrow> (string \<times> string) option" where
  "placeholder s =
     (let r = drop 2 s; k = takeWhile word_char r; t = dropWhile word_char r in
      if starts_with ''{{'' s \<and> k \<noteq> [] \<and> starts_with ''}}'' t then Some (k, drop 2 t) else None)"

lemma placeholder_shorter: "placeholder s = Some (k, r) \<Longrightarrow> length r < length s"
proof (cases s)
  case (Cons c s')
  assume a: "placeholder s = Some (k, r)"
  have "length (dropWhile word_char (drop 2 s)) \<le> length (drop 2 s)" by (rule length_dropWhile_le)
  with a Cons show ?thesis by (auto simp: placeholder_def Let_def split: if_splits)
qed (simp add: placeholder_def starts_with_def Let_def)

function replace_placeholders :: "(string \<Rightarrow> string option) \<Rightarrow> string \<Rightarrow> string" where
  "replace_placeholders look [] = []"
| "replace_placeholders look (c # s) =
     (case placeholder (c # s) of
        None \<Rightarrow> c # replace_placeholders look s
      | Some kr \<Rightarrow> dflt (''{{'' @ fst kr @ ''}}'') (look (fst kr)) @ replace_placeholders look (snd kr))"
  by pat_completeness auto
termination
  by (relation "measure (length \<circ> snd)") (auto dest!: placeholder_shorter)

definition template_value :: "json \<Rightarrow> json \<Rightarrow> string \<Rightarrow> string option" where
  "template_value item ctx key =
     (if prop_of item key \<noteq> JUndef then Some (js_to_string (prop_of item key))
      else if json_truthy ctx \<and> prop_of ctx key \<noteq> JUndef then Some (js_to_string (prop_of ctx key))
      else None)"

definition interpolateTemplate :: "string \<Rightarrow> json \<Rightarrow> json \<Rightarrow> string" where
  "interpolateTemplate template item ctx = replace_placeholders (template_value item ctx) template"

definition optional_text :: "string option \<Rightarrow> json \<Rightarrow> json \<Rightarrow> string option" where
  "optional_text t item ctx = (if truthy t then Some (interpolateTemplate (the t) item ctx) else None)"

definition output_for :: "rule_output \<Rightarrow> json \<Rightarrow> json \<Rightarrow> check_result" where
  "output_for out item ctx =
     \<lparr>cr_found = True,
      cr_resource = Some (interpolateTemplate (out_resource out) item ctx),
      cr_details = Some (interpolateTemplate (out_details out) item ctx),
      cr_current = optional_text (out_current out) item ctx,
      cr_expected = optional_text (out_expected out) item ctx\<rparr>"

section \<open>References between networks\<close>

text \<open>
  \<open>find_corporate_network\<close>: the first corporate network with a DNS server.  \<open>None\<close> is an exception,
  \<open>Some None\<close> that there is no such network, and then the rule reports nothing.
\<close>

definition corporate_context :: "unifi_config \<Rightarrow> obj option option" where
  "corporate_context cfg =
     map_option (map_option (\<lambda>n. [(''corporate_dns'', prop_of n ''dhcpd_dns_1''),
         (''corporate_network_id'', prop_of n ''_id''), (''corporate_network_name'', prop_of n ''name'')]))
       (find_m (\<lambda>n. map_option (\<lambda>c. c \<and> json_truthy (prop_of n ''dhcpd_dns_1'')) (isCorporateNetwork n))
         (uc_networks cfg))"

definition is_trusted :: "regex \<Rightarrow> string option \<Rightarrow> json \<Rightarrow> bool option" where
  "is_trusted re pat n =
     (case name_lower n of
        None \<Rightarrow> None
      | Some name \<Rightarrow>
          map_option (\<lambda>m. m \<or> has_purpose ''corporate'' n)
            (if truthy pat then re True (the pat) name else Some False))"

text \<open>The map \<open>l3AclBlocks\<close> as its entries; \<open>blocks\<close> is \<open>l3AclBlocks.get(source)?.has(dest)\<close>.\<close>

definition l3_entries :: "unifi_config \<Rightarrow> (json \<times> json list) list option" where
  "l3_entries cfg = map_m (\<lambda>e. map_option (Pair (prop_of e ''source_network''))
       (js_iterate (json_or (prop_of e ''destination_networks'') (JArr [])))) (uc_l3AclIsolation cfg)"

definition blocks :: "(json \<times> json list) list \<Rightarrow> json \<Rightarrow> json \<Rightarrow> bool" where
  "blocks entries source dest = list_ex (\<lambda>e. strict_eq (fst e) source \<and> js_includes (snd e) dest) entries"

definition missing_blocks :: "(json \<times> json list) list \<Rightarrow> json list \<Rightarrow> json \<Rightarrow> json list" where
  "missing_blocks entries trusted item =
     filter (\<lambda>t. \<not> blocks entries (prop_of item ''_id'') (prop_of t ''_id'')) trusted"

definition annotate :: "(json \<times> json list) list \<Rightarrow> json list \<Rightarrow> json \<Rightarrow> json" where
  "annotate entries trusted item =
     (let missing = missing_blocks entries trusted item in
      set_prop ''has_l3_acl_blocks'' (JBool (trusted = [] \<or> missing = []))
        (set_prop ''missing_l3_acl_blocks'' (JArr (map (\<lambda>m. prop_of m ''name'') missing)) item))"

section \<open>Executing a rule\<close>

text \<open>\<open>end - start + 1\<close>.\<close>

fun js_plus_one :: "js_num \<Rightarrow> js_num" where
  "js_plus_one (Fin q) = Fin (q + 1)"
| "js_plus_one n = n"

text \<open>The context of the templates; of a number that is not finite its text is kept, which is all that is read.\<close>

definition item_context :: "security_rule \<Rightarrow> obj \<Rightarrow> json \<Rightarrow> obj option" where
  "item_context rule rctx item =
     (let port = prop_of item ''dst_port'';
          ctx = (case sr_sensitive_ports rule of
                   Some ports \<Rightarrow> if json_truthy port
                     then om_set ''port_service'' (JStr (str_dflt (om_get ports (js_to_string port)) ''Unknown'')) rctx
                     else rctx
                 | None \<Rightarrow> rctx)
      in if \<not> json_truthy port then Some ctx
         else (case port of
             JStr s \<Rightarrow>
               if CHR ''-'' \<in> set s then Some (om_set ''port_range_size''
                   (case js_plus_one (range_size s) of Fin q \<Rightarrow> JNum q | n \<Rightarrow> JStr (show_js_num n)) ctx)
               else Some ctx
           | JArr xs \<Rightarrow> if js_includes xs (JStr ''-'') then None else Some ctx
           | _ \<Rightarrow> None))"

definition item_finding :: "regex \<Rightarrow> security_rule \<Rightarrow> obj \<Rightarrow> json \<Rightarrow> check_result option option" where
  "item_finding re rule rctx item =
     (case rd_condition (sr_detection rule) of
        None \<Rightarrow> None
      | Some c \<Rightarrow>
          if evaluateCondition re c item (JObj rctx)
          then map_option (\<lambda>ctx. Some (output_for (rd_output (sr_detection rule)) item (JObj ctx)))
                 (item_context rule rctx item)
          else Some None)"

definition aggregate_accepts :: "regex \<Rightarrow> aggregate_filter \<Rightarrow> json \<Rightarrow> bool" where
  "aggregate_accepts re f item = (case f of
     Operator_Filter c \<Rightarrow> evaluateCondition re c item JUndef
   | Field_Filter kvs \<Rightarrow> list_all (field_accepts re item) kvs)"

definition aggregate_value :: "string \<Rightarrow> json list \<Rightarrow> json option" where
  "aggregate_value a items =
     (if a = ''count'' \<or> a = ''count_where'' then Some (JNum (of_nat (length items)))
      else if a = ''exists_where'' then Some (JBool (items \<noteq> []))
      else None)"

definition additional_passes :: "regex \<Rightarrow> unifi_config \<Rightarrow> additional_condition \<Rightarrow> bool option" where
  "additional_passes re cfg ac =
     map_option (\<lambda>items.
       let r = (if ac_aggregate ac = ''count'' then of_nat (length items) else 0); v = ac_value ac; p = ac_op ac in
       if p = ''gt'' then r > v
       else if p = ''lt'' then r < v
       else if p = ''gte'' then r \<ge> v
       else if p = ''lte'' then r \<le> v
       else if p = ''equals'' then r = v
       else False) (getTargetItems re cfg (ac_target ac) None)"

definition aggregate_met :: "cond \<Rightarrow> json \<Rightarrow> bool" where
  "aggregate_met c v =
     (if c_op c = Some ''equals'' then strict_eq v (c_value c)
      else if c_op c = Some ''lt'' then js_lt (js_to_number v) (js_to_number (c_value c))
      else if c_op c = Some ''gt'' then js_lt (js_to_number (c_value c)) (js_to_number v)
      else False)"

definition executeAggregateRule :: "regex \<Rightarrow> security_rule \<Rightarrow> unifi_config \<Rightarrow> check_result option option" where
  "executeAggregateRule re rule cfg =
     (let d = sr_detection rule in
      Option.bind (getTargetItems re cfg (rd_target d) None) (\<lambda>all.
        let items = (case rd_aggregate_filter d of None \<Rightarrow> all | Some f \<Rightarrow> filter (aggregate_accepts re f) all) in
        case aggregate_value (dflt [] (rd_aggregate d)) items of
          None \<Rightarrow> Some None
        | Some v \<Rightarrow>
            Option.bind (case rd_additional d of None \<Rightarrow> Some True | Some ac \<Rightarrow> additional_passes re cfg ac) (\<lambda>passes.
              if \<not> passes then Some None
              else Option.bind (rd_condition d) (\<lambda>c.
                if aggregate_met c v
                then Some (Some (output_for (rd_output d) (JObj []) (JObj [(''aggregate_result'', v)])))
                else Some None))))"

text \<open>
  Items, configuration and context of a standard rule: \<open>None\<close> when the rule ends without looking at the
  items, because something threw or there is no corporate network.
\<close>

definition prepare_rule ::
    "regex \<Rightarrow> rule_detection \<Rightarrow> unifi_config \<Rightarrow> (json list \<times> obj \<times> unifi_config) option" where
  "prepare_rule re d cfg =
     Option.bind (getTargetItems re cfg (rd_target d) (rd_filter d)) (\<lambda>items.
       case rd_cross d of
         None \<Rightarrow> Some (items, [], cfg)
       | Some x \<Rightarrow>
           if xr_type x = ''find_corporate_network'' then
             (case corporate_context cfg of Some (Some ctx) \<Rightarrow> Some (items, ctx, cfg) | _ \<Rightarrow> None)
           else if xr_type x = ''l3_acl_coverage'' \<and> rd_target d = ''networks'' then
             Option.bind (filter_m (is_trusted re (xr_pattern x)) (uc_networks cfg)) (\<lambda>trusted.
               Option.bind (l3_entries cfg) (\<lambda>entries.
                 let ann = annotate entries trusted;
                     chosen = (\<lambda>n. case rd_filter d of None \<Rightarrow> True | Some f \<Rightarrow> passes_filter re ''networks'' f n = Some True)
                 in Some (map ann items, [],
                      cfg\<lparr>uc_networks := map (\<lambda>n. if chosen n then ann n else n) (uc_networks cfg)\<rparr>)))
           else Some (items, [], cfg))"

definition rule_findings :: "regex \<Rightarrow> security_rule \<Rightarrow> unifi_config \<Rightarrow> unifi_config \<times> check_result list" where
  "rule_findings re rule cfg =
     (let d = sr_detection rule in
      if truthy (rd_aggregate d) then
        (cfg, (case executeAggregateRule re rule cfg of Some (Some f) \<Rightarrow> [f] | _ \<Rightarrow> []))
      else if rd_report_mode d = Some ''exists'' \<or> rd_report_mode d = Some ''each'' then
        (cfg, (case getTargetItems re cfg (rd_target d) (rd_filter d) of
                 None \<Rightarrow> []
               | Some items \<Rightarrow> map (\<lambda>item. output_for (rd_output d) item JUndef) items))
      else (case prepare_rule re d cfg of
              None \<Rightarrow> (cfg, [])
            | Some (items, ctx, cfg') \<Rightarrow> (cfg', push_until (item_finding re rule ctx) items)))"

definition executeRule :: "regex \<Rightarrow> security_rule \<Rightarrow> unifi_config \<Rightarrow> unifi_config \<times> rule_execution" where
  "executeRule re rule cfg =
     (case rule_findings re rule cfg of (cfg', fs) \<Rightarrow>
       (cfg', \<lparr>rx_ruleId = sr_id rule, rx_ruleName = sr_name rule, rx_category = sr_category rule,
          rx_severity = sr_severity rule, rx_sourceId = str_dflt (sr_sourceId rule) ''unknown'',
          rx_findings = fs\<rparr>))"

fun executeAllRules :: "regex \<Rightarrow> security_rule list \<Rightarrow> unifi_config \<Rightarrow> unifi_config \<times> rule_execution list" where
  "executeAllRules re [] cfg = (cfg, [])"
| "executeAllRules re (r # rs) cfg =
     (case executeRule re r cfg of (cfg1, x) \<Rightarrow>
        (case executeAllRules re rs cfg1 of (cfg2, xs) \<Rightarrow> (cfg2, x # xs)))"

end
