(* ===== verification/Rule_Order.thy ===== *)
theory Rule_Order
  imports Rule_Engine
begin

text \<open>
  The engine writes two fields into the networks it is given, and later rules run on the changed
  configuration.  This theory shows when that cannot be observed: two values agree off a set of keys, what
  a rule reads is a set of keys, and a rule that reads none of the keys two configurations may differ in
  reports the same on both.
\<close>

section \<open>Agreement off a set of keys\<close>

definition agree :: "string set \<Rightarrow> json \<Rightarrow> json \<Rightarrow> bool" where
  "agree X a b \<longleftrightarrow> a = b \<or> (is_object a \<and> is_object b \<and> (\<forall>k. k \<notin> X \<longrightarrow> prop_of a k = prop_of b k))"

definition agree_config :: "string set \<Rightarrow> unifi_config \<Rightarrow> unifi_config \<Rightarrow> bool" where
  "agree_config X a b \<longleftrightarrow>
     list_all2 (agree X) (uc_networks a) (uc_networks b) \<and> b = a\<lparr>uc_networks := uc_networks b\<rparr>"

definition note_keys :: "string set" where
  "note_keys = {''missing_l3_acl_blocks'', ''has_l3_acl_blocks''}"

lemma agree_refl [simp]: "agree X a a"
  by (simp add: agree_def)

lemma agree_trans: "agree X a b \<Longrightarrow> agree X b c \<Longrightarrow> agree X a c"
  by (auto simp: agree_def)

lemma agree_prop: "agree X a b \<Longrightarrow> k \<notin> X \<Longrightarrow> prop_of a k = prop_of b k"
  by (auto simp: agree_def)

lemma agree_empty_mono: "agree {} a b \<Longrightarrow> agree X a b"
  by (auto simp: agree_def)

lemma agree_member: "agree X a b \<Longrightarrow> k \<notin> X \<Longrightarrow> js_member a k = js_member b k"
  by (auto simp: agree_def js_member_object)

lemma list_all2_agree_refl [simp]: "list_all2 (agree X) xs xs"
  by (simp add: list_all2_same)

lemma agree_config_refl [simp]: "agree_config X a a"
  by (simp add: agree_config_def)

lemma agree_configE:
  assumes "agree_config X a b"
  obtains ns where "list_all2 (agree X) (uc_networks a) ns" "b = a\<lparr>uc_networks := ns\<rparr>"
  using assms unfolding agree_config_def by blast

lemma agree_config_update [simp]:
  "agree_config X a (a\<lparr>uc_networks := ns\<rparr>) \<longleftrightarrow> list_all2 (agree X) (uc_networks a) ns"
  by (simp add: agree_config_def)

lemma agree_config_trans:
  assumes "agree_config X a b" "agree_config X b c"
  shows "agree_config X a c"
proof -
  obtain ns where b: "list_all2 (agree X) (uc_networks a) ns" "b = a\<lparr>uc_networks := ns\<rparr>"
    using assms(1) by (rule agree_configE)
  obtain ms where c: "list_all2 (agree X) (uc_networks b) ms" "c = b\<lparr>uc_networks := ms\<rparr>"
    using assms(2) by (rule agree_configE)
  have "list_all2 (agree X) (uc_networks a) ms"
    by (rule list_all2_trans [OF agree_trans b(1)]) (use b c in auto)
  with b c show ?thesis by simp
qed

lemma agree_config_fields:
  assumes "agree_config X a b"
  shows "uc_firewallRules b = uc_firewallRules a" "uc_wlans b = uc_wlans a" "uc_portForwards b = uc_portForwards a"
    "uc_settings b = uc_settings a" "uc_firewallPolicies b = uc_firewallPolicies a" "uc_aclRules b = uc_aclRules a"
    "uc_l3AclIsolation b = uc_l3AclIsolation a" "uc_clients b = uc_clients a" "uc_devices b = uc_devices a"
    "uc_deviceIsolationNetworks b = uc_deviceIsolationNetworks a" "uc_vpnServers b = uc_vpnServers a"
    "uc_firewallZones b = uc_firewallZones a"
  using assms by (auto elim!: agree_configE)

section \<open>What a rule reads\<close>

definition path_root :: "string \<Rightarrow> string" where
  "path_root p = hd (split_on CHR ''.'' p)"

fun cond_roots :: "cond \<Rightarrow> string set" where
  "cond_roots (Cond f p v rf opr checks check) =
     (case f of None \<Rightarrow> {} | Some k \<Rightarrow> {path_root k})
     \<union> (case checks of None \<Rightarrow> {} | Some cs \<Rightarrow> (\<Union>c \<in> set cs. cond_roots c))
     \<union> (case check of None \<Rightarrow> {} | Some c \<Rightarrow> cond_roots c)"

definition filter_roots :: "obj \<Rightarrow> string set" where
  "filter_roots kvs = (\<lambda>kv. path_root (fst kv)) ` set kvs"

definition aggregate_roots :: "aggregate_filter \<Rightarrow> string set" where
  "aggregate_roots f = (case f of Operator_Filter c \<Rightarrow> cond_roots c | Field_Filter kvs \<Rightarrow> filter_roots kvs)"

function template_keys :: "string \<Rightarrow> string set" where
  "template_keys [] = {}"
| "template_keys (c # s) =
     (case placeholder (c # s) of None \<Rightarrow> template_keys s | Some kr \<Rightarrow> insert (fst kr) (template_keys (snd kr)))"
  by pat_completeness auto
termination by (relation "measure length") (auto dest!: placeholder_shorter)

definition text_keys :: "string option \<Rightarrow> string set" where
  "text_keys t = (case t of None \<Rightarrow> {} | Some s \<Rightarrow> template_keys s)"

definition output_keys :: "rule_output \<Rightarrow> string set" where
  "output_keys out = template_keys (out_resource out) \<union> template_keys (out_details out)
     \<union> text_keys (out_current out) \<union> text_keys (out_expected out)"

definition writes_notes :: "rule_detection \<Rightarrow> bool" where
  "writes_notes d \<longleftrightarrow> \<not> truthy (rd_aggregate d) \<and> rd_report_mode d \<notin> {Some ''exists'', Some ''each''}
     \<and> rd_target d = ''networks'' \<and> (\<exists>x. rd_cross d = Some x \<and> xr_type x = ''l3_acl_coverage'')"

text \<open>
  The fields of the items a rule depends on; a rule that writes the two fields before it looks at the
  items may read them.
\<close>

definition rule_reads :: "rule_detection \<Rightarrow> string set" where
  "rule_reads d = (case rd_filter d of None \<Rightarrow> {} | Some f \<Rightarrow> filter_roots f)
     \<union> (case rd_aggregate_filter d of None \<Rightarrow> {} | Some f \<Rightarrow> aggregate_roots f)
     \<union> (if writes_notes d then {}
        else (case rd_condition d of None \<Rightarrow> {} | Some c \<Rightarrow> cond_roots c) \<union> output_keys (rd_output d))"

lemma path_root_no_dot: "CHR ''.'' \<notin> set k \<Longrightarrow> path_root k = k"
  by (simp add: path_root_def split_on_no_sep)

lemma path_root_notes: "path_root k \<notin> note_keys \<Longrightarrow> k \<notin> note_keys"
  by (auto simp: note_keys_def path_root_def split_on_no_sep)

section \<open>Reading agreeing values\<close>

locale agreeing =
  fixes X :: "string set"
  assumes only_notes: "X \<subseteq> note_keys"
begin

lemma known_keys [simp]:
  "''name'' \<notin> X" "''purpose'' \<notin> X" "''_id'' \<notin> X" "''dhcpd_dns_1'' \<notin> X" "''dst_port'' \<notin> X"
  using only_notes by (auto simp: note_keys_def)

lemma root_key: "path_root k \<notin> X \<Longrightarrow> k \<notin> X"
  using only_notes by (auto simp: note_keys_def path_root_def split_on_no_sep)

lemma field_value: "agree X a b \<Longrightarrow> path_root p \<notin> X \<Longrightarrow> getFieldValue a p = getFieldValue b p"
  by (cases "split_on CHR ''.'' p") (auto simp: getFieldValue_def path_root_def agree_member)

lemma condition:
  "agree X a b \<Longrightarrow> cond_roots c \<inter> X = {} \<Longrightarrow> evaluateCondition re c a ctx = evaluateCondition re c b ctx"
proof (induction re c a ctx rule: evaluateCondition.induct)
  case (1 re f p cv rf opr checks check item ctx)
  have f: "truthy f \<Longrightarrow> getFieldValue item (the f) = getFieldValue b (the f)"
    using field_value [OF "1.prems"(1)] "1.prems"(2) by (cases f) auto
  have all: "checks = Some cs \<Longrightarrow> x \<in> set cs \<Longrightarrow> truthy opr \<Longrightarrow> opr = Some ''AND'' \<Longrightarrow>
      evaluateCondition re x item ctx = evaluateCondition re x b ctx" for cs x
    by (rule "1.IH"(1)) (use 1 in auto)
  have ex: "checks = Some cs \<Longrightarrow> x \<in> set cs \<Longrightarrow> truthy opr \<Longrightarrow> opr = Some ''OR'' \<Longrightarrow>
      evaluateCondition re x item ctx = evaluateCondition re x b ctx" for cs x
    by (rule "1.IH"(2)) (use 1 in auto)
  have no: "check = Some x \<Longrightarrow> truthy opr \<Longrightarrow> opr = Some ''NOT'' \<Longrightarrow>
      evaluateCondition re x item ctx = evaluateCondition re x b ctx" for x
    by (rule "1.IH"(3)) (use 1 in auto)
  show ?case
    using f all ex no by (auto simp: list_all_iff list_ex_iff split: option.splits)
qed

lemma names:
  assumes "agree X a b"
  shows "name_lower a = name_lower b" "has_purpose p a = has_purpose p b"
  using agree_prop [OF assms, of "''name''"] agree_prop [OF assms, of "''purpose''"]
  by (simp_all add: name_lower_def has_purpose_def)

lemma kinds:
  assumes "agree X a b"
  shows "getNetworkType a = getNetworkType b" "isCorporateNetwork a = isCorporateNetwork b"
proof -
  have k: "isIoTNetwork a = isIoTNetwork b" "isGuestNetwork a = isGuestNetwork b" "isSecurityNetwork a = isSecurityNetwork b"
    "isWorkNetwork a = isWorkNetwork b" "isManagementNetwork a = isManagementNetwork b"
    by (simp_all add: isIoTNetwork_def isGuestNetwork_def isSecurityNetwork_def isWorkNetwork_def
        isManagementNetwork_def names [OF assms])
  then show c: "isCorporateNetwork a = isCorporateNetwork b"
    by (simp add: isCorporateNetwork_def names [OF assms])
  with k show "getNetworkType a = getNetworkType b" by (simp only: getNetworkType_def)
qed

lemma accepts:
  assumes "agree X a b" "path_root (fst kv) \<notin> X"
  shows "field_accepts re a kv = field_accepts re b kv"
proof -
  have "evaluateCondition re (filter_condition (fst kv) (snd kv)) a JUndef
      = evaluateCondition re (filter_condition (fst kv) (snd kv)) b JUndef"
    by (rule condition [OF assms(1)]) (simp add: filter_condition_def assms(2))
  with agree_prop [OF assms(1) root_key [OF assms(2)]] show ?thesis by (simp add: field_accepts_def)
qed

lemma key: "agree X a b \<Longrightarrow> path_root (fst kv) \<notin> X \<Longrightarrow> filter_key re t a kv = filter_key re t b kv"
  using accepts names(1) kinds(1) by (simp add: filter_key_def)

lemma passes: "agree X a b \<Longrightarrow> filter_roots f \<inter> X = {} \<Longrightarrow> passes_filter re t f a = passes_filter re t f b"
proof (induction f)
  case (Cons kv f)
  then have "filter_key re t a kv = filter_key re t b kv"
    by (intro key) (auto simp: filter_roots_def)
  with Cons show ?case by (auto simp: filter_roots_def split: option.splits bool.splits)
qed simp

lemma resolve: "agree_config X a b \<Longrightarrow> resolveNetworkName a = resolveNetworkName b"
proof
  fix i
  let ?p = "\<lambda>n. strict_eq (prop_of n ''_id'') i"
  assume "agree_config X a b"
  then have "list_all2 (agree X) (uc_networks a) (uc_networks b)" by (simp add: agree_config_def)
  then have "rel_option (agree X) (List.find ?p (uc_networks a)) (List.find ?p (uc_networks b))"
    by (induction rule: list_all2_induct) (auto simp: agree_prop)
  then show "resolveNetworkName a i = resolveNetworkName b i"
    by (cases rule: option.rel_cases) (simp_all add: resolveNetworkName_def agree_prop)
qed

lemma item_forms:
  assumes "agree_config X a b"
  shows "acl_item a = acl_item b" "isolation_item a = isolation_item b"
    "device_isolation_item a = device_isolation_item b"
proof -
  have "acl_side a = acl_side b"
    by (rule ext) (simp only: acl_side_def resolve [OF assms])
  then show "acl_item a = acl_item b" by (intro ext) (simp only: acl_item_def)
  show "isolation_item a = isolation_item b" "device_isolation_item a = device_isolation_item b"
    by (rule ext, simp only: isolation_item_def device_isolation_item_def resolve [OF assms])+
qed

lemma rel_option_agree_refl [simp]: "rel_option (list_all2 (agree X)) r r"
  by (cases r) simp_all

lemma targets: "agree_config X a b \<Longrightarrow> rel_option (list_all2 (agree X)) (target_items a t) (target_items b t)"
  by (simp add: target_items_def item_forms agree_config_fields) (simp add: agree_config_def)

lemma items:
  assumes "agree_config X a b" "\<And>f. flt = Some f \<Longrightarrow> filter_roots f \<inter> X = {}"
  shows "rel_option (list_all2 (agree X)) (getTargetItems re a t flt) (getTargetItems re b t flt)"
  using targets [OF assms(1), of t]
  by (cases rule: option.rel_cases)
    (auto simp: getTargetItems_def split: option.split intro!: filter_m_list_all2 passes assms(2))

lemma template_values: "agree X a b \<Longrightarrow> k \<notin> X \<Longrightarrow> template_value a ctx k = template_value b ctx k"
  by (simp add: template_value_def agree_prop)

lemma interpolate:
  "agree X a b \<Longrightarrow> template_keys t \<inter> X = {} \<Longrightarrow> interpolateTemplate t a ctx = interpolateTemplate t b ctx"
  unfolding interpolateTemplate_def
  by (induction t rule: template_keys.induct) (auto simp: template_values split: option.splits)

lemma outputs: "agree X a b \<Longrightarrow> output_keys out \<inter> X = {} \<Longrightarrow> output_for out a ctx = output_for out b ctx"
  by (auto simp: output_for_def output_keys_def optional_text_def text_keys_def Int_Un_distrib2 interpolate
      split: option.splits)

lemma finding:
  assumes "agree X a b" "\<And>c. rd_condition (sr_detection r) = Some c \<Longrightarrow> cond_roots c \<inter> X = {}"
    "output_keys (rd_output (sr_detection r)) \<inter> X = {}"
  shows "item_finding re r ctx a = item_finding re r ctx b"
  using assms by (auto simp: item_finding_def item_context_def agree_prop condition outputs
      split: option.split cong: option.map_cong)

lemma aggregate_item:
  assumes "agree X a b" "aggregate_roots f \<inter> X = {}"
  shows "aggregate_accepts re f a = aggregate_accepts re f b"
proof (cases f)
  case (Field_Filter kvs)
  with assms(2) have "field_accepts re a kv = field_accepts re b kv" if "kv \<in> set kvs" for kv
    using that by (intro accepts [OF assms(1)]) (auto simp: aggregate_roots_def filter_roots_def)
  then show ?thesis by (simp add: Field_Filter aggregate_accepts_def list_all_iff)
qed (use assms in \<open>simp add: aggregate_accepts_def aggregate_roots_def condition\<close>)

lemma filter_all2:
  "list_all2 (agree X) xs ys \<Longrightarrow> (\<And>x y. agree X x y \<Longrightarrow> p x = p y) \<Longrightarrow> list_all2 (agree X) (filter p xs) (filter p ys)"
  by (induction rule: list_all2_induct) auto

lemma aggregate_values: "list_all2 (agree X) xs ys \<Longrightarrow> aggregate_value g xs = aggregate_value g ys"
  by (auto simp: aggregate_value_def dest: list_all2_lengthD)

lemma additional: "agree_config X a b \<Longrightarrow> additional_passes re a ac = additional_passes re b ac"
  using items [of a b None re "ac_target ac"]
  by (auto simp: additional_passes_def Let_def dest: list_all2_lengthD elim!: option.rel_cases)

lemma aggregates:
  assumes "agree_config X a b" "\<And>f. rd_aggregate_filter (sr_detection r) = Some f \<Longrightarrow> aggregate_roots f \<inter> X = {}"
  shows "executeAggregateRule re r a = executeAggregateRule re r b"
proof -
  let ?d = "sr_detection r"
  let ?items = "\<lambda>all. case rd_aggregate_filter ?d of None \<Rightarrow> all | Some f \<Rightarrow> filter (aggregate_accepts re f) all"
  have v: "aggregate_value g (?items xs) = aggregate_value g (?items ys)" if "list_all2 (agree X) xs ys" for g xs ys
  proof (rule aggregate_values)
    show "list_all2 (agree X) (?items xs) (?items ys)"
      using that assms(2) by (cases "rd_aggregate_filter ?d") (auto intro!: filter_all2 aggregate_item)
  qed
  have t: "rel_option (list_all2 (agree X)) (getTargetItems re a (rd_target ?d) None) (getTargetItems re b (rd_target ?d) None)"
    by (rule items [OF assms(1)]) simp
  have ad: "additional_passes re a = additional_passes re b"
    by (rule ext) (rule additional [OF assms(1)])
  from t show ?thesis
    unfolding executeAggregateRule_def Let_def ad
    by (cases rule: option.rel_cases) (simp_all only: bind.simps v)
qed

lemma corporate: "agree_config X a b \<Longrightarrow> corporate_context a = corporate_context b"
proof -
  let ?p = "\<lambda>n. map_option (\<lambda>c. c \<and> json_truthy (prop_of n ''dhcpd_dns_1'')) (isCorporateNetwork n)"
  assume "agree_config X a b"
  then have "rel_option (rel_option (agree X)) (find_m ?p (uc_networks a)) (find_m ?p (uc_networks b))"
    by (intro find_m_list_all2) (auto simp: agree_config_def kinds agree_prop)
  then show ?thesis
    unfolding corporate_context_def by (auto elim!: option.rel_cases simp: agree_prop)
qed

lemma trusted:
  assumes "agree_config X a b"
  shows "rel_option (list_all2 (agree X)) (filter_m (is_trusted re p) (uc_networks a)) (filter_m (is_trusted re p) (uc_networks b))"
proof (rule filter_m_list_all2)
  show "is_trusted re p x = is_trusted re p y" if "agree X x y" for x y
    unfolding is_trusted_def names(1) [OF that] names(2) [OF that] by (rule refl)
qed (use assms in \<open>simp add: agree_config_def\<close>)

lemma entries: "agree_config X a b \<Longrightarrow> l3_entries a = l3_entries b"
  by (simp add: l3_entries_def agree_config_fields)

lemma missing:
  "agree X x y \<Longrightarrow> list_all2 (agree X) ta tb \<Longrightarrow>
   list_all2 (agree X) (missing_blocks es ta x) (missing_blocks es tb y)"
  by (simp add: missing_blocks_def agree_prop filter_all2)

lemma prop_map: "list_all2 (agree X) xs ys \<Longrightarrow> k \<notin> X \<Longrightarrow> map (\<lambda>m. prop_of m k) xs = map (\<lambda>m. prop_of m k) ys"
  by (induction rule: list_all2_induct) (auto simp: agree_prop)

end

section \<open>What a rule writes\<close>

interpretation noted: agreeing note_keys by unfold_locales simp

interpretation unchanged: agreeing "{}" by unfold_locales simp

lemma annotate_object [simp]: "is_object (annotate es ts x)"
  by (simp add: annotate_def Let_def)

lemma annotate_prop:
  "k \<notin> note_keys \<Longrightarrow> prop_of (annotate es ts x) k = prop_of x k"
  "prop_of (annotate es ts x) ''has_l3_acl_blocks'' = JBool (ts = [] \<or> missing_blocks es ts x = [])"
  "prop_of (annotate es ts x) ''missing_l3_acl_blocks'' = JArr (map (\<lambda>m. prop_of m ''name'') (missing_blocks es ts x))"
  by (auto simp: annotate_def Let_def note_keys_def)

lemma annotate_writes: "is_object x \<Longrightarrow> agree note_keys x (annotate es ts x)"
  by (simp add: agree_def annotate_prop)

lemma annotate_determined:
  assumes "agree note_keys x y" "list_all2 (agree note_keys) ta tb"
  shows "agree {} (annotate es ta x) (annotate es tb y)"
proof -
  have m: "list_all2 (agree note_keys) (missing_blocks es ta x) (missing_blocks es tb y)"
    by (rule noted.missing [OF assms])
  then have e: "missing_blocks es ta x = [] \<longleftrightarrow> missing_blocks es tb y = []" "ta = [] \<longleftrightarrow> tb = []"
    using assms(2) by auto
  have "prop_of (annotate es ta x) k = prop_of (annotate es tb y) k" for k
    using noted.prop_map [OF m, of "''name''"] agree_prop [OF assms(1), of k]
    by (cases "k \<in> note_keys") (auto simp: annotate_prop e note_keys_def)
  then show ?thesis by (simp add: agree_def)
qed

definition object_networks :: "unifi_config \<Rightarrow> bool" where
  "object_networks cfg = list_all is_object (uc_networks cfg)"

lemma agree_object: "agree X x y \<Longrightarrow> is_object x \<Longrightarrow> is_object y"
  by (auto simp: agree_def)

lemma object_networks_agree: "agree_config X a b \<Longrightarrow> object_networks a \<Longrightarrow> object_networks b"
proof -
  assume "agree_config X a b" "object_networks a"
  then have "list_all2 (agree X) (uc_networks a) (uc_networks b)" "list_all is_object (uc_networks a)"
    by (simp_all add: agree_config_def object_networks_def)
  then have "list_all is_object (uc_networks b)"
    by (induction rule: list_all2_induct) (auto intro: agree_object)
  then show ?thesis by (simp add: object_networks_def)
qed

lemma list_all2_map_self: "(\<And>x. x \<in> set xs \<Longrightarrow> R x (f x)) \<Longrightarrow> list_all2 R xs (map f xs)"
  by (induction xs) auto

lemma prepare_writes:
  assumes "object_networks cfg" "prepare_rule re d cfg = Some (items, ctx, cfg')"
  shows "agree_config note_keys cfg cfg'"
proof -
  from assms(1) have o: "n \<in> set (uc_networks cfg) \<Longrightarrow> is_object n" for n
    by (simp add: object_networks_def list_all_iff)
  from assms(2) show ?thesis
    by (auto simp: prepare_rule_def Let_def annotate_writes o split: bind_splits option.splits if_splits
        intro!: list_all2_map_self)
qed

lemma rule_writes: "object_networks cfg \<Longrightarrow> agree_config note_keys cfg (fst (rule_findings re r cfg))"
  by (auto simp: rule_findings_def Let_def split: option.split prod.split intro: prepare_writes)

section \<open>The order of the rules\<close>

text \<open>
  What \<open>prepare_rule\<close> gives on agreeing configurations: items that agree everywhere for a rule that writes
  the two fields, and off the two fields for the others.
\<close>

definition same_items :: "string set \<Rightarrow> (json list \<times> obj \<times> unifi_config) option \<Rightarrow> (json list \<times> obj \<times> unifi_config) option \<Rightarrow> bool" where
  "same_items X p q = rel_option (\<lambda>u v. list_all2 (agree X) (fst u) (fst v) \<and> fst (snd u) = fst (snd v)) p q"

lemma same_items_simps [simp]:
  "same_items X None None" "same_items X (Some (xs, c, a)) (Some (ys, c', b)) \<longleftrightarrow> list_all2 (agree X) xs ys \<and> c = c'"
  by (simp_all add: same_items_def)

lemma prepare_same:
  assumes ab: "agree_config note_keys a b" and f: "\<And>f. rd_filter d = Some f \<Longrightarrow> filter_roots f \<inter> note_keys = {}"
    and w: "\<And>x. rd_cross d = Some x \<Longrightarrow> xr_type x = ''l3_acl_coverage'' \<Longrightarrow> rd_target d \<noteq> ''networks''"
  shows "same_items note_keys (prepare_rule re d a) (prepare_rule re d b)"
proof -
  have t: "rel_option (list_all2 (agree note_keys)) (getTargetItems re a (rd_target d) (rd_filter d))
      (getTargetItems re b (rd_target d) (rd_filter d))"
    by (rule noted.items [OF ab f])
  then show ?thesis
    unfolding prepare_rule_def noted.corporate [OF ab]
    using w by (cases rule: option.rel_cases) (auto split: option.split)
qed

lemma annotated_same:
  assumes "list_all2 (agree note_keys) xs ys" "list_all2 (agree note_keys) ta tb"
  shows "list_all2 (agree {}) (map (annotate es ta) xs) (map (annotate es tb) ys)"
  using assms(1) by (induction rule: list_all2_induct) (auto intro: annotate_determined assms(2))

lemma prepare_written:
  assumes ab: "agree_config note_keys a b" and f: "\<And>f. rd_filter d = Some f \<Longrightarrow> filter_roots f \<inter> note_keys = {}"
    and w: "rd_cross d = Some x" "xr_type x = ''l3_acl_coverage''" "rd_target d = ''networks''"
  shows "same_items {} (prepare_rule re d a) (prepare_rule re d b)"
proof -
  have t: "rel_option (list_all2 (agree note_keys)) (getTargetItems re a ''networks'' (rd_filter d))
      (getTargetItems re b ''networks'' (rd_filter d))"
    by (rule noted.items [OF ab f])
  have u: "rel_option (list_all2 (agree note_keys)) (filter_m (is_trusted re (xr_pattern x)) (uc_networks a))
      (filter_m (is_trusted re (xr_pattern x)) (uc_networks b))"
    by (rule noted.trusted [OF ab])
  have e: "l3_entries a = l3_entries b" by (rule noted.entries [OF ab])
  show ?thesis
    using t
  proof (cases rule: option.rel_cases)
    case None
    then show ?thesis by (simp add: prepare_rule_def w)
  next
    case (Some xs ys)
    note t = this
    from u show ?thesis
    proof (cases rule: option.rel_cases)
      case None
      then show ?thesis by (simp add: prepare_rule_def w t)
    next
      case (Some ta tb)
      then show ?thesis
        by (cases "l3_entries b") (simp_all add: prepare_rule_def w t e Let_def annotated_same)
    qed
  qed
qed

lemma pushed_same:
  assumes "same_items X p q" "\<And>x y ctx. agree X x y \<Longrightarrow> g ctx x = g ctx y"
  shows "(case p of None \<Rightarrow> [] | Some u \<Rightarrow> push_until (g (fst (snd u))) (fst u))
       = (case q of None \<Rightarrow> [] | Some u \<Rightarrow> push_until (g (fst (snd u))) (fst u))"
  using assms(1) unfolding same_items_def
  by (cases rule: option.rel_cases) (auto intro!: push_until_list_all2 [where R = "agree X"] assms(2))

lemma findings_cases:
  "snd (rule_findings re r cfg) =
     (let d = sr_detection r in
      if truthy (rd_aggregate d) then (case executeAggregateRule re r cfg of Some (Some f) \<Rightarrow> [f] | _ \<Rightarrow> [])
      else if rd_report_mode d \<in> {Some ''exists'', Some ''each''} then
        (case getTargetItems re cfg (rd_target d) (rd_filter d) of None \<Rightarrow> []
         | Some items \<Rightarrow> map (\<lambda>item. output_for (rd_output d) item JUndef) items)
      else (case prepare_rule re d cfg of None \<Rightarrow> []
            | Some u \<Rightarrow> push_until (item_finding re r (fst (snd u))) (fst u)))"
  by (simp add: rule_findings_def Let_def split: option.split prod.split)

lemma rule_frame:
  assumes ab: "agree_config note_keys a b" and r: "rule_reads (sr_detection r) \<inter> note_keys = {}"
  shows "snd (rule_findings re r a) = snd (rule_findings re r b)"
proof -
  let ?d = "sr_detection r"
  have f: "rd_filter ?d = Some f \<Longrightarrow> filter_roots f \<inter> note_keys = {}" for f
    using r by (auto simp: rule_reads_def)
  have g: "rd_aggregate_filter ?d = Some f \<Longrightarrow> aggregate_roots f \<inter> note_keys = {}" for f
    using r by (auto simp: rule_reads_def)
  have agg: "executeAggregateRule re r a = executeAggregateRule re r b"
    by (rule noted.aggregates [OF ab g])
  have out: "\<not> writes_notes ?d \<Longrightarrow> output_keys (rd_output ?d) \<inter> note_keys = {}"
    using r by (auto simp: rule_reads_def)
  have con: "\<not> writes_notes ?d \<Longrightarrow> rd_condition ?d = Some c \<Longrightarrow> cond_roots c \<inter> note_keys = {}" for c
    using r by (auto simp: rule_reads_def)
  have rep: "(case getTargetItems re a (rd_target ?d) (rd_filter ?d) of None \<Rightarrow> []
         | Some items \<Rightarrow> map (\<lambda>item. output_for (rd_output ?d) item JUndef) items)
       = (case getTargetItems re b (rd_target ?d) (rd_filter ?d) of None \<Rightarrow> []
         | Some items \<Rightarrow> map (\<lambda>item. output_for (rd_output ?d) item JUndef) items)" if "\<not> writes_notes ?d"
  proof -
    have t: "rel_option (list_all2 (agree note_keys)) (getTargetItems re a (rd_target ?d) (rd_filter ?d))
        (getTargetItems re b (rd_target ?d) (rd_filter ?d))"
      by (rule noted.items [OF ab f])
    have m: "map (\<lambda>i. output_for (rd_output ?d) i JUndef) xs = map (\<lambda>i. output_for (rd_output ?d) i JUndef) ys"
      if "list_all2 (agree note_keys) xs ys" for xs ys
      using that by (induction rule: list_all2_induct) (auto simp: noted.outputs [OF _ out [OF \<open>\<not> writes_notes ?d\<close>]])
    from t show ?thesis by (cases rule: option.rel_cases) (simp_all add: m)
  qed
  show ?thesis
  proof (cases "writes_notes ?d")
    case True
    then obtain x where x: "rd_cross ?d = Some x" "xr_type x = ''l3_acl_coverage''" "rd_target ?d = ''networks''"
      by (auto simp: writes_notes_def)
    have "same_items {} (prepare_rule re ?d a) (prepare_rule re ?d b)" by (rule prepare_written [OF ab f x])
    from pushed_same [OF this, of "item_finding re r"] True show ?thesis
      by (simp add: findings_cases Let_def writes_notes_def unchanged.finding)
  next
    case False
    show ?thesis
    proof (cases "truthy (rd_aggregate ?d) \<or> rd_report_mode ?d \<in> {Some ''exists'', Some ''each''}")
      case True
      then show ?thesis using agg rep [OF False] by (auto simp: findings_cases Let_def)
    next
      case std: False
      with False have w: "rd_cross ?d = Some x \<Longrightarrow> xr_type x = ''l3_acl_coverage'' \<Longrightarrow> rd_target ?d \<noteq> ''networks''" for x
        by (auto simp: writes_notes_def)
      have "same_items note_keys (prepare_rule re ?d a) (prepare_rule re ?d b)" by (rule prepare_same [OF ab f w])
      from pushed_same [OF this, of "item_finding re r"] std show ?thesis
        by (simp add: findings_cases Let_def noted.finding con [OF False] out [OF False])
    qed
  qed
qed

lemma executeRule_eq: "snd (executeRule re r cfg) =
    \<lparr>rx_ruleId = sr_id r, rx_ruleName = sr_name r, rx_category = sr_category r, rx_severity = sr_severity r,
     rx_sourceId = str_dflt (sr_sourceId r) ''unknown'', rx_findings = snd (rule_findings re r cfg)\<rparr>"
  "fst (executeRule re r cfg) = fst (rule_findings re r cfg)"
  by (simp_all add: executeRule_def split: prod.split)

lemma executeAllRules_frame:
  assumes "agree_config note_keys cfg0 cfg" "object_networks cfg" "\<forall>r \<in> set rs. rule_reads (sr_detection r) \<inter> note_keys = {}"
  shows "snd (executeAllRules re rs cfg) = map (\<lambda>r. snd (executeRule re r cfg0)) rs"
  using assms
proof (induction rs arbitrary: cfg)
  case (Cons r rs)
  let ?c = "fst (executeRule re r cfg)"
  have w: "agree_config note_keys cfg ?c" by (simp add: executeRule_eq rule_writes [OF Cons.prems(2)])
  have "snd (executeAllRules re rs ?c) = map (\<lambda>r. snd (executeRule re r cfg0)) rs"
    by (rule Cons.IH) (use Cons.prems agree_config_trans [OF _ w] object_networks_agree [OF w] in auto)
  moreover have "snd (executeRule re r cfg0) = snd (executeRule re r cfg)"
    using rule_frame [OF Cons.prems(1), of r re] Cons.prems(3) by (simp add: executeRule_eq)
  ultimately show ?case by (auto split: prod.split)
qed simp

text \<open>Running all rules over one configuration gives for each rule what it gives alone on the
  configuration as it was, in the order of the rules, although rules on the coverage by switch isolation
  write into the networks: it suffices that only such rules look at the two fields they write.
\<close>

lemma rules_run_independently:
  assumes "object_networks cfg" "\<forall>r \<in> set rs. rule_reads (sr_detection r) \<inter> note_keys = {}"
  shows "snd (executeAllRules re rs cfg) = map (\<lambda>r. snd (executeRule re r cfg)) rs"
  by (rule executeAllRules_frame [OF agree_config_refl assms])

section \<open>Examples\<close>

definition plain_re :: regex where
  "plain_re i p t = Some (str_includes p t)"

definition no_config :: unifi_config where
  "no_config = \<lparr>uc_networks = [], uc_firewallRules = [], uc_firewallGroups = [], uc_firewallPolicies = [],
     uc_trafficRules = [], uc_wlans = [], uc_portForwards = [], uc_clients = [], uc_devices = [],
     uc_settings = JObj [], uc_radiusProfiles = [], uc_aclRules = [], uc_l3AclIsolation = [],
     uc_deviceIsolationNetworks = [], uc_vpnServers = [], uc_firewallZones = []\<rparr>"

definition field_cond :: "string \<Rightarrow> string \<Rightarrow> json \<Rightarrow> cond" where
  "field_cond f p v = Cond (Some f) (Some p) v None None None None"

definition plain_detection :: "string \<Rightarrow> obj option \<Rightarrow> cond \<Rightarrow> string \<Rightarrow> rule_detection" where
  "plain_detection t f c text =
     \<lparr>rd_target = t, rd_filter = f, rd_condition = Some c, rd_cross = None, rd_aggregate = None,
      rd_aggregate_filter = None, rd_additional = None, rd_report_mode = None,
      rd_output = \<lparr>out_resource = text, out_details = text, out_current = None, out_expected = None\<rparr>\<rparr>"

definition plain_rule :: "string \<Rightarrow> rule_detection \<Rightarrow> security_rule" where
  "plain_rule i d = \<lparr>sr_id = i, sr_name = i, sr_description = [], sr_category = RC_vlan, sr_severity = HIGH,
     sr_impact = [], sr_remediation = [], sr_sourceId = None, sr_sensitive_ports = None, sr_detection = d\<rparr>"

definition coverage_detection :: "string \<Rightarrow> string \<Rightarrow> rule_detection" where
  "coverage_detection pat trusted =
     (plain_detection ''networks'' (Some [(''name_pattern'', JStr pat)])
        (field_cond ''has_l3_acl_blocks'' ''equals'' (JBool False)) ''{{missing_l3_acl_blocks}}'')
     \<lparr>rd_cross := Some \<lparr>xr_type = ''l3_acl_coverage'', xr_pattern = Some trusted\<rparr>\<rparr>"

definition named_network :: "string \<Rightarrow> string \<Rightarrow> json" where
  "named_network i name = JObj [(''_id'', JStr i), (''name'', JStr name)]"

lemmas example_defs = no_config_def field_cond_def plain_detection_def plain_rule_def coverage_detection_def named_network_def

lemma rules_run_independently_witness:
  "snd (executeAllRules plain_re
      [plain_rule ''A'' (coverage_detection ''iot'' ''main''),
       plain_rule ''B'' (plain_detection ''networks'' None (field_cond ''name'' ''equals'' (JStr ''iot'')) ''{{name}}'')]
      (no_config\<lparr>uc_networks := [named_network ''1'' ''main'', named_network ''2'' ''iot'']\<rparr>)) =
   map (\<lambda>r. snd (executeRule plain_re r (no_config\<lparr>uc_networks := [named_network ''1'' ''main'', named_network ''2'' ''iot'']\<rparr>)))
      [plain_rule ''A'' (coverage_detection ''iot'' ''main''),
       plain_rule ''B'' (plain_detection ''networks'' None (field_cond ''name'' ''equals'' (JStr ''iot'')) ''{{name}}'')]"
proof -
  have k: "template_keys ''{{name}}'' = {''name''}" by code_simp
  have o: "object_networks (no_config\<lparr>uc_networks := [named_network ''1'' ''main'', named_network ''2'' ''iot'']\<rparr>)"
    by (simp add: object_networks_def named_network_def is_object_def)
  have r: "rule_reads (coverage_detection ''iot'' ''main'') \<inter> note_keys = {}"
    by (simp add: example_defs rule_reads_def writes_notes_def filter_roots_def note_keys_def path_root_def split_on_no_sep)
  have r': "rule_reads (plain_detection ''networks'' None (field_cond ''name'' ''equals'' (JStr ''iot'')) ''{{name}}'') \<inter> note_keys = {}"
    by (simp add: example_defs rule_reads_def writes_notes_def output_keys_def text_keys_def k note_keys_def
        path_root_def split_on_no_sep del: template_keys.simps(2))
  show ?thesis
    by (rule rules_run_independently) (use o r r' in \<open>simp_all add: plain_rule_def\<close>)
qed

text \<open>A rule that reads a written field without writing it depends on the rules before it.\<close>

lemma written_fields_leak:
  "let cfg = no_config\<lparr>uc_networks := [named_network ''1'' ''main'', named_network ''2'' ''iot'']\<rparr>;
       a = plain_rule ''A'' (coverage_detection ''iot'' ''main'');
       b = plain_rule ''B'' (plain_detection ''networks'' None (field_cond ''has_l3_acl_blocks'' ''equals'' (JBool False)) ''{{name}}'')
   in length (rx_findings (snd (executeRule plain_re b cfg))) = 0
      \<and> length (rx_findings (snd (executeAllRules plain_re [a, b] cfg) ! 1)) = 1"
  by code_simp

end
