(* ===== verification/Rule_Reports.thy ===== *)
theory Rule_Reports
  imports Rule_Order
begin

text \<open>
  What the rules report: the items a standard rule lists, the networks a rule on the coverage by switch
  isolation lists, and what is lost when something throws.
\<close>

section \<open>Standard rules\<close>

definition standard_rule :: "rule_detection \<Rightarrow> bool" where
  "standard_rule d \<longleftrightarrow> \<not> truthy (rd_aggregate d) \<and> rd_report_mode d \<notin> {Some ''exists'', Some ''each''}"

text \<open>A port the templates can be given: none, or a text.\<close>

definition readable_port :: "json \<Rightarrow> bool" where
  "readable_port item = (case prop_of item ''dst_port'' of JStr _ \<Rightarrow> True | port \<Rightarrow> \<not> json_truthy port)"

definition port_context :: "security_rule \<Rightarrow> obj \<Rightarrow> json \<Rightarrow> obj" where
  "port_context rule ctx item = dflt [] (item_context rule ctx item)"

lemma item_context_readable:
  "readable_port item \<Longrightarrow> item_context rule ctx item = Some (port_context rule ctx item)"
  by (auto simp: readable_port_def port_context_def item_context_def Let_def split: json.splits)

lemma item_finding_readable:
  assumes "rd_condition (sr_detection rule) = Some c" "readable_port item"
  shows "item_finding re rule ctx item = Some
     (if evaluateCondition re c item (JObj ctx)
      then Some (output_for (rd_output (sr_detection rule)) item (JObj (port_context rule ctx item))) else None)"
  by (simp add: item_finding_def assms item_context_readable)

lemma pushed_findings:
  assumes "rd_condition (sr_detection rule) = Some c"
    "\<forall>i \<in> set items. evaluateCondition re c i (JObj ctx) \<longrightarrow> readable_port i"
  shows "push_until (item_finding re rule ctx) items =
     map (\<lambda>i. output_for (rd_output (sr_detection rule)) i (JObj (port_context rule ctx i)))
       (filter (\<lambda>i. evaluateCondition re c i (JObj ctx)) items)"
proof (rule push_until_total)
  show "item_finding re rule ctx i = Some (if evaluateCondition re c i (JObj ctx)
      then Some (output_for (rd_output (sr_detection rule)) i (JObj (port_context rule ctx i))) else None)"
    if "i \<in> set items" for i
    using that assms(2) by (cases "evaluateCondition re c i (JObj ctx)")
      (simp_all add: item_finding_readable [OF assms(1)], simp add: item_finding_def assms(1))
qed

lemma passes_filter_all:
  "passes_filter re t f i = Some True \<longleftrightarrow> (\<forall>kv \<in> set f. filter_key re t i kv = Some True)"
  by (induction f) (auto split: option.splits bool.splits)

text \<open>What a standard rule without references reports: one finding for each item of its target, in
  their order, that every entry of the filter accepts and that satisfies the condition, with the templates
  filled from the item; provided no name or address list of the target makes it throw and the ports of the
  items it reports are texts.
\<close>

lemma standard_rule_findings:
  assumes "standard_rule (sr_detection rule)" "rd_cross (sr_detection rule) = None"
    and c: "rd_condition (sr_detection rule) = Some c"
    and f: "rd_filter (sr_detection rule) = Some f"
    and t: "target_items cfg (rd_target (sr_detection rule)) = Some items"
    and total: "\<forall>i \<in> set items. passes_filter re (rd_target (sr_detection rule)) f i \<noteq> None"
    and port: "\<forall>i \<in> set items. evaluateCondition re c i (JObj []) \<longrightarrow> readable_port i"
  shows "rx_findings (snd (executeRule re rule cfg)) =
    map (\<lambda>i. output_for (rd_output (sr_detection rule)) i (JObj (port_context rule [] i)))
      (filter (\<lambda>i. (\<forall>kv \<in> set f. filter_key re (rd_target (sr_detection rule)) i kv = Some True)
         \<and> evaluateCondition re c i (JObj [])) items)"
proof -
  let ?d = "sr_detection rule"
  let ?p = "\<lambda>i. passes_filter re (rd_target ?d) f i = Some True"
  obtain xs where xs: "filter_m (passes_filter re (rd_target ?d) f) items = Some xs"
    using total by (cases "filter_m (passes_filter re (rd_target ?d) f) items") (auto simp: filter_m_None)
  then have items: "getTargetItems re cfg (rd_target ?d) (rd_filter ?d) = Some (filter ?p items)"
    using filter_m_eq [OF xs] by (simp add: getTargetItems_def t f)
  have "rx_findings (snd (executeRule re rule cfg)) = push_until (item_finding re rule []) (filter ?p items)"
    using assms(1,2) by (simp add: executeRule_eq findings_cases Let_def standard_rule_def prepare_rule_def items)
  also have "\<dots> = map (\<lambda>i. output_for (rd_output ?d) i (JObj (port_context rule [] i)))
      (filter (\<lambda>i. evaluateCondition re c i (JObj [])) (filter ?p items))"
    by (rule pushed_findings [OF c]) (use port in auto)
  finally show ?thesis by (simp add: passes_filter_all)
qed

lemma standard_rule_findings_witness:
  "let rule = (plain_rule ''PF'' (plain_detection ''portForwards'' (Some [(''enabled'', JBool True)])
        (field_cond ''dst_port'' ''in_port_list'' (JArr [JNum 22, JNum 3389])) ''{{name}}: {{port_service}}''))
        \<lparr>sr_sensitive_ports := Some [(''22'', ''SSH'')]\<rparr>;
      fwd = (\<lambda>name on port. JObj [(''name'', JStr name), (''enabled'', JBool on), (''dst_port'', JStr port)])
   in map cr_details (rx_findings (snd (executeRule plain_re rule
        (no_config\<lparr>uc_portForwards := [fwd ''a'' True ''22'', fwd ''b'' False ''22'', fwd ''c'' True ''80'', fwd ''d'' True ''3389'']\<rparr>))))
      = [Some ''a: SSH'', Some ''d: Unknown'']"
proof -
  let ?rule = "(plain_rule ''PF'' (plain_detection ''portForwards'' (Some [(''enabled'', JBool True)])
        (field_cond ''dst_port'' ''in_port_list'' (JArr [JNum 22, JNum 3389])) ''{{name}}: {{port_service}}''))
        \<lparr>sr_sensitive_ports := Some [(''22'', ''SSH'')]\<rparr>"
  let ?fwd = "\<lambda>name on port. JObj [(''name'', JStr name), (''enabled'', JBool on), (''dst_port'', JStr port)]"
  let ?items = "[?fwd ''a'' True ''22'', ?fwd ''b'' False ''22'', ?fwd ''c'' True ''80'', ?fwd ''d'' True ''3389'']"
  have "rx_findings (snd (executeRule plain_re ?rule (no_config\<lparr>uc_portForwards := ?items\<rparr>))) =
    map (\<lambda>i. output_for (rd_output (sr_detection ?rule)) i (JObj (port_context ?rule [] i)))
      (filter (\<lambda>i. (\<forall>kv \<in> set [(''enabled'', JBool True)]. filter_key plain_re (rd_target (sr_detection ?rule)) i kv = Some True)
         \<and> evaluateCondition plain_re (field_cond ''dst_port'' ''in_port_list'' (JArr [JNum 22, JNum 3389])) i (JObj [])) ?items)"
    by (rule standard_rule_findings)
      (auto simp: example_defs standard_rule_def target_items_def readable_port_def field_def om_get_def
        filter_key_def field_accepts_def op_in_def)
  then show ?thesis unfolding Let_def by (simp only:) code_simp
qed

section \<open>Coverage by switch isolation\<close>

definition coverage_rule :: "rule_detection \<Rightarrow> string option \<Rightarrow> obj \<Rightarrow> bool" where
  "coverage_rule d pat f \<longleftrightarrow> standard_rule d \<and> rd_target d = ''networks'' \<and> rd_filter d = Some f
     \<and> rd_cross d = Some \<lparr>xr_type = ''l3_acl_coverage'', xr_pattern = pat\<rparr>
     \<and> rd_condition d = Some (field_cond ''has_l3_acl_blocks'' ''equals'' (JBool False))"

definition trusted_networks :: "regex \<Rightarrow> string option \<Rightarrow> unifi_config \<Rightarrow> json list" where
  "trusted_networks re pat cfg = filter (\<lambda>n. is_trusted re pat n = Some True) (uc_networks cfg)"

definition isolated_from :: "unifi_config \<Rightarrow> json \<Rightarrow> json \<Rightarrow> bool" where
  "isolated_from cfg n t \<longleftrightarrow> (\<exists>e \<in> set (uc_l3AclIsolation cfg).
     strict_eq (prop_of e ''source_network'') (prop_of n ''_id'') \<and>
     (case js_iterate (json_or (prop_of e ''destination_networks'') (JArr [])) of
        None \<Rightarrow> False | Some ds \<Rightarrow> \<exists>d \<in> set ds. strict_eq d (prop_of t ''_id'')))"

lemma blocks_isolated:
  assumes "l3_entries cfg = Some es"
  shows "blocks es (prop_of n ''_id'') (prop_of t ''_id'') \<longleftrightarrow> isolated_from cfg n t"
proof -
  have mem: "(s, ds) \<in> set es \<longleftrightarrow> (\<exists>e \<in> set (uc_l3AclIsolation cfg). s = prop_of e ''source_network''
      \<and> js_iterate (json_or (prop_of e ''destination_networks'') (JArr [])) = Some ds)" for s ds
    using map_m_set [OF assms [unfolded l3_entries_def], of "(s, ds)"] by auto
  have "blocks es (prop_of n ''_id'') (prop_of t ''_id'') \<longleftrightarrow>
      (\<exists>s ds. (s, ds) \<in> set es \<and> strict_eq s (prop_of n ''_id'') \<and> (\<exists>d \<in> set ds. strict_eq d (prop_of t ''_id'')))"
    by (simp add: blocks_def js_includes_def list_ex_iff Bex_def split_paired_Ex)
  moreover have "(case v of None \<Rightarrow> False | Some ds \<Rightarrow> P ds) \<longleftrightarrow> (\<exists>ds. v = Some ds \<and> P ds)" for v :: "json list option" and P
    by (cases v) auto
  ultimately show ?thesis by (simp only: mem isolated_from_def) blast
qed

lemma has_blocks_false:
  "evaluateCondition re (field_cond ''has_l3_acl_blocks'' ''equals'' (JBool False)) (annotate es ts n) ctx
   \<longleftrightarrow> missing_blocks es ts n \<noteq> []"
proof -
  have "getFieldValue (annotate es ts n) ''has_l3_acl_blocks'' = JBool (ts = [] \<or> missing_blocks es ts n = [])"
    by (simp add: getFieldValue_def split_on_no_sep js_member_object annotate_prop)
  moreover have "ts = [] \<Longrightarrow> missing_blocks es ts n = []" by (simp add: missing_blocks_def)
  ultimately show ?thesis by (auto simp: field_cond_def field_check_def)
qed

text \<open>C11: A rule on the coverage by switch isolation reports exactly the networks its filter selects for which
  some trusted network, by name or as corporate, is in no list of isolated networks of that network.
\<close>

theorem coverage_findings:
  assumes d: "coverage_rule (sr_detection rule) pat f"
    and n: "\<forall>n \<in> set (uc_networks cfg). passes_filter re ''networks'' f n \<noteq> None \<and> is_trusted re pat n \<noteq> None
       \<and> readable_port n"
    and e: "l3_entries cfg \<noteq> None"
  shows "\<exists>noted. (\<forall>n. (\<forall>k. k \<notin> note_keys \<longrightarrow> prop_of (noted n) k = prop_of n k) \<and>
        prop_of (noted n) ''missing_l3_acl_blocks'' =
          JArr (map (\<lambda>t. prop_of t ''name'') (filter (\<lambda>t. \<not> isolated_from cfg n t) (trusted_networks re pat cfg)))) \<and>
      rx_findings (snd (executeRule re rule cfg)) =
        map (\<lambda>n. output_for (rd_output (sr_detection rule)) (noted n) (JObj (port_context rule [] (noted n))))
          (filter (\<lambda>n. passes_filter re ''networks'' f n = Some True
             \<and> (\<exists>t \<in> set (trusted_networks re pat cfg). \<not> isolated_from cfg n t)) (uc_networks cfg))"
proof -
  let ?d = "sr_detection rule" and ?ts = "trusted_networks re pat cfg"
  let ?c = "field_cond ''has_l3_acl_blocks'' ''equals'' (JBool False)"
  let ?p = "\<lambda>n. passes_filter re ''networks'' f n = Some True"
  obtain es where es: "l3_entries cfg = Some es" using e by blast
  let ?ann = "annotate es ?ts"
  have m: "missing_blocks es ?ts n = filter (\<lambda>t. \<not> isolated_from cfg n t) ?ts" for n
    by (simp add: missing_blocks_def blocks_isolated [OF es])
  obtain xs where xs: "filter_m (passes_filter re ''networks'' f) (uc_networks cfg) = Some xs"
    using n by (cases "filter_m (passes_filter re ''networks'' f) (uc_networks cfg)") (auto simp: filter_m_None)
  obtain ts where ts: "filter_m (is_trusted re pat) (uc_networks cfg) = Some ts"
    using n by (cases "filter_m (is_trusted re pat) (uc_networks cfg)") (auto simp: filter_m_None)
  have "rx_findings (snd (executeRule re rule cfg)) =
      push_until (item_finding re rule []) (map ?ann (filter ?p (uc_networks cfg)))"
    using d by (simp add: coverage_rule_def executeRule_eq findings_cases Let_def standard_rule_def prepare_rule_def
        getTargetItems_def target_items_def xs ts es filter_m_eq [OF xs] filter_m_eq [OF ts] trusted_networks_def)
  also have "\<dots> = map (\<lambda>i. output_for (rd_output ?d) i (JObj (port_context rule [] i)))
      (filter (\<lambda>i. evaluateCondition re ?c i (JObj [])) (map ?ann (filter ?p (uc_networks cfg))))"
    using d n by (intro pushed_findings) (auto simp: coverage_rule_def readable_port_def annotate_prop note_keys_def)
  also have "\<dots> = map (\<lambda>n. output_for (rd_output ?d) (?ann n) (JObj (port_context rule [] (?ann n))))
      (filter (\<lambda>n. ?p n \<and> (\<exists>t \<in> set ?ts. \<not> isolated_from cfg n t)) (uc_networks cfg))"
    by (simp add: filter_map o_def has_blocks_false m filter_empty_conv)
  finally show ?thesis
    by (intro exI [of _ ?ann]) (simp add: annotate_prop m)
qed

text \<open>
  A network that is itself trusted has to be isolated from itself: with the patterns of the rule that
  is shipped, a network named Untrusted is reported although it is isolated from every other one.
\<close>

definition iso_example :: unifi_config where
  "iso_example = no_config\<lparr>uc_networks := [named_network ''1'' ''Main'', named_network ''2'' ''Untrusted''],
     uc_l3AclIsolation := [JObj [(''source_network'', JStr ''2''), (''destination_networks'', JArr [JStr ''1''])]]\<rparr>"

definition either_re :: regex where
  "either_re i p t = Some (list_ex (\<lambda>w. str_includes w t) (split_on CHR ''|'' p))"

lemma untrusted_reported:
  "map cr_resource (rx_findings (snd (executeRule either_re
      (plain_rule ''ACL'' (coverage_detection ''iot|guest|untrust'' ''default|main|trusted|home|corporate'')) iso_example)))
   = [Some ''Untrusted'']"
  by code_simp

theorem coverage_findings_witness:
  "length (rx_findings (snd (executeRule either_re (plain_rule ''ACL'' (coverage_detection ''iot|guest'' ''default|main''))
     (no_config\<lparr>uc_networks := [named_network ''1'' ''Main'', named_network ''2'' ''IoT'', named_network ''3'' ''Guests''],
        uc_l3AclIsolation := [JObj [(''source_network'', JStr ''2''), (''destination_networks'', JArr [JStr ''1''])]]\<rparr>)))) = 1"
proof -
  let ?cfg = "no_config\<lparr>uc_networks := [named_network ''1'' ''Main'', named_network ''2'' ''IoT'', named_network ''3'' ''Guests''],
        uc_l3AclIsolation := [JObj [(''source_network'', JStr ''2''), (''destination_networks'', JArr [JStr ''1''])]]\<rparr>"
  let ?rule = "plain_rule ''ACL'' (coverage_detection ''iot|guest'' ''default|main'')"
  let ?f = "[(''name_pattern'', JStr ''iot|guest'')]"
  have n: "\<forall>n \<in> set (uc_networks ?cfg). passes_filter either_re ''networks'' ?f n \<noteq> None
      \<and> is_trusted either_re (Some ''default|main'') n \<noteq> None \<and> readable_port n"
    by code_simp
  have "filter (\<lambda>n. passes_filter either_re ''networks'' ?f n = Some True
      \<and> (\<exists>t \<in> set (trusted_networks either_re (Some ''default|main'') ?cfg). \<not> isolated_from ?cfg n t)) (uc_networks ?cfg)
    = [named_network ''3'' ''Guests'']" by code_simp
  moreover have "coverage_rule (sr_detection ?rule) (Some ''default|main'') ?f"
    by (simp add: coverage_rule_def standard_rule_def example_defs)
  moreover have "l3_entries ?cfg \<noteq> None" by code_simp
  ultimately show ?thesis
    using coverage_findings [of ?rule "Some ''default|main''" ?f ?cfg either_re] n by (auto simp del: not_None_eq)
qed

section \<open>What an exception hides\<close>

text \<open>
  A port that is no text makes the preparation of the templates throw: the finding on it and all on the
  items after it are lost, and the rule counts as evaluated.
\<close>

lemma numeric_port_hides_findings:
  "let rule = plain_rule ''PF'' (plain_detection ''portForwards'' None
        (field_cond ''dst_port'' ''in_port_list'' (JArr [JNum 22])) ''{{name}}'');
       fwd = (\<lambda>name port. JObj [(''name'', JStr name), (''dst_port'', port)])
   in map cr_details (rx_findings (snd (executeRule plain_re rule
        (no_config\<lparr>uc_portForwards := [fwd ''a'' (JStr ''22''), fwd ''b'' (JNum 22), fwd ''c'' (JStr ''22'')]\<rparr>))))
      = [Some ''a'']"
  by code_simp

end
