(* ===== verification/Config_Normal.thy ===== *)
theory Config_Normal
  imports Rule_Order
begin

text \<open>
  \<open>normalizeConfig\<close> of \<open>scanners/index.ts\<close>: the configuration of the controller, whose field names differ
  between versions, in the one form the rules are written for.  The result is \<open>None\<close> when the source
  throws: a list that is truthy but no array, or a null among the elements of a list.
\<close>

section \<open>Reading a raw element\<close>

text \<open>\<open>a || b || \<dots> || d\<close> and \<open>a ?? b ?? \<dots> ?? d\<close> over fields of one value.\<close>

definition any_of :: "json \<Rightarrow> string list \<Rightarrow> json \<Rightarrow> json" where
  "any_of v ks d = foldr (\<lambda>k r. json_or (opt_member v k) r) ks d"

definition first_given :: "json \<Rightarrow> string list \<Rightarrow> json \<Rightarrow> json" where
  "first_given v ks d = foldr (\<lambda>k r. json_nullish (opt_member v k) r) ks d"

definition same_fields :: "json \<Rightarrow> string list \<Rightarrow> obj" where
  "same_fields v ks = map (\<lambda>k. (k, opt_member v k)) ks"

definition id_field :: "json \<Rightarrow> string \<times> json" where
  "id_field v = (''_id'', any_of v [''_id'', ''id''] (JStr []))"

definition name_field :: "json \<Rightarrow> string \<Rightarrow> string \<times> json" where
  "name_field v d = (''name'', any_of v [''name''] (JStr d))"

definition enabled_field :: "json \<Rightarrow> string \<times> json" where
  "enabled_field v = (''enabled'', first_given v [''enabled''] (JBool True))"

definition norm_network :: "json \<Rightarrow> json" where
  "norm_network n = JObj
     ([(''_id'', any_of n [''_id'', ''id'', ''network_id''] (JStr [])),
       (''name'', any_of n [''name'', ''network_name''] (JStr ''Unknown'')),
       (''purpose'', any_of n [''purpose'', ''network_purpose''] (JStr ''corporate'')),
       (''vlan'', any_of n [''vlan''] (opt_member n ''vlan_id'')),
       (''vlan_enabled'', first_given n [''vlan_enabled''] (JBool (json_truthy (opt_member n ''vlan'')))),
       (''subnet'', any_of n [''subnet''] (opt_member n ''ip_subnet''))]
      @ same_fields n [''dhcpd_enabled'', ''dhcpd_dns_1'', ''dhcpd_dns_2'']
      @ [(''network_isolation'', any_of n [''network_isolation_enabled'', ''network_isolation''] (opt_member n ''isolation'')),
         (''internet_access_enabled'', first_given n [''internet_access_enabled''] (JBool True))])"

definition norm_rule :: "json \<Rightarrow> json" where
  "norm_rule r = JObj
     ([id_field r, name_field r ''Unnamed Rule'', enabled_field r,
       (''ruleset'', any_of r [''ruleset''] (JStr ''LAN_IN'')),
       (''rule_index'', any_of r [''rule_index''] (JNum 0)),
       (''action'', any_of r [''action''] (JStr ''drop'')),
       (''protocol'', any_of r [''protocol''] (JStr ''all''))]
      @ same_fields r [''protocol_match_excepted'', ''src_firewallgroup_ids'', ''dst_firewallgroup_ids'',
          ''src_address'', ''dst_address'', ''src_network_id'', ''dst_network_id'', ''src_port'', ''dst_port'', ''predefined''])"

definition norm_group :: "json \<Rightarrow> json" where
  "norm_group g = JObj
     ([id_field g, name_field g ''Unknown'', (''group_type'', any_of g [''group_type''] (JStr ''address-group''))]
      @ same_fields g [''group_members'', ''network_ids''])"

definition renamed :: "json \<Rightarrow> (string \<times> string list) list \<Rightarrow> obj" where
  "renamed v kks = map (\<lambda>kk. (fst kk, first_given v (butlast (snd kk)) (opt_member v (last (snd kk))))) kks"

definition norm_wlan :: "json \<Rightarrow> json" where
  "norm_wlan w = JObj
     ([id_field w, name_field w ''Unknown'', enabled_field w, (''security'', any_of w [''security''] (JStr ''open''))]
      @ same_fields w [''is_guest'', ''networkconf_id'', ''vlan'', ''hide_ssid'', ''wpa_mode'', ''pmf_mode'', ''wpa3_support'', ''wpa3_transition'']
      @ renamed w [(''fast_roaming_enabled'', [''fast_roaming_enabled'', ''ft_enabled'']),
                   (''ap_isolation'', [''ap_isolation'', ''client_isolation''])]
      @ same_fields w [''l2_isolation'']
      @ renamed w [(''radius_profile_id'', [''radius_profile_id'', ''radiusprofile_id''])]
      @ same_fields w [''mac_filter_enabled'', ''mac_filter_policy'']
      @ renamed w [(''minimum_rssi'', [''minimum_rssi'', ''minrssi'']),
                   (''minimum_rssi_enabled'', [''minimum_rssi_enabled'', ''minrssi_enabled''])]
      @ same_fields w [''bss_transition'', ''group_rekey'']
      @ renamed w [(''optimize_iot'', [''optimize_iot'', ''enhanced_iot'', ''iot_optimize'']),
                   (''band_steering_mode'', [''band_steering_mode'', ''bandsteering_mode'']),
                   (''channel_width_2g'', [''channel_width_2g'', ''wlan_band_2g_channel_width'']),
                   (''channel_width_5g'', [''channel_width_5g'', ''wlan_band_5g_channel_width'']),
                   (''channel_width_6g'', [''channel_width_6g'', ''wlan_band_6g_channel_width'']),
                   (''multicast_enhance'', [''multicast_enhance'', ''mcastenhance''])]
      @ same_fields w [''proxy_arp'']
      @ renamed w [(''dtim_ng'', [''dtim_ng'', ''dtim_mode_ng'']), (''dtim_na'', [''dtim_na'', ''dtim_mode_na''])])"

definition norm_endpoint :: "json \<Rightarrow> string list \<Rightarrow> json" where
  "norm_endpoint e ks = JObj
     ([(''zone_id'', any_of e [''zone_id''] (JStr [])), (''matching_target'', any_of e [''matching_target''] (JStr ''ANY''))]
      @ same_fields e ks)"

definition norm_policy :: "json \<Rightarrow> json" where
  "norm_policy p = JObj
     ([id_field p, name_field p ''Unnamed Policy'', enabled_field p,
       (''action'', any_of p [''action''] (JStr ''BLOCK'')),
       (''predefined'', first_given p [''predefined''] (JBool False)),
       (''index'', first_given p [''index''] (JNum 0)),
       (''protocol'', any_of p [''protocol''] (JStr ''all''))]
      @ same_fields p [''description'', ''logging'']
      @ [(''source'', norm_endpoint (opt_member p ''source'') [''network_ids'', ''ip_addresses'', ''client_macs'']),
         (''destination'', norm_endpoint (opt_member p ''destination'') [''network_ids'', ''ip_addresses'', ''port_ranges''])]
      @ same_fields p [''state_new'', ''state_established'', ''state_related'', ''state_invalid''])"

definition norm_traffic_rule :: "json \<Rightarrow> json" where
  "norm_traffic_rule t = JObj
     ([id_field t] @ same_fields t [''name'', ''description''] @ [enabled_field t,
       (''action'', any_of t [''action''] (JStr ''BLOCK'')),
       (''matching_target'', any_of t [''matching_target''] (JStr []))]
      @ same_fields t [''target_devices'', ''network_ids'', ''ip_addresses'', ''app_category_ids'', ''schedule''])"

definition norm_radius :: "json \<Rightarrow> json" where
  "norm_radius r = JObj
     ([id_field r, name_field r ''Default'', enabled_field r]
      @ renamed r [(''auth_server_ip'', [''auth_server_ip'', ''auth_ip'']), (''auth_server_port'', [''auth_server_port'', ''auth_port''])]
      @ same_fields r [''acct_enabled'']
      @ renamed r [(''use_tls'', [''use_tls'', ''radsec_enabled''])])"

definition norm_forward :: "json \<Rightarrow> json" where
  "norm_forward p = JObj
     [id_field p, name_field p ''Unnamed'', enabled_field p,
      (''dst_port'', any_of p [''dst_port''] (JStr [])), (''fwd'', any_of p [''fwd''] (JStr [])),
      (''fwd_port'', any_of p [''fwd_port''] (JStr [])), (''proto'', any_of p [''proto''] (JStr ''tcp''))]"

definition norm_client :: "json \<Rightarrow> json" where
  "norm_client c = JObj
     ([(''mac'', any_of c [''mac'', ''_id''] (JStr [])),
       (''ip'', any_of c [''ip'', ''last_ip''] (opt_member c ''fixed_ip'')),
       (''name'', any_of c [''name'', ''hostname''] (opt_member c ''display_name'')),
       (''hostname'', opt_member c ''hostname''),
       (''network_id'', any_of c [''network_id''] (opt_member c ''usergroup_id'')),
       (''oui'', opt_member c ''oui''),
       (''is_wired'', first_given c [''is_wired''] (JBool (strict_eq (opt_member c ''connection_type'') (JStr ''wired''))))]
      @ same_fields c [''fingerprint''])"

definition norm_device :: "json \<Rightarrow> json" where
  "norm_device d = JObj
     ([(''mac'', any_of d [''mac'', ''_id''] (JStr []))] @ same_fields d [''name'', ''model'']
      @ [(''type'', any_of d [''type''] (JStr ''unknown''))] @ same_fields d [''ip'', ''network_id''])"

definition norm_acl_rule :: "json \<Rightarrow> json" where
  "norm_acl_rule r = JObj
     ([id_field r, name_field r ''Unnamed ACL Rule'', (''type'', any_of r [''type''] (JStr ''IPV4'')),
       (''action'', any_of r [''action''] (JStr ''BLOCK'')), enabled_field r,
       (''acl_index'', first_given r [''acl_index''] (JNum 0))]
      @ same_fields r [''traffic_source'', ''traffic_destination''])"

definition norm_vpn :: "json \<Rightarrow> json" where
  "norm_vpn v = JObj
     ([id_field v, name_field v ''Unnamed VPN'', enabled_field v,
       (''protocol'', any_of v [''protocol''] (JStr ''unknown'')), (''port'', any_of v [''port''] (JNum 0))]
      @ same_fields v [''encryption'', ''auth_type'', ''network_id'', ''subnet'', ''logging_enabled''])"

definition norm_zone :: "json \<Rightarrow> json" where
  "norm_zone z = JObj
     ([id_field z, name_field z ''Unknown Zone'', (''zone_type'', any_of z [''zone_type'', ''type''] (JStr ''unknown''))]
      @ same_fields z [''networks''])"

section \<open>Lists and settings\<close>

text \<open>\<open>(raw.a || raw.b || []).map(f)\<close>, where reading a field of a null element throws.\<close>

definition norm_list :: "json \<Rightarrow> string list \<Rightarrow> (json \<Rightarrow> json) \<Rightarrow> json list option" where
  "norm_list raw ks f =
     (case any_of raw ks (JArr []) of
        JArr xs \<Rightarrow> map_m (\<lambda>x. if x = JUndef \<or> x = JNull then None else Some (f x)) xs
      | _ \<Rightarrow> None)"

definition settings_array :: "json \<Rightarrow> json list" where
  "settings_array raw = (case any_of raw [''settings'', ''setting''] (JObj []) of JArr xs \<Rightarrow> xs | v \<Rightarrow> [v])"

definition find_setting :: "(json \<Rightarrow> bool) \<Rightarrow> json list \<Rightarrow> json option option" where
  "find_setting p xs = find_m (\<lambda>s. if s = JUndef \<or> s = JNull then None else Some (p s)) xs"

definition has_key :: "string \<Rightarrow> json \<Rightarrow> bool" where
  "has_key k s = strict_eq (opt_member s ''key'') (JStr k)"

definition or_empty :: "json option \<Rightarrow> json" where
  "or_empty s = dflt (JObj []) s"

text \<open>Each setting that has one of the two lists replaces what the settings before it gave.\<close>

definition isolation_entry :: "json \<Rightarrow> json option" where
  "isolation_entry e =
     (if e = JUndef \<or> e = JNull then None
      else Some (JObj [(''source_network'', opt_member e ''source_network''),
             (''destination_networks'', any_of e [''destination_networks''] (JArr []))]))"

fun isolation_lists :: "json list \<Rightarrow> json list \<times> json list \<Rightarrow> (json list \<times> json list) option" where
  "isolation_lists [] r = Some r"
| "isolation_lists (s # ss) (l3, dev) =
     (case js_member s ''acl_l3_isolation'' of
        None \<Rightarrow> None
      | Some v \<Rightarrow>
          Option.bind (case v of JArr es \<Rightarrow> map_m isolation_entry es | _ \<Rightarrow> Some l3) (\<lambda>l3'.
            isolation_lists ss (l3', case opt_member s ''acl_device_isolation'' of JArr ds \<Rightarrow> ds | _ \<Rightarrow> dev)))"

definition norm_settings :: "json \<Rightarrow> json \<Rightarrow> json \<Rightarrow> json \<Rightarrow> json" where
  "norm_settings raw mgmt ips posture =
     (let r = opt_member raw; m = opt_member mgmt; i = opt_member ips in
      JObj
       ([(''upnp_enabled'', json_nullish (r ''upnp_enabled'') (m ''upnp_enabled'')),
         (''upnp_nat_pmp_enabled'', json_nullish (r ''upnp_nat_pmp_enabled'') (m ''upnp_nat_pmp_enabled'')),
         (''mgmt_network_id'', m ''mgmt_network_id''),
         (''default_security_posture'', opt_member posture ''default_security_posture''),
         (''ssh_enabled'', json_nullish (m ''ssh_enabled'') (r ''ssh_enabled'')),
         (''ssh_password_auth_enabled'', m ''ssh_password_auth_enabled''),
         (''remote_access_enabled'', json_nullish (m ''remote_access_enabled'') (r ''cloud_enabled'')),
         (''discoverable'', m ''discoverable''),
         (''ips_mode'', json_nullish (i ''ips_mode'') (r ''ips_mode'')),
         (''ips_enabled'', json_nullish (i ''ips_enabled'') (json_nullish (r ''ips_enabled'')
             (JBool (strict_eq (i ''ips_mode'') (JStr ''ids'') \<or> strict_eq (i ''ips_mode'') (JStr ''ips''))))),
         (''ips_sensitivity'', json_nullish (i ''ips_sensitivity'') (r ''threat_management_sensitivity'')),
         (''honeypot_enabled'', json_nullish (i ''honeypot_enabled'') (r ''honeypot_enabled''))]
        @ same_fields raw [''doh_enabled'', ''dns_filtering_enabled'', ''dhcp_guarding_enabled'', ''stp_enabled'',
            ''igmp_snooping_enabled'', ''storm_control_enabled'', ''mdns_enabled'', ''mdns_mode'']))"

definition normal_settings :: "json \<Rightarrow> (json \<times> json list \<times> json list) option" where
  "normal_settings raw =
     (let ss = settings_array raw in
      Option.bind (find_setting (has_key ''mgmt'') ss) (\<lambda>mgmt.
      Option.bind (find_setting (has_key ''ips'') ss) (\<lambda>ips.
      Option.bind (if ips = None then find_setting (has_key ''dpi'') ss else Some ips) (\<lambda>ips'.
      Option.bind (find_setting (\<lambda>s. json_truthy (opt_member s ''default_security_posture'')) ss) (\<lambda>posture.
      Option.bind (isolation_lists ss ([], [])) (\<lambda>iso.
        Some (norm_settings raw (or_empty mgmt) (or_empty ips') (or_empty posture), iso)))))))"

definition normalizeConfig :: "json \<Rightarrow> unifi_config option" where
  "normalizeConfig raw =
     (if raw = JUndef \<or> raw = JNull then None
      else
       Option.bind (norm_list raw [''networks'', ''networkConf'', ''networkconf''] norm_network) (\<lambda>networks.
       Option.bind (norm_list raw [''firewallRules'', ''firewall_rule''] norm_rule) (\<lambda>rules.
       Option.bind (norm_list raw [''firewallGroups'', ''firewall_group''] norm_group) (\<lambda>groups.
       Option.bind (norm_list raw [''wlans'', ''wlanConf'', ''wlanconf''] norm_wlan) (\<lambda>wlans.
       Option.bind (norm_list raw [''firewallPolicies'', ''firewall_policies''] norm_policy) (\<lambda>policies.
       Option.bind (norm_list raw [''trafficRules'', ''traffic_rules''] norm_traffic_rule) (\<lambda>traffic.
       Option.bind (norm_list raw [''radiusProfiles'', ''radius_profiles''] norm_radius) (\<lambda>radius.
       Option.bind (norm_list raw [''portForwards'', ''portForward'', ''portforward''] norm_forward) (\<lambda>forwards.
       Option.bind (norm_list raw [''clients'', ''user'', ''sta''] norm_client) (\<lambda>clients.
       Option.bind (norm_list raw [''devices'', ''device''] norm_device) (\<lambda>devices.
       Option.bind (normal_settings raw) (\<lambda>(settings, l3, isolated).
       Option.bind (norm_list raw [''aclRules'', ''aclrule''] norm_acl_rule) (\<lambda>acls.
       Option.bind (norm_list raw [''vpnServers'', ''vpn_servers''] norm_vpn) (\<lambda>vpns.
       Option.bind (norm_list raw [''firewallZones'', ''firewall_zones''] norm_zone) (\<lambda>zones.
         Some \<lparr>uc_networks = networks, uc_firewallRules = rules, uc_firewallGroups = groups,
           uc_firewallPolicies = policies, uc_trafficRules = traffic, uc_wlans = wlans, uc_portForwards = forwards,
           uc_clients = clients, uc_devices = devices, uc_settings = settings, uc_radiusProfiles = radius,
           uc_aclRules = acls, uc_l3AclIsolation = l3, uc_deviceIsolationNetworks = isolated,
           uc_vpnServers = vpns, uc_firewallZones = zones\<rparr>)))))))))))))))"

section \<open>What can be read and what comes out\<close>

definition nullish_value :: "json \<Rightarrow> bool" where
  "nullish_value v = (v = JUndef \<or> v = JNull)"

definition readable_list :: "json \<Rightarrow> string list \<Rightarrow> bool" where
  "readable_list raw ks = (case any_of raw ks (JArr []) of JArr xs \<Rightarrow> list_all (\<lambda>x. \<not> nullish_value x) xs | _ \<Rightarrow> False)"

definition readable_setting :: "json \<Rightarrow> bool" where
  "readable_setting s \<longleftrightarrow> \<not> nullish_value s \<and>
     (case opt_member s ''acl_l3_isolation'' of JArr es \<Rightarrow> list_all (\<lambda>e. \<not> nullish_value e) es | _ \<Rightarrow> True)"

definition readable_config :: "json \<Rightarrow> bool" where
  "readable_config raw \<longleftrightarrow> \<not> nullish_value raw \<and> list_all readable_setting (settings_array raw) \<and>
     list_all (readable_list raw)
       [[''networks'', ''networkConf'', ''networkconf''], [''firewallRules'', ''firewall_rule''],
        [''firewallGroups'', ''firewall_group''], [''wlans'', ''wlanConf'', ''wlanconf''],
        [''firewallPolicies'', ''firewall_policies''], [''trafficRules'', ''traffic_rules''],
        [''radiusProfiles'', ''radius_profiles''], [''portForwards'', ''portForward'', ''portforward''],
        [''clients'', ''user'', ''sta''], [''devices'', ''device''], [''aclRules'', ''aclrule''],
        [''vpnServers'', ''vpn_servers''], [''firewallZones'', ''firewall_zones'']]"

text \<open>An object with truthy values under some keys and values under others.\<close>

definition has_values :: "string list \<Rightarrow> string list \<Rightarrow> json \<Rightarrow> bool" where
  "has_values ts gs v \<longleftrightarrow> is_object v \<and> list_all (\<lambda>k. json_truthy (prop_of v k)) ts
     \<and> list_all (\<lambda>k. \<not> nullish_value (prop_of v k)) gs"

definition typed_config :: "unifi_config \<Rightarrow> bool" where
  "typed_config cfg \<longleftrightarrow>
     list_all (has_values [''name'', ''purpose''] [''_id'', ''vlan_enabled'', ''internet_access_enabled'']) (uc_networks cfg) \<and>
     list_all (has_values [''name'', ''ruleset'', ''action'', ''protocol''] [''_id'', ''enabled'', ''rule_index'']) (uc_firewallRules cfg) \<and>
     list_all (has_values [''name'', ''group_type''] [''_id'']) (uc_firewallGroups cfg) \<and>
     list_all (has_values [''name'', ''security''] [''_id'', ''enabled'']) (uc_wlans cfg) \<and>
     list_all (has_values [''name'', ''action'', ''protocol'', ''source'', ''destination''] [''_id'', ''enabled'', ''predefined'', ''index'']) (uc_firewallPolicies cfg) \<and>
     list_all (has_values [''action''] [''_id'', ''enabled'', ''matching_target'']) (uc_trafficRules cfg) \<and>
     list_all (has_values [''name''] [''_id'', ''enabled'']) (uc_radiusProfiles cfg) \<and>
     list_all (has_values [''name'', ''proto''] [''_id'', ''enabled'', ''dst_port'', ''fwd'', ''fwd_port'']) (uc_portForwards cfg) \<and>
     list_all (has_values [] [''mac'', ''is_wired'']) (uc_clients cfg) \<and>
     list_all (has_values [''type''] [''mac'']) (uc_devices cfg) \<and>
     list_all (has_values [''name'', ''type'', ''action''] [''_id'', ''enabled'', ''acl_index'']) (uc_aclRules cfg) \<and>
     list_all (has_values [''name'', ''protocol''] [''_id'', ''enabled'', ''port'']) (uc_vpnServers cfg) \<and>
     list_all (has_values [''name'', ''zone_type''] [''_id'']) (uc_firewallZones cfg) \<and>
     list_all (has_values [''destination_networks''] []) (uc_l3AclIsolation cfg) \<and>
     has_values [] [''ips_enabled''] (uc_settings cfg)"

lemma any_of_truthy [simp]: "json_truthy d \<Longrightarrow> json_truthy (any_of v ks d)"
  by (induction ks) (simp_all add: any_of_def json_or_def)

lemma json_truthy_given: "json_truthy v \<Longrightarrow> \<not> nullish_value v"
  by (auto simp: nullish_value_def)

lemma any_of_given [simp]: "\<not> nullish_value d \<Longrightarrow> \<not> nullish_value (any_of v ks d)"
  by (induction ks) (auto simp: any_of_def json_or_def json_truthy_given)

lemma first_given_given [simp]: "\<not> nullish_value d \<Longrightarrow> \<not> nullish_value (first_given v ks d)"
  by (induction ks) (auto simp: first_given_def json_nullish_def nullish_value_def)

lemma nullish_value_simps [simp]:
  "\<not> nullish_value (JStr s)" "\<not> nullish_value (JBool b)" "\<not> nullish_value (JNum q)" "\<not> nullish_value (JObj kvs)"
  "\<not> nullish_value (JArr xs)" "nullish_value JUndef" "nullish_value JNull"
  by (simp_all add: nullish_value_def)

lemma norm_list_eq:
  "norm_list raw ks f = (if readable_list raw ks
     then Some (map f (case any_of raw ks (JArr []) of JArr xs \<Rightarrow> xs | _ \<Rightarrow> [])) else None)"
proof (cases "any_of raw ks (JArr [])")
  case (JArr xs)
  have "map_m (\<lambda>x. if x = JUndef \<or> x = JNull then None else Some (f x)) xs =
      (if list_all (\<lambda>x. \<not> nullish_value x) xs then Some (map f xs) else None)"
    by (induction xs) (auto simp: nullish_value_def)
  with JArr show ?thesis by (simp add: norm_list_def readable_list_def)
qed (simp_all add: norm_list_def readable_list_def)

lemma norm_list_all: "norm_list raw ks f = Some ys \<Longrightarrow> (\<And>x. P (f x)) \<Longrightarrow> list_all P ys"
  by (auto simp: norm_list_eq list_all_iff split: if_splits)

lemma norm_list_readable: "norm_list raw ks f = None \<longleftrightarrow> \<not> readable_list raw ks"
  by (simp add: norm_list_eq)

lemma isolation_entry_eq: "isolation_entry e = None \<longleftrightarrow> nullish_value e"
  by (simp add: isolation_entry_def nullish_value_def)

lemma map_m_None: "map_m f xs = None \<longleftrightarrow> (\<exists>x \<in> set xs. f x = None)"
  by (induction xs) (auto split: option.splits)

lemma js_member_None: "js_member s k = None \<longleftrightarrow> nullish_value s"
  by (cases s) (auto simp: js_member_def nullish_value_def)

lemma opt_member_Some: "js_member s k = Some v \<Longrightarrow> opt_member s k = v"
  by (simp add: opt_member_def)

lemma entries_read: "map_m isolation_entry es = None \<longleftrightarrow> \<not> list_all (\<lambda>e. \<not> nullish_value e) es"
  by (simp add: map_m_None isolation_entry_eq list_all_iff)

lemma isolation_lists_None: "isolation_lists ss r = None \<longleftrightarrow> \<not> list_all readable_setting ss"
proof (induction ss r rule: isolation_lists.induct)
  case (2 s ss l3 dev)
  show ?case
  proof (cases "js_member s ''acl_l3_isolation''")
    case None
    then show ?thesis using js_member_None [of s] by (auto simp: readable_setting_def)
  next
    case (Some v)
    then have s: "\<not> nullish_value s" "opt_member s ''acl_l3_isolation'' = v"
      using js_member_None [of s] opt_member_Some by (metis option.distinct(1), blast)
    show ?thesis
    proof (cases "case v of JArr es \<Rightarrow> map_m isolation_entry es | _ \<Rightarrow> Some l3")
      case None
      with Some s show ?thesis by (auto simp: readable_setting_def entries_read split: json.splits)
    next
      case l3': (Some l3')
      then have "readable_setting s"
        using s entries_read by (auto simp: readable_setting_def split: json.splits) (metis option.distinct(1))
      with 2 [OF Some l3'] Some l3' show ?thesis by simp
    qed
  qed
qed simp

lemma isolation_lists_typed:
  "isolation_lists ss (l3, dev) = Some (l3', dev') \<Longrightarrow> list_all (has_values [''destination_networks''] []) l3 \<Longrightarrow>
   list_all (has_values [''destination_networks''] []) l3'"
proof (induction ss "(l3, dev)" arbitrary: l3 dev rule: isolation_lists.induct)
  case (2 s ss l3 dev)
  from "2.prems"(1) obtain v l3a where v: "js_member s ''acl_l3_isolation'' = Some v"
      "(case v of JArr es \<Rightarrow> map_m isolation_entry es | _ \<Rightarrow> Some l3) = Some l3a"
      "isolation_lists ss (l3a, case opt_member s ''acl_device_isolation'' of JArr ds \<Rightarrow> ds | _ \<Rightarrow> dev) = Some (l3', dev')"
    by (auto split: option.splits bind_splits)
  have "has_values [''destination_networks''] [] e" if "map_m isolation_entry es = Some l3a" "e \<in> set l3a" for es e
    using map_m_set [OF that(1), of e] that(2)
    by (auto simp: isolation_entry_def has_values_def is_object_def field_def om_get_def split: if_splits)
  then have "list_all (has_values [''destination_networks''] []) l3a"
    using v(2) "2.prems"(2) by (auto simp: list_all_iff split: json.splits)
  with "2.hyps" [OF v] show ?case by blast
qed simp

lemma find_setting_read: "list_all (\<lambda>s. \<not> nullish_value s) ss \<Longrightarrow> find_setting p ss \<noteq> None"
  by (induction ss) (auto simp: find_setting_def nullish_value_def split: bool.split)

lemma normal_settings_result:
  "case normal_settings raw of
     None \<Rightarrow> \<not> list_all readable_setting (settings_array raw)
   | Some (settings, l3, dev) \<Rightarrow> list_all readable_setting (settings_array raw)
       \<and> has_values [] [''ips_enabled''] settings \<and> list_all (has_values [''destination_networks''] []) l3"
proof (cases "list_all readable_setting (settings_array raw)")
  case True
  let ?ss = "settings_array raw"
  have r: "list_all (\<lambda>s. \<not> nullish_value s) ?ss"
    using True by (simp add: list_all_iff readable_setting_def)
  obtain l3 dev where iso: "isolation_lists ?ss ([], []) = Some (l3, dev)"
    using True isolation_lists_None [of ?ss "([], [])"] by (cases "isolation_lists ?ss ([], [])") auto
  have l3: "list_all (has_values [''destination_networks''] []) l3"
    by (rule isolation_lists_typed [OF iso]) simp
  have f: "\<exists>s. find_setting p ?ss = Some s" for p
    using find_setting_read [OF r, of p] by blast
  obtain a b c d where "find_setting (has_key ''mgmt'') ?ss = Some a" "find_setting (has_key ''ips'') ?ss = Some b"
      "find_setting (has_key ''dpi'') ?ss = Some c"
      "find_setting (\<lambda>s. json_truthy (opt_member s ''default_security_posture'')) ?ss = Some d"
    using f by meson
  moreover have "has_values [] [''ips_enabled''] (norm_settings raw m i p)" for m i p
    by (auto simp: norm_settings_def Let_def has_values_def is_object_def field_def om_get_def json_nullish_def
        nullish_value_def)
  ultimately show ?thesis
    using True iso l3 by (simp add: normal_settings_def Let_def)
next
  case False
  then have "isolation_lists (settings_array raw) ([], []) = None" by (simp add: isolation_lists_None)
  then have "normal_settings raw = None" by (auto simp: normal_settings_def Let_def split: bind_splits)
  with False show ?thesis by simp
qed

lemmas element_defs = has_values_def is_object_def field_def om_get_def same_fields_def renamed_def
  id_field_def name_field_def enabled_field_def

lemma elements_typed:
  "has_values [''name'', ''purpose''] [''_id'', ''vlan_enabled'', ''internet_access_enabled''] (norm_network x)"
  "has_values [''name'', ''ruleset'', ''action'', ''protocol''] [''_id'', ''enabled'', ''rule_index''] (norm_rule x)"
  "has_values [''name'', ''group_type''] [''_id''] (norm_group x)"
  "has_values [''name'', ''security''] [''_id'', ''enabled''] (norm_wlan x)"
  "has_values [''name'', ''action'', ''protocol'', ''source'', ''destination''] [''_id'', ''enabled'', ''predefined'', ''index''] (norm_policy x)"
  "has_values [''action''] [''_id'', ''enabled'', ''matching_target''] (norm_traffic_rule x)"
  "has_values [''name''] [''_id'', ''enabled''] (norm_radius x)"
  "has_values [''name'', ''proto''] [''_id'', ''enabled'', ''dst_port'', ''fwd'', ''fwd_port''] (norm_forward x)"
  "has_values [] [''mac'', ''is_wired''] (norm_client x)"
  "has_values [''type''] [''mac''] (norm_device x)"
  "has_values [''name'', ''type'', ''action''] [''_id'', ''enabled'', ''acl_index''] (norm_acl_rule x)"
  "has_values [''name'', ''protocol''] [''_id'', ''enabled'', ''port''] (norm_vpn x)"
  "has_values [''name'', ''zone_type''] [''_id''] (norm_zone x)"
  by (simp_all add: element_defs norm_network_def norm_rule_def norm_group_def norm_wlan_def norm_policy_def
      norm_traffic_rule_def norm_radius_def norm_forward_def norm_client_def norm_device_def norm_acl_rule_def
      norm_vpn_def norm_zone_def norm_endpoint_def)

lemma normalized_typed: "normalizeConfig raw = Some cfg \<Longrightarrow> readable_config raw \<and> typed_config cfg"
proof -
  assume n: "normalizeConfig raw = Some cfg"
  then obtain settings l3 dev where s: "normal_settings raw = Some (settings, l3, dev)"
      "uc_settings cfg = settings" "uc_l3AclIsolation cfg = l3"
    by (auto simp: normalizeConfig_def split: if_splits bind_splits)
  from n have ls: "norm_list raw [''networks'', ''networkConf'', ''networkconf''] norm_network = Some (uc_networks cfg)"
    "norm_list raw [''firewallRules'', ''firewall_rule''] norm_rule = Some (uc_firewallRules cfg)"
    "norm_list raw [''firewallGroups'', ''firewall_group''] norm_group = Some (uc_firewallGroups cfg)"
    "norm_list raw [''wlans'', ''wlanConf'', ''wlanconf''] norm_wlan = Some (uc_wlans cfg)"
    "norm_list raw [''firewallPolicies'', ''firewall_policies''] norm_policy = Some (uc_firewallPolicies cfg)"
    "norm_list raw [''trafficRules'', ''traffic_rules''] norm_traffic_rule = Some (uc_trafficRules cfg)"
    "norm_list raw [''radiusProfiles'', ''radius_profiles''] norm_radius = Some (uc_radiusProfiles cfg)"
    "norm_list raw [''portForwards'', ''portForward'', ''portforward''] norm_forward = Some (uc_portForwards cfg)"
    "norm_list raw [''clients'', ''user'', ''sta''] norm_client = Some (uc_clients cfg)"
    "norm_list raw [''devices'', ''device''] norm_device = Some (uc_devices cfg)"
    "norm_list raw [''aclRules'', ''aclrule''] norm_acl_rule = Some (uc_aclRules cfg)"
    "norm_list raw [''vpnServers'', ''vpn_servers''] norm_vpn = Some (uc_vpnServers cfg)"
    "norm_list raw [''firewallZones'', ''firewall_zones''] norm_zone = Some (uc_firewallZones cfg)"
    and raw: "\<not> nullish_value raw"
    by (auto simp: normalizeConfig_def nullish_value_def split: if_splits bind_splits)
  have r: "readable_list raw ks" if "norm_list raw ks f = Some ys" for ks f ys
    using that norm_list_readable [of raw ks f] by auto
  have "typed_config cfg"
    unfolding typed_config_def s using normal_settings_result [of raw] s
    by (intro conjI ls [THEN norm_list_all] elements_typed) auto
  moreover have "readable_config raw"
    using normal_settings_result [of raw] s raw ls [THEN r] by (simp add: readable_config_def)
  ultimately show ?thesis by simp
qed

lemma normalized_objects: "normalizeConfig raw = Some cfg \<Longrightarrow> object_networks cfg"
  by (drule normalized_typed) (auto simp: typed_config_def object_networks_def has_values_def list_all_iff)

lemma unreadable_config: "normalizeConfig raw = None \<Longrightarrow> \<not> readable_config raw"
  using normal_settings_result [of raw]
  by (auto simp: normalizeConfig_def norm_list_readable readable_config_def nullish_value_def split: if_splits bind_splits)

text \<open>C31: The normalisation fails exactly for configurations it cannot read: a configuration, a setting or an
  element that is null, or a list that is no array.  Otherwise every element is an object with the fields the
  rules take for granted, whatever the names the controller uses.
\<close>

theorem normalized_config_typed:
  "case normalizeConfig raw of
     None \<Rightarrow> \<not> readable_config raw
   | Some cfg \<Rightarrow> readable_config raw \<and> typed_config cfg \<and> object_networks cfg"
proof (cases "normalizeConfig raw")
  case (Some cfg)
  with normalized_typed [OF Some] normalized_objects [OF Some] show ?thesis by simp
qed (simp add: unreadable_config)

end
