(* ===== verification/Optimization_Rules.thy ===== *)
theory Optimization_Rules
  imports Config_Normal
begin

text \<open>
  The recommendations of \<open>scanners/rules/optimization.ts\<close>, on the normalised configuration.  A check is
  \<open>None\<close> when it throws, which a wireless network whose name is no text makes it do.
\<close>

record optimization_rule =
  or_id :: string
  or_sourceId :: string
  or_category :: rule_category
  or_name :: string
  or_description :: string
  or_severity :: severity
  or_impact :: string
  or_remediation :: string
  or_check :: "unifi_config \<Rightarrow> check_result list option"

section \<open>Helpers\<close>

definition iot_name :: "json \<Rightarrow> bool option" where
  "iot_name w = map_option (mentions_any [''iot'', ''smart'', ''device'']) (name_lower w)"

definition likelyHasMultipleAPs :: "unifi_config \<Rightarrow> bool" where
  "likelyHasMultipleAPs cfg \<longleftrightarrow> 2 < length (uc_networks cfg) \<or> 2 < length (uc_wlans cfg)"

definition recommend :: "string \<Rightarrow> string \<Rightarrow> string \<Rightarrow> string \<Rightarrow> check_result" where
  "recommend resource details current expected =
     \<lparr>cr_found = True, cr_resource = Some resource, cr_details = Some details, cr_current = Some current,
      cr_expected = Some expected\<rparr>"

text \<open>A finding on a wireless network, and the loop over them.\<close>

definition wifi_finding :: "json \<Rightarrow> string \<Rightarrow> string \<Rightarrow> string \<Rightarrow> string \<Rightarrow> check_result" where
  "wifi_finding w before after current expected =
     (let name = js_to_string (prop_of w ''name'') in
      recommend (''WiFi: '' @ name) (before @ '' \"'' @ name @ ''\" '' @ after) current expected)"

definition each_wlan :: "(json \<Rightarrow> check_result option option) \<Rightarrow> unifi_config \<Rightarrow> check_result list option" where
  "each_wlan f cfg = map_option (List.map_filter id) (map_m f (uc_wlans cfg))"

definition flag :: "string \<Rightarrow> json \<Rightarrow> bool" where
  "flag k v = json_truthy (prop_of v k)"

definition is_false :: "string \<Rightarrow> json \<Rightarrow> bool" where
  "is_false k v = strict_eq (prop_of v k) (JBool False)"

section \<open>Checks\<close>

definition check_iot_wifi :: "unifi_config \<Rightarrow> check_result list option" where
  "check_iot_wifi = each_wlan (\<lambda>w.
     if \<not> flag ''enabled'' w then Some None
     else map_option (\<lambda>iot. if iot \<and> \<not> flag ''optimize_iot'' w
       then Some (wifi_finding w ''IoT network'' ''does not have WiFi optimization enabled''
              ''Optimize IoT: Disabled'' ''Optimize IoT: Enabled'') else None) (iot_name w))"

definition check_band_steering :: "unifi_config \<Rightarrow> check_result list option" where
  "check_band_steering = each_wlan (\<lambda>w.
     if \<not> flag ''enabled'' w then Some None
     else map_option (\<lambda>iot. if \<not> iot \<and> \<not> flag ''is_guest'' w
         \<and> (prop_of w ''band_steering_mode'' = JStr ''off'' \<or> prop_of w ''band_steering_mode'' = JStr ''disabled'')
       then Some (wifi_finding w ''Network'' ''has band steering disabled''
              ''Band Steering: Disabled'' ''Band Steering: Prefer 5GHz or Balanced'') else None) (iot_name w))"

definition check_fast_roaming :: "unifi_config \<Rightarrow> check_result list option" where
  "check_fast_roaming cfg =
     (if \<not> likelyHasMultipleAPs cfg then Some []
      else each_wlan (\<lambda>w.
        if \<not> flag ''enabled'' w then Some None
        else map_option (\<lambda>iot. if \<not> iot \<and> \<not> flag ''is_guest'' w \<and> \<not> flag ''fast_roaming_enabled'' w
          then Some (wifi_finding w ''Network'' ''does not have fast roaming enabled''
                 ''802.11r: Disabled'' ''802.11r: Enabled'') else None) (iot_name w)) cfg)"

definition check_multicast :: "unifi_config \<Rightarrow> check_result list option" where
  "check_multicast = each_wlan (\<lambda>w.
     if \<not> flag ''enabled'' w \<or> flag ''is_guest'' w then Some None
     else map_option (\<lambda>iot. if \<not> iot \<and> is_false ''multicast_enhance'' w
       then Some (wifi_finding w ''Network'' ''does not have multicast enhancement enabled''
              ''Multicast Enhancement: Disabled'' ''Multicast Enhancement: Enabled'') else None) (iot_name w))"

definition check_igmp_snooping :: "unifi_config \<Rightarrow> check_result list option" where
  "check_igmp_snooping cfg = Some
     (if is_false ''igmp_snooping_enabled'' (uc_settings cfg)
      then [recommend ''Global Settings'' ''IGMP Snooping is disabled'' ''IGMP Snooping: Disabled'' ''IGMP Snooping: Enabled'']
      else [])"

definition check_mdns :: "unifi_config \<Rightarrow> check_result list option" where
  "check_mdns cfg = Some
     (if 1 < length (uc_networks cfg) \<and> is_false ''mdns_enabled'' (uc_settings cfg)
      then [recommend ''Global Settings'' ''mDNS is disabled but multiple networks exist'' ''mDNS: Disabled''
              ''mDNS: Enabled (if using smart home/AirPlay)'']
      else [])"

definition check_ssid_count :: "unifi_config \<Rightarrow> check_result list option" where
  "check_ssid_count cfg =
     (let n = length (filter (flag ''enabled'') (uc_wlans cfg)) in Some
        (if 5 < n
         then [recommend ''WiFi Configuration'' (show_nat n @ '' SSIDs are enabled, which may impact WiFi performance'')
                 (''SSIDs: '' @ show_nat n) ''SSIDs: 4-5 or fewer recommended'']
         else []))"

definition check_bss_transition :: "unifi_config \<Rightarrow> check_result list option" where
  "check_bss_transition cfg =
     (if \<not> likelyHasMultipleAPs cfg then Some []
      else each_wlan (\<lambda>w.
        if \<not> flag ''enabled'' w then Some None
        else map_option (\<lambda>iot. if \<not> iot \<and> \<not> flag ''is_guest'' w \<and> is_false ''bss_transition'' w
          then Some (wifi_finding w ''Network'' ''does not have BSS transition enabled''
                 ''802.11v: Disabled'' ''802.11v: Enabled'') else None) (iot_name w)) cfg)"

section \<open>The rules\<close>

definition opt_iot_wifi :: optimization_rule where
  "opt_iot_wifi =
     \<lparr>or_id = ''OPT-WIFI-001'', or_sourceId = ''industry-standards'', or_category = RC_optimization,
      or_name = ''IoT Network Missing WiFi Optimization'',
      or_description = ''Checks if IoT networks have the \"Optimize IoT WiFi Connectivity\" setting enabled'',
      or_severity = INFO,
      or_impact = ''IoT devices may experience connectivity issues. The IoT optimization setting disables band steering and adjusts DTIM for better IoT device compatibility.'',
      or_remediation = ''Enable \"Optimize IoT WiFi Connectivity\" in WiFi settings for IoT networks. This improves reliability for 2.4GHz-only smart home devices by disabling band steering and optimizing DTIM intervals.'',
      or_check = check_iot_wifi\<rparr>"

definition opt_band_steering :: optimization_rule where
  "opt_band_steering =
     \<lparr>or_id = ''OPT-WIFI-002'', or_sourceId = ''industry-standards'', or_category = RC_optimization,
      or_name = ''Band Steering Disabled on Main Network'',
      or_description = ''Checks if band steering is enabled on non-IoT networks to push capable devices to 5GHz'',
      or_severity = INFO,
      or_impact = ''Dual-band devices may stay on congested 2.4GHz instead of using faster 5GHz. Band steering helps move capable devices to the less congested 5GHz band.'',
      or_remediation = ''Enable Band Steering on your main/work networks. This automatically moves 5GHz-capable devices to the faster band, reducing 2.4GHz congestion. Note: Keep band steering disabled on IoT networks.'',
      or_check = check_band_steering\<rparr>"

definition opt_fast_roaming :: optimization_rule where
  "opt_fast_roaming =
     \<lparr>or_id = ''OPT-WIFI-003'', or_sourceId = ''industry-standards'', or_category = RC_optimization,
      or_name = ''Fast Roaming (802.11r) Not Enabled'',
      or_description = ''Checks if 802.11r fast BSS transition is enabled for networks with likely multiple APs'',
      or_severity = INFO,
      or_impact = ''Devices may experience brief disconnections when moving between access points. Fast roaming (802.11r) enables seamless handoff between APs.'',
      or_remediation = ''Enable Fast BSS Transition (802.11r) for networks used for VoIP, video calls, or when moving around with devices. Note: Some older devices may not support 802.11r.'',
      or_check = check_fast_roaming\<rparr>"

definition opt_multicast :: optimization_rule where
  "opt_multicast =
     \<lparr>or_id = ''OPT-WIFI-004'', or_sourceId = ''industry-standards'', or_category = RC_optimization,
      or_name = ''Multicast Enhancement Not Enabled'',
      or_description = ''Checks if multicast enhancement (IGMPv3) is enabled for better streaming performance'',
      or_severity = INFO,
      or_impact = ''Multicast traffic (streaming, AirPlay, Chromecast) may be inefficient. Multicast enhancement converts multicast to unicast for better reliability.'',
      or_remediation = ''Enable Multicast Enhancement for networks with streaming devices. This can improve performance for smart speakers, streaming devices, and AirPlay/Chromecast.'',
      or_check = check_multicast\<rparr>"

definition opt_igmp_snooping :: optimization_rule where
  "opt_igmp_snooping =
     \<lparr>or_id = ''OPT-NET-001'', or_sourceId = ''industry-standards'', or_category = RC_optimization,
      or_name = ''IGMP Snooping Not Enabled'',
      or_description = ''Checks if IGMP snooping is enabled to optimize multicast traffic'',
      or_severity = INFO,
      or_impact = ''Multicast traffic may flood all switch ports instead of only ports with interested receivers. This wastes bandwidth and can cause congestion.'',
      or_remediation = ''Enable IGMP Snooping in switch settings. This ensures multicast traffic only goes to devices that requested it, improving network efficiency.'',
      or_check = check_igmp_snooping\<rparr>"

definition opt_mdns :: optimization_rule where
  "opt_mdns =
     \<lparr>or_id = ''OPT-NET-002'', or_sourceId = ''industry-standards'', or_category = RC_optimization,
      or_name = ''mDNS Not Enabled for Smart Home'',
      or_description = ''Checks if mDNS (multicast DNS) is enabled for device discovery'',
      or_severity = INFO,
      or_impact = ''Smart home devices, AirPlay, Chromecast, and other discovery-based services may not work across VLANs. mDNS reflection enables cross-VLAN device discovery.'',
      or_remediation = ''Enable mDNS in Services settings if you have smart home devices or use AirPlay/Chromecast across VLANs. Note: Only enable where needed for security.'',
      or_check = check_mdns\<rparr>"

definition opt_ssid_count :: optimization_rule where
  "opt_ssid_count =
     \<lparr>or_id = ''OPT-NET-003'', or_sourceId = ''industry-standards'', or_category = RC_optimization,
      or_name = ''Too Many SSIDs'',
      or_description = ''Checks if there are too many SSIDs which can impact performance'',
      or_severity = INFO,
      or_impact = ''Each SSID adds management overhead and beacon traffic. More than 4-5 SSIDs per AP can noticeably impact performance and airtime.'',
      or_remediation = ''Consider consolidating SSIDs where possible. Use VLANs with a single SSID and dynamic VLAN assignment, or reduce the number of separate networks.'',
      or_check = check_ssid_count\<rparr>"

definition opt_bss_transition :: optimization_rule where
  "opt_bss_transition =
     \<lparr>or_id = ''OPT-NET-005'', or_sourceId = ''industry-standards'', or_category = RC_optimization,
      or_name = ''BSS Transition (802.11v) Not Enabled'',
      or_description = ''Checks if 802.11v BSS transition is enabled for assisted roaming'',
      or_severity = INFO,
      or_impact = ''APs cannot suggest better APs to clients. 802.11v allows APs to inform clients of better connection options, improving roaming.'',
      or_remediation = ''Enable BSS Transition (802.11v) for smoother client roaming between access points. Works well in combination with 802.11r fast roaming.'',
      or_check = check_bss_transition\<rparr>"

definition optimizationRules :: "optimization_rule list" where
  "optimizationRules = [opt_iot_wifi, opt_band_steering, opt_fast_roaming, opt_multicast, opt_igmp_snooping,
     opt_mdns, opt_ssid_count, opt_bss_transition]"

end
