(* ===== verification/Rule_Scanner.thy ===== *)
theory Rule_Scanner
  imports Rule_Reports Optimization_Rules Test_Processor
begin

text \<open>
  The analyses of \<open>scanners/index.ts\<close>: \<open>runSecurityAnalysis\<close> executes the loaded rules on the normalised
  configuration, applies the dismissals and counts, \<open>runOptimizationAnalysis\<close> does the same for the
  recommendations, \<open>toVulnerabilityFindings\<close> turns an analysis into findings, and the route
  \<open>POST /analyze\<close> of \<open>api/routes/security.ts\<close> stores them.  Arguments are what the rule loader holds (the
  rules and the names of the sources) and the clock.
\<close>

section \<open>Results\<close>

record rule_finding =
  rf_title :: string
  rf_description :: string
  rf_impact :: string
  rf_remediation :: string
  rf_affectedResource :: "string option"
  rf_details :: "string option"
  rf_currentValue :: "string option"
  rf_expectedValue :: "string option"
  rf_isDismissed :: "bool option"
  rf_dismissalId :: "string option"
  rf_dismissalReason :: "string option"

record rule_evaluation =
  ev_ruleId :: string
  ev_ruleName :: string
  ev_ruleDescription :: string
  ev_sourceId :: string
  ev_sourceName :: string
  ev_category :: rule_category
  ev_severity :: severity
  ev_passed :: bool
  ev_findings :: "rule_finding list"

record analysis_summary =
  as_totalRules :: nat
  as_passed :: nat
  as_failed :: nat
  as_dismissed :: "nat option"
  as_bySeverity :: "severity \<Rightarrow> nat"
  as_bySource :: "(string \<times> nat) list"
  as_byCategory :: "rule_category \<Rightarrow> nat"

record security_analysis =
  sa_analyzedAt :: int
  sa_duration :: int
  sa_summary :: analysis_summary
  sa_results :: "rule_evaluation list"

text \<open>The variables of the two loops.\<close>

record tally =
  ta_passed :: nat
  ta_failed :: nat
  ta_dismissed :: nat
  ta_bySeverity :: "severity \<Rightarrow> nat"
  ta_bySource :: "(string \<times> nat) list"
  ta_byCategory :: "rule_category \<Rightarrow> nat"
  ta_results :: "rule_evaluation list"

definition fresh_tally :: tally where
  "fresh_tally = \<lparr>ta_passed = 0, ta_failed = 0, ta_dismissed = 0, ta_bySeverity = (\<lambda>_. 0), ta_bySource = [],
     ta_byCategory = (\<lambda>_. 0), ta_results = []\<rparr>"

definition active_finding :: "rule_finding \<Rightarrow> bool" where
  "active_finding f \<longleftrightarrow> rf_isDismissed f \<noteq> Some True"

text \<open>The counters and the result of one rule with its findings.\<close>

definition count_rule :: "rule_evaluation \<Rightarrow> tally \<Rightarrow> tally" where
  "count_rule ev t =
     (let n = length (filter active_finding (ev_findings ev));
          t1 = (if n = 0 then t\<lparr>ta_passed := ta_passed t + 1\<rparr>
                else t\<lparr>ta_failed := ta_failed t + 1,
                  ta_bySeverity := (ta_bySeverity t)(ev_severity ev := ta_bySeverity t (ev_severity ev) + n),
                  ta_bySource := om_set (ev_sourceId ev) (dflt 0 (om_get (ta_bySource t) (ev_sourceId ev)) + n) (ta_bySource t),
                  ta_byCategory := (ta_byCategory t)(ev_category ev := ta_byCategory t (ev_category ev) + n)\<rparr>)
      in t1\<lparr>ta_dismissed := ta_dismissed t + length (filter (\<lambda>f. \<not> active_finding f) (ev_findings ev)),
            ta_results := ta_results t @ [ev]\<rparr>)"

definition summary_of :: "nat \<Rightarrow> tally \<Rightarrow> analysis_summary" where
  "summary_of n t = \<lparr>as_totalRules = n, as_passed = ta_passed t, as_failed = ta_failed t,
     as_dismissed = Some (ta_dismissed t), as_bySeverity = ta_bySeverity t, as_bySource = ta_bySource t,
     as_byCategory = ta_byCategory t\<rparr>"

section \<open>Dismissals\<close>

record rule_dismissal =
  dm_id :: string
  dm_findingId :: string
  dm_affectedResource :: "string option"
  dm_reason :: string

type_synonym dismissal_map = "(string \<times> (string \<times> rule_dismissal) list) list"

definition add_dismissal :: "dismissal_map \<Rightarrow> rule_dismissal \<Rightarrow> dismissal_map" where
  "add_dismissal m d =
     om_set (dm_findingId d)
       (om_set (str_dflt (dm_affectedResource d) ''__all__'') d (dflt [] (om_get m (dm_findingId d)))) m"

definition dismissal_map :: "rule_dismissal list \<Rightarrow> dismissal_map" where
  "dismissal_map ds = foldl add_dismissal [] ds"

definition findDismissal :: "dismissal_map \<Rightarrow> string \<Rightarrow> string option \<Rightarrow> rule_dismissal option" where
  "findDismissal m ruleId resource =
     (case om_get m ruleId of
        None \<Rightarrow> None
      | Some rm \<Rightarrow>
          (case (if truthy resource then om_get rm (the resource) else None) of
             Some d \<Rightarrow> Some d
           | None \<Rightarrow> om_get rm ''__all__''))"

section \<open>The security analysis\<close>

definition dismissed_finding :: "dismissal_map \<Rightarrow> security_rule \<Rightarrow> check_result \<Rightarrow> rule_finding" where
  "dismissed_finding m rule f =
     (let d = findDismissal m (sr_id rule) (cr_resource f) in
      \<lparr>rf_title = sr_name rule, rf_description = sr_description rule, rf_impact = sr_impact rule,
       rf_remediation = sr_remediation rule, rf_affectedResource = cr_resource f, rf_details = cr_details f,
       rf_currentValue = cr_current f, rf_expectedValue = cr_expected f, rf_isDismissed = Some (d \<noteq> None),
       rf_dismissalId = map_option dm_id d, rf_dismissalReason = map_option dm_reason d\<rparr>)"

definition evaluation_of :: "(string \<Rightarrow> string option) \<Rightarrow> dismissal_map \<Rightarrow> security_rule \<Rightarrow> rule_execution \<Rightarrow> rule_evaluation" where
  "evaluation_of sourceName m rule x =
     (let findings = map (dismissed_finding m rule) (filter cr_found (rx_findings x));
          sourceId = str_dflt (sr_sourceId rule) ''unknown'' in
      \<lparr>ev_ruleId = sr_id rule, ev_ruleName = sr_name rule, ev_ruleDescription = sr_description rule,
       ev_sourceId = sourceId, ev_sourceName = str_dflt (sourceName sourceId) sourceId,
       ev_category = sr_category rule, ev_severity = sr_severity rule,
       ev_passed = (filter active_finding findings = []), ev_findings = findings\<rparr>)"

definition count_execution ::
    "(string \<Rightarrow> string option) \<Rightarrow> dismissal_map \<Rightarrow> (string \<times> security_rule) list \<Rightarrow> tally \<Rightarrow> rule_execution \<Rightarrow> tally" where
  "count_execution sourceName m ruleById t x =
     (case om_get ruleById (rx_ruleId x) of
        None \<Rightarrow> t
      | Some rule \<Rightarrow> count_rule (evaluation_of sourceName m rule x) t)"

definition runSecurityAnalysis ::
    "regex \<Rightarrow> security_rule list \<Rightarrow> (string \<Rightarrow> string option) \<Rightarrow> int \<Rightarrow> int \<Rightarrow> rule_dismissal list \<Rightarrow> json \<Rightarrow> security_analysis option" where
  "runSecurityAnalysis re rules sourceName startTime now dismissals raw =
     map_option (\<lambda>cfg.
        let ruleById = om_of (map (\<lambda>r. (sr_id r, r)) rules);
            t = foldl (count_execution sourceName (dismissal_map dismissals) ruleById) fresh_tally
                  (snd (executeAllRules re rules cfg))
        in \<lparr>sa_analyzedAt = now, sa_duration = now - startTime, sa_summary = summary_of (length rules) t,
            sa_results = ta_results t\<rparr>) (normalizeConfig raw)"

section \<open>The recommendations\<close>

definition RULE_SOURCES :: "string \<Rightarrow> string option" where
  "RULE_SOURCES i = (if i = ''internal'' then Some ''ZeroProof''
     else if i = ''industry-standards'' then Some ''Industry Standards'' else None)"

definition recommendation :: "optimization_rule \<Rightarrow> check_result \<Rightarrow> rule_finding" where
  "recommendation rule f =
     \<lparr>rf_title = or_name rule, rf_description = or_description rule, rf_impact = or_impact rule,
      rf_remediation = or_remediation rule, rf_affectedResource = cr_resource f, rf_details = cr_details f,
      rf_currentValue = cr_current f, rf_expectedValue = cr_expected f, rf_isDismissed = None,
      rf_dismissalId = None, rf_dismissalReason = None\<rparr>"

definition count_optimization :: "unifi_config \<Rightarrow> tally \<Rightarrow> optimization_rule \<Rightarrow> tally" where
  "count_optimization cfg t rule =
     (case or_check rule cfg of
        None \<Rightarrow> t
      | Some rs \<Rightarrow>
          let findings = map (recommendation rule) (filter cr_found rs) in
          count_rule \<lparr>ev_ruleId = or_id rule, ev_ruleName = or_name rule, ev_ruleDescription = or_description rule,
            ev_sourceId = or_sourceId rule, ev_sourceName = str_dflt (RULE_SOURCES (or_sourceId rule)) (or_sourceId rule),
            ev_category = or_category rule, ev_severity = or_severity rule, ev_passed = (findings = []),
            ev_findings = findings\<rparr> t)"

definition runOptimizationAnalysis :: "int \<Rightarrow> int \<Rightarrow> json \<Rightarrow> security_analysis option" where
  "runOptimizationAnalysis startTime now raw =
     map_option (\<lambda>cfg.
        let t = foldl (count_optimization cfg) fresh_tally optimizationRules
        in \<lparr>sa_analyzedAt = now, sa_duration = now - startTime,
            sa_summary = (summary_of (length optimizationRules) t)\<lparr>as_dismissed := None\<rparr>,
            sa_results = ta_results t\<rparr>) (normalizeConfig raw)"

section \<open>Findings for the database\<close>

record external_finding = vuln_finding +
  xf_source :: string
  xf_externalId :: string
  xf_externalCategory :: rule_category

definition underscored :: "string \<Rightarrow> string" where
  "underscored s = map (\<lambda>c. if c = CHR ''-'' then CHR ''_'' else c) (to_lower s)"

definition vulnerability_of :: "rule_evaluation \<Rightarrow> rule_finding \<Rightarrow> external_finding" where
  "vulnerability_of ev f =
     \<lparr>fd_type = underscored (ev_ruleId ev), fd_severity = ev_severity ev, fd_title = rf_title f,
      fd_description = rf_description f @ (if truthy (rf_details f) then ''. '' @ the (rf_details f) else []),
      fd_impact = Some (rf_impact f), fd_remediation = Some (rf_remediation f),
      fd_affectedResource = rf_affectedResource f, fd_cveId = None,
      xf_source = (if ev_sourceId ev = ''community'' then ''custom'' else ''internal''),
      xf_externalId = ev_ruleId ev, xf_externalCategory = ev_category ev\<rparr>"

definition toVulnerabilityFindings :: "security_analysis \<Rightarrow> external_finding list" where
  "toVulnerabilityFindings a =
     concat (map (\<lambda>ev. if ev_passed ev then [] else map (vulnerability_of ev) (ev_findings ev)) (sa_results a))"

section \<open>Storing them\<close>

text \<open>
  The loop of \<open>POST /analyze\<close> under \<open>saveFindings\<close>: the first row of the configuration with the type and
  the resource is updated, and a new row is made when there is none.
\<close>

definition same_finding :: "string \<Rightarrow> external_finding \<Rightarrow> vuln \<Rightarrow> bool" where
  "same_finding configId f v \<longleftrightarrow> vl_configId v = Some configId \<and> vl_type v = fd_type f
     \<and> vl_affectedResource v = (if truthy (fd_affectedResource f) then fd_affectedResource f else None)"

definition new_rule_vuln :: "nat \<Rightarrow> int \<Rightarrow> string \<Rightarrow> external_finding \<Rightarrow> vuln" where
  "new_rule_vuln i now configId f =
     \<lparr>vl_id = i, vl_testRunId = None, vl_configId = Some configId, vl_type = fd_type f, vl_severity = fd_severity f,
      vl_title = fd_title f, vl_description = fd_description f, vl_impact = fd_impact f,
      vl_remediation = fd_remediation f, vl_affectedResource = fd_affectedResource f, vl_cveId = None,
      vl_status = VOpen, vl_firstSeen = now, vl_lastSeen = now, vl_notes = None\<rparr>"

definition save_finding :: "int \<Rightarrow> string \<Rightarrow> processor_db \<Rightarrow> external_finding \<Rightarrow> processor_db" where
  "save_finding now configId db f =
     (case List.find (same_finding configId f) (pd_vulns db) of
        Some e \<Rightarrow> db\<lparr>pd_vulns := map (\<lambda>v. if vl_id v = vl_id e
            then v\<lparr>vl_lastSeen := now, vl_severity := fd_severity f, vl_description := fd_description f\<rparr> else v) (pd_vulns db)\<rparr>
      | None \<Rightarrow> db\<lparr>pd_nextId := Suc (pd_nextId db), pd_vulns := pd_vulns db @ [new_rule_vuln (pd_nextId db) now configId f]\<rparr>)"

definition save_findings :: "int \<Rightarrow> string \<Rightarrow> processor_db \<Rightarrow> external_finding list \<Rightarrow> processor_db" where
  "save_findings now configId db fs = foldl (save_finding now configId) db fs"

section \<open>Which findings are dismissed\<close>

definition dismissal_key :: "rule_dismissal \<Rightarrow> string" where
  "dismissal_key d = str_dflt (dm_affectedResource d) ''__all__''"

lemma dismissal_map_get:
  "om_get (dflt [] (om_get (dismissal_map ds) r)) k \<noteq> None \<longleftrightarrow>
     (\<exists>d \<in> set ds. dm_findingId d = r \<and> dismissal_key d = k)"
proof (induction ds rule: rev_induct)
  case (snoc d ds)
  have "dismissal_map (ds @ [d]) = add_dismissal (dismissal_map ds) d" by (simp add: dismissal_map_def)
  then show ?case using snoc.IH by (auto simp: add_dismissal_def om_get_set dismissal_key_def)
qed (simp add: dismissal_map_def)

lemma findDismissal_iff:
  "findDismissal (dismissal_map ds) r res \<noteq> None \<longleftrightarrow>
     (\<exists>d \<in> set ds. dm_findingId d = r \<and> (dismissal_key d = ''__all__'' \<or> truthy res \<and> dismissal_key d = the res))"
proof -
  have "findDismissal (dismissal_map ds) r res \<noteq> None \<longleftrightarrow>
      truthy res \<and> om_get (dflt [] (om_get (dismissal_map ds) r)) (the res) \<noteq> None
      \<or> om_get (dflt [] (om_get (dismissal_map ds) r)) ''__all__'' \<noteq> None"
    by (auto simp: findDismissal_def split: option.split)
  then show ?thesis by (simp only: dismissal_map_get) blast
qed

section \<open>The counts\<close>

definition active_count :: "rule_evaluation \<Rightarrow> nat" where
  "active_count ev = length (filter active_finding (ev_findings ev))"

definition tally_adds :: "tally \<Rightarrow> bool" where
  "tally_adds t \<longleftrightarrow>
     ta_passed t = length (filter (\<lambda>ev. active_count ev = 0) (ta_results t)) \<and>
     ta_failed t = length (filter (\<lambda>ev. active_count ev \<noteq> 0) (ta_results t)) \<and>
     ta_dismissed t = (\<Sum>ev \<leftarrow> ta_results t. length (filter (\<lambda>f. \<not> active_finding f) (ev_findings ev))) \<and>
     (\<forall>s. ta_bySeverity t s = (\<Sum>ev \<leftarrow> filter (\<lambda>ev. ev_severity ev = s) (ta_results t). active_count ev)) \<and>
     (\<forall>c. ta_byCategory t c = (\<Sum>ev \<leftarrow> filter (\<lambda>ev. ev_category ev = c) (ta_results t). active_count ev)) \<and>
     (\<forall>i. dflt 0 (om_get (ta_bySource t) i) = (\<Sum>ev \<leftarrow> filter (\<lambda>ev. ev_sourceId ev = i) (ta_results t). active_count ev))"

lemma counted_fresh: "tally_adds fresh_tally"
  by (simp add: tally_adds_def fresh_tally_def)

lemma counted_rule: "tally_adds t \<Longrightarrow> tally_adds (count_rule ev t)"
  by (simp add: tally_adds_def count_rule_def Let_def active_count_def [symmetric] om_get_set)

lemma results_rule: "ta_results (count_rule ev t) = ta_results t @ [ev]"
  by (simp add: count_rule_def Let_def)

lemma counted_all: "tally_adds (foldl (\<lambda>t ev. count_rule ev t) fresh_tally evs)"
  by (induction evs rule: rev_induct) (simp_all add: counted_fresh counted_rule)

lemma results_all: "ta_results (foldl (\<lambda>t ev. count_rule ev t) fresh_tally evs) = evs"
  by (induction evs rule: rev_induct) (simp_all add: results_rule, simp add: fresh_tally_def)

lemma by_id:
  assumes "distinct (map sr_id rules)" "r \<in> set rules"
  shows "om_get (om_of (map (\<lambda>r. (sr_id r, r)) rules)) (sr_id r) = Some r"
  using assms by (subst om_get_of) (simp add: map_of_eq_Some_iff rev_map [symmetric] o_def distinct_map)

lemma count_executions:
  assumes "\<And>r. r \<in> set rs \<Longrightarrow> om_get m (sr_id r) = Some r" "\<And>r. rx_ruleId (x r) = sr_id r"
  shows "foldl (count_execution src dm m) t (map x rs) = foldl (\<lambda>t ev. count_rule ev t) t (map (\<lambda>r. evaluation_of src dm r (x r)) rs)"
  using assms(1) by (induction rs arbitrary: t) (simp_all add: count_execution_def assms(2))

text \<open>C10: The security analysis evaluates every loaded rule once, in order, with the result of that rule alone on the
  configuration as it was normalised, provided that the rules have different ids and that none of them reads one of the two
  fields that the engine writes into the networks (\<open>note_keys\<close>; a rule that reads them depends on the rules before
  it, as \<open>written_fields_leak\<close> shows).  Each finding is dismissed exactly when a dismissal of its rule names its resource
  or none; a rule passes exactly when no finding is left, and the counts by severity, category and source add up the
  findings left.
\<close>

theorem security_analysis_exact:
  assumes a: "runSecurityAnalysis re rules src start now ds raw = Some a"
    and d: "distinct (map sr_id rules)" and n: "\<forall>r \<in> set rules. rule_reads (sr_detection r) \<inter> note_keys = {}"
  shows "\<exists>cfg. normalizeConfig raw = Some cfg \<and>
      sa_results a = map (\<lambda>r. evaluation_of src (dismissal_map ds) r (snd (executeRule re r cfg))) rules \<and>
      (\<forall>r f. rf_isDismissed (dismissed_finding (dismissal_map ds) r f) = Some (\<exists>d \<in> set ds. dm_findingId d = sr_id r
          \<and> (dismissal_key d = ''__all__'' \<or> truthy (cr_resource f) \<and> dismissal_key d = the (cr_resource f)))) \<and>
      as_totalRules (sa_summary a) = length rules \<and>
      as_passed (sa_summary a) + as_failed (sa_summary a) = length rules \<and>
      as_passed (sa_summary a) = length (filter ev_passed (sa_results a)) \<and>
      (\<forall>s. as_bySeverity (sa_summary a) s = (\<Sum>ev \<leftarrow> filter (\<lambda>ev. ev_severity ev = s) (sa_results a). active_count ev)) \<and>
      (\<forall>c. as_byCategory (sa_summary a) c = (\<Sum>ev \<leftarrow> filter (\<lambda>ev. ev_category ev = c) (sa_results a). active_count ev)) \<and>
      (\<forall>i. dflt 0 (om_get (as_bySource (sa_summary a)) i) = (\<Sum>ev \<leftarrow> filter (\<lambda>ev. ev_sourceId ev = i) (sa_results a). active_count ev))"
proof -
  from a obtain cfg where cfg: "normalizeConfig raw = Some cfg" by (auto simp: runSecurityAnalysis_def)
  then have o: "object_networks cfg" using normalized_objects by blast
  define evs where "evs = map (\<lambda>r. evaluation_of src (dismissal_map ds) r (snd (executeRule re r cfg))) rules"
  let ?t = "foldl (\<lambda>t ev. count_rule ev t) fresh_tally evs"
  have "foldl (count_execution src (dismissal_map ds) (om_of (map (\<lambda>r. (sr_id r, r)) rules))) fresh_tally
      (snd (executeAllRules re rules cfg)) = ?t"
    unfolding evs_def executeAllRules_frame [OF agree_config_refl o n]
    by (rule count_executions) (simp_all add: by_id [OF d] executeRule_eq)
  with a cfg have s: "sa_results a = evs" "sa_summary a = summary_of (length rules) ?t"
    by (auto simp: runSecurityAnalysis_def Let_def results_all)
  have p: "ev_passed ev \<longleftrightarrow> active_count ev = 0" if "ev \<in> set evs" for ev
    using that by (auto simp: evs_def evaluation_of_def Let_def active_count_def)
  have c: "tally_adds ?t" by (rule counted_all)
  have len: "length evs = length rules" by (simp add: evs_def)
  have "as_passed (sa_summary a) + as_failed (sa_summary a) = length rules"
    using c sum_length_filter_compl [of "\<lambda>ev. active_count ev = 0" evs]
    by (simp add: s summary_of_def tally_adds_def results_all len)
  moreover have "as_passed (sa_summary a) = length (filter ev_passed evs)"
    using c by (simp add: s summary_of_def tally_adds_def results_all) (rule arg_cong [where f = length], rule filter_cong, auto simp: p)
  moreover have "rf_isDismissed (dismissed_finding (dismissal_map ds) r f) = Some (\<exists>d \<in> set ds. dm_findingId d = sr_id r
          \<and> (dismissal_key d = ''__all__'' \<or> truthy (cr_resource f) \<and> dismissal_key d = the (cr_resource f)))" for r f
    by (simp add: dismissed_finding_def Let_def findDismissal_iff del: not_None_eq)
  ultimately show ?thesis
    using c by (intro exI [of _ cfg]) (simp add: cfg s evs_def summary_of_def tally_adds_def results_all)
qed

definition example_raw :: json where
  "example_raw = JObj [(''networks'', JArr [
     JObj [(''id'', JStr ''1''), (''name'', JStr ''main'')], JObj [(''id'', JStr ''2''), (''network_name'', JStr ''iot'')]])]"

definition example_rules :: "security_rule list" where
  "example_rules = [plain_rule ''A'' (coverage_detection ''iot'' ''main''),
     plain_rule ''B'' (plain_detection ''networks'' None (field_cond ''name'' ''equals'' (JStr ''iot'')) ''{{name}}'')]"

lemma example_rules_silent: "\<forall>r \<in> set example_rules. rule_reads (sr_detection r) \<inter> note_keys = {}"
proof -
  have k: "template_keys ''{{name}}'' = {''name''}" by code_simp
  show ?thesis
    by (simp add: example_rules_def example_defs rule_reads_def writes_notes_def filter_roots_def output_keys_def
        text_keys_def k note_keys_def path_root_def split_on_no_sep del: template_keys.simps(2))
qed

theorem security_analysis_exact_witness:
  "\<exists>a cfg. runSecurityAnalysis plain_re example_rules (\<lambda>_. None) 0 5 [] example_raw = Some a
     \<and> normalizeConfig example_raw = Some cfg
     \<and> sa_results a = map (\<lambda>r. evaluation_of (\<lambda>_. None) (dismissal_map []) r (snd (executeRule plain_re r cfg))) example_rules
     \<and> as_passed (sa_summary a) + as_failed (sa_summary a) = 2"
proof -
  have "readable_config example_raw" by code_simp
  then obtain cfg where "normalizeConfig example_raw = Some cfg"
    using unreadable_config by (cases "normalizeConfig example_raw") auto
  then obtain a where a: "runSecurityAnalysis plain_re example_rules (\<lambda>_. None) 0 5 [] example_raw = Some a"
    by (simp add: runSecurityAnalysis_def)
  have d: "distinct (map sr_id example_rules)" by (simp add: example_rules_def plain_rule_def)
  have "length example_rules = 2" by (simp add: example_rules_def)
  from security_analysis_exact [OF a d example_rules_silent] obtain cfg where
    "normalizeConfig example_raw = Some cfg"
    "sa_results a = map (\<lambda>r. evaluation_of (\<lambda>_. None) (dismissal_map []) r (snd (executeRule plain_re r cfg))) example_rules"
    "as_passed (sa_summary a) + as_failed (sa_summary a) = length example_rules"
    by (elim exE conjE)
  moreover from this have "as_passed (sa_summary a) + as_failed (sa_summary a) = 2"
    by (simp only: \<open>length example_rules = 2\<close>)
  ultimately show ?thesis using a by (intro exI conjI)
qed

text \<open>A rule that throws is among those that passed: the second port is the one the rule looks for.\<close>

definition forward_example :: json where
  "forward_example = JObj [(''portForwards'', JArr [JObj [(''name'', JStr ''ssh''), (''dst_port'', JNum 22)]])]"

definition port_rule :: security_rule where
  "port_rule = plain_rule ''PF-1'' (plain_detection ''portForwards'' None
     (field_cond ''dst_port'' ''in_port_list'' (JArr [JNum 22])) ''{{name}}'')"

lemma failing_rule_passes:
  "map_option (\<lambda>a. (map ev_passed (sa_results a), as_failed (sa_summary a)))
     (runSecurityAnalysis plain_re [port_rule] (\<lambda>_. None) 0 5 [] forward_example) = Some ([True], 0)"
  by code_simp

text \<open>A dismissed finding is stored with the findings that are left of its rule.\<close>

lemma dismissed_finding_stored:
  "ev \<in> set (sa_results a) \<Longrightarrow> \<not> ev_passed ev \<Longrightarrow>
   fd_affectedResource ` set (toVulnerabilityFindings a) \<supseteq> rf_affectedResource ` set (ev_findings ev)"
  by (force simp: toVulnerabilityFindings_def vulnerability_of_def)

section \<open>Rows after storing\<close>

definition row_key :: "vuln \<Rightarrow> string option \<times> string \<times> string option" where
  "row_key v = (vl_configId v, vl_type v, vl_affectedResource v)"

definition finding_key :: "string \<Rightarrow> external_finding \<Rightarrow> string option \<times> string \<times> string option" where
  "finding_key c f = (Some c, fd_type f, if truthy (fd_affectedResource f) then fd_affectedResource f else None)"

lemma same_finding_key: "same_finding c f v \<longleftrightarrow> row_key v = finding_key c f"
  by (auto simp: same_finding_def row_key_def finding_key_def)

text \<open>Every row is still there, with what the user and the first sighting gave it.\<close>

definition row_kept :: "vuln \<Rightarrow> vuln \<Rightarrow> bool" where
  "row_kept v v' \<longleftrightarrow> vl_id v' = vl_id v \<and> row_key v' = row_key v \<and> vl_status v' = vl_status v
     \<and> vl_title v' = vl_title v \<and> vl_firstSeen v' = vl_firstSeen v \<and> vl_notes v' = vl_notes v"

definition rows_kept :: "processor_db \<Rightarrow> processor_db \<Rightarrow> bool" where
  "rows_kept db db' \<longleftrightarrow> (\<forall>v \<in> set (pd_vulns db). \<exists>v' \<in> set (pd_vulns db'). row_kept v v')"

lemma row_kept_trans: "row_kept a b \<Longrightarrow> row_kept b c \<Longrightarrow> row_kept a c"
  by (simp add: row_kept_def)

lemma rows_kept_trans: "rows_kept a b \<Longrightarrow> rows_kept b c \<Longrightarrow> rows_kept a c"
  unfolding rows_kept_def using row_kept_trans by meson

lemma rows_kept_refl: "rows_kept a a"
  by (auto simp: rows_kept_def row_kept_def)

definition row_keys :: "processor_db \<Rightarrow> (string option \<times> string \<times> string option) set" where
  "row_keys db = row_key ` set (pd_vulns db)"

lemma save_finding_cases:
  assumes "vulns_wf db"
  obtains (update) e where "e \<in> set (pd_vulns db)" "row_key e = finding_key c f"
      "save_finding now c db f = db\<lparr>pd_vulns := map (\<lambda>v. if v = e
         then v\<lparr>vl_lastSeen := now, vl_severity := fd_severity f, vl_description := fd_description f\<rparr> else v) (pd_vulns db)\<rparr>"
    | (create) "finding_key c f \<notin> row_keys db"
      "save_finding now c db f = db\<lparr>pd_nextId := Suc (pd_nextId db), pd_vulns := pd_vulns db @ [new_rule_vuln (pd_nextId db) now c f]\<rparr>"
proof (cases "List.find (same_finding c f) (pd_vulns db)")
  case None
  then have "finding_key c f \<notin> row_keys db" by (auto simp: find_None_iff same_finding_key row_keys_def)
  with None show ?thesis by (intro create) (simp_all add: save_finding_def)
next
  case (Some e)
  then have e: "e \<in> set (pd_vulns db)" "row_key e = finding_key c f"
    by (auto simp: find_Some_iff same_finding_key)
  have "vl_id v = vl_id e \<longleftrightarrow> v = e" if "v \<in> set (pd_vulns db)" for v
    using assms e(1) that by (auto simp: vulns_wf_def distinct_map inj_on_def)
  then show ?thesis
    by (intro update [OF e]) (auto simp: save_finding_def Some intro!: map_cong)
qed

lemma new_row_key: "fd_affectedResource f \<noteq> Some [] \<Longrightarrow> row_key (new_rule_vuln i now c f) = finding_key c f"
  by (cases "fd_affectedResource f") (auto simp: row_key_def new_rule_vuln_def finding_key_def)

text \<open>What one step guarantees of the rows before and after it.\<close>

definition step_ok :: "int \<Rightarrow> string \<Rightarrow> external_finding \<Rightarrow> processor_db \<Rightarrow> processor_db \<Rightarrow> bool" where
  "step_ok now c f db db' \<longleftrightarrow> vulns_wf db' \<and> rows_kept db db' \<and> row_keys db' = insert (finding_key c f) (row_keys db) \<and>
     (\<exists>v \<in> set (pd_vulns db'). row_key v = finding_key c f \<and> vl_lastSeen v = now) \<and>
     length (pd_vulns db') = length (pd_vulns db) + (if finding_key c f \<in> row_keys db then 0 else 1) \<and>
     (\<forall>v \<in> set (pd_vulns db'). v \<in> set (pd_vulns db) \<or> row_key v = finding_key c f \<and> vl_lastSeen v = now) \<and>
     (\<forall>v \<in> set (pd_vulns db). row_key v = finding_key c f \<or> v \<in> set (pd_vulns db'))"

lemma save_finding_step:
  assumes wf: "vulns_wf db" and res: "fd_affectedResource f \<noteq> Some []"
  shows "step_ok now c f db (save_finding now c db f)"
  using wf
proof (cases rule: save_finding_cases [where c = c and f = f and now = now])
  case (update e)
  let ?u = "\<lambda>v. v\<lparr>vl_lastSeen := now, vl_severity := fd_severity f, vl_description := fd_description f\<rparr>"
  let ?g = "\<lambda>v. if v = e then ?u v else v"
  have k: "row_kept v (?g v)" "row_key (?g v) = row_key v" "vl_id (?g v) = vl_id v" for v
    by (simp_all add: row_kept_def row_key_def)
  have s: "pd_vulns (save_finding now c db f) = map ?g (pd_vulns db)" "pd_nextId (save_finding now c db f) = pd_nextId db"
    by (simp_all add: update(3))
  have ids: "map vl_id (map ?g (pd_vulns db)) = map vl_id (pd_vulns db)" by simp
  have "vl_id v < pd_nextId db" if "v \<in> set (map ?g (pd_vulns db))" for v
  proof -
    have "vl_id v \<in> set (map vl_id (map ?g (pd_vulns db)))" by (subst set_map) (rule imageI, rule that)
    then show ?thesis using wf unfolding ids by (auto simp: vulns_wf_def)
  qed
  with wf ids have "vulns_wf (save_finding now c db f)"
    by (simp only: vulns_wf_def s) blast
  moreover have "rows_kept db (save_finding now c db f)"
    unfolding rows_kept_def s
  proof
    fix v assume "v \<in> set (pd_vulns db)"
    then have "?g v \<in> set (map ?g (pd_vulns db))" by (subst set_map) (rule imageI)
    with k(1) [of v] show "\<exists>v' \<in> set (map ?g (pd_vulns db)). row_kept v v'" by (rule bexI)
  qed
  moreover have "row_keys (save_finding now c db f) = row_keys db"
    unfolding row_keys_def s set_map image_image k(2) by (rule refl)
  moreover have "finding_key c f \<in> row_keys db"
    unfolding row_keys_def update(2) [symmetric] by (rule imageI) (rule update(1))
  moreover have "?u e \<in> set (pd_vulns (save_finding now c db f))" "row_key (?u e) = finding_key c f"
    using update(1,2) by (auto simp: s row_key_def)
  ultimately show ?thesis
    using update(2) by (auto simp: step_ok_def s insert_absorb row_key_def intro: bexI [of _ "?u e"])
next
  case create
  let ?n = "new_rule_vuln (pd_nextId db) now c f"
  have s: "pd_vulns (save_finding now c db f) = pd_vulns db @ [?n]" "pd_nextId (save_finding now c db f) = Suc (pd_nextId db)"
    by (simp_all add: create(2))
  have n: "row_key ?n = finding_key c f" "vl_lastSeen ?n = now" "vl_id ?n = pd_nextId db"
    using new_row_key [OF res] by (simp_all add: new_rule_vuln_def)
  have "vulns_wf (save_finding now c db f)"
    using wf by (auto simp: vulns_wf_def s n less_Suc_eq)
  moreover have "rows_kept db (save_finding now c db f)" by (auto simp: rows_kept_def s row_kept_def)
  ultimately show ?thesis using create(1) by (auto simp: step_ok_def s n row_keys_def)
qed

text \<open>C32: Storing the findings of an analysis for a configuration, where no finding has the empty text as its
  resource: every finding has a row seen now; every row there was is kept with the decision of the user, its title and its
  first sighting; rows without a finding are untouched; and storing the findings again, at any time, adds no row.  (A
  finding with an empty resource adds a row every time: \<open>empty_resource_saved_again\<close>.)
\<close>

theorem saved_findings:
  assumes wf: "vulns_wf db" and res: "\<forall>f \<in> set fs. fd_affectedResource f \<noteq> Some []"
  shows "vulns_wf (save_findings now c db fs) \<and> rows_kept db (save_findings now c db fs) \<and>
    (\<forall>f \<in> set fs. \<exists>v \<in> set (pd_vulns (save_findings now c db fs)). same_finding c f v \<and> vl_lastSeen v = now) \<and>
    (\<forall>v \<in> set (pd_vulns (save_findings now c db fs)). v \<in> set (pd_vulns db) \<or> (\<exists>f \<in> set fs. same_finding c f v \<and> vl_lastSeen v = now)) \<and>
    (\<forall>v \<in> set (pd_vulns db). (\<exists>f \<in> set fs. same_finding c f v) \<or> v \<in> set (pd_vulns (save_findings now c db fs))) \<and>
    length (pd_vulns (save_findings later c (save_findings now c db fs) fs)) = length (pd_vulns (save_findings now c db fs))"
  (is "?wf \<and> ?kept \<and> ?seen \<and> ?new \<and> ?old \<and> ?again")
proof -
  have "?wf \<and> ?kept \<and> ?seen \<and> ?new \<and> ?old \<and> row_keys (save_findings now c db fs) = row_keys db \<union> finding_key c ` set fs"
    using res
  proof (induction fs rule: rev_induct)
    case Nil
    then show ?case using wf by (simp add: save_findings_def rows_kept_refl)
  next
    case (snoc f fs)
    let ?a = "save_findings now c db fs" and ?b = "save_finding now c (save_findings now c db fs) f"
    have b: "save_findings now c db (fs @ [f]) = ?b" by (simp add: save_findings_def)
    have ok: "step_ok now c f ?a ?b"
      by (rule save_finding_step) (use snoc in auto)
    have seen: "\<exists>v \<in> set (pd_vulns ?b). same_finding c g v \<and> vl_lastSeen v = now" if "g \<in> set fs" for g
    proof -
      from snoc that obtain v where v: "v \<in> set (pd_vulns ?a)" "same_finding c g v" "vl_lastSeen v = now" by auto
      with ok show ?thesis unfolding step_ok_def same_finding_key by metis
    qed
    have kept: "rows_kept db ?b"
      using snoc ok by (auto simp: step_ok_def intro: rows_kept_trans)
    have "\<forall>v \<in> set (pd_vulns ?b). v \<in> set (pd_vulns db) \<or> (\<exists>g \<in> set (fs @ [f]). same_finding c g v \<and> vl_lastSeen v = now)"
      using snoc ok unfolding step_ok_def same_finding_key by auto
    moreover have "\<forall>v \<in> set (pd_vulns db). (\<exists>g \<in> set (fs @ [f]). same_finding c g v) \<or> v \<in> set (pd_vulns ?b)"
      using snoc ok unfolding step_ok_def same_finding_key by auto
    ultimately show ?case
      unfolding b using seen kept ok snoc by (auto simp: step_ok_def same_finding_key)
  qed
  moreover have "length (pd_vulns (save_findings later c d gs)) = length (pd_vulns d)"
    if "vulns_wf d" "finding_key c ` set gs \<subseteq> row_keys d" "\<forall>f \<in> set gs. fd_affectedResource f \<noteq> Some []" for d gs
    using that
  proof (induction gs arbitrary: d)
    case (Cons f gs)
    from save_finding_step [of d f later c] Cons show ?case
      by (simp add: save_findings_def step_ok_def insert_absorb)
  qed (simp add: save_findings_def)
  ultimately show ?thesis using res by simp
qed

definition given_finding :: "string \<Rightarrow> string \<Rightarrow> severity \<Rightarrow> external_finding" where
  "given_finding ty res sev = \<lparr>fd_type = ty, fd_severity = sev, fd_title = ty, fd_description = [], fd_impact = None,
     fd_remediation = None, fd_affectedResource = Some res, fd_cveId = None, xf_source = ''internal'',
     xf_externalId = ty, xf_externalCategory = RC_port\<rparr>"

definition empty_db :: processor_db where
  "empty_db = \<lparr>pd_vulns = [], pd_nextId = 0, pd_services = [], pd_runs = []\<rparr>"

theorem saved_findings_witness:
  "length (pd_vulns (save_findings 9 ''c'' (save_findings 5 ''c'' empty_db [given_finding ''t'' ''r'' LOW, given_finding ''t'' ''s'' LOW])
      [given_finding ''t'' ''r'' LOW, given_finding ''t'' ''s'' LOW])) = 2"
proof -
  let ?fs = "[given_finding ''t'' ''r'' LOW, given_finding ''t'' ''s'' LOW]"
  have "vulns_wf empty_db" by (simp add: vulns_wf_def empty_db_def)
  moreover have "\<forall>f \<in> set ?fs. fd_affectedResource f \<noteq> Some []" by (simp add: given_finding_def)
  moreover have "length (pd_vulns (save_findings 5 ''c'' empty_db ?fs)) = 2" by code_simp
  ultimately show ?thesis using saved_findings [of empty_db ?fs 5 "''c''" 9] by simp
qed

text \<open>The lookup asks for no resource where the resource is the empty text, and the row that is made stores the
  empty text: the next lookup does not find it.\<close>

lemma empty_resource_saved_again:
  assumes "fd_affectedResource f = Some []" and "finding_key c f \<notin> row_keys db"
  shows "length (pd_vulns (save_findings later c (save_findings now c db [f]) [f])) = length (pd_vulns db) + 2"
proof -
  have fresh: "save_finding now c db f = db\<lparr>pd_nextId := Suc (pd_nextId db), pd_vulns := pd_vulns db @ [new_rule_vuln (pd_nextId db) now c f]\<rparr>"
    if "finding_key c f \<notin> row_keys db" for db now
  proof -
    have "List.find (same_finding c f) (pd_vulns db) = None"
      using that by (force simp: find_None_iff same_finding_key row_keys_def)
    then show ?thesis by (simp add: save_finding_def)
  qed
  have "finding_key c f \<notin> row_keys (save_finding now c db f)"
    using assms by (auto simp: fresh row_keys_def row_key_def new_rule_vuln_def finding_key_def)
  then show ?thesis using assms(2) by (simp add: save_findings_def fresh)
qed

text \<open>Such findings exist: a rule names the resource by a field that is empty.\<close>

lemma empty_resource_reported:
  "map cr_resource (rx_findings (snd (executeRule plain_re
      (plain_rule ''B'' (plain_detection ''networks'' None (field_cond ''name'' ''equals'' (JStr [])) ''{{name}}''))
      (no_config\<lparr>uc_networks := [named_network ''1'' []]\<rparr>)))) = [Some []]"
  by code_simp

text \<open>A row the user marked as fixed stays fixed when the finding is back.\<close>

lemma fixed_row_not_reopened:
  "map vl_status (pd_vulns (save_findings 9 ''c'' (empty_db\<lparr>pd_nextId := 1,
      pd_vulns := [(new_rule_vuln 0 5 ''c'' (given_finding ''t'' ''r'' LOW))\<lparr>vl_status := VFixed\<rparr>]\<rparr>)
      [given_finding ''t'' ''r'' HIGH])) = [VFixed]"
  by code_simp

end
