(* ===== verification/Config_Changes.thy ===== *)
theory Config_Changes
  imports Config_Normal Js_Parse
begin

text \<open>
  The history of configuration changes, \<open>services/configChangeService.ts\<close>: two versions of a configuration
  are compared list by list, by the identifiers of the elements, and each difference becomes a row.

  Identifiers are strings, as the functions that read them declare.  The database takes no identifier or
  name that is neither a text nor missing, and the program then stops with the rows it has written.
\<close>

section \<open>Comparable texts\<close>

text \<open>
  \<open>JSON.stringify\<close> with the keys of every object sorted; \<open>undefined\<close> is the word in an object and nothing
  in an array.
\<close>

fun stableStringify :: "json \<Rightarrow> string" where
  "stableStringify JUndef = ''undefined''"
| "stableStringify (JArr xs) =
     ''['' @ join '','' (map (\<lambda>x. if x = JUndef then [] else stableStringify x) xs) @ '']''"
| "stableStringify (JObj kvs) =
     ''{'' @ join '','' (map (\<lambda>kt. quote_str (fst kt) @ '':'' @ snd kt)
                  (sort_key fst (map (\<lambda>kv. (fst kv, stableStringify (snd kv))) kvs))) @ ''}''"
| "stableStringify v = js_stringify v"

definition or_null :: "json \<Rightarrow> json" where
  "or_null v = json_or v JNull"

definition normalizeClientForTimeline :: "json \<Rightarrow> json" where
  "normalizeClientForTimeline c = JObj
     [(''mac'', opt_member c ''mac''), (''name'', or_null (opt_member c ''name'')),
      (''hostname'', or_null (opt_member c ''hostname'')), (''network_id'', or_null (opt_member c ''network_id'')),
      (''is_wired'', JBool (json_truthy (opt_member c ''is_wired''))), (''oui'', or_null (opt_member c ''oui''))]"

definition normalizeDeviceForTimeline :: "json \<Rightarrow> json" where
  "normalizeDeviceForTimeline d = JObj
     [(''mac'', opt_member d ''mac''), (''name'', or_null (opt_member d ''name'')),
      (''model'', or_null (opt_member d ''model'')), (''version'', or_null (opt_member d ''version'')),
      (''adopted'', json_nullish (opt_member d ''adopted'') JNull), (''type'', or_null (opt_member d ''type''))]"

section \<open>Rows\<close>

datatype change_type = CREATED | MODIFIED | DELETED

record config_change =
  cg_connectionId :: string
  cg_changeType :: change_type
  cg_resourceType :: string
  cg_resourceId :: "string option"
  cg_resourceName :: "string option"
  cg_previousValue :: "json option"
  cg_newValue :: "json option"
  cg_detectedAt :: int

text \<open>What the database makes of a text field: \<open>None\<close> when it refuses the value.\<close>

definition text_field :: "json \<Rightarrow> string option option" where
  "text_field v = (case v of JStr s \<Rightarrow> Some (Some s) | JUndef \<Rightarrow> Some None | JNull \<Rightarrow> Some None | _ \<Rightarrow> None)"

record change_context =
  cx_connectionId :: string
  cx_detectedAt :: "int option"
  cx_now :: int

definition change_row ::
    "change_context \<Rightarrow> change_type \<Rightarrow> string \<Rightarrow> json \<Rightarrow> json \<Rightarrow> json option \<Rightarrow> json option \<Rightarrow> config_change option" where
  "change_row cx ty rt i name prev new =
     (case (text_field i, text_field name) of
        (Some i', Some n') \<Rightarrow> Some \<lparr>cg_connectionId = cx_connectionId cx, cg_changeType = ty, cg_resourceType = rt,
            cg_resourceId = i', cg_resourceName = n', cg_previousValue = prev, cg_newValue = new,
            cg_detectedAt = dflt (cx_now cx) (cx_detectedAt cx)\<rparr>
      | _ \<Rightarrow> None)"

section \<open>Comparing two lists\<close>

definition keyed :: "(json \<Rightarrow> json) \<Rightarrow> json list \<Rightarrow> (json \<times> json) list" where
  "keyed getId rs = om_of (map (\<lambda>r. (getId r, r)) rs)"

text \<open>
  The row for an element that is there now: \<open>Some None\<close> when it did not change, \<open>None\<close> when the database
  refuses the row.
\<close>

definition current_change ::
    "change_context \<Rightarrow> string \<Rightarrow> (json \<Rightarrow> json) \<Rightarrow> (json \<times> json) list \<Rightarrow> json \<times> json \<Rightarrow> config_change option option" where
  "current_change cx rt getName previousMap ir =
     (case om_get previousMap (fst ir) of
        None \<Rightarrow> map_option Some (change_row cx CREATED rt (fst ir) (getName (snd ir)) None (Some (snd ir)))
      | Some prev \<Rightarrow>
          if \<not> json_truthy prev
          then map_option Some (change_row cx CREATED rt (fst ir) (getName (snd ir)) None (Some (snd ir)))
          else if stableStringify prev \<noteq> stableStringify (snd ir)
          then map_option Some (change_row cx MODIFIED rt (fst ir) (getName (snd ir)) (Some prev) (Some (snd ir)))
          else Some None)"

definition deleted_change ::
    "change_context \<Rightarrow> string \<Rightarrow> (json \<Rightarrow> json) \<Rightarrow> (json \<times> json) list \<Rightarrow> json \<times> json \<Rightarrow> config_change option option" where
  "deleted_change cx rt getName currentMap ir =
     (if fst ir \<in> set (om_keys currentMap) then Some None
      else map_option Some (change_row cx DELETED rt (fst ir) (getName (snd ir)) (Some (snd ir)) None))"

text \<open>
  Rows are written one after the other: the table, and the number of rows or \<open>None\<close> after an exception.
\<close>

type_synonym change_result = "config_change list \<times> nat option"

fun write_changes :: "config_change option option list \<Rightarrow> config_change list \<Rightarrow> change_result" where
  "write_changes [] db = (db, Some 0)"
| "write_changes (None # cs) db = (db, None)"
| "write_changes (Some None # cs) db = write_changes cs db"
| "write_changes (Some (Some c) # cs) db =
     (case write_changes cs (db @ [c]) of (db', n) \<Rightarrow> (db', map_option Suc n))"

definition compareResources ::
    "change_context \<Rightarrow> string \<Rightarrow> json list \<Rightarrow> json list \<Rightarrow> (json \<Rightarrow> json) \<Rightarrow> (json \<Rightarrow> json) \<Rightarrow> config_change list \<Rightarrow> change_result" where
  "compareResources cx rt previous current getId getName db =
     (if list_ex (\<lambda>r. r = JUndef \<or> r = JNull) (previous @ current) then (db, None)
      else (let previousMap = keyed getId previous; currentMap = keyed getId current in
        write_changes (map (current_change cx rt getName previousMap) currentMap
          @ map (deleted_change cx rt getName currentMap) previousMap) db))"

section \<open>All lists of a configuration\<close>

definition then_count :: "change_result \<Rightarrow> (config_change list \<Rightarrow> change_result) \<Rightarrow> change_result" where
  "then_count r f = (case r of
     (db, None) \<Rightarrow> (db, None)
   | (db, Some n) \<Rightarrow> (case f db of (db', m) \<Rightarrow> (db', map_option (\<lambda>k. n + k) m)))"

text \<open>\<open>config.key || []\<close>, on which \<open>map\<close> throws when it is no array.\<close>

definition config_list :: "json \<Rightarrow> string \<Rightarrow> json list option" where
  "config_list cfg k = (case js_member cfg k of
     None \<Rightarrow> None
   | Some v \<Rightarrow> (case json_or v (JArr []) of JArr xs \<Rightarrow> Some xs | _ \<Rightarrow> None))"

definition compare_key ::
    "change_context \<Rightarrow> string \<Rightarrow> string \<Rightarrow> (json \<Rightarrow> json) \<Rightarrow> string \<Rightarrow> (json \<Rightarrow> json) \<Rightarrow> json \<Rightarrow> json \<Rightarrow> config_change list \<Rightarrow> change_result" where
  "compare_key cx rt k f i getName previousConfig newConfig db =
     (case (config_list previousConfig k, config_list newConfig k) of
        (Some prev, Some new) \<Rightarrow> compareResources cx rt (map f prev) (map f new) (\<lambda>r. opt_member r i) getName db
      | _ \<Rightarrow> (db, None))"

definition seed_row :: "change_context \<Rightarrow> json \<Rightarrow> config_change option option" where
  "seed_row cx rule =
     (let i = any_of rule [''_id''] (opt_member rule ''id'') in
      if \<not> json_truthy i then Some None
      else map_option Some (change_row (cx\<lparr>cx_detectedAt := None\<rparr>) CREATED ''aclRule'' i (any_of rule [''name''] i) None (Some rule)))"

definition seedAclRuleBaselineIfMissing :: "change_context \<Rightarrow> json list \<Rightarrow> config_change list \<Rightarrow> change_result" where
  "seedAclRuleBaselineIfMissing cx aclRules db =
     (if aclRules = [] then (db, Some 0)
      else if list_ex (\<lambda>c. cg_connectionId c = cx_connectionId cx \<and> cg_resourceType c = ''aclRule'') db then (db, Some 0)
      else write_changes (map (seed_row cx) aclRules) db)"

definition version_and_name :: "json \<Rightarrow> json" where
  "version_and_name d = JObj [(''version'', opt_member d ''version''), (''name'', opt_member d ''name'')]"

definition firmware_change :: "change_context \<Rightarrow> json list \<Rightarrow> json \<Rightarrow> config_change option option" where
  "firmware_change cx prevDevices newDev =
     (case find_m (\<lambda>d. if d = JUndef \<or> d = JNull \<or> newDev = JUndef \<or> newDev = JNull then None
                else Some (strict_eq (opt_member d ''mac'') (opt_member newDev ''mac''))) prevDevices of
        None \<Rightarrow> None
      | Some None \<Rightarrow> Some None
      | Some (Some prevDev) \<Rightarrow>
          if json_truthy prevDev \<and> \<not> strict_eq (opt_member prevDev ''version'') (opt_member newDev ''version'')
          then map_option Some (change_row cx MODIFIED ''firmware'' (opt_member newDev ''mac'')
                 (any_of newDev [''name''] (opt_member newDev ''mac'')) (Some (version_and_name prevDev))
                 (Some (version_and_name newDev)))
          else Some None)"

definition compare_firmware :: "change_context \<Rightarrow> json \<Rightarrow> json \<Rightarrow> config_change list \<Rightarrow> change_result" where
  "compare_firmware cx previousConfig newConfig db =
     (case (config_list previousConfig ''devices'', config_list newConfig ''devices'') of
        (Some prev, Some new) \<Rightarrow> write_changes (map (firmware_change cx prev) new) db
      | _ \<Rightarrow> (db, None))"

definition compare_acl_rules :: "change_context \<Rightarrow> json \<Rightarrow> json \<Rightarrow> config_change list \<Rightarrow> change_result" where
  "compare_acl_rules cx previousConfig newConfig db =
     (let r = compare_key cx ''aclRule'' ''aclRules'' (\<lambda>x. x) ''_id'' (\<lambda>r. any_of r [''name''] (opt_member r ''_id''))
                previousConfig newConfig db in
      if snd r = Some 0
      then then_count r (seedAclRuleBaselineIfMissing cx (dflt [] (config_list newConfig ''aclRules'')))
      else r)"

definition detectConfigChanges :: "change_context \<Rightarrow> json \<Rightarrow> json \<Rightarrow> config_change list \<Rightarrow> change_result" where
  "detectConfigChanges cx prev new db =
     (let named = (\<lambda>r. opt_member r ''name''); cmp = (\<lambda>rt k getName. compare_key cx rt k (\<lambda>x. x) ''_id'' getName prev new) in
      foldl then_count (db, Some 0)
        [cmp ''firewallRule'' ''firewallRules'' named,
         cmp ''network'' ''networkConf'' named,
         cmp ''wlan'' ''wlanConf'' named,
         cmp ''portForward'' ''portForward'' named,
         cmp ''trafficRule'' ''trafficRules'' (\<lambda>r. any_of r [''name'', ''description''] (opt_member r ''_id'')),
         cmp ''firewallPolicy'' ''firewallPolicies'' named,
         compare_acl_rules cx prev new,
         cmp ''vpnServer'' ''vpnServers'' named,
         compare_key cx ''client'' ''clients'' normalizeClientForTimeline ''mac''
           (\<lambda>r. any_of r [''name'', ''hostname''] (opt_member r ''mac'')) prev new,
         compare_key cx ''device'' ''devices'' normalizeDeviceForTimeline ''mac''
           (\<lambda>r. any_of r [''name'', ''model''] (opt_member r ''mac'')) prev new,
         compare_firmware cx prev new])"

section \<open>The comparable text\<close>

text \<open>A value with the keys of its objects in order.\<close>

fun sort_json :: "json \<Rightarrow> json" where
  "sort_json (JArr xs) = JArr (map sort_json xs)"
| "sort_json (JObj kvs) = JObj (sort_key fst (map (\<lambda>kv. (fst kv, sort_json (snd kv))) kvs))"
| "sort_json v = v"

lemma insort_map_snd:
  "insort_key fst (fst x, f (snd x)) (map (\<lambda>kv. (fst kv, f (snd kv))) kvs) = map (\<lambda>kv. (fst kv, f (snd kv))) (insort_key fst x kvs)"
  by (induction kvs) auto

lemma sort_map_snd: "sort_key fst (map (\<lambda>kv. (fst kv, f (snd kv))) kvs) = map (\<lambda>kv. (fst kv, f (snd kv))) (sort_key fst kvs)"
  by (induction kvs) (simp_all add: insort_map_snd)

lemma plain_sort: "plain_json v \<Longrightarrow> plain_json (sort_json v) \<and> sort_json v \<noteq> JUndef"
proof (induction v rule: sort_json.induct)
  case (2 kvs)
  have "map fst (sort_key fst (map (\<lambda>kv. (fst kv, sort_json (snd kv))) kvs)) = map fst (sort_key fst kvs)"
    by (simp add: sort_map_snd o_def)
  moreover have "distinct (map fst (sort_key fst kvs))"
    using 2 by (simp add: distinct_map)
  ultimately show ?case using 2 by (auto simp: list_all_iff)
qed (auto simp: list_all_iff)

lemma stable_text: "plain_json v \<Longrightarrow> stableStringify v = js_stringify (sort_json v)"
proof (induction v rule: sort_json.induct)
  case (1 xs)
  then have "map (\<lambda>x. if x = JUndef then [] else stableStringify x) xs = map js_stringify (map sort_json xs)"
    by (auto simp: list_all_iff)
  then show ?case by (simp only: stableStringify.simps js_stringify.simps sort_json.simps)
next
  case (2 kvs)
  have e: "map (\<lambda>kv. (fst kv, stableStringify (snd kv))) kvs = map (\<lambda>kv. (fst kv, js_stringify (sort_json (snd kv)))) kvs"
    using 2 by (auto simp: list_all_iff)
  have "concat (map (\<lambda>kv. if snd kv = JUndef then [] else [quote_str (fst kv) @ '':'' @ js_stringify (snd kv)])
      (map (\<lambda>kv. (fst kv, sort_json (snd kv))) ks)) = map (\<lambda>kv. quote_str (fst kv) @ '':'' @ js_stringify (sort_json (snd kv))) ks"
    if "set ks \<subseteq> set kvs" for ks
    using that
  proof (induction ks)
    case (Cons k ks)
    then have "sort_json (snd k) \<noteq> JUndef" using 2 plain_sort by (auto simp: list_all_iff)
    with Cons show ?case by simp
  qed simp
  from this [of "sort_key fst kvs"] show ?case
    by (simp only: stableStringify.simps js_stringify.simps sort_json.simps e sort_map_snd [of sort_json]
        sort_map_snd [of "\<lambda>x. js_stringify (sort_json x)"]) (simp add: o_def)
qed auto

lemma stable_eq:
  assumes "plain_json v" "plain_json w"
  shows "stableStringify v = stableStringify w \<longleftrightarrow> sort_json v = sort_json w"
proof -
  have "js_stringify (sort_json v) = js_stringify (sort_json w) \<Longrightarrow> sort_json v = sort_json w"
    using json_parse_stringify [of "sort_json v"] json_parse_stringify [of "sort_json w"] plain_sort assms
    by (metis option.inject)
  then show ?thesis using assms by (auto simp: stable_text)
qed

section \<open>Replaying the history\<close>

text \<open>The elements of a list by their identifiers, the last of an identifier, and the effect of rows on them.\<close>

definition elements_by :: "(json \<Rightarrow> json) \<Rightarrow> json list \<Rightarrow> string \<Rightarrow> json option" where
  "elements_by getId rs i = om_get (keyed getId rs) (JStr i)"

definition apply_change :: "(string \<Rightarrow> json option) \<Rightarrow> config_change \<Rightarrow> string \<Rightarrow> json option" where
  "apply_change m c = (case cg_resourceId c of
     None \<Rightarrow> m
   | Some i \<Rightarrow> m(i := if cg_changeType c = DELETED then None else cg_newValue c))"

definition replay :: "(string \<Rightarrow> json option) \<Rightarrow> config_change list \<Rightarrow> string \<Rightarrow> json option" where
  "replay m cs = foldl apply_change m cs"

text \<open>Rows as the engine writes them when the database refuses none.\<close>

lemma write_changes_total:
  "\<forall>c \<in> set cs. c \<noteq> None \<Longrightarrow>
   write_changes cs db = (db @ List.map_filter the cs, Some (length (List.map_filter the cs)))"
proof (induction cs arbitrary: db)
  case (Cons c cs)
  obtain x where c: "c = Some x" using Cons.prems by auto
  with Cons show ?case by (cases x) (simp_all add: List.map_filter_simps)
qed (simp add: List.map_filter_def)

definition good_element :: "(json \<Rightarrow> json) \<Rightarrow> (json \<Rightarrow> json) \<Rightarrow> json \<Rightarrow> bool" where
  "good_element getId getName r \<longleftrightarrow> plain_json r \<and> json_truthy r \<and> (case getId r of JStr s \<Rightarrow> s \<noteq> [] | _ \<Rightarrow> False)
     \<and> text_field (getName r) \<noteq> None"

lemma keyed_mem:
  assumes "(i, r) \<in> set (keyed getId rs)"
  shows "r \<in> set rs \<and> getId r = i"
proof -
  have "om_get (keyed getId rs) i = Some r"
    using assms distinct_om_of [of "map (\<lambda>r. (getId r, r)) rs"]
    by (auto simp: keyed_def om_get_def om_keys_def)
  then have "map_of (rev (map (\<lambda>r. (getId r, r)) rs)) i = Some r" by (simp add: keyed_def om_get_of)
  then show ?thesis by (auto dest!: map_of_SomeD)
qed

lemma keyed_get: "(i, r) \<in> set (keyed getId rs) \<longleftrightarrow> om_get (keyed getId rs) i = Some r"
  using distinct_om_of [of "map (\<lambda>r. (getId r, r)) rs"] by (simp add: keyed_def om_get_def om_keys_def)

lemma replay_append: "replay m (xs @ ys) = replay (replay m xs) ys"
  by (simp add: replay_def)

text \<open>Rows planned for the entries of a map change exactly the entries they are planned for.\<close>

definition plans :: "string \<Rightarrow> (json \<times> json \<Rightarrow> config_change option option) \<Rightarrow> json \<times> json \<Rightarrow> bool" where
  "plans rt p ir \<longleftrightarrow> (\<exists>i c. fst ir = JStr i \<and> p ir = Some c
     \<and> (\<forall>x. c = Some x \<longrightarrow> cg_resourceId x = Some i \<and> cg_resourceType x = rt))"

lemma replay_planned:
  assumes "distinct (map fst L)" "\<forall>ir \<in> set L. plans rt p ir"
  shows "replay m (List.map_filter the (map p L)) s =
     (case map_of L (JStr s) of None \<Rightarrow> m s
      | Some r \<Rightarrow> (case the (p (JStr s, r)) of None \<Rightarrow> m s | Some c \<Rightarrow> apply_change m c s))"
  using assms
proof (induction L arbitrary: m)
  case (Cons ir L)
  from Cons.prems(2) obtain i r c where ir: "ir = (JStr i, r)"
      and p: "p (JStr i, r) = Some c" "\<forall>x. c = Some x \<longrightarrow> cg_resourceId x = Some i"
    by (cases ir) (auto simp: plans_def)
  have new: "map_of L (JStr i) = None"
    using Cons.prems(1) ir by (auto simp: map_of_eq_None_iff)
  have IH: "replay m' (List.map_filter the (map p L)) s =
     (case map_of L (JStr s) of None \<Rightarrow> m' s
      | Some r \<Rightarrow> (case the (p (JStr s, r)) of None \<Rightarrow> m' s | Some c \<Rightarrow> apply_change m' c s))" for m'
    using Cons by simp
  show ?case
  proof (cases c)
    case None
    then show ?thesis
      using IH [of m] p(1) new unfolding ir by (cases "s = i") (auto simp: List.map_filter_simps split: option.splits)
  next
    case (Some x)
    have other: "apply_change m x s = m s" if "s \<noteq> i" using that p(2) Some by (simp add: apply_change_def)
    have "apply_change (apply_change m x) d s = apply_change m d s" if "s \<noteq> i" for d
      using that p(2) Some by (simp add: apply_change_def split: option.split)
    then show ?thesis
      using IH [of "apply_change m x"] p(1) new Some other unfolding ir
      by (cases "s = i") (auto simp: List.map_filter_simps replay_def split: option.splits)
  qed
qed (simp add: List.map_filter_def replay_def)

lemma change_row_good:
  assumes "text_field name \<noteq> None"
  shows "\<exists>c. change_row cx ty rt (JStr i) name prev new = Some c \<and> cg_resourceId c = Some i \<and> cg_changeType c = ty
     \<and> cg_newValue c = new \<and> cg_connectionId c = cx_connectionId cx \<and> cg_resourceType c = rt
     \<and> cg_detectedAt c = dflt (cx_now cx) (cx_detectedAt cx)"
  using assms by (auto simp: change_row_def text_field_def [of "JStr i"])

definition same_elements :: "(string \<Rightarrow> json option) \<Rightarrow> (string \<Rightarrow> json option) \<Rightarrow> bool" where
  "same_elements a b \<longleftrightarrow> (\<forall>i. map_option sort_json (a i) = map_option sort_json (b i))"

definition good_lists :: "(json \<Rightarrow> json) \<Rightarrow> (json \<Rightarrow> json) \<Rightarrow> json list \<Rightarrow> json list \<Rightarrow> bool" where
  "good_lists getId getName previous current \<longleftrightarrow> list_all (good_element getId getName) (previous @ current)"

lemma good_entry:
  assumes good: "good_lists getId getName previous current"
    and "(i, r) \<in> set (keyed getId previous) \<or> (i, r) \<in> set (keyed getId current)"
  shows "\<exists>s. i = JStr s" "plain_json r" "json_truthy r" "text_field (getName r) \<noteq> None"
proof -
  have "good_element getId getName r \<and> getId r = i" using assms keyed_mem by (auto simp: good_lists_def list_all_iff)
  then show "\<exists>s. i = JStr s" "plain_json r" "json_truthy r" "text_field (getName r) \<noteq> None"
    by (auto simp: good_element_def split: json.splits)
qed

lemma distinct_keyed: "distinct (map fst (keyed getId rs))"
  using distinct_om_of [of "map (\<lambda>r. (getId r, r)) rs"] by (simp add: keyed_def om_keys_def)

lemma current_plans:
  assumes good: "good_lists getId getName previous current"
    and "ir \<in> set (keyed getId current)"
  shows "plans rt (current_change cx rt getName (keyed getId previous)) ir"
proof -
  obtain s r where ir: "ir = (JStr s, r)" using good_entry(1) [OF good] assms(2) by (cases ir) blast
  have n: "text_field (getName r) \<noteq> None" using good_entry(4) [OF good] assms(2) ir by blast
  show ?thesis
    using change_row_good [OF n, of cx CREATED rt s None "Some r"]
      change_row_good [OF n, of cx MODIFIED rt s "om_get (keyed getId previous) (JStr s)" "Some r"]
    by (auto simp: plans_def ir current_change_def split: option.splits)
qed

lemma deleted_plans:
  assumes good: "good_lists getId getName previous current"
    and "ir \<in> set (keyed getId previous)"
  shows "plans rt (deleted_change cx rt getName (keyed getId current)) ir"
proof -
  obtain s r where ir: "ir = (JStr s, r)" using good_entry(1) [OF good] assms(2) by (cases ir) blast
  have n: "text_field (getName r) \<noteq> None" using good_entry(4) [OF good] assms(2) ir by blast
  show ?thesis
    using change_row_good [OF n, of cx DELETED rt s "Some r" None]
    by (auto simp: plans_def ir deleted_change_def)
qed

lemma current_effect:
  assumes good: "good_lists getId getName previous current"
    and "om_get (keyed getId current) (JStr s) = Some r"
  shows "map_option sort_json (case the (current_change cx rt getName (keyed getId previous) (JStr s, r)) of
      None \<Rightarrow> elements_by getId previous s | Some c \<Rightarrow> apply_change (elements_by getId previous) c s)
    = Some (sort_json r)"
proof -
  have e: "(JStr s, r) \<in> set (keyed getId current)" using assms(2) by (simp add: keyed_get)
  have n: "text_field (getName r) \<noteq> None" using good_entry(4) [OF good] e by blast
  obtain c where c: "change_row cx CREATED rt (JStr s) (getName r) None (Some r) = Some c"
      "cg_resourceId c = Some s" "cg_changeType c = CREATED" "cg_newValue c = Some r"
    using change_row_good [OF n] by blast
  show ?thesis
  proof (cases "om_get (keyed getId previous) (JStr s)")
    case None
    with c show ?thesis by (simp add: current_change_def apply_change_def)
  next
    case (Some prev)
    then have p: "(JStr s, prev) \<in> set (keyed getId previous)" by (simp add: keyed_get)
    have t: "json_truthy prev" "plain_json prev" "plain_json r" using good_entry [OF good] p e by blast+
    obtain d where d: "change_row cx MODIFIED rt (JStr s) (getName r) (Some prev) (Some r) = Some d"
        "cg_resourceId d = Some s" "cg_changeType d = MODIFIED" "cg_newValue d = Some r"
      using change_row_good [OF n] by blast
    from stable_eq [OF t(2,3)] show ?thesis
      by (simp add: current_change_def Some t(1) d apply_change_def elements_by_def)
  qed
qed

lemma deleted_effect:
  assumes good: "good_lists getId getName previous current"
    and "om_get (keyed getId previous) (JStr s) = Some r"
  shows "(case the (deleted_change cx rt getName (keyed getId current) (JStr s, r)) of
      None \<Rightarrow> m s | Some c \<Rightarrow> apply_change m c s)
    = (if om_get (keyed getId current) (JStr s) = None then None else m s)"
proof -
  have e: "(JStr s, r) \<in> set (keyed getId previous)" using assms(2) by (simp add: keyed_get)
  have n: "text_field (getName r) \<noteq> None" using good_entry(4) [OF good] e by blast
  obtain c where "change_row cx DELETED rt (JStr s) (getName r) (Some r) None = Some c"
      "cg_resourceId c = Some s" "cg_changeType c = DELETED"
    using change_row_good [OF n] by blast
  then show ?thesis by (simp add: deleted_change_def apply_change_def om_get_None_iff)
qed

section \<open>The history of one list\<close>

definition list_rows ::
    "change_context \<Rightarrow> string \<Rightarrow> (json \<Rightarrow> json) \<Rightarrow> (json \<Rightarrow> json) \<Rightarrow> json list \<Rightarrow> json list \<Rightarrow> config_change list" where
  "list_rows cx rt getId getName previous current =
     List.map_filter the (map (current_change cx rt getName (keyed getId previous)) (keyed getId current)
       @ map (deleted_change cx rt getName (keyed getId current)) (keyed getId previous))"

lemma good_element_present: "good_element getId getName r \<Longrightarrow> r \<noteq> JUndef \<and> r \<noteq> JNull"
  by (auto simp: good_element_def)

lemma good_lists_rows:
  assumes good: "good_lists getId getName previous current"
  shows "compareResources cx rt previous current getId getName db =
    (db @ list_rows cx rt getId getName previous current, Some (length (list_rows cx rt getId getName previous current)))"
proof -
  have "\<not> list_ex (\<lambda>r. r = JUndef \<or> r = JNull) (previous @ current)"
    using good by (auto simp: good_lists_def list_ex_iff list_all_iff dest: good_element_present)
  moreover have "\<forall>c \<in> set (map (current_change cx rt getName (keyed getId previous)) (keyed getId current)
       @ map (deleted_change cx rt getName (keyed getId current)) (keyed getId previous)). c \<noteq> None"
    using current_plans [OF good] deleted_plans [OF good] by (fastforce simp: plans_def)
  ultimately show ?thesis
    by (simp add: compareResources_def list_rows_def Let_def write_changes_total del: map_append)
qed

lemma map_filter_append: "List.map_filter f (xs @ ys) = List.map_filter f xs @ List.map_filter f ys"
  by (simp add: List.map_filter_def)

lemma replay_list_rows:
  assumes good: "good_lists getId getName previous current"
  shows "same_elements (replay (elements_by getId previous) (list_rows cx rt getId getName previous current))
    (elements_by getId current)"
  unfolding same_elements_def
proof
  fix s
  let ?p = "current_change cx rt getName (keyed getId previous)" and ?d = "deleted_change cx rt getName (keyed getId current)"
  define m where "m = replay (elements_by getId previous) (List.map_filter the (map ?p (keyed getId current)))"
  have m: "m s = (case map_of (keyed getId current) (JStr s) of None \<Rightarrow> elements_by getId previous s
      | Some r \<Rightarrow> (case the (?p (JStr s, r)) of None \<Rightarrow> elements_by getId previous s
          | Some c \<Rightarrow> apply_change (elements_by getId previous) c s))"
    unfolding m_def using replay_planned [OF distinct_keyed] current_plans [OF good] by blast
  have "replay (elements_by getId previous) (list_rows cx rt getId getName previous current) s
    = replay m (List.map_filter the (map ?d (keyed getId previous))) s"
    by (simp add: list_rows_def map_filter_append replay_append m_def)
  also have "\<dots> = (case map_of (keyed getId previous) (JStr s) of None \<Rightarrow> m s
      | Some r \<Rightarrow> (case the (?d (JStr s, r)) of None \<Rightarrow> m s | Some c \<Rightarrow> apply_change m c s))"
    using replay_planned [OF distinct_keyed] deleted_plans [OF good] by blast
  also have "map_option sort_json \<dots> = map_option sort_json (elements_by getId current s)"
  proof (cases "om_get (keyed getId current) (JStr s)")
    case None
    then show ?thesis
      using m deleted_effect [OF good]
      by (cases "om_get (keyed getId previous) (JStr s)") (simp_all add: om_get_def elements_by_def)
  next
    case (Some r)
    then have "map_option sort_json (m s) = Some (sort_json r)"
      using m current_effect [OF good Some] by (simp add: om_get_def)
    with Some show ?thesis
      using deleted_effect [OF good]
      by (cases "om_get (keyed getId previous) (JStr s)") (simp_all add: om_get_def elements_by_def)
  qed
  finally show "map_option sort_json (replay (elements_by getId previous) (list_rows cx rt getId getName previous current) s)
      = map_option sort_json (elements_by getId current s)" .
qed

lemma list_rows_empty:
  assumes good: "good_lists getId getName previous current"
  shows "list_rows cx rt getId getName previous current = []
    \<longleftrightarrow> same_elements (elements_by getId previous) (elements_by getId current)"
proof
  assume "list_rows cx rt getId getName previous current = []"
  then show "same_elements (elements_by getId previous) (elements_by getId current)"
    using replay_list_rows [OF good, of cx rt] by (simp add: replay_def)
next
  assume same: "same_elements (elements_by getId previous) (elements_by getId current)"
  have at: "map_option sort_json (om_get (keyed getId previous) (JStr s)) = map_option sort_json (om_get (keyed getId current) (JStr s))" for s
    using same by (simp add: same_elements_def elements_by_def)
  have "current_change cx rt getName (keyed getId previous) (i, r) = Some None" if e: "(i, r) \<in> set (keyed getId current)" for i r
  proof -
    obtain s where s: "i = JStr s" using good_entry(1) [OF good] e by blast
    obtain prev where p: "om_get (keyed getId previous) (JStr s) = Some prev" "sort_json prev = sort_json r"
      using at [of s] e by (auto simp: keyed_get s)
    have "json_truthy prev" "plain_json prev" "plain_json r"
      using good_entry [OF good] p(1) e by (metis keyed_get)+
    then show ?thesis using p stable_eq [of prev r] by (simp add: current_change_def s)
  qed
  moreover have "deleted_change cx rt getName (keyed getId current) (i, r) = Some None" if e: "(i, r) \<in> set (keyed getId previous)" for i r
  proof -
    obtain s where s: "i = JStr s" using good_entry(1) [OF good] e by blast
    have "om_get (keyed getId current) (JStr s) \<noteq> None" 
      using at [of s] e by (cases "om_get (keyed getId current) (JStr s)") (auto simp: keyed_get s)
    then show ?thesis by (simp add: deleted_change_def s om_get_None_iff)
  qed
  ultimately show "list_rows cx rt getId getName previous current = []"
    by (force simp: list_rows_def List.map_filter_def filter_empty_conv)
qed

section \<open>The history of a configuration\<close>

text \<open>The lists that are compared: the type of the rows, the list, and how its elements are read.\<close>

type_synonym timeline_list = "string \<times> string \<times> (json \<Rightarrow> json) \<times> string \<times> (json \<Rightarrow> json)"

abbreviation plain_list :: "string \<Rightarrow> string \<Rightarrow> timeline_list" where
  "plain_list rt k \<equiv> (rt, k, \<lambda>x. x, ''_id'', \<lambda>r. opt_member r ''name'')"

definition acl_list :: timeline_list where
  "acl_list = (''aclRule'', ''aclRules'', \<lambda>x. x, ''_id'', \<lambda>r. any_of r [''name''] (opt_member r ''_id''))"

definition lists_before_acl :: "timeline_list list" where
  "lists_before_acl = [plain_list ''firewallRule'' ''firewallRules'', plain_list ''network'' ''networkConf'',
     plain_list ''wlan'' ''wlanConf'', plain_list ''portForward'' ''portForward'',
     (''trafficRule'', ''trafficRules'', \<lambda>x. x, ''_id'', \<lambda>r. any_of r [''name'', ''description''] (opt_member r ''_id'')),
     plain_list ''firewallPolicy'' ''firewallPolicies'']"

definition lists_after_acl :: "timeline_list list" where
  "lists_after_acl = [plain_list ''vpnServer'' ''vpnServers'',
     (''client'', ''clients'', normalizeClientForTimeline, ''mac'', \<lambda>r. any_of r [''name'', ''hostname''] (opt_member r ''mac'')),
     (''device'', ''devices'', normalizeDeviceForTimeline, ''mac'', \<lambda>r. any_of r [''name'', ''model''] (opt_member r ''mac''))]"

definition timeline_lists :: "timeline_list list" where
  "timeline_lists = lists_before_acl @ acl_list # lists_after_acl"

definition list_elements :: "json \<Rightarrow> timeline_list \<Rightarrow> json list" where
  "list_elements cfg l = (case l of (rt, k, f, i, g) \<Rightarrow> map f (dflt [] (config_list cfg k)))"

definition good_timeline_list :: "json \<Rightarrow> timeline_list \<Rightarrow> bool" where
  "good_timeline_list cfg l = (case l of (rt, k, f, i, g) \<Rightarrow>
     config_list cfg k \<noteq> None \<and> list_all (good_element (\<lambda>r. opt_member r i) g) (list_elements cfg l))"

definition good_config :: "json \<Rightarrow> bool" where
  "good_config cfg = list_all (good_timeline_list cfg) timeline_lists"

definition compare_list :: "change_context \<Rightarrow> json \<Rightarrow> json \<Rightarrow> timeline_list \<Rightarrow> config_change list \<Rightarrow> change_result" where
  "compare_list cx prev new l db = (case l of (rt, k, f, i, g) \<Rightarrow> compare_key cx rt k f i g prev new db)"

definition timeline_rows :: "change_context \<Rightarrow> json \<Rightarrow> json \<Rightarrow> timeline_list \<Rightarrow> config_change list" where
  "timeline_rows cx prev new l = (case l of (rt, k, f, i, g) \<Rightarrow>
     list_rows cx rt (\<lambda>r. opt_member r i) g (list_elements prev l) (list_elements new l))"

definition list_state :: "json \<Rightarrow> timeline_list \<Rightarrow> string \<Rightarrow> json option" where
  "list_state cfg l = (case l of (rt, k, f, i, g) \<Rightarrow> elements_by (\<lambda>r. opt_member r i) (list_elements cfg l))"

definition of_type :: "string \<Rightarrow> config_change list \<Rightarrow> config_change list" where
  "of_type rt = filter (\<lambda>c. cg_resourceType c = rt)"

lemma compare_list_fields: "compare_list cx prev new (rt, k, f, i, g) = compare_key cx rt k f i g prev new"
  by (rule ext) (simp add: compare_list_def)

lemma detect_by_lists:
  "detectConfigChanges cx prev new db = foldl then_count (db, Some 0)
     (map (compare_list cx prev new) lists_before_acl @ compare_acl_rules cx prev new
       # map (compare_list cx prev new) lists_after_acl @ [compare_firmware cx prev new])"
  by (simp add: detectConfigChanges_def lists_before_acl_def lists_after_acl_def compare_list_fields Let_def)

lemma then_count_step:
  "f db = (db @ xs, Some (length xs)) \<Longrightarrow> then_count (db, Some n) f = (db @ xs, Some (n + length xs))"
  by (simp add: then_count_def)

lemma foldl_compare:
  assumes "\<forall>l \<in> set ls. \<forall>db. f l db = (db @ rows l, Some (length (rows l)))"
  shows "foldl then_count (db, Some n) (map f ls) = (db @ concat (map rows ls), Some (n + length (concat (map rows ls))))"
  using assms
proof (induction ls arbitrary: db n)
  case (Cons l ls)
  then have "then_count (db, Some n) (f l) = (db @ rows l, Some (n + length (rows l)))" by (simp add: then_count_step)
  then show ?case using Cons by simp
qed simp

lemma good_pair:
  assumes "good_timeline_list prev (rt, k, f, i, g)" "good_timeline_list new (rt, k, f, i, g)"
  shows "good_lists (\<lambda>r. opt_member r i) g (list_elements prev (rt, k, f, i, g)) (list_elements new (rt, k, f, i, g))"
  using assms by (simp add: good_lists_def good_timeline_list_def)

lemma compare_list_rows:
  assumes "good_timeline_list prev l" "good_timeline_list new l"
  shows "compare_list cx prev new l db = (db @ timeline_rows cx prev new l, Some (length (timeline_rows cx prev new l)))"
proof (cases l)
  case (fields rt k f i g)
  then obtain ps ns where "config_list prev k = Some ps" "config_list new k = Some ns"
    using assms by (auto simp: good_timeline_list_def)
  then show ?thesis
    using good_lists_rows [OF good_pair, OF assms [unfolded fields]]
    by (simp add: fields compare_list_def compare_key_def timeline_rows_def list_elements_def)
qed

lemma replay_timeline_rows:
  assumes "good_timeline_list prev l" "good_timeline_list new l"
  shows "same_elements (replay (list_state prev l) (timeline_rows cx prev new l)) (list_state new l)"
    and "timeline_rows cx prev new l = [] \<longleftrightarrow> same_elements (list_state prev l) (list_state new l)"
proof -
  obtain rt k f i g where l: "l = (rt, k, f, i, g)" by (cases l)
  note good = good_pair [OF assms [unfolded l]]
  show "same_elements (replay (list_state prev l) (timeline_rows cx prev new l)) (list_state new l)"
    using replay_list_rows [OF good] by (simp add: l timeline_rows_def list_state_def)
  show "timeline_rows cx prev new l = [] \<longleftrightarrow> same_elements (list_state prev l) (list_state new l)"
    using list_rows_empty [OF good] by (simp add: l timeline_rows_def list_state_def)
qed

lemma change_row_type: "change_row cx ty rt i n p v = Some c \<Longrightarrow> cg_resourceType c = rt"
  by (auto simp: change_row_def split: option.splits)

lemma planned_type: "plans rt p ir \<Longrightarrow> the (p ir) = Some c \<Longrightarrow> cg_resourceType c = rt"
  by (auto simp: plans_def)

lemma list_rows_type:
  assumes good: "good_lists getId getName previous current"
    and "c \<in> set (list_rows cx rt getId getName previous current)"
  shows "cg_resourceType c = rt"
  using assms(2) unfolding list_rows_def map_filter_append
  by (auto simp: List.map_filter_def o_def dest: planned_type [OF current_plans [OF good]] planned_type [OF deleted_plans [OF good]])

lemma timeline_rows_type:
  assumes "good_timeline_list prev l" "good_timeline_list new l" "c \<in> set (timeline_rows cx prev new l)"
  shows "cg_resourceType c = fst l"
proof (cases l)
  case (fields rt k f i g)
  with assms show ?thesis using good_pair list_rows_type by (fastforce simp: timeline_rows_def)
qed

subsection \<open>The baseline of the access control rules\<close>

definition seeds :: "change_context \<Rightarrow> json list \<Rightarrow> config_change list \<Rightarrow> config_change list" where
  "seeds cx rules db = (if list_ex (\<lambda>c. cg_connectionId c = cx_connectionId cx \<and> cg_resourceType c = ''aclRule'') db then []
     else List.map_filter the (map (seed_row cx) rules))"

definition acl_rows :: "change_context \<Rightarrow> json \<Rightarrow> json \<Rightarrow> config_change list \<Rightarrow> config_change list" where
  "acl_rows cx prev new db = (let rows = timeline_rows cx prev new acl_list in
     if rows = [] then seeds cx (list_elements new acl_list) db else rows)"

lemma seed_row_good:
  assumes "good_element (\<lambda>r. opt_member r ''_id'') (\<lambda>r. any_of r [''name''] (opt_member r ''_id'')) r"
  shows "\<exists>s c. opt_member r ''_id'' = JStr s \<and> seed_row cx r = Some (Some c) \<and> cg_resourceId c = Some s
    \<and> cg_changeType c = CREATED \<and> cg_newValue c = Some r \<and> cg_resourceType c = ''aclRule'' \<and> cg_connectionId c = cx_connectionId cx"
proof -
  obtain s where s: "opt_member r ''_id'' = JStr s" "s \<noteq> []"
      and n: "text_field (any_of r [''name''] (JStr s)) \<noteq> None"
    using assms by (auto simp: good_element_def split: json.splits)
  have i: "any_of r [''_id''] (opt_member r ''id'') = JStr s" using s by (simp add: any_of_def json_or_def)
  show ?thesis
    using change_row_good [OF n, of "cx\<lparr>cx_detectedAt := None\<rparr>" CREATED "''aclRule''" s None "Some r"] s
    by (auto simp: seed_row_def i)
qed

lemma acl_element:
  assumes "good_timeline_list cfg acl_list" "r \<in> set (list_elements cfg acl_list)"
  shows "good_element (\<lambda>r. opt_member r ''_id'') (\<lambda>r. any_of r [''name''] (opt_member r ''_id'')) r"
  using assms by (auto simp: good_timeline_list_def acl_list_def list_all_iff)

lemma seeds_type:
  assumes "good_timeline_list cfg acl_list" "c \<in> set (seeds cx (list_elements cfg acl_list) db)"
  shows "cg_resourceType c = ''aclRule''" "cg_connectionId c = cx_connectionId cx"
  using assms seed_row_good [OF acl_element [OF assms(1)], of _ cx]
  by (fastforce simp: seeds_def List.map_filter_def split: if_splits)+

lemma replay_seed_rows:
  assumes "\<forall>r \<in> set rs. good_element (\<lambda>r. opt_member r ''_id'') (\<lambda>r. any_of r [''name''] (opt_member r ''_id'')) r"
  shows "replay m (List.map_filter the (map (seed_row cx) rs)) s =
    (case elements_by (\<lambda>r. opt_member r ''_id'') rs s of None \<Rightarrow> m s | Some r \<Rightarrow> Some r)"
  unfolding elements_by_def keyed_def om_get_of using assms
proof (induction rs arbitrary: m)
  case (Cons r rs)
  obtain i c where "opt_member r ''_id'' = JStr i" "seed_row cx r = Some (Some c)" "cg_resourceId c = Some i"
      "cg_changeType c = CREATED" "cg_newValue c = Some r"
    using seed_row_good [of r cx] Cons.prems by auto
  then show ?case
    using Cons by (auto simp: List.map_filter_simps replay_def apply_change_def map_add_def split: option.splits)
qed (simp add: List.map_filter_def replay_def)

lemma acl_rows_written:
  assumes "good_timeline_list prev acl_list" "good_timeline_list new acl_list"
  shows "compare_acl_rules cx prev new db = (db @ acl_rows cx prev new db, Some (length (acl_rows cx prev new db)))"
proof -
  have r: "compare_key cx ''aclRule'' ''aclRules'' (\<lambda>x. x) ''_id'' (\<lambda>r. any_of r [''name''] (opt_member r ''_id'')) prev new db
      = (db @ timeline_rows cx prev new acl_list, Some (length (timeline_rows cx prev new acl_list)))"
    using compare_list_rows [OF assms] by (simp add: compare_list_def acl_list_def)
  have e: "list_elements new acl_list = dflt [] (config_list new ''aclRules'')"
    by (simp add: list_elements_def acl_list_def)
  have "\<forall>c \<in> set (map (seed_row cx) (list_elements new acl_list)). c \<noteq> None"
    using seed_row_good [OF acl_element [OF assms(2)], of _ cx] by fastforce
  then have "seedAclRuleBaselineIfMissing cx (list_elements new acl_list) db
      = (db @ seeds cx (list_elements new acl_list) db, Some (length (seeds cx (list_elements new acl_list) db)))"
    by (auto simp: seedAclRuleBaselineIfMissing_def seeds_def write_changes_total List.map_filter_def)
  then show ?thesis
    by (simp add: compare_acl_rules_def r acl_rows_def Let_def then_count_def flip: e)
qed

lemma replay_acl_rows:
  assumes "good_timeline_list prev acl_list" "good_timeline_list new acl_list"
  shows "same_elements (replay (list_state prev acl_list) (acl_rows cx prev new db)) (list_state new acl_list)"
proof (cases "timeline_rows cx prev new acl_list = []")
  case True
  then have same: "same_elements (list_state prev acl_list) (list_state new acl_list)"
    using replay_timeline_rows(2) [OF assms] by blast
  have st: "list_state new acl_list = elements_by (\<lambda>r. opt_member r ''_id'') (list_elements new acl_list)"
    by (simp add: list_state_def acl_list_def)
  show ?thesis
    using same replay_seed_rows [of "list_elements new acl_list" "list_state prev acl_list" cx] acl_element [OF assms(2)]
    by (auto simp: True acl_rows_def seeds_def same_elements_def st replay_def split: option.split)
next
  case False
  then show ?thesis using replay_timeline_rows(1) [OF assms] by (simp add: acl_rows_def)
qed

subsection \<open>Firmware\<close>

definition devices_of :: "json \<Rightarrow> json list" where
  "devices_of cfg = dflt [] (config_list cfg ''devices'')"

definition device_list :: timeline_list where
  "device_list = (''device'', ''devices'', normalizeDeviceForTimeline, ''mac'', \<lambda>r. any_of r [''name'', ''model''] (opt_member r ''mac''))"

definition firmware_rows :: "change_context \<Rightarrow> json \<Rightarrow> json \<Rightarrow> config_change list" where
  "firmware_rows cx prev new = List.map_filter the (map (firmware_change cx (devices_of prev)) (devices_of new))"

text \<open>A device whose version differs from that of the first device with its address there was before.\<close>

definition other_version :: "json list \<Rightarrow> json \<Rightarrow> bool" where
  "other_version prevDevices d = (case find (\<lambda>p. opt_member p ''mac'' = opt_member d ''mac'') prevDevices of
     None \<Rightarrow> False | Some p \<Rightarrow> \<not> strict_eq (opt_member p ''version'') (opt_member d ''version''))"

lemma opt_member_obj: "opt_member (JObj kvs) k = dflt JUndef (map_of kvs k)"
  by (simp add: opt_member_def js_member_def field_def om_get_def)

lemma opt_member_mac: "opt_member d ''mac'' = JStr s \<Longrightarrow> \<exists>kvs. d = JObj kvs"
  by (auto simp: opt_member_def js_member_def array_index_def is_digit_def split: json.splits if_splits)

lemma normal_device:
  "opt_member (normalizeDeviceForTimeline d) ''mac'' = opt_member d ''mac''"
  "opt_member (normalizeDeviceForTimeline d) ''name'' = or_null (opt_member d ''name'')"
  by (simp_all add: normalizeDeviceForTimeline_def opt_member_obj)

lemma device_element:
  assumes "good_timeline_list cfg device_list" "d \<in> set (devices_of cfg)"
  shows "\<exists>kvs s. d = JObj kvs \<and> opt_member d ''mac'' = JStr s \<and> text_field (any_of d [''name''] (JStr s)) \<noteq> None"
proof -
  have g: "good_element (\<lambda>r. opt_member r ''mac'') (\<lambda>r. any_of r [''name'', ''model''] (opt_member r ''mac''))
      (normalizeDeviceForTimeline d)"
    using assms by (auto simp: good_timeline_list_def device_list_def devices_of_def list_elements_def list_all_iff)
  then obtain s where s: "opt_member d ''mac'' = JStr s"
    by (auto simp: good_element_def normal_device split: json.splits)
  then obtain kvs where kvs: "d = JObj kvs" using opt_member_mac by blast
  have "text_field (any_of (normalizeDeviceForTimeline d) [''name'', ''model''] (JStr s)) \<noteq> None"
    using g s by (simp add: good_element_def normal_device)
  then have "text_field (any_of d [''name''] (JStr s)) \<noteq> None"
    by (auto simp: any_of_def normal_device or_null_def json_or_def text_field_def [of "JStr _"] split: if_splits)
  with s kvs show ?thesis by blast
qed

lemma find_m_total: "\<forall>x \<in> set xs. p x = Some (q x) \<Longrightarrow> find_m p xs = Some (find q xs)"
  by (induction xs) (auto split: bool.split)

lemma firmware_change_good:
  assumes "good_timeline_list prev device_list" "good_timeline_list new device_list" "d \<in> set (devices_of new)"
  shows "\<exists>c. firmware_change cx (devices_of prev) d = Some (if other_version (devices_of prev) d then Some c else None)
    \<and> cg_resourceType c = ''firmware'' \<and> Some (cg_resourceId c) = text_field (opt_member d ''mac'') \<and> cg_newValue c = Some (version_and_name d)"
proof -
  obtain kvs s where d: "d = JObj kvs" "opt_member d ''mac'' = JStr s" and n: "text_field (any_of d [''name''] (JStr s)) \<noteq> None"
    using device_element [OF assms(2,3)] by blast
  let ?q = "\<lambda>p. opt_member p ''mac'' = opt_member d ''mac''"
  have f: "find_m (\<lambda>p. if p = JUndef \<or> p = JNull \<or> d = JUndef \<or> d = JNull then None
      else Some (strict_eq (opt_member p ''mac'') (opt_member d ''mac''))) (devices_of prev) = Some (find ?q (devices_of prev))"
  proof (intro find_m_total ballI)
    fix p assume "p \<in> set (devices_of prev)"
    then obtain k i where "p = JObj k" "opt_member p ''mac'' = JStr i" using device_element [OF assms(1)] by blast
    then show "(if p = JUndef \<or> p = JNull \<or> d = JUndef \<or> d = JNull then None
        else Some (strict_eq (opt_member p ''mac'') (opt_member d ''mac''))) = Some (?q p)"
      using d by (simp add: strict_eq_def)
  qed
  have t: "json_truthy p" if "find ?q (devices_of prev) = Some p" for p
    using that device_element [OF assms(1), of p] by (auto simp: find_Some_iff)
  show ?thesis
  proof (cases "find ?q (devices_of prev)")
    case None
    then show ?thesis
      using change_row_good [OF n, of undefined undefined "''firmware''" s undefined "Some (version_and_name d)"]
      unfolding firmware_change_def f by (auto simp: other_version_def d(2) text_field_def [of "JStr s"])
  next
    case (Some p)
    then show ?thesis
      using t [OF Some] change_row_good [OF n, of cx MODIFIED "''firmware''" s "Some (version_and_name p)" "Some (version_and_name d)"]
      unfolding firmware_change_def f by (auto simp: other_version_def d(2) text_field_def [of "JStr s"])
  qed
qed

lemma firmware_written:
  assumes "good_timeline_list prev device_list" "good_timeline_list new device_list"
  shows "compare_firmware cx prev new db = (db @ firmware_rows cx prev new, Some (length (firmware_rows cx prev new)))"
proof -
  obtain ps ns where l: "config_list prev ''devices'' = Some ps" "config_list new ''devices'' = Some ns"
    using assms by (auto simp: good_timeline_list_def device_list_def)
  have "\<forall>c \<in> set (map (firmware_change cx (devices_of prev)) (devices_of new)). c \<noteq> None"
    using firmware_change_good [OF assms, of _ cx] by fastforce
  then show ?thesis
    using write_changes_total by (simp add: compare_firmware_def l firmware_rows_def devices_of_def)
qed

lemma firmware_rows_exact:
  assumes "good_timeline_list prev device_list" "good_timeline_list new device_list"
  shows "map (\<lambda>c. (Some (cg_resourceId c), cg_newValue c, cg_resourceType c)) (firmware_rows cx prev new)
    = map (\<lambda>d. (text_field (opt_member d ''mac''), Some (version_and_name d), ''firmware''))
        (filter (other_version (devices_of prev)) (devices_of new))"
proof -
  have "map (\<lambda>c. (Some (cg_resourceId c), cg_newValue c, cg_resourceType c))
      (List.map_filter the (map (firmware_change cx (devices_of prev)) ds))
    = map (\<lambda>d. (text_field (opt_member d ''mac''), Some (version_and_name d), ''firmware''))
        (filter (other_version (devices_of prev)) ds)" if "set ds \<subseteq> set (devices_of new)" for ds
    using that
  proof (induction ds)
    case (Cons d ds)
    then obtain c where "firmware_change cx (devices_of prev) d = Some (if other_version (devices_of prev) d then Some c else None)"
        "cg_resourceType c = ''firmware''" "Some (cg_resourceId c) = text_field (opt_member d ''mac'')" "cg_newValue c = Some (version_and_name d)"
      using firmware_change_good [OF assms, of d cx] by auto
    with Cons show ?case by (simp add: List.map_filter_simps)
  qed (simp add: List.map_filter_def)
  then show ?thesis by (simp add: firmware_rows_def)
qed

subsection \<open>All rows\<close>

lemma of_type_segment:
  assumes "distinct (map fst segs)" "\<forall>(t, rs) \<in> set segs. \<forall>c \<in> set rs. cg_resourceType c = t" "(rt, rows) \<in> set segs"
  shows "of_type rt (concat (map snd segs)) = rows"
proof -
  have other: "of_type rt (concat (map snd ss)) = []"
    if "\<forall>(t, rs) \<in> set ss. \<forall>c \<in> set rs. cg_resourceType c = t" "rt \<notin> set (map fst ss)" for ss :: "(string \<times> config_change list) list"
    using that by (induction ss) (auto simp: of_type_def filter_empty_conv)
  show ?thesis using assms
  proof (induction segs)
    case (Cons seg segs)
    show ?case
    proof (cases "seg = (rt, rows)")
      case True
      then have "of_type rt rows = rows" using Cons.prems(2) by (auto simp: of_type_def)
      then show ?thesis using Cons.prems True other [of segs] by (auto simp: of_type_def)
    next
      case False
      then have "(rt, rows) \<in> set segs" "fst seg \<noteq> rt"
        using Cons.prems(1,3) by (auto simp: image_iff)
      moreover from this have "of_type rt (snd seg) = []" using Cons.prems(2) other [of "[seg]"] by auto
      moreover have "of_type rt (concat (map snd segs)) = rows"
        using Cons.IH Cons.prems \<open>(rt, rows) \<in> set segs\<close> by simp
      ultimately show ?thesis by (simp add: of_type_def)
    qed
  qed simp
qed

definition all_segments :: "change_context \<Rightarrow> json \<Rightarrow> json \<Rightarrow> config_change list \<Rightarrow> (string \<times> config_change list) list" where
  "all_segments cx prev new db = map (\<lambda>l. (fst l, timeline_rows cx prev new l)) lists_before_acl
     @ (''aclRule'', acl_rows cx prev new db) # map (\<lambda>l. (fst l, timeline_rows cx prev new l)) lists_after_acl
     @ [(''firmware'', firmware_rows cx prev new)]"

lemma good_config_list: "good_config cfg \<Longrightarrow> l \<in> set timeline_lists \<Longrightarrow> good_timeline_list cfg l"
  by (simp add: good_config_def list_all_iff)

lemma timeline_sets:
  "set lists_before_acl \<subseteq> set timeline_lists" "acl_list \<in> set timeline_lists" "set lists_after_acl \<subseteq> set timeline_lists"
  "device_list \<in> set timeline_lists"
  by (auto simp: timeline_lists_def lists_after_acl_def device_list_def)

lemma good_rows_type:
  assumes "good_config prev" "good_config new" "l \<in> set timeline_lists" "c \<in> set (timeline_rows cx prev new l)"
  shows "cg_resourceType c = fst l"
  using assms good_config_list timeline_rows_type by blast

lemma seeds_other_rows:
  "\<forall>c \<in> set xs. cg_resourceType c \<noteq> ''aclRule'' \<Longrightarrow> seeds cx rs (db @ xs) = seeds cx rs db"
  by (auto simp: seeds_def list_ex_iff)

lemma detect_rows:
  assumes "good_config prev" "good_config new"
  shows "detectConfigChanges cx prev new db = (db @ concat (map snd (all_segments cx prev new db)),
    Some (length (concat (map snd (all_segments cx prev new db)))))"
proof -
  note good = assms [THEN good_config_list]
  let ?TR = "timeline_rows cx prev new"
  let ?b = "concat (map ?TR lists_before_acl)" and ?a = "concat (map ?TR lists_after_acl)"
  have step: "foldl then_count (d, Some n) (map (compare_list cx prev new) ls)
      = (d @ concat (map ?TR ls), Some (n + length (concat (map ?TR ls))))" if "set ls \<subseteq> set timeline_lists" for ls d n
    using that good compare_list_rows by (intro foldl_compare) blast
  have acl: "acl_rows cx prev new (db @ ?b) = acl_rows cx prev new db"
  proof -
    have "\<forall>c \<in> set ?b. cg_resourceType c \<in> fst ` set lists_before_acl"
    proof
      fix c assume "c \<in> set ?b"
      then obtain l where "l \<in> set lists_before_acl" "c \<in> set (?TR l)" unfolding set_concat set_map by blast
      then have "cg_resourceType c = fst l" using good_rows_type [OF assms] timeline_sets(1) by blast
      then show "cg_resourceType c \<in> fst ` set lists_before_acl"
        using \<open>l \<in> set lists_before_acl\<close> by (rule image_eqI)
    qed
    moreover have "''aclRule'' \<notin> fst ` set lists_before_acl" by (simp add: lists_before_acl_def)
    ultimately have "\<forall>c \<in> set ?b. cg_resourceType c \<noteq> ''aclRule''" by metis
    then have "seeds cx rs (db @ ?b) = seeds cx rs db" for rs by (rule seeds_other_rows)
    then show ?thesis by (simp only: acl_rows_def)
  qed
  show ?thesis
    by (simp add: detect_by_lists step timeline_sets then_count_step [OF acl_rows_written]
        then_count_step [OF firmware_written] good acl all_segments_def o_def)
qed

lemma segments_typed:
  assumes "good_config prev" "good_config new" "(rt, rows) \<in> set (all_segments cx prev new db)" "c \<in> set rows"
  shows "cg_resourceType c = rt"
proof -
  note good = assms(1,2) [THEN good_config_list, OF timeline_sets(2)] and dev = assms(1,2) [THEN good_config_list, OF timeline_sets(4)]
  note type = good_rows_type [OF assms(1,2)]
  have acl: "cg_resourceType c = ''aclRule''" if "c \<in> set (acl_rows cx prev new db)"
    using that seeds_type(1) [OF good(2), of c cx db] type [OF timeline_sets(2), of c cx]
    by (auto simp: acl_rows_def Let_def acl_list_def split: if_splits)
  have fw: "cg_resourceType c = ''firmware''" if "c \<in> set (firmware_rows cx prev new)"
  proof -
    have "(Some (cg_resourceId c), cg_newValue c, cg_resourceType c)
        \<in> set (map (\<lambda>c. (Some (cg_resourceId c), cg_newValue c, cg_resourceType c)) (firmware_rows cx prev new))"
      using that by simp
    then show ?thesis unfolding firmware_rows_exact [OF dev] by auto
  qed
  have "(\<exists>l \<in> set timeline_lists. rt = fst l \<and> rows = timeline_rows cx prev new l)
      \<or> rt = ''aclRule'' \<and> rows = acl_rows cx prev new db \<or> rt = ''firmware'' \<and> rows = firmware_rows cx prev new"
    using assms(3) timeline_sets(1,3) by (auto simp: all_segments_def)
  then show ?thesis using assms(4) type acl fw by blast
qed

lemma other_lists: "l \<in> set lists_before_acl \<or> l \<in> set lists_after_acl \<Longrightarrow> fst l \<noteq> ''aclRule''"
  by (auto simp: lists_before_acl_def lists_after_acl_def)

lemma segments_distinct: "distinct (map fst (all_segments cx prev new db))"
  by (simp add: all_segments_def lists_before_acl_def lists_after_acl_def)

lemma rows_of_type:
  assumes "good_config prev" "good_config new" "(rt, rows) \<in> set (all_segments cx prev new db)"
  shows "of_type rt (concat (map snd (all_segments cx prev new db))) = rows"
  using of_type_segment [OF segments_distinct] assms(3) segments_typed [OF assms(1,2)] by blast

text \<open>Whether the first rows for access control rules are still to be written.\<close>

definition acl_unrecorded :: "change_context \<Rightarrow> config_change list \<Rightarrow> bool" where
  "acl_unrecorded cx db \<longleftrightarrow> \<not> list_ex (\<lambda>c. cg_connectionId c = cx_connectionId cx \<and> cg_resourceType c = ''aclRule'') db"

lemma acl_rows_empty:
  assumes "good_timeline_list prev acl_list" "good_timeline_list new acl_list"
  shows "acl_rows cx prev new db = [] \<longleftrightarrow> same_elements (list_state prev acl_list) (list_state new acl_list)
    \<and> (acl_unrecorded cx db \<longrightarrow> list_elements new acl_list = [])"
proof -
  have "List.map_filter the (map (seed_row cx) rs) = [] \<longleftrightarrow> rs = []" if "set rs \<subseteq> set (list_elements new acl_list)" for rs
  proof (cases rs)
    case (Cons r rs')
    then show ?thesis
      using seed_row_good [OF acl_element [OF assms(2)], of r cx] that by (auto simp: List.map_filter_simps)
  qed (simp add: List.map_filter_def)
  then show ?thesis
    using replay_timeline_rows(2) [OF assms, of cx] by (auto simp: acl_rows_def seeds_def acl_unrecorded_def Let_def)
qed

text \<open>C33: For configurations whose elements have a text as identifier and a name the database takes, no
  comparison fails; the rows that are added, replayed by type on the elements of the old configuration, give
  the elements of the new one up to the order of keys; a type has rows exactly when its elements changed,
  apart from the first rows for access control rules; and the firmware rows are those of the devices whose
  version changed.
\<close>

theorem history_replays:
  assumes "good_config prev" "good_config new"
  shows "\<exists>rows. detectConfigChanges cx prev new db = (db @ rows, Some (length rows))
    \<and> (\<forall>l \<in> set timeline_lists. same_elements (replay (list_state prev l) (of_type (fst l) rows)) (list_state new l)
        \<and> (of_type (fst l) rows = [] \<longleftrightarrow> same_elements (list_state prev l) (list_state new l)
            \<and> (fst l = ''aclRule'' \<and> acl_unrecorded cx db \<longrightarrow> list_elements new l = [])))
    \<and> map (\<lambda>c. (Some (cg_resourceId c), cg_newValue c)) (of_type ''firmware'' rows)
      = map (\<lambda>d. (text_field (opt_member d ''mac''), Some (version_and_name d)))
          (filter (other_version (devices_of prev)) (devices_of new))"
proof (intro exI conjI ballI)
  note good = assms [THEN good_config_list]
  let ?rows = "concat (map snd (all_segments cx prev new db))"
  note seg = rows_of_type [OF assms]
  show "detectConfigChanges cx prev new db = (db @ ?rows, Some (length ?rows))"
    by (rule detect_rows [OF assms])
  fix l assume l: "l \<in> set timeline_lists"
  consider (acl) "l = acl_list"
  | (other) "(fst l, timeline_rows cx prev new l) \<in> set (all_segments cx prev new db)" "fst l \<noteq> ''aclRule''"
  proof -
    have "l = acl_list \<or> l \<in> set lists_before_acl \<union> set lists_after_acl"
      using l by (auto simp: timeline_lists_def)
    moreover have "(fst l, timeline_rows cx prev new l) \<in> set (all_segments cx prev new db) \<and> fst l \<noteq> ''aclRule''"
      if "l \<in> set lists_before_acl \<union> set lists_after_acl"
      using that other_lists [of l] by (auto simp: all_segments_def)
    ultimately show thesis using that by blast
  qed
  then have "same_elements (replay (list_state prev l) (of_type (fst l) ?rows)) (list_state new l)
        \<and> (of_type (fst l) ?rows = [] \<longleftrightarrow> same_elements (list_state prev l) (list_state new l)
            \<and> (fst l = ''aclRule'' \<and> acl_unrecorded cx db \<longrightarrow> list_elements new l = []))"
  proof cases
    case acl
    have "(fst l, acl_rows cx prev new db) \<in> set (all_segments cx prev new db)"
      by (simp add: acl acl_list_def all_segments_def)
    from seg [OF this] show ?thesis
      using replay_acl_rows good l acl_rows_empty by (simp add: acl) (simp add: acl_list_def)
  next
    case other
    from seg [OF other(1)] show ?thesis using replay_timeline_rows good l other(2) by simp
  qed
  then show "same_elements (replay (list_state prev l) (of_type (fst l) ?rows)) (list_state new l)"
    "of_type (fst l) ?rows = [] \<longleftrightarrow> same_elements (list_state prev l) (list_state new l)
            \<and> (fst l = ''aclRule'' \<and> acl_unrecorded cx db \<longrightarrow> list_elements new l = [])" by blast+
next
  have "of_type ''firmware'' (concat (map snd (all_segments cx prev new db))) = firmware_rows cx prev new"
    by (rule rows_of_type [OF assms]) (simp add: all_segments_def)
  moreover note arg_cong [where f = "map (\<lambda>(a, b, c). (a, b))",
      OF firmware_rows_exact [OF assms [THEN good_config_list, OF timeline_sets(4)], of cx]]
  ultimately show "map (\<lambda>c. (Some (cg_resourceId c), cg_newValue c)) (of_type ''firmware'' (concat (map snd (all_segments cx prev new db))))
      = map (\<lambda>d. (text_field (opt_member d ''mac''), Some (version_and_name d)))
          (filter (other_version (devices_of prev)) (devices_of new))"
    by (simp add: o_def)
qed

text \<open>
  A firewall rule is renamed, a network leaves, the keys of a client come in another order, an access
  point gets a new version, and an access control rule has no row yet.
\<close>

definition old_state :: json where
  "old_state = JObj
     [(''firewallRules'', JArr [JObj [(''_id'', JStr ''r1''), (''name'', JStr ''block'')]]),
      (''networkConf'', JArr [JObj [(''_id'', JStr ''n1''), (''name'', JStr ''iot'')]]),
      (''aclRules'', JArr [JObj [(''_id'', JStr ''a1'')]]),
      (''clients'', JArr [JObj [(''mac'', JStr ''c1''), (''name'', JStr ''tv'')]]),
      (''devices'', JArr [JObj [(''mac'', JStr ''d1''), (''version'', JStr ''6.5'')], JObj [(''mac'', JStr ''d2''), (''version'', JStr ''7.0'')]])]"

definition new_state :: json where
  "new_state = JObj
     [(''firewallRules'', JArr [JObj [(''_id'', JStr ''r1''), (''name'', JStr ''drop'')]]),
      (''networkConf'', JArr []),
      (''aclRules'', JArr [JObj [(''_id'', JStr ''a1'')]]),
      (''clients'', JArr [JObj [(''name'', JStr ''tv''), (''mac'', JStr ''c1'')]]),
      (''devices'', JArr [JObj [(''mac'', JStr ''d1''), (''version'', JStr ''6.6'')], JObj [(''mac'', JStr ''d2''), (''version'', JStr ''7.0'')]])]"

theorem history_replays_witness:
  "(\<exists>rows. detectConfigChanges \<lparr>cx_connectionId = ''u'', cx_detectedAt = None, cx_now = 9\<rparr> old_state new_state [] = (rows, Some (length rows))
      \<and> (\<forall>l \<in> set timeline_lists. same_elements (replay (list_state old_state l) (of_type (fst l) rows)) (list_state new_state l)))
   \<and> map (\<lambda>c. (cg_changeType c, cg_resourceType c, cg_resourceId c))
       (fst (detectConfigChanges \<lparr>cx_connectionId = ''u'', cx_detectedAt = None, cx_now = 9\<rparr> old_state new_state []))
     = [(MODIFIED, ''firewallRule'', Some ''r1''), (DELETED, ''network'', Some ''n1''), (CREATED, ''aclRule'', Some ''a1''),
        (MODIFIED, ''device'', Some ''d1''), (MODIFIED, ''firmware'', Some ''d1'')]"
proof
  have "good_config old_state" "good_config new_state" by code_simp+
  from history_replays [OF this, of "\<lparr>cx_connectionId = ''u'', cx_detectedAt = None, cx_now = 9\<rparr>" "[]"]
  show "\<exists>rows. detectConfigChanges \<lparr>cx_connectionId = ''u'', cx_detectedAt = None, cx_now = 9\<rparr> old_state new_state [] = (rows, Some (length rows))
      \<and> (\<forall>l \<in> set timeline_lists. same_elements (replay (list_state old_state l) (of_type (fst l) rows)) (list_state new_state l))"
    by auto
qed code_simp

end
