(* ===== verification/Server_Connectivity.thy ===== *)
theory Server_Connectivity
  imports Reachability Vlan_Coverage Local_Executor
begin

text \<open>
  Whether a network or a device can reach the server, \<open>services/networkConnectivityService.ts\<close>: the networks
  of both ends are looked up in the topology, and the verdict of their connection is corrected by the
  policies for single devices.
\<close>

section \<open>The server\<close>

text \<open>What the process knows of itself: the environment, the interfaces and the configured ports.\<close>

record server_env =
  se_hostIp :: "string option"
  se_interfaces :: "iface_address list list"
  se_mqttPort :: string
  se_apiPort :: string

definition port_text :: "string \<Rightarrow> string \<Rightarrow> string" where
  "port_text s fallback = (case js_parse_int (if s = [] then fallback else s) of None \<Rightarrow> ''NaN'' | Some p \<Rightarrow> show_int p)"

definition PORT_HINT :: "server_env \<Rightarrow> string" where
  "PORT_HINT env = port_text (se_mqttPort env) ''1883'' @ '' (MQTT) and '' @ port_text (se_apiPort env) ''3000'' @ '' (API)''"

definition DIRECTIONAL_ACL_HINT :: string where
  "DIRECTIONAL_ACL_HINT = ''In UniFi ACL mode, add two rules: one source '' @ [CHR 0xE2, CHR 0x86, CHR 0x92] @
     '' server and one server '' @ [CHR 0xE2, CHR 0x86, CHR 0x92] @ '' source.''"

fun first_address :: "iface_address list list \<Rightarrow> string" where
  "first_address [] = ''127.0.0.1''"
| "first_address (addrs # rest) =
     (case find (\<lambda>a. ia_family a = ''IPv4'' \<and> \<not> ia_internal a) addrs of
        None \<Rightarrow> first_address rest
      | Some a \<Rightarrow> if ia_address a \<noteq> ''127.0.0.1'' then ia_address a else first_address rest)"

definition getServerIp :: "server_env \<Rightarrow> string" where
  "getServerIp env =
     (let configured = map_option js_trim (se_hostIp env) in
      if truthy configured then the configured else first_address (se_interfaces env))"

section \<open>Lookups\<close>

definition findNetworkByIp :: "string \<Rightarrow> network_node list \<Rightarrow> network_node option" where
  "findNetworkByIp ip networks =
     find (\<lambda>n. truthy (nn_subnet n) \<and> ipInSubnet ip (the (nn_subnet n))) networks"

definition array_at :: "(string \<times> json) list \<Rightarrow> string list \<Rightarrow> (string \<times> json) list list" where
  "array_at config ks = map obj_fields (dflt [] (foldr (\<lambda>k r. nullish (get_arr config k) r) ks None))"

definition findNetworkForWlan :: "string \<Rightarrow> (string \<times> json) list \<Rightarrow> (string \<times> string) option" where
  "findNetworkForWlan ssid config =
     (case find (\<lambda>w. str_or (get_str w ''name'') (get_str w ''ssid'') = Some ssid)
              (array_at config [''wlans'', ''wlanConf'', ''wlanconf'']) of
        None \<Rightarrow> None
      | Some wlan \<Rightarrow>
          (let networkId = get_str wlan ''networkconf_id'' in
           if \<not> truthy networkId then None
           else (let network = find (\<lambda>n. str_or (get_str n ''_id'') (get_str n ''id'') = networkId)
                                 (array_at config [''networks'', ''networkConf'', ''networkconf''])
                 in Some (the networkId, str_dflt (Option.bind network (\<lambda>n. get_str n ''name'')) ''Unknown Network''))))"

record device_policy =
  dp_name :: "string option"
  dp_action :: string
  dp_macs :: "string list"

definition targets_mac :: "raw_policy \<Rightarrow> bool" where
  "targets_mac p \<longleftrightarrow> ps_matching_target (fp_source p) = Some ''CLIENT'' \<and> dflt [] (ps_client_macs (fp_source p)) \<noteq> []"

definition allows_internal :: "raw_policy \<Rightarrow> bool" where
  "allows_internal p \<longleftrightarrow> ps_matching_target (fp_destination p) \<in> {Some ''ANY'', Some ''NETWORK''}"

definition findDeviceSpecificPolicies :: "(string \<times> json) list \<Rightarrow> device_policy list" where
  "findDeviceSpecificPolicies config =
     map (\<lambda>p. \<lparr>dp_name = fp_name p, dp_action = fp_action p, dp_macs = dflt [] (ps_client_macs (fp_source p))\<rparr>)
       (filter (\<lambda>p. fp_enabled p \<and> targets_mac p \<and> allows_internal p \<and> fp_action p = ''ALLOW'')
         (map (\<lambda>fs. read_policy (JObj fs)) (array_at config [''firewallPolicies'', ''firewallpolicy''])))"

section \<open>Results\<close>

record network_ref =
  nr_id :: string
  nr_name :: string
  nr_vlanId :: "rat option"
  nr_subnet :: "string option"

definition ref_of :: "network_node \<Rightarrow> network_ref" where
  "ref_of n = \<lparr>nr_id = nn_id n, nr_name = nn_name n, nr_vlanId = nn_vlanId n, nr_subnet = nn_subnet n\<rparr>"

datatype reach_reason = Reason block_reason | NoRoute | SameNetwork

text \<open>Name, action and \<open>targetsMac\<close>, which is always true.\<close>

type_synonym policy_ref = "string option \<times> string"

record server_reach =
  rs_canReachServer :: bool
  rs_sourceNetwork :: "network_ref option"
  rs_serverNetwork :: "network_ref option"
  rs_serverIp :: string
  rs_blockedReason :: "reach_reason option"
  rs_blockDetails :: "string option"
  rs_firewallRules :: "(string \<times> string) list option"
  rs_recommendation :: "string option"
  rs_devicePolicies :: "policy_ref list option"
  rs_hasDeviceOverride :: "bool option"

definition result_for :: "bool \<Rightarrow> network_node option \<Rightarrow> network_node option \<Rightarrow> string \<Rightarrow> server_reach" where
  "result_for reach src srv ip =
     \<lparr>rs_canReachServer = reach, rs_sourceNetwork = map_option ref_of src, rs_serverNetwork = map_option ref_of srv,
      rs_serverIp = ip, rs_blockedReason = None, rs_blockDetails = None, rs_firewallRules = None,
      rs_recommendation = None, rs_devicePolicies = None, rs_hasDeviceOverride = None\<rparr>"

definition shown_rules :: "connection \<Rightarrow> (string \<times> string) list" where
  "shown_rules c = map (\<lambda>r. (ri_name r, ri_action r)) (co_rules c)"

definition policy_refs_of :: "device_policy list \<Rightarrow> policy_ref list" where
  "policy_refs_of ps = map (\<lambda>p. (dp_name p, dp_action p)) ps"

definition show_opt :: "string option \<Rightarrow> string" where
  "show_opt = dflt ''undefined''"

definition quoted :: "string \<Rightarrow> string" where
  "quoted s = [CHR 0x22] @ s @ [CHR 0x22]"

definition rule_block_details :: "connection \<Rightarrow> network_node \<Rightarrow> network_node \<Rightarrow> string" where
  "rule_block_details c src srv =
     (let blocking = filter (\<lambda>r. ri_action r = ''drop'' \<or> ri_action r = ''reject'') (co_rules c) in
      if blocking \<noteq> [] then ''Blocked by firewall rule: '' @ join '', '' (map ri_name blocking)
      else ''Traffic is blocked between '' @ nn_name src @ '' and '' @ nn_name srv @ ''.'')"

definition allow_rules_hint :: "server_env \<Rightarrow> network_node \<Rightarrow> network_node \<Rightarrow> string" where
  "allow_rules_hint env src srv =
     ''Create allow ACL/policy rules between '' @ quoted (nn_name src) @ '' and '' @ quoted (nn_name srv) @
     '' on ports '' @ PORT_HINT env @ ''. '' @ DIRECTIONAL_ACL_HINT"

definition no_route_result :: "server_env \<Rightarrow> network_node \<Rightarrow> network_node \<Rightarrow> string \<Rightarrow> server_reach" where
  "no_route_result env src srv ip = (result_for False (Some src) (Some srv) ip)
     \<lparr>rs_blockedReason := Some NoRoute,
      rs_blockDetails := Some (''No firewall rule found between '' @ nn_name src @ '' and '' @ nn_name srv @ ''.''),
      rs_recommendation := Some (allow_rules_hint env src srv)\<rparr>"

definition isolated_on :: "connection \<Rightarrow> string" where
  "isolated_on c = ''Network isolation is enabled on '' @ str_dflt (co_isolationSource c) ''one of the networks''"

definition connection_between :: "connection list \<Rightarrow> network_node \<Rightarrow> network_node \<Rightarrow> connection option" where
  "connection_between cs a b = find (\<lambda>c. co_srcId c = nn_id a \<and> co_dstId c = nn_id b) cs"

section \<open>A network\<close>

definition network_by_id :: "network_node list \<Rightarrow> string \<Rightarrow> network_node option" where
  "network_by_id networks i = find (\<lambda>n. nn_id n = i) networks"

definition source_node :: "network_node list \<Rightarrow> string \<Rightarrow> network_node option" where
  "source_node networks i =
     (let i' = (if network_by_id networks i = None
                then (case find (\<lambda>n. to_lower (nn_name n) = to_lower i) networks of None \<Rightarrow> i | Some n \<Rightarrow> nn_id n)
                else i)
      in network_by_id networks i')"

text \<open>A connection that is not allowed.\<close>

definition network_blocked ::
    "server_env \<Rightarrow> device_policy list \<Rightarrow> connection \<Rightarrow> network_node \<Rightarrow> network_node \<Rightarrow> string \<Rightarrow> server_reach" where
  "network_blocked env ps c src srv ip =
     (if co_blockedByIsolation c \<and> ps \<noteq> [] then
        (result_for True (Some src) (Some srv) ip)
          \<lparr>rs_blockedReason := Some (Reason Isolation),
           rs_blockDetails := Some (isolated_on c @ '', but device-specific policies exist that may override this.''),
           rs_firewallRules := Some (shown_rules c), rs_devicePolicies := Some (policy_refs_of ps),
           rs_hasDeviceOverride := Some True,
           rs_recommendation := Some (''Your device-specific policy ('' @ join '', '' (map (\<lambda>p. quoted (show_opt (dp_name p))) ps) @
             '') should allow this device to communicate. Make sure the ESP32's MAC address is in the policy's allowed clients list.'')\<rparr>
      else
        (result_for False (Some src) (Some srv) ip)
          \<lparr>rs_blockedReason := Some (Reason (dflt Firewall (co_blockReason c))),
           rs_blockDetails := Some (if co_blockedByIsolation c then isolated_on c @ ''.'' else rule_block_details c src srv),
           rs_firewallRules := Some (shown_rules c),
           rs_devicePolicies := (if ps \<noteq> [] then Some (policy_refs_of ps) else None),
           rs_hasDeviceOverride := Some (ps \<noteq> []),
           rs_recommendation := Some (if co_blockedByIsolation c
             then ''Disable network isolation on '' @ quoted (show_opt (co_isolationSource c)) @
               '' or create a device-specific allow policy targeting the ESP32's MAC address.''
             else allow_rules_hint env src srv)\<rparr>)"

definition network_verdict ::
    "server_env \<Rightarrow> (string \<times> json) list \<Rightarrow> connection list \<Rightarrow> network_node \<Rightarrow> network_node \<Rightarrow> string \<Rightarrow> server_reach" where
  "network_verdict env config cs src srv ip =
     (if nn_id src = nn_id srv then
        (result_for True (Some src) (Some srv) ip)
          \<lparr>rs_blockedReason := Some SameNetwork,
           rs_recommendation := Some ''Device will be on the same network as the server.''\<rparr>
      else (case connection_between cs src srv of
          None \<Rightarrow> no_route_result env src srv ip
        | Some c \<Rightarrow>
            if \<not> co_allowed c then network_blocked env (findDeviceSpecificPolicies config) c src srv ip
            else (result_for True (Some src) (Some srv) ip)\<lparr>rs_firewallRules := Some (shown_rules c)\<rparr>))"

definition with_advice :: "server_reach \<Rightarrow> string \<Rightarrow> server_reach" where
  "with_advice r text = r\<lparr>rs_recommendation := Some text\<rparr>"

definition find_source :: "(string \<times> json) list \<Rightarrow> network_node list \<Rightarrow> string \<Rightarrow> bool \<Rightarrow> network_node option option" where
  "find_source config networks networkIdOrSsid isSsid =
     (if isSsid then map_option (\<lambda>w. source_node networks (fst w)) (findNetworkForWlan networkIdOrSsid config)
      else Some (source_node networks networkIdOrSsid))"

text \<open>
  The row that the database returns: \<open>None\<close> when the query fails, \<open>Some None\<close> when there is no active
  configuration.
\<close>

definition validateNetworkConnectivity ::
    "(string \<Rightarrow> string \<Rightarrow> int) \<Rightarrow> server_env \<Rightarrow> json option option \<Rightarrow> string \<Rightarrow> bool \<Rightarrow> server_reach" where
  "validateNetworkConnectivity cmp env active networkIdOrSsid isSsid =
     (let ip = getServerIp env in
      case active of
        None \<Rightarrow> with_advice (result_for True None None ip) ''Error validating connectivity. Proceeding with setup.''
      | Some row \<Rightarrow>
          if \<not> json_truthy (dflt JNull row)
          then with_advice (result_for True None None ip) ''No UniFi configuration found. Unable to validate connectivity.''
          else
            (let config = obj_fields (the row);
                 topology = analyzeTopology cmp config None;
                 server = findNetworkByIp ip (ta_networks topology)
             in case find_source config (ta_networks topology) networkIdOrSsid isSsid of
                  None \<Rightarrow> with_advice (result_for True None server ip)
                    (''Could not find network for SSID '' @ quoted networkIdOrSsid @ ''. Connectivity cannot be validated.'')
                | Some None \<Rightarrow> with_advice (result_for True None server ip)
                    ''Source network not found in configuration. Connectivity cannot be validated.''
                | Some (Some src) \<Rightarrow>
                    (case server of
                       None \<Rightarrow> (with_advice (result_for True (Some src) None ip)
                         (''Server IP '' @ ip @ '' is not on any configured network. Make sure the server is on a network that devices can reach.''))
                           \<lparr>rs_blockedReason := Some NoRoute\<rparr>
                     | Some srv \<Rightarrow> network_verdict env config (ta_connections topology) src srv ip)))"

section \<open>A device\<close>

definition normalize_mac_text :: "string \<Rightarrow> string" where
  "normalize_mac_text m = map (\<lambda>c. if c = CHR ''-'' then CHR '':'' else c) (to_lower m)"

definition matching_policies :: "device_policy list \<Rightarrow> string option \<Rightarrow> device_policy list" where
  "matching_policies ps mac =
     (if truthy mac
      then filter (\<lambda>p. normalize_mac_text (the mac) \<in> set (map normalize_mac_text (dp_macs p))) ps
      else [])"

definition first_policy :: "device_policy list \<Rightarrow> string" where
  "first_policy ps = (case ps of [] \<Rightarrow> ''undefined'' | p # _ \<Rightarrow> show_opt (dp_name p))"

definition overridden ::
    "connection \<Rightarrow> network_node \<Rightarrow> network_node \<Rightarrow> string \<Rightarrow> string \<Rightarrow> device_policy list \<Rightarrow> string \<Rightarrow> server_reach" where
  "overridden c src srv ip details ps text =
     (result_for True (Some src) (Some srv) ip)
       \<lparr>rs_blockedReason := Some (Reason (dflt Isolation (co_blockReason c))),
        rs_blockDetails := (if co_blockedByIsolation c then Some details else None),
        rs_devicePolicies := Some (policy_refs_of ps), rs_hasDeviceOverride := Some True,
        rs_recommendation := Some text\<rparr>"

definition device_blocked ::
    "server_env \<Rightarrow> device_policy list \<Rightarrow> device_policy list \<Rightarrow> string option \<Rightarrow> connection \<Rightarrow> network_node \<Rightarrow> network_node \<Rightarrow> string \<Rightarrow> server_reach" where
  "device_blocked env ps matching mac c src srv ip =
     (if matching \<noteq> [] then
        overridden c src srv ip ''Network isolation is enabled, but device-specific policy overrides this.'' matching
          (''Device-specific policy '' @ quoted (first_policy matching) @
           '' should allow this device to connect despite network restrictions.'')
      else if ps \<noteq> [] \<and> \<not> truthy mac then
        overridden c src srv ip (isolated_on c @ '', but device-specific policies exist.'') ps
          (''Ensure the ESP32's MAC address is in the '' @ quoted (first_policy ps) @ '' policy's allowed clients list.'')
      else
        (result_for False (Some src) (Some srv) ip)
          \<lparr>rs_blockedReason := Some (Reason (dflt Firewall (co_blockReason c))),
           rs_blockDetails := Some (if co_blockedByIsolation c then isolated_on c @ ''.'' else rule_block_details c src srv),
           rs_firewallRules := Some (shown_rules c),
           rs_recommendation := Some (if co_blockedByIsolation c
             then ''Disable network isolation on '' @ quoted (show_opt (co_isolationSource c)) @
               '' or create a device-specific allow policy for this ESP32's MAC address.''
             else ''Create allow ACL/policy rules between this device's network and the server network on ports '' @
               PORT_HINT env @ ''. '' @ DIRECTIONAL_ACL_HINT)\<rparr>)"

definition device_verdict ::
    "server_env \<Rightarrow> (string \<times> json) list \<Rightarrow> connection list \<Rightarrow> string option \<Rightarrow> network_node \<Rightarrow> network_node \<Rightarrow> string \<Rightarrow> server_reach" where
  "device_verdict env config cs mac src srv ip =
     (if nn_id src = nn_id srv then (result_for True (Some src) (Some srv) ip)\<lparr>rs_blockedReason := Some SameNetwork\<rparr>
      else (let ps = findDeviceSpecificPolicies config; matching = matching_policies ps mac in
        case connection_between cs src srv of
          None \<Rightarrow>
            if matching \<noteq> [] then
              (result_for True (Some src) (Some srv) ip)
                \<lparr>rs_devicePolicies := Some (policy_refs_of matching), rs_hasDeviceOverride := Some True,
                 rs_recommendation := Some (''Device-specific policy '' @ quoted (first_policy matching) @ '' allows this device to connect.'')\<rparr>
            else no_route_result env src srv ip
        | Some c \<Rightarrow>
            if \<not> co_allowed c then device_blocked env ps matching mac c src srv ip
            else (result_for True (Some src) (Some srv) ip)
              \<lparr>rs_firewallRules := Some (shown_rules c),
               rs_devicePolicies := (if matching \<noteq> [] then Some (policy_refs_of matching) else None),
               rs_hasDeviceOverride := Some (matching \<noteq> [])\<rparr>))"

definition validateDeviceConnectivity ::
    "(string \<Rightarrow> string \<Rightarrow> int) \<Rightarrow> server_env \<Rightarrow> json option option \<Rightarrow> string \<Rightarrow> string option \<Rightarrow> server_reach" where
  "validateDeviceConnectivity cmp env active deviceIp deviceMac =
     (let ip = getServerIp env in
      case active of
        None \<Rightarrow> with_advice (result_for True None None ip) ''Error validating connectivity.''
      | Some row \<Rightarrow>
          if \<not> json_truthy (dflt JNull row)
          then with_advice (result_for True None None ip) ''No UniFi configuration found. Unable to validate connectivity.''
          else
            (let config = obj_fields (the row);
                 topology = analyzeTopology cmp config None;
                 server = findNetworkByIp ip (ta_networks topology)
             in case findNetworkByIp deviceIp (ta_networks topology) of
                  None \<Rightarrow> with_advice (result_for True None server ip)
                    (''Device IP '' @ deviceIp @ '' is not on any configured network. Connectivity cannot be validated.'')
                | Some src \<Rightarrow>
                    (case server of
                       None \<Rightarrow> (with_advice (result_for True (Some src) None ip)
                         (''Server IP '' @ ip @ '' is not on any configured network.''))\<lparr>rs_blockedReason := Some NoRoute\<rparr>
                     | Some srv \<Rightarrow> device_verdict env config (ta_connections topology) deviceMac src srv ip)))"

section \<open>The verdicts\<close>

text \<open>The networks of a configuration, and whether it blocks the path from one to another.\<close>

definition lan_networks :: "(string \<times> json) list \<Rightarrow> network_node list" where
  "lan_networks config = buildNetworkNodes (map read_network (extractArray config ''networkconf''))"

definition lan_isolated :: "(string \<times> json) list \<Rightarrow> network_node \<Rightarrow> network_node \<Rightarrow> bool" where
  "lan_isolated config = isolated_between (l3_settings (extractArray config ''setting''))"

definition rules_block :: "(string \<times> json) list \<Rightarrow> network_node \<Rightarrow> network_node \<Rightarrow> bool" where
  "rules_block config a b \<longleftrightarrow>
     (let nets = lan_networks config; groups = buildGroupMap (map read_group (extractArray config ''firewallgroup'')) in
      first_decision (rule_effects groups nets (map read_rule (extractArray config ''firewallrule''))
        @ policy_effects nets (map read_policy (extractArray config ''firewallpolicy''))) (nn_id a) (nn_id b) = Some False)"

definition plain_lan :: "(string \<times> json) list \<Rightarrow> bool" where
  "plain_lan config \<longleftrightarrow> plain_ids (lan_networks config) \<and> ''WAN'' \<notin> nn_id ` set (lan_networks config)"

lemma topology_networks: "ta_networks (analyzeTopology cmp config profile) = lan_networks config @ [wan_node]"
  by (simp add: analyzeTopology_def lan_networks_def Let_def)

lemma find_by_ip_lan: "findNetworkByIp ip (lan_networks config @ [wan_node]) = findNetworkByIp ip (lan_networks config)"
proof -
  have "find P (xs @ [wan_node]) = find P xs" if "\<not> P wan_node" for P xs
    using that by (induction xs) auto
  then show ?thesis by (simp add: findNetworkByIp_def wan_node_def truthy_def)
qed

lemma find_by_ip_mem: "findNetworkByIp ip nets = Some n \<Longrightarrow> n \<in> set nets"
  by (auto simp: findNetworkByIp_def find_Some_iff)

lemma lan_connection:
  assumes "plain_lan config" "a \<in> set (lan_networks config)" "b \<in> set (lan_networks config)" "nn_id a \<noteq> nn_id b"
  shows "\<exists>c. connection_between (ta_connections (analyzeTopology cmp config profile)) a b = Some c
    \<and> co_allowed c = (\<not> lan_isolated config a b \<and> \<not> rules_block config a b)
    \<and> co_blockedByIsolation c = lan_isolated config a b"
proof -
  let ?nets = "lan_networks config" and ?rules = "map read_rule (extractArray config ''firewallrule'')"
    and ?policies = "map read_policy (extractArray config ''firewallpolicy'')"
    and ?groups = "buildGroupMap (map read_group (extractArray config ''firewallgroup''))"
    and ?acls = "l3_settings (extractArray config ''setting'')"
  let ?cs = "buildConnections ?nets ?rules ?policies ?groups profile ?acls"
  let ?all = "ta_connections (analyzeTopology cmp config profile)"
  have plain: "plain_ids ?nets" and wan: "''WAN'' \<notin> nn_id ` set ?nets" using assms(1) by (auto simp: plain_lan_def)
  have all: "?all = ?cs @ buildWanConnections ?nets ?rules"
    unfolding analyzeTopology_def lan_networks_def Let_def topology_analysis.select_convs by (rule refl)
  have "(nn_id a, nn_id b) \<in> (\<lambda>c. (co_srcId c, co_dstId c)) ` set ?cs"
    using connections_complete [OF plain] assms by auto
  then have "connection_between ?all a b \<noteq> None"
    unfolding connection_between_def find_None_iff all by auto
  then obtain c where c: "connection_between ?all a b = Some c" by blast
  then have mem: "c \<in> set ?all" "co_srcId c = nn_id a" "co_dstId c = nn_id b"
    by (auto simp: connection_between_def find_Some_iff)
  have "c \<notin> set (buildWanConnections ?nets ?rules)"
    using mem(3) wan assms(3) by (auto simp: buildWanConnections_def wan_connection_def Let_def)
  then have "c \<in> set ?cs" using mem(1) all by simp
  then obtain x y where xy: "x \<in> set ?nets" "y \<in> set ?nets" "nn_id x \<noteq> nn_id y"
      and xc: "c = connection_of profile (final_pairs ?nets ?rules ?policies ?groups ?acls) x y"
    by (rule connectionE)
  then have "nn_id x = nn_id a" "nn_id y = nn_id b" using mem(2,3) by (simp_all add: connection_of_def Let_def)
  then have "x = a" "y = b" using xy assms(2,3) plain by (auto simp: plain_ids_def distinct_map dest: inj_onD)
  note v = connection_sel [OF plain xy, of profile ?rules ?policies ?groups ?acls, folded xc]
  have dflt_True: "dflt True d \<longleftrightarrow> d \<noteq> Some False" for d by (auto simp: dflt_def split: option.split)
  from \<open>x = a\<close> \<open>y = b\<close> show ?thesis using c v by (auto simp: lan_isolated_def rules_block_def Let_def dflt_True)
qed

text \<open>
  A policy for single devices that counts for a device: any such policy when the address of the device is
  not known, else one that lists the address.
\<close>

definition exempted :: "(string \<times> json) list \<Rightarrow> string option \<Rightarrow> bool" where
  "exempted config mac \<longleftrightarrow> (\<exists>p \<in> set (findDeviceSpecificPolicies config).
     truthy mac \<longrightarrow> normalize_mac_text (the mac) \<in> normalize_mac_text ` set (dp_macs p))"

lemma exempted_alt:
  "exempted config mac \<longleftrightarrow> matching_policies (findDeviceSpecificPolicies config) mac \<noteq> []
     \<or> (findDeviceSpecificPolicies config \<noteq> [] \<and> \<not> truthy mac)"
proof (cases "truthy mac")
  case True
  then show ?thesis by (simp add: exempted_def matching_policies_def filter_empty_conv)
next
  case False
  then show ?thesis
    by (cases "findDeviceSpecificPolicies config") (auto simp: exempted_def matching_policies_def)
qed

lemma with_advice_reach: "rs_canReachServer (with_advice r text) = rs_canReachServer r"
  by (simp add: with_advice_def)

lemma result_for_reach: "rs_canReachServer (result_for reach src srv ip) = reach"
  by (simp add: result_for_def)

lemmas reach_simps = with_advice_reach result_for_reach

lemma device_verdict_reach:
  assumes "plain_lan config" "a \<in> set (lan_networks config)" "b \<in> set (lan_networks config)"
  shows "rs_canReachServer (device_verdict env config (ta_connections (analyzeTopology cmp config None)) mac a b ip)
    \<longleftrightarrow> nn_id a = nn_id b \<or> (\<not> lan_isolated config a b \<and> \<not> rules_block config a b) \<or> exempted config mac"
proof (cases "nn_id a = nn_id b")
  case True
  then show ?thesis by (simp add: device_verdict_def reach_simps)
next
  case False
  from lan_connection [OF assms this, of cmp None] False show ?thesis
    by (auto simp: device_verdict_def device_blocked_def overridden_def reach_simps exempted_alt Let_def)
qed

lemma network_verdict_reach:
  assumes "plain_lan config" "a \<in> set (lan_networks config)" "b \<in> set (lan_networks config)"
  shows "rs_canReachServer (network_verdict env config (ta_connections (analyzeTopology cmp config None)) a b ip)
    \<longleftrightarrow> nn_id a = nn_id b \<or>
      (if lan_isolated config a b then findDeviceSpecificPolicies config \<noteq> [] else \<not> rules_block config a b)"
proof (cases "nn_id a = nn_id b")
  case True
  then show ?thesis by (simp add: network_verdict_def reach_simps)
next
  case False
  from lan_connection [OF assms this, of cmp None] False show ?thesis
    by (auto simp: network_verdict_def network_blocked_def reach_simps)
qed

lemma device_reach:
  assumes "plain_lan config"
  shows "rs_canReachServer (validateDeviceConnectivity cmp env (Some (Some (JObj config))) ip mac) \<longleftrightarrow>
    \<not> (\<exists>a b. findNetworkByIp ip (lan_networks config) = Some a \<and>
        findNetworkByIp (getServerIp env) (lan_networks config) = Some b \<and> nn_id a \<noteq> nn_id b \<and>
        (lan_isolated config a b \<or> rules_block config a b) \<and> \<not> exempted config mac)"
  using device_verdict_reach [OF assms]
  by (auto simp: validateDeviceConnectivity_def Let_def topology_networks find_by_ip_lan obj_fields_def reach_simps
      find_by_ip_mem split: option.split)

lemma source_by_id:
  assumes "plain_lan config" "n \<in> set (lan_networks config)"
  shows "source_node (lan_networks config @ [wan_node]) (nn_id n) = Some n"
proof -
  have "find (\<lambda>m. nn_id m = nn_id n) (xs @ [wan_node]) = Some n" if "distinct (map nn_id xs)" "n \<in> set xs" for xs
    using that by (induction xs) (auto simp: image_iff)
  then show ?thesis using assms by (simp add: source_node_def network_by_id_def plain_lan_def plain_ids_def)
qed

lemma network_reach:
  assumes "plain_lan config" "n \<in> set (lan_networks config)"
  shows "rs_canReachServer (validateNetworkConnectivity cmp env (Some (Some (JObj config))) (nn_id n) False) \<longleftrightarrow>
    \<not> (\<exists>b. findNetworkByIp (getServerIp env) (lan_networks config) = Some b \<and> nn_id n \<noteq> nn_id b \<and>
        (if lan_isolated config n b then findDeviceSpecificPolicies config = [] else rules_block config n b))"
  using network_verdict_reach [OF assms] source_by_id [OF assms]
  by (auto simp: validateNetworkConnectivity_def find_source_def Let_def topology_networks find_by_ip_lan obj_fields_def
      reach_simps find_by_ip_mem split: option.split)

text \<open>For a configuration whose network identifiers are plain, a device is reported to be cut off from the
  server exactly when both addresses are in networks of the configuration, the networks differ, isolation or the
  first rule for the pair blocks the path, and no policy for single devices counts for the device; a network is
  reported cut off exactly when isolation blocks its path and there is no policy for single devices at all, or
  rules alone block it.\<close>

lemma server_connectivity_exact:
  assumes "plain_lan config"
  shows "(rs_canReachServer (validateDeviceConnectivity cmp env (Some (Some (JObj config))) ip mac) \<longleftrightarrow>
      \<not> (\<exists>a b. findNetworkByIp ip (lan_networks config) = Some a \<and>
          findNetworkByIp (getServerIp env) (lan_networks config) = Some b \<and> nn_id a \<noteq> nn_id b \<and>
          (lan_isolated config a b \<or> rules_block config a b) \<and> \<not> exempted config mac))
    \<and> (\<forall>n \<in> set (lan_networks config).
        rs_canReachServer (validateNetworkConnectivity cmp env (Some (Some (JObj config))) (nn_id n) False) \<longleftrightarrow>
        \<not> (\<exists>b. findNetworkByIp (getServerIp env) (lan_networks config) = Some b \<and> nn_id n \<noteq> nn_id b \<and>
            (if lan_isolated config n b then findDeviceSpecificPolicies config = [] else rules_block config n b)))"
  using device_reach [OF assms] network_reach [OF assms] by simp

text \<open>
  Three networks, the first isolated; a policy lets the device \<open>AA-01\<close> reach the third one.  The server is on
  the second.
\<close>

definition sample_lan :: "string \<Rightarrow> string \<Rightarrow> bool \<Rightarrow> json" where
  "sample_lan i subnet isolated = JObj [(''_id'', JStr i), (''name'', JStr i), (''ip_subnet'', JStr subnet),
     (''network_isolation_enabled'', JBool isolated)]"

definition camera_config :: "(string \<times> json) list" where
  "camera_config =
     [(''networkConf'', JArr [sample_lan ''iot'' ''10.0.1.1/24'' True, sample_lan ''main'' ''10.0.2.1/24'' False,
        sample_lan ''nas'' ''10.0.3.1/24'' False]),
      (''firewallPolicies'', JArr [JObj [(''_id'', JStr ''p''), (''name'', JStr ''camera to nas''), (''action'', JStr ''ALLOW''),
        (''enabled'', JBool True),
        (''source'', JObj [(''matching_target'', JStr ''CLIENT''), (''client_macs'', JArr [JStr ''AA-01''])]),
        (''destination'', JObj [(''matching_target'', JStr ''NETWORK''), (''network_ids'', JArr [JStr ''nas''])])]])]"

definition camera_server :: server_env where
  "camera_server = \<lparr>se_hostIp = Some '' 10.0.2.5'', se_interfaces = [], se_mqttPort = ''1883'', se_apiPort = ''3000''\<rparr>"

lemma camera_facts:
  "plain_lan camera_config"
  "findNetworkByIp ''10.0.1.7'' (lan_networks camera_config) = Some (lan_networks camera_config ! 0)"
  "findNetworkByIp (getServerIp camera_server) (lan_networks camera_config) = Some (lan_networks camera_config ! 1)"
  "nn_id (lan_networks camera_config ! 0) \<noteq> nn_id (lan_networks camera_config ! 1)"
  "lan_isolated camera_config (lan_networks camera_config ! 0) (lan_networks camera_config ! 1)"
  "exempted camera_config (Some ''aa:01'')" "\<not> exempted camera_config (Some ''bb:02'')"
  by code_simp+

lemma server_connectivity_exact_witness:
  "\<not> rs_canReachServer (validateDeviceConnectivity (\<lambda>_ _. 0) camera_server (Some (Some (JObj camera_config))) ''10.0.1.7'' (Some ''bb:02''))
   \<and> rs_canReachServer (validateNetworkConnectivity (\<lambda>_ _. 0) camera_server (Some (Some (JObj camera_config)))
        (nn_id (lan_networks camera_config ! 0)) False)"
proof
  note exact = server_connectivity_exact [OF camera_facts(1), of "\<lambda>_ _. 0" camera_server "''10.0.1.7''" "Some ''bb:02''"]
  show "\<not> rs_canReachServer (validateDeviceConnectivity (\<lambda>_ _. 0) camera_server (Some (Some (JObj camera_config))) ''10.0.1.7'' (Some ''bb:02''))"
    using exact camera_facts by blast
  have "lan_networks camera_config ! 0 \<in> set (lan_networks camera_config)" "findDeviceSpecificPolicies camera_config \<noteq> []"
    by code_simp+
  then show "rs_canReachServer (validateNetworkConnectivity (\<lambda>_ _. 0) camera_server (Some (Some (JObj camera_config)))
        (nn_id (lan_networks camera_config ! 0)) False)"
    using exact camera_facts(3,5) by auto
qed

text \<open>
  The destination of a policy is not compared with the network of the server: a policy to another network
  makes an isolated device count as connected, and as an exception of every isolated network.
\<close>

lemma policy_to_another_network:
  "lan_isolated camera_config (lan_networks camera_config ! 0) (lan_networks camera_config ! 1)
   \<and> rs_canReachServer (validateDeviceConnectivity cmp camera_server (Some (Some (JObj camera_config))) ''10.0.1.7'' (Some ''aa:01''))"
  using device_reach [OF camera_facts(1)] camera_facts by blast

end
