(* ===== verification/Spec2Isabelle.thy ===== *)
theory Spec2Isabelle
  imports Detection_Service Dns_Allowlist Bucket_Detectors Test_Analysis Test_Composition Config_Analysis Intent_Analysis Device_Access Compromise_Correlation Rule_Scanner Config_Changes Server_Connectivity
begin

text \<open>
  A model of the backend of ZeroProof (\<open>backend/src\<close>, TypeScript): a service that watches a home network
  behind a UniFi controller.  It imports the configuration of the controller, works out which networks
  can reach each other, compares that with what the owner intends and with what probes on the networks
  measured, analyses the configuration for weaknesses, and runs detectors over the traffic and DNS rows it
  collects.

  \<^bold>\<open>Parts and how they interact.\<close>  The detection engine reads the flow, threat and DNS tables: the
  scheduler calls the runner, the runner calls each registered detector, and the persistence service
  merges the findings into the detections table; the DNS allowlist is consulted by the detectors on DNS
  rows.  The topology analyzer turns the raw configuration into networks, connections, device routes and
  device groups.  The reachability policy service joins that with the intent profile into one decision per
  ordered pair of networks.  The test generator turns the topology into probes; a route or the scheduler
  starts them on a device over MQTT, or on the server itself; the answers come back whole or in pieces, are
  merged into the stored results of the run, and the processor turns them into vulnerabilities.  The VLAN
  coverage service holds the decisions of the policy service against the results of test runs.  The
  analyzers of the configuration write their findings into the same table of vulnerabilities, and the
  intent analyzer answers with a score and a list of gaps.  The rule engine runs declarative rules over the
  normalised configuration; its analysis applies the dismissals of the user and may be stored as
  vulnerabilities.  Feeds fill a cache of indicators; two detectors hold traffic against that cache and
  corroborate what they find by the alerts of the controller.

  \<^bold>\<open>Language layer.\<close>  \<open>Js_Base\<close>: strings, falsy and nullish values, insertion-ordered sets and JSON
  values.  \<open>Js_Map\<close>: insertion-ordered maps, the locale \<open>js_map\<close> with the laws of a map and the
  accumulation loop that every detector runs, interpreted on the maps of the model.  \<open>Js_Number\<close>:
  \<open>Number\<close>, \<open>parseInt\<close> and number texts.  \<open>Js_Double\<close>: the rounding of sums to doubles, and from where adding one
  has no effect.  \<open>Js_Json\<close>: typed field access, \<open>JSON.stringify\<close>, coercions and
  the matcher for the regular expressions.  \<open>Js_Parse\<close>: \<open>JSON.parse\<close>, and that it reads back what
  \<open>JSON.stringify\<close> writes.  \<open>Keyed_Table\<close>: the locale \<open>keyed_table\<close> with the contract of
  one upsert on a table with a unique key, interpreted by the detection service, the allowlist and the cache of
  indicators.  \<open>Js_Value\<close>: strict equality, members and array functions on values of unknown shape.

  \<^bold>\<open>Detection.\<close>
  \<^item> \<open>Detection_Types\<close>: \<open>detectors/framework.ts\<close>, the contract of a detector.
  \<^item> \<open>Dedupe_Detectors\<close>: \<open>dnsBypass.ts\<close>, \<open>adminPortEgress.ts\<close>, \<open>highRiskCountryEgress.ts\<close> and
    \<open>honeypotHit.ts\<close>, which keep one finding per fingerprint while they read the rows.
  \<^item> \<open>Bucket_Detectors\<close>: \<open>internalScanning.ts\<close>, \<open>highEgressVolume.ts\<close>, \<open>repeatingThreat.ts\<close> and
    \<open>dnsTunneling.ts\<close>, which group the rows first and then apply a threshold.
  \<^item> \<open>Dns_Allowlist\<close>: \<open>services/dnsAllowlist.ts\<close>, the built-in categories, the entries of the user and the
    snapshot the detectors match against.
  \<^item> \<open>Detection_Service\<close>: \<open>services/detection/detectionService.ts\<close>, \<open>detectors/runner.ts\<close>,
    \<open>detectors/registry.ts\<close> and \<open>detectors/ruleLoader.ts\<close>.
  \<^item> \<open>Detector_Identity\<close>: \<open>detectors/identity.ts\<close>, addresses in normal form, the identity of an event and the
    fingerprint of a finding; \<open>Threat_Intel\<close>: \<open>services/threatIntel\<close>, the feeds and the cache of indicators.
  \<^item> \<open>Ioc_Match\<close>: \<open>detectors/iocMatch.ts\<close>, which pages through flows and queries and looks them up in the cache;
    \<open>Compromise_Correlation\<close>: \<open>detectors/validatedCompromise.ts\<close>, which joins its stored findings with alerts.

  \<^bold>\<open>Topology and policy.\<close>
  \<^item> \<open>Topology_Types\<close>, \<open>Topology_Connections\<close>, \<open>Topology_Devices\<close>: \<open>services/topologyAnalyzer.ts\<close>, first its data,
    then networks, rules, policies and connections, then routes, warnings, device groups and the whole
    analysis.
  \<^item> \<open>Reachability\<close>: \<open>services/reachabilityPolicyService.ts\<close>.
  \<^item> \<open>Device_Access\<close>: \<open>services/deviceAccessRules.ts\<close>, the rules on single devices and their ports.
  \<^item> \<open>Server_Connectivity\<close>: \<open>services/networkConnectivityService.ts\<close>, whether a network or a device reaches the server.
  \<^item> \<open>Ip_Subnet\<close>: \<open>ipInSubnet\<close> of \<open>services/vlanCoverageService.ts\<close> on 32-bit words.
  \<^item> \<open>Vlan_Coverage\<close>: the rest of that service, from the choice of the test run to the coverage report.

  \<^bold>\<open>Tests.\<close>
  \<^item> \<open>Test_Generator\<close> and \<open>Test_Analysis\<close>: \<open>services/topologyTestGenerator.ts\<close>, the probes of a test and the
    findings about their answers; \<open>Honeypot_Service\<close>: \<open>services/honeypotService.ts\<close>, the endpoints to leave out.
  \<^item> \<open>Test_Results\<close>: \<open>services/testRunResultsJson.ts\<close>, what is stored of the answers; \<open>Test_Processor\<close>:
    \<open>services/testProcessor.ts\<close> and \<open>vulnerabilityDispositionService.ts\<close>, the vulnerabilities.
  \<^item> \<open>Test_Runs\<close>: the state of the server (rows of runs and devices, messages sent, buffers, timers);
    \<open>Mqtt_Service\<close>: the handlers of \<open>mqtt/index.ts\<close>; \<open>Local_Executor\<close>: \<open>services/localTestExecutor.ts\<close>;
    \<open>Test_Scheduling\<close> and \<open>Test_Routes\<close>: \<open>services/autoValidationService.ts\<close>, the routes of
    \<open>api/routes/tests.ts\<close> that start and cancel, and the jobs of \<open>scheduler.ts\<close>.
  \<^item> \<open>Test_Chunks\<close>: results in pieces.  \<open>Test_Lifecycle\<close>: every handler, route and job as a step of the relation
    \<open>life_step\<close>, with the locale \<open>step_invariant\<close> for what all reachable states satisfy.  \<open>Test_Outcomes\<close>: how runs
    end.  \<open>Test_Composition\<close>: a topology test from its start to its vulnerabilities.

  \<^bold>\<open>Analyzers.\<close>
  \<^item> \<open>Config_Types\<close>: \<open>utils/configNormalizer.ts\<close> and the interfaces of \<open>types/index.ts\<close> that the analyzers read.
  \<^item> \<open>Static_Analyzers\<close>: \<open>analyzers/vlanAnalyzer.ts\<close>, \<open>portForwardAnalyzer.ts\<close>, \<open>wlanAnalyzer.ts\<close> and
    \<open>firewallAnalyzer.ts\<close>; \<open>Firmware_Advisories\<close>: \<open>firmwareAdvisoryAnalyzer.ts\<close> with its data and version
    comparison; \<open>Dns_Proxy_Analyzers\<close>: \<open>dnsProxyAnalyzer.ts\<close> and \<open>dnsProxyClientAnalyzer.ts\<close>.
  \<^item> \<open>Config_Analysis\<close>: \<open>analyzeConfiguration\<close> of \<open>analyzers/index.ts\<close>, which runs them all and replaces the
    stored rows.
  \<^item> \<open>Rule_Engine\<close>: \<open>services/ruleLoader/ruleEngine.ts\<close>, conditions, filters, templates and the execution of rules;
    \<open>Rule_Order\<close>: what a rule reads and writes, with the locale \<open>agreeing\<close> for configurations that agree on the
    fields a rule reads; \<open>Rule_Reports\<close>: what the rules report.
  \<^item> \<open>Config_Normal\<close>: \<open>normalizeConfig\<close> of \<open>scanners/index.ts\<close>; \<open>Optimization_Rules\<close>:
    \<open>scanners/rules/optimization.ts\<close>; \<open>Rule_Scanner\<close>: the analyses of \<open>scanners/index.ts\<close> and how
    \<open>api/routes/security.ts\<close> stores them.
  \<^item> \<open>Config_Changes\<close>: \<open>services/configChangeService.ts\<close>, the history of the configurations.
  \<^item> \<open>Intent_Settings\<close> and \<open>Intent_Analysis\<close>: \<open>analyzers/intentAnalyzer.ts\<close>, each setting, then dismissals, score
    and verdict.

  \<^bold>\<open>What the lemmas show.\<close>  For the detectors: which rows lead to which findings, once each, with the
  severity and evidence of the source, and where a counter is capped.  For persistence: one row per
  fingerprint, the greatest severity and the sum of the occurrences, and that no fault of one detector
  costs another its findings.  For the allowlist: exactly which queries match.  For the topology: the
  verdict of each pair from isolation and the first rule that applies, the violations of the intent, one
  connection per pair, and the partition of the devices into groups.  For the policy service: the order
  of precedence of the intent, and that the evaluator repeats the verdict of the analyzer.  For coverage:
  the exact evidence behind each verdict, bounds on its confidence, which run is used, and the counts.
  For tests: the commands of a plan, that pieces of a result add up to the whole, that a started test is
  alone on its device, the invariants of every reachable state, how runs end, that a finding has one row
  and keeps what the user decided, and the whole way from the plan to the vulnerabilities.  For the
  analyzers: what disabled settings contribute, the comparison of versions, that no affected console is
  missed, when clients are reported as unknown, that an analysis replaces exactly its rows, and what the score and
  the verdict of the intent analysis mean.  For identities: that a stored identity reads back, that addresses in
  normal form are the same exactly when they denote the same host, and when two findings share a fingerprint;
  for indicators: what the cache holds after a refresh, one finding per fingerprint of a sighting, and which
  alerts corroborate it.  For device access: what the policies and rules of a configuration say of an address, and
  when the expansion of port ranges ends; for the server: which networks and devices are reported as cut off.  For rules: that the fields one rule writes are not observed by another, which items a rule
  reports, what an exception hides, which configurations can be normalised and what comes out, that the counts
  of an analysis add up its findings, and that stored rows keep the decisions of the user; for the history: that
  its rows replay one configuration to the next.

  \<^bold>\<open>Conventions.\<close>  A string is its UTF-8 text; case folding is the one of ASCII.  A configuration field
  of another type than its interface declares is read as absent.  Doubles are rationals, entropies are
  reals; the score of the intent analysis has at most 17 settings, for which rationals and doubles round
  alike, and the sums of the port ranges, where rounding decides whether the loop ends, are rounded as
  \<open>Js_Double\<close> says.  A database table is the list of its rows, and a query a filter of it; where an operation can
  fail, a stream of faults says which does; the order of the database on text is the lexicographic one.  Times are milliseconds since the epoch, and the clock is an
  argument.  An exception is a value of a sum or option type.  What the code takes from libraries is an
  argument: the YAML parser, the engine for the regular expressions of rule files, the digest of a fingerprint,
  \<open>localeCompare\<close>, how the database layer reads one condition, and what the operating system, the network, the
  feeds and the DNS proxy answer.  Nothing is assumed of the digest: where a statement needs two texts to have
  different digests it names the texts.  Log lines are left out.  \<open>xs.sort\<close> is a stable
  insertion sort by the comparator of the source.  The loops of the source run over finite lists and become
  folds or structural recursion.  Fuel occurs once, in the parser of \<open>Js_Parse\<close>: it is \<open>2 * length + 2\<close>
  of the text, and the lemmas there show that this is enough for every text that \<open>JSON.stringify\<close> writes.  The
  loop over the pages of a table ends because every page but the last moves the cursor past rows; the loop over
  a range of ports may not end, so it is a partial function, and \<open>None\<close> means that it does not.

  \<^bold>\<open>Not modelled.\<close>  The loader of the rule files, which reads a directory tree and keeps its contents; the
  timeline and the rows it gets from old logs, which are queries of the database and
  of the controller; the telemetry services, which page over remote interfaces and aggregate in SQL; the
  polling of the DNS proxy and of the controller and the downloads of rules, which are sessions over HTTP;
  updates, accounts and notifications; the routes that only read; encryption and logging; the HTTP, MQTT and
  process layers; and the web front end and the firmware, which are views and drivers.
\<close>

end
